(* ===== verification/VoxPrelude.thy ===== *)
theory VoxPrelude
  imports Complex_Main "HOL-Library.Word" "HOL-Library.Signed_Division"
begin

text \<open>
  What the components share: the byte type and the little-endian integers of
  \<^verbatim>\<open>encoding/binary\<close>, Go's error values, the replies a neighbour gives to a pushed item,
  runs of a state machine over a list of events, and the generic facts about them.
\<close>

unbundle bit_operations_syntax

type_synonym byte = "8 word"
type_synonym u16 = "16 word"
type_synonym i16 = "16 word"
type_synonym u32 = "32 word"
type_synonym u64 = "64 word"

text \<open>A Go error is carried by its message; the nil error is \<open>None\<close>.\<close>

type_synonym err = string

named_theorems bytes_simps "little-endian encodings and their inverses"
named_theorems step_simps "unfolding of component steps"
named_theorems inv_intros "preservation of component invariants"

section \<open>Little-endian integers\<close>

definition le16 :: "byte \<Rightarrow> byte \<Rightarrow> u16" where
  "le16 lo hi = ucast lo OR push_bit 8 (ucast hi)"

definition lo_byte :: "u16 \<Rightarrow> byte" where
  "lo_byte w = ucast w"

definition hi_byte :: "u16 \<Rightarrow> byte" where
  "hi_byte w = ucast (drop_bit 8 w)"

definition put16 :: "u16 \<Rightarrow> byte list" where
  "put16 w = [lo_byte w, hi_byte w]"

definition put32 :: "u32 \<Rightarrow> byte list" where
  "put32 w = [ucast w, ucast (drop_bit 8 w), ucast (drop_bit 16 w), ucast (drop_bit 24 w)]"

definition get32 :: "byte list \<Rightarrow> u32" where
  "get32 b = ucast (b ! 0) OR push_bit 8 (ucast (b ! 1))
     OR push_bit 16 (ucast (b ! 2)) OR push_bit 24 (ucast (b ! 3))"

definition get16 :: "byte list \<Rightarrow> u16" where
  "get16 b = le16 (b ! 0) (b ! 1)"

lemma le16_split [bytes_simps, simp]: "le16 (lo_byte w) (hi_byte w) = w"
  by (rule bit_word_eqI)
    (auto simp: le16_def lo_byte_def hi_byte_def bit_simps)

lemma lo_byte_le16 [bytes_simps, simp]: "lo_byte (le16 a b) = a"
  by (rule bit_word_eqI) (auto simp: le16_def lo_byte_def bit_simps)

lemma hi_byte_le16 [bytes_simps, simp]: "hi_byte (le16 a b) = b"
  by (rule bit_word_eqI)
    (auto simp: le16_def hi_byte_def bit_simps dest: bit_imp_le_length)

lemma get16_put16 [bytes_simps, simp]: "get16 (put16 w @ r) = w"
  by (simp add: get16_def put16_def)

lemma get32_put32 [bytes_simps, simp]: "get32 (put32 w @ r) = w"
proof (rule bit_word_eqI)
  fix n
  assume "n < LENGTH(32)"
  then consider "n < 8" | "8 \<le> n" "n < 16" | "16 \<le> n" "n < 24" | "24 \<le> n" "n < 32"
    by force
  then show "bit (get32 (put32 w @ r)) n = bit w n"
    by cases (auto simp: get32_def put32_def bit_simps)
qed

lemma length_put16 [simp]: "length (put16 w) = 2"
  by (simp add: put16_def)

lemma length_put32 [simp]: "length (put32 w) = 4"
  by (simp add: put32_def)

lemma unat_byte_less [simp]: "unat (b :: byte) < 256"
  using unsigned_less [of b, where ?'a = nat] by simp

lemma bit7_nat:
  assumes "n < 256"
  shows "bit (n :: nat) 7 \<longleftrightarrow> 128 \<le> n"
proof -
  have "n div 128 = (if 128 \<le> n then 1 else 0)"
    using assms by (auto intro!: div_nat_eqI)
  then show ?thesis by (simp add: bit_iff_odd)
qed

lemma bit7_unat: "bit (b :: byte) 7 \<longleftrightarrow> 128 \<le> unat b"
  using bit7_nat [OF unat_byte_less] by (simp add: bit_unsigned_iff)

section \<open>Replies of a neighbour\<close>

text \<open>
  A handler pushes items to its neighbours one after the other and returns the first error.
  \<open>rsp\<close> is what the neighbour answers; the result is the items that were offered (the
  failing one included) and the error.
\<close>

fun push_seq :: "('o \<Rightarrow> err option) \<Rightarrow> 'o list \<Rightarrow> 'o list \<times> err option" where
  "push_seq rsp [] = ([], None)"
| "push_seq rsp (x # xs) =
     (case rsp x of
        Some e \<Rightarrow> ([x], Some e)
      | None \<Rightarrow> (let (ys, e) = push_seq rsp xs in (x # ys, e)))"

lemma push_seq_ok:
  "(\<And>x. x \<in> set xs \<Longrightarrow> rsp x = None) \<Longrightarrow> push_seq rsp xs = (xs, None)"
  by (induction xs) auto

lemma push_seq_prefix: "\<exists>zs. xs = fst (push_seq rsp xs) @ zs"
  by (induction xs) (auto split: option.splits prod.splits)

lemma push_seq_none_iff:
  "snd (push_seq rsp xs) = None \<longleftrightarrow> (\<forall>x \<in> set xs. rsp x = None)"
  by (induction xs) (auto split: option.splits prod.splits)

section \<open>Runs of a state machine\<close>

fun run :: "('s \<Rightarrow> 'e \<Rightarrow> 's \<times> 'o list) \<Rightarrow> 's \<Rightarrow> 'e list \<Rightarrow> 's \<times> 'o list" where
  "run step s [] = (s, [])"
| "run step s (e # es) =
     (let (s1, o1) = step s e; (s2, o2) = run step s1 es in (s2, o1 @ o2))"

lemma run_append:
  "run step s (xs @ ys) =
     (let (s1, o1) = run step s xs; (s2, o2) = run step s1 ys in (s2, o1 @ o2))"
  by (induction xs arbitrary: s) (auto split: prod.splits)

text \<open>The outputs of a run, step by step.\<close>

fun trace :: "('s \<Rightarrow> 'e \<Rightarrow> 's \<times> 'o list) \<Rightarrow> 's \<Rightarrow> 'e list \<Rightarrow> 'o list list" where
  "trace step s [] = []"
| "trace step s (e # es) = snd (step s e) # trace step (fst (step s e)) es"

lemma length_trace [simp]: "length (trace step s es) = length es"
  by (induction es arbitrary: s) simp_all

lemma run_trace: "snd (run step s es) = concat (trace step s es)"
  by (induction es arbitrary: s) (simp_all add: case_prod_beta Let_def)

lemma run_Cons_fst [simp]: "fst (run step s (e # es)) = fst (run step (fst (step s e)) es)"
  and run_Cons_snd [simp]:
    "snd (run step s (e # es)) = snd (step s e) @ snd (run step (fst (step s e)) es)"
  by (simp_all add: case_prod_beta Let_def)

locale machine =
  fixes step :: "'s \<Rightarrow> 'e \<Rightarrow> 's \<times> 'o list"
    and inv :: "'s \<Rightarrow> bool"
  assumes step_inv: "inv s \<Longrightarrow> inv (fst (step s e))"
begin

lemma run_inv: "inv s \<Longrightarrow> inv (fst (run step s es))"
proof (induction es arbitrary: s)
  case Nil
  then show ?case by simp
next
  case (Cons e es)
  from Cons.prems have "inv (fst (step s e))" by (rule step_inv)
  then have "inv (fst (run step (fst (step s e)) es))" by (rule Cons.IH)
  then show ?case by (auto simp: case_prod_beta Let_def)
qed

text \<open>A law between what a step consumes, emits and keeps carries over to runs.\<close>

lemma run_conserves:
  assumes "\<And>s e. inv s \<Longrightarrow> out (snd (step s e)) @ kept (fst (step s e)) = kept s @ inp e"
    and "\<And>xs ys. out (xs @ ys) = out xs @ out ys" "out [] = []"
  shows "inv s \<Longrightarrow>
    out (snd (run step s es)) @ kept (fst (run step s es)) = kept s @ concat (map inp es)"
proof (induction es arbitrary: s)
  case Nil
  then show ?case by (simp add: assms)
next
  case (Cons e es)
  let ?s = "fst (step s e)" and ?o = "out (snd (step s e))"
  have "out (snd (run step ?s es)) @ kept (fst (run step ?s es)) = kept ?s @ concat (map inp es)"
    using Cons step_inv by blast
  then have "(?o @ out (snd (run step ?s es))) @ kept (fst (run step ?s es)) =
      (?o @ kept ?s) @ concat (map inp es)" by simp
  also have "\<dots> = (kept s @ inp e) @ concat (map inp es)"
    by (simp only: assms(1) [OF Cons.prems, of e])
  finally show ?case by (simp add: assms(2) del: run.simps)
qed

end

locale machine_out = machine step inv
  for step :: "'s \<Rightarrow> 'e \<Rightarrow> 's \<times> 'o list" and inv :: "'s \<Rightarrow> bool" +
  fixes ok :: "'o \<Rightarrow> bool"
  assumes step_ok: "inv s \<Longrightarrow> list_all ok (snd (step s e))"
begin

lemma run_ok: "inv s \<Longrightarrow> list_all ok (snd (run step s es))"
proof (induction es arbitrary: s)
  case Nil
  then show ?case by simp
next
  case (Cons e es)
  have "inv (fst (step s e))" using Cons.prems by (rule step_inv)
  then have "list_all ok (snd (run step (fst (step s e)) es))" by (rule Cons.IH)
  with step_ok [OF Cons.prems, of e] show ?case by (simp add: case_prod_beta Let_def)
qed

end

end
