(* ===== verification/AudioPcm.thy ===== *)
theory AudioPcm
  imports VoxPrelude
begin

text \<open>
  Sample-level helpers of \<^verbatim>\<open>pkg/audio\<close>: the frame count, mixing two mono buffers and
  interleaving two mono buffers into a stereo one. A sample is a 16-bit word, read as signed
  with \<open>sint\<close>; a buffer is its list of bytes. The nil slice and the empty slice are both
  \<open>[]\<close>.
\<close>

definition PCM16MonoNumFrames :: "byte list \<Rightarrow> nat" where
  "PCM16MonoNumFrames b = length b div 2"

text \<open>The samples of a buffer; an odd last byte is no sample.\<close>

fun samples_of :: "byte list \<Rightarrow> i16 list" where
  "samples_of (lo # hi # r) = le16 lo hi # samples_of r"
| "samples_of _ = []"

fun bytes_of_samples :: "i16 list \<Rightarrow> byte list" where
  "bytes_of_samples [] = []"
| "bytes_of_samples (s # r) = put16 s @ bytes_of_samples r"

lemma length_samples_of [simp]: "length (samples_of b) = PCM16MonoNumFrames b"
  by (induction b rule: samples_of.induct) (auto simp: PCM16MonoNumFrames_def)

lemma length_bytes_of_samples [simp]: "length (bytes_of_samples s) = 2 * length s"
  by (induction s) auto

lemma samples_of_bytes [simp]: "samples_of (bytes_of_samples s @ []) = s"
  by (induction s) (auto simp: put16_def)

lemma samples_of_bytes' [simp]: "samples_of (bytes_of_samples s) = s"
  using samples_of_bytes [of s] by simp

lemma bytes_of_samples_of: "even (length b) \<Longrightarrow> bytes_of_samples (samples_of b) = b"
  by (induction b rule: samples_of.induct) (auto simp: put16_def)

section \<open>MixMono\<close>

definition mix_sample :: "i16 \<Rightarrow> i16 \<Rightarrow> i16" where
  "mix_sample u b =
     (let mixed = (sint u + sint b) sdiv 2;
          m1 = (if mixed > 32767 then 32767 else mixed);
          m2 = (if m1 < - 32768 then - 32768 else m1)
      in word_of_int m2)"

text \<open>
  The loop reads two bytes of each buffer, or a zero sample where the buffer has fewer than two
  bytes left, and stops when the longer buffer has fewer than two bytes left; a last odd byte of
  the output keeps the zero it was allocated with.
\<close>

definition head_sample :: "byte list \<Rightarrow> i16" where
  "head_sample b = (case b of lo # hi # _ \<Rightarrow> le16 lo hi | _ \<Rightarrow> 0)"

function MixMono :: "byte list \<Rightarrow> byte list \<Rightarrow> byte list" where
  "MixMono usr bt =
     (let n = max (length usr) (length bt)
      in if n = 0 then []
         else if n = 1 then [0]
         else put16 (mix_sample (head_sample usr) (head_sample bt))
                @ MixMono (drop 2 usr) (drop 2 bt))"
  by pat_completeness auto
termination
proof (relation "measure (\<lambda>(usr, bt). max (length usr) (length bt))")
  fix usr bt :: "byte list" and n
  assume "n = max (length usr) (length bt)" "n \<noteq> 0" "n \<noteq> 1"
  then show "((drop 2 usr, drop 2 bt), usr, bt) \<in> measure (\<lambda>(usr, bt). max (length usr) (length bt))"
    unfolding in_measure prod.case length_drop by linarith
qed simp

declare MixMono.simps [simp del]

lemma max_length_drop2:
  "max (length (drop 2 u)) (length (drop 2 b)) = max (length u) (length b) - 2"
  unfolding length_drop by linarith

lemma MixMono_Nil [simp]: "MixMono [] [] = []"
  by (simp add: MixMono.simps)

lemma MixMono_one: "max (length u) (length b) = 1 \<Longrightarrow> MixMono u b = [0]"
  by (simp add: MixMono.simps [of u b])

lemma MixMono_step:
  "2 \<le> max (length u) (length b) \<Longrightarrow>
   MixMono u b = put16 (mix_sample (head_sample u) (head_sample b)) @ MixMono (drop 2 u) (drop 2 b)"
proof -
  assume "2 \<le> max (length u) (length b)"
  then have "max (length u) (length b) \<noteq> 0" "max (length u) (length b) \<noteq> 1" by linarith+
  then show ?thesis by (subst MixMono.simps) (simp only: Let_def if_False)
qed

lemma max_length_drop2_less:
  "2 \<le> max (length u) (length b) \<Longrightarrow>
   max (length (drop 2 u)) (length (drop 2 b)) < max (length u) (length b)"
  unfolding max_length_drop2 by linarith

lemma MixMono_cases [case_names empty one more]:
  obtains "u = []" "b = []" | "max (length u) (length b) = 1" | "2 \<le> max (length u) (length b)"
  by (cases "max (length u) (length b)") (force, (cases "max (length u) (length b) = 1"; force))

lemma sint_word_of_int16: "- 32768 \<le> x \<Longrightarrow> x \<le> 32767 \<Longrightarrow> sint (word_of_int x :: i16) = x"
  by (rule signed_take_bit_int_eq_self [THEN trans [OF sint_sbintrunc']]) auto

lemma sint16_bounds: "- 32768 \<le> sint (w :: i16) \<and> sint w \<le> 32767"
  using sint_ge [of w] sint_lt [of w] by auto

lemma mix_sample_exact: "sint (mix_sample u b) = (sint u + sint b) sdiv 2"
proof -
  have b: "- 32768 \<le> sint u" "sint u \<le> 32767" "- 32768 \<le> sint b" "sint b \<le> 32767"
    using sint_ge [of u] sint_lt [of u] sint_ge [of b] sint_lt [of b] by auto
  let ?m = "(sint u + sint b) sdiv 2"
  have r: "- 32768 \<le> ?m" "?m \<le> 32767"
    using b by (auto simp: signed_divide_int_def sgn_if abs_if)
  then have "sint (word_of_int ?m :: i16) = ?m"
    by (rule sint_word_of_int16)
  with r show ?thesis by (simp add: mix_sample_def Let_def)
qed

lemma mix_sample_comm: "mix_sample u b = mix_sample b u"
  by (simp add: mix_sample_def add.commute)

lemma length_MixMono: "length (MixMono u b) = max (length u) (length b)"
proof (induction "max (length u) (length b)" arbitrary: u b rule: less_induct)
  case less
  show ?case
  proof (cases u b rule: MixMono_cases)
    case more
    then have "length (MixMono (drop 2 u) (drop 2 b)) = max (length u) (length b) - 2"
      by (metis less max_length_drop2 max_length_drop2_less)
    with more show ?thesis by (simp only: MixMono_step length_append length_put16)
  qed (simp_all add: MixMono_one)
qed

lemma MixMono_comm: "MixMono u b = MixMono b u"
proof (induction "max (length u) (length b)" arbitrary: u b rule: less_induct)
  case less
  show ?case
  proof (cases u b rule: MixMono_cases)
    case one
    then show ?thesis by (simp add: MixMono_one max.commute)
  next
    case more
    then have "MixMono (drop 2 u) (drop 2 b) = MixMono (drop 2 b) (drop 2 u)"
      by (intro less max_length_drop2_less)
    with more show ?thesis
      by (simp add: MixMono_step max.commute mix_sample_comm del: max_length_drop2)
  qed simp
qed

text \<open>The value of the \<open>i\<close>-th sample, zero past the end of the buffer.\<close>

definition sample_at :: "byte list \<Rightarrow> nat \<Rightarrow> int" where
  "sample_at b i = (if i < PCM16MonoNumFrames b then sint (samples_of b ! i) else 0)"

lemma sample_at_0: "sample_at b 0 = sint (head_sample b)"
  by (cases b rule: samples_of.cases)
    (auto simp: sample_at_def head_sample_def PCM16MonoNumFrames_def)

lemma sample_at_Suc: "sample_at b (Suc i) = sample_at (drop 2 b) i"
  by (cases b rule: samples_of.cases)
    (auto simp: sample_at_def PCM16MonoNumFrames_def)

lemma MixMono_sample_at:
  assumes "i < max (length u) (length b) div 2"
  shows "sample_at (MixMono u b) i = (sample_at u i + sample_at b i) sdiv 2"
  using assms
proof (induction i arbitrary: u b)
  case 0
  then have "2 \<le> max (length u) (length b)" by linarith
  then show ?case
    by (simp add: MixMono_step sample_at_0 mix_sample_exact put16_def head_sample_def [of "_ # _"])
next
  case (Suc i)
  then have m: "2 \<le> max (length u) (length b)" by linarith
  have i: "i < max (length (drop 2 u)) (length (drop 2 b)) div 2"
    using Suc.prems unfolding max_length_drop2 by linarith
  have "sample_at (MixMono u b) (Suc i) = sample_at (MixMono (drop 2 u) (drop 2 b)) i"
    using m by (simp add: MixMono_step sample_at_Suc put16_def)
  also have "\<dots> = (sample_at (drop 2 u) i + sample_at (drop 2 b) i) sdiv 2"
    using i by (rule Suc.IH)
  finally show ?case by (simp add: sample_at_Suc)
qed

section \<open>InterleaveStereo\<close>

definition channel_bytes :: "byte list \<Rightarrow> nat \<Rightarrow> byte list" where
  "channel_bytes ch s = (if 2 * s + 1 < length ch then [ch ! (2 * s), ch ! (2 * s + 1)] else [0, 0])"

definition InterleaveStereo :: "byte list \<Rightarrow> byte list \<Rightarrow> byte list" where
  "InterleaveStereo left right =
     (let samples = max (length left div 2) (length right div 2)
      in concat (map (\<lambda>s. channel_bytes left s @ channel_bytes right s) [0..<samples]))"

lemma samples_of_append_even:
  "even (length a) \<Longrightarrow> samples_of (a @ b) = samples_of a @ samples_of b"
  by (induction a rule: samples_of.induct) auto

lemma samples_of_nth: "i < length b div 2 \<Longrightarrow> samples_of b ! i = le16 (b ! (2 * i)) (b ! (2 * i + 1))"
proof (induction b arbitrary: i rule: samples_of.induct)
  case (1 lo hi r)
  then show ?case by (cases i) auto
qed auto

lemma samples_of_channel_bytes:
  "samples_of (channel_bytes ch s) = [word_of_int (sample_at ch s)]"
  by (auto simp: channel_bytes_def sample_at_def samples_of_nth PCM16MonoNumFrames_def le16_def)

lemma length_channel_bytes [simp]: "length (channel_bytes ch s) = 2"
  by (simp add: channel_bytes_def)

lemma samples_of_interleaved:
  "samples_of (concat (map (\<lambda>s. channel_bytes l s @ channel_bytes r s) ss)) =
     concat (map (\<lambda>s. [word_of_int (sample_at l s), word_of_int (sample_at r s)]) ss)"
  by (induction ss) (auto simp: samples_of_append_even samples_of_channel_bytes)

lemma length_concat_pairs: "length (concat (map (\<lambda>s. [f s, g s]) ss)) = 2 * length ss"
  by (induction ss) auto

lemma nth_concat_pairs:
  "i < length ss \<Longrightarrow> concat (map (\<lambda>s. [f s, g s]) ss) ! (2 * i) = f (ss ! i) \<and>
     concat (map (\<lambda>s. [f s, g s]) ss) ! (2 * i + 1) = g (ss ! i)"
proof (induction ss arbitrary: i)
  case (Cons a ss)
  then show ?case by (cases i) auto
qed simp

lemma sample_at_of_word [simp]: "sint (word_of_int (sample_at b i) :: i16) = sample_at b i"
  by (simp add: sample_at_def)

lemma length_InterleaveStereo:
  "length (InterleaveStereo l r) = 4 * max (length l div 2) (length r div 2)"
proof -
  have "length (concat (map (\<lambda>s. channel_bytes l s @ channel_bytes r s) ss)) = 4 * length ss" for ss
    by (induction ss) auto
  then show ?thesis by (simp add: InterleaveStereo_def Let_def)
qed

lemma InterleaveStereo_channels:
  assumes "i < max (length l div 2) (length r div 2)"
  shows "sample_at (InterleaveStereo l r) (2 * i) = sample_at l i"
    and "sample_at (InterleaveStereo l r) (2 * i + 1) = sample_at r i"
proof -
  let ?n = "max (length l div 2) (length r div 2)"
  let ?P = "concat (map (\<lambda>s. [word_of_int (sample_at l s), word_of_int (sample_at r s)]) [0..<?n]) :: i16 list"
  have s: "samples_of (InterleaveStereo l r) = ?P"
    by (simp add: InterleaveStereo_def Let_def samples_of_interleaved)
  have nf: "PCM16MonoNumFrames (InterleaveStereo l r) = 2 * ?n"
    by (simp add: PCM16MonoNumFrames_def length_InterleaveStereo)
  from assms have i: "i < length [0..<?n]" by simp
  note nth = nth_concat_pairs [OF i, of "\<lambda>s. word_of_int (sample_at l s)" "\<lambda>s. word_of_int (sample_at r s)"]
  have "?P ! (2 * i) = word_of_int (sample_at l i)" "?P ! (2 * i + 1) = word_of_int (sample_at r i)"
    using nth assms by auto
  then show "sample_at (InterleaveStereo l r) (2 * i) = sample_at l i"
    and "sample_at (InterleaveStereo l r) (2 * i + 1) = sample_at r i"
    using assms by (auto simp: sample_at_def [of "InterleaveStereo l r"] s nf)
qed

section \<open>Resample16Mono\<close>

text \<open>
  \<^verbatim>\<open>float64\<close> arithmetic is exact rational arithmetic here (\<open>rat\<close>), and Go's conversion of a float to
  an integer truncates towards zero. The \<open>out\<close> argument of the code is the buffer it reuses;
  only its contents matter, and only when a rate is not positive.
\<close>

definition go_trunc :: "rat \<Rightarrow> int" where
  "go_trunc x = (if x \<ge> 0 then \<lfloor>x\<rfloor> else \<lceil>x\<rceil>)"

definition resample_value :: "i16 list \<Rightarrow> int \<Rightarrow> int \<Rightarrow> nat \<Rightarrow> rat" where
  "resample_value ss inRate outRate i =
     (let n = int (length ss);
          pos = of_nat i * of_int inRate / of_int outRate :: rat;
          idx0 = go_trunc pos;
          frac0 = pos - of_int idx0;
          (idx1, frac) = (if idx0 \<ge> n - 1 then (n - 1, 0) else (idx0, frac0));
          idx = (if idx1 < 0 then 0 else idx1);
          lo = sint (ss ! nat idx);
          hi = (if idx + 1 < n then sint (ss ! nat (idx + 1)) else lo)
      in of_int lo * (1 - frac) + of_int hi * frac)"

definition Resample16Mono :: "byte list \<Rightarrow> int \<Rightarrow> int \<Rightarrow> byte list \<Rightarrow> byte list" where
  "Resample16Mono inb inRate outRate out =
     (if inRate \<le> 0 \<or> outRate \<le> 0 then out
      else if inRate = outRate then inb
      else let inSamples = length inb div 2;
               outLen = nat ((int inSamples * outRate) div inRate)
           in bytes_of_samples
                (map (\<lambda>i. word_of_int (go_trunc (resample_value (samples_of inb) inRate outRate i)))
                     [0..<outLen]))"

definition Resample16MonoAlloc :: "byte list \<Rightarrow> int \<Rightarrow> int \<Rightarrow> byte list" where
  "Resample16MonoAlloc inb inRate outRate = Resample16Mono inb inRate outRate []"

lemma go_trunc_between: "of_int a \<le> x \<Longrightarrow> x \<le> of_int b \<Longrightarrow> a \<le> go_trunc x \<and> go_trunc x \<le> b"
  unfolding go_trunc_def by (auto simp: le_floor_iff floor_le_iff ceiling_le_iff le_ceiling_iff)

lemma convex_between:
  fixes f :: rat
  assumes "0 \<le> f" "f \<le> 1" "a \<le> x" "a \<le> y" "x \<le> b" "y \<le> b"
  shows "a \<le> x * (1 - f) + y * f \<and> x * (1 - f) + y * f \<le> b"
proof -
  have "a * (1 - f) \<le> x * (1 - f)" "a * f \<le> y * f" "x * (1 - f) \<le> b * (1 - f)" "y * f \<le> b * f"
    using assms by (auto intro: mult_right_mono)
  moreover have "a = a * (1 - f) + a * f" "b = b * (1 - f) + b * f"
    by (simp_all add: algebra_simps)
  ultimately show ?thesis by linarith
qed

lemma resample_value_range:
  assumes "\<And>s. s \<in> set ss \<Longrightarrow> a \<le> sint s \<and> sint s \<le> b" "ss \<noteq> []" "0 < inRate" "0 < outRate"
  shows "a \<le> go_trunc (resample_value ss inRate outRate i) \<and>
         go_trunc (resample_value ss inRate outRate i) \<le> b"
proof -
  define pos where "pos = (of_nat i * of_int inRate / of_int outRate :: rat)"
  have p0: "0 \<le> pos" using assms(3,4) by (simp add: pos_def)
  define n where "n = int (length ss)"
  have n1: "1 \<le> n" using assms(2) by (cases ss) (auto simp: n_def)
  have fr: "0 \<le> pos - of_int (go_trunc pos)" "pos - of_int (go_trunc pos) \<le> 1"
    using p0 floor_correct [of pos] by (auto simp: go_trunc_def)
  have g0: "0 \<le> go_trunc pos" using p0 by (simp add: go_trunc_def)
  have mem: "0 \<le> j \<Longrightarrow> j < n \<Longrightarrow> of_int a \<le> (of_int (sint (ss ! nat j)) :: rat) \<and>
      (of_int (sint (ss ! nat j)) :: rat) \<le> of_int b" for j
    using assms(1) [of "ss ! nat j"] unfolding of_int_le_iff by (auto simp: n_def)
  have "of_int a \<le> resample_value ss inRate outRate i \<and> resample_value ss inRate outRate i \<le> of_int b"
  proof (cases "n - 1 \<le> go_trunc pos")
    case True
    then show ?thesis
      using mem [of "n - 1"] n1
      unfolding resample_value_def Let_def pos_def [symmetric] n_def [symmetric] by simp
  next
    case False
    with mem [of "go_trunc pos"] mem [of "go_trunc pos + 1"] g0 fr
    have "of_int a \<le> of_int (sint (ss ! nat (go_trunc pos))) * (1 - (pos - of_int (go_trunc pos)))
        + of_int (sint (ss ! nat (go_trunc pos + 1))) * (pos - of_int (go_trunc pos)) \<and>
      of_int (sint (ss ! nat (go_trunc pos))) * (1 - (pos - of_int (go_trunc pos)))
        + of_int (sint (ss ! nat (go_trunc pos + 1))) * (pos - of_int (go_trunc pos)) \<le> (of_int b :: rat)"
      by (intro convex_between) linarith+
    with False g0 show ?thesis
      unfolding resample_value_def Let_def pos_def [symmetric] n_def [symmetric] by simp
  qed
  then show ?thesis by (auto dest: go_trunc_between)
qed

lemma length_Resample16Mono:
  assumes "0 < inRate" "0 < outRate" "inRate \<noteq> outRate"
  shows "length (Resample16Mono inb inRate outRate out) =
    2 * nat (int (length inb div 2) * outRate div inRate)"
  using assms by (simp add: Resample16Mono_def)

end
