(* ===== verification/AudioLaw.thy ===== *)
theory AudioLaw
  imports AudioPcm
begin

text \<open>
  G.711 companding (\<^verbatim>\<open>pkg/audio/ulaw.go\<close>, \<^verbatim>\<open>pkg/audio/alaw.go\<close>): the two decode tables, the two
  sample encoders at their machine widths, and the buffer functions. The tables are compared
  with the G.711 expansion formulas; the encoders are shown to keep the sign of the sample and
  to disagree with the tables on the magnitude.
\<close>

section \<open>mu-law\<close>

definition ulawDecodeTable :: "int list" where
  "ulawDecodeTable = [
      - 32124, - 31100, - 30076, - 29052, - 28028, - 27004, - 25980, - 24956,
      - 23932, - 22908, - 21884, - 20860, - 19836, - 18812, - 17788, - 16764,
      - 15996, - 15484, - 14972, - 14460, - 13948, - 13436, - 12924, - 12412,
      - 11900, - 11388, - 10876, - 10364, - 9852, - 9340, - 8828, - 8316,
      - 7932, - 7676, - 7420, - 7164, - 6908, - 6652, - 6396, - 6140,
      - 5884, - 5628, - 5372, - 5116, - 4860, - 4604, - 4348, - 4092,
      - 3900, - 3772, - 3644, - 3516, - 3388, - 3260, - 3132, - 3004,
      - 2876, - 2748, - 2620, - 2492, - 2364, - 2236, - 2108, - 1980,
      - 1884, - 1820, - 1756, - 1692, - 1628, - 1564, - 1500, - 1436,
      - 1372, - 1308, - 1244, - 1180, - 1116, - 1052, - 988, - 924,
      - 876, - 844, - 812, - 780, - 748, - 716, - 684, - 652,
      - 620, - 588, - 556, - 524, - 492, - 460, - 428, - 396,
      - 372, - 356, - 340, - 324, - 308, - 292, - 276, - 260,
      - 244, - 228, - 212, - 196, - 180, - 164, - 148, - 132,
      - 120, - 112, - 104, - 96, - 88, - 80, - 72, - 64,
      - 56, - 48, - 40, - 32, - 24, - 16, - 8, 0,
      32124, 31100, 30076, 29052, 28028, 27004, 25980, 24956,
      23932, 22908, 21884, 20860, 19836, 18812, 17788, 16764,
      15996, 15484, 14972, 14460, 13948, 13436, 12924, 12412,
      11900, 11388, 10876, 10364, 9852, 9340, 8828, 8316,
      7932, 7676, 7420, 7164, 6908, 6652, 6396, 6140,
      5884, 5628, 5372, 5116, 4860, 4604, 4348, 4092,
      3900, 3772, 3644, 3516, 3388, 3260, 3132, 3004,
      2876, 2748, 2620, 2492, 2364, 2236, 2108, 1980,
      1884, 1820, 1756, 1692, 1628, 1564, 1500, 1436,
      1372, 1308, 1244, 1180, 1116, 1052, 988, 924,
      876, 844, 812, 780, 748, 716, 684, 652,
      620, 588, 556, 524, 492, 460, 428, 396,
      372, 356, 340, 324, 308, 292, 276, 260,
      244, 228, 212, 196, 180, 164, 148, 132,
      120, 112, 104, 96, 88, 80, 72, 64,
      56, 48, 40, 32, 24, 16, 8, 0]"

text \<open>The exponent loop \<^verbatim>\<open>for (64<<exp) <= mag && exp < maxExp\<close>.\<close>

function ulaw_exp :: "u16 \<Rightarrow> nat \<Rightarrow> nat" where
  "ulaw_exp mag e = (if push_bit e 64 \<le> mag \<and> e < 7 then ulaw_exp mag (Suc e) else e)"
  by pat_completeness auto
termination
  by (relation "measure (\<lambda>(mag, e). 7 - e)") auto

declare ulaw_exp.simps [simp del]

text \<open>Sign bit and magnitude: \<^verbatim>\<open>-sample\<close> wraps at the least value, which becomes 0x7FFF.\<close>

definition sign_mag :: "i16 \<Rightarrow> byte \<times> i16" where
  "sign_mag s =
     (if s <s 0 then (let m = - s in (0x80, if m <s 0 then 0x7FFF else m)) else (0, s))"

definition encodeULawSample :: "i16 \<Rightarrow> byte" where
  "encodeULawSample sample =
     (let (sign, m) = sign_mag sample;
          s0 = (scast m :: u32) + 33;
          sample32 = (if 0x7FFF <s s0 then 0x7FFF else s0);
          mag = (ucast sample32 :: u16);
          e = ulaw_exp mag 0;
          mantissa = signed_drop_bit (e + 3) sample32 AND 0x0F
      in NOT (sign OR push_bit 4 (of_nat e) OR ucast mantissa))"

definition EncodeULaw :: "byte list \<Rightarrow> byte list" where
  "EncodeULaw pcm = map encodeULawSample (samples_of pcm)"

definition ulaw_decode :: "byte \<Rightarrow> i16" where
  "ulaw_decode b = word_of_int (ulawDecodeTable ! unat b)"

definition DecodeULaw :: "byte list \<Rightarrow> byte list" where
  "DecodeULaw ulaw = bytes_of_samples (map ulaw_decode ulaw)"

section \<open>A-law\<close>

definition alawDecodeTable :: "int list" where
  "alawDecodeTable = [
      - 5504, - 5248, - 6016, - 5760, - 4480, - 4224, - 4992, - 4736,
      - 7552, - 7296, - 8064, - 7808, - 6528, - 6272, - 7040, - 6784,
      - 2752, - 2624, - 3008, - 2880, - 2240, - 2112, - 2496, - 2368,
      - 3776, - 3648, - 4032, - 3904, - 3264, - 3136, - 3520, - 3392,
      - 22016, - 20992, - 24064, - 23040, - 17920, - 16896, - 19968, - 18944,
      - 30208, - 29184, - 32256, - 31232, - 26112, - 25088, - 28160, - 27136,
      - 11008, - 10496, - 12032, - 11520, - 8960, - 8448, - 9984, - 9472,
      - 15104, - 14592, - 16128, - 15616, - 13056, - 12544, - 14080, - 13568,
      - 344, - 328, - 376, - 360, - 280, - 264, - 312, - 296,
      - 472, - 456, - 504, - 488, - 408, - 392, - 440, - 424,
      - 88, - 72, - 120, - 104, - 24, - 8, - 56, - 40,
      - 216, - 200, - 248, - 232, - 152, - 136, - 184, - 168,
      - 1376, - 1312, - 1504, - 1440, - 1120, - 1056, - 1248, - 1184,
      - 1888, - 1824, - 2016, - 1952, - 1632, - 1568, - 1760, - 1696,
      - 688, - 656, - 752, - 720, - 560, - 528, - 624, - 592,
      - 944, - 912, - 1008, - 976, - 816, - 784, - 880, - 848,
      5504, 5248, 6016, 5760, 4480, 4224, 4992, 4736,
      7552, 7296, 8064, 7808, 6528, 6272, 7040, 6784,
      2752, 2624, 3008, 2880, 2240, 2112, 2496, 2368,
      3776, 3648, 4032, 3904, 3264, 3136, 3520, 3392,
      22016, 20992, 24064, 23040, 17920, 16896, 19968, 18944,
      30208, 29184, 32256, 31232, 26112, 25088, 28160, 27136,
      11008, 10496, 12032, 11520, 8960, 8448, 9984, 9472,
      15104, 14592, 16128, 15616, 13056, 12544, 14080, 13568,
      344, 328, 376, 360, 280, 264, 312, 296,
      472, 456, 504, 488, 408, 392, 440, 424,
      88, 72, 120, 104, 24, 8, 56, 40,
      216, 200, 248, 232, 152, 136, 184, 168,
      1376, 1312, 1504, 1440, 1120, 1056, 1248, 1184,
      1888, 1824, 2016, 1952, 1632, 1568, 1760, 1696,
      688, 656, 752, 720, 560, 528, 624, 592,
      944, 912, 1008, 976, 816, 784, 880, 848]"

text \<open>The segment loop: the exponent and the shifted sample.\<close>

function alaw_exp :: "i16 \<Rightarrow> nat \<Rightarrow> nat \<times> i16" where
  "alaw_exp s e = (if 256 \<le>s s \<and> e < 7 then alaw_exp (signed_drop_bit 1 s) (Suc e) else (e, s))"
  by pat_completeness auto
termination
  by (relation "measure (\<lambda>(s, e). 7 - e)") auto

declare alaw_exp.simps [simp del]

definition encodeALawSample :: "i16 \<Rightarrow> byte" where
  "encodeALawSample sample =
     (let (sign, m) = sign_mag sample
      in if m <s 8 then NOT (sign OR ucast (push_bit 4 m))
         else (let (e, s) = alaw_exp m 0;
                   mantissa = signed_drop_bit 4 s AND 0x0F
               in NOT (sign OR push_bit 4 (of_nat e) OR ucast mantissa)))"

definition EncodeALaw :: "byte list \<Rightarrow> byte list" where
  "EncodeALaw pcm = map encodeALawSample (samples_of pcm)"

definition alaw_decode :: "byte \<Rightarrow> i16" where
  "alaw_decode b = word_of_int (alawDecodeTable ! unat b)"

definition DecodeALaw :: "byte list \<Rightarrow> byte list" where
  "DecodeALaw alaw = bytes_of_samples (map alaw_decode alaw)"

section \<open>G.711 expansion\<close>

text \<open>The expansion of a code word as the recommendation computes it, without a table.\<close>

definition g711_ulaw :: "nat \<Rightarrow> int" where
  "g711_ulaw b =
     (let u = 255 - b; t = ((u mod 16) * 8 + 132) * 2 ^ ((u div 16) mod 8) - 132
      in if u \<ge> 128 then - int t else int t)"

definition g711_alaw :: "nat \<Rightarrow> int" where
  "g711_alaw b =
     (let a = b XOR 0x55; t = (a mod 16) * 16; seg = (a div 16) mod 8;
          m = (if seg = 0 then t + 8 else (t + 264) * 2 ^ (seg - 1))
      in if a \<ge> 128 then int m else - int m)"

lemma all_bytes:
  assumes "xs = map f [0..<256]" shows "xs ! unat (b :: byte) = f (unat b)"
proof -
  have "unat b < 256" using unsigned_less [of b, where ?'a = nat] by simp
  with assms show ?thesis by simp
qed

lemma byte_range: "[0..<256] = (0::nat) # 1 # [2..<256]"
  by (simp add: upt_rec [of 0] upt_rec [of "Suc 0"] numeral_2_eq_2)

lemma ulaw_table_g711: "ulawDecodeTable = map g711_ulaw [0..<256]"
  unfolding byte_range by (simp add: ulawDecodeTable_def g711_ulaw_def upt_rec_numeral)

lemma alaw_table_g711: "alawDecodeTable = map g711_alaw [0..<256]"
  unfolding byte_range by (simp add: alawDecodeTable_def g711_alaw_def upt_rec_numeral)

lemma ulaw_decode_g711: "ulaw_decode b = word_of_int (g711_ulaw (unat b))"
  by (simp add: ulaw_decode_def all_bytes [OF ulaw_table_g711])

lemma alaw_decode_g711: "alaw_decode b = word_of_int (g711_alaw (unat b))"
  by (simp add: alaw_decode_def all_bytes [OF alaw_table_g711])

section \<open>Sign\<close>

lemma g711_ulaw_range:
  assumes "b < 256"
  shows "- 32124 \<le> g711_ulaw b \<and> g711_ulaw b \<le> 32124"
proof -
  have "list_all (\<lambda>t. - 32124 \<le> t \<and> t \<le> 32124) ulawDecodeTable"
    by (simp add: ulawDecodeTable_def)
  then have "list_all (\<lambda>t. - 32124 \<le> t \<and> t \<le> 32124) (map g711_ulaw [0..<256])"
    by (simp only: ulaw_table_g711)
  with assms show ?thesis by (auto simp: list_all_iff)
qed

lemma g711_alaw_range:
  assumes "b < 256"
  shows "- 32256 \<le> g711_alaw b \<and> g711_alaw b \<le> 32256"
proof -
  have "list_all (\<lambda>t. - 32256 \<le> t \<and> t \<le> 32256) alawDecodeTable"
    by (simp add: alawDecodeTable_def)
  then have "list_all (\<lambda>t. - 32256 \<le> t \<and> t \<le> 32256) (map g711_alaw [0..<256])"
    by (simp only: alaw_table_g711)
  with assms show ?thesis by (auto simp: list_all_iff)
qed

lemma sint_ulaw_decode: "sint (ulaw_decode b) = g711_ulaw (unat b)"
  using g711_ulaw_range [of "unat b"] by (simp add: ulaw_decode_g711 sint_word_of_int16)

lemma sint_alaw_decode: "sint (alaw_decode b) = g711_alaw (unat b)"
  using g711_alaw_range [of "unat b"] by (simp add: alaw_decode_g711 sint_word_of_int16)

lemma ulaw_exp_le: "e \<le> 7 \<Longrightarrow> ulaw_exp mag e \<le> 7"
proof (induction mag e rule: ulaw_exp.induct)
  case (1 mag e)
  then show ?case by (subst ulaw_exp.simps) auto
qed

lemma alaw_exp_le: "e \<le> 7 \<Longrightarrow> fst (alaw_exp s e) \<le> 7"
proof (induction s e rule: alaw_exp.induct)
  case (1 s e)
  then show ?case by (subst alaw_exp.simps) auto
qed

lemma sign_mag_sign: "bit (fst (sign_mag s)) 7 \<longleftrightarrow> s <s 0"
  by (simp add: sign_mag_def Let_def)

lemma not_bit3_small: "e \<le> 7 \<Longrightarrow> \<not> bit (e :: nat) 3"
  by (simp add: bit_iff_odd)

lemma code_word_bit7:
  assumes "e \<le> 7"
  shows "bit (NOT (sign OR push_bit 4 (of_nat e) OR ucast (m AND 0x0F)) :: byte) 7 \<longleftrightarrow> \<not> bit sign 7"
  using not_bit3_small [OF assms] by (auto simp: bit_simps)

lemma encodeULawSample_bit7: "bit (encodeULawSample s) 7 \<longleftrightarrow> \<not> s <s 0"
  unfolding encodeULawSample_def Let_def split_beta
  by (simp only: code_word_bit7 [OF ulaw_exp_le, of 0, OF le0] sign_mag_sign)

text \<open>Below 8 the A-law encoder shifts the magnitude into the exponent bits.\<close>

lemma small_code_word_bit7:
  assumes "0 \<le>s m" "m <s 8"
  shows "bit (NOT (sign OR ucast (push_bit 4 (m :: i16))) :: byte) 7 \<longleftrightarrow> \<not> bit sign 7"
proof -
  from assms have "0 \<le> sint m" "sint m < 8" by (auto simp: word_sle_eq word_sless_alt)
  then have "\<not> bit (sint m) 3" by (simp add: bit_iff_odd)
  then have "\<not> bit m 3" by (simp add: bit_sint_iff)
  then show ?thesis by (auto simp: bit_simps)
qed

lemma sign_mag_nonneg: "0 \<le>s snd (sign_mag s)"
  by (auto simp: sign_mag_def Let_def word_sless_alt word_sle_eq)

lemma encodeALawSample_bit7: "bit (encodeALawSample s) 7 \<longleftrightarrow> \<not> s <s 0"
  unfolding encodeALawSample_def Let_def split_beta
  by (simp only: if_distrib [of "\<lambda>w. bit w 7"] small_code_word_bit7 [OF sign_mag_nonneg] 
    code_word_bit7 [OF alaw_exp_le, of 0, OF le0] sign_mag_sign cong: if_cong) simp

lemma g711_ulaw_sign: "128 \<le> b \<Longrightarrow> 0 \<le> g711_ulaw b" "\<not> 128 \<le> b \<Longrightarrow> g711_ulaw b \<le> 0"
  by (simp_all add: g711_ulaw_def Let_def)

lemma xor_byte_less: "b < 256 \<Longrightarrow> (b :: nat) XOR 0x55 < 256"
proof -
  assume "b < 256"
  then have "take_bit 8 (b XOR 0x55) = b XOR 0x55"
    by (simp add: take_bit_xor take_bit_nat_eq_self)
  then show ?thesis using take_bit_nat_less_exp [of 8 "b XOR 0x55"] by simp
qed

lemma g711_alaw_sign:
  assumes "b < 256"
  shows "if 128 \<le> b then 0 \<le> g711_alaw b else g711_alaw b \<le> 0"
proof -
  have "bit (b XOR 0x55) 7 = bit b 7" by (simp add: bit_xor_iff)
  then have "128 \<le> b XOR 0x55 \<longleftrightarrow> 128 \<le> b"
    using assms xor_byte_less [OF assms] by (simp add: bit7_nat)
  then show ?thesis by (simp add: g711_alaw_def Let_def)
qed

lemma ulaw_decode_sign: "bit b 7 \<Longrightarrow> 0 \<le> sint (ulaw_decode b)" "\<not> bit b 7 \<Longrightarrow> sint (ulaw_decode b) \<le> 0"
  by (simp_all add: sint_ulaw_decode bit7_unat g711_ulaw_sign)

lemma alaw_decode_sign: "bit b 7 \<Longrightarrow> 0 \<le> sint (alaw_decode b)" "\<not> bit b 7 \<Longrightarrow> sint (alaw_decode b) \<le> 0"
  using g711_alaw_sign [OF unat_byte_less, of b] by (simp_all add: sint_alaw_decode bit7_unat)

section \<open>The interface of a companding codec\<close>

text \<open>
  What both codecs promise: the top bit of a code word is the complemented sign of the sample,
  and a code word with the top bit set decodes to a sample that is not negative.
\<close>

locale companding =
  fixes enc :: "i16 \<Rightarrow> byte" and dec :: "byte \<Rightarrow> i16"
  assumes enc_bit7: "bit (enc s) 7 \<longleftrightarrow> \<not> s <s 0"
    and dec_nonneg: "bit b 7 \<Longrightarrow> 0 \<le> sint (dec b)"
    and dec_nonpos: "\<not> bit b 7 \<Longrightarrow> sint (dec b) \<le> 0"
begin

definition enc_buf :: "byte list \<Rightarrow> byte list" where
  "enc_buf pcm = map enc (samples_of pcm)"

definition dec_buf :: "byte list \<Rightarrow> byte list" where
  "dec_buf law = bytes_of_samples (map dec law)"

lemma sample_sign: "if s <s 0 then sint (dec (enc s)) \<le> 0 else 0 \<le> sint (dec (enc s))"
  using enc_bit7 dec_nonneg dec_nonpos by auto

lemma buf_lengths:
  "length (enc_buf pcm) = length pcm div 2" "length (dec_buf law) = 2 * length law"
  by (simp_all add: enc_buf_def dec_buf_def PCM16MonoNumFrames_def)

lemma buf_samples: "samples_of (dec_buf (enc_buf pcm)) = map (\<lambda>s. dec (enc s)) (samples_of pcm)"
  by (simp add: enc_buf_def dec_buf_def comp_def)

lemma buf_sign:
  "list_all2 (\<lambda>s t. if s <s 0 then sint t \<le> 0 else 0 \<le> sint t)
     (samples_of pcm) (samples_of (dec_buf (enc_buf pcm)))"
  using sample_sign by (simp add: buf_samples list_all2_conv_all_nth)

end

interpretation ulaw: companding encodeULawSample ulaw_decode
  rewrites "companding.enc_buf encodeULawSample = EncodeULaw"
    and "companding.dec_buf ulaw_decode = DecodeULaw"
proof -
  show c: "companding encodeULawSample ulaw_decode"
    by unfold_locales
      (simp_all add: encodeULawSample_bit7 ulaw_decode_sign)
  show "companding.enc_buf encodeULawSample = EncodeULaw"
    by (rule ext) (simp add: companding.enc_buf_def [OF c] EncodeULaw_def)
  show "companding.dec_buf ulaw_decode = DecodeULaw"
    by (rule ext) (simp add: companding.dec_buf_def [OF c] DecodeULaw_def)
qed

interpretation alaw: companding encodeALawSample alaw_decode
  rewrites "companding.enc_buf encodeALawSample = EncodeALaw"
    and "companding.dec_buf alaw_decode = DecodeALaw"
proof -
  show c: "companding encodeALawSample alaw_decode"
    by unfold_locales (simp_all add: encodeALawSample_bit7 alaw_decode_sign)
  show "companding.enc_buf encodeALawSample = EncodeALaw"
    by (rule ext) (simp add: companding.enc_buf_def [OF c] EncodeALaw_def)
  show "companding.dec_buf alaw_decode = DecodeALaw"
    by (rule ext) (simp add: companding.dec_buf_def [OF c] DecodeALaw_def)
qed

section \<open>Properties\<close>

text \<open>the two decode tables hold exactly the G.711 expansion of every code word.\<close>

theorem decode_tables_are_g711:
  "ulawDecodeTable = map g711_ulaw [0..<256] \<and> alawDecodeTable = map g711_alaw [0..<256]"
  by (simp only: ulaw_table_g711 alaw_table_g711 simp_thms)

text \<open>encoding and decoding a buffer halves and restores its length, and no sample changes sign
  (the value \<open>- 32768\<close>, whose negation wraps, included), for both laws.\<close>

theorem law_buffers_keep_length_and_sign:
  "length (DecodeULaw (EncodeULaw pcm)) = 2 * (length pcm div 2) \<and>
   length (DecodeALaw (EncodeALaw pcm)) = 2 * (length pcm div 2) \<and>
   list_all2 (\<lambda>s t. if s <s 0 then sint t \<le> 0 else 0 \<le> sint t)
     (samples_of pcm) (samples_of (DecodeULaw (EncodeULaw pcm))) \<and>
   list_all2 (\<lambda>s t. if s <s 0 then sint t \<le> 0 else 0 \<le> sint t)
     (samples_of pcm) (samples_of (DecodeALaw (EncodeALaw pcm)))"
  using ulaw.buf_lengths alaw.buf_lengths ulaw.buf_sign alaw.buf_sign by simp

text \<open>the encoders do not invert the tables: a sample of 1000 comes back as 5116 from mu-law and as
  88 from A-law, and the silent sample as 32 and 848.\<close>

theorem law_encoders_do_not_invert:
  "sint (ulaw_decode (encodeULawSample 1000)) = 5116 \<and>
   sint (alaw_decode (encodeALawSample 1000)) = 88 \<and>
   sint (ulaw_decode (encodeULawSample 0)) = 32 \<and>
   sint (alaw_decode (encodeALawSample 0)) = 848"
proof -
  have e: "ulaw_exp 1033 0 = 5" "ulaw_exp 33 0 = 0" "alaw_exp 1000 0 = (2, 250)"
    by (simp_all add: ulaw_exp.simps alaw_exp.simps word_sle_eq)
  then have "encodeULawSample 1000 = 0xAB" "encodeALawSample 1000 = 0xD0"
    "encodeULawSample 0 = 0xFB" "encodeALawSample 0 = 0xFF"
    by (simp_all add: encodeULawSample_def encodeALawSample_def sign_mag_def Let_def word_sless_alt)
  then show ?thesis
    by (simp add: sint_ulaw_decode sint_alaw_decode g711_ulaw_def g711_alaw_def)
qed

end
