(* ===== verification/Wav.thy ===== *)
theory Wav
  imports AudioPcm
begin

text \<open>
  WAV files: the decoder of \<^verbatim>\<open>pkg/audio/wav.go\<close>, the one-shot writer of
  \<^verbatim>\<open>pkg/audio/dtmf_wav.go\<close> and the streaming recorder of \<^verbatim>\<open>pkg/recording\<close>, which writes a
  header with zero sizes and patches them when it is closed. File system calls are parameters:
  a call either succeeds or returns an error.
\<close>

section \<open>Headers\<close>

text \<open>The bytes of an ASCII string.\<close>

definition ascii :: "string \<Rightarrow> byte list" where
  "ascii s = map of_char s"

text \<open>The buffer \<^verbatim>\<open>WritePCM16MonoWAV\<close> builds; \<^verbatim>\<open>uint32(...)\<close> conversions wrap.\<close>

definition wav_image :: "byte list \<Rightarrow> int \<Rightarrow> byte list" where
  "wav_image pcm sampleRate =
     (let numChannels = 1;
          byteRate = sampleRate * numChannels * 16 sdiv 8;
          blockAlign = numChannels * 16 sdiv 8;
          dataSize = (word_of_nat (length pcm) :: u32)
      in ascii ''RIFF'' @ put32 (36 + dataSize) @ ascii ''WAVE'' @ ascii ''fmt '' @ put32 16
           @ put16 1 @ put16 (word_of_int numChannels) @ put32 (word_of_int sampleRate)
           @ put32 (word_of_int byteRate) @ put16 (word_of_int blockAlign) @ put16 16
           @ ascii ''data'' @ put32 dataSize @ pcm)"

definition WritePCM16MonoWAV ::
  "(string \<Rightarrow> err option) \<Rightarrow> (string \<Rightarrow> byte list \<Rightarrow> err option) \<Rightarrow> (string \<Rightarrow> string) \<Rightarrow>
   string \<Rightarrow> byte list \<Rightarrow> int \<Rightarrow> err option" where
  "WritePCM16MonoWAV mkdirAll writeFile dirOf path pcm sampleRate =
     (case mkdirAll (dirOf path) of
        Some e \<Rightarrow> Some e
      | None \<Rightarrow> writeFile path (wav_image pcm sampleRate))"

section \<open>Decoder\<close>

text \<open>
  The chunk loop, on what is left of the file from \<open>pos\<close> on. An oversized chunk is clamped to
  what is left, an empty chunk is skipped, and the last data chunk and sample rate win.
\<close>

function wav_chunks :: "byte list \<Rightarrow> byte list option \<Rightarrow> nat \<Rightarrow> err + byte list option \<times> nat" where
  "wav_chunks rest pcm rate =
     (if length rest < 8 then Inr (pcm, rate)
      else let chunkID = take 4 rest;
               size0 = unat (get32 (drop 4 rest));
               body = drop 8 rest;
               chunkSize = (if size0 > length body then length body else size0)
           in if chunkSize = 0 then wav_chunks body pcm rate
              else let payload = take chunkSize body; rest' = drop chunkSize body
                   in if chunkID = ascii ''fmt ''
                      then if chunkSize \<ge> 16
                           then if get16 payload \<noteq> 1
                                then Inl ''wav: only PCM (format 1) supported''
                                else wav_chunks rest' pcm (unat (get32 (drop 4 payload)))
                           else wav_chunks rest' pcm rate
                      else if chunkID = ascii ''data'' then wav_chunks rest' (Some payload) rate
                      else wav_chunks rest' pcm rate)"
  by pat_completeness auto
termination
  by (relation "measure (\<lambda>(rest, pcm, rate). length rest)") (auto simp: Let_def)

declare wav_chunks.simps [simp del]

definition DecodeWAVToPCM :: "byte list \<Rightarrow> err + byte list \<times> nat" where
  "DecodeWAVToPCM wav =
     (if length wav < 44 then Inl ''wav: too short''
      else if take 4 wav \<noteq> ascii ''RIFF'' \<or> take 4 (drop 8 wav) \<noteq> ascii ''WAVE''
      then Inl ''wav: invalid RIFF/WAVE header''
      else case wav_chunks (drop 12 wav) None 0 of
             Inl e \<Rightarrow> Inl e
           | Inr (None, _) \<Rightarrow> Inl ''wav: no data chunk''
           | Inr (Some pcm, rate) \<Rightarrow> Inr (pcm, if rate = 0 then 48000 else rate))"

section \<open>Recorder\<close>

definition empty_wav_header :: "int \<Rightarrow> byte list" where
  "empty_wav_header sampleRate =
     (let byteRate = (word_of_int sampleRate :: u32) * 1 * (16 div 8);
          blockAlign = (1 * (16 div 8) :: u16)
      in ascii ''RIFF'' @ put32 0 @ ascii ''WAVE'' @ ascii ''fmt '' @ put32 16 @ put16 1 @ put16 1
           @ put32 (word_of_int sampleRate) @ put32 byteRate @ put16 blockAlign @ put16 16
           @ ascii ''data'' @ put32 0)"

text \<open>Writing \<open>bs\<close> at offset \<open>off\<close> inside the file.\<close>

definition patch :: "nat \<Rightarrow> byte list \<Rightarrow> byte list \<Rightarrow> byte list" where
  "patch off bs file = take off file @ bs @ drop (off + length bs) file"

datatype wav_err = InvalidChannels int | InvalidSamples int | RecorderClosed
  | UnexpectedRate int int | InvalidRate int | IOError err

definition finalizeWAV :: "byte list \<Rightarrow> int \<Rightarrow> int \<Rightarrow> int \<Rightarrow> wav_err + byte list" where
  "finalizeWAV file numSamples sampleRate numChannels =
     (if numChannels \<le> 0 then Inl (InvalidChannels numChannels)
      else if numSamples < 0 then Inl (InvalidSamples numSamples)
      else let dataSize = (word_of_int (numSamples * numChannels * (16 div 8)) :: u32);
               riffSize = 4 + 8 + 16 + 8 + dataSize
           in Inr (patch 40 (put32 dataSize) (patch 4 (put32 riffSize) file)))"

record recorder =
  rec_file :: "byte list"
  rec_closed :: bool
  rec_rate :: int
  rec_samples :: int

definition NewFileRecorder :: "err option \<Rightarrow> err option \<Rightarrow> int \<Rightarrow> wav_err + recorder" where
  "NewFileRecorder mkdir create sampleRate =
     (if sampleRate \<le> 0 then Inl (InvalidRate sampleRate)
      else case mkdir of Some e \<Rightarrow> Inl (IOError e)
      | None \<Rightarrow> (case create of Some e \<Rightarrow> Inl (IOError e)
      | None \<Rightarrow> Inr \<lparr>rec_file = empty_wav_header sampleRate, rec_closed = False,
                    rec_rate = sampleRate, rec_samples = 0\<rparr>))"

text \<open>\<open>io\<close> is the error of the file write, if it fails; nothing is written then.\<close>

definition WriteSamples :: "err option \<Rightarrow> recorder \<Rightarrow> i16 list \<Rightarrow> int \<Rightarrow> wav_err option \<times> recorder" where
  "WriteSamples io r samples sampleRate =
     (if rec_closed r then (Some RecorderClosed, r)
      else if sampleRate \<noteq> rec_rate r then (Some (UnexpectedRate sampleRate (rec_rate r)), r)
      else if samples = [] then (None, r)
      else case io of
             Some e \<Rightarrow> (Some (IOError e), r)
           | None \<Rightarrow> (None, r\<lparr>rec_file := rec_file r @ bytes_of_samples samples,
                              rec_samples := rec_samples r + int (length samples)\<rparr>))"

definition CloseRecorder :: "recorder \<Rightarrow> wav_err option \<times> recorder" where
  "CloseRecorder r =
     (if rec_closed r then (None, r)
      else let r1 = r\<lparr>rec_closed := True\<rparr>
           in case finalizeWAV (rec_file r) (rec_samples r) (rec_rate r) 1 of
                Inl e \<Rightarrow> (Some e, r1)
              | Inr file \<Rightarrow> (None, r1\<lparr>rec_file := file\<rparr>))"

text \<open>The calls a client makes before closing: batches of samples, each at a rate.\<close>

fun record_all :: "recorder \<Rightarrow> (i16 list \<times> int) list \<Rightarrow> recorder" where
  "record_all r [] = r"
| "record_all r ((ss, rate) # bs) = record_all (snd (WriteSamples None r ss rate)) bs"

section \<open>Round trips\<close>

lemma length_ascii [simp]: "length (ascii s) = length s"
  by (simp add: ascii_def)

lemma take_ascii [simp]: "length s = n \<Longrightarrow> take n (ascii s @ r) = ascii s"
  by simp

lemma get32_word_of_nat: "n < 2 ^ 32 \<Longrightarrow> unat (word_of_nat n :: u32) = n"
  by (simp add: unsigned_of_nat take_bit_nat_eq_self)

lemma wav_chunk_skip:
  assumes "length cid = 4" "cid \<noteq> ascii ''fmt ''" "cid = ascii ''data''"
    and "unat n = length payload" "payload \<noteq> []"
  shows "wav_chunks (cid @ put32 n @ payload @ r) pcm rate = wav_chunks r (Some payload) rate"
  using assms by (subst wav_chunks.simps) (simp add: Let_def)

lemma wav_chunk_fmt:
  assumes "unat n = length payload" "16 \<le> length payload" "get16 payload = 1"
  shows "wav_chunks (ascii ''fmt '' @ put32 n @ payload @ r) pcm rate =
    wav_chunks r pcm (unat (get32 (drop 4 payload)))"
  using assms by (subst wav_chunks.simps) (auto simp add: Let_def)

lemma wav_chunks_end: "length rest < 8 \<Longrightarrow> wav_chunks rest pcm rate = Inr (pcm, rate)"
  by (subst wav_chunks.simps) simp

lemma ascii_distinct: "ascii ''data'' \<noteq> ascii ''fmt ''"
  by (simp add: ascii_def)

lemma decode_wav_image:
  assumes "pcm \<noteq> []" "length pcm < 2 ^ 32" "0 < rate" "rate < 2 ^ 32"
  shows "DecodeWAVToPCM (wav_image pcm rate) = Inr (pcm, nat rate)"
proof -
  define fp where "fp = put16 1 @ put16 (1 :: u16) @ put32 (word_of_int rate)
    @ put32 (word_of_int (rate * 1 * 16 sdiv 8)) @ put16 (word_of_int (1 * 16 sdiv 8)) @ put16 16"
  let ?n = "word_of_nat (length pcm) :: u32"
  have img: "wav_image pcm rate = ascii ''RIFF'' @ put32 (36 + ?n) @ ascii ''WAVE''
      @ ascii ''fmt '' @ put32 16 @ fp @ ascii ''data'' @ put32 ?n @ pcm @ []"
    by (simp add: wav_image_def fp_def Let_def)
  have lfp: "length fp = 16" "get16 fp = 1" "drop 4 fp = put32 (word_of_int rate) @ drop 8 fp"
    by (simp_all add: fp_def)
  have "unat (word_of_int rate :: u32) = nat rate"
    using assms by (simp add: unsigned_of_int take_bit_int_eq_self nat_take_bit_eq)
  then have "wav_chunks (ascii ''fmt '' @ put32 16 @ fp @ ascii ''data'' @ put32 ?n @ pcm @ []) None 0
      = Inr (Some pcm, nat rate)"
    using assms lfp
    by (simp add: wav_chunk_fmt wav_chunk_skip ascii_distinct get32_word_of_nat wav_chunks_end
        del: append_Nil2)
  with lfp assms show ?thesis
    by (simp add: DecodeWAVToPCM_def img)
qed

section \<open>The recorder writes the same file\<close>

definition rec_inv :: "int \<Rightarrow> i16 list \<Rightarrow> recorder \<Rightarrow> bool" where
  "rec_inv rate ss r \<longleftrightarrow> \<not> rec_closed r \<and> rec_rate r = rate \<and> rec_samples r = int (length ss)
     \<and> rec_file r = empty_wav_header rate @ bytes_of_samples ss"

definition accepted :: "int \<Rightarrow> (i16 list \<times> int) list \<Rightarrow> i16 list" where
  "accepted rate bs = concat (map fst (filter (\<lambda>b. snd b = rate) bs))"

lemma bytes_of_samples_append: "bytes_of_samples (a @ b) = bytes_of_samples a @ bytes_of_samples b"
  by (induction a) auto

lemma WriteSamples_inv [inv_intros]:
  "rec_inv rate ss r \<Longrightarrow>
   rec_inv rate (ss @ (if rt = rate then new else [])) (snd (WriteSamples None r new rt))"
  by (auto simp: rec_inv_def WriteSamples_def bytes_of_samples_append)

lemma record_all_inv:
  "rec_inv rate ss r \<Longrightarrow> rec_inv rate (ss @ accepted rate bs) (record_all r bs)"
proof (induction bs arbitrary: ss r)
  case Nil
  then show ?case by (simp add: accepted_def)
next
  case (Cons b bs)
  obtain new rt where b: "b = (new, rt)" by (cases b)
  from Cons.IH [OF WriteSamples_inv [OF Cons.prems, of rt new]] show ?case
    by (cases "rt = rate") (auto simp: b accepted_def)
qed

lemma length_empty_wav_header: "length (empty_wav_header rate) = 44"
  by (simp add: empty_wav_header_def Let_def)

lemma patch_at: "length a = off \<Longrightarrow> length b = length bs \<Longrightarrow> patch off bs (a @ b @ c) = a @ bs @ c"
  by (simp add: patch_def)

lemma byte_rate_word:
  "word_of_int (rate * 1 * 16 sdiv 8) = (word_of_int rate * 1 * (16 div 8) :: u32)"
proof -
  have "rate * 1 * 16 sdiv 8 = rate * 2"
    by (auto simp: signed_divide_int_def sgn_if abs_if)
  then show ?thesis by simp
qed

lemma finalize_header:
  "finalizeWAV (empty_wav_header rate @ pcm) n rate 1 = Inr (wav_image pcm rate)"
  if n: "n \<ge> 0" "int (length pcm) = 2 * n"
proof -
  define mid where "mid = ascii ''WAVE'' @ ascii ''fmt '' @ put32 16 @ put16 1 @ put16 1
    @ put32 (word_of_int rate) @ put32 (word_of_int rate * 1 * (16 div 8)) @ put16 (1 * (16 div 8))
    @ put16 16 @ ascii ''data''"
  have h: "empty_wav_header rate @ pcm = ascii ''RIFF'' @ put32 0 @ (mid @ put32 0 @ pcm)"
    by (simp add: empty_wav_header_def mid_def Let_def)
  have lm: "length mid = 32" by (simp add: mid_def)
  have w: "(word_of_nat (length pcm) :: u32) = word_of_int (n * 1 * (16 div 8))"
  proof -
    from n(2) have "n * 1 * (16 div 8) = int (length pcm)" by simp
    then show ?thesis by (simp only: of_int_of_nat_eq)
  qed
  have p4: "patch 4 (put32 q) (ascii ''RIFF'' @ put32 0 @ (mid @ put32 0 @ pcm))
      = (ascii ''RIFF'' @ put32 q @ mid) @ put32 0 @ pcm" for q
    by (subst patch_at) simp_all
  have p40: "patch 40 (put32 d) ((ascii ''RIFF'' @ put32 q @ mid) @ put32 0 @ pcm)
      = (ascii ''RIFF'' @ put32 q @ mid) @ put32 d @ pcm" for d q
    by (subst patch_at) (simp_all add: lm)
  show ?thesis
    using n unfolding finalizeWAV_def h Let_def p4 p40
    by (simp add: wav_image_def mid_def Let_def w byte_rate_word [simplified])
qed

lemma recorder_close:
  assumes "rec_inv rate ss r"
  shows "CloseRecorder r = (None, r\<lparr>rec_closed := True, rec_file := wav_image (bytes_of_samples ss) rate\<rparr>)"
  using assms by (auto simp: CloseRecorder_def rec_inv_def finalize_header Let_def)

section \<open>Properties\<close>

text \<open>C27: the decoder reads back what the writer wrote: the samples and the sample rate.\<close>

theorem wav_write_decode:
  assumes "pcm \<noteq> []" "length pcm < 2 ^ 32" "0 < rate" "rate < 2 ^ 32"
  shows "DecodeWAVToPCM (wav_image pcm rate) = Inr (pcm, nat rate)"
  using assms by (rule decode_wav_image)

theorem wav_write_decode_witness:
  "DecodeWAVToPCM (wav_image [1, 2, 3, 4] 8000) = Inr ([1, 2, 3, 4], 8000)"
  using wav_write_decode [of "[1, 2, 3, 4]" 8000] by simp

text \<open>a recorder that is fed any batches of samples and then closed leaves exactly the file the
  one-shot writer produces for the samples of the batches at its own rate; batches at another
  rate leave no trace.\<close>

theorem recorder_file_is_wav_image:
  assumes "NewFileRecorder None None rate = Inr r"
  shows "fst (CloseRecorder (record_all r bs)) = None \<and>
    rec_file (snd (CloseRecorder (record_all r bs))) =
      wav_image (bytes_of_samples (accepted rate bs)) rate"
proof -
  from assms have "rec_inv rate [] r"
    by (auto simp: NewFileRecorder_def rec_inv_def split: if_splits)
  from record_all_inv [OF this, of bs] show ?thesis by (simp add: recorder_close)
qed

theorem recorder_file_is_wav_image_witness:
  "\<exists>r. NewFileRecorder None None 16000 = Inr r \<and>
    rec_file (snd (CloseRecorder (record_all r [([1, 2], 16000), ([7], 8000), ([3], 16000)]))) =
      wav_image [1, 0, 2, 0, 3, 0] 16000"
proof -
  have "NewFileRecorder None None 16000 =
      Inr \<lparr>rec_file = empty_wav_header 16000, rec_closed = False, rec_rate = 16000, rec_samples = 0\<rparr>"
    by (simp add: NewFileRecorder_def)
  from this recorder_file_is_wav_image [OF this, of "[([1, 2], 16000), ([7], 8000), ([3], 16000)]"]
  show ?thesis by (auto simp: accepted_def put16_def lo_byte_def hi_byte_def)
qed

end
