(* ===== verification/GoStrings.thy ===== *)
theory GoStrings
  imports VoxPrelude "HOL-Library.Sublist"
begin

text \<open>
  The part of Go's \<^verbatim>\<open>strings\<close> and \<^verbatim>\<open>strconv\<close> packages the code uses. A Go string is its
  UTF-8 bytes, so it is a list of \<open>char\<close>; a white-space rune is the list of its bytes.
\<close>

section \<open>White space\<close>

definition white_runes :: "string list" where
  "white_runes =
     [[CHR 0x09], [CHR 0x0A], [CHR 0x0B], [CHR 0x0C], [CHR 0x0D], [CHR 0x20],
      [CHR 0xC2, CHR 0x85], [CHR 0xC2, CHR 0xA0], [CHR 0xE1, CHR 0x9A, CHR 0x80]]
     @ map (\<lambda>c. [CHR 0xE2, CHR 0x80, c])
         [CHR 0x80, CHR 0x81, CHR 0x82, CHR 0x83, CHR 0x84, CHR 0x85, CHR 0x86, CHR 0x87,
          CHR 0x88, CHR 0x89, CHR 0x8A, CHR 0xA8, CHR 0xA9, CHR 0xAF]
     @ [[CHR 0xE2, CHR 0x81, CHR 0x9F], [CHR 0xE3, CHR 0x80, CHR 0x80]]"

text \<open>The number of bytes of the white-space rune at the front, 0 if there is none.\<close>

definition lead_of :: "string list \<Rightarrow> string \<Rightarrow> nat" where
  "lead_of ws s = (case filter (\<lambda>w. prefix w s) ws of [] \<Rightarrow> 0 | w # _ \<Rightarrow> length w)"

lemma lead_of_le: "lead_of ws s \<le> length s"
  by (auto simp: lead_of_def split: list.splits dest!: filter_eq_ConsD prefix_length_le)

function drop_lead :: "string list \<Rightarrow> string \<Rightarrow> string" where
  "drop_lead ws s = (let n = lead_of ws s in if n = 0 then s else drop_lead ws (drop n s))"
  by pat_completeness auto
termination
proof (relation "measure (\<lambda>(ws, s). length s)")
  fix ws :: "string list" and s :: string and n :: nat
  assume "n = lead_of ws s" "n \<noteq> 0"
  then show "((ws, drop n s), (ws, s)) \<in> measure (\<lambda>(ws, s). length s)"
    using lead_of_le [of ws s] by auto
qed simp

declare drop_lead.simps [simp del]

definition TrimLeftSpace :: "string \<Rightarrow> string" where
  "TrimLeftSpace s = drop_lead white_runes s"

definition TrimRightSpace :: "string \<Rightarrow> string" where
  "TrimRightSpace s = rev (drop_lead (map rev white_runes) (rev s))"

definition TrimSpace :: "string \<Rightarrow> string" where
  "TrimSpace s = TrimRightSpace (TrimLeftSpace s)"

text \<open>\<^verbatim>\<open>strings.Fields\<close>: the maximal runs without white space.\<close>

function fields_from :: "string \<Rightarrow> string \<Rightarrow> string list" where
  "fields_from acc s =
     (case s of
        [] \<Rightarrow> (if acc = [] then [] else [rev acc])
      | c # r \<Rightarrow>
          (let n = lead_of white_runes s
           in if n = 0 then fields_from (c # acc) r
              else (if acc = [] then [] else [rev acc]) @ fields_from [] (drop n s)))"
  by pat_completeness auto
termination
  by (relation "measure (\<lambda>(acc, s). length s)") auto

declare fields_from.simps [simp del]

definition Fields :: "string \<Rightarrow> string list" where
  "Fields s = fields_from [] s"

lemma drop_lead_suffix: "suffix (drop_lead ws s) s"
proof (induction ws s rule: drop_lead.induct)
  case (1 ws s)
  show ?case
  proof (cases "lead_of ws s = 0")
    case True
    then show ?thesis by (subst drop_lead.simps) simp
  next
    case False
    with 1 have "suffix (drop_lead ws (drop (lead_of ws s) s)) (drop (lead_of ws s) s)" by simp
    then have "suffix (drop_lead ws (drop (lead_of ws s) s)) s"
      by (rule suffix_order.trans) (rule suffix_drop)
    with False show ?thesis by (subst drop_lead.simps) (simp add: Let_def)
  qed
qed

lemma drop_lead_stops: "lead_of ws (drop_lead ws s) = 0"
proof (induction ws s rule: drop_lead.induct)
  case (1 ws s)
  then show ?case
    by (subst drop_lead.simps) (simp add: Let_def)
qed

lemma drop_lead_id: "lead_of ws s = 0 \<Longrightarrow> drop_lead ws s = s"
  by (subst drop_lead.simps) simp

lemma drop_lead_idem [simp]: "drop_lead ws (drop_lead ws s) = drop_lead ws s"
  by (rule drop_lead_id) (rule drop_lead_stops)

lemma lead_of_Nil [simp]: "[] \<notin> set ws \<Longrightarrow> lead_of ws [] = 0"
  by (auto simp: lead_of_def split: list.splits dest!: filter_eq_ConsD)

lemma drop_lead_Nil [simp]: "drop_lead ws [] = []"
  using drop_lead_suffix [of ws "[]"] by simp

text \<open>A string that neither starts nor ends like white space is trimmed already.\<close>

lemma lead_of_solid:
  assumes "[] \<notin> set ws" "c \<notin> hd ` set ws"
  shows "lead_of ws (c # r) = 0"
proof -
  have "prefix w (c # r) \<Longrightarrow> w \<noteq> [] \<Longrightarrow> hd w = c" for w by (cases w) simp_all
  then have "\<not> prefix w (c # r)" if "w \<in> set ws" for w
    using that assms by (metis image_eqI)
  then have "filter (\<lambda>w. prefix w (c # r)) ws = []" by (simp add: filter_empty_conv)
  then show ?thesis by (simp add: lead_of_def)
qed

lemma TrimSpace_solid:
  assumes "c \<notin> hd ` set white_runes" "d \<notin> last ` set white_runes"
  shows "TrimSpace (c # r @ [d]) = c # r @ [d]" "c = d \<Longrightarrow> TrimSpace [c] = [c]"
proof -
  have e: "[] \<notin> set white_runes" "[] \<notin> set (map rev white_runes)" by (auto simp: white_runes_def)
  have "last ` set white_runes = hd ` set (map rev white_runes)"
    by (simp add: image_image hd_rev)
  then have "d \<notin> hd ` set (map rev white_runes)" using assms(2) by simp
  then show "TrimSpace (c # r @ [d]) = c # r @ [d]" "c = d \<Longrightarrow> TrimSpace [c] = [c]"
    using lead_of_solid [OF e(1) assms(1)] lead_of_solid [OF e(2), of d]
    by (simp_all add: TrimSpace_def TrimLeftSpace_def TrimRightSpace_def drop_lead_id)
qed

lemma TrimSpace_Nil [simp]: "TrimSpace [] = []"
  by (simp add: TrimSpace_def TrimLeftSpace_def TrimRightSpace_def)

section \<open>Numbers and searching\<close>

function utoa :: "nat \<Rightarrow> string" where
  "utoa n = (if n < 10 then [char_of (48 + n)] else utoa (n div 10) @ [char_of (48 + n mod 10)])"
  by pat_completeness auto
termination
  by (relation "measure id") auto

declare utoa.simps [simp del]

definition itoa :: "int \<Rightarrow> string" where
  "itoa i = (if i < 0 then CHR ''-'' # utoa (nat (- i)) else utoa (nat i))"

lemma digit_chars [simp]:
  "char_of (48::nat) = CHR ''0''" "char_of (49::nat) = CHR ''1''" "char_of (50::nat) = CHR ''2''"
  "char_of (51::nat) = CHR ''3''" "char_of (52::nat) = CHR ''4''" "char_of (53::nat) = CHR ''5''"
  "char_of (54::nat) = CHR ''6''" "char_of (55::nat) = CHR ''7''" "char_of (56::nat) = CHR ''8''"
  "char_of (57::nat) = CHR ''9''"
  by code_simp+

text \<open>\<^verbatim>\<open>strings.Index\<close>: the first position of a substring.\<close>

fun index_of :: "string \<Rightarrow> string \<Rightarrow> nat option" where
  "index_of sub [] = (if sub = [] then Some 0 else None)"
| "index_of sub (c # s) =
     (if prefix sub (c # s) then Some 0 else map_option Suc (index_of sub s))"

definition contains_str :: "string \<Rightarrow> string \<Rightarrow> bool" where
  "contains_str s sub \<longleftrightarrow> index_of sub s \<noteq> None"

text \<open>\<^verbatim>\<open>strings.ToUpper\<close>/\<^verbatim>\<open>ToLower\<close> on ASCII letters.\<close>

definition upper_char :: "char \<Rightarrow> char" where
  "upper_char c = (let n = of_char c :: nat in if 97 \<le> n \<and> n \<le> 122 then char_of (n - 32) else c)"

definition lower_char :: "char \<Rightarrow> char" where
  "lower_char c = (let n = of_char c :: nat in if 65 \<le> n \<and> n \<le> 90 then char_of (n + 32) else c)"

definition ToUpper :: "string \<Rightarrow> string" where
  "ToUpper s = map upper_char s"

definition ToLower :: "string \<Rightarrow> string" where
  "ToLower s = map lower_char s"

lemma index_of_Some: "index_of sub s = Some i \<Longrightarrow> prefix sub (drop i s) \<and> i \<le> length s"
  by (induction s arbitrary: i) (auto split: if_splits)

lemma index_of_least: "index_of sub s = Some i \<Longrightarrow> j < i \<Longrightarrow> \<not> prefix sub (drop j s)"
proof (induction s arbitrary: i j)
  case (Cons c s)
  then show ?case by (cases j) (auto split: if_splits)
qed (auto split: if_splits)

lemma index_of_None: "index_of sub s = None \<longleftrightarrow> \<not> sublist sub s"
proof (induction s)
  case (Cons c s)
  then show ?case by (auto simp: sublist_Cons_right)
qed simp

lemma contains_str_sublist: "contains_str s sub \<longleftrightarrow> sublist sub s"
  by (simp add: contains_str_def index_of_None)

end
