(* ===== verification/Frames.thy ===== *)
theory Frames
  imports GoStrings AudioPcm
begin

text \<open>
  The frames of \<^verbatim>\<open>pkg/frames\<close>. A frame is its \<^verbatim>\<open>Base\<close> (id, presentation timestamp,
  metadata) and a body; every Go frame type is one constructor of \<open>body\<close>, so a type assertion
  on a pointer type is a case on the constructor. The embedded \<^verbatim>\<open>TextFrame\<close> and
  \<^verbatim>\<open>AudioRawFrame\<close> structs are records. The package counter \<^verbatim>\<open>idCounter\<close> is passed
  to every constructor function and returned.
\<close>

section \<open>Data\<close>

text \<open>Values of type \<^verbatim>\<open>any\<close>, as far as \<^verbatim>\<open>encoding/json\<close> can produce them.\<close>

datatype any = ANil | ABool bool | ANum rat | AStr string | AArr "any list" | AObj "(string \<times> any) list"

type_synonym anymap = "(string \<times> any) list"

record base =
  fid :: u64
  pts :: "u64 option"
  metadata :: "string \<rightharpoonup> any"

record text_data =
  tdata :: string
  skip_tts :: "bool option"
  includes_space :: bool
  append_to_context :: bool

record audio_data =
  audio :: "byte list"
  sample_rate :: int
  num_channels :: int
  num_frames :: int

record llm_context =
  messages :: "anymap list"
  tools :: "anymap list"
  tool_choice :: string

datatype body =
    SystemFrame | DataFrame | ControlFrame | SyncFrame
  | StartFrame (start_in: int) (start_out: int) (start_allow: bool) (start_metrics: bool) (start_usage: bool)
  | CancelFrame any | EndFrame | StopFrame | InterruptionFrame
  | ErrorFrame (error_msg: string) (error_fatal: bool) (error_proc: string)
  | TextFrame text_data | AggregatedTextFrame text_data string
  | TranscriptionFrame text_data (tr_user: string) (tr_time: string) (tr_lang: string) (tr_final: bool)
  | AudioRawFrame audio_data | OutputAudioRawFrame audio_data string
  | TTSAudioRawFrame audio_data string
  | TransportMessageFrame anymap
  | ManuallySwitchServiceFrame string | ServiceMetadataFrame string anymap
  | ServiceSwitcherRequestMetadataFrame string
  | LLMContextFrame "llm_context option" | LLMRunFrame
  | LLMMessagesUpdateFrame "anymap list" "bool option"
  | LLMMessagesAppendFrame "anymap list" "bool option"
  | LLMSetToolsFrame "anymap list" | LLMSetToolChoiceFrame string
  | FunctionCallResultFrame string string string any "bool option"
  | LLMTextFrame text_data
  | LLMFullResponseStartFrame | LLMFullResponseEndFrame | TTSSpeakFrame string
  | LLMContextSummaryRequestFrame string "llm_context option" int int string int
  | LLMContextSummaryResultFrame string string int string
  | VADParamsUpdateFrame (vp_stop: rat) (vp_start: rat) | VADUserStartedSpeakingFrame rat
  | VADUserStoppedSpeakingFrame rat | UserSpeakingFrame
  | UserStartedSpeakingFrame | UserStoppedSpeakingFrame | UserIdleFrame
  | BotStartedSpeakingFrame | BotStoppedSpeakingFrame
  | InputDTMFFrame string | OutputDTMFUrgentFrame string
  | RTVIClientMessageFrame string string anymap | RTVIServerMessageFrame string string anymap

datatype frame = Frame (fbase: base) (fbody: body)

primrec FrameType :: "body \<Rightarrow> string" where
  "FrameType SystemFrame = ''SystemFrame''"
| "FrameType DataFrame = ''DataFrame''"
| "FrameType ControlFrame = ''ControlFrame''"
| "FrameType SyncFrame = ''SyncFrame''"
| "FrameType (StartFrame _ _ _ _ _) = ''StartFrame''"
| "FrameType (CancelFrame _) = ''CancelFrame''"
| "FrameType EndFrame = ''EndFrame''"
| "FrameType StopFrame = ''StopFrame''"
| "FrameType InterruptionFrame = ''InterruptionFrame''"
| "FrameType (ErrorFrame _ _ _) = ''ErrorFrame''"
| "FrameType (TextFrame _) = ''TextFrame''"
| "FrameType (AggregatedTextFrame _ _) = ''AggregatedTextFrame''"
| "FrameType (TranscriptionFrame _ _ _ _ _) = ''TranscriptionFrame''"
| "FrameType (AudioRawFrame _) = ''AudioRawFrame''"
| "FrameType (OutputAudioRawFrame _ _) = ''OutputAudioRawFrame''"
| "FrameType (TTSAudioRawFrame _ _) = ''TTSAudioRawFrame''"
| "FrameType (TransportMessageFrame _) = ''TransportMessageFrame''"
| "FrameType (ManuallySwitchServiceFrame _) = ''ManuallySwitchServiceFrame''"
| "FrameType (ServiceMetadataFrame _ _) = ''ServiceMetadataFrame''"
| "FrameType (ServiceSwitcherRequestMetadataFrame _) = ''ServiceSwitcherRequestMetadataFrame''"
| "FrameType (LLMContextFrame _) = ''LLMContextFrame''"
| "FrameType LLMRunFrame = ''LLMRunFrame''"
| "FrameType (LLMMessagesUpdateFrame _ _) = ''LLMMessagesUpdateFrame''"
| "FrameType (LLMMessagesAppendFrame _ _) = ''LLMMessagesAppendFrame''"
| "FrameType (LLMSetToolsFrame _) = ''LLMSetToolsFrame''"
| "FrameType (LLMSetToolChoiceFrame _) = ''LLMSetToolChoiceFrame''"
| "FrameType (FunctionCallResultFrame _ _ _ _ _) = ''FunctionCallResultFrame''"
| "FrameType (LLMTextFrame _) = ''LLMTextFrame''"
| "FrameType LLMFullResponseStartFrame = ''LLMFullResponseStartFrame''"
| "FrameType LLMFullResponseEndFrame = ''LLMFullResponseEndFrame''"
| "FrameType (TTSSpeakFrame _) = ''TTSSpeakFrame''"
| "FrameType (LLMContextSummaryRequestFrame _ _ _ _ _ _) = ''LLMContextSummaryRequestFrame''"
| "FrameType (LLMContextSummaryResultFrame _ _ _ _) = ''LLMContextSummaryResultFrame''"
| "FrameType (VADParamsUpdateFrame _ _) = ''VADParamsUpdateFrame''"
| "FrameType (VADUserStartedSpeakingFrame _) = ''VADUserStartedSpeakingFrame''"
| "FrameType (VADUserStoppedSpeakingFrame _) = ''VADUserStoppedSpeakingFrame''"
| "FrameType UserSpeakingFrame = ''UserSpeakingFrame''"
| "FrameType UserStartedSpeakingFrame = ''UserStartedSpeakingFrame''"
| "FrameType UserStoppedSpeakingFrame = ''UserStoppedSpeakingFrame''"
| "FrameType UserIdleFrame = ''UserIdleFrame''"
| "FrameType BotStartedSpeakingFrame = ''BotStartedSpeakingFrame''"
| "FrameType BotStoppedSpeakingFrame = ''BotStoppedSpeakingFrame''"
| "FrameType (InputDTMFFrame _) = ''InputDTMFFrame''"
| "FrameType (OutputDTMFUrgentFrame _) = ''OutputDTMFUrgentFrame''"
| "FrameType (RTVIClientMessageFrame _ _ _) = ''RTVIClientMessageFrame''"
| "FrameType (RTVIServerMessageFrame _ _ _) = ''RTVIServerMessageFrame''"

abbreviation frame_id :: "frame \<Rightarrow> u64" where
  "frame_id f \<equiv> fid (fbase f)"

abbreviation frame_type :: "frame \<Rightarrow> string" where
  "frame_type f \<equiv> FrameType (fbody f)"

section \<open>Construction\<close>

definition nextID :: "u64 \<Rightarrow> u64" where
  "nextID ids = ids + 1"

definition NewBaseWithID :: "u64 \<Rightarrow> base" where
  "NewBaseWithID i = \<lparr>fid = i, pts = None, metadata = Map.empty\<rparr>"

definition NewBase :: "u64 \<Rightarrow> base \<times> u64" where
  "NewBase ids = (NewBaseWithID (nextID ids), nextID ids)"

definition SetPTS :: "base \<Rightarrow> u64 \<Rightarrow> base" where
  "SetPTS b ns = b\<lparr>pts := Some ns\<rparr>"

text \<open>A frame of the given body with a new base.\<close>

definition mk_frame :: "body \<Rightarrow> u64 \<Rightarrow> frame \<times> u64" where
  "mk_frame b ids = (let (ba, ids') = NewBase ids in (Frame ba b, ids'))"

definition text_of :: "string \<Rightarrow> text_data" where
  "text_of s = \<lparr>tdata = s, skip_tts = None, includes_space = False, append_to_context = True\<rparr>"

definition NewSyncFrame :: "u64 \<Rightarrow> frame \<times> u64" where
  "NewSyncFrame = mk_frame SyncFrame"

definition NewStartFrame :: "u64 \<Rightarrow> frame \<times> u64" where
  "NewStartFrame = mk_frame (StartFrame 16000 24000 False False False)"

definition NewCancelFrame :: "any \<Rightarrow> u64 \<Rightarrow> frame \<times> u64" where
  "NewCancelFrame reason = mk_frame (CancelFrame reason)"

definition NewEndFrame :: "u64 \<Rightarrow> frame \<times> u64" where
  "NewEndFrame = mk_frame EndFrame"

definition NewErrorFrame :: "string \<Rightarrow> bool \<Rightarrow> string \<Rightarrow> u64 \<Rightarrow> frame \<times> u64" where
  "NewErrorFrame e fatal proc = mk_frame (ErrorFrame e fatal proc)"

definition NewTextFrame :: "string \<Rightarrow> u64 \<Rightarrow> frame \<times> u64" where
  "NewTextFrame s = mk_frame (TextFrame (text_of s))"

definition NewAggregatedTextFrame :: "string \<Rightarrow> string \<Rightarrow> u64 \<Rightarrow> frame \<times> u64" where
  "NewAggregatedTextFrame s agg = mk_frame (AggregatedTextFrame (text_of s) agg)"

definition NewTranscriptionFrame ::
  "string \<Rightarrow> string \<Rightarrow> string \<Rightarrow> bool \<Rightarrow> u64 \<Rightarrow> frame \<times> u64" where
  "NewTranscriptionFrame s user time final =
     mk_frame (TranscriptionFrame (text_of s) user time [] final)"

definition audio_of :: "byte list \<Rightarrow> int \<Rightarrow> int \<Rightarrow> int \<Rightarrow> audio_data" where
  "audio_of a rate channels n =
     \<lparr>audio = a, sample_rate = rate, num_channels = channels,
      num_frames = (if n = 0 \<and> channels > 0 then int (length a) div (channels * 2) else n)\<rparr>"

definition NewAudioRawFrame :: "byte list \<Rightarrow> int \<Rightarrow> int \<Rightarrow> int \<Rightarrow> u64 \<Rightarrow> frame \<times> u64" where
  "NewAudioRawFrame a rate channels n = mk_frame (AudioRawFrame (audio_of a rate channels n))"

definition NewTTSAudioRawFrame :: "byte list \<Rightarrow> int \<Rightarrow> u64 \<Rightarrow> frame \<times> u64" where
  "NewTTSAudioRawFrame a rate =
     mk_frame (TTSAudioRawFrame (audio_of a rate 1 (int (length a div 2))) [])"

definition NewInterruptionFrame :: "u64 \<Rightarrow> frame \<times> u64" where
  "NewInterruptionFrame = mk_frame InterruptionFrame"

definition NewStopFrame :: "u64 \<Rightarrow> frame \<times> u64" where
  "NewStopFrame = mk_frame StopFrame"

definition NewTransportMessageFrame :: "anymap \<Rightarrow> u64 \<Rightarrow> frame \<times> u64" where
  "NewTransportMessageFrame msg = mk_frame (TransportMessageFrame msg)"

definition NewManuallySwitchServiceFrame :: "string \<Rightarrow> u64 \<Rightarrow> frame \<times> u64" where
  "NewManuallySwitchServiceFrame name = mk_frame (ManuallySwitchServiceFrame name)"

definition NewServiceMetadataFrame :: "string \<Rightarrow> anymap \<Rightarrow> u64 \<Rightarrow> frame \<times> u64" where
  "NewServiceMetadataFrame name meta = mk_frame (ServiceMetadataFrame name meta)"

definition NewServiceSwitcherRequestMetadataFrame :: "string \<Rightarrow> u64 \<Rightarrow> frame \<times> u64" where
  "NewServiceSwitcherRequestMetadataFrame name = mk_frame (ServiceSwitcherRequestMetadataFrame name)"

definition NewTTSSpeakFrame :: "string \<Rightarrow> u64 \<Rightarrow> frame \<times> u64" where
  "NewTTSSpeakFrame s = mk_frame (TTSSpeakFrame s)"

section \<open>Context messages\<close>

definition media_content :: "string \<Rightarrow> anymap \<Rightarrow> any" where
  "media_content s m =
     AArr ((if s \<noteq> [] then [AObj [(''type'', AStr ''text''), (''text'', AStr s)]] else []) @ [AObj m])"

definition AddImageMessage :: "llm_context \<Rightarrow> string \<Rightarrow> string \<Rightarrow> llm_context" where
  "AddImageMessage c s url = c\<lparr>messages := messages c @
     [[(''role'', AStr ''user''),
       (''content'', media_content s
          [(''type'', AStr ''image_url''), (''image_url'', AObj [(''url'', AStr url)])])]]\<rparr>"

definition AddAudioMessage :: "llm_context \<Rightarrow> string \<Rightarrow> string \<Rightarrow> string \<Rightarrow> llm_context" where
  "AddAudioMessage c s data format = c\<lparr>messages := messages c @
     [[(''role'', AStr ''user''),
       (''content'', media_content s
          [(''type'', AStr ''input_audio''),
           (''input_audio'', AObj [(''data'', AStr data), (''format'', AStr format)])])]]\<rparr>"

section \<open>DTMF keys\<close>

definition ValidKeypadRunes :: string where
  "ValidKeypadRunes = ''0123456789*#''"

text \<open>The error carries the message's prefix and the offending input.\<close>

definition ParseKeypadEntry :: "string \<Rightarrow> err + string" where
  "ParseKeypadEntry s0 =
     (let s = TrimSpace s0
      in if s = [] then Inl ''empty keypad entry''
         else if list_all (\<lambda>r. r \<in> set ValidKeypadRunes) s then Inr [hd s]
         else Inl ''invalid keypad character'')"

definition NewInputDTMFFrame :: "string \<Rightarrow> u64 \<Rightarrow> (err + frame) \<times> u64" where
  "NewInputDTMFFrame digit ids =
     (case digit of
        [] \<Rightarrow> (Inl ''digit cannot be empty'', ids)
      | d # _ \<Rightarrow> if d \<notin> set ValidKeypadRunes then (Inl ''invalid DTMF digit'', ids)
                 else (let (f, ids') = mk_frame (InputDTMFFrame digit) ids in (Inr f, ids')))"

definition NewOutputDTMFUrgentFrame :: "string \<Rightarrow> u64 \<Rightarrow> (err + frame) \<times> u64" where
  "NewOutputDTMFUrgentFrame button ids =
     (case button of
        [] \<Rightarrow> (Inl ''button cannot be empty'', ids)
      | d # _ \<Rightarrow> if d \<notin> set ValidKeypadRunes then (Inl ''invalid DTMF button'', ids)
                 else (let (f, ids') = mk_frame (OutputDTMFUrgentFrame button) ids in (Inr f, ids')))"

section \<open>Lemmas\<close>

lemma mk_frame_simps [simp]:
  "fbody (fst (mk_frame b ids)) = b" "frame_id (fst (mk_frame b ids)) = ids + 1"
  "snd (mk_frame b ids) = ids + 1"
  by (simp_all add: mk_frame_def NewBase_def NewBaseWithID_def nextID_def)

lemma ParseKeypadEntry_ok:
  "ParseKeypadEntry s = Inr k \<Longrightarrow>
   fst (NewInputDTMFFrame k ids) = Inr (fst (mk_frame (InputDTMFFrame k) ids)) \<and>
   fst (NewOutputDTMFUrgentFrame k ids) = Inr (fst (mk_frame (OutputDTMFUrgentFrame k) ids))"
  by (auto simp: ParseKeypadEntry_def NewInputDTMFFrame_def NewOutputDTMFUrgentFrame_def Let_def
      neq_Nil_conv split: if_splits prod.splits)

end
