(* ===== verification/Wire.thy ===== *)
theory Wire
  imports Frames
begin

text \<open>
  The binary frame format: \<^verbatim>\<open>pkg/frames/serialize/wire.go\<close> (protobuf messages written and
  read by hand) and the envelope of \<^verbatim>\<open>pkg/frames/proto/wire/envelope.go\<close>. A reader is the list
  of bytes left; a read returns its result and what is left. \<^verbatim>\<open>encoding/json\<close>, used for
  message frames only, is a parameter.
\<close>

datatype rerr = REOF | RUnexpectedEOF | RMsg string

text \<open>Strings and bytes.\<close>

definition bytes_of :: "string \<Rightarrow> byte list" where
  "bytes_of s = map of_char s"

definition string_of :: "byte list \<Rightarrow> string" where
  "string_of b = map (\<lambda>x. char_of (unat x)) b"

lemma string_of_bytes_of [bytes_simps, simp]: "string_of (bytes_of s) = s"
proof -
  have "char_of (unat (of_char c :: byte)) = c" for c
  proof -
    have "(of_char c :: byte) = of_nat (of_char c)" by (simp add: of_nat_of_char)
    moreover have "take_bit 8 (of_char c :: nat) = of_char c" by (simp add: take_bit_eq_mod)
    ultimately show ?thesis by (simp add: unsigned_of_nat)
  qed
  then show ?thesis by (simp add: string_of_def bytes_of_def comp_def)
qed

lemma length_bytes_of [simp]: "length (bytes_of s) = length s"
  by (simp add: bytes_of_def)

section \<open>Writing\<close>

function appendVarint :: "byte list \<Rightarrow> u64 \<Rightarrow> byte list" where
  "appendVarint buf v =
     (if 0x80 \<le> v then appendVarint (buf @ [ucast v OR 0x80]) (drop_bit 7 v)
      else buf @ [ucast v])"
  by pat_completeness auto
termination
proof (relation "measure (\<lambda>(buf, v). unat v)")
  fix buf :: "byte list" and v :: u64
  assume "0x80 \<le> v"
  then have "0 < unat v" by (auto simp: word_le_nat_alt)
  then have "unat v div 2 ^ 7 < unat v" by (intro div_less_dividend) auto
  then show "((buf @ [ucast v OR 0x80], drop_bit 7 v), buf, v) \<in> measure (\<lambda>(buf, v). unat v)"
    unfolding in_measure prod.case unat_drop_bit_eq by (simp add: drop_bit_eq_div)
qed simp

declare appendVarint.simps [simp del]

definition appendTag :: "byte list \<Rightarrow> nat \<Rightarrow> nat \<Rightarrow> byte list" where
  "appendTag buf fieldNum wireType =
     appendVarint buf (push_bit 3 (of_nat fieldNum) OR of_nat wireType)"

definition appendLengthDelimited :: "byte list \<Rightarrow> nat \<Rightarrow> byte list \<Rightarrow> byte list" where
  "appendLengthDelimited buf fieldNum data =
     appendVarint (appendTag buf fieldNum 2) (of_nat (length data)) @ data"

definition appendString :: "byte list \<Rightarrow> nat \<Rightarrow> string \<Rightarrow> byte list" where
  "appendString buf fieldNum s = appendLengthDelimited buf fieldNum (bytes_of s)"

definition appendBytes :: "byte list \<Rightarrow> nat \<Rightarrow> byte list \<Rightarrow> byte list" where
  "appendBytes buf fieldNum b = appendLengthDelimited buf fieldNum b"

definition frame_name :: "frame \<Rightarrow> string" where
  "frame_name f = frame_type f @ ''#'' @ utoa (unat (frame_id f))"

definition encodeTextFrameWire :: "frame \<Rightarrow> text_data \<Rightarrow> byte list" where
  "encodeTextFrameWire f t =
     (let b1 = appendVarint (appendTag [] 1 0) (frame_id f);
          b2 = appendString b1 2 (frame_name f)
      in appendString b2 3 (tdata t))"

definition encodeTranscriptionFrameWire :: "frame \<Rightarrow> text_data \<Rightarrow> string \<Rightarrow> string \<Rightarrow> byte list" where
  "encodeTranscriptionFrameWire f t user time =
     (let b1 = appendVarint (appendTag [] 1 0) (frame_id f);
          b2 = appendString b1 2 (frame_name f);
          b3 = appendString b2 3 (tdata t);
          b4 = appendString b3 4 user
      in appendString b4 5 time)"

definition encodeAudioFrameWire ::
  "frame \<Rightarrow> byte list \<Rightarrow> int \<Rightarrow> int \<Rightarrow> u64 option \<Rightarrow> byte list" where
  "encodeAudioFrameWire f snd_bytes sampleRate numChannels pt =
     (let b1 = appendVarint (appendTag [] 1 0) (frame_id f);
          b2 = appendString b1 2 (frame_name f);
          b3 = appendBytes b2 3 snd_bytes;
          b4 = appendVarint (appendTag b3 4 0) (of_int sampleRate);
          b5 = appendVarint (appendTag b4 5 0) (of_int numChannels)
      in case pt of None \<Rightarrow> b5 | Some p \<Rightarrow> appendVarint (appendTag b5 6 0) p)"

definition encodeFrameWire ::
  "(anymap \<Rightarrow> err + byte list) \<Rightarrow> frame \<Rightarrow> err + byte list option" where
  "encodeFrameWire marshal f =
     (let audio_payload = (\<lambda>a. encodeAudioFrameWire f (audio a) (sample_rate a) (num_channels a) (pts (fbase f)))
      in case fbody f of
        TextFrame t \<Rightarrow> Inr (Some (appendLengthDelimited [] 1 (encodeTextFrameWire f t)))
      | TranscriptionFrame t user time _ _ \<Rightarrow>
          Inr (Some (appendLengthDelimited [] 3 (encodeTranscriptionFrameWire f t user time)))
      | AudioRawFrame a \<Rightarrow> Inr (Some (appendLengthDelimited [] 2 (audio_payload a)))
      | OutputAudioRawFrame a _ \<Rightarrow> Inr (Some (appendLengthDelimited [] 2 (audio_payload a)))
      | TTSAudioRawFrame a _ \<Rightarrow> Inr (Some (appendLengthDelimited [] 2 (audio_payload a)))
      | TransportMessageFrame m \<Rightarrow>
          (case marshal m of
             Inl e \<Rightarrow> Inl e
           | Inr data \<Rightarrow> Inr (Some (appendLengthDelimited [] 4 (appendLengthDelimited [] 1 data))))
      | _ \<Rightarrow> Inr None)"

section \<open>Reading\<close>

text \<open>\<^verbatim>\<open>io.ReadFull\<close> of \<open>n\<close> bytes.\<close>

definition ReadFull :: "nat \<Rightarrow> byte list \<Rightarrow> (rerr + byte list) \<times> byte list" where
  "ReadFull n bs =
     (if n \<le> length bs then (Inr (take n bs), drop n bs)
      else if bs = [] then (Inl REOF, []) else (Inl RUnexpectedEOF, []))"

text \<open>The loop of \<^verbatim>\<open>readVarint\<close> with \<open>k\<close> rounds left.\<close>

primrec readVarint_loop :: "nat \<Rightarrow> u64 \<Rightarrow> nat \<Rightarrow> byte list \<Rightarrow> (rerr + u64) \<times> byte list" where
  "readVarint_loop 0 x s bs = (Inl (RMsg ''varint overflow''), bs)"
| "readVarint_loop (Suc k) x s bs =
     (case ReadFull 1 bs of
        (Inl e, r) \<Rightarrow> (Inl e, r)
      | (Inr b, r) \<Rightarrow>
          (let x' = x OR push_bit s (ucast (hd b AND 0x7f))
           in if hd b < 0x80 then (Inr x', r) else readVarint_loop k x' (s + 7) r))"

definition readVarint :: "byte list \<Rightarrow> (rerr + u64) \<times> byte list" where
  "readVarint bs = readVarint_loop 10 0 0 bs"

definition readTag :: "byte list \<Rightarrow> (rerr + nat \<times> nat) \<times> byte list" where
  "readTag bs =
     (case readVarint bs of
        (Inl e, r) \<Rightarrow> (Inl e, r)
      | (Inr v, r) \<Rightarrow> (Inr (unat (drop_bit 3 v), unat (v AND 7)), r))"

definition readLengthDelimited :: "byte list \<Rightarrow> (rerr + byte list) \<times> byte list" where
  "readLengthDelimited bs =
     (case readVarint bs of
        (Inl e, r) \<Rightarrow> (Inl e, r)
      | (Inr n, r) \<Rightarrow> if 1000000000 < n then (Inl (RMsg ''length-delimited too long''), r)
                     else ReadFull (unat n) r)"

lemma ReadFull_rest: "length (snd (ReadFull n bs)) \<le> length bs"
  by (simp add: ReadFull_def)

lemma readVarint_loop_rest:
  "length (snd (readVarint_loop k x s bs)) \<le> length bs \<and>
   (\<forall>v. fst (readVarint_loop k x s bs) = Inr v \<longrightarrow> length (snd (readVarint_loop k x s bs)) < length bs)"
proof (induction k arbitrary: x s bs)
  case (Suc k)
  show ?case
  proof (cases bs)
    case (Cons b r)
    from Suc.IH [of "x OR push_bit s (ucast (b AND 0x7f))" "s + 7" r] show ?thesis
      by (auto simp: Cons ReadFull_def Let_def)
  qed (simp add: ReadFull_def)
qed simp

lemma readVarint_rest: "length (snd (readVarint bs)) \<le> length bs"
  "fst (readVarint bs) = Inr v \<Longrightarrow> length (snd (readVarint bs)) < length bs"
  using readVarint_loop_rest [of 10 0 0 bs] by (auto simp: readVarint_def)

lemma readVarint_rest': "readVarint bs = (x, r) \<Longrightarrow> length r \<le> length bs"
  using readVarint_rest(1) [of bs] by simp

lemma readTag_rest: "readTag bs = (Inr t, r) \<Longrightarrow> length r < length bs"
  using readVarint_rest [of bs] by (auto simp: readTag_def split: prod.splits sum.splits)

lemma readLengthDelimited_rest: "readLengthDelimited bs = (x, r) \<Longrightarrow> length r \<le> length bs"
proof -
  assume "readLengthDelimited bs = (x, r)"
  moreover obtain y r1 where y: "readVarint bs = (y, r1)" by (cases "readVarint bs")
  moreover have "length (snd (ReadFull n r1)) \<le> length bs" for n
    using ReadFull_rest [of n r1] readVarint_rest' [OF y] by linarith
  ultimately show ?thesis
    using readVarint_rest' [OF y]
    by (auto simp: readLengthDelimited_def split: sum.splits if_splits) (metis snd_conv)
qed

lemmas read_rest = readTag_rest readVarint_rest' readLengthDelimited_rest

lemmas read_rest_sym = read_rest [OF sym]

text \<open>
  The field loop of the payload decoders. \<open>onv\<close> and \<open>onb\<close> are the switches on the field
  number of a varint and of a length-delimited field; \<open>strict\<close> says whether a bad varint is an
  error (audio) or read as 0 (text, transcription). Other wire types are skipped without
  consuming a value. End of input while reading a tag, even inside it, ends the message.
\<close>

function wire_fields ::
  "bool \<Rightarrow> (nat \<Rightarrow> u64 \<Rightarrow> 'a \<Rightarrow> 'a) \<Rightarrow> (nat \<Rightarrow> byte list \<Rightarrow> 'a \<Rightarrow> 'a) \<Rightarrow> byte list \<Rightarrow> 'a \<Rightarrow> rerr + 'a" where
  "wire_fields strict onv onb bs a =
     (case readTag bs of
        (Inl e, _) \<Rightarrow> if e = REOF then Inr a else Inl e
      | (Inr (fieldNum, wireType), r) \<Rightarrow>
          if wireType = 0
          then (case readVarint r of
                  (Inl e, r') \<Rightarrow> if strict then Inl e else wire_fields strict onv onb r' (onv fieldNum 0 a)
                | (Inr v, r') \<Rightarrow> wire_fields strict onv onb r' (onv fieldNum v a))
          else if wireType = 2
          then (case readLengthDelimited r of
                  (Inl e, _) \<Rightarrow> Inl e
                | (Inr d, r') \<Rightarrow> wire_fields strict onv onb r' (onb fieldNum d a))
          else wire_fields strict onv onb r a)"
  by pat_completeness auto
termination
  by (relation "measure (\<lambda>(strict, onv, onb, bs, a). length bs)")
    (auto dest!: read_rest_sym)

declare wire_fields.simps [simp del]

section \<open>Payload decoders\<close>

record wire_acc =
  w_id :: u64
  w_text :: "byte list"
  w_name :: "byte list"
  w_user :: "byte list"
  w_time :: "byte list"
  w_audio :: "byte list"
  w_rate :: u32
  w_channels :: u32
  w_pts :: u64

definition wire_acc0 :: wire_acc where
  "wire_acc0 = \<lparr>w_id = 0, w_text = [], w_name = [], w_user = [], w_time = [], w_audio = [],
     w_rate = 0, w_channels = 0, w_pts = 0\<rparr>"

text \<open>The base of a decoded frame, and the name a decoder puts into the metadata.\<close>

definition wire_base :: "u64 \<Rightarrow> u64 \<Rightarrow> base \<times> u64" where
  "wire_base i ids = (if i \<noteq> 0 then (NewBaseWithID i, ids) else NewBase ids)"

definition with_name :: "byte list \<Rightarrow> base \<Rightarrow> base" where
  "with_name n b =
     (if n \<noteq> [] then b\<lparr>metadata := (metadata b)(''name'' \<mapsto> AStr (string_of n))\<rparr> else b)"

definition text_onv :: "nat \<Rightarrow> u64 \<Rightarrow> wire_acc \<Rightarrow> wire_acc" where
  "text_onv fn v a = (if fn = 1 then a\<lparr>w_id := v\<rparr> else a)"

definition text_onb :: "nat \<Rightarrow> byte list \<Rightarrow> wire_acc \<Rightarrow> wire_acc" where
  "text_onb fn d a =
     (if fn = 3 then a\<lparr>w_text := d\<rparr> else if fn = 2 then a\<lparr>w_name := d\<rparr> else a)"

definition transcription_onb :: "nat \<Rightarrow> byte list \<Rightarrow> wire_acc \<Rightarrow> wire_acc" where
  "transcription_onb fn d a =
     (if fn = 3 then a\<lparr>w_text := d\<rparr> else if fn = 4 then a\<lparr>w_user := d\<rparr>
      else if fn = 5 then a\<lparr>w_time := d\<rparr> else if fn = 2 then a\<lparr>w_name := d\<rparr> else a)"

definition audio_onv :: "nat \<Rightarrow> u64 \<Rightarrow> wire_acc \<Rightarrow> wire_acc" where
  "audio_onv fn v a =
     (if fn = 1 then a\<lparr>w_id := v\<rparr> else if fn = 4 then a\<lparr>w_rate := ucast v\<rparr>
      else if fn = 5 then a\<lparr>w_channels := ucast v\<rparr> else if fn = 6 then a\<lparr>w_pts := v\<rparr> else a)"

definition audio_onb :: "nat \<Rightarrow> byte list \<Rightarrow> wire_acc \<Rightarrow> wire_acc" where
  "audio_onb fn d a =
     (if fn = 3 then a\<lparr>w_audio := d\<rparr> else if fn = 2 then a\<lparr>w_name := d\<rparr> else a)"

definition decodeTextFrameWire :: "byte list \<Rightarrow> u64 \<Rightarrow> (rerr + frame) \<times> u64" where
  "decodeTextFrameWire payload ids =
     (case wire_fields False text_onv text_onb payload wire_acc0 of
        Inl e \<Rightarrow> (Inl e, ids)
      | Inr a \<Rightarrow>
          (let (b, ids') = wire_base (w_id a) ids
           in (Inr (Frame (with_name (w_name a) b)
                 (TextFrame \<lparr>tdata = string_of (w_text a), skip_tts = None, includes_space = False,
                    append_to_context = False\<rparr>)), ids')))"

definition decodeTranscriptionFrameWire :: "byte list \<Rightarrow> u64 \<Rightarrow> (rerr + frame) \<times> u64" where
  "decodeTranscriptionFrameWire payload ids =
     (case wire_fields False text_onv transcription_onb payload wire_acc0 of
        Inl e \<Rightarrow> (Inl e, ids)
      | Inr a \<Rightarrow>
          (let (b, ids') = wire_base (w_id a) ids
           in (Inr (Frame (with_name (w_name a) b)
                 (TranscriptionFrame \<lparr>tdata = string_of (w_text a), skip_tts = None,
                    includes_space = False, append_to_context = True\<rparr>
                    (string_of (w_user a)) (string_of (w_time a)) [] False)), ids')))"

text \<open>\<^verbatim>\<open>NewAudioRawFrame\<close> draws an id before the decoded id replaces its base.\<close>

definition decodeAudioFrameWire :: "byte list \<Rightarrow> u64 \<Rightarrow> (rerr + frame) \<times> u64" where
  "decodeAudioFrameWire payload ids =
     (case wire_fields True audio_onv audio_onb payload wire_acc0 of
        Inl e \<Rightarrow> (Inl e, ids)
      | Inr a \<Rightarrow>
          (let (af, ids') = NewAudioRawFrame (w_audio a) (uint (w_rate a)) (uint (w_channels a)) 0 ids;
               b1 = (if w_id a \<noteq> 0 then NewBaseWithID (w_id a) else fbase af);
               b2 = (if w_pts a \<noteq> 0 then SetPTS b1 (w_pts a) else b1)
           in (Inr (Frame (with_name (w_name a) b2) (fbody af)), ids')))"

definition decodeMessageFrameWire ::
  "(byte list \<Rightarrow> err + anymap) \<Rightarrow> byte list \<Rightarrow> u64 \<Rightarrow> (rerr + frame) \<times> u64" where
  "decodeMessageFrameWire unmarshal payload ids =
     (case readTag payload of
        (Inl e, _) \<Rightarrow> (Inl e, ids)
      | (Inr (_, wireType), r) \<Rightarrow>
          if wireType \<noteq> 2 then (Inl (RMsg ''wire message frame: expected length-delimited''), ids)
          else case readLengthDelimited r of
                 (Inl e, _) \<Rightarrow> (Inl e, ids)
               | (Inr data, _) \<Rightarrow>
                   (case unmarshal data of
                      Inl e \<Rightarrow> (Inl (RMsg (''wire message frame json: '' @ e)), ids)
                    | Inr msg \<Rightarrow> (let (f, ids') = NewTransportMessageFrame msg ids in (Inr f, ids'))))"

definition decodeFrameWire ::
  "(byte list \<Rightarrow> err + anymap) \<Rightarrow> byte list \<Rightarrow> u64 \<Rightarrow> (rerr + frame) \<times> u64" where
  "decodeFrameWire unmarshal data ids =
     (case readTag data of
        (Inl e, _) \<Rightarrow> (Inl e, ids)
      | (Inr (fieldNum, wireType), r) \<Rightarrow>
          if wireType \<noteq> 2
          then (Inl (RMsg (''wire frame: expected length-delimited, got wire type '' @ utoa wireType)), ids)
          else case readLengthDelimited r of
                 (Inl e, _) \<Rightarrow> (Inl e, ids)
               | (Inr payload, _) \<Rightarrow>
                   if fieldNum = 1 then decodeTextFrameWire payload ids
                   else if fieldNum = 3 then decodeTranscriptionFrameWire payload ids
                   else if fieldNum = 2 then decodeAudioFrameWire payload ids
                   else if fieldNum = 4 then decodeMessageFrameWire unmarshal payload ids
                   else (Inl (RMsg (''wire frame: unknown field '' @ utoa fieldNum)), ids))"

section \<open>Varints round trip\<close>

lemma appendVarint_buf: "appendVarint buf v = buf @ appendVarint [] v"
proof (induction v arbitrary: buf rule: measure_induct_rule [of unat])
  case (less v)
  show ?case
  proof (cases "0x80 \<le> v")
    case True
    then have "unat v div 128 < unat v" by (intro div_less_dividend) (auto simp: word_le_nat_alt)
    then have lt: "unat (drop_bit 7 v) < unat v"
      unfolding unat_drop_bit_eq by (simp add: drop_bit_eq_div)
    have st: "appendVarint b v = appendVarint (b @ [ucast v OR 0x80]) (drop_bit 7 v)" for b
      using True by (subst appendVarint.simps) simp
    show ?thesis
      unfolding st [of buf] st [of "[]"] append_Nil
      by (simp only: less [OF lt, of "buf @ [ucast v OR 0x80]"] less [OF lt, of "[ucast v OR 0x80]"]
        append.assoc)
  next
    case False
    then show ?thesis by (subst (1 2) appendVarint.simps) simp
  qed
qed

lemma varint_step:
  "0x80 \<le> v \<Longrightarrow> appendVarint [] v = (ucast v OR 0x80) # appendVarint [] (drop_bit 7 v)"
  "\<not> 0x80 \<le> v \<Longrightarrow> appendVarint [] v = [ucast v]"
  by (subst appendVarint.simps, subst appendVarint_buf, simp) (subst appendVarint.simps, simp)

lemma masks: "(0x7f :: byte) = mask 7" "(0x7f :: u64) = mask 7"
  by (simp_all add: mask_eq_exp_minus_1)

lemma bit_0x80: "bit (0x80 :: 'a::len word) n \<longleftrightarrow> n = 7 \<and> 7 < LENGTH('a)"
proof -
  have "(0x80 :: 'a word) = 2 ^ 7" by simp
  then show ?thesis by (simp only: bit_exp_iff) auto
qed

lemma bit_0x80_int: "bit (128 :: int) n \<longleftrightarrow> n = 7"
proof -
  have "(128 :: int) = 2 ^ 7" by simp
  then show ?thesis by (simp only: bit_exp_iff) auto
qed

lemma low7: "ucast ((ucast v OR 0x80 :: byte) AND 0x7f) = (v AND 0x7f :: u64)"
  unfolding masks by (rule bit_word_eqI) (auto simp: bit_simps bit_0x80 bit_0x80_int)

lemma small_byte:
  assumes "\<not> 0x80 \<le> (v :: u64)"
  shows "ucast ((ucast v :: byte) AND 0x7f) = v" "(ucast v :: byte) < 0x80"
proof -
  from assms have "unat v < 128" by (simp add: word_le_nat_alt)
  then have t: "take_bit 7 (unat v) = unat v" by (simp add: take_bit_nat_eq_self)
  then have tv: "take_bit 7 v = v"
    by (metis unsigned_take_bit_eq word_unat_eq_iff)
  show "ucast ((ucast v :: byte) AND 0x7f) = v"
  proof (rule bit_word_eqI)
    fix n
    assume "n < LENGTH(64)"
    have "bit v n \<Longrightarrow> n < 7" using tv by (metis bit_take_bit_iff)
    then show "bit (ucast ((ucast v :: byte) AND 0x7f) :: u64) n = bit v n"
      unfolding masks by (auto simp: bit_simps)
  qed
  show "(ucast v :: byte) < 0x80"
    using \<open>unat v < 128\<close> by (simp add: word_less_nat_alt unsigned_ucast_eq take_bit_nat_eq_self)
qed

lemma or80_ge: "\<not> (ucast v OR 0x80 :: byte) < 0x80"
proof -
  have "bit (ucast v OR 0x80 :: byte) 7" by (simp add: bit_simps)
  then have "128 \<le> unat (ucast v OR 0x80 :: byte)" by (simp only: bit7_unat)
  then show ?thesis by (simp add: word_less_nat_alt)
qed

lemma varint_join: "(x OR push_bit s (v AND 0x7f)) OR push_bit (s + 7) (drop_bit 7 v) = x OR push_bit s (v :: u64)"
proof (rule bit_word_eqI)
  fix n
  show "bit ((x OR push_bit s (v AND 0x7f)) OR push_bit (s + 7) (drop_bit 7 v)) n = bit (x OR push_bit s v) n"
  proof (cases "n - s < 7")
    case False
    then have "7 + (n - (s + 7)) = n - s" by simp
    with False show ?thesis unfolding masks by (auto simp: bit_simps)
  qed (unfold masks, auto simp: bit_simps)
qed

lemma readVarint_loop_appendVarint:
  "unat v < 2 ^ (7 * k) \<Longrightarrow> 0 < k \<Longrightarrow>
   readVarint_loop k x s (appendVarint [] v @ r) = (Inr (x OR push_bit s v), r)"
proof (induction k arbitrary: x s v)
  case (Suc k)
  show ?case
  proof (cases "0x80 \<le> v")
    case True
    then have v: "128 \<le> unat v" by (simp add: word_le_nat_alt)
    have k: "0 < k" using Suc.prems(1) v by (cases k) auto
    have "unat (drop_bit 7 v) = unat v div 128"
      unfolding unat_drop_bit_eq by (simp add: drop_bit_eq_div)
    also have "\<dots> < 2 ^ (7 * k)"
      using Suc.prems(1) by (intro div_less_iff_less_mult [THEN iffD2]) (auto simp: power_add mult.commute)
    finally have d: "unat (drop_bit 7 v) < 2 ^ (7 * k)" .
    show ?thesis
      using Suc.IH [OF d k, of "x OR push_bit s (v AND 0x7f)" "s + 7", unfolded varint_join] True
      by (simp add: varint_step ReadFull_def Let_def or80_ge low7 varint_join)
  next
    case False
    then show ?thesis by (simp add: varint_step ReadFull_def Let_def small_byte)
  qed
qed simp

lemma readVarint_appendVarint [bytes_simps, simp]: "readVarint (appendVarint [] v @ r) = (Inr v, r)"
proof -
  have "unat v < 2 ^ 64" using unsigned_less [of v, where ?'a = nat] by simp
  then have "unat v < 2 ^ (7 * 10)" by simp
  then show ?thesis by (simp add: readVarint_def readVarint_loop_appendVarint)
qed

section \<open>Fields round trip\<close>

lemma readTag_appendTag [bytes_simps, simp]:
  assumes "fn < 2 ^ 8" "wt < 8"
  shows "readTag (appendTag [] fn wt @ r) = (Inr (fn, wt), r)"
proof -
  have w: "bit wt n \<Longrightarrow> n < 3" for n
    using assms(2) take_bit_nat_eq_self [of wt 3] by (metis bit_take_bit_iff eval_nat_numeral(3)
        power3_eq_cube numeral_times_numeral semiring_norm(11,13) num_double)
  have f: "bit fn n \<Longrightarrow> n < 8" for n
    using assms(1) take_bit_nat_eq_self [of fn 8] by (metis bit_take_bit_iff)
  let ?v = "push_bit 3 (of_nat fn) OR of_nat wt :: u64"
  have "drop_bit 3 ?v = of_nat fn"
    by (rule bit_word_eqI) (auto simp: bit_simps bit_of_nat_iff_bit dest: w f)
  moreover have "?v AND mask 3 = of_nat wt"
    by (rule bit_word_eqI) (auto simp: bit_simps bit_of_nat_iff_bit dest: w)
  moreover have "(7 :: u64) = mask 3" by (simp add: mask_eq_exp_minus_1)
  moreover have "unat (of_nat fn :: u64) = fn" "unat (of_nat wt :: u64) = wt"
    using assms by (auto simp: unsigned_of_nat take_bit_nat_eq_self)
  ultimately show ?thesis by (simp add: readTag_def appendTag_def del: push_bit_of_nat)
qed

lemma appendTag_buf: "appendTag buf fn wt = buf @ appendTag [] fn wt"
  unfolding appendTag_def by (rule appendVarint_buf)

lemma appendLengthDelimited_buf: "appendLengthDelimited buf fn d = buf @ appendLengthDelimited [] fn d"
  unfolding appendLengthDelimited_def
  by (simp only: appendVarint_buf [of "appendTag _ _ _"] appendVarint_buf [of "_ @ _"]
    appendTag_buf [of buf] append.assoc)

lemma readLengthDelimited_append [bytes_simps, simp]:
  assumes "length d \<le> 1000000000"
  shows "readLengthDelimited (appendVarint [] (of_nat (length d)) @ d @ r) = (Inr d, r)"
proof -
  have "unat (of_nat (length d) :: u64) = length d"
    using assms by (simp add: unsigned_of_nat take_bit_nat_eq_self)
  then show ?thesis
    using assms by (simp add: readLengthDelimited_def ReadFull_def word_less_nat_alt)
qed

lemma appendLengthDelimited_parts:
  "appendLengthDelimited [] fn d = appendTag [] fn 2 @ appendVarint [] (of_nat (length d)) @ d"
  unfolding appendLengthDelimited_def by (simp only: appendVarint_buf [of "appendTag _ _ _"] append.assoc)

lemma wire_fields_Nil [simp]: "wire_fields strict onv onb [] a = Inr a"
  by (subst wire_fields.simps) (simp add: readTag_def readVarint_def ReadFull_def numeral_eq_Suc)

lemma wire_fields_varint:
  "fn < 2 ^ 8 \<Longrightarrow> wire_fields strict onv onb (appendTag [] fn 0 @ appendVarint [] v @ r) a
     = wire_fields strict onv onb r (onv fn v a)"
  by (subst wire_fields.simps) simp

lemma wire_fields_bytes:
  "fn < 2 ^ 8 \<Longrightarrow> length d \<le> 1000000000 \<Longrightarrow>
   wire_fields strict onv onb (appendLengthDelimited [] fn d @ r) a
     = wire_fields strict onv onb r (onb fn d a)"
  by (subst wire_fields.simps) (simp add: appendLengthDelimited_parts)

lemma wire_fields_last:
  "fn < 2 ^ 8 \<Longrightarrow> wire_fields strict onv onb (appendTag [] fn 0 @ appendVarint [] v) a = Inr (onv fn v a)"
  "fn < 2 ^ 8 \<Longrightarrow> length d \<le> 1000000000 \<Longrightarrow>
   wire_fields strict onv onb (appendLengthDelimited [] fn d) a = Inr (onb fn d a)"
  using wire_fields_varint [of fn strict onv onb v "[]" a] wire_fields_bytes [of fn d strict onv onb "[]" a]
  by simp_all

lemma length_appendLengthDelimited: "length d \<le> length (appendLengthDelimited [] fn d)"
  by (simp add: appendLengthDelimited_parts)

text \<open>Every message as the concatenation of its fields.\<close>

abbreviation vfield :: "nat \<Rightarrow> u64 \<Rightarrow> byte list" where
  "vfield fn v \<equiv> appendTag [] fn 0 @ appendVarint [] v"

abbreviation bfield :: "nat \<Rightarrow> byte list \<Rightarrow> byte list" where
  "bfield fn d \<equiv> appendLengthDelimited [] fn d"

lemmas wire_buf = appendVarint_buf [of "_ # _"] appendVarint_buf [of "_ @ _"]
  appendVarint_buf [of "appendTag _ _ _"] appendTag_buf [of "_ @ _"]
  appendLengthDelimited_buf [of "_ @ _"] append.assoc

lemma encodeTextFrameWire_fields:
  "encodeTextFrameWire f t =
     vfield 1 (frame_id f) @ bfield 2 (bytes_of (frame_name f)) @ bfield 3 (bytes_of (tdata t))"
  unfolding encodeTextFrameWire_def appendString_def Let_def by (simp only: wire_buf)

lemma encodeTranscriptionFrameWire_fields:
  "encodeTranscriptionFrameWire f t user time =
     vfield 1 (frame_id f) @ bfield 2 (bytes_of (frame_name f)) @ bfield 3 (bytes_of (tdata t))
       @ bfield 4 (bytes_of user) @ bfield 5 (bytes_of time)"
  unfolding encodeTranscriptionFrameWire_def appendString_def Let_def by (simp only: wire_buf)

lemma encodeAudioFrameWire_fields:
  "encodeAudioFrameWire f snd_bytes rate channels pt =
     vfield 1 (frame_id f) @ bfield 2 (bytes_of (frame_name f)) @ bfield 3 snd_bytes
       @ vfield 4 (of_int rate) @ vfield 5 (of_int channels)
       @ (case pt of None \<Rightarrow> [] | Some p \<Rightarrow> vfield 6 p)"
  unfolding encodeAudioFrameWire_def appendString_def appendBytes_def Let_def
  by (cases pt) (simp_all only: wire_buf option.case append_Nil2)

lemma decodeFrameWire_payload:
  "fn < 2 ^ 8 \<Longrightarrow> length p \<le> 1000000000 \<Longrightarrow>
   decodeFrameWire u (bfield fn p) ids =
     (if fn = 1 then decodeTextFrameWire p ids
      else if fn = 3 then decodeTranscriptionFrameWire p ids
      else if fn = 2 then decodeAudioFrameWire p ids
      else if fn = 4 then decodeMessageFrameWire u p ids
      else (Inl (RMsg (''wire frame: unknown field '' @ utoa fn)), ids))"
  using readLengthDelimited_append [of p "[]"]
  by (simp add: decodeFrameWire_def appendLengthDelimited_parts)

section \<open>Frames round trip\<close>

text \<open>
  What of a frame survives the wire: the id and the payload. The name goes into the metadata;
  language, finality, the presentation flags, the other metadata and a zero timestamp are lost,
  and every audio frame arrives as a raw audio frame.
\<close>

definition wire_view :: "frame \<Rightarrow> frame option" where
  "wire_view f =
     (let b = \<lparr>fid = frame_id f, pts = None, metadata = [''name'' \<mapsto> AStr (frame_name f)]\<rparr>;
          audio_view = (\<lambda>a. Some (Frame
            (case pts (fbase f) of Some p \<Rightarrow> if p \<noteq> 0 then b\<lparr>pts := Some p\<rparr> else b | None \<Rightarrow> b)
            (AudioRawFrame (audio_of (audio a) (sample_rate a) (num_channels a) 0))))
      in case fbody f of
        TextFrame t \<Rightarrow> Some (Frame b (TextFrame \<lparr>tdata = tdata t, skip_tts = None,
          includes_space = False, append_to_context = False\<rparr>))
      | TranscriptionFrame t user time _ _ \<Rightarrow> Some (Frame b (TranscriptionFrame \<lparr>tdata = tdata t,
          skip_tts = None, includes_space = False, append_to_context = True\<rparr> user time [] False))
      | AudioRawFrame a \<Rightarrow> audio_view a
      | OutputAudioRawFrame a _ \<Rightarrow> audio_view a
      | TTSAudioRawFrame a _ \<Rightarrow> audio_view a
      | _ \<Rightarrow> None)"

definition rates_in_range :: "audio_data \<Rightarrow> bool" where
  "rates_in_range a \<longleftrightarrow>
     0 \<le> sample_rate a \<and> sample_rate a < 2 ^ 32 \<and> 0 \<le> num_channels a \<and> num_channels a < 2 ^ 32"

definition audio_in_range :: "body \<Rightarrow> bool" where
  "audio_in_range b =
     (case b of
        AudioRawFrame a \<Rightarrow> rates_in_range a
      | OutputAudioRawFrame a _ \<Rightarrow> rates_in_range a
      | TTSAudioRawFrame a _ \<Rightarrow> rates_in_range a
      | _ \<Rightarrow> True)"

lemma bytes_of_frame_name: "bytes_of (frame_name f) \<noteq> []"
  by (simp add: bytes_of_def frame_name_def)

lemma with_name_frame_name:
  "with_name (bytes_of (frame_name f)) b = b\<lparr>metadata := (metadata b)(''name'' \<mapsto> AStr (frame_name f))\<rparr>"
  by (simp add: with_name_def bytes_of_frame_name)

lemma bfield_length: "length (bfield fn d) \<le> n \<Longrightarrow> length d \<le> n"
  using length_appendLengthDelimited order_trans by blast

lemma fields_length:
  "length (a @ b) \<le> n \<Longrightarrow> length a \<le> n \<and> length b \<le> n"
  by simp

lemma decode_text:
  assumes "length (encodeTextFrameWire f t) \<le> 1000000000" "frame_id f \<noteq> 0"
  shows "decodeTextFrameWire (encodeTextFrameWire f t) ids =
    (Inr (Frame \<lparr>fid = frame_id f, pts = None, metadata = [''name'' \<mapsto> AStr (frame_name f)]\<rparr>
       (TextFrame \<lparr>tdata = tdata t, skip_tts = None, includes_space = False, append_to_context = False\<rparr>)), ids)"
proof -
  have l: "length (bytes_of (frame_name f)) \<le> 1000000000" "length (bytes_of (tdata t)) \<le> 1000000000"
    using assms(1) unfolding encodeTextFrameWire_fields
    by (blast dest: fields_length intro: bfield_length)+
  have "wire_fields False text_onv text_onb (encodeTextFrameWire f t) wire_acc0 =
      Inr (wire_acc0\<lparr>w_id := frame_id f, w_name := bytes_of (frame_name f), w_text := bytes_of (tdata t)\<rparr>)"
    using l
    by (simp add: encodeTextFrameWire_fields wire_fields_varint wire_fields_bytes wire_fields_last text_onv_def text_onb_def)
  then show ?thesis
    using assms(2)
    by (simp add: decodeTextFrameWire_def wire_base_def with_name_frame_name NewBaseWithID_def wire_acc0_def)
qed

lemma decode_transcription:
  assumes "length (encodeTranscriptionFrameWire f t user time) \<le> 1000000000" "frame_id f \<noteq> 0"
  shows "decodeTranscriptionFrameWire (encodeTranscriptionFrameWire f t user time) ids =
    (Inr (Frame \<lparr>fid = frame_id f, pts = None, metadata = [''name'' \<mapsto> AStr (frame_name f)]\<rparr>
       (TranscriptionFrame \<lparr>tdata = tdata t, skip_tts = None, includes_space = False,
          append_to_context = True\<rparr> user time [] False)), ids)"
proof -
  have l: "length (bytes_of (frame_name f)) \<le> 1000000000" "length (bytes_of (tdata t)) \<le> 1000000000"
    "length (bytes_of user) \<le> 1000000000" "length (bytes_of time) \<le> 1000000000"
    using assms(1) unfolding encodeTranscriptionFrameWire_fields
    by (blast dest: fields_length intro: bfield_length)+
  have "wire_fields False text_onv transcription_onb (encodeTranscriptionFrameWire f t user time) wire_acc0 =
      Inr (wire_acc0\<lparr>w_id := frame_id f, w_name := bytes_of (frame_name f), w_text := bytes_of (tdata t),
        w_user := bytes_of user, w_time := bytes_of time\<rparr>)"
    using l
    by (simp add: encodeTranscriptionFrameWire_fields wire_fields_varint wire_fields_bytes wire_fields_last
        text_onv_def transcription_onb_def)
  then show ?thesis
    using assms(2)
    by (simp add: decodeTranscriptionFrameWire_def wire_base_def with_name_frame_name
        NewBaseWithID_def wire_acc0_def)
qed

lemma ucast_small: "0 \<le> i \<Longrightarrow> i < 2 ^ 32 \<Longrightarrow> uint (ucast (word_of_int i :: u64) :: u32) = i"
  by (simp add: unsigned_ucast_eq unsigned_of_int take_bit_int_eq_self)

lemma decode_audio:
  assumes "length (encodeAudioFrameWire f sb rate ch pt) \<le> 1000000000" "frame_id f \<noteq> 0"
    and "0 \<le> rate" "rate < 2 ^ 32" "0 \<le> ch" "ch < 2 ^ 32"
  shows "decodeAudioFrameWire (encodeAudioFrameWire f sb rate ch pt) ids =
    (Inr (Frame \<lparr>fid = frame_id f, pts = (case pt of Some p \<Rightarrow> if p \<noteq> 0 then Some p else None | None \<Rightarrow> None),
        metadata = [''name'' \<mapsto> AStr (frame_name f)]\<rparr> (AudioRawFrame (audio_of sb rate ch 0))), ids + 1)"
proof -
  have l: "length (bytes_of (frame_name f)) \<le> 1000000000" "length sb \<le> 1000000000"
    using assms(1) unfolding encodeAudioFrameWire_fields
    by (blast dest: fields_length intro: bfield_length)+
  have "wire_fields True audio_onv audio_onb (encodeAudioFrameWire f sb rate ch pt) wire_acc0 =
      Inr (wire_acc0\<lparr>w_id := frame_id f, w_name := bytes_of (frame_name f), w_audio := sb,
        w_rate := ucast (of_int rate :: u64), w_channels := ucast (of_int ch :: u64),
        w_pts := (case pt of Some p \<Rightarrow> p | None \<Rightarrow> 0)\<rparr>)"
    using l
    by (cases pt) (simp_all add: encodeAudioFrameWire_fields wire_fields_varint wire_fields_bytes wire_fields_last
        audio_onv_def audio_onb_def wire_acc0_def)
  then show ?thesis
    using assms(2-)
    by (cases pt) (simp_all add: decodeAudioFrameWire_def with_name_frame_name NewBaseWithID_def
        wire_acc0_def NewAudioRawFrame_def ucast_small SetPTS_def split_beta)
qed

section \<open>The serializer interface\<close>

text \<open>
  \<^verbatim>\<open>serialize.Serializer\<close>: what a transport relies on. \<open>ser\<close> returns no bytes for a frame it
  skips; a frame it does write is read back as \<open>view f\<close>.
\<close>

locale serializer =
  fixes ser :: "frame \<Rightarrow> err + byte list option"
    and deser :: "byte list \<Rightarrow> u64 \<Rightarrow> (rerr + frame) \<times> u64"
    and view :: "frame \<Rightarrow> frame option"
    and fits :: "frame \<Rightarrow> bool"
  assumes ser_view: "view f = Some g \<Longrightarrow> fits f \<Longrightarrow>
      \<exists>bs. ser f = Inr (Some bs) \<and> fst (deser bs ids) = Inr g"
begin

text \<open>A batch of frames is delivered as the views of its frames, in order.\<close>

lemma batch:
  "list_all2 (\<lambda>f g. view f = Some g \<and> fits f) fs gs \<Longrightarrow>
   \<exists>bss. list_all2 (\<lambda>f bs. ser f = Inr (Some bs)) fs bss \<and>
         list_all2 (\<lambda>bs g. \<forall>ids. fst (deser bs ids) = Inr g) bss gs"
proof (induction rule: list_all2_induct)
  case Nil
  then show ?case by simp
next
  case (Cons f fs g gs)
  have sv: "\<exists>bs. ser f = Inr (Some bs) \<and> fst (deser bs ids) = Inr g" for ids
    using Cons ser_view by blast
  from sv [of 0] obtain bs where bs: "ser f = Inr (Some bs)" by blast
  have de: "\<forall>ids. fst (deser bs ids) = Inr g" using sv bs by fastforce
  from Cons obtain bss where "list_all2 (\<lambda>f bs. ser f = Inr (Some bs)) fs bss"
    "list_all2 (\<lambda>bs g. \<forall>ids. fst (deser bs ids) = Inr g) bss gs" by blast
  with bs de have "list_all2 (\<lambda>f bs. ser f = Inr (Some bs)) (f # fs) (bs # bss) \<and>
    list_all2 (\<lambda>bs g. \<forall>ids. fst (deser bs ids) = Inr g) (bs # bss) (g # gs)" by simp
  then show ?case by blast
qed

end

text \<open>The frames the wire format carries whole: an id, sizes below the reader's limit.\<close>

definition wire_fits :: "frame \<Rightarrow> bool" where
  "wire_fits f \<longleftrightarrow> frame_id f \<noteq> 0 \<and> audio_in_range (fbody f) \<and>
     (case encodeFrameWire (\<lambda>_. Inl []) f of Inr (Some bs) \<Rightarrow> length bs \<le> 1000000000 | _ \<Rightarrow> False)"

lemma wire_audio_case:
  assumes "length (bfield 2 (encodeAudioFrameWire f (audio a) (sample_rate a) (num_channels a) (pts (fbase f))))
      \<le> 1000000000" "frame_id f \<noteq> 0" "rates_in_range a"
  shows "fst (decodeFrameWire u (bfield 2 (encodeAudioFrameWire f (audio a) (sample_rate a)
      (num_channels a) (pts (fbase f)))) ids) =
    Inr (Frame \<lparr>fid = frame_id f, pts = (case pts (fbase f) of Some p \<Rightarrow> if p \<noteq> 0 then Some p else None | None \<Rightarrow> None),
        metadata = [''name'' \<mapsto> AStr (frame_name f)]\<rparr>
      (AudioRawFrame (audio_of (audio a) (sample_rate a) (num_channels a) 0)))"
  using bfield_length [OF assms(1)] assms(2,3)
  by (simp add: decodeFrameWire_payload decode_audio rates_in_range_def)

lemma wire_ser_view:
  assumes v: "wire_view f = Some g" and fit: "wire_fits f"
  shows "\<exists>bs. encodeFrameWire m f = Inr (Some bs) \<and> fst (decodeFrameWire u bs ids) = Inr g"
proof -
  note d = wire_view_def wire_fits_def encodeFrameWire_def audio_in_range_def Let_def
  show ?thesis
  proof (cases "fbody f")
    case (TextFrame t)
    with v fit have "length (bfield 1 (encodeTextFrameWire f t)) \<le> 1000000000" "frame_id f \<noteq> 0"
      by (simp_all add: d)
    with v TextFrame bfield_length [OF this(1)] show ?thesis
      by (simp add: d decodeFrameWire_payload decode_text)
  next
    case (TranscriptionFrame t x y z w)
    with v fit have "length (bfield 3 (encodeTranscriptionFrameWire f t x y)) \<le> 1000000000" "frame_id f \<noteq> 0"
      by (simp_all add: d)
    with v TranscriptionFrame bfield_length [OF this(1)] show ?thesis
      by (simp add: d decodeFrameWire_payload decode_transcription)
  next
    case (AudioRawFrame a)
    with v fit show ?thesis
      by (auto simp: d wire_audio_case split: option.splits)
  next
    case (OutputAudioRawFrame a x)
    with v fit show ?thesis
      by (auto simp: d wire_audio_case split: option.splits)
  next
    case (TTSAudioRawFrame a x)
    with v fit show ?thesis
      by (auto simp: d wire_audio_case split: option.splits)
  qed (use v in \<open>simp_all add: d\<close>)
qed

interpretation protobuf: serializer "encodeFrameWire m" "decodeFrameWire u" wire_view wire_fits
  for m u
  by unfold_locales (rule wire_ser_view)

section \<open>The envelope\<close>

definition appendEnvelope :: "byte list \<Rightarrow> string \<Rightarrow> byte list \<Rightarrow> byte list" where
  "appendEnvelope buf typ payload =
     (let b1 = (if 0 < length typ
                then appendVarint (buf @ [0x0a]) (of_nat (length typ)) @ bytes_of typ else buf)
      in if 0 < length payload
         then appendVarint (b1 @ [0x12]) (of_nat (length payload)) @ payload else b1)"

text \<open>The index-based varint reader: the value and the number of bytes read, or \<open>(0, - 1)\<close>.\<close>

fun env_readVarint :: "nat \<Rightarrow> u64 \<Rightarrow> byte list \<Rightarrow> u64 \<times> int" where
  "env_readVarint n x [] = (0, - 1)"
| "env_readVarint n x (b # r) =
     (if n < 10
      then let x' = x OR push_bit (7 * n) (ucast (b AND 0x7f))
           in if b < 0x80 then (x', int n + 1) else env_readVarint (Suc n) x' r
      else (0, - 1))"

text \<open>\<open>None\<close> is a panic: the slice expression \<^verbatim>\<open>b[:v]\<close> is out of range.\<close>

function parseEnvelope :: "byte list \<Rightarrow> string \<Rightarrow> byte list \<Rightarrow> (string \<times> byte list) option" where
  "parseEnvelope b typ payload =
     (if length b < 2 then Some (typ, payload)
      else let tag = hd b; b1 = tl b;
               fieldNum = unat (drop_bit 3 tag); wireType = unat (tag AND 7)
           in if wireType \<noteq> 2 then Some (typ, payload)
              else let (v, n) = env_readVarint 0 0 b1
                   in if n \<le> 0 \<or> (of_nat (length b1) :: u64) < of_int n + v then Some (typ, payload)
                      else let b2 = drop (nat n) b1
                           in if unat v > length b2 then None
                              else let val = take (unat v) b2; b3 = drop (unat v) b2
                                   in if fieldNum = 1 then parseEnvelope b3 (string_of val) payload
                                      else if fieldNum = 2 then parseEnvelope b3 typ val
                                      else parseEnvelope b3 typ payload)"
  by pat_completeness auto
termination
  by (relation "measure (\<lambda>(b, typ, payload). length b)") (auto simp: Let_def)

declare parseEnvelope.simps [simp del]

lemma env_readVarint_appendVarint:
  "unat v < 2 ^ (7 * k) \<Longrightarrow> 0 < k \<Longrightarrow> n + k = 10 \<Longrightarrow>
   env_readVarint n x (appendVarint [] v @ r) =
     (x OR push_bit (7 * n) v, int n + int (length (appendVarint [] v)))"
proof (induction k arbitrary: n x v)
  case (Suc k)
  show ?case
  proof (cases "0x80 \<le> v")
    case True
    then have v: "128 \<le> unat v" by (simp add: word_le_nat_alt)
    have k: "0 < k" using Suc.prems(1) v by (cases k) auto
    have "unat (drop_bit 7 v) = unat v div 128"
      unfolding unat_drop_bit_eq by (simp add: drop_bit_eq_div)
    also have "\<dots> < 2 ^ (7 * k)"
      using Suc.prems(1) by (intro div_less_iff_less_mult [THEN iffD2]) (auto simp: power_add mult.commute)
    finally have d: "unat (drop_bit 7 v) < 2 ^ (7 * k)" .
    have s: "7 * Suc n = 7 * n + 7" by simp
    show ?thesis
      using Suc.IH [OF d k, of "Suc n" "x OR push_bit (7 * n) (v AND 0x7f)", unfolded s varint_join]
        Suc.prems(3) True
      by (simp add: varint_step or80_ge low7)
  next
    case False
    with Suc.prems show ?thesis by (simp add: varint_step small_byte)
  qed
qed simp

lemma env_readVarint_len:
  assumes "0 < l" "l < 2 ^ 32"
  shows "env_readVarint 0 0 (appendVarint [] (of_nat l) @ r) =
    (of_nat l, int (length (appendVarint [] (of_nat l :: u64))))"
proof -
  have "unat (of_nat l :: u64) < 2 ^ (7 * 10)"
    using assms by (simp add: unsigned_of_nat take_bit_nat_eq_self)
  from env_readVarint_appendVarint [OF this, of 0 0 r] show ?thesis by simp
qed

lemma length_appendVarint_le: "length (appendVarint [] v) \<le> 10 \<and> 0 < length (appendVarint [] v)"
proof -
  have "unat w < 2 ^ (7 * k) \<Longrightarrow> 0 < k \<Longrightarrow> length (appendVarint [] w) \<le> k" for w :: u64 and k
  proof (induction k arbitrary: w)
    case (Suc k)
    show ?case
    proof (cases "0x80 \<le> w")
      case True
      then have "128 \<le> unat w" by (simp add: word_le_nat_alt)
      with Suc.prems(1) have k: "0 < k" by (cases k) auto
      have "unat (drop_bit 7 w) = unat w div 128"
        unfolding unat_drop_bit_eq by (simp add: drop_bit_eq_div)
      also have "\<dots> < 2 ^ (7 * k)"
        using Suc.prems(1) by (intro div_less_iff_less_mult [THEN iffD2]) (auto simp: power_add mult.commute)
      finally show ?thesis using Suc.IH [OF _ k] True by (simp add: varint_step)
    qed (simp add: varint_step)
  qed simp
  moreover have "unat v < 2 ^ (7 * 10)"
    using unsigned_less [of v, where ?'a = nat] by simp
  moreover have "appendVarint [] v \<noteq> []" by (cases "0x80 \<le> v") (simp_all add: varint_step)
  ultimately show ?thesis by (metis length_greater_0_conv zero_less_numeral)
qed

lemma parseEnvelope_end: "parseEnvelope [] t p = Some (t, p)"
  by (subst parseEnvelope.simps) simp

lemma parseEnvelope_field:
  assumes d: "0 < length d" "length d < 2 ^ 32" and r: "length r < 2 ^ 33"
    and tag: "tag AND 7 = 2"
  shows "parseEnvelope (tag # appendVarint [] (of_nat (length d)) @ d @ r) t p =
    (if unat (drop_bit 3 tag) = 1 then parseEnvelope r (string_of d) p
     else if unat (drop_bit 3 tag) = 2 then parseEnvelope r t d
     else parseEnvelope r t p)"
proof -
  let ?v = "appendVarint [] (of_nat (length d) :: u64)"
  have lv: "0 < length ?v" "length ?v \<le> 10" using length_appendVarint_le by auto
  have u: "unat (of_nat (length d) :: u64) = length d"
    using d by (simp add: unsigned_of_nat take_bit_nat_eq_self)
  have t1: "take_bit 64 (length ?v + (length d + length r)) = length ?v + (length d + length r)"
    "take_bit 64 (length ?v + length d) = length ?v + length d"
    using lv d r by (auto intro!: take_bit_nat_eq_self)
  have "\<not> (of_nat (length ?v + (length d + length r)) :: u64) < of_nat (length ?v + length d)"
    unfolding word_less_nat_alt unsigned_of_nat using t1 by simp
  then have ge: "\<not> (of_nat (length (?v @ d @ r)) :: u64) < of_int (int (length ?v)) + of_nat (length d)"
    by (simp add: add.assoc)
  have n2: "\<not> length (tag # ?v @ d @ r) < 2" using lv d by simp
  have "unat (tag AND 7) = 2" by (simp add: tag)
  moreover have "\<not> length (d @ r) < length d" by simp
  ultimately show ?thesis
    using n2 ge lv u env_readVarint_len [OF d, of "d @ r"]
    by (subst parseEnvelope.simps) (simp add: tag Let_def del: length_append)
qed

lemma appendEnvelope_fields:
  "appendEnvelope [] typ payload =
     (if 0 < length typ then 0x0a # appendVarint [] (of_nat (length (bytes_of typ))) @ bytes_of typ else [])
     @ (if 0 < length payload then 0x12 # appendVarint [] (of_nat (length payload)) @ payload else [])"
  unfolding appendEnvelope_def Let_def
  by (auto simp: appendVarint_buf [of "_ @ _"] appendVarint_buf [of "_ # _"])

section \<open>Properties\<close>

text \<open>C8: a text, transcription or audio frame (raw, output or TTS) with an id, in-range audio rates and a
  size below the reader's limit is written to bytes that decode to a frame with the same id and the
  same payload; what the wire drops is exactly what \<open>wire_view\<close> drops.\<close>

theorem wire_frame_roundtrip:
  assumes "wire_view f = Some g" "wire_fits f"
  shows "\<exists>bs. encodeFrameWire m f = Inr (Some bs) \<and> fst (decodeFrameWire u bs ids) = Inr g"
  using assms by (rule protobuf.ser_view)

theorem wire_frame_roundtrip_witness:
  "\<exists>bs. encodeFrameWire (\<lambda>_. Inl []) (fst (NewTextFrame ''hi'' 6)) = Inr (Some bs) \<and>
     fst (decodeFrameWire (\<lambda>_. Inl []) bs 9) =
       Inr (Frame \<lparr>fid = 7, pts = None, metadata = [''name'' \<mapsto> AStr ''TextFrame#7'']\<rparr>
         (TextFrame \<lparr>tdata = ''hi'', skip_tts = None, includes_space = False, append_to_context = False\<rparr>))"
proof (rule wire_frame_roundtrip)
  show "wire_view (fst (NewTextFrame ''hi'' 6)) =
      Some (Frame \<lparr>fid = 7, pts = None, metadata = [''name'' \<mapsto> AStr ''TextFrame#7'']\<rparr>
         (TextFrame \<lparr>tdata = ''hi'', skip_tts = None, includes_space = False, append_to_context = False\<rparr>))"
    by (simp add: wire_view_def NewTextFrame_def text_of_def frame_name_def utoa.simps)
  have n: "appendVarint [] 7 = [7]" "appendVarint [] 2 = [2]" "appendVarint [] 11 = [11]"
    "appendVarint [] 8 = [8]" "appendVarint [] 10 = [10]" "appendVarint [] 18 = [18]" "appendVarint [] 26 = [26]"
    "appendVarint [] 19 = [19]"
    by (simp_all add: appendVarint.simps)
  show "wire_fits (fst (NewTextFrame ''hi'' 6))"
    by (simp add: wire_fits_def NewTextFrame_def text_of_def audio_in_range_def encodeFrameWire_def
        encodeTextFrameWire_fields appendLengthDelimited_parts appendTag_def frame_name_def
        utoa.simps n bytes_of_def)
qed

text \<open>the envelope codec returns the type and the payload it was given, empty ones included.\<close>

theorem envelope_roundtrip:
  assumes "length typ < 2 ^ 32" "length payload < 2 ^ 32"
  shows "parseEnvelope (appendEnvelope [] typ payload) [] [] = Some (typ, payload)"
proof -
  have p: "parseEnvelope (if 0 < length payload then 0x12 # appendVarint [] (of_nat (length payload)) @ payload
      else []) t [] = Some (t, payload)" for t
    using parseEnvelope_field [where d = payload and r = "[]" and tag = "0x12" and t = t and p = "[]"] assms
    by (auto simp: parseEnvelope_end)
  let ?r = "if 0 < length payload then 0x12 # appendVarint [] (of_nat (length payload)) @ payload else []"
  have "length ?r < 2 ^ 33"
    using length_appendVarint_le [of "of_nat (length payload)"] assms(2) by auto
  then have "0 < length typ \<Longrightarrow>
      parseEnvelope (0x0a # appendVarint [] (of_nat (length (bytes_of typ))) @ bytes_of typ @ ?r) [] [] =
      parseEnvelope ?r typ []"
    using parseEnvelope_field [where d = "bytes_of typ" and r = "?r" and tag = "0x0a" and t = "[]" and p = "[]"] assms(1) by simp
  then show ?thesis
    using p unfolding appendEnvelope_fields by (cases "typ") auto
qed

theorem envelope_roundtrip_witness:
  "parseEnvelope (appendEnvelope [] ''TextFrame'' [1, 2]) [] [] = Some (''TextFrame'', [1, 2])"
  by (rule envelope_roundtrip) simp_all

text \<open>eleven bytes from the network whose length varint is close to the top of the range pass the
  length check, because the sum in it wraps, and the slice that follows panics.\<close>

theorem envelope_length_check_wraps:
  "parseEnvelope [0x12, 0xF6, 0xFF, 0xFF, 0xFF, 0xFF, 0xFF, 0xFF, 0xFF, 0xFF, 0x01] [] [] = None"
  by (subst parseEnvelope.simps) (simp add: Let_def)

end
