(* ===== verification/FrameQueue.thy ===== *)
theory FrameQueue
  imports Frames
begin

text \<open>
  \<^verbatim>\<open>pkg/processors/queue.go\<close>: the two-list priority queue, its blocking \<^verbatim>\<open>Get\<close> with the
  one-token wake-up channel, and the loop of \<^verbatim>\<open>QueuedProcessor\<close>. The sequential operations are
  functions on a record; the blocking behaviour is a step relation over the queue and its consumers.
\<close>

datatype direction = Downstream | Upstream

section \<open>The interface of a queue with urgent items\<close>

locale urgent_queue =
  fixes put :: "'q \<Rightarrow> 'i \<Rightarrow> 'q"
    and get :: "'q \<Rightarrow> ('i \<times> 'q) option"
    and urgent :: "'i \<Rightarrow> bool"
    and fast :: "'q \<Rightarrow> 'i list"
    and slow :: "'q \<Rightarrow> 'i list"
    and accepts :: "'q \<Rightarrow> bool"
  assumes put_accepts: "accepts q \<Longrightarrow> accepts (put q x)"
    and put_fast: "accepts q \<Longrightarrow> fast (put q x) = fast q @ (if urgent x then [x] else [])"
    and put_slow: "accepts q \<Longrightarrow> slow (put q x) = slow q @ (if urgent x then [] else [x])"
    and get_none: "fast q = [] \<Longrightarrow> slow q = [] \<Longrightarrow> get q = None"
    and get_fast: "fast q = x # xs \<Longrightarrow>
      \<exists>q'. get q = Some (x, q') \<and> fast q' = xs \<and> slow q' = slow q \<and> accepts q' = accepts q"
    and get_slow: "fast q = [] \<Longrightarrow> slow q = x # xs \<Longrightarrow>
      \<exists>q'. get q = Some (x, q') \<and> fast q' = [] \<and> slow q' = xs \<and> accepts q' = accepts q"
begin

lemma puts:
  assumes "accepts q"
  shows "fast (foldl put q xs) = fast q @ filter urgent xs \<and>
    slow (foldl put q xs) = slow q @ filter (\<lambda>x. \<not> urgent x) xs \<and> accepts (foldl put q xs)"
  using assms by (induction xs arbitrary: q) (simp_all add: put_fast put_slow put_accepts)

text \<open>Taking items until none is left, at most \<open>n\<close> of them.\<close>

fun drain :: "nat \<Rightarrow> 'q \<Rightarrow> 'i list" where
  "drain 0 q = []"
| "drain (Suc n) q = (case get q of None \<Rightarrow> [] | Some (x, q') \<Rightarrow> x # drain n q')"

lemma drain_slow: "fast q = [] \<Longrightarrow> length (slow q) \<le> n \<Longrightarrow> drain n q = slow q"
proof (induction n arbitrary: q)
  case 0
  then show ?case by simp
next
  case (Suc n)
  show ?case
  proof (cases "slow q")
    case Nil
    with Suc.prems show ?thesis by (simp add: get_none)
  next
    case (Cons x xs)
    from get_slow [OF Suc.prems(1) Cons] obtain q' where
      "get q = Some (x, q')" "fast q' = []" "slow q' = xs" by blast
    with Suc Cons show ?thesis by simp
  qed
qed

lemma drain_all: "length (fast q) + length (slow q) \<le> n \<Longrightarrow> drain n q = fast q @ slow q"
proof (induction n arbitrary: q)
  case 0
  then show ?case by simp
next
  case (Suc n)
  show ?case
  proof (cases "fast q")
    case Nil
    with Suc.prems show ?thesis using drain_slow [OF Nil, of "Suc n"] by simp
  next
    case (Cons x xs)
    from get_fast [OF Cons] obtain q' where
      "get q = Some (x, q')" "fast q' = xs" "slow q' = slow q" by blast
    with Suc Cons show ?thesis by simp
  qed
qed

lemma drain_puts:
  assumes "accepts q" "fast q = []" "slow q = []" "length xs \<le> n"
  shows "drain n (foldl put q xs) = filter urgent xs @ filter (\<lambda>x. \<not> urgent x) xs"
proof -
  note p = puts [OF assms(1), of xs]
  have "length (filter urgent xs) + length (filter (\<lambda>x. \<not> urgent x) xs) = length xs"
    by (rule sum_length_filter_compl)
  then have "length (fast (foldl put q xs)) + length (slow (foldl put q xs)) \<le> n"
    using p assms by simp
  from drain_all [OF this] show ?thesis using p assms by simp
qed

end

section \<open>The queue\<close>

record item =
  iframe :: "frame option"
  idir :: direction

record frame_queue =
  sysq :: "item list"
  dataq :: "item list"
  wait :: bool
  closed :: bool

definition NewFrameQueue :: frame_queue where
  "NewFrameQueue = \<lparr>sysq = [], dataq = [], wait = False, closed = False\<rparr>"

definition isSystemFrame :: "frame option \<Rightarrow> bool" where
  "isSystemFrame f =
     (case f of None \<Rightarrow> False
      | Some g \<Rightarrow> frame_type g = ''StartFrame'' \<or> frame_type g = ''CancelFrame'' \<or>
          frame_type g = ''ErrorFrame'')"

text \<open>\<open>wait\<close> is the channel of capacity one: the non-blocking send leaves it full.\<close>

definition Put :: "frame_queue \<Rightarrow> item \<Rightarrow> frame_queue" where
  "Put q it =
     (if closed q then q
      else (if isSystemFrame (iframe it) then q\<lparr>sysq := sysq q @ [it]\<rparr>
            else q\<lparr>dataq := dataq q @ [it]\<rparr>)\<lparr>wait := True\<rparr>)"

text \<open>One pass of the loop in \<^verbatim>\<open>Get\<close>, under the lock: an item, closed, or go and wait.\<close>

datatype got = Got item frame_queue | GotClosed | MustWait

definition get_pass :: "frame_queue \<Rightarrow> got" where
  "get_pass q =
     (case sysq q of
        it # r \<Rightarrow> Got it (q\<lparr>sysq := r\<rparr>)
      | [] \<Rightarrow> (case dataq q of
          it # r \<Rightarrow> Got it (q\<lparr>dataq := r\<rparr>)
        | [] \<Rightarrow> if closed q then GotClosed else MustWait))"

definition try_get :: "frame_queue \<Rightarrow> (item \<times> frame_queue) option" where
  "try_get q = (case get_pass q of Got it q' \<Rightarrow> Some (it, q') | _ \<Rightarrow> None)"

text \<open>\<^verbatim>\<open>Close\<close> sets the flag under the lock and sends the token after releasing it.\<close>

definition close_flag :: "frame_queue \<Rightarrow> frame_queue" where
  "close_flag q = q\<lparr>closed := True\<rparr>"

definition send_token :: "frame_queue \<Rightarrow> frame_queue" where
  "send_token q = q\<lparr>wait := True\<rparr>"

definition CloseQueue :: "frame_queue \<Rightarrow> frame_queue" where
  "CloseQueue q = send_token (close_flag q)"

abbreviation urgent_item :: "item \<Rightarrow> bool" where
  "urgent_item it \<equiv> isSystemFrame (iframe it)"

interpretation fq: urgent_queue Put try_get urgent_item sysq dataq "\<lambda>q. \<not> closed q"
  by unfold_locales (auto simp: Put_def try_get_def get_pass_def)

text \<open>C15: Frames put in any order come out of an open queue with all Start, Cancel and Error
  frames first, each of the two groups in arrival order, and nothing lost: the two-list queue
  implements a stable priority queue.\<close>

theorem frame_queue_order:
  "length its \<le> n \<Longrightarrow>
     fq.drain n (foldl Put NewFrameQueue its) =
       filter urgent_item its @ filter (\<lambda>it. \<not> urgent_item it) its"
  by (rule fq.drain_puts) (simp_all add: NewFrameQueue_def)

lemma close_keeps_items:
  "sysq (CloseQueue q) = sysq q \<and> dataq (CloseQueue q) = dataq q \<and> closed (CloseQueue q) \<and>
   Put (CloseQueue q) it = CloseQueue q"
  by (simp add: CloseQueue_def send_token_def close_flag_def Put_def)

section \<open>Blocking consumers\<close>

text \<open>
  Where a call of \<^verbatim>\<open>Get\<close> is: before the lock, at the \<^verbatim>\<open>select\<close> on the wake-up channel, or
  returned. \<open>closers\<close> counts calls of \<^verbatim>\<open>Close\<close> between the unlock and their token.
\<close>

datatype getter = Locking | Selecting | Returned "item option"

record queue_conf =
  que :: frame_queue
  getters :: "getter list"
  closers :: nat
  cancelled :: bool

inductive qstep :: "queue_conf \<Rightarrow> queue_conf \<Rightarrow> bool" where
  q_put: "qstep c (c\<lparr>que := Put (que c) it\<rparr>)"
| q_close: "qstep c (c\<lparr>que := close_flag (que c), closers := Suc (closers c)\<rparr>)"
| q_token: "closers c = Suc n \<Longrightarrow> qstep c (c\<lparr>que := send_token (que c), closers := n\<rparr>)"
| q_got: "i < length (getters c) \<Longrightarrow> getters c ! i = Locking \<Longrightarrow>
    get_pass (que c) = Got it q' \<Longrightarrow>
    qstep c (c\<lparr>que := q', getters := (getters c)[i := Returned (Some it)]\<rparr>)"
| q_closed: "i < length (getters c) \<Longrightarrow> getters c ! i = Locking \<Longrightarrow>
    get_pass (que c) = GotClosed \<Longrightarrow>
    qstep c (c\<lparr>getters := (getters c)[i := Returned None]\<rparr>)"
| q_wait: "i < length (getters c) \<Longrightarrow> getters c ! i = Locking \<Longrightarrow>
    get_pass (que c) = MustWait \<Longrightarrow>
    qstep c (c\<lparr>getters := (getters c)[i := Selecting]\<rparr>)"
| q_wake: "i < length (getters c) \<Longrightarrow> getters c ! i = Selecting \<Longrightarrow> wait (que c) \<Longrightarrow>
    qstep c (c\<lparr>que := (que c)\<lparr>wait := False\<rparr>, getters := (getters c)[i := Locking]\<rparr>)"
| q_cancel: "i < length (getters c) \<Longrightarrow> getters c ! i = Selecting \<Longrightarrow> cancelled c \<Longrightarrow>
    qstep c (c\<lparr>getters := (getters c)[i := Returned None]\<rparr>)"
| q_done: "qstep c (c\<lparr>cancelled := True\<rparr>)"
| q_again: "i < length (getters c) \<Longrightarrow> getters c ! i = Returned r \<Longrightarrow>
    qstep c (c\<lparr>getters := (getters c)[i := Locking]\<rparr>)"

definition queue_init :: "nat \<Rightarrow> queue_conf" where
  "queue_init n =
     \<lparr>que = NewFrameQueue, getters = replicate n Locking, closers = 0, cancelled = False\<rparr>"

definition has_work :: "frame_queue \<Rightarrow> bool" where
  "has_work q = (sysq q \<noteq> [] \<or> dataq q \<noteq> [] \<or> closed q)"

definition one_getter_inv :: "queue_conf \<Rightarrow> bool" where
  "one_getter_inv c =
     (\<exists>g. getters c = [g] \<and>
        (g = Selecting \<and> has_work (que c) \<longrightarrow> wait (que c) \<or> closers c > 0))"

lemma get_pass_wait [simp]: "get_pass q = MustWait \<longleftrightarrow> \<not> has_work q"
  by (auto simp: get_pass_def has_work_def split: list.splits)

lemma qstep_inv [inv_intros]:
  "qstep c c' \<Longrightarrow> one_getter_inv c \<Longrightarrow> one_getter_inv c'"
  by (induction rule: qstep.induct)
    (auto simp: one_getter_inv_def Put_def close_flag_def send_token_def has_work_def)

lemma qsteps_inv: "qstep\<^sup>*\<^sup>* c c' \<Longrightarrow> one_getter_inv c \<Longrightarrow> one_getter_inv c'"
  by (induction rule: rtranclp_induct) (auto intro: qstep_inv)

text \<open>C9: No lost wake-up with one consumer: under every interleaving of puts, closes and the single
  getter of a \<^verbatim>\<open>QueuedProcessor\<close>, a getter blocked in the select while an item is queued or the
  queue is closed has the wake-up token waiting for it or a \<^verbatim>\<open>Close\<close> call about to send it.\<close>

theorem queue_no_lost_wakeup:
  "qstep\<^sup>*\<^sup>* (queue_init 1) c \<Longrightarrow> getters c ! 0 = Selecting \<Longrightarrow> has_work (que c) \<Longrightarrow>
     wait (que c) \<or> closers c > 0"
  using qsteps_inv [of "queue_init 1" c]
  by (auto simp: one_getter_inv_def queue_init_def)

definition probe_item :: item where
  "probe_item = \<lparr>iframe = Some (fst (NewEndFrame 0)), idir = Downstream\<rparr>"

theorem frame_queue_order_witness:
  "fq.drain 3 (foldl Put NewFrameQueue
      [probe_item, \<lparr>iframe = Some (fst (NewStartFrame 4)), idir = Downstream\<rparr>, probe_item]) =
    [\<lparr>iframe = Some (fst (NewStartFrame 4)), idir = Downstream\<rparr>, probe_item, probe_item]"
  using frame_queue_order [of "[probe_item, \<lparr>iframe = Some (fst (NewStartFrame 4)),
      idir = Downstream\<rparr>, probe_item]" 3]
  by (simp add: probe_item_def NewEndFrame_def NewStartFrame_def mk_frame_def NewBase_def
      isSystemFrame_def)

text \<open>Both getters wait; two items arrive before either wakes; one token wakes one of them.\<close>

abbreviation two_waiting :: queue_conf where
  "two_waiting \<equiv> (queue_init 2)\<lparr>getters := [Selecting, Selecting]\<rparr>"

lemma reach_two_waiting: "qstep\<^sup>*\<^sup>* (queue_init 2) two_waiting"
proof -
  have "qstep (queue_init 2) ((queue_init 2)\<lparr>getters := [Selecting, Locking]\<rparr>)"
    using q_wait [of 0 "queue_init 2"]
    by (simp add: queue_init_def NewFrameQueue_def has_work_def numeral_2_eq_2)
  moreover have "qstep ((queue_init 2)\<lparr>getters := [Selecting, Locking]\<rparr>) two_waiting"
    using q_wait [of 1 "(queue_init 2)\<lparr>getters := [Selecting, Locking]\<rparr>"]
    by (simp add: queue_init_def NewFrameQueue_def has_work_def)
  ultimately show ?thesis by (rule converse_rtranclp_into_rtranclp [OF _ r_into_rtranclp])
qed

text \<open>A getter that only a further put, close or cancellation can move.\<close>

definition stuck_getter :: "queue_conf \<Rightarrow> nat \<Rightarrow> bool" where
  "stuck_getter c i \<longleftrightarrow> getters c ! i = Selecting \<and> \<not> wait (que c) \<and> closers c = 0"

lemma reach_stuck:
  "\<exists>c. qstep\<^sup>*\<^sup>* two_waiting c \<and> stuck_getter c 1 \<and> dataq (que c) = [probe_item] \<and>
     getters c ! 0 = Returned (Some probe_item)"
proof -
  let ?q1 = "Put NewFrameQueue probe_item"
  let ?q2 = "Put ?q1 probe_item"
  let ?c1 = "two_waiting\<lparr>que := ?q1\<rparr>"
  let ?c2 = "two_waiting\<lparr>que := ?q2\<rparr>"
  let ?c3 = "two_waiting\<lparr>que := ?q2\<lparr>wait := False\<rparr>, getters := [Locking, Selecting]\<rparr>"
  let ?c4 = "two_waiting\<lparr>que := ?q2\<lparr>wait := False, dataq := [probe_item]\<rparr>,
    getters := [Returned (Some probe_item), Selecting]\<rparr>"
  note d = queue_init_def NewFrameQueue_def Put_def isSystemFrame_def probe_item_def NewEndFrame_def
    mk_frame_def NewBase_def get_pass_def
  have "qstep two_waiting ?c1" "qstep ?c1 ?c2"
    using q_put [of two_waiting probe_item] q_put [of ?c1 probe_item]
    by (simp_all add: queue_init_def)
  moreover have "qstep ?c2 ?c3" using q_wake [of 0 ?c2] by (simp add: d)
  moreover have "qstep ?c3 ?c4"
    using q_got [of 0 ?c3 probe_item "?q2\<lparr>wait := False, dataq := [probe_item]\<rparr>"]
    by (simp add: d)
  ultimately have "qstep\<^sup>*\<^sup>* two_waiting ?c4"
    by (meson converse_rtranclp_into_rtranclp r_into_rtranclp)
  moreover have "stuck_getter ?c4 1" by (simp add: stuck_getter_def d)
  ultimately show ?thesis by (intro exI [of _ ?c4]) simp
qed

text \<open>With two consumers the queue does lose wake-ups: there is a reachable state in which one
  getter has returned an item, another frame is queued, and the second getter is blocked with no
  token and no closer pending, although \<^verbatim>\<open>Get\<close> promises to block only until an item is
  available.\<close>

theorem queue_two_getters_lose_wakeup:
  "\<exists>c. qstep\<^sup>*\<^sup>* (queue_init 2) c \<and> stuck_getter c 1 \<and> dataq (que c) \<noteq> []"
  using reach_two_waiting reach_stuck by (metis list.distinct(1) rtranclp_trans)

lemma probe_conf: "qstep\<^sup>*\<^sup>* (queue_init 1) ((queue_init 1)\<lparr>getters := [Selecting],
    que := Put NewFrameQueue probe_item\<rparr>)"
proof -
  have "qstep (queue_init 1) ((queue_init 1)\<lparr>getters := [Selecting]\<rparr>)"
    using q_wait [of 0 "queue_init 1"]
    by (simp add: queue_init_def NewFrameQueue_def has_work_def)
  moreover have "qstep ((queue_init 1)\<lparr>getters := [Selecting]\<rparr>)
      ((queue_init 1)\<lparr>getters := [Selecting], que := Put NewFrameQueue probe_item\<rparr>)"
    using q_put [of "(queue_init 1)\<lparr>getters := [Selecting]\<rparr>" probe_item]
    by (simp add: queue_init_def)
  ultimately show ?thesis by (meson converse_rtranclp_into_rtranclp r_into_rtranclp)
qed

theorem queue_no_lost_wakeup_witness:
  "wait (Put NewFrameQueue probe_item)"
  using queue_no_lost_wakeup [OF probe_conf]
  by (simp add: queue_init_def has_work_def Put_def NewFrameQueue_def isSystemFrame_def
      probe_item_def NewEndFrame_def mk_frame_def NewBase_def)

end
