(* ===== verification/Chain.thy ===== *)
theory Chain
  imports FrameQueue
begin

text \<open>
  Processors as linked objects and the pipelines made of them: \<^verbatim>\<open>pkg/processors/processor.go\<close>,
  \<^verbatim>\<open>filter.go\<close>, the loop of \<^verbatim>\<open>queue.go\<close>, and \<^verbatim>\<open>pipeline.go\<close>, \<^verbatim>\<open>source_sink.go\<close>,
  \<^verbatim>\<open>pipeline_processor.go\<close>, \<^verbatim>\<open>registry.go\<close> of \<^verbatim>\<open>pkg/pipeline\<close>.

  Processors live in a store, because \<^verbatim>\<open>SetNext\<close> and \<^verbatim>\<open>SetPrev\<close> mutate shared objects. Every
  handler of these files ends in at most one call, so a handler is an \<open>action\<close> and
  \<open>process_frame\<close> follows the calls; its fuel is the depth of the Go stack, \<open>None\<close> is a chain
  of calls that does not return within it. Processors of other packages appear as \<open>KOther\<close>:
  what reaches them is an event.
\<close>

section \<open>Processors\<close>

datatype kind =
    KBase
  | KFilter "(frame option \<Rightarrow> direction \<Rightarrow> bool) option"
  | KSink bool
  | KPipelineSource "nat option"
  | KPipelineSinkCallback "nat option"
  | KPipeline "nat list option"
  | KOther

record cell =
  cname :: string
  kind :: kind
  nxt :: "nat option"
  prv :: "nat option"

type_synonym store = "nat \<Rightarrow> cell"

definition SetNext :: "store \<Rightarrow> nat \<Rightarrow> nat \<Rightarrow> store" where
  "SetNext st a b = st(a := (st a)\<lparr>nxt := Some b\<rparr>)"

definition SetPrev :: "store \<Rightarrow> nat \<Rightarrow> nat \<Rightarrow> store" where
  "SetPrev st a b = st(a := (st a)\<lparr>prv := Some b\<rparr>)"

definition new_cell :: "string \<Rightarrow> kind \<Rightarrow> cell" where
  "new_cell n k = \<lparr>cname = n, kind = k, nxt = None, prv = None\<rparr>"

definition NewBaseProcessor :: "string \<Rightarrow> cell" where
  "NewBaseProcessor n = new_cell n KBase"

definition NewFilterProcessor :: "string \<Rightarrow> (frame option \<Rightarrow> direction \<Rightarrow> bool) option \<Rightarrow> cell" where
  "NewFilterProcessor n g = new_cell (if n = [] then ''Filter'' else n) (KFilter g)"

definition NewSink :: "string \<Rightarrow> bool \<Rightarrow> cell" where
  "NewSink n out = new_cell (if n = [] then ''Sink'' else n) (KSink out)"

definition NewPipelineSource :: "string \<Rightarrow> nat option \<Rightarrow> cell" where
  "NewPipelineSource n cb = new_cell (if n = [] then ''PipelineSource'' else n) (KPipelineSource cb)"

definition NewPipelineSinkCallback :: "string \<Rightarrow> nat option \<Rightarrow> cell" where
  "NewPipelineSinkCallback n cb =
     new_cell (if n = [] then ''PipelineSink'' else n) (KPipelineSinkCallback cb)"

definition NewPipelineProcessor :: "string \<Rightarrow> nat list option \<Rightarrow> cell" where
  "NewPipelineProcessor n pl = new_cell (if n = [] then ''Pipeline'' else n) (KPipeline pl)"

definition Name :: "cell \<Rightarrow> string" where
  "Name c = (if cname c \<noteq> [] then cname c
     else case kind c of KFilter _ \<Rightarrow> ''Filter'' | KPipeline _ \<Rightarrow> ''Pipeline'' | _ \<Rightarrow> ''BaseProcessor'')"

section \<open>Handlers\<close>

text \<open>What leaves the modelled processors: a callback of a nested pipeline, a send spawned by a
  sink, or a call of a processor from elsewhere.\<close>

datatype event =
    UpstreamCallback nat "frame option"
  | DownstreamCallback nat "frame option"
  | SinkSend nat frame
  | Handled nat "frame option" direction

datatype action = Return | Emit event | Spawn event | Call nat direction

definition base_action :: "cell \<Rightarrow> direction \<Rightarrow> action" where
  "base_action c d =
     (if d = Downstream \<and> nxt c \<noteq> None then Call (the (nxt c)) d
      else if d = Upstream \<and> prv c \<noteq> None then Call (the (prv c)) d
      else Return)"

definition filter_action ::
  "(frame option \<Rightarrow> direction \<Rightarrow> bool) option \<Rightarrow> cell \<Rightarrow> frame option \<Rightarrow> direction \<Rightarrow> action" where
  "filter_action g c f d =
     (if g \<noteq> None \<and> \<not> the g f d then Return
      else if d = Downstream \<and> nxt c \<noteq> None then Call (the (nxt c)) d
      else if d = Upstream \<and> prv c \<noteq> None then Call (the (prv c)) d
      else Return)"

definition sink_action :: "bool \<Rightarrow> nat \<Rightarrow> cell \<Rightarrow> frame option \<Rightarrow> direction \<Rightarrow> action" where
  "sink_action out a c f d =
     (if d \<noteq> Downstream
      then (case prv c of Some b \<Rightarrow> Call b d | None \<Rightarrow> Return)
      else (case f of Some g \<Rightarrow> if out then Spawn (SinkSend a g) else Return | None \<Rightarrow> Return))"

definition source_action :: "nat option \<Rightarrow> cell \<Rightarrow> frame option \<Rightarrow> direction \<Rightarrow> action" where
  "source_action cb c f d =
     (if d = Downstream then (case nxt c of Some b \<Rightarrow> Call b d | None \<Rightarrow> Return)
      else (case cb of Some k \<Rightarrow> Emit (UpstreamCallback k f) | None \<Rightarrow> Return))"

definition sink_callback_action :: "nat option \<Rightarrow> cell \<Rightarrow> frame option \<Rightarrow> direction \<Rightarrow> action" where
  "sink_callback_action cb c f d =
     (if d = Upstream then (case prv c of Some b \<Rightarrow> Call b d | None \<Rightarrow> Return)
      else (case cb of Some k \<Rightarrow> Emit (DownstreamCallback k f) | None \<Rightarrow> Return))"

text \<open>\<^verbatim>\<open>Pipeline.Push\<close> calls the first processor, \<^verbatim>\<open>Pipeline.PushUpstream\<close> the last.\<close>

definition inject :: "nat list \<Rightarrow> direction \<Rightarrow> action" where
  "inject ps d =
     (if ps = [] then Return
      else if d = Downstream then Call (hd ps) Downstream else Call (last ps) Upstream)"

definition pipeline_action :: "nat list option \<Rightarrow> direction \<Rightarrow> action" where
  "pipeline_action pl d = (case pl of None \<Rightarrow> Return | Some ps \<Rightarrow> inject ps d)"

definition action_of :: "nat \<Rightarrow> cell \<Rightarrow> frame option \<Rightarrow> direction \<Rightarrow> action" where
  "action_of a c f d =
     (case kind c of
        KBase \<Rightarrow> base_action c d
      | KFilter g \<Rightarrow> filter_action g c f d
      | KSink out \<Rightarrow> sink_action out a c f d
      | KPipelineSource cb \<Rightarrow> source_action cb c f d
      | KPipelineSinkCallback cb \<Rightarrow> sink_callback_action cb c f d
      | KPipeline pl \<Rightarrow> pipeline_action pl d
      | KOther \<Rightarrow> Emit (Handled a f d))"

fun process_frame ::
  "nat \<Rightarrow> store \<Rightarrow> (event \<Rightarrow> err option) \<Rightarrow> nat \<Rightarrow> frame option \<Rightarrow> direction
     \<Rightarrow> (event list \<times> err option) option" where
  "process_frame 0 st rsp a f d = None"
| "process_frame (Suc n) st rsp a f d =
     (case action_of a (st a) f d of
        Return \<Rightarrow> Some ([], None)
      | Emit e \<Rightarrow> Some ([e], rsp e)
      | Spawn e \<Rightarrow> Some ([e], None)
      | Call b d' \<Rightarrow> process_frame n st rsp b f d')"

lemma process_frame_mono:
  "process_frame n st rsp a f d = Some r \<Longrightarrow> n \<le> m \<Longrightarrow> process_frame m st rsp a f d = Some r"
proof (induction n arbitrary: m a d)
  case 0
  then show ?case by simp
next
  case (Suc n)
  then obtain k where "m = Suc k" "n \<le> k" by (cases m) auto
  with Suc show ?case by (auto split: action.splits)
qed

section \<open>Pipelines\<close>

record pipeline =
  procs :: "nat list"
  start_frame :: "frame option"

definition NewPipeline :: pipeline where
  "NewPipeline = \<lparr>procs = [], start_frame = None\<rparr>"

definition AddProc :: "store \<times> pipeline \<Rightarrow> nat \<Rightarrow> store \<times> pipeline" where
  "AddProc sp a =
     (let (st, pl) = sp;
          st' = (if procs pl \<noteq> [] then SetPrev (SetNext st (last (procs pl)) a) a (last (procs pl))
                 else st)
      in (st', pl\<lparr>procs := procs pl @ [a]\<rparr>))"

definition Link :: "store \<times> pipeline \<Rightarrow> nat list \<Rightarrow> store \<times> pipeline" where
  "Link sp as = foldl AddProc sp as"

definition run_action ::
  "nat \<Rightarrow> store \<Rightarrow> (event \<Rightarrow> err option) \<Rightarrow> action \<Rightarrow> frame option
     \<Rightarrow> (event list \<times> err option) option" where
  "run_action n st rsp act f =
     (case act of Call b d \<Rightarrow> process_frame n st rsp b f d
      | Emit e \<Rightarrow> Some ([e], rsp e) | Spawn e \<Rightarrow> Some ([e], None) | Return \<Rightarrow> Some ([], None))"

definition Push ::
  "nat \<Rightarrow> store \<Rightarrow> (event \<Rightarrow> err option) \<Rightarrow> pipeline \<Rightarrow> frame option
     \<Rightarrow> (event list \<times> err option) option" where
  "Push n st rsp pl f = run_action n st rsp (inject (procs pl) Downstream) f"

definition PushUpstream ::
  "nat \<Rightarrow> store \<Rightarrow> (event \<Rightarrow> err option) \<Rightarrow> pipeline \<Rightarrow> frame option
     \<Rightarrow> (event list \<times> err option) option" where
  "PushUpstream n st rsp pl f = run_action n st rsp (inject (procs pl) Upstream) f"

definition StartPipeline ::
  "nat \<Rightarrow> store \<Rightarrow> (event \<Rightarrow> err option) \<Rightarrow> pipeline \<Rightarrow> frame option \<Rightarrow> u64
     \<Rightarrow> (event list \<times> err option) option \<times> pipeline \<times> u64" where
  "StartPipeline n st rsp pl start ids =
     (let (f, ids') = (case start of Some f \<Rightarrow> (f, ids) | None \<Rightarrow> NewStartFrame ids);
          pl' = pl\<lparr>start_frame := Some f\<rparr>
      in (Push n st rsp pl' (Some f), pl', ids'))"

definition CancelPipeline ::
  "nat \<Rightarrow> store \<Rightarrow> (event \<Rightarrow> err option) \<Rightarrow> pipeline \<Rightarrow> any \<Rightarrow> u64
     \<Rightarrow> (event list \<times> err option) option \<times> u64" where
  "CancelPipeline n st rsp pl reason ids =
     (let (f, ids') = NewCancelFrame reason ids in (Push n st rsp pl (Some f), ids'))"

text \<open>\<^verbatim>\<open>Setup\<close> stops at the first processor that fails; \<^verbatim>\<open>Cleanup\<close> runs backwards over all of
  them. The result lists the processors called.\<close>

definition Setup :: "(nat \<Rightarrow> err option) \<Rightarrow> pipeline \<Rightarrow> nat list \<times> err option" where
  "Setup setf pl = push_seq setf (procs pl)"

definition Cleanup :: "pipeline \<Rightarrow> nat list" where
  "Cleanup pl = rev (procs pl)"

text \<open>\<^verbatim>\<open>ProcessorsFromConfig\<close>: \<open>reg\<close> is the registry, \<open>ctor\<close> what it holds.\<close>

fun build_plugins ::
  "(string \<rightharpoonup> (string \<Rightarrow> string option \<Rightarrow> nat)) \<Rightarrow> (string \<rightharpoonup> string) option
     \<Rightarrow> string list \<Rightarrow> err + nat list" where
  "build_plugins reg opts [] = Inr []"
| "build_plugins reg opts (nm # nms) =
     (case reg nm of
        None \<Rightarrow> Inl (''unknown processor/plugin: '' @ nm)
      | Some ctor \<Rightarrow>
          (case build_plugins reg opts nms of
             Inl e \<Rightarrow> Inl e
           | Inr as \<Rightarrow> Inr (ctor nm (case opts of None \<Rightarrow> None | Some m \<Rightarrow> m nm) # as)))"

definition ProcessorsFromConfig ::
  "(string \<rightharpoonup> (string \<Rightarrow> string option \<Rightarrow> nat))
     \<Rightarrow> (string list \<times> (string \<rightharpoonup> string) option) option \<Rightarrow> err + nat list" where
  "ProcessorsFromConfig reg cfg =
     (case cfg of None \<Rightarrow> Inr [] | Some (plugins, opts) \<Rightarrow> build_plugins reg opts plugins)"

definition AddFromConfig ::
  "(string \<rightharpoonup> (string \<Rightarrow> string option \<Rightarrow> nat))
     \<Rightarrow> (string list \<times> (string \<rightharpoonup> string) option) option \<Rightarrow> store \<times> pipeline
     \<Rightarrow> err option \<times> (store \<times> pipeline)" where
  "AddFromConfig reg cfg sp =
     (case ProcessorsFromConfig reg cfg of
        Inl e \<Rightarrow> (Some e, sp)
      | Inr as \<Rightarrow> (None, foldl AddProc sp as))"

section \<open>Linking\<close>

fun path :: "store \<Rightarrow> direction \<Rightarrow> nat list \<Rightarrow> bool" where
  "path st d [] = True"
| "path st d [a] = True"
| "path st d (a # b # r) =
     ((if d = Downstream then nxt (st a) else prv (st a)) = Some b \<and> path st d (b # r))"

definition linked :: "store \<Rightarrow> nat list \<Rightarrow> bool" where
  "linked st xs \<longleftrightarrow> path st Downstream xs \<and> path st Upstream (rev xs)"

lemma path_cong:
  "(\<And>a. a \<in> set (butlast xs) \<Longrightarrow> (if d = Downstream then nxt (st' a) else prv (st' a)) =
      (if d = Downstream then nxt (st a) else prv (st a))) \<Longrightarrow>
   path st' d xs = path st d xs"
  by (induction st d xs rule: path.induct) auto

lemma path_cong_set:
  "(\<And>a. a \<in> set xs \<Longrightarrow> (if d = Downstream then nxt (st' a) else prv (st' a)) =
      (if d = Downstream then nxt (st a) else prv (st a))) \<Longrightarrow>
   path st' d xs = path st d xs"
  by (rule path_cong) (blast dest: in_set_butlastD)

lemma path_snoc:
  "path st d (xs @ [a, b]) \<longleftrightarrow>
     path st d (xs @ [a]) \<and> (if d = Downstream then nxt (st a) else prv (st a)) = Some b"
  by (induction xs rule: induct_list012) auto

lemma AddProc_linked:
  assumes "linked st (procs pl)" "distinct (procs pl)" "a \<notin> set (procs pl)"
    "AddProc (st, pl) a = (st', pl')"
  shows "linked st' (procs pl') \<and> distinct (procs pl') \<and> procs pl' = procs pl @ [a]"
proof (cases "procs pl" rule: rev_cases)
  case Nil
  with assms show ?thesis by (auto simp: AddProc_def linked_def)
next
  case (snoc ys l)
  from snoc assms have st': "st' = SetPrev (SetNext st l a) a l" and
    pl': "procs pl' = ys @ [l, a]" and d: "distinct (ys @ [l, a])"
    by (auto simp: AddProc_def)
  have "path st' Downstream (ys @ [l]) = path st Downstream (ys @ [l])"
    using d by (intro path_cong) (auto simp: st' SetPrev_def SetNext_def)
  moreover have "path st' Upstream (l # rev ys) = path st Upstream (l # rev ys)"
    by (rule path_cong_set) (use d in \<open>auto simp: st' SetPrev_def SetNext_def\<close>)
  moreover have "nxt (st' l) = Some a" "prv (st' a) = Some l"
    using d by (auto simp: st' SetPrev_def SetNext_def)
  ultimately show ?thesis
    using assms(1) d unfolding linked_def snoc pl' by (simp add: path_snoc snoc pl')
qed

lemma AddProc_other:
  "AddProc (st, pl) a = (st', pl') \<Longrightarrow>
     kind (st' b) = kind (st b) \<and> cname (st' b) = cname (st b) \<and>
     (b \<notin> set (procs pl) \<and> b \<noteq> a \<longrightarrow> st' b = st b)"
  by (auto simp: AddProc_def SetNext_def SetPrev_def Let_def split: if_splits)

lemma Link_linked_aux:
  "linked st (procs pl) \<Longrightarrow> distinct (procs pl @ as) \<Longrightarrow> Link (st, pl) as = (st', pl') \<Longrightarrow>
     linked st' (procs pl @ as) \<and> procs pl' = procs pl @ as \<and> (\<forall>b. kind (st' b) = kind (st b))"
proof (induction as arbitrary: st pl)
  case Nil
  then show ?case by (simp add: Link_def)
next
  case (Cons a as)
  obtain st1 pl1 where 1: "AddProc (st, pl) a = (st1, pl1)" by (cases "AddProc (st, pl) a")
  have 2: "linked st1 (procs pl1)" "procs pl1 = procs pl @ [a]"
    using AddProc_linked [OF Cons.prems(1) _ _ 1] Cons.prems(2) by auto
  have 3: "Link (st1, pl1) as = (st', pl')" using Cons.prems(3) 1 by (simp add: Link_def)
  have "linked st' (procs pl1 @ as)" "procs pl' = procs pl1 @ as" "\<forall>b. kind (st' b) = kind (st1 b)"
    using Cons.IH [OF 2(1) _ 3] Cons.prems(2) 2(2) by simp_all
  then show ?case using 2(2) AddProc_other [OF 1] by simp
qed

lemma Link_new:
  "distinct as \<Longrightarrow> Link (st, NewPipeline) as = (st', pl) \<Longrightarrow>
     procs pl = as \<and> linked st' as \<and> (\<forall>b. kind (st' b) = kind (st b))"
  using Link_linked_aux [of st NewPipeline as st' pl]
  by (simp add: NewPipeline_def linked_def)

text \<open>C21: Linking distinct processors into a new pipeline yields a doubly linked list in argument order:
  every processor's next is its successor and every successor's prev points back, and the kind of
  no processor changes.\<close>

theorem link_builds_chain:
  "distinct as \<Longrightarrow> Link (st, NewPipeline) as = (st', pl) \<Longrightarrow>
     procs pl = as \<and> linked st' as \<and> (\<forall>b. kind (st' b) = kind (st b))"
  by (rule Link_new)

section \<open>Flow through a linked chain\<close>

text \<open>Processors that hand a frame on in direction \<open>d\<close> unless a filter stops it.\<close>

definition transparent :: "cell \<Rightarrow> direction \<Rightarrow> bool" where
  "transparent c d =
     (case kind c of
        KBase \<Rightarrow> True
      | KFilter _ \<Rightarrow> True
      | KSink _ \<Rightarrow> d = Upstream
      | KPipelineSource _ \<Rightarrow> d = Downstream
      | KPipelineSinkCallback _ \<Rightarrow> d = Upstream
      | _ \<Rightarrow> False)"

definition admits :: "cell \<Rightarrow> frame option \<Rightarrow> direction \<Rightarrow> bool" where
  "admits c f d = (case kind c of KFilter (Some g) \<Rightarrow> g f d | _ \<Rightarrow> True)"

lemma action_of_transparent:
  assumes "transparent (st a) d" "(if d = Downstream then nxt (st a) else prv (st a)) = Some b"
  shows "action_of a (st a) f d = (if admits (st a) f d then Call b d else Return)"
  using assms
  by (cases d)
    (auto simp: action_of_def transparent_def admits_def base_action_def filter_action_def
      sink_action_def source_action_def sink_callback_action_def
      split: kind.splits option.splits if_splits)

lemma process_frame_path:
  assumes "path st d (xs @ [s])" "\<forall>a \<in> set xs. transparent (st a) d"
  shows "process_frame (length xs + Suc k) st rsp (hd (xs @ [s])) f d =
    (if \<forall>a \<in> set xs. admits (st a) f d then process_frame (Suc k) st rsp s f d
     else Some ([], None))"
  using assms
proof (induction xs)
  case Nil
  then show ?case by simp
next
  case (Cons a xs)
  have n: "(if d = Downstream then nxt (st a) else prv (st a)) = Some (hd (xs @ [s]))"
    and p': "path st d (xs @ [s])"
    using Cons.prems(1) by (cases xs; simp)+
  from action_of_transparent [of st a d "hd (xs @ [s])" f] n Cons.prems(2)
  have "action_of a (st a) f d = (if admits (st a) f d then Call (hd (xs @ [s])) d else Return)"
    by simp
  with Cons.IH [OF p'] Cons.prems(2) show ?case by simp
qed

lemma linked_push:
  assumes "linked st (procs pl)" "procs pl = xs @ [s]" "\<forall>a \<in> set xs. transparent (st a) Downstream"
    "length xs < n"
  shows "Push n st rsp pl f =
    (if \<forall>a \<in> set xs. admits (st a) f Downstream
     then process_frame (n - length xs) st rsp s f Downstream else Some ([], None))"
proof -
  obtain k where "n = length xs + Suc k" using assms(4) less_imp_Suc_add by fastforce
  with process_frame_path [of st Downstream xs s k rsp f] assms show ?thesis
    by (simp add: Push_def run_action_def inject_def linked_def)
qed

lemma linked_push_upstream:
  assumes "linked st (procs pl)" "procs pl = s # xs" "\<forall>a \<in> set xs. transparent (st a) Upstream"
    "length xs < n"
  shows "PushUpstream n st rsp pl f =
    (if \<forall>a \<in> set xs. admits (st a) f Upstream
     then process_frame (n - length xs) st rsp s f Upstream else Some ([], None))"
proof -
  obtain k where "n = length xs + Suc k" using assms(4) less_imp_Suc_add by fastforce
  moreover have "hd (rev xs @ [s]) = last (s # xs)" by (simp add: hd_append hd_rev)
  ultimately show ?thesis
    using process_frame_path [of st Upstream "rev xs" s k rsp f] assms
    by (simp add: PushUpstream_def run_action_def inject_def linked_def)
qed

text \<open>C11: A nested pipeline (source, transparent processors, sink with callbacks) transports frames both
  ways: pushed downstream, a frame reaches the sink's callback exactly once and its error comes
  back exactly when every filter on the way admits it; otherwise nothing happens. The same holds
  upstream for the source's callback. A stack as deep as the pipeline is long is enough.\<close>

theorem nested_pipeline_transports:
  assumes "distinct (src # mid @ [snk])" "Link (st, NewPipeline) (src # mid @ [snk]) = (st', pl)"
    "kind (st src) = KPipelineSource (Some u)" "kind (st snk) = KPipelineSinkCallback (Some v)"
    "\<forall>a \<in> set mid. kind (st a) = KBase \<or> (\<exists>g. kind (st a) = KFilter g)"
    "length mid + 2 \<le> n"
  shows "Push n st' rsp pl f =
      (if \<forall>a \<in> set mid. admits (st a) f Downstream
       then Some ([DownstreamCallback v f], rsp (DownstreamCallback v f)) else Some ([], None)) \<and>
    PushUpstream n st' rsp pl f =
      (if \<forall>a \<in> set mid. admits (st a) f Upstream
       then Some ([UpstreamCallback u f], rsp (UpstreamCallback u f)) else Some ([], None))"
proof -
  have ps: "procs pl = src # mid @ [snk]" "linked st' (procs pl)" and
    k: "\<And>b. kind (st' b) = kind (st b)"
    using Link_new [OF assms(1,2)] by auto
  obtain m where m: "n - Suc (length mid) = Suc m" using assms(6) by (cases "n - Suc (length mid)") auto
  have a: "\<And>a d. admits (st' a) f d = admits (st a) f d" by (simp add: admits_def k)
  have t: "\<forall>a \<in> set (src # mid). transparent (st' a) Downstream"
    "\<forall>a \<in> set (mid @ [snk]). transparent (st' a) Upstream"
    using assms(3-5) by (auto simp: transparent_def k split: kind.splits)
  have "Push n st' rsp pl f =
      (if \<forall>a \<in> set (src # mid). admits (st' a) f Downstream
       then process_frame (n - Suc (length mid)) st' rsp snk f Downstream else Some ([], None))"
    using linked_push [OF ps(2) _ t(1), of snk n rsp f] ps(1) assms(6) by simp
  moreover have "PushUpstream n st' rsp pl f =
      (if \<forall>a \<in> set (mid @ [snk]). admits (st' a) f Upstream
       then process_frame (n - Suc (length mid)) st' rsp src f Upstream else Some ([], None))"
    using linked_push_upstream [OF ps(2,1) t(2), of n rsp f] assms(6) by simp
  ultimately show ?thesis
    using assms(3,4) by (simp add: m a action_of_def sink_callback_action_def source_action_def k)
      (simp add: admits_def)
qed

definition demo_store :: store where
  "demo_store = (\<lambda>_. NewBaseProcessor [])
     (0 := NewPipelineSource [] (Some 7), 1 := NewFilterProcessor [] (Some (\<lambda>f d. f \<noteq> None)),
      3 := NewPipelineSinkCallback [] (Some 8))"

lemmas demo_simps = demo_store_def NewBaseProcessor_def NewPipelineSource_def
  NewFilterProcessor_def NewPipelineSinkCallback_def new_cell_def

theorem link_builds_chain_witness:
  "procs (snd (Link (demo_store, NewPipeline) [0, 1, 2, 3])) = [0, 1, 2, 3] \<and>
   linked (fst (Link (demo_store, NewPipeline) [0, 1, 2, 3])) [0, 1, 2, 3]"
  using link_builds_chain [of "[0, 1, 2, 3]" demo_store
      "fst (Link (demo_store, NewPipeline) [0, 1, 2, 3])"
      "snd (Link (demo_store, NewPipeline) [0, 1, 2, 3])"] by simp

theorem nested_pipeline_transports_witness:
  "Push 4 (fst (Link (demo_store, NewPipeline) (0 # [1, 2] @ [3]))) (\<lambda>_. Some ''full'')
      (snd (Link (demo_store, NewPipeline) (0 # [1, 2] @ [3]))) (Some (fst (NewEndFrame 0))) =
    Some ([DownstreamCallback 8 (Some (fst (NewEndFrame 0)))], Some ''full'')"
  using nested_pipeline_transports [of 0 "[1, 2]" 3 demo_store
      "fst (Link (demo_store, NewPipeline) (0 # [1, 2] @ [3]))"
      "snd (Link (demo_store, NewPipeline) (0 # [1, 2] @ [3]))" 7 8 4 "\<lambda>_. Some ''full''"
      "Some (fst (NewEndFrame 0))"]
  by (simp add: demo_simps admits_def)

section \<open>Set-up, clean-up and the queued processor\<close>

lemma Setup_prefix:
  "Setup setf pl = (called, e) \<Longrightarrow>
     (\<exists>rest. procs pl = called @ rest \<and> (e = None \<longrightarrow> rest = [])) \<and>
     (e \<noteq> None \<longrightarrow> called \<noteq> [] \<and> setf (last called) = e)"
proof -
  have "push_seq setf xs = (called, e) \<Longrightarrow>
     (\<exists>rest. xs = called @ rest \<and> (e = None \<longrightarrow> rest = [])) \<and>
     (e \<noteq> None \<longrightarrow> called \<noteq> [] \<and> setf (last called) = e)" for xs
    by (induction xs arbitrary: called) (fastforce split: option.splits prod.splits)+
  then show "Setup setf pl = (called, e) \<Longrightarrow> ?thesis" by (simp add: Setup_def)
qed

text \<open>
  \<^verbatim>\<open>QueuedProcessor.Run\<close> on the items taken from its queue: the embedded base handler forwards
  each one, and an error is reported to the previous processor as a non-fatal error frame. The
  result lists the calls; \<open>rsp\<close> is what the callees return.
\<close>

fun queued_run ::
  "cell \<Rightarrow> (nat \<Rightarrow> frame option \<Rightarrow> direction \<Rightarrow> err option) \<Rightarrow> u64 \<Rightarrow> item list
     \<Rightarrow> (nat \<times> frame option \<times> direction) list" where
  "queued_run c rsp ids [] = []"
| "queued_run c rsp ids (it # its) =
     (case base_action c (idir it) of
        Call b d \<Rightarrow> (b, iframe it, d) #
          (case (rsp b (iframe it) d, prv c) of
             (Some e, Some p) \<Rightarrow>
               (let (ef, ids') = NewErrorFrame e False (Name c) ids
                in (p, Some ef, Upstream) # queued_run c rsp ids' its)
           | _ \<Rightarrow> queued_run c rsp ids its)
      | _ \<Rightarrow> queued_run c rsp ids its)"

definition is_report :: "cell \<Rightarrow> nat \<times> frame option \<times> direction \<Rightarrow> bool" where
  "is_report c call =
     (case call of (b, Some f, Upstream) \<Rightarrow>
        prv c = Some b \<and> (\<exists>e. fbody f = ErrorFrame e False (Name c)) | _ \<Rightarrow> False)"

text \<open>The loop of a queued processor never stops on an error: apart from the error reports it sends
  to its previous processor, the calls it makes are exactly its items, each once and in queue
  order, whatever its neighbours answer.\<close>

theorem queued_run_delivers_all:
  assumes "nxt c = Some b" "prv c = Some p" "\<forall>it \<in> set its. idir it = Downstream" "p \<noteq> b"
  shows "filter (\<lambda>(a, _). a = b) (queued_run c rsp ids its) =
      map (\<lambda>it. (b, iframe it, Downstream)) its \<and>
    list_all (\<lambda>call. fst call = b \<or> is_report c call) (queued_run c rsp ids its)"
  using assms
proof (induction its arbitrary: ids)
  case Nil
  then show ?case by simp
next
  case (Cons it its)
  then show ?case
    by (auto simp: base_action_def is_report_def NewErrorFrame_def mk_frame_def NewBase_def
        split: option.splits)
qed

theorem queued_run_delivers_all_witness:
  "filter (\<lambda>(a, _). a = 2) (queued_run \<lparr>cname = ''q'', kind = KBase, nxt = Some 2, prv = Some 1\<rparr>
      (\<lambda>_ _ _. Some ''down'') 0 [probe_item, probe_item]) =
    [(2, iframe probe_item, Downstream), (2, iframe probe_item, Downstream)]"
  using queued_run_delivers_all [of "\<lparr>cname = ''q'', kind = KBase, nxt = Some 2, prv = Some 1\<rparr>"
      2 1 "[probe_item, probe_item]" "\<lambda>_ _ _. Some ''down''" 0]
  by (simp add: probe_item_def)

end
