(* ===== verification/RunnerTask.thy ===== *)
theory RunnerTask
  imports Chain "HOL-Library.Sublist"
begin

text \<open>
  What feeds a pipeline: \<^verbatim>\<open>Runner.Run\<close> (start-up, reader and worker goroutines around a bounded
  channel), \<^verbatim>\<open>PipelineTask\<close> (unbuffered queue, drain goroutine) and \<^verbatim>\<open>TaskObserver\<close> (bounded
  queue that drops) of \<^verbatim>\<open>pkg/pipeline\<close>. Goroutines are step relations; a step is one channel
  operation or one critical section. Frames read from a transport are not nil (the reader
  calls \<^verbatim>\<open>FrameType\<close> on the first one).
\<close>

section \<open>Start-up and shut-down of the runner\<close>

datatype run_op =
    RSetup nat | RTransportStart | RTransportClose | RPushStart frame | RCleanup nat

text \<open>\<^verbatim>\<open>Run\<close> up to its return: the deferred calls run in reverse order, and only those registered
  before the return. \<open>stop\<close> is the error of the context when the run ends normally.\<close>

definition RunnerRun ::
  "(nat \<Rightarrow> err option) \<Rightarrow> err option \<Rightarrow> (frame \<Rightarrow> err option) \<Rightarrow> err option \<Rightarrow> pipeline
     \<Rightarrow> frame option \<Rightarrow> u64 \<Rightarrow> run_op list \<times> err option" where
  "RunnerRun setf tstart push stop pl start ids =
     (let (called, e) = Setup setf pl; ups = map RSetup called;
          downs = map RCleanup (Cleanup pl) in
      if e \<noteq> None then (ups, e)
      else if tstart \<noteq> None then (ups @ [RTransportStart] @ downs, tstart)
      else (let f = (case start of Some f \<Rightarrow> f | None \<Rightarrow> fst (NewStartFrame ids));
                ops = ups @ [RTransportStart, RPushStart f, RTransportClose] @ downs
            in (ops, if push f \<noteq> None then push f else stop)))"

definition setups :: "run_op list \<Rightarrow> nat list" where
  "setups ops = concat (map (\<lambda>p. case p of RSetup a \<Rightarrow> [a] | _ \<Rightarrow> []) ops)"

definition cleanups :: "run_op list \<Rightarrow> nat list" where
  "cleanups ops = concat (map (\<lambda>p. case p of RCleanup a \<Rightarrow> [a] | _ \<Rightarrow> []) ops)"

lemma setups_simps [simp]:
  "setups [] = []" "setups (xs @ ys) = setups xs @ setups ys" "setups (map RSetup as) = as"
  "setups (map RCleanup as) = []" "setups (RTransportStart # ops) = setups ops"
  "setups (RTransportClose # ops) = setups ops" "setups (RPushStart f # ops) = setups ops"
  by (auto simp: setups_def comp_def)

lemma cleanups_simps [simp]:
  "cleanups [] = []" "cleanups (xs @ ys) = cleanups xs @ cleanups ys"
  "cleanups (map RCleanup as) = as" "cleanups (map RSetup as) = []"
  "cleanups (RTransportStart # ops) = cleanups ops"
  "cleanups (RTransportClose # ops) = cleanups ops" "cleanups (RPushStart f # ops) = cleanups ops"
  by (auto simp: cleanups_def comp_def)

text \<open>Once every processor is set up, a run cleans up each of them exactly once in reverse order
  whatever fails afterwards; but when a processor's \<^verbatim>\<open>Setup\<close> fails, none of the processors already
  set up is cleaned up, because the deferred \<^verbatim>\<open>Cleanup\<close> is registered only after \<^verbatim>\<open>Setup\<close>.\<close>

theorem runner_setup_cleanup:
  "RunnerRun setf tstart push stop pl start ids = (ops, e) \<Longrightarrow>
     (if \<forall>a \<in> set (procs pl). setf a = None
      then setups ops = procs pl \<and> cleanups ops = rev (procs pl)
      else e \<noteq> None \<and> setups ops \<noteq> [] \<and> cleanups ops = [])"
proof -
  assume r: "RunnerRun setf tstart push stop pl start ids = (ops, e)"
  obtain called e' where s: "Setup setf pl = (called, e')" by (cases "Setup setf pl")
  have n: "(\<forall>a \<in> set (procs pl). setf a = None) \<longleftrightarrow> e' = None"
    using push_seq_none_iff [of setf "procs pl"] s by (simp add: Setup_def)
  show ?thesis
  proof (cases e')
    case None
    with Setup_prefix [OF s] have "called = procs pl" by auto
    with r s None show ?thesis unfolding n
      by (simp add: RunnerRun_def Let_def Cleanup_def split: if_splits) (auto simp: Cleanup_def)
  next
    case (Some x)
    with Setup_prefix [OF s] have "called \<noteq> []" by simp
    with r s Some show ?thesis unfolding n by (auto simp: RunnerRun_def Let_def)
  qed
qed

theorem runner_setup_cleanup_witness:
  "RunnerRun (\<lambda>a. if a = 5 then Some ''no key'' else None) None (\<lambda>_. None) None
      \<lparr>procs = [4, 5, 6], start_frame = None\<rparr> None 0 = ([RSetup 4, RSetup 5], Some ''no key'') \<and>
   cleanups [RSetup 4, RSetup 5] = []"
  using runner_setup_cleanup [of "\<lambda>a. if a = 5 then Some ''no key'' else None" None "\<lambda>_. None" None
      "\<lparr>procs = [4, 5, 6], start_frame = None\<rparr>" None 0 "[RSetup 4, RSetup 5]" "Some ''no key''"]
  by (simp add: RunnerRun_def Setup_def)

section \<open>Reader and worker\<close>

definition input_queue_cap :: "int \<Rightarrow> nat" where
  "input_queue_cap override = (if override > 0 then nat override else 256)"

definition terminal :: "frame \<Rightarrow> bool" where
  "terminal f = (case fbody f of ErrorFrame _ fatal _ \<Rightarrow> fatal | CancelFrame _ \<Rightarrow> True | _ \<Rightarrow> False)"

datatype reader = Reading | Holding frame | ReaderGone

record rconf =
  incoming :: "frame list"
  in_closed :: bool
  reader :: reader
  chan :: "frame list"
  chan_closed :: bool
  working :: bool
  pushed :: "frame list"
  ctx_done :: bool

definition runner_init :: "frame list \<Rightarrow> bool \<Rightarrow> rconf" where
  "runner_init fs cl =
     \<lparr>incoming = fs, in_closed = cl, reader = Reading, chan = [], chan_closed = False,
      working = True, pushed = [], ctx_done = False\<rparr>"

inductive rstep :: "nat \<Rightarrow> rconf \<Rightarrow> rconf \<Rightarrow> bool" for cap :: nat where
  r_read: "reader c = Reading \<Longrightarrow> incoming c = f # fs \<Longrightarrow>
    rstep cap c (c\<lparr>reader := Holding f, incoming := fs\<rparr>)"
| r_eof: "reader c = Reading \<Longrightarrow> incoming c = [] \<Longrightarrow> in_closed c \<Longrightarrow>
    rstep cap c (c\<lparr>reader := ReaderGone, chan_closed := True\<rparr>)"
| r_stop: "reader c \<noteq> ReaderGone \<Longrightarrow> ctx_done c \<Longrightarrow>
    rstep cap c (c\<lparr>reader := ReaderGone, chan_closed := True\<rparr>)"
| r_send: "reader c = Holding f \<Longrightarrow> length (chan c) < cap \<Longrightarrow>
    rstep cap c (c\<lparr>reader := Reading, chan := chan c @ [f]\<rparr>)"
| w_push: "working c \<Longrightarrow> chan c = f # fs \<Longrightarrow> \<not> ctx_done c \<Longrightarrow>
    rstep cap c (c\<lparr>chan := fs, pushed := pushed c @ [f], working := \<not> terminal f\<rparr>)"
| w_ctx: "working c \<Longrightarrow> chan c = f # fs \<Longrightarrow> ctx_done c \<Longrightarrow>
    rstep cap c (c\<lparr>chan := fs, working := False\<rparr>)"
| w_end: "working c \<Longrightarrow> chan c = [] \<Longrightarrow> chan_closed c \<Longrightarrow>
    rstep cap c (c\<lparr>working := False\<rparr>)"
| r_cancel: "rstep cap c (c\<lparr>ctx_done := True\<rparr>)"

text \<open>What the pipeline should see of an input: everything up to and including the first Cancel or
  fatal error frame.\<close>

fun upto_terminal :: "frame list \<Rightarrow> frame list" where
  "upto_terminal [] = []"
| "upto_terminal (f # fs) = f # (if terminal f then [] else upto_terminal fs)"

definition held :: "rconf \<Rightarrow> frame list" where
  "held c = (case reader c of Holding f \<Rightarrow> [f] | _ \<Rightarrow> [])"

text \<open>The invariant: before cancellation nothing is lost between input and pipeline; the worker
  stops exactly behind a terminal frame or at the end of the closed channel.\<close>

definition rinv :: "nat \<Rightarrow> frame list \<Rightarrow> rconf \<Rightarrow> bool" where
  "rinv cap inp c \<longleftrightarrow>
     length (chan c) \<le> cap \<and> prefix (pushed c) (upto_terminal inp) \<and>
     (working c \<longrightarrow> prefix (pushed c @ chan c) inp \<and> list_all (\<lambda>f. \<not> terminal f) (pushed c)) \<and>
     (reader c \<noteq> ReaderGone \<longrightarrow> \<not> chan_closed c) \<and>
     (working c \<and> \<not> ctx_done c \<longrightarrow> pushed c @ chan c @ held c @ incoming c = inp) \<and>
     (\<not> ctx_done c \<longrightarrow> (working c \<or> pushed c = upto_terminal inp) \<and>
        (chan_closed c \<longrightarrow> incoming c = [] \<and> held c = []) \<and> (reader c = ReaderGone \<longrightarrow> chan_closed c)) \<and>
     (reader c \<noteq> ReaderGone \<and> working c \<longrightarrow> pushed c @ chan c @ held c @ incoming c = inp)"

lemma upto_terminal_app:
  "list_all (\<lambda>f. \<not> terminal f) xs \<Longrightarrow> upto_terminal (xs @ ys) = xs @ upto_terminal ys"
  by (induction xs) auto

lemma rinv_init: "rinv cap inp (runner_init inp cl)"
  by (simp add: rinv_def runner_init_def held_def)

lemma rinv_push:
  assumes "rinv cap inp c" "working c" "chan c = f # fs" "\<not> ctx_done c"
  shows "rinv cap inp (c\<lparr>chan := fs, pushed := pushed c @ [f], working := \<not> terminal f\<rparr>)"
proof -
  from assms have eq: "inp = pushed c @ f # (fs @ held c @ incoming c)"
    and nt: "list_all (\<lambda>f. \<not> terminal f) (pushed c)" by (auto simp: rinv_def)
  have "upto_terminal inp = pushed c @ f #
      (if terminal f then [] else upto_terminal (fs @ held c @ incoming c))"
    unfolding eq using nt by (simp add: upto_terminal_app)
  with assms nt eq show ?thesis by (auto simp: rinv_def held_def)
qed

lemma rstep_inv [inv_intros]:
  assumes "rstep cap c c'" "rinv cap inp c"
  shows "rinv cap inp c'"
  using assms
proof cases
  case (w_push f fs)
  with assms(2) rinv_push show ?thesis by blast
next
  case w_end
  with assms(2) have "\<not> ctx_done c \<Longrightarrow> pushed c = inp" "\<not> ctx_done c \<Longrightarrow> list_all (\<lambda>f. \<not> terminal f) (pushed c)"
    by (auto simp: rinv_def held_def)
  then have "\<not> ctx_done c \<Longrightarrow> pushed c = upto_terminal inp"
    using upto_terminal_app [of "pushed c" "[]"] by simp
  with assms(2) w_end show ?thesis by (auto simp: rinv_def held_def)
qed (use assms(2) in \<open>auto simp: rinv_def held_def prefix_def\<close>)

lemma rsteps_inv: "(rstep cap)\<^sup>*\<^sup>* c c' \<Longrightarrow> rinv cap inp c \<Longrightarrow> rinv cap inp c'"
  by (induction rule: rtranclp_induct) (auto intro: rstep_inv)

text \<open>No goroutine can move (a cancellation of the context aside).\<close>

definition quiet :: "nat \<Rightarrow> rconf \<Rightarrow> bool" where
  "quiet cap c \<longleftrightarrow> (\<forall>c'. rstep cap c c' \<longrightarrow> c' = c\<lparr>ctx_done := True\<rparr>)"

lemma quietD:
  assumes "quiet cap c" "\<not> ctx_done c"
  shows "reader c = Reading \<Longrightarrow> incoming c = []" "reader c = Reading \<Longrightarrow> \<not> in_closed c"
    "held c \<noteq> [] \<Longrightarrow> cap \<le> length (chan c)" "working c \<Longrightarrow> chan c = [] \<and> \<not> chan_closed c"
proof -
  have q: "\<And>c'. rstep cap c c' \<Longrightarrow> c' = c\<lparr>ctx_done := True\<rparr>" using assms(1) by (simp add: quiet_def)
  have qr: "reader c' = reader c" and qp: "pushed c' = pushed c" and qw: "working c' = working c"
    if "rstep cap c c'" for c'
    using q [OF that] by simp_all
  show i: "incoming c = []" if "reader c = Reading"
    using qr [OF r_read [OF that]] that by (cases "incoming c") simp_all
  show "\<not> in_closed c" if "reader c = Reading"
    using qr [OF r_eof [OF that i [OF that]]] that by auto
  show "cap \<le> length (chan c)" if "held c \<noteq> []"
    using qr [OF r_send] that by (cases "reader c") (auto simp: held_def not_less [symmetric])
  show "chan c = [] \<and> \<not> chan_closed c" if "working c"
  proof (cases "chan c")
    case Nil
    with qw [OF w_end [OF that]] that show ?thesis by auto
  next
    case (Cons f fs)
    with qp [OF w_push [OF that Cons assms(2)]] show ?thesis by simp
  qed
qed

text \<open>C3: Under every interleaving of the reader, the worker and a cancellation, the pipeline sees a
  prefix of the transport's frames up to the first Cancel or fatal Error, in order, and the
  channel never exceeds its capacity; and without a cancellation, once no goroutine can move, the
  pipeline has seen all of them: no frame is lost, duplicated or reordered, and the two goroutines
  cannot deadlock.\<close>

theorem runner_feeds_input:
  "(rstep cap)\<^sup>*\<^sup>* (runner_init inp cl) c \<Longrightarrow> cap > 0 \<Longrightarrow>
     prefix (pushed c) (upto_terminal inp) \<and> length (chan c) \<le> cap \<and>
     (quiet cap c \<and> \<not> ctx_done c \<longrightarrow> pushed c = upto_terminal inp)"
proof -
  assume s: "(rstep cap)\<^sup>*\<^sup>* (runner_init inp cl) c" and cap: "cap > 0"
  have i: "rinv cap inp c" by (rule rsteps_inv [OF s rinv_init])
  have "pushed c = upto_terminal inp" if q: "quiet cap c" "\<not> ctx_done c"
  proof (cases "working c")
    case False
    with i q show ?thesis by (simp add: rinv_def)
  next
    case True
    note d = quietD [OF q]
    from d(4) [OF True] have "chan c = []" "\<not> chan_closed c" by auto
    moreover have "held c = []" using d(3) cap \<open>chan c = []\<close> by (cases "held c") auto
    moreover have "reader c \<noteq> ReaderGone" using i q \<open>\<not> chan_closed c\<close> by (auto simp: rinv_def)
    then have "incoming c = []" using d(1) \<open>held c = []\<close> by (cases "reader c") (auto simp: held_def)
    ultimately have "pushed c = inp" "list_all (\<lambda>f. \<not> terminal f) (pushed c)"
      using i True q by (auto simp: rinv_def)
    then show ?thesis using upto_terminal_app [of "pushed c" "[]"] by simp
  qed
  with i show ?thesis by (auto simp: rinv_def)
qed

definition bye :: frame where
  "bye = fst (NewCancelFrame ANil 0)"

definition hello :: frame where
  "hello = fst (NewEndFrame 1)"

lemma demo_run:
  "(rstep 1)\<^sup>*\<^sup>* (runner_init [bye, hello] False)
     ((runner_init [bye, hello] False)\<lparr>reader := Holding hello, incoming := [], pushed := [bye],
        working := False\<rparr>)"
proof -
  let ?c = "runner_init [bye, hello] False"
  note d = runner_init_def bye_def NewCancelFrame_def mk_frame_def NewBase_def terminal_def
  have "rstep 1 ?c (?c\<lparr>reader := Holding bye, incoming := [hello]\<rparr>)"
    using r_read [of ?c bye "[hello]"] by (simp add: runner_init_def)
  moreover have "rstep 1 (?c\<lparr>reader := Holding bye, incoming := [hello]\<rparr>)
      (?c\<lparr>incoming := [hello], chan := [bye]\<rparr>)"
    using r_send [of "?c\<lparr>reader := Holding bye, incoming := [hello]\<rparr>" bye 1]
    by (simp add: runner_init_def)
  moreover have "rstep 1 (?c\<lparr>incoming := [hello], chan := [bye]\<rparr>)
      (?c\<lparr>incoming := [hello], pushed := [bye], working := False\<rparr>)"
    using w_push [of "?c\<lparr>incoming := [hello], chan := [bye]\<rparr>" bye "[]" 1] by (simp add: d)
  moreover have "rstep 1 (?c\<lparr>incoming := [hello], pushed := [bye], working := False\<rparr>)
      (?c\<lparr>reader := Holding hello, incoming := [], pushed := [bye], working := False\<rparr>)"
    using r_read [of "?c\<lparr>incoming := [hello], pushed := [bye], working := False\<rparr>" hello "[]" 1]
    by (simp add: runner_init_def)
  ultimately show ?thesis by (meson converse_rtranclp_into_rtranclp r_into_rtranclp)
qed

theorem runner_feeds_input_witness:
  "prefix [bye] (upto_terminal [bye, hello])"
  using runner_feeds_input [OF demo_run] by simp

section \<open>Pipeline tasks\<close>

text \<open>
  \<^verbatim>\<open>QueueFrame\<close> reads the queue channel under the lock and then blocks on an unbuffered send;
  \<^verbatim>\<open>Run\<close>, once its context is done, closes the channel and clears the field. A Go program
  panics when it sends on a closed channel, also when it was already blocked in the send.
\<close>

datatype sender = QStart frame | QSending frame | QSent | QNoop | QGaveUp | QPanic

record tconf =
  senders :: "sender list"
  queue_nil :: bool
  queue_closed :: bool
  draining :: bool
  tpushed :: "frame list"
  tctx_done :: bool
  finished :: bool

definition task_init :: "frame list \<Rightarrow> tconf" where
  "task_init fs =
     \<lparr>senders = map QStart fs, queue_nil = False, queue_closed = False, draining = True,
      tpushed = [], tctx_done = False, finished = False\<rparr>"

inductive tstep :: "tconf \<Rightarrow> tconf \<Rightarrow> bool" where
  t_look: "i < length (senders c) \<Longrightarrow> senders c ! i = QStart f \<Longrightarrow>
    tstep c (c\<lparr>senders := (senders c)[i := if queue_nil c then QNoop else QSending f]\<rparr>)"
| t_send: "i < length (senders c) \<Longrightarrow> senders c ! i = QSending f \<Longrightarrow> \<not> queue_closed c \<Longrightarrow>
    draining c \<Longrightarrow>
    tstep c (c\<lparr>senders := (senders c)[i := QSent], tpushed := tpushed c @ [f],
      draining := \<not> terminal f\<rparr>)"
| t_give_up: "i < length (senders c) \<Longrightarrow> senders c ! i = QSending f \<Longrightarrow>
    tstep c (c\<lparr>senders := (senders c)[i := QGaveUp]\<rparr>)"
| t_panic: "i < length (senders c) \<Longrightarrow> senders c ! i = QSending f \<Longrightarrow> queue_closed c \<Longrightarrow>
    tstep c (c\<lparr>senders := (senders c)[i := QPanic]\<rparr>)"
| t_cancel: "tstep c (c\<lparr>tctx_done := True\<rparr>)"
| t_drain_end: "draining c \<Longrightarrow> tctx_done c \<or> queue_closed c \<Longrightarrow> tstep c (c\<lparr>draining := False\<rparr>)"
| t_close: "tctx_done c \<Longrightarrow> \<not> queue_closed c \<Longrightarrow>
    tstep c (c\<lparr>queue_closed := True, queue_nil := True\<rparr>)"
| t_finish: "queue_closed c \<Longrightarrow> \<not> draining c \<Longrightarrow> tstep c (c\<lparr>finished := True\<rparr>)"

inductive_cases tstepE: "tstep c c'"

definition tinv :: "tconf \<Rightarrow> bool" where
  "tinv c \<longleftrightarrow>
     (queue_nil c = queue_closed c) \<and> (queue_closed c \<longrightarrow> tctx_done c) \<and>
     (finished c \<longrightarrow> queue_closed c \<and> \<not> draining c) \<and>
     list_all (\<lambda>f. \<not> terminal f) (butlast (tpushed c)) \<and>
     (draining c \<longrightarrow> list_all (\<lambda>f. \<not> terminal f) (tpushed c)) \<and>
     (\<not> draining c \<and> \<not> tctx_done c \<longrightarrow> tpushed c \<noteq> [] \<and> terminal (last (tpushed c))) \<and>
     (QPanic \<in> set (senders c) \<longrightarrow> tctx_done c)"

lemma set_list_updateD: "x \<in> set (xs[i := y]) \<Longrightarrow> x = y \<or> x \<in> set xs"
  using set_update_subset_insert by fastforce

lemma tstep_inv [inv_intros]: "tstep c c' \<Longrightarrow> tinv c \<Longrightarrow> tinv c'"
  by (induction rule: tstep.induct)
    (auto simp: tinv_def dest!: set_list_updateD split: if_splits)

lemma tsteps_inv: "tstep\<^sup>*\<^sup>* c c' \<Longrightarrow> tinv c \<Longrightarrow> tinv c'"
  by (induction rule: rtranclp_induct) (auto intro: tstep_inv)

lemma tinv_init: "tinv (task_init fs)"
  by (auto simp: tinv_def task_init_def)

text \<open>A task's pipeline sees no frame after the first Cancel or fatal Error; and as long as its
  context is not cancelled no sender panics, the task is not finished and, unless such a frame was
  pushed, the drain goroutine keeps running. In particular the EndFrame that \<^verbatim>\<open>StopWhenDone\<close>
  queues stops nothing, contrary to its documentation.\<close>

theorem task_runs_until_cancelled:
  "tstep\<^sup>*\<^sup>* (task_init fs) c \<Longrightarrow>
     list_all (\<lambda>f. \<not> terminal f) (butlast (tpushed c)) \<and>
     (\<not> tctx_done c \<longrightarrow> \<not> finished c \<and> \<not> queue_nil c \<and> QPanic \<notin> set (senders c) \<and>
        (list_all (\<lambda>f. \<not> terminal f) (tpushed c) \<longrightarrow> draining c))"
proof -
  assume "tstep\<^sup>*\<^sup>* (task_init fs) c"
  from tsteps_inv [OF this tinv_init] have i: "tinv c" .
  then have "list_all (\<lambda>f. \<not> terminal f) (tpushed c) \<Longrightarrow> \<not> tctx_done c \<Longrightarrow> draining c"
    by (auto simp: tinv_def list_all_iff)
  with i show ?thesis by (auto simp: tinv_def)
qed

lemma one_sender:
  "tstep\<^sup>*\<^sup>* (task_init [f]) ((task_init [f])\<lparr>senders := [QSending f]\<rparr>)"
  using t_look [of 0 "task_init [f]" f] by (auto simp: task_init_def)

theorem task_runs_until_cancelled_witness:
  "\<exists>c. tstep\<^sup>*\<^sup>* (task_init [hello]) c \<and> tpushed c = [hello] \<and> draining c \<and> \<not> finished c"
proof -
  let ?c = "(task_init [hello])\<lparr>senders := [QSent], tpushed := [hello]\<rparr>"
  have "tstep ((task_init [hello])\<lparr>senders := [QSending hello]\<rparr>) ?c"
    using t_send [of 0 "(task_init [hello])\<lparr>senders := [QSending hello]\<rparr>" hello]
    by (simp add: task_init_def hello_def NewEndFrame_def mk_frame_def NewBase_def terminal_def)
  with one_sender have s: "tstep\<^sup>*\<^sup>* (task_init [hello]) ?c" by (meson rtranclp.rtrancl_into_rtrancl)
  from task_runs_until_cancelled [OF s] s show ?thesis
    by (intro exI [of _ ?c])
      (simp add: task_init_def hello_def NewEndFrame_def mk_frame_def NewBase_def terminal_def)
qed

text \<open>Queueing a frame races with the end of the task: a sender that has read the queue before \<^verbatim>\<open>Run\<close>
  closes it reaches a send on a closed channel and panics.\<close>

theorem task_queue_send_panics:
  "\<exists>c. tstep\<^sup>*\<^sup>* (task_init [f]) c \<and> senders c = [QPanic]"
proof -
  let ?a = "(task_init [f])\<lparr>senders := [QSending f]\<rparr>"
  let ?b = "?a\<lparr>tctx_done := True\<rparr>"
  let ?d = "?b\<lparr>queue_closed := True, queue_nil := True\<rparr>"
  have "tstep ?a ?b" by (rule t_cancel)
  moreover have "tstep ?b ?d" using t_close [of ?b] by (simp add: task_init_def)
  moreover have "tstep ?d (?d\<lparr>senders := [QPanic]\<rparr>)" using t_panic [of 0 ?d f] by simp
  ultimately have "tstep\<^sup>*\<^sup>* ?a (?d\<lparr>senders := [QPanic]\<rparr>)"
    by (meson converse_rtranclp_into_rtranclp r_into_rtranclp)
  with one_sender have "tstep\<^sup>*\<^sup>* (task_init [f]) (?d\<lparr>senders := [QPanic]\<rparr>)" by (meson rtranclp_trans)
  then show ?thesis by (intro exI [of _ "?d\<lparr>senders := [QPanic]\<rparr>"]) simp
qed

section \<open>The asynchronous observer\<close>

record frame_event =
  ev_processor :: string
  ev_frame :: frame
  ev_dir :: direction

record task_observer =
  oqueue :: "frame_event list"
  ocap :: nat
  ostopped :: bool
  observers :: "nat option list"

definition NewTaskObserver :: "nat option list \<Rightarrow> int \<Rightarrow> task_observer" where
  "NewTaskObserver os sz =
     \<lparr>oqueue = [], ocap = (if sz \<le> 0 then 256 else nat sz), ostopped = False, observers = os\<rparr>"

text \<open>Nil observers are skipped.\<close>

definition notify_all :: "nat option list \<Rightarrow> frame_event \<Rightarrow> (nat \<times> frame_event) list" where
  "notify_all os e = map (\<lambda>x. (the x, e)) (filter (\<lambda>x. x \<noteq> None) os)"

datatype obs_step = OnFrameProcessed frame_event | DrainOne | StopObserver | AddObserver "nat option"

fun ostep :: "task_observer \<Rightarrow> obs_step \<Rightarrow> task_observer \<times> (nat \<times> frame_event) list" where
  "ostep s (OnFrameProcessed e) =
     ((if ostopped s then s
       else if length (oqueue s) < ocap s then s\<lparr>oqueue := oqueue s @ [e]\<rparr> else s), [])"
| "ostep s DrainOne =
     (case oqueue s of [] \<Rightarrow> (s, [])
      | e # r \<Rightarrow> (s\<lparr>oqueue := r\<rparr>, notify_all (observers s) e))"
| "ostep s StopObserver = (s\<lparr>ostopped := True\<rparr>, [])"
| "ostep s (AddObserver x) = (s\<lparr>observers := observers s @ [x]\<rparr>, [])"

definition obs_inv :: "task_observer \<Rightarrow> bool" where
  "obs_inv s \<longleftrightarrow> length (oqueue s) \<le> ocap s"

interpretation tobs: machine ostep obs_inv
proof
  show "obs_inv (fst (ostep s e))" if "obs_inv s" for s e
    using that by (cases e) (auto simp: obs_inv_def split: list.splits)
qed

definition announced :: "obs_step list \<Rightarrow> frame_event list" where
  "announced es = concat (map (\<lambda>e. case e of OnFrameProcessed x \<Rightarrow> [x] | _ \<Rightarrow> []) es)"

definition received :: "nat \<Rightarrow> (nat \<times> frame_event) list \<Rightarrow> frame_event list" where
  "received n outs = map snd (filter (\<lambda>(m, _). m = n) outs)"

lemma announced_simps [simp]:
  "announced [] = []" "announced (OnFrameProcessed x # es) = x # announced es"
  "announced (DrainOne # es) = announced es" "announced (StopObserver # es) = announced es"
  "announced (AddObserver y # es) = announced es"
  by (simp_all add: announced_def)

lemma announced_cons: "announced (e # es) = announced [e] @ announced es"
  by (simp add: announced_def)

lemma received_app [simp]: "received n (xs @ ys) = received n xs @ received n ys" "received n [] = []"
  by (simp_all add: received_def)

lemma received_notify:
  "distinct os \<Longrightarrow> Some n \<in> set os \<Longrightarrow> received n (notify_all os e) = [e]"
proof (induction os)
  case Nil
  then show ?case by simp
next
  case (Cons x os)
  have "received n (notify_all os e) = []" if "Some n \<notin> set os"
    using that by (force simp: received_def notify_all_def filter_empty_conv)
  moreover have "received n (notify_all (x # os) e) =
      (if x = Some n then [e] else []) @ received n (notify_all os e)"
    by (cases x) (simp_all add: received_def notify_all_def)
  ultimately show ?case using Cons by auto
qed

lemma ostep_delivers:
  assumes "ostep s e = (s', outs)" "distinct (observers s)" "Some n \<in> set (observers s)"
    "\<forall>x. e \<noteq> AddObserver x"
  shows "observers s' = observers s \<and> ocap s' = ocap s \<and> (ostopped s \<longrightarrow> ostopped s') \<and>
    subseq (received n outs @ oqueue s') (oqueue s @ announced [e]) \<and>
    (\<not> ostopped s \<and> length (oqueue s @ announced [e]) \<le> ocap s \<longrightarrow>
       received n outs @ oqueue s' = oqueue s @ announced [e])"
  using assms
  by (cases e) (auto simp: received_notify split: list.splits if_splits
      intro: subseq_rev_drop_many)

lemma orun_delivers:
  assumes "run ostep s es = (s', outs)" "distinct (observers s)" "Some n \<in> set (observers s)"
    "\<forall>x. AddObserver x \<notin> set es"
  shows "subseq (received n outs @ oqueue s') (oqueue s @ announced es)"
  using assms
proof (induction es arbitrary: s s' outs)
  case Nil
  then show ?case by simp
next
  case (Cons e es)
  obtain s1 o1 where 1: "ostep s e = (s1, o1)" by fastforce
  obtain o2 where 2: "run ostep s1 es = (s', o2)" "outs = o1 @ o2"
    using Cons.prems(1) 1 by (auto simp: Let_def split: prod.splits)
  have d: "observers s1 = observers s" "subseq (received n o1 @ oqueue s1) (oqueue s @ announced [e])"
    using ostep_delivers [OF 1] Cons.prems by auto
  have "subseq (received n o1 @ received n o2 @ oqueue s') (received n o1 @ oqueue s1 @ announced es)"
    by (rule list_emb_append_mono) (use Cons.IH [OF 2(1)] Cons.prems d(1) in simp_all)
  also have "\<dots> = (received n o1 @ oqueue s1) @ announced es" by simp
  also have "subseq \<dots> ((oqueue s @ announced [e]) @ announced es)"
    by (rule list_emb_append_mono [OF d(2)]) simp
  finally have "subseq (received n o1 @ received n o2 @ oqueue s') (oqueue s @ announced [e] @ announced es)"
    by simp
  then show ?case using 2(2) by (simp add: announced_cons [of e es])
qed

text \<open>The asynchronous observer never reorders, duplicates or invents events: whatever sequence of
  notifications, drains and a stop is run, each registered observer has received, together with what is
  still queued, a subsequence of the frames announced, and the queue stays within its capacity.\<close>

theorem task_observer_subsequence:
  "run ostep (NewTaskObserver os sz) es = (s, outs) \<Longrightarrow> distinct os \<Longrightarrow> Some n \<in> set os \<Longrightarrow>
     \<forall>x. AddObserver x \<notin> set es \<Longrightarrow>
     subseq (received n outs @ oqueue s) (announced es) \<and> length (oqueue s) \<le> ocap s"
  using orun_delivers [of "NewTaskObserver os sz" es s outs n]
    tobs.run_inv [of "NewTaskObserver os sz" es]
  by (simp add: NewTaskObserver_def obs_inv_def)

theorem task_observer_subsequence_witness:
  "subseq (received 1 [(1, \<lparr>ev_processor = ''p'', ev_frame = hello, ev_dir = Downstream\<rparr>)] @ [])
     (announced [OnFrameProcessed \<lparr>ev_processor = ''p'', ev_frame = hello, ev_dir = Downstream\<rparr>,
        OnFrameProcessed \<lparr>ev_processor = ''q'', ev_frame = hello, ev_dir = Downstream\<rparr>, DrainOne])"
  using task_observer_subsequence [of "[Some 1, None]" 1
      "[OnFrameProcessed \<lparr>ev_processor = ''p'', ev_frame = hello, ev_dir = Downstream\<rparr>,
        OnFrameProcessed \<lparr>ev_processor = ''q'', ev_frame = hello, ev_dir = Downstream\<rparr>, DrainOne]"
      "fst (run ostep (NewTaskObserver [Some 1, None] 1)
        [OnFrameProcessed \<lparr>ev_processor = ''p'', ev_frame = hello, ev_dir = Downstream\<rparr>,
        OnFrameProcessed \<lparr>ev_processor = ''q'', ev_frame = hello, ev_dir = Downstream\<rparr>, DrainOne])"
      "[(1, \<lparr>ev_processor = ''p'', ev_frame = hello, ev_dir = Downstream\<rparr>)]" 1]
  by (simp add: NewTaskObserver_def notify_all_def)

end
