(* ===== verification/Parallel.thy ===== *)
theory Parallel
  imports Chain "HOL-Library.Multiset"
begin

text \<open>
  \<^verbatim>\<open>pkg/pipeline/parallel.go\<close>, \<^verbatim>\<open>sync_parallel.go\<close> and \<^verbatim>\<open>service_switcher.go\<close>. What a branch
  does with a frame is given by what it emits at its sink; frames emitted from a branch are not
  nil (their id is read). The processor behind the pipeline answers through \<open>rsp\<close>.
\<close>

section \<open>ParallelPipeline\<close>

definition parallelIsLifecycleFrame :: "frame option \<Rightarrow> bool" where
  "parallelIsLifecycleFrame f =
     (case f of None \<Rightarrow> False
      | Some g \<Rightarrow> (case fbody g of StartFrame _ _ _ _ _ \<Rightarrow> True | EndFrame \<Rightarrow> True
          | CancelFrame _ \<Rightarrow> True | _ \<Rightarrow> False))"

abbreviation lifecycle :: "frame \<Rightarrow> bool" where
  "lifecycle f \<equiv> parallelIsLifecycleFrame (Some f)"

record parallel =
  nbranches :: nat
  has_next :: bool
  has_prev :: bool
  sync_id :: u64
  counter :: int
  synchronizing :: bool
  buffered :: "frame list"
  seen_ids :: "u64 set"

definition NewParallelPipeline :: "nat \<Rightarrow> err + parallel" where
  "NewParallelPipeline n =
     (if n = 0 then Inl ''ParallelPipeline needs at least one branch''
      else Inr \<lparr>nbranches = n, has_next = False, has_prev = False, sync_id = 0, counter = 0,
        synchronizing = False, buffered = [], seen_ids = {}\<rparr>)"

text \<open>\<open>to_next\<close> is a call of the next processor when there is one.\<close>

definition to_next :: "parallel \<Rightarrow> frame list \<Rightarrow> frame list" where
  "to_next s fs = (if has_next s then fs else [])"

definition onDownstreamFromBranch ::
  "(frame \<Rightarrow> bool) option \<Rightarrow> (frame \<Rightarrow> err option) \<Rightarrow> parallel \<Rightarrow> frame
     \<Rightarrow> parallel \<times> frame list \<times> err option" where
  "onDownstreamFromBranch flt rsp s f =
     (if lifecycle f
      then (if frame_id f = sync_id s \<and> synchronizing s
            then (let s1 = s\<lparr>counter := counter s - 1\<rparr> in
                  if counter s1 = 0
                  then (s1\<lparr>synchronizing := False, buffered := []\<rparr>,
                        to_next s (f # buffered s), None)
                  else (s1, [], None))
            else (s, [], None))
      else if synchronizing s then (s\<lparr>buffered := buffered s @ [f]\<rparr>, [], None)
      else if frame_id f \<in> seen_ids s then (s, [], None)
      else if flt \<noteq> None \<and> \<not> the flt f then (s, [], None)
      else (let s1 = s\<lparr>seen_ids := insert (frame_id f) (seen_ids s)\<rparr> in
            (s1, to_next s1 [f], if has_next s1 then rsp f else None)))"

text \<open>One push into the branches: each entry is what a branch emits while it handles the frame and
  the error its \<^verbatim>\<open>Push\<close> returns; an error ends the loop over the branches.\<close>

type_synonym reaction = "frame list \<times> err option"

fun emissions ::
  "(frame \<Rightarrow> bool) option \<Rightarrow> (frame \<Rightarrow> err option) \<Rightarrow> parallel \<Rightarrow> frame list
     \<Rightarrow> parallel \<times> frame list" where
  "emissions flt rsp s [] = (s, [])"
| "emissions flt rsp s (f # fs) =
     (let (s1, o1, _) = onDownstreamFromBranch flt rsp s f; (s2, o2) = emissions flt rsp s1 fs
      in (s2, o1 @ o2))"

fun ParallelPush ::
  "(frame \<Rightarrow> bool) option \<Rightarrow> (frame \<Rightarrow> err option) \<Rightarrow> parallel \<Rightarrow> reaction list
     \<Rightarrow> parallel \<times> frame list \<times> err option" where
  "ParallelPush flt rsp s [] = (s, [], None)"
| "ParallelPush flt rsp s ((fs, e) # rs) =
     (let (s1, o1) = emissions flt rsp s fs in
      if e \<noteq> None then (s1, o1, e)
      else (let (s2, o2, e2) = ParallelPush flt rsp s1 rs in (s2, o1 @ o2, e2)))"

definition mark_lifecycle :: "parallel \<Rightarrow> frame \<Rightarrow> parallel" where
  "mark_lifecycle s f =
     (if lifecycle f
      then s\<lparr>sync_id := frame_id f, counter := int (nbranches s), synchronizing := True\<rparr>
      else s)"

text \<open>\<^verbatim>\<open>ProcessFrame\<close>: an upstream frame goes to the previous processor (second component), a
  downstream one into every branch.\<close>

definition ParallelProcessFrame ::
  "(frame \<Rightarrow> bool) option \<Rightarrow> (frame \<Rightarrow> err option) \<Rightarrow> (frame \<Rightarrow> err option) \<Rightarrow> parallel \<Rightarrow> frame
     \<Rightarrow> direction \<Rightarrow> reaction list \<Rightarrow> parallel \<times> frame list \<times> frame list \<times> err option" where
  "ParallelProcessFrame flt rsp prsp s f d rs =
     (if d = Upstream
      then (if has_prev s then (s, [f], [], prsp f) else (s, [], [], None))
      else (let (s1, os, e) = ParallelPush flt rsp (mark_lifecycle s f) rs in (s1, [], os, e)))"

definition onUpstreamFromBranch ::
  "(frame \<Rightarrow> err option) \<Rightarrow> parallel \<Rightarrow> frame \<Rightarrow> frame list \<times> err option" where
  "onUpstreamFromBranch prsp s f = (if has_prev s then ([f], prsp f) else ([], None))"

subsection \<open>Deduplication\<close>

lemma emissions_append:
  "emissions flt rsp s (xs @ ys) =
     (let (s1, o1) = emissions flt rsp s xs; (s2, o2) = emissions flt rsp s1 ys in (s2, o1 @ o2))"
  by (induction xs arbitrary: s) (auto simp: Let_def split: prod.splits)

text \<open>First occurrences, by id, of the frames the filter admits.\<close>

fun first_by_id :: "(frame \<Rightarrow> bool) option \<Rightarrow> u64 set \<Rightarrow> frame list \<Rightarrow> frame list" where
  "first_by_id flt seen [] = []"
| "first_by_id flt seen (f # fs) =
     (if frame_id f \<in> seen \<or> (flt \<noteq> None \<and> \<not> the flt f) then first_by_id flt seen fs
      else f # first_by_id flt (insert (frame_id f) seen) fs)"

lemma first_by_id_distinct:
  "distinct (map frame_id (first_by_id flt seen fs)) \<and>
   frame_id ` set (first_by_id flt seen fs) \<inter> seen = {} \<and> set (first_by_id flt seen fs) \<subseteq> set fs"
  by (induction flt seen fs rule: first_by_id.induct) auto

lemma emissions_data:
  "\<not> synchronizing s \<Longrightarrow> has_next s \<Longrightarrow> list_all (\<lambda>f. \<not> lifecycle f) fs \<Longrightarrow>
     snd (emissions flt rsp s fs) = first_by_id flt (seen_ids s) fs \<and>
     (\<exists>ids. fst (emissions flt rsp s fs) = s\<lparr>seen_ids := ids\<rparr>)"
proof (induction fs arbitrary: s)
  case Nil
  then show ?case by (auto intro: exI [of _ "seen_ids s"])
next
  case (Cons f fs)
  note IH = Cons.IH [of s] Cons.IH [of "s\<lparr>seen_ids := insert (frame_id f) (seen_ids s)\<rparr>"]
  show ?case
    using Cons.prems IH
    by (auto simp: onDownstreamFromBranch_def to_next_def Let_def split: prod.splits)
qed

lemma ParallelPush_ok:
  "list_all (\<lambda>(_, e). e = None) rs \<Longrightarrow>
     ParallelPush flt rsp s rs =
       (let (s', os) = emissions flt rsp s (concat (map fst rs)) in (s', os, None))"
  by (induction rs arbitrary: s) (auto simp: emissions_append Let_def split: prod.splits)

text \<open>A data frame pushed through branches that do not fail comes out as the branches' emissions in
  branch order without repetitions: the first frame of each id not seen before and admitted by the
  output filter, each id at most once, and nothing the branches did not emit.\<close>

theorem parallel_deduplicates:
  "\<not> lifecycle f \<Longrightarrow> \<not> synchronizing s \<Longrightarrow> has_next s \<Longrightarrow> list_all (\<lambda>(_, e). e = None) rs \<Longrightarrow>
     list_all (\<lambda>g. \<not> lifecycle g) (concat (map fst rs)) \<Longrightarrow>
     ParallelProcessFrame flt rsp prsp s f Downstream rs = (s', up, os, e) \<Longrightarrow>
     os = first_by_id flt (seen_ids s) (concat (map fst rs)) \<and> up = [] \<and> e = None \<and>
     distinct (map frame_id os) \<and> frame_id ` set os \<inter> seen_ids s = {} \<and> \<not> synchronizing s'"
  using emissions_data [of s "concat (map fst rs)" flt rsp]
    first_by_id_distinct [of flt "seen_ids s" "concat (map fst rs)"]
  by (auto simp: ParallelProcessFrame_def mark_lifecycle_def ParallelPush_ok Let_def
      split: prod.splits)

subsection \<open>Synchronisation\<close>

lemma emissions_sync_data:
  "synchronizing s \<Longrightarrow> list_all (\<lambda>f. \<not> lifecycle f) fs \<Longrightarrow>
     emissions flt rsp s fs = (s\<lparr>buffered := buffered s @ fs\<rparr>, [])"
  by (induction fs arbitrary: s) (auto simp: onDownstreamFromBranch_def)

lemma emissions_pass:
  assumes "synchronizing s" "lifecycle f" "frame_id f = sync_id s" "counter s > 1"
    "list_all (\<lambda>g. \<not> lifecycle g) (pre @ post)"
  shows "emissions flt rsp s (pre @ f # post) =
    (s\<lparr>counter := counter s - 1, buffered := buffered s @ pre @ post\<rparr>, [])"
  using assms
  by (simp add: emissions_append emissions_sync_data onDownstreamFromBranch_def Let_def)

lemma emissions_last:
  assumes "synchronizing s" "lifecycle f" "frame_id f = sync_id s" "counter s = 1" "has_next s"
    "list_all (\<lambda>g. \<not> lifecycle g) (pre @ post)"
  shows "snd (emissions flt rsp s (pre @ f # post)) = f # buffered s @ pre @ first_by_id flt (seen_ids s) post \<and>
    (\<exists>ids. fst (emissions flt rsp s (pre @ f # post)) =
      s\<lparr>counter := 0, synchronizing := False, buffered := [], seen_ids := ids\<rparr>)"
proof -
  let ?s = "s\<lparr>counter := 0, synchronizing := False, buffered := []\<rparr>"
  have "emissions flt rsp s (pre @ f # post) =
      (fst (emissions flt rsp ?s post), f # buffered s @ pre @ snd (emissions flt rsp ?s post))"
    using assms
    by (simp add: emissions_append emissions_sync_data onDownstreamFromBranch_def Let_def to_next_def case_prod_beta)
  with emissions_data [of ?s post flt rsp] assms(5,6) show ?thesis by auto
qed

lemma emissions_all_pass:
  assumes "synchronizing s" "lifecycle f" "frame_id f = sync_id s" "has_next s"
    "counter s = int (length bs) + 1"
    "list_all (\<lambda>(pre, post). list_all (\<lambda>g. \<not> lifecycle g) (pre @ post)) bs"
    "list_all (\<lambda>g. \<not> lifecycle g) (pre @ post)"
  shows "snd (emissions flt rsp s (concat (map (\<lambda>(pre, post). pre @ f # post) bs) @ pre @ f # post)) =
      f # buffered s @ concat (map (\<lambda>(pre, post). pre @ post) bs) @ pre @ first_by_id flt (seen_ids s) post \<and>
    (\<exists>ids. fst (emissions flt rsp s (concat (map (\<lambda>(pre, post). pre @ f # post) bs) @ pre @ f # post)) =
      s\<lparr>counter := 0, synchronizing := False, buffered := [], seen_ids := ids\<rparr>)"
  using assms
proof (induction bs arbitrary: s)
  case Nil
  then show ?case using emissions_last [of s f pre post flt rsp] by simp
next
  case (Cons b bs)
  obtain p q where b: "b = (p, q)" by fastforce
  let ?s = "s\<lparr>counter := counter s - 1, buffered := buffered s @ p @ q\<rparr>"
  let ?r = "concat (map (\<lambda>(pre, post). pre @ f # post) bs) @ pre @ f # post"
  have 1: "emissions flt rsp s (p @ f # q) = (?s, [])"
    using Cons.prems by (intro emissions_pass) (auto simp: b)
  have "emissions flt rsp s ((p @ f # q) @ ?r) = emissions flt rsp ?s ?r"
    by (simp only: emissions_append [of flt rsp s "p @ f # q" ?r] 1) (simp add: case_prod_beta)
  moreover have "snd (emissions flt rsp ?s ?r) =
      f # buffered ?s @ concat (map (\<lambda>(pre, post). pre @ post) bs) @ pre @ first_by_id flt (seen_ids ?s) post \<and>
    (\<exists>ids. fst (emissions flt rsp ?s ?r) =
      ?s\<lparr>counter := 0, synchronizing := False, buffered := [], seen_ids := ids\<rparr>)"
    using Cons.prems by (intro Cons.IH) (auto simp: b)
  ultimately show ?case by (simp add: b)
qed

text \<open>C19: When no branch fails and every branch passes a lifecycle frame on exactly once, among data frames of
  its own before and after it, the frame is forwarded exactly once, at the moment the last branch
  passes it. It comes before all that was held back: what the earlier branches emitted around it and
  what the last one emitted before it, in emission order with none missing and no output filter. What
  the last branch emits after it is no longer held back and passes the deduplication and the output
  filter, which may drop it. The pipeline is then out of synchronisation mode with an empty buffer.\<close>

theorem parallel_synchronises:
  assumes "lifecycle f" "has_next s" "nbranches s = Suc (length bs)"
    "list_all (\<lambda>(pre, post). list_all (\<lambda>g. \<not> lifecycle g) (pre @ post)) bs"
    "list_all (\<lambda>g. \<not> lifecycle g) (pre @ post)"
    "ParallelProcessFrame flt rsp prsp s f Downstream
       (map (\<lambda>(p, q). (p @ f # q, None)) bs @ [(pre @ f # post, None)]) = (s', up, os, e)"
  shows "os = f # buffered s @ concat (map (\<lambda>(p, q). p @ q) bs) @ pre @ first_by_id flt (seen_ids s) post \<and>
    e = None \<and> \<not> synchronizing s' \<and> buffered s' = []"
proof -
  let ?m = "mark_lifecycle s f"
  have m: "synchronizing ?m" "frame_id f = sync_id ?m" "has_next ?m" "buffered ?m = buffered s"
    "counter ?m = int (length bs) + 1" "seen_ids ?m = seen_ids s"
    using assms(1-3) by (simp_all add: mark_lifecycle_def)
  have c: "concat (map fst (map (\<lambda>(p, q). (p @ f # q, None)) bs @ [(pre @ f # post, None)])) =
      concat (map (\<lambda>(pre, post). pre @ f # post) bs) @ pre @ f # post"
    by (simp add: comp_def case_prod_unfold)
  have n: "list_all (\<lambda>(_, e). e = None) (map (\<lambda>(p, q). (p @ f # q, None)) bs @ [(pre @ f # post, None)])"
    by (auto simp: list_all_iff)
  from emissions_all_pass [OF m(1) assms(1) m(2,3,5) assms(4,5), of flt rsp] assms(6)
  show ?thesis
    unfolding ParallelProcessFrame_def ParallelPush_ok [OF n] c using m(4,6) by (auto simp: Let_def split: prod.splits)
qed

definition sync_hits :: "parallel \<Rightarrow> frame list \<Rightarrow> nat" where
  "sync_hits s fs = length (filter (\<lambda>g. lifecycle g \<and> frame_id g = sync_id s) fs)"

lemma emissions_stall:
  "synchronizing s \<Longrightarrow> int (sync_hits s fs) < counter s \<Longrightarrow>
     snd (emissions flt rsp s fs) = [] \<and> synchronizing (fst (emissions flt rsp s fs)) \<and>
     sync_id (fst (emissions flt rsp s fs)) = sync_id s \<and>
     counter (fst (emissions flt rsp s fs)) = counter s - int (sync_hits s fs)"
proof (induction fs arbitrary: s)
  case Nil
  then show ?case by (simp add: sync_hits_def)
next
  case (Cons f fs)
  let ?s = "fst (onDownstreamFromBranch flt rsp s f)"
  have 1: "synchronizing ?s" "sync_id ?s = sync_id s" "fst (snd (onDownstreamFromBranch flt rsp s f)) = []"
    "counter ?s = counter s - (if lifecycle f \<and> frame_id f = sync_id s then 1 else 0)"
    using Cons.prems by (auto simp: onDownstreamFromBranch_def sync_hits_def Let_def)
  have 2: "int (sync_hits ?s fs) < counter ?s"
    using Cons.prems(2) 1 by (auto simp: sync_hits_def)
  have 3: "sync_hits s (f # fs) = (if lifecycle f \<and> frame_id f = sync_id s then 1 else 0) + sync_hits ?s fs"
    by (simp add: sync_hits_def 1)
  from Cons.IH [OF 1(1) 2] 1 show ?case
    unfolding 3 by (simp add: case_prod_beta Let_def)
qed

text \<open>When a lifecycle frame reaches fewer sinks than there are branches (a branch drops it), the
  pipeline goes silent: neither the frame nor anything any branch emits afterwards is forwarded, and
  it stays in synchronisation mode until another lifecycle frame arrives.\<close>

theorem parallel_lost_lifecycle_silences:
  assumes "lifecycle f" "list_all (\<lambda>(_, e). e = None) rs"
    "length (filter (\<lambda>g. lifecycle g \<and> frame_id g = frame_id f) (concat (map fst rs))) < nbranches s"
    "ParallelProcessFrame flt rsp prsp s f Downstream rs = (s', up, os, e)"
    "list_all (\<lambda>g. \<not> lifecycle g) later"
  shows "os = [] \<and> snd (emissions flt rsp s' later) = [] \<and>
    synchronizing (fst (emissions flt rsp s' later))"
proof -
  let ?m = "mark_lifecycle s f" and ?fs = "concat (map fst rs)"
  have m: "synchronizing ?m" "sync_id ?m = frame_id f" "counter ?m = int (nbranches s)"
    using assms(1) by (simp_all add: mark_lifecycle_def)
  have st: "snd (emissions flt rsp ?m ?fs) = []" "synchronizing (fst (emissions flt rsp ?m ?fs))"
    using emissions_stall [OF m(1), of ?fs flt rsp] assms(3) m by (simp_all add: sync_hits_def)
  have "os = snd (emissions flt rsp ?m ?fs)" "s' = fst (emissions flt rsp ?m ?fs)"
    using assms(4) unfolding ParallelProcessFrame_def ParallelPush_ok [OF assms(2)]
    by (auto simp: Let_def case_prod_beta)
  with st emissions_sync_data [OF _ assms(5), of s' flt rsp] show ?thesis by simp
qed

section \<open>SyncParallelPipeline\<close>

definition syncParallelIsSyncFrame :: "frame \<Rightarrow> bool" where
  "syncParallelIsSyncFrame f = (fbody f = SyncFrame)"

text \<open>The channels hold what has arrived and was not read; the frame is followed by a sync frame.
  Reading a channel that runs empty before a sync frame blocks (\<open>None\<close>) until the context ends.\<close>

record sync_parallel =
  sp_chans :: "frame list list"
  sp_seen :: "u64 set"
  sp_has_next :: bool

definition NewSyncParallelPipeline :: "nat \<Rightarrow> err + sync_parallel" where
  "NewSyncParallelPipeline n =
     (if n = 0 then Inl ''SyncParallelPipeline needs at least one branch''
      else Inr \<lparr>sp_chans = replicate n [], sp_seen = {}, sp_has_next = False\<rparr>)"

fun collect_branch :: "frame list \<Rightarrow> (frame list \<times> frame list) option" where
  "collect_branch [] = None"
| "collect_branch (f # fs) =
     (if syncParallelIsSyncFrame f then Some ([], fs)
      else (case collect_branch fs of None \<Rightarrow> None | Some (c, r) \<Rightarrow> Some (f # c, r)))"

fun collect_all :: "frame list list \<Rightarrow> (frame list \<times> frame list list) option" where
  "collect_all [] = Some ([], [])"
| "collect_all (ch # chs) =
     (case collect_branch ch of
        None \<Rightarrow> None
      | Some (c, r) \<Rightarrow>
          (case collect_all chs of None \<Rightarrow> None | Some (cs, rs) \<Rightarrow> Some (c @ cs, r # rs)))"

text \<open>\<open>arrived\<close> is what the sinks of the branches add to their channels during the two rounds of
  pushes. On a start frame the ids are forgotten after forwarding.\<close>

definition SyncProcessFrame ::
  "sync_parallel \<Rightarrow> frame \<Rightarrow> frame list list \<Rightarrow> (sync_parallel \<times> frame list) option" where
  "SyncProcessFrame s f arrived =
     (case collect_all (map2 (@) (sp_chans s) arrived) of
        None \<Rightarrow> None
      | Some (cs, rests) \<Rightarrow>
          (let out = first_by_id None (sp_seen s) cs;
               start = (case fbody f of StartFrame _ _ _ _ _ \<Rightarrow> True | _ \<Rightarrow> False)
           in Some (s\<lparr>sp_chans := rests,
                      sp_seen := if start then {} else sp_seen s \<union> frame_id ` set cs\<rparr>,
                    if sp_has_next s then out else [])))"

lemma collect_branch_sync:
  "list_all (\<lambda>g. \<not> syncParallelIsSyncFrame g) fs \<Longrightarrow> syncParallelIsSyncFrame y \<Longrightarrow>
     collect_branch (fs @ y # r) = Some (fs, r)"
  by (induction fs) auto

lemma collect_all_sync:
  "list_all (list_all (\<lambda>g. \<not> syncParallelIsSyncFrame g)) ems \<Longrightarrow> syncParallelIsSyncFrame y \<Longrightarrow>
     collect_all (map (\<lambda>fs. fs @ [y]) ems) = Some (concat ems, map (\<lambda>_. []) ems)"
  by (induction ems) (auto simp: collect_branch_sync)

lemma map2_empty_chans:
  "length ems = length chs \<Longrightarrow> \<forall>ch \<in> set chs. ch = [] \<Longrightarrow> map2 (@) chs (map g ems) = map g ems"
  by (induction ems chs rule: list_induct2) auto

text \<open>If every branch's sink delivers in the order it was called, a round forwards exactly the first
  occurrences by id of everything the branches emitted for the frame, in branch order, leaves the
  channels empty for the next round and does not block.\<close>

theorem sync_parallel_round:
  assumes "length ems = length (sp_chans s)" "\<forall>ch \<in> set (sp_chans s). ch = []" "sp_has_next s"
    "list_all (list_all (\<lambda>g. \<not> syncParallelIsSyncFrame g)) ems" "syncParallelIsSyncFrame y"
  shows "\<exists>s'. SyncProcessFrame s f (map (\<lambda>fs. fs @ [y]) ems) =
      Some (s', first_by_id None (sp_seen s) (concat ems)) \<and>
    (\<forall>ch \<in> set (sp_chans s'). ch = []) \<and> length (sp_chans s') = length (sp_chans s)"
proof -
  have "map2 (@) (sp_chans s) (map (\<lambda>fs. fs @ [y]) ems) = map (\<lambda>fs. fs @ [y]) ems"
    using assms(1,2) by (simp add: map2_empty_chans)
  then show ?thesis
    using assms collect_all_sync [OF assms(4,5)] by (auto simp: SyncProcessFrame_def Let_def)
qed

definition sample_frame :: frame where
  "sample_frame = fst (NewTextFrame ''hi'' 6)"

definition sync_mark :: frame where
  "sync_mark = fst (NewSyncFrame 7)"

text \<open>Each sink sends from its own goroutine, so arrival order is any permutation of the sends, and
  then the round does depend on it: with the sync frame first, the branch's output is not
  forwarded with its frame but left behind in the channel.\<close>

theorem sync_parallel_order_matters:
  "\<exists>arrived s s'. mset arrived = mset [sample_frame, sync_mark] \<and> sp_has_next s \<and>
     SyncProcessFrame s sample_frame [arrived] = Some (s', []) \<and> sp_chans s' = [[sample_frame]]"
  by (intro exI [of _ "[sync_mark, sample_frame]"]
      exI [of _ "\<lparr>sp_chans = [[]], sp_seen = {}, sp_has_next = True\<rparr>"]
      exI [of _ "\<lparr>sp_chans = [[sample_frame]], sp_seen = {}, sp_has_next = True\<rparr>"])
    (simp add: SyncProcessFrame_def syncParallelIsSyncFrame_def sample_frame_def sync_mark_def
      NewTextFrame_def NewSyncFrame_def mk_frame_def NewBase_def)

section \<open>ServiceSwitcher\<close>

text \<open>What a switcher asks of its strategy.\<close>

locale switch_strategy =
  fixes active :: "'s \<Rightarrow> string"
    and handle :: "'s \<Rightarrow> string \<Rightarrow> 's \<times> bool"
    and valid :: "'s \<Rightarrow> string \<Rightarrow> bool"
    and good :: "'s \<Rightarrow> bool"
  assumes handle_valid: "good s \<Longrightarrow> handle s nm = (s', b) \<Longrightarrow>
      good s' \<and> valid s' = valid s \<and> b = valid s nm \<and> active s' = (if valid s nm then nm else active s)"
begin

text \<open>The active service is the last valid request, or the initial one.\<close>

lemma active_foldl:
  "good s \<Longrightarrow> active (foldl (\<lambda>s nm. fst (handle s nm)) s nms) =
     last (active s # filter (valid s) nms)"
proof (induction nms arbitrary: s)
  case Nil
  then show ?case by simp
next
  case (Cons nm nms)
  obtain s' b where h: "handle s nm = (s', b)" by fastforce
  from handle_valid [OF Cons.prems h] Cons.IH [of s'] h show ?case by auto
qed

end

record manual_strategy =
  service_names :: "string list"
  active_index :: int

text \<open>The constructor panics on an empty list.\<close>

definition NewServiceSwitcherStrategyManual :: "string list \<Rightarrow> manual_strategy option" where
  "NewServiceSwitcherStrategyManual ns =
     (if ns = [] then None else Some \<lparr>service_names = ns, active_index = 0\<rparr>)"

definition ActiveServiceName :: "manual_strategy \<Rightarrow> string" where
  "ActiveServiceName s =
     (if active_index s < 0 \<or> active_index s \<ge> int (length (service_names s)) then []
      else service_names s ! nat (active_index s))"

fun find_name :: "string list \<Rightarrow> string \<Rightarrow> int \<Rightarrow> int option" where
  "find_name [] nm i = None"
| "find_name (n # ns) nm i = (if n = nm then Some i else find_name ns nm (i + 1))"

definition handle_switch :: "manual_strategy \<Rightarrow> string \<Rightarrow> manual_strategy \<times> bool" where
  "handle_switch s nm =
     (case find_name (service_names s) nm 0 of
        Some i \<Rightarrow> (s\<lparr>active_index := i\<rparr>, True)
      | None \<Rightarrow> (s, False))"

definition StrategyHandleFrame :: "manual_strategy \<Rightarrow> frame option \<Rightarrow> manual_strategy \<times> bool" where
  "StrategyHandleFrame s f =
     (case f of Some g \<Rightarrow> (case fbody g of ManuallySwitchServiceFrame nm \<Rightarrow> handle_switch s nm
                            | _ \<Rightarrow> (s, False))
      | None \<Rightarrow> (s, False))"

lemma find_name_Some:
  "find_name ns nm i = Some j \<Longrightarrow> i \<le> j \<and> nat (j - i) < length ns \<and> ns ! nat (j - i) = nm"
proof (induction ns nm i rule: find_name.induct)
  case (2 n ns nm i)
  show ?case
  proof (cases "n = nm")
    case True
    with 2 show ?thesis by simp
  next
    case False
    with 2 have "i + 1 \<le> j" "nat (j - (i + 1)) < length ns" "ns ! nat (j - (i + 1)) = nm" by auto
    moreover then have "nat (j - i) = Suc (nat (j - (i + 1)))" by simp
    ultimately show ?thesis by simp
  qed
qed simp

lemma find_name_None: "find_name ns nm i = None \<longleftrightarrow> nm \<notin> set ns"
  by (induction ns nm i rule: find_name.induct) auto

interpretation manual: switch_strategy ActiveServiceName handle_switch
  "\<lambda>s nm. nm \<in> set (service_names s)"
  "\<lambda>s. 0 \<le> active_index s \<and> active_index s < int (length (service_names s))"
proof
  fix s s' :: manual_strategy and nm b
  assume "0 \<le> active_index s \<and> active_index s < int (length (service_names s))"
    and "handle_switch s nm = (s', b)"
  then show "(0 \<le> active_index s' \<and> active_index s' < int (length (service_names s'))) \<and>
      (\<lambda>nm. nm \<in> set (service_names s')) = (\<lambda>nm. nm \<in> set (service_names s)) \<and>
      b = (nm \<in> set (service_names s)) \<and>
      ActiveServiceName s' = (if nm \<in> set (service_names s) then nm else ActiveServiceName s)"
    using find_name_None [of "service_names s" nm 0] find_name_Some [of "service_names s" nm 0]
    by (auto simp: handle_switch_def ActiveServiceName_def split: option.splits)
qed

text \<open>After any sequence of switch requests the active service is the last requested name that is in
  the list, or the first service if there was none; unknown names are ignored.\<close>

theorem switcher_active_is_last_valid:
  "NewServiceSwitcherStrategyManual ns = Some s \<Longrightarrow>
     ActiveServiceName (foldl (\<lambda>s nm. fst (handle_switch s nm)) s reqs) =
       last (hd ns # filter (\<lambda>nm. nm \<in> set ns) reqs)"
  using manual.active_foldl [of s reqs]
  by (auto simp: NewServiceSwitcherStrategyManual_def ActiveServiceName_def hd_conv_nth
      split: if_splits)

theorem switcher_active_is_last_valid_witness:
  "ActiveServiceName (foldl (\<lambda>s nm. fst (handle_switch s nm))
      \<lparr>service_names = [''a'', ''b''], active_index = 0\<rparr> [''b'', ''c'']) = ''b''"
  using switcher_active_is_last_valid [of "[''a'', ''b'']"
      "\<lparr>service_names = [''a'', ''b''], active_index = 0\<rparr>" "[''b'', ''c'']"]
  by (simp add: NewServiceSwitcherStrategyManual_def)

subsection \<open>The switcher's branches\<close>

text \<open>The two gates of a branch read the active name when a frame arrives.\<close>

definition gate_down :: "string \<Rightarrow> string \<Rightarrow> frame option \<Rightarrow> direction \<Rightarrow> bool" where
  "gate_down act nm f d = (d = Downstream \<and> act = nm)"

definition gate_up :: "string \<Rightarrow> string \<Rightarrow> frame option \<Rightarrow> direction \<Rightarrow> bool" where
  "gate_up act nm f d = (d = Upstream \<and> act = nm)"

text \<open>The cells of branch \<open>i\<close> around the service at address \<open>svc\<close>: source, gate, service, gate,
  sink, as \<^verbatim>\<open>NewServiceSwitcher\<close> and \<^verbatim>\<open>NewParallelPipeline\<close> build them.\<close>

definition switcher_cells :: "string \<Rightarrow> string \<Rightarrow> nat \<Rightarrow> store \<Rightarrow> store" where
  "switcher_cells act nm svc st =
     st(svc + 1 := NewPipelineSource ''ParallelPipeline::Source'' (Some svc),
        svc + 2 := NewFilterProcessor (''ServiceSwitcher::FilterDown::'' @ nm) (Some (gate_down act nm)),
        svc + 3 := NewFilterProcessor (''ServiceSwitcher::FilterUp::'' @ nm) (Some (gate_up act nm)),
        svc + 4 := NewPipelineSinkCallback ''ParallelPipeline::Sink'' (Some svc))"

definition switcher_branch :: "string \<Rightarrow> string \<Rightarrow> nat \<Rightarrow> store \<Rightarrow> store \<times> pipeline" where
  "switcher_branch act nm svc st =
     Link (switcher_cells act nm svc st, NewPipeline) [svc + 1, svc + 2, svc, svc + 3, svc + 4]"

definition NewServiceSwitcher :: "string list \<Rightarrow> manual_strategy option \<Rightarrow> err + parallel" where
  "NewServiceSwitcher names strategy =
     (if names = [] then Inl ''ServiceSwitcher needs at least one service''
      else if strategy = None then Inl ''ServiceSwitcher needs a strategy''
      else NewParallelPipeline (length names))"

definition switcher_output_filter :: "string \<Rightarrow> frame \<Rightarrow> bool" where
  "switcher_output_filter act f =
     (case fbody f of
        ServiceSwitcherRequestMetadataFrame nm \<Rightarrow> nm \<noteq> act
      | ServiceMetadataFrame nm _ \<Rightarrow> nm = act
      | _ \<Rightarrow> True)"

text \<open>\<^verbatim>\<open>ServiceSwitcher.ProcessFrame\<close> decides what happens to a frame: up, a switch with the
  metadata request it pushes into the branches, or the parallel pipeline.\<close>

datatype switch_act = ToPrev | Ignored | RequestMetadata frame | ToBranches

definition SwitcherProcessFrame ::
  "manual_strategy \<Rightarrow> frame option \<Rightarrow> direction \<Rightarrow> bool \<Rightarrow> u64 \<Rightarrow> manual_strategy \<times> switch_act \<times> u64"
where
  "SwitcherProcessFrame s f d prev ids =
     (if d = Upstream then (s, if prev then ToPrev else Ignored, ids)
      else (case f of
          Some g \<Rightarrow> (case fbody g of
              ManuallySwitchServiceFrame _ \<Rightarrow>
                (let (s', switched) = StrategyHandleFrame s f in
                 if switched
                 then (let (m, ids') = mk_frame
                             (ServiceSwitcherRequestMetadataFrame (ActiveServiceName s')) ids
                       in (s', RequestMetadata m, ids'))
                 else (s', Ignored, ids))
            | _ \<Rightarrow> (s, ToBranches, ids))
        | None \<Rightarrow> (s, ToBranches, ids)))"

lemma switcher_branch_links:
  assumes "switcher_branch act nm svc st = (st', pl)"
  shows "linked st' [svc + 1, svc + 2, svc, svc + 3, svc + 4]"
    "procs pl = [svc + 1, svc + 2, svc, svc + 3, svc + 4]"
    "kind (st' a) = kind (switcher_cells act nm svc st a)"
  using Link_new [OF _ assms [unfolded switcher_branch_def]] by auto

text \<open>A switcher branch is mute in both directions, whatever the service does. A pushed frame
  reaches the service exactly when the service is active; but a frame the service pushes downstream
  stops at the second gate, which admits only upstream frames, and one it pushes upstream stops at
  the first gate, which admits only downstream frames. Neither callback is ever reached.\<close>

theorem switcher_branch_is_mute:
  assumes "switcher_branch act nm svc st = (st', pl)" "kind (st svc) = KOther" "n \<ge> 3"
  shows "Push n st' rsp pl f =
      (if act = nm then Some ([Handled svc f Downstream], rsp (Handled svc f Downstream))
       else Some ([], None)) \<and>
    nxt (st' svc) = Some (svc + 3) \<and> process_frame n st' rsp (svc + 3) g Downstream = Some ([], None) \<and>
    prv (st' svc) = Some (svc + 2) \<and> process_frame n st' rsp (svc + 2) g Upstream = Some ([], None)"
proof -
  obtain k where n: "n = Suc (Suc (Suc k))" using le_Suc_ex [OF assms(3)] by auto
  note l = switcher_branch_links [OF assms(1)]
  have k: "kind (st' (svc + 1)) = KPipelineSource (Some svc)"
    "kind (st' (svc + 2)) = KFilter (Some (gate_down act nm))" "kind (st' svc) = KOther"
    "kind (st' (svc + 3)) = KFilter (Some (gate_up act nm))"
    by (simp_all add: l(3) switcher_cells_def NewPipelineSource_def NewFilterProcessor_def
        new_cell_def assms(2))
  have p: "nxt (st' (svc + 1)) = Some (svc + 2)" "nxt (st' (svc + 2)) = Some svc"
    "nxt (st' svc) = Some (svc + 3)" "prv (st' svc) = Some (svc + 2)"
    using l(1) by (simp_all add: linked_def)
  have 1: "Push n st' rsp pl f =
      (if act = nm then Some ([Handled svc f Downstream], rsp (Handled svc f Downstream))
       else Some ([], None))"
    using k p by (simp add: n Push_def l(2) run_action_def inject_def action_of_def
        source_action_def filter_action_def gate_down_def)
  moreover have 2: "nxt (st' svc) = Some (svc + 3) \<and> process_frame n st' rsp (svc + 3) g Downstream = Some ([], None)"
    using k p by (simp add: n action_of_def filter_action_def gate_up_def)
  moreover have 3: "prv (st' svc) = Some (svc + 2) \<and> process_frame n st' rsp (svc + 2) g Upstream = Some ([], None)"
    using k p by (simp add: n action_of_def filter_action_def gate_down_def)
  ultimately show ?thesis by simp
qed

theorem switcher_branch_is_mute_witness:
  "Push 3 (fst (switcher_branch ''a'' ''a'' 0 (\<lambda>_. new_cell [] KOther))) (\<lambda>_. None)
     (snd (switcher_branch ''a'' ''a'' 0 (\<lambda>_. new_cell [] KOther))) None =
   Some ([Handled 0 None Downstream], None)"
  using switcher_branch_is_mute [of "''a''" "''a''" 0 "\<lambda>_. new_cell [] KOther"
      "fst (switcher_branch ''a'' ''a'' 0 (\<lambda>_. new_cell [] KOther))"
      "snd (switcher_branch ''a'' ''a'' 0 (\<lambda>_. new_cell [] KOther))" 3 "\<lambda>_. None" None None]
  by (simp add: new_cell_def)

text \<open>The switcher's output filter is bypassed while a lifecycle frame is synchronised: metadata of an
  inactive service that a branch emits before passing the start frame on is forwarded although the
  filter rejects it and even if its id was forwarded before.\<close>

theorem switcher_filter_bypassed_in_sync:
  assumes "lifecycle f" "\<not> lifecycle g" "\<not> switcher_output_filter act g"
  shows "\<exists>s s'. frame_id g \<in> seen_ids s \<and>
    ParallelProcessFrame (Some (switcher_output_filter act)) rsp prsp s f Downstream
      [([g, f], None)] = (s', [], [f, g], None)"
  by (rule exI [of _ "\<lparr>nbranches = 1, has_next = True, has_prev = False, sync_id = 0, counter = 0,
      synchronizing = False, buffered = [], seen_ids = {frame_id g}\<rparr>"])
    (use assms in \<open>simp add: ParallelProcessFrame_def mark_lifecycle_def onDownstreamFromBranch_def
      to_next_def\<close>)

definition demo_start :: frame where
  "demo_start = fst (NewStartFrame 8)"

definition demo_meta :: frame where
  "demo_meta = fst (NewServiceMetadataFrame ''b'' [] 9)"

lemmas demo_frame_simps = demo_start_def demo_meta_def sample_frame_def sync_mark_def
  NewStartFrame_def NewServiceMetadataFrame_def NewTextFrame_def NewSyncFrame_def mk_frame_def
  NewBase_def NewBaseWithID_def nextID_def parallelIsLifecycleFrame_def

theorem switcher_filter_bypassed_in_sync_witness:
  "\<exists>s s'. frame_id demo_meta \<in> seen_ids s \<and>
    ParallelProcessFrame (Some (switcher_output_filter ''a'')) (\<lambda>_. None) (\<lambda>_. None) s demo_start
      Downstream [([demo_meta, demo_start], None)] = (s', [], [demo_start, demo_meta], None)"
  using switcher_filter_bypassed_in_sync [of demo_start demo_meta "''a''" "\<lambda>_. None" "\<lambda>_. None"]
  by (simp add: demo_frame_simps switcher_output_filter_def)

definition demo_par :: parallel where
  "demo_par = \<lparr>nbranches = 2, has_next = True, has_prev = False, sync_id = 0, counter = 0,
     synchronizing = False, buffered = [], seen_ids = {}\<rparr>"

theorem parallel_deduplicates_witness:
  "fst (snd (snd (ParallelProcessFrame None (\<lambda>_. None) (\<lambda>_. None) demo_par sample_frame Downstream
      [([sample_frame], None), ([sample_frame, sync_mark], None)]))) = [sample_frame, sync_mark]"
proof -
  let ?r = "ParallelProcessFrame None (\<lambda>_. None) (\<lambda>_. None) demo_par sample_frame Downstream
      [([sample_frame], None), ([sample_frame, sync_mark], None)]"
  obtain s' up os e where r: "?r = (s', up, os, e)" by (cases ?r)
  from parallel_deduplicates [OF _ _ _ _ _ r] r show ?thesis
    by (simp add: demo_par_def demo_frame_simps)
qed

theorem parallel_synchronises_witness:
  "fst (snd (snd (ParallelProcessFrame None (\<lambda>_. None) (\<lambda>_. None) demo_par demo_start Downstream
      [([demo_start, demo_meta], None), ([sample_frame, demo_start, demo_meta, demo_meta], None)]))) =
    [demo_start, demo_meta, sample_frame, demo_meta]"
proof -
  let ?r = "ParallelProcessFrame None (\<lambda>_. None) (\<lambda>_. None) demo_par demo_start Downstream
      [([demo_start, demo_meta], None), ([sample_frame, demo_start, demo_meta, demo_meta], None)]"
  obtain s' up os e where r: "?r = (s', up, os, e)" by (cases ?r)
  from parallel_synchronises [of demo_start demo_par "[([], [demo_meta])]" "[sample_frame]" "[demo_meta, demo_meta]"
      None "\<lambda>_. None" "\<lambda>_. None" s' up os e] r show ?thesis
    by (simp add: demo_par_def demo_frame_simps)
qed

theorem parallel_lost_lifecycle_silences_witness:
  "snd (emissions None (\<lambda>_. None) (fst (ParallelProcessFrame None (\<lambda>_. None) (\<lambda>_. None) demo_par
      demo_start Downstream [([demo_start], None), ([], None)])) [sample_frame]) = []"
proof -
  let ?r = "ParallelProcessFrame None (\<lambda>_. None) (\<lambda>_. None) demo_par demo_start Downstream
      [([demo_start], None), ([], None)]"
  obtain s' up os e where r: "?r = (s', up, os, e)" by (cases ?r)
  from parallel_lost_lifecycle_silences [OF _ _ _ r, of "[sample_frame]"] r show ?thesis
    by (simp add: demo_par_def demo_frame_simps)
qed

theorem sync_parallel_round_witness:
  "\<exists>s'. SyncProcessFrame \<lparr>sp_chans = [[], []], sp_seen = {}, sp_has_next = True\<rparr> sample_frame
      [[sample_frame, sync_mark], [sample_frame, sync_mark]] = Some (s', [sample_frame])"
  using sync_parallel_round [of "[[sample_frame], [sample_frame]]"
      "\<lparr>sp_chans = [[], []], sp_seen = {}, sp_has_next = True\<rparr>" sync_mark sample_frame]
  by (auto simp: demo_frame_simps syncParallelIsSyncFrame_def)

end
