(* ===== verification/Turn.thy ===== *)
theory Turn
  imports Frames
begin

text \<open>
  End-of-turn detection and user turns, \<^verbatim>\<open>pkg/audio/turn\<close>: the silence analyzer, the turn
  strategies and the user turn controller with its timers. Times are integers of nanoseconds,
  \<^verbatim>\<open>float64\<close> is modelled by the reals; the clock is an argument.
\<close>

section \<open>The silence analyzer\<close>

datatype end_of_turn = Incomplete | Complete

record turn_params =
  tp_stop :: real
  tp_pre :: real
  tp_max :: real

record silence_analyzer =
  sparams :: turn_params
  srate :: int
  init_rate :: "int option"
  sbuffer :: "(int \<times> byte list) list"
  speech_triggered :: bool
  silence_ms :: real
  speech_start :: "int option"
  last_state :: end_of_turn
  vad_start_secs :: real

definition NewSilenceTurnAnalyzer :: "turn_params \<Rightarrow> silence_analyzer" where
  "NewSilenceTurnAnalyzer p =
     \<lparr>sparams = \<lparr>tp_stop = if tp_stop p \<le> 0 then 3 else tp_stop p,
                tp_pre = if tp_pre p \<le> 0 then 500 else tp_pre p,
                tp_max = if tp_max p \<le> 0 then 8 else tp_max p\<rparr>,
      srate = 0, init_rate = None, sbuffer = [], speech_triggered = False, silence_ms = 0,
      speech_start = None, last_state = Incomplete, vad_start_secs = 0\<rparr>"

definition NewSilenceTurnAnalyzerWithSampleRate :: "turn_params \<Rightarrow> int \<Rightarrow> silence_analyzer" where
  "NewSilenceTurnAnalyzerWithSampleRate p r =
     (NewSilenceTurnAnalyzer p)\<lparr>srate := r, init_rate := Some r\<rparr>"

definition TurnSetSampleRate :: "silence_analyzer \<Rightarrow> int \<Rightarrow> silence_analyzer" where
  "TurnSetSampleRate s r =
     (let s1 = (case init_rate s of Some i \<Rightarrow> s\<lparr>srate := i, init_rate := None\<rparr> | None \<Rightarrow> s)
      in if r > 0 then s1\<lparr>srate := r\<rparr> else s1)"

definition UpdateVADStartSecs :: "silence_analyzer \<Rightarrow> real \<Rightarrow> silence_analyzer" where
  "UpdateVADStartSecs s x = s\<lparr>vad_start_secs := x\<rparr>"

definition UpdateParams :: "silence_analyzer \<Rightarrow> turn_params \<Rightarrow> silence_analyzer" where
  "UpdateParams s p =
     s\<lparr>sparams := \<lparr>tp_stop = if tp_stop p > 0 then tp_stop p else tp_stop (sparams s),
        tp_pre = if tp_pre p > 0 then tp_pre p else tp_pre (sparams s),
        tp_max = if tp_max p > 0 then tp_max p else tp_max (sparams s)\<rparr>\<rparr>"

definition clearLocked :: "end_of_turn \<Rightarrow> silence_analyzer \<Rightarrow> silence_analyzer" where
  "clearLocked st s =
     s\<lparr>speech_triggered := (st = Incomplete), sbuffer := [], speech_start := None, silence_ms := 0,
       last_state := Incomplete\<rparr>"

definition TurnClear :: "silence_analyzer \<Rightarrow> silence_analyzer" where
  "TurnClear s = clearLocked Complete s"

definition chunk_ms :: "int \<Rightarrow> byte list \<Rightarrow> real" where
  "chunk_ms r b = real (length b div 2) / (real_of_int r / 1000)"

text \<open>The oldest time kept in the buffer.\<close>

definition buffer_cutoff :: "silence_analyzer \<Rightarrow> int \<Rightarrow> int" where
  "buffer_cutoff s now =
     (let t = (tp_pre (sparams s) / 1000 + vad_start_secs s) + tp_stop (sparams s) + tp_max (sparams s)
      in now - (if 0 \<le> t then \<lfloor>t * 1000000000\<rfloor> else \<lceil>t * 1000000000\<rceil>))"

definition AppendAudio ::
  "silence_analyzer \<Rightarrow> int \<Rightarrow> byte list \<Rightarrow> bool \<Rightarrow> silence_analyzer \<times> end_of_turn" where
  "AppendAudio s now b speech =
     (if b = [] then (s, last_state s)
      else
        (let s1 = s\<lparr>sbuffer := sbuffer s @ [(now, b)]\<rparr>;
             (s2, st) =
               (if speech
                then (s1\<lparr>silence_ms := 0, speech_triggered := True,
                         speech_start := (case speech_start s1 of None \<Rightarrow> Some now | x \<Rightarrow> x)\<rparr>, Incomplete)
                else if speech_triggered s1 \<and> srate s1 > 0
                then (let s3 = s1\<lparr>silence_ms := silence_ms s1 + chunk_ms (srate s1) b\<rparr>
                      in if silence_ms s3 \<ge> tp_stop (sparams s3) * 1000
                         then (clearLocked Complete s3, Complete) else (s3, Incomplete))
                else (s1, Incomplete));
             cut = buffer_cutoff s2 now;
             s4 = s2\<lparr>sbuffer := dropWhile (\<lambda>(t, _). t < cut) (sbuffer s2)\<rparr>
         in (s4\<lparr>last_state := st\<rparr>, st)))"

definition AnalyzeEndOfTurn :: "silence_analyzer \<Rightarrow> end_of_turn" where
  "AnalyzeEndOfTurn s = last_state s"

text \<open>The asynchronous variant sends one result: a cancelled context wins over the state.\<close>

definition AnalyzeEndOfTurnAsync :: "silence_analyzer \<Rightarrow> err option \<Rightarrow> end_of_turn \<times> err option" where
  "AnalyzeEndOfTurnAsync s ctx_err =
     (case ctx_err of Some e \<Rightarrow> (Incomplete, Some e) | None \<Rightarrow> (last_state s, None))"

fun append_all ::
  "silence_analyzer \<Rightarrow> (int \<times> byte list \<times> bool) list \<Rightarrow> silence_analyzer \<times> end_of_turn list" where
  "append_all s [] = (s, [])"
| "append_all s ((now, b, sp) # r) =
     (let (s1, x) = AppendAudio s now b sp; (s2, xs) = append_all s1 r in (s2, x # xs))"

definition total_ms :: "int \<Rightarrow> (int \<times> byte list \<times> bool) list \<Rightarrow> real" where
  "total_ms r cs = sum_list (map (\<lambda>(_, b, _). chunk_ms r b) cs)"

lemma chunk_ms_nonneg: "r > 0 \<Longrightarrow> 0 \<le> chunk_ms r b"
  by (simp add: chunk_ms_def)

lemma AppendAudio_silent:
  assumes "b \<noteq> []" "speech_triggered s" "srate s > 0"
  shows "snd (AppendAudio s now b False) =
      (if silence_ms s + chunk_ms (srate s) b \<ge> tp_stop (sparams s) * 1000 then Complete else Incomplete)"
    and "srate (fst (AppendAudio s now b False)) = srate s"
    and "sparams (fst (AppendAudio s now b False)) = sparams s"
    and "speech_triggered (fst (AppendAudio s now b False)) =
      (silence_ms s + chunk_ms (srate s) b < tp_stop (sparams s) * 1000)"
    and "silence_ms s + chunk_ms (srate s) b < tp_stop (sparams s) * 1000 \<Longrightarrow>
      silence_ms (fst (AppendAudio s now b False)) = silence_ms s + chunk_ms (srate s) b"
  using assms by (auto simp: AppendAudio_def Let_def clearLocked_def)

lemma append_all_silent:
  assumes "speech_triggered s" "srate s > 0" "\<forall>(_, b, sp) \<in> set cs. b \<noteq> [] \<and> \<not> sp"
    "silence_ms s + total_ms (srate s) cs < tp_stop (sparams s) * 1000"
  shows "snd (append_all s cs) = replicate (length cs) Incomplete \<and>
    speech_triggered (fst (append_all s cs)) \<and> srate (fst (append_all s cs)) = srate s \<and>
    sparams (fst (append_all s cs)) = sparams s \<and>
    silence_ms (fst (append_all s cs)) = silence_ms s + total_ms (srate s) cs"
  using assms
proof (induction cs arbitrary: s)
  case Nil
  then show ?case by (simp add: total_ms_def)
next
  case (Cons c cs)
  obtain now b where c: "c = (now, b, False)" and b: "b \<noteq> []" using Cons.prems(3) by (cases c) auto
  let ?s = "fst (AppendAudio s now b False)"
  have t: "total_ms (srate s) (c # cs) = chunk_ms (srate s) b + total_ms (srate s) cs"
    by (simp add: total_ms_def c)
  have "0 \<le> total_ms (srate s) cs"
    unfolding total_ms_def by (rule sum_list_nonneg) (auto simp: chunk_ms_nonneg Cons.prems(2))
  then have lt: "silence_ms s + chunk_ms (srate s) b < tp_stop (sparams s) * 1000"
    using Cons.prems(4) t by simp
  note a = AppendAudio_silent [OF b Cons.prems(1,2), of now]
  have "snd (append_all ?s cs) = replicate (length cs) Incomplete \<and>
    speech_triggered (fst (append_all ?s cs)) \<and> srate (fst (append_all ?s cs)) = srate ?s \<and>
    sparams (fst (append_all ?s cs)) = sparams ?s \<and>
    silence_ms (fst (append_all ?s cs)) = silence_ms ?s + total_ms (srate ?s) cs"
    using Cons.prems a(2-5) lt t by (intro Cons.IH) auto
  with a lt show ?case by (simp add: c case_prod_beta Let_def t [unfolded c])
qed

text \<open>After a chunk with speech, silent chunks are answered Incomplete as long as they add up to less
  than the stop time, and the chunk that reaches it is answered Complete and resets the analyzer,
  so that no further silence completes a turn before new speech.\<close>

theorem silence_completes_turn:
  assumes "b \<noteq> []" "srate s > 0" "\<forall>(_, b, sp) \<in> set cs. b \<noteq> [] \<and> \<not> sp" "c \<noteq> []"
    "total_ms (srate s) cs < tp_stop (sparams s) * 1000"
    "total_ms (srate s) cs + chunk_ms (srate s) c \<ge> tp_stop (sparams s) * 1000"
  shows "snd (append_all s ((t, b, True) # cs @ [(t', c, False)])) =
      Incomplete # replicate (length cs) Incomplete @ [Complete] \<and>
    \<not> speech_triggered (fst (append_all s ((t, b, True) # cs @ [(t', c, False)])))"
proof -
  have app: "append_all s (xs @ ys) =
      (let (s1, o1) = append_all s xs; (s2, o2) = append_all s1 ys in (s2, o1 @ o2))" for s xs ys
    by (induction s xs rule: append_all.induct) (auto simp: Let_def split: prod.splits)
  let ?s = "fst (AppendAudio s t b True)"
  have s: "speech_triggered ?s" "srate ?s = srate s" "sparams ?s = sparams s" "silence_ms ?s = 0"
    "snd (AppendAudio s t b True) = Incomplete"
    using assms(1) by (auto simp: AppendAudio_def Let_def)
  note q = append_all_silent [OF s(1), unfolded s, OF assms(2,3), simplified, OF assms(5)]
  have "snd (AppendAudio (fst (append_all ?s cs)) t' c False) = Complete"
    "\<not> speech_triggered (fst (AppendAudio (fst (append_all ?s cs)) t' c False))"
    using AppendAudio_silent [OF assms(4), of "fst (append_all ?s cs)" t'] q assms(2,6) by auto
  with q s show ?thesis by (simp add: app case_prod_beta Let_def)
qed

definition second_of_silence :: "byte list" where
  "second_of_silence = replicate 4 0"

theorem silence_completes_turn_witness:
  "snd (append_all (NewSilenceTurnAnalyzerWithSampleRate \<lparr>tp_stop = 1, tp_pre = 0, tp_max = 0\<rparr> 2)
      ((0, [1], True) # [] @ [(1, second_of_silence, False)])) = Incomplete # [] @ [Complete]"
  using silence_completes_turn [of "[1]" "NewSilenceTurnAnalyzerWithSampleRate
      \<lparr>tp_stop = 1, tp_pre = 0, tp_max = 0\<rparr> 2" "[]" second_of_silence 0 1]
  by (simp add: NewSilenceTurnAnalyzerWithSampleRate_def NewSilenceTurnAnalyzer_def
      second_of_silence_def total_ms_def chunk_ms_def)

section \<open>Turn strategies\<close>

text \<open>Start and stop strategies have the same shape: reset, a signal, a question. What the
  controller needs is that the answer is yes between a signal and a reset.\<close>

locale trigger =
  fixes reset :: "'s \<Rightarrow> 's" and signal :: "'s \<Rightarrow> 's" and should :: "'s \<Rightarrow> bool"
  assumes should_signal: "should (signal s)"
    and should_reset: "\<not> should (reset s)"

record vad_start = vs_triggered :: bool
record silence_stop = ss_stopped :: bool

definition VADUserTurnStartStrategy_Reset :: "vad_start \<Rightarrow> vad_start" where
  "VADUserTurnStartStrategy_Reset s = s\<lparr>vs_triggered := False\<rparr>"

definition OnUserStartedSpeaking :: "vad_start \<Rightarrow> vad_start" where
  "OnUserStartedSpeaking s = s\<lparr>vs_triggered := True\<rparr>"

definition ShouldStartTurn :: "vad_start \<Rightarrow> bool" where
  "ShouldStartTurn s = vs_triggered s"

definition SilenceUserTurnStopStrategy_Reset :: "silence_stop \<Rightarrow> silence_stop" where
  "SilenceUserTurnStopStrategy_Reset s = s\<lparr>ss_stopped := False\<rparr>"

definition OnUserStoppedSpeaking :: "silence_stop \<Rightarrow> silence_stop" where
  "OnUserStoppedSpeaking s = s\<lparr>ss_stopped := True\<rparr>"

definition ShouldStopTurn :: "silence_stop \<Rightarrow> bool" where
  "ShouldStopTurn s = ss_stopped s"

interpretation vad_start: trigger VADUserTurnStartStrategy_Reset OnUserStartedSpeaking ShouldStartTurn
  by unfold_locales
    (simp_all add: VADUserTurnStartStrategy_Reset_def OnUserStartedSpeaking_def ShouldStartTurn_def)

interpretation silence_stop: trigger SilenceUserTurnStopStrategy_Reset OnUserStoppedSpeaking ShouldStopTurn
  by unfold_locales
    (simp_all add: SilenceUserTurnStopStrategy_Reset_def OnUserStoppedSpeaking_def ShouldStopTurn_def)

section \<open>The user turn controller\<close>

text \<open>The controller of a turn processor, with the strategies it is built with. \<open>stop_armed\<close> and
  \<open>idle_armed\<close> say whether the field \<^verbatim>\<open>stopTimer\<close> or \<^verbatim>\<open>idleTimer\<close> holds a timer; an expiry leaves the
  field alone. The frame counter is part of the state. Each operation returns the frames pushed
  and the error; \<open>rsp\<close> is the answer of the push callback.\<close>

record turn_controller =
  c_start :: vad_start
  c_stop :: silence_stop
  stop_timeout :: real
  idle_timeout :: real
  user_speaking :: bool
  user_turn :: bool
  can_push :: bool
  stop_armed :: bool
  idle_armed :: bool
  c_ids :: u64

definition NewUserTurnController :: "real \<Rightarrow> real \<Rightarrow> bool \<Rightarrow> u64 \<Rightarrow> turn_controller" where
  "NewUserTurnController st it push ids =
     \<lparr>c_start = \<lparr>vs_triggered = False\<rparr>, c_stop = \<lparr>ss_stopped = False\<rparr>, stop_timeout = st,
      idle_timeout = it, user_speaking = False, user_turn = False, can_push = push,
      stop_armed = False, idle_armed = False, c_ids = ids\<rparr>"

definition push_new ::
  "(frame \<Rightarrow> err option) \<Rightarrow> body \<Rightarrow> turn_controller \<Rightarrow> turn_controller \<times> frame list \<times> err option" where
  "push_new rsp b c =
     (if can_push c
      then (let (f, ids) = mk_frame b (c_ids c) in (c\<lparr>c_ids := ids\<rparr>, [f], rsp f))
      else (c, [], None))"

definition resetStopTimer :: "turn_controller \<Rightarrow> turn_controller" where
  "resetStopTimer c = (if stop_timeout c \<le> 0 then c else c\<lparr>stop_armed := True\<rparr>)"

definition stopStopTimer :: "turn_controller \<Rightarrow> turn_controller" where
  "stopStopTimer c = c\<lparr>stop_armed := False\<rparr>"

definition resetIdleTimer :: "turn_controller \<Rightarrow> turn_controller" where
  "resetIdleTimer c = (if idle_timeout c \<le> 0 then c else c\<lparr>idle_armed := True\<rparr>)"

definition stopIdleTimer :: "turn_controller \<Rightarrow> turn_controller" where
  "stopIdleTimer c = c\<lparr>idle_armed := False\<rparr>"

definition startTurn :: "turn_controller \<Rightarrow> turn_controller" where
  "startTurn c =
     (if user_turn c then c
      else resetStopTimer (c\<lparr>user_turn := True, c_stop := SilenceUserTurnStopStrategy_Reset (c_stop c),
             c_start := VADUserTurnStartStrategy_Reset (c_start c)\<rparr>))"

definition stopTurn ::
  "(frame \<Rightarrow> err option) \<Rightarrow> turn_controller \<Rightarrow> turn_controller \<times> frame list \<times> err option" where
  "stopTurn rsp c =
     (if \<not> user_turn c then (c, [], None)
      else push_new rsp UserStoppedSpeakingFrame
             (stopStopTimer (c\<lparr>user_turn := False,
                c_start := VADUserTurnStartStrategy_Reset (c_start c),
                c_stop := SilenceUserTurnStopStrategy_Reset (c_stop c)\<rparr>)))"

definition ProcessVADUpdate ::
  "(frame \<Rightarrow> err option) \<Rightarrow> turn_controller \<Rightarrow> bool
     \<Rightarrow> turn_controller \<times> frame list \<times> err option" where
  "ProcessVADUpdate rsp c speech =
     (if speech
      then if \<not> user_speaking c
        then (let c1 = c\<lparr>user_speaking := True, c_start := OnUserStartedSpeaking (c_start c)\<rparr>;
                  (c2, o2, e2) = push_new rsp UserStartedSpeakingFrame c1 in
              if e2 \<noteq> None then (c2, o2, e2)
              else (let c3 = (if \<not> user_turn c2 \<and> ShouldStartTurn (c_start c2) then startTurn c2 else c2)
                    in (stopIdleTimer (resetStopTimer c3), o2, None)))
        else (stopIdleTimer (resetStopTimer c), [], None)
      else if user_speaking c
        then (let c1 = c\<lparr>user_speaking := False, c_stop := OnUserStoppedSpeaking (c_stop c)\<rparr>;
                  (c2, o2, e2) = (if user_turn c1 \<and> ShouldStopTurn (c_stop c1) then stopTurn rsp c1
                                  else (c1, [], None)) in
              if e2 \<noteq> None then (c2, o2, e2) else (resetStopTimer c2, o2, None))
        else (c, [], None))"

definition NotifyBotStoppedSpeaking :: "turn_controller \<Rightarrow> turn_controller" where
  "NotifyBotStoppedSpeaking c =
     (if idle_timeout c \<le> 0 then c else if user_turn c then c else resetIdleTimer c)"

definition NotifyBotStartedSpeaking :: "turn_controller \<Rightarrow> turn_controller" where
  "NotifyBotStartedSpeaking c = stopIdleTimer c"

text \<open>What the two \<^verbatim>\<open>AfterFunc\<close> callbacks do when they run, each taken as one step. A callback runs on its
  own goroutine, and \<^verbatim>\<open>Timer.Stop\<close> does not recall one whose timer has expired: it may run after its
  timer was stopped or replaced. Neither callback looks at the timer fields.\<close>

definition stop_timer_fires ::
  "(frame \<Rightarrow> err option) \<Rightarrow> turn_controller \<Rightarrow> turn_controller \<times> frame list" where
  "stop_timer_fires rsp c =
     (if \<not> user_speaking c \<and> user_turn c
      then (case stopTurn rsp c of (c', os, _) \<Rightarrow> (c', os)) else (c, []))"

definition idle_timer_fires ::
  "(frame \<Rightarrow> err option) \<Rightarrow> turn_controller \<Rightarrow> turn_controller \<times> frame list" where
  "idle_timer_fires rsp c = (case push_new rsp UserIdleFrame c of (c', os, _) \<Rightarrow> (c', os))"

datatype turn_event = VadUpdate bool | BotStopped | BotStarted | StopTimer | IdleTimer

fun turn_step ::
  "(frame \<Rightarrow> err option) \<Rightarrow> turn_controller \<Rightarrow> turn_event \<Rightarrow> turn_controller \<times> frame list" where
  "turn_step rsp c (VadUpdate b) = (case ProcessVADUpdate rsp c b of (c', os, _) \<Rightarrow> (c', os))"
| "turn_step rsp c BotStopped = (NotifyBotStoppedSpeaking c, [])"
| "turn_step rsp c BotStarted = (NotifyBotStartedSpeaking c, [])"
| "turn_step rsp c StopTimer = stop_timer_fires rsp c"
| "turn_step rsp c IdleTimer = idle_timer_fires rsp c"

text \<open>The order a consumer of the frames expects: started and stopped alternate, and the user is
  reported idle only between turns.\<close>

fun well_bracketed :: "bool \<Rightarrow> body list \<Rightarrow> bool" where
  "well_bracketed t [] = True"
| "well_bracketed t (b # bs) =
     (case b of
        UserStartedSpeakingFrame \<Rightarrow> \<not> t \<and> well_bracketed True bs
      | UserStoppedSpeakingFrame \<Rightarrow> t \<and> well_bracketed False bs
      | UserIdleFrame \<Rightarrow> \<not> t \<and> well_bracketed t bs
      | _ \<Rightarrow> False)"

definition is_idle :: "body \<Rightarrow> bool" where
  "is_idle b = (case b of UserIdleFrame \<Rightarrow> True | _ \<Rightarrow> False)"

text \<open>No idle callback runs late, after its timer was stopped: the controller still holds an idle timer
  whenever one runs.\<close>

fun idle_in_time :: "turn_controller \<Rightarrow> turn_event list \<Rightarrow> bool" where
  "idle_in_time c [] = True"
| "idle_in_time c (e # es) =
     ((case e of IdleTimer \<Rightarrow> idle_armed c | _ \<Rightarrow> True) \<and> idle_in_time (fst (turn_step (\<lambda>_. None) c e)) es)"

definition turn_inv :: "turn_controller \<Rightarrow> bool" where
  "turn_inv c \<longleftrightarrow> user_turn c = user_speaking c \<and> (idle_armed c \<longrightarrow> \<not> user_turn c) \<and> can_push c"

lemmas turn_defs = ProcessVADUpdate_def NotifyBotStoppedSpeaking_def NotifyBotStartedSpeaking_def
  stop_timer_fires_def idle_timer_fires_def startTurn_def stopTurn_def push_new_def
  resetStopTimer_def stopStopTimer_def resetIdleTimer_def stopIdleTimer_def

lemma turn_step_inv:
  assumes "\<And>f. rsp f = None" "turn_inv c"
  shows "turn_inv (fst (turn_step rsp c e)) \<and>
    (\<forall>bs. well_bracketed (user_turn (fst (turn_step rsp c e))) bs \<longrightarrow>
       well_bracketed (user_turn c) (filter (\<lambda>b. \<not> is_idle b) (map fbody (snd (turn_step rsp c e))) @ bs)) \<and>
    ((case e of IdleTimer \<Rightarrow> idle_armed c | _ \<Rightarrow> True) \<longrightarrow>
     (\<forall>bs. well_bracketed (user_turn (fst (turn_step rsp c e))) bs \<longrightarrow>
       well_bracketed (user_turn c) (map fbody (snd (turn_step rsp c e)) @ bs))) \<and>
    length (filter is_idle (map fbody (snd (turn_step rsp c e)))) = (case e of IdleTimer \<Rightarrow> 1 | _ \<Rightarrow> 0)"
  using assms vad_start.should_signal silence_stop.should_signal
  by (cases e) (auto simp: turn_inv_def turn_defs is_idle_def Let_def case_prod_beta)

interpretation turns: machine "turn_step (\<lambda>_. None)" turn_inv
  by unfold_locales (simp add: turn_step_inv)

lemma turn_run_bracketed:
  assumes "turn_inv c"
  shows "well_bracketed (user_turn c)
      (filter (\<lambda>b. \<not> is_idle b) (map fbody (snd (run (turn_step (\<lambda>_. None)) c es)))) \<and>
    (idle_in_time c es \<longrightarrow> well_bracketed (user_turn c) (map fbody (snd (run (turn_step (\<lambda>_. None)) c es)))) \<and>
    length (filter is_idle (map fbody (snd (run (turn_step (\<lambda>_. None)) c es)))) = count_list es IdleTimer"
  using assms
proof (induction es arbitrary: c)
  case Nil
  then show ?case by simp
next
  case (Cons e es)
  note s = turn_step_inv [of "\<lambda>_. None", OF refl Cons.prems, of e]
  from Cons.IH [OF s [THEN conjunct1]] s show ?case
    by (cases e) (simp_all add: case_prod_beta Let_def del: turn_step.simps)
qed

text \<open>C17: If pushing does not fail, then under every sequence of VAD updates, bot notifications and timer
  callbacks, late ones of timers already stopped or replaced included, the frames user started and
  user stopped strictly alternate, beginning with started, and every idle callback pushes exactly
  one idle frame. If no idle callback runs late, the user is reported idle only outside a turn. Each
  callback is one step; \<open>late_idle_in_turn\<close> shows what a late one does.\<close>

theorem user_turn_frames_bracketed:
  "let c = NewUserTurnController st it True ids;
       bs = map fbody (snd (run (turn_step (\<lambda>_. None)) c es))
   in well_bracketed False (filter (\<lambda>b. \<not> is_idle b) bs) \<and>
      length (filter is_idle bs) = count_list es IdleTimer \<and>
      (idle_in_time c es \<longrightarrow> well_bracketed False bs)"
  using turn_run_bracketed [of "NewUserTurnController st it True ids" es]
  by (simp add: turn_inv_def NewUserTurnController_def)

theorem user_turn_frames_bracketed_witness:
  "well_bracketed False (map fbody (snd (run (turn_step (\<lambda>_. None)) (NewUserTurnController 1 1 True 0)
      [BotStopped, IdleTimer, VadUpdate True, VadUpdate False]))) \<and>
   map fbody (snd (run (turn_step (\<lambda>_. None)) (NewUserTurnController 1 1 True 0)
      [BotStopped, IdleTimer, VadUpdate True, VadUpdate False])) =
     [UserIdleFrame, UserStartedSpeakingFrame, UserStoppedSpeakingFrame]"
  using user_turn_frames_bracketed [of 1 1 0 "[BotStopped, IdleTimer, VadUpdate True, VadUpdate False]"]
  by (simp add: NewUserTurnController_def turn_defs Let_def NewBase_def
      OnUserStartedSpeaking_def ShouldStartTurn_def OnUserStoppedSpeaking_def ShouldStopTurn_def
      VADUserTurnStartStrategy_Reset_def SilenceUserTurnStopStrategy_Reset_def mk_frame_def is_idle_def)

text \<open>An idle callback whose timer expired just before the user began to speak reports the user idle in
  the middle of the turn: stopping the timer does not take it back.\<close>

lemma late_idle_in_turn:
  "map fbody (snd (run (turn_step (\<lambda>_. None)) (NewUserTurnController 1 1 True 0)
      [BotStopped, VadUpdate True, IdleTimer])) = [UserStartedSpeakingFrame, UserIdleFrame]"
  by (simp add: NewUserTurnController_def turn_defs Let_def NewBase_def
      OnUserStartedSpeaking_def ShouldStartTurn_def VADUserTurnStartStrategy_Reset_def
      SilenceUserTurnStopStrategy_Reset_def mk_frame_def is_idle_def)

end
