(* ===== verification/Handler.thy ===== *)
theory Handler
  imports FrameQueue
begin

text \<open>
  The shape the models of frame handlers share. A handler takes its state and a frame that is not
  nil and returns the new state, the frames it handed to its neighbours in order (\<open>Downstream\<close> to
  the next processor, \<open>Upstream\<close> to the previous one) and the error it returns. A missing
  neighbour is one that answers nil and does nothing with what it gets. \<open>rsp\<close> is what the
  neighbours answer.
\<close>

type_synonym push = "direction \<times> frame"
type_synonym replies = "direction \<Rightarrow> frame \<Rightarrow> err option"

text \<open>Handing on one frame as the last action; handing on several until one fails.\<close>

definition hand :: "replies \<Rightarrow> 's \<Rightarrow> direction \<Rightarrow> frame \<Rightarrow> 's \<times> push list \<times> err option" where
  "hand rsp s d f = (s, [(d, f)], rsp d f)"

definition hand_all :: "replies \<Rightarrow> 's \<Rightarrow> push list \<Rightarrow> 's \<times> push list \<times> err option" where
  "hand_all rsp s ps = (let (sent, e) = push_seq (\<lambda>(d, f). rsp d f) ps in (s, sent, e))"

text \<open>The replies of neighbours that never fail.\<close>

definition quiet_replies :: replies where
  "quiet_replies = (\<lambda>_ _. None)"

lemma hand_simps [simp]:
  "fst (hand rsp s d f) = s" "fst (snd (hand rsp s d f)) = [(d, f)]"
  "snd (snd (hand rsp s d f)) = rsp d f"
  by (simp_all add: hand_def)

lemma hand_all_ok: "(\<And>d f. rsp d f = None) \<Longrightarrow> hand_all rsp s ps = (s, ps, None)"
  by (simp add: hand_all_def push_seq_ok case_prod_beta)

lemma hand_all_state [simp]: "fst (hand_all rsp s ps) = s"
  by (simp add: hand_all_def case_prod_beta)

lemma hand_all_set: "set (fst (snd (hand_all rsp s ps))) \<subseteq> set ps"
proof -
  have "set (fst (push_seq r xs)) \<subseteq> set xs" for r and xs :: "push list"
    by (induction xs) (auto split: option.splits prod.splits)
  then show ?thesis by (simp add: hand_all_def case_prod_beta)
qed

text \<open>A run of a handler over inputs with what the environment supplies for each.\<close>

fun run_handler ::
  "('s \<Rightarrow> 'i \<Rightarrow> 's \<times> push list \<times> err option) \<Rightarrow> 's \<Rightarrow> 'i list \<Rightarrow> 's \<times> push list" where
  "run_handler h s [] = (s, [])"
| "run_handler h s (i # inps) =
     (let (s1, o1, _) = h s i; (s2, o2) = run_handler h s1 inps in (s2, o1 @ o2))"

lemma run_handler_append:
  "run_handler h s (xs @ ys) =
     (let (s1, o1) = run_handler h s xs; (s2, o2) = run_handler h s1 ys in (s2, o1 @ o2))"
  by (induction xs arbitrary: s) (auto simp: Let_def split: prod.splits)

text \<open>Invariants of a handler carry over to its runs, and so does a law that relates what a step
  consumes, what it pushes and what it keeps.\<close>

locale handler =
  fixes h :: "'s \<Rightarrow> 'i \<Rightarrow> 's \<times> push list \<times> err option"
    and inv :: "'s \<Rightarrow> bool"
  assumes h_inv: "inv s \<Longrightarrow> inv (fst (h s i))"
begin

lemma run_inv: "inv s \<Longrightarrow> inv (fst (run_handler h s inps))"
  by (induction inps arbitrary: s) (auto simp: Let_def case_prod_beta h_inv)

lemma run_out:
  assumes "\<And>s i. inv s \<Longrightarrow> list_all P (fst (snd (h s i)))"
  shows "inv s \<Longrightarrow> list_all P (snd (run_handler h s inps))"
  by (induction inps arbitrary: s) (use assms h_inv in \<open>auto simp: Let_def case_prod_beta\<close>)

lemma run_conserves:
  assumes "\<And>s i. inv s \<Longrightarrow> out (fst (snd (h s i))) @ kept (fst (h s i)) = kept s @ inp i"
    and "\<And>xs ys. out (xs @ ys) = out xs @ out ys" "out [] = []"
  shows "inv s \<Longrightarrow>
    out (snd (run_handler h s inps)) @ kept (fst (run_handler h s inps)) = kept s @ concat (map inp inps)"
proof (induction inps arbitrary: s)
  case Nil
  then show ?case by (simp add: assms)
next
  case (Cons i inps)
  let ?s = "fst (h s i)" and ?o = "out (fst (snd (h s i)))"
  have "out (snd (run_handler h ?s inps)) @ kept (fst (run_handler h ?s inps)) =
      kept ?s @ concat (map inp inps)"
    using Cons h_inv by blast
  then have "?o @ out (snd (run_handler h ?s inps)) @ kept (fst (run_handler h ?s inps)) =
      (?o @ kept ?s) @ concat (map inp inps)" by simp
  also have "\<dots> = (kept s @ inp i) @ concat (map inp inps)"
    by (simp only: assms(1) [OF Cons.prems, of i])
  finally show ?case by (simp add: Let_def case_prod_beta assms(2))
qed

end

end
