(* ===== verification/Voice.thy ===== *)
theory Voice
  imports Turn Handler
begin

text \<open>
  \<^verbatim>\<open>pkg/audio/interruptions\<close> and the processors \<^verbatim>\<open>InterruptionController\<close> and
  \<^verbatim>\<open>TurnProcessor\<close> of \<^verbatim>\<open>pkg/processors/voice\<close>.
\<close>

section \<open>Interruption strategies\<close>

locale interruption_strategy =
  fixes reset :: "'s \<Rightarrow> 's" and append_text :: "'s \<Rightarrow> string \<Rightarrow> 's" and should :: "'s \<Rightarrow> bool"
    and wellformed :: "'s \<Rightarrow> bool"
  assumes should_reset: "wellformed s \<Longrightarrow> \<not> should (reset s)"
    and wf_reset: "wellformed s \<Longrightarrow> wellformed (reset s)"
    and wf_append: "wellformed s \<Longrightarrow> wellformed (append_text s x)"
    and append_empty: "append_text s [] = s"
begin

text \<open>An interruption needs some text since the last reset.\<close>

lemma needs_text:
  "wellformed s \<Longrightarrow> should (foldl append_text (reset s) xs) \<Longrightarrow> \<exists>x \<in> set xs. x \<noteq> []"
proof (rule ccontr)
  assume w: "wellformed s" and s: "should (foldl append_text (reset s) xs)"
    and "\<not> (\<exists>x \<in> set xs. x \<noteq> [])"
  then have "foldl append_text t xs = t" for t by (induction xs arbitrary: t) (auto simp: append_empty)
  with s should_reset [OF w] show False by simp
qed

end

record min_words =
  MinWords :: int
  mw_buf :: string

definition NewMinWordsStrategy :: "int \<Rightarrow> min_words" where
  "NewMinWordsStrategy n = \<lparr>MinWords = if n \<le> 0 then 1 else n, mw_buf = []\<rparr>"

definition MinWords_Reset :: "min_words \<Rightarrow> min_words" where
  "MinWords_Reset s = s\<lparr>mw_buf := []\<rparr>"

definition MinWords_AppendText :: "min_words \<Rightarrow> string \<Rightarrow> min_words" where
  "MinWords_AppendText s text =
     (if text = [] then s
      else if mw_buf s = [] then s\<lparr>mw_buf := text\<rparr>
      else s\<lparr>mw_buf := mw_buf s @ '' '' @ text\<rparr>)"

definition MinWords_ShouldInterrupt :: "min_words \<Rightarrow> bool" where
  "MinWords_ShouldInterrupt s =
     (if MinWords s \<le> 0 then False
      else if mw_buf s = [] then False
      else int (length (Fields (mw_buf s))) \<ge> MinWords s)"

definition NewStrategy :: "string \<Rightarrow> int \<Rightarrow> min_words option" where
  "NewStrategy kind n =
     (if kind = [] \<or> kind = ''none'' then None
      else if kind = ''min_words'' \<or> kind = ''keyword'' then Some (NewMinWordsStrategy n)
      else None)"

interpretation min_words: interruption_strategy MinWords_Reset MinWords_AppendText
  MinWords_ShouldInterrupt "\<lambda>_. True"
  by unfold_locales
    (simp_all add: MinWords_Reset_def MinWords_AppendText_def MinWords_ShouldInterrupt_def)

section \<open>InterruptionController\<close>

text \<open>A nil strategy makes the controller a pass-through; the strategy is the one
  \<^verbatim>\<open>NewStrategy\<close> builds.\<close>

record interruption_controller =
  ic_strategy :: "min_words option"
  ic_allow :: bool
  ic_bot_speaking :: bool
  ic_sent :: bool
  ic_ids :: u64

definition NewInterruptionController :: "min_words option \<Rightarrow> u64 \<Rightarrow> interruption_controller" where
  "NewInterruptionController st ids =
     \<lparr>ic_strategy = st, ic_allow = False, ic_bot_speaking = False, ic_sent = False, ic_ids = ids\<rparr>"

definition reset_strategy :: "interruption_controller \<Rightarrow> interruption_controller" where
  "reset_strategy p = p\<lparr>ic_strategy := map_option MinWords_Reset (ic_strategy p)\<rparr>"

text \<open>The case of a finalized transcript: the new state and whether to interrupt.\<close>

definition consider_text :: "interruption_controller \<Rightarrow> string \<Rightarrow> bool \<Rightarrow> interruption_controller \<times> bool"
where
  "consider_text p text final =
     (case ic_strategy p of
        None \<Rightarrow> (p, False)
      | Some st \<Rightarrow>
          if ic_allow p \<and> ic_bot_speaking p \<and> \<not> ic_sent p \<and> final
          then (let st' = (if text \<noteq> [] then MinWords_AppendText st text else st) in
                if MinWords_ShouldInterrupt st'
                then (p\<lparr>ic_strategy := Some (MinWords_Reset st'), ic_sent := True\<rparr>, True)
                else (p\<lparr>ic_strategy := Some st'\<rparr>, False))
          else (p, False))"

text \<open>The error of pushing the interruption frame is ignored.\<close>

definition InterruptionProcessFrame ::
  "replies \<Rightarrow> interruption_controller \<Rightarrow> frame \<Rightarrow> direction
     \<Rightarrow> interruption_controller \<times> push list \<times> err option" where
  "InterruptionProcessFrame rsp p f d =
     (if d \<noteq> Downstream then hand rsp p Upstream f
      else (case fbody f of
          StartFrame _ _ allow _ _ \<Rightarrow>
            hand rsp (reset_strategy (p\<lparr>ic_allow := allow, ic_bot_speaking := False, ic_sent := False\<rparr>))
              Downstream f
        | BotStartedSpeakingFrame \<Rightarrow>
            hand rsp (reset_strategy (p\<lparr>ic_bot_speaking := True, ic_sent := False\<rparr>)) Downstream f
        | BotStoppedSpeakingFrame \<Rightarrow>
            hand rsp (reset_strategy (p\<lparr>ic_bot_speaking := False, ic_sent := False\<rparr>)) Downstream f
        | CancelFrame _ \<Rightarrow>
            hand rsp (reset_strategy (p\<lparr>ic_bot_speaking := False, ic_sent := False\<rparr>)) Downstream f
        | EndFrame \<Rightarrow>
            hand rsp (reset_strategy (p\<lparr>ic_bot_speaking := False, ic_sent := False\<rparr>)) Downstream f
        | StopFrame \<Rightarrow>
            hand rsp (reset_strategy (p\<lparr>ic_bot_speaking := False, ic_sent := False\<rparr>)) Downstream f
        | UserStartedSpeakingFrame \<Rightarrow> hand rsp (reset_strategy p) Downstream f
        | TranscriptionFrame t _ _ _ final \<Rightarrow>
            (let (p1, interrupt) = consider_text p (tdata t) final in
             if interrupt
             then (let (i, ids) = mk_frame InterruptionFrame (ic_ids p1)
                   in (p1\<lparr>ic_ids := ids\<rparr>, [(Downstream, i), (Downstream, f)], rsp Downstream f))
             else hand rsp p1 Downstream f)
        | _ \<Rightarrow> hand rsp p Downstream f))"

abbreviation is_interruption :: "push \<Rightarrow> bool" where
  "is_interruption x \<equiv> fbody (snd x) = InterruptionFrame"

definition count_interruptions :: "push list \<Rightarrow> nat" where
  "count_interruptions ps = length (filter is_interruption ps)"

abbreviation ic_step ::
  "replies \<Rightarrow> interruption_controller \<Rightarrow> frame \<Rightarrow> interruption_controller \<times> push list \<times> err option"
where
  "ic_step rsp p f \<equiv> InterruptionProcessFrame rsp p f Downstream"

text \<open>Frames that open or close a stretch of bot speech.\<close>

definition bot_boundary :: "frame \<Rightarrow> bool" where
  "bot_boundary f =
     (case fbody f of StartFrame _ _ _ _ _ \<Rightarrow> True | BotStartedSpeakingFrame \<Rightarrow> True
      | BotStoppedSpeakingFrame \<Rightarrow> True | CancelFrame _ \<Rightarrow> True | EndFrame \<Rightarrow> True | StopFrame \<Rightarrow> True
      | _ \<Rightarrow> False)"

lemma consider_text_facts:
  "consider_text p t fin = (p', i) \<Longrightarrow>
     ic_allow p' = ic_allow p \<and> ic_bot_speaking p' = ic_bot_speaking p \<and>
     ic_sent p' = (ic_sent p \<or> i) \<and>
     (i \<longrightarrow> ic_allow p \<and> ic_bot_speaking p \<and> \<not> ic_sent p \<and> fin)"
  by (auto simp: consider_text_def Let_def split: option.splits if_splits)

lemma ic_step_facts:
  assumes "\<not> bot_boundary f" "fbody f \<noteq> InterruptionFrame"
  shows "count_interruptions (fst (snd (ic_step rsp p f))) =
      (if ic_sent p then 0 else if ic_sent (fst (ic_step rsp p f)) then 1 else 0) \<and>
    (ic_sent p \<longrightarrow> ic_sent (fst (ic_step rsp p f))) \<and>
    (\<not> ic_sent p \<and> ic_sent (fst (ic_step rsp p f)) \<longrightarrow> ic_allow p \<and> ic_bot_speaking p) \<and>
    ic_allow (fst (ic_step rsp p f)) = ic_allow p \<and>
    ic_bot_speaking (fst (ic_step rsp p f)) = ic_bot_speaking p"
proof (cases "fbody f")
  case (TranscriptionFrame t u ti l fin)
  obtain p' i where c: "consider_text p (tdata t) fin = (p', i)" by fastforce
  have "ic_step rsp p f =
      (if i then (let (x, ids) = mk_frame InterruptionFrame (ic_ids p')
                  in (p'\<lparr>ic_ids := ids\<rparr>, [(Downstream, x), (Downstream, f)], rsp Downstream f))
       else hand rsp p' Downstream f)"
    by (simp add: InterruptionProcessFrame_def TranscriptionFrame c)
  with consider_text_facts [OF c] TranscriptionFrame show ?thesis
    by (auto simp: count_interruptions_def case_prod_beta)
qed (use assms in \<open>auto simp: InterruptionProcessFrame_def bot_boundary_def reset_strategy_def
      count_interruptions_def\<close>)

lemma ic_step_transparent:
  "filter (\<lambda>x. \<not> is_interruption x) (fst (snd (ic_step rsp p f))) =
     (if fbody f = InterruptionFrame then [] else [(Downstream, f)])"
proof (cases "fbody f")
  case (TranscriptionFrame t u ti l fin)
  then show ?thesis
    by (auto simp: InterruptionProcessFrame_def case_prod_beta)
qed (auto simp: InterruptionProcessFrame_def)

lemma ic_run_count:
  assumes "list_all (\<lambda>f. \<not> bot_boundary f \<and> fbody f \<noteq> InterruptionFrame) fs"
  shows "count_interruptions (snd (run_handler (ic_step rsp) p fs)) \<le> (if ic_sent p then 0 else 1) \<and>
    (count_interruptions (snd (run_handler (ic_step rsp) p fs)) > 0 \<longrightarrow> ic_allow p \<and> ic_bot_speaking p)"
  using assms
proof (induction fs arbitrary: p)
  case Nil
  then show ?case by (simp add: count_interruptions_def)
next
  case (Cons f fs)
  have app: "count_interruptions (xs @ ys) = count_interruptions xs + count_interruptions ys" for xs ys
    by (simp add: count_interruptions_def)
  from Cons.prems ic_step_facts [of f rsp p] Cons.IH [of "fst (ic_step rsp p f)"]
  show ?case by (simp add: Let_def case_prod_beta app split: if_splits)
qed

text \<open>The interruption controller is transparent and interrupts at most once per stretch of bot
  speech: over any downstream frames it forwards every one of them in order, and between two
  frames that start or stop the bot it adds at most one interruption, none unless the start frame
  allowed interruptions and the bot is speaking.\<close>

theorem interruption_at_most_once:
  assumes "list_all (\<lambda>f. \<not> bot_boundary f \<and> fbody f \<noteq> InterruptionFrame) fs"
    "run_handler (ic_step rsp) p fs = (p', out)"
  shows "filter (\<lambda>x. \<not> is_interruption x) out = map (Pair Downstream) fs \<and>
    count_interruptions out \<le> 1 \<and>
    (count_interruptions out = 1 \<longrightarrow> ic_allow p \<and> ic_bot_speaking p \<and> \<not> ic_sent p)"
proof -
  have "filter (\<lambda>x. \<not> is_interruption x) (snd (run_handler (ic_step rsp) p fs)) = map (Pair Downstream) fs"
    using assms(1) by (induction fs arbitrary: p) (simp_all add: Let_def case_prod_beta ic_step_transparent)
  with ic_run_count [OF assms(1), of rsp p] assms(2) show ?thesis by (auto split: if_splits)
qed

definition said :: "string \<Rightarrow> frame" where
  "said s = fst (NewTranscriptionFrame s ''u'' ''t'' True 3)"

theorem interruption_at_most_once_witness:
  "count_interruptions (snd (run_handler (ic_step quiet_replies)
      \<lparr>ic_strategy = NewStrategy ''min_words'' 1, ic_allow = True, ic_bot_speaking = True, ic_sent = False,
       ic_ids = 9\<rparr> [said ''stop'', said ''now''])) \<le> 1"
proof -
  let ?p = "\<lparr>ic_strategy = NewStrategy ''min_words'' 1, ic_allow = True, ic_bot_speaking = True,
    ic_sent = False, ic_ids = 9\<rparr>"
  obtain p' out where r: "run_handler (ic_step quiet_replies) ?p [said ''stop'', said ''now''] = (p', out)"
    by fastforce
  from interruption_at_most_once [OF _ r] r show ?thesis
    by (simp add: said_def NewTranscriptionFrame_def bot_boundary_def)
qed

section \<open>TurnProcessor\<close>

text \<open>
  The processor with a silence analyzer and the user turn controller it builds; the frame counter
  is the controller's. What the environment supplies for a frame: the clock, the detector's
  verdict on the chunk, and what the non-blocking read of the pending analysis finds (nothing, a
  closed channel, or a result).
\<close>

record turn_env =
  te_now :: int
  te_speech :: "err + bool"
  te_poll :: "(end_of_turn \<times> err option) option option"

record turn_proc =
  tp_analyzer :: silence_analyzer
  tp_ctl :: turn_controller
  tp_buf :: "byte list"
  tp_async :: bool
  tp_pending :: bool
  tp_rate :: int
  tp_channels :: int

definition NewTurnProcessorWithUserTurn ::
  "silence_analyzer \<Rightarrow> int \<Rightarrow> int \<Rightarrow> bool \<Rightarrow> real \<Rightarrow> real \<Rightarrow> u64 \<Rightarrow> turn_proc" where
  "NewTurnProcessorWithUserTurn a r ch async st it ids =
     (let r' = (if r \<le> 0 then 16000 else r); ch' = (if ch \<le> 0 then 1 else ch) in
      \<lparr>tp_analyzer = TurnSetSampleRate a r', tp_ctl = NewUserTurnController st it True ids,
       tp_buf = [], tp_async = async, tp_pending = False, tp_rate = r', tp_channels = ch'\<rparr>)"

definition apply_vad_params :: "turn_proc \<Rightarrow> real \<Rightarrow> real \<Rightarrow> turn_proc" where
  "apply_vad_params p start stop =
     (let a1 = UpdateParams (tp_analyzer p) \<lparr>tp_stop = stop, tp_pre = 0, tp_max = 0\<rparr>;
          a2 = (if start \<noteq> 0 then UpdateVADStartSecs a1 start else a1)
      in p\<lparr>tp_analyzer := a2\<rparr>)"

text \<open>The end of a turn: the buffered audio leaves as one frame.\<close>

definition complete_turn ::
  "replies \<Rightarrow> turn_proc \<Rightarrow> push list \<Rightarrow> turn_proc \<times> push list \<times> err option" where
  "complete_turn rsp p before =
     (let (out, ids) = mk_frame (AudioRawFrame (audio_of (tp_buf p) (tp_rate p) (tp_channels p) 0))
                         (c_ids (tp_ctl p))
      in (p\<lparr>tp_buf := [], tp_analyzer := TurnClear (tp_analyzer p),
            tp_ctl := (tp_ctl p)\<lparr>c_ids := ids\<rparr>\<rparr>,
          before @ [(Downstream, out)], rsp Downstream out))"

definition process_chunk ::
  "replies \<Rightarrow> turn_env \<Rightarrow> turn_proc \<Rightarrow> byte list \<Rightarrow> turn_proc \<times> push list \<times> err option" where
  "process_chunk rsp env p chunk =
     (let speech = (case te_speech env of Inl _ \<Rightarrow> False | Inr b \<Rightarrow> b);
          (ctl, pushed, _) = ProcessVADUpdate (rsp Downstream) (tp_ctl p) speech;
          ups = map (Pair Downstream) pushed;
          (an, st) = AppendAudio (tp_analyzer p) (te_now env) chunk speech;
          p1 = p\<lparr>tp_ctl := ctl, tp_buf := tp_buf p @ chunk, tp_analyzer := an\<rparr>
      in if \<not> tp_async p
         then if st = Complete then complete_turn rsp p1 ups else (p1, ups, None)
         else if st = Complete then complete_turn rsp (p1\<lparr>tp_pending := False\<rparr>) ups
         else if tp_pending p1 \<and> te_poll env = Some (Some (Complete, None))
         then complete_turn rsp (p1\<lparr>tp_pending := False\<rparr>) ups
         else (let pend = (tp_pending p1 \<and> te_poll env = None);
                   pend' = (pend \<or> speech_triggered (tp_analyzer p1))
               in (p1\<lparr>tp_pending := pend'\<rparr>, ups, None)))"

definition TurnProcessFrame ::
  "replies \<Rightarrow> turn_proc \<Rightarrow> turn_env \<times> frame \<Rightarrow> direction \<Rightarrow> turn_proc \<times> push list \<times> err option" where
  "TurnProcessFrame rsp p ef d =
     (let (env, f) = ef in
      if d = Upstream
      then (case fbody f of
          VADParamsUpdateFrame stop start \<Rightarrow>
            (apply_vad_params p (of_rat start) (of_rat stop), [], None)
        | _ \<Rightarrow> hand rsp p Upstream f)
      else (case fbody f of
          VADParamsUpdateFrame stop start \<Rightarrow>
            hand rsp (apply_vad_params p (of_rat start) (of_rat stop)) Downstream f
        | CancelFrame _ \<Rightarrow>
            hand rsp (p\<lparr>tp_buf := [], tp_analyzer := TurnClear (tp_analyzer p), tp_pending := False\<rparr>)
              Downstream f
        | AudioRawFrame a \<Rightarrow>
            if audio a = [] then (p, [], None) else process_chunk rsp env p (audio a)
        | _ \<Rightarrow> hand rsp p Downstream f))"

text \<open>The audio a push list carries in raw audio frames, and the audio of an input frame.\<close>

fun raw_audio :: "push list \<Rightarrow> byte list" where
  "raw_audio [] = []"
| "raw_audio ((d, f) # ps) = (case fbody f of AudioRawFrame a \<Rightarrow> audio a | _ \<Rightarrow> []) @ raw_audio ps"

definition audio_in :: "turn_env \<times> frame \<Rightarrow> byte list" where
  "audio_in ef = (case fbody (snd ef) of AudioRawFrame a \<Rightarrow> audio a | _ \<Rightarrow> [])"

lemma raw_audio_app [simp]: "raw_audio (xs @ ys) = raw_audio xs @ raw_audio ys"
  by (induction xs) auto

lemma controller_pushes:
  "ProcessVADUpdate rsp c b = (c', fs, e) \<Longrightarrow> raw_audio (map (Pair Downstream) fs) = []"
  by (auto simp: ProcessVADUpdate_def stopTurn_def push_new_def Let_def case_prod_beta
      split: if_splits)

lemma complete_turn_audio:
  "raw_audio (fst (snd (complete_turn rsp p ups))) = raw_audio ups @ tp_buf p \<and>
   tp_buf (fst (complete_turn rsp p ups)) = []"
  by (simp add: complete_turn_def case_prod_beta audio_of_def)

lemma process_chunk_audio:
  "raw_audio (fst (snd (process_chunk rsp env p chunk))) @ tp_buf (fst (process_chunk rsp env p chunk)) =
     tp_buf p @ chunk"
proof -
  define sp where "sp = (case te_speech env of Inl _ \<Rightarrow> False | Inr b \<Rightarrow> b)"
  obtain ctl fs e where c: "ProcessVADUpdate (rsp Downstream) (tp_ctl p) sp = (ctl, fs, e)"
    by (cases "ProcessVADUpdate (rsp Downstream) (tp_ctl p) sp")
  obtain an st where a: "AppendAudio (tp_analyzer p) (te_now env) chunk sp = (an, st)" by fastforce
  show ?thesis
    using controller_pushes [OF c]
    by (simp add: process_chunk_def c a complete_turn_audio Let_def flip: sp_def)
qed

lemma turn_step_audio:
  "\<forall>r. fbody (snd ef) \<noteq> CancelFrame r \<Longrightarrow>
   raw_audio (fst (snd (TurnProcessFrame rsp p ef Downstream))) @
     tp_buf (fst (TurnProcessFrame rsp p ef Downstream)) = tp_buf p @ audio_in ef"
  by (cases ef; cases "fbody (snd ef)")
    (auto simp: TurnProcessFrame_def audio_in_def process_chunk_audio apply_vad_params_def Let_def)

definition uncancelled_step ::
  "replies \<Rightarrow> turn_proc \<Rightarrow> turn_env \<times> frame \<Rightarrow> turn_proc \<times> push list \<times> err option" where
  "uncancelled_step rsp p ef =
     (case fbody (snd ef) of CancelFrame _ \<Rightarrow> (p, [], None)
      | _ \<Rightarrow> TurnProcessFrame rsp p ef Downstream)"

interpretation turn_handler: handler "uncancelled_step rsp" "\<lambda>_. True"
  by unfold_locales simp

lemma turn_run_audio:
  assumes "\<forall>ef \<in> set efs. \<forall>r. fbody (snd ef) \<noteq> CancelFrame r"
  shows "raw_audio (snd (run_handler (\<lambda>p ef. TurnProcessFrame rsp p ef Downstream) p efs)) @
    tp_buf (fst (run_handler (\<lambda>p ef. TurnProcessFrame rsp p ef Downstream) p efs)) =
    tp_buf p @ concat (map audio_in efs)"
proof -
  have eq: "uncancelled_step rsp q ef = TurnProcessFrame rsp q ef Downstream" if "ef \<in> set efs" for q ef
    using assms that by (auto simp: uncancelled_step_def split: body.splits)
  have "run_handler (\<lambda>p ef. TurnProcessFrame rsp p ef Downstream) p xs =
      run_handler (uncancelled_step rsp) p xs" if "set xs \<subseteq> set efs" for xs
    using that by (induction xs arbitrary: p) (simp_all add: eq)
  moreover have "raw_audio (snd (run_handler (uncancelled_step rsp) p efs)) @
      tp_buf (fst (run_handler (uncancelled_step rsp) p efs)) = tp_buf p @ concat (map audio_in efs)"
  proof (rule turn_handler.run_conserves)
    show "raw_audio (fst (snd (uncancelled_step rsp s i))) @ tp_buf (fst (uncancelled_step rsp s i)) =
        tp_buf s @ audio_in i" for s i
      using turn_step_audio [of i rsp s]
      by (auto simp: uncancelled_step_def audio_in_def split: body.splits)
  qed simp_all
  ultimately show ?thesis by simp
qed

text \<open>C14: The turn processor loses, duplicates and reorders no audio: over any downstream frames without
  a cancellation, whatever the detector, the clock, the asynchronous analysis and the replies do, the
  audio it has pushed followed by what it still buffers is the audio it received, in order. (In
  particular the silence before a turn stays in the buffer and leads the pushed segment.)\<close>

theorem turn_processor_conserves_audio:
  assumes "\<forall>ef \<in> set efs. \<forall>r. fbody (snd ef) \<noteq> CancelFrame r"
    "run_handler (\<lambda>p ef. TurnProcessFrame rsp p ef Downstream)
       (NewTurnProcessorWithUserTurn a r ch async st it ids) efs = (p, out)"
  shows "raw_audio out @ tp_buf p = concat (map audio_in efs)"
  using turn_run_audio [OF assms(1), of rsp "NewTurnProcessorWithUserTurn a r ch async st it ids"] assms(2)
  by (simp add: NewTurnProcessorWithUserTurn_def Let_def)

theorem turn_processor_conserves_audio_witness:
  "let (p, out) = run_handler (\<lambda>p ef. TurnProcessFrame quiet_replies p ef Downstream)
       (NewTurnProcessorWithUserTurn (NewSilenceTurnAnalyzer \<lparr>tp_stop = 1, tp_pre = 0, tp_max = 0\<rparr>)
          8000 1 False 5 0 0)
       [(\<lparr>te_now = 0, te_speech = Inr True, te_poll = None\<rparr>, fst (NewAudioRawFrame [1, 2] 8000 1 0 1))]
   in raw_audio out @ tp_buf p = [1, 2]"
proof -
  let ?fs = "[(\<lparr>te_now = 0, te_speech = Inr True, te_poll = None\<rparr>, fst (NewAudioRawFrame [1, 2] 8000 1 0 1))]"
  obtain p out where r: "run_handler (\<lambda>p ef. TurnProcessFrame quiet_replies p ef Downstream)
       (NewTurnProcessorWithUserTurn (NewSilenceTurnAnalyzer \<lparr>tp_stop = 1, tp_pre = 0, tp_max = 0\<rparr>)
          8000 1 False 5 0 0) ?fs = (p, out)" by fastforce
  from turn_processor_conserves_audio [OF _ r] show ?thesis
    unfolding r by (simp add: audio_in_def NewAudioRawFrame_def audio_of_def)
qed

end
