(* ===== verification/Vad.thy ===== *)
theory Vad
  imports AudioPcm
begin

text \<open>
  Voice activity detection, \<^verbatim>\<open>pkg/audio/vad/analyzer.go\<close> and \<^verbatim>\<open>vad.go\<close>: parameters, window
  sizing, the state machine over fixed-size windows, the buffering around it and the energy
  backend. \<^verbatim>\<open>float64\<close> is modelled by the reals (rounding errors are not), Go's \<^verbatim>\<open>int\<close> by the
  integers. The ONNX backend of \<^verbatim>\<open>silero.go\<close> is any other \<open>backend\<close>.
\<close>

section \<open>Parameters and data\<close>

datatype vad_state = StateQuiet | StateStarting | StateSpeaking | StateStopping

record vad_params =
  Confidence :: real
  StartSecs :: real
  StopSecs :: real
  MinVolume :: real
  Threshold :: real

definition normalize_params :: "vad_params \<Rightarrow> vad_params" where
  "normalize_params p =
     \<lparr>Confidence = if Confidence p \<le> 0 then 7/10 else Confidence p,
      StartSecs = if StartSecs p \<le> 0 then 2/10 else StartSecs p,
      StopSecs = if StopSecs p \<le> 0 then 2/10 else StopSecs p,
      MinVolume = if MinVolume p \<le> 0 then 2/10 else MinVolume p,
      Threshold = if Threshold p \<le> 0 then 2/100 else Threshold p\<rparr>"

definition zero_params :: vad_params where
  "zero_params = \<lparr>Confidence = 0, StartSecs = 0, StopSecs = 0, MinVolume = 0, Threshold = 0\<rparr>"

record backend =
  numFramesRequired :: "int \<Rightarrow> int"
  voiceConfidence :: "byte list \<Rightarrow> int \<Rightarrow> err + real"

record analyzer =
  params :: vad_params
  rate :: int
  nchannels :: int
  vbackend :: "backend option"
  vadFrames :: int
  vadFramesNumByte :: int
  vbuf :: "byte list"
  vstate :: vad_state
  startFrames :: int
  stopFrames :: int
  startingCount :: int
  stoppingCount :: int
  prevVolume :: real
  lastConfidence :: real
  lastVolume :: real

definition newBaseAnalyzer :: "backend option \<Rightarrow> analyzer" where
  "newBaseAnalyzer b =
     \<lparr>params = normalize_params zero_params, rate = 0, nchannels = 1, vbackend = b,
      vadFrames = 0, vadFramesNumByte = 0, vbuf = [], vstate = StateQuiet, startFrames = 0,
      stopFrames = 0, startingCount = 0, stoppingCount = 0, prevVolume = 0, lastConfidence = 0,
      lastVolume = 0\<rparr>"

text \<open>\<^verbatim>\<open>math.Round\<close> rounds halves away from zero; the conversion to \<^verbatim>\<open>int\<close> truncates.\<close>

definition math_round :: "real \<Rightarrow> int" where
  "math_round x = (if 0 \<le> x then \<lfloor>x + 1/2\<rfloor> else \<lceil>x - 1/2\<rceil>)"

definition recompute :: "analyzer \<Rightarrow> analyzer" where
  "recompute a =
     (case vbackend a of
        None \<Rightarrow> a
      | Some b \<Rightarrow>
          if rate a \<le> 0 then a
          else (let n = numFramesRequired b (rate a);
                    vf = (if n \<le> 0 then rate a div 100 else n);
                    per = real_of_int vf / real_of_int (rate a);
                    per' = (if per \<le> 0 then 1/100 else per)
                in a\<lparr>vadFrames := vf, vadFramesNumByte := vf * nchannels a * 2,
                     startFrames := math_round (StartSecs (params a) / per'),
                     stopFrames := math_round (StopSecs (params a) / per'),
                     startingCount := 0, stoppingCount := 0\<rparr>))"

definition VadSetSampleRate :: "analyzer \<Rightarrow> int \<Rightarrow> analyzer" where
  "VadSetSampleRate a r = (if r \<le> 0 then a\<lparr>rate := 0\<rparr> else recompute (a\<lparr>rate := r\<rparr>))"

definition VadSetParams :: "analyzer \<Rightarrow> vad_params \<Rightarrow> analyzer" where
  "VadSetParams a p = recompute (a\<lparr>params := normalize_params p\<rparr>)"

section \<open>Loudness\<close>

definition sum_squares :: "byte list \<Rightarrow> real" where
  "sum_squares b = sum_list (map (\<lambda>s. (real_of_int (sint s) / 32768)\<^sup>2) (samples_of b))"

definition rms :: "byte list \<Rightarrow> real" where
  "rms b = sqrt (sum_squares b / real (length (samples_of b)))"

definition calculateVolume :: "byte list \<Rightarrow> real" where
  "calculateVolume b =
     (if length b < 2 then 0
      else if length (samples_of b) = 0 then 0
      else if rms b < 0 then 0 else if rms b > 1 then 1 else rms b)"

definition expSmoothing :: "real \<Rightarrow> real \<Rightarrow> real \<Rightarrow> real" where
  "expSmoothing v prev factor = prev + factor * (v - prev)"

section \<open>The window state machine\<close>

text \<open>The switch on the state, then the two threshold checks of one window.\<close>

definition window_switch :: "bool \<Rightarrow> analyzer \<Rightarrow> analyzer" where
  "window_switch speaking a =
     (if speaking
      then (case vstate a of
          StateQuiet \<Rightarrow> a\<lparr>vstate := StateStarting, startingCount := 1, stoppingCount := 0\<rparr>
        | StateStarting \<Rightarrow> a\<lparr>startingCount := startingCount a + 1\<rparr>
        | StateStopping \<Rightarrow> a\<lparr>vstate := StateSpeaking, stoppingCount := 0\<rparr>
        | StateSpeaking \<Rightarrow> a)
      else (case vstate a of
          StateStarting \<Rightarrow> a\<lparr>vstate := StateQuiet, startingCount := 0\<rparr>
        | StateSpeaking \<Rightarrow> a\<lparr>vstate := StateStopping, stoppingCount := 1\<rparr>
        | StateStopping \<Rightarrow> a\<lparr>stoppingCount := stoppingCount a + 1\<rparr>
        | StateQuiet \<Rightarrow> a))"

definition check_start :: "analyzer \<Rightarrow> analyzer" where
  "check_start a =
     (if vstate a = StateStarting \<and> startFrames a \<le> startingCount a \<and> startFrames a > 0
      then a\<lparr>vstate := StateSpeaking, startingCount := 0\<rparr> else a)"

definition check_stop :: "analyzer \<Rightarrow> analyzer" where
  "check_stop a =
     (if vstate a = StateStopping \<and> stopFrames a \<le> stoppingCount a \<and> stopFrames a > 0
      then a\<lparr>vstate := StateQuiet, stoppingCount := 0\<rparr> else a)"

definition vad_window :: "bool \<Rightarrow> analyzer \<Rightarrow> analyzer" where
  "vad_window speaking a = check_stop (check_start (window_switch speaking a))"

definition measure_window :: "backend \<Rightarrow> byte list \<Rightarrow> analyzer \<Rightarrow> analyzer" where
  "measure_window b w a =
     (let conf = (case voiceConfidence b w (rate a) of Inl _ \<Rightarrow> 0 | Inr c \<Rightarrow> c);
          vol = expSmoothing (calculateVolume w) (prevVolume a) (2/10)
      in a\<lparr>prevVolume := vol, lastConfidence := conf, lastVolume := vol\<rparr>)"

definition loud :: "analyzer \<Rightarrow> bool" where
  "loud a = (lastConfidence a \<ge> Confidence (params a) \<and> lastVolume a \<ge> MinVolume (params a))"

definition process_window :: "backend \<Rightarrow> byte list \<Rightarrow> analyzer \<Rightarrow> analyzer" where
  "process_window b w a = (let a1 = measure_window b w a in vad_window (loud a1) a1)"

function consume_windows :: "backend \<Rightarrow> nat \<Rightarrow> byte list \<Rightarrow> analyzer \<Rightarrow> analyzer" where
  "consume_windows b n buf a =
     (if n = 0 \<or> length buf < n then a\<lparr>vbuf := buf\<rparr>
      else consume_windows b n (drop n buf) (process_window b (take n buf) a))"
  by pat_completeness auto
termination by (relation "measure (\<lambda>(b, n, buf, a). length buf)") auto

declare consume_windows.simps [simp del]

definition Analyze :: "analyzer \<Rightarrow> byte list \<Rightarrow> analyzer" where
  "Analyze a buf =
     (case vbackend a of
        None \<Rightarrow> a
      | Some b \<Rightarrow>
          if rate a \<le> 0 \<or> vadFramesNumByte a \<le> 0 then a
          else consume_windows b (nat (vadFramesNumByte a)) (vbuf a @ buf) a)"

definition IsSpeech :: "analyzer \<Rightarrow> byte list \<Rightarrow> analyzer \<times> bool" where
  "IsSpeech a data = (let a' = Analyze a data in (a', vstate a' = StateSpeaking))"

section \<open>The energy backend\<close>

definition energy_frames :: "int \<Rightarrow> int" where
  "energy_frames r = (if r \<le> 0 then 160 else r div 100)"

definition energy_confidence :: "real \<Rightarrow> byte list \<Rightarrow> int \<Rightarrow> err + real" where
  "energy_confidence thr buf r =
     (if length buf < 2 then Inr 0
      else if length (samples_of buf) = 0 then Inr 0
      else if thr \<le> 0 then Inr (rms buf)
      else (let c = rms buf / thr; c1 = (if c > 1 then 1 else c); c2 = (if c1 < 0 then 0 else c1)
            in Inr c2))"

definition energy_backend :: "real \<Rightarrow> backend" where
  "energy_backend thr =
     \<lparr>numFramesRequired = energy_frames, voiceConfidence = energy_confidence thr\<rparr>"

definition NewEnergyAnalyzer :: "vad_params \<Rightarrow> analyzer" where
  "NewEnergyAnalyzer p =
     (let p' = normalize_params p; thr = (if Threshold p' \<le> 0 then 2/100 else Threshold p')
      in (newBaseAnalyzer (Some (energy_backend thr)))\<lparr>params := p'\<rparr>)"

definition NewEnergyDetectorWithParams :: "vad_params \<Rightarrow> analyzer" where
  "NewEnergyDetectorWithParams p = VadSetSampleRate (NewEnergyAnalyzer (normalize_params p)) 16000"

section \<open>Buffering\<close>

text \<open>The buffer plays no part in how a window is judged.\<close>

lemma vbuf_commutes [simp]:
  "measure_window b w (a\<lparr>vbuf := x\<rparr>) = (measure_window b w a)\<lparr>vbuf := x\<rparr>"
  "loud (a\<lparr>vbuf := x\<rparr>) = loud a"
  "window_switch s (a\<lparr>vbuf := x\<rparr>) = (window_switch s a)\<lparr>vbuf := x\<rparr>"
  "check_start (a\<lparr>vbuf := x\<rparr>) = (check_start a)\<lparr>vbuf := x\<rparr>"
  "check_stop (a\<lparr>vbuf := x\<rparr>) = (check_stop a)\<lparr>vbuf := x\<rparr>"
  subgoal by (simp add: measure_window_def Let_def)
  subgoal by (simp add: loud_def)
  subgoal by (cases "vstate a") (simp_all add: window_switch_def)
  subgoal by (simp add: check_start_def)
  subgoal by (simp add: check_stop_def)
  done

lemma window_vbuf [simp]:
  "process_window b w (a\<lparr>vbuf := x\<rparr>) = (process_window b w a)\<lparr>vbuf := x\<rparr>"
  by (simp add: process_window_def vad_window_def Let_def)

text \<open>The configuration a window leaves alone.\<close>

definition vad_config :: "analyzer \<Rightarrow> backend option \<times> int \<times> int \<times> vad_params \<times> int \<times> int" where
  "vad_config a = (vbackend a, rate a, vadFramesNumByte a, params a, startFrames a, stopFrames a)"

lemma window_config [simp]:
  "vad_config (measure_window b w a) = vad_config a" "vad_config (window_switch s a) = vad_config a"
  "vad_config (check_start a) = vad_config a" "vad_config (check_stop a) = vad_config a"
  "vad_config (a\<lparr>vbuf := x\<rparr>) = vad_config a"
  subgoal by (simp add: measure_window_def Let_def vad_config_def)
  subgoal by (cases "vstate a") (simp_all add: window_switch_def vad_config_def)
  subgoal by (simp add: check_start_def vad_config_def)
  subgoal by (simp add: check_stop_def vad_config_def)
  subgoal by (simp add: vad_config_def)
  done

lemma process_window_config [simp]: "vad_config (process_window b w a) = vad_config a"
  by (simp add: process_window_def vad_window_def Let_def)

lemma consume_config [simp]: "vad_config (consume_windows b n buf a) = vad_config a"
proof (induction b n buf a rule: consume_windows.induct)
  case (1 b n buf a)
  then show ?case by (cases "n = 0 \<or> length buf < n") (simp_all add: consume_windows.simps [of b n buf a])
qed

lemma consume_frame [simp]:
  "vbackend (consume_windows b n buf a) = vbackend a" "rate (consume_windows b n buf a) = rate a"
  "vadFramesNumByte (consume_windows b n buf a) = vadFramesNumByte a"
  "params (consume_windows b n buf a) = params a"
  "startFrames (consume_windows b n buf a) = startFrames a"
  "stopFrames (consume_windows b n buf a) = stopFrames a"
  using consume_config [of b n buf a] unfolding vad_config_def prod.inject by blast+

lemma consume_vbuf_irrelevant: "consume_windows b n buf (a\<lparr>vbuf := x\<rparr>) = consume_windows b n buf a"
proof (induction b n buf a rule: consume_windows.induct)
  case (1 b n buf a)
  then show ?case by (cases "n = 0 \<or> length buf < n") (auto simp: consume_windows.simps [of b n buf])
qed

lemma consume_rest_short:
  "n > 0 \<Longrightarrow> length (vbuf (consume_windows b n buf a)) < n"
proof (induction b n buf a rule: consume_windows.induct)
  case (1 b n buf a)
  then show ?case by (cases "length buf < n") (simp_all add: consume_windows.simps [of b n buf a])
qed

lemma consume_append:
  "n > 0 \<Longrightarrow> consume_windows b n (vbuf (consume_windows b n x a) @ y) (consume_windows b n x a) =
     consume_windows b n (x @ y) a"
proof (induction b n x a rule: consume_windows.induct)
  case (1 b n buf a)
  show ?case
  proof (cases "length buf < n")
    case True
    then have "consume_windows b n buf a = a\<lparr>vbuf := buf\<rparr>" by (simp add: consume_windows.simps)
    then show ?thesis by (simp add: consume_vbuf_irrelevant)
  next
    case False
    with 1 have "consume_windows b n buf a = consume_windows b n (drop n buf) (process_window b (take n buf) a)"
      by (simp add: consume_windows.simps [of b n buf a])
    moreover have "consume_windows b n (buf @ y) a =
        consume_windows b n (drop n buf @ y) (process_window b (take n buf) a)"
      using False 1(2) by (simp add: consume_windows.simps [of b n "buf @ y" a])
    ultimately show ?thesis using 1 False by simp
  qed
qed

text \<open>Analysis does not depend on how the audio is cut into chunks: analysing two buffers one after the
  other leaves the analyzer exactly as analysing their concatenation does (state, counters, volume
  and unread tail included).\<close>

theorem analyze_chunking:
  "Analyze (Analyze a x) y = Analyze a (x @ y)"
proof (cases "vbackend a")
  case None
  then show ?thesis by (simp add: Analyze_def)
next
  case (Some b)
  then show ?thesis using consume_append [of "nat (vadFramesNumByte a)" b "vbuf a @ x" a y]
    by (simp add: Analyze_def)
qed

section \<open>Debouncing\<close>

text \<open>What the detector reports is \<open>IsSpeech\<close>: \<open>StateSpeaking\<close> only. The utterance the machine is in lasts
  longer than the report: in \<open>StateStopping\<close> the report is already gone, and the next window decides
  without a new start-up run.\<close>

definition in_utterance :: "analyzer \<Rightarrow> bool" where
  "in_utterance a \<longleftrightarrow> vstate a = StateSpeaking \<or> vstate a = StateStopping"

definition vad_windows :: "analyzer \<Rightarrow> bool list \<Rightarrow> analyzer" where
  "vad_windows a bs = foldl (\<lambda>a b. vad_window b a) a bs"

lemma vad_windows_simps [simp]:
  "vad_windows a [] = a" "vad_windows a (b # bs) = vad_windows (vad_window b a) bs"
  "vad_windows a (bs @ cs) = vad_windows (vad_windows a bs) cs"
  by (simp_all add: vad_windows_def)

lemmas vad_window_simps = vad_window_def window_switch_def check_start_def check_stop_def

lemma vad_window_sizes [simp]:
  "startFrames (vad_window b a) = startFrames a" "stopFrames (vad_window b a) = stopFrames a"
  by (cases "vstate a"; simp add: vad_window_simps)+

lemma vad_windows_sizes [simp]:
  "startFrames (vad_windows a bs) = startFrames a" "stopFrames (vad_windows a bs) = stopFrames a"
  by (induction bs arbitrary: a) simp_all

text \<open>What the counters say about the windows seen so far, newest first.\<close>

definition ends_with :: "bool list \<Rightarrow> int \<Rightarrow> bool \<Rightarrow> bool" where
  "ends_with past n b \<longleftrightarrow> 0 \<le> n \<and> nat n \<le> length past \<and> take (nat n) past = replicate (nat n) b"

lemma ends_with_Cons: "ends_with past n b \<Longrightarrow> ends_with (b # past) (n + 1) b"
  by (auto simp: ends_with_def nat_add_distrib)

lemma ends_with_one [simp]: "ends_with (b # past) 1 b"
  by (simp add: ends_with_def)

lemma ends_with_le: "ends_with past n b \<Longrightarrow> 0 \<le> m \<Longrightarrow> m \<le> n \<Longrightarrow> ends_with past m b"
proof -
  assume a: "ends_with past n b" "0 \<le> m" "m \<le> n"
  then have "nat m \<le> nat n" by simp
  then have "take (nat m) past = take (nat m) (take (nat n) past)" by (simp add: min_def)
  with a \<open>nat m \<le> nat n\<close> show ?thesis by (simp add: ends_with_def min_def)
qed

definition vad_inv :: "bool list \<Rightarrow> analyzer \<Rightarrow> bool" where
  "vad_inv past a \<longleftrightarrow>
     (vstate a = StateStarting \<longrightarrow> ends_with past (startingCount a) True \<and> 1 \<le> startingCount a \<and>
        (startFrames a > 0 \<longrightarrow> startingCount a < startFrames a)) \<and>
     (vstate a = StateStopping \<longrightarrow> ends_with past (stoppingCount a) False \<and> 1 \<le> stoppingCount a \<and>
        (stopFrames a > 0 \<longrightarrow> stoppingCount a < stopFrames a))"

lemma vad_inv_step [inv_intros]: "vad_inv past a \<Longrightarrow> vad_inv (b # past) (vad_window b a)"
  by (cases "vstate a"; cases b)
    (auto simp: vad_inv_def vad_window_simps intro: ends_with_Cons)

lemma vad_inv_steps: "vad_inv past a \<Longrightarrow> vad_inv (rev bs @ past) (vad_windows a bs)"
proof (induction bs arbitrary: a past)
  case Nil
  then show ?case by simp
next
  case (Cons b bs)
  from Cons.IH [OF vad_inv_step [OF Cons.prems, of b]] show ?case by simp
qed

lemma becomes_active:
  "vad_inv past a \<Longrightarrow> \<not> in_utterance a \<Longrightarrow> in_utterance (vad_window b a) \<Longrightarrow>
     startFrames a > 0 \<and> ends_with (b # past) (startFrames a) True"
  by (cases "vstate a"; cases b)
    (auto simp: vad_inv_def vad_window_simps in_utterance_def split: if_splits
      intro: ends_with_le [OF ends_with_one] ends_with_le [OF ends_with_Cons])

lemma becomes_inactive:
  "vad_inv past a \<Longrightarrow> in_utterance a \<Longrightarrow> \<not> in_utterance (vad_window b a) \<Longrightarrow>
     stopFrames a > 0 \<and> ends_with (b # past) (stopFrames a) False"
  by (cases "vstate a"; cases b)
    (auto simp: vad_inv_def vad_window_simps in_utterance_def split: if_splits
      intro: ends_with_le [OF ends_with_one] ends_with_le [OF ends_with_Cons])

lemma utterance_report:
  "in_utterance a \<Longrightarrow> (vstate (vad_window b a) = StateSpeaking) = b"
  "\<not> in_utterance a \<Longrightarrow> in_utterance (vad_window b a) = (vstate (vad_window b a) = StateSpeaking)"
  by (cases "vstate a"; cases b; auto simp: vad_window_simps in_utterance_def)+

text \<open>C13: Debouncing, safety, from a quiet analyzer and after any windows. While the machine is in no
  utterance, a window makes it report speech (\<open>StateSpeaking\<close>, what \<open>IsSpeech\<close> returns) only when it
  ends a run of at least \<open>startFrames\<close> consecutive speech windows. Inside an utterance the report
  follows every single window: a silent one takes it back at once, and one speech window restores it
  without a new run. The utterance itself ends only on a window that ends a run of at least
  \<open>stopFrames\<close> silent ones. So short bursts are never reported; short gaps are, but cost no new
  start-up run.\<close>

theorem vad_debounces:
  assumes "vstate a = StateQuiet" "a' = vad_windows a bs"
  shows "(\<not> in_utterance a' \<and> vstate (vad_window b a') = StateSpeaking \<longrightarrow>
      startFrames a > 0 \<and> ends_with (b # rev bs) (startFrames a) True) \<and>
    (\<not> in_utterance a' \<longrightarrow> in_utterance (vad_window b a') = (vstate (vad_window b a') = StateSpeaking)) \<and>
    (in_utterance a' \<longrightarrow> (vstate (vad_window b a') = StateSpeaking) = b) \<and>
    (in_utterance a' \<and> \<not> in_utterance (vad_window b a') \<longrightarrow>
      stopFrames a > 0 \<and> ends_with (b # rev bs) (stopFrames a) False)"
proof -
  have "vad_inv [] a" using assms(1) by (simp add: vad_inv_def)
  then have i: "vad_inv (rev bs) a'" using vad_inv_steps [of "[]" a bs] assms(2) by simp
  from becomes_active [OF i, of b] becomes_inactive [OF i, of b] utterance_report [of a' b]
  show ?thesis by (auto simp: assms(2))
qed

lemma speech_run:
  "startFrames a > 0 \<Longrightarrow> vstate a = StateStarting \<Longrightarrow>
     vstate (vad_windows a (replicate n True)) =
       (if n > 0 \<and> startFrames a \<le> startingCount a + int n then StateSpeaking else StateStarting)"
proof (induction n arbitrary: a)
  case 0
  then show ?case by simp
next
  case (Suc n)
  have sp: "vstate a' = StateSpeaking \<Longrightarrow> vstate (vad_windows a' (replicate m True)) = StateSpeaking"
    for a' m by (induction m arbitrary: a') (simp_all add: vad_window_simps)
  show ?case
  proof (cases "startFrames a \<le> startingCount a + 1")
    case True
    then have "vstate (vad_window True a) = StateSpeaking" using Suc.prems by (simp add: vad_window_simps)
    with sp True show ?thesis by simp
  next
    case False
    then have v: "vad_window True a = a\<lparr>startingCount := startingCount a + 1\<rparr>"
      using Suc.prems by (simp add: vad_window_simps)
    have "vstate (vad_windows (vad_window True a) (replicate n True)) =
      (if n > 0 \<and> startFrames a \<le> startingCount a + 1 + int n then StateSpeaking else StateStarting)"
      using Suc.IH [of "vad_window True a"] Suc.prems by (simp add: v)
    with False show ?thesis by auto
  qed
qed

lemma silence_run:
  "stopFrames a > 0 \<Longrightarrow> vstate a = StateStopping \<Longrightarrow>
     vstate (vad_windows a (replicate n False)) =
       (if n > 0 \<and> stopFrames a \<le> stoppingCount a + int n then StateQuiet else StateStopping)"
proof (induction n arbitrary: a)
  case 0
  then show ?case by simp
next
  case (Suc n)
  have sp: "vstate a' = StateQuiet \<Longrightarrow> vstate (vad_windows a' (replicate m False)) = StateQuiet"
    for a' m by (induction m arbitrary: a') (simp_all add: vad_window_simps)
  show ?case
  proof (cases "stopFrames a \<le> stoppingCount a + 1")
    case True
    then have "vstate (vad_window False a) = StateQuiet" using Suc.prems by (simp add: vad_window_simps)
    with sp True show ?thesis by simp
  next
    case False
    then have v: "vad_window False a = a\<lparr>stoppingCount := stoppingCount a + 1\<rparr>"
      using Suc.prems by (simp add: vad_window_simps)
    have "vstate (vad_windows (vad_window False a) (replicate n False)) =
      (if n > 0 \<and> stopFrames a \<le> stoppingCount a + 1 + int n then StateQuiet else StateStopping)"
      using Suc.IH [of "vad_window False a"] Suc.prems by (simp add: v)
    with False show ?thesis by auto
  qed
qed

text \<open>Debouncing, progress: a quiet analyzer reports speech after exactly \<open>startFrames\<close> speech windows
  in a row, and a speaking one reports quiet after exactly \<open>stopFrames\<close> silent ones; but with
  \<open>startFrames = 0\<close>, which a start time below half a window rounds to, no input whatsoever makes
  it report speech.\<close>

theorem vad_progress:
  "vstate a = StateQuiet \<Longrightarrow>
     (startFrames a > 0 \<longrightarrow>
        (vstate (vad_windows a (replicate (Suc n) True)) = StateSpeaking \<longleftrightarrow> startFrames a \<le> int (Suc n))) \<and>
     (startFrames a = 0 \<longrightarrow> vstate (vad_windows a bs) \<noteq> StateSpeaking) \<and>
     (stopFrames a > 0 \<longrightarrow>
        (vstate (vad_windows (a\<lparr>vstate := StateSpeaking\<rparr>) (replicate (Suc n) False)) = StateQuiet
           \<longleftrightarrow> stopFrames a \<le> int (Suc n)))"
proof -
  assume q: "vstate a = StateQuiet"
  have up: "vstate (vad_windows a (replicate (Suc n) True)) = StateSpeaking \<longleftrightarrow> startFrames a \<le> int (Suc n)"
    if "startFrames a > 0"
  proof (cases "startFrames a = 1")
    case True
    then have "vstate (vad_window True a) = StateSpeaking" using q by (simp add: vad_window_simps)
    moreover have "vstate a' = StateSpeaking \<Longrightarrow> vstate (vad_windows a' (replicate n True)) = StateSpeaking"
      for a' n by (induction n arbitrary: a') (simp_all add: vad_window_simps)
    ultimately show ?thesis using True by simp
  next
    case False
    with that q have v: "vad_window True a = a\<lparr>vstate := StateStarting, startingCount := 1, stoppingCount := 0\<rparr>"
      by (simp add: vad_window_simps)
    show ?thesis using speech_run [of "vad_window True a" n] that False by (auto simp: v)
  qed
  have down: "vstate (vad_windows (a\<lparr>vstate := StateSpeaking\<rparr>) (replicate (Suc n) False)) = StateQuiet
      \<longleftrightarrow> stopFrames a \<le> int (Suc n)" if "stopFrames a > 0"
  proof (cases "stopFrames a = 1")
    case True
    then have "vstate (vad_window False (a\<lparr>vstate := StateSpeaking\<rparr>)) = StateQuiet"
      by (simp add: vad_window_simps)
    moreover have "vstate a' = StateQuiet \<Longrightarrow> vstate (vad_windows a' (replicate n False)) = StateQuiet"
      for a' n by (induction n arbitrary: a') (simp_all add: vad_window_simps)
    ultimately show ?thesis using True by simp
  next
    case False
    with that have v: "vad_window False (a\<lparr>vstate := StateSpeaking\<rparr>) =
        a\<lparr>vstate := StateStopping, stoppingCount := 1\<rparr>" by (simp add: vad_window_simps)
    show ?thesis using silence_run [of "a\<lparr>vstate := StateStopping, stoppingCount := 1\<rparr>" n] that False
      by (auto simp: v)
  qed
  have never: "\<not> in_utterance (vad_windows a bs)" if "startFrames a = 0"
    using q that
  proof (induction bs rule: rev_induct)
    case Nil
    then show ?case by (simp add: in_utterance_def)
  next
    case (snoc b bs)
    have "vad_inv [] a" using q by (simp add: vad_inv_def)
    from becomes_active [OF vad_inv_steps [OF this, of bs], of b] snoc that show ?case by auto
  qed
  from up down never show ?thesis by (auto simp: in_utterance_def)
qed

definition quick_vad :: analyzer where
  "quick_vad = (newBaseAnalyzer None)\<lparr>startFrames := 2, stopFrames := 3\<rparr>"

theorem vad_debounces_witness:
  "startFrames quick_vad > 0 \<and> ends_with (True # rev [False, True]) (startFrames quick_vad) True \<and>
   vstate (vad_windows quick_vad [True, True, False]) = StateStopping \<and>
   vstate (vad_window True (vad_windows quick_vad [True, True, False])) = StateSpeaking"
  using vad_debounces [of quick_vad "vad_windows quick_vad [False, True]" "[False, True]" True]
    vad_debounces [of quick_vad "vad_windows quick_vad [True, True, False]" "[True, True, False]" True]
  by (simp add: quick_vad_def newBaseAnalyzer_def vad_window_simps in_utterance_def)

theorem vad_progress_witness:
  "vstate (vad_windows quick_vad (replicate (Suc 1) True)) = StateSpeaking"
  using vad_progress [of quick_vad 1 "[]"]
  by (simp add: quick_vad_def newBaseAnalyzer_def)

section \<open>Backends\<close>

text \<open>What the analyzer relies on: confidences lie between 0 and 1.\<close>

locale voice_backend =
  fixes conf :: "byte list \<Rightarrow> int \<Rightarrow> err + real"
  assumes conf_range: "conf w r = Inr c \<Longrightarrow> 0 \<le> c \<and> c \<le> 1"
begin

definition levels_ok :: "analyzer \<Rightarrow> bool" where
  "levels_ok a \<longleftrightarrow> 0 \<le> lastConfidence a \<and> lastConfidence a \<le> 1 \<and>
     0 \<le> lastVolume a \<and> lastVolume a \<le> 1 \<and> 0 \<le> prevVolume a \<and> prevVolume a \<le> 1"

lemma volume_range: "0 \<le> calculateVolume w \<and> calculateVolume w \<le> 1"
  by (simp add: calculateVolume_def)

lemma smoothing_range:
  "0 \<le> v \<Longrightarrow> v \<le> 1 \<Longrightarrow> 0 \<le> p \<Longrightarrow> p \<le> 1 \<Longrightarrow>
     0 \<le> expSmoothing v p (2/10) \<and> expSmoothing v p (2/10) \<le> 1"
  by (auto simp: expSmoothing_def field_simps)

lemma measure_ok:
  assumes "voiceConfidence b = conf" "levels_ok a"
  shows "levels_ok (measure_window b w a)"
proof -
  have "0 \<le> (case conf w (rate a) of Inl _ \<Rightarrow> 0 | Inr c \<Rightarrow> c) \<and>
      (case conf w (rate a) of Inl _ \<Rightarrow> 0 | Inr c \<Rightarrow> c) \<le> 1"
    using conf_range by (auto split: sum.splits)
  with smoothing_range [of "calculateVolume w" "prevVolume a"] volume_range [of w] assms show ?thesis
    by (simp add: measure_window_def Let_def levels_ok_def)
qed

lemma switches_ok [simp]:
  "levels_ok (window_switch s a) = levels_ok a" "levels_ok (check_start a) = levels_ok a"
  "levels_ok (check_stop a) = levels_ok a" "levels_ok (a\<lparr>vbuf := x\<rparr>) = levels_ok a"
  subgoal by (cases "vstate a") (simp_all add: window_switch_def levels_ok_def)
  subgoal by (simp add: check_start_def levels_ok_def)
  subgoal by (simp add: check_stop_def levels_ok_def)
  subgoal by (simp add: levels_ok_def)
  done

lemma consume_ok:
  "voiceConfidence b = conf \<Longrightarrow> levels_ok a \<Longrightarrow> levels_ok (consume_windows b n buf a)"
proof (induction b n buf a rule: consume_windows.induct)
  case (1 b n buf a)
  then have "levels_ok (process_window b (take n buf) a)"
    by (simp add: process_window_def vad_window_def Let_def measure_ok)
  with 1 show ?case
    by (cases "n = 0 \<or> length buf < n") (simp_all add: consume_windows.simps [of b n buf a])
qed

lemma analyze_ok:
  "vbackend a = Some b \<Longrightarrow> voiceConfidence b = conf \<Longrightarrow> levels_ok a \<Longrightarrow> levels_ok (Analyze a buf)"
  by (simp add: Analyze_def consume_ok)

end

lemma rms_nonneg: "0 \<le> rms b"
proof -
  have "0 \<le> sum_squares b" unfolding sum_squares_def by (rule sum_list_nonneg) auto
  then show ?thesis by (simp add: rms_def)
qed

lemma sum_list_le_length: "(\<And>x. x \<in> set xs \<Longrightarrow> f x \<le> (1 :: real)) \<Longrightarrow> sum_list (map f xs) \<le> real (length xs)"
  by (induction xs) fastforce+

lemma scaled_le_1: "- 32768 \<le> i \<Longrightarrow> i \<le> 32767 \<Longrightarrow> \<bar>real_of_int i / 32768\<bar> \<le> 1"
  by (simp add: abs_le_iff)

lemma rms_le_1: "rms b \<le> 1"
proof -
  have "(real_of_int (sint s) / 32768)\<^sup>2 \<le> 1" for s :: i16
  proof -
    have "\<bar>real_of_int (sint s) / 32768\<bar> \<le> 1" by (rule scaled_le_1) (use sint16_bounds [of s] in auto)
    then show ?thesis by (simp add: abs_square_le_1)
  qed
  then have "sum_squares b \<le> real (length (samples_of b))"
    unfolding sum_squares_def by (rule sum_list_le_length)
  then have "sum_squares b / real (length (samples_of b)) \<le> 1"
    by (cases "length (samples_of b) = 0") (auto simp: divide_le_eq_1)
  then show ?thesis unfolding rms_def by (metis real_sqrt_le_mono real_sqrt_one)
qed

interpretation energy: voice_backend "energy_confidence thr"
proof
  show "0 \<le> c \<and> c \<le> 1" if "energy_confidence thr w r = Inr c" for w r c
    using that rms_nonneg [of w] rms_le_1 [of w]
    by (auto simp: energy_confidence_def Let_def split: if_splits)
qed

lemma energy_backend_kept: "vbackend (VadSetSampleRate (NewEnergyAnalyzer p) r) \<noteq> None \<Longrightarrow>
    voiceConfidence (the (vbackend (VadSetSampleRate (NewEnergyAnalyzer p) r))) =
      energy_confidence (Threshold (normalize_params p))"
  by (auto simp: VadSetSampleRate_def recompute_def NewEnergyAnalyzer_def newBaseAnalyzer_def
      energy_backend_def normalize_params_def Let_def split: if_splits)

lemma energy_levels_init:
  "energy.levels_ok (VadSetSampleRate (NewEnergyAnalyzer p) r) \<and>
   (\<exists>b. vbackend (VadSetSampleRate (NewEnergyAnalyzer p) r) = Some b)"
  by (simp add: energy.levels_ok_def VadSetSampleRate_def recompute_def NewEnergyAnalyzer_def
      newBaseAnalyzer_def Let_def)

lemma vbackend_Analyze [simp]: "vbackend (Analyze a x) = vbackend a"
  by (simp add: Analyze_def split: option.splits)

text \<open>Whatever audio an energy analyzer is fed, the confidence and the smoothed volume it reports lie
  between 0 and 1, for any parameters and sample rate.\<close>

theorem energy_levels_in_range:
  "let a = foldl Analyze (VadSetSampleRate (NewEnergyAnalyzer p) r) bufs in
     0 \<le> lastConfidence a \<and> lastConfidence a \<le> 1 \<and> 0 \<le> lastVolume a \<and> lastVolume a \<le> 1"
proof -
  let ?a = "VadSetSampleRate (NewEnergyAnalyzer p) r"
  obtain b where b: "vbackend ?a = Some b" using energy_levels_init by blast
  then have c: "voiceConfidence b = energy_confidence (Threshold (normalize_params p))"
    using energy_backend_kept [of p r] by simp
  have "energy.levels_ok (foldl Analyze ?a bufs) \<and> vbackend (foldl Analyze ?a bufs) = Some b"
    by (induction bufs rule: rev_induct)
      (use b c energy_levels_init in \<open>auto intro: energy.analyze_ok\<close>)
  then show ?thesis by (simp add: Let_def energy.levels_ok_def)
qed

end
