(* ===== verification/AudioProc.thy ===== *)
theory AudioProc
  imports Vad Handler
begin

text \<open>
  \<^verbatim>\<open>pkg/audio/filters\<close> and the processors of \<^verbatim>\<open>pkg/processors/audio\<close>: the filter chain, the
  VAD processor and the audio buffer that records and merges the two sides of a call.
\<close>

section \<open>Audio filters\<close>

type_synonym audio_filter = "byte list \<Rightarrow> int \<Rightarrow> int \<Rightarrow> byte list option"

text \<open>\<open>None\<close> is the nil slice, which has no bytes either.\<close>

fun apply_chain :: "audio_filter option list \<Rightarrow> byte list option \<Rightarrow> int \<Rightarrow> int \<Rightarrow> byte list option" where
  "apply_chain [] out r ch = out"
| "apply_chain (None # fs) out r ch = apply_chain fs out r ch"
| "apply_chain (Some f # fs) out r ch =
     (let out' = f (case out of None \<Rightarrow> [] | Some b \<Rightarrow> b) r ch in
      if out' = None \<or> out' = Some [] then out' else apply_chain fs out' r ch)"

definition ChainApply :: "audio_filter option list option \<Rightarrow> byte list \<Rightarrow> int \<Rightarrow> int \<Rightarrow> byte list option" where
  "ChainApply c b r ch =
     (case c of None \<Rightarrow> Some b
      | Some fs \<Rightarrow> if fs = [] \<or> b = [] then Some b else apply_chain fs (Some b) r ch)"

definition NewGainFilter :: "real \<Rightarrow> real" where
  "NewGainFilter g = (if g \<le> 0 then 1 else g)"

definition scale_sample :: "real \<Rightarrow> i16 \<Rightarrow> i16" where
  "scale_sample g s =
     (let x = real_of_int (sint s) * g; t = (if 0 \<le> x then \<lfloor>x\<rfloor> else \<lceil>x\<rceil>);
          t1 = (if t > 32767 then 32767 else if t < - 32768 then - 32768 else t)
      in word_of_int t1)"

definition GainApply :: "real option \<Rightarrow> audio_filter" where
  "GainApply g b r ch =
     (if b = [] then Some b
      else if length b mod 2 \<noteq> 0 then None
      else if g = None \<or> g = Some 1 then Some b
      else Some (bytes_of_samples (map (scale_sample (the g)) (samples_of b))))"

text \<open>A filter that keeps the shape of the audio: it never lengthens a buffer of whole samples and
  leaves whole samples.\<close>

locale sample_filter =
  fixes flt :: audio_filter
  assumes keeps_shape: "even (length b) \<Longrightarrow> flt b r ch = Some b' \<Longrightarrow> length b' = length b"

interpretation gain: sample_filter "GainApply g"
proof
  fix b b' :: "byte list" and r ch :: int
  assume e: "even (length b)" and f: "GainApply g b r ch = Some b'"
  from e have "2 * (length b div 2) = length b" by simp
  with f show "length b' = length b"
    by (auto simp: GainApply_def PCM16MonoNumFrames_def split: if_splits)
qed

lemma chain_keeps_shape:
  assumes "\<And>f. Some f \<in> set fs \<Longrightarrow> sample_filter f" "even (length b)"
    "apply_chain fs (Some b) r ch = Some b'"
  shows "length b' = length b \<or> b' = []"
  using assms
proof (induction fs arbitrary: b)
  case Nil
  then show ?case by simp
next
  case (Cons x fs)
  show ?case
  proof (cases x)
    case None
    with Cons show ?thesis by simp
  next
    case (Some f)
    then have interpret_f: "sample_filter f" using Cons.prems(1) by simp
    show ?thesis
    proof (cases "f b r ch")
      case None
      with Cons.prems(3) Some show ?thesis by simp
    next
      case (Some b1)
      have l: "length b1 = length b"
        using sample_filter.keeps_shape [OF interpret_f Cons.prems(2) Some] .
      show ?thesis
      proof (cases "b1 = []")
        case True
        with Cons.prems(3) \<open>x = Some f\<close> Some show ?thesis by simp
      next
        case False
        with Cons.prems(3) \<open>x = Some f\<close> Some have "apply_chain fs (Some b1) r ch = Some b'" by simp
        with Cons.IH [of b1] Cons.prems(1,2) l show ?thesis by simp
      qed
    qed
  qed
qed

definition filter_audio :: "audio_filter option list option \<Rightarrow> audio_data \<Rightarrow> audio_data" where
  "filter_audio c a =
     (if c = None \<or> audio a = [] then a
      else (let ch = (if num_channels a \<le> 0 then 1 else num_channels a);
                r = (if sample_rate a \<le> 0 then 16000 else sample_rate a)
            in case ChainApply c (audio a) r ch of
                 None \<Rightarrow> a
               | Some b \<Rightarrow> a\<lparr>audio := b, num_frames := int (length b) div (ch * 2)\<rparr>))"

definition AudioFilterProcessFrame ::
  "replies \<Rightarrow> audio_filter option list option \<Rightarrow> frame \<Rightarrow> direction
     \<Rightarrow> audio_filter option list option \<times> push list \<times> err option" where
  "AudioFilterProcessFrame rsp c f d =
     (if d \<noteq> Downstream then hand rsp c Upstream f
      else hand rsp c Downstream
        (Frame (fbase f) (case fbody f of
            AudioRawFrame a \<Rightarrow> AudioRawFrame (filter_audio c a)
          | OutputAudioRawFrame a dest \<Rightarrow> OutputAudioRawFrame (filter_audio c a) dest
          | TTSAudioRawFrame a dest \<Rightarrow> TTSAudioRawFrame (filter_audio c a) dest
          | b \<Rightarrow> b)))"

section \<open>VADProcessor\<close>

record vad_proc =
  vp_analyzer :: analyzer
  vp_period :: int
  vp_prev :: vad_state
  vp_last :: int
  vp_ids :: u64

definition NewVADProcessor :: "analyzer \<Rightarrow> int \<Rightarrow> u64 \<Rightarrow> vad_proc" where
  "NewVADProcessor a period ids =
     \<lparr>vp_analyzer = a, vp_period = if period \<le> 0 then 200000000 else period, vp_prev = StateQuiet,
      vp_last = 0, vp_ids = ids\<rparr>"

text \<open>The frames pushed for a chunk of audio; their errors are ignored. Frames of the model carry
  seconds as rationals, \<open>secs\<close> converts the analyzer's.\<close>

definition vad_transition :: "(real \<Rightarrow> rat) \<Rightarrow> int \<Rightarrow> vad_proc \<Rightarrow> vad_state \<Rightarrow> vad_proc \<times> frame list" where
  "vad_transition secs now p st =
     (if st = StateSpeaking \<and> vp_prev p \<noteq> StateSpeaking
      then (let (f, ids) = mk_frame (VADUserStartedSpeakingFrame (secs (StartSecs (params (vp_analyzer p)))))
                             (vp_ids p) in (p\<lparr>vp_last := now, vp_ids := ids\<rparr>, [f]))
      else if st = StateQuiet \<and> vp_prev p = StateSpeaking
      then (let (f, ids) = mk_frame (VADUserStoppedSpeakingFrame (secs (StopSecs (params (vp_analyzer p)))))
                             (vp_ids p) in (p\<lparr>vp_ids := ids\<rparr>, [f]))
      else if st = StateSpeaking \<and> vp_period p > 0 \<and> now - vp_last p \<ge> vp_period p
      then (let (f, ids) = mk_frame UserSpeakingFrame (vp_ids p)
            in (p\<lparr>vp_last := now, vp_ids := ids\<rparr>, [f]))
      else (p, []))"

definition VADProcessFrame ::
  "(real \<Rightarrow> rat) \<Rightarrow> replies \<Rightarrow> vad_proc \<Rightarrow> int \<times> frame \<Rightarrow> direction \<Rightarrow> vad_proc \<times> push list \<times> err option"
where
  "VADProcessFrame secs rsp p nf d =
     (let (now, f) = nf in
      if d \<noteq> Downstream then (p, [], None)
      else if rsp Downstream f \<noteq> None then (p, [(Downstream, f)], rsp Downstream f)
      else (case fbody f of
          StartFrame r _ _ _ _ \<Rightarrow>
            ((if r > 0 then p\<lparr>vp_analyzer := VadSetSampleRate (vp_analyzer p) r\<rparr> else p),
             [(Downstream, f)], None)
        | VADParamsUpdateFrame stop start \<Rightarrow>
            (let q = params (vp_analyzer p);
                 q1 = (if stop > 0 then q\<lparr>StopSecs := of_rat stop\<rparr> else q);
                 q2 = (if start > 0 then q1\<lparr>StartSecs := of_rat start\<rparr> else q1)
             in (p\<lparr>vp_analyzer := VadSetParams (vp_analyzer p) q2\<rparr>, [(Downstream, f)], None))
        | AudioRawFrame a \<Rightarrow>
            if audio a = [] then (p, [(Downstream, f)], None)
            else (let an = Analyze (vp_analyzer p) (audio a);
                      (p1, fs) = vad_transition secs now (p\<lparr>vp_analyzer := an\<rparr>) (vstate an)
                  in (p1\<lparr>vp_prev := vstate an\<rparr>, (Downstream, f) # map (Pair Downstream) fs, None))
        | _ \<Rightarrow> (p, [(Downstream, f)], None)))"

text \<open>Within fewer windows than the stop time takes, a speaking analyzer cannot become quiet.\<close>

definition speaking_since :: "int \<Rightarrow> analyzer \<Rightarrow> bool" where
  "speaking_since j a \<longleftrightarrow>
     vstate a = StateSpeaking \<or> (vstate a = StateStopping \<and> stoppingCount a \<le> j)"

lemma speaking_since_window:
  assumes "speaking_since j a" "0 \<le> j" "j + 1 < stopFrames a"
  shows "speaking_since (j + 1) (process_window b w a)"
proof -
  let ?a = "measure_window b w a"
  have m: "vstate ?a = vstate a" "stoppingCount ?a = stoppingCount a" "stopFrames ?a = stopFrames a"
    by (simp_all add: measure_window_def Let_def)
  show ?thesis
    using assms m
    by (cases "vstate a"; cases "loud ?a")
      (auto simp: process_window_def vad_window_simps speaking_since_def Let_def)
qed

lemma stopFrames_window [simp]: "stopFrames (process_window b w a) = stopFrames a"
  using process_window_config [of b w a] by (simp add: vad_config_def del: process_window_config)

lemma speaking_since_consume:
  "speaking_since j a \<Longrightarrow> 0 \<le> j \<Longrightarrow> n > 0 \<Longrightarrow> j + int (length buf div n) < stopFrames a \<Longrightarrow>
     vstate (consume_windows b n buf a) \<noteq> StateQuiet"
proof (induction b n buf a arbitrary: j rule: consume_windows.induct)
  case (1 b n buf a)
  show ?case
  proof (cases "length buf < n")
    case True
    with 1 show ?thesis
      by (auto simp: consume_windows.simps [of b n buf a] speaking_since_def)
  next
    case False
    then have d: "length buf div n = Suc (length (drop n buf) div n)"
      using 1(4) by (simp add: div_if)
    have s: "speaking_since (j + 1) (process_window b (take n buf) a)"
      using 1(2-5) d by (intro speaking_since_window) auto
    have "vstate (consume_windows b n (drop n buf) (process_window b (take n buf) a)) \<noteq> StateQuiet"
      using 1(3-5) d False by (intro 1(1) [OF _ s]) auto
    with False 1(4) show ?thesis by (simp add: consume_windows.simps [of b n buf a])
  qed
qed

text \<open>A chunk too short for the stop time: together with the tail left in the analyzer's buffer it
  holds fewer than \<open>stopFrames\<close> windows.\<close>

definition short_chunk :: "analyzer \<Rightarrow> byte list \<Rightarrow> bool" where
  "short_chunk a b \<longleftrightarrow>
     vadFramesNumByte a > 0 \<and> int (length b) + vadFramesNumByte a \<le> stopFrames a * vadFramesNumByte a"

definition vp_inv :: "analyzer \<Rightarrow> vad_proc \<Rightarrow> bool" where
  "vp_inv a0 p \<longleftrightarrow>
     vad_config (vp_analyzer p) = vad_config a0 \<and> vp_prev p = vstate (vp_analyzer p) \<and>
     int (length (vbuf (vp_analyzer p))) < vadFramesNumByte a0"

lemma div_less_of_less:
  assumes "int l < s * int n"
  shows "int (l div n) < s"
proof (rule ccontr)
  assume "\<not> int (l div n) < s"
  then have "s * int n \<le> int (l div n) * int n" by (intro mult_right_mono) auto
  also have "\<dots> = int (l div n * n)" by simp
  also have "\<dots> \<le> int l" by (simp only: of_nat_le_iff) (rule div_times_less_eq_dividend)
  finally show False using assms by simp
qed

lemma short_chunk_not_quiet:
  assumes "vstate a = StateSpeaking" "short_chunk a b" "int (length (vbuf a)) < vadFramesNumByte a"
  shows "vstate (Analyze a b) \<noteq> StateQuiet"
proof (cases "vbackend a")
  case None
  with assms show ?thesis by (simp add: Analyze_def)
next
  case (Some be)
  let ?n = "nat (vadFramesNumByte a)" and ?buf = "vbuf a @ b"
  have n: "vadFramesNumByte a = int ?n" "?n > 0" using assms(2) by (auto simp: short_chunk_def)
  have "int (length ?buf) < stopFrames a * int ?n"
    using assms(2,3) n by (simp add: short_chunk_def)
  then have "int (length ?buf div ?n) < stopFrames a" by (rule div_less_of_less)
  then show ?thesis
    using speaking_since_consume [of 0 a ?n ?buf be] assms(1) n Some
    by (auto simp: Analyze_def speaking_since_def)
qed

lemma Analyze_config [simp]: "vad_config (Analyze a b) = vad_config a"
  by (simp add: Analyze_def split: option.splits)

lemma Analyze_rest:
  "vadFramesNumByte a > 0 \<Longrightarrow> int (length (vbuf a)) < vadFramesNumByte a \<Longrightarrow>
     int (length (vbuf (Analyze a b))) < vadFramesNumByte a"
  using consume_rest_short [of "nat (vadFramesNumByte a)"]
  by (auto simp: Analyze_def zless_nat_eq_int_zless split: option.splits)

lemma short_chunk_config: "vad_config a = vad_config a' \<Longrightarrow> short_chunk a b = short_chunk a' b"
  by (auto simp: short_chunk_def vad_config_def)

definition is_stopped :: "push \<Rightarrow> bool" where
  "is_stopped x = (case fbody (snd x) of VADUserStoppedSpeakingFrame _ \<Rightarrow> True | _ \<Rightarrow> False)"

lemma vad_transition_keeps:
  "vp_analyzer (fst (vad_transition secs now p st)) = vp_analyzer p"
  by (simp add: vad_transition_def case_prod_beta)

lemma vad_transition_no_stop:
  "\<not> (st = StateQuiet \<and> vp_prev p = StateSpeaking) \<Longrightarrow>
     list_all (\<lambda>x. \<not> is_stopped x) (map (Pair Downstream) (snd (vad_transition secs now p st)))"
  by (simp add: vad_transition_def case_prod_beta is_stopped_def)

lemma vad_step_no_stop:
  assumes "vp_inv a0 p" "fbody (snd nf) = AudioRawFrame a" "short_chunk a0 (audio a)"
  shows "vp_inv a0 (fst (VADProcessFrame secs rsp p nf Downstream)) \<and>
    list_all (\<lambda>x. \<not> is_stopped x) (fst (snd (VADProcessFrame secs rsp p nf Downstream)))"
proof -
  obtain now f where nf: "nf = (now, f)" by fastforce
  let ?an = "Analyze (vp_analyzer p) (audio a)"
  let ?p = "p\<lparr>vp_analyzer := ?an\<rparr>"
  have c: "vad_config (vp_analyzer p) = vad_config a0"
    and n: "vadFramesNumByte (vp_analyzer p) = vadFramesNumByte a0"
    using assms(1) by (auto simp: vp_inv_def vad_config_def)
  have "\<not> (vstate ?an = StateQuiet \<and> vp_prev ?p = StateSpeaking)"
    using short_chunk_not_quiet [of "vp_analyzer p" "audio a"] assms(1,3) n
      short_chunk_config [OF c] by (auto simp: vp_inv_def)
  note t = vad_transition_no_stop [OF this, of secs now]
  have i: "vp_inv a0 ((fst (vad_transition secs now ?p (vstate ?an)))\<lparr>vp_prev := vstate ?an\<rparr>)"
    using Analyze_rest [of "vp_analyzer p" "audio a"] assms(1,3) n c
    by (auto simp: vp_inv_def vad_transition_keeps short_chunk_def)
  have f: "\<not> is_stopped (Downstream, f)" using assms(2) by (simp add: nf is_stopped_def)
  show ?thesis
    using assms(1,2) t i f by (simp add: VADProcessFrame_def nf Let_def case_prod_beta)
qed

text \<open>The VAD processor misses the end of speech for real-time audio: if every chunk is shorter than
  the stop time (with the unread tail, fewer than \<open>stopFrames\<close> windows; 200 ms by default), no
  stopped-speaking frame is ever pushed, because the analyzer passes through Stopping on its way
  to Quiet and the processor only recognises a direct step from Speaking to Quiet.\<close>

theorem vad_processor_never_stops:
  assumes "vp_inv a0 p"
    "\<forall>nf \<in> set nfs. \<exists>a. fbody (snd nf) = AudioRawFrame a \<and> short_chunk a0 (audio a)"
    "run_handler (\<lambda>p nf. VADProcessFrame secs rsp p nf Downstream) p nfs = (p', out)"
  shows "list_all (\<lambda>x. \<not> is_stopped x) out"
proof -
  have "vp_inv a0 p \<Longrightarrow>
      list_all (\<lambda>x. \<not> is_stopped x) (snd (run_handler (\<lambda>p nf. VADProcessFrame secs rsp p nf Downstream) p nfs))"
    using assms(2)
  proof (induction nfs arbitrary: p)
    case Nil
    then show ?case by simp
  next
    case (Cons nf nfs)
    then obtain a where a: "fbody (snd nf) = AudioRawFrame a" "short_chunk a0 (audio a)" by auto
    from vad_step_no_stop [OF Cons.prems(1) a, of secs rsp] Cons
    show ?case by (simp add: Let_def case_prod_beta)
  qed
  with assms(1,3) show ?thesis by simp
qed

definition demo_vad :: analyzer where
  "demo_vad = (newBaseAnalyzer None)\<lparr>vadFramesNumByte := 2, stopFrames := 20\<rparr>"

theorem vad_processor_never_stops_witness:
  "list_all (\<lambda>x. \<not> is_stopped x) (snd (run_handler (\<lambda>p nf. VADProcessFrame (\<lambda>_. 0) quiet_replies p nf Downstream)
      (NewVADProcessor demo_vad 0 0) [(5, fst (NewAudioRawFrame [1, 2] 8000 1 0 1))]))"
proof -
  obtain p' out where r: "run_handler (\<lambda>p nf. VADProcessFrame (\<lambda>_. 0) quiet_replies p nf Downstream)
      (NewVADProcessor demo_vad 0 0) [(5, fst (NewAudioRawFrame [1, 2] 8000 1 0 1))] = (p', out)"
    by fastforce
  from vad_processor_never_stops [OF _ _ r, of demo_vad] show ?thesis
    unfolding r by (simp add: vp_inv_def NewVADProcessor_def demo_vad_def newBaseAnalyzer_def
        short_chunk_def NewAudioRawFrame_def audio_of_def)
qed

section \<open>AudioBufferProcessor\<close>

datatype recording =
    AudioData "byte list" int int
  | TrackAudioData "byte list" "byte list" int int
  | UserTurnAudio "byte list" int
  | BotTurnAudio "byte list" int

record audio_buffer =
  ab_rate_cfg :: int
  ab_channels :: int
  ab_size :: int
  ab_turns :: bool
  ab_rate :: int
  ab_1s :: int
  ab_recording :: bool
  ab_user :: "byte list"
  ab_bot :: "byte list"
  ab_user_turn :: "byte list"
  ab_bot_turn :: "byte list"
  ab_user_speaking :: bool
  ab_bot_speaking :: bool

definition NewAudioBufferProcessor :: "int \<Rightarrow> int \<Rightarrow> int \<Rightarrow> bool \<Rightarrow> audio_buffer" where
  "NewAudioBufferProcessor r ch sz turns =
     \<lparr>ab_rate_cfg = r, ab_channels = if ch \<le> 0 then 1 else ch, ab_size = sz, ab_turns = turns,
      ab_rate = 0, ab_1s = 0, ab_recording = False, ab_user = [], ab_bot = [], ab_user_turn = [],
      ab_bot_turn = [], ab_user_speaking = False, ab_bot_speaking = False\<rparr>"

definition clear_buffers :: "audio_buffer \<Rightarrow> audio_buffer" where
  "clear_buffers p = p\<lparr>ab_user := [], ab_bot := [], ab_user_turn := [], ab_bot_turn := []\<rparr>"

definition StartRecording :: "audio_buffer \<Rightarrow> audio_buffer" where
  "StartRecording p = clear_buffers (p\<lparr>ab_recording := True\<rparr>)"

definition sync_to :: "byte list \<Rightarrow> nat \<Rightarrow> byte list" where
  "sync_to b n = b @ replicate (n - length b) 0"

definition mergeBuffers :: "audio_buffer \<Rightarrow> byte list" where
  "mergeBuffers p =
     (if ab_channels p = 1 then MixMono (ab_user p) (ab_bot p)
      else if ab_channels p = 2 then InterleaveStereo (ab_user p) (ab_bot p) else [])"

definition alignTrackBuffers :: "audio_buffer \<Rightarrow> audio_buffer" where
  "alignTrackBuffers p =
     (let n = max (length (ab_user p)) (length (ab_bot p))
      in p\<lparr>ab_user := sync_to (ab_user p) n, ab_bot := sync_to (ab_bot p) n\<rparr>)"

text \<open>The callbacks are taken to be set; what they are called with is the output.\<close>

definition callAudioDataHandlers :: "audio_buffer \<Rightarrow> audio_buffer \<times> recording list" where
  "callAudioDataHandlers p =
     (if \<not> ab_recording p \<or> (ab_user p = [] \<and> ab_bot p = []) then (p, [])
      else (let p1 = alignTrackBuffers p; m = mergeBuffers p1 in
            (p1\<lparr>ab_user := [], ab_bot := []\<rparr>,
             (if m \<noteq> [] then [AudioData m (ab_rate p1) (ab_channels p1)] else []) @
             [TrackAudioData (ab_user p1) (ab_bot p1) (ab_rate p1) (ab_channels p1)])))"

definition StopRecording :: "audio_buffer \<Rightarrow> audio_buffer \<times> recording list" where
  "StopRecording p =
     (if \<not> ab_recording p then (p, [])
      else (let (p1, r) = callAudioDataHandlers p in (clear_buffers (p1\<lparr>ab_recording := False\<rparr>), r)))"

definition user_audio :: "audio_buffer \<Rightarrow> audio_data \<Rightarrow> audio_buffer option" where
  "user_audio p a =
     (let r = (if sample_rate a \<le> 0 then 16000 else sample_rate a);
          res = Resample16MonoAlloc (audio a) r (ab_rate p) in
      if audio a = [] \<or> res = [] then None
      else (let p1 = p\<lparr>ab_bot := sync_to (ab_bot p) (length (ab_user p)), ab_user := ab_user p @ res\<rparr> in
            Some (if ab_turns p
              then (let t = ab_user_turn p @ res;
                        t' = (if \<not> ab_user_speaking p \<and> int (length t) > ab_1s p
                              then drop (nat (int (length t) - ab_1s p)) t else t)
                    in p1\<lparr>ab_user_turn := t'\<rparr>)
              else p1)))"

definition processOutputAudio :: "audio_buffer \<Rightarrow> audio_data \<Rightarrow> audio_buffer" where
  "processOutputAudio p a =
     (let r = (if sample_rate a \<le> 0 then 24000 else sample_rate a);
          res = Resample16MonoAlloc (audio a) r (ab_rate p) in
      if audio a = [] \<or> res = [] then p
      else (let p1 = p\<lparr>ab_user := sync_to (ab_user p) (length (ab_bot p)), ab_bot := ab_bot p @ res\<rparr> in
            if ab_turns p \<and> ab_bot_speaking p then p1\<lparr>ab_bot_turn := ab_bot_turn p @ res\<rparr> else p1))"

definition flush_if_full :: "audio_buffer \<Rightarrow> audio_buffer \<times> recording list" where
  "flush_if_full p =
     (if ab_size p > 0 \<and> (int (length (ab_user p)) \<ge> ab_size p \<or> int (length (ab_bot p)) \<ge> ab_size p)
      then callAudioDataHandlers p else (p, []))"

text \<open>The second switch of \<^verbatim>\<open>ProcessFrame\<close>; \<open>None\<close> is its early return.\<close>

definition record_frame :: "audio_buffer \<Rightarrow> frame \<Rightarrow> (audio_buffer \<times> recording list) option" where
  "record_frame p f =
     (case fbody f of
        AudioRawFrame a \<Rightarrow> map_option (\<lambda>q. (q, [])) (user_audio p a)
      | TTSAudioRawFrame a _ \<Rightarrow> Some (processOutputAudio p a, [])
      | OutputAudioRawFrame a _ \<Rightarrow> Some (processOutputAudio p a, [])
      | UserStartedSpeakingFrame \<Rightarrow> Some (p\<lparr>ab_user_speaking := True\<rparr>, [])
      | UserStoppedSpeakingFrame \<Rightarrow>
          Some (p\<lparr>ab_user_speaking := False, ab_user_turn := []\<rparr>,
                if ab_turns p \<and> ab_user_turn p \<noteq> [] then [UserTurnAudio (ab_user_turn p) (ab_rate p)] else [])
      | BotStartedSpeakingFrame \<Rightarrow> Some (p\<lparr>ab_bot_speaking := True\<rparr>, [])
      | BotStoppedSpeakingFrame \<Rightarrow>
          Some (p\<lparr>ab_bot_speaking := False, ab_bot_turn := []\<rparr>,
                if ab_turns p \<and> ab_bot_turn p \<noteq> [] then [BotTurnAudio (ab_bot_turn p) (ab_rate p)] else [])
      | _ \<Rightarrow> Some (p, []))"

definition before_forward :: "audio_buffer \<Rightarrow> frame \<Rightarrow> audio_buffer \<times> recording list" where
  "before_forward p f =
     (case fbody f of
        StartFrame _ out _ _ _ \<Rightarrow>
          (let r = (if ab_rate_cfg p \<le> 0 \<and> out > 0 then out else ab_rate_cfg p);
               r' = (if r \<le> 0 then 16000 else r)
           in (p\<lparr>ab_rate := r', ab_1s := r' * 2\<rparr>, []))
      | CancelFrame _ \<Rightarrow> StopRecording p
      | EndFrame \<Rightarrow> StopRecording p
      | _ \<Rightarrow> (p, []))"

text \<open>The result has the calls of the callbacks as a fourth component. An upstream frame is given
  to the next processor, as the code has it.\<close>

definition AudioBufferProcessFrame ::
  "replies \<Rightarrow> audio_buffer \<Rightarrow> frame \<Rightarrow> direction
     \<Rightarrow> audio_buffer \<times> (direction \<times> frame \<times> direction) list \<times> err option \<times> recording list" where
  "AudioBufferProcessFrame rsp p f d =
     (if d \<noteq> Downstream then (p, [(Downstream, f, d)], rsp Downstream f, [])
      else (let (p1, r1) = before_forward p f in
            if rsp Downstream f \<noteq> None then (p1, [(Downstream, f, d)], rsp Downstream f, r1)
            else if \<not> ab_recording p1 then (p1, [(Downstream, f, d)], None, r1)
            else (case record_frame p1 f of
                None \<Rightarrow> (p1, [(Downstream, f, d)], None, r1)
              | Some (p2, r2) \<Rightarrow>
                  (let (p3, r3) = flush_if_full p2
                   in (p3, [(Downstream, f, d)], None, r1 @ r2 @ r3)))))"

definition ab_inv :: "audio_buffer \<Rightarrow> bool" where
  "ab_inv p \<longleftrightarrow>
     (ab_size p > 0 \<longrightarrow> int (length (ab_user p)) < ab_size p \<and> int (length (ab_bot p)) < ab_size p) \<and>
     (\<not> ab_recording p \<longrightarrow> ab_user p = [] \<and> ab_bot p = [])"

definition recording_ok :: "int \<Rightarrow> recording \<Rightarrow> bool" where
  "recording_ok ch r =
     (case r of TrackAudioData u b _ ch' \<Rightarrow> length u = length b \<and> u \<noteq> [] \<and> ch' = ch
      | AudioData m _ ch' \<Rightarrow> m \<noteq> [] \<and> ch' = ch | _ \<Rightarrow> True)"

lemma length_sync_to [simp]: "length (sync_to b n) = max (length b) n"
  by (simp add: sync_to_def)

lemma sync_to_Nil: "sync_to b n = [] \<longleftrightarrow> b = [] \<and> n = 0"
  by (auto simp: sync_to_def)

lemma callAudioDataHandlers_ok:
  assumes "callAudioDataHandlers p = (p', r)"
  shows "list_all (recording_ok (ab_channels p)) r \<and> ab_size p' = ab_size p \<and>
     ab_channels p' = ab_channels p \<and> ab_recording p' = ab_recording p \<and>
     (ab_recording p \<longrightarrow> ab_user p' = [] \<and> ab_bot p' = []) \<and> (\<not> ab_recording p \<longrightarrow> p' = p)"
proof (cases "\<not> ab_recording p \<or> (ab_user p = [] \<and> ab_bot p = [])")
  case True
  then have "callAudioDataHandlers p = (p, [])" by (simp add: callAudioDataHandlers_def)
  with assms True show ?thesis by auto
next
  case False
  let ?p1 = "alignTrackBuffers p"
  let ?m = "mergeBuffers ?p1"
  have "callAudioDataHandlers p = (?p1\<lparr>ab_user := [], ab_bot := []\<rparr>,
      (if ?m \<noteq> [] then [AudioData ?m (ab_rate ?p1) (ab_channels ?p1)] else []) @
      [TrackAudioData (ab_user ?p1) (ab_bot ?p1) (ab_rate ?p1) (ab_channels ?p1)])"
    unfolding callAudioDataHandlers_def if_not_P [OF False] Let_def by (rule refl)
  moreover have "ab_channels ?p1 = ab_channels p" "ab_size ?p1 = ab_size p"
    "ab_recording ?p1 = ab_recording p" "length (ab_user ?p1) = length (ab_bot ?p1)"
    by (simp_all add: alignTrackBuffers_def Let_def)
  moreover have "ab_user ?p1 \<noteq> []"
    using False by (auto simp: alignTrackBuffers_def Let_def sync_to_Nil)
  ultimately show ?thesis using assms False by (auto simp: recording_ok_def)
qed

lemma StopRecording_ok:
  assumes "StopRecording p = (p', r)" "ab_inv p"
  shows "ab_inv p' \<and> ab_channels p' = ab_channels p \<and> list_all (recording_ok (ab_channels p)) r"
proof (cases "ab_recording p")
  case False
  with assms show ?thesis by (auto simp: StopRecording_def)
next
  case True
  obtain p1 r1 where c: "callAudioDataHandlers p = (p1, r1)" by fastforce
  from callAudioDataHandlers_ok [OF c] assms True c show ?thesis
    by (auto simp: StopRecording_def ab_inv_def clear_buffers_def)
qed

lemma before_forward_ok:
  assumes "before_forward p f = (p', r)" "ab_inv p"
  shows "ab_inv p' \<and> ab_channels p' = ab_channels p \<and> list_all (recording_ok (ab_channels p)) r"
proof (cases "fbody f")
  case (CancelFrame x)
  with assms StopRecording_ok show ?thesis by (simp add: before_forward_def)
next
  case EndFrame
  with assms StopRecording_ok show ?thesis by (simp add: before_forward_def)
qed (use assms in \<open>auto simp: before_forward_def ab_inv_def Let_def\<close>)

lemma user_audio_frame:
  "user_audio p a = Some q \<Longrightarrow>
     ab_channels q = ab_channels p \<and> ab_size q = ab_size p \<and> ab_recording q = ab_recording p"
  by (auto simp: user_audio_def Let_def split: if_splits)

lemma output_audio_frame [simp]:
  "ab_channels (processOutputAudio p a) = ab_channels p" "ab_size (processOutputAudio p a) = ab_size p"
  "ab_recording (processOutputAudio p a) = ab_recording p"
  by (simp_all add: processOutputAudio_def Let_def)

lemma recording_ok_turns [simp]:
  "recording_ok c (UserTurnAudio u x)" "recording_ok c (BotTurnAudio u x)"
  by (simp_all add: recording_ok_def)

lemma record_frame_ok:
  assumes "record_frame p f = Some (q, r)"
  shows "ab_channels q = ab_channels p \<and> ab_size q = ab_size p \<and> ab_recording q = ab_recording p \<and>
     list_all (recording_ok (ab_channels p)) r"
proof (cases "fbody f")
  case (AudioRawFrame a)
  with assms have "user_audio p a = Some q" "r = []" by (auto simp: record_frame_def)
  with user_audio_frame show ?thesis by simp
next
  case UserStoppedSpeakingFrame
  with assms show ?thesis by (simp add: record_frame_def) (elim conjE, hypsubst, simp)
next
  case BotStoppedSpeakingFrame
  with assms show ?thesis by (simp add: record_frame_def) (elim conjE, hypsubst, simp)
qed (insert assms, simp add: record_frame_def, (elim conjE, hypsubst, simp)?)+

lemma flush_ok:
  assumes "flush_if_full p = (q, r)" "ab_recording p"
  shows "ab_inv q \<and> ab_channels q = ab_channels p \<and> list_all (recording_ok (ab_channels p)) r"
proof (cases "ab_size p > 0 \<and> (int (length (ab_user p)) \<ge> ab_size p \<or> int (length (ab_bot p)) \<ge> ab_size p)")
  case True
  then have "callAudioDataHandlers p = (q, r)" using assms(1) by (simp add: flush_if_full_def)
  from callAudioDataHandlers_ok [OF this] assms(2) show ?thesis by (auto simp: ab_inv_def)
next
  case False
  then have "q = p" "r = []" using assms(1) by (auto simp: flush_if_full_def)
  with False assms(2) show ?thesis by (auto simp: ab_inv_def)
qed

definition ab_step :: "replies \<Rightarrow> audio_buffer \<Rightarrow> frame \<Rightarrow> audio_buffer \<times> recording list" where
  "ab_step rsp p f = (case AudioBufferProcessFrame rsp p f Downstream of (p', _, _, r) \<Rightarrow> (p', r))"

lemma ab_step_ok:
  assumes "ab_inv p"
  shows "ab_inv (fst (ab_step rsp p f)) \<and> ab_channels (fst (ab_step rsp p f)) = ab_channels p \<and>
    list_all (recording_ok (ab_channels p)) (snd (ab_step rsp p f))"
proof -
  obtain p1 r1 where b: "before_forward p f = (p1, r1)" by fastforce
  note 1 = before_forward_ok [OF b assms]
  consider (stop) "rsp Downstream f \<noteq> None \<or> \<not> ab_recording p1 \<or> record_frame p1 f = None"
    | (rec) q r2 where "rsp Downstream f = None" "ab_recording p1" "record_frame p1 f = Some (q, r2)"
    by (cases "record_frame p1 f") auto
  then show ?thesis
  proof cases
    case stop
    then have "ab_step rsp p f = (p1, r1)" by (auto simp: ab_step_def AudioBufferProcessFrame_def b)
    with 1 show ?thesis by simp
  next
    case rec
    obtain q3 r3 where f: "flush_if_full q = (q3, r3)" by fastforce
    note 2 = record_frame_ok [OF rec(3)]
    note 3 = flush_ok [OF f]
    have "ab_step rsp p f = (q3, r1 @ r2 @ r3)"
      by (simp add: ab_step_def AudioBufferProcessFrame_def b rec f)
    with 1 2 3 rec(2) show ?thesis by simp
  qed
qed

interpretation recording: machine_out "ab_step rsp" "\<lambda>p. ab_inv p \<and> ab_channels p = c" "recording_ok c"
  by unfold_locales (use ab_step_ok in auto)

text \<open>Over any downstream frames the audio buffer's two tracks stay below the configured buffer size
  between frames, and every recording it hands out has both tracks of the same non-zero length.\<close>

theorem audio_buffer_bounded:
  "run (ab_step rsp) (StartRecording (NewAudioBufferProcessor r ch sz turns)) fs = (p, recs) \<Longrightarrow>
     (sz > 0 \<longrightarrow> int (length (ab_user p)) < ab_size p \<and> int (length (ab_bot p)) < ab_size p) \<and>
     list_all (recording_ok (if ch \<le> 0 then 1 else ch)) recs \<and> ab_inv p"
proof -
  assume r: "run (ab_step rsp) (StartRecording (NewAudioBufferProcessor r ch sz turns)) fs = (p, recs)"
  let ?p = "StartRecording (NewAudioBufferProcessor r ch sz turns)"
  have i: "ab_inv ?p \<and> ab_channels ?p = (if ch \<le> 0 then 1 else ch)"
    by (simp add: ab_inv_def StartRecording_def clear_buffers_def NewAudioBufferProcessor_def)
  have sz: "ab_size (fst (ab_step rsp q f)) = ab_size q" for q f
  proof -
    have call: "ab_size (fst (callAudioDataHandlers q)) = ab_size q" for q
      using callAudioDataHandlers_ok [of q] by (cases "callAudioDataHandlers q") simp
    have "ab_size (fst (StopRecording q)) = ab_size q" for q
      using call [of q] by (simp add: StopRecording_def case_prod_beta clear_buffers_def)
    then have bf: "ab_size (fst (before_forward q f)) = ab_size q"
      by (cases "fbody f") (simp_all add: before_forward_def Let_def)
    show ?thesis
      using bf record_frame_ok [of "fst (before_forward q f)" f]
      by (auto simp: ab_step_def AudioBufferProcessFrame_def case_prod_beta flush_if_full_def call
          split: option.splits)
  qed
  have "ab_size (fst (run (ab_step rsp) q fs)) = ab_size q" for q
    by (induction fs arbitrary: q) (simp_all add: Let_def case_prod_beta sz)
  from this [of ?p] have "ab_size p = sz"
    unfolding r by (simp add: StartRecording_def clear_buffers_def NewAudioBufferProcessor_def)
  with recording.run_inv [OF i, of rsp fs] recording.run_ok [OF i, of rsp fs] r show ?thesis
    by (auto simp: ab_inv_def)
qed

theorem audio_buffer_bounded_witness:
  "ab_inv (fst (run (ab_step quiet_replies) (StartRecording (NewAudioBufferProcessor 8000 1 4 False))
      [fst (NewStartFrame 0), fst (NewTTSAudioRawFrame [1, 2, 3, 4, 5, 6] 8000 1), fst (NewEndFrame 2)]))"
proof -
  obtain p recs where r: "run (ab_step quiet_replies) (StartRecording (NewAudioBufferProcessor 8000 1 4 False))
      [fst (NewStartFrame 0), fst (NewTTSAudioRawFrame [1, 2, 3, 4, 5, 6] 8000 1), fst (NewEndFrame 2)] =
      (p, recs)" by fastforce
  from audio_buffer_bounded [OF r] r show ?thesis by simp
qed

end
