(* ===== verification/FilterProcs.thy ===== *)
theory FilterProcs
  imports Handler
begin

text \<open>
  The frame filters of \<^verbatim>\<open>pkg/processors/filters\<close>. Constructors from JSON options only fill the
  fields; the regular expressions of the wake filter and the callback of the custom mute strategy
  are parameters.
\<close>

definition isLifecycleFrame :: "frame \<Rightarrow> bool" where
  "isLifecycleFrame f =
     (case fbody f of StartFrame _ _ _ _ _ \<Rightarrow> True | EndFrame \<Rightarrow> True | CancelFrame _ \<Rightarrow> True
      | StopFrame \<Rightarrow> True | ErrorFrame _ _ _ \<Rightarrow> True | _ \<Rightarrow> False)"

text \<open>The base handler: downstream to the next, upstream to the previous processor.\<close>

definition forward :: "replies \<Rightarrow> 's \<Rightarrow> frame \<Rightarrow> direction \<Rightarrow> 's \<times> push list \<times> err option" where
  "forward rsp s f d = hand rsp s d f"

definition drop_frame :: "'s \<Rightarrow> 's \<times> push list \<times> err option" where
  "drop_frame s = (s, [], None)"

section \<open>Stateless filters\<close>

definition FrameFilterProcessFrame ::
  "replies \<Rightarrow> string set \<Rightarrow> frame \<Rightarrow> direction \<Rightarrow> string set \<times> push list \<times> err option" where
  "FrameFilterProcessFrame rsp allowed f d =
     (if isLifecycleFrame f then forward rsp allowed f d
      else if frame_type f \<in> allowed then forward rsp allowed f d
      else drop_frame allowed)"

text \<open>A direction of \<open>None\<close> (zero in the code) filters both.\<close>

record function_filter =
  ff_filter :: "frame \<Rightarrow> bool"
  ff_dir :: "direction option"
  ff_system :: bool

definition NewFunctionFilter :: "(frame \<Rightarrow> bool) option \<Rightarrow> direction option \<Rightarrow> bool \<Rightarrow> function_filter" where
  "NewFunctionFilter flt d sys =
     \<lparr>ff_filter = (case flt of None \<Rightarrow> (\<lambda>_. True) | Some g \<Rightarrow> g), ff_dir = d, ff_system = sys\<rparr>"

definition NewFunctionFilterFromOptions :: "string \<Rightarrow> bool \<Rightarrow> function_filter" where
  "NewFunctionFilterFromOptions dirname sys =
     NewFunctionFilter (Some (\<lambda>_. True))
       (if dirname = ''upstream'' then Some Upstream
        else if dirname = ''downstream'' then Some Downstream else None) sys"

definition FunctionFilterProcessFrame ::
  "replies \<Rightarrow> function_filter \<Rightarrow> frame \<Rightarrow> direction \<Rightarrow> function_filter \<times> push list \<times> err option" where
  "FunctionFilterProcessFrame rsp p f d =
     (if isLifecycleFrame f then forward rsp p f d
      else if ff_dir p \<noteq> None \<and> ff_dir p \<noteq> Some d then forward rsp p f d
      else if \<not> ff_filter p f then drop_frame p
      else forward rsp p f d)"

definition IdentityFilterProcessFrame ::
  "replies \<Rightarrow> unit \<Rightarrow> frame \<Rightarrow> direction \<Rightarrow> unit \<times> push list \<times> err option" where
  "IdentityFilterProcessFrame rsp p f d = forward rsp p f d"

definition NullFilterProcessFrame ::
  "replies \<Rightarrow> unit \<Rightarrow> frame \<Rightarrow> direction \<Rightarrow> unit \<times> push list \<times> err option" where
  "NullFilterProcessFrame rsp p f d = (if \<not> isLifecycleFrame f then drop_frame p else forward rsp p f d)"

text \<open>What the filters promise: a lifecycle frame passes unchanged, and any frame passes at most
  once, unchanged, in its own direction.\<close>

locale frame_filter =
  fixes process :: "replies \<Rightarrow> 's \<Rightarrow> frame \<Rightarrow> direction \<Rightarrow> 's \<times> push list \<times> err option"
  assumes passes_lifecycle: "isLifecycleFrame f \<Longrightarrow> fst (snd (process rsp s f d)) = [(d, f)]"
    and passes_or_drops: "fst (snd (process rsp s f d)) \<in> {[], [(d, f)]}"
begin

text \<open>So over a run what comes out is a subsequence that keeps every lifecycle frame.\<close>

lemma run_filter:
  "\<exists>P. list_all2 (\<lambda>f p. isLifecycleFrame f \<longrightarrow> p) fs P \<and>
     snd (run_handler (\<lambda>s f. process rsp s f d) s fs) =
       map (Pair d) (map fst (filter snd (zip fs P)))"
proof (induction fs arbitrary: s)
  case Nil
  then show ?case by simp
next
  case (Cons f fs)
  obtain P where P: "list_all2 (\<lambda>f p. isLifecycleFrame f \<longrightarrow> p) fs P"
    "snd (run_handler (\<lambda>s f. process rsp s f d) (fst (process rsp s f d)) fs) =
       map (Pair d) (map fst (filter snd (zip fs P)))"
    using Cons.IH by blast
  show ?case
    using passes_or_drops [of rsp s f d] passes_lifecycle [of f rsp s d] P
    by (intro exI [of _ "(fst (snd (process rsp s f d)) \<noteq> []) # P"])
      (auto simp: Let_def case_prod_beta)
qed

end

interpretation type_filter: frame_filter FrameFilterProcessFrame
  by unfold_locales (auto simp: FrameFilterProcessFrame_def forward_def drop_frame_def)

interpretation function_filter: frame_filter FunctionFilterProcessFrame
  by unfold_locales (auto simp: FunctionFilterProcessFrame_def forward_def drop_frame_def)

interpretation identity_filter: frame_filter IdentityFilterProcessFrame
  by unfold_locales (auto simp: IdentityFilterProcessFrame_def forward_def)

interpretation null_filter: frame_filter NullFilterProcessFrame
  by unfold_locales (auto simp: NullFilterProcessFrame_def forward_def drop_frame_def)

section \<open>STTMuteFilter\<close>

datatype mute_strategy = FirstSpeech | UntilFirstBotComplete | AlwaysMute | CustomMute | OtherStrategy

record stt_mute =
  sm_strategies :: "mute_strategy list"
  sm_callback :: "bool option"
  sm_first_handled :: bool
  sm_bot_speaking :: bool
  sm_muted :: bool

definition NewSTTMuteFilter :: "mute_strategy list \<Rightarrow> bool option \<Rightarrow> stt_mute" where
  "NewSTTMuteFilter ss cb =
     \<lparr>sm_strategies = ss, sm_callback = cb, sm_first_handled = False, sm_bot_speaking = False,
      sm_muted = False\<rparr>"

text \<open>\<open>sm_callback\<close> is what the custom callback answers, if there is one.\<close>

definition mutes :: "stt_mute \<Rightarrow> mute_strategy \<Rightarrow> bool" where
  "mutes p st =
     (case st of
        AlwaysMute \<Rightarrow> sm_bot_speaking p
      | FirstSpeech \<Rightarrow> sm_bot_speaking p \<and> \<not> sm_first_handled p
      | UntilFirstBotComplete \<Rightarrow> \<not> sm_first_handled p
      | CustomMute \<Rightarrow> sm_bot_speaking p \<and> sm_callback p = Some True
      | OtherStrategy \<Rightarrow> False)"

definition shouldMute :: "stt_mute \<Rightarrow> bool" where
  "shouldMute p = list_ex (mutes p) (sm_strategies p)"

definition isSTTOrVADFrame :: "frame \<Rightarrow> bool" where
  "isSTTOrVADFrame f =
     (case fbody f of VADUserStartedSpeakingFrame _ \<Rightarrow> True | VADUserStoppedSpeakingFrame _ \<Rightarrow> True
      | UserStartedSpeakingFrame \<Rightarrow> True | UserStoppedSpeakingFrame \<Rightarrow> True
      | TranscriptionFrame _ _ _ _ _ \<Rightarrow> True | InterruptionFrame \<Rightarrow> True | _ \<Rightarrow> False)"

definition mute_update :: "stt_mute \<Rightarrow> frame \<Rightarrow> stt_mute" where
  "mute_update p f =
     (case fbody f of
        BotStartedSpeakingFrame \<Rightarrow>
          (let p1 = p\<lparr>sm_bot_speaking := True, sm_first_handled := True\<rparr> in p1\<lparr>sm_muted := shouldMute p1\<rparr>)
      | BotStoppedSpeakingFrame \<Rightarrow>
          (let p1 = p\<lparr>sm_bot_speaking := False\<rparr> in p1\<lparr>sm_muted := shouldMute p1\<rparr>)
      | StartFrame _ _ _ _ _ \<Rightarrow> p\<lparr>sm_muted := shouldMute p\<rparr>
      | _ \<Rightarrow> p)"

definition STTMuteProcessFrame ::
  "replies \<Rightarrow> stt_mute \<Rightarrow> frame \<Rightarrow> direction \<Rightarrow> stt_mute \<times> push list \<times> err option" where
  "STTMuteProcessFrame rsp p f d =
     (let p1 = mute_update p f in
      if isSTTOrVADFrame f \<and> sm_muted p1 then drop_frame p1 else forward rsp p1 f d)"

interpretation stt_mute: frame_filter STTMuteProcessFrame
  by unfold_locales
    (auto simp: STTMuteProcessFrame_def forward_def drop_frame_def Let_def isLifecycleFrame_def
      isSTTOrVADFrame_def split: body.splits)

definition mute_inv :: "stt_mute \<Rightarrow> bool" where
  "mute_inv p \<longleftrightarrow> (sm_bot_speaking p \<longrightarrow> sm_first_handled p) \<and>
     (FirstSpeech \<in> set (sm_strategies p) \<longrightarrow> sm_strategies p = [FirstSpeech] \<longrightarrow> \<not> sm_muted p) \<and>
     (sm_strategies p = [UntilFirstBotComplete] \<and> sm_first_handled p \<longrightarrow> \<not> sm_muted p)"

lemma mute_update_inv: "mute_inv p \<Longrightarrow> mute_inv (mute_update p f)"
  by (cases "fbody f") (auto simp: mute_update_def mute_inv_def shouldMute_def mutes_def Let_def)

lemma mute_update_strategies [simp]: "sm_strategies (mute_update p f) = sm_strategies p"
  by (cases "fbody f") (auto simp: mute_update_def Let_def)

lemma mute_update_handled:
  "fbody f = BotStartedSpeakingFrame \<Longrightarrow> sm_first_handled (mute_update p f)"
  "sm_first_handled p \<Longrightarrow> sm_first_handled (mute_update p f)"
  by (cases "fbody f"; simp add: mute_update_def Let_def)+

lemma mute_step [simp]: "fst (STTMuteProcessFrame rsp p f d) = mute_update p f"
  by (simp add: STTMuteProcessFrame_def Let_def forward_def drop_frame_def)

lemma mute_run:
  "mute_inv p \<Longrightarrow> mute_inv (foldl mute_update p fs) \<and>
     sm_strategies (foldl mute_update p fs) = sm_strategies p \<and>
     (sm_first_handled p \<or> (\<exists>f \<in> set fs. fbody f = BotStartedSpeakingFrame) \<longrightarrow>
        sm_first_handled (foldl mute_update p fs))"
proof (induction fs arbitrary: p)
  case Nil
  then show ?case by simp
next
  case (Cons f fs)
  from Cons.IH [OF mute_update_inv [OF Cons.prems]] mute_update_handled(1) [of f p]
    mute_update_handled(2) [of p f] show ?case by auto
qed

text \<open>Two mute strategies do not do what they are named after. With only \<open>first_speech\<close> no frame is
  ever suppressed, because the first bot speech is marked as handled before the strategy is asked;
  and with only \<open>mute_until_first_bot_complete\<close> muting ends when the bot starts to speak, not when
  its first speech is complete: after the first bot-started frame nothing is suppressed any more.\<close>

theorem stt_mute_first_speech_strategies:
  "let p1 = foldl mute_update (NewSTTMuteFilter [FirstSpeech] cb) fs;
       p2 = foldl mute_update (NewSTTMuteFilter [UntilFirstBotComplete] cb)
              (fs @ Frame ba BotStartedSpeakingFrame # gs)
   in fst (snd (STTMuteProcessFrame rsp p1 f d)) = [(d, f)] \<and>
      fst (snd (STTMuteProcessFrame rsp p2 f d)) = [(d, f)]"
proof -
  let ?p1 = "foldl mute_update (NewSTTMuteFilter [FirstSpeech] cb) fs"
  let ?gs = "fs @ Frame ba BotStartedSpeakingFrame # gs"
  let ?p2 = "foldl mute_update (NewSTTMuteFilter [UntilFirstBotComplete] cb) ?gs"
  have i: "mute_inv (NewSTTMuteFilter ss cb)" for ss by (auto simp: mute_inv_def NewSTTMuteFilter_def)
  have s: "sm_strategies (NewSTTMuteFilter ss cb) = ss" for ss by (simp add: NewSTTMuteFilter_def)
  have "\<not> sm_muted (mute_update ?p1 f)"
    using mute_run [OF i [of "[FirstSpeech]"], of fs] mute_update_inv [of ?p1 f]
    by (auto simp: mute_inv_def s)
  moreover have "sm_first_handled ?p2" "mute_inv ?p2" "sm_strategies ?p2 = [UntilFirstBotComplete]"
    using mute_run [OF i [of "[UntilFirstBotComplete]"], of ?gs] by (auto simp: s)
  then have "\<not> sm_muted (mute_update ?p2 f)"
    using mute_update_inv [of ?p2 f] mute_update_handled(2) [of ?p2 f] by (auto simp: mute_inv_def)
  ultimately show ?thesis by (auto simp: STTMuteProcessFrame_def Let_def forward_def)
qed

section \<open>WakeCheckFilter\<close>

record participant =
  wk_awake :: bool
  wk_timer :: int
  wk_acc :: string

text \<open>\<open>wk_find\<close> tries the compiled patterns in order on the accumulated text and gives the end of
  the first match; the phrases it stands for are those left after trimming.\<close>

record wake_check =
  wk_find :: "string \<Rightarrow> nat option"
  wk_keepalive :: int
  wk_people :: "string \<rightharpoonup> participant"

definition NewWakeCheckFilter :: "(string \<Rightarrow> nat option) \<Rightarrow> int \<Rightarrow> wake_check" where
  "NewWakeCheckFilter fnd keep =
     \<lparr>wk_find = fnd, wk_keepalive = if keep \<le> 0 then 3000000000 else keep, wk_people = Map.empty\<rparr>"

definition WakeCheckProcessFrame ::
  "replies \<Rightarrow> wake_check \<Rightarrow> int \<times> frame \<Rightarrow> direction \<Rightarrow> wake_check \<times> push list \<times> err option" where
  "WakeCheckProcessFrame rsp p nf d =
     (let (now, f) = nf in
      case fbody f of
        TranscriptionFrame t user time lang final \<Rightarrow>
          (let ps = (case wk_people p user of None \<Rightarrow> \<lparr>wk_awake = False, wk_timer = 0, wk_acc = []\<rparr> | Some q \<Rightarrow> q) in
           if wk_awake ps \<and> now - wk_timer ps < wk_keepalive p
           then forward rsp (p\<lparr>wk_people := (wk_people p)(user \<mapsto> ps\<lparr>wk_timer := now\<rparr>)\<rparr>) f d
           else (let acc = wk_acc ps @ tdata t in
                 case wk_find p acc of
                   None \<Rightarrow> drop_frame (p\<lparr>wk_people := (wk_people p)(user \<mapsto>
                             ps\<lparr>wk_awake := False, wk_acc := acc\<rparr>)\<rparr>)
                 | Some e \<Rightarrow>
                     forward rsp (p\<lparr>wk_people := (wk_people p)(user \<mapsto>
                         \<lparr>wk_awake = True, wk_timer = now, wk_acc = []\<rparr>)\<rparr>)
                       (Frame (fbase f) (TranscriptionFrame (t\<lparr>tdata := drop e acc\<rparr>) user time lang final)) d))
      | _ \<Rightarrow> forward rsp p f d)"

lemma wake_needs_phrase:
  assumes "fst (snd (WakeCheckProcessFrame rsp p (now, f) d)) \<noteq> []"
    "fbody f = TranscriptionFrame t user time lang final"
  shows "\<exists>ps. wk_people (fst (WakeCheckProcessFrame rsp p (now, f) d)) user = Some ps \<and>
    wk_awake ps \<and> wk_timer ps = now"
  using assms
  by (auto simp: WakeCheckProcessFrame_def Let_def drop_frame_def forward_def
      split: option.splits if_splits)

section \<open>WakeNotifierFilter\<close>

text \<open>The fourth component is whether the notifier was called.\<close>

record wake_notifier =
  wn_notifier :: bool
  wn_types :: "string set"
  wn_pred :: "(frame \<Rightarrow> bool) option"

definition WakeNotifierProcessFrame ::
  "replies \<Rightarrow> wake_notifier \<Rightarrow> frame \<Rightarrow> direction \<Rightarrow> wake_notifier \<times> push list \<times> err option \<times> bool" where
  "WakeNotifierProcessFrame rsp p f d =
     (p, [(d, f)], rsp d f,
      wn_notifier p \<and> frame_type f \<in> wn_types p \<and> (case wn_pred p of None \<Rightarrow> True | Some g \<Rightarrow> g f))"

end
