(* ===== verification/TextAgg.thy ===== *)
theory TextAgg
  imports GoStrings
begin

text \<open>
  Aggregation of streamed text: \<^verbatim>\<open>pkg/utils/sentence\<close>, \<^verbatim>\<open>textaggregator\<close> and
  \<^verbatim>\<open>patternaggregator\<close>. A string is its bytes; a rune is the list of its UTF-8 bytes, and a byte
  that starts no valid rune decodes to U+FFFD, as \<^verbatim>\<open>[]rune(s)\<close> has it.
\<close>

section \<open>Runes\<close>

definition byte_in :: "nat \<Rightarrow> nat \<Rightarrow> char \<Rightarrow> bool" where
  "byte_in lo hi c \<longleftrightarrow> lo \<le> of_char c \<and> of_char c \<le> hi"

definition two_bytes :: "char \<Rightarrow> char \<Rightarrow> bool" where
  "two_bytes a b \<longleftrightarrow> byte_in 194 223 a \<and> byte_in 128 191 b"

definition three_bytes :: "char \<Rightarrow> char \<Rightarrow> char \<Rightarrow> bool" where
  "three_bytes a b c \<longleftrightarrow>
     (byte_in 224 224 a \<and> byte_in 160 191 b \<or> byte_in 237 237 a \<and> byte_in 128 159 b
      \<or> (byte_in 225 236 a \<or> byte_in 238 239 a) \<and> byte_in 128 191 b) \<and> byte_in 128 191 c"

definition four_bytes :: "char \<Rightarrow> char \<Rightarrow> char \<Rightarrow> char \<Rightarrow> bool" where
  "four_bytes a b c d \<longleftrightarrow>
     (byte_in 240 240 a \<and> byte_in 144 191 b \<or> byte_in 241 243 a \<and> byte_in 128 191 b
      \<or> byte_in 244 244 a \<and> byte_in 128 143 b) \<and> byte_in 128 191 c \<and> byte_in 128 191 d"

text \<open>The length of the valid rune at the front, 0 if there is none.\<close>

definition rune_size :: "string \<Rightarrow> nat" where
  "rune_size s =
     (case s of
        [] \<Rightarrow> 0
      | a # r \<Rightarrow>
          if byte_in 0 127 a then 1
          else (case r of
              [] \<Rightarrow> 0
            | b # r1 \<Rightarrow>
                if two_bytes a b then 2
                else (case r1 of
                    [] \<Rightarrow> 0
                  | c # r2 \<Rightarrow>
                      if three_bytes a b c then 3
                      else (case r2 of [] \<Rightarrow> 0 | d # _ \<Rightarrow> if four_bytes a b c d then 4 else 0))))"

definition rune_error :: string where
  "rune_error = [CHR 0xEF, CHR 0xBF, CHR 0xBD]"

lemma rune_size_le: "rune_size s \<le> length s"
  by (simp add: rune_size_def split: list.splits)

function runes_of :: "string \<Rightarrow> string list" where
  "runes_of s =
     (if s = [] then []
      else (let n = rune_size s in
            if n = 0 then rune_error # runes_of (tl s) else take n s # runes_of (drop n s)))"
  by pat_completeness auto
termination by (relation "measure length") (auto simp: rune_size_def)

declare runes_of.simps [simp del]

lemma runes_of_Nil [simp]: "runes_of [] = []"
  by (simp add: runes_of.simps)

definition is_rune :: "string \<Rightarrow> bool" where
  "is_rune r \<longleftrightarrow> r \<noteq> [] \<and> rune_size r = length r"

lemma rune_shapes:
  obtains "s = []" | a where "s = [a]" | a b where "s = [a, b]" | a b c where "s = [a, b, c]"
    | a b c d r where "s = a # b # c # d # r"
  by (metis list.exhaust)

lemma rune_size_append: "rune_size s \<noteq> 0 \<Longrightarrow> rune_size (s @ t) = rune_size s"
  by (cases s rule: rune_shapes) (simp_all add: rune_size_def split: if_splits)

lemma rune_size_take: "n = rune_size s \<Longrightarrow> n \<noteq> 0 \<Longrightarrow> rune_size (take n s) = n"
  by (cases s rule: rune_shapes) (simp_all add: rune_size_def split: if_splits)

lemma is_rune_error: "is_rune rune_error"
  by (simp add: is_rune_def rune_error_def rune_size_def two_bytes_def three_bytes_def byte_in_def)

lemma is_rune_runes_of: "r \<in> set (runes_of s) \<Longrightarrow> is_rune r"
proof (induction s rule: runes_of.induct)
  case (1 s)
  show ?case
  proof (cases "s = []")
    case True
    with 1 show ?thesis by simp
  next
    case False
    show ?thesis
    proof (cases "rune_size s = 0")
      case True
      with 1 False show ?thesis by (auto simp: runes_of.simps [of s] is_rune_error)
    next
      case n: False
      have "is_rune (take (rune_size s) s)"
        using n rune_size_take [of "rune_size s" s] rune_size_le [of s] False
        by (auto simp: is_rune_def min_def)
      with 1 False n show ?thesis by (auto simp: runes_of.simps [of s] Let_def)
    qed
  qed
qed

lemma runes_of_rune: "is_rune r \<Longrightarrow> runes_of (r @ s) = r # runes_of s"
  using rune_size_append [of r s]
  by (auto simp: is_rune_def runes_of.simps [of "r @ s"] Let_def)

lemma runes_of_concat: "list_all is_rune rs \<Longrightarrow> runes_of (concat rs) = rs"
  by (induction rs) (auto simp: runes_of_rune)

lemma list_all_runes: "list_all is_rune (runes_of s)"
  by (auto simp: list_all_iff is_rune_runes_of)

text \<open>Valid strings are those that decoding leaves alone.\<close>

definition utf8_valid :: "string \<Rightarrow> bool" where
  "utf8_valid s \<longleftrightarrow> concat (runes_of s) = s"

lemma runes_of_append: "utf8_valid s \<Longrightarrow> runes_of (s @ t) = runes_of s @ runes_of t"
proof -
  have "list_all is_rune rs \<Longrightarrow> runes_of (concat rs @ t) = rs @ runes_of t" for rs
    by (induction rs) (auto simp: runes_of_rune)
  then show "utf8_valid s \<Longrightarrow> ?thesis"
    using list_all_runes [of s] unfolding utf8_valid_def by metis
qed

lemma utf8_valid_append: "utf8_valid s \<Longrightarrow> utf8_valid t \<Longrightarrow> utf8_valid (s @ t)"
  by (simp add: utf8_valid_def runes_of_append)

lemma utf8_valid_concat: "list_all is_rune rs \<Longrightarrow> utf8_valid (concat rs)"
  by (simp add: utf8_valid_def runes_of_concat)

section \<open>Sentence ends\<close>

definition ContainsRune :: "string \<Rightarrow> string \<Rightarrow> bool" where
  "ContainsRune s r \<longleftrightarrow> r \<in> set (runes_of s)"

definition MatchEndOfSentence :: "string \<Rightarrow> string \<Rightarrow> bool" where
  "MatchEndOfSentence s end_chars =
     (let t = TrimSpace s; ends = (if end_chars = [] then ''.!?'' else end_chars) in
      if t = [] then False
      else if runes_of t = [] then False
      else ContainsRune ends (last (runes_of t)))"

section \<open>The sentence aggregator\<close>

record sentence_agg =
  sa_end :: string
  sa_max :: int
  sa_buf :: string

definition NewSentenceAggregator :: "string \<Rightarrow> int \<Rightarrow> sentence_agg" where
  "NewSentenceAggregator ends mx =
     \<lparr>sa_end = if ends = [] then ''.!?'' else ends, sa_max = mx, sa_buf = []\<rparr>"

text \<open>The number of runes up to and including the first of the given ones.\<close>

fun first_end :: "string list \<Rightarrow> string list \<Rightarrow> nat option" where
  "first_end ends [] = None"
| "first_end ends (r # rs) = (if r \<in> set ends then Some 1 else map_option Suc (first_end ends rs))"

definition cut_at :: "sentence_agg \<Rightarrow> string list \<Rightarrow> nat option" where
  "cut_at s rs =
     (if sa_max s > 0 \<and> int (length rs) \<ge> sa_max s then Some (nat (sa_max s))
      else first_end (runes_of (sa_end s)) rs)"

definition tryCut :: "sentence_agg \<Rightarrow> (string \<times> sentence_agg) option" where
  "tryCut s =
     (if sa_buf s = [] then None
      else (let rs = runes_of (sa_buf s) in
            case cut_at s rs of
              None \<Rightarrow> None
            | Some n \<Rightarrow> Some (TrimSpace (concat (take n rs)), s\<lparr>sa_buf := concat (drop n rs)\<rparr>)))"

lemma first_end_bounds: "first_end ends rs = Some n \<Longrightarrow> 0 < n \<and> n \<le> length rs"
  by (induction rs arbitrary: n) (auto split: if_splits)

lemma cut_at_bounds: "cut_at s rs = Some n \<Longrightarrow> 0 < n \<and> n \<le> length rs"
  using first_end_bounds by (auto simp: cut_at_def split: if_splits)

lemma tryCut_shorter:
  "tryCut s = Some (x, s') \<Longrightarrow> length (runes_of (sa_buf s')) < length (runes_of (sa_buf s))"
proof -
  assume t: "tryCut s = Some (x, s')"
  then obtain n where n: "cut_at s (runes_of (sa_buf s)) = Some n"
    "sa_buf s' = concat (drop n (runes_of (sa_buf s)))"
    by (auto simp: tryCut_def Let_def split: if_splits option.splits)
  have "list_all is_rune (drop n (runes_of (sa_buf s)))"
    using list_all_runes by (auto simp: list_all_iff dest: in_set_dropD)
  with n cut_at_bounds [OF n(1)] show ?thesis by (auto simp: runes_of_concat)
qed

function cut_loop :: "sentence_agg \<Rightarrow> sentence_agg \<times> string list" where
  "cut_loop s =
     (case tryCut s of
        None \<Rightarrow> (s, [])
      | Some (x, s') \<Rightarrow> (let (s2, xs) = cut_loop s' in (s2, x # xs)))"
  by pat_completeness auto
termination
  by (relation "measure (\<lambda>s. length (runes_of (sa_buf s)))") (auto simp: tryCut_shorter)

declare cut_loop.simps [simp del]

definition Aggregate :: "sentence_agg \<Rightarrow> string \<Rightarrow> sentence_agg \<times> string list" where
  "Aggregate s text = cut_loop (s\<lparr>sa_buf := sa_buf s @ text\<rparr>)"

definition FlushSentence :: "sentence_agg \<Rightarrow> sentence_agg \<times> string option" where
  "FlushSentence s =
     (let t = TrimSpace (sa_buf s) in (s\<lparr>sa_buf := []\<rparr>, if t = [] then None else Some t))"

definition HandleInterruption :: "sentence_agg \<Rightarrow> sentence_agg" where
  "HandleInterruption s = s\<lparr>sa_buf := []\<rparr>"

lemma cut_loop_splits:
  "utf8_valid (sa_buf s) \<Longrightarrow> cut_loop s = (s', segs) \<Longrightarrow>
     (\<exists>raws. map TrimSpace raws = segs \<and> concat raws @ sa_buf s' = sa_buf s) \<and>
     utf8_valid (sa_buf s') \<and> sa_end s' = sa_end s \<and> sa_max s' = sa_max s \<and>
     (cut_at s' (runes_of (sa_buf s')) = None \<or> sa_buf s' = [])"
proof (induction s arbitrary: s' segs rule: cut_loop.induct)
  case (1 s)
  show ?case
  proof (cases "tryCut s")
    case None
    with 1(3) have "s' = s" "segs = []" by (simp_all add: cut_loop.simps [of s])
    with 1(2) None show ?thesis
      by (auto simp: tryCut_def Let_def split: if_splits option.splits)
  next
    case (Some q)
    obtain x s1 where q: "q = (x, s1)" by fastforce
    let ?rs = "runes_of (sa_buf s)"
    obtain n where n: "cut_at s ?rs = Some n" "x = TrimSpace (concat (take n ?rs))"
      "s1 = s\<lparr>sa_buf := concat (drop n ?rs)\<rparr>"
      using Some q by (auto simp: tryCut_def Let_def split: if_splits option.splits)
    obtain xs where xs: "cut_loop s1 = (s', xs)" "segs = x # xs"
      using 1(3) Some q by (auto simp: cut_loop.simps [of s] Let_def split: prod.splits)
    have "list_all is_rune (drop n ?rs)"
      using list_all_runes by (auto simp: list_all_iff dest: in_set_dropD)
    then have "utf8_valid (sa_buf s1)" by (simp add: n utf8_valid_concat)
    from 1(1) [OF Some q [symmetric] this xs(1)]
    obtain raws where r: "map TrimSpace raws = xs" "concat raws @ sa_buf s' = sa_buf s1"
      and rest: "utf8_valid (sa_buf s')" "sa_end s' = sa_end s1" "sa_max s' = sa_max s1"
        "cut_at s' (runes_of (sa_buf s')) = None \<or> sa_buf s' = []"
      by auto
    have "concat (take n ?rs) @ sa_buf s1 = sa_buf s"
      using 1(2) by (simp add: n utf8_valid_def flip: concat_append)
    then have "concat (concat (take n ?rs) # raws) @ sa_buf s' = sa_buf s" using r by simp
    moreover have "map TrimSpace (concat (take n ?rs) # raws) = segs" using r n xs by simp
    moreover have "sa_end s' = sa_end s" "sa_max s' = sa_max s" using rest(2,3) by (simp_all add: n)
    ultimately show ?thesis using rest by blast
  qed
qed

text \<open>C28: The sentence aggregator loses no text: for valid UTF-8 input the segments it emits are the
  trimmed pieces of a partition of the text, and pieces followed by the remaining buffer give back
  the old buffer followed by the new text. What remains holds no sentence end (without a maximum)
  and stays below the maximum number of runes (with one).\<close>

theorem sentence_aggregator_partitions:
  assumes "utf8_valid (sa_buf s)" "utf8_valid text" "Aggregate s text = (s', segs)"
  shows "(\<exists>raws. map TrimSpace raws = segs \<and> concat raws @ sa_buf s' = sa_buf s @ text) \<and>
    utf8_valid (sa_buf s') \<and>
    (sa_max s \<le> 0 \<longrightarrow> (\<forall>r \<in> set (runes_of (sa_buf s')). \<not> ContainsRune (sa_end s) r)) \<and>
    (sa_max s > 0 \<longrightarrow> int (length (runes_of (sa_buf s'))) < sa_max s)"
proof -
  have v: "utf8_valid (sa_buf (s\<lparr>sa_buf := sa_buf s @ text\<rparr>))"
    using utf8_valid_append [OF assms(1,2)] by simp
  have l: "cut_loop (s\<lparr>sa_buf := sa_buf s @ text\<rparr>) = (s', segs)"
    using assms(3) by (simp add: Aggregate_def)
  note c = cut_loop_splits [OF v l]
  have no_end: "first_end ends rs = None \<Longrightarrow> set rs \<inter> set ends = {}" for ends rs
    by (induction rs) (auto split: if_splits)
  have e: "sa_end s' = sa_end s" "sa_max s' = sa_max s"
    "cut_at s' (runes_of (sa_buf s')) = None \<or> sa_buf s' = []"
    using c by auto
  have "sa_max s \<le> 0 \<Longrightarrow> set (runes_of (sa_buf s')) \<inter> set (runes_of (sa_end s)) = {}"
    using e no_end by (auto simp: cut_at_def)
  moreover have "sa_max s > 0 \<Longrightarrow> int (length (runes_of (sa_buf s'))) < sa_max s"
    using e by (auto simp: cut_at_def split: if_splits)
  ultimately show ?thesis using c by (auto simp: ContainsRune_def)
qed

lemma runes_ascii: "list_all (byte_in 0 127) s \<Longrightarrow> runes_of s = map (\<lambda>c. [c]) s"
  by (induction s) (simp_all add: runes_of.simps [of "_ # _"] rune_size_def)

lemma utf8_ascii: "list_all (byte_in 0 127) s \<Longrightarrow> utf8_valid s"
  by (simp add: utf8_valid_def runes_ascii)

theorem sentence_aggregator_partitions_witness:
  "\<exists>raws. map TrimSpace raws = snd (Aggregate (NewSentenceAggregator [] 0) ''Hi. You'') \<and>
     concat raws @ sa_buf (fst (Aggregate (NewSentenceAggregator [] 0) ''Hi. You'')) = ''Hi. You''"
proof -
  obtain s' segs where r: "Aggregate (NewSentenceAggregator [] 0) ''Hi. You'' = (s', segs)" by fastforce
  have "utf8_valid ''Hi. You''" by (rule utf8_ascii) (simp add: byte_in_def)
  from sentence_aggregator_partitions [OF _ this r] r show ?thesis
    by (auto simp: NewSentenceAggregator_def utf8_valid_def)
qed

section \<open>The pattern aggregator\<close>

text \<open>The suffix to keep when no opening delimiter is in the buffer: the shortest one, shorter than
  the delimiter, that is a prefix of it.\<close>

definition held_suffix :: "string \<Rightarrow> string \<Rightarrow> nat" where
  "held_suffix open_d buf =
     (case find (\<lambda>i. drop (length buf - i) buf = take i open_d)
             [1..<min (length open_d) (Suc (length buf))] of
        Some i \<Rightarrow> i | None \<Rightarrow> 0)"

text \<open>The loop of \<^verbatim>\<open>Feed\<close>: the texts, the matches and the buffer left. Its fuel bounds the number
  of matches; with both delimiters empty the code does not terminate.\<close>

fun feed_loop :: "nat \<Rightarrow> string \<Rightarrow> string \<Rightarrow> string \<Rightarrow> (string list \<times> string list \<times> string) option" where
  "feed_loop 0 op cl buf = None"
| "feed_loop (Suc k) op cl buf =
     (case index_of op buf of
        None \<Rightarrow>
          (let n = length buf - held_suffix op buf in
           if n > 0 then Some ([take n buf], [], drop n buf) else Some ([], [], buf))
      | Some i \<Rightarrow>
          (let after = drop (i + length op) buf; pre = (if i > 0 then [take i buf] else []) in
           case index_of cl after of
             None \<Rightarrow> Some (pre, [], drop i buf)
           | Some j \<Rightarrow>
               (case feed_loop k op cl (drop (j + length cl) after) of
                  None \<Rightarrow> None
                | Some (ts, ms, rest) \<Rightarrow> Some (pre @ ts, take j after # ms, rest))))"

record pattern_agg =
  pa_open :: string
  pa_close :: string
  pa_buf :: string

definition Feed :: "pattern_agg \<Rightarrow> string \<Rightarrow> (pattern_agg \<times> string list \<times> string list) option" where
  "Feed a text =
     (case feed_loop (Suc (length (pa_buf a @ text))) (pa_open a) (pa_close a) (pa_buf a @ text) of
        None \<Rightarrow> None
      | Some (ts, ms, rest) \<Rightarrow> Some (a\<lparr>pa_buf := rest\<rparr>, ts, ms))"

definition FlushPattern :: "pattern_agg \<Rightarrow> pattern_agg \<times> string" where
  "FlushPattern a = (a\<lparr>pa_buf := []\<rparr>, pa_buf a)"

lemma index_of_le: "index_of op buf = Some i \<Longrightarrow> i + length op \<le> length buf"
  using index_of_Some [of op buf i] by (auto dest: prefix_length_le)

lemma feed_terminates:
  "op \<noteq> [] \<or> cl \<noteq> [] \<Longrightarrow> length buf < k \<Longrightarrow> feed_loop k op cl buf \<noteq> None"
proof (induction k arbitrary: buf)
  case 0
  then show ?case by simp
next
  case (Suc k)
  show ?case
  proof (cases "index_of op buf")
    case None
    then show ?thesis by (simp add: Let_def)
  next
    case (Some i)
    let ?after = "drop (i + length op) buf"
    have pos: "0 < length op + length cl" using Suc.prems(1) by auto
    show ?thesis
    proof (cases "index_of cl ?after")
      case None
      with Some show ?thesis by (simp add: Let_def)
    next
      case j: (Some j)
      have "length (drop (j + length cl) ?after) < k"
        using Suc.prems(2) index_of_le [OF Some] index_of_le [OF j] pos unfolding length_drop by linarith
      from Suc.IH [OF Suc.prems(1) this] Some j show ?thesis by (auto simp: Let_def)
    qed
  qed
qed

text \<open>How texts and matches lie in the input: a text (or none) up to the first opening delimiter, the
  match up to the first closing one, and so on; the rest is emitted text and the buffer.\<close>

fun weave :: "string \<Rightarrow> string \<Rightarrow> string list \<Rightarrow> string list \<Rightarrow> string \<Rightarrow> string \<Rightarrow> bool" where
  "weave op cl ts [] rest s = (length ts \<le> 1 \<and> concat ts @ rest = s)"
| "weave op cl ts (m # ms) rest s =
     (\<exists>pre ts' s'. ts = pre @ ts' \<and> length pre \<le> 1 \<and> s = concat pre @ op @ m @ cl @ s' \<and>
        index_of op s = Some (length (concat pre)) \<and> index_of cl (m @ cl @ s') = Some (length m) \<and>
        weave op cl ts' ms rest s')"

definition incomplete :: "string \<Rightarrow> string \<Rightarrow> string \<Rightarrow> bool" where
  "incomplete op cl rest \<longleftrightarrow>
     index_of op rest = None \<or> index_of op rest = Some 0 \<and> index_of cl (drop (length op) rest) = None"

lemma take_index: "index_of op buf = Some i \<Longrightarrow> buf = take i buf @ op @ drop (i + length op) buf"
proof -
  assume "index_of op buf = Some i"
  then have "prefix op (drop i buf)" using index_of_Some by blast
  then obtain r where r: "drop i buf = op @ r" by (auto simp: prefix_def)
  then have "r = drop (i + length op) buf" by (metis append_eq_conv_conj drop_drop add.commute)
  with r show ?thesis by (metis append_take_drop_id)
qed

lemma index_of_drop: "index_of op buf = Some i \<Longrightarrow> index_of op (drop i buf) = Some 0"
  by (cases "drop i buf") (use index_of_Some [of op buf i] in auto)

lemma index_of_suffix_None: "index_of op buf = None \<Longrightarrow> index_of op (drop n buf) = None"
  using index_of_None [of op buf] index_of_None [of op "drop n buf"]
  by (meson sublist_drop sublist_order.order.trans)

lemma feed_weaves:
  "feed_loop k op cl buf = Some (ts, ms, rest) \<Longrightarrow>
     weave op cl ts ms rest buf \<and> incomplete op cl rest"
proof (induction k arbitrary: buf ts ms)
  case 0
  then show ?case by simp
next
  case (Suc k)
  show ?case
  proof (cases "index_of op buf")
    case None
    with Suc.prems index_of_suffix_None [OF None] show ?thesis
      by (auto simp: Let_def incomplete_def split: if_splits)
  next
    case (Some i)
    let ?after = "drop (i + length op) buf"
    define pre where "pre = (if i > 0 then [take i buf] else [])"
    have pre: "concat pre = take i buf" "length pre \<le> 1" by (simp_all add: pre_def)
    show ?thesis
    proof (cases "index_of cl ?after")
      case None
      with Suc.prems Some have "ts = pre" "ms = []" "rest = drop i buf"
        by (auto simp: Let_def pre_def)
      with pre None index_of_drop [OF Some] show ?thesis
        by (simp add: incomplete_def add.commute)
    next
      case j: (Some j)
      let ?m = "take j ?after" and ?s = "drop (j + length cl) ?after"
      obtain ts' ms' where f: "feed_loop k op cl ?s = Some (ts', ms', rest)" "ts = pre @ ts'" "ms = ?m # ms'"
        using Suc.prems Some j by (auto simp: Let_def pre_def split: option.splits prod.splits)
      have after: "?after = ?m @ cl @ ?s" by (rule take_index [OF j])
      have buf: "buf = concat pre @ op @ ?m @ cl @ ?s"
        using take_index [OF Some] after pre(1) by simp
      have lens: "length (concat pre) = i" "length ?m = j"
        using pre(1) index_of_le [OF Some] index_of_le [OF j] by auto
      have "weave op cl (pre @ ts') (?m # ms') rest buf"
        unfolding weave.simps
        using Suc.IH [OF f(1)] pre(2) buf Some j lens after
        by (intro exI [of _ pre] exI [of _ ts'] exI [of _ ?s]) simp
      with Suc.IH [OF f(1)] f show ?thesis by simp
    qed
  qed
qed

text \<open>The pattern aggregator terminates unless both delimiters are empty, and what it returns is a
  faithful reading of the stream: texts and matches alternate so that text, opening delimiter,
  match and closing delimiter give back the buffered input without loss, each match runs to the
  first closing delimiter, and no complete pair of delimiters stays in the buffer.\<close>

theorem pattern_aggregator_reads:
  assumes "pa_open a \<noteq> [] \<or> pa_close a \<noteq> []"
  shows "\<exists>a' ts ms. Feed a text = Some (a', ts, ms) \<and>
    weave (pa_open a) (pa_close a) ts ms (pa_buf a') (pa_buf a @ text) \<and>
    incomplete (pa_open a) (pa_close a) (pa_buf a')"
proof -
  obtain ts ms rest where f: "feed_loop (Suc (length (pa_buf a @ text))) (pa_open a) (pa_close a)
      (pa_buf a @ text) = Some (ts, ms, rest)"
    using feed_terminates [OF assms, of "pa_buf a @ text" "Suc (length (pa_buf a @ text))"] by auto
  from feed_weaves [OF f] f show ?thesis by (auto simp: Feed_def simp del: feed_loop.simps)
qed

theorem pattern_aggregator_reads_witness:
  "\<exists>a' ts ms. Feed \<lparr>pa_open = ''<'', pa_close = ''>'', pa_buf = []\<rparr> ''a<b>c<d'' = Some (a', ts, ms) \<and>
     weave ''<'' ''>'' ts ms (pa_buf a') ''a<b>c<d''"
  using pattern_aggregator_reads [of "\<lparr>pa_open = ''<'', pa_close = ''>'', pa_buf = []\<rparr>" "''a<b>c<d''"]
  by auto

section \<open>Relays of text\<close>

text \<open>
  What processors that batch text have in common. What they emit is the voice of segments: of a
  batch, the trimmed text if any is left; of a verbatim text, the text. \<open>worded\<close> is the text in the
  segments.
\<close>

datatype segment = Batch string | Verbatim string

fun voices :: "segment list \<Rightarrow> string list" where
  "voices [] = []"
| "voices (Batch s # r) = (if TrimSpace s = [] then [] else [TrimSpace s]) @ voices r"
| "voices (Verbatim s # r) = s # voices r"

fun worded :: "segment list \<Rightarrow> string" where
  "worded [] = []"
| "worded (Batch s # r) = s @ worded r"
| "worded (Verbatim s # r) = s @ worded r"

lemma segments_append [simp]:
  "voices (xs @ ys) = voices xs @ voices ys" "worded (xs @ ys) = worded xs @ worded ys"
  by (induction xs rule: voices.induct) simp_all

text \<open>A relay emits the text it is given, in order: each step turns what it held and what it is given
  into segments and what it holds. \<open>wrap\<close> is what it puts around a segment, \<open>form\<close> the segments it makes.\<close>

locale relay = machine step inv
  for step :: "'s \<Rightarrow> 'e \<Rightarrow> 's \<times> 'o list" and inv :: "'s \<Rightarrow> bool" +
  fixes allowed :: "'e \<Rightarrow> bool" and emitted :: "'o list \<Rightarrow> string list" and wrap :: "string \<Rightarrow> string"
    and held :: "'s \<Rightarrow> string" and given :: "'e \<Rightarrow> string" and form :: "segment \<Rightarrow> bool"
  assumes emitted_append: "emitted (xs @ ys) = emitted xs @ emitted ys"
    and step_segments: "inv s \<Longrightarrow> allowed e \<Longrightarrow>
      \<exists>segs. list_all form segs \<and> emitted (snd (step s e)) = map wrap (voices segs) \<and>
        worded segs @ held (fst (step s e)) = held s @ given e"
begin

lemma emitted_Nil: "emitted [] = []"
  using emitted_append [of "[]" "[]"] by simp

lemma run_segments:
  "inv s \<Longrightarrow> list_all allowed es \<Longrightarrow>
   \<exists>segs. list_all form segs \<and> emitted (snd (run step s es)) = map wrap (voices segs) \<and>
     worded segs @ held (fst (run step s es)) = held s @ concat (map given es)"
proof (induction es arbitrary: s)
  case Nil
  then show ?case by (intro exI [of _ "[]"]) (simp add: emitted_Nil)
next
  case (Cons e es)
  let ?s = "fst (step s e)"
  obtain xs where x: "list_all form xs" "emitted (snd (step s e)) = map wrap (voices xs)"
    "worded xs @ held ?s = held s @ given e"
    using step_segments [of s e] Cons.prems by auto
  obtain ys where y: "list_all form ys" "emitted (snd (run step ?s es)) = map wrap (voices ys)"
    "worded ys @ held (fst (run step ?s es)) = held ?s @ concat (map given es)"
    using Cons.IH [of ?s] Cons.prems step_inv by auto
  have "worded (xs @ ys) @ held (fst (run step ?s es)) = (worded xs @ held ?s) @ concat (map given es)"
    using y(3) by simp
  with x y show ?case
    by (intro exI [of _ "xs @ ys"]) (simp add: emitted_append del: run.simps(2))
qed

end

text \<open>Verbatim segments are said as they are.\<close>

definition verbatim :: "segment \<Rightarrow> bool" where
  "verbatim s = (case s of Verbatim x \<Rightarrow> True | Batch x \<Rightarrow> False)"

lemma verbatim_voices: "list_all verbatim segs \<Longrightarrow> concat (voices segs) = worded segs"
  by (induction segs rule: voices.induct) (simp_all add: verbatim_def)

end
