(* ===== verification/Aggregators.thy ===== *)
theory Aggregators
  imports Handler TextAgg "HOL-Library.Multiset"
begin

text \<open>
  The processors that collect frames: \<^verbatim>\<open>pkg/processors/aggregator\<close> and
  \<^verbatim>\<open>pkg/processors/aggregators\<close> (text, user response, full response, DTMF, gates, context
  summaries). The clock is passed as the formatted time stamp, a timer that expires is an event, a
  callback is an output.
\<close>

text \<open>A handler seen as a step that pushes.\<close>

definition push_step :: "('s \<Rightarrow> 'e \<Rightarrow> 's \<times> push list \<times> err option) \<Rightarrow> 's \<Rightarrow> 'e \<Rightarrow> 's \<times> push list" where
  "push_step h s e = (let (s', ps, _) = h s e in (s', ps))"

lemma push_step_simps [simp]:
  "fst (push_step h s e) = fst (h s e)" "snd (push_step h s e) = fst (snd (h s e))"
  by (simp_all add: push_step_def case_prod_beta)

section \<open>The sentence aggregator processor\<close>

record text_agg =
  ta_end :: string
  ta_max :: int
  ta_buf :: string
  ta_ids :: u64

definition NewAggregator :: "string \<Rightarrow> int \<Rightarrow> u64 \<Rightarrow> text_agg" where
  "NewAggregator ends mx ids =
     \<lparr>ta_end = (if ends = [] then ''.!?'' else ends), ta_max = mx, ta_buf = [], ta_ids = ids\<rparr>"

definition agg_flush :: "text_agg \<Rightarrow> text_agg \<times> push list" where
  "agg_flush p =
     (if ta_buf p = [] then (p, [])
      else (let text = TrimSpace (ta_buf p); p1 = p\<lparr>ta_buf := []\<rparr> in
            if text = [] then (p1, [])
            else (let (f, ids) = NewTextFrame text (ta_ids p1) in (p1\<lparr>ta_ids := ids\<rparr>, [(Downstream, f)]))))"

definition agg_tryFlush :: "text_agg \<Rightarrow> text_agg \<times> push list" where
  "agg_tryFlush p =
     (if ta_max p > 0 \<and> int (length (runes_of (ta_buf p))) \<ge> ta_max p
        \<or> MatchEndOfSentence (ta_buf p) (ta_end p)
      then agg_flush p else (p, []))"

definition AggregatorProcessFrame ::
  "replies \<Rightarrow> text_agg \<Rightarrow> frame \<Rightarrow> direction \<Rightarrow> text_agg \<times> push list \<times> err option" where
  "AggregatorProcessFrame rsp p f d =
     (if d \<noteq> Downstream then hand rsp p Upstream f
      else (case fbody f of
          TextFrame t \<Rightarrow> (let (p1, ps) = agg_tryFlush (p\<lparr>ta_buf := ta_buf p @ tdata t\<rparr>) in (p1, ps, None))
        | LLMTextFrame t \<Rightarrow> (let (p1, ps) = agg_tryFlush (p\<lparr>ta_buf := ta_buf p @ tdata t\<rparr>) in (p1, ps, None))
        | _ \<Rightarrow> (let (p1, ps) = agg_flush p in (p1, ps @ [(Downstream, f)], rsp Downstream f))))"

fun text_pushed :: "push list \<Rightarrow> string list" where
  "text_pushed [] = []"
| "text_pushed (x # ps) = (case fbody (snd x) of TextFrame t \<Rightarrow> [tdata t] | _ \<Rightarrow> []) @ text_pushed ps"

definition text_given :: "frame \<Rightarrow> string" where
  "text_given f = (case fbody f of TextFrame t \<Rightarrow> tdata t | LLMTextFrame t \<Rightarrow> tdata t | _ \<Rightarrow> [])"

lemma text_pushed_append [simp]: "text_pushed (xs @ ys) = text_pushed xs @ text_pushed ys"
  by (induction xs) simp_all

lemma agg_flush_facts [simp]:
  "ta_buf (fst (agg_flush p)) = []" "text_pushed (snd (agg_flush p)) = voices [Batch (ta_buf p)]"
  by (simp_all add: agg_flush_def Let_def NewTextFrame_def case_prod_beta text_of_def)

lemma agg_tryFlush_segments:
  "\<exists>segs. text_pushed (snd (agg_tryFlush p)) = voices segs \<and>
     worded segs @ ta_buf (fst (agg_tryFlush p)) = ta_buf p"
proof (cases "agg_tryFlush p = agg_flush p")
  case True
  then show ?thesis by (intro exI [of _ "[Batch (ta_buf p)]"]) simp
next
  case False
  then have "agg_tryFlush p = (p, [])" by (auto simp: agg_tryFlush_def split: if_splits)
  then show ?thesis by (intro exI [of _ "[]"]) simp
qed

abbreviation agg_step :: "replies \<Rightarrow> text_agg \<Rightarrow> frame \<Rightarrow> text_agg \<times> push list" where
  "agg_step rsp \<equiv> push_step (\<lambda>p f. AggregatorProcessFrame rsp p f Downstream)"

lemma agg_step_segments:
  "\<exists>segs. text_pushed (snd (agg_step rsp p f)) = voices segs \<and>
     worded segs @ ta_buf (fst (agg_step rsp p f)) = ta_buf p @ text_given f"
proof -
  consider t where "fbody f = LLMTextFrame t \<or> fbody f = TextFrame t"
    | "\<forall>t. fbody f \<noteq> LLMTextFrame t \<and> fbody f \<noteq> TextFrame t" by blast
  then show ?thesis
  proof cases
    case 1
    with agg_tryFlush_segments [of "p\<lparr>ta_buf := ta_buf p @ tdata t\<rparr>"] show ?thesis
      by (elim disjE) (simp_all add: AggregatorProcessFrame_def text_given_def case_prod_beta)
  next
    case 2
    then show ?thesis
      by (intro exI [of _ "[Batch (ta_buf p)]"], cases "fbody f")
        (simp_all add: AggregatorProcessFrame_def text_given_def case_prod_beta)
  qed
qed

interpretation agg_relay: relay "agg_step rsp" "\<lambda>_. True" "\<lambda>_. True" text_pushed "\<lambda>s. s" ta_buf text_given
  "\<lambda>_. True"
  by unfold_locales (use agg_step_segments in \<open>simp_all add: list_all_iff del: push_step_simps\<close>)

text \<open>The aggregator emits every text it receives, in order, as the trimmed pieces of a partition of
  it; the rest is in its buffer. (Frames of other kinds end a piece; they are pushed after it.)\<close>

theorem aggregator_relays_text:
  "\<exists>segs. text_pushed (snd (run (agg_step rsp) (NewAggregator ends mx ids) fs)) = voices segs \<and>
     worded segs @ ta_buf (fst (run (agg_step rsp) (NewAggregator ends mx ids) fs)) =
       concat (map text_given fs)"
  using agg_relay.run_segments [where s = "NewAggregator ends mx ids" and es = fs and rsp = rsp]
  by (simp add: NewAggregator_def list_all_iff)

section \<open>The gated aggregator\<close>

record gated =
  ga_open_fn :: "frame \<Rightarrow> bool"
  ga_close_fn :: "frame \<Rightarrow> bool"
  ga_dir :: direction
  ga_open :: bool
  ga_acc :: "frame list"

definition NewGated ::
  "(frame \<Rightarrow> bool) option \<Rightarrow> (frame \<Rightarrow> bool) option \<Rightarrow> bool \<Rightarrow> direction option \<Rightarrow> gated" where
  "NewGated op cl start d =
     \<lparr>ga_open_fn = (case op of None \<Rightarrow> (\<lambda>_. False) | Some g \<Rightarrow> g),
      ga_close_fn = (case cl of None \<Rightarrow> (\<lambda>_. False) | Some g \<Rightarrow> g),
      ga_dir = (case d of None \<Rightarrow> Downstream | Some x \<Rightarrow> x), ga_open = start, ga_acc = []\<rparr>"

definition gated_isSystemFrame :: "frame \<Rightarrow> bool" where
  "gated_isSystemFrame f =
     (case fbody f of StartFrame _ _ _ _ _ \<Rightarrow> True | EndFrame \<Rightarrow> True | CancelFrame _ \<Rightarrow> True
      | ErrorFrame _ _ _ \<Rightarrow> True | StopFrame \<Rightarrow> True | _ \<Rightarrow> False)"

definition GatedProcessFrame ::
  "replies \<Rightarrow> gated \<Rightarrow> frame \<Rightarrow> direction \<Rightarrow> gated \<times> push list \<times> err option" where
  "GatedProcessFrame rsp p f d =
     (if gated_isSystemFrame f then hand rsp p Downstream f
      else if d \<noteq> ga_dir p then hand rsp p Downstream f
      else (let old = ga_open p;
                new = (if ga_open p then \<not> ga_close_fn p f else ga_open_fn p f);
                p1 = p\<lparr>ga_open := new\<rparr>
            in if old \<noteq> new \<and> new
               then hand_all rsp (p1\<lparr>ga_acc := []\<rparr>) (map (Pair Downstream) (f # ga_acc p1))
               else if new then hand rsp p1 Downstream f
               else (p1\<lparr>ga_acc := ga_acc p1 @ [f]\<rparr>, [], None)))"

abbreviation gated_step :: "gated \<Rightarrow> frame \<times> direction \<Rightarrow> gated \<times> push list" where
  "gated_step \<equiv> push_step (\<lambda>p fd. GatedProcessFrame quiet_replies p (fst fd) (snd fd))"

lemma gated_step_mset:
  "mset (map snd (snd (gated_step p fd))) + mset (ga_acc (fst (gated_step p fd))) =
     mset (ga_acc p) + {#fst fd#}"
  by (simp add: GatedProcessFrame_def hand_all_ok quiet_replies_def Let_def comp_def multiset.map_comp)

lemma gated_step_down: "list_all (\<lambda>x. fst x = Downstream) (snd (gated_step p fd))"
  by (simp add: GatedProcessFrame_def hand_all_ok quiet_replies_def Let_def list_all_iff)

interpretation gated_run: machine_out gated_step "\<lambda>_. True" "\<lambda>x. fst x = Downstream"
  by unfold_locales (use gated_step_down in auto)

text \<open>A gate keeps and releases but never loses or doubles: over any frames, with neighbours that take
  them, the frames pushed and the frames held are together the frames received. But it turns frames
  around: everything it pushes goes downstream, also errors and other frames on their way up.\<close>

theorem gated_releases_all:
  "mset (map snd (snd (run gated_step p fds))) + mset (ga_acc (fst (run gated_step p fds))) =
     mset (ga_acc p) + mset (map fst fds) \<and>
   list_all (\<lambda>x. fst x = Downstream) (snd (run gated_step p fds))"
proof
  show "mset (map snd (snd (run gated_step p fds))) + mset (ga_acc (fst (run gated_step p fds))) =
      mset (ga_acc p) + mset (map fst fds)"
  proof (induction fds arbitrary: p)
    case (Cons fd fds)
    let ?q = "fst (gated_step p fd)"
    have "mset (map snd (snd (run gated_step p (fd # fds)))) + mset (ga_acc (fst (run gated_step p (fd # fds)))) =
        mset (map snd (snd (gated_step p fd))) + (mset (ga_acc ?q) + mset (map fst fds))"
      using Cons.IH [of ?q] by (simp del: run.simps(2) push_step_simps add: ac_simps)
    also have "\<dots> = mset (ga_acc p) + mset (map fst (fd # fds))"
      using gated_step_mset [of p fd] by (simp del: push_step_simps add: ac_simps)
    finally show ?case .
  qed simp
qed (use gated_run.run_ok in auto)

section \<open>The user response aggregator\<close>

text \<open>The state is the buffer and the frame counter; a frame comes with the time stamp.\<close>

record user_response =
  ur_buf :: string
  ur_ids :: u64

definition NewUserResponse :: "u64 \<Rightarrow> user_response" where
  "NewUserResponse ids = \<lparr>ur_buf = [], ur_ids = ids\<rparr>"

definition flushThenForward :: "user_response \<Rightarrow> string \<Rightarrow> frame \<Rightarrow> user_response \<times> push list" where
  "flushThenForward p ts boundary =
     (let text = TrimSpace (ur_buf p); p1 = p\<lparr>ur_buf := []\<rparr> in
      if text \<noteq> []
      then (let (tf, ids) = NewTranscriptionFrame text [] ts True (ur_ids p1)
            in (p1\<lparr>ur_ids := ids\<rparr>, [(Downstream, tf), (Downstream, boundary)]))
      else (p1, [(Downstream, boundary)]))"

definition UserResponseProcessFrame ::
  "replies \<Rightarrow> user_response \<Rightarrow> string \<times> frame \<Rightarrow> direction \<Rightarrow> user_response \<times> push list \<times> err option" where
  "UserResponseProcessFrame rsp p tf d =
     (let (ts, f) = tf in
      if d \<noteq> Downstream then hand rsp p Upstream f
      else (case fbody f of
          TranscriptionFrame t _ _ _ _ \<Rightarrow>
            (p\<lparr>ur_buf := (if ur_buf p \<noteq> [] then ur_buf p @ '' '' else []) @ tdata t\<rparr>, [], None)
        | UserStoppedSpeakingFrame \<Rightarrow> (let (p1, ps) = flushThenForward p ts f in (p1, ps, None))
        | EndFrame \<Rightarrow> (let (p1, ps) = flushThenForward p ts f in (p1, ps, None))
        | CancelFrame _ \<Rightarrow> (let (p1, ps) = flushThenForward p ts f in (p1, ps, None))
        | _ \<Rightarrow> hand rsp p Downstream f))"

section \<open>The full response aggregator\<close>

text \<open>Its callback is called with the text and whether the response was completed; the fourth component of
  the result is the call.\<close>

record full_response =
  fr_callback :: bool
  fr_buf :: string
  fr_started :: bool

definition NewFullResponse :: "bool \<Rightarrow> full_response" where
  "NewFullResponse cb = \<lparr>fr_callback = cb, fr_buf = [], fr_started = False\<rparr>"

definition fr_finish :: "full_response \<Rightarrow> bool \<Rightarrow> full_response \<times> (string \<times> bool) list" where
  "fr_finish p done =
     (p\<lparr>fr_buf := [], fr_started := False\<rparr>, if fr_callback p then [(fr_buf p, done)] else [])"

definition FullResponseProcessFrame ::
  "replies \<Rightarrow> full_response \<Rightarrow> frame \<Rightarrow> direction
     \<Rightarrow> full_response \<times> push list \<times> err option \<times> (string \<times> bool) list" where
  "FullResponseProcessFrame rsp p f d =
     (if d \<noteq> Downstream then (p, [(Upstream, f)], rsp Upstream f, [])
      else (let (p1, calls) =
                 (case fbody f of
                    InterruptionFrame \<Rightarrow> fr_finish p False
                  | LLMFullResponseStartFrame \<Rightarrow> (p\<lparr>fr_started := True\<rparr>, [])
                  | LLMFullResponseEndFrame \<Rightarrow> fr_finish p True
                  | LLMTextFrame t \<Rightarrow> (if fr_started p then p\<lparr>fr_buf := fr_buf p @ tdata t\<rparr> else p, [])
                  | _ \<Rightarrow> (p, []))
            in (p1, [(Downstream, f)], rsp Downstream f, calls)))"

text \<open>A response that starts, streams its tokens among other frames and ends is reported in full.\<close>

definition fr_step :: "full_response \<Rightarrow> frame \<Rightarrow> full_response \<times> (string \<times> bool) list" where
  "fr_step p f = (let (p1, _, _, calls) = FullResponseProcessFrame quiet_replies p f Downstream in (p1, calls))"

definition fr_boundary :: "frame \<Rightarrow> bool" where
  "fr_boundary f \<longleftrightarrow> fbody f = InterruptionFrame \<or> fbody f = LLMFullResponseEndFrame"

definition token_text :: "frame \<Rightarrow> string" where
  "token_text f = (case fbody f of LLMTextFrame t \<Rightarrow> tdata t | _ \<Rightarrow> [])"

lemma fr_step_between:
  "\<not> fr_boundary f \<Longrightarrow> fr_started p \<Longrightarrow>
   fr_step p f = (p\<lparr>fr_buf := fr_buf p @ token_text f\<rparr>, [])"
  by (cases "fbody f") (simp_all add: fr_step_def FullResponseProcessFrame_def fr_boundary_def token_text_def)

lemma fr_run_between:
  "list_all (\<lambda>f. \<not> fr_boundary f) fs \<Longrightarrow> fr_started p \<Longrightarrow>
   run fr_step p fs = (p\<lparr>fr_buf := fr_buf p @ concat (map token_text fs)\<rparr>, [])"
  by (induction fs arbitrary: p) (simp_all add: fr_step_between)

lemma full_response_reported:
  assumes "list_all (\<lambda>f. \<not> fr_boundary f) fs" "fr_buf p = []" "fr_callback p"
  shows "run fr_step p (Frame b1 LLMFullResponseStartFrame # fs @ [Frame b2 LLMFullResponseEndFrame]) =
    (p\<lparr>fr_buf := [], fr_started := False\<rparr>, [(concat (map token_text fs), True)])"
proof -
  have "fr_step p (Frame b1 LLMFullResponseStartFrame) = (p\<lparr>fr_started := True\<rparr>, [])"
    by (simp add: fr_step_def FullResponseProcessFrame_def)
  moreover have "run fr_step (p\<lparr>fr_started := True\<rparr>) fs =
      (p\<lparr>fr_started := True, fr_buf := concat (map token_text fs)\<rparr>, [])"
    using fr_run_between [OF assms(1), of "p\<lparr>fr_started := True\<rparr>"] assms(2) by simp
  ultimately show ?thesis
    by (simp add: run_append fr_step_def FullResponseProcessFrame_def fr_finish_def assms(3))
qed

section \<open>The LLM text processor\<close>

text \<open>It works with any text aggregator: the operations of the interface \<^verbatim>\<open>textaggregator.Aggregator\<close> it
  calls, on a state of their own. A segment is its text and its type.\<close>

type_synonym seg = "string \<times> string"

record 'a agg_ops =
  op_aggregate :: "'a \<Rightarrow> string \<Rightarrow> 'a \<times> seg list"
  op_flush :: "'a \<Rightarrow> 'a \<times> seg option"
  op_interrupt :: "'a \<Rightarrow> 'a"

definition sentence_ops :: "sentence_agg agg_ops" where
  "sentence_ops =
     \<lparr>op_aggregate = (\<lambda>a s. (let (a', segs) = Aggregate a s in (a', map (\<lambda>x. (x, ''sentence'')) segs))),
      op_flush = (\<lambda>a. (let (a', seg) = FlushSentence a in (a', map_option (\<lambda>x. (x, ''sentence'')) seg))),
      op_interrupt = HandleInterruption\<rparr>"

record 'a llm_text =
  lt_agg :: 'a
  lt_ids :: u64

text \<open>Frames are made as they are pushed; the first error ends the loop.\<close>

fun push_segments :: "replies \<Rightarrow> bool option \<Rightarrow> u64 \<Rightarrow> seg list \<Rightarrow> u64 \<times> push list \<times> err option" where
  "push_segments rsp skip ids [] = (ids, [], None)"
| "push_segments rsp skip ids ((x, ty) # segs) =
     (let (f0, ids1) = NewAggregatedTextFrame x ty ids;
          f = (case skip of None \<Rightarrow> f0
               | Some _ \<Rightarrow> Frame (fbase f0) (AggregatedTextFrame ((text_of x)\<lparr>skip_tts := skip\<rparr>) ty))
      in case rsp Downstream f of
           Some e \<Rightarrow> (ids1, [(Downstream, f)], Some e)
         | None \<Rightarrow> (let (ids2, ps, e) = push_segments rsp skip ids1 segs in (ids2, (Downstream, f) # ps, e)))"

definition lt_flush :: "'a agg_ops \<Rightarrow> replies \<Rightarrow> 'a llm_text \<Rightarrow> frame \<Rightarrow> 'a llm_text \<times> push list \<times> err option" where
  "lt_flush ops rsp p f =
     (let (a, seg) = op_flush ops (lt_agg p);
          (ids, ps, e) = push_segments rsp None (lt_ids p) (case seg of None \<Rightarrow> [] | Some x \<Rightarrow> [x]);
          p1 = \<lparr>lt_agg = a, lt_ids = ids\<rparr>
      in if e \<noteq> None then (p1, ps, e) else (p1, ps @ [(Downstream, f)], rsp Downstream f))"

definition LLMTextProcessFrame ::
  "'a agg_ops \<Rightarrow> replies \<Rightarrow> 'a llm_text \<Rightarrow> frame \<Rightarrow> direction \<Rightarrow> 'a llm_text \<times> push list \<times> err option" where
  "LLMTextProcessFrame ops rsp p f d =
     (if d \<noteq> Downstream then hand rsp p Upstream f
      else (case fbody f of
          InterruptionFrame \<Rightarrow> hand rsp (p\<lparr>lt_agg := op_interrupt ops (lt_agg p)\<rparr>) Downstream f
        | LLMTextFrame t \<Rightarrow>
            (let (a, segs) = op_aggregate ops (lt_agg p) (tdata t);
                 (ids, ps, e) = push_segments rsp (skip_tts t) (lt_ids p) segs
             in (\<lparr>lt_agg = a, lt_ids = ids\<rparr>, ps, e))
        | LLMFullResponseEndFrame \<Rightarrow> lt_flush ops rsp p f
        | EndFrame \<Rightarrow> lt_flush ops rsp p f
        | _ \<Rightarrow> hand rsp p Downstream f))"

section \<open>The DTMF aggregator\<close>

text \<open>The timer is armed or not. It may still expire after it is stopped, when its callback has already
  started; the callback then runs like any other.\<close>

record dtmf_proc =
  dt_timeout :: int
  dt_term :: string
  dt_prefix :: string
  dt_interrupt :: bool
  dt_buf :: string
  dt_timer :: bool
  dt_started :: bool
  dt_ids :: u64

definition NewDTMF :: "int \<Rightarrow> string \<Rightarrow> string \<Rightarrow> u64 \<Rightarrow> dtmf_proc" where
  "NewDTMF timeout term pre ids =
     \<lparr>dt_timeout = (if timeout \<le> 0 then 2000000000 else timeout),
      dt_term = (if term = [] then ''#'' else term),
      dt_prefix = (if pre = [] then ''DTMF: '' else pre),
      dt_interrupt = True, dt_buf = [], dt_timer = False, dt_started = False, dt_ids = ids\<rparr>"

definition flushAndForward :: "dtmf_proc \<Rightarrow> string \<Rightarrow> frame option \<Rightarrow> dtmf_proc \<times> push list" where
  "flushAndForward p ts after =
     (let p1 = p\<lparr>dt_buf := [], dt_timer := False\<rparr>;
          (p2, ps) = (if dt_buf p \<noteq> []
            then (let (tf, ids) = NewTranscriptionFrame (dt_prefix p @ dt_buf p) [] ts True (dt_ids p1)
                  in (p1\<lparr>dt_ids := ids\<rparr>, [(Downstream, tf)]))
            else (p1, []))
      in (p2, ps @ (case after of None \<Rightarrow> [] | Some f \<Rightarrow> [(Downstream, f)])))"

definition handleDTMF :: "dtmf_proc \<Rightarrow> string \<Rightarrow> string \<Rightarrow> dtmf_proc \<times> push list" where
  "handleDTMF p ts digit =
     (let p1 = p\<lparr>dt_buf := dt_buf p @ digit\<rparr>;
          (p2, ps) = (if dt_buf p = [] \<and> dt_interrupt p
            then (let (f, ids) = NewInterruptionFrame (dt_ids p1) in (p1\<lparr>dt_ids := ids\<rparr>, [(Downstream, f)]))
            else (p1, []))
      in if digit = dt_term p
         then (let (p3, ps3) = flushAndForward (p2\<lparr>dt_timer := False\<rparr>) ts None in (p3, ps @ ps3))
         else (p2\<lparr>dt_timer := True\<rparr>, ps))"

definition DTMFProcessFrame ::
  "replies \<Rightarrow> dtmf_proc \<Rightarrow> string \<times> frame \<Rightarrow> direction \<Rightarrow> dtmf_proc \<times> push list \<times> err option" where
  "DTMFProcessFrame rsp p tf d =
     (let (ts, f) = tf in
      if d \<noteq> Downstream then hand rsp p Upstream f
      else (case fbody f of
          StartFrame _ _ _ _ _ \<Rightarrow> hand rsp (p\<lparr>dt_started := True\<rparr>) Downstream f
        | EndFrame \<Rightarrow>
            (let (p1, ps) = flushAndForward (p\<lparr>dt_timer := False\<rparr>) ts (Some f) in (p1\<lparr>dt_started := False\<rparr>, ps, None))
        | CancelFrame _ \<Rightarrow>
            (let (p1, ps) = flushAndForward (p\<lparr>dt_timer := False\<rparr>) ts (Some f) in (p1\<lparr>dt_started := False\<rparr>, ps, None))
        | InputDTMFFrame digit \<Rightarrow>
            (case rsp Downstream f of
               Some e \<Rightarrow> (p, [(Downstream, f)], Some e)
             | None \<Rightarrow> (let (p1, ps) = handleDTMF p ts digit in (p1, (Downstream, f) # ps, None)))
        | _ \<Rightarrow> hand rsp p Downstream f))"

definition DTMFCleanup :: "dtmf_proc \<Rightarrow> dtmf_proc" where
  "DTMFCleanup p = p\<lparr>dt_timer := False, dt_buf := [], dt_started := False\<rparr>"

text \<open>What happens to the processor, each with the time stamp: a frame comes from upstream, or the timer
  expires.\<close>

datatype dtmf_event = DKey string frame | DExpire string

definition dtmf_step :: "dtmf_proc \<Rightarrow> dtmf_event \<Rightarrow> dtmf_proc \<times> push list" where
  "dtmf_step p ev =
     (case ev of
        DKey ts f \<Rightarrow> push_step (\<lambda>p f. DTMFProcessFrame quiet_replies p (ts, f) Downstream) p f
      | DExpire ts \<Rightarrow> flushAndForward p ts None)"

definition dtmf_given :: "dtmf_event \<Rightarrow> string" where
  "dtmf_given ev = (case ev of DKey ts f \<Rightarrow> (case fbody f of InputDTMFFrame d \<Rightarrow> d | _ \<Rightarrow> []) | DExpire ts \<Rightarrow> [])"

definition no_transcript :: "dtmf_event \<Rightarrow> bool" where
  "no_transcript ev = (case ev of
     DKey ts f \<Rightarrow> (case fbody f of TranscriptionFrame a b c d e \<Rightarrow> False | _ \<Rightarrow> True) | DExpire ts \<Rightarrow> True)"

fun transcripts :: "push list \<Rightarrow> string list" where
  "transcripts [] = []"
| "transcripts (x # ps) =
     (case fbody (snd x) of TranscriptionFrame t _ _ _ _ \<Rightarrow> [tdata t] | _ \<Rightarrow> []) @ transcripts ps"

lemma transcripts_append [simp]: "transcripts (xs @ ys) = transcripts xs @ transcripts ys"
  by (induction xs) simp_all

definition dtmf_voices :: "string \<Rightarrow> string list" where
  "dtmf_voices s = (if s = [] then [] else [s])"

lemma flushAndForward_facts:
  "dt_buf (fst (flushAndForward p ts after)) = []" "dt_prefix (fst (flushAndForward p ts after)) = dt_prefix p"
  "dt_timer (fst (flushAndForward p ts after)) = False" "dt_term (fst (flushAndForward p ts after)) = dt_term p"
  "transcripts (snd (flushAndForward p ts after)) =
     map ((@) (dt_prefix p)) (dtmf_voices (dt_buf p)) @
     (case after of None \<Rightarrow> [] | Some f \<Rightarrow> transcripts [(Downstream, f)])"
  by (simp_all add: flushAndForward_def NewTranscriptionFrame_def dtmf_voices_def text_of_def case_prod_beta
      Let_def split: option.split)

lemma handleDTMF_facts:
  "dt_prefix (fst (handleDTMF p ts d)) = dt_prefix p" "dt_term (fst (handleDTMF p ts d)) = dt_term p"
  "dt_buf (fst (handleDTMF p ts d)) = (if d = dt_term p then [] else dt_buf p @ d)"
  "transcripts (snd (handleDTMF p ts d)) =
     (if d = dt_term p then map ((@) (dt_prefix p)) (dtmf_voices (dt_buf p @ d)) else [])"
  "dt_timer (fst (handleDTMF p ts d)) \<longleftrightarrow> d \<noteq> dt_term p"
  by (simp_all add: handleDTMF_def flushAndForward_facts NewInterruptionFrame_def case_prod_beta Let_def)

lemma voices_verbatim: "voices (map Verbatim (dtmf_voices s)) = dtmf_voices s"
  "worded (map Verbatim (dtmf_voices s)) = s"
  by (simp_all add: dtmf_voices_def)

definition dtmf_flushes :: "dtmf_proc \<Rightarrow> dtmf_event \<Rightarrow> bool" where
  "dtmf_flushes p ev = (case ev of
     DKey ts f \<Rightarrow> (case fbody f of InputDTMFFrame d \<Rightarrow> d = dt_term p | EndFrame \<Rightarrow> True | CancelFrame r \<Rightarrow> True
       | _ \<Rightarrow> False) | DExpire ts \<Rightarrow> True)"

lemma dtmf_step_facts:
  assumes "no_transcript ev"
  shows "transcripts (snd (dtmf_step p ev)) =
      (if dtmf_flushes p ev then map ((@) (dt_prefix p)) (dtmf_voices (dt_buf p @ dtmf_given ev)) else [])"
    "dt_buf (fst (dtmf_step p ev)) = (if dtmf_flushes p ev then [] else dt_buf p @ dtmf_given ev)"
    "dt_prefix (fst (dtmf_step p ev)) = dt_prefix p" "dt_term (fst (dtmf_step p ev)) = dt_term p"
proof -
  have "transcripts (snd (dtmf_step p ev)) =
      (if dtmf_flushes p ev then map ((@) (dt_prefix p)) (dtmf_voices (dt_buf p @ dtmf_given ev)) else []) \<and>
    dt_buf (fst (dtmf_step p ev)) = (if dtmf_flushes p ev then [] else dt_buf p @ dtmf_given ev) \<and>
    dt_prefix (fst (dtmf_step p ev)) = dt_prefix p \<and> dt_term (fst (dtmf_step p ev)) = dt_term p"
  proof (cases ev)
    case (DKey ts f)
    with assms show ?thesis
      by (cases "fbody f") (simp_all add: dtmf_step_def DTMFProcessFrame_def dtmf_flushes_def dtmf_given_def
          no_transcript_def flushAndForward_facts handleDTMF_facts quiet_replies_def case_prod_beta)
  qed (simp add: dtmf_step_def dtmf_flushes_def dtmf_given_def flushAndForward_facts)
  then show "transcripts (snd (dtmf_step p ev)) =
      (if dtmf_flushes p ev then map ((@) (dt_prefix p)) (dtmf_voices (dt_buf p @ dtmf_given ev)) else [])"
    "dt_buf (fst (dtmf_step p ev)) = (if dtmf_flushes p ev then [] else dt_buf p @ dtmf_given ev)"
    "dt_prefix (fst (dtmf_step p ev)) = dt_prefix p" "dt_term (fst (dtmf_step p ev)) = dt_term p"
    by blast+
qed

interpretation dtmf_relay: relay dtmf_step "\<lambda>p. dt_prefix p = pre" no_transcript transcripts "(@) pre"
  dt_buf dtmf_given verbatim
proof unfold_locales
  fix p :: dtmf_proc and ev
  assume p: "dt_prefix p = pre" and ev: "no_transcript ev"
  let ?segs = "if dtmf_flushes p ev then map Verbatim (dtmf_voices (dt_buf p @ dtmf_given ev)) else []"
  show "\<exists>segs. list_all verbatim segs \<and> transcripts (snd (dtmf_step p ev)) = map ((@) pre) (voices segs) \<and>
      worded segs @ dt_buf (fst (dtmf_step p ev)) = dt_buf p @ dtmf_given ev"
    using dtmf_step_facts [OF ev, of p]
    by (intro exI [of _ ?segs]) (auto simp: p voices_verbatim verbatim_def list_all_iff)
next
  fix p :: dtmf_proc and ev
  assume p: "dt_prefix p = pre"
  show "dt_prefix (fst (dtmf_step p ev)) = pre"
  proof (cases ev)
    case (DKey ts f)
    then show ?thesis
      by (cases "fbody f") (simp_all add: dtmf_step_def DTMFProcessFrame_def flushAndForward_facts
          handleDTMF_facts quiet_replies_def case_prod_beta p)
  qed (simp add: dtmf_step_def flushAndForward_facts p)
qed simp

text \<open>The DTMF aggregator reports every key once and in order, whenever its timer expires (also after
  it was stopped): over any key presses, other frames and expiries, the transcripts it makes are the
  prefix followed by a group of keys each, and the groups followed by the keys it still holds are the
  keys pressed.\<close>

theorem dtmf_keys_reported:
  assumes "list_all no_transcript evs"
    "run dtmf_step (NewDTMF timeout term pre ids) evs = (p, ps)"
  shows "\<exists>groups. transcripts ps = map ((@) (dt_prefix p)) groups \<and>
    concat groups @ dt_buf p = concat (map dtmf_given evs)"
proof -
  let ?p = "NewDTMF timeout term pre ids"
  obtain segs where s: "list_all verbatim segs" "transcripts ps = map ((@) (dt_prefix ?p)) (voices segs)"
    "worded segs @ dt_buf p = dt_buf ?p @ concat (map dtmf_given evs)"
    using dtmf_relay.run_segments [where s = ?p and es = evs and pre = "dt_prefix ?p"] assms by auto
  have "dt_prefix p = dt_prefix ?p"
    using dtmf_relay.run_inv [where s = ?p and es = evs and pre = "dt_prefix ?p"] assms(2) by simp
  moreover have "dt_buf ?p = []" by (simp add: NewDTMF_def)
  ultimately show ?thesis
    using s verbatim_voices [OF s(1)] by (intro exI [of _ "voices segs"]) simp
qed

theorem dtmf_keys_reported_witness:
  "let (p, ps) = run dtmf_step (NewDTMF 0 [] [] 0)
       [DKey ''t'' (Frame (NewBaseWithID 1) (InputDTMFFrame ''4'')), DExpire ''t'',
        DKey ''t'' (Frame (NewBaseWithID 2) (InputDTMFFrame ''2'')),
        DKey ''t'' (Frame (NewBaseWithID 3) (InputDTMFFrame ''#''))]
   in transcripts ps = [''DTMF: 4'', ''DTMF: 2#''] \<and>
      (\<exists>groups. transcripts ps = map ((@) (dt_prefix p)) groups \<and> concat groups @ dt_buf p = ''42#'')"
proof -
  let ?evs = "[DKey ''t'' (Frame (NewBaseWithID 1) (InputDTMFFrame ''4'')), DExpire ''t'',
        DKey ''t'' (Frame (NewBaseWithID 2) (InputDTMFFrame ''2'')),
        DKey ''t'' (Frame (NewBaseWithID 3) (InputDTMFFrame ''#''))]"
  obtain p ps where r: "run dtmf_step (NewDTMF 0 [] [] 0) ?evs = (p, ps)" by fastforce
  have "list_all no_transcript ?evs" by (simp add: no_transcript_def)
  note g = dtmf_keys_reported [OF this r]
  have "transcripts (snd (run dtmf_step (NewDTMF 0 [] [] 0) ?evs)) = [''DTMF: 4'', ''DTMF: 2#'']"
    by (simp add: dtmf_step_facts no_transcript_def dtmf_flushes_def dtmf_given_def NewDTMF_def
        dtmf_voices_def del: run.simps(2))
  with g show ?thesis unfolding r by (simp add: dtmf_given_def)
qed

section \<open>The gated context aggregator\<close>

text \<open>\<^verbatim>\<open>pkg/utils/notifier\<close>: a channel with room for one token. A goroutine takes the token, then in a
  critical section the stored frame, and pushes it; between the two the rest of the system may act.\<close>

record gated_context =
  gc_start_open :: bool
  gc_last :: "frame option"
  gc_token :: bool
  gc_awake :: bool
  gc_running :: bool

definition NewGatedContext :: "bool \<Rightarrow> gated_context" where
  "NewGatedContext start =
     \<lparr>gc_start_open = start, gc_last = None, gc_token = False, gc_awake = False, gc_running = False\<rparr>"

definition GatedContextSetup :: "gated_context \<Rightarrow> gated_context" where
  "GatedContextSetup p = p\<lparr>gc_running := True\<rparr>"

definition Notify :: "gated_context \<Rightarrow> gated_context" where
  "Notify p = p\<lparr>gc_token := True\<rparr>"

definition GatedContextProcessFrame ::
  "replies \<Rightarrow> gated_context \<Rightarrow> frame \<Rightarrow> direction \<Rightarrow> gated_context \<times> push list \<times> err option" where
  "GatedContextProcessFrame rsp p f d =
     (if d \<noteq> Downstream then hand rsp p Upstream f
      else (case fbody f of
          EndFrame \<Rightarrow> hand rsp (p\<lparr>gc_last := None\<rparr>) Downstream f
        | CancelFrame _ \<Rightarrow> hand rsp (p\<lparr>gc_last := None\<rparr>) Downstream f
        | LLMContextFrame c \<Rightarrow>
            if gc_start_open p then hand rsp (p\<lparr>gc_start_open := False\<rparr>) Downstream f
            else (p\<lparr>gc_last := Some f\<rparr>, [], None)
        | _ \<Rightarrow> hand rsp p Downstream f))"

datatype gc_event = GFrame frame | GNotify | GWake | GTake | GCancel

text \<open>One step of the system: an input frame, a notification, the goroutine receiving the token
  (\<open>GWake\<close>), its critical section and push (\<open>GTake\<close>), the end of its context.\<close>

definition gc_step :: "gated_context \<Rightarrow> gc_event \<Rightarrow> gated_context \<times> push list" where
  "gc_step p ev =
     (case ev of
        GFrame f \<Rightarrow> push_step (\<lambda>p f. GatedContextProcessFrame quiet_replies p f Downstream) p f
      | GNotify \<Rightarrow> (Notify p, [])
      | GWake \<Rightarrow> (if gc_running p \<and> \<not> gc_awake p \<and> gc_token p
                  then p\<lparr>gc_token := False, gc_awake := True\<rparr> else p, [])
      | GTake \<Rightarrow> (if gc_awake p
                  then (p\<lparr>gc_awake := False, gc_last := None\<rparr>,
                        case gc_last p of None \<Rightarrow> [] | Some f \<Rightarrow> [(Downstream, f)])
                  else (p, []))
      | GCancel \<Rightarrow> (if gc_awake p then p else p\<lparr>gc_running := False\<rparr>, []))"

definition is_context :: "frame \<Rightarrow> bool" where
  "is_context f = (case fbody f of LLMContextFrame c \<Rightarrow> True | _ \<Rightarrow> False)"

definition count_contexts :: "push list \<Rightarrow> nat" where
  "count_contexts ps = length (filter (is_context \<circ> snd) ps)"

definition count_notify :: "gc_event list \<Rightarrow> nat" where
  "count_notify evs = length (filter (\<lambda>e. e = GNotify) evs)"

text \<open>What may still be released without a further notification.\<close>

definition gc_credit :: "gated_context \<Rightarrow> nat" where
  "gc_credit p = of_bool (gc_start_open p) + of_bool (gc_token p) + of_bool (gc_awake p)"

lemma gc_step_credit:
  "(\<forall>f. gc_last p = Some f \<longrightarrow> is_context f) \<Longrightarrow>
   count_contexts (snd (gc_step p ev)) + gc_credit (fst (gc_step p ev)) \<le>
     gc_credit p + of_bool (ev = GNotify) \<and>
   (\<forall>f. gc_last (fst (gc_step p ev)) = Some f \<longrightarrow> is_context f)"
proof (cases ev)
  case (GFrame f)
  then show "(\<forall>f. gc_last p = Some f \<longrightarrow> is_context f) \<Longrightarrow> ?thesis"
    by (cases "fbody f") (simp_all add: gc_step_def GatedContextProcessFrame_def gc_credit_def
        count_contexts_def is_context_def)
qed (auto simp: gc_step_def gc_credit_def Notify_def count_contexts_def split: option.splits)

lemma gc_run_credit:
  "(\<forall>f. gc_last p = Some f \<longrightarrow> is_context f) \<Longrightarrow>
   count_contexts (snd (run gc_step p evs)) + gc_credit (fst (run gc_step p evs)) \<le>
     gc_credit p + count_notify evs"
proof (induction evs arbitrary: p)
  case (Cons ev evs)
  let ?q = "fst (gc_step p ev)"
  note s = gc_step_credit [OF Cons.prems, of ev]
  have "count_contexts (snd (run gc_step p (ev # evs))) =
      count_contexts (snd (gc_step p ev)) + count_contexts (snd (run gc_step ?q evs))"
    by (simp add: count_contexts_def del: run.simps(2))
  moreover have "count_notify (ev # evs) = of_bool (ev = GNotify) + count_notify evs"
    by (simp add: count_notify_def)
  moreover have "count_contexts (snd (run gc_step ?q evs)) + gc_credit (fst (run gc_step ?q evs)) \<le>
      gc_credit ?q + count_notify evs"
    by (rule Cons.IH) (use s in blast)
  ultimately show ?case using s by (simp del: run.simps(2))
qed (simp add: count_notify_def count_contexts_def)

text \<open>A gated context leaves only on a signal, and a signal opens for one: over any interleaving, no
  more contexts are released than there were notifications (one more if the gate starts open). But a
  signal that finds no context is used up: if the waiting goroutine runs before the context comes, the
  context stays held until somebody notifies again.\<close>

theorem gated_context_signals:
  "count_contexts (snd (run gc_step (NewGatedContext start) evs)) \<le> of_bool start + count_notify evs \<and>
   (count_notify evs = 0 \<longrightarrow>
     count_contexts (snd (run gc_step (GatedContextSetup (NewGatedContext False))
       ([GNotify, GWake, GTake] @ evs))) = 0)"
proof -
  have a: "count_contexts (snd (run gc_step (NewGatedContext start) evs)) \<le> of_bool start + count_notify evs"
    using gc_run_credit [of "NewGatedContext start" evs] by (simp add: NewGatedContext_def gc_credit_def)
  let ?p = "(NewGatedContext False)\<lparr>gc_running := True\<rparr>"
  have "run gc_step (GatedContextSetup (NewGatedContext False)) [GNotify, GWake, GTake] = (?p, [])"
    by (simp add: GatedContextSetup_def NewGatedContext_def gc_step_def Notify_def)
  then have "snd (run gc_step (GatedContextSetup (NewGatedContext False)) ([GNotify, GWake, GTake] @ evs)) =
      snd (run gc_step ?p evs)"
    by (simp add: run_append case_prod_beta del: append.simps run.simps(2))
  moreover have "count_notify evs = 0 \<Longrightarrow> count_contexts (snd (run gc_step ?p evs)) = 0"
    using gc_run_credit [of ?p evs] by (simp add: NewGatedContext_def gc_credit_def)
  ultimately show ?thesis using a by simp
qed

definition a_context :: frame where
  "a_context = Frame (NewBaseWithID 9) (LLMContextFrame None)"

theorem gated_context_signals_witness:
  "count_contexts (snd (run gc_step (GatedContextSetup (NewGatedContext False))
       ([GNotify, GWake, GTake] @ [GFrame a_context, GWake, GTake]))) = 0"
  using gated_context_signals [of False "[GFrame a_context, GWake, GTake]"]
  by (simp add: count_notify_def del: append.simps run.simps(2))

section \<open>The context summarizer\<close>

record summarizer_config =
  sc_max_tokens :: int
  sc_max_messages :: int
  sc_min_keep :: int
  sc_target :: int
  sc_prompt :: string
  sc_timeout :: int
  sc_auto :: bool

definition DefaultConfig :: summarizer_config where
  "DefaultConfig =
     \<lparr>sc_max_tokens = 12000, sc_max_messages = 20, sc_min_keep = 5, sc_target = 2000,
      sc_prompt = ''Summarize the following conversation concisely, preserving key facts and decisions.'',
      sc_timeout = 60, sc_auto = True\<rparr>"

record summarizer =
  sz_context :: llm_context
  sz_config :: summarizer_config
  sz_pending :: string
  sz_busy :: bool
  sz_ids :: u64

definition NewSummarizer :: "llm_context option \<Rightarrow> summarizer_config \<Rightarrow> u64 \<Rightarrow> summarizer" where
  "NewSummarizer c cfg ids =
     \<lparr>sz_context = (case c of None \<Rightarrow> \<lparr>messages = [], tools = [], tool_choice = []\<rparr> | Some x \<Rightarrow> x),
      sz_config = (if sc_max_tokens cfg = 0 \<and> sc_max_messages cfg = 0 then DefaultConfig else cfg),
      sz_pending = [], sz_busy = False, sz_ids = ids\<rparr>"

text \<open>The bytes of text in a message; items of other shapes count nothing.\<close>

definition item_text :: "any \<Rightarrow> nat" where
  "item_text x = (case x of AObj m \<Rightarrow> (case map_of m ''text'' of Some (AStr s) \<Rightarrow> length s | _ \<Rightarrow> 0) | _ \<Rightarrow> 0)"

definition message_text :: "anymap \<Rightarrow> nat" where
  "message_text m =
     (case map_of m ''content'' of
        Some (AStr s) \<Rightarrow> length s
      | Some (AArr xs) \<Rightarrow> sum_list (map item_text xs)
      | _ \<Rightarrow> 0)"

definition estimateContextTokens :: "llm_context \<Rightarrow> nat" where
  "estimateContextTokens c = sum_list (map message_text (messages c)) div 4"

definition shouldSummarize :: "summarizer \<Rightarrow> bool" where
  "shouldSummarize p =
     (let cfg = sz_config p in
      \<not> sz_busy p \<and>
      (sc_max_tokens cfg > 0 \<and> int (estimateContextTokens (sz_context p)) \<ge> sc_max_tokens cfg \<or>
       sc_max_messages cfg > 0 \<and> int (length (messages (sz_context p))) \<ge> sc_max_messages cfg))"

definition requestSummarization :: "summarizer \<Rightarrow> string \<Rightarrow> summarizer \<times> push list" where
  "requestSummarization p uuid =
     (if sz_busy p then (p, [])
      else (let cfg = sz_config p;
                timeout = (if sc_timeout cfg \<le> 0 then 60 else sc_timeout cfg);
                (req, ids) = mk_frame (LLMContextSummaryRequestFrame uuid (Some (sz_context p)) (sc_min_keep cfg)
                                (sc_target cfg) (sc_prompt cfg) timeout) (sz_ids p)
            in (p\<lparr>sz_pending := uuid, sz_busy := True, sz_ids := ids\<rparr>, [(Downstream, req)])))"

definition has_role :: "string \<Rightarrow> anymap \<Rightarrow> bool" where
  "has_role r m = (map_of m ''role'' = Some (AStr r))"

definition applySummary :: "llm_context \<Rightarrow> string \<Rightarrow> int \<Rightarrow> int \<Rightarrow> llm_context" where
  "applySummary c summary lasti min_keep =
     (let n = int (length (messages c)) in
      if lasti < 0 \<or> lasti \<ge> n then c
      else if n - 1 - lasti < min_keep then c
      else (let sys = (case find (has_role ''system'') (messages c) of None \<Rightarrow> [] | Some m \<Rightarrow> [m]);
                sm = [(''role'', AStr ''user''), (''content'', AStr (''Conversation summary: '' @ summary))]
            in c\<lparr>messages := sys @ [sm] @ drop (nat (lasti + 1)) (messages c)\<rparr>))"

definition handleSummaryResult :: "summarizer \<Rightarrow> string \<Rightarrow> string \<Rightarrow> int \<Rightarrow> string \<Rightarrow> summarizer" where
  "handleSummaryResult p rid summary lasti e =
     (if rid \<noteq> sz_pending p then p
      else (let p1 = p\<lparr>sz_busy := False, sz_pending := []\<rparr> in
            if e \<noteq> [] \<or> lasti < 0 then p1
            else p1\<lparr>sz_context := applySummary (sz_context p1) summary lasti (sc_min_keep (sz_config p1))\<rparr>))"

text \<open>A frame comes with the fresh identifier the processor may draw.\<close>

definition SummarizerProcessFrame ::
  "replies \<Rightarrow> summarizer \<Rightarrow> string \<times> frame \<Rightarrow> direction \<Rightarrow> summarizer \<times> push list \<times> err option" where
  "SummarizerProcessFrame rsp p uf d =
     (let (uuid, f) = uf in
      if d \<noteq> Downstream then hand rsp p Upstream f
      else (case fbody f of
          LLMFullResponseStartFrame \<Rightarrow>
            (let (p1, ps) = (if sc_auto (sz_config p) \<and> shouldSummarize p
                             then requestSummarization p uuid else (p, []))
             in (p1, ps @ [(Downstream, f)], rsp Downstream f))
        | LLMContextSummaryResultFrame rid summary lasti e \<Rightarrow>
            hand rsp (handleSummaryResult p rid summary lasti e) Downstream f
        | InterruptionFrame \<Rightarrow> hand rsp (p\<lparr>sz_busy := False, sz_pending := []\<rparr>) Downstream f
        | _ \<Rightarrow> hand rsp p Downstream f))"

lemma find_system: "find (has_role r) ms = Some m \<Longrightarrow> m \<in> set ms \<and> has_role r m"
  by (induction ms) (auto split: if_splits)

lemma find_split:
  "find P (xs @ ys) = (case find P xs of None \<Rightarrow> find P ys | Some x \<Rightarrow> Some x)"
  by (induction xs) auto

definition count_role :: "string \<Rightarrow> anymap list \<Rightarrow> nat" where
  "count_role r ms = length (filter (has_role r) ms)"

text \<open>A summary that is applied shortens the context without losing what is recent: the messages
  after the last summarized one stay, at least the configured number of them, behind the summary; a
  system message comes first if there was one. The system message is doubled, though, if all of them
  are among the messages that stay.\<close>

theorem summary_keeps_recent:
  assumes "0 \<le> lasti" "lasti < int (length (messages c))"
    "min_keep \<le> int (length (messages c)) - 1 - lasti"
  defines "old \<equiv> take (nat (lasti + 1)) (messages c)" and "recent \<equiv> drop (nat (lasti + 1)) (messages c)"
  shows "\<exists>sys. messages (applySummary c summary lasti min_keep) =
      sys @ [[(''role'', AStr ''user''), (''content'', AStr (''Conversation summary: '' @ summary))]] @ recent \<and>
    min_keep \<le> int (length recent) \<and> list_all (has_role ''system'') sys \<and>
    length sys = (if count_role ''system'' (messages c) = 0 then 0 else 1) \<and>
    count_role ''system'' (messages (applySummary c summary lasti min_keep)) =
      (if count_role ''system'' old = 0 \<and> count_role ''system'' recent > 0
       then count_role ''system'' recent + 1
       else min 1 (count_role ''system'' old) + count_role ''system'' recent)"
proof -
  let ?sm = "[(''role'', AStr ''user''), (''content'', AStr (''Conversation summary: '' @ summary))]"
  define sys where "sys = (case find (has_role ''system'') (messages c) of None \<Rightarrow> [] | Some m \<Rightarrow> [m])"
  have m: "messages (applySummary c summary lasti min_keep) = sys @ [?sm] @ recent"
    using assms(1-3) by (simp add: applySummary_def Let_def sys_def recent_def)
  have s: "list_all (has_role ''system'') sys"
    using find_system [of "''system''" "messages c"] by (auto simp: sys_def split: option.split)
  have z: "find (has_role r) ms = None \<longleftrightarrow> count_role r ms = 0" for r ms
    by (auto simp: count_role_def find_None_iff filter_empty_conv)
  have l: "length sys = (if count_role ''system'' (messages c) = 0 then 0 else 1)"
    using z [of "''system''" "messages c"] by (auto simp: sys_def split: option.split)
  have "count_role ''system'' sys = length sys"
    using s by (simp add: count_role_def list_all_iff)
  moreover have "\<not> has_role ''system'' ?sm" by (simp add: has_role_def)
  ultimately have "count_role ''system'' (sys @ [?sm] @ recent) = length sys + count_role ''system'' recent"
    by (simp add: count_role_def)
  moreover have "messages c = old @ recent" by (simp add: old_def recent_def)
  then have "count_role ''system'' (messages c) = count_role ''system'' old + count_role ''system'' recent"
    by (simp add: count_role_def)
  moreover have "min_keep \<le> int (length recent)" using assms(1-3) by (simp add: recent_def nat_diff_distrib)
  ultimately show ?thesis using m s l by (intro exI [of _ sys]) auto
qed

theorem summary_keeps_recent_witness:
  "count_role ''system'' (messages (applySummary
       \<lparr>messages = [[(''role'', AStr ''user'')], [(''role'', AStr ''system'')]], tools = [], tool_choice = []\<rparr>
       ''s'' 0 1)) = 2"
  using summary_keeps_recent [of 0 "\<lparr>messages = [[(''role'', AStr ''user'')], [(''role'', AStr ''system'')]],
    tools = [], tool_choice = []\<rparr>" 1 "''s''"]
  by (auto simp: count_role_def has_role_def numeral_2_eq_2)

end
