(* ===== verification/VoiceServices.thy ===== *)
theory VoiceServices
  imports Voice TextAgg
begin

text \<open>
  The processors of \<^verbatim>\<open>pkg/processors/voice\<close> that listen and think: \<^verbatim>\<open>stt.go\<close> and \<^verbatim>\<open>llm.go\<close>
  (for \<^verbatim>\<open>tts.go\<close> see \<open>Tts\<close>). A service is
  an interface of \<^verbatim>\<open>pkg/services\<close>: its state is a field of the processor, of any type, and its
  method a parameter that returns the answer and the next state. What a handler does to the
  outside is its list of effects, in order. Errors of pushing a frame are returned only where the
  code returns them; while a frame is pushed, the neighbours do not call back.
\<close>

section \<open>Effects\<close>

datatype effect =
    Push direction frame
  | CallTranscribe "byte list" int int
  | CallChat "anymap list"
  | NotifyContext "anymap list"
  | CallSpeak string int

definition sends :: "frame \<Rightarrow> effect" where
  "sends = Push Downstream"

fun down_of :: "effect list \<Rightarrow> frame list" where
  "down_of [] = []"
| "down_of (e # es) = (case e of Push Downstream f \<Rightarrow> [f] | _ \<Rightarrow> []) @ down_of es"

fun transcribed :: "effect list \<Rightarrow> byte list list" where
  "transcribed [] = []"
| "transcribed (e # es) = (case e of CallTranscribe b _ _ \<Rightarrow> [b] | _ \<Rightarrow> []) @ transcribed es"

fun chats :: "effect list \<Rightarrow> anymap list list" where
  "chats [] = []"
| "chats (e # es) = (case e of CallChat m \<Rightarrow> [m] | _ \<Rightarrow> []) @ chats es"

fun spoken :: "effect list \<Rightarrow> string list" where
  "spoken [] = []"
| "spoken (e # es) = (case e of CallSpeak s _ \<Rightarrow> [s] | _ \<Rightarrow> []) @ spoken es"

lemma effects_append [simp]:
  "down_of (xs @ ys) = down_of xs @ down_of ys"
  "transcribed (xs @ ys) = transcribed xs @ transcribed ys"
  "chats (xs @ ys) = chats xs @ chats ys" "spoken (xs @ ys) = spoken xs @ spoken ys"
  by (induction xs) auto

lemma case_sends [simp]: "case_effect g h i j k (sends f) = g Downstream f"
  by (simp add: sends_def)

lemma effects_map_sends [simp]:
  "down_of (map sends fs) = fs" "transcribed (map sends fs) = []"
  "chats (map sends fs) = []" "spoken (map sends fs) = []"
  by (induction fs) simp_all

text \<open>Handing a frame on as the last action.\<close>

definition pass :: "replies \<Rightarrow> 's \<Rightarrow> direction \<Rightarrow> frame \<Rightarrow> 's \<times> effect list \<times> err option" where
  "pass rsp s d f = (s, [Push d f], rsp d f)"

lemma pass_simps [simp]:
  "fst (pass rsp s d f) = s" "fst (snd (pass rsp s d f)) = [Push d f]"
  "snd (snd (pass rsp s d f)) = rsp d f"
  by (simp_all add: pass_def)

text \<open>A handler as a stage: it takes frames from upstream and gives effects.\<close>

definition stage :: "('s \<Rightarrow> frame \<Rightarrow> direction \<Rightarrow> 's \<times> effect list \<times> err option) \<Rightarrow> 's \<Rightarrow> frame
    \<Rightarrow> 's \<times> effect list" where
  "stage h s f = (let (s', es, _) = h s f Downstream in (s', es))"

lemma stage_simps [simp]:
  "fst (stage h s f) = fst (h s f Downstream)" "snd (stage h s f) = fst (snd (h s f Downstream))"
  by (simp_all add: stage_def case_prod_beta)

section \<open>STTProcessor\<close>

type_synonym transcription = "base \<times> text_data \<times> string \<times> string \<times> string \<times> bool"

type_synonym 'v transcriber =
  "'v \<Rightarrow> byte list \<Rightarrow> int \<Rightarrow> int \<Rightarrow> (err + transcription list) \<times> 'v"

record 'v stt_proc =
  stt_name :: string
  stt_rate :: int
  stt_channels :: int
  stt_min :: int
  stt_buf :: "byte list"
  stt_svc :: 'v
  stt_ids :: u64

definition NewSTTProcessorWithBuffer ::
  "string \<Rightarrow> 'v \<Rightarrow> int \<Rightarrow> int \<Rightarrow> int \<Rightarrow> u64 \<Rightarrow> 'v stt_proc" where
  "NewSTTProcessorWithBuffer name svc rate channels min_ms ids =
     (let name' = (if name = [] then ''STT'' else name);
          rate' = (if rate \<le> 0 then 16000 else rate);
          channels' = (if channels \<le> 0 then 1 else channels);
          ms = (if min_ms \<le> 0 then 500 else min_ms);
          bytes = rate' * channels' * 2 * ms div 1000
      in \<lparr>stt_name = name', stt_rate = rate', stt_channels = channels',
          stt_min = (if bytes < 3200 then 3200 else bytes), stt_buf = [], stt_svc = svc, stt_ids = ids\<rparr>)"

definition NewSTTProcessor :: "string \<Rightarrow> 'v \<Rightarrow> int \<Rightarrow> int \<Rightarrow> u64 \<Rightarrow> 'v stt_proc" where
  "NewSTTProcessor name svc rate channels ids = NewSTTProcessorWithBuffer name svc rate channels 500 ids"

text \<open>The critical section: \<^verbatim>\<open>toSend\<close> is nil if there is too little audio, or none.\<close>

definition stt_buffer :: "'v stt_proc \<Rightarrow> byte list \<Rightarrow> 'v stt_proc \<times> byte list option" where
  "stt_buffer p a =
     (let b = stt_buf p @ a in
      if int (length b) \<ge> stt_min p then (p\<lparr>stt_buf := []\<rparr>, if b = [] then None else Some b)
      else (p\<lparr>stt_buf := b\<rparr>, None))"

text \<open>The transcripts that are passed on, trimmed.\<close>

definition transcript_frames :: "transcription list \<Rightarrow> frame list" where
  "transcript_frames tfs =
     concat (map (\<lambda>(ba, t, user, time, lang, final).
       (let text = TrimSpace (tdata t) in
        if text = [] then []
        else [Frame ba (TranscriptionFrame (t\<lparr>tdata := text\<rparr>) user time lang final)])) tfs)"

definition STTProcessFrame ::
  "'v transcriber \<Rightarrow> replies \<Rightarrow> 'v stt_proc \<Rightarrow> frame \<Rightarrow> direction
     \<Rightarrow> 'v stt_proc \<times> effect list \<times> err option" where
  "STTProcessFrame tr rsp p f d =
     (if d \<noteq> Downstream then pass rsp p Upstream f
      else (case fbody f of
          AudioRawFrame a \<Rightarrow>
            (let (p1, to_send) = stt_buffer p (audio a) in
             case to_send of
               None \<Rightarrow> (p1, [], None)
             | Some b \<Rightarrow>
                 (let (ans, v) = tr (stt_svc p1) b (stt_rate p1) (stt_channels p1);
                      p2 = p1\<lparr>stt_svc := v\<rparr>; call = CallTranscribe b (stt_rate p1) (stt_channels p1)
                  in case ans of
                       Inl e \<Rightarrow>
                         (let (ef, ids) = NewErrorFrame e False (stt_name p2) (stt_ids p2)
                          in (p2\<lparr>stt_ids := ids\<rparr>, [call, sends ef], None))
                     | Inr tfs \<Rightarrow> (p2, call # map sends (transcript_frames tfs), None)))
        | _ \<Rightarrow> pass rsp p Downstream f))"

definition frame_audio :: "frame \<Rightarrow> byte list" where
  "frame_audio f = (case fbody f of AudioRawFrame a \<Rightarrow> audio a | _ \<Rightarrow> [])"

definition stt_ok :: "'v stt_proc \<Rightarrow> bool" where
  "stt_ok p \<longleftrightarrow> 3200 \<le> stt_min p \<and> int (length (stt_buf p)) < stt_min p"

lemma NewSTTProcessor_ok: "stt_ok (NewSTTProcessorWithBuffer name svc rate channels ms ids)"
  by (simp add: stt_ok_def NewSTTProcessorWithBuffer_def Let_def)

lemma stt_buffer_facts:
  assumes "stt_ok p" "stt_buffer p a = (p1, s)"
  shows "stt_ok p1" "stt_min p1 = stt_min p"
    "(case s of None \<Rightarrow> [] | Some b \<Rightarrow> b) @ stt_buf p1 = stt_buf p @ a"
    "\<And>b. s = Some b \<Longrightarrow> stt_min p \<le> int (length b)"
  using assms by (auto simp: stt_buffer_def stt_ok_def Let_def split: if_splits)

lemma stt_step:
  assumes "stt_ok p" "STTProcessFrame tr rsp p f Downstream = (p', es, e)"
  shows "stt_ok p' \<and> stt_min p' = stt_min p \<and>
    concat (transcribed es) @ stt_buf p' = stt_buf p @ frame_audio f \<and>
    list_all (\<lambda>b. stt_min p \<le> int (length b)) (transcribed es)"
proof (cases "\<exists>a. fbody f = AudioRawFrame a")
  case True
  then obtain a where a: "fbody f = AudioRawFrame a" by blast
  obtain p1 s where b: "stt_buffer p (audio a) = (p1, s)" by fastforce
  show ?thesis
  proof (cases s)
    case None
    with assms a b stt_buffer_facts [OF assms(1) b] show ?thesis
      by (auto simp: STTProcessFrame_def frame_audio_def)
  next
    case (Some x)
    obtain ans v where t: "tr (stt_svc p1) x (stt_rate p1) (stt_channels p1) = (ans, v)" by fastforce
    show ?thesis
    proof (cases ans)
      case (Inl er)
      with assms a b Some t stt_buffer_facts [OF assms(1) b] show ?thesis
        by (auto simp: STTProcessFrame_def frame_audio_def Let_def stt_ok_def split: prod.splits)
    next
      case (Inr tfs)
      with assms a b Some t stt_buffer_facts [OF assms(1) b] show ?thesis
        by (auto simp: STTProcessFrame_def frame_audio_def Let_def stt_ok_def)
    qed
  qed
next
  case False
  then have "STTProcessFrame tr rsp p f Downstream = pass rsp p Downstream f" "frame_audio f = []"
    by (auto simp: STTProcessFrame_def frame_audio_def split: body.splits)
  with assms show ?thesis by (auto simp: pass_def)
qed

interpretation stt_run: machine_out "stage (STTProcessFrame tr rsp)" "\<lambda>p. stt_ok p \<and> stt_min p = m"
  "\<lambda>e. case e of CallTranscribe b r c \<Rightarrow> m \<le> int (length b) | _ \<Rightarrow> True"
proof unfold_locales
  fix p :: "'a stt_proc" and f
  assume i: "stt_ok p \<and> stt_min p = m"
  obtain p' es e where s: "STTProcessFrame tr rsp p f Downstream = (p', es, e)" by (metis prod_cases3)
  note f = stt_step [OF conjunct1 [OF i] s]
  show "stt_ok (fst (stage (STTProcessFrame tr rsp) p f)) \<and> stt_min (fst (stage (STTProcessFrame tr rsp) p f)) = m"
    using f i s by simp
  have "list_all (\<lambda>b. m \<le> int (length b)) (transcribed xs) \<Longrightarrow>
      list_all (\<lambda>e. case e of CallTranscribe b r c \<Rightarrow> m \<le> int (length b) | _ \<Rightarrow> True) xs" for xs
    by (induction xs) (auto split: effect.splits)
  with f i s show "list_all (\<lambda>e. case e of CallTranscribe b r c \<Rightarrow> m \<le> int (length b) | _ \<Rightarrow> True)
      (snd (stage (STTProcessFrame tr rsp) p f))" by simp
qed

lemma stt_run_audio:
  assumes "stt_ok p" "run (stage (STTProcessFrame tr rsp)) p fs = (p', es)"
  shows "concat (transcribed es) @ stt_buf p' = stt_buf p @ concat (map frame_audio fs)" "stt_ok p'"
    "stt_min p' = stt_min p" "list_all (\<lambda>b. stt_min p \<le> int (length b)) (transcribed es)"
proof -
  let ?m = "stt_min p"
  have i: "stt_ok p \<and> stt_min p = ?m" using assms by simp
  have "concat (transcribed (snd (run (stage (STTProcessFrame tr rsp)) p fs))) @
      stt_buf (fst (run (stage (STTProcessFrame tr rsp)) p fs)) = stt_buf p @ concat (map frame_audio fs)"
  proof (rule stt_run.run_conserves [where out = "\<lambda>xs. concat (transcribed xs)" and kept = stt_buf, OF _ _ _ i])
    fix q :: "'a stt_proc" and f
    assume q: "stt_ok q \<and> stt_min q = ?m"
    obtain p' es e where s: "STTProcessFrame tr rsp q f Downstream = (p', es, e)" by (metis prod_cases3)
    from stt_step [OF conjunct1 [OF q] s] s
    show "concat (transcribed (snd (stage (STTProcessFrame tr rsp) q f))) @
      stt_buf (fst (stage (STTProcessFrame tr rsp) q f)) = stt_buf q @ frame_audio f" by simp
  qed simp_all
  then show "concat (transcribed es) @ stt_buf p' = stt_buf p @ concat (map frame_audio fs)"
    using assms(2) by simp
  show "stt_ok p'" "stt_min p' = ?m" using stt_run.run_inv [OF i, of tr rsp fs] assms(2) by simp_all
  have "list_all (\<lambda>e. case e of CallTranscribe b r c \<Rightarrow> ?m \<le> int (length b) | _ \<Rightarrow> True) xs \<Longrightarrow>
      list_all (\<lambda>b. ?m \<le> int (length b)) (transcribed xs)" for xs
    by (induction xs) (auto split: effect.splits)
  with stt_run.run_ok [OF i, of tr rsp fs] assms(2)
  show "list_all (\<lambda>b. ?m \<le> int (length b)) (transcribed es)" by simp
qed

text \<open>The speech-to-text processor loses, duplicates and reorders no audio, and never calls the
  service on too little of it: over any frames, with any service (also a failing one), the buffers sent for transcription
  followed by the buffer kept are the audio received; each of them has at least the minimum size
  and what is kept is smaller. (So the last audio of a session, if it is short, is never transcribed.)\<close>

theorem stt_conserves_audio:
  "let (p, es) = run (stage (STTProcessFrame tr rsp))
                   (NewSTTProcessorWithBuffer name svc rate channels ms ids) fs
   in concat (transcribed es) @ stt_buf p = concat (map frame_audio fs) \<and>
      list_all (\<lambda>b. stt_min p \<le> int (length b)) (transcribed es) \<and>
      int (length (stt_buf p)) < stt_min p \<and> 3200 \<le> stt_min p"
proof -
  let ?p = "NewSTTProcessorWithBuffer name svc rate channels ms ids"
  obtain p es where r: "run (stage (STTProcessFrame tr rsp)) ?p fs = (p, es)" by fastforce
  have "stt_buf ?p = []" by (simp add: NewSTTProcessorWithBuffer_def Let_def)
  with stt_run_audio [OF NewSTTProcessor_ok r] r show ?thesis
    by (simp add: stt_ok_def)
qed

section \<open>LLMProcessor\<close>

type_synonym token = "base \<times> text_data"

text \<open>A chat answers with the tokens it streams and an error or none.\<close>

type_synonym 'v chatter = "'v \<Rightarrow> anymap list \<Rightarrow> (token list \<times> err option) \<times> 'v"

record 'v llm_proc =
  llm_prompt :: string
  llm_notify :: bool
  llm_msgs :: "anymap list"
  llm_svc :: 'v
  llm_ids :: u64

definition NewLLMProcessorWithSystemPrompt :: "'v \<Rightarrow> string \<Rightarrow> u64 \<Rightarrow> 'v llm_proc" where
  "NewLLMProcessorWithSystemPrompt svc prompt ids =
     \<lparr>llm_prompt = prompt, llm_notify = False, llm_msgs = [], llm_svc = svc, llm_ids = ids\<rparr>"

definition role_msg :: "string \<Rightarrow> string \<Rightarrow> anymap" where
  "role_msg r s = [(''role'', AStr r), (''content'', AStr s)]"

definition notifyContextUpdate :: "'v llm_proc \<Rightarrow> effect list" where
  "notifyContextUpdate p = (if llm_notify p then [NotifyContext (llm_msgs p)] else [])"

definition token_frame :: "token \<Rightarrow> frame" where
  "token_frame tok = Frame (fst tok) (LLMTextFrame (snd tok))"

definition runLLMWithMessages ::
  "'v chatter \<Rightarrow> 'v llm_proc \<Rightarrow> anymap list \<Rightarrow> bool \<Rightarrow> 'v llm_proc \<times> effect list \<times> err option" where
  "runLLMWithMessages chat p msgs skip =
     (let to_send = (if \<not> skip \<and> llm_prompt p \<noteq> [] then [role_msg ''system'' (llm_prompt p)] else []) @ msgs;
          ((toks, e), v) = chat (llm_svc p) to_send;
          p1 = p\<lparr>llm_svc := v\<rparr>;
          full = concat (map (tdata \<circ> snd) toks);
          out = CallChat to_send # map (sends \<circ> token_frame) toks
      in if e \<noteq> None then (p1, out, e)
         else if full = [] then (p1, out, None)
         else (let p2 = p1\<lparr>llm_msgs := llm_msgs p1 @ [role_msg ''assistant'' full]\<rparr>;
                   (sp, ids) = NewTTSSpeakFrame [] (llm_ids p2)
               in (p2\<lparr>llm_ids := ids\<rparr>, out @ notifyContextUpdate p2 @ [sends sp], None)))"

definition LLMProcessFrame ::
  "'v chatter \<Rightarrow> replies \<Rightarrow> 'v llm_proc \<Rightarrow> frame \<Rightarrow> direction
     \<Rightarrow> 'v llm_proc \<times> effect list \<times> err option" where
  "LLMProcessFrame chat rsp p f d =
     (case fbody f of
        LLMMessagesUpdateFrame ms run_llm \<Rightarrow>
          (let p1 = p\<lparr>llm_msgs := ms\<rparr>; note = notifyContextUpdate p1 in
           if run_llm = Some True
           then (let (p2, es, e) = runLLMWithMessages chat p1 (llm_msgs p1) True in (p2, note @ es, e))
           else (let (p2, es, e) = pass rsp p1 Downstream f in (p2, note @ es, e)))
      | _ \<Rightarrow>
          if d \<noteq> Downstream then pass rsp p Upstream f
          else (case fbody f of
              TranscriptionFrame t _ _ _ _ \<Rightarrow>
                (let p1 = p\<lparr>llm_msgs := llm_msgs p @ [role_msg ''user'' (tdata t)]\<rparr>;
                     (p2, es, e) = runLLMWithMessages chat p1 (llm_msgs p1) False
                 in (p2, notifyContextUpdate p1 @ es, e))
            | LLMRunFrame \<Rightarrow> runLLMWithMessages chat p (llm_msgs p) False
            | _ \<Rightarrow> pass rsp p Downstream f))"

text \<open>The conversation as it can be read off the frames: what the user said, and the answer as it
  was streamed, if the stream was completed (by the frame that flushes the speech buffer).\<close>

definition user_turn :: "frame \<Rightarrow> anymap list" where
  "user_turn f =
     (case fbody f of TranscriptionFrame t _ _ _ _ \<Rightarrow> [role_msg ''user'' (tdata t)] | _ \<Rightarrow> [])"

definition asks :: "frame \<Rightarrow> bool" where
  "asks f = (case fbody f of TranscriptionFrame t _ _ _ _ \<Rightarrow> True | LLMRunFrame \<Rightarrow> True | _ \<Rightarrow> False)"

definition streamed :: "frame list \<Rightarrow> string" where
  "streamed fs = concat (map (\<lambda>f. case fbody f of LLMTextFrame t \<Rightarrow> tdata t | _ \<Rightarrow> []) fs)"

definition completed :: "frame list \<Rightarrow> bool" where
  "completed fs = list_ex (\<lambda>f. case fbody f of TTSSpeakFrame t \<Rightarrow> True | _ \<Rightarrow> False) fs"

definition exchange :: "frame \<Rightarrow> effect list \<Rightarrow> anymap list" where
  "exchange f out = user_turn f @
     (if asks f \<and> completed (down_of out) then [role_msg ''assistant'' (streamed (down_of out))] else [])"

definition is_update :: "frame \<Rightarrow> bool" where
  "is_update f = (case fbody f of LLMMessagesUpdateFrame a b \<Rightarrow> True | _ \<Rightarrow> False)"

definition prompt_msgs :: "'v llm_proc \<Rightarrow> anymap list" where
  "prompt_msgs p = (if llm_prompt p = [] then [] else [role_msg ''system'' (llm_prompt p)])"

lemma effects_notify [simp]:
  "down_of (notifyContextUpdate p) = []" "chats (notifyContextUpdate p) = []"
  "transcribed (notifyContextUpdate p) = []" "spoken (notifyContextUpdate p) = []"
  by (simp_all add: notifyContextUpdate_def)

lemma map_sends_comp [simp]:
  "down_of (map (sends \<circ> g) xs) = map g xs" "chats (map (sends \<circ> g) xs) = []"
  "spoken (map (sends \<circ> g) xs) = []"
  by (simp_all flip: map_map)

lemma streamed_simps [simp]:
  "streamed [] = []" "streamed (xs @ ys) = streamed xs @ streamed ys"
  "streamed (map token_frame toks) = concat (map (tdata \<circ> snd) toks)"
  by (simp_all add: streamed_def token_frame_def comp_def)

lemma completed_simps [simp]:
  "\<not> completed []" "completed (xs @ ys) \<longleftrightarrow> completed xs \<or> completed ys"
  "\<not> completed (map token_frame toks)"
  by (simp_all add: completed_def token_frame_def list_ex_iff ball_Un bex_Un)

lemma speak_frame [simp]:
  "completed [fst (NewTTSSpeakFrame s i)]" "streamed [fst (NewTTSSpeakFrame s i)] = []"
  by (simp_all add: completed_def streamed_def NewTTSSpeakFrame_def)

lemma runLLM_facts:
  assumes "runLLMWithMessages chat p msgs skip = (p', es, e)"
  shows "chats es = [(if skip then [] else prompt_msgs p) @ msgs]"
    "llm_msgs p' = llm_msgs p @
       (if completed (down_of es) then [role_msg ''assistant'' (streamed (down_of es))] else [])"
    "llm_prompt p' = llm_prompt p" "e \<noteq> None \<Longrightarrow> \<not> completed (down_of es)"
proof -
  let ?m = "(if \<not> skip \<and> llm_prompt p \<noteq> [] then [role_msg ''system'' (llm_prompt p)] else []) @ msgs"
  obtain toks er v where c: "chat (llm_svc p) ?m = ((toks, er), v)" by (metis prod_cases3 prod.collapse)
  have m: "?m = (if skip then [] else prompt_msgs p) @ msgs" by (simp add: prompt_msgs_def)
  show "chats es = [(if skip then [] else prompt_msgs p) @ msgs]"
    using assms c m by (auto simp: runLLMWithMessages_def Let_def case_prod_beta split: if_splits)
  show "llm_msgs p' = llm_msgs p @
      (if completed (down_of es) then [role_msg ''assistant'' (streamed (down_of es))] else [])"
    "llm_prompt p' = llm_prompt p" "e \<noteq> None \<Longrightarrow> \<not> completed (down_of es)"
    using assms c by (auto simp: runLLMWithMessages_def Let_def case_prod_beta split: if_splits)
qed

abbreviation llm_step :: "'v chatter \<Rightarrow> replies \<Rightarrow> 'v llm_proc \<Rightarrow> frame \<Rightarrow> 'v llm_proc \<times> effect list" where
  "llm_step chat rsp \<equiv> stage (LLMProcessFrame chat rsp)"

lemma llm_step_facts:
  assumes "\<not> is_update f"
  shows "chats (snd (llm_step chat rsp p f)) = (if asks f then [prompt_msgs p @ llm_msgs p @ user_turn f] else [])"
    "llm_msgs (fst (llm_step chat rsp p f)) = llm_msgs p @ exchange f (snd (llm_step chat rsp p f))"
    "llm_prompt (fst (llm_step chat rsp p f)) = llm_prompt p"
proof -
  consider t u ti l fi where "fbody f = TranscriptionFrame t u ti l fi" | "fbody f = LLMRunFrame"
    | "\<not> asks f" "fbody f \<noteq> LLMRunFrame"
    unfolding asks_def by (cases "fbody f") auto
  then have "chats (snd (llm_step chat rsp p f)) =
        (if asks f then [prompt_msgs p @ llm_msgs p @ user_turn f] else []) \<and>
      llm_msgs (fst (llm_step chat rsp p f)) = llm_msgs p @ exchange f (snd (llm_step chat rsp p f)) \<and>
      llm_prompt (fst (llm_step chat rsp p f)) = llm_prompt p"
  proof cases
    case 1
    let ?p = "p\<lparr>llm_msgs := llm_msgs p @ [role_msg ''user'' (tdata t)]\<rparr>"
    obtain q es e where r: "runLLMWithMessages chat ?p (llm_msgs ?p) False = (q, es, e)" by (metis prod_cases3)
    have "LLMProcessFrame chat rsp p f Downstream = (q, notifyContextUpdate ?p @ es, e)"
      using r by (simp add: LLMProcessFrame_def 1)
    with runLLM_facts [OF r] show ?thesis
      by (simp add: 1 asks_def user_turn_def exchange_def prompt_msgs_def)
  next
    case 2
    obtain q es e where r: "runLLMWithMessages chat p (llm_msgs p) False = (q, es, e)" by (metis prod_cases3)
    with runLLM_facts [OF r] show ?thesis
      by (simp add: LLMProcessFrame_def 2 asks_def user_turn_def exchange_def)
  next
    case 3
    with assms have "LLMProcessFrame chat rsp p f Downstream = pass rsp p Downstream f"
      by (cases "fbody f") (simp_all add: LLMProcessFrame_def asks_def is_update_def)
    moreover from 3 have "user_turn f = []" by (cases "fbody f") (simp_all add: asks_def user_turn_def)
    ultimately show ?thesis using 3 by (simp add: exchange_def)
  qed
  then show "chats (snd (llm_step chat rsp p f)) =
      (if asks f then [prompt_msgs p @ llm_msgs p @ user_turn f] else [])"
    "llm_msgs (fst (llm_step chat rsp p f)) = llm_msgs p @ exchange f (snd (llm_step chat rsp p f))"
    "llm_prompt (fst (llm_step chat rsp p f)) = llm_prompt p" by blast+
qed

lemma llm_history:
  assumes "list_all (\<lambda>f. \<not> is_update f) fs"
  shows "llm_msgs (fst (run (llm_step chat rsp) p fs)) =
      llm_msgs p @ concat (map2 exchange fs (trace (llm_step chat rsp) p fs)) \<and>
    llm_prompt (fst (run (llm_step chat rsp) p fs)) = llm_prompt p"
  using assms
proof (induction fs arbitrary: p)
  case (Cons f fs)
  then show ?case by (simp add: llm_step_facts [of f chat rsp p, simplified] del: run.simps)
qed simp

lemma trace_nth: "i < length es \<Longrightarrow> trace step s es ! i = snd (step (fst (run step s (take i es))) (es ! i))"
  by (induction es arbitrary: s i) (auto simp: nth_Cons simp del: run.simps(2) split: nat.splits)

lemma trace_take: "take i (trace step s es) = trace step s (take i es)"
  by (induction es arbitrary: s i) (auto simp: take_Cons split: nat.splits)

text \<open>The language model is always asked about the conversation as the users of the pipeline saw
  it: over any frames but context replacements, the history is the earlier one followed by, for each
  question, what the user said and the answer exactly as it was streamed downstream (no answer if the
  stream failed or was empty), and the request for a question is the system prompt, once, the history
  so far and the question.\<close>

theorem llm_asks_with_history:
  fixes p :: "'v llm_proc"
  assumes "list_all (\<lambda>f. \<not> is_update f) fs" "i < length fs"
  shows "let outs = trace (llm_step chat rsp) p fs
    in llm_msgs (fst (run (llm_step chat rsp) p fs)) = llm_msgs p @ concat (map2 exchange fs outs) \<and>
      chats (outs ! i) =
        (if asks (fs ! i)
         then [prompt_msgs p @ llm_msgs p @ concat (map2 exchange (take i fs) (take i outs)) @ user_turn (fs ! i)]
         else [])"
proof -
  let ?q = "fst (run (llm_step chat rsp) p (take i fs))"
  have t: "list_all (\<lambda>f. \<not> is_update f) (take i fs)" and u: "\<not> is_update (fs ! i)"
    using assms by (auto simp: list_all_iff dest: in_set_takeD)
  have "chats (trace (llm_step chat rsp) p fs ! i) = chats (snd (llm_step chat rsp ?q (fs ! i)))"
    by (simp only: trace_nth [OF assms(2)])
  also have "\<dots> = (if asks (fs ! i) then [prompt_msgs ?q @ llm_msgs ?q @ user_turn (fs ! i)] else [])"
    by (rule llm_step_facts(1) [OF u])
  finally show ?thesis
    using llm_history [OF assms(1), of chat rsp p] llm_history [OF t, of chat rsp p]
    by (simp add: Let_def prompt_msgs_def trace_take del: stage_simps)
qed

definition parrot :: "unit chatter" where
  "parrot v ms = (([(NewBaseWithID 5, text_of ''Hi ''), (NewBaseWithID 6, text_of ''you'')], None), v)"

lemma said_body: "fbody (said x) = TranscriptionFrame (text_of x) ''u'' ''t'' [] True"
  by (simp add: said_def NewTranscriptionFrame_def)

lemma parrot_answers:
  "down_of (snd (llm_step parrot rsp (NewLLMProcessorWithSystemPrompt () prompt i) (said x))) =
     map token_frame [(NewBaseWithID 5, text_of ''Hi ''), (NewBaseWithID 6, text_of ''you'')] @
     [fst (NewTTSSpeakFrame [] i)]"
  by (simp add: LLMProcessFrame_def said_body runLLMWithMessages_def parrot_def
      NewLLMProcessorWithSystemPrompt_def case_prod_beta Let_def text_of_def)

lemma parrot_says:
  "completed (down_of (snd (llm_step parrot rsp (NewLLMProcessorWithSystemPrompt () prompt i) (said x))))"
  "streamed (down_of (snd (llm_step parrot rsp (NewLLMProcessorWithSystemPrompt () prompt i) (said x)))) =
     ''Hi you''"
  by (simp_all only: parrot_answers completed_simps streamed_simps speak_frame)
    (simp_all add: text_of_def)

theorem llm_asks_with_history_witness:
  "chats (trace (llm_step parrot quiet_replies) (NewLLMProcessorWithSystemPrompt () ''be brief'' 7)
       [said ''hello'', said ''bye''] ! 1) =
     [[role_msg ''system'' ''be brief'', role_msg ''user'' ''hello'', role_msg ''assistant'' ''Hi you'',
       role_msg ''user'' ''bye'']]"
proof -
  let ?p = "NewLLMProcessorWithSystemPrompt () ''be brief'' 7"
  have "list_all (\<lambda>f. \<not> is_update f) [said ''hello'', said ''bye'']"
    by (simp add: is_update_def said_body)
  note t = llm_asks_with_history [OF this, of 1 parrot quiet_replies ?p]
  have "exchange (said ''hello'') (snd (llm_step parrot quiet_replies ?p (said ''hello''))) =
      [role_msg ''user'' ''hello'', role_msg ''assistant'' ''Hi you'']"
    by (simp add: exchange_def parrot_says asks_def user_turn_def said_body text_of_def
        del: stage_simps)
  moreover have "prompt_msgs ?p = [role_msg ''system'' ''be brief'']" "llm_msgs ?p = []"
    by (simp_all add: prompt_msgs_def NewLLMProcessorWithSystemPrompt_def)
  moreover have "asks (said ''bye'')" "user_turn (said ''bye'') = [role_msg ''user'' ''bye'']"
    by (simp_all add: asks_def user_turn_def said_body text_of_def)
  ultimately show ?thesis using t by (simp add: Let_def del: stage_simps)
qed

section \<open>The base of AI services\<close>

text \<open>\<^verbatim>\<open>ai_base.go\<close>: settings, and hooks on the life cycle. A hook is supplied by the service that embeds the
  base; it gives the new state of the service, and a panic in it is recovered.\<close>

record service_settings =
  svc_model :: string
  svc_voice :: string

record 'v ai_service =
  ai_settings :: service_settings
  ai_state :: 'v

definition NewAIServiceBase :: "service_settings option \<Rightarrow> 'v \<Rightarrow> 'v ai_service" where
  "NewAIServiceBase s v =
     \<lparr>ai_settings = (case s of None \<Rightarrow> \<lparr>svc_model = [], svc_voice = []\<rparr> | Some x \<Rightarrow> x), ai_state = v\<rparr>"

definition ApplySettings :: "'v ai_service \<Rightarrow> service_settings \<Rightarrow> 'v ai_service" where
  "ApplySettings p s = p\<lparr>ai_settings := s\<rparr>"

record 'v ai_hooks =
  on_start :: "'v \<Rightarrow> frame \<Rightarrow> 'v \<times> bool"
  on_stop :: "'v \<Rightarrow> frame \<Rightarrow> 'v \<times> bool"
  on_cancel :: "'v \<Rightarrow> frame \<Rightarrow> 'v \<times> bool"

definition recovered :: "('v \<Rightarrow> frame \<Rightarrow> 'v \<times> bool) \<Rightarrow> 'v ai_service \<Rightarrow> frame \<Rightarrow> 'v ai_service" where
  "recovered hook p f = (let (v, panicked) = hook (ai_state p) f in p\<lparr>ai_state := v\<rparr>)"

definition AIServiceProcessFrame ::
  "'v ai_hooks \<Rightarrow> replies \<Rightarrow> 'v ai_service \<Rightarrow> frame \<Rightarrow> direction \<Rightarrow> 'v ai_service \<times> effect list \<times> err option"
where
  "AIServiceProcessFrame h rsp p f d =
     (let p1 = (case fbody f of
                  StartFrame _ _ _ _ _ \<Rightarrow> recovered (on_start h) p f
                | EndFrame \<Rightarrow> recovered (on_stop h) p f
                | CancelFrame _ \<Rightarrow> recovered (on_cancel h) p f
                | _ \<Rightarrow> p)
      in pass rsp p1 d f)"

end
