(* ===== verification/Ivr.thy ===== *)
theory Ivr
  imports VoiceServices
begin

text \<open>
  \<^verbatim>\<open>pkg/extensions/ivr\<close>: the processor that reads commands between delimiters out of the language
  model's answer and acts on them. The prompts are parameters; the two callbacks are outputs, given
  only when they are registered.
\<close>

datatype ivr_status = IVRDetected | IVRCompleted | IVRStuck | IVRWait

primrec status_string :: "ivr_status \<Rightarrow> string" where
  "status_string IVRDetected = ''detected''"
| "status_string IVRCompleted = ''completed''"
| "status_string IVRStuck = ''stuck''"
| "status_string IVRWait = ''wait''"

datatype ivr_out =
    IPush direction frame
  | IConversation "anymap list"
  | IStatus ivr_status

record ivr_proc =
  iv_classifier :: string
  iv_prompt :: string
  iv_stop :: rat
  iv_agg :: pattern_agg
  iv_saved :: "anymap list"
  iv_on_conversation :: bool
  iv_on_status :: bool
  iv_ids :: u64

definition defaultDelim :: string where
  "defaultDelim = [CHR 0x20, CHR 0x60, CHR 0x20]"

definition NewPattern :: "string \<Rightarrow> string \<Rightarrow> pattern_agg" where
  "NewPattern op cl = \<lparr>pa_open = op, pa_close = cl, pa_buf = []\<rparr>"

definition NewIVRProcessor :: "string \<Rightarrow> string \<Rightarrow> rat \<Rightarrow> u64 \<Rightarrow> ivr_proc" where
  "NewIVRProcessor classifier prompt stop ids =
     \<lparr>iv_classifier = classifier, iv_prompt = prompt, iv_stop = (if stop \<le> 0 then 2 else stop),
      iv_agg = NewPattern defaultDelim defaultDelim, iv_saved = [], iv_on_conversation = False,
      iv_on_status = False, iv_ids = ids\<rparr>"

definition SetSavedMessages :: "ivr_proc \<Rightarrow> anymap list \<Rightarrow> ivr_proc" where
  "SetSavedMessages p ms = p\<lparr>iv_saved := ms\<rparr>"

definition OnConversationDetected :: "ivr_proc \<Rightarrow> ivr_proc" where
  "OnConversationDetected p = p\<lparr>iv_on_conversation := True\<rparr>"

definition OnIVRStatusChanged :: "ivr_proc \<Rightarrow> ivr_proc" where
  "OnIVRStatusChanged p = p\<lparr>iv_on_status := True\<rparr>"

definition getConversationHistory :: "ivr_proc \<Rightarrow> anymap list" where
  "getConversationHistory p = (if length (iv_saved p) \<le> 1 then [] else drop 1 (iv_saved p))"

definition new_frame :: "ivr_proc \<Rightarrow> body \<Rightarrow> ivr_proc \<times> frame" where
  "new_frame p b = (let (f, ids) = mk_frame b (iv_ids p) in (p\<lparr>iv_ids := ids\<rparr>, f))"

definition silent_text :: "string \<Rightarrow> body" where
  "silent_text s = TextFrame ((text_of ('' '' @ s @ '' ''))\<lparr>skip_tts := Some True\<rparr>)"

definition ivr_handleDTMF :: "ivr_proc \<Rightarrow> string \<Rightarrow> string \<Rightarrow> ivr_proc \<times> ivr_out list" where
  "ivr_handleDTMF p key content =
     (case NewOutputDTMFUrgentFrame key (iv_ids p) of
        (Inl e, ids) \<Rightarrow> (p\<lparr>iv_ids := ids\<rparr>, [])
      | (Inr f, ids) \<Rightarrow>
          (let (p1, t) = new_frame (p\<lparr>iv_ids := ids\<rparr>) (silent_text content)
           in (p1, [IPush Downstream f, IPush Downstream t])))"

definition handleConversation :: "ivr_proc \<Rightarrow> ivr_proc \<times> ivr_out list" where
  "handleConversation p =
     (p, if iv_on_conversation p then [IConversation (getConversationHistory p)] else [])"

definition status_call :: "ivr_proc \<Rightarrow> ivr_status \<Rightarrow> ivr_out list" where
  "status_call p st = (if iv_on_status p then [IStatus st] else [])"

definition handleIVRDetected :: "ivr_proc \<Rightarrow> ivr_proc \<times> ivr_out list" where
  "handleIVRDetected p =
     (let msgs = role_msg ''system'' (iv_prompt p) # getConversationHistory p;
          (p1, u) = new_frame p (LLMMessagesUpdateFrame msgs (Some True));
          (p2, v) = new_frame p1 (VADParamsUpdateFrame (iv_stop p) 0)
      in (p2, [IPush Upstream u, IPush Upstream v] @ status_call p IVRDetected))"

definition handleIVRStatus :: "ivr_proc \<Rightarrow> ivr_status \<Rightarrow> ivr_proc \<times> ivr_out list" where
  "handleIVRStatus p st =
     (let (p1, t) = new_frame p (silent_text (status_string st))
      in (p1, IPush Downstream t # status_call p st))"

definition handleMatch :: "ivr_proc \<Rightarrow> string \<Rightarrow> ivr_proc \<times> ivr_out list" where
  "handleMatch p content =
     (case ParseKeypadEntry content of
        Inr key \<Rightarrow> ivr_handleDTMF p key content
      | Inl _ \<Rightarrow>
          if content = ''conversation'' then handleConversation p
          else if content = ''ivr'' then handleIVRDetected p
          else if content = ''detected'' then handleIVRStatus p IVRDetected
          else if content = ''completed'' then handleIVRStatus p IVRCompleted
          else if content = ''stuck'' then handleIVRStatus p IVRStuck
          else if content = ''wait'' then handleIVRStatus p IVRWait
          else (p, []))"

fun push_texts :: "ivr_proc \<Rightarrow> string list \<Rightarrow> ivr_proc \<times> ivr_out list" where
  "push_texts p [] = (p, [])"
| "push_texts p (s # ss) =
     (if s = [] then push_texts p ss
      else (let (p1, f) = new_frame p (AggregatedTextFrame (text_of s) ''text'');
                (p2, out) = push_texts p1 ss
            in (p2, IPush Downstream f # out)))"

fun handle_matches :: "ivr_proc \<Rightarrow> string list \<Rightarrow> ivr_proc \<times> ivr_out list" where
  "handle_matches p [] = (p, [])"
| "handle_matches p (m # ms) =
     (let (p1, o1) = handleMatch p (TrimSpace m); (p2, o2) = handle_matches p1 ms in (p2, o1 @ o2))"

text \<open>\<open>None\<close> is a loop of the aggregator that does not end; with the delimiters of the constructor it
  does not occur.\<close>

definition IVRProcessFrame ::
  "replies \<Rightarrow> ivr_proc \<Rightarrow> frame \<Rightarrow> direction \<Rightarrow> (ivr_proc \<times> ivr_out list \<times> err option) option" where
  "IVRProcessFrame rsp p f d =
     (if d \<noteq> Downstream then Some (p, [IPush Upstream f], rsp Upstream f)
      else (case fbody f of
          StartFrame _ _ _ _ _ \<Rightarrow>
            (let (p1, u) = new_frame p (LLMMessagesUpdateFrame [role_msg ''system'' (iv_classifier p)] (Some True))
             in Some (p1, [IPush Downstream f, IPush Upstream u], rsp Upstream u))
        | LLMTextFrame t \<Rightarrow>
            (case Feed (iv_agg p) (tdata t) of
               None \<Rightarrow> None
             | Some (a, segs, ms) \<Rightarrow>
                 (let (p1, o1) = push_texts (p\<lparr>iv_agg := a\<rparr>) segs; (p2, o2) = handle_matches p1 ms
                  in Some (p2, o1 @ o2, None)))
        | LLMFullResponseEndFrame \<Rightarrow>
            (let (a, rest) = FlushPattern (iv_agg p);
                 (p1, o1) = push_texts (p\<lparr>iv_agg := a\<rparr>) [rest]
             in Some (p1, o1 @ [IPush Downstream f], rsp Downstream f))
        | EndFrame \<Rightarrow>
            (let (a, rest) = FlushPattern (iv_agg p);
                 (p1, o1) = push_texts (p\<lparr>iv_agg := a\<rparr>) [rest]
             in Some (p1, o1 @ [IPush Downstream f], rsp Downstream f))
        | _ \<Rightarrow> Some (p, [IPush Downstream f], rsp Downstream f)))"

text \<open>A stream of tokens.\<close>

fun ivr_stream :: "ivr_proc \<Rightarrow> string list \<Rightarrow> (ivr_proc \<times> ivr_out list) option" where
  "ivr_stream p [] = Some (p, [])"
| "ivr_stream p (x # xs) =
     (case IVRProcessFrame quiet_replies p (token_frame (NewBaseWithID 0, text_of x)) Downstream of
        None \<Rightarrow> None
      | Some (p1, o1, _) \<Rightarrow>
          (case ivr_stream p1 xs of None \<Rightarrow> None | Some (p2, o2) \<Rightarrow> Some (p2, o1 @ o2)))"

definition is_command :: "ivr_out \<Rightarrow> bool" where
  "is_command o' = (case o' of
     IPush d f \<Rightarrow> d = Upstream \<or> (case fbody f of AggregatedTextFrame t k \<Rightarrow> False | _ \<Rightarrow> True) | _ \<Rightarrow> True)"

lemma push_texts_facts:
  "iv_agg (fst (push_texts p ss)) = iv_agg p" "list_all (\<lambda>x. \<not> is_command x) (snd (push_texts p ss))"
  by (induction p ss rule: push_texts.induct)
    (simp_all add: new_frame_def case_prod_beta Let_def is_command_def)

lemma feed_no_open:
  assumes "index_of (pa_open a) (pa_buf a @ s) = None"
  shows "\<exists>n segs. Feed a s = Some (a\<lparr>pa_buf := drop n (pa_buf a @ s)\<rparr>, segs, [])"
proof -
  define b where "b = pa_buf a @ s"
  have "\<exists>n segs. Feed a s = Some (a\<lparr>pa_buf := drop n b\<rparr>, segs, [])"
    using assms unfolding Feed_def b_def [symmetric] by (auto simp: Let_def intro: exI [of _ 0])
  then show ?thesis by (simp only: b_def)
qed

text \<open>The delimiter never shows up in the stream, so nothing is ever taken for a command.\<close>

lemma ivr_stream_no_command:
  assumes "\<not> sublist defaultDelim (pa_buf (iv_agg p) @ concat xs)" "pa_open (iv_agg p) = defaultDelim"
  shows "\<exists>p' out. ivr_stream p xs = Some (p', out) \<and> list_all (\<lambda>x. \<not> is_command x) out \<and>
    suffix (pa_buf (iv_agg p')) (pa_buf (iv_agg p) @ concat xs)"
  using assms
proof (induction xs arbitrary: p)
  case Nil
  then show ?case by simp
next
  case (Cons x xs)
  have "\<not> sublist defaultDelim (pa_buf (iv_agg p) @ x)"
    using Cons.prems(1) sublist_append_rightI [of "pa_buf (iv_agg p) @ x" "concat xs"]
    by (auto dest: sublist_order.order.trans)
  then have "index_of (pa_open (iv_agg p)) (pa_buf (iv_agg p) @ x) = None"
    using Cons.prems(2) by (simp add: index_of_None)
  then obtain n segs where f: "Feed (iv_agg p) x =
      Some ((iv_agg p)\<lparr>pa_buf := drop n (pa_buf (iv_agg p) @ x)\<rparr>, segs, [])"
    using feed_no_open by blast
  define q where "q = p\<lparr>iv_agg := (iv_agg p)\<lparr>pa_buf := drop n (pa_buf (iv_agg p) @ x)\<rparr>\<rparr>"
  define p1 where "p1 = fst (push_texts q segs)"
  have a: "iv_agg p1 = iv_agg q" by (simp add: p1_def push_texts_facts)
  have "suffix (pa_buf (iv_agg p1) @ concat xs) (pa_buf (iv_agg p) @ concat (x # xs))"
    using suffix_drop [of n "pa_buf (iv_agg p) @ x"] by (auto simp: a q_def suffix_def)
  note suf = this
  have "\<not> sublist defaultDelim (pa_buf (iv_agg p1) @ concat xs)"
    using Cons.prems(1) suf by (meson sublist_order.order.trans suffix_imp_sublist)
  moreover have "pa_open (iv_agg p1) = defaultDelim" using Cons.prems(2) by (simp add: a q_def)
  ultimately obtain p' out where r: "ivr_stream p1 xs = Some (p', out)" "list_all (\<lambda>x. \<not> is_command x) out"
    "suffix (pa_buf (iv_agg p')) (pa_buf (iv_agg p1) @ concat xs)"
    using Cons.IH by blast
  have "IVRProcessFrame quiet_replies p (token_frame (NewBaseWithID 0, text_of x)) Downstream =
      Some (p1, snd (push_texts q segs), None)"
    using f by (simp add: IVRProcessFrame_def token_frame_def text_of_def case_prod_beta p1_def q_def)
  with r suf push_texts_facts(2) [of q segs] show ?case
    by (auto simp: list_all_append intro: suffix_order.trans)
qed

lemma bare_answer_no_delim:
  assumes "CHR 0x60 \<notin> set w"
  shows "\<not> sublist defaultDelim ([CHR 0x60, CHR 0x20] @ w @ [CHR 0x20, CHR 0x60])"
proof
  assume "sublist defaultDelim ([CHR 0x60, CHR 0x20] @ w @ [CHR 0x20, CHR 0x60])"
  then obtain ps ss where e:
    "[CHR 0x60, CHR 0x20] @ w @ [CHR 0x20, CHR 0x60] = ps @ [CHR 0x20, CHR 0x60, CHR 0x20] @ ss"
    by (auto simp: sublist_def defaultDelim_def)
  then obtain c ps' where ps: "ps = [] \<or> ps = CHR 0x60 # ps'" by (cases ps) auto
  from e ps have "CHR 0x20 # w @ [CHR 0x20, CHR 0x60] = ps' @ [CHR 0x20, CHR 0x60, CHR 0x20] @ ss" by auto
  then have "CHR 0x20 # w @ [CHR 0x20] = ps' @ [CHR 0x20, CHR 0x60] @ butlast (CHR 0x20 # ss)"
    by (metis append.assoc append_Cons append_Nil butlast_append butlast_snoc list.distinct(1))
  then have "CHR 0x60 \<in> set (CHR 0x20 # w @ [CHR 0x20])" by (metis Un_iff list.set_intros(1,2) set_append append_Cons)
  with assms show False by simp
qed

text \<open>The answers the prompts ask for do nothing: the prompts demand a command between backticks, with
  blanks inside them, as the whole answer; the delimiters require blanks outside them too. So whatever
  the command and however the answer is cut into tokens, it is passed on as text: no key is pressed, no
  mode is switched, no callback called, nothing sent upstream.\<close>

theorem ivr_bare_answer_ignored:
  assumes "CHR 0x60 \<notin> set w" "concat toks = [CHR 0x60, CHR 0x20] @ w @ [CHR 0x20, CHR 0x60]"
  shows "\<exists>p out. ivr_stream (NewIVRProcessor classifier prompt stop ids) toks = Some (p, out) \<and>
    list_all (\<lambda>x. \<not> is_command x) out"
  using ivr_stream_no_command [of "NewIVRProcessor classifier prompt stop ids" toks]
    bare_answer_no_delim [OF assms(1)] assms(2)
  by (auto simp: NewIVRProcessor_def NewPattern_def)

theorem ivr_bare_answer_ignored_witness:
  "\<exists>p out. ivr_stream (NewIVRProcessor ''c'' ''p'' 0 1) [''` i'', ''vr `''] = Some (p, out) \<and>
    list_all (\<lambda>x. \<not> is_command x) out"
  by (rule ivr_bare_answer_ignored [of "''ivr''"]) simp_all

paragraph \<open>Numbers\<close>

definition digit :: "char \<Rightarrow> bool" where
  "digit c \<longleftrightarrow> c \<in> set ''0123456789''"

lemma digit_facts:
  assumes "digit c"
  shows "c \<in> set ValidKeypadRunes" "c \<notin> hd ` set white_runes" "c \<notin> last ` set white_runes"
    "c \<noteq> CHR 0x20"
  using assms by (auto simp: digit_def ValidKeypadRunes_def white_runes_def)

lemma keypad_entry_digits:
  assumes "digit c" "digit d"
  shows "ParseKeypadEntry (c # r @ [d]) =
    (if list_all (\<lambda>x. x \<in> set ValidKeypadRunes) r then Inr [c] else Inl ''invalid keypad character'')"
  using TrimSpace_solid(1) [OF digit_facts(2) [OF assms(1)] digit_facts(3) [OF assms(2)], of r]
    digit_facts(1) [OF assms(1)] digit_facts(1) [OF assms(2)]
  by (simp add: ParseKeypadEntry_def)

lemma digit_not_command: "digit c \<Longrightarrow> c \<notin> {CHR ''c'', CHR ''i'', CHR ''d'', CHR ''s'', CHR ''w''}"
  by (auto simp: digit_def)

text \<open>A number the prompt asks to key in digit by digit is not keyed in: digits separated by blanks
  are no keypad entry, so the command is dropped, and of digits in a row only the first is pressed.\<close>

theorem ivr_digit_sequences:
  assumes "digit c" "digit d"
  shows "handleMatch p (c # r @ [CHR 0x20] @ r' @ [d]) = (p, []) \<and>
    (list_all digit r \<longrightarrow>
      (\<exists>p' b t. handleMatch p (c # r @ [d]) =
         (p', [IPush Downstream (Frame b (OutputDTMFUrgentFrame [c])), IPush Downstream t])))"
proof
  have "CHR 0x20 \<notin> set ValidKeypadRunes" by (simp add: ValidKeypadRunes_def)
  then have "ParseKeypadEntry (c # (r @ [CHR 0x20] @ r') @ [d]) = Inl ''invalid keypad character''"
    by (subst keypad_entry_digits [OF assms]) simp
  then show "handleMatch p (c # r @ [CHR 0x20] @ r' @ [d]) = (p, [])"
    using digit_not_command [OF assms(1)] by (simp add: handleMatch_def)
  show "list_all digit r \<longrightarrow> (\<exists>p' b t. handleMatch p (c # r @ [d]) =
      (p', [IPush Downstream (Frame b (OutputDTMFUrgentFrame [c])), IPush Downstream t]))"
  proof
    assume "list_all digit r"
    then have "list_all (\<lambda>x. x \<in> set ValidKeypadRunes) r" by (auto simp: list_all_iff digit_facts)
    then have "ParseKeypadEntry (c # r @ [d]) = Inr [c]" by (simp add: keypad_entry_digits [OF assms])
    then show "\<exists>p' b t. handleMatch p (c # r @ [d]) =
        (p', [IPush Downstream (Frame b (OutputDTMFUrgentFrame [c])), IPush Downstream t])"
      using digit_facts(1) [OF assms(1)]
      by (simp add: handleMatch_def ivr_handleDTMF_def NewOutputDTMFUrgentFrame_def mk_frame_def
          case_prod_beta Let_def)
  qed
qed

theorem ivr_digit_sequences_witness:
  "handleMatch (NewIVRProcessor ''c'' ''p'' 0 1) ''1 2 3'' = (NewIVRProcessor ''c'' ''p'' 0 1, [])"
proof -
  have "digit CHR ''1''" "digit CHR ''3''" by (simp_all add: digit_def)
  from ivr_digit_sequences [OF this, of "NewIVRProcessor ''c'' ''p'' 0 1" "[]" "''2 ''"] show ?thesis
    by simp
qed

end
