(* ===== verification/Tts.thy ===== *)
theory Tts
  imports VoiceServices
begin

text \<open>
  \<^verbatim>\<open>pkg/processors/voice/tts.go\<close>: batching of streamed text, speaking, and the frames that tell
  when the bot speaks; and the processors from transcription to speech in a row, as
  \<^verbatim>\<open>cmd/voxray/main.go\<close> builds them.
\<close>

section \<open>TTSProcessor\<close>

type_synonym speech = "base \<times> audio_data \<times> string"

type_synonym 'v speaker = "'v \<Rightarrow> string \<Rightarrow> int \<Rightarrow> (err + speech list) \<times> 'v"

record 'v tts_proc =
  tts_name :: string
  tts_rate :: int
  tts_max :: int
  tts_buf :: string
  tts_speaking :: bool
  tts_svc :: 'v
  tts_ids :: u64

text \<open>The last rune is the Devanagari danda.\<close>

definition ttsSentenceEnd :: string where
  "ttsSentenceEnd = ''.!?'' @ [CHR 0x0A, CHR 0xE0, CHR 0xA5, CHR 0xA4]"

definition NewTTSProcessor :: "string \<Rightarrow> 'v \<Rightarrow> int \<Rightarrow> u64 \<Rightarrow> 'v tts_proc" where
  "NewTTSProcessor name svc rate ids =
     \<lparr>tts_name = (if name = [] then ''TTS'' else name), tts_rate = (if rate \<le> 0 then 24000 else rate),
      tts_max = 120, tts_buf = [], tts_speaking = False, tts_svc = svc, tts_ids = ids\<rparr>"

definition speech_frame :: "speech \<Rightarrow> frame" where
  "speech_frame sp = Frame (fst sp) (TTSAudioRawFrame (fst (snd sp)) (snd (snd sp)))"

text \<open>The loop over the audio frames of one segment.\<close>

fun push_audio :: "'v tts_proc \<Rightarrow> speech list \<Rightarrow> 'v tts_proc \<times> frame list" where
  "push_audio p [] = (p, [])"
| "push_audio p (a # as) =
     (let (p1, started) =
            (if tts_speaking p then (p, [])
             else (let (b, ids) = mk_frame BotStartedSpeakingFrame (tts_ids p)
                   in (p\<lparr>tts_speaking := True, tts_ids := ids\<rparr>, [b])));
          (p2, stopped) =
            (if as = [] then (let (b, ids) = mk_frame BotStoppedSpeakingFrame (tts_ids p1)
                              in (p1\<lparr>tts_ids := ids\<rparr>, [b]))
             else (p1, []));
          (p3, rest) = push_audio p2 as
      in (p3, started @ [speech_frame a] @ stopped @ rest))"

definition speak :: "'v speaker \<Rightarrow> 'v tts_proc \<Rightarrow> string \<Rightarrow> 'v tts_proc \<times> effect list" where
  "speak spk p text =
     (let (ans, v) = spk (tts_svc p) text (tts_rate p); p1 = p\<lparr>tts_svc := v\<rparr>;
          call = CallSpeak text (tts_rate p)
      in case ans of
           Inl e \<Rightarrow> (let (ef, ids) = NewErrorFrame e False (tts_name p1) (tts_ids p1)
                    in (p1\<lparr>tts_ids := ids\<rparr>, [call, sends ef]))
         | Inr as \<Rightarrow> (let (p2, fs) = push_audio p1 as in (p2, call # map sends fs)))"

definition flush_speech :: "'v speaker \<Rightarrow> 'v tts_proc \<Rightarrow> 'v tts_proc \<times> effect list" where
  "flush_speech spk p =
     (if tts_buf p = [] then (p, [])
      else (let text = TrimSpace (tts_buf p); p1 = p\<lparr>tts_buf := []\<rparr> in
            if text = [] then (p1, []) else speak spk p1 text))"

definition ready_to_flush :: "'v tts_proc \<Rightarrow> bool" where
  "ready_to_flush p =
     (let n = int (length (runes_of (tts_buf p)));
          mx = (if tts_max p \<le> 0 then 120 else tts_max p);
          has_end = list_ex (ContainsRune (tts_buf p)) (runes_of ttsSentenceEnd)
      in n \<noteq> 0 \<and> (n \<ge> mx \<or> has_end \<and> n \<ge> 30))"

definition tryFlush :: "'v speaker \<Rightarrow> 'v tts_proc \<Rightarrow> 'v tts_proc \<times> effect list" where
  "tryFlush spk p = (if ready_to_flush p then flush_speech spk p else (p, []))"

text \<open>Speaking never fails: the errors of the service become error frames.\<close>

definition TTSProcessFrame ::
  "'v speaker \<Rightarrow> replies \<Rightarrow> 'v tts_proc \<Rightarrow> frame \<Rightarrow> direction
     \<Rightarrow> 'v tts_proc \<times> effect list \<times> err option" where
  "TTSProcessFrame spk rsp p f d =
     (if d \<noteq> Downstream then pass rsp p Upstream f
      else (case fbody f of
          LLMTextFrame t \<Rightarrow>
            (let (p1, es) = tryFlush spk (p\<lparr>tts_buf := tts_buf p @ tdata t\<rparr>) in (p1, es, None))
        | TextFrame t \<Rightarrow>
            (let (p1, es) = tryFlush spk (p\<lparr>tts_buf := tts_buf p @ tdata t\<rparr>) in (p1, es, None))
        | TTSSpeakFrame t \<Rightarrow>
            (let (p1, es) = flush_speech spk p in
             if t = [] then (p1, es, None)
             else (let (p2, es2) = speak spk p1 t in (p2, es @ es2, None)))
        | UserStartedSpeakingFrame \<Rightarrow> pass rsp (p\<lparr>tts_buf := [], tts_speaking := False\<rparr>) Downstream f
        | StartFrame _ _ _ _ _ \<Rightarrow> pass rsp (p\<lparr>tts_speaking := False\<rparr>) Downstream f
        | _ \<Rightarrow>
            (let (p1, es) = flush_speech spk p;
                 (p2, es2, e) = pass rsp p1 Downstream f
             in (p2, es @ es2, e))))"

text \<open>The text the processor is given to say.\<close>

definition given_text :: "frame \<Rightarrow> string" where
  "given_text f = (case fbody f of LLMTextFrame t \<Rightarrow> tdata t | TextFrame t \<Rightarrow> tdata t
     | TTSSpeakFrame t \<Rightarrow> t | _ \<Rightarrow> [])"

lemma push_audio_buf [simp]: "tts_buf (fst (push_audio p as)) = tts_buf p"
  by (induction p as rule: push_audio.induct) (simp_all add: case_prod_beta Let_def)

lemma speak_facts [simp]:
  "tts_buf (fst (speak spk p t)) = tts_buf p" "spoken (snd (speak spk p t)) = [t]"
  by (simp_all add: speak_def case_prod_beta Let_def split: sum.splits)

lemma flush_speech_facts [simp]:
  "tts_buf (fst (flush_speech spk p)) = []"
  "spoken (snd (flush_speech spk p)) = voices [Batch (tts_buf p)]"
  by (simp_all add: flush_speech_def Let_def)

lemma tryFlush_segments:
  "\<exists>segs. spoken (snd (tryFlush spk p)) = voices segs \<and>
     worded segs @ tts_buf (fst (tryFlush spk p)) = tts_buf p"
proof (cases "ready_to_flush p")
  case True
  then show ?thesis by (intro exI [of _ "[Batch (tts_buf p)]"]) (simp add: tryFlush_def)
next
  case False
  then show ?thesis by (intro exI [of _ "[]"]) (simp add: tryFlush_def)
qed

abbreviation tts_step :: "'v speaker \<Rightarrow> replies \<Rightarrow> 'v tts_proc \<Rightarrow> frame \<Rightarrow> 'v tts_proc \<times> effect list" where
  "tts_step spk rsp \<equiv> stage (TTSProcessFrame spk rsp)"

definition starts :: "frame \<Rightarrow> bool" where
  "starts f = (case fbody f of StartFrame a b c d e \<Rightarrow> True | _ \<Rightarrow> False)"

lemma tts_step_segments:
  assumes "fbody f \<noteq> UserStartedSpeakingFrame"
  shows "\<exists>segs. spoken (snd (tts_step spk rsp p f)) = voices segs \<and>
    worded segs @ tts_buf (fst (tts_step spk rsp p f)) = tts_buf p @ given_text f"
proof -
  consider t where "fbody f = LLMTextFrame t \<or> fbody f = TextFrame t"
    | t where "fbody f = TTSSpeakFrame t"
    | "starts f"
    | "\<forall>t. fbody f \<noteq> LLMTextFrame t \<and> fbody f \<noteq> TextFrame t" "\<forall>t. fbody f \<noteq> TTSSpeakFrame t"
      "\<not> starts f"
    by blast
  then show ?thesis
  proof cases
    case 1
    with tryFlush_segments [of spk "p\<lparr>tts_buf := tts_buf p @ tdata t\<rparr>"] show ?thesis
      by (auto simp: TTSProcessFrame_def given_text_def case_prod_beta)
  next
    case 2
    then show ?thesis
      by (intro exI [of _ "Batch (tts_buf p) # (if t = [] then [] else [Verbatim t])"])
        (simp add: TTSProcessFrame_def given_text_def case_prod_beta)
  next
    case 3
    then show ?thesis
      by (intro exI [of _ "[]"], cases "fbody f")
        (simp_all add: TTSProcessFrame_def given_text_def starts_def)
  next
    case 4
    with assms show ?thesis
      by (intro exI [of _ "[Batch (tts_buf p)]"], cases "fbody f")
        (simp_all add: TTSProcessFrame_def given_text_def starts_def case_prod_beta Let_def)
  qed
qed

interpretation tts_relay: relay "tts_step spk rsp" "\<lambda>_. True" "\<lambda>f. fbody f \<noteq> UserStartedSpeakingFrame"
  spoken "\<lambda>s. s" tts_buf given_text "\<lambda>_. True"
  by unfold_locales (use tts_step_segments in \<open>simp_all add: list_all_iff del: stage_simps\<close>)

lemma tts_run_segments:
  "list_all (\<lambda>f. fbody f \<noteq> UserStartedSpeakingFrame) fs \<Longrightarrow>
   \<exists>segs. spoken (snd (run (tts_step spk rsp) p fs)) = voices segs \<and>
     worded segs @ tts_buf (fst (run (tts_step spk rsp) p fs)) = tts_buf p @ concat (map given_text fs)"
  using tts_relay.run_segments [where s = p and es = fs and spk = spk and rsp = rsp] by (auto simp: list_all_iff)

lemma ready_to_flush_empty [simp]: "tts_buf p = [] \<Longrightarrow> \<not> ready_to_flush p"
  by (simp add: ready_to_flush_def)

lemma ready_to_flush_cong:
  "tts_buf q = tts_buf p \<Longrightarrow> tts_max q = tts_max p \<Longrightarrow> ready_to_flush q = ready_to_flush p"
  by (simp add: ready_to_flush_def)

lemma push_audio_max [simp]: "tts_max (fst (push_audio p as)) = tts_max p"
  by (induction p as rule: push_audio.induct) (simp_all add: case_prod_beta Let_def)

lemma speak_max [simp]: "tts_max (fst (speak spk p t)) = tts_max p"
  by (simp add: speak_def case_prod_beta Let_def split: sum.splits)

lemma flush_max [simp]: "tts_max (fst (flush_speech spk p)) = tts_max p"
  by (simp add: flush_speech_def Let_def)

lemma tryFlush_bound [simp]:
  "tts_max (fst (tryFlush spk p)) = tts_max p" "\<not> ready_to_flush (fst (tryFlush spk p))"
  by (simp_all add: tryFlush_def)

lemma tts_step_bound:
  "\<not> ready_to_flush p \<Longrightarrow>
   \<not> ready_to_flush (fst (tts_step spk rsp p f)) \<and> tts_max (fst (tts_step spk rsp p f)) = tts_max p"
  using ready_to_flush_cong [of "p\<lparr>tts_speaking := False\<rparr>" p]
  by (cases "fbody f") (simp_all add: TTSProcessFrame_def case_prod_beta Let_def)

interpretation tts_run: machine "tts_step spk rsp" "\<lambda>p. \<not> ready_to_flush p \<and> tts_max p = m"
  by unfold_locales (use tts_step_bound in auto)

text \<open>The text-to-speech processor says everything it is given, in order and without much delay:
  over frames without a barge-in, the texts it has spoken are the voices of segments whose wording,
  followed by the buffer, is the buffered text followed by all text received; and the buffer stays
  below 120 runes, and below 30 once it holds a sentence end.\<close>

theorem tts_speaks_everything:
  assumes "list_all (\<lambda>f. fbody f \<noteq> UserStartedSpeakingFrame) fs"
    "run (tts_step spk rsp) (NewTTSProcessor name svc rate ids) fs = (p, es)"
  shows "(\<exists>segs. spoken es = voices segs \<and> worded segs @ tts_buf p = concat (map given_text fs)) \<and>
    length (runes_of (tts_buf p)) < 120 \<and>
    (list_ex (ContainsRune (tts_buf p)) (runes_of ttsSentenceEnd) \<longrightarrow> length (runes_of (tts_buf p)) < 30)"
proof -
  let ?p = "NewTTSProcessor name svc rate ids"
  have n: "tts_buf ?p = []" "tts_max ?p = 120" by (simp_all add: NewTTSProcessor_def)
  have "\<not> ready_to_flush p" "tts_max p = 120"
    using tts_run.run_inv [of ?p 120 spk rsp fs] n assms(2) by simp_all
  then have "length (runes_of (tts_buf p)) < 120"
    "list_ex (ContainsRune (tts_buf p)) (runes_of ttsSentenceEnd) \<longrightarrow> length (runes_of (tts_buf p)) < 30"
    by (auto simp: ready_to_flush_def)
  moreover have "\<exists>segs. spoken es = voices segs \<and> worded segs @ tts_buf p = concat (map given_text fs)"
    using tts_run_segments [OF assms(1), of spk rsp ?p] n assms(2) by simp
  ultimately show ?thesis by blast
qed

definition token :: "string \<Rightarrow> frame" where
  "token s = token_frame (NewBaseWithID 1, text_of s)"

definition silent_speaker :: "unit speaker" where
  "silent_speaker v text rate = (Inr [], v)"

theorem tts_speaks_everything_witness:
  "let (p, es) = run (tts_step silent_speaker quiet_replies) (NewTTSProcessor [] () 0 0)
       [token ''Hello '', token ''there.'', fst (NewTTSSpeakFrame [] 2)]
   in \<exists>segs. spoken es = voices segs \<and> worded segs @ tts_buf p = ''Hello there.''"
proof -
  let ?fs = "[token ''Hello '', token ''there.'', fst (NewTTSSpeakFrame [] 2)]"
  obtain p es where r: "run (tts_step silent_speaker quiet_replies) (NewTTSProcessor [] () 0 0) ?fs = (p, es)"
    by fastforce
  have "list_all (\<lambda>f. fbody f \<noteq> UserStartedSpeakingFrame) ?fs"
    by (simp add: token_def token_frame_def NewTTSSpeakFrame_def)
  from tts_speaks_everything [OF this r] show ?thesis unfolding r
    by (simp add: given_text_def token_def token_frame_def NewTTSSpeakFrame_def text_of_def)
qed

section \<open>Bot speech\<close>

text \<open>The marks a run leaves for whoever follows the bot's speech.\<close>

definition is_bot_mark :: "frame \<Rightarrow> bool" where
  "is_bot_mark f \<longleftrightarrow> fbody f = BotStartedSpeakingFrame \<or> fbody f = BotStoppedSpeakingFrame"

definition bot_marks :: "frame list \<Rightarrow> body list" where
  "bot_marks fs = map fbody (filter is_bot_mark fs)"

lemma bot_marks_simps [simp]:
  "bot_marks [] = []" "bot_marks (xs @ ys) = bot_marks xs @ bot_marks ys"
  "\<not> is_bot_mark f \<Longrightarrow> bot_marks (f # fs) = bot_marks fs"
  "is_bot_mark f \<Longrightarrow> bot_marks (f # fs) = fbody f # bot_marks fs"
  "\<not> is_bot_mark (speech_frame a)"
  by (simp_all add: bot_marks_def is_bot_mark_def speech_frame_def)

text \<open>The marks a stretch of speech may leave, from whether the bot was speaking and to whether it is.\<close>

definition marks_ok :: "bool \<Rightarrow> bool \<Rightarrow> body list \<Rightarrow> bool" where
  "marks_ok b b' ms \<longleftrightarrow>
     (if b then b' \<and> (\<exists>n. ms = replicate n BotStoppedSpeakingFrame)
      else if b' then (\<exists>n. ms = BotStartedSpeakingFrame # replicate (Suc n) BotStoppedSpeakingFrame)
      else ms = [])"

lemma marks_ok_Nil [intro]: "marks_ok b b []"
  by (auto simp: marks_ok_def intro: exI [of _ 0])

lemma marks_ok_append: "marks_ok a b xs \<Longrightarrow> marks_ok b c ys \<Longrightarrow> marks_ok a c (xs @ ys)"
  by (auto simp: marks_ok_def replicate_add [symmetric] split: if_splits)

lemma is_bot_mark_frames [simp]:
  "is_bot_mark (fst (mk_frame b ids)) \<longleftrightarrow> b = BotStartedSpeakingFrame \<or> b = BotStoppedSpeakingFrame"
  by (simp add: is_bot_mark_def)

lemma push_audio_marks:
  "as \<noteq> [] \<Longrightarrow> tts_speaking (fst (push_audio p as)) \<and>
     bot_marks (snd (push_audio p as)) =
       (if tts_speaking p then [] else [BotStartedSpeakingFrame]) @ [BotStoppedSpeakingFrame]"
proof (induction as arbitrary: p)
  case (Cons a as)
  then show ?case by (cases "as = []") (simp_all add: case_prod_beta Let_def)
qed simp

lemma push_audio_marks_ok:
  "marks_ok (tts_speaking p) (tts_speaking (fst (push_audio p as))) (bot_marks (snd (push_audio p as)))"
proof (cases "as = []")
  case False
  then show ?thesis
    using push_audio_marks [OF False, of p]
    by (auto simp: marks_ok_def intro: exI [of _ "0 :: nat"] exI [of _ "1 :: nat"])
qed auto

lemma speak_marks:
  "marks_ok (tts_speaking p) (tts_speaking (fst (speak spk p t))) (bot_marks (down_of (snd (speak spk p t))))"
proof -
  obtain ans v where a: "spk (tts_svc p) t (tts_rate p) = (ans, v)" by fastforce
  show ?thesis
    using push_audio_marks_ok [of "p\<lparr>tts_svc := v\<rparr>"]
    by (cases ans) (auto simp: speak_def a case_prod_beta Let_def NewErrorFrame_def)
qed

lemma flush_marks:
  "marks_ok (tts_speaking p) (tts_speaking (fst (flush_speech spk p)))
     (bot_marks (down_of (snd (flush_speech spk p))))"
  using speak_marks [of "p\<lparr>tts_buf := []\<rparr>"] by (auto simp: flush_speech_def Let_def)

lemma tryFlush_marks:
  "marks_ok (tts_speaking p) (tts_speaking (fst (tryFlush spk p))) (bot_marks (down_of (snd (tryFlush spk p))))"
  using flush_marks by (auto simp: tryFlush_def)

definition turn_reset :: "frame \<Rightarrow> bool" where
  "turn_reset f \<longleftrightarrow> fbody f = UserStartedSpeakingFrame \<or> starts f"

lemma tts_step_marks:
  assumes "\<not> turn_reset f" "\<not> is_bot_mark f"
  shows "marks_ok (tts_speaking p) (tts_speaking (fst (tts_step spk rsp p f)))
    (bot_marks (down_of (snd (tts_step spk rsp p f))))"
proof -
  consider t where "fbody f = LLMTextFrame t \<or> fbody f = TextFrame t"
    | t where "fbody f = TTSSpeakFrame t"
    | "\<forall>t. fbody f \<noteq> LLMTextFrame t \<and> fbody f \<noteq> TextFrame t" "\<forall>t. fbody f \<noteq> TTSSpeakFrame t"
    by blast
  then show ?thesis
  proof cases
    case 1
    then show ?thesis
      using tryFlush_marks [of "p\<lparr>tts_buf := tts_buf p @ tdata t\<rparr>"]
      by (auto simp: TTSProcessFrame_def case_prod_beta)
  next
    case 2
    then show ?thesis
      using flush_marks [of p] marks_ok_append [OF flush_marks [of p] speak_marks]
      by (auto simp: TTSProcessFrame_def case_prod_beta)
  next
    case 3
    with assms have "TTSProcessFrame spk rsp p f Downstream =
        (let (p1, es) = flush_speech spk p; (p2, es2, e) = pass rsp p1 Downstream f in (p2, es @ es2, e))"
      by (cases "fbody f") (simp_all add: TTSProcessFrame_def turn_reset_def starts_def)
    with assms(2) flush_marks [of p] show ?thesis by (simp add: case_prod_beta)
  qed
qed

text \<open>Within a turn the bot is announced once but declared silent after every segment: over frames
  that do not reset the turn, the marks pushed are one started frame (none if the bot already spoke)
  followed by stopped frames, one for each segment with audio. So while the second and later segments
  of an answer play, whoever follows the marks takes the bot to be silent.\<close>

theorem tts_announces_bot_once:
  assumes "list_all (\<lambda>f. \<not> turn_reset f \<and> \<not> is_bot_mark f) fs"
    "run (tts_step spk rsp) p fs = (p', es)"
  shows "marks_ok (tts_speaking p) (tts_speaking p') (bot_marks (down_of es))"
  using assms
proof (induction fs arbitrary: p es)
  case (Cons f fs)
  let ?q = "fst (tts_step spk rsp p f)" and ?o = "snd (tts_step spk rsp p f)"
  define es2 where "es2 = snd (run (tts_step spk rsp) ?q fs)"
  have r: "run (tts_step spk rsp) ?q fs = (p', es2)" and e: "es = ?o @ es2"
    using Cons.prems(2) by (simp_all add: case_prod_beta prod_eq_iff es2_def)
  have "marks_ok (tts_speaking p) (tts_speaking ?q) (bot_marks (down_of ?o))"
    using Cons.prems(1) tts_step_marks [of f p spk rsp] by simp
  moreover have "marks_ok (tts_speaking ?q) (tts_speaking p') (bot_marks (down_of es2))"
    using Cons.IH [OF _ r] Cons.prems(1) by simp
  ultimately have "marks_ok (tts_speaking p) (tts_speaking p') (bot_marks (down_of ?o) @ bot_marks (down_of es2))"
    by (rule marks_ok_append)
  then show ?case by (simp add: e)
qed auto

definition beeper :: "unit speaker" where
  "beeper v text rate = (Inr [(NewBaseWithID 1, audio_of [0, 0] rate 1 0, [])], v)"

theorem tts_announces_bot_once_witness:
  "let (p, es) = run (tts_step beeper quiet_replies) (NewTTSProcessor [] () 0 0)
       [fst (NewTTSSpeakFrame ''One.'' 2), fst (NewTTSSpeakFrame ''Two.'' 2)]
   in marks_ok False (tts_speaking p) (bot_marks (down_of es)) \<and>
      bot_marks (down_of es) =
        [BotStartedSpeakingFrame, BotStoppedSpeakingFrame, BotStoppedSpeakingFrame]"
proof -
  let ?fs = "[fst (NewTTSSpeakFrame ''One.'' 2), fst (NewTTSSpeakFrame ''Two.'' 2)]"
  let ?r = "run (tts_step beeper quiet_replies) (NewTTSProcessor [] () 0 0) ?fs"
  obtain p es where r: "?r = (p, es)" by fastforce
  have "list_all (\<lambda>f. \<not> turn_reset f \<and> \<not> is_bot_mark f) ?fs"
    by (simp add: NewTTSSpeakFrame_def turn_reset_def starts_def)
  note m = tts_announces_bot_once [OF this r]
  have "bot_marks (down_of (snd ?r)) =
      [BotStartedSpeakingFrame, BotStoppedSpeakingFrame, BotStoppedSpeakingFrame]"
    by (simp add: NewTTSProcessor_def TTSProcessFrame_def NewTTSSpeakFrame_def flush_speech_def speak_def
        beeper_def case_prod_beta Let_def)
  with m r show ?thesis by (simp add: NewTTSProcessor_def del: run.simps)
qed

section \<open>From transcription to speech\<close>

text \<open>A completed answer is said in full: what a question makes the model stream is, up to trimming, what
  the speech processor behind it says, and nothing stays buffered.\<close>

lemma run_snoc_state:
  "fst (run step s (es @ [e])) = fst (step (fst (run step s es)) e)"
  by (induction es arbitrary: s) (simp_all del: run.simps(2))

lemma given_text_streamed: "concat (map given_text (map token_frame toks)) = streamed (map token_frame toks)"
  by (simp add: given_text_def token_frame_def streamed_def comp_def)

lemma runLLM_frames:
  assumes "runLLMWithMessages chat q ms skip = (q', es, e)" "completed (down_of es)"
  shows "\<exists>toks i. down_of es = map token_frame toks @ [fst (NewTTSSpeakFrame [] i)]"
proof -
  let ?m = "(if \<not> skip \<and> llm_prompt q \<noteq> [] then [role_msg ''system'' (llm_prompt q)] else []) @ ms"
  obtain toks er v where c: "chat (llm_svc q) ?m = ((toks, er), v)" by (metis prod_cases3 prod.collapse)
  have "down_of es = map token_frame toks \<or>
      down_of es = map token_frame toks @ [fst (NewTTSSpeakFrame [] (llm_ids q))]"
    using assms(1) c by (auto simp: runLLMWithMessages_def Let_def case_prod_beta split: if_splits)
  with assms(2) show ?thesis by auto
qed

lemma llm_answer_frames:
  assumes "asks f" "\<not> is_update f" "completed (down_of (snd (llm_step chat rsp l f)))"
  shows "\<exists>toks i. down_of (snd (llm_step chat rsp l f)) = map token_frame toks @ [fst (NewTTSSpeakFrame [] i)]"
proof (cases "fbody f = LLMRunFrame")
  case True
  obtain q es e where r: "runLLMWithMessages chat l (llm_msgs l) False = (q, es, e)" by (metis prod_cases3)
  with runLLM_frames [OF r] assms(3) True show ?thesis by (simp add: LLMProcessFrame_def)
next
  case False
  with assms(1) obtain t u ti lg fi where t: "fbody f = TranscriptionFrame t u ti lg fi"
    by (cases "fbody f") (auto simp: asks_def)
  let ?p = "l\<lparr>llm_msgs := llm_msgs l @ [role_msg ''user'' (tdata t)]\<rparr>"
  obtain q es e where r: "runLLMWithMessages chat ?p (llm_msgs ?p) False = (q, es, e)" by (metis prod_cases3)
  with runLLM_frames [OF r] assms(3) t show ?thesis by (simp add: LLMProcessFrame_def)
qed

text \<open>C29: What is answered is said: when the model completes an answer, the speech processor behind it,
  if it held no text before, speaks segments that make up exactly the streamed answer, and holds no
  text afterwards. (An answer that fails midway is not flushed: what is left of it is spoken at the
  head of the next one, unless the user starts to speak.)\<close>

theorem answer_is_spoken:
  assumes "asks f" "\<not> is_update f" "llm_step chat rsp l f = (l', es)" "completed (down_of es)"
    "tts_buf t = []" "run (tts_step spk rsp) t (down_of es) = (t', es2)"
  shows "\<exists>segs. spoken es2 = voices segs \<and> worded segs = streamed (down_of es) \<and> tts_buf t' = []"
proof -
  obtain toks i where d: "down_of es = map token_frame toks @ [fst (NewTTSSpeakFrame [] i)]"
    using llm_answer_frames [OF assms(1,2), of chat rsp l] assms(3,4) by auto
  have b: "fbody (fst (NewTTSSpeakFrame [] i)) = TTSSpeakFrame []" by (simp add: NewTTSSpeakFrame_def)
  have "list_all (\<lambda>f. fbody f \<noteq> UserStartedSpeakingFrame) (down_of es)"
    by (simp add: d b token_frame_def list_all_iff)
  from tts_run_segments [OF this, of spk rsp t] assms(5,6)
  obtain segs where s: "spoken es2 = voices segs" "worded segs @ tts_buf t' = concat (map given_text (down_of es))"
    by auto
  have "tts_buf t' = tts_buf (fst (tts_step spk rsp (fst (run (tts_step spk rsp) t (map token_frame toks)))
      (fst (NewTTSSpeakFrame [] i))))"
    using assms(6) by (metis d fst_conv run_snoc_state)
  also have "\<dots> = []" by (simp add: TTSProcessFrame_def b case_prod_beta)
  finally have e: "tts_buf t' = []" .
  have "concat (map given_text (down_of es)) = streamed (down_of es)"
    using given_text_streamed [of toks] by (simp add: d given_text_def b streamed_def)
  with s e show ?thesis by auto
qed

theorem answer_is_spoken_witness:
  "let (l', es) = llm_step parrot quiet_replies (NewLLMProcessorWithSystemPrompt () [] 1) (said ''hello'');
       (t', es2) = run (tts_step silent_speaker quiet_replies) (NewTTSProcessor [] () 0 0) (down_of es)
   in \<exists>segs. spoken es2 = voices segs \<and> worded segs = ''Hi you'' \<and> tts_buf t' = []"
proof -
  let ?l = "NewLLMProcessorWithSystemPrompt () [] 1" and ?t = "NewTTSProcessor [] () 0 0"
  obtain l' es where l: "llm_step parrot quiet_replies ?l (said ''hello'') = (l', es)" by fastforce
  obtain t' es2 where t: "run (tts_step silent_speaker quiet_replies) ?t (down_of es) = (t', es2)" by fastforce
  note f = said_body [of "''hello''"]
  have d: "completed (down_of es)" "streamed (down_of es) = ''Hi you''"
    using parrot_says [of quiet_replies "[]" 1 "''hello''"] by (simp_all only: l snd_conv)
  have b: "tts_buf ?t = []" by (simp add: NewTTSProcessor_def)
  from answer_is_spoken [OF _ _ l d(1) b t] d(2) f show ?thesis
    unfolding l by (simp add: t asks_def is_update_def)
qed

section \<open>The voice pipeline\<close>

text \<open>The processors after turn detection, in the order \<^verbatim>\<open>main.go\<close> adds them: transcription, language
  model, speech, and the optional interruption controller. A processor hands a frame on by calling
  the next one, which handles it before the call returns; they share no state and push nothing back,
  so the frames one step pushes are handled in order.\<close>

record ('a, 'b, 'c) voice_line =
  vl_stt :: "'a stt_proc"
  vl_llm :: "'b llm_proc"
  vl_tts :: "'c tts_proc"
  vl_control :: "interruption_controller option"

definition control_step ::
  "replies \<Rightarrow> interruption_controller option \<Rightarrow> frame \<Rightarrow> interruption_controller option \<times> frame list" where
  "control_step rsp c f =
     (case c of
        None \<Rightarrow> (None, [f])
      | Some ic \<Rightarrow> (let (ic', ps, _) = InterruptionProcessFrame rsp ic f Downstream in (Some ic', map snd ps)))"

definition voice_step ::
  "'a transcriber \<Rightarrow> 'b chatter \<Rightarrow> 'c speaker \<Rightarrow> replies \<Rightarrow> ('a, 'b, 'c) voice_line \<Rightarrow> frame
     \<Rightarrow> ('a, 'b, 'c) voice_line \<times> frame list" where
  "voice_step tr chat spk rsp v f =
     (let (s, e1) = stage (STTProcessFrame tr rsp) (vl_stt v) f;
          (l, e2) = run (llm_step chat rsp) (vl_llm v) (down_of e1);
          (t, e3) = run (tts_step spk rsp) (vl_tts v) (down_of e2);
          (c, out) = run (control_step rsp) (vl_control v) (down_of e3)
      in (\<lparr>vl_stt = s, vl_llm = l, vl_tts = t, vl_control = c\<rparr>, out))"

text \<open>A stage is transparent for a kind of frames if what it pushes of them is what it gets.\<close>

locale transparent =
  fixes step :: "'s \<Rightarrow> frame \<Rightarrow> 's \<times> effect list" and kind :: "frame \<Rightarrow> bool"
  assumes step_kind: "filter kind (down_of (snd (step s f))) = (if kind f then [f] else [])"
begin

lemma run_kind: "filter kind (down_of (snd (run step s fs))) = filter kind fs"
  by (induction fs arbitrary: s) (simp_all add: step_kind del: run.simps(2))

end

abbreviation interrupts :: "frame \<Rightarrow> bool" where
  "interrupts f \<equiv> fbody f = InterruptionFrame"

definition is_transcript :: "frame \<Rightarrow> bool" where
  "is_transcript f = (case fbody f of TranscriptionFrame a b c d e \<Rightarrow> True | _ \<Rightarrow> False)"

lemma filter_if: "filter P (if b then xs else ys) = (if b then filter P xs else filter P ys)"
  by simp

lemma transcript_frames_kind: "list_all is_transcript (transcript_frames tfs)"
proof (induction tfs)
  case Nil
  then show ?case by (simp add: transcript_frames_def)
next
  case (Cons tf tfs)
  obtain ba t user time lang final where "tf = (ba, t, user, time, lang, final)" by (metis prod_cases6)
  then have "transcript_frames (tf # tfs) =
      (if TrimSpace (tdata t) = [] then []
       else [Frame ba (TranscriptionFrame (t\<lparr>tdata := TrimSpace (tdata t)\<rparr>) user time lang final)]) @
      transcript_frames tfs"
    by (simp add: transcript_frames_def Let_def)
  with Cons show ?case by (simp add: is_transcript_def)
qed

lemma is_transcript_interrupts [simp]: "is_transcript f \<Longrightarrow> \<not> interrupts f"
  by (cases "fbody f") (simp_all add: is_transcript_def)

lemma stt_step_frames:
  "list_all (\<lambda>g. g = f \<or> \<not> interrupts g) (down_of (snd (stage (STTProcessFrame tr rsp) p f))) \<and>
   (interrupts f \<longrightarrow> down_of (snd (stage (STTProcessFrame tr rsp) p f)) = [f])"
proof (cases "\<exists>a. fbody f = AudioRawFrame a")
  case True
  then obtain a where a: "fbody f = AudioRawFrame a" by blast
  obtain p1 b where b: "stt_buffer p (audio a) = (p1, b)" by fastforce
  have n: "\<not> interrupts g" if "g \<in> set (transcript_frames tfs)" for g tfs
    using that transcript_frames_kind [of tfs] by (auto simp: list_all_iff)
  show ?thesis
  proof (cases b)
    case None
    then show ?thesis by (simp add: STTProcessFrame_def a b)
  next
    case (Some x)
    obtain ans v where t: "tr (stt_svc p1) x (stt_rate p1) (stt_channels p1) = (ans, v)" by fastforce
    show ?thesis
      using n by (cases ans) (simp_all add: STTProcessFrame_def a b Some t Let_def case_prod_beta
          NewErrorFrame_def list_all_iff)
  qed
next
  case False
  then have "STTProcessFrame tr rsp p f Downstream = pass rsp p Downstream f"
    by (auto simp: STTProcessFrame_def split: body.splits)
  then show ?thesis by simp
qed

interpretation stt_interrupts: transparent "stage (STTProcessFrame tr rsp)" interrupts
proof unfold_locales
  fix p :: "'a stt_proc" and f
  note a = stt_step_frames [of f tr rsp p]
  show "filter interrupts (down_of (snd (stage (STTProcessFrame tr rsp) p f))) =
      (if interrupts f then [f] else [])"
  proof (cases "interrupts f")
    case True
    with a show ?thesis by simp
  next
    case False
    with a show ?thesis by (auto simp: filter_empty_conv list_all_iff simp del: stage_simps)
  qed
qed

text \<open>Frames the processors make themselves: neither transcripts nor interruptions, nor the marks around a
  response.\<close>

definition homemade :: "frame \<Rightarrow> bool" where
  "homemade f \<longleftrightarrow> \<not> interrupts f \<and> \<not> is_transcript f \<and>
     fbody f \<noteq> LLMFullResponseStartFrame \<and> fbody f \<noteq> LLMFullResponseEndFrame"

lemma homemade_frames [simp]:
  "homemade (token_frame tok)" "homemade (speech_frame sp)" "homemade (fst (NewTTSSpeakFrame s i))"
  "homemade (fst (NewErrorFrame e b n i))" "homemade (fst (mk_frame BotStartedSpeakingFrame i))"
  "homemade (fst (mk_frame BotStoppedSpeakingFrame i))"
  by (simp_all add: homemade_def is_transcript_def token_frame_def speech_frame_def NewTTSSpeakFrame_def
      NewErrorFrame_def)

lemma homemade_filters [simp]:
  "list_all homemade fs \<Longrightarrow> filter interrupts fs = []"
  "list_all homemade fs \<Longrightarrow> filter is_transcript fs = []"
  by (auto simp: homemade_def list_all_iff filter_empty_conv)

lemma runLLM_homemade: "list_all homemade (down_of (fst (snd (runLLMWithMessages chat p ms skip))))"
proof -
  have t: "list_all homemade (map token_frame toks)" for toks by (simp add: list_all_iff)
  show ?thesis by (simp add: runLLMWithMessages_def Let_def case_prod_beta t)
qed

lemma llm_step_frames:
  "down_of (snd (llm_step chat rsp p f)) = [f] \<and> \<not> is_transcript f \<or>
   list_all homemade (down_of (snd (llm_step chat rsp p f))) \<and> \<not> interrupts f"
  by (cases "fbody f")
    (simp_all add: LLMProcessFrame_def is_transcript_def runLLM_homemade case_prod_beta Let_def)

lemma push_audio_homemade: "list_all homemade (snd (push_audio p as))"
  by (induction p as rule: push_audio.induct) (simp_all add: case_prod_beta Let_def)

lemma speak_homemade: "list_all homemade (down_of (snd (speak spk p t)))"
  by (simp add: speak_def case_prod_beta Let_def push_audio_homemade split: sum.split)

lemma flush_homemade: "list_all homemade (down_of (snd (flush_speech spk p)))"
  by (simp add: flush_speech_def Let_def speak_homemade)

lemma tryFlush_homemade: "list_all homemade (down_of (snd (tryFlush spk p)))"
  by (simp add: tryFlush_def flush_homemade)

text \<open>A step that handles \<open>f\<close> pushes homemade frames and then \<open>f\<close>, unless \<open>f\<close> is of that kind.\<close>

definition carries :: "frame \<Rightarrow> frame list \<Rightarrow> bool" where
  "carries f out \<longleftrightarrow> (\<exists>pre. list_all homemade pre \<and> (out = pre @ [f] \<or> out = pre \<and> homemade f))"

lemma carries_intros [simp]:
  "list_all homemade pre \<Longrightarrow> carries f (pre @ [f])" "carries f [f]"
  "list_all homemade pre \<Longrightarrow> homemade f \<Longrightarrow> carries f pre"
  by (auto simp: carries_def intro: exI [of _ pre] exI [of _ "[]"])

lemma carries_filter:
  assumes "carries f out"
  shows "filter interrupts out = (if interrupts f then [f] else [])"
    "filter is_transcript out = (if is_transcript f then [f] else [])"
proof -
  obtain pre where p: "list_all homemade pre" "out = pre @ [f] \<or> out = pre \<and> homemade f"
    using assms by (auto simp: carries_def)
  from p(2) show "filter interrupts out = (if interrupts f then [f] else [])"
    by (rule disjE) (simp_all add: p(1) homemade_def)
  from p(2) show "filter is_transcript out = (if is_transcript f then [f] else [])"
    by (rule disjE) (simp_all add: p(1) homemade_def)
qed

lemma tts_step_frames: "carries f (down_of (snd (tts_step spk rsp p f)))"
proof -
  have own: "homemade f" if "fbody f = LLMTextFrame t \<or> fbody f = TextFrame t \<or> fbody f = TTSSpeakFrame u" for t u
    using that by (elim disjE) (simp_all add: homemade_def is_transcript_def)
  show ?thesis
    by (cases "fbody f")
      (simp_all add: TTSProcessFrame_def own speak_homemade flush_homemade tryFlush_homemade case_prod_beta)
qed

lemma llm_step_interrupts:
  "filter interrupts (down_of (snd (llm_step chat rsp p f))) = (if interrupts f then [f] else [])"
  using llm_step_frames [of chat rsp p f] by (elim disjE conjE) simp_all

lemma llm_step_transcripts: "filter is_transcript (down_of (snd (llm_step chat rsp p f))) = []"
  using llm_step_frames [of chat rsp p f] by (elim disjE conjE) simp_all

interpretation llm_interrupts: transparent "llm_step chat rsp" interrupts
  by unfold_locales (rule llm_step_interrupts)

interpretation tts_interrupts: transparent "tts_step spk rsp" interrupts
  by unfold_locales (rule carries_filter(1) [OF tts_step_frames])

interpretation tts_transcripts: transparent "tts_step spk rsp" is_transcript
  by unfold_locales (rule carries_filter(2) [OF tts_step_frames])

lemma llm_run_transcripts: "filter is_transcript (down_of (snd (run (llm_step chat rsp) p fs))) = []"
  by (induction fs arbitrary: p) (simp_all add: llm_step_transcripts del: run.simps(2) stage_simps)

lemma control_silent:
  "filter is_transcript fs = [] \<Longrightarrow> snd (run (control_step rsp) c fs) = fs"
proof (induction fs arbitrary: c)
  case (Cons f fs)
  have "\<not> is_transcript f" using Cons.prems by (auto split: if_splits)
  then have "snd (control_step rsp c f) = [f]"
    by (cases c; cases "fbody f")
      (simp_all add: control_step_def InterruptionProcessFrame_def is_transcript_def hand_def)
  with Cons show ?case by (simp del: run.simps(2) split: if_splits)
qed simp

lemma voice_step_out:
  "snd (voice_step tr chat spk rsp v f) =
     (let e1 = snd (stage (STTProcessFrame tr rsp) (vl_stt v) f);
          e2 = snd (run (llm_step chat rsp) (vl_llm v) (down_of e1));
          e3 = snd (run (tts_step spk rsp) (vl_tts v) (down_of e2))
      in snd (run (control_step rsp) (vl_control v) (down_of e3)))"
  by (simp add: voice_step_def case_prod_beta Let_def del: stage_simps)

text \<open>C1: Barge-in never happens: in the pipeline the program builds, the interruption controller stands
  behind the language model, which keeps every transcript to itself, so the controller is never asked.
  Whatever the services answer, the strategy and the frames that come in, the interruption frames that
  come out at the end are exactly those that came in.\<close>

theorem voice_line_never_interrupts:
  "filter interrupts (snd (run (voice_step tr chat spk rsp) v fs)) = filter interrupts fs"
proof (induction fs arbitrary: v)
  case (Cons f fs)
  let ?e1 = "snd (stage (STTProcessFrame tr rsp) (vl_stt v) f)"
  let ?e2 = "snd (run (llm_step chat rsp) (vl_llm v) (down_of ?e1))"
  let ?e3 = "snd (run (tts_step spk rsp) (vl_tts v) (down_of ?e2))"
  have "filter is_transcript (down_of ?e3) = []"
    by (simp only: tts_transcripts.run_kind llm_run_transcripts)
  then have "snd (voice_step tr chat spk rsp v f) = down_of ?e3"
    by (simp only: voice_step_out Let_def control_silent)
  moreover have "filter interrupts (down_of ?e3) = filter interrupts [f]"
    by (simp only: tts_interrupts.run_kind llm_interrupts.run_kind stt_interrupts.step_kind) simp
  ultimately show ?case using Cons.IH by (simp del: run.simps(2))
qed simp

section \<open>From audio to transcription\<close>

lemma complete_turn_down:
  "list_all (\<lambda>x. fst x = Downstream) ups \<Longrightarrow>
   list_all (\<lambda>x. fst x = Downstream) (fst (snd (complete_turn rsp p ups)))"
  by (simp add: complete_turn_def case_prod_beta)

lemma process_chunk_down:
  "list_all (\<lambda>x. fst x = Downstream) (fst (snd (process_chunk rsp env p chunk)))"
proof -
  have "list_all (\<lambda>x. fst x = Downstream) (map (Pair Downstream) fs)" for fs :: "frame list"
    by (simp add: list_all_iff)
  then show ?thesis
    by (simp add: process_chunk_def Let_def case_prod_beta complete_turn_down)
qed

lemma turn_step_down:
  "list_all (\<lambda>x. fst x = Downstream) (fst (snd (TurnProcessFrame rsp p ef Downstream)))"
  by (cases ef; cases "fbody (snd ef)") (simp_all add: TurnProcessFrame_def process_chunk_down hand_def)

interpretation turn_down: handler "\<lambda>p ef. TurnProcessFrame rsp p ef Downstream" "\<lambda>_. True"
  by unfold_locales simp

lemma turn_run_down:
  "list_all (\<lambda>x. fst x = Downstream) (snd (run_handler (\<lambda>p ef. TurnProcessFrame rsp p ef Downstream) p efs))"
  using turn_step_down by (intro turn_down.run_out) auto

lemma raw_audio_frames: "raw_audio ps = concat (map frame_audio (map snd ps))"
  by (induction ps rule: raw_audio.induct) (simp_all add: frame_audio_def)

text \<open>C2: No audio is lost between the microphone and the transcription service: with the turn processor
  in front of the speech-to-text processor, over any frames without a cancellation, the buffers sent to
  the service, then the speech-to-text buffer, then the turn buffer are exactly the audio received.
  Everything the turn processor pushes goes downstream.\<close>

theorem audio_reaches_transcription:
  assumes "\<forall>ef \<in> set efs. \<forall>r. fbody (snd ef) \<noteq> CancelFrame r"
    "run_handler (\<lambda>p ef. TurnProcessFrame rsp p ef Downstream)
       (NewTurnProcessorWithUserTurn a r ch async st it ids) efs = (p, out)"
    "run (stage (STTProcessFrame tr rsp2)) (NewSTTProcessorWithBuffer name svc r2 ch2 ms ids2)
       (map snd out) = (q, es)"
  shows "concat (transcribed es) @ stt_buf q @ tp_buf p = concat (map audio_in efs) \<and>
    list_all (\<lambda>x. fst x = Downstream) out"
proof -
  have "raw_audio out @ tp_buf p = concat (map audio_in efs)"
    using turn_run_audio [OF assms(1), of rsp "NewTurnProcessorWithUserTurn a r ch async st it ids"] assms(2)
    by (simp add: NewTurnProcessorWithUserTurn_def Let_def)
  moreover have "concat (transcribed es) @ stt_buf q = raw_audio out"
    using stt_run_audio(1) [OF NewSTTProcessor_ok assms(3)]
    by (simp add: raw_audio_frames NewSTTProcessorWithBuffer_def Let_def)
  moreover have "list_all (\<lambda>x. fst x = Downstream) out"
    using turn_run_down [of rsp "NewTurnProcessorWithUserTurn a r ch async st it ids" efs] assms(2) by simp
  ultimately show ?thesis by (metis append.assoc)
qed

definition deaf :: "unit transcriber" where
  "deaf v b r c = (Inr [], v)"

theorem audio_reaches_transcription_witness:
  "let (p, out) = run_handler (\<lambda>p ef. TurnProcessFrame quiet_replies p ef Downstream)
         (NewTurnProcessorWithUserTurn (NewSilenceTurnAnalyzer \<lparr>tp_stop = 1, tp_pre = 0, tp_max = 0\<rparr>)
            8000 1 False 5 0 0)
         [(\<lparr>te_now = 0, te_speech = Inr True, te_poll = None\<rparr>, fst (NewAudioRawFrame [1, 2] 8000 1 0 1))];
       (q, es) = run (stage (STTProcessFrame deaf quiet_replies))
         (NewSTTProcessor [] () 8000 1 0) (map snd out)
   in concat (transcribed es) @ stt_buf q @ tp_buf p = [1, 2]"
proof -
  let ?ef = "(\<lparr>te_now = 0, te_speech = Inr True, te_poll = None\<rparr>, fst (NewAudioRawFrame [1, 2] 8000 1 0 1))"
  obtain p out where r: "run_handler (\<lambda>p ef. TurnProcessFrame quiet_replies p ef Downstream)
       (NewTurnProcessorWithUserTurn (NewSilenceTurnAnalyzer \<lparr>tp_stop = 1, tp_pre = 0, tp_max = 0\<rparr>)
          8000 1 False 5 0 0) [?ef] = (p, out)" by fastforce
  obtain q es where s: "run (stage (STTProcessFrame deaf quiet_replies))
       (NewSTTProcessor [] () 8000 1 0) (map snd out) = (q, es)" by fastforce
  from audio_reaches_transcription [OF _ r s [unfolded NewSTTProcessor_def]] show ?thesis
    unfolding r by (simp add: s audio_in_def NewAudioRawFrame_def audio_of_def)
qed

end
