(* ===== verification/Voicemail.thy ===== *)
theory Voicemail
  imports Tts
begin

text \<open>
  \<^verbatim>\<open>pkg/extensions/voicemail\<close> and the one-shot \<^verbatim>\<open>pkg/sync/notifier\<close>: the gates, the processor that
  reads the classifier's answer and its delayed handler, and the classification branch they form
  with a language model. A goroutine that waits for a notifier is an event that may happen once the
  notifier is signalled.
\<close>

section \<open>Gates\<close>

text \<open>A gate that a notifier closes for good; \<open>ng_waiting\<close> tells that its goroutine still waits.\<close>

record notifier_gate =
  ng_closed :: bool
  ng_waiting :: bool

definition NewNotifierGate :: notifier_gate where
  "NewNotifierGate = \<lparr>ng_closed = False, ng_waiting = False\<rparr>"

definition GateSetup :: "notifier_gate \<Rightarrow> notifier_gate" where
  "GateSetup g = g\<lparr>ng_waiting := True\<rparr>"

definition GateCleanup :: "notifier_gate \<Rightarrow> notifier_gate" where
  "GateCleanup g = g\<lparr>ng_waiting := False\<rparr>"

text \<open>The goroutine, when its notifier is signalled.\<close>

definition gate_signal :: "notifier_gate \<Rightarrow> notifier_gate" where
  "gate_signal g = (if ng_waiting g then \<lparr>ng_closed = True, ng_waiting = False\<rparr> else g)"

definition passes_closed :: "frame \<Rightarrow> bool" where
  "passes_closed f = (case fbody f of StartFrame _ _ _ _ _ \<Rightarrow> True | EndFrame \<Rightarrow> True | CancelFrame _ \<Rightarrow> True
     | StopFrame \<Rightarrow> True | _ \<Rightarrow> False)"

definition GateProcessFrame ::
  "replies \<Rightarrow> notifier_gate \<Rightarrow> frame \<Rightarrow> direction \<Rightarrow> notifier_gate \<times> push list \<times> err option" where
  "GateProcessFrame rsp g f d =
     (if d \<noteq> Downstream then hand rsp g Upstream f
      else if \<not> ng_closed g then hand rsp g Downstream f
      else if passes_closed f then hand rsp g Downstream f
      else (g, [], None))"

record classifier_gate = notifier_gate +
  cg_conversation :: bool
  cg_conv_waiting :: bool

definition NewClassifierGate :: classifier_gate where
  "NewClassifierGate = \<lparr>ng_closed = False, ng_waiting = False, cg_conversation = False, cg_conv_waiting = False\<rparr>"

definition ClassifierGateSetup :: "classifier_gate \<Rightarrow> classifier_gate" where
  "ClassifierGateSetup g = g\<lparr>ng_waiting := True, cg_conv_waiting := True\<rparr>"

definition ClassifierGateCleanup :: "classifier_gate \<Rightarrow> classifier_gate" where
  "ClassifierGateCleanup g = g\<lparr>ng_waiting := False, cg_conv_waiting := False\<rparr>"

definition conversation_signal :: "classifier_gate \<Rightarrow> classifier_gate" where
  "conversation_signal g =
     (if cg_conv_waiting g then g\<lparr>cg_conversation := True, cg_conv_waiting := False\<rparr> else g)"

definition classifier_gate_signal :: "classifier_gate \<Rightarrow> classifier_gate" where
  "classifier_gate_signal g = (if ng_waiting g then g\<lparr>ng_closed := True, ng_waiting := False\<rparr> else g)"

definition ClassifierGateProcessFrame ::
  "replies \<Rightarrow> classifier_gate \<Rightarrow> frame \<Rightarrow> direction \<Rightarrow> classifier_gate \<times> push list \<times> err option" where
  "ClassifierGateProcessFrame rsp g f d =
     (if d \<noteq> Downstream then hand rsp g Upstream f
      else if \<not> ng_closed g then hand rsp g Downstream f
      else if fbody f = UserStartedSpeakingFrame \<or> fbody f = UserStoppedSpeakingFrame
      then (if \<not> cg_conversation g then hand rsp g Downstream f else (g, [], None))
      else if passes_closed f then hand rsp g Downstream f
      else (g, [], None))"

section \<open>The TTS gate\<close>

text \<open>\<^verbatim>\<open>ProcessFrame\<close> looks whether the gate is active and stores the frame in two critical sections;
  \<open>tg_pending\<close> is the frame between them. Each goroutine acts once.\<close>

record tts_gate =
  tg_buf :: "frame list"
  tg_active :: bool
  tg_pending :: "frame option"
  tg_conv_waiting :: bool
  tg_vm_waiting :: bool

definition NewTTSGate :: tts_gate where
  "NewTTSGate =
     \<lparr>tg_buf = [], tg_active = True, tg_pending = None, tg_conv_waiting = False, tg_vm_waiting = False\<rparr>"

definition TTSGateSetup :: "tts_gate \<Rightarrow> tts_gate" where
  "TTSGateSetup g = g\<lparr>tg_conv_waiting := True, tg_vm_waiting := True\<rparr>"

definition TTSGateCleanup :: "tts_gate \<Rightarrow> tts_gate" where
  "TTSGateCleanup g = g\<lparr>tg_conv_waiting := False, tg_vm_waiting := False\<rparr>"

definition isTTSFrame :: "frame \<Rightarrow> bool" where
  "isTTSFrame f = (case fbody f of TTSAudioRawFrame a s \<Rightarrow> True | BotStartedSpeakingFrame \<Rightarrow> True
     | BotStoppedSpeakingFrame \<Rightarrow> True | _ \<Rightarrow> False)"

datatype tts_gate_event = TGFrame frame | TGStore | TGConversation | TGVoicemail

definition tts_gate_step :: "tts_gate \<Rightarrow> tts_gate_event \<Rightarrow> tts_gate \<times> frame list" where
  "tts_gate_step g ev =
     (case ev of
        TGFrame f \<Rightarrow>
          (if tg_pending g \<noteq> None then (g, [])
           else if tg_active g \<and> isTTSFrame f then (g\<lparr>tg_pending := Some f\<rparr>, [])
           else (g, [f]))
      | TGStore \<Rightarrow>
          (case tg_pending g of None \<Rightarrow> (g, [])
           | Some f \<Rightarrow> (g\<lparr>tg_buf := tg_buf g @ [f], tg_pending := None\<rparr>, []))
      | TGConversation \<Rightarrow>
          (if tg_conv_waiting g
           then (g\<lparr>tg_active := False, tg_buf := [], tg_conv_waiting := False\<rparr>, tg_buf g) else (g, []))
      | TGVoicemail \<Rightarrow>
          (if tg_vm_waiting g
           then (g\<lparr>tg_active := False, tg_buf := [], tg_vm_waiting := False\<rparr>, []) else (g, [])))"

lemma tts_gate_step_simps [simp]:
  "tts_gate_step g (TGFrame f) =
     (if tg_pending g \<noteq> None then (g, [])
      else if tg_active g \<and> isTTSFrame f then (g\<lparr>tg_pending := Some f\<rparr>, []) else (g, [f]))"
  "tts_gate_step g TGStore =
     (case tg_pending g of None \<Rightarrow> (g, []) | Some f \<Rightarrow> (g\<lparr>tg_buf := tg_buf g @ [f], tg_pending := None\<rparr>, []))"
  "tts_gate_step g TGConversation =
     (if tg_conv_waiting g
      then (g\<lparr>tg_active := False, tg_buf := [], tg_conv_waiting := False\<rparr>, tg_buf g) else (g, []))"
  "tts_gate_step g TGVoicemail =
     (if tg_vm_waiting g then (g\<lparr>tg_active := False, tg_buf := [], tg_vm_waiting := False\<rparr>, []) else (g, []))"
  by (simp_all add: tts_gate_step_def)

text \<open>The whole of \<^verbatim>\<open>ProcessFrame\<close> with nothing in between.\<close>

definition TTSGateProcessFrame :: "tts_gate \<Rightarrow> frame \<Rightarrow> tts_gate \<times> frame list" where
  "TTSGateProcessFrame g f = run tts_gate_step g [TGFrame f, TGStore]"

fun tts_events :: "frame list \<Rightarrow> tts_gate_event list" where
  "tts_events [] = []"
| "tts_events (f # fs) = TGFrame f # TGStore # tts_events fs"

lemma tts_events_held:
  "tg_active g \<Longrightarrow> tg_pending g = None \<Longrightarrow>
   run tts_gate_step g (tts_events fs) =
     (g\<lparr>tg_buf := tg_buf g @ filter isTTSFrame fs\<rparr>, filter (\<lambda>f. \<not> isTTSFrame f) fs)"
proof (induction fs arbitrary: g)
  case (Cons f fs)
  show ?case
  proof (cases "isTTSFrame f")
    case True
    let ?g = "g\<lparr>tg_buf := tg_buf g @ [f]\<rparr>"
    have "run tts_gate_step g [TGFrame f, TGStore] = (?g, [])"
      using Cons.prems True by (simp)
    moreover have "tts_events (f # fs) = [TGFrame f, TGStore] @ tts_events fs" by simp
    ultimately have "run tts_gate_step g (tts_events (f # fs)) = run tts_gate_step ?g (tts_events fs)"
      by (simp only: run_append) (simp add: case_prod_beta)
    with Cons.IH [of ?g] Cons.prems True show ?thesis by simp
  next
    case False
    with Cons show ?thesis by (simp)
  qed
qed simp

lemma tts_events_open:
  "\<not> tg_active g \<Longrightarrow> tg_pending g = None \<Longrightarrow> run tts_gate_step g (tts_events fs) = (g, fs)"
  by (induction fs) (simp_all)

text \<open>The bot says nothing before the decision and nothing is lost by it, if no frame comes in at that very
  moment: speech that arrives before the conversation is confirmed is held, other frames pass; the
  confirmation releases what was held, in order, and then everything passes. On voicemail what was held
  is dropped.\<close>

theorem tts_gate_holds_speech:
  "run tts_gate_step (TTSGateSetup NewTTSGate) (tts_events before @ [TGConversation] @ tts_events after) =
     ((TTSGateSetup NewTTSGate)\<lparr>tg_active := False, tg_conv_waiting := False\<rparr>,
      filter (\<lambda>f. \<not> isTTSFrame f) before @ filter isTTSFrame before @ after) \<and>
   run tts_gate_step (TTSGateSetup NewTTSGate) (tts_events before @ [TGVoicemail] @ tts_events after) =
     ((TTSGateSetup NewTTSGate)\<lparr>tg_active := False, tg_vm_waiting := False\<rparr>,
      filter (\<lambda>f. \<not> isTTSFrame f) before @ after)"
proof -
  define g where "g = TTSGateSetup NewTTSGate"
  have g: "tg_active g" "tg_pending g = None" "tg_buf g = []" "tg_conv_waiting g" "tg_vm_waiting g"
    by (simp_all add: g_def TTSGateSetup_def NewTTSGate_def)
  have "run tts_gate_step g (tts_events before) =
      (g\<lparr>tg_buf := filter isTTSFrame before\<rparr>, filter (\<lambda>f. \<not> isTTSFrame f) before)"
    by (simp add: tts_events_held g)
  moreover have "g\<lparr>tg_buf := []\<rparr> = g" using g(3) by simp
  ultimately show ?thesis
    unfolding g_def [symmetric] by (simp add: run_append tts_events_open g)
qed

lemma tts_gate_stuck:
  assumes "\<not> tg_conv_waiting g" "\<not> tg_active g"
    "\<forall>h. tg_pending g = Some h \<longrightarrow> h = f" "TGFrame f \<notin> set evs"
  shows "f \<notin> set (snd (run tts_gate_step g evs))"
  using assms
proof (induction evs arbitrary: g)
  case (Cons ev evs)
  let ?g = "fst (tts_gate_step g ev)"
  have "f \<notin> set (snd (tts_gate_step g ev))" using Cons.prems by (cases ev) (auto split: option.splits)
  moreover have "\<not> tg_conv_waiting ?g" "\<not> tg_active ?g" "\<forall>h. tg_pending ?g = Some h \<longrightarrow> h = f"
    using Cons.prems by (cases ev; auto split: option.splits)+
  ultimately show ?case using Cons.IH [of ?g] Cons.prems by (simp del: run.simps(2))
qed simp

text \<open>A frame that comes in just when the conversation is confirmed is lost: if the release falls between
  the look at the gate and the storing of the frame, the frame is stored behind the release, and
  whatever happens afterwards it is never passed on.\<close>

theorem tts_gate_race_loses_frame:
  assumes "isTTSFrame f" "TGFrame f \<notin> set evs" "f \<notin> set (tg_buf g)"
    "tg_active g" "tg_pending g = None" "tg_conv_waiting g"
  shows "f \<notin> set (snd (run tts_gate_step g ([TGFrame f, TGConversation, TGStore] @ evs)))"
proof -
  let ?h = "g\<lparr>tg_active := False, tg_buf := [f], tg_conv_waiting := False, tg_pending := None\<rparr>"
  have "run tts_gate_step g [TGFrame f, TGConversation, TGStore] = (?h, tg_buf g)"
    using assms by (simp)
  then have "snd (run tts_gate_step g ([TGFrame f, TGConversation, TGStore] @ evs)) =
      tg_buf g @ snd (run tts_gate_step ?h evs)"
    by (simp only: run_append) (simp add: case_prod_beta)
  with assms(3) tts_gate_stuck [of ?h f evs] assms(2) show ?thesis by simp
qed

theorem tts_gate_race_loses_frame_witness:
  "let f = Frame (NewBaseWithID 1) BotStartedSpeakingFrame;
       g = Frame (NewBaseWithID 2) BotStoppedSpeakingFrame
   in f \<notin> set (snd (run tts_gate_step (TTSGateSetup NewTTSGate)
        ([TGFrame f, TGConversation, TGStore] @ [TGFrame g, TGStore])))"
  unfolding Let_def
  by (rule tts_gate_race_loses_frame) (simp_all add: isTTSFrame_def TTSGateSetup_def NewTTSGate_def)

section \<open>Classification\<close>

text \<open>\<^verbatim>\<open>strings.ToUpper\<close> on bytes: ASCII letters, and the two other runes whose capital is ASCII; the other
  runes are left alone, which makes no difference to a search for ASCII words.\<close>

definition upper_byte :: "char \<Rightarrow> char" where
  "upper_byte c =
     (if 97 \<le> (of_char c :: nat) \<and> (of_char c :: nat) \<le> 122 then char_of (of_char c - 32 :: nat) else c)"

fun ToUpper :: "string \<Rightarrow> string" where
  "ToUpper [] = []"
| "ToUpper [c] = [upper_byte c]"
| "ToUpper (c # d # r) =
     (if c = CHR 0xC4 \<and> d = CHR 0xB1 then CHR ''I'' # ToUpper r
      else if c = CHR 0xC5 \<and> d = CHR 0xBF then CHR ''S'' # ToUpper r
      else upper_byte c # ToUpper (d # r))"

text \<open>The delayed handler is a goroutine: it polls until voicemail is detected, then waits for the delay
  to pass on the event channel of the moment; \<open>VDelay n\<close> waits on the \<open>n\<close>-th channel.\<close>

datatype vm_handler = VIdle | VTop | VDetect | VDelay nat | VDone

record classification =
  cl_processing :: bool
  cl_buf :: string
  cl_decided :: bool
  cl_voicemail :: bool
  cl_token :: bool
  cl_channel :: nat
  cl_handler :: vm_handler
  cl_on_conversation :: bool
  cl_on_voicemail :: bool
  cl_ids :: u64

datatype notifier_name = GateNotifier | ConversationNotifier | VoicemailNotifier

datatype cl_out = CPush direction frame | CNotify notifier_name | CConversation | CVoicemail

definition NewClassificationProcessor :: "bool \<Rightarrow> bool \<Rightarrow> u64 \<Rightarrow> classification" where
  "NewClassificationProcessor oc ov ids =
     \<lparr>cl_processing = False, cl_buf = [], cl_decided = False, cl_voicemail = False, cl_token = False,
      cl_channel = 0, cl_handler = VIdle, cl_on_conversation = oc, cl_on_voicemail = ov, cl_ids = ids\<rparr>"

definition ClassificationSetup :: "classification \<Rightarrow> classification" where
  "ClassificationSetup p = p\<lparr>cl_handler := VTop\<rparr>"

text \<open>A send on the unbuffered channel succeeds only if the handler waits on it, which then starts over.\<close>

definition setVoicemailEvent :: "classification \<Rightarrow> classification" where
  "setVoicemailEvent p = (if cl_handler p = VDelay (cl_channel p) then p\<lparr>cl_handler := VTop\<rparr> else p)"

definition clearVoicemailEvent :: "classification \<Rightarrow> classification" where
  "clearVoicemailEvent p = p\<lparr>cl_channel := Suc (cl_channel p)\<rparr>"

definition processClassification :: "classification \<Rightarrow> string \<Rightarrow> classification \<times> cl_out list" where
  "processClassification p full =
     (if cl_decided p then (p, [])
      else (let response = ToUpper full in
            if contains_str response ''CONVERSATION''
            then (p\<lparr>cl_decided := True\<rparr>,
                  [CNotify GateNotifier, CNotify ConversationNotifier] @
                  (if cl_on_conversation p then [CConversation] else []))
            else if contains_str response ''VOICEMAIL''
            then (let (f, ids) = NewCancelFrame (AStr ''voicemail detected'') (cl_ids p)
                  in (clearVoicemailEvent
                        (p\<lparr>cl_decided := True, cl_voicemail := True, cl_token := True, cl_ids := ids\<rparr>),
                      [CNotify GateNotifier, CNotify VoicemailNotifier, CPush Downstream f]))
            else (p, [])))"

definition ClassificationProcessFrame ::
  "replies \<Rightarrow> classification \<Rightarrow> frame \<Rightarrow> direction \<Rightarrow> classification \<times> cl_out list \<times> err option" where
  "ClassificationProcessFrame rsp p f d =
     (if d \<noteq> Downstream then (p, [CPush Upstream f], rsp Upstream f)
      else (let (p1, out) =
              (case fbody f of
                 LLMFullResponseStartFrame \<Rightarrow> (p\<lparr>cl_processing := True, cl_buf := []\<rparr>, [])
               | LLMFullResponseEndFrame \<Rightarrow>
                   (if cl_processing p \<and> \<not> cl_decided p
                    then processClassification (p\<lparr>cl_processing := False, cl_buf := []\<rparr>) (TrimSpace (cl_buf p))
                    else (p\<lparr>cl_processing := False, cl_buf := []\<rparr>, []))
               | LLMTextFrame t \<Rightarrow> (if cl_processing p then p\<lparr>cl_buf := cl_buf p @ tdata t\<rparr> else p, [])
               | UserStartedSpeakingFrame \<Rightarrow> (if cl_voicemail p then setVoicemailEvent p else p, [])
               | UserStoppedSpeakingFrame \<Rightarrow> (if cl_voicemail p then clearVoicemailEvent p else p, [])
               | _ \<Rightarrow> (p, []))
            in (p1, out @ [CPush Downstream f], rsp Downstream f)))"

text \<open>The goroutine's moves: going on at the head of its loop, being woken by the token or the poll timer,
  seeing its channel closed, the delay passing, the context ending.\<close>

datatype cl_event = CFrame frame | CLoop | CToken | CPoll | CClosed | CDelayed | CCancel

definition cl_step :: "classification \<Rightarrow> cl_event \<Rightarrow> classification \<times> cl_out list" where
  "cl_step p ev =
     (case ev of
        CFrame f \<Rightarrow> (let (p1, out, _) = ClassificationProcessFrame quiet_replies p f Downstream in (p1, out))
      | CLoop \<Rightarrow>
          (if cl_handler p = VTop
           then p\<lparr>cl_handler := (if cl_voicemail p then VDelay (cl_channel p) else VDetect)\<rparr> else p, [])
      | CToken \<Rightarrow>
          (if cl_handler p = VDetect \<and> cl_token p
           then p\<lparr>cl_token := False, cl_handler := VDelay (cl_channel p)\<rparr> else p, [])
      | CPoll \<Rightarrow> (if cl_handler p = VDetect then p\<lparr>cl_handler := VTop\<rparr> else p, [])
      | CClosed \<Rightarrow>
          (case cl_handler p of
             VDelay n \<Rightarrow> (if n \<noteq> cl_channel p then p\<lparr>cl_handler := VTop\<rparr> else p, []) | _ \<Rightarrow> (p, []))
      | CDelayed \<Rightarrow>
          (case cl_handler p of
             VDelay n \<Rightarrow> (p\<lparr>cl_handler := VDone\<rparr>, if cl_on_voicemail p then [CVoicemail] else [])
           | _ \<Rightarrow> (p, []))
      | CCancel \<Rightarrow> (if cl_handler p = VIdle then p else p\<lparr>cl_handler := VDone\<rparr>, []))"

fun notifications :: "cl_out list \<Rightarrow> notifier_name list" where
  "notifications [] = []"
| "notifications (e # es) = (case e of CNotify n \<Rightarrow> [n] | _ \<Rightarrow> []) @ notifications es"

definition voicemail_calls :: "cl_out list \<Rightarrow> nat" where
  "voicemail_calls es = length (filter (\<lambda>e. e = CVoicemail) es)"

lemma cl_out_append [simp]:
  "notifications (xs @ ys) = notifications xs @ notifications ys"
  "voicemail_calls (xs @ ys) = voicemail_calls xs + voicemail_calls ys"
  by (induction xs) (simp_all add: voicemail_calls_def)

text \<open>What has been notified, read off the state, and the handler's state in step with it.\<close>

definition notified :: "classification \<Rightarrow> notifier_name list" where
  "notified p = (if cl_voicemail p then [GateNotifier, VoicemailNotifier]
     else if cl_decided p then [GateNotifier, ConversationNotifier] else [])"

definition cl_inv :: "classification \<Rightarrow> bool" where
  "cl_inv p \<longleftrightarrow> (cl_voicemail p \<longrightarrow> cl_decided p) \<and> (cl_token p \<longrightarrow> cl_voicemail p) \<and>
     ((\<exists>n. cl_handler p = VDelay n) \<longrightarrow> cl_voicemail p)"

lemma processClassification_facts:
  assumes "processClassification p full = (p', out)" "cl_inv p"
  shows "cl_inv p' \<and> notified p' = notified p @ notifications out \<and> voicemail_calls out = 0 \<and>
    cl_handler p' = cl_handler p \<and> (cl_voicemail p \<longrightarrow> cl_voicemail p')"
  using assms
  by (auto simp: processClassification_def Let_def cl_inv_def notified_def clearVoicemailEvent_def
      NewCancelFrame_def voicemail_calls_def split: if_splits prod.splits)

definition handler_calls :: "classification \<Rightarrow> nat" where
  "handler_calls p = (if cl_handler p = VDone then 0 else 1)"

text \<open>A step keeps the invariant, notifies what the new state says, and calls back only after voicemail
  was detected, using up the only call.\<close>

definition good_move :: "classification \<Rightarrow> classification \<times> cl_out list \<Rightarrow> bool" where
  "good_move p r \<longleftrightarrow> cl_inv (fst r) \<and> notified (fst r) = notified p @ notifications (snd r) \<and>
     voicemail_calls (snd r) + handler_calls (fst r) \<le> handler_calls p \<and>
     (voicemail_calls (snd r) > 0 \<longrightarrow> cl_voicemail (fst r)) \<and> (cl_voicemail p \<longrightarrow> cl_voicemail (fst r))"

lemma cl_step_frame: "cl_inv p \<Longrightarrow> good_move p (cl_step p (CFrame f))"
proof -
  assume i: "cl_inv p"
  have e: "good_move p (cl_step p (CFrame f))" if "fbody f = LLMFullResponseEndFrame"
  proof -
    let ?q = "p\<lparr>cl_processing := False, cl_buf := []\<rparr>"
    obtain p' out where c: "processClassification ?q (TrimSpace (cl_buf p)) = (p', out)" by fastforce
    have "cl_inv ?q" "notified ?q = notified p" using i by (simp_all add: cl_inv_def notified_def)
    with processClassification_facts [OF c] i that c show ?thesis
      by (auto simp: cl_step_def ClassificationProcessFrame_def good_move_def handler_calls_def voicemail_calls_def)
  qed
  show ?thesis
    using i e by (cases "fbody f") (simp_all add: cl_step_def ClassificationProcessFrame_def good_move_def
        cl_inv_def notified_def handler_calls_def voicemail_calls_def setVoicemailEvent_def
        clearVoicemailEvent_def, blast+)
qed

lemma cl_step_good: "cl_inv p \<Longrightarrow> good_move p (cl_step p ev)"
  using cl_step_frame [of p]
  by (cases ev) (auto simp: cl_step_def good_move_def cl_inv_def notified_def handler_calls_def
      voicemail_calls_def split: vm_handler.splits)

interpretation cl_run: machine cl_step cl_inv
  by unfold_locales (use cl_step_good in \<open>auto simp: good_move_def\<close>)

lemma cl_run_good: "cl_inv p \<Longrightarrow> good_move p (run cl_step p evs)"
proof (induction evs arbitrary: p)
  case Nil
  then show ?case by (simp add: good_move_def voicemail_calls_def)
next
  case (Cons ev evs)
  let ?q = "fst (cl_step p ev)"
  have a: "good_move p (cl_step p ev)" using Cons.prems by (rule cl_step_good)
  then have b: "good_move ?q (run cl_step ?q evs)" using Cons.IH by (simp add: good_move_def)
  from a b show ?case by (simp add: good_move_def del: run.simps(2))
qed

text \<open>The call is classified once: over any frames and any moves of the delayed handler, either nobody is
  notified, or the gate and the conversation notifier, or the gate and the voicemail notifier, each
  once; and the voicemail callback is called at most once and only after voicemail was detected.\<close>

theorem voicemail_decides_once:
  "let out = snd (run cl_step (ClassificationSetup (NewClassificationProcessor oc ov ids)) evs)
   in notifications out \<in> {[], [GateNotifier, ConversationNotifier], [GateNotifier, VoicemailNotifier]} \<and>
      voicemail_calls out \<le> (if VoicemailNotifier \<in> set (notifications out) then 1 else 0)"
proof -
  let ?p = "ClassificationSetup (NewClassificationProcessor oc ov ids)"
  let ?r = "run cl_step ?p evs"
  have p: "cl_inv ?p" "notified ?p = []" "handler_calls ?p = 1"
    by (simp_all add: cl_inv_def NewClassificationProcessor_def ClassificationSetup_def notified_def
        handler_calls_def)
  have g: "cl_inv (fst ?r)" "notified (fst ?r) = notifications (snd ?r)" "voicemail_calls (snd ?r) \<le> 1"
    "voicemail_calls (snd ?r) > 0 \<longrightarrow> cl_voicemail (fst ?r)"
    using cl_run_good [OF p(1), of evs] p(2,3) by (simp_all add: good_move_def)
  show ?thesis unfolding Let_def
  proof (cases "cl_voicemail (fst ?r)")
    case True
    then have "notifications (snd ?r) = [GateNotifier, VoicemailNotifier]" using g(2) by (simp add: notified_def)
    with g(3) show "notifications (snd ?r) \<in>
        {[], [GateNotifier, ConversationNotifier], [GateNotifier, VoicemailNotifier]} \<and>
      voicemail_calls (snd ?r) \<le> (if VoicemailNotifier \<in> set (notifications (snd ?r)) then 1 else 0)"
      by simp
  next
    case False
    then have "notifications (snd ?r) \<in> {[], [GateNotifier, ConversationNotifier]}"
      using g(2) by (simp add: notified_def split: if_splits)
    moreover have "voicemail_calls (snd ?r) = 0" using g(4) False by simp
    ultimately show "notifications (snd ?r) \<in>
        {[], [GateNotifier, ConversationNotifier], [GateNotifier, VoicemailNotifier]} \<and>
      voicemail_calls (snd ?r) \<le> (if VoicemailNotifier \<in> set (notifications (snd ?r)) then 1 else 0)"
      by auto
  qed
qed

section \<open>The classification branch\<close>

text \<open>The second branch \<^verbatim>\<open>NewVoicemailDetector\<close> builds: the classifier gate, a language model processor and
  the classification processor.\<close>

record 'v classifier_branch =
  cb_gate :: classifier_gate
  cb_llm :: "'v llm_proc"
  cb_class :: classification

definition NewClassifierBranch :: "'v \<Rightarrow> string \<Rightarrow> bool \<Rightarrow> bool \<Rightarrow> u64 \<Rightarrow> 'v classifier_branch" where
  "NewClassifierBranch svc prompt oc ov ids =
     \<lparr>cb_gate = ClassifierGateSetup NewClassifierGate, cb_llm = NewLLMProcessorWithSystemPrompt svc prompt ids,
      cb_class = ClassificationSetup (NewClassificationProcessor oc ov ids)\<rparr>"

datatype branch_event = BFrame frame | BHandler cl_event | BGateSignal | BConversationSignal

text \<open>The gate's goroutines may move once their notifier is signalled; the notifications are those of the
  classification processor.\<close>

definition branch_step ::
  "'v chatter \<Rightarrow> replies \<Rightarrow> 'v classifier_branch \<Rightarrow> branch_event \<Rightarrow> 'v classifier_branch \<times> cl_out list" where
  "branch_step chat rsp b ev =
     (case ev of
        BFrame f \<Rightarrow>
          (let (g, ps, _) = ClassifierGateProcessFrame rsp (cb_gate b) f Downstream;
               (l, es) = run (llm_step chat rsp) (cb_llm b) (map snd ps);
               (c, out) = run cl_step (cb_class b) (map CFrame (down_of es))
           in (\<lparr>cb_gate = g, cb_llm = l, cb_class = c\<rparr>, out))
      | BHandler e \<Rightarrow>
          (case e of CFrame f \<Rightarrow> (b, [])
           | _ \<Rightarrow> (let (c, out) = cl_step (cb_class b) e in (b\<lparr>cb_class := c\<rparr>, out)))
      | BGateSignal \<Rightarrow>
          (if cl_decided (cb_class b) then b\<lparr>cb_gate := classifier_gate_signal (cb_gate b)\<rparr> else b, [])
      | BConversationSignal \<Rightarrow>
          (if cl_decided (cb_class b) \<and> \<not> cl_voicemail (cb_class b)
           then b\<lparr>cb_gate := conversation_signal (cb_gate b)\<rparr> else b, []))"

definition response_start :: "frame \<Rightarrow> bool" where
  "response_start f \<longleftrightarrow> fbody f = LLMFullResponseStartFrame"

definition undecided :: "classification \<Rightarrow> bool" where
  "undecided p \<longleftrightarrow> \<not> cl_processing p \<and> \<not> cl_decided p \<and> cl_inv p"

lemma undecided_step:
  assumes "undecided p" "\<forall>f. ev = CFrame f \<longrightarrow> \<not> response_start f"
  shows "undecided (fst (cl_step p ev)) \<and> notifications (snd (cl_step p ev)) = []"
proof -
  have p: "\<not> cl_processing p" "\<not> cl_decided p" "\<not> cl_voicemail p" "\<not> cl_token p"
    "\<And>n. cl_handler p \<noteq> VDelay n"
    using assms(1) by (auto simp: undecided_def cl_inv_def)
  show ?thesis
  proof (cases ev)
    case (CFrame f)
    with assms(2) p show ?thesis
      by (cases "fbody f") (simp_all add: cl_step_def ClassificationProcessFrame_def undecided_def
          response_start_def cl_inv_def)
  qed (use p in \<open>auto simp: cl_step_def undecided_def cl_inv_def split: vm_handler.splits\<close>)
qed

lemma undecided_run:
  "undecided p \<Longrightarrow> list_all (\<lambda>f. \<not> response_start f) fs \<Longrightarrow>
   undecided (fst (run cl_step p (map CFrame fs))) \<and> notifications (snd (run cl_step p (map CFrame fs))) = []"
proof (induction fs arbitrary: p)
  case (Cons f fs)
  with undecided_step [of p "CFrame f"] show ?case by (simp del: run.simps(2))
qed simp

lemma llm_no_response_start:
  "list_all (\<lambda>f. \<not> response_start f) fs \<Longrightarrow>
   list_all (\<lambda>f. \<not> response_start f) (down_of (snd (run (llm_step chat rsp) l fs)))"
proof (induction fs arbitrary: l)
  case (Cons f fs)
  have "list_all (\<lambda>f. \<not> response_start f) (down_of (snd (llm_step chat rsp l f)))"
    using llm_step_frames [of chat rsp l f] Cons.prems
    by (elim disjE conjE) (auto simp: list_all_iff homemade_def response_start_def simp del: stage_simps)
  with Cons show ?case by (simp del: run.simps(2) stage_simps)
qed simp

lemma branch_step_undecided:
  assumes "undecided (cb_class b)" "\<forall>f. ev = BFrame f \<longrightarrow> \<not> response_start f"
  shows "undecided (cb_class (fst (branch_step chat rsp b ev))) \<and>
    notifications (snd (branch_step chat rsp b ev)) = []"
proof (cases ev)
  case (BFrame f)
  define ps where "ps = fst (snd (ClassifierGateProcessFrame rsp (cb_gate b) f Downstream))"
  have "list_all (\<lambda>f. \<not> response_start f) (map snd ps)"
    using assms(2) BFrame by (simp add: ps_def ClassifierGateProcessFrame_def)
  from undecided_run [OF assms(1) llm_no_response_start [OF this, of chat rsp "cb_llm b"]] show ?thesis
    by (simp add: branch_step_def BFrame case_prod_beta ps_def)
next
  case (BHandler e)
  with undecided_step [OF assms(1), of e] assms(1) show ?thesis
    by (cases e) (simp_all add: branch_step_def case_prod_beta)
qed (use assms in \<open>simp_all add: branch_step_def\<close>)

text \<open>Voicemail is never detected: the classification processor waits for the frames that mark the start
  and end of a response, but the language model processor before it makes no such frames. So as long
  as none comes from outside, whatever the model answers and whatever the goroutines do, nobody is ever
  notified (and what the TTS gate holds stays held).\<close>

theorem voicemail_never_decides:
  assumes "list_all (\<lambda>ev. \<forall>f. ev = BFrame f \<longrightarrow> \<not> response_start f) evs"
  shows "notifications (snd (run (branch_step chat rsp) (NewClassifierBranch svc prompt oc ov ids) evs)) = []"
proof -
  have "undecided (cb_class b) \<Longrightarrow> notifications (snd (run (branch_step chat rsp) b evs)) = []" for b
    using assms
  proof (induction evs arbitrary: b)
    case (Cons ev evs)
    with branch_step_undecided [of b ev chat rsp] show ?case by (simp del: run.simps(2))
  qed simp
  then show ?thesis
    by (simp add: undecided_def cl_inv_def NewClassifierBranch_def ClassificationSetup_def
        NewClassificationProcessor_def)
qed

theorem voicemail_never_decides_witness:
  "notifications (snd (run (branch_step (\<lambda>v ms. (([(NewBaseWithID 5, text_of ''VOICEMAIL'')], None), v))
       quiet_replies) (NewClassifierBranch () ''p'' True True 1) [BFrame (said ''leave a message''), BHandler CLoop])) = []"
  by (rule voicemail_never_decides) (simp add: response_start_def said_body)

end
