(* ===== verification/Observers.thy ===== *)
theory Observers
  imports Handler "HOL-Library.Multiset"
begin

text \<open>
  \<^verbatim>\<open>pkg/observers\<close>: what is told of the frames the processors handle. A frame is not nil, the
  clock is an argument, and a callback is an output. Where the code unlocks its mutex to call back, its
  handler is cut in two, so that other goroutines can run in between.
\<close>

section \<open>Observers that act on a frame once\<close>

text \<open>Every processor of the pipeline reports the frames it handles, so an observer is told of a frame
  many times and remembers its id. \<open>key\<close> is the id of the frame an event reports, \<open>seen\<close> what is
  remembered; the memory is good for \<open>cap\<close> ids.\<close>

fun first_reports :: "('e \<Rightarrow> u64 option) \<Rightarrow> u64 set \<Rightarrow> 'e list \<Rightarrow> 'e list" where
  "first_reports key S [] = []"
| "first_reports key S (e # es) =
     (case key e of
        None \<Rightarrow> e # first_reports key S es
      | Some i \<Rightarrow> if i \<in> S then first_reports key S es else e # first_reports key (insert i S) es)"

definition reported :: "('e \<Rightarrow> u64 option) \<Rightarrow> 'e list \<Rightarrow> u64 set" where
  "reported key es = {i. Some i \<in> key ` set es}"

lemma reported_simps [simp]:
  "reported key [] = {}"
  "reported key (e # es) = (case key e of None \<Rightarrow> {} | Some i \<Rightarrow> {i}) \<union> reported key es"
  by (auto simp: reported_def image_iff split: option.splits)

lemma finite_reported [simp]: "finite (reported key es)"
  by (induction es) (auto split: option.splits)

locale reports_once =
  fixes step :: "'s \<Rightarrow> 'e \<Rightarrow> 's \<times> 'o list"
    and key :: "'e \<Rightarrow> u64 option"
    and seen :: "'s \<Rightarrow> u64 set"
    and cap :: nat
    and good :: "'s \<Rightarrow> bool"
  assumes ignores: "good s \<Longrightarrow> key e = Some i \<Longrightarrow> i \<in> seen s \<Longrightarrow> step s e = (s, [])"
    and remembers: "good s \<Longrightarrow> key e = Some i \<Longrightarrow> card (insert i (seen s)) \<le> cap \<Longrightarrow>
      seen (fst (step s e)) = insert i (seen s)"
    and keeps: "good s \<Longrightarrow> key e = None \<Longrightarrow> seen (fst (step s e)) = seen s"
    and stays: "good s \<Longrightarrow> good (fst (step s e))"
    and finite_seen: "good s \<Longrightarrow> finite (seen s)"
begin

lemma run_firsts:
  "good s \<Longrightarrow> card (seen s \<union> reported key es) \<le> cap \<Longrightarrow>
    run step s es = run step s (first_reports key (seen s) es)"
proof (induction es arbitrary: s)
  case (Cons e es)
  show ?case
  proof (cases "key e")
    case None
    with Cons.prems Cons.IH [of "fst (step s e)"] show ?thesis
      by (simp add: keeps stays case_prod_beta)
  next
    case (Some i)
    show ?thesis
    proof (cases "i \<in> seen s")
      case True
      with Some Cons.prems Cons.IH [of s] show ?thesis by (simp add: ignores insert_absorb)
    next
      case False
      have "card (insert i (seen s)) \<le> card (seen s \<union> reported key (e # es))"
        by (rule card_mono) (use Some finite_seen Cons.prems in auto)
      then have "card (insert i (seen s)) \<le> cap" using Cons.prems by linarith
      then have "seen (fst (step s e)) = insert i (seen s)" using Cons.prems Some by (simp add: remembers)
      with Some False Cons.prems Cons.IH [of "fst (step s e)"] show ?thesis
        by (simp add: stays case_prod_beta)
    qed
  qed
qed simp

end

section \<open>Metrics\<close>

record llm_token_usage =
  PromptTokens :: int
  CompletionTokens :: int
  TotalTokens :: int
  CacheReadInputTokens :: int
  CacheCreationInputTokens :: int
  ReasoningTokens :: int

record turn_metrics =
  tm_IsComplete :: bool
  tm_Probability :: rat
  tm_E2EProcessingTimeMs :: rat

record metrics =
  InputLatency :: int
  TTFBDuration :: int
  TokenCount :: int
  CharCount :: int
  FrameCount :: int
  LastProcessed :: "int option"
  LastLLMUsage :: llm_token_usage
  LastTurnMetrics :: turn_metrics

definition NewMetrics :: metrics where
  "NewMetrics = \<lparr>InputLatency = 0, TTFBDuration = 0, TokenCount = 0, CharCount = 0, FrameCount = 0,
     LastProcessed = None,
     LastLLMUsage = \<lparr>PromptTokens = 0, CompletionTokens = 0, TotalTokens = 0,
       CacheReadInputTokens = 0, CacheCreationInputTokens = 0, ReasoningTokens = 0\<rparr>,
     LastTurnMetrics = \<lparr>tm_IsComplete = False, tm_Probability = 0, tm_E2EProcessingTimeMs = 0\<rparr>\<rparr>"

definition RecordLatency :: "metrics \<Rightarrow> int \<Rightarrow> metrics" where
  "RecordLatency m d = m\<lparr>InputLatency := d\<rparr>"

definition RecordTTFB :: "metrics \<Rightarrow> int \<Rightarrow> metrics" where
  "RecordTTFB m d = m\<lparr>TTFBDuration := d\<rparr>"

definition AddTokens :: "metrics \<Rightarrow> int \<Rightarrow> metrics" where
  "AddTokens m n = m\<lparr>TokenCount := TokenCount m + n\<rparr>"

definition AddChars :: "metrics \<Rightarrow> int \<Rightarrow> metrics" where
  "AddChars m n = m\<lparr>CharCount := CharCount m + n\<rparr>"

definition IncFrames :: "metrics \<Rightarrow> int \<Rightarrow> metrics" where
  "IncFrames m now = m\<lparr>FrameCount := FrameCount m + 1, LastProcessed := Some now\<rparr>"

definition RecordLLMUsage :: "metrics \<Rightarrow> llm_token_usage \<Rightarrow> metrics" where
  "RecordLLMUsage m u = m\<lparr>LastLLMUsage := u, TokenCount := TotalTokens u\<rparr>"

definition RecordTurnMetrics :: "metrics \<Rightarrow> turn_metrics \<Rightarrow> metrics" where
  "RecordTurnMetrics m t = m\<lparr>LastTurnMetrics := t\<rparr>"

definition Snapshot :: "metrics \<Rightarrow> int \<times> int \<times> int \<times> int \<times> int option" where
  "Snapshot m = (InputLatency m, TokenCount m, CharCount m, FrameCount m, LastProcessed m)"

section \<open>Turns\<close>

text \<open>Timers have numbers: \<open>to_timer\<close> is the one \<^verbatim>\<open>endTurnTimer\<close> points to, \<open>to_armed\<close> are those that
  may still fire, \<open>to_due\<close> counts the callbacks that have been started and wait for the mutex.
  \<open>to_onStarted\<close> and \<open>to_onEnded\<close> tell whether a callback is registered.\<close>

record turn_observer =
  to_count :: int
  to_active :: bool
  to_bot :: bool
  to_spoken :: bool
  to_startNs :: int
  to_timer :: "nat option"
  to_armed :: "nat list"
  to_due :: nat
  to_next :: nat
  to_onStarted :: bool
  to_onEnded :: bool
  to_ids :: "u64 set"
  to_history :: "u64 list"
  to_maxFrames :: int

datatype turn_call = TurnStarted int | TurnEnded int rat bool | TurnPanic

definition NewTurnTrackingObserver :: "bool \<Rightarrow> bool \<Rightarrow> int \<Rightarrow> turn_observer" where
  "NewTurnTrackingObserver onStarted onEnded maxFrames =
     \<lparr>to_count = 0, to_active = False, to_bot = False, to_spoken = False, to_startNs = 0, to_timer = None,
      to_armed = [], to_due = 0, to_next = 0, to_onStarted = onStarted, to_onEnded = onEnded,
      to_ids = {}, to_history = [], to_maxFrames = maxFrames\<rparr>"

text \<open>The loop that drops the oldest ids; it reads the head of an empty list if the limit is negative.\<close>

fun evict :: "int \<Rightarrow> u64 list \<Rightarrow> u64 set \<Rightarrow> (u64 list \<times> u64 set) option" where
  "evict m [] ids = (if 0 > m then None else Some ([], ids))"
| "evict m (i # h) ids =
     (if int (length (i # h)) > m then evict m h (ids - {i}) else Some (i # h, ids))"

definition addProcessed :: "turn_observer \<Rightarrow> u64 \<Rightarrow> turn_observer option" where
  "addProcessed s i =
     (if i \<in> to_ids s then Some s
      else (case evict (to_maxFrames s) (to_history s @ [i]) (insert i (to_ids s)) of
          None \<Rightarrow> None
        | Some (h, ids) \<Rightarrow> Some (s\<lparr>to_history := h, to_ids := ids\<rparr>)))"

definition cancelTurnEndTimer :: "turn_observer \<Rightarrow> turn_observer" where
  "cancelTurnEndTimer s =
     (case to_timer s of
        None \<Rightarrow> s
      | Some t \<Rightarrow> s\<lparr>to_armed := removeAll t (to_armed s), to_timer := None\<rparr>)"

definition scheduleTurnEnd :: "turn_observer \<Rightarrow> turn_observer" where
  "scheduleTurnEnd s0 =
     (let s = cancelTurnEndTimer s0
      in s\<lparr>to_armed := to_armed s @ [to_next s], to_timer := Some (to_next s), to_next := to_next s + 1\<rparr>)"

text \<open>Up to the point where the mutex is released; the last component tells whether it is.\<close>

definition endTurnLocked :: "turn_observer \<Rightarrow> int \<Rightarrow> bool \<Rightarrow> turn_observer \<times> turn_call list \<times> bool" where
  "endTurnLocked s now interrupted =
     (if \<not> to_active s then (s, [], False)
      else (let secs = (if to_startNs s \<noteq> 0 \<and> now \<noteq> 0 then of_int (now - to_startNs s) / 1000000000 else 0)
            in (s\<lparr>to_active := False\<rparr>,
                if to_onEnded s then [TurnEnded (to_count s) secs interrupted] else [], True)))"

definition startTurnLocked :: "turn_observer \<Rightarrow> int \<Rightarrow> turn_observer \<times> turn_call list" where
  "startTurnLocked s now =
     (let s1 = s\<lparr>to_active := True, to_spoken := False, to_count := to_count s + 1, to_startNs := now\<rparr>
      in (s1, if to_onStarted s1 then [TurnStarted (to_count s1)] else []))"

text \<open>What a goroutine still has to do when it has the mutex again after a callback.\<close>

datatype turn_rest = RestartTurn bool int | TimerDone

fun turn_resume :: "turn_observer \<Rightarrow> turn_rest \<Rightarrow> turn_observer \<times> turn_call list" where
  "turn_resume s (RestartTurn b now) = startTurnLocked (if b then s\<lparr>to_bot := False\<rparr> else s) now"
| "turn_resume s TimerDone = (s\<lparr>to_timer := None\<rparr>, [])"

definition turn_switch ::
  "turn_observer \<Rightarrow> body \<Rightarrow> int \<Rightarrow> turn_observer \<times> turn_call list \<times> turn_rest option" where
  "turn_switch s b now =
     (let start = (\<lambda>s. let (s', cs) = startTurnLocked s now in (s', cs, None)) in
      case b of
        StartFrame _ _ _ _ _ \<Rightarrow> if to_count s = 0 then start s else (s, [], None)
      | UserStartedSpeakingFrame \<Rightarrow>
          if to_bot s
          then (let (s1, cs, unlocked) = endTurnLocked (cancelTurnEndTimer s) now True
                in if unlocked then (s1, cs, Some (RestartTurn True now)) else start (s1\<lparr>to_bot := False\<rparr>))
          else if to_active s \<and> to_spoken s
          then (let (s1, cs, _) = endTurnLocked (cancelTurnEndTimer s) now False
                in (s1, cs, Some (RestartTurn False now)))
          else if \<not> to_active s then start s
          else (s, [], None)
      | BotStartedSpeakingFrame \<Rightarrow> (cancelTurnEndTimer (s\<lparr>to_bot := True, to_spoken := True\<rparr>), [], None)
      | BotStoppedSpeakingFrame \<Rightarrow>
          if to_bot s then (scheduleTurnEnd (s\<lparr>to_bot := False\<rparr>), [], None) else (s, [], None)
      | CancelFrame _ \<Rightarrow>
          if to_active s
          then (let (s1, cs, _) = endTurnLocked (cancelTurnEndTimer s) now True in (s1, cs, None))
          else (s, [], None)
      | _ \<Rightarrow> (s, [], None))"

definition turn_OnFrameProcessed ::
  "turn_observer \<Rightarrow> frame \<Rightarrow> int \<Rightarrow> turn_observer \<times> turn_call list \<times> turn_rest option" where
  "turn_OnFrameProcessed s f now =
     (if frame_id f \<in> to_ids s then (s, [], None)
      else (case addProcessed s (frame_id f) of
          None \<Rightarrow> (s, [TurnPanic], None)
        | Some s1 \<Rightarrow> turn_switch s1 (fbody f) now))"

text \<open>The function the timer runs.\<close>

definition turn_timer :: "turn_observer \<Rightarrow> int \<Rightarrow> turn_observer \<times> turn_call list \<times> turn_rest option" where
  "turn_timer s now =
     (if to_active s \<and> \<not> to_bot s
      then (let (s1, cs, _) = endTurnLocked s now False in (s1, cs, Some TimerDone))
      else (s\<lparr>to_timer := None\<rparr>, [], None))"

datatype turn_event = TurnFrame frame int | TimerFires nat | TimerRuns int

fun turn_begin :: "turn_observer \<Rightarrow> turn_event \<Rightarrow> turn_observer \<times> turn_call list \<times> turn_rest option" where
  "turn_begin s (TurnFrame f now) = turn_OnFrameProcessed s f now"
| "turn_begin s (TimerFires t) =
     (if t \<in> set (to_armed s)
      then (s\<lparr>to_armed := removeAll t (to_armed s), to_due := to_due s + 1\<rparr>, [], None) else (s, [], None))"
| "turn_begin s (TimerRuns now) =
     (if to_due s = 0 then (s, [], None) else turn_timer (s\<lparr>to_due := to_due s - 1\<rparr>) now)"

text \<open>With callbacks that return before anything else happens: a handler runs to its end.\<close>

definition turn_step :: "turn_observer \<Rightarrow> turn_event \<Rightarrow> turn_observer \<times> turn_call list" where
  "turn_step s e =
     (case turn_begin s e of
        (s1, cs, None) \<Rightarrow> (s1, cs)
      | (s1, cs, Some r) \<Rightarrow> (let (s2, cs') = turn_resume s1 r in (s2, cs @ cs')))"

text \<open>With other goroutines in between: a handler that waits for the mutex is resumed later.\<close>

datatype turn_sched = Begin turn_event | Resume nat

fun turn_interleaved ::
  "turn_observer \<times> turn_rest list \<Rightarrow> turn_sched \<Rightarrow> (turn_observer \<times> turn_rest list) \<times> turn_call list" where
  "turn_interleaved (s, rs) (Begin e) =
     (case turn_begin s e of
        (s1, cs, None) \<Rightarrow> ((s1, rs), cs)
      | (s1, cs, Some r) \<Rightarrow> ((s1, rs @ [r]), cs))"
| "turn_interleaved (s, rs) (Resume i) =
     (if i < length rs
      then (let (s1, cs) = turn_resume s (rs ! i) in ((s1, take i rs @ drop (Suc i) rs), cs))
      else ((s, rs), []))"


subsection \<open>Started and ended\<close>

text \<open>The calls the observer owes its client: the turns are numbered, and each one ends before the next
  starts. Arguments: the number of the latest turn and whether it is still on.\<close>

fun turns_alternate :: "int \<Rightarrow> bool \<Rightarrow> turn_call list \<Rightarrow> bool" where
  "turns_alternate n a [] = True"
| "turns_alternate n a (TurnStarted m # cs) = (\<not> a \<and> m = n + 1 \<and> turns_alternate m True cs)"
| "turns_alternate n a (TurnEnded m _ _ # cs) = (a \<and> m = n \<and> turns_alternate n False cs)"
| "turns_alternate n a (TurnPanic # cs) = False"

fun turns_after :: "int \<times> bool \<Rightarrow> turn_call list \<Rightarrow> int \<times> bool" where
  "turns_after na [] = na"
| "turns_after na (TurnStarted m # cs) = turns_after (m, True) cs"
| "turns_after na (TurnEnded m _ _ # cs) = turns_after (m, False) cs"
| "turns_after na (TurnPanic # cs) = turns_after na cs"

lemma turns_append:
  "turns_alternate n a (xs @ ys) \<longleftrightarrow>
     turns_alternate n a xs \<and> (case turns_after (n, a) xs of (m, b) \<Rightarrow> turns_alternate m b ys)"
  "turns_after na (xs @ ys) = turns_after (turns_after na xs) ys"
proof -
  show "turns_alternate n a (xs @ ys) \<longleftrightarrow>
     turns_alternate n a xs \<and> (case turns_after (n, a) xs of (m, b) \<Rightarrow> turns_alternate m b ys)"
    by (induction n a xs rule: turns_alternate.induct) auto
  show "turns_after na (xs @ ys) = turns_after (turns_after na xs) ys"
    by (induction na xs rule: turns_after.induct) auto
qed

lemma evict_nonneg: "0 \<le> m \<Longrightarrow> \<exists>h' ids'. evict m h ids = Some (h', ids')"
  by (induction m h ids rule: evict.induct) (auto split: if_splits)

definition observed :: "turn_observer \<Rightarrow> bool" where
  "observed s \<longleftrightarrow> to_onStarted s \<and> to_onEnded s \<and> 0 \<le> to_maxFrames s \<and> 0 \<le> to_count s \<and>
     (to_count s = 0 \<longrightarrow> \<not> to_active s)"

lemma addProcessed_observed:
  assumes "observed s"
  obtains s' where "addProcessed s i = Some s'" "observed s'" "to_count s' = to_count s"
    "to_active s' = to_active s"
proof -
  obtain h ids where "evict (to_maxFrames s) (to_history s @ [i]) (insert i (to_ids s)) = Some (h, ids)"
    using assms evict_nonneg by (metis observed_def)
  with assms that [of "if i \<in> to_ids s then s else s\<lparr>to_history := h, to_ids := ids\<rparr>"]
  show thesis by (auto simp: addProcessed_def observed_def)
qed

lemma timer_ops_simps [simp]:
  "observed (cancelTurnEndTimer s) = observed s" "to_count (cancelTurnEndTimer s) = to_count s"
  "to_active (cancelTurnEndTimer s) = to_active s"
  "observed (scheduleTurnEnd s) = observed s" "to_count (scheduleTurnEnd s) = to_count s"
  "to_active (scheduleTurnEnd s) = to_active s"
  "to_onStarted (cancelTurnEndTimer s) = to_onStarted s" "to_onEnded (cancelTurnEndTimer s) = to_onEnded s"
  "to_maxFrames (cancelTurnEndTimer s) = to_maxFrames s"
  by (auto simp: cancelTurnEndTimer_def scheduleTurnEnd_def observed_def Let_def split: option.splits)

text \<open>A handler that runs to its end keeps the account.\<close>

definition accounts :: "turn_observer \<Rightarrow> turn_observer \<times> turn_call list \<Rightarrow> bool" where
  "accounts s r \<longleftrightarrow> (case r of (s', cs) \<Rightarrow>
     observed s' \<and> turns_alternate (to_count s) (to_active s) cs \<and>
     turns_after (to_count s, to_active s) cs = (to_count s', to_active s'))"

definition run_section :: "turn_observer \<times> turn_call list \<times> turn_rest option \<Rightarrow> turn_observer \<times> turn_call list" where
  "run_section r = (case r of (s1, cs, None) \<Rightarrow> (s1, cs)
      | (s1, cs, Some r) \<Rightarrow> (let (s2, cs') = turn_resume s1 r in (s2, cs @ cs')))"

lemma turn_step_section: "turn_step s e = run_section (turn_begin s e)"
  by (simp add: turn_step_def run_section_def)

lemmas turn_sections = run_section_def turn_switch_def endTurnLocked_def startTurnLocked_def turn_timer_def
  accounts_def

lemma turn_switch_accounts: "observed s \<Longrightarrow> accounts s (run_section (turn_switch s b now))"
  by (cases b) (simp_all add: turn_sections Let_def, auto simp: observed_def)

lemma turn_timer_accounts: "observed s \<Longrightarrow> accounts s (run_section (turn_timer s now))"
  by (auto simp: turn_sections Let_def observed_def)

lemma turn_step_accounts:
  assumes "observed s"
  shows "accounts s (turn_step s e)"
proof (cases e)
  case (TurnFrame f now)
  obtain s' where s': "addProcessed s (frame_id f) = Some s'" "observed s'" "to_count s' = to_count s"
    "to_active s' = to_active s" by (rule addProcessed_observed [OF assms])
  from turn_switch_accounts [OF s'(2), of "fbody f" now]
  have "accounts s (run_section (turn_switch s' (fbody f) now))" by (simp add: accounts_def s'(3,4))
  with assms s'(1) TurnFrame show ?thesis
    by (simp add: turn_step_section turn_OnFrameProcessed_def) (simp add: accounts_def run_section_def)
next
  case (TimerFires t)
  with assms show ?thesis by (simp add: turn_step_section run_section_def accounts_def observed_def)
next
  case (TimerRuns now)
  have "observed (s\<lparr>to_due := to_due s - 1\<rparr>)" using assms by (simp add: observed_def)
  from turn_timer_accounts [OF this, of now] assms TimerRuns show ?thesis
    by (simp add: turn_step_section accounts_def) (simp add: run_section_def)
qed

interpretation turn_run: machine turn_step observed
proof
  show "observed (fst (turn_step s e))" if "observed s" for s e
    using turn_step_accounts [OF that, of e] by (auto simp: accounts_def split: prod.splits)
qed

lemma turn_run_alternates:
  "observed s \<Longrightarrow> turns_alternate (to_count s) (to_active s) (snd (run turn_step s es))"
proof (induction es arbitrary: s)
  case (Cons e es)
  have "accounts s (turn_step s e)" using Cons.prems by (rule turn_step_accounts)
  then have "turns_alternate (to_count s) (to_active s) (snd (turn_step s e))"
    and after: "turns_after (to_count s, to_active s) (snd (turn_step s e)) =
      (to_count (fst (turn_step s e)), to_active (fst (turn_step s e)))"
    by (auto simp: accounts_def split: prod.splits)
  moreover have "turns_alternate (to_count (fst (turn_step s e))) (to_active (fst (turn_step s e)))
      (snd (run turn_step (fst (turn_step s e)) es))"
    using Cons turn_run.step_inv by blast
  ultimately show ?case by (simp add: turns_append del: run.simps(2))
qed simp

text \<open>Turns are numbered and bracketed: whatever frames are reported, however often and in whatever
  order, and whenever timers expire, the callbacks announce turn 1, its end, turn 2, its end and so on,
  provided a callback returns before another report is handled.\<close>

theorem turn_observer_brackets:
  assumes "0 \<le> n"
  shows "turns_alternate 0 False (snd (run turn_step (NewTurnTrackingObserver True True n) es))"
  using turn_run_alternates [of "NewTurnTrackingObserver True True n" es] assms
  by (simp add: NewTurnTrackingObserver_def observed_def)

definition plain_frame :: "u64 \<Rightarrow> body \<Rightarrow> frame" where
  "plain_frame i b = Frame \<lparr>fid = i, pts = None, metadata = Map.empty\<rparr> b"

theorem turn_observer_brackets_witness:
  "turns_alternate 0 False (snd (run turn_step (NewTurnTrackingObserver True True 100)
     [TurnFrame (plain_frame 1 UserStartedSpeakingFrame) 5, TimerRuns 7]))"
  by (rule turn_observer_brackets) simp


text \<open>Goroutines report, and a callback runs without the mutex. While the end of turn 1 is announced, a
  second report starts turn 2, and the first goroutine then starts turn 3; and a timer that has fired
  but waits for the mutex ends the turn that the user has just started, since it checks only that some
  turn is on.\<close>

definition user_starts :: "u64 \<Rightarrow> int \<Rightarrow> turn_event" where
  "user_starts i now = TurnFrame (plain_frame i UserStartedSpeakingFrame) now"

definition bot_starts :: "u64 \<Rightarrow> int \<Rightarrow> turn_event" where
  "bot_starts i now = TurnFrame (plain_frame i BotStartedSpeakingFrame) now"

definition bot_stops :: "u64 \<Rightarrow> int \<Rightarrow> turn_event" where
  "bot_stops i now = TurnFrame (plain_frame i BotStoppedSpeakingFrame) now"

text \<open>Reports from several goroutines break both promises of the turn observer, which calls itself
  safe for concurrent use: a turn can start while another is on, and a late timer ends a turn in the
  moment it starts, without the bot having spoken in it.\<close>

theorem turn_observer_races:
  "snd (run turn_interleaved (NewTurnTrackingObserver True True 100, [])
      [Begin (user_starts 1 10), Begin (bot_starts 2 20), Begin (user_starts 3 30),
       Begin (user_starts 4 40), Resume 0])
     = [TurnStarted 1, TurnEnded 1 (20 / 1000000000) True, TurnStarted 2, TurnStarted 3] \<and>
   snd (run turn_step (NewTurnTrackingObserver True True 100)
      [user_starts 1 10, bot_starts 2 20, bot_stops 3 30, TimerFires 0, user_starts 4 40, TimerRuns 41])
     = [TurnStarted 1, TurnEnded 1 (30 / 1000000000) False, TurnStarted 2,
        TurnEnded 2 (1 / 1000000000) False]"
  by (simp add: user_starts_def bot_starts_def bot_stops_def plain_frame_def NewTurnTrackingObserver_def
      turn_step_def turn_OnFrameProcessed_def addProcessed_def turn_switch_def turn_timer_def
      endTurnLocked_def startTurnLocked_def cancelTurnEndTimer_def scheduleTurnEnd_def Let_def)

subsection \<open>Frames count once\<close>

definition turn_key :: "turn_event \<Rightarrow> u64 option" where
  "turn_key e = (case e of TurnFrame f _ \<Rightarrow> Some (frame_id f) | _ \<Rightarrow> None)"

definition memory :: "turn_observer \<Rightarrow> u64 set \<times> u64 list \<times> int" where
  "memory s = (to_ids s, to_history s, to_maxFrames s)"

definition turn_memory_ok :: "nat \<Rightarrow> turn_observer \<Rightarrow> bool" where
  "turn_memory_ok n s \<longleftrightarrow> to_maxFrames s = int n \<and> to_ids s = set (to_history s) \<and>
     distinct (to_history s) \<and> length (to_history s) \<le> n"

lemma memory_ok_cong: "memory s = memory s' \<Longrightarrow> turn_memory_ok n s = turn_memory_ok n s'"
  by (simp add: memory_def turn_memory_ok_def)

lemma memory_timers [simp]:
  "memory (cancelTurnEndTimer s) = memory s" "memory (scheduleTurnEnd s) = memory s"
  by (simp_all add: memory_def cancelTurnEndTimer_def scheduleTurnEnd_def Let_def split: option.splits)

lemma memory_update [simp]:
  "memory (s\<lparr>to_active := a\<rparr>) = memory s" "memory (s\<lparr>to_bot := a\<rparr>) = memory s"
  "memory (s\<lparr>to_timer := t\<rparr>) = memory s" "memory (s\<lparr>to_due := d\<rparr>) = memory s"
  "memory (s\<lparr>to_armed := l\<rparr>) = memory s" "memory (s\<lparr>to_armed := l, to_due := d\<rparr>) = memory s"
  "memory (s\<lparr>to_bot := a, to_spoken := c\<rparr>) = memory s"
  "memory (s\<lparr>to_active := a, to_spoken := c, to_count := k, to_startNs := v\<rparr>) = memory s"
  by (simp_all add: memory_def)

lemma memory_switch: "memory (fst (run_section (turn_switch s b now))) = memory s"
  by (cases b) (simp_all add: turn_sections Let_def)

lemma memory_timer: "memory (fst (run_section (turn_timer s now))) = memory s"
  by (simp add: turn_sections Let_def)

lemma evict_keeps: "int (length h) \<le> m \<Longrightarrow> evict m h ids = Some (h, ids)"
  by (cases h) auto

lemma evict_tail: "int (length h) = m \<Longrightarrow> distinct (h @ [i]) \<Longrightarrow>
  evict m (h @ [i]) (insert i (set h)) = Some (tl (h @ [i]), set (tl (h @ [i])))"
  by (cases h) (auto simp: evict_keeps)

lemma addProcessed_memory:
  assumes "turn_memory_ok n s" "i \<notin> to_ids s"
  obtains s' where "addProcessed s i = Some s'" "turn_memory_ok n s'"
    "length (to_history s) < n \<Longrightarrow> to_ids s' = insert i (to_ids s)"
proof (cases "length (to_history s) < n")
  case True
  with assms that [of "s\<lparr>to_history := to_history s @ [i], to_ids := insert i (to_ids s)\<rparr>"] show thesis
    by (simp add: addProcessed_def turn_memory_ok_def evict_keeps)
next
  case False
  with assms have "evict (to_maxFrames s) (to_history s @ [i]) (insert i (to_ids s)) =
      Some (tl (to_history s @ [i]), set (tl (to_history s @ [i])))"
    by (simp add: turn_memory_ok_def evict_tail)
  with assms False
    that [of "s\<lparr>to_history := tl (to_history s @ [i]), to_ids := set (tl (to_history s @ [i]))\<rparr>"]
  show thesis by (simp add: addProcessed_def turn_memory_ok_def distinct_tl)
qed

lemma turn_step_new:
  assumes "turn_memory_ok n s" "frame_id f \<notin> to_ids s"
  shows "turn_memory_ok n (fst (turn_step s (TurnFrame f now)))"
    "length (to_history s) < n \<Longrightarrow>
      to_ids (fst (turn_step s (TurnFrame f now))) = insert (frame_id f) (to_ids s)"
proof -
  obtain s' where s': "addProcessed s (frame_id f) = Some s'" "turn_memory_ok n s'"
    "length (to_history s) < n \<Longrightarrow> to_ids s' = insert (frame_id f) (to_ids s)"
    using addProcessed_memory [OF assms] by blast
  then have m: "memory (fst (turn_step s (TurnFrame f now))) = memory s'"
    using assms by (simp add: turn_step_section turn_OnFrameProcessed_def memory_switch)
  from memory_ok_cong [OF m] s'(2) show "turn_memory_ok n (fst (turn_step s (TurnFrame f now)))" by simp
  from m s'(3) show "length (to_history s) < n \<Longrightarrow>
      to_ids (fst (turn_step s (TurnFrame f now))) = insert (frame_id f) (to_ids s)"
    by (simp add: memory_def)
qed

lemma turn_step_seen:
  "frame_id f \<in> to_ids s \<Longrightarrow> turn_step s (TurnFrame f now) = (s, [])"
  by (simp add: turn_step_def turn_OnFrameProcessed_def)

lemma turn_step_timer: "turn_key e = None \<Longrightarrow> memory (fst (turn_step s e)) = memory s"
  by (cases e) (simp_all add: turn_key_def turn_step_section memory_timer,
      simp_all add: run_section_def)

interpretation turn_once: reports_once turn_step turn_key to_ids n "turn_memory_ok n"
proof
  fix s e i
  show "turn_step s e = (s, [])" if "turn_memory_ok n s" "turn_key e = Some i" "i \<in> to_ids s"
    using that turn_step_seen by (cases e) (auto simp: turn_key_def)
  show "to_ids (fst (turn_step s e)) = insert i (to_ids s)"
    if ok: "turn_memory_ok n s" and e: "turn_key e = Some i" and c: "card (insert i (to_ids s)) \<le> n"
  proof -
    obtain f now where f: "e = TurnFrame f now" "i = frame_id f" using e by (cases e) (auto simp: turn_key_def)
    show ?thesis
    proof (cases "i \<in> to_ids s")
      case True
      with f show ?thesis by (simp add: turn_step_seen insert_absorb)
    next
      case False
      with ok c have "length (to_history s) < n"
        by (simp add: turn_memory_ok_def distinct_card)
      with False f ok show ?thesis by (simp add: turn_step_new(2))
    qed
  qed
  show "to_ids (fst (turn_step s e)) = to_ids s" if "turn_memory_ok n s" "turn_key e = None"
    using turn_step_timer [OF that(2), of s] by (simp add: memory_def)
  show "turn_memory_ok n (fst (turn_step s e))" if ok: "turn_memory_ok n s"
  proof (cases e)
    case (TurnFrame f now)
    with ok show ?thesis
      by (cases "frame_id f \<in> to_ids s") (simp_all add: turn_step_seen turn_step_new(1))
  next
    case (TimerFires t)
    with ok memory_ok_cong [OF turn_step_timer [of e s]] show ?thesis by (simp add: turn_key_def)
  next
    case (TimerRuns now)
    with ok memory_ok_cong [OF turn_step_timer [of e s]] show ?thesis by (simp add: turn_key_def)
  qed
  show "finite (to_ids s)" if "turn_memory_ok n s" using that by (simp add: turn_memory_ok_def)
qed

text \<open>A frame counts once: every processor on a frame's way reports it, yet as long as no more frames
  are reported than the observer remembers, it calls back exactly as if each had been reported only the
  first time. The memory never exceeds its bound.\<close>

theorem turn_observer_reports_once:
  assumes "card (reported turn_key es) \<le> n"
  shows "let s0 = NewTurnTrackingObserver onStarted onEnded (int n)
    in run turn_step s0 es = run turn_step s0 (first_reports turn_key {} es) \<and>
       length (to_history (fst (run turn_step s0 es))) \<le> n"
proof -
  let ?s = "NewTurnTrackingObserver onStarted onEnded (int n)"
  have ok: "turn_memory_ok n ?s" "to_ids ?s = {}"
    by (simp_all add: turn_memory_ok_def NewTurnTrackingObserver_def)
  have "turn_memory_ok n s \<Longrightarrow> turn_memory_ok n (fst (run turn_step s es))" for s
    by (rule machine.run_inv [of turn_step "turn_memory_ok n"]) (unfold_locales, rule turn_once.stays)
  from this [OF ok(1)] have "length (to_history (fst (run turn_step ?s es))) \<le> n"
    by (simp only: turn_memory_ok_def)
  with turn_once.run_firsts [of n ?s es] ok assms show ?thesis by (simp only: Let_def) simp
qed

theorem turn_observer_reports_once_witness:
  "let s0 = NewTurnTrackingObserver True True (int 1)
    in run turn_step s0 [user_starts 1 10, user_starts 1 10] =
         run turn_step s0 (first_reports turn_key {} [user_starts 1 10, user_starts 1 10]) \<and>
       length (to_history (fst (run turn_step s0 [user_starts 1 10, user_starts 1 10]))) \<le> 1"
  by (rule turn_observer_reports_once) (simp add: turn_key_def user_starts_def plain_frame_def)


section \<open>Latency\<close>

record latency_observer =
  lo_stopped :: "int option"
  lo_ids :: "u64 set"
  lo_onLatency :: bool

definition NewUserBotLatencyObserver :: "bool \<Rightarrow> latency_observer" where
  "NewUserBotLatencyObserver onLatency = \<lparr>lo_stopped = None, lo_ids = {}, lo_onLatency = onLatency\<rparr>"

type_synonym report = "frame \<times> direction \<times> int"

text \<open>The set is emptied when it holds more than 500 ids, the one just put in included.\<close>

definition latency_remember :: "latency_observer \<Rightarrow> u64 \<Rightarrow> latency_observer" where
  "latency_remember s i =
     (let ids = insert i (lo_ids s) in s\<lparr>lo_ids := if card ids > 500 then {} else ids\<rparr>)"

definition latency_switch :: "latency_observer \<Rightarrow> body \<Rightarrow> int \<Rightarrow> latency_observer \<times> rat list" where
  "latency_switch s b now =
     (case b of
        UserStoppedSpeakingFrame \<Rightarrow> (s\<lparr>lo_stopped := Some now\<rparr>, [])
      | UserStartedSpeakingFrame \<Rightarrow> (s\<lparr>lo_stopped := None\<rparr>, [])
      | BotStartedSpeakingFrame \<Rightarrow>
          (case lo_stopped s of
             None \<Rightarrow> (s, [])
           | Some t \<Rightarrow> (s\<lparr>lo_stopped := None\<rparr>,
               if lo_onLatency s then [of_int (now - t) / 1000000000] else []))
      | _ \<Rightarrow> (s, []))"

fun latency_step :: "latency_observer \<Rightarrow> report \<Rightarrow> latency_observer \<times> rat list" where
  "latency_step s (f, d, now) =
     (if d \<noteq> Downstream \<or> frame_id f \<in> lo_ids s then (s, [])
      else latency_switch (latency_remember s (frame_id f)) (fbody f) now)"

definition report_key :: "report \<Rightarrow> u64 option" where
  "report_key r = (case r of (f, d, _) \<Rightarrow> if d = Downstream then Some (frame_id f) else None)"

lemma latency_ids:
  "lo_ids (fst (latency_step s (f, d, now))) =
     (if d \<noteq> Downstream \<or> frame_id f \<in> lo_ids s then lo_ids s
      else if card (insert (frame_id f) (lo_ids s)) > 500 then {} else insert (frame_id f) (lo_ids s))"
proof -
  have "lo_ids (fst (latency_switch s b now)) = lo_ids s" for s b
    by (cases b) (simp_all add: latency_switch_def split: option.splits)
  then show ?thesis by (simp add: latency_remember_def Let_def)
qed

interpretation latency_once: reports_once latency_step report_key lo_ids 500 "\<lambda>s. finite (lo_ids s)"
proof
  fix s :: latency_observer and e :: report and i
  obtain f d now where e: "e = (f, d, now)" by (rule prod_cases3)
  show "latency_step s e = (s, [])" if "report_key e = Some i" "i \<in> lo_ids s"
    using that by (simp add: e report_key_def split: if_splits)
  show "lo_ids (fst (latency_step s e)) = insert i (lo_ids s)"
    if "report_key e = Some i" "card (insert i (lo_ids s)) \<le> 500"
    using that
    by (auto simp: e report_key_def latency_ids card_insert_if simp del: latency_step.simps split: if_splits)
  show "lo_ids (fst (latency_step s e)) = lo_ids s" if "report_key e = None"
    using that by (simp add: e report_key_def split: if_splits)
  show "finite (lo_ids (fst (latency_step s e)))" if "finite (lo_ids s)"
    using that by (simp add: e latency_ids del: latency_step.simps)
qed simp

text \<open>Frames that say nothing about speech fill the memory.\<close>

definition filler :: "nat \<Rightarrow> report" where
  "filler k = (plain_frame (word_of_nat k) UserSpeakingFrame, Downstream, 0)"

lemma filler_step:
  "latency_step s (filler k) = (s\<lparr>lo_ids := if word_of_nat k \<in> lo_ids s then lo_ids s
     else if card (insert (word_of_nat k) (lo_ids s)) > 500 then {} else insert (word_of_nat k) (lo_ids s)\<rparr>, [])"
  by (simp add: filler_def plain_frame_def latency_remember_def latency_switch_def Let_def)

lemma small_words:
  assumes "n \<le> 500"
  shows "card ((word_of_nat :: nat \<Rightarrow> u64) ` {..<n}) = n"
    "m \<le> 600 \<Longrightarrow> n \<le> m \<Longrightarrow> (word_of_nat m :: u64) \<notin> word_of_nat ` {..<n}"
proof -
  have unat: "unat (word_of_nat i :: u64) = i" if "i \<le> 600" for i
  proof (rule of_nat_inverse [OF refl])
    from that have "i < 18446744073709551616" by linarith
    then show "i < 2 ^ LENGTH(64)" by simp
  qed
  have eq: "i = j" if "(word_of_nat i :: u64) = word_of_nat j" "i \<le> 600" "j \<le> 600" for i j
    by (rule trans [OF trans [OF sym [OF unat [OF that(2)]] arg_cong [OF that(1), of unat]] unat [OF that(3)]])
  show "card ((word_of_nat :: nat \<Rightarrow> u64) ` {..<n}) = n"
    using assms by (subst card_image) (auto intro!: inj_onI eq)
  show "(word_of_nat m :: u64) \<notin> word_of_nat ` {..<n}" if "m \<le> 600" "n \<le> m"
    using that assms eq [of m] by fastforce
qed

lemma fillers_run:
  "n \<le> 500 \<Longrightarrow> run latency_step (NewUserBotLatencyObserver True) (map filler [0..<n]) =
     ((NewUserBotLatencyObserver True)\<lparr>lo_ids := word_of_nat ` {..<n}\<rparr>, [])"
proof (induction n)
  case 0
  then show ?case by (simp add: NewUserBotLatencyObserver_def)
next
  case (Suc n)
  then have "card (insert (word_of_nat n :: u64) (word_of_nat ` {..<n})) = Suc n"
    using small_words(1) [of "Suc n"] by (simp add: lessThan_Suc)
  with Suc small_words(2) [of n n] show ?case
    by (simp add: run_append filler_step lessThan_Suc)
qed


definition speech_report :: "nat \<Rightarrow> body \<Rightarrow> int \<Rightarrow> report" where
  "speech_report k b now = (plain_frame (word_of_nat k) b, Downstream, now)"

lemma speech_step:
  "latency_step s (speech_report k b now) =
     (if word_of_nat k \<in> lo_ids s then (s, []) else latency_switch (latency_remember s (word_of_nat k)) b now)"
  by (simp add: speech_report_def plain_frame_def)

text \<open>The latency observer forgets at the wrong moment: emptying the full set also drops the id just
  put in. When the user's stop frame is the 501st, its report by the next processor counts as a second
  stop, and a latency is measured for which the user never stopped speaking; without the repeated report
  there is one measurement.\<close>

theorem latency_observer_phantom:
  "let pre = map filler [0..<500];
       stop = speech_report 500 UserStoppedSpeakingFrame;
       bot1 = speech_report 501 BotStartedSpeakingFrame 20;
       bot2 = speech_report 502 BotStartedSpeakingFrame 90
   in snd (run latency_step (NewUserBotLatencyObserver True) (pre @ [stop 10, bot1, stop 21, bot2]))
        = [10 / 1000000000, 69 / 1000000000] \<and>
      snd (run latency_step (NewUserBotLatencyObserver True) (pre @ [stop 10, bot1, bot2]))
        = [10 / 1000000000]"
proof -
  let ?s = "(NewUserBotLatencyObserver True)\<lparr>lo_ids := word_of_nat ` {..<500}\<rparr>"
  have new: "(word_of_nat 500 :: u64) \<notin> word_of_nat ` {..<500}" by (rule small_words(2)) simp_all
  have "card (insert (word_of_nat 500 :: u64) (word_of_nat ` {..<500})) = 501"
    using new small_words(1) [of 500] by (subst card_insert_disjoint) simp_all
  with new have "latency_step ?s (speech_report 500 UserStoppedSpeakingFrame 10) =
      (\<lparr>lo_stopped = Some 10, lo_ids = {}, lo_onLatency = True\<rparr>, [])"
    unfolding speech_step by (simp add: latency_switch_def latency_remember_def NewUserBotLatencyObserver_def)
  then show ?thesis
    unfolding Let_def run_append fillers_run [of 500, simplified]
    by (simp add: speech_step latency_switch_def latency_remember_def)
qed

section \<open>Transcripts\<close>

record transcript_observer =
  tr_session :: string
  tr_seq :: int
  tr_botBuf :: string

record saved_message =
  sm_session :: string
  sm_role :: string
  sm_text :: string
  sm_at :: int
  sm_seq :: int

definition NewTranscriptObserver :: "bool \<Rightarrow> string \<Rightarrow> transcript_observer option" where
  "NewTranscriptObserver has_store session =
     (if \<not> has_store \<or> session = [] then None
      else Some \<lparr>tr_session = session, tr_seq = 0, tr_botBuf = []\<rparr>)"

definition save_message ::
  "transcript_observer \<Rightarrow> string \<Rightarrow> string \<Rightarrow> int \<Rightarrow> transcript_observer \<times> saved_message list" where
  "save_message s role t now =
     (s\<lparr>tr_seq := tr_seq s + 1\<rparr>,
      [\<lparr>sm_session = tr_session s, sm_role = role, sm_text = t, sm_at = now, sm_seq = tr_seq s + 1\<rparr>])"

definition flushAssistantLocked :: "transcript_observer \<Rightarrow> int \<Rightarrow> transcript_observer \<times> saved_message list" where
  "flushAssistantLocked s now =
     (if tr_botBuf s = [] then (s, [])
      else save_message (s\<lparr>tr_botBuf := []\<rparr>) ''assistant'' (tr_botBuf s) now)"

fun transcript_step :: "transcript_observer \<Rightarrow> report \<Rightarrow> transcript_observer \<times> saved_message list" where
  "transcript_step s (f, d, now) =
     (if d \<noteq> Downstream then (s, [])
      else (case fbody f of
          TranscriptionFrame t _ _ _ final \<Rightarrow>
            if \<not> final \<or> tdata t = [] then (s, []) else save_message s ''user'' (tdata t) now
        | LLMTextFrame t \<Rightarrow>
            if tdata t = [] then (s, []) else (s\<lparr>tr_botBuf := tr_botBuf s @ tdata t\<rparr>, [])
        | TTSSpeakFrame _ \<Rightarrow> flushAssistantLocked s now
        | EndFrame \<Rightarrow> flushAssistantLocked s now
        | CancelFrame _ \<Rightarrow> flushAssistantLocked s now
        | _ \<Rightarrow> (s, [])))"

text \<open>What was said, by the messages and by the frames.\<close>

definition said :: "string \<Rightarrow> saved_message list \<Rightarrow> string list" where
  "said role ms = map sm_text (filter (\<lambda>m. sm_role m = role) ms)"

definition user_said :: "report \<Rightarrow> string list" where
  "user_said r = (case r of (f, d, _) \<Rightarrow>
     (case fbody f of TranscriptionFrame t _ _ _ final \<Rightarrow>
        if d = Downstream \<and> final \<and> tdata t \<noteq> [] then [tdata t] else [] | _ \<Rightarrow> []))"

definition bot_said :: "report \<Rightarrow> string" where
  "bot_said r = (case r of (f, d, _) \<Rightarrow>
     (case fbody f of LLMTextFrame t \<Rightarrow> if d = Downstream then tdata t else [] | _ \<Rightarrow> []))"

lemma said_append [simp]: "said r (xs @ ys) = said r xs @ said r ys" "said r [] = []"
  by (simp_all add: said_def)

lemmas transcript_defs = save_message_def flushAssistantLocked_def said_def user_said_def bot_said_def

lemma transcript_step_facts:
  "said ''user'' (snd (transcript_step s r)) = user_said r"
  "concat (said ''assistant'' (snd (transcript_step s r))) @ tr_botBuf (fst (transcript_step s r)) =
     tr_botBuf s @ bot_said r"
  "map sm_seq (snd (transcript_step s r)) = map (\<lambda>k. tr_seq s + int k + 1) [0..<length (snd (transcript_step s r))]"
  "tr_seq (fst (transcript_step s r)) = tr_seq s + int (length (snd (transcript_step s r)))"
proof -
  obtain f d now where r: "r = (f, d, now)" by (rule prod_cases3)
  show "said ''user'' (snd (transcript_step s r)) = user_said r"
    by (cases "fbody f") (simp_all add: r transcript_defs)
  show "concat (said ''assistant'' (snd (transcript_step s r))) @ tr_botBuf (fst (transcript_step s r)) =
     tr_botBuf s @ bot_said r"
    by (cases "fbody f") (simp_all add: r transcript_defs)
  show "map sm_seq (snd (transcript_step s r)) =
     map (\<lambda>k. tr_seq s + int k + 1) [0..<length (snd (transcript_step s r))]"
    by (cases "fbody f") (simp_all add: r transcript_defs)
  show "tr_seq (fst (transcript_step s r)) = tr_seq s + int (length (snd (transcript_step s r)))"
    by (cases "fbody f") (simp_all add: r transcript_defs)
qed

interpretation transcript_run: machine transcript_step "\<lambda>_. True"
  by unfold_locales

lemma transcript_seqs:
  "map sm_seq (snd (run transcript_step s rs)) =
     map (\<lambda>k. tr_seq s + int k + 1) [0..<length (snd (run transcript_step s rs))]"
proof (induction rs arbitrary: s)
  case (Cons r rs)
  let ?s = "fst (transcript_step s r)" and ?n = "length (snd (transcript_step s r))"
  let ?m = "length (snd (run transcript_step ?s rs))"
  have "map sm_seq (snd (run transcript_step ?s rs)) =
      map (\<lambda>k. tr_seq s + int k + 1) [?n..<?n + ?m]"
    unfolding Cons.IH transcript_step_facts(4) add.commute [of ?n ?m] map_add_upt [of ?n ?m, symmetric]
    by (simp add: ac_simps comp_def del: transcript_step.simps)
  with transcript_step_facts(3) [of s r] show ?case
    by (simp add: upt_add_eq_append [of 0 ?n ?m, simplified] del: transcript_step.simps run.simps(2))
qed simp

lemma transcript_user: "said ''user'' (snd (run transcript_step s rs)) = concat (map user_said rs)"
  by (induction rs arbitrary: s)
    (simp_all add: transcript_step_facts(1) del: transcript_step.simps run.simps(2))

lemma transcript_bot:
  "concat (said ''assistant'' (snd (run transcript_step s rs))) @ tr_botBuf (fst (run transcript_step s rs)) =
     tr_botBuf s @ concat (map bot_said rs)"
  by (rule transcript_run.run_conserves [where out = "\<lambda>ms. concat (said ''assistant'' ms)"])
    (simp_all add: transcript_step_facts(2) del: transcript_step.simps)

text \<open>The transcript is the conversation, if the frames are reported in order and once: the user's
  messages are the final transcriptions, one by one; the assistant's messages, followed by what is still
  in the buffer, spell the streamed text; and messages are numbered from 1 without gaps.\<close>

theorem transcript_is_conversation:
  assumes "NewTranscriptObserver True session = Some s" "run transcript_step s rs = (s', ms)"
  shows "said ''user'' ms = concat (map user_said rs) \<and>
    concat (said ''assistant'' ms) @ tr_botBuf s' = concat (map bot_said rs) \<and>
    map sm_seq ms = map (\<lambda>k. int k + 1) [0..<length ms]"
  using transcript_user [of s rs] transcript_bot [of s rs] transcript_seqs [of s rs] assms
  by (auto simp: NewTranscriptObserver_def split: if_splits)


theorem transcript_is_conversation_witness:
  "said ''user'' [] = concat (map user_said [filler 0]) \<and>
    concat (said ''assistant'' []) @ [] = concat (map bot_said [filler 0]) \<and>
    map sm_seq [] = map (\<lambda>k. int k + 1) [0..<length ([] :: saved_message list)]"
proof -
  let ?s = "\<lparr>tr_session = ''s'', tr_seq = 0, tr_botBuf = []\<rparr>"
  have "NewTranscriptObserver True ''s'' = Some ?s" by (simp add: NewTranscriptObserver_def)
  moreover have "run transcript_step ?s [filler 0] = (?s, [])" by (simp add: filler_def plain_frame_def)
  ultimately show ?thesis using transcript_is_conversation [of "''s''" ?s "[filler 0]" ?s "[]"] by simp
qed

section \<open>Reporting\<close>

text \<open>\<^verbatim>\<open>ObservingProcessor\<close>: the wrapped processor handles the frame, then a goroutine is started that
  makes the report. \<open>ob_waiting\<close> are the goroutines that have not run; any of them may run next.\<close>

record ('p, 'e) observing =
  ob_inner :: 'p
  ob_waiting :: "'e list"

definition WrapWithObserver :: "'p \<Rightarrow> bool \<Rightarrow> 'p + ('p, 'e) observing" where
  "WrapWithObserver p has_observer =
     (if has_observer then Inr \<lparr>ob_inner = p, ob_waiting = []\<rparr> else Inl p)"

definition ObservingProcessFrame ::
  "('p \<Rightarrow> frame \<Rightarrow> direction \<Rightarrow> 'p \<times> push list \<times> err option) \<Rightarrow> ('p, frame \<times> direction) observing
     \<Rightarrow> frame \<Rightarrow> direction \<Rightarrow> ('p, frame \<times> direction) observing \<times> push list \<times> err option" where
  "ObservingProcessFrame h s f d =
     (let (p, ps, e) = h (ob_inner s) f d
      in (s\<lparr>ob_inner := p, ob_waiting := ob_waiting s @ [(f, d)]\<rparr>, ps, e))"

datatype 'e report_sched = Handled 'e | Reports nat

fun reporting :: "'e list \<Rightarrow> 'e report_sched \<Rightarrow> 'e list \<times> 'e list" where
  "reporting w (Handled e) = (w @ [e], [])"
| "reporting w (Reports i) = (if i < length w then (take i w @ drop (Suc i) w, [w ! i]) else (w, []))"

definition handled :: "'e report_sched list \<Rightarrow> 'e list" where
  "handled es = concat (map (\<lambda>x. case x of Handled e \<Rightarrow> [e] | Reports _ \<Rightarrow> []) es)"

lemma handled_simps [simp]:
  "handled [] = []" "handled (Handled e # es) = e # handled es" "handled (Reports i # es) = handled es"
  "handled (xs @ ys) = handled xs @ handled ys" "handled (map Handled as) = as"
  by (simp_all add: handled_def comp_def)

lemma reporting_each_once:
  "mset (snd (run reporting w es)) + mset (fst (run reporting w es)) = mset w + mset (handled es)"
proof (induction es arbitrary: w)
  case (Cons e es)
  have split: "mset (take i w) + mset (drop (Suc i) w) + {#w ! i#} = mset w" if "i < length w" for i
    using arg_cong [OF id_take_nth_drop [OF that], of mset] by simp
  show ?case
  proof (cases e)
    case (Reports i)
    with Cons [of "take i w @ drop (Suc i) w"] Cons [of w] split [of i] show ?thesis
      by (simp del: run.simps(2) add: ac_simps)
  qed (use Cons [of "w @ [_]"] in \<open>simp del: run.simps(2)\<close>)
qed simp

lemma reporting_handles: "run reporting w (map Handled es) = (w @ es, [])"
  by (induction es arbitrary: w) simp_all

lemma reporting_any_order:
  "mset q = mset w \<Longrightarrow> \<exists>is. run reporting w (map Reports is) = ([], q)"
proof (induction q arbitrary: w)
  case Nil
  then show ?case by (intro exI [of _ "[]"]) simp
next
  case (Cons x q)
  then have "x \<in> set w" by (metis list.set_intros(1) set_mset_mset)
  then obtain i where i: "i < length w" "w ! i = x" by (auto simp: in_set_conv_nth)
  have "mset w = mset (take i w @ drop (Suc i) w) + {#x#}"
    using arg_cong [OF id_take_nth_drop [OF i(1)], of mset] i(2) by simp
  with Cons.prems have "mset q = mset (take i w @ drop (Suc i) w)" by simp
  from Cons.IH [OF this] obtain "is" where
    "run reporting (take i w @ drop (Suc i) w) (map Reports is) = ([], q)" by blast
  with i show ?case by (intro exI [of _ "i # is"]) simp
qed


text \<open>The observer of a session: counts, and the observers in the order they were given; \<open>None\<close> is nil.\<close>

definition CompositeOnFrameProcessed :: "('o \<Rightarrow> report \<Rightarrow> 'o) \<Rightarrow> 'o option list \<Rightarrow> report \<Rightarrow> 'o option list" where
  "CompositeOnFrameProcessed tell os r = map (map_option (\<lambda>x. tell x r)) os"

definition WithMetricsOnFrameProcessed ::
  "('o \<Rightarrow> report \<Rightarrow> 'o) \<Rightarrow> metrics \<times> 'o option \<Rightarrow> report \<Rightarrow> metrics \<times> 'o option" where
  "WithMetricsOnFrameProcessed tell mo r =
     (IncFrames (fst mo) (snd (snd r)), map_option (\<lambda>x. tell x r) (snd mo))"

lemma metrics_count_reports:
  "FrameCount (fst (fold (\<lambda>r mo. WithMetricsOnFrameProcessed tell mo r) rs mo)) = FrameCount (fst mo) + int (length rs)"
  by (induction rs arbitrary: mo) (simp_all add: WithMetricsOnFrameProcessed_def IncFrames_def)

definition token :: "string \<Rightarrow> report" where
  "token t = (plain_frame 1 (LLMTextFrame \<lparr>tdata = t, skip_tts = None, includes_space = False,
     append_to_context = True\<rparr>), Downstream, 0)"

definition speak_report :: report where
  "speak_report = (plain_frame 2 (TTSSpeakFrame []), Downstream, 0)"

lemma transcript_tokens:
  "run transcript_step s (map token q) = (s\<lparr>tr_botBuf := tr_botBuf s @ concat q\<rparr>, [])"
  by (induction q arbitrary: s) (simp_all add: token_def plain_frame_def)

text \<open>Every handled frame is reported once, but in any order: each report is a goroutine of its own.
  So the transcript of an answer may be any permutation of its tokens: for every rearrangement there is
  a schedule in which the speech processor handles the tokens in order and then the frame that closes
  the answer, and the message saved is the rearranged text.\<close>

theorem transcript_scrambled:
  assumes "mset q = mset ts" "concat q \<noteq> []"
  shows "\<exists>es. handled es = map token ts @ [speak_report] \<and>
    mset (snd (run reporting [] es)) = mset (handled es) \<and>
    said ''assistant'' (snd (run transcript_step \<lparr>tr_session = session, tr_seq = 0, tr_botBuf = []\<rparr>
      (snd (run reporting [] es)))) = [concat q]"
proof -
  have "mset (map token q) = mset (map token ts)" using assms(1) by simp
  then obtain "is" where "run reporting (map token ts) (map Reports is) = ([], map token q)"
    using reporting_any_order by blast
  then have run: "run reporting [] (map Handled (map token ts) @ map Reports is @ [Handled speak_report, Reports 0]) =
      ([], map token q @ [speak_report])"
    by (simp add: run_append reporting_handles del: map_map)
  have said: "said ''assistant'' (snd (run transcript_step \<lparr>tr_session = session, tr_seq = 0, tr_botBuf = []\<rparr>
      (map token q @ [speak_report]))) = [concat q]"
    using assms(2)
    by (simp add: run_append transcript_tokens) (simp add: speak_report_def plain_frame_def transcript_defs)
  have "handled (map Reports is) = ([] :: report list)" by (induction "is") simp_all
  with run said assms(1) show ?thesis
    by (intro exI [of _ "map Handled (map token ts) @ map Reports is @ [Handled speak_report, Reports 0]"])
      (simp del: map_map)
qed

theorem transcript_scrambled_witness:
  "\<exists>es. handled es = map token [''I am '', ''not ''] @ [speak_report] \<and>
    mset (snd (run reporting [] es)) = mset (handled es) \<and>
    said ''assistant'' (snd (run transcript_step \<lparr>tr_session = ''s'', tr_seq = 0, tr_botBuf = []\<rparr>
      (snd (run reporting [] es)))) = [concat [''not '', ''I am '']]"
  by (rule transcript_scrambled) simp_all

end
