(* ===== verification/GoJson.thy ===== *)
theory GoJson
  imports Frames
begin

text \<open>
  What the code uses of \<^verbatim>\<open>encoding/json\<close> and \<^verbatim>\<open>encoding/base64\<close>. A message is the JSON value it
  stands for: \<open>any\<close> on its way out is what \<^verbatim>\<open>json.Marshal\<close> is given, and on its way in what the text
  denotes. Decoding into a struct follows \<^verbatim>\<open>json.Unmarshal\<close>: fields are found by their tag, or by their
  tag in any (ASCII) case, unknown keys are skipped, a repeated key overwrites, null changes nothing, and a
  value of another type is an error.
\<close>

section \<open>Structs\<close>

type_synonym 's setter = "any \<Rightarrow> 's \<Rightarrow> 's option"

definition find_field :: "string \<Rightarrow> (string \<times> 's setter) list \<Rightarrow> 's setter option" where
  "find_field k fs =
     (case map_of fs k of
        Some f \<Rightarrow> Some f
      | None \<Rightarrow> map_option snd (List.find (\<lambda>(t, _). ToLower t = ToLower k) fs))"

fun json_fields :: "(string \<times> 's setter) list \<Rightarrow> anymap \<Rightarrow> 's \<Rightarrow> 's option" where
  "json_fields fs [] s = Some s"
| "json_fields fs ((k, v) # kvs) s =
     (case find_field k fs of
        None \<Rightarrow> json_fields fs kvs s
      | Some f \<Rightarrow> (case f v s of None \<Rightarrow> None | Some s' \<Rightarrow> json_fields fs kvs s'))"

definition json_into :: "(string \<times> 's setter) list \<Rightarrow> 's setter" where
  "json_into fs v s =
     (case v of AObj kvs \<Rightarrow> json_fields fs kvs s | ANil \<Rightarrow> Some s | _ \<Rightarrow> None)"

definition set_string :: "(string \<Rightarrow> 's \<Rightarrow> 's) \<Rightarrow> 's setter" where
  "set_string upd v s = (case v of AStr x \<Rightarrow> Some (upd x s) | ANil \<Rightarrow> Some s | _ \<Rightarrow> None)"

definition set_bool :: "(bool \<Rightarrow> 's \<Rightarrow> 's) \<Rightarrow> 's setter" where
  "set_bool upd v s = (case v of ABool x \<Rightarrow> Some (upd x s) | ANil \<Rightarrow> Some s | _ \<Rightarrow> None)"

text \<open>64-bit integers; a number with a fraction is refused.\<close>

definition set_int :: "(int \<Rightarrow> 's \<Rightarrow> 's) \<Rightarrow> 's setter" where
  "set_int upd v s =
     (case v of
        ANum q \<Rightarrow> if of_int \<lfloor>q\<rfloor> = q \<and> - (2 ^ 63) \<le> \<lfloor>q\<rfloor> \<and> \<lfloor>q\<rfloor> < 2 ^ 63 then Some (upd \<lfloor>q\<rfloor> s) else None
      | ANil \<Rightarrow> Some s
      | _ \<Rightarrow> None)"

definition set_number :: "(rat \<Rightarrow> 's \<Rightarrow> 's) \<Rightarrow> 's setter" where
  "set_number upd v s = (case v of ANum q \<Rightarrow> Some (upd q s) | ANil \<Rightarrow> Some s | _ \<Rightarrow> None)"

text \<open>A \<^verbatim>\<open>map[string]any\<close>: an object is added to the map that is there.\<close>

definition set_object :: "('s \<Rightarrow> anymap option) \<Rightarrow> (anymap option \<Rightarrow> 's \<Rightarrow> 's) \<Rightarrow> 's setter" where
  "set_object get upd v s =
     (case v of
        AObj m \<Rightarrow> Some (upd (Some ((case get s of None \<Rightarrow> [] | Some m0 \<Rightarrow> m0) @ m)) s)
      | ANil \<Rightarrow> Some (upd None s)
      | _ \<Rightarrow> None)"

text \<open>A pointer to a string, fields that count for their types only, and slices of structs.\<close>

definition set_string_ptr :: "(string option \<Rightarrow> 's \<Rightarrow> 's) \<Rightarrow> 's setter" where
  "set_string_ptr upd v s = (case v of AStr x \<Rightarrow> Some (upd (Some x) s) | ANil \<Rightarrow> Some (upd None s) | _ \<Rightarrow> None)"

definition typed_string :: "'s setter" where
  "typed_string = set_string (\<lambda>_ s. s)"

definition typed_list :: "'s setter \<Rightarrow> 's setter" where
  "typed_list f v s =
     (case v of AArr vs \<Rightarrow> if list_all (\<lambda>x. f x s \<noteq> None) vs then Some s else None | ANil \<Rightarrow> Some s | _ \<Rightarrow> None)"

fun list_into :: "'a \<Rightarrow> 'a setter \<Rightarrow> any list \<Rightarrow> 'a list option" where
  "list_into zero f [] = Some []"
| "list_into zero f (v # vs) =
     (case (f v zero, list_into zero f vs) of (Some x, Some xs) \<Rightarrow> Some (x # xs) | _ \<Rightarrow> None)"

definition set_structs :: "'a \<Rightarrow> 'a setter \<Rightarrow> ('a list \<Rightarrow> 's \<Rightarrow> 's) \<Rightarrow> 's setter" where
  "set_structs zero f upd v s =
     (case v of
        AArr vs \<Rightarrow> map_option (\<lambda>xs. upd xs s) (list_into zero f vs)
      | ANil \<Rightarrow> Some (upd [] s)
      | _ \<Rightarrow> None)"

text \<open>Decoding whose error is dropped goes on after a field of the wrong type, which keeps its value.\<close>

definition lenient_into :: "(string \<times> 's setter) list \<Rightarrow> any \<Rightarrow> 's \<Rightarrow> 's" where
  "lenient_into flds v s =
     (case v of
        AObj kvs \<Rightarrow>
          fold (\<lambda>(k, x) s. case find_field k flds of
             None \<Rightarrow> s | Some f \<Rightarrow> (case f x s of None \<Rightarrow> s | Some s' \<Rightarrow> s')) kvs s
      | _ \<Rightarrow> s)"

lemmas json_simps = set_object_def json_into_def set_string_def set_bool_def set_int_def set_number_def find_field_def

section \<open>Maps\<close>

text \<open>Reading of a \<^verbatim>\<open>map[string]any\<close> with a type assertion: the last entry counts, and the zero value
  is the answer if there is none or it has another type.\<close>

definition key_value :: "anymap \<Rightarrow> string \<Rightarrow> any option" where
  "key_value m k = map_of (rev m) k"

definition key_string :: "anymap \<Rightarrow> string \<Rightarrow> string" where
  "key_string m k = (case key_value m k of Some (AStr s) \<Rightarrow> s | _ \<Rightarrow> [])"

definition key_object :: "anymap \<Rightarrow> string \<Rightarrow> anymap option" where
  "key_object m k = (case key_value m k of Some (AObj o') \<Rightarrow> Some o' | _ \<Rightarrow> None)"

section \<open>Base64\<close>

definition b64_alphabet :: string where
  "b64_alphabet = ''ABCDEFGHIJKLMNOPQRSTUVWXYZabcdefghijklmnopqrstuvwxyz0123456789+/''"

definition b64_char :: "nat \<Rightarrow> char" where
  "b64_char n = b64_alphabet ! n"

definition b64_val :: "char \<Rightarrow> nat option" where
  "b64_val c = map_of (zip b64_alphabet [0..<64]) c"

fun EncodeToString :: "byte list \<Rightarrow> string" where
  "EncodeToString [] = []"
| "EncodeToString [a] =
     [b64_char (unat a div 4), b64_char ((unat a mod 4) * 16), CHR ''='', CHR ''='']"
| "EncodeToString [a, b] =
     [b64_char (unat a div 4), b64_char ((unat a mod 4) * 16 + unat b div 16),
      b64_char ((unat b mod 16) * 4), CHR ''='']"
| "EncodeToString (a # b # c # r) =
     b64_char (unat a div 4) # b64_char ((unat a mod 4) * 16 + unat b div 16) #
     b64_char ((unat b mod 16) * 4 + unat c div 64) # b64_char (unat c mod 64) # EncodeToString r"

fun b64_quads :: "string \<Rightarrow> byte list option" where
  "b64_quads [] = Some []"
| "b64_quads (w # x # y # z # r) =
     (case (b64_val w, b64_val x) of
        (Some m, Some n) \<Rightarrow>
          (if y = CHR ''=''
           then (if z = CHR ''='' \<and> r = [] then Some [word_of_nat (m * 4 + n div 16)] else None)
           else (case b64_val y of
               None \<Rightarrow> None
             | Some k \<Rightarrow>
                 if z = CHR ''=''
                 then (if r = [] then Some [word_of_nat (m * 4 + n div 16), word_of_nat ((n mod 16) * 16 + k div 4)]
                       else None)
                 else (case (b64_val z, b64_quads r) of
                     (Some l, Some bs) \<Rightarrow>
                       Some (word_of_nat (m * 4 + n div 16) # word_of_nat ((n mod 16) * 16 + k div 4) #
                         word_of_nat ((k mod 4) * 64 + l) # bs)
                   | _ \<Rightarrow> None)))
      | _ \<Rightarrow> None)"
| "b64_quads _ = None"

text \<open>Line breaks are ignored wherever they are.\<close>

definition DecodeString :: "string \<Rightarrow> byte list option" where
  "DecodeString s = b64_quads (filter (\<lambda>c. c \<noteq> CHR 0x0A \<and> c \<noteq> CHR 0x0D) s)"

lemma b64_alphabet_facts:
  "length b64_alphabet = 64" "distinct b64_alphabet"
  "CHR ''='' \<notin> set b64_alphabet" "CHR 0x0A \<notin> set b64_alphabet" "CHR 0x0D \<notin> set b64_alphabet"
  by (simp_all add: b64_alphabet_def)

lemma b64_val_char [simp]: "n < 64 \<Longrightarrow> b64_val (b64_char n) = Some n"
  using map_of_zip_nth [of b64_alphabet "[0..<64]" n] b64_alphabet_facts(1,2)
  by (simp add: b64_val_def b64_char_def)

lemma b64_char_not [simp]:
  assumes "n < 64"
  shows "b64_char n \<noteq> CHR ''=''" "b64_char n \<noteq> CHR 0x0A" "b64_char n \<noteq> CHR 0x0D"
proof -
  have "b64_char n \<in> set b64_alphabet" using assms b64_alphabet_facts(1) by (simp add: b64_char_def)
  then show "b64_char n \<noteq> CHR ''=''" "b64_char n \<noteq> CHR 0x0A" "b64_char n \<noteq> CHR 0x0D"
    using b64_alphabet_facts(3-5) by auto
qed

lemma sextets:
  fixes a b c :: byte
  shows "unat a div 4 < 64" "(unat a mod 4) * 16 < 64" "(unat a mod 4) * 16 + unat b div 16 < 64"
    "(unat b mod 16) * 4 < 64" "(unat b mod 16) * 4 + unat c div 64 < 64" "unat c mod 64 < 64"
  using unat_byte_less [of a] unat_byte_less [of b] unat_byte_less [of c] by linarith+

lemma rejoin:
  assumes "n = unat (a :: byte)"
  shows "word_of_nat n = a"
  using assms by simp

lemma joined:
  "word_of_nat (unat a div 4 * 4 + ((unat a mod 4) * 16) div 16) = (a :: byte)"
  "word_of_nat (unat a div 4 * 4 + ((unat a mod 4) * 16 + unat b div 16) div 16) = (a :: byte)"
  "word_of_nat (((unat a mod 4) * 16 + unat b div 16) mod 16 * 16 + ((unat b mod 16) * 4) div 4) = (b :: byte)"
  "word_of_nat (((unat a mod 4) * 16 + unat b div 16) mod 16 * 16 + ((unat b mod 16) * 4 + unat c div 64) div 4) =
     (b :: byte)"
  "word_of_nat (((unat b mod 16) * 4 + unat c div 64) mod 4 * 64 + unat c mod 64) = (c :: byte)"
proof -
  have parts: "(m * k + r) div k = m" "(m * k + r) mod k = r" if "r < k" for m r k :: nat
    using that by simp_all
  have ab: "((unat a mod 4) * 16 + unat b div 16) div 16 = unat a mod 4"
    "((unat a mod 4) * 16 + unat b div 16) mod 16 = unat b div 16"
    using unat_byte_less [of b] by (intro parts; linarith)+
  have bc: "((unat b mod 16) * 4 + unat c div 64) div 4 = unat b mod 16"
    "((unat b mod 16) * 4 + unat c div 64) mod 4 = unat c div 64"
    using unat_byte_less [of c] by (intro parts; linarith)+
  show "word_of_nat (unat a div 4 * 4 + ((unat a mod 4) * 16) div 16) = a"
    by (rule rejoin) simp
  show "word_of_nat (unat a div 4 * 4 + ((unat a mod 4) * 16 + unat b div 16) div 16) = a"
    by (rule rejoin) (simp only: ab div_mult_mod_eq)
  show "word_of_nat (((unat a mod 4) * 16 + unat b div 16) mod 16 * 16 + ((unat b mod 16) * 4) div 4) = b"
    by (rule rejoin) (simp only: ab, simp)
  show "word_of_nat (((unat a mod 4) * 16 + unat b div 16) mod 16 * 16 + ((unat b mod 16) * 4 + unat c div 64) div 4) = b"
    by (rule rejoin) (simp only: ab bc div_mult_mod_eq)
  show "word_of_nat (((unat b mod 16) * 4 + unat c div 64) mod 4 * 64 + unat c mod 64) = c"
    by (rule rejoin) (simp only: bc div_mult_mod_eq)
qed

lemma b64_quads_encode: "b64_quads (EncodeToString bs) = Some bs"
  by (induction bs rule: EncodeToString.induct)
    (simp_all only: EncodeToString.simps b64_quads.simps b64_val_char b64_char_not sextets joined
      option.case prod.case if_False if_True simp_thms HOL.refl)

lemma encode_no_breaks: "filter (\<lambda>c. c \<noteq> CHR 0x0A \<and> c \<noteq> CHR 0x0D) (EncodeToString bs) = EncodeToString bs"
  by (induction bs rule: EncodeToString.induct) (simp_all add: sextets)

lemma base64_roundtrip [simp]: "DecodeString (EncodeToString bs) = Some bs"
  by (simp add: DecodeString_def encode_no_breaks b64_quads_encode)

lemma EncodeToString_Nil_iff [simp]: "EncodeToString bs = [] \<longleftrightarrow> bs = []"
  by (cases bs rule: EncodeToString.cases) simp_all

end
