(* ===== verification/Telephony.thy ===== *)
theory Telephony
  imports GoJson AudioLaw
begin

text \<open>
  The serializers of telephone lines, \<^verbatim>\<open>pkg/frames/serialize/{twilio,telnyx,plivo,exotel,vonage,genesys}\<close>,
  and the detection of the provider, \<^verbatim>\<open>pkg/runner/telephony.go\<close>. A message is a JSON value or, where the
  line carries binary messages, bytes. The request that hangs up a call is an output, and so is the panic
  if its address is none; its answer is not used by the code. A frame is not nil.
\<close>

section \<open>What the lines share\<close>

datatype wire = JsonText any | Binary "byte list"

text \<open>What a hang-up does to the outside: a request is handed to the HTTP client, or the goroutine panics.\<close>

datatype http_request = Request (rq_method: string) (rq_url: string) (rq_body: string) | NilRequest

text \<open>\<open>rt_session\<close> is the rate of the pipeline (0: not set), \<open>rt_line\<close> that of the line.\<close>

record rates =
  rt_session :: int
  rt_line :: int

record hanging = rates +
  hu_auto :: bool
  hu_done :: bool

text \<open>\<^verbatim>\<open>Setup\<close>; the argument is the input rate of the start frame.\<close>

definition rates_Setup :: "int option \<Rightarrow> 'a rates_scheme \<Rightarrow> 'a rates_scheme" where
  "rates_Setup start s =
     (let s1 = (case start of Some r \<Rightarrow> if rt_session s = 0 then s\<lparr>rt_session := r\<rparr> else s | None \<Rightarrow> s)
      in if rt_session s1 = 0 then s1\<lparr>rt_session := 16000\<rparr> else s1)"

text \<open>Audio on its way out: the rate is chosen before the session's default is set.\<close>

definition to_line :: "'a rates_scheme \<Rightarrow> byte list \<Rightarrow> int \<Rightarrow> 'a rates_scheme \<times> byte list" where
  "to_line s pcm rate =
     (let inRate = (if rate \<le> 0 then rt_session s else rate);
          s1 = (if rt_session s = 0 then s\<lparr>rt_session := 16000\<rparr> else s)
      in (s1, if inRate \<noteq> rt_line s then Resample16MonoAlloc pcm inRate (rt_line s) else pcm))"

definition from_line :: "'a rates_scheme \<Rightarrow> byte list \<Rightarrow> u64 \<Rightarrow> frame \<times> u64" where
  "from_line s pcm =
     (let sr = (if rt_session s = 0 then 16000 else rt_session s)
      in NewAudioRawFrame (if rt_line s \<noteq> sr then Resample16MonoAlloc pcm (rt_line s) sr else pcm) sr 1 0)"

definition media_audio :: "frame \<Rightarrow> audio_data option" where
  "media_audio f =
     (case fbody f of
        AudioRawFrame a \<Rightarrow> Some a | TTSAudioRawFrame a _ \<Rightarrow> Some a | OutputAudioRawFrame a _ \<Rightarrow> Some a
      | _ \<Rightarrow> None)"

definition ends_call :: "frame \<Rightarrow> bool" where
  "ends_call f = (case fbody f of EndFrame \<Rightarrow> True | CancelFrame _ \<Rightarrow> True | _ \<Rightarrow> False)"

text \<open>What all the lines that speak JSON are sent.\<close>

record line_msg =
  lm_event :: string
  lm_payload :: string
  lm_digit :: string

definition no_msg :: line_msg where
  "no_msg = \<lparr>lm_event = [], lm_payload = [], lm_digit = []\<rparr>"

definition line_fields :: "(string \<times> line_msg setter) list" where
  "line_fields =
     [(''event'', set_string (\<lambda>x. lm_event_update (\<lambda>_. x))),
      (''media'', json_into [(''payload'', set_string (\<lambda>x. lm_payload_update (\<lambda>_. x)))]),
      (''dtmf'', json_into [(''digit'', set_string (\<lambda>x. lm_digit_update (\<lambda>_. x)))])]"


definition line_message :: "any option \<Rightarrow> line_msg option" where
  "line_message v = (case v of None \<Rightarrow> None | Some v \<Rightarrow> json_into line_fields v no_msg)"

text \<open>A frame, nothing, or an error.\<close>

type_synonym received = "(err + frame option) \<times> u64"

definition no_frame :: "u64 \<Rightarrow> received" where
  "no_frame ids = (Inr None, ids)"

definition a_frame :: "frame \<times> u64 \<Rightarrow> received" where
  "a_frame r = (Inr (Some (fst r)), snd r)"

definition dtmf_frame :: "string \<Rightarrow> u64 \<Rightarrow> received" where
  "dtmf_frame digit ids =
     (if digit = [] then no_frame ids
      else (case ParseKeypadEntry digit of
          Inl _ \<Rightarrow> no_frame ids
        | Inr kp \<Rightarrow> (case NewInputDTMFFrame kp ids of
              (Inl e, ids') \<Rightarrow> (Inl e, ids')
            | (Inr f, ids') \<Rightarrow> (Inr (Some f), ids'))))"

text \<open>A message of the lines that send JSON; \<open>dec\<close> turns the bytes of the payload into samples.\<close>

definition line_Deserialize ::
  "(byte list \<Rightarrow> byte list) \<Rightarrow> 'a rates_scheme \<Rightarrow> any option \<Rightarrow> u64 \<Rightarrow> received" where
  "line_Deserialize dec s v ids =
     (case line_message v of
        None \<Rightarrow> (Inl ''json'', ids)
      | Some m \<Rightarrow>
          if lm_event m = ''media''
          then (if lm_payload m = [] then no_frame ids
                else (case DecodeString (lm_payload m) of
                    None \<Rightarrow> no_frame ids
                  | Some b \<Rightarrow>
                      if b = [] then no_frame ids
                      else if dec b = [] then no_frame ids
                      else a_frame (from_line s (dec b) ids)))
          else if lm_event m = ''dtmf'' then dtmf_frame (lm_digit m) ids
          else no_frame ids)"

text \<open>The calls of \<^verbatim>\<open>serialize\<close> that do not hang up: \<open>clear\<close> is the message that stops playing,
  \<open>media\<close> makes the message of some audio.\<close>

definition line_serialize ::
  "any option \<Rightarrow> ('a rates_scheme \<Rightarrow> byte list \<Rightarrow> int \<Rightarrow> 'a rates_scheme \<times> wire option) \<Rightarrow> 'a rates_scheme
     \<Rightarrow> frame \<Rightarrow> 'a rates_scheme \<times> wire option" where
  "line_serialize clear media s f =
     (case fbody f of
        InterruptionFrame \<Rightarrow> (s, map_option JsonText clear)
      | TransportMessageFrame m \<Rightarrow> (s, Some (JsonText (AObj m)))
      | _ \<Rightarrow> (case media_audio f of
            Some a \<Rightarrow> if audio a = [] then (s, None) else media s (audio a) (sample_rate a)
          | None \<Rightarrow> (s, None)))"

text \<open>Whether \<^verbatim>\<open>net/url\<close> takes an address that begins with \<^verbatim>\<open>https://\<close>. The fragment is cut off at the first
  number sign; no control character may come before it. The authority ends at the first slash or
  question mark; a percent sign in path and fragment must begin an escape. An address in brackets as
  host does not occur here and counts as refused.\<close>

definition code_in :: "nat \<Rightarrow> nat \<Rightarrow> char \<Rightarrow> bool" where
  "code_in lo hi c \<longleftrightarrow> lo \<le> of_char c \<and> of_char c \<le> hi"

definition hex_value :: "char \<Rightarrow> nat option" where
  "hex_value c =
     (if code_in 48 57 c then Some (of_char c - 48)
      else if code_in 97 102 c then Some (of_char c - 87)
      else if code_in 65 70 c then Some (of_char c - 55) else None)"

fun escapes_ok :: "(char \<Rightarrow> char \<Rightarrow> bool) \<Rightarrow> string \<Rightarrow> bool" where
  "escapes_ok ok [] = True"
| "escapes_ok ok (c # r) =
     (if c = CHR ''%''
      then (case r of a # b # r' \<Rightarrow> hex_value a \<noteq> None \<and> hex_value b \<noteq> None \<and> ok a b \<and> escapes_ok ok r' | _ \<Rightarrow> False)
      else escapes_ok ok r)"

definition control_char :: "char \<Rightarrow> bool" where
  "control_char c \<longleftrightarrow> of_char c < (32 :: nat) \<or> of_char c = (127 :: nat)"

definition alnum :: "char \<Rightarrow> bool" where
  "alnum c \<longleftrightarrow> code_in 48 57 c \<or> code_in 97 122 c \<or> code_in 65 90 c"

definition after_last :: "char \<Rightarrow> string \<Rightarrow> string" where
  "after_last c s = rev (takeWhile (\<lambda>x. x \<noteq> c) (rev s))"

definition host_parses :: "string \<Rightarrow> bool" where
  "host_parses h \<longleftrightarrow> CHR ''['' \<notin> set h \<and>
     (CHR '':'' \<in> set h \<longrightarrow> list_all (\<lambda>c. code_in 48 57 c) (after_last CHR '':'' h)) \<and>
     list_all (\<lambda>c. (128 :: nat) \<le> of_char c \<or> alnum c \<or> c \<in> set ''%-_.~!$&()*+,;=:]<>\"'' \<or> c = CHR 0x27) h \<and>
     escapes_ok (\<lambda>a b. (8 :: nat) \<le> the (hex_value a) \<or> a = CHR ''2'' \<and> b = CHR ''5'') h"

definition authority_parses :: "string \<Rightarrow> bool" where
  "authority_parses a \<longleftrightarrow>
     (if CHR ''@'' \<in> set a
      then host_parses (after_last CHR ''@'' a) \<and>
        (let user = take (length a - Suc (length (after_last CHR ''@'' a))) a
         in list_all (\<lambda>c. alnum c \<or> c \<in> set ''-._:~!$&()*+,;=%@'' \<or> c = CHR 0x27) user \<and> escapes_ok (\<lambda>_ _. True) user)
      else host_parses a)"

definition url_parses :: "string \<Rightarrow> bool" where
  "url_parses s \<longleftrightarrow>
     (let u = takeWhile (\<lambda>c. c \<noteq> CHR ''#'') s; fragment = drop (Suc (length u)) s;
          rest = takeWhile (\<lambda>c. c \<noteq> CHR ''?'') (drop 8 u)
      in list_all (\<lambda>c. \<not> control_char c) u \<and> authority_parses (takeWhile (\<lambda>c. c \<noteq> CHR ''/'') rest) \<and>
         escapes_ok (\<lambda>_ _. True) (dropWhile (\<lambda>c. c \<noteq> CHR ''/'') rest) \<and> escapes_ok (\<lambda>_ _. True) fragment)"

text \<open>\<^verbatim>\<open>http.NewRequest\<close> gives a nil request for an address that does not parse. The error is dropped, and
  setting a header of the nil request panics before anything is sent.\<close>

definition new_request :: "string \<Rightarrow> string \<Rightarrow> string \<Rightarrow> http_request list" where
  "new_request mth u body = [if url_parses u then Request mth u body else NilRequest]"

text \<open>A line on which the end of the session hangs up, once, also if the call panics; \<open>call\<close> is the request.\<close>

definition hanging_serialize ::
  "('a hanging_scheme \<Rightarrow> http_request list) \<Rightarrow> ('a hanging_scheme \<Rightarrow> frame \<Rightarrow> 'a hanging_scheme \<times> wire option)
     \<Rightarrow> 'a hanging_scheme \<Rightarrow> frame \<Rightarrow> 'a hanging_scheme \<times> http_request list \<times> wire option" where
  "hanging_serialize call ser s f =
     (if hu_auto s \<and> ends_call f
      then (if hu_done s then (s, [], None) else (s\<lparr>hu_done := True\<rparr>, call s, None))
      else (let (s1, w) = ser s f in (s1, [], w)))"

section \<open>Twilio\<close>

record twilio = hanging +
  tw_StreamSid :: string
  tw_CallSid :: string
  tw_AccountSid :: string
  tw_AuthToken :: string
  tw_Region :: string
  tw_Edge :: string

text \<open>The parameters: rate of the line, rate of the session, hanging up.\<close>

definition NewTwilio ::
  "string \<Rightarrow> string \<Rightarrow> string \<Rightarrow> string \<Rightarrow> string \<Rightarrow> string \<Rightarrow> (int \<times> int \<times> bool) option \<Rightarrow> twilio" where
  "NewTwilio stream call account token region edge params =
     (let s = \<lparr>rt_session = 0, rt_line = 8000, hu_auto = True, hu_done = False, tw_StreamSid = stream,
               tw_CallSid = call, tw_AccountSid = account, tw_AuthToken = token, tw_Region = region, tw_Edge = edge\<rparr>
      in case params of
           None \<Rightarrow> s
         | Some (line, session, auto) \<Rightarrow>
             s\<lparr>rt_line := if line > 0 then line else 8000, rt_session := session, hu_auto := auto\<rparr>)"

definition twilio_Setup :: "int option \<Rightarrow> twilio \<Rightarrow> twilio" where
  "twilio_Setup = rates_Setup"

definition twilio_serializeAudio :: "twilio \<Rightarrow> byte list \<Rightarrow> int \<Rightarrow> twilio \<times> wire option" where
  "twilio_serializeAudio s pcm rate =
     (let (s1, resampled) = to_line s pcm rate; ulaw = EncodeULaw resampled
      in (s1, if ulaw = [] then None
              else Some (JsonText (AObj [(''event'', AStr ''media''),
                (''media'', AObj [(''payload'', AStr (EncodeToString ulaw))]),
                (''streamSid'', AStr (tw_StreamSid s))]))))"

definition twilio_url :: "twilio \<Rightarrow> string" where
  "twilio_url s =
     (let region = (if tw_Region s \<noteq> [] then tw_Region s @ ''.'' else []);
          edge = (if tw_Edge s \<noteq> [] then tw_Edge s @ ''.'' else [])
      in ''https://api.'' @ edge @ region @ ''twilio.com/2010-04-01/Accounts/'' @ tw_AccountSid s @ ''/Calls/'' @
         tw_CallSid s @ ''.json'')"

definition twilio_hangUpCall :: "twilio \<Rightarrow> http_request list" where
  "twilio_hangUpCall s =
     (if tw_CallSid s = [] \<or> tw_AccountSid s = [] \<or> tw_AuthToken s = [] then []
      else new_request ''POST'' (twilio_url s) ''Status=completed'')"

definition twilio_serialize :: "twilio \<Rightarrow> frame \<Rightarrow> twilio \<times> http_request list \<times> wire option" where
  "twilio_serialize = hanging_serialize twilio_hangUpCall
     (\<lambda>s. line_serialize (Some (AObj [(''event'', AStr ''clear''), (''streamSid'', AStr (tw_StreamSid s))]))
        twilio_serializeAudio s)"

definition twilio_Deserialize :: "twilio \<Rightarrow> any option \<Rightarrow> u64 \<Rightarrow> received" where
  "twilio_Deserialize = line_Deserialize DecodeULaw"

section \<open>Telnyx\<close>

record telnyx = hanging +
  tx_StreamID :: string
  tx_CallControlID :: string
  tx_APIKey :: string
  tx_InboundEncoding :: string
  tx_OutboundEncoding :: string

text \<open>The parameters: the two rates, inbound and outbound encoding, hanging up.\<close>

definition NewTelnyx ::
  "string \<Rightarrow> string \<Rightarrow> string \<Rightarrow> string \<Rightarrow> string \<Rightarrow> (int \<times> int \<times> string \<times> string \<times> bool) option \<Rightarrow> telnyx" where
  "NewTelnyx stream outEnc inEnc call key params =
     (let or_else = (\<lambda>a b. if a \<noteq> [] then a else b);
          s = \<lparr>rt_session = 0, rt_line = 8000, hu_auto = True, hu_done = False, tx_StreamID = stream,
               tx_CallControlID = call, tx_APIKey = key, tx_InboundEncoding = ''PCMU'',
               tx_OutboundEncoding = ''PCMU''\<rparr>;
          s1 = (case params of
                  None \<Rightarrow> s
                | Some (line, session, inb, outb, auto) \<Rightarrow>
                    s\<lparr>rt_line := if line > 0 then line else 8000, rt_session := session, hu_auto := auto,
                      tx_InboundEncoding := or_else inb ''PCMU'', tx_OutboundEncoding := or_else outb ''PCMU''\<rparr>)
      in s1\<lparr>tx_InboundEncoding := or_else inEnc (tx_InboundEncoding s1),
            tx_OutboundEncoding := or_else outEnc (tx_OutboundEncoding s1)\<rparr>)"

definition telnyx_Setup :: "int option \<Rightarrow> telnyx \<Rightarrow> telnyx" where
  "telnyx_Setup = rates_Setup"

definition law_encode :: "string \<Rightarrow> byte list \<Rightarrow> byte list" where
  "law_encode enc = (if enc = ''PCMA'' then EncodeALaw else EncodeULaw)"

definition law_decode :: "string \<Rightarrow> byte list \<Rightarrow> byte list" where
  "law_decode enc = (if enc = ''PCMA'' then DecodeALaw else DecodeULaw)"

definition telnyx_serializeAudio :: "telnyx \<Rightarrow> byte list \<Rightarrow> int \<Rightarrow> telnyx \<times> wire option" where
  "telnyx_serializeAudio s pcm rate =
     (let (s1, resampled) = to_line s pcm rate; encoded = law_encode (tx_InboundEncoding s) resampled
      in (s1, if encoded = [] then None
              else Some (JsonText (AObj [(''event'', AStr ''media''),
                (''media'', AObj [(''payload'', AStr (EncodeToString encoded))])]))))"

definition telnyx_url :: "telnyx \<Rightarrow> string" where
  "telnyx_url s = ''https://api.telnyx.com/v2/calls/'' @ tx_CallControlID s @ ''/actions/hangup''"

definition telnyx_hangUpCall :: "telnyx \<Rightarrow> http_request list" where
  "telnyx_hangUpCall s =
     (if tx_CallControlID s = [] \<or> tx_APIKey s = [] then [] else new_request ''POST'' (telnyx_url s) ''{}'')"

definition telnyx_serialize :: "telnyx \<Rightarrow> frame \<Rightarrow> telnyx \<times> http_request list \<times> wire option" where
  "telnyx_serialize = hanging_serialize telnyx_hangUpCall
     (line_serialize (Some (AObj [(''event'', AStr ''clear'')])) telnyx_serializeAudio)"

definition telnyx_Deserialize :: "telnyx \<Rightarrow> any option \<Rightarrow> u64 \<Rightarrow> received" where
  "telnyx_Deserialize s = line_Deserialize (law_decode (tx_OutboundEncoding s)) s"


section \<open>Plivo\<close>

record plivo = hanging +
  pv_StreamID :: string
  pv_CallID :: string
  pv_AuthID :: string
  pv_AuthToken :: string

definition NewPlivo ::
  "string \<Rightarrow> string \<Rightarrow> string \<Rightarrow> string \<Rightarrow> (int \<times> int \<times> bool) option \<Rightarrow> plivo" where
  "NewPlivo stream call auth token params =
     (let s = \<lparr>rt_session = 0, rt_line = 8000, hu_auto = True, hu_done = False, pv_StreamID = stream,
               pv_CallID = call, pv_AuthID = auth, pv_AuthToken = token\<rparr>
      in case params of
           None \<Rightarrow> s
         | Some (line, session, auto) \<Rightarrow>
             s\<lparr>rt_line := if line > 0 then line else 8000, rt_session := session, hu_auto := auto\<rparr>)"

definition plivo_Setup :: "int option \<Rightarrow> plivo \<Rightarrow> plivo" where
  "plivo_Setup = rates_Setup"

definition plivo_serializeAudio :: "plivo \<Rightarrow> byte list \<Rightarrow> int \<Rightarrow> plivo \<times> wire option" where
  "plivo_serializeAudio s pcm rate =
     (let (s1, resampled) = to_line s pcm rate; ulaw = EncodeULaw resampled
      in (s1, if ulaw = [] then None
              else Some (JsonText (AObj [(''event'', AStr ''playAudio''),
                (''media'', AObj [(''contentType'', AStr ''audio/x-mulaw''),
                   (''payload'', AStr (EncodeToString ulaw)), (''sampleRate'', ANum (of_int (rt_line s)))]),
                (''streamId'', AStr (pv_StreamID s))]))))"

definition plivo_url :: "plivo \<Rightarrow> string" where
  "plivo_url s = ''https://api.plivo.com/v1/Account/'' @ pv_AuthID s @ ''/Call/'' @ pv_CallID s @ ''/''"

definition plivo_hangUpCall :: "plivo \<Rightarrow> http_request list" where
  "plivo_hangUpCall s =
     (if pv_CallID s = [] \<or> pv_AuthID s = [] \<or> pv_AuthToken s = [] then []
      else new_request ''DELETE'' (plivo_url s) [])"

definition plivo_serialize :: "plivo \<Rightarrow> frame \<Rightarrow> plivo \<times> http_request list \<times> wire option" where
  "plivo_serialize = hanging_serialize plivo_hangUpCall
     (\<lambda>s. line_serialize (Some (AObj [(''event'', AStr ''clearAudio''), (''streamId'', AStr (pv_StreamID s))]))
        plivo_serializeAudio s)"

definition plivo_Deserialize :: "plivo \<Rightarrow> any option \<Rightarrow> u64 \<Rightarrow> received" where
  "plivo_Deserialize = line_Deserialize DecodeULaw"

section \<open>Exotel\<close>

record exotel = rates +
  ex_StreamSid :: string
  ex_CallSid :: string

definition NewExotel :: "string \<Rightarrow> string \<Rightarrow> (int \<times> int) option \<Rightarrow> exotel" where
  "NewExotel stream call params =
     (let s = \<lparr>rt_session = 0, rt_line = 8000, ex_StreamSid = stream, ex_CallSid = call\<rparr>
      in case params of
           None \<Rightarrow> s
         | Some (line, session) \<Rightarrow> s\<lparr>rt_line := if line > 0 then line else 8000, rt_session := session\<rparr>)"

definition exotel_Setup :: "int option \<Rightarrow> exotel \<Rightarrow> exotel" where
  "exotel_Setup = rates_Setup"

definition exotel_serializeAudio :: "exotel \<Rightarrow> byte list \<Rightarrow> int \<Rightarrow> exotel \<times> wire option" where
  "exotel_serializeAudio s pcm rate =
     (let (s1, resampled) = to_line s pcm rate
      in (s1, Some (JsonText (AObj [(''event'', AStr ''media''),
            (''media'', AObj [(''payload'', AStr (EncodeToString resampled))]),
            (''streamSid'', AStr (ex_StreamSid s))]))))"

definition exotel_serialize :: "exotel \<Rightarrow> frame \<Rightarrow> exotel \<times> wire option" where
  "exotel_serialize s =
     line_serialize (Some (AObj [(''event'', AStr ''clear''), (''streamSid'', AStr (ex_StreamSid s))]))
       exotel_serializeAudio s"

definition exotel_Deserialize :: "exotel \<Rightarrow> any option \<Rightarrow> u64 \<Rightarrow> received" where
  "exotel_Deserialize = line_Deserialize (\<lambda>b. b)"

section \<open>Vonage\<close>

text \<open>Binary messages are audio, text messages are JSON, but \<^verbatim>\<open>Deserialize\<close> is given only the bytes:
  \<open>parse\<close> is the value their text denotes, if it is JSON.\<close>

type_synonym vonage = rates

definition NewVonage :: "(int \<times> int) option \<Rightarrow> vonage" where
  "NewVonage params =
     (case params of
        None \<Rightarrow> \<lparr>rt_session = 0, rt_line = 16000\<rparr>
      | Some (line, session) \<Rightarrow> \<lparr>rt_session = session, rt_line = if line > 0 then line else 16000\<rparr>)"

definition vonage_Setup :: "int option \<Rightarrow> vonage \<Rightarrow> vonage" where
  "vonage_Setup = rates_Setup"

definition vonage_serializeAudio :: "vonage \<Rightarrow> byte list \<Rightarrow> int \<Rightarrow> vonage \<times> wire option" where
  "vonage_serializeAudio s pcm rate =
     (let (s1, resampled) = to_line s pcm rate in (s1, Some (Binary resampled)))"

definition vonage_SerializeWithType :: "vonage \<Rightarrow> frame \<Rightarrow> vonage \<times> wire option" where
  "vonage_SerializeWithType =
     line_serialize (Some (AObj [(''action'', AStr ''clear'')])) vonage_serializeAudio"

record vonage_msg =
  vm_event :: string
  vm_digit :: string
  vm_dtmf :: string

definition vonage_fields :: "(string \<times> vonage_msg setter) list" where
  "vonage_fields =
     [(''event'', set_string (\<lambda>x. vm_event_update (\<lambda>_. x))),
      (''digit'', set_string (\<lambda>x. vm_digit_update (\<lambda>_. x))),
      (''dtmf'', json_into [(''digit'', set_string (\<lambda>x. vm_dtmf_update (\<lambda>_. x)))])]"

definition vonage_message :: "any option \<Rightarrow> vonage_msg option" where
  "vonage_message v =
     (case v of None \<Rightarrow> None | Some v \<Rightarrow> json_into vonage_fields v \<lparr>vm_event = [], vm_digit = [], vm_dtmf = []\<rparr>)"

definition vonage_Deserialize :: "(byte list \<Rightarrow> any option) \<Rightarrow> vonage \<Rightarrow> byte list \<Rightarrow> u64 \<Rightarrow> received" where
  "vonage_Deserialize parse s b ids =
     (case vonage_message (parse b) of
        Some m \<Rightarrow>
          if vm_event m = ''websocket:dtmf''
          then dtmf_frame (if vm_digit m = [] then vm_dtmf m else vm_digit m) ids
          else no_frame ids
      | None \<Rightarrow> if b = [] then no_frame ids else a_frame (from_line s b ids))"

section \<open>Genesys\<close>

record genesys = rates +
  ge_MediaFormat :: string
  ge_clientSeq :: int
  ge_serverSeq :: int
  ge_sessionID :: string

definition NewGenesys :: "(int \<times> int \<times> string) option \<Rightarrow> genesys" where
  "NewGenesys params =
     (let s = \<lparr>rt_session = 0, rt_line = 8000, ge_MediaFormat = ''PCMU'', ge_clientSeq = 0, ge_serverSeq = 0,
               ge_sessionID = []\<rparr>
      in case params of
           None \<Rightarrow> s
         | Some (line, session, fmt) \<Rightarrow>
             s\<lparr>rt_line := if line > 0 then line else 8000, rt_session := session,
               ge_MediaFormat := if fmt \<noteq> [] then fmt else ''PCMU''\<rparr>)"

definition genesys_Setup :: "int option \<Rightarrow> genesys \<Rightarrow> genesys" where
  "genesys_Setup = rates_Setup"

definition genesys_serializeAudio :: "genesys \<Rightarrow> byte list \<Rightarrow> int \<Rightarrow> genesys \<times> wire option" where
  "genesys_serializeAudio s pcm rate =
     (let (s1, resampled) = to_line s pcm rate;
          out = (if ge_MediaFormat s = ''PCMU'' then EncodeULaw resampled else resampled)
      in (s1, if out = [] then None else Some (Binary out)))"

definition genesys_SerializeWithType :: "genesys \<Rightarrow> frame \<Rightarrow> genesys \<times> wire option" where
  "genesys_SerializeWithType = line_serialize None genesys_serializeAudio"

record genesys_msg =
  gm_type :: string
  gm_seq :: int
  gm_clientseq :: int
  gm_id :: string
  gm_media :: string
  gm_format :: string
  gm_event :: string
  gm_digit :: string

definition genesys_fields :: "(string \<times> genesys_msg setter) list" where
  "genesys_fields =
     [(''type'', set_string (\<lambda>x. gm_type_update (\<lambda>_. x))),
      (''seq'', set_int (\<lambda>x. gm_seq_update (\<lambda>_. x))),
      (''clientseq'', set_int (\<lambda>x. gm_clientseq_update (\<lambda>_. x))),
      (''id'', set_string (\<lambda>x. gm_id_update (\<lambda>_. x))),
      (''parameters'', json_into
         [(''media'', set_string (\<lambda>x. gm_media_update (\<lambda>_. x))),
          (''format'', set_string (\<lambda>x. gm_format_update (\<lambda>_. x))),
          (''event'', json_into
             [(''type'', set_string (\<lambda>x. gm_event_update (\<lambda>_. x))),
              (''dtmf'', json_into [(''digit'', set_string (\<lambda>x. gm_digit_update (\<lambda>_. x)))])])])]"

definition genesys_message :: "any option \<Rightarrow> genesys_msg option" where
  "genesys_message v =
     (case v of
        None \<Rightarrow> None
      | Some v \<Rightarrow> json_into genesys_fields v
          \<lparr>gm_type = [], gm_seq = 0, gm_clientseq = 0, gm_id = [], gm_media = [], gm_format = [],
           gm_event = [], gm_digit = []\<rparr>)"

definition genesys_Deserialize ::
  "(byte list \<Rightarrow> any option) \<Rightarrow> genesys \<Rightarrow> byte list \<Rightarrow> u64 \<Rightarrow> genesys \<times> received" where
  "genesys_Deserialize parse s b ids =
     (case genesys_message (parse b) of
        Some m \<Rightarrow>
          (s\<lparr>ge_clientSeq := gm_seq m, ge_sessionID := if gm_id m \<noteq> [] then gm_id m else ge_sessionID s\<rparr>,
           if gm_type m = ''event'' \<and> gm_event m = ''dtmf'' then dtmf_frame (gm_digit m) ids else no_frame ids)
      | None \<Rightarrow>
          (s, if b = [] then no_frame ids
              else (let pcm = (if ge_MediaFormat s = ''PCMU'' then DecodeULaw b else b)
                    in if pcm = [] then no_frame ids else a_frame (from_line s pcm ids))))"

definition CreateOpenedResponse :: "genesys \<Rightarrow> bool \<Rightarrow> string list \<Rightarrow> string \<Rightarrow> genesys \<times> any" where
  "CreateOpenedResponse s paused langs lang =
     (let s1 = s\<lparr>ge_serverSeq := ge_serverSeq s + 1\<rparr>
      in (s1, AObj [(''clientseq'', ANum (of_int (ge_clientSeq s1))), (''id'', AStr (ge_sessionID s1)),
        (''parameters'', AObj (
           [(''media'', AArr [AObj [(''channels'', AArr [AStr ''external'']),
               (''format'', AStr (ge_MediaFormat s1)), (''rate'', ANum (of_int (rt_line s1))),
               (''type'', AStr ''audio'')]])] @
           (if lang \<noteq> [] then [(''selectedLanguage'', AStr lang)] else []) @
           [(''startPaused'', ABool paused)] @
           (if langs \<noteq> [] then [(''supportedLanguages'', AArr (map AStr langs))] else []))),
        (''seq'', ANum (of_int (ge_serverSeq s1))), (''type'', AStr ''opened''), (''version'', AStr ''2'')]))"

definition CreatePongResponse :: "genesys \<Rightarrow> genesys \<times> any" where
  "CreatePongResponse s =
     (let s1 = s\<lparr>ge_serverSeq := ge_serverSeq s + 1\<rparr>
      in (s1, AObj [(''clientseq'', ANum (of_int (ge_clientSeq s1))), (''id'', AStr (ge_sessionID s1)),
        (''seq'', ANum (of_int (ge_serverSeq s1))), (''type'', AStr ''pong''), (''version'', AStr ''2'')]))"


section \<open>Detection of the provider\<close>

record call_data =
  cd_Provider :: string
  cd_StreamSid :: string
  cd_CallSid :: string
  cd_Body :: "anymap option"
  cd_StreamID :: string
  cd_CallControlID :: string
  cd_OutboundEnc :: string
  cd_InboundEnc :: string
  cd_From :: string
  cd_To :: string
  cd_StreamIDPlivo :: string
  cd_CallID :: string
  cd_AccountSid :: string

definition no_call :: call_data where
  "no_call = \<lparr>cd_Provider = [], cd_StreamSid = [], cd_CallSid = [], cd_Body = None, cd_StreamID = [],
     cd_CallControlID = [], cd_OutboundEnc = [], cd_InboundEnc = [], cd_From = [], cd_To = [],
     cd_StreamIDPlivo = [], cd_CallID = [], cd_AccountSid = []\<rparr>"

definition as_twilio :: "anymap \<Rightarrow> call_data option" where
  "as_twilio m =
     (case key_object m ''start'' of
        Some st \<Rightarrow>
          if key_string m ''event'' = ''start'' \<and> key_string st ''streamSid'' \<noteq> [] \<and> key_string st ''callSid'' \<noteq> []
          then Some (no_call\<lparr>cd_Provider := ''twilio'', cd_StreamSid := key_string st ''streamSid'',
                 cd_CallSid := key_string st ''callSid'', cd_Body := key_object st ''customParameters''\<rparr>)
          else None
      | None \<Rightarrow> None)"

definition as_telnyx :: "anymap \<Rightarrow> call_data option" where
  "as_telnyx m =
     (case key_object m ''start'' of
        Some st \<Rightarrow>
          if key_string m ''stream_id'' \<noteq> [] \<and> key_string st ''call_control_id'' \<noteq> []
          then Some (no_call\<lparr>cd_Provider := ''telnyx'', cd_StreamID := key_string m ''stream_id'',
                 cd_CallControlID := key_string st ''call_control_id'',
                 cd_OutboundEnc := (case key_object st ''media_format'' of
                     Some mf \<Rightarrow> key_string mf ''encoding'' | None \<Rightarrow> []),
                 cd_From := key_string st ''from'', cd_To := key_string st ''to'', cd_InboundEnc := ''PCMU''\<rparr>)
          else None
      | None \<Rightarrow> None)"

definition as_plivo :: "anymap \<Rightarrow> call_data option" where
  "as_plivo m =
     (case key_object m ''start'' of
        Some st \<Rightarrow>
          if key_string st ''streamId'' \<noteq> [] \<and> key_string st ''callId'' \<noteq> []
          then Some (no_call\<lparr>cd_Provider := ''plivo'', cd_StreamIDPlivo := key_string st ''streamId'',
                 cd_CallID := key_string st ''callId''\<rparr>)
          else None
      | None \<Rightarrow> None)"

definition as_exotel :: "anymap \<Rightarrow> call_data option" where
  "as_exotel m =
     (case key_object m ''start'' of
        Some st \<Rightarrow>
          if key_string m ''event'' = ''start'' \<and> key_string st ''stream_sid'' \<noteq> [] \<and> key_string st ''call_sid'' \<noteq> []
          then Some (no_call\<lparr>cd_Provider := ''exotel'', cd_StreamSid := key_string st ''stream_sid'',
                 cd_CallSid := key_string st ''call_sid'', cd_AccountSid := key_string st ''account_sid'',
                 cd_From := key_string st ''from'', cd_To := key_string st ''to''\<rparr>)
          else None
      | None \<Rightarrow> None)"

fun first_some :: "'a option list \<Rightarrow> 'a option" where
  "first_some [] = None"
| "first_some (Some x # xs) = Some x"
| "first_some (None # xs) = first_some xs"

text \<open>One message; a null decodes to a nil map.\<close>

definition try_message :: "any option \<Rightarrow> call_data option" where
  "try_message v =
     (case v of
        Some (AObj m) \<Rightarrow> first_some [as_twilio m, as_telnyx m, as_plivo m, as_exotel m]
      | _ \<Rightarrow> None)"

text \<open>\<open>second\<close> is \<open>None\<close> if there is no second message.\<close>

definition ParseTelephonyMessage :: "any option \<Rightarrow> any option option \<Rightarrow> call_data option" where
  "ParseTelephonyMessage m1 m2 =
     first_some [try_message m1, (case m2 of None \<Rightarrow> None | Some v \<Rightarrow> try_message v)]"

datatype line_serializer =
    TwilioLine twilio | TelnyxLine telnyx | PlivoLine plivo | ExotelLine exotel

definition BuildTelephonySerializer ::
  "call_data \<Rightarrow> (string \<Rightarrow> string \<Rightarrow> string) \<Rightarrow> line_serializer option" where
  "BuildTelephonySerializer d key =
     (if cd_Provider d = ''twilio''
      then Some (TwilioLine (NewTwilio (cd_StreamSid d) (cd_CallSid d)
             (key ''twilio_account_sid'' ''TWILIO_ACCOUNT_SID'') (key ''twilio_auth_token'' ''TWILIO_AUTH_TOKEN'')
             [] [] None))
      else if cd_Provider d = ''telnyx''
      then Some (TelnyxLine (NewTelnyx (cd_StreamID d)
             (if cd_OutboundEnc d = [] then ''PCMU'' else cd_OutboundEnc d) (cd_InboundEnc d)
             (cd_CallControlID d) (key ''telnyx_api_key'' ''TELNYX_API_KEY'') None))
      else if cd_Provider d = ''plivo''
      then Some (PlivoLine (NewPlivo (cd_StreamIDPlivo d) (cd_CallID d)
             (key ''plivo_auth_id'' ''PLIVO_AUTH_ID'') (key ''plivo_auth_token'' ''PLIVO_AUTH_TOKEN'') None))
      else if cd_Provider d = ''exotel'' then Some (ExotelLine (NewExotel (cd_StreamSid d) (cd_CallSid d) None))
      else None)"

text \<open>The two reads of the handshake; \<open>None\<close> for end of file counts as a message without contents.\<close>

definition ReadFirstTwoTextMessages ::
  "(err + string) \<Rightarrow> (err + string) \<Rightarrow> err + (string \<times> string)" where
  "ReadFirstTwoTextMessages r1 r2 =
     (case r1 of
        Inl e \<Rightarrow> if e = ''EOF'' then Inr ([], case r2 of Inr s \<Rightarrow> s | Inl _ \<Rightarrow> []) else Inl e
      | Inr f \<Rightarrow> Inr (f, case r2 of Inr s \<Rightarrow> s | Inl _ \<Rightarrow> []))"

section \<open>Hanging up\<close>

definition requests :: "('s \<Rightarrow> frame \<Rightarrow> 's \<times> http_request list \<times> wire option) \<Rightarrow> 's \<Rightarrow> frame
    \<Rightarrow> 's \<times> http_request list" where
  "requests ser s f = (fst (ser s f), fst (snd (ser s f)))"

lemma requests_simps [simp]:
  "fst (requests ser s f) = fst (ser s f)" "snd (requests ser s f) = fst (snd (ser s f))"
  by (simp_all add: requests_def)

locale hangs_up =
  fixes ser :: "'a hanging_scheme \<Rightarrow> frame \<Rightarrow> 'a hanging_scheme \<times> http_request list \<times> wire option"
    and call :: "'a hanging_scheme \<Rightarrow> http_request list"
    and sends :: "'a hanging_scheme \<Rightarrow> frame \<Rightarrow> 'a hanging_scheme \<times> wire option"
  assumes ser: "ser s f = hanging_serialize call sends s f"
    and sends_keeps: "call (fst (sends s f)) = call s" "hu_auto (fst (sends s f)) = hu_auto s"
      "hu_done (fst (sends s f)) = hu_done s"
    and call_done: "call (s\<lparr>hu_done := b\<rparr>) = call s"
begin

lemma done_silent: "\<not> hu_auto s \<or> hu_done s \<Longrightarrow> snd (run (requests ser) s fs) = []"
proof (induction fs arbitrary: s)
  case (Cons f fs)
  let ?s = "fst (ser s f)"
  have "fst (snd (ser s f)) = []" "\<not> hu_auto ?s \<or> hu_done ?s"
    using Cons.prems by (auto simp: ser hanging_serialize_def sends_keeps split: prod.splits)
      (metis fst_conv sends_keeps(2,3))+
  with Cons.IH [of ?s] show ?case by (simp del: run.simps(2))
qed simp

lemma run_requests:
  "snd (run (requests ser) s fs) = (if hu_auto s \<and> \<not> hu_done s \<and> list_ex ends_call fs then call s else [])"
proof (induction fs arbitrary: s)
  case (Cons f fs)
  consider "\<not> hu_auto s \<or> hu_done s" | "hu_auto s" "\<not> hu_done s" "ends_call f"
    | "hu_auto s" "\<not> hu_done s" "\<not> ends_call f" by blast
  then show ?case
  proof cases
    case 1
    then show ?thesis using done_silent [of s "f # fs"] by auto
  next
    case 2
    then have "ser s f = (s\<lparr>hu_done := True\<rparr>, call s, None)" by (simp add: ser hanging_serialize_def)
    with 2 done_silent [of "s\<lparr>hu_done := True\<rparr>" fs] show ?thesis by (simp del: run.simps(2))
  next
    case 3
    then have "ser s f = (fst (sends s f), [], snd (sends s f))"
      by (simp add: ser hanging_serialize_def case_prod_beta)
    with 3 Cons.IH [of "fst (sends s f)"] show ?thesis
      by (simp add: sends_keeps del: run.simps(2))
  qed
qed simp

end

lemma line_serialize_keeps:
  assumes "\<And>a r. g (fst (media s a r)) = g s"
  shows "g (fst (line_serialize c media s f)) = g s"
  using assms by (cases "fbody f") (auto simp: line_serialize_def media_audio_def)

lemma to_line_state:
  "fst (to_line s pcm rate) = s \<or> fst (to_line s pcm rate) = s\<lparr>rt_session := 16000\<rparr>"
  by (simp add: to_line_def Let_def)

lemma to_line_keeps:
  "g (s\<lparr>rt_session := 16000\<rparr>) = g s \<Longrightarrow> g (fst (to_line s pcm rate)) = g s"
  using to_line_state [of s pcm rate] by (elim disjE) simp_all


lemma law_Nil_iff:
  "EncodeULaw b = [] \<longleftrightarrow> length b \<le> 1" "EncodeALaw b = [] \<longleftrightarrow> length b \<le> 1"
  "DecodeULaw b = [] \<longleftrightarrow> b = []" "DecodeALaw b = [] \<longleftrightarrow> b = []"
proof -
  have "samples_of b = [] \<longleftrightarrow> length b \<le> 1" by (cases b rule: samples_of.cases) simp_all
  then show "EncodeULaw b = [] \<longleftrightarrow> length b \<le> 1" "EncodeALaw b = [] \<longleftrightarrow> length b \<le> 1"
    by (simp_all add: EncodeULaw_def EncodeALaw_def)
  have "bytes_of_samples s = [] \<longleftrightarrow> s = []" for s by (cases s) (simp_all add: put16_def)
  then show "DecodeULaw b = [] \<longleftrightarrow> b = []" "DecodeALaw b = [] \<longleftrightarrow> b = []"
    by (simp_all add: DecodeULaw_def DecodeALaw_def)
qed

definition twilio_sends :: "twilio \<Rightarrow> frame \<Rightarrow> twilio \<times> wire option" where
  "twilio_sends s = line_serialize
     (Some (AObj [(''event'', AStr ''clear''), (''streamSid'', AStr (tw_StreamSid s))])) twilio_serializeAudio s"

definition telnyx_sends :: "telnyx \<Rightarrow> frame \<Rightarrow> telnyx \<times> wire option" where
  "telnyx_sends = line_serialize (Some (AObj [(''event'', AStr ''clear'')])) telnyx_serializeAudio"

definition plivo_sends :: "plivo \<Rightarrow> frame \<Rightarrow> plivo \<times> wire option" where
  "plivo_sends s = line_serialize
     (Some (AObj [(''event'', AStr ''clearAudio''), (''streamId'', AStr (pv_StreamID s))])) plivo_serializeAudio s"

lemma twilio_sends_keeps: "g (s\<lparr>rt_session := 16000\<rparr>) = g s \<Longrightarrow> g (fst (twilio_sends s f)) = g s"
  unfolding twilio_sends_def
  by (rule line_serialize_keeps)
    (simp add: twilio_serializeAudio_def Let_def case_prod_beta to_line_keeps)

lemma telnyx_sends_keeps: "g (s\<lparr>rt_session := 16000\<rparr>) = g s \<Longrightarrow> g (fst (telnyx_sends s f)) = g s"
  unfolding telnyx_sends_def
  by (rule line_serialize_keeps)
    (simp add: telnyx_serializeAudio_def Let_def case_prod_beta to_line_keeps)

lemma plivo_sends_keeps: "g (s\<lparr>rt_session := 16000\<rparr>) = g s \<Longrightarrow> g (fst (plivo_sends s f)) = g s"
  unfolding plivo_sends_def
  by (rule line_serialize_keeps)
    (simp add: plivo_serializeAudio_def Let_def case_prod_beta to_line_keeps)

interpretation twilio_line: hangs_up twilio_serialize twilio_hangUpCall twilio_sends
  by unfold_locales
    (simp_all add: twilio_serialize_def twilio_sends_def [abs_def, symmetric] twilio_sends_keeps
      twilio_hangUpCall_def twilio_url_def)

interpretation telnyx_line: hangs_up telnyx_serialize telnyx_hangUpCall telnyx_sends
  by unfold_locales
    (simp_all add: telnyx_serialize_def telnyx_sends_def [symmetric] telnyx_sends_keeps telnyx_hangUpCall_def
      telnyx_url_def)

interpretation plivo_line: hangs_up plivo_serialize plivo_hangUpCall plivo_sends
  by unfold_locales
    (simp_all add: plivo_serialize_def plivo_sends_def [abs_def, symmetric] plivo_sends_keeps plivo_hangUpCall_def
      plivo_url_def)

text \<open>C31: A call is hung up at most once: over any frames, the first that ends the session hangs up, if hanging
  up is configured and the serializer was built with the ids and credentials, and no other frame does.
  Then the one request is handed to the HTTP client if and only if its address, which contains the ids
  as they came from the provider, parses; otherwise no request is made at all and the goroutine
  panics, for the error of building the request is dropped.\<close>

theorem call_hung_up_once:
  "snd (run (requests twilio_serialize) tw fs) =
     (if hu_auto tw \<and> \<not> hu_done tw \<and> list_ex ends_call fs \<and>
         tw_CallSid tw \<noteq> [] \<and> tw_AccountSid tw \<noteq> [] \<and> tw_AuthToken tw \<noteq> []
      then [if url_parses (twilio_url tw) then Request ''POST'' (twilio_url tw) ''Status=completed'' else NilRequest]
      else []) \<and>
   snd (run (requests telnyx_serialize) tx fs) =
     (if hu_auto tx \<and> \<not> hu_done tx \<and> list_ex ends_call fs \<and> tx_CallControlID tx \<noteq> [] \<and> tx_APIKey tx \<noteq> []
      then [if url_parses (telnyx_url tx) then Request ''POST'' (telnyx_url tx) ''{}'' else NilRequest] else []) \<and>
   snd (run (requests plivo_serialize) pv fs) =
     (if hu_auto pv \<and> \<not> hu_done pv \<and> list_ex ends_call fs \<and>
         pv_CallID pv \<noteq> [] \<and> pv_AuthID pv \<noteq> [] \<and> pv_AuthToken pv \<noteq> []
      then [if url_parses (plivo_url pv) then Request ''DELETE'' (plivo_url pv) [] else NilRequest] else [])"
  by (simp add: twilio_line.run_requests telnyx_line.run_requests plivo_line.run_requests
      twilio_hangUpCall_def telnyx_hangUpCall_def plivo_hangUpCall_def new_request_def del: run.simps)

text \<open>Both cases occur: the id of a call is whatever the start message says.\<close>

lemma hang_up_addresses:
  "url_parses (telnyx_url (NewTelnyx ''s'' [] [] ''v3:a-B_1'' ''k'' None))"
  "url_parses (twilio_url (NewTwilio ''s'' ''CA1'' ''AC1'' ''t'' [] [] None))"
  "url_parses (plivo_url (NewPlivo ''s'' ''c1'' ''MA1'' ''t'' None))"
  "\<not> url_parses (telnyx_url (NewTelnyx ''s'' [] [] ''%'' ''k'' None))"
  "\<not> url_parses (twilio_url (NewTwilio ''s'' ''%'' ''AC1'' ''t'' [] [] None))"
  "\<not> url_parses (plivo_url (NewPlivo ''s'' ''%'' ''MA1'' ''t'' None))"
  by code_simp+

section \<open>Audio there and back\<close>

definition media_object :: "string \<Rightarrow> anymap \<Rightarrow> any" where
  "media_object p rest = AObj ([(''event'', AStr ''media''), (''media'', AObj [(''payload'', AStr p)])] @ rest)"

lemma line_message_media:
  "line_message (Some (media_object p [])) = Some \<lparr>lm_event = ''media'', lm_payload = p, lm_digit = []\<rparr>"
  "line_message (Some (media_object p [(''streamSid'', AStr sid)])) =
     Some \<lparr>lm_event = ''media'', lm_payload = p, lm_digit = []\<rparr>"
  by (simp_all add: line_message_def media_object_def line_fields_def no_msg_def json_simps
      ToLower_def lower_char_def)

lemma line_Deserialize_media:
  assumes "b \<noteq> []" "dec b \<noteq> []"
  shows "line_Deserialize dec s (Some (media_object (EncodeToString b) [])) ids = a_frame (from_line s (dec b) ids)"
    "line_Deserialize dec s (Some (media_object (EncodeToString b) [(''streamSid'', AStr sid)])) ids =
       a_frame (from_line s (dec b) ids)"
  by (simp_all add: line_Deserialize_def line_message_media assms)

lemma media_is_sent:
  assumes "media_audio f = Some a" "audio a \<noteq> []"
  shows "line_serialize clear media s f = media s (audio a) (sample_rate a)" "\<not> ends_call f"
  using assms by (cases "fbody f"; simp add: line_serialize_def media_audio_def ends_call_def)+


lemmas sends_media = twilio_serialize_def telnyx_serialize_def exotel_serialize_def
  hanging_serialize_def twilio_serializeAudio_def telnyx_serializeAudio_def
  exotel_serializeAudio_def Let_def case_prod_beta

lemma law_code_Nil_iff:
  "law_encode e b = [] \<longleftrightarrow> length b \<le> 1" "law_decode e b = [] \<longleftrightarrow> b = []"
  by (simp_all add: law_encode_def law_decode_def law_Nil_iff)

text \<open>What a line is sent comes back as the audio: a message in which Twilio, Telnyx or Exotel is sent
  audio (at least one sample after resampling to the line's rate) is read, by a serializer of the same kind,
  as exactly that audio after the line's companding, at the rate of the reader's session. Telnyx needs the
  same encoding in both directions; Exotel's audio is not changed at all.\<close>

theorem line_media_roundtrip:
  assumes "media_audio f = Some a" "audio a \<noteq> []"
    and "1 < length (snd (to_line tw (audio a) (sample_rate a)))"
    and "1 < length (snd (to_line tx (audio a) (sample_rate a)))"
    and "1 < length (snd (to_line ex (audio a) (sample_rate a)))"
    and "tx_OutboundEncoding tx' = tx_InboundEncoding tx"
  shows "(\<exists>v. snd (twilio_serialize tw f) = ([], Some (JsonText v)) \<and>
      twilio_Deserialize tw' (Some v) ids =
        a_frame (from_line tw' (DecodeULaw (EncodeULaw (snd (to_line tw (audio a) (sample_rate a))))) ids)) \<and>
    (\<exists>v. snd (telnyx_serialize tx f) = ([], Some (JsonText v)) \<and>
      telnyx_Deserialize tx' (Some v) ids =
        a_frame (from_line tx' (law_decode (tx_InboundEncoding tx) (law_encode (tx_InboundEncoding tx)
          (snd (to_line tx (audio a) (sample_rate a))))) ids)) \<and>
    (\<exists>v. snd (exotel_serialize ex f) = Some (JsonText v) \<and>
      exotel_Deserialize ex' (Some v) ids =
        a_frame (from_line ex' (snd (to_line ex (audio a) (sample_rate a))) ids))"
proof (intro conjI)
  let ?u = "EncodeULaw (snd (to_line tw (audio a) (sample_rate a)))"
  let ?w = "law_encode (tx_InboundEncoding tx) (snd (to_line tx (audio a) (sample_rate a)))"
  let ?x = "snd (to_line ex (audio a) (sample_rate a))"
  have u: "?u \<noteq> []" and w: "?w \<noteq> []" using assms by (simp_all add: law_Nil_iff law_code_Nil_iff)
  have "snd (twilio_serialize tw f) =
      ([], Some (JsonText (media_object (EncodeToString ?u) [(''streamSid'', AStr (tw_StreamSid tw))])))"
    by (simp add: u media_object_def media_is_sent [OF assms(1,2)] sends_media)
  moreover have "DecodeULaw ?u \<noteq> []" using u by (simp add: law_Nil_iff)
  ultimately show "\<exists>v. snd (twilio_serialize tw f) = ([], Some (JsonText v)) \<and>
      twilio_Deserialize tw' (Some v) ids = a_frame (from_line tw' (DecodeULaw ?u) ids)"
    using u by (simp add: twilio_Deserialize_def line_Deserialize_media)
  have "snd (telnyx_serialize tx f) = ([], Some (JsonText (media_object (EncodeToString ?w) [])))"
    by (simp add: w media_object_def media_is_sent [OF assms(1,2)] sends_media)
  moreover have "law_decode e ?w \<noteq> []" for e using w by (simp add: law_code_Nil_iff)
  ultimately show "\<exists>v. snd (telnyx_serialize tx f) = ([], Some (JsonText v)) \<and>
      telnyx_Deserialize tx' (Some v) ids =
        a_frame (from_line tx' (law_decode (tx_InboundEncoding tx) ?w) ids)"
    using w assms(6) by (simp add: telnyx_Deserialize_def line_Deserialize_media)
  have "?x \<noteq> []" using assms(5) by auto
  moreover have "snd (exotel_serialize ex f) =
      Some (JsonText (media_object (EncodeToString ?x) [(''streamSid'', AStr (ex_StreamSid ex))]))"
    by (simp add: media_object_def media_is_sent [OF assms(1,2)] sends_media)
  ultimately show "\<exists>v. snd (exotel_serialize ex f) = Some (JsonText v) \<and>
      exotel_Deserialize ex' (Some v) ids = a_frame (from_line ex' ?x ids)"
    by (simp add: exotel_Deserialize_def line_Deserialize_media)
qed


theorem line_media_roundtrip_witness:
  "let f = Frame (NewBaseWithID 7) (AudioRawFrame (audio_of [1, 2, 3, 4] 8000 1 0));
       ex = NewExotel ''st'' ''ca'' None
   in \<exists>v. snd (exotel_serialize ex f) = Some (JsonText v) \<and>
     exotel_Deserialize (NewExotel ''st'' ''ca'' (Some (8000, 8000))) (Some v) 9 =
       a_frame (NewAudioRawFrame [1, 2, 3, 4] 8000 1 0 9)"
proof -
  let ?f = "Frame (NewBaseWithID 7) (AudioRawFrame (audio_of [1, 2, 3, 4] 8000 1 0))"
  let ?tw = "NewTwilio ''st'' ''ca'' ''ac'' ''to'' [] [] None"
  let ?tx = "NewTelnyx ''st'' [] [] ''ca'' ''ke'' None"
  have ma: "media_audio ?f = Some (audio_of [1, 2, 3, 4] 8000 1 0)" by (simp add: media_audio_def)
  have tl: "snd (to_line s (audio (audio_of [1, 2, 3, 4] 8000 1 0)) (sample_rate (audio_of [1, 2, 3, 4] 8000 1 0))) =
      [1, 2, 3, 4]" if "rt_line s = 8000" for s :: "'a rates_scheme"
    using that by (simp add: to_line_def audio_of_def Let_def)
  have rates: "rt_line ?tw = 8000" "rt_line ?tx = 8000" "rt_line (NewExotel ''st'' ''ca'' None) = 8000"
    "tx_OutboundEncoding ?tx = tx_InboundEncoding ?tx"
    "from_line (NewExotel ''st'' ''ca'' (Some (8000, 8000))) [1, 2, 3, 4] 9 = NewAudioRawFrame [1, 2, 3, 4] 8000 1 0 9"
    by (simp_all add: NewTwilio_def NewTelnyx_def NewExotel_def from_line_def Let_def)
  have "1 < length [1, 2, 3, 4 :: byte]" "audio (audio_of [1, 2, 3, 4] 8000 1 0) \<noteq> []"
    by (simp_all add: audio_of_def)
  with line_media_roundtrip [OF ma, of ?tw ?tx "NewExotel ''st'' ''ca'' None" ?tx ?tw 9
      "NewExotel ''st'' ''ca'' (Some (8000, 8000))"]
  show ?thesis unfolding Let_def tl [OF rates(1)] tl [OF rates(2)] tl [OF rates(3)] rates(4,5) by blast
qed

section \<open>What is received\<close>

definition proper :: "'a rates_scheme \<Rightarrow> bool \<Rightarrow> received \<Rightarrow> bool" where
  "proper s may_fail r =
     (case fst r of
        Inl e \<Rightarrow> may_fail \<and> e = ''json''
      | Inr None \<Rightarrow> True
      | Inr (Some f) \<Rightarrow>
          (case fbody f of
             AudioRawFrame a \<Rightarrow> sample_rate a = (if rt_session s = 0 then 16000 else rt_session s) \<and>
               num_channels a = 1 \<and> num_frames a = int (length (audio a) div 2)
           | InputDTMFFrame k \<Rightarrow> (case k of [c] \<Rightarrow> c \<in> set ValidKeypadRunes | _ \<Rightarrow> False)
           | _ \<Rightarrow> False))"

lemma proper_simps [simp]:
  "proper s b (no_frame ids)" "proper s b (a_frame (from_line s pcm ids))"
  by (simp_all add: proper_def no_frame_def a_frame_def from_line_def NewAudioRawFrame_def audio_of_def Let_def
      zdiv_int)

lemma proper_dtmf [simp]: "proper s b (dtmf_frame digit ids)"
proof (cases "ParseKeypadEntry digit")
  case (Inr k)
  then have "\<exists>c. k = [c] \<and> c \<in> set ValidKeypadRunes"
    by (auto simp: ParseKeypadEntry_def Let_def neq_Nil_conv split: if_splits)
  then obtain c where c: "k = [c]" "c \<in> set ValidKeypadRunes" by blast
  then have "NewInputDTMFFrame k ids = (Inr (fst (mk_frame (InputDTMFFrame [c]) ids)), ids + 1)"
    by (simp add: NewInputDTMFFrame_def case_prod_beta)
  with Inr c show ?thesis by (simp add: dtmf_frame_def proper_def no_frame_def)
qed (simp add: dtmf_frame_def)

lemma proper_line: "proper s True (line_Deserialize dec s v ids)"
proof -
  have "proper s True (Inl ''json'', ids)" by (simp add: proper_def)
  then show ?thesis by (simp add: line_Deserialize_def split: option.splits)
qed

text \<open>C30: Whatever JSON or bytes a provider sends, a serializer answers with nothing, with mono audio at the
  session's rate (16000 if none is set) whose number of samples is right, or with one valid key; the only
  error is text that is no JSON of the expected shape, and not even that for Vonage and Genesys.\<close>

theorem received_frames_proper:
  "proper tw True (twilio_Deserialize tw v ids) \<and> proper tx True (telnyx_Deserialize tx v ids) \<and>
   proper pv True (plivo_Deserialize pv v ids) \<and> proper ex True (exotel_Deserialize ex v ids) \<and>
   proper vo False (vonage_Deserialize parse vo b ids) \<and>
   proper ge False (snd (genesys_Deserialize parse ge b ids))"
  by (simp add: twilio_Deserialize_def telnyx_Deserialize_def plivo_Deserialize_def exotel_Deserialize_def
      vonage_Deserialize_def genesys_Deserialize_def proper_line Let_def split: option.splits)


section \<open>Genesys messages\<close>

lemma genesys_reads_media:
  "json_fields genesys_fields (pre @ [(''parameters'', AObj ((''media'', AArr l) # rest))] @ post) m = None"
proof (induction pre arbitrary: m)
  case Nil
  then show ?case by (simp add: genesys_fields_def json_simps)
next
  case (Cons kv pre)
  then show ?case by (cases kv) (simp split: option.splits)
qed

text \<open>Genesys cannot be understood: in an \<^verbatim>\<open>open\<close> message the parameter \<^verbatim>\<open>media\<close> is a list of formats,
  as in the \<^verbatim>\<open>opened\<close> message this serializer itself writes, but the reader expects a string. So the text
  of such a message is no valid JSON to it and is played as audio: the session id and the client's
  sequence number are not recorded, and the next answer carries an empty id and 0.\<close>

theorem genesys_open_is_noise:
  assumes "parse b = Some (snd (CreateOpenedResponse peer paused langs lang))" "b \<noteq> []"
  shows "genesys_Deserialize parse (NewGenesys None) b ids =
      (NewGenesys None, a_frame (from_line (NewGenesys None) (DecodeULaw b) ids)) \<and>
    (case CreatePongResponse (fst (genesys_Deserialize parse (NewGenesys None) b ids)) of (_, v) \<Rightarrow>
      v = AObj [(''clientseq'', ANum 0), (''id'', AStr []), (''seq'', ANum 1), (''type'', AStr ''pong''),
        (''version'', AStr ''2'')])"
proof -
  let ?pre = "[(''clientseq'', ANum (of_int (ge_clientSeq peer))), (''id'', AStr (ge_sessionID peer))]"
  let ?media = "AArr [AObj [(''channels'', AArr [AStr ''external'']), (''format'', AStr (ge_MediaFormat peer)),
    (''rate'', ANum (of_int (rt_line peer))), (''type'', AStr ''audio'')]]"
  obtain rest post where "snd (CreateOpenedResponse peer paused langs lang) =
      AObj (?pre @ [(''parameters'', AObj ((''media'', ?media) # rest))] @ post)"
    by (simp add: CreateOpenedResponse_def Let_def)
  then have "genesys_message (parse b) = None"
    using genesys_reads_media assms(1) by (simp add: genesys_message_def json_into_def del: append.simps)
  with assms(2) show ?thesis
    by (simp add: genesys_Deserialize_def NewGenesys_def CreatePongResponse_def law_Nil_iff Let_def)
qed

theorem genesys_open_is_noise_witness:
  "fst (genesys_Deserialize (\<lambda>_. Some (snd (CreateOpenedResponse (NewGenesys None) True [] [])))
     (NewGenesys None) [0x7B, 0x7D] 1) = NewGenesys None"
  using genesys_open_is_noise [of "\<lambda>_. Some (snd (CreateOpenedResponse (NewGenesys None) True [] []))"
      "[0x7B, 0x7D]" "NewGenesys None" True "[]" "[]" 1] by simp

section \<open>Detection\<close>

text \<open>The start messages of the providers, with the fields they are recognised by.\<close>

definition twilio_start :: "string \<Rightarrow> string \<Rightarrow> any" where
  "twilio_start stream call = AObj [(''event'', AStr ''start''), (''streamSid'', AStr stream),
     (''start'', AObj [(''streamSid'', AStr stream), (''callSid'', AStr call)])]"

definition telnyx_start :: "string \<Rightarrow> string \<Rightarrow> string \<Rightarrow> any" where
  "telnyx_start stream call enc = AObj [(''event'', AStr ''start''), (''stream_id'', AStr stream),
     (''start'', AObj [(''call_control_id'', AStr call), (''media_format'', AObj [(''encoding'', AStr enc)])])]"

definition plivo_start :: "string \<Rightarrow> string \<Rightarrow> any" where
  "plivo_start stream call = AObj [(''event'', AStr ''start''),
     (''start'', AObj [(''callId'', AStr call), (''streamId'', AStr stream)])]"

definition exotel_start :: "string \<Rightarrow> string \<Rightarrow> any" where
  "exotel_start stream call = AObj [(''event'', AStr ''start''), (''stream_sid'', AStr stream),
     (''start'', AObj [(''stream_sid'', AStr stream), (''call_sid'', AStr call)])]"

definition connected :: any where
  "connected = AObj [(''event'', AStr ''connected'')]"

definition line_of :: "any option \<Rightarrow> any option option \<Rightarrow> (string \<Rightarrow> string \<Rightarrow> string) \<Rightarrow> line_serializer option" where
  "line_of m1 m2 key =
     (case ParseTelephonyMessage m1 m2 of None \<Rightarrow> None | Some d \<Rightarrow> BuildTelephonySerializer d key)"

lemmas detection_defs = line_of_def ParseTelephonyMessage_def try_message_def as_twilio_def as_telnyx_def
  as_plivo_def as_exotel_def BuildTelephonySerializer_def key_object_def key_string_def key_value_def no_call_def

text \<open>The handshake finds the right line: after a greeting, the start message of each provider gives a
  serializer of that provider for its stream and call, at 8000 samples a second, which hangs up at the end
  where the provider has a call to hang up; and what is detected always has a serializer.\<close>

theorem handshake_builds_line:
  assumes "stream \<noteq> []" "call \<noteq> []"
  shows "(\<exists>s. line_of (Some connected) (Some (Some (twilio_start stream call))) key = Some (TwilioLine s) \<and>
      tw_StreamSid s = stream \<and> tw_CallSid s = call \<and> rt_line s = 8000 \<and> hu_auto s) \<and>
    (\<exists>s. line_of (Some connected) (Some (Some (telnyx_start stream call enc))) key = Some (TelnyxLine s) \<and>
      tx_StreamID s = stream \<and> tx_CallControlID s = call \<and> rt_line s = 8000 \<and> hu_auto s \<and>
      tx_OutboundEncoding s = (if enc = [] then ''PCMU'' else enc) \<and> tx_InboundEncoding s = ''PCMU'') \<and>
    (\<exists>s. line_of (Some connected) (Some (Some (plivo_start stream call))) key = Some (PlivoLine s) \<and>
      pv_StreamID s = stream \<and> pv_CallID s = call \<and> rt_line s = 8000 \<and> hu_auto s) \<and>
    (\<exists>s. line_of (Some connected) (Some (Some (exotel_start stream call))) key = Some (ExotelLine s) \<and>
      ex_StreamSid s = stream \<and> ex_CallSid s = call \<and> rt_line s = 8000) \<and>
    list_all (\<lambda>(m1, m2). ParseTelephonyMessage m1 m2 \<noteq> None \<longrightarrow> line_of m1 m2 key \<noteq> None) ms"
proof (intro conjI)
  show "\<exists>s. line_of (Some connected) (Some (Some (twilio_start stream call))) key = Some (TwilioLine s) \<and>
      tw_StreamSid s = stream \<and> tw_CallSid s = call \<and> rt_line s = 8000 \<and> hu_auto s"
    using assms by (simp add: detection_defs connected_def twilio_start_def NewTwilio_def)
  show "\<exists>s. line_of (Some connected) (Some (Some (telnyx_start stream call enc))) key = Some (TelnyxLine s) \<and>
      tx_StreamID s = stream \<and> tx_CallControlID s = call \<and> rt_line s = 8000 \<and> hu_auto s \<and>
      tx_OutboundEncoding s = (if enc = [] then ''PCMU'' else enc) \<and> tx_InboundEncoding s = ''PCMU''"
    using assms by (simp add: detection_defs connected_def telnyx_start_def NewTelnyx_def Let_def)
  show "\<exists>s. line_of (Some connected) (Some (Some (plivo_start stream call))) key = Some (PlivoLine s) \<and>
      pv_StreamID s = stream \<and> pv_CallID s = call \<and> rt_line s = 8000 \<and> hu_auto s"
    using assms by (simp add: detection_defs connected_def plivo_start_def NewPlivo_def)
  show "\<exists>s. line_of (Some connected) (Some (Some (exotel_start stream call))) key = Some (ExotelLine s) \<and>
      ex_StreamSid s = stream \<and> ex_CallSid s = call \<and> rt_line s = 8000"
    using assms by (simp add: detection_defs connected_def exotel_start_def NewExotel_def)
  have "cd_Provider d \<in> {''twilio'', ''telnyx'', ''plivo'', ''exotel''}" if "try_message v = Some d" for v d
    using that
    by (auto simp: try_message_def as_twilio_def as_telnyx_def as_plivo_def as_exotel_def
        split: option.splits any.splits if_splits)
  then have "ParseTelephonyMessage m1 m2 \<noteq> None \<longrightarrow> line_of m1 m2 key \<noteq> None" for m1 m2
    unfolding line_of_def BuildTelephonySerializer_def ParseTelephonyMessage_def
    by (cases "try_message m1"; cases m2; cases "try_message (the m2)") fastforce+
  then show "list_all (\<lambda>(m1, m2). ParseTelephonyMessage m1 m2 \<noteq> None \<longrightarrow> line_of m1 m2 key \<noteq> None) ms"
    by (simp add: list_all_iff)
qed


theorem handshake_builds_line_witness:
  "\<exists>s. line_of (Some connected) (Some (Some (telnyx_start ''s'' ''c'' ''PCMA''))) (\<lambda>_ _. ''key'') = Some (TelnyxLine s) \<and>
      tx_StreamID s = ''s'' \<and> tx_CallControlID s = ''c'' \<and> rt_line s = 8000 \<and> hu_auto s \<and>
      tx_OutboundEncoding s = ''PCMA'' \<and> tx_InboundEncoding s = ''PCMU''"
  using handshake_builds_line [of "''s''" "''c''" "\<lambda>_ _. ''key''" "''PCMA''" "[]"] by simp

end
