(* ===== verification/JsonFrames.thy ===== *)
theory JsonFrames
  imports GoJson TextAgg
begin

text \<open>
  The JSON envelope of frames, \<^verbatim>\<open>pkg/frames/serialize/serialize.go\<close>, with the tags of the frame structs
  of \<^verbatim>\<open>pkg/frames\<close>. The fields of \<^verbatim>\<open>Base\<close> are unexported, so they are not written; a decoded frame
  gets a new base. Numbers are exact. Strings are bytes, and what is not UTF-8 in them is replaced.
\<close>

section \<open>Encoding\<close>

text \<open>\<^verbatim>\<open>omitempty\<close>, for the types it is used with.\<close>

definition om_str :: "string \<Rightarrow> string \<Rightarrow> anymap" where
  "om_str k s = (if s = [] then [] else [(k, AStr s)])"

definition om_bool :: "string \<Rightarrow> bool option \<Rightarrow> anymap" where
  "om_bool k b = (case b of None \<Rightarrow> [] | Some x \<Rightarrow> [(k, ABool x)])"

definition om_num :: "string \<Rightarrow> rat \<Rightarrow> anymap" where
  "om_num k q = (if q = 0 then [] else [(k, ANum q)])"

definition jint :: "int \<Rightarrow> any" where
  "jint i = ANum (of_int i)"

definition jobjs :: "anymap list \<Rightarrow> any" where
  "jobjs ms = AArr (map AObj ms)"

definition enc_text :: "text_data \<Rightarrow> anymap" where
  "enc_text t = [(''text'', AStr (tdata t))] @ om_bool ''skip_tts'' (skip_tts t) @
     [(''includes_inter_frame_spaces'', ABool (includes_space t)), (''append_to_context'', ABool (append_to_context t))]"

definition enc_audio :: "audio_data \<Rightarrow> anymap" where
  "enc_audio a = [(''sample_rate'', jint (sample_rate a)), (''num_channels'', jint (num_channels a)),
     (''num_frames'', jint (num_frames a))]"

definition enc_context :: "llm_context \<Rightarrow> any" where
  "enc_context c = AObj ([(''messages'', jobjs (messages c))] @
     (if tools c = [] then [] else [(''tools'', jobjs (tools c))]) @ om_str ''tool_choice'' (tool_choice c))"

fun enc_body :: "body \<Rightarrow> anymap" where
  "enc_body (StartFrame i u a m g) =
     [(''audio_in_sample_rate'', jint i), (''audio_out_sample_rate'', jint u), (''allow_interruptions'', ABool a),
      (''enable_metrics'', ABool m), (''enable_usage_metrics'', ABool g)]"
| "enc_body (CancelFrame r) = (if r = ANil then [] else [(''reason'', r)])"
| "enc_body (ErrorFrame e f p) = [(''error'', AStr e), (''fatal'', ABool f)] @ om_str ''processor'' p"
| "enc_body (TextFrame t) = enc_text t"
| "enc_body (AggregatedTextFrame t by') = enc_text t @ om_str ''aggregated_by'' by'"
| "enc_body (TranscriptionFrame t u w l f) =
     enc_text t @ [(''user_id'', AStr u), (''timestamp'', AStr w)] @ om_str ''language'' l @ [(''finalized'', ABool f)]"
| "enc_body (AudioRawFrame a) = enc_audio a"
| "enc_body (OutputAudioRawFrame a d) = enc_audio a @ om_str ''transport_destination'' d"
| "enc_body (TTSAudioRawFrame a d) = enc_audio a @ om_str ''transport_destination'' d"
| "enc_body (TransportMessageFrame m) = [(''message'', AObj m)]"
| "enc_body (ManuallySwitchServiceFrame n) = [(''service_name'', AStr n)]"
| "enc_body (ServiceMetadataFrame n m) =
     [(''service_name'', AStr n)] @ (if m = [] then [] else [(''metadata'', AObj m)])"
| "enc_body (ServiceSwitcherRequestMetadataFrame n) = [(''service_name'', AStr n)]"
| "enc_body (LLMContextFrame c) = [(''context'', case c of None \<Rightarrow> ANil | Some x \<Rightarrow> enc_context x)]"
| "enc_body (LLMMessagesUpdateFrame ms r) = [(''messages'', jobjs ms)] @ om_bool ''run_llm'' r"
| "enc_body (LLMMessagesAppendFrame ms r) = [(''messages'', jobjs ms)] @ om_bool ''run_llm'' r"
| "enc_body (LLMSetToolsFrame ts) = [(''tools'', jobjs ts)]"
| "enc_body (LLMSetToolChoiceFrame c) = [(''tool_choice'', AStr c)]"
| "enc_body (FunctionCallResultFrame n i as r g) =
     [(''function_name'', AStr n), (''tool_call_id'', AStr i)] @ om_str ''arguments'' as @ [(''result'', r)] @
     om_bool ''run_llm'' g"
| "enc_body (LLMTextFrame t) = enc_text t"
| "enc_body (TTSSpeakFrame s) = [(''text'', AStr s)]"
| "enc_body (LLMContextSummaryRequestFrame i c k t p o') =
     [(''request_id'', AStr i), (''context'', case c of None \<Rightarrow> ANil | Some x \<Rightarrow> enc_context x),
      (''min_messages_to_keep'', jint k), (''target_context_tokens'', jint t)] @ om_str ''summarization_prompt'' p @
     (if o' = 0 then [] else [(''summarization_timeout'', jint o')])"
| "enc_body (LLMContextSummaryResultFrame i s n e) =
     [(''request_id'', AStr i), (''summary'', AStr s), (''last_summarized_index'', jint n)] @ om_str ''error'' e"
| "enc_body (VADParamsUpdateFrame p s) = [(''stop_secs'', ANum p)] @ om_num ''start_secs'' s"
| "enc_body (VADUserStartedSpeakingFrame s) = om_num ''start_secs'' s"
| "enc_body (VADUserStoppedSpeakingFrame s) = om_num ''stop_secs'' s"
| "enc_body (InputDTMFFrame d) = [(''digit'', AStr d)]"
| "enc_body (OutputDTMFUrgentFrame b) = [(''button'', AStr b)]"
| "enc_body (RTVIClientMessageFrame i t d) = [(''msg_id'', AStr i), (''type'', AStr t), (''data'', AObj d)]"
| "enc_body (RTVIServerMessageFrame t i d) = [(''type'', AStr t), (''id'', AStr i), (''data'', AObj d)]"
| "enc_body _ = []"

text \<open>\<^verbatim>\<open>json.Marshal\<close> writes U+FFFD for every byte of a string that starts no valid rune, in keys as well.\<close>

definition json_string :: "string \<Rightarrow> string" where
  "json_string s = concat (runes_of s)"

fun json_any :: "any \<Rightarrow> any" where
  "json_any (AStr s) = AStr (json_string s)"
| "json_any (AArr vs) = AArr (map json_any vs)"
| "json_any (AObj kvs) = AObj (map (\<lambda>(k, v). (json_string k, json_any v)) kvs)"
| "json_any v = v"

definition Encoder :: "frame \<Rightarrow> any" where
  "Encoder f = json_any (AObj [(''type'', AStr (frame_type f)), (''data'', AObj (enc_body (fbody f)))])"

section \<open>Decoding\<close>

definition set_any :: "(any \<Rightarrow> 's \<Rightarrow> 's) \<Rightarrow> 's setter" where
  "set_any upd v s = Some (upd v s)"

definition set_map :: "(anymap \<Rightarrow> 's \<Rightarrow> 's) \<Rightarrow> 's setter" where
  "set_map upd v s = (case v of AObj m \<Rightarrow> Some (upd m s) | ANil \<Rightarrow> Some (upd [] s) | _ \<Rightarrow> None)"

definition set_opt_bool :: "(bool option \<Rightarrow> 's \<Rightarrow> 's) \<Rightarrow> 's setter" where
  "set_opt_bool upd v s = (case v of ABool b \<Rightarrow> Some (upd (Some b) s) | ANil \<Rightarrow> Some (upd None s) | _ \<Rightarrow> None)"

fun objs :: "any list \<Rightarrow> anymap list option" where
  "objs [] = Some []"
| "objs (v # vs) =
     (case (v, objs vs) of
        (AObj m, Some ms) \<Rightarrow> Some (m # ms)
      | (ANil, Some ms) \<Rightarrow> Some ([] # ms)
      | _ \<Rightarrow> None)"

definition set_maps :: "(anymap list \<Rightarrow> 's \<Rightarrow> 's) \<Rightarrow> 's setter" where
  "set_maps upd v s =
     (case v of AArr vs \<Rightarrow> map_option (\<lambda>ms. upd ms s) (objs vs) | ANil \<Rightarrow> Some (upd [] s) | _ \<Rightarrow> None)"

definition no_text :: text_data where
  "no_text = \<lparr>tdata = [], skip_tts = None, includes_space = False, append_to_context = False\<rparr>"

text \<open>The fields of an embedded \<^verbatim>\<open>TextFrame\<close>; \<open>on\<close> updates it inside a larger struct.\<close>

definition text_fields :: "((text_data \<Rightarrow> text_data) \<Rightarrow> 's \<Rightarrow> 's) \<Rightarrow> (string \<times> 's setter) list" where
  "text_fields on =
     [(''text'', set_string (\<lambda>x. on (tdata_update (\<lambda>_. x)))),
      (''skip_tts'', set_opt_bool (\<lambda>x. on (skip_tts_update (\<lambda>_. x)))),
      (''includes_inter_frame_spaces'', set_bool (\<lambda>x. on (includes_space_update (\<lambda>_. x)))),
      (''append_to_context'', set_bool (\<lambda>x. on (append_to_context_update (\<lambda>_. x))))]"

definition context_fields :: "(string \<times> llm_context setter) list" where
  "context_fields =
     [(''messages'', set_maps (\<lambda>x. messages_update (\<lambda>_. x))),
      (''tools'', set_maps (\<lambda>x. tools_update (\<lambda>_. x))),
      (''tool_choice'', set_string (\<lambda>x. tool_choice_update (\<lambda>_. x)))]"

text \<open>A pointer: null clears it, an object is decoded into what it points to.\<close>

definition set_context :: "llm_context option setter" where
  "set_context v s =
     (case v of
        ANil \<Rightarrow> Some None
      | _ \<Rightarrow> map_option Some (json_into context_fields v
          (case s of None \<Rightarrow> \<lparr>messages = [], tools = [], tool_choice = []\<rparr> | Some c \<Rightarrow> c)))"

type_synonym decoder = "any \<Rightarrow> body option"

definition dec_plain :: "body \<Rightarrow> decoder" where
  "dec_plain b v = json_into [] v b"

definition dec_text :: "(text_data \<Rightarrow> body) \<Rightarrow> decoder" where
  "dec_text mk v = map_option mk (json_into (text_fields (\<lambda>g. g)) v no_text)"

definition dec_string :: "string \<Rightarrow> (string \<Rightarrow> body) \<Rightarrow> decoder" where
  "dec_string k mk v = map_option mk (json_into [(k, set_string (\<lambda>x _. x))] v [])"

definition dec_number :: "string \<Rightarrow> (rat \<Rightarrow> body) \<Rightarrow> decoder" where
  "dec_number k mk v = map_option mk (json_into [(k, set_number (\<lambda>x _. x))] v 0)"

definition dec_messages :: "(anymap list \<Rightarrow> bool option \<Rightarrow> body) \<Rightarrow> decoder" where
  "dec_messages mk v = map_option (\<lambda>(ms, r). mk ms r)
     (json_into [(''messages'', set_maps (\<lambda>x (ms, r). (x, r))), (''run_llm'', set_opt_bool (\<lambda>x (ms, r). (ms, x)))]
        v ([], None))"

definition dec_start :: decoder where
  "dec_start v = map_option (\<lambda>(i, u, a, m, g). StartFrame i u a m g)
     (json_into
        [(''audio_in_sample_rate'', set_int (\<lambda>x (i, u, a, m, g). (x, u, a, m, g))),
         (''audio_out_sample_rate'', set_int (\<lambda>x (i, u, a, m, g). (i, x, a, m, g))),
         (''allow_interruptions'', set_bool (\<lambda>x (i, u, a, m, g). (i, u, x, m, g))),
         (''enable_metrics'', set_bool (\<lambda>x (i, u, a, m, g). (i, u, a, x, g))),
         (''enable_usage_metrics'', set_bool (\<lambda>x (i, u, a, m, g). (i, u, a, m, x)))]
        v (0, 0, False, False, False))"

definition dec_cancel :: decoder where
  "dec_cancel v = map_option CancelFrame (json_into [(''reason'', set_any (\<lambda>x _. x))] v ANil)"

definition dec_error :: decoder where
  "dec_error v = map_option (\<lambda>(e, f, p). ErrorFrame e f p)
     (json_into
        [(''error'', set_string (\<lambda>x (e, f, p). (x, f, p))), (''fatal'', set_bool (\<lambda>x (e, f, p). (e, x, p))),
         (''processor'', set_string (\<lambda>x (e, f, p). (e, f, x)))] v ([], False, []))"

definition dec_transcription :: decoder where
  "dec_transcription v = map_option (\<lambda>(t, u, w, l, f). TranscriptionFrame t u w l f)
     (json_into
        (text_fields (\<lambda>g (t, r). (g t, r)) @
         [(''user_id'', set_string (\<lambda>x (t, u, w, l, f). (t, x, w, l, f))),
          (''timestamp'', set_string (\<lambda>x (t, u, w, l, f). (t, u, x, l, f))),
          (''language'', set_string (\<lambda>x (t, u, w, l, f). (t, u, w, x, f))),
          (''finalized'', set_bool (\<lambda>x (t, u, w, l, f). (t, u, w, l, x)))])
        v (no_text, [], [], [], False))"

definition dec_aggregated :: decoder where
  "dec_aggregated v = map_option (\<lambda>(t, b). AggregatedTextFrame t b)
     (json_into
        (text_fields (\<lambda>g (t, b). (g t, b)) @ [(''aggregated_by'', set_string (\<lambda>x (t, b). (t, x)))]) v (no_text, []))"

definition dec_context :: decoder where
  "dec_context v = map_option LLMContextFrame (json_into [(''context'', set_context)] v None)"

definition dec_tools :: decoder where
  "dec_tools v = map_option LLMSetToolsFrame (json_into [(''tools'', set_maps (\<lambda>x _. x))] v [])"

definition dec_result :: decoder where
  "dec_result v = map_option (\<lambda>(n, i, as, r, g). FunctionCallResultFrame n i as r g)
     (json_into
        [(''function_name'', set_string (\<lambda>x (n, i, as, r, g). (x, i, as, r, g))),
         (''tool_call_id'', set_string (\<lambda>x (n, i, as, r, g). (n, x, as, r, g))),
         (''arguments'', set_string (\<lambda>x (n, i, as, r, g). (n, i, x, r, g))),
         (''result'', set_any (\<lambda>x (n, i, as, r, g). (n, i, as, x, g))),
         (''run_llm'', set_opt_bool (\<lambda>x (n, i, as, r, g). (n, i, as, r, x)))]
        v ([], [], [], ANil, None))"

definition dec_message :: decoder where
  "dec_message v = map_option TransportMessageFrame (json_into [(''message'', set_map (\<lambda>x _. x))] v [])"

definition dec_vad :: decoder where
  "dec_vad v = map_option (\<lambda>(p, s). VADParamsUpdateFrame p s)
     (json_into [(''stop_secs'', set_number (\<lambda>x (p, s). (x, s))), (''start_secs'', set_number (\<lambda>x (p, s). (p, x)))]
        v (0, 0))"

definition dec_rtvi :: "string \<Rightarrow> (string \<Rightarrow> string \<Rightarrow> anymap \<Rightarrow> body) \<Rightarrow> decoder" where
  "dec_rtvi idk mk v = map_option (\<lambda>(i, t, d). mk i t d)
     (json_into
        [(idk, set_string (\<lambda>x (i, t, d). (x, t, d))), (''type'', set_string (\<lambda>x (i, t, d). (i, x, d))),
         (''data'', set_map (\<lambda>x (i, t, d). (i, t, x)))] v ([], [], []))"

text \<open>The cases of the switch.\<close>

definition decoders :: "(string \<times> decoder) list" where
  "decoders =
     [(''StartFrame'', dec_start), (''CancelFrame'', dec_cancel), (''ErrorFrame'', dec_error),
      (''TextFrame'', dec_text TextFrame), (''TranscriptionFrame'', dec_transcription),
      (''LLMRunFrame'', dec_plain LLMRunFrame), (''LLMTextFrame'', dec_text LLMTextFrame),
      (''TTSSpeakFrame'', dec_string ''text'' TTSSpeakFrame), (''LLMContextFrame'', dec_context),
      (''LLMMessagesUpdateFrame'', dec_messages LLMMessagesUpdateFrame),
      (''LLMMessagesAppendFrame'', dec_messages LLMMessagesAppendFrame), (''LLMSetToolsFrame'', dec_tools),
      (''LLMSetToolChoiceFrame'', dec_string ''tool_choice'' LLMSetToolChoiceFrame),
      (''FunctionCallResultFrame'', dec_result), (''TransportMessageFrame'', dec_message),
      (''MessageFrame'', dec_message), (''BotStartedSpeakingFrame'', dec_plain BotStartedSpeakingFrame),
      (''BotStoppedSpeakingFrame'', dec_plain BotStoppedSpeakingFrame), (''VADParamsUpdateFrame'', dec_vad),
      (''VADUserStartedSpeakingFrame'', dec_number ''start_secs'' VADUserStartedSpeakingFrame),
      (''VADUserStoppedSpeakingFrame'', dec_number ''stop_secs'' VADUserStoppedSpeakingFrame),
      (''UserSpeakingFrame'', dec_plain UserSpeakingFrame), (''AggregatedTextFrame'', dec_aggregated),
      (''OutputDTMFUrgentFrame'', dec_string ''button'' OutputDTMFUrgentFrame),
      (''InterruptionFrame'', dec_plain InterruptionFrame),
      (''InputDTMFFrame'', dec_string ''digit'' InputDTMFFrame),
      (''RTVIClientMessageFrame'', dec_rtvi ''msg_id'' RTVIClientMessageFrame),
      (''RTVIServerMessageFrame'', dec_rtvi ''id'' (\<lambda>i t. RTVIServerMessageFrame t i))]"

text \<open>The payload of an envelope without data is no JSON.\<close>

definition DecodeByType :: "string \<Rightarrow> any option \<Rightarrow> u64 \<Rightarrow> (err + frame) \<times> u64" where
  "DecodeByType typ data ids =
     (case map_of decoders typ of
        None \<Rightarrow> (Inl (''unknown frame type: '' @ typ), ids)
      | Some dec \<Rightarrow>
          (let (ba, ids') = NewBase ids in
           case data of
             None \<Rightarrow> (Inl ''json'', ids')
           | Some v \<Rightarrow> (case dec v of None \<Rightarrow> (Inl ''json'', ids') | Some b \<Rightarrow> (Inr (Frame ba b), ids'))))"

definition envelope_fields :: "(string \<times> (string \<times> any option) setter) list" where
  "envelope_fields =
     [(''type'', set_string (\<lambda>x (t, d). (x, d))), (''data'', set_any (\<lambda>x (t, d). (t, Some x)))]"

definition Decoder :: "any option \<Rightarrow> u64 \<Rightarrow> (err + frame) \<times> u64" where
  "Decoder v ids =
     (case v of
        None \<Rightarrow> (Inl ''json'', ids)
      | Some v \<Rightarrow> (case json_into envelope_fields v ([], None) of
            None \<Rightarrow> (Inl ''json'', ids)
          | Some (t, d) \<Rightarrow> DecodeByType t d ids))"


section \<open>Round trip\<close>

lemma objs_jobjs [simp]: "objs (map AObj ms) = Some ms"
  by (induction ms) simp_all

definition int64 :: "int \<Rightarrow> bool" where
  "int64 i \<longleftrightarrow> - (2 ^ 63) \<le> i \<and> i < 2 ^ 63"

text \<open>Decoding, one entry at a time.\<close>

lemma json_into_obj: "json_into fs (AObj kvs) s = json_fields fs kvs s"
  by (simp add: json_into_def)

lemma json_fields_append:
  "json_fields fs (xs @ ys) s = (case json_fields fs xs s of None \<Rightarrow> None | Some s' \<Rightarrow> json_fields fs ys s')"
  by (induction xs arbitrary: s) (auto split: option.splits)

lemma setters [simp]:
  "set_string u (AStr x) s = Some (u x s)" "set_bool v (ABool b) s = Some (v b s)"
  "int64 i \<Longrightarrow> set_int w (jint i) s = Some (w i s)" "set_number q (ANum r) s = Some (q r s)"
  "set_any a y s = Some (a y s)" "set_map m (AObj kvs) s = Some (m kvs s)"
  "set_opt_bool o' (ABool b) s = Some (o' (Some b) s)" "set_maps l (jobjs ms) s = Some (l ms s)"
  by (simp_all add: set_string_def set_bool_def set_int_def set_number_def set_any_def set_map_def
      set_opt_bool_def set_maps_def jobjs_def jint_def int64_def)

lemma omitted [simp]:
  "json_fields fs (om_str k x) s = (if x = [] then Some s else json_fields fs [(k, AStr x)] s)"
  "json_fields fs (om_bool k b) s = (case b of None \<Rightarrow> Some s | Some v \<Rightarrow> json_fields fs [(k, ABool v)] s)"
  "json_fields fs (om_num k q) s = (if q = 0 then Some s else json_fields fs [(k, ANum q)] s)"
  by (simp_all add: om_str_def om_bool_def om_num_def split: option.splits)

lemmas json_read = json_into_obj json_fields_append find_field_def

lemma read_back:
  "dec_text mk (AObj (enc_text t)) = Some (mk t)"
  "dec_string k mk' (AObj [(k, AStr x)]) = Some (mk' x)"
  "dec_plain b (AObj []) = Some b"
  "dec_number k mkn (AObj (om_num k q)) = Some (mkn q)"
  "dec_messages mkm (AObj ([(''messages'', jobjs ms)] @ om_bool ''run_llm'' r)) = Some (mkm ms r)"
  by (cases t, simp add: dec_text_def enc_text_def text_fields_def json_read no_text_def split: option.splits)
    (simp_all add: dec_string_def dec_plain_def dec_number_def dec_messages_def json_read split: option.splits)

lemma context_back: "set_context (case c of None \<Rightarrow> ANil | Some x \<Rightarrow> enc_context x) None = Some c"
proof (cases c)
  case (Some x)
  then show ?thesis
    by (cases x) (simp add: set_context_def enc_context_def context_fields_def json_read)
qed (simp add: set_context_def)


lemma read_back_struct:
  "int64 i \<Longrightarrow> int64 u \<Longrightarrow> dec_start (AObj (enc_body (StartFrame i u a m g))) = Some (StartFrame i u a m g)"
  "dec_cancel (AObj (enc_body (CancelFrame r))) = Some (CancelFrame r)"
  "dec_error (AObj (enc_body (ErrorFrame e f p))) = Some (ErrorFrame e f p)"
  "dec_context (AObj (enc_body (LLMContextFrame c))) = Some (LLMContextFrame c)"
  "dec_tools (AObj (enc_body (LLMSetToolsFrame ts))) = Some (LLMSetToolsFrame ts)"
  "dec_result (AObj (enc_body (FunctionCallResultFrame n k as x b))) = Some (FunctionCallResultFrame n k as x b)"
  "dec_message (AObj (enc_body (TransportMessageFrame d))) = Some (TransportMessageFrame d)"
  "dec_vad (AObj (enc_body (VADParamsUpdateFrame q v))) = Some (VADParamsUpdateFrame q v)"
  "dec_rtvi ''msg_id'' RTVIClientMessageFrame (AObj (enc_body (RTVIClientMessageFrame n k d))) =
     Some (RTVIClientMessageFrame n k d)"
  "dec_rtvi ''id'' (\<lambda>i t. RTVIServerMessageFrame t i) (AObj (enc_body (RTVIServerMessageFrame n k d))) =
     Some (RTVIServerMessageFrame n k d)"
  by (simp_all add: dec_start_def dec_cancel_def dec_error_def dec_context_def dec_tools_def dec_result_def
      dec_message_def dec_vad_def dec_rtvi_def json_read context_back split: option.splits)

lemma read_back_texts:
  "dec_transcription (AObj (enc_body (TranscriptionFrame t u w l f))) = Some (TranscriptionFrame t u w l f)"
  "dec_aggregated (AObj (enc_body (AggregatedTextFrame t b))) = Some (AggregatedTextFrame t b)"
  by (cases t, simp add: dec_transcription_def enc_text_def text_fields_def json_read no_text_def split: option.splits,
      blast)
    (cases t, simp add: dec_aggregated_def enc_text_def text_fields_def json_read no_text_def split: option.splits)

text \<open>The frames the switch knows, with rates that are 64-bit integers.\<close>

definition decodable :: "body \<Rightarrow> bool" where
  "decodable b \<longleftrightarrow> FrameType b \<in> set (map fst decoders) \<and>
     (case b of StartFrame i u _ _ _ \<Rightarrow> int64 i \<and> int64 u | _ \<Rightarrow> True)"

lemma decoder_reads:
  assumes "decodable b"
  obtains dec where "map_of decoders (FrameType b) = Some dec" "dec (AObj (enc_body b)) = Some b"
proof -
  have "\<exists>dec. map_of decoders (FrameType b) = Some dec \<and> dec (AObj (enc_body b)) = Some b"
    using assms
    by (cases b)
      (simp_all add: decodable_def decoders_def read_back_struct read_back_texts read_back [simplified]
        del: enc_body.simps,
       simp_all add: read_back [simplified])
  then show thesis using that by blast
qed


text \<open>Texts that are valid UTF-8 are written as they are.\<close>

fun texts_valid :: "any \<Rightarrow> bool" where
  "texts_valid (AStr s) = utf8_valid s"
| "texts_valid (AArr vs) = list_all texts_valid vs"
| "texts_valid (AObj kvs) = list_all (\<lambda>(k, v). utf8_valid k \<and> texts_valid v) kvs"
| "texts_valid _ = True"

lemma json_valid: "texts_valid v \<Longrightarrow> json_any v = v"
  by (induction v rule: json_any.induct)
    (auto simp: json_string_def utf8_valid_def list_all_iff intro!: map_idI)

lemma ascii_rune: "of_char c < (128 :: nat) \<Longrightarrow> runes_of (c # s) = [c] # runes_of s"
  using runes_of_rune [of "[c]" s] by (simp add: is_rune_def rune_size_def byte_in_def)

lemma ascii_text: "list_all (\<lambda>c. of_char c < (128 :: nat)) s \<Longrightarrow> json_string s = s"
  by (induction s) (simp_all add: json_string_def ascii_rune)

lemma type_text [simp]: "json_string (FrameType b) = FrameType b"
  by (rule ascii_text) (cases b; simp)

lemma json_keys [simp]: "json_string ''type'' = ''type''" "json_string ''data'' = ''data''"
  by (rule ascii_text, simp)+

lemma envelope_read:
  "json_into envelope_fields (Encoder f) ([], None) = Some (frame_type f, Some (json_any (AObj (enc_body (fbody f)))))"
  by (simp add: Encoder_def envelope_fields_def json_read del: json_any.simps(3))
    (simp add: json_read)

text \<open>C32: The JSON envelope carries every frame its reader knows whose texts are valid UTF-8: what the encoder
  writes of such a frame, optional fields left out where they have their zero value, decodes to a frame
  with the same contents and a new id. Without validity it does not, for the encoder replaces what is
  no UTF-8 (\<open>json_replaces_invalid\<close>).\<close>

theorem json_frame_roundtrip:
  assumes "decodable (fbody f)" "texts_valid (AObj (enc_body (fbody f)))"
  shows "Decoder (Some (Encoder f)) ids = (Inr (Frame (NewBaseWithID (ids + 1)) (fbody f)), ids + 1)"
proof -
  obtain dec where "map_of decoders (frame_type f) = Some dec" "dec (AObj (enc_body (fbody f))) = Some (fbody f)"
    by (rule decoder_reads [OF assms(1)])
  then show ?thesis
    by (simp add: Decoder_def envelope_read json_valid [OF assms(2)] DecodeByType_def NewBase_def nextID_def
        del: json_any.simps)
qed

text \<open>U+00E9 has two bytes and is kept.\<close>

theorem json_frame_roundtrip_witness:
  "Decoder (Some (Encoder (Frame (NewBaseWithID 4) (TTSSpeakFrame [CHR 0xC3, CHR 0xA9])))) 8 =
     (Inr (Frame (NewBaseWithID 9) (TTSSpeakFrame [CHR 0xC3, CHR 0xA9])), 9)"
proof -
  have "is_rune [CHR 0xC3, CHR 0xA9]"
    by (simp add: is_rune_def rune_size_def byte_in_def two_bytes_def)
  then have "utf8_valid [CHR 0xC3, CHR 0xA9]" using utf8_valid_concat [of "[[CHR 0xC3, CHR 0xA9]]"] by simp
  moreover have "utf8_valid ''text''" using ascii_text [of "''text''"] by (simp add: utf8_valid_def json_string_def)
  ultimately show ?thesis
    using json_frame_roundtrip [of "Frame (NewBaseWithID 4) (TTSSpeakFrame [CHR 0xC3, CHR 0xA9])" 8]
    by (simp add: decodable_def decoders_def)
qed

lemma json_replaces_invalid:
  "Decoder (Some (Encoder (Frame ba (TTSSpeakFrame [CHR 0xC3])))) ids =
     (Inr (Frame (NewBaseWithID (ids + 1)) (TTSSpeakFrame rune_error)), ids + 1)"
proof -
  have "json_string [CHR 0xC3] = rune_error" "json_string ''text'' = ''text''"
    using ascii_text [of "''text''"]
    by (simp_all add: json_string_def runes_of.simps [of "[CHR 0xC3]"] rune_size_def byte_in_def)
  then show ?thesis
    using read_back(2) [of "''text''" TTSSpeakFrame rune_error]
    by (simp add: Decoder_def envelope_read DecodeByType_def decoders_def NewBase_def nextID_def)
qed

text \<open>What a JSON connection cannot carry: audio is not written at all, so frames with different samples
  have the same text, and neither audio frames nor the frames that end or stop a session, open and close
  the user's turn or bracket a response can be read back, although they are written.\<close>

theorem json_frames_lost:
  "Encoder (Frame ba (TTSAudioRawFrame (a\<lparr>audio := x\<rparr>) d)) = Encoder (Frame ba (TTSAudioRawFrame (a\<lparr>audio := y\<rparr>) d)) \<and>
   list_all (\<lambda>b. Decoder (Some (Encoder (Frame ba b))) ids = (Inl (''unknown frame type: '' @ FrameType b), ids))
     [AudioRawFrame a, OutputAudioRawFrame a d, TTSAudioRawFrame a d, EndFrame, StopFrame,
      UserStartedSpeakingFrame, UserStoppedSpeakingFrame, UserIdleFrame, LLMFullResponseStartFrame,
      LLMFullResponseEndFrame, LLMContextSummaryRequestFrame i c k t p o', ManuallySwitchServiceFrame i]"
  by (simp add: Decoder_def envelope_read DecodeByType_def decoders_def) (simp add: Encoder_def enc_audio_def)

end
