(* ===== verification/WebSocket.thy ===== *)
theory WebSocket
  imports Frames "HOL-Library.Sublist"
begin

text \<open>
  The WebSocket transport, \<^verbatim>\<open>pkg/transport/websocket\<close>: the server's and the client's connection with their
  reader, writer and closing goroutines, idle time-out and origin check; and the in-memory transport. The
  socket, the parsing of URLs and the serializer are parameters; the clock is an argument.
\<close>

section \<open>Origins\<close>

text \<open>\<open>hostname\<close> is \<^verbatim>\<open>url.Parse\<close> and \<^verbatim>\<open>Hostname\<close>; \<open>None\<close> if the origin does not parse.\<close>

definition checkOrigin :: "(string \<Rightarrow> string option) \<Rightarrow> string \<Rightarrow> string \<Rightarrow> bool" where
  "checkOrigin hostname origin host =
     (if origin = [] then True
      else (case hostname origin of
          None \<Rightarrow> False
        | Some h \<Rightarrow>
            (let originHost = ToLower h;
                 reqHost = (case index_of '':'' host of None \<Rightarrow> host | Some i \<Rightarrow> take i host)
             in originHost = ''localhost'' \<or> originHost = ''127.0.0.1'' \<or> ToLower reqHost = originHost)))"

text \<open>A server reached by its IPv6 address refuses pages it has served itself.\<close>

lemma origin_ipv6_refused:
  "hostname ''http://[::1]:8080'' = Some ''::1'' \<Longrightarrow> \<not> checkOrigin hostname ''http://[::1]:8080'' ''[::1]:8080''"
  by (simp add: checkOrigin_def ToLower_def lower_char_def)

section \<open>A connection\<close>

datatype reader = Reading | Offering frame | ReaderGone
datatype writer = Waiting | Draining | Writing | WriterGone

text \<open>How far \<^verbatim>\<open>Close\<close> has come: nothing done; \<^verbatim>\<open>closed\<close> closed; the socket too; the input channel too; the
  output channel too.\<close>

datatype phase = IsOpen | Signalled | ConnClosed | InClosed | OutClosed

text \<open>\<open>ws_net\<close> is what the peer has sent, \<open>ws_in\<close> and \<open>ws_out\<close> are the contents of the two channels,
  \<open>ws_batch\<close> is what the writer holds. The other lists are history: messages read, frames taken from the
  input and put to the output by the pipeline, frames the writer is done with, and messages written.\<close>

record ('m, 'd) conn =
  ws_net :: "'m list"
  ws_read :: "'m list"
  ws_reader :: reader
  ws_in :: "frame list"
  ws_taken :: "frame list"
  ws_out :: "frame list"
  ws_put :: "frame list"
  ws_batch :: "frame list"
  ws_done :: "frame list"
  ws_sent :: "(bool \<times> 'd) list"
  ws_writer :: writer
  ws_phase :: phase
  ws_timer :: bool
  ws_panic :: bool

text \<open>Sizes and options after the defaults: channels, coalescing and its batches, and whether audio starts
  the timer of the longest duration.\<close>

record ws_options =
  wo_in :: nat
  wo_out :: nat
  wo_coalesce :: bool
  wo_batch :: nat
  wo_limit :: bool

definition or_default :: "int \<Rightarrow> nat \<Rightarrow> nat" where
  "or_default n d = (if n \<le> 0 then d else nat n)"

text \<open>The optional argument: milliseconds and frames of a batch, and whether a longest duration and its
  callback are given.\<close>

definition ConnTransport_options :: "int \<Rightarrow> int \<Rightarrow> (int \<times> int \<times> bool) option \<Rightarrow> ws_options" where
  "ConnTransport_options inBuf outBuf opts =
     (let o1 = \<lparr>wo_in = or_default inBuf 64, wo_out = or_default outBuf 64, wo_coalesce = False, wo_batch = 10,
                wo_limit = False\<rparr>
      in case opts of
           None \<Rightarrow> o1
         | Some (ms, frs, limit) \<Rightarrow>
             (if ms > 0 then o1\<lparr>wo_coalesce := True, wo_batch := or_default frs 10\<rparr> else o1)\<lparr>wo_limit := limit\<rparr>)"

definition NewConn :: "'m list \<Rightarrow> ('m, 'd) conn" where
  "NewConn net = \<lparr>ws_net = net, ws_read = [], ws_reader = Reading, ws_in = [], ws_taken = [], ws_out = [],
     ws_put = [], ws_batch = [], ws_done = [], ws_sent = [], ws_writer = Waiting, ws_phase = IsOpen,
     ws_timer = False, ws_panic = False\<rparr>"

text \<open>A serializer: with a message type of its own, or with one type for all messages.\<close>

record 'd ws_serializer =
  sz_typed :: "(frame \<Rightarrow> err + ('d option \<times> bool)) option"
  sz_plain :: "frame \<Rightarrow> err + 'd option"
  sz_protobuf :: bool

text \<open>The message \<^verbatim>\<open>writeOne\<close> writes, if any, and whether it is binary.\<close>

definition message_of :: "'d ws_serializer \<Rightarrow> frame \<Rightarrow> (bool \<times> 'd) option" where
  "message_of s f =
     (case sz_typed s of
        Some g \<Rightarrow> (case g f of Inr (Some d, b) \<Rightarrow> Some (b, d) | _ \<Rightarrow> None)
      | None \<Rightarrow> (case sz_plain s f of Inr (Some d) \<Rightarrow> Some (sz_protobuf s, d) | _ \<Rightarrow> None))"

definition begin_close :: "phase \<Rightarrow> phase" where
  "begin_close p = (if p = IsOpen then Signalled else p)"

definition starts_timer :: "ws_options \<Rightarrow> frame \<Rightarrow> bool" where
  "starts_timer opt f = (wo_limit opt \<and> (case fbody f of AudioRawFrame _ \<Rightarrow> True | _ \<Rightarrow> False))"

inductive wstep ::
  "ws_options \<Rightarrow> ('m \<Rightarrow> err + frame option) \<Rightarrow> (frame \<Rightarrow> (bool \<times> 'd) option)
     \<Rightarrow> ('m, 'd) conn \<Rightarrow> ('m, 'd) conn \<Rightarrow> bool"
  for opt dec msg where
  read_skip: "\<lbrakk>ws_reader c = Reading; ws_net c = m # r; ws_phase c = IsOpen \<or> ws_phase c = Signalled;
      dec m = Inl e \<or> dec m = Inr None\<rbrakk> \<Longrightarrow>
    wstep opt dec msg c (c\<lparr>ws_net := r, ws_read := ws_read c @ [m]\<rparr>)"
| read_frame: "\<lbrakk>ws_reader c = Reading; ws_net c = m # r; ws_phase c = IsOpen \<or> ws_phase c = Signalled;
      dec m = Inr (Some f)\<rbrakk> \<Longrightarrow>
    wstep opt dec msg c (c\<lparr>ws_net := r, ws_read := ws_read c @ [m], ws_reader := Offering f,
      ws_timer := ws_timer c \<or> starts_timer opt f\<rparr>)"
| read_fails: "ws_reader c = Reading \<Longrightarrow>
    wstep opt dec msg c (c\<lparr>ws_reader := ReaderGone, ws_phase := begin_close (ws_phase c)\<rparr>)"
| offer: "\<lbrakk>ws_reader c = Offering f; ws_phase c \<noteq> InClosed; ws_phase c \<noteq> OutClosed; length (ws_in c) < wo_in opt\<rbrakk> \<Longrightarrow>
    wstep opt dec msg c (c\<lparr>ws_in := ws_in c @ [f], ws_reader := Reading\<rparr>)"
| offer_quits: "\<lbrakk>ws_reader c = Offering f; ws_phase c \<noteq> IsOpen\<rbrakk> \<Longrightarrow>
    wstep opt dec msg c (c\<lparr>ws_reader := ReaderGone\<rparr>)"
| offer_panics: "\<lbrakk>ws_reader c = Offering f; ws_phase c = InClosed \<or> ws_phase c = OutClosed\<rbrakk> \<Longrightarrow>
    wstep opt dec msg c (c\<lparr>ws_panic := True\<rparr>)"
| close_request: "wstep opt dec msg c (c\<lparr>ws_phase := begin_close (ws_phase c)\<rparr>)"
| timer_fires: "ws_timer c \<Longrightarrow>
    wstep opt dec msg c (c\<lparr>ws_timer := False, ws_phase := begin_close (ws_phase c)\<rparr>)"
| close_conn: "ws_phase c = Signalled \<Longrightarrow> wstep opt dec msg c (c\<lparr>ws_phase := ConnClosed\<rparr>)"
| close_in: "ws_phase c = ConnClosed \<Longrightarrow> wstep opt dec msg c (c\<lparr>ws_phase := InClosed\<rparr>)"
| close_out: "ws_phase c = InClosed \<Longrightarrow> wstep opt dec msg c (c\<lparr>ws_phase := OutClosed\<rparr>)"
| take_in: "ws_in c = f # r \<Longrightarrow> wstep opt dec msg c (c\<lparr>ws_in := r, ws_taken := ws_taken c @ [f]\<rparr>)"
| put_out: "\<lbrakk>ws_phase c \<noteq> OutClosed; length (ws_out c) < wo_out opt\<rbrakk> \<Longrightarrow>
    wstep opt dec msg c (c\<lparr>ws_out := ws_out c @ [f], ws_put := ws_put c @ [f]\<rparr>)"
| put_panics: "ws_phase c = OutClosed \<Longrightarrow> wstep opt dec msg c (c\<lparr>ws_panic := True\<rparr>)"
| write_take: "\<lbrakk>ws_writer c = Waiting; ws_out c = f # r\<rbrakk> \<Longrightarrow>
    wstep opt dec msg c (c\<lparr>ws_out := r, ws_batch := [f],
      ws_writer := if wo_coalesce opt then Draining else Writing\<rparr>)"
| drain: "\<lbrakk>ws_writer c = Draining; length (ws_batch c) < wo_batch opt; ws_out c = f # r\<rbrakk> \<Longrightarrow>
    wstep opt dec msg c (c\<lparr>ws_out := r, ws_batch := ws_batch c @ [f]\<rparr>)"
| drain_ends: "ws_writer c = Draining \<Longrightarrow> wstep opt dec msg c (c\<lparr>ws_writer := Writing\<rparr>)"
| write_quits: "\<lbrakk>ws_writer c = Waiting \<or> ws_writer c = Draining; ws_phase c \<noteq> IsOpen\<rbrakk> \<Longrightarrow>
    wstep opt dec msg c (c\<lparr>ws_writer := WriterGone\<rparr>)"
| write_one: "\<lbrakk>ws_writer c = Writing; ws_batch c = f # r; ws_phase c = IsOpen \<or> ws_phase c = Signalled \<or> msg f = None\<rbrakk> \<Longrightarrow>
    wstep opt dec msg c (c\<lparr>ws_batch := r, ws_done := ws_done c @ [f],
      ws_sent := ws_sent c @ (case msg f of None \<Rightarrow> [] | Some m \<Rightarrow> [m]),
      ws_writer := if r = [] then Waiting else Writing\<rparr>)"
| write_fails: "\<lbrakk>ws_writer c = Writing; ws_batch c = f # r; msg f \<noteq> None\<rbrakk> \<Longrightarrow>
    wstep opt dec msg c (c\<lparr>ws_writer := WriterGone, ws_phase := begin_close (ws_phase c)\<rparr>)"

abbreviation wruns ::
  "ws_options \<Rightarrow> ('m \<Rightarrow> err + frame option) \<Rightarrow> (frame \<Rightarrow> (bool \<times> 'd) option)
     \<Rightarrow> ('m, 'd) conn \<Rightarrow> ('m, 'd) conn \<Rightarrow> bool" where
  "wruns opt dec msg \<equiv> (wstep opt dec msg)\<^sup>*\<^sup>*"

text \<open>The frames in a list of messages, and the frame the reader holds.\<close>

definition frames_in :: "('m \<Rightarrow> err + frame option) \<Rightarrow> 'm list \<Rightarrow> frame list" where
  "frames_in dec ms = concat (map (\<lambda>m. case dec m of Inr (Some f) \<Rightarrow> [f] | _ \<Rightarrow> []) ms)"

definition offered :: "reader \<Rightarrow> frame list" where
  "offered r = (case r of Offering f \<Rightarrow> [f] | _ \<Rightarrow> [])"

definition messages_of :: "(frame \<Rightarrow> (bool \<times> 'd) option) \<Rightarrow> frame list \<Rightarrow> (bool \<times> 'd) list" where
  "messages_of msg fs = concat (map (\<lambda>f. case msg f of None \<Rightarrow> [] | Some m \<Rightarrow> [m]) fs)"

lemma lists_simps [simp]:
  "frames_in dec [] = []" "frames_in dec (xs @ ys) = frames_in dec xs @ frames_in dec ys"
  "frames_in dec [m] = (case dec m of Inr (Some f) \<Rightarrow> [f] | _ \<Rightarrow> [])"
  "messages_of msg [] = []" "messages_of msg (fs @ gs) = messages_of msg fs @ messages_of msg gs"
  "messages_of msg [f] = (case msg f of None \<Rightarrow> [] | Some m \<Rightarrow> [m])"
  "offered Reading = []" "offered (Offering f) = [f]" "offered ReaderGone = []"
  by (simp_all add: frames_in_def messages_of_def offered_def)

section \<open>What the transport guarantees\<close>

definition in_ok :: "ws_options \<Rightarrow> ('m \<Rightarrow> err + frame option) \<Rightarrow> 'm list \<Rightarrow> ('m, 'd) conn \<Rightarrow> bool" where
  "in_ok opt dec net c \<longleftrightarrow> ws_read c @ ws_net c = net \<and> length (ws_in c) \<le> wo_in opt \<and>
     prefix (ws_taken c @ ws_in c @ offered (ws_reader c)) (frames_in dec (ws_read c)) \<and>
     (ws_reader c \<noteq> ReaderGone \<longrightarrow>
        ws_taken c @ ws_in c @ offered (ws_reader c) = frames_in dec (ws_read c))"

definition out_ok :: "ws_options \<Rightarrow> (frame \<Rightarrow> (bool \<times> 'd) option) \<Rightarrow> ('m, 'd) conn \<Rightarrow> bool" where
  "out_ok opt msg c \<longleftrightarrow> ws_done c @ ws_batch c @ ws_out c = ws_put c \<and> ws_sent c = messages_of msg (ws_done c) \<and>
     length (ws_out c) \<le> wo_out opt \<and> length (ws_batch c) \<le> max 1 (wo_batch opt) \<and>
     (ws_writer c = Waiting \<longrightarrow> ws_batch c = [])"

definition panic_ok :: "('m, 'd) conn \<Rightarrow> bool" where
  "panic_ok c \<longleftrightarrow> (ws_panic c \<longrightarrow> ws_phase c = InClosed \<or> ws_phase c = OutClosed)"

lemma begin_close_simps [simp]:
  "begin_close InClosed = InClosed" "begin_close OutClosed = OutClosed" "begin_close ConnClosed = ConnClosed"
  "begin_close Signalled = Signalled" "begin_close IsOpen = Signalled" "begin_close p \<noteq> IsOpen"
  by (auto simp: begin_close_def)

lemma wstep_in_ok: "wstep opt dec msg c c' \<Longrightarrow> in_ok opt dec net c \<Longrightarrow> in_ok opt dec net c'"
  by (induction rule: wstep.induct) (auto simp: in_ok_def prefix_def)

lemma wstep_out_ok: "wstep opt dec msg c c' \<Longrightarrow> out_ok opt msg c \<Longrightarrow> out_ok opt msg c'"
  by (induction rule: wstep.induct) (auto simp: out_ok_def)

lemma wstep_panic_ok: "wstep opt dec msg c c' \<Longrightarrow> panic_ok c \<Longrightarrow> panic_ok c'"
  by (induction rule: wstep.induct) (auto simp: panic_ok_def)

lemma wruns_ok:
  "wruns opt dec msg c c' \<Longrightarrow> in_ok opt dec net c \<and> out_ok opt msg c \<and> panic_ok c \<Longrightarrow>
   in_ok opt dec net c' \<and> out_ok opt msg c' \<and> panic_ok c'"
  by (induction rule: rtranclp_induct) (auto dest: wstep_in_ok wstep_out_ok wstep_panic_ok)


lemma new_ok: "in_ok opt dec net (NewConn net) \<and> out_ok opt msg (NewConn net) \<and> panic_ok (NewConn net)"
  by (simp add: in_ok_def out_ok_def panic_ok_def NewConn_def)

text \<open>C33: A connection keeps order and loses nothing while it is up: under any interleaving of the peer, the
  reader, the pipeline, the writer (which may collect batches) and closing, the pipeline takes a prefix of
  the frames in the peer's messages, everything read is taken, queued or offered until the reader has gone,
  what is written is a prefix of the messages of the frames the pipeline put, in order, and channels and
  batches stay within their sizes. A goroutine panics only once the input channel has been closed.\<close>

theorem connection_carries_in_order:
  assumes "wruns opt dec msg (NewConn net) c"
  shows "prefix (ws_taken c) (frames_in dec net) \<and>
    (ws_reader c \<noteq> ReaderGone \<longrightarrow> ws_taken c @ ws_in c @ offered (ws_reader c) = frames_in dec (ws_read c)) \<and>
    prefix (ws_sent c) (messages_of msg (ws_put c)) \<and>
    length (ws_in c) \<le> wo_in opt \<and> length (ws_out c) \<le> wo_out opt \<and> length (ws_batch c) \<le> max 1 (wo_batch opt) \<and>
    (ws_panic c \<longrightarrow> ws_phase c = InClosed \<or> ws_phase c = OutClosed)"
proof -
  have ok: "in_ok opt dec net c" "out_ok opt msg c" "panic_ok c"
    using wruns_ok [OF assms] new_ok by blast+
  from ok(1) have "prefix (frames_in dec (ws_read c)) (frames_in dec net)"
    by (auto simp: in_ok_def prefix_def)
  with ok(1) have "prefix (ws_taken c) (frames_in dec net)"
    by (auto simp: in_ok_def dest: append_prefixD prefix_order.trans)
  moreover from ok(2) have "prefix (ws_sent c) (messages_of msg (ws_put c))"
    by (simp add: out_ok_def prefix_def) (metis lists_simps(5))
  ultimately show ?thesis using ok by (simp add: in_ok_def out_ok_def panic_ok_def)
qed

text \<open>A peer that sends one text; a serializer that reads it as a text frame and writes nothing.\<close>

definition hello_frame :: frame where
  "hello_frame = Frame (NewBaseWithID 1) (TTSSpeakFrame ''hello'')"

definition reads_hello :: "string \<Rightarrow> err + frame option" where
  "reads_hello m = (if m = ''hello'' then Inr (Some hello_frame) else Inl ''json'')"

definition writes_none :: "frame \<Rightarrow> (bool \<times> string) option" where
  "writes_none f = None"

definition plain_options :: ws_options where
  "plain_options = ConnTransport_options 0 0 None"

lemma hello_read:
  "wruns plain_options reads_hello writes_none (NewConn [''hello''])
     ((NewConn [''hello''])\<lparr>ws_net := [], ws_read := [''hello''], ws_reader := Offering hello_frame, ws_timer := False\<rparr>)"
  using read_frame [of "NewConn [''hello'']" "''hello''" "[]" reads_hello hello_frame plain_options writes_none]
  by (simp add: NewConn_def reads_hello_def starts_timer_def plain_options_def ConnTransport_options_def
      r_into_rtranclp)

theorem connection_carries_in_order_witness:
  "prefix [] (frames_in reads_hello [''hello''])"
  using connection_carries_in_order [OF hello_read] by (simp add: NewConn_def)

text \<open>Closing can crash the server: the reader offers a frame in a select whose other branch waits for the
  close signal, but \<^verbatim>\<open>Close\<close> then closes the very channel it offers to, and a select with a closed channel
  to send to may choose that branch. One message and one request to close are enough; the pipeline has put
  nothing.\<close>

theorem closing_races_with_reader:
  "\<exists>c. wruns plain_options reads_hello writes_none (NewConn [''hello'']) c \<and> ws_panic c \<and> ws_put c = []"
proof -
  let ?c1 = "(NewConn [''hello''] :: (string, string) conn)\<lparr>ws_net := [], ws_read := [''hello''],
    ws_reader := Offering hello_frame, ws_timer := False\<rparr>"
  let ?w = "wstep plain_options reads_hello writes_none"
  have "?w ?c1 (?c1\<lparr>ws_phase := Signalled\<rparr>)"
    using close_request [of plain_options reads_hello writes_none ?c1] by (simp add: NewConn_def)
  moreover have "?w (?c1\<lparr>ws_phase := Signalled\<rparr>) (?c1\<lparr>ws_phase := ConnClosed\<rparr>)"
    using close_conn [of "?c1\<lparr>ws_phase := Signalled\<rparr>"] by simp
  moreover have "?w (?c1\<lparr>ws_phase := ConnClosed\<rparr>) (?c1\<lparr>ws_phase := InClosed\<rparr>)"
    using close_in [of "?c1\<lparr>ws_phase := ConnClosed\<rparr>"] by simp
  moreover have "?w (?c1\<lparr>ws_phase := InClosed\<rparr>) (?c1\<lparr>ws_phase := InClosed, ws_panic := True\<rparr>)"
    using offer_panics [of "?c1\<lparr>ws_phase := InClosed\<rparr>" hello_frame] by simp
  ultimately have "wruns plain_options reads_hello writes_none (NewConn [''hello'']) (?c1\<lparr>ws_phase := InClosed, ws_panic := True\<rparr>)"
    using hello_read by (meson rtranclp.rtrancl_into_rtrancl)
  then show ?thesis
    by (intro exI [of _ "?c1\<lparr>ws_phase := InClosed, ws_panic := True\<rparr>"]) (simp add: NewConn_def)
qed

section \<open>Idle connections\<close>

text \<open>The ticker that looks for idle connections: \<open>active t\<close> is the time of the last activity at time \<open>t\<close> (0:
  none recorded), \<open>t0\<close> the start. The result is the tick at which it closes the connection.\<close>

definition monitor_interval :: "int \<Rightarrow> int" where
  "monitor_interval timeout = (if timeout div 2 \<le> 0 then timeout else timeout div 2)"

definition idle_at :: "(int \<Rightarrow> int) \<Rightarrow> int \<Rightarrow> int \<Rightarrow> bool" where
  "idle_at active timeout now = (active now \<noteq> 0 \<and> now - active now \<ge> timeout)"

definition monitorSession :: "(int \<Rightarrow> int) \<Rightarrow> int \<Rightarrow> int \<Rightarrow> nat \<Rightarrow> nat option" where
  "monitorSession active timeout t0 n =
     List.find (\<lambda>k. idle_at active timeout (t0 + int k * monitor_interval timeout)) [1..<Suc n]"

lemma find_within:
  assumes "k \<in> set xs" "P k" "sorted xs"
  obtains j where "List.find P xs = Some j" "j \<le> (k :: nat)" "P j"
proof -
  have "\<exists>j. List.find P xs = Some j \<and> j \<le> k \<and> P j"
    using assms by (induction xs) auto
  then show thesis using that by blast
qed

lemma round_up:
  fixes i x :: int
  assumes "0 < i" "0 \<le> x"
  obtains q :: nat where "x \<le> int q * i" "int q * i < x + i"
proof -
  define d where "d = (x + i - 1) div i"
  have "0 \<le> d" using assms by (simp add: d_def pos_imp_zdiv_nonneg_iff)
  have "i * d + (x + i - 1) mod i = x + i - 1" unfolding d_def by (rule mult_div_mod_eq)
  moreover have "0 \<le> (x + i - 1) mod i" "(x + i - 1) mod i < i" using assms by simp_all
  ultimately have "x \<le> d * i" "d * i < x + i" by (simp_all add: mult.commute)
  with that [of "nat d"] \<open>0 \<le> d\<close> show thesis by simp
qed

text \<open>C34: A silent connection is closed in time and an active one is not: the tick that closes finds it idle
  for the whole time-out, and if nothing happens after some moment, a tick closes it less than one
  interval, at most half the time-out (or a unit of time), after the time-out has run from there.\<close>

theorem idle_connection_closed:
  assumes "0 < timeout" "t0 \<le> a" "0 < a" "\<And>t. a \<le> t \<Longrightarrow> active t = a"
    and "a + timeout < t0 + int n * monitor_interval timeout"
  shows "\<exists>k. monitorSession active timeout t0 n = Some k \<and>
    idle_at active timeout (t0 + int k * monitor_interval timeout) \<and>
    t0 + int k * monitor_interval timeout < a + timeout + monitor_interval timeout \<and>
    2 * monitor_interval timeout \<le> max 2 timeout"
proof -
  let ?i = "monitor_interval timeout"
  have i: "0 < ?i" "2 * ?i \<le> max 2 timeout" using assms(1) by (auto simp: monitor_interval_def)
  have "0 \<le> a + timeout - t0" using assms by simp
  then obtain q :: nat where "a + timeout - t0 \<le> int q * ?i" "int q * ?i < a + timeout - t0 + ?i"
    by (rule round_up [OF i(1)])
  then have q: "a + timeout \<le> t0 + int q * ?i" "t0 + int q * ?i < a + timeout + ?i" by simp_all
  have "0 < q" using q(1) assms by (cases q) auto
  moreover have "int q * ?i < (int n + 1) * ?i" using q(2) assms(5) by (simp add: algebra_simps)
  then have "q \<le> n" using i(1) by (simp add: mult_less_cancel_right)
  ultimately have "q \<in> set [1..<Suc n]" by auto
  moreover have "idle_at active timeout (t0 + int q * ?i)"
    using q(1) assms by (simp add: idle_at_def)
  ultimately obtain j where j: "monitorSession active timeout t0 n = Some j" "j \<le> q"
    "idle_at active timeout (t0 + int j * ?i)"
    unfolding monitorSession_def
    using find_within [of q "[1..<Suc n]" "\<lambda>k. idle_at active timeout (t0 + int k * ?i)", OF _ _ sorted_upt]
    by blast
  have "int j * ?i \<le> int q * ?i" using j(2) i(1) by simp
  with j q(2) i(2) show ?thesis by auto
qed

theorem idle_connection_closed_witness:
  "\<exists>k. monitorSession (\<lambda>_. 7) 10 0 9 = Some k \<and> idle_at (\<lambda>_. 7) 10 (0 + int k * monitor_interval 10) \<and>
    0 + int k * monitor_interval 10 < 7 + 10 + monitor_interval 10 \<and> 2 * monitor_interval 10 \<le> max 2 10"
  by (rule idle_connection_closed) (simp_all add: monitor_interval_def)

section \<open>Client and memory transports\<close>

text \<open>\<open>scheme\<close> is \<^verbatim>\<open>url.Parse\<close>. The client's connection is a \<open>conn\<close> without coalescing and timer.\<close>

definition NewClientTransport ::
  "(string \<Rightarrow> string option) \<Rightarrow> string \<Rightarrow> (int \<times> int) option \<Rightarrow> err + ws_options" where
  "NewClientTransport scheme url cfg =
     (case scheme url of
        None \<Rightarrow> Inl ''websocket client: invalid URL''
      | Some s \<Rightarrow>
          if s \<noteq> ''ws'' \<and> s \<noteq> ''wss'' then Inl ''websocket client: URL scheme must be ws or wss''
          else (case cfg of
              None \<Rightarrow> Inr (ConnTransport_options 0 0 None)
            | Some (inBuf, outBuf) \<Rightarrow> Inr (ConnTransport_options inBuf outBuf None)))"

definition client_step ::
  "ws_options \<Rightarrow> ('m \<Rightarrow> err + frame) \<Rightarrow> (frame \<Rightarrow> err + 'd) \<Rightarrow> ('m, 'd) conn \<Rightarrow> ('m, 'd) conn \<Rightarrow> bool" where
  "client_step opt dec enc =
     wstep (opt\<lparr>wo_coalesce := False, wo_limit := False\<rparr>)
       (\<lambda>m. case dec m of Inl e \<Rightarrow> Inl e | Inr f \<Rightarrow> Inr (Some f))
       (\<lambda>f. case enc f of Inl _ \<Rightarrow> None | Inr d \<Rightarrow> Some (False, d))"

record memory_transport =
  mt_in :: "frame list"
  mt_cap :: nat
  mt_closed :: bool

definition NewTransportWithBuffer :: "int \<Rightarrow> memory_transport" where
  "NewTransportWithBuffer buf = \<lparr>mt_in = [], mt_cap = or_default buf 128, mt_closed = False\<rparr>"

definition memory_Close :: "memory_transport \<Rightarrow> memory_transport" where
  "memory_Close t = t\<lparr>mt_closed := True\<rparr>"

datatype send_result = Sent bool | SendPanics

text \<open>The branches of the select that are ready; it blocks if there is none.\<close>

definition SendInput :: "memory_transport \<Rightarrow> bool \<Rightarrow> frame \<Rightarrow> (memory_transport \<times> send_result) list" where
  "SendInput t cancelled f =
     (if cancelled then [(t, Sent False)] else []) @
     (if mt_closed t then [(t, Sent False)] else []) @
     (if mt_closed t then [(t, SendPanics)]
      else if length (mt_in t) < mt_cap t then [(t\<lparr>mt_in := mt_in t @ [f]\<rparr>, Sent True)] else [])"

lemma memory_send_after_close: "(memory_Close t, SendPanics) \<in> set (SendInput (memory_Close t) c f)"
  by (simp add: SendInput_def memory_Close_def)

end
