(* ===== verification/Reconnect.thy ===== *)
theory Reconnect
  imports VoxPrelude
begin

text \<open>
  \<^verbatim>\<open>pkg/utils/backoff.go\<close> and \<^verbatim>\<open>pkg/transport/websocket/reconnect.go\<close>: waiting times, attempts to
  reconnect, sending with a retry and the receive loop of services with a WebSocket of their own. What the
  connector answers and whether the context is cancelled during a wait are given; calls are outputs.
\<close>

section \<open>Waiting times\<close>

text \<open>A \<^verbatim>\<open>time.Duration\<close> is a signed 64-bit number of nanoseconds.\<close>

type_synonym duration = "64 word"

definition second :: duration where
  "second = 1000000000"

definition BackoffCap :: duration where
  "BackoffCap = 60 * second"

definition ExponentialBackoff :: "int \<Rightarrow> duration" where
  "ExponentialBackoff attempt0 =
     (let attempt = (if attempt0 \<le> 0 then 1 else attempt0);
          d = push_bit (nat attempt) 1 * second
      in if BackoffCap <s d then BackoffCap else d)"

section \<open>Reconnecting\<close>

record ws_base =
  wb_reconnectOnError :: bool
  wb_inProgress :: bool
  wb_disconnecting :: bool

definition NewWebsocketServiceBase :: "bool \<Rightarrow> ws_base" where
  "NewWebsocketServiceBase reconnect =
     \<lparr>wb_reconnectOnError = reconnect, wb_inProgress = False, wb_disconnecting = False\<rparr>"

definition SetDisconnecting :: "ws_base \<Rightarrow> bool \<Rightarrow> ws_base" where
  "SetDisconnecting b v = b\<lparr>wb_disconnecting := v\<rparr>"

datatype ws_call =
    CallDisconnect
  | CallConnect
  | CallPing
  | CallWait duration
  | CallReport string bool string
  | CallWrite

text \<open>What an attempt meets: the connector's error, whether there is a connection and its ping is answered,
  and whether the context is cancelled while waiting afterwards.\<close>

record attempt_env =
  at_connect :: "err option"
  at_conn :: bool
  at_ping :: "err option"
  at_cancelled :: bool

definition VerifyConnection :: "attempt_env \<Rightarrow> ws_call list \<times> bool" where
  "VerifyConnection a = (if \<not> at_conn a then ([], False) else ([CallPing], at_ping a = None))"

definition Reconnect1 :: "attempt_env \<Rightarrow> ws_call list \<times> bool" where
  "Reconnect1 a =
     (if at_connect a \<noteq> None then ([CallDisconnect, CallConnect], False)
      else (let (cs, ok) = VerifyConnection a in ([CallDisconnect, CallConnect] @ cs, ok)))"

definition failed_msg :: string where
  "failed_msg = ''websocket service: failed to reconnect after max retries''"

text \<open>The loop over the attempts \<open>k\<close>, \<open>k + 1\<close>, ..., \<open>n\<close> of them left.\<close>

fun try_attempts :: "(nat \<Rightarrow> attempt_env) \<Rightarrow> bool \<Rightarrow> nat \<Rightarrow> nat \<Rightarrow> ws_call list \<times> bool" where
  "try_attempts env report k 0 =
     (if report then [CallReport failed_msg True ''websocket_service''] else [], False)"
| "try_attempts env report k (Suc n) =
     (let (cs, ok) = Reconnect1 (env k)
      in if ok then (cs, True)
         else if at_cancelled (env k) then (cs @ [CallWait (ExponentialBackoff (int k))], False)
         else (let (ds, r) = try_attempts env report (Suc k) n
               in (cs @ [CallWait (ExponentialBackoff (int k))] @ ds, r)))"

definition TryReconnect ::
  "ws_base \<Rightarrow> (nat \<Rightarrow> attempt_env) \<Rightarrow> int \<Rightarrow> bool \<Rightarrow> ws_call list \<times> bool" where
  "TryReconnect b env maxRetries report =
     (if wb_inProgress b then ([], False) else try_attempts env report 1 (nat maxRetries))"

text \<open>\<open>write1\<close> is the answer to the first write (\<open>None\<close>: there is no connection), \<open>write2\<close> to the second.\<close>

definition SendWithRetry ::
  "ws_base \<Rightarrow> (nat \<Rightarrow> attempt_env) \<Rightarrow> bool \<Rightarrow> err option option \<Rightarrow> err option option
     \<Rightarrow> ws_call list \<times> err option" where
  "SendWithRetry b env report write1 write2 =
     (case write1 of
        None \<Rightarrow> ([], None)
      | Some None \<Rightarrow> ([CallWrite], None)
      | Some (Some e) \<Rightarrow>
          (let (cs, ok) = TryReconnect b env 3 report
           in if ok then (case write2 of
                  Some r \<Rightarrow> ([CallWrite] @ cs @ [CallWrite], r)
                | None \<Rightarrow> ([CallWrite] @ cs, Some e))
              else ([CallWrite] @ cs, Some e)))"

definition MaybeTryReconnect ::
  "ws_base \<Rightarrow> (nat \<Rightarrow> attempt_env) \<Rightarrow> string \<Rightarrow> bool \<Rightarrow> ws_call list \<times> bool" where
  "MaybeTryReconnect b env message report =
     (if wb_disconnecting b then ([], False)
      else if wb_reconnectOnError b then TryReconnect b env 3 report
      else (if report then [CallReport message False ''websocket_service''] else [], False))"

text \<open>How a call of \<^verbatim>\<open>ReceiveMessages\<close> ends: the peer closed normally, an error, or nil; with what the
  attempts to reconnect meet afterwards and whether \<^verbatim>\<open>disconnecting\<close> is set by then.\<close>

datatype received = ClosedNormally | Failed err | Returned

record round =
  rd_result :: received
  rd_env :: "nat \<Rightarrow> attempt_env"
  rd_disconnecting :: bool

text \<open>The loop over the rounds the environment plays; the result tells whether it has ended.\<close>

fun ReceiveLoop :: "ws_base \<Rightarrow> bool \<Rightarrow> round list \<Rightarrow> ws_call list \<times> bool" where
  "ReceiveLoop b report [] = ([], False)"
| "ReceiveLoop b report (r # rs) =
     (case rd_result r of
        ClosedNormally \<Rightarrow> ([], True)
      | _ \<Rightarrow>
          (let msg = (case rd_result r of Failed e \<Rightarrow> ''websocket service error receiving: '' @ e
                      | _ \<Rightarrow> ''websocket service connection closed by server'');
               (cs, go) = MaybeTryReconnect (SetDisconnecting b (rd_disconnecting r)) (rd_env r) msg report
           in if go then (let (ds, e) = ReceiveLoop b report rs in (cs @ ds, e)) else (cs, True)))"

section \<open>Properties\<close>

lemma sint_exact: "- (2 ^ 63) \<le> x \<Longrightarrow> x < 2 ^ 63 \<Longrightarrow> sint (word_of_int x :: duration) = x"
  by (rule signed_take_bit_int_eq_self [THEN trans [OF sint_sbintrunc']]) auto

lemma seconds: "push_bit n 1 * second = word_of_int (2 ^ n * 1000000000)"
  by (simp add: push_bit_eq_mult second_def)

lemma cap: "sint BackoffCap = 60000000000"
proof -
  have "BackoffCap = word_of_int 60000000000" by (simp add: BackoffCap_def second_def)
  then show ?thesis using sint_exact [of 60000000000] by simp
qed

lemma backoff_sane:
  assumes "1 \<le> n" "n \<le> 33"
  shows "sint (ExponentialBackoff (int n)) = min (2 ^ n) 60 * 1000000000"
proof -
  have "(2 :: int) ^ n \<le> 2 ^ 33" using power_increasing [OF assms(2), of "2 :: int"] by simp
  then have "(2 :: int) ^ n * 1000000000 < 2 ^ 63" by simp
  moreover have "(0 :: int) \<le> 2 ^ n * 1000000000" by simp
  then have "- (2 ^ 63) \<le> (2 :: int) ^ n * 1000000000" by (rule order_trans [rotated]) simp
  ultimately have "sint (word_of_int (2 ^ n * 1000000000) :: duration) = 2 ^ n * 1000000000"
    by (intro sint_exact)
  then have w: "sint (push_bit n 1 * second) = 2 ^ n * 1000000000" by (simp only: seconds)
  have "ExponentialBackoff (int n) = (if BackoffCap <s push_bit n 1 * second then BackoffCap else push_bit n 1 * second)"
    using assms(1) by (simp only: ExponentialBackoff_def Let_def nat_int) simp
  then show ?thesis by (simp only: word_sless_alt cap w if_distrib [of sint]) simp
qed

lemma backoff_vanishes:
  assumes "55 \<le> n"
  shows "ExponentialBackoff (int n) = 0"
proof -
  have "(2 :: duration) ^ (n + 9) = 0" using assms by simp
  then have "(2 ^ n * 2 ^ 9) * 1953125 = (0 :: duration)" by (simp only: power_add mult_zero_left)
  moreover have "second = 2 ^ 9 * 1953125" by (simp add: second_def)
  ultimately have "(push_bit n 1 :: duration) * second = 0"
    by (simp only: push_bit_eq_mult mult_1_left mult.assoc)
  with assms show ?thesis by (simp add: ExponentialBackoff_def Let_def word_sless_alt cap)
qed

text \<open>C35: Waiting times grow and then vanish: from the first to the 33rd attempt the time is two to the number
  of the attempt in seconds, at most a minute; at the 34th the product of 64-bit integers is negative, and
  from the 55th on it is zero, so nothing is waited for at all, although the comment promises the cap.\<close>

theorem backoff_grows_and_overflows:
  "(1 \<le> n \<and> n \<le> 33 \<longrightarrow> sint (ExponentialBackoff (int n)) = min (2 ^ n) 60 * 1000000000) \<and>
   sint (ExponentialBackoff 34) < 0 \<and> (55 \<le> n \<longrightarrow> ExponentialBackoff (int n) = 0)"
proof (intro conjI impI)
  have "push_bit (nat 34) 1 * second = (word_of_int (- 1266874889709551616) :: duration)"
    unfolding seconds by simp
  moreover have "sint (word_of_int (- 1266874889709551616) :: duration) = - 1266874889709551616"
    by (rule sint_exact) simp_all
  ultimately show "sint (ExponentialBackoff 34) < 0"
    by (simp only: ExponentialBackoff_def Let_def word_sless_alt cap) simp
qed (simp_all add: backoff_sane backoff_vanishes)

theorem backoff_grows_and_overflows_witness:
  "sint (ExponentialBackoff (int 3)) = min (2 ^ 3) 60 * 1000000000 \<and> ExponentialBackoff (int 55) = 0"
  using backoff_grows_and_overflows [of 3] backoff_grows_and_overflows [of 55] by simp


section \<open>Attempts\<close>

definition succeeds :: "attempt_env \<Rightarrow> bool" where
  "succeeds a = snd (Reconnect1 a)"

definition is_report :: "ws_call \<Rightarrow> bool" where
  "is_report c = (case c of CallReport _ _ _ \<Rightarrow> True | _ \<Rightarrow> False)"

definition is_wait :: "ws_call \<Rightarrow> bool" where
  "is_wait c = (case c of CallWait _ \<Rightarrow> True | _ \<Rightarrow> False)"

lemma call_kinds [simp]:
  "is_wait (CallWait d)" "\<not> is_wait CallConnect" "\<not> is_wait CallDisconnect" "\<not> is_wait CallPing"
  "\<not> is_wait (CallReport m b p)" "is_report (CallReport m b p)" "\<not> is_report (CallWait d)"
  "\<not> is_report CallConnect" "\<not> is_report CallDisconnect" "\<not> is_report CallPing"
  by (simp_all add: is_wait_def is_report_def)

text \<open>How many attempts are made: up to the first that succeeds or is cancelled.\<close>

fun attempts_made :: "(nat \<Rightarrow> attempt_env) \<Rightarrow> nat \<Rightarrow> nat \<Rightarrow> nat" where
  "attempts_made env k 0 = 0"
| "attempts_made env k (Suc n) =
     (if succeeds (env k) \<or> at_cancelled (env k) then 1 else Suc (attempts_made env (Suc k) n))"

lemma attempts_made_le: "attempts_made env k n \<le> n"
  by (induction env k n rule: attempts_made.induct) auto

lemma reconnect1_calls:
  "filter ((=) CallConnect) (fst (Reconnect1 a)) = [CallConnect]"
  "filter is_wait (fst (Reconnect1 a)) = []" "filter is_report (fst (Reconnect1 a)) = []"
  by (auto simp: Reconnect1_def VerifyConnection_def)

lemma try_attempts_calls:
  "length (filter ((=) CallConnect) (fst (try_attempts env report k n))) = attempts_made env k n"
  "filter is_wait (fst (try_attempts env report k n)) =
     map (\<lambda>i. CallWait (ExponentialBackoff (int i)))
       [k..<k + attempts_made env k n - (if snd (try_attempts env report k n) then 1 else 0)]"
  "snd (try_attempts env report k n) \<longleftrightarrow>
     0 < attempts_made env k n \<and> succeeds (env (k + attempts_made env k n - 1))"
  "filter is_report (fst (try_attempts env report k n)) =
     (if report \<and> attempts_made env k n = n \<and> \<not> snd (try_attempts env report k n) \<and>
         (0 < n \<longrightarrow> \<not> at_cancelled (env (k + n - 1)))
      then [CallReport failed_msg True ''websocket_service''] else [])"
proof (induction env report k n rule: try_attempts.induct)
  case (1 env report k)
  { case 1 show ?case by simp }
  { case 2 show ?case by simp }
  { case 3 show ?case by simp }
  { case 4 show ?case by simp }
next
  case (2 env report k n)
  note IH = 2
  obtain cs ok where r: "Reconnect1 (env k) = (cs, ok)" by fastforce
  have cs: "filter ((=) CallConnect) cs = [CallConnect]" "filter is_wait cs = []" "filter is_report cs = []"
    using reconnect1_calls [of "env k"] r by simp_all
  have ok: "succeeds (env k) = ok" by (simp add: succeeds_def r)
  obtain ds b where t: "try_attempts env report (Suc k) n = (ds, b)" by fastforce
  consider "ok" | "\<not> ok" "at_cancelled (env k)" | "\<not> ok" "\<not> at_cancelled (env k)" by blast
  note cases = this
  { case 1 show ?case using cases IH(1) [OF r [symmetric] refl]
      by cases (auto simp: r cs ok t split: if_splits) }
  { case 2 show ?case using cases IH(2,3) [OF r [symmetric] refl]
      by cases (auto simp: r cs ok t upt_conv_Cons split: if_splits) }
  { case 3 show ?case using cases IH(3) [OF r [symmetric] refl]
      by cases (auto simp: r cs ok t split: if_splits) }
  { case 4 show ?case using cases IH(4) [OF r [symmetric] refl]
      by cases (auto simp: r cs ok t split: if_splits, cases n, auto) }
qed


lemma try_reconnect_disconnecting: "TryReconnect (SetDisconnecting b v) env n report = TryReconnect b env n report"
  by (simp add: TryReconnect_def SetDisconnecting_def)

text \<open>Reconnecting is bounded and reports once: at most so many connections are tried as allowed; the call
  succeeds exactly if the last attempt made did; between attempts it waits the growing times; and the one
  fatal error is reported only after the last attempt has failed and its wait has passed. Nothing of this
  depends on whether the service is being disconnected: a disconnect during a wait does not stop the next
  attempt from connecting again.\<close>

theorem reconnect_bounded:
  assumes "\<not> wb_inProgress b" "0 \<le> n"
  shows "let made = attempts_made env 1 (nat n); (cs, ok) = TryReconnect b env n True
    in length (filter ((=) CallConnect) cs) = made \<and> int made \<le> n \<and>
       (ok \<longleftrightarrow> 0 < made \<and> succeeds (env made)) \<and>
       filter is_wait cs = map (\<lambda>i. CallWait (ExponentialBackoff (int i))) [1..<1 + made - (if ok then 1 else 0)] \<and>
       filter is_report cs = (if made = nat n \<and> \<not> ok \<and> (made = 0 \<or> \<not> at_cancelled (env made))
         then [CallReport failed_msg True ''websocket_service''] else []) \<and>
       TryReconnect (SetDisconnecting b True) env n True = (cs, ok)"
proof -
  obtain cs ok where r: "try_attempts env True 1 (nat n) = (cs, ok)" by fastforce
  have t: "TryReconnect b env n True = (cs, ok)" using assms(1) r by (simp add: TryReconnect_def)
  note calls = try_attempts_calls [of env True 1 "nat n", unfolded r fst_conv snd_conv]
  have reports: "filter is_report cs = (if attempts_made env 1 (nat n) = nat n \<and> \<not> ok \<and>
      (attempts_made env 1 (nat n) = 0 \<or> \<not> at_cancelled (env (attempts_made env 1 (nat n))))
      then [CallReport failed_msg True ''websocket_service''] else [])"
    unfolding calls(4) by (rule if_cong) auto
  have "int (attempts_made env 1 (nat n)) \<le> n" using attempts_made_le [of env 1 "nat n"] assms(2) by linarith
  with calls(1-3) reports show ?thesis
    unfolding try_reconnect_disconnecting t Let_def prod.case by (intro conjI) (simp_all only: add_diff_cancel_left')
qed

definition refused :: attempt_env where
  "refused = \<lparr>at_connect = Some ''refused'', at_conn = False, at_ping = None, at_cancelled = False\<rparr>"

theorem reconnect_bounded_witness:
  "filter is_report (fst (TryReconnect (NewWebsocketServiceBase True) (\<lambda>_. refused) 0 True)) =
     [CallReport failed_msg True ''websocket_service'']"
  using reconnect_bounded [of "NewWebsocketServiceBase True" 0 "\<lambda>_. refused"]
  by (simp add: NewWebsocketServiceBase_def Let_def case_prod_beta)

text \<open>The receive loop ends and stays ended: after the peer has closed the connection normally, or once the
  service is being disconnected when a round ends, no further call is made, whatever the environment would
  have offered.\<close>

theorem receive_loop_stops:
  assumes "rd_result r = ClosedNormally \<or> rd_disconnecting r"
  shows "ReceiveLoop b report (rs @ r # rest) = ReceiveLoop b report (rs @ [r]) \<and>
    snd (ReceiveLoop b report (rs @ [r])) \<and>
    fst (ReceiveLoop b report (rs @ [r])) = fst (ReceiveLoop b report rs)"
proof (induction rs)
  case Nil
  then show ?case using assms
    by (cases "rd_result r") (auto simp: MaybeTryReconnect_def SetDisconnecting_def)
next
  case (Cons q rs)
  show ?case
    by (cases "rd_result q") (use Cons in \<open>auto simp: Let_def split: prod.splits\<close>)
qed

theorem receive_loop_stops_witness:
  "fst (ReceiveLoop (NewWebsocketServiceBase True) True
     [\<lparr>rd_result = Returned, rd_env = (\<lambda>_. refused), rd_disconnecting = True\<rparr>]) = []"
  using receive_loop_stops [of "\<lparr>rd_result = Returned, rd_env = (\<lambda>_. refused), rd_disconnecting = True\<rparr>"
      "NewWebsocketServiceBase True" True "[]" "[]"] by simp

end
