(* ===== verification/WebRtc.thy ===== *)
theory WebRtc
  imports AudioPcm Voice
begin

text \<open>
  The WebRTC transport, \<^verbatim>\<open>pkg/transport/smallwebrtc\<close>: signalling, the states of the peer connection, the
  packets that come in and the speech that goes out. The WebRTC stack, the Opus decoder and the Opus
  encoder are parameters: what they answer, with a state of their own.
\<close>

section \<open>Signalling\<close>

text \<open>What the calls of \<^verbatim>\<open>HandleOffer\<close> answer, in their order.\<close>

record rtc_answers =
  ra_new :: "err option"
  ra_unmarshal :: "err option"
  ra_remote :: "err option"
  ra_track :: "err option"
  ra_add :: "err option"
  ra_answer :: "err option"
  ra_local :: "err option"
  ra_description :: string

datatype peer = NoPeer | PeerOpen | PeerClosed

record rtc_transport =
  rt_pc :: peer
  rt_closed :: bool
  rt_counted :: bool
  rt_timer :: bool

definition NewTransport :: rtc_transport where
  "NewTransport = \<lparr>rt_pc = NoPeer, rt_closed = False, rt_counted = False, rt_timer = False\<rparr>"

definition offer_steps :: "rtc_answers \<Rightarrow> (string \<times> err option) list" where
  "offer_steps a =
     [(''unmarshal offer'', ra_unmarshal a), (''set remote description'', ra_remote a), (''new track'', ra_track a),
      (''add track'', ra_add a), (''create answer'', ra_answer a), (''set local description'', ra_local a)]"

fun first_error :: "(string \<times> err option) list \<Rightarrow> err option" where
  "first_error [] = None"
| "first_error ((what, r) # steps) =
     (case r of Some e \<Rightarrow> Some (''smallwebrtc: '' @ what @ '': '' @ e) | None \<Rightarrow> first_error steps)"

definition HandleOffer :: "rtc_answers \<Rightarrow> rtc_transport \<Rightarrow> (err + string) \<times> rtc_transport" where
  "HandleOffer a t =
     (case ra_new a of
        Some e \<Rightarrow> (Inl (''smallwebrtc: new peer connection: '' @ e), t)
      | None \<Rightarrow>
          (case first_error (offer_steps a) of
             Some e \<Rightarrow> (Inl e, t\<lparr>rt_pc := PeerClosed\<rparr>)
           | None \<Rightarrow> (Inr (ra_description a), t\<lparr>rt_pc := PeerOpen\<rparr>)))"

definition Start :: "rtc_transport \<Rightarrow> err option" where
  "Start t = (if rt_pc t = NoPeer then Some ''smallwebrtc: HandleOffer must be called before Start'' else None)"

definition CloseTransport :: "rtc_transport \<Rightarrow> rtc_transport" where
  "CloseTransport t =
     (if rt_closed t then t
      else t\<lparr>rt_closed := True, rt_pc := if rt_pc t = NoPeer then NoPeer else PeerClosed\<rparr>)"

text \<open>A state of the connection changes; the number is what the gauge of active connections changes by.\<close>

datatype pc_state = Connecting | Connected | Failed | Disconnected | PcClosed | OtherState string

definition on_state :: "pc_state \<Rightarrow> rtc_transport \<Rightarrow> rtc_transport \<times> int" where
  "on_state s t =
     (case s of
        Connected \<Rightarrow> if rt_counted t then (t, 0) else (t\<lparr>rt_counted := True\<rparr>, 1)
      | Failed \<Rightarrow> (CloseTransport (t\<lparr>rt_counted := False\<rparr>), if rt_counted t then -1 else 0)
      | Disconnected \<Rightarrow> (CloseTransport (t\<lparr>rt_counted := False\<rparr>), if rt_counted t then -1 else 0)
      | PcClosed \<Rightarrow> (CloseTransport (t\<lparr>rt_counted := False\<rparr>), if rt_counted t then -1 else 0)
      | _ \<Rightarrow> (t, 0))"

fun on_states :: "pc_state list \<Rightarrow> rtc_transport \<Rightarrow> rtc_transport \<times> int" where
  "on_states [] t = (t, 0)"
| "on_states (s # ss) t = (let (t1, n) = on_state s t; (t2, m) = on_states ss t1 in (t2, n + m))"

text \<open>The gauge counts this connection at most once, and a failed offer leaves nothing open.\<close>

lemma gauge_balanced:
  "snd (on_states ss t) = of_bool (rt_counted (fst (on_states ss t))) - of_bool (rt_counted t)"
proof (induction ss arbitrary: t)
  case (Cons s ss)
  have "rt_counted (CloseTransport t) = rt_counted t" for t by (simp add: CloseTransport_def)
  then have "snd (on_state s t) = of_bool (rt_counted (fst (on_state s t))) - of_bool (rt_counted t)"
    by (cases s) (simp_all add: on_state_def)
  with Cons.IH [of "fst (on_state s t)"] show ?case by (simp add: case_prod_beta Let_def)
qed simp

lemma failed_offer_closes:
  "fst (HandleOffer a t) = Inl e \<Longrightarrow> rt_pc t = NoPeer \<Longrightarrow> rt_pc (snd (HandleOffer a t)) \<noteq> PeerOpen"
  by (auto simp: HandleOffer_def split: option.splits)

section \<open>Packets that come in\<close>

type_synonym 'd opus_decoder = "'d \<Rightarrow> byte list \<Rightarrow> (err + byte list) \<times> 'd"

text \<open>The decoder without cgo has a buffer of 640 bytes; \<open>lib\<close> fills it.\<close>

definition pion_Decode :: "('d \<Rightarrow> byte list \<Rightarrow> (err + byte list) \<times> 'd) \<Rightarrow> 'd opus_decoder" where
  "pion_Decode lib d payload =
     (if payload = [] then (Inr [], d)
      else (case lib d payload of (Inl e, d') \<Rightarrow> (Inl e, d') | (Inr buf, d') \<Rightarrow> (Inr (take 640 buf), d')))"

text \<open>The other decodes up to 960 samples.\<close>

definition gopus_Decode :: "('d \<Rightarrow> byte list \<Rightarrow> nat \<Rightarrow> (err + i16 list) \<times> 'd) \<Rightarrow> 'd opus_decoder" where
  "gopus_Decode lib d payload =
     (if payload = [] then (Inr [], d)
      else (case lib d payload 960 of (Inl e, d') \<Rightarrow> (Inl e, d') | (Inr ss, d') \<Rightarrow> (Inr (bytes_of_samples ss), d')))"

record 'd inbound =
  ib_decoder :: 'd
  ib_accum :: "byte list"
  ib_ids :: u64
  ib_timer :: bool

definition new_inbound :: "'d \<Rightarrow> u64 \<Rightarrow> 'd inbound" where
  "new_inbound d ids = \<lparr>ib_decoder = d, ib_accum = [], ib_ids = ids, ib_timer = False\<rparr>"

text \<open>One packet: \<open>limited\<close> is whether a longest duration and its callback are set.\<close>

definition handle_packet :: "'d opus_decoder \<Rightarrow> bool \<Rightarrow> 'd inbound \<Rightarrow> byte list \<Rightarrow> 'd inbound \<times> frame list" where
  "handle_packet dec limited s payload =
     (if payload = [] then (s, [])
      else (case dec (ib_decoder s) payload of
          (Inl e, d) \<Rightarrow> (s\<lparr>ib_decoder := d\<rparr>, [])
        | (Inr decoded, d) \<Rightarrow>
            if decoded = [] then (s\<lparr>ib_decoder := d\<rparr>, [])
            else (let acc = ib_accum s @ Resample16MonoAlloc decoded 48000 16000;
                      s1 = s\<lparr>ib_decoder := d, ib_timer := ib_timer s \<or> limited\<rparr>
                  in if length acc \<ge> 640
                     then (let (f, ids) = mk_frame (AudioRawFrame (audio_of acc 16000 1 0)) (ib_ids s)
                           in (s1\<lparr>ib_accum := [], ib_ids := ids\<rparr>, [f]))
                     else (s1\<lparr>ib_accum := acc\<rparr>, []))))"

text \<open>The audio of a packet, as it arrives at the state the decoder is in.\<close>

fun decoded_audio :: "'d opus_decoder \<Rightarrow> 'd \<Rightarrow> byte list list \<Rightarrow> byte list" where
  "decoded_audio dec d [] = []"
| "decoded_audio dec d (p # ps) =
     (if p = [] then decoded_audio dec d ps
      else (case dec d p of
          (Inl e, d') \<Rightarrow> decoded_audio dec d' ps
        | (Inr b, d') \<Rightarrow> (if b = [] then [] else Resample16MonoAlloc b 48000 16000) @ decoded_audio dec d' ps))"

definition frame_audio :: "frame \<Rightarrow> byte list" where
  "frame_audio f = (case fbody f of AudioRawFrame a \<Rightarrow> audio a | _ \<Rightarrow> [])"

definition speech_frame_ok :: "frame \<Rightarrow> bool" where
  "speech_frame_ok f = (case fbody f of
     AudioRawFrame a \<Rightarrow> 640 \<le> length (audio a) \<and> sample_rate a = 16000 \<and> num_channels a = 1 | _ \<Rightarrow> False)"

lemma handle_packet_audio:
  assumes "length (ib_accum s) < 640"
  shows "concat (map frame_audio (snd (handle_packet dec limited s p))) @ ib_accum (fst (handle_packet dec limited s p)) =
      ib_accum s @ decoded_audio dec (ib_decoder s) [p] \<and>
    decoded_audio dec (ib_decoder s) (p # ps) =
      decoded_audio dec (ib_decoder s) [p] @ decoded_audio dec (ib_decoder (fst (handle_packet dec limited s p))) ps \<and>
    length (ib_accum (fst (handle_packet dec limited s p))) < 640 \<and>
    list_all speech_frame_ok (snd (handle_packet dec limited s p))"
proof (cases "p = []")
  case False
  obtain r d where d: "dec (ib_decoder s) p = (r, d)" by fastforce
  show ?thesis
  proof (cases r)
    case (Inr b)
    then show ?thesis using False assms
      by (simp add: handle_packet_def d Let_def case_prod_beta frame_audio_def speech_frame_ok_def audio_of_def)
  qed (use False assms in \<open>simp add: handle_packet_def d\<close>)
qed (use assms in \<open>simp add: handle_packet_def\<close>)

text \<open>C39: No decoded audio is lost or reordered on the way in: the audio of the frames a track gives to the
  pipeline, followed by what is kept, is the decoded audio at 16 kHz; frames have at least 20 ms, and
  less than 20 ms is ever kept. Whatever the decoder answers, packets that do not decode only leave a gap.\<close>

theorem inbound_conserves_audio:
  "let (s, fs) = run (handle_packet dec limited) (new_inbound d ids) ps in
     concat (map frame_audio fs) @ ib_accum s = decoded_audio dec d ps \<and>
     list_all speech_frame_ok fs \<and> length (ib_accum s) < 640"
proof -
  have "concat (map frame_audio (snd (run (handle_packet dec limited) t ps))) @
        ib_accum (fst (run (handle_packet dec limited) t ps)) = ib_accum t @ decoded_audio dec (ib_decoder t) ps \<and>
      list_all speech_frame_ok (snd (run (handle_packet dec limited) t ps)) \<and>
      length (ib_accum (fst (run (handle_packet dec limited) t ps))) < 640"
    if "length (ib_accum t) < 640" for t
    using that
  proof (induction ps arbitrary: t)
    case (Cons p ps)
    let ?t = "fst (handle_packet dec limited t p)"
    note h = handle_packet_audio [OF Cons.prems, of dec limited p ps]
    from Cons.IH [of ?t] h have
      "concat (map frame_audio (snd (run (handle_packet dec limited) ?t ps))) @
        ib_accum (fst (run (handle_packet dec limited) ?t ps)) = ib_accum ?t @ decoded_audio dec (ib_decoder ?t) ps"
      by simp
    with h have "concat (map frame_audio (snd (run (handle_packet dec limited) t (p # ps)))) @
        ib_accum (fst (run (handle_packet dec limited) t (p # ps))) =
        (concat (map frame_audio (snd (handle_packet dec limited t p))) @ ib_accum ?t) @
        decoded_audio dec (ib_decoder ?t) ps"
      by (simp del: run.simps(2) decoded_audio.simps(2))
    with h Cons.IH [of ?t] show ?case by (simp del: run.simps(2) decoded_audio.simps(2))
  qed simp
  from this [of "new_inbound d ids"]
  show ?thesis by (simp add: new_inbound_def case_prod_beta Let_def)
qed

text \<open>Without cgo a packet yields at most 106 samples at 16 kHz, less than seven milliseconds, however long it
  is: clients send packets of 20 ms.\<close>

lemma pion_packets_short:
  "length (decoded_audio (pion_Decode lib) d [p]) \<le> 212"
proof -
  obtain r d' where l: "lib d p = (r, d')" by fastforce
  have "length (Resample16MonoAlloc b 48000 16000) \<le> 212" if "length b \<le> 640" for b
  proof -
    have "nat (int (length b div 2) * 16000 div 48000) \<le> 106" using that by linarith
    then show ?thesis by (simp add: Resample16MonoAlloc_def Resample16Mono_def Let_def)
  qed
  then show ?thesis by (cases r) (simp_all add: pion_Decode_def l)
qed

section \<open>Speech that goes out\<close>

type_synonym 'e opus_encoder = "'e \<Rightarrow> i16 list \<Rightarrow> (err + byte list) \<times> 'e"

definition is_tts :: "frame \<Rightarrow> bool" where
  "is_tts f = (case fbody f of TTSAudioRawFrame a x \<Rightarrow> True | _ \<Rightarrow> False)"

definition is_barge_in :: "frame \<Rightarrow> bool" where
  "is_barge_in f \<longleftrightarrow> fbody f = UserStartedSpeakingFrame"

text \<open>The frames are those received until the transport is closed.\<close>

fun drainTTSFramesUntilNonTTS :: "frame list \<Rightarrow> (frame \<times> frame list) option" where
  "drainTTSFramesUntilNonTTS [] = None"
| "drainTTSFramesUntilNonTTS (f # fs) =
     (if is_tts f then drainTTSFramesUntilNonTTS fs
      else if is_barge_in f then drainTTSFramesUntilNonTTS fs
      else Some (f, fs))"

lemma drain_shorter [termination_simp]:
  "drainTTSFramesUntilNonTTS fs = Some (g, r) \<Longrightarrow> length r < length fs"
  by (induction fs) (auto split: if_splits)

text \<open>The samples of a speech frame at 48 kHz, and the loop over its blocks of 20 ms. A block is paired with the
  packet written, if there is one.\<close>

definition pcm48 :: "frame \<Rightarrow> byte list" where
  "pcm48 f =
     (case fbody f of
        TTSAudioRawFrame a x \<Rightarrow>
          (let sr = (if sample_rate a \<le> 0 then 24000 else sample_rate a)
           in if audio a = [] then [] else if sr = 48000 then audio a else Resample16Mono (audio a) sr 48000 [])
      | _ \<Rightarrow> [])"

function encode_blocks :: "'e opus_encoder \<Rightarrow> 'e \<Rightarrow> byte list \<Rightarrow> (i16 list \<times> byte list option) list \<times> 'e" where
  "encode_blocks enc e pcm =
     (if length pcm < 1920 then ([], e)
      else (let samples = samples_of (take 1920 pcm); (ans, e1) = enc e samples;
                packet = (case ans of Inl x \<Rightarrow> None | Inr b \<Rightarrow> if b = [] then None else Some b);
                (rest, e2) = encode_blocks enc e1 (drop 1920 pcm)
            in ((samples, packet) # rest, e2)))"
  by pat_completeness auto
termination by (relation "measure (\<lambda>(enc, e, pcm). length pcm)") auto

declare encode_blocks.simps [simp del]

text \<open>The loop of the sender; the frame it keeps as the next one is the head of the list.\<close>

function runOutboundEncode :: "'e opus_encoder \<Rightarrow> 'e \<Rightarrow> frame list \<Rightarrow> (i16 list \<times> byte list option) list" where
  "runOutboundEncode enc e [] = []"
| "runOutboundEncode enc e (f # fs) =
     (if is_barge_in f
      then (case drainTTSFramesUntilNonTTS fs of None \<Rightarrow> [] | Some (g, r) \<Rightarrow> runOutboundEncode enc e (g # r))
      else if \<not> is_tts f then runOutboundEncode enc e fs
      else (let (sent, e1) = encode_blocks enc e (pcm48 f) in sent @ runOutboundEncode enc e1 fs))"
  by pat_completeness auto
termination by (relation "measure (\<lambda>(enc, e, fs). length fs)") (auto dest: drain_shorter)

text \<open>Without an encoder everything is thrown away.\<close>

definition runOutboundDrain :: "frame list \<Rightarrow> (i16 list \<times> byte list option) list" where
  "runOutboundDrain fs = []"

text \<open>What is heard: all speech except what follows a barge-in, up to the next frame of another kind.\<close>

fun audible :: "bool \<Rightarrow> frame list \<Rightarrow> frame list" where
  "audible muted [] = []"
| "audible muted (f # fs) =
     (if is_barge_in f then audible True fs
      else if is_tts f then (if muted then audible True fs else f # audible False fs)
      else audible False fs)"

text \<open>The whole blocks of 960 samples in a speech frame.\<close>

definition blocks :: "frame \<Rightarrow> i16 list list" where
  "blocks f = map (\<lambda>i. samples_of (take 1920 (drop (i * 1920) (pcm48 f)))) [0..<length (pcm48 f) div 1920]"

lemma encode_blocks_samples:
  "map fst (fst (encode_blocks enc e pcm)) =
     map (\<lambda>i. samples_of (take 1920 (drop (i * 1920) pcm))) [0..<length pcm div 1920]"
proof (induction enc e pcm rule: encode_blocks.induct)
  case (1 enc e pcm)
  show ?case
  proof (cases "length pcm < 1920")
    case False
    then have "length pcm div 1920 = Suc ((length pcm - 1920) div 1920)" by (simp add: le_div_geq)
    then show ?thesis using False 1 [OF False refl prod.collapse refl]
      by (simp add: encode_blocks.simps [of enc e pcm] case_prod_beta Let_def upt_conv_Cons map_Suc_upt [symmetric]
          o_def add.commute del: upt_Suc)
  qed (simp add: encode_blocks.simps)
qed

lemma audible_drain:
  "audible True fs = (case drainTTSFramesUntilNonTTS fs of None \<Rightarrow> [] | Some (g, r) \<Rightarrow> audible False (g # r))"
proof (induction fs)
  case (Cons f fs)
  have "\<not> (is_barge_in f \<and> is_tts f)" by (auto simp: is_barge_in_def is_tts_def)
  with Cons show ?case by auto
qed simp

lemma outbound_blocks:
  "map fst (runOutboundEncode enc e fs) = concat (map blocks (audible False fs))"
proof (induction enc e fs rule: runOutboundEncode.induct)
  case (2 enc e f fs)
  show ?case
  proof (cases "is_barge_in f")
    case True
    show ?thesis
    proof (cases "drainTTSFramesUntilNonTTS fs")
      case (Some x)
      then show ?thesis using 2(1) [OF True Some] True by (cases x) (simp add: audible_drain [of fs])
    qed (simp add: True audible_drain [of fs])
  next
    case False
    obtain sent e1 where s: "encode_blocks enc e (pcm48 f) = (sent, e1)" by fastforce
    have "map fst sent = blocks f" using encode_blocks_samples [of enc e "pcm48 f"] s by (simp add: blocks_def)
    then show ?thesis using 2(2,3) False s by simp
  qed
qed simp

lemma audible_at_barge_in: "is_barge_in b \<Longrightarrow> audible m (xs @ b # ys) = audible m xs @ audible True ys"
  by (induction xs arbitrary: m) auto

lemma audible_muted: "list_all is_tts xs \<Longrightarrow> \<not> is_tts g \<Longrightarrow> \<not> is_barge_in g \<Longrightarrow> audible True (xs @ g # ys) = audible False ys"
  by (induction xs) (auto simp: is_tts_def is_barge_in_def)

text \<open>C22: A barge-in does the reverse of what it is for. The frame that tells that the user speaks stands in the
  channel behind the speech queued before it, so all of that speech is sent in full, whatever it is; what is
  dropped is the speech that comes after it, up to the next frame of another kind.\<close>

theorem barge_in_spares_queued_speech:
  assumes "is_barge_in b" "list_all is_tts later" "\<not> is_tts g" "\<not> is_barge_in g"
  shows "map fst (runOutboundEncode enc e (queued @ b # later @ g # rest)) =
    map fst (runOutboundEncode enc e queued) @ map fst (runOutboundEncode enc e rest)"
  using assms by (simp add: outbound_blocks audible_at_barge_in audible_muted)

definition speech_at :: "byte \<Rightarrow> frame" where
  "speech_at x = Frame (NewBaseWithID 1) (TTSAudioRawFrame (audio_of (replicate 1920 x) 48000 1 0) [])"

lemma speech_at_simps [simp]: "is_tts (speech_at x)" "\<not> is_barge_in (speech_at x)"
  "blocks (speech_at x) = [samples_of (replicate 1920 x)]"
  by (simp_all add: speech_at_def is_tts_def is_barge_in_def blocks_def pcm48_def audio_of_def)

lemma other_kinds [simp]: "is_barge_in (fst (mk_frame UserStartedSpeakingFrame i))"
  "\<not> is_barge_in (fst (mk_frame BotStartedSpeakingFrame i))" "\<not> is_tts (fst (mk_frame BotStartedSpeakingFrame i))"
  by (simp_all add: is_barge_in_def is_tts_def)

lemma barge_in_spares_queued_speech_witness:
  "map fst (runOutboundEncode (\<lambda>e ss. (Inr [0], e)) ()
     ([speech_at 1] @ fst (mk_frame UserStartedSpeakingFrame 2) # [speech_at 2] @
      fst (mk_frame BotStartedSpeakingFrame 3) # [speech_at 3])) =
   [samples_of (replicate 1920 1), samples_of (replicate 1920 3)]"
  by (subst barge_in_spares_queued_speech)
    (simp_all add: outbound_blocks del: runOutboundEncode.simps)

text \<open>The end of every speech frame, less than 20 ms, is never sent; each block has 960 samples.\<close>

lemma blocks_whole:
  "length (blocks f) = length (pcm48 f) div 1920" "list_all (\<lambda>b. length b = 960) (blocks f)"
proof -
  have "min (length (pcm48 f) - i * 1920) 1920 = 1920" if "i < length (pcm48 f) div 1920" for i
  proof -
    have "Suc i * 1920 \<le> length (pcm48 f) div 1920 * 1920" using that by (intro mult_le_mono1) simp
    also have "\<dots> \<le> length (pcm48 f)" by simp
    finally show ?thesis by simp
  qed
  then show "list_all (\<lambda>b. length b = 960) (blocks f)"
    by (auto simp: blocks_def list_all_iff PCM16MonoNumFrames_def min.commute)
qed (simp add: blocks_def)

section \<open>The longest duration\<close>

text \<open>The timer started by the first decoded packet calls back once, unless the transport is closed by then.\<close>

definition noteFirstInboundAudio :: "bool \<Rightarrow> rtc_transport \<Rightarrow> rtc_transport" where
  "noteFirstInboundAudio limited t = (if limited then t\<lparr>rt_timer := True\<rparr> else t)"

definition timer_calls_back :: "rtc_transport \<Rightarrow> bool" where
  "timer_calls_back t \<longleftrightarrow> rt_timer t \<and> \<not> rt_closed t"

end
