(* ===== verification/Config.thy ===== *)
theory Config
  imports GoJson
begin

text \<open>
  The configuration, \<^verbatim>\<open>pkg/config/config.go\<close>: the file, the environment variables that override it, the
  look-up of API keys with its cache, defaults and validation. The environment is a function from names to
  values, empty where a variable is not set; the content of the file is the JSON value it denotes. The names
  of the fields are those of the code with \<open>cf_\<close> in front.
\<close>

section \<open>Parsing of settings\<close>

text \<open>\<^verbatim>\<open>strconv.Atoi\<close> and \<^verbatim>\<open>ParseInt\<close> to the base ten; \<^verbatim>\<open>strconv.ParseFloat\<close> on decimal numbers.\<close>

definition digit_val :: "char \<Rightarrow> nat option" where
  "digit_val c = (let n = of_char c in if 48 \<le> n \<and> n \<le> 57 then Some (n - 48) else None)"

fun digits_val :: "nat \<Rightarrow> string \<Rightarrow> nat option" where
  "digits_val acc [] = Some acc"
| "digits_val acc (c # r) =
     (case digit_val c of None \<Rightarrow> None | Some d \<Rightarrow> digits_val (acc * 10 + d) r)"

definition sign_of :: "string \<Rightarrow> int \<times> string" where
  "sign_of s =
     (case s of
        c # r \<Rightarrow> if c = CHR ''-'' then (-1, r) else if c = CHR ''+'' then (1, r) else (1, s)
      | [] \<Rightarrow> (1, s))"

definition Atoi :: "string \<Rightarrow> int option" where
  "Atoi s =
     (let (sg, r) = sign_of s
      in if r = [] then None
         else (case digits_val 0 r of
             None \<Rightarrow> None
           | Some n \<Rightarrow>
               let i = sg * int n in if - (2 ^ 63) \<le> i \<and> i < 2 ^ 63 then Some i else None))"

definition split_at_char :: "char \<Rightarrow> string \<Rightarrow> string \<times> string option" where
  "split_at_char c s =
     (takeWhile (\<lambda>x. x \<noteq> c) s,
      case dropWhile (\<lambda>x. x \<noteq> c) s of [] \<Rightarrow> None | _ # r \<Rightarrow> Some r)"

definition ParseFloat :: "string \<Rightarrow> rat option" where
  "ParseFloat s =
     (let (sg, r) = sign_of s;
          (mant, ex) = split_at_char (CHR ''e'') (map lower_char r);
          (ip, fp) = split_at_char (CHR ''.'') mant;
          frac = (case fp of None \<Rightarrow> [] | Some f \<Rightarrow> f)
      in if ip @ frac = [] then None
         else (case (digits_val 0 (ip @ frac), (case ex of None \<Rightarrow> Some 0 | Some x \<Rightarrow> Atoi x)) of
             (Some m, Some k) \<Rightarrow>
               let q = of_int (sg * int m) / 10 ^ length frac
               in Some (if 0 \<le> k then q * 10 ^ nat k else q / 10 ^ nat (- k))
           | _ \<Rightarrow> None))"

definition EqualFold :: "string \<Rightarrow> string \<Rightarrow> bool" where
  "EqualFold s t \<longleftrightarrow> ToLower s = ToLower t"

fun Split :: "char \<Rightarrow> string \<Rightarrow> string list" where
  "Split c [] = [[]]"
| "Split c (x # xs) =
     (if x = c then [] # Split c xs
      else (case Split c xs of [] \<Rightarrow> [[x]] | p # ps \<Rightarrow> (x # p) # ps))"

section \<open>The configuration\<close>

record recording_config =
  rc_Enable :: bool
  rc_Bucket :: string
  rc_BasePath :: string
  rc_Format :: string
  rc_WorkerCount :: int
  rc_QueueCap :: int
  rc_MaxRetries :: int

record transcript_config =
  tc_Enable :: bool
  tc_Driver :: string
  tc_DSN :: string
  tc_TableName :: string

record mcp_config =
  mc_Command :: string
  mc_Args :: "string list"
  mc_ToolsFilter :: "string list"

record config =
  cf_Host :: string
  cf_Port :: int
  cf_Model :: string
  cf_Provider :: string
  cf_SttProvider :: string
  cf_LlmProvider :: string
  cf_TtsProvider :: string
  cf_STTModel :: string
  cf_STTLanguage :: string
  cf_TTSModel :: string
  cf_TTSVoice :: string
  cf_Plugins :: "string list"
  cf_PluginOptions :: "(string \<rightharpoonup> any) option"
  cf_APIKeys :: "(string \<rightharpoonup> string) option"
  cf_Transport :: string
  cf_WebRTCICEServers :: "string list"
  cf_RTCMaxDurationSecs :: rat
  cf_TurnDetection :: string
  cf_TurnStopSecs :: rat
  cf_TurnPreSpeechMs :: rat
  cf_TurnMaxDurationSecs :: rat
  cf_VADStartSecs :: rat
  cf_VadThreshold :: rat
  cf_TurnAsync :: bool
  cf_UserTurnStopTimeoutSecs :: rat
  cf_UserIdleTimeoutSecs :: rat
  cf_VADType :: string
  cf_VADConfidence :: rat
  cf_VADStartSecsVAD :: rat
  cf_VADStopSecs :: rat
  cf_VADMinVolume :: rat
  cf_VADBatchSize :: int
  cf_AllowInterruptions :: bool
  cf_InterruptionStrategy :: string
  cf_MinWords :: int
  cf_RunnerTransport :: string
  cf_RunnerPort :: int
  cf_ProxyHost :: string
  cf_Dialin :: bool
  cf_DailyDialinWebhookSecret :: string
  cf_SessionStore :: string
  cf_RedisURL :: string
  cf_SessionTTLSecs :: int
  cf_PipelineInputQueueCap :: int
  cf_WSWriteCoalesceMs :: int
  cf_WSWriteCoalesceMaxFrames :: int
  cf_TLSEnable :: bool
  cf_TLSCertFile :: string
  cf_TLSKeyFile :: string
  cf_LogLevel :: string
  cf_JSONLogs :: bool
  cf_CORSAllowedOrigins :: "string list option"
  cf_MaxRequestBodyBytes :: int
  cf_ServerAPIKey :: string
  cf_MCP :: "mcp_config option"
  cf_MetricsEnabled :: "bool option"
  cf_AudioSampleRate :: rat
  cf_Recording :: recording_config
  cf_Transcripts :: transcript_config
  cf_apiKeyCache :: "string \<rightharpoonup> string"

definition zero_config :: config where
  "zero_config =
     \<lparr>cf_Host = [], cf_Port = 0, cf_Model = [], cf_Provider = [], cf_SttProvider = [], cf_LlmProvider = [],
      cf_TtsProvider = [], cf_STTModel = [], cf_STTLanguage = [], cf_TTSModel = [], cf_TTSVoice = [],
      cf_Plugins = [], cf_PluginOptions = None, cf_APIKeys = None, cf_Transport = [],
      cf_WebRTCICEServers = [], cf_RTCMaxDurationSecs = 0, cf_TurnDetection = [], cf_TurnStopSecs = 0,
      cf_TurnPreSpeechMs = 0, cf_TurnMaxDurationSecs = 0, cf_VADStartSecs = 0, cf_VadThreshold = 0,
      cf_TurnAsync = False, cf_UserTurnStopTimeoutSecs = 0, cf_UserIdleTimeoutSecs = 0, cf_VADType = [],
      cf_VADConfidence = 0, cf_VADStartSecsVAD = 0, cf_VADStopSecs = 0, cf_VADMinVolume = 0,
      cf_VADBatchSize = 0, cf_AllowInterruptions = False, cf_InterruptionStrategy = [], cf_MinWords = 0,
      cf_RunnerTransport = [], cf_RunnerPort = 0, cf_ProxyHost = [], cf_Dialin = False,
      cf_DailyDialinWebhookSecret = [], cf_SessionStore = [], cf_RedisURL = [], cf_SessionTTLSecs = 0,
      cf_PipelineInputQueueCap = 0, cf_WSWriteCoalesceMs = 0, cf_WSWriteCoalesceMaxFrames = 0,
      cf_TLSEnable = False, cf_TLSCertFile = [], cf_TLSKeyFile = [], cf_LogLevel = [], cf_JSONLogs = False,
      cf_CORSAllowedOrigins = None, cf_MaxRequestBodyBytes = 0, cf_ServerAPIKey = [], cf_MCP = None,
      cf_MetricsEnabled = None, cf_AudioSampleRate = 0,
      cf_Recording = \<lparr>rc_Enable = False, rc_Bucket = [], rc_BasePath = [], rc_Format = [],
        rc_WorkerCount = 0, rc_QueueCap = 0, rc_MaxRetries = 0\<rparr>,
      cf_Transcripts = \<lparr>tc_Enable = False, tc_Driver = [], tc_DSN = [], tc_TableName = []\<rparr>,
      cf_apiKeyCache = Map.empty\<rparr>"

section \<open>The file\<close>

text \<open>Lists and maps of a struct: null makes them nil, a map is added to, a null element is its zero value.\<close>

fun json_strings :: "any list \<Rightarrow> string list option" where
  "json_strings [] = Some []"
| "json_strings (AStr x # vs) = map_option ((#) x) (json_strings vs)"
| "json_strings (ANil # vs) = map_option ((#) []) (json_strings vs)"
| "json_strings (_ # vs) = None"

definition set_strings :: "(string list option \<Rightarrow> 's \<Rightarrow> 's) \<Rightarrow> 's setter" where
  "set_strings upd v s =
     (case v of
        AArr vs \<Rightarrow> map_option (\<lambda>xs. upd (Some xs) s) (json_strings vs)
      | ANil \<Rightarrow> Some (upd None s)
      | _ \<Rightarrow> None)"

definition set_list :: "(string list \<Rightarrow> 's \<Rightarrow> 's) \<Rightarrow> 's setter" where
  "set_list upd = set_strings (\<lambda>x. upd (case x of None \<Rightarrow> [] | Some xs \<Rightarrow> xs))"

fun json_string_map :: "anymap \<Rightarrow> (string \<rightharpoonup> string) \<Rightarrow> (string \<rightharpoonup> string) option" where
  "json_string_map [] m = Some m"
| "json_string_map ((k, AStr x) # kvs) m = json_string_map kvs (m(k \<mapsto> x))"
| "json_string_map ((k, ANil) # kvs) m = json_string_map kvs (m(k \<mapsto> []))"
| "json_string_map (_ # kvs) m = None"

definition set_api_keys :: "config setter" where
  "set_api_keys v c =
     (case v of
        AObj kvs \<Rightarrow>
          map_option (\<lambda>m. c\<lparr>cf_APIKeys := Some m\<rparr>)
            (json_string_map kvs (case cf_APIKeys c of None \<Rightarrow> Map.empty | Some m \<Rightarrow> m))
      | ANil \<Rightarrow> Some (c\<lparr>cf_APIKeys := None\<rparr>)
      | _ \<Rightarrow> None)"

definition set_plugin_options :: "config setter" where
  "set_plugin_options v c =
     (case v of
        AObj kvs \<Rightarrow>
          Some (c\<lparr>cf_PluginOptions :=
            Some (foldl (\<lambda>m (k, x). m(k \<mapsto> x)) (case cf_PluginOptions c of None \<Rightarrow> Map.empty | Some m \<Rightarrow> m) kvs)\<rparr>)
      | ANil \<Rightarrow> Some (c\<lparr>cf_PluginOptions := None\<rparr>)
      | _ \<Rightarrow> None)"

definition set_metrics_enabled :: "config setter" where
  "set_metrics_enabled v c =
     (case v of
        ABool b \<Rightarrow> Some (c\<lparr>cf_MetricsEnabled := Some b\<rparr>)
      | ANil \<Rightarrow> Some (c\<lparr>cf_MetricsEnabled := None\<rparr>)
      | _ \<Rightarrow> None)"

definition mcp_fields :: "(string \<times> mcp_config setter) list" where
  "mcp_fields =
     [(''command'', set_string (\<lambda>x. mc_Command_update (\<lambda>_. x))),
      (''args'', set_list (\<lambda>x. mc_Args_update (\<lambda>_. x))),
      (''tools_filter'', set_list (\<lambda>x. mc_ToolsFilter_update (\<lambda>_. x)))]"

definition set_mcp :: "config setter" where
  "set_mcp v c =
     (case v of
        ANil \<Rightarrow> Some (c\<lparr>cf_MCP := None\<rparr>)
      | _ \<Rightarrow>
          map_option (\<lambda>m. c\<lparr>cf_MCP := Some m\<rparr>)
            (json_into mcp_fields v
              (case cf_MCP c of
                 None \<Rightarrow> \<lparr>mc_Command = [], mc_Args = [], mc_ToolsFilter = []\<rparr>
               | Some m \<Rightarrow> m)))"

definition recording_fields :: "(string \<times> config setter) list" where
  "recording_fields =
     [(''enable'', set_bool (\<lambda>x. cf_Recording_update (rc_Enable_update (\<lambda>_. x)))),
      (''bucket'', set_string (\<lambda>x. cf_Recording_update (rc_Bucket_update (\<lambda>_. x)))),
      (''base_path'', set_string (\<lambda>x. cf_Recording_update (rc_BasePath_update (\<lambda>_. x)))),
      (''format'', set_string (\<lambda>x. cf_Recording_update (rc_Format_update (\<lambda>_. x)))),
      (''worker_count'', set_int (\<lambda>x. cf_Recording_update (rc_WorkerCount_update (\<lambda>_. x)))),
      (''queue_cap'', set_int (\<lambda>x. cf_Recording_update (rc_QueueCap_update (\<lambda>_. x)))),
      (''max_retries'', set_int (\<lambda>x. cf_Recording_update (rc_MaxRetries_update (\<lambda>_. x))))]"

definition transcript_fields :: "(string \<times> config setter) list" where
  "transcript_fields =
     [(''enable'', set_bool (\<lambda>x. cf_Transcripts_update (tc_Enable_update (\<lambda>_. x)))),
      (''driver'', set_string (\<lambda>x. cf_Transcripts_update (tc_Driver_update (\<lambda>_. x)))),
      (''dsn'', set_string (\<lambda>x. cf_Transcripts_update (tc_DSN_update (\<lambda>_. x)))),
      (''table_name'', set_string (\<lambda>x. cf_Transcripts_update (tc_TableName_update (\<lambda>_. x))))]"

definition config_fields :: "(string \<times> config setter) list" where
  "config_fields =
     [(''host'', set_string (\<lambda>x. cf_Host_update (\<lambda>_. x))),
      (''port'', set_int (\<lambda>x. cf_Port_update (\<lambda>_. x))),
      (''model'', set_string (\<lambda>x. cf_Model_update (\<lambda>_. x))),
      (''provider'', set_string (\<lambda>x. cf_Provider_update (\<lambda>_. x))),
      (''stt_provider'', set_string (\<lambda>x. cf_SttProvider_update (\<lambda>_. x))),
      (''llm_provider'', set_string (\<lambda>x. cf_LlmProvider_update (\<lambda>_. x))),
      (''tts_provider'', set_string (\<lambda>x. cf_TtsProvider_update (\<lambda>_. x))),
      (''stt_model'', set_string (\<lambda>x. cf_STTModel_update (\<lambda>_. x))),
      (''stt_language'', set_string (\<lambda>x. cf_STTLanguage_update (\<lambda>_. x))),
      (''tts_model'', set_string (\<lambda>x. cf_TTSModel_update (\<lambda>_. x))),
      (''tts_voice'', set_string (\<lambda>x. cf_TTSVoice_update (\<lambda>_. x))),
      (''plugins'', set_list (\<lambda>x. cf_Plugins_update (\<lambda>_. x))),
      (''plugin_options'', set_plugin_options),
      (''api_keys'', set_api_keys),
      (''transport'', set_string (\<lambda>x. cf_Transport_update (\<lambda>_. x))),
      (''webrtc_ice_servers'', set_list (\<lambda>x. cf_WebRTCICEServers_update (\<lambda>_. x))),
      (''rtc_max_duration_secs'', set_number (\<lambda>x. cf_RTCMaxDurationSecs_update (\<lambda>_. x))),
      (''turn_detection'', set_string (\<lambda>x. cf_TurnDetection_update (\<lambda>_. x))),
      (''turn_stop_secs'', set_number (\<lambda>x. cf_TurnStopSecs_update (\<lambda>_. x))),
      (''turn_pre_speech_ms'', set_number (\<lambda>x. cf_TurnPreSpeechMs_update (\<lambda>_. x))),
      (''turn_max_duration_secs'', set_number (\<lambda>x. cf_TurnMaxDurationSecs_update (\<lambda>_. x))),
      (''vad_start_secs'', set_number (\<lambda>x. cf_VADStartSecs_update (\<lambda>_. x))),
      (''vad_threshold'', set_number (\<lambda>x. cf_VadThreshold_update (\<lambda>_. x))),
      (''turn_async'', set_bool (\<lambda>x. cf_TurnAsync_update (\<lambda>_. x))),
      (''user_turn_stop_timeout_secs'', set_number (\<lambda>x. cf_UserTurnStopTimeoutSecs_update (\<lambda>_. x))),
      (''user_idle_timeout_secs'', set_number (\<lambda>x. cf_UserIdleTimeoutSecs_update (\<lambda>_. x))),
      (''vad_type'', set_string (\<lambda>x. cf_VADType_update (\<lambda>_. x))),
      (''vad_confidence'', set_number (\<lambda>x. cf_VADConfidence_update (\<lambda>_. x))),
      (''vad_start_secs_vad'', set_number (\<lambda>x. cf_VADStartSecsVAD_update (\<lambda>_. x))),
      (''vad_stop_secs'', set_number (\<lambda>x. cf_VADStopSecs_update (\<lambda>_. x))),
      (''vad_min_volume'', set_number (\<lambda>x. cf_VADMinVolume_update (\<lambda>_. x))),
      (''vad_batch_size'', set_int (\<lambda>x. cf_VADBatchSize_update (\<lambda>_. x))),
      (''allow_interruptions'', set_bool (\<lambda>x. cf_AllowInterruptions_update (\<lambda>_. x))),
      (''interruption_strategy'', set_string (\<lambda>x. cf_InterruptionStrategy_update (\<lambda>_. x))),
      (''min_words'', set_int (\<lambda>x. cf_MinWords_update (\<lambda>_. x))),
      (''runner_transport'', set_string (\<lambda>x. cf_RunnerTransport_update (\<lambda>_. x))),
      (''runner_port'', set_int (\<lambda>x. cf_RunnerPort_update (\<lambda>_. x))),
      (''proxy_host'', set_string (\<lambda>x. cf_ProxyHost_update (\<lambda>_. x))),
      (''dialin'', set_bool (\<lambda>x. cf_Dialin_update (\<lambda>_. x))),
      (''daily_dialin_webhook_secret'', set_string (\<lambda>x. cf_DailyDialinWebhookSecret_update (\<lambda>_. x))),
      (''session_store'', set_string (\<lambda>x. cf_SessionStore_update (\<lambda>_. x))),
      (''redis_url'', set_string (\<lambda>x. cf_RedisURL_update (\<lambda>_. x))),
      (''session_ttl_secs'', set_int (\<lambda>x. cf_SessionTTLSecs_update (\<lambda>_. x))),
      (''pipeline_input_queue_cap'', set_int (\<lambda>x. cf_PipelineInputQueueCap_update (\<lambda>_. x))),
      (''ws_write_coalesce_ms'', set_int (\<lambda>x. cf_WSWriteCoalesceMs_update (\<lambda>_. x))),
      (''ws_write_coalesce_max_frames'', set_int (\<lambda>x. cf_WSWriteCoalesceMaxFrames_update (\<lambda>_. x))),
      (''tls_enable'', set_bool (\<lambda>x. cf_TLSEnable_update (\<lambda>_. x))),
      (''tls_cert_file'', set_string (\<lambda>x. cf_TLSCertFile_update (\<lambda>_. x))),
      (''tls_key_file'', set_string (\<lambda>x. cf_TLSKeyFile_update (\<lambda>_. x))),
      (''log_level'', set_string (\<lambda>x. cf_LogLevel_update (\<lambda>_. x))),
      (''json_logs'', set_bool (\<lambda>x. cf_JSONLogs_update (\<lambda>_. x))),
      (''cors_allowed_origins'', set_strings (\<lambda>x. cf_CORSAllowedOrigins_update (\<lambda>_. x))),
      (''max_request_body_bytes'', set_int (\<lambda>x. cf_MaxRequestBodyBytes_update (\<lambda>_. x))),
      (''server_api_key'', set_string (\<lambda>x. cf_ServerAPIKey_update (\<lambda>_. x))),
      (''mcp'', set_mcp),
      (''metrics_enabled'', set_metrics_enabled),
      (''metrics'', json_into [(''audio_sample_rate'', set_number (\<lambda>x. cf_AudioSampleRate_update (\<lambda>_. x)))]),
      (''recording'', json_into recording_fields),
      (''transcripts'', json_into transcript_fields)]"

section \<open>Overrides from the environment\<close>

type_synonym env = "string \<Rightarrow> string"

definition GetEnv :: "env \<Rightarrow> string \<Rightarrow> string \<Rightarrow> string" where
  "GetEnv e key def = (if e key \<noteq> [] then e key else def)"

text \<open>A variable that is set and accepted by its reader replaces the value of a field.\<close>

definition override :: "env \<Rightarrow> string \<Rightarrow> (string \<Rightarrow> 'a option) \<Rightarrow> 'a \<Rightarrow> 'a" where
  "override e k rd x =
     (if e k = [] then x else (case rd (e k) of None \<Rightarrow> x | Some y \<Rightarrow> y))"

definition override2 :: "env \<Rightarrow> string \<Rightarrow> string \<Rightarrow> (string \<Rightarrow> 'a option) \<Rightarrow> 'a \<Rightarrow> 'a" where
  "override2 e k1 k2 rd x = (if e k1 \<noteq> [] then override e k1 rd x else override e k2 rd x)"

definition read_bool :: "string \<Rightarrow> bool option" where
  "read_bool v = Some (EqualFold v ''true'' \<or> v = ''1'')"

definition read_at_least :: "int \<Rightarrow> string \<Rightarrow> int option" where
  "read_at_least m v = (case Atoi v of Some n \<Rightarrow> if m \<le> n then Some n else None | None \<Rightarrow> None)"

definition read_origins :: "string \<Rightarrow> string list option option" where
  "read_origins v = Some (Some (filter (\<lambda>o'. o' \<noteq> []) (map TrimSpace (Split (CHR '','') v))))"

definition recording_overrides :: "env \<Rightarrow> recording_config \<Rightarrow> recording_config" where
  "recording_overrides e =
     rc_MaxRetries_update (override e ''VOXRAY_RECORDING_MAX_RETRIES'' (read_at_least 0))
     \<circ> rc_QueueCap_update (override e ''VOXRAY_RECORDING_QUEUE_CAP'' (read_at_least 1))
     \<circ> rc_WorkerCount_update (override e ''VOXRAY_RECORDING_WORKER_COUNT'' (read_at_least 0))
     \<circ> rc_Format_update (override e ''VOXRAY_RECORDING_FORMAT'' Some)
     \<circ> rc_BasePath_update (override e ''VOXRAY_RECORDING_BASE_PATH'' Some)
     \<circ> rc_Bucket_update (override e ''VOXRAY_RECORDING_BUCKET'' Some)
     \<circ> rc_Enable_update (override e ''VOXRAY_RECORDING_ENABLE'' read_bool)"

definition transcript_overrides :: "env \<Rightarrow> transcript_config \<Rightarrow> transcript_config" where
  "transcript_overrides e =
     tc_TableName_update (override e ''VOXRAY_TRANSCRIPTS_TABLE'' Some)
     \<circ> tc_DSN_update (override e ''VOXRAY_TRANSCRIPTS_DSN'' Some)
     \<circ> tc_Driver_update (override e ''VOXRAY_TRANSCRIPTS_DRIVER'' Some)
     \<circ> tc_Enable_update (override e ''VOXRAY_TRANSCRIPTS_ENABLE'' read_bool)"

definition ApplyEnvOverrides :: "env \<Rightarrow> config \<Rightarrow> config" where
  "ApplyEnvOverrides e =
     cf_Transcripts_update (transcript_overrides e)
     \<circ> cf_Recording_update (recording_overrides e)
     \<circ> cf_DailyDialinWebhookSecret_update (override e ''VOXRAY_DAILY_DIALIN_WEBHOOK_SECRET'' Some)
     \<circ> cf_VADBatchSize_update (override e ''VOXRAY_VAD_BATCH_SIZE'' (read_at_least 0))
     \<circ> cf_RTCMaxDurationSecs_update (override e ''VOXRAY_RTC_MAX_DURATION_SECS'' ParseFloat)
     \<circ> cf_WSWriteCoalesceMaxFrames_update (override e ''VOXRAY_WS_WRITE_COALESCE_MAX_FRAMES'' (read_at_least 1))
     \<circ> cf_WSWriteCoalesceMs_update (override e ''VOXRAY_WS_WRITE_COALESCE_MS'' (read_at_least 0))
     \<circ> cf_PipelineInputQueueCap_update (override e ''VOXRAY_PIPELINE_INPUT_QUEUE_CAP'' (read_at_least 1))
     \<circ> cf_ServerAPIKey_update (override e ''VOXRAY_SERVER_API_KEY'' Some)
     \<circ> cf_MaxRequestBodyBytes_update (override e ''VOXRAY_MAX_BODY_BYTES'' (read_at_least 0))
     \<circ> cf_CORSAllowedOrigins_update (override e ''VOXRAY_CORS_ORIGINS'' read_origins)
     \<circ> cf_TLSKeyFile_update (override e ''VOXRAY_TLS_KEY_FILE'' Some)
     \<circ> cf_TLSCertFile_update (override e ''VOXRAY_TLS_CERT_FILE'' Some)
     \<circ> cf_TLSEnable_update (override e ''VOXRAY_TLS_ENABLE'' read_bool)
     \<circ> cf_JSONLogs_update (override e ''VOXRAY_JSON_LOGS'' read_bool)
     \<circ> cf_LogLevel_update (override e ''VOXRAY_LOG_LEVEL'' (\<lambda>v. Some (ToLower (TrimSpace v))))
     \<circ> cf_Host_update (override2 e ''VOXRAY_HOST'' ''HOST'' Some)
     \<circ> cf_Port_update (override2 e ''VOXRAY_PORT'' ''PORT'' Atoi)"

text \<open>\<open>read_file\<close> is \<^verbatim>\<open>os.ReadFile\<close> with the value the content denotes, if it is JSON.\<close>

definition LoadConfig :: "(string \<Rightarrow> err + any option) \<Rightarrow> env \<Rightarrow> string \<Rightarrow> err + config" where
  "LoadConfig read_file e path =
     (case read_file path of
        Inl x \<Rightarrow> Inl (''failed to read config file: '' @ x)
      | Inr None \<Rightarrow> Inl ''invalid config format: json''
      | Inr (Some v) \<Rightarrow>
          (case json_into config_fields v zero_config of
             None \<Rightarrow> Inl ''invalid config format: json''
           | Some c \<Rightarrow> Inr (ApplyEnvOverrides e c)))"

section \<open>API keys\<close>

text \<open>The names are joined by a zero byte.\<close>

definition cacheKey :: "string \<Rightarrow> string \<Rightarrow> string" where
  "cacheKey service envVar = service @ CHR 0x00 # envVar"

text \<open>What is looked up when the cache has no entry.\<close>

definition resolve_key :: "config \<Rightarrow> env \<Rightarrow> string \<Rightarrow> string \<Rightarrow> string" where
  "resolve_key c e service envVar =
     (let key = (case cf_APIKeys c of
            None \<Rightarrow> []
          | Some m \<Rightarrow> (case m service of Some k \<Rightarrow> k | None \<Rightarrow> []))
      in if key = [] then e envVar else key)"

definition GetAPIKey :: "env \<Rightarrow> config \<Rightarrow> string \<Rightarrow> string \<Rightarrow> config \<times> string" where
  "GetAPIKey e c service envVar =
     (case cf_apiKeyCache c (cacheKey service envVar) of
        Some v \<Rightarrow> (c, v)
      | None \<Rightarrow>
          (let key = resolve_key c e service envVar
           in (if key = [] then c
               else c\<lparr>cf_apiKeyCache := (cf_apiKeyCache c)(cacheKey service envVar \<mapsto> key)\<rparr>, key)))"

section \<open>Defaults\<close>

definition STTProvider :: "config \<Rightarrow> string" where
  "STTProvider c = (if cf_SttProvider c \<noteq> [] then cf_SttProvider c else cf_Provider c)"

definition LLMProvider :: "config \<Rightarrow> string" where
  "LLMProvider c = (if cf_LlmProvider c \<noteq> [] then cf_LlmProvider c else cf_Provider c)"

definition TTSProvider :: "config \<Rightarrow> string" where
  "TTSProvider c = (if cf_TtsProvider c \<noteq> [] then cf_TtsProvider c else cf_Provider c)"

definition TurnEnabled :: "config \<Rightarrow> bool" where
  "TurnEnabled c \<longleftrightarrow> cf_TurnDetection c = ''silence''"

definition VADBackendOrDefault :: "config \<Rightarrow> string" where
  "VADBackendOrDefault c = (if cf_VADType c = [] then ''energy'' else cf_VADType c)"

record vad_settings =
  vs_Confidence :: rat
  vs_StartSecs :: rat
  vs_StopSecs :: rat
  vs_MinVolume :: rat

definition VADParams :: "config \<Rightarrow> vad_settings" where
  "VADParams c =
     \<lparr>vs_Confidence = cf_VADConfidence c,
      vs_StartSecs = (if cf_VADStartSecsVAD c \<noteq> 0 then cf_VADStartSecsVAD c else 0),
      vs_StopSecs = (if cf_VADStopSecs c \<noteq> 0 then cf_VADStopSecs c else 0),
      vs_MinVolume = cf_VADMinVolume c\<rparr>"

definition MetricsEnabledOrDefault :: "config option \<Rightarrow> bool" where
  "MetricsEnabledOrDefault c =
     (case c of None \<Rightarrow> True | Some c \<Rightarrow> (case cf_MetricsEnabled c of None \<Rightarrow> True | Some b \<Rightarrow> b))"

definition LogLevelOrDefault :: "config option \<Rightarrow> string" where
  "LogLevelOrDefault c =
     (case c of
        None \<Rightarrow> ''info''
      | Some c \<Rightarrow> if cf_LogLevel c = [] then ''info'' else ToLower (TrimSpace (cf_LogLevel c)))"

definition LogFormatOrDefault :: "config option \<Rightarrow> bool" where
  "LogFormatOrDefault c = (case c of None \<Rightarrow> False | Some c \<Rightarrow> cf_JSONLogs c)"

record pipeline_info =
  pi_SttProvider :: string
  pi_LlmProvider :: string
  pi_TtsProvider :: string
  pi_SttModel :: string
  pi_SttLanguage :: string
  pi_LlmModel :: string
  pi_TtsModel :: string
  pi_TtsVoice :: string
  pi_VadType :: string
  pi_Transport :: string

definition PublicPipelineInfo :: "config option \<Rightarrow> pipeline_info" where
  "PublicPipelineInfo c =
     (case c of
        None \<Rightarrow>
          \<lparr>pi_SttProvider = [], pi_LlmProvider = [], pi_TtsProvider = [], pi_SttModel = [], pi_SttLanguage = [],
           pi_LlmModel = [], pi_TtsModel = [], pi_TtsVoice = [], pi_VadType = ''energy'', pi_Transport = []\<rparr>
      | Some c \<Rightarrow>
          \<lparr>pi_SttProvider = STTProvider c, pi_LlmProvider = LLMProvider c, pi_TtsProvider = TTSProvider c,
           pi_SttModel = cf_STTModel c, pi_SttLanguage = cf_STTLanguage c, pi_LlmModel = cf_Model c,
           pi_TtsModel = cf_TTSModel c, pi_TtsVoice = cf_TTSVoice c, pi_VadType = VADBackendOrDefault c,
           pi_Transport = (if cf_Transport c = [] then ''websocket'' else cf_Transport c)\<rparr>)"

definition Validate :: "config option \<Rightarrow> string list" where
  "Validate c =
     (case c of
        None \<Rightarrow> []
      | Some c \<Rightarrow>
          (if tc_Enable (cf_Transcripts c) \<and> (tc_Driver (cf_Transcripts c) = [] \<or> tc_DSN (cf_Transcripts c) = [])
           then [''transcripts enabled but driver or dsn missing''] else []) @
          (if cf_SessionStore c = ''redis'' \<and> cf_RedisURL c = []
           then [''session_store is redis but redis_url is empty''] else []))"

section \<open>Overrides settle\<close>

lemma override_idem: "override e k rd (override e k rd x) = override e k rd x"
  by (simp add: override_def split: option.splits)

lemma override2_idem: "override2 e k1 k2 rd (override2 e k1 k2 rd x) = override2 e k1 k2 rd x"
  by (simp add: override2_def override_idem)

lemma overrides_fuse [simp]:
  "(\<lambda>x. override e k rd (override e k rd x)) = override e k rd"
  "(\<lambda>x. override2 e k1 k2 rd (override2 e k1 k2 rd x)) = override2 e k1 k2 rd"
  by (simp_all add: override_idem override2_idem fun_eq_iff)

lemma recording_overrides_idem: "recording_overrides e (recording_overrides e r) = recording_overrides e r"
  by (cases r) (simp add: recording_overrides_def override_idem)

lemma transcript_overrides_idem: "transcript_overrides e (transcript_overrides e r) = transcript_overrides e r"
  by (cases r) (simp add: transcript_overrides_def override_idem)

lemma ApplyEnvOverrides_idem: "ApplyEnvOverrides e (ApplyEnvOverrides e c) = ApplyEnvOverrides e c"
  by (cases c)
    (simp add: ApplyEnvOverrides_def override_idem override2_idem recording_overrides_idem transcript_overrides_idem)

lemma override_set: "e k \<noteq> [] \<Longrightarrow> rd (e k) = Some y \<Longrightarrow> override e k rd x = y"
  by (simp add: override_def)

lemma override_unset: "e k = [] \<or> rd (e k) = None \<Longrightarrow> override e k rd x = x"
  by (auto simp: override_def)

lemma LoadConfig_cases:
  assumes "LoadConfig rf e path = Inr c"
  obtains v c0 where "rf path = Inr (Some v)" "json_into config_fields v zero_config = Some c0"
    "c = ApplyEnvOverrides e c0"
  using assms by (auto simp: LoadConfig_def split: sum.splits option.splits)

lemma overridden_fields:
  "cf_Port (ApplyEnvOverrides e c) = override2 e ''VOXRAY_PORT'' ''PORT'' Atoi (cf_Port c)"
  "cf_ServerAPIKey (ApplyEnvOverrides e c) = override e ''VOXRAY_SERVER_API_KEY'' Some (cf_ServerAPIKey c)"
  "cf_PipelineInputQueueCap (ApplyEnvOverrides e c) =
     override e ''VOXRAY_PIPELINE_INPUT_QUEUE_CAP'' (read_at_least 1) (cf_PipelineInputQueueCap c)"
  "cf_apiKeyCache (ApplyEnvOverrides e c) = cf_apiKeyCache c"
  "cf_APIKeys (ApplyEnvOverrides e c) = cf_APIKeys c"
  by (simp_all add: ApplyEnvOverrides_def)

text \<open>No field of the file reaches the cache.\<close>

lemma json_fields_keeps:
  assumes "\<And>k f v s s'. find_field k fs = Some f \<Longrightarrow> f v s = Some s' \<Longrightarrow> g s' = g s"
  shows "json_fields fs kvs s = Some s' \<Longrightarrow> g s' = g s"
proof (induction kvs arbitrary: s)
  case (Cons kv kvs)
  obtain k v where kv: "kv = (k, v)" by (cases kv)
  show ?case
  proof (cases "find_field k fs")
    case None
    with Cons kv show ?thesis by simp
  next
    case (Some f)
    with Cons.prems kv obtain s1 where "f v s = Some s1" "json_fields fs kvs s1 = Some s'"
      by (auto split: option.splits)
    with Some assms Cons.IH show ?thesis by metis
  qed
qed simp

lemma find_field_in:
  assumes "find_field k fs = Some f"
  shows "f \<in> snd ` set fs"
proof (cases "map_of fs k")
  case None
  with assms obtain t where "List.find (\<lambda>(t, _). ToLower t = ToLower k) fs = Some (t, f)"
    by (auto simp: find_field_def)
  then have "(t, f) \<in> set fs" by (auto simp: find_Some_iff in_set_conv_nth)
  then show ?thesis by force
next
  case (Some g)
  with assms have "(k, f) \<in> set fs" by (simp add: find_field_def map_of_SomeD)
  then show ?thesis by force
qed

lemma json_into_keeps:
  assumes "\<And>f v s s'. f \<in> snd ` set fs \<Longrightarrow> f v s = Some s' \<Longrightarrow> g s' = g s"
    and "json_into fs v s = Some s'"
  shows "g s' = g s"
proof -
  consider "v = ANil" "s' = s" | kvs where "v = AObj kvs" "json_fields fs kvs s = Some s'"
    using assms(2) by (cases v) (auto simp: json_into_def)
  then show ?thesis
  proof cases
    case 2
    then show ?thesis using json_fields_keeps [of fs g] find_field_in [of _ fs] assms(1) by blast
  qed simp
qed

lemma setter_keeps:
  "set_string u v s = Some s' \<Longrightarrow> (\<And>x s. g (u x s) = g s) \<Longrightarrow> g s' = g s"
  "set_int u' v s = Some s' \<Longrightarrow> (\<And>x s. g (u' x s) = g s) \<Longrightarrow> g s' = g s"
  "set_bool u'' v s = Some s' \<Longrightarrow> (\<And>x s. g (u'' x s) = g s) \<Longrightarrow> g s' = g s"
  "set_number w v s = Some s' \<Longrightarrow> (\<And>x s. g (w x s) = g s) \<Longrightarrow> g s' = g s"
  "set_list w' v s = Some s' \<Longrightarrow> (\<And>x s. g (w' x s) = g s) \<Longrightarrow> g s' = g s"
  "set_strings w'' v s = Some s' \<Longrightarrow> (\<And>x s. g (w'' x s) = g s) \<Longrightarrow> g s' = g s"
  by (cases v; auto simp: json_simps set_list_def set_strings_def split: if_splits)+

lemma section_keeps_cache:
  assumes "f \<in> snd ` set recording_fields \<or> f \<in> snd ` set transcript_fields" "f v s = Some s'"
  shows "cf_apiKeyCache s' = cf_apiKeyCache s"
  using assms unfolding recording_fields_def transcript_fields_def
  by (auto elim!: setter_keeps [where g = cf_apiKeyCache])

lemma config_keeps_cache:
  assumes "f \<in> snd ` set config_fields" "f v s = Some s'"
  shows "cf_apiKeyCache s' = cf_apiKeyCache s"
proof -
  have special: "set_api_keys v s = Some s' \<Longrightarrow> cf_apiKeyCache s' = cf_apiKeyCache s"
    "set_plugin_options v s = Some s' \<Longrightarrow> cf_apiKeyCache s' = cf_apiKeyCache s"
    "set_metrics_enabled v s = Some s' \<Longrightarrow> cf_apiKeyCache s' = cf_apiKeyCache s"
    "set_mcp v s = Some s' \<Longrightarrow> cf_apiKeyCache s' = cf_apiKeyCache s"
    by (cases v; auto simp: set_api_keys_def set_plugin_options_def set_metrics_enabled_def set_mcp_def)+
  have sections: "json_into recording_fields v s = Some s' \<Longrightarrow> cf_apiKeyCache s' = cf_apiKeyCache s"
    "json_into transcript_fields v s = Some s' \<Longrightarrow> cf_apiKeyCache s' = cf_apiKeyCache s"
    "json_into [(''audio_sample_rate'', set_number (\<lambda>x. cf_AudioSampleRate_update (\<lambda>_. x)))] v s = Some s'
       \<Longrightarrow> cf_apiKeyCache s' = cf_apiKeyCache s"
    using section_keeps_cache
    by (blast intro: json_into_keeps [where g = cf_apiKeyCache],
      blast intro: json_into_keeps [where g = cf_apiKeyCache],
      auto elim!: json_into_keeps [where g = cf_apiKeyCache, rotated] setter_keeps [where g = cf_apiKeyCache])
  from assms show ?thesis
    unfolding config_fields_def
    by (auto elim!: setter_keeps [where g = cf_apiKeyCache] intro: special sections)
qed

lemma loaded_cache_empty:
  assumes "LoadConfig rf e path = Inr c"
  shows "cf_apiKeyCache c = Map.empty"
proof -
  from assms obtain v c0 where c0: "json_into config_fields v zero_config = Some c0"
    "c = ApplyEnvOverrides e c0" by (rule LoadConfig_cases)
  from c0(1) have "cf_apiKeyCache c0 = cf_apiKeyCache zero_config"
    by (rule json_into_keeps [rotated]) (rule config_keeps_cache)
  then show ?thesis by (simp add: c0(2) overridden_fields zero_config_def)
qed

section \<open>The cache of API keys\<close>

text \<open>The service of a cache key can be read back when its name has no zero byte.\<close>

lemma cacheKey_inj:
  assumes "CHR 0x00 \<notin> set s" "CHR 0x00 \<notin> set s'" "cacheKey s v = cacheKey s' v'"
  shows "s = s' \<and> v = v'"
proof -
  have t: "takeWhile (\<lambda>x. x \<noteq> CHR 0x00) (cacheKey x w) = x" if "CHR 0x00 \<notin> set x" for x w
  proof -
    have "\<forall>y\<in>set x. y \<noteq> CHR 0x00" using that by blast
    then show ?thesis by (simp add: cacheKey_def)
  qed
  from t [OF assms(1), of v] t [OF assms(2), of v'] assms(3) have "s = s'" by simp
  with assms(3) show ?thesis by (simp add: cacheKey_def)
qed

definition named :: "string \<times> string \<Rightarrow> bool" where
  "named q \<longleftrightarrow> CHR 0x00 \<notin> set (fst q)"

definition key_cache_ok :: "env \<Rightarrow> config \<Rightarrow> bool" where
  "key_cache_ok e c \<longleftrightarrow>
     (\<forall>s v k. named (s, v) \<longrightarrow> cf_apiKeyCache c (cacheKey s v) = Some k \<longrightarrow> k = resolve_key c e s v \<and> k \<noteq> [])"

lemma resolve_key_cache [simp]: "resolve_key (c\<lparr>cf_apiKeyCache := m\<rparr>) = resolve_key c"
  by (intro ext) (simp add: resolve_key_def)

lemma GetAPIKey_step:
  assumes "key_cache_ok e c" "named (s, v)"
  shows "snd (GetAPIKey e c s v) = resolve_key c e s v"
    and "key_cache_ok e (fst (GetAPIKey e c s v))"
    and "resolve_key (fst (GetAPIKey e c s v)) = resolve_key c"
proof -
  have hit: "cf_apiKeyCache c (cacheKey s v) = Some k \<Longrightarrow> k = resolve_key c e s v \<and> k \<noteq> []" for k
    using assms unfolding key_cache_ok_def by blast
  show "snd (GetAPIKey e c s v) = resolve_key c e s v"
    using hit by (auto simp: GetAPIKey_def Let_def split: option.splits)
  show "resolve_key (fst (GetAPIKey e c s v)) = resolve_key c"
    by (auto simp: GetAPIKey_def Let_def split: option.splits)
  let ?k = "resolve_key c e s v"
  have "key_cache_ok e (c\<lparr>cf_apiKeyCache := (cf_apiKeyCache c)(cacheKey s v \<mapsto> ?k)\<rparr>)" if "?k \<noteq> []"
    unfolding key_cache_ok_def
  proof (intro allI impI)
    fix s' v' k
    assume n: "named (s', v')"
      and k: "cf_apiKeyCache (c\<lparr>cf_apiKeyCache := (cf_apiKeyCache c)(cacheKey s v \<mapsto> ?k)\<rparr>) (cacheKey s' v') = Some k"
    show "k = resolve_key (c\<lparr>cf_apiKeyCache := (cf_apiKeyCache c)(cacheKey s v \<mapsto> ?k)\<rparr>) e s' v' \<and> k \<noteq> []"
    proof (cases "cacheKey s' v' = cacheKey s v")
      case True
      with n assms(2) have "s' = s \<and> v' = v" by (intro cacheKey_inj) (simp_all add: named_def)
      with k that show ?thesis by simp
    next
      case False
      with k have "cf_apiKeyCache c (cacheKey s' v') = Some k" by simp
      with assms(1) n show ?thesis unfolding key_cache_ok_def by simp
    qed
  qed
  with assms(1) show "key_cache_ok e (fst (GetAPIKey e c s v))"
    by (auto simp: GetAPIKey_def Let_def split: option.splits)
qed

fun ask_keys :: "env \<Rightarrow> config \<Rightarrow> (string \<times> string) list \<Rightarrow> config \<times> string list" where
  "ask_keys e c [] = (c, [])"
| "ask_keys e c (q # qs) =
     (let (c1, k) = GetAPIKey e c (fst q) (snd q); (c2, ks) = ask_keys e c1 qs in (c2, k # ks))"

lemma ask_keys_resolve:
  "key_cache_ok e c \<Longrightarrow> list_all named qs \<Longrightarrow>
     snd (ask_keys e c qs) = map (\<lambda>q. resolve_key c e (fst q) (snd q)) qs"
proof (induction qs arbitrary: c)
  case (Cons q qs)
  obtain s v where q: "q = (s, v)" by (cases q)
  from Cons.prems q GetAPIKey_step [of e c s v] Cons.IH [of "fst (GetAPIKey e c s v)"]
  show ?case by (simp add: case_prod_beta Let_def)
qed simp

text \<open>C36: With the configuration that was loaded and an environment that does not change, every sequence of
  calls of \<^verbatim>\<open>GetAPIKey\<close> for services without zero bytes in their names answers what a look-up without the
  cache would: the key of the file if there is one that is not empty, else the variable.\<close>

theorem api_key_cache_transparent:
  assumes "LoadConfig rf e path = Inr c" "list_all named qs"
  shows "snd (ask_keys e c qs) = map (\<lambda>q. resolve_key c e (fst q) (snd q)) qs"
proof (rule ask_keys_resolve)
  show "key_cache_ok e c" by (simp add: key_cache_ok_def loaded_cache_empty [OF assms(1)])
qed (rule assms(2))

definition sample_file :: "string \<Rightarrow> err + any option" where
  "sample_file path = Inr (Some (AObj
     [(''provider'', AStr ''groq''), (''port'', ANum 9000), (''api_keys'', AObj [(''groq'', AStr ''k1'')])]))"

lemma api_key_cache_transparent_witness:
  "\<exists>c. LoadConfig sample_file (\<lambda>v. if v = ''OPENAI_API_KEY'' then ''k2'' else []) ''config.json'' = Inr c \<and>
     snd (ask_keys (\<lambda>v. if v = ''OPENAI_API_KEY'' then ''k2'' else []) c
       [(''groq'', ''GROQ_API_KEY''), (''openai'', ''OPENAI_API_KEY''), (''openai'', ''OPENAI_API_KEY'')]) =
     [''k1'', ''k2'', ''k2'']"
proof -
  let ?e = "\<lambda>v. if v = ''OPENAI_API_KEY'' then ''k2'' else []"
  obtain c0 where c0: "json_into config_fields
      (AObj [(''provider'', AStr ''groq''), (''port'', ANum 9000), (''api_keys'', AObj [(''groq'', AStr ''k1'')])])
      zero_config = Some c0" "cf_APIKeys c0 = Some [''groq'' \<mapsto> ''k1'']"
    by (simp add: json_simps config_fields_def ToLower_def lower_char_def set_api_keys_def zero_config_def)
  let ?c = "ApplyEnvOverrides ?e c0"
  have l: "LoadConfig sample_file ?e ''config.json'' = Inr ?c"
    by (simp add: LoadConfig_def sample_file_def c0)
  have "snd (ask_keys ?e ?c [(''groq'', ''GROQ_API_KEY''), (''openai'', ''OPENAI_API_KEY''), (''openai'', ''OPENAI_API_KEY'')])
      = [''k1'', ''k2'', ''k2'']"
    by (subst api_key_cache_transparent [OF l])
      (simp_all add: named_def resolve_key_def overridden_fields c0)
  with l show ?thesis by blast
qed

text \<open>A key once found is not looked up again, whatever becomes of the environment.\<close>

lemma api_key_sticks:
  "snd (GetAPIKey e c s v) \<noteq> [] \<Longrightarrow>
     snd (GetAPIKey e' (fst (GetAPIKey e c s v)) s v) = snd (GetAPIKey e c s v)"
  by (auto simp: GetAPIKey_def Let_def split: option.splits)

section \<open>Loading\<close>

text \<open>A file that decodes is loaded. Overriding the result a second time, as the comment of LoadConfig asks
  the caller to, changes nothing. The server key of the environment wins over that of the file; a port in
  VOXRAY_PORT wins over PORT and the file, and if it is not a number then PORT is not looked at either.\<close>

theorem load_config_settles:
  assumes "rf path = Inr (Some v)" "json_into config_fields v zero_config = Some c0"
  shows "\<exists>c. LoadConfig rf e path = Inr c \<and> ApplyEnvOverrides e c = c \<and>
     cf_ServerAPIKey c =
       (if e ''VOXRAY_SERVER_API_KEY'' = [] then cf_ServerAPIKey c0 else e ''VOXRAY_SERVER_API_KEY'') \<and>
     cf_Port c =
       (case Atoi (if e ''VOXRAY_PORT'' \<noteq> [] then e ''VOXRAY_PORT'' else e ''PORT'') of
          Some p \<Rightarrow> p | None \<Rightarrow> cf_Port c0)"
proof (intro exI conjI)
  show "LoadConfig rf e path = Inr (ApplyEnvOverrides e c0)" using assms by (simp add: LoadConfig_def)
  show "ApplyEnvOverrides e (ApplyEnvOverrides e c0) = ApplyEnvOverrides e c0" by (rule ApplyEnvOverrides_idem)
  show "cf_ServerAPIKey (ApplyEnvOverrides e c0) =
      (if e ''VOXRAY_SERVER_API_KEY'' = [] then cf_ServerAPIKey c0 else e ''VOXRAY_SERVER_API_KEY'')"
    by (simp add: overridden_fields override_def)
  have "Atoi [] = None" by (simp add: Atoi_def sign_of_def)
  then show "cf_Port (ApplyEnvOverrides e c0) =
      (case Atoi (if e ''VOXRAY_PORT'' \<noteq> [] then e ''VOXRAY_PORT'' else e ''PORT'') of
         Some p \<Rightarrow> p | None \<Rightarrow> cf_Port c0)"
    by (simp add: overridden_fields override2_def override_def)
qed

lemma load_config_settles_witness:
  "\<exists>c. LoadConfig sample_file (\<lambda>v. if v = ''VOXRAY_PORT'' then ''x'' else if v = ''PORT'' then ''80'' else []) [] = Inr c \<and>
     cf_Port c = 9000"
proof -
  let ?e = "\<lambda>v. if v = ''VOXRAY_PORT'' then ''x'' else if v = ''PORT'' then ''80'' else []"
  obtain c0 where c0: "json_into config_fields
      (AObj [(''provider'', AStr ''groq''), (''port'', ANum 9000), (''api_keys'', AObj [(''groq'', AStr ''k1'')])])
      zero_config = Some c0" "cf_Port c0 = 9000"
    by (simp add: json_simps config_fields_def set_api_keys_def zero_config_def)
  have "Atoi ''x'' = None" by code_simp
  moreover have "sample_file [] = Inr (Some (AObj
      [(''provider'', AStr ''groq''), (''port'', ANum 9000), (''api_keys'', AObj [(''groq'', AStr ''k1'')])]))"
    by (simp add: sample_file_def)
  ultimately show ?thesis
    using load_config_settles [of sample_file "[]" _ c0 ?e] c0 by auto
qed

end
