(* ===== verification/ServiceFactory.thy ===== *)
theory ServiceFactory
  imports Config
begin

text \<open>
  The choice of the services of a session by name, \<^verbatim>\<open>pkg/services/factory.go\<close>. A service is the call of the
  constructor of its package with the strings it is given (the fixed speed 1.0 of neuphonic is left out).
  The constructors that can fail are those of aws and google; \<open>connects\<close> says whether they succeed, and
  \<open>None\<close> is the nil service of the code.
\<close>

section \<open>Providers\<close>

definition SupportedLLMProviders :: "string list" where
  "SupportedLLMProviders =
     [''openai'', ''groq'', ''grok'', ''cerebras'', ''aws'', ''mistral'', ''deepseek'', ''anthropic'', ''google'',
      ''google_vertex'', ''ollama'', ''qwen'', ''asyncai'', ''fish'', ''inworld'', ''minimax'', ''moondream'',
      ''openpipe'']"

definition SupportedSTTProviders :: "string list" where
  "SupportedSTTProviders =
     [''openai'', ''groq'', ''sarvam'', ''elevenlabs'', ''aws'', ''google'', ''whisper'', ''camb'', ''gradium'', ''soniox'']"

definition SupportedTTSProviders :: "string list" where
  "SupportedTTSProviders =
     [''openai'', ''groq'', ''sarvam'', ''elevenlabs'', ''aws'', ''google'', ''hume'', ''inworld'', ''minimax'',
      ''neuphonic'', ''xtts'']"

definition SupportedRealtimeProviders :: "string list" where
  "SupportedRealtimeProviders = [''openai'', ''hume'', ''inworld'']"

text \<open>Where the key of a provider is looked up, in this order.\<close>

definition key_table :: "(string \<times> (string \<times> string) list) list" where
  "key_table =
     [(''anthropic'', [(''anthropic'', ''ANTHROPIC_API_KEY'')]),
      (''groq'', [(''groq'', ''GROQ_API_KEY'')]),
      (''sarvam'', [(''sarvam'', ''SARVAM_API_KEY'')]),
      (''grok'', [(''xai'', ''XAI_API_KEY'')]),
      (''cerebras'', [(''cerebras'', ''CEREBRAS_API_KEY'')]),
      (''elevenlabs'', [(''elevenlabs'', ''ELEVENLABS_API_KEY'')]),
      (''aws'', [(''aws'', ''AWS_SECRET_ACCESS_KEY'')]),
      (''mistral'', [(''mistral'', ''MISTRAL_API_KEY'')]),
      (''deepseek'', [(''deepseek'', ''DEEPSEEK_API_KEY'')]),
      (''openai'', [(''openai'', ''OPENAI_API_KEY'')]),
      (''google'', [(''google'', ''GOOGLE_API_KEY'')]),
      (''google_vertex'', []),
      (''ollama'', [(''ollama'', ''OLLAMA_API_KEY'')]),
      (''qwen'', [(''qwen'', ''DASHSCOPE_API_KEY''), (''qwen'', ''QWEN_API_KEY'')]),
      (''whisper'', [(''whisper'', ''WHISPER_API_KEY''), (''openai'', ''OPENAI_API_KEY'')]),
      (''asyncai'', [(''asyncai'', ''ASYNC_AI_API_KEY'')]),
      (''camb'', [(''camb'', ''CAMB_API_KEY'')]),
      (''fish'', [(''fish'', ''FISH_API_KEY'')]),
      (''gradium'', [(''gradium'', ''GRADIUM_API_KEY'')]),
      (''hume'', [(''hume'', ''HUME_API_KEY'')]),
      (''inworld'', [(''inworld'', ''INWORLD_API_KEY'')]),
      (''minimax'', [(''minimax'', ''MINIMAX_API_KEY'')]),
      (''moondream'', [(''moondream'', ''MOONDREAM_API_KEY'')]),
      (''neuphonic'', [(''neuphonic'', ''NEUPHONIC_API_KEY'')]),
      (''openpipe'', [(''openpipe'', ''OPENPIPE_API_KEY'')]),
      (''soniox'', [(''soniox'', ''SONIOX_API_KEY'')]),
      (''xtts'', [(''xtts'', ''XTTS_API_KEY'')])]"

definition key_sources :: "string \<Rightarrow> (string \<times> string) list" where
  "key_sources provider =
     (case map_of key_table provider of Some qs \<Rightarrow> qs | None \<Rightarrow> [(provider, ''OPENAI_API_KEY'')])"

fun first_key :: "env \<Rightarrow> config \<Rightarrow> (string \<times> string) list \<Rightarrow> config \<times> string" where
  "first_key e c [] = (c, [])"
| "first_key e c (q # qs) =
     (let (c1, k) = GetAPIKey e c (fst q) (snd q) in if k = [] then first_key e c1 qs else (c1, k))"

definition apiKeyForProvider :: "env \<Rightarrow> config \<Rightarrow> string \<Rightarrow> config \<times> string" where
  "apiKeyForProvider e c provider = first_key e c (key_sources provider)"

definition getGoogleProject :: "env \<Rightarrow> config \<Rightarrow> config \<times> string" where
  "getGoogleProject e c =
     first_key e c [(''google_cloud_project'', ''GOOGLE_CLOUD_PROJECT''), (''google_project'', ''GOOGLE_CLOUD_PROJECT'')]"

definition or_else :: "string \<Rightarrow> string \<Rightarrow> string" where
  "or_else d s = (if s = [] then d else s)"

definition getGoogleLocation :: "env \<Rightarrow> config \<Rightarrow> config \<times> string" where
  "getGoogleLocation e c =
     (let (c1, l) = first_key e c
        [(''google_cloud_location'', ''GOOGLE_CLOUD_LOCATION''), (''google_location'', ''GOOGLE_CLOUD_LOCATION'')]
      in (c1, or_else ''us-central1'' l))"

definition getAWSRegion :: "env \<Rightarrow> config \<Rightarrow> config \<times> string" where
  "getAWSRegion e c =
     (let (c1, r) = GetAPIKey e c ''aws_region'' ''AWS_REGION'' in (c1, or_else ''us-east-1'' r))"

section \<open>Services\<close>

datatype service = Service (sv_new: string) (sv_args: "string list")

type_synonym made = "config \<times> service option"

definition built :: "string \<Rightarrow> string list \<Rightarrow> config \<Rightarrow> made" where
  "built new args c = (c, Some (Service new args))"

definition dialled :: "(service \<Rightarrow> bool) \<Rightarrow> string \<Rightarrow> string list \<Rightarrow> config \<Rightarrow> made" where
  "dialled connects new args c =
     (c, if connects (Service new args) then Some (Service new args) else None)"

definition NewLLMFromConfig :: "(service \<Rightarrow> bool) \<Rightarrow> env \<Rightarrow> config \<Rightarrow> string \<Rightarrow> string \<Rightarrow> made" where
  "NewLLMFromConfig connects e c provider model =
     (let (c1, apiKey) = apiKeyForProvider e c provider
      in if provider = ''anthropic'' then built ''anthropic.NewLLMService'' [apiKey, model] c1
         else if provider = ''groq'' then built ''groq.NewLLMService'' [apiKey, model] c1
         else if provider = ''grok'' then built ''grok.NewLLMService'' [apiKey, model] c1
         else if provider = ''cerebras'' then built ''cerebras.NewLLMService'' [apiKey, model] c1
         else if provider = ''aws''
         then (let (c2, region) = getAWSRegion e c1 in dialled connects ''aws.NewLLMWithRegion'' [region, model] c2)
         else if provider = ''mistral'' then built ''mistral.NewLLMService'' [apiKey, model] c1
         else if provider = ''deepseek'' then built ''deepseek.NewLLMService'' [apiKey, model] c1
         else if provider = ''google'' then dialled connects ''google.NewLLMService'' [apiKey, model] c1
         else if provider = ''google_vertex''
         then (let (c2, project) = getGoogleProject e c1; (c3, loc) = getGoogleLocation e c2
               in dialled connects ''google.NewVertexLLMService'' [project, loc, model] c3)
         else if provider = ''ollama'' then built ''ollama.NewLLMService'' [apiKey, model] c1
         else if provider = ''qwen'' then built ''qwen.NewLLMService'' [apiKey, model] c1
         else if provider = ''openpipe'' then built ''openpipe.NewLLMService'' [apiKey, model] c1
         else if provider = ''asyncai'' then built ''asyncai.NewLLMService'' [apiKey, model] c1
         else if provider = ''fish'' then built ''fish.NewLLMService'' [apiKey, model] c1
         else if provider = ''moondream'' then built ''moondream.NewLLMService'' [apiKey, model] c1
         else if provider = ''minimax'' then built ''minimax.NewLLMService'' [apiKey, model] c1
         else if provider = ''inworld'' then built ''inworld.NewLLMService'' [apiKey, model] c1
         else built ''openai.NewService'' [apiKey, or_else ''gpt-3.5-turbo'' model] c1)"

definition NewSTTFromConfig :: "(service \<Rightarrow> bool) \<Rightarrow> env \<Rightarrow> config \<Rightarrow> string \<Rightarrow> made" where
  "NewSTTFromConfig connects e c provider =
     (let (c1, apiKey) = apiKeyForProvider e c provider; model = cf_STTModel c; lang = cf_STTLanguage c
      in if provider = ''groq'' then built ''stt.NewGroqWithModel'' [apiKey, model] c1
         else if provider = ''sarvam'' then built ''sarvam.NewSTTWithLanguage'' [apiKey, model, lang] c1
         else if provider = ''elevenlabs'' then built ''elevenlabs.NewSTT'' [apiKey, model] c1
         else if provider = ''aws''
         then (let (c2, region) = getAWSRegion e c1 in dialled connects ''aws.NewSTTWithRegion'' [region, []] c2)
         else if provider = ''google''
         then (let (c2, project) = getGoogleProject e c1; (c3, loc) = getGoogleLocation e c2
               in dialled connects ''google.NewSTT'' [project, loc, model, lang] c3)
         else if provider = ''whisper'' then built ''whisper.NewService'' [apiKey, GetEnv e ''WHISPER_BASE_URL'' []] c1
         else if provider = ''camb'' then built ''camb.NewSTT'' [apiKey, GetEnv e ''CAMB_BASE_URL'' [], model] c1
         else if provider = ''gradium'' then built ''gradium.NewSTT'' [apiKey, GetEnv e ''GRADIUM_BASE_URL'' [], model] c1
         else if provider = ''soniox'' then built ''soniox.NewSTT'' [apiKey, GetEnv e ''SONIOX_WS_URL'' [], model] c1
         else built ''stt.NewOpenAI'' [apiKey] c1)"

definition NewTTSFromConfig :: "(service \<Rightarrow> bool) \<Rightarrow> env \<Rightarrow> config \<Rightarrow> string \<Rightarrow> string \<Rightarrow> string \<Rightarrow> made" where
  "NewTTSFromConfig connects e c provider model voice =
     (let (c1, apiKey) = apiKeyForProvider e c provider; lang = cf_STTLanguage c
      in if provider = ''groq'' then built ''tts.NewGroq'' [apiKey, model, voice] c1
         else if provider = ''sarvam'' then built ''sarvam.NewTTS'' [apiKey, model, voice] c1
         else if provider = ''elevenlabs'' then built ''elevenlabs.NewTTS'' [apiKey, voice, model, []] c1
         else if provider = ''aws''
         then (let (c2, region) = getAWSRegion e c1
               in dialled connects ''aws.NewTTSWithRegion'' [region, or_else ''Joanna'' voice, []] c2)
         else if provider = ''google'' then dialled connects ''google.NewTTS'' [or_else ''en-US'' lang, voice] c1
         else if provider = ''xtts''
         then built ''xtts.NewTTS'' [apiKey, GetEnv e ''XTTS_BASE_URL'' [], voice, or_else ''en'' lang] c1
         else if provider = ''hume'' then built ''hume.NewTTS'' [apiKey, voice] c1
         else if provider = ''neuphonic''
         then built ''neuphonic.NewTTS'' [apiKey, GetEnv e ''NEUPHONIC_BASE_URL'' [], voice, or_else ''en'' lang] c1
         else if provider = ''minimax''
         then built ''minimax.NewTTS'' [apiKey, GetEnv e ''MINIMAX_BASE_URL'' [], or_else ''speech-01'' model, voice] c1
         else if provider = ''inworld'' then built ''inworld.NewTTS'' [apiKey, voice] c1
         else built ''tts.NewOpenAI'' [apiKey, model] c1)"

record services =
  sv_llm :: "service option"
  sv_stt :: "service option"
  sv_tts :: "service option"

definition NewServicesFromConfig :: "(service \<Rightarrow> bool) \<Rightarrow> env \<Rightarrow> config \<Rightarrow> config \<times> services" where
  "NewServicesFromConfig connects e c =
     (let sttProvider = or_else ''openai'' (STTProvider c);
          llmProvider = or_else ''openai'' (LLMProvider c);
          ttsProvider = or_else ''openai'' (TTSProvider c);
          model = (if cf_Model c = [] \<and> llmProvider = ''openai'' then ''gpt-3.5-turbo'' else cf_Model c);
          (c1, llm) = NewLLMFromConfig connects e c llmProvider model;
          (c2, stt) = NewSTTFromConfig connects e c1 sttProvider;
          (c3, tts) = NewTTSFromConfig connects e c2 ttsProvider (cf_TTSModel c2) (cf_TTSVoice c2)
      in (c3, \<lparr>sv_llm = llm, sv_stt = stt, sv_tts = tts\<rparr>))"

section \<open>Keys\<close>

text \<open>The key of a provider without the cache.\<close>

definition provider_key :: "config \<Rightarrow> env \<Rightarrow> string \<Rightarrow> string" where
  "provider_key c e p =
     foldr (\<lambda>q k. or_else k (resolve_key c e (fst q) (snd q))) (key_sources p) []"

text \<open>Looking up a key changes nothing but the cache.\<close>

definition same_settings :: "env \<Rightarrow> config \<Rightarrow> config \<Rightarrow> bool" where
  "same_settings e c c' \<longleftrightarrow> key_cache_ok e c' \<and> (\<exists>m. c' = c\<lparr>cf_apiKeyCache := m\<rparr>)"

lemma same_settings_refl: "key_cache_ok e c \<Longrightarrow> same_settings e c c"
  unfolding same_settings_def by (intro conjI exI [of _ "cf_apiKeyCache c"]) simp_all

lemma same_settings_trans: "same_settings e c c1 \<Longrightarrow> same_settings e c1 c2 \<Longrightarrow> same_settings e c c2"
  by (auto simp: same_settings_def)

lemma same_settings_fields:
  assumes "same_settings e c c'"
  shows "key_cache_ok e c'" "resolve_key c' = resolve_key c" "provider_key c' = provider_key c"
    "cf_STTModel c' = cf_STTModel c" "cf_STTLanguage c' = cf_STTLanguage c" "cf_TTSModel c' = cf_TTSModel c"
    "cf_TTSVoice c' = cf_TTSVoice c"
  using assms by (auto simp: same_settings_def provider_key_def fun_eq_iff)

lemma GetAPIKey_cache: "fst (GetAPIKey e c s v) = c\<lparr>cf_apiKeyCache := cf_apiKeyCache (fst (GetAPIKey e c s v))\<rparr>"
  by (cases "cf_apiKeyCache c (cacheKey s v)") (simp_all add: GetAPIKey_def Let_def)

lemma GetAPIKey_same_settings:
  assumes "key_cache_ok e c" "named (s, v)"
  shows "same_settings e c (fst (GetAPIKey e c s v))"
  unfolding same_settings_def using GetAPIKey_step(2) [OF assms] GetAPIKey_cache [of e c s v] by blast

lemma first_key_resolve:
  "key_cache_ok e c \<Longrightarrow> list_all named qs \<Longrightarrow>
     same_settings e c (fst (first_key e c qs)) \<and>
     snd (first_key e c qs) = foldr (\<lambda>q k. or_else k (resolve_key c e (fst q) (snd q))) qs []"
proof (induction qs arbitrary: c)
  case (Cons q qs)
  let ?c1 = "fst (GetAPIKey e c (fst q) (snd q))"
  have n: "named (fst q, snd q)" using Cons.prems by simp
  have s1: "same_settings e c ?c1" and k1: "snd (GetAPIKey e c (fst q) (snd q)) = resolve_key c e (fst q) (snd q)"
    using GetAPIKey_same_settings [OF Cons.prems(1) n] GetAPIKey_step(1) [OF Cons.prems(1) n] by simp_all
  have "list_all named qs" using Cons.prems by simp
  from Cons.IH [OF same_settings_fields(1) [OF s1] this, unfolded same_settings_fields(2) [OF s1]]
  show ?case using s1 k1 same_settings_trans [OF s1] by (simp add: case_prod_beta Let_def or_else_def)
qed (simp add: same_settings_refl)

lemma key_table_named: "list_all (\<lambda>(p, qs). list_all named qs) key_table"
  by (simp add: key_table_def named_def)

lemma key_sources_named:
  assumes "CHR 0x00 \<notin> set p"
  shows "list_all named (key_sources p)"
proof (cases "map_of key_table p")
  case (Some qs)
  then have "(p, qs) \<in> set key_table" by (rule map_of_SomeD)
  with Some key_table_named show ?thesis by (auto simp: key_sources_def list_all_iff)
qed (use assms in \<open>simp add: key_sources_def named_def\<close>)

lemma apiKeyForProvider_key:
  assumes "key_cache_ok e c" "CHR 0x00 \<notin> set p"
  shows "snd (apiKeyForProvider e c p) = provider_key c e p"
    and "same_settings e c (fst (apiKeyForProvider e c p))"
  using first_key_resolve [OF assms(1) key_sources_named [OF assms(2)]]
  by (simp_all add: apiKeyForProvider_def provider_key_def)

lemma lookups_same_settings:
  assumes "key_cache_ok e c"
  shows "same_settings e c (fst (getGoogleProject e c))" "same_settings e c (fst (getGoogleLocation e c))"
    "same_settings e c (fst (getAWSRegion e c))"
proof -
  have n: "list_all named [(''google_cloud_project'', ''GOOGLE_CLOUD_PROJECT''), (''google_project'', ''GOOGLE_CLOUD_PROJECT'')]"
    "list_all named [(''google_cloud_location'', ''GOOGLE_CLOUD_LOCATION''), (''google_location'', ''GOOGLE_CLOUD_LOCATION'')]"
    "named (''aws_region'', ''AWS_REGION'')"
    by (simp_all add: named_def)
  show "same_settings e c (fst (getGoogleProject e c))" "same_settings e c (fst (getGoogleLocation e c))"
    "same_settings e c (fst (getAWSRegion e c))"
    using first_key_resolve [OF assms n(1)] first_key_resolve [OF assms n(2)]
      GetAPIKey_same_settings [OF assms n(3)]
    by (simp_all add: getGoogleProject_def getGoogleLocation_def getAWSRegion_def case_prod_beta Let_def)
qed

section \<open>Which service is built\<close>

lemmas making = built_def dialled_def case_prod_beta Let_def

lemma LLM_fallback:
  assumes "p = ''openai'' \<or> p \<notin> set SupportedLLMProviders"
  shows "NewLLMFromConfig connects e c p m =
       built ''openai.NewService'' [snd (apiKeyForProvider e c p), or_else ''gpt-3.5-turbo'' m] (fst (apiKeyForProvider e c p))"
proof (cases "p = ''openai''")
  case True
  then show ?thesis by (simp add: NewLLMFromConfig_def case_prod_beta Let_def)
next
  case False
  with assms have "p \<notin> set SupportedLLMProviders" by simp
  then show ?thesis by (simp add: NewLLMFromConfig_def SupportedLLMProviders_def case_prod_beta Let_def)
qed

lemma STT_fallback:
  assumes "p = ''openai'' \<or> p \<notin> set SupportedSTTProviders"
  shows "NewSTTFromConfig connects e c p =
       built ''stt.NewOpenAI'' [snd (apiKeyForProvider e c p)] (fst (apiKeyForProvider e c p))"
proof (cases "p = ''openai''")
  case True
  then show ?thesis by (simp add: NewSTTFromConfig_def case_prod_beta Let_def)
next
  case False
  with assms have "p \<notin> set SupportedSTTProviders" by simp
  then show ?thesis by (simp add: NewSTTFromConfig_def SupportedSTTProviders_def case_prod_beta Let_def)
qed

lemma TTS_fallback:
  assumes "p = ''openai'' \<or> p \<notin> set SupportedTTSProviders"
  shows "NewTTSFromConfig connects e c p m v =
       built ''tts.NewOpenAI'' [snd (apiKeyForProvider e c p), m] (fst (apiKeyForProvider e c p))"
proof (cases "p = ''openai''")
  case True
  then show ?thesis by (simp add: NewTTSFromConfig_def case_prod_beta Let_def)
next
  case False
  with assms have "p \<notin> set SupportedTTSProviders" by simp
  then show ?thesis by (simp add: NewTTSFromConfig_def SupportedTTSProviders_def case_prod_beta Let_def)
qed

definition made_name :: "made \<Rightarrow> string option" where
  "made_name r = map_option sv_new (snd r)"

text \<open>A case of the switch that builds something else is passed over.\<close>

lemma made_name_case:
  "made_name x \<noteq> Some n \<Longrightarrow> made_name (if p = q then x else r) = Some n \<longleftrightarrow> p \<noteq> q \<and> made_name r = Some n"
  by auto

lemma made_name_new:
  "made_name (built n as c) = Some n' \<longleftrightarrow> n = n'"
  "made_name (dialled connects n as c) = Some n' \<longleftrightarrow> connects (Service n as) \<and> n = n'"
  by (auto simp: made_name_def built_def dialled_def)

lemma LLM_name:
  "made_name (NewLLMFromConfig connects e c p m) = Some ''openai.NewService'' \<longleftrightarrow> p = ''openai'' \<or> p \<notin> set SupportedLLMProviders"
proof
  assume "made_name (NewLLMFromConfig connects e c p m) = Some ''openai.NewService''"
  then show "p = ''openai'' \<or> p \<notin> set SupportedLLMProviders"
    unfolding NewLLMFromConfig_def case_prod_beta Let_def
    by (simp add: made_name_case made_name_new SupportedLLMProviders_def split del: if_split)
next
  assume "p = ''openai'' \<or> p \<notin> set SupportedLLMProviders"
  then show "made_name (NewLLMFromConfig connects e c p m) = Some ''openai.NewService''" by (simp add: LLM_fallback made_name_new del: disj_not1)
qed

lemma STT_name:
  "made_name (NewSTTFromConfig connects e c p) = Some ''stt.NewOpenAI'' \<longleftrightarrow> p = ''openai'' \<or> p \<notin> set SupportedSTTProviders"
proof
  assume "made_name (NewSTTFromConfig connects e c p) = Some ''stt.NewOpenAI''"
  then show "p = ''openai'' \<or> p \<notin> set SupportedSTTProviders"
    unfolding NewSTTFromConfig_def case_prod_beta Let_def
    by (simp add: made_name_case made_name_new SupportedSTTProviders_def split del: if_split)
next
  assume "p = ''openai'' \<or> p \<notin> set SupportedSTTProviders"
  then show "made_name (NewSTTFromConfig connects e c p) = Some ''stt.NewOpenAI''" by (simp add: STT_fallback made_name_new del: disj_not1)
qed

lemma TTS_name:
  "made_name (NewTTSFromConfig connects e c p m v) = Some ''tts.NewOpenAI'' \<longleftrightarrow> p = ''openai'' \<or> p \<notin> set SupportedTTSProviders"
proof
  assume "made_name (NewTTSFromConfig connects e c p m v) = Some ''tts.NewOpenAI''"
  then show "p = ''openai'' \<or> p \<notin> set SupportedTTSProviders"
    unfolding NewTTSFromConfig_def case_prod_beta Let_def
    by (simp add: made_name_case made_name_new SupportedTTSProviders_def split del: if_split)
next
  assume "p = ''openai'' \<or> p \<notin> set SupportedTTSProviders"
  then show "made_name (NewTTSFromConfig connects e c p m v) = Some ''tts.NewOpenAI''" by (simp add: TTS_fallback made_name_new del: disj_not1)
qed

text \<open>The lists of supported providers are exactly the names the constructors know: whatever the
  configuration and whichever constructors fail, a name gives the OpenAI client if and only if it is openai or
  not in the list of its task. An unknown or misspelt name is never refused.\<close>

theorem supported_providers_exact:
  "(made_name (NewLLMFromConfig connects e c p m) = Some ''openai.NewService'' \<longleftrightarrow>
      p \<in> insert ''openai'' (- set SupportedLLMProviders)) \<and>
   (made_name (NewSTTFromConfig connects e c p) = Some ''stt.NewOpenAI'' \<longleftrightarrow>
      p \<in> insert ''openai'' (- set SupportedSTTProviders)) \<and>
   (made_name (NewTTSFromConfig connects e c p m v) = Some ''tts.NewOpenAI'' \<longleftrightarrow>
      p \<in> insert ''openai'' (- set SupportedTTSProviders))"
  by (simp add: LLM_name STT_name TTS_name)

section \<open>Whose key is sent\<close>

lemma LLM_same_settings:
  assumes "key_cache_ok e c" "CHR 0x00 \<notin> set p"
  shows "same_settings e c (fst (NewLLMFromConfig connects e c p m))"
proof -
  let ?c1 = "fst (apiKeyForProvider e c p)"
  have s1: "same_settings e c ?c1" by (rule apiKeyForProvider_key(2) [OF assms])
  note k1 = same_settings_fields(1) [OF s1]
  have r: "same_settings e c (fst (getAWSRegion e ?c1))"
    by (rule same_settings_trans [OF s1 lookups_same_settings(3) [OF k1]])
  have p1: "same_settings e c (fst (getGoogleProject e ?c1))"
    by (rule same_settings_trans [OF s1 lookups_same_settings(1) [OF k1]])
  have l: "same_settings e c (fst (getGoogleLocation e (fst (getGoogleProject e ?c1))))"
    by (rule same_settings_trans [OF p1 lookups_same_settings(2) [OF same_settings_fields(1) [OF p1]]])
  show ?thesis using s1 r l by (auto simp: NewLLMFromConfig_def making)
qed

lemma STT_same_settings:
  assumes "key_cache_ok e c" "CHR 0x00 \<notin> set p"
  shows "same_settings e c (fst (NewSTTFromConfig connects e c p))"
proof -
  let ?c1 = "fst (apiKeyForProvider e c p)"
  have s1: "same_settings e c ?c1" by (rule apiKeyForProvider_key(2) [OF assms])
  note k1 = same_settings_fields(1) [OF s1]
  have r: "same_settings e c (fst (getAWSRegion e ?c1))"
    by (rule same_settings_trans [OF s1 lookups_same_settings(3) [OF k1]])
  have p1: "same_settings e c (fst (getGoogleProject e ?c1))"
    by (rule same_settings_trans [OF s1 lookups_same_settings(1) [OF k1]])
  have l: "same_settings e c (fst (getGoogleLocation e (fst (getGoogleProject e ?c1))))"
    by (rule same_settings_trans [OF p1 lookups_same_settings(2) [OF same_settings_fields(1) [OF p1]]])
  show ?thesis using s1 r l by (auto simp: NewSTTFromConfig_def making)
qed

definition stt_name :: "config \<Rightarrow> string" where "stt_name c = or_else ''openai'' (STTProvider c)"
definition llm_name :: "config \<Rightarrow> string" where "llm_name c = or_else ''openai'' (LLMProvider c)"
definition tts_name :: "config \<Rightarrow> string" where "tts_name c = or_else ''openai'' (TTSProvider c)"

text \<open>A loaded configuration whose provider for transcription (or speech) has none gets OpenAI's service
  with the key of that other provider. This is what the single setting provider = anthropic (or any other
  provider that only has language models) does for both services.\<close>

theorem foreign_key_sent:
  assumes "LoadConfig rf e path = Inr c" "list_all (\<lambda>n. CHR 0x00 \<notin> set n) [llm_name c, stt_name c, tts_name c]"
  shows "(stt_name c \<notin> set SupportedSTTProviders \<longrightarrow>
      sv_stt (snd (NewServicesFromConfig connects e c)) =
        Some (Service ''stt.NewOpenAI'' [provider_key c e (stt_name c)])) \<and>
    (tts_name c \<notin> set SupportedTTSProviders \<longrightarrow>
      sv_tts (snd (NewServicesFromConfig connects e c)) =
        Some (Service ''tts.NewOpenAI'' [provider_key c e (tts_name c), cf_TTSModel c]))"
proof -
  have k: "key_cache_ok e c" by (simp add: key_cache_ok_def loaded_cache_empty [OF assms(1)])
  let ?m = "if cf_Model c = [] \<and> llm_name c = ''openai'' then ''gpt-3.5-turbo'' else cf_Model c"
  let ?c1 = "fst (NewLLMFromConfig connects e c (llm_name c) ?m)"
  let ?c2 = "fst (NewSTTFromConfig connects e ?c1 (stt_name c))"
  have n: "CHR 0x00 \<notin> set (llm_name c)" "CHR 0x00 \<notin> set (stt_name c)" "CHR 0x00 \<notin> set (tts_name c)"
    using assms(2) by simp_all
  have s1: "same_settings e c ?c1" by (rule LLM_same_settings [OF k n(1)])
  note k1 = same_settings_fields(1) [OF s1]
  have s2: "same_settings e c ?c2"
    by (rule same_settings_trans [OF s1 STT_same_settings [OF k1 n(2)]])
  note k2 = same_settings_fields(1) [OF s2]
  have services: "snd (NewServicesFromConfig connects e c) =
      \<lparr>sv_llm = snd (NewLLMFromConfig connects e c (llm_name c) ?m),
       sv_stt = snd (NewSTTFromConfig connects e ?c1 (stt_name c)),
       sv_tts = snd (NewTTSFromConfig connects e ?c2 (tts_name c) (cf_TTSModel ?c2) (cf_TTSVoice ?c2))\<rparr>"
    by (simp add: NewServicesFromConfig_def case_prod_beta Let_def stt_name_def llm_name_def tts_name_def)
  have "stt_name c \<notin> set SupportedSTTProviders \<longrightarrow>
      sv_stt (snd (NewServicesFromConfig connects e c)) =
        Some (Service ''stt.NewOpenAI'' [provider_key c e (stt_name c)])"
    by (simp add: services STT_fallback built_def apiKeyForProvider_key(1) [OF k1 n(2)]
        same_settings_fields(3) [OF s1])
  moreover have "tts_name c \<notin> set SupportedTTSProviders \<longrightarrow>
      sv_tts (snd (NewServicesFromConfig connects e c)) =
        Some (Service ''tts.NewOpenAI'' [provider_key c e (tts_name c), cf_TTSModel c])"
    by (simp add: services TTS_fallback built_def apiKeyForProvider_key(1) [OF k2 n(3)]
        same_settings_fields(3,6) [OF s2])
  ultimately show ?thesis by blast
qed

lemma foreign_key_sent_witness:
  "\<exists>c. LoadConfig (\<lambda>_. Inr (Some (AObj [(''provider'', AStr ''anthropic'')])))
       (\<lambda>v. if v = ''ANTHROPIC_API_KEY'' then ''sk'' else []) [] = Inr c \<and>
     sv_stt (snd (NewServicesFromConfig (\<lambda>_. True) (\<lambda>v. if v = ''ANTHROPIC_API_KEY'' then ''sk'' else []) c)) =
       Some (Service ''stt.NewOpenAI'' [''sk''])"
proof -
  let ?e = "\<lambda>v. if v = ''ANTHROPIC_API_KEY'' then ''sk'' else []"
  let ?f = "\<lambda>_. Inr (Some (AObj [(''provider'', AStr ''anthropic'')]))"
  define c where "c = ApplyEnvOverrides ?e (zero_config\<lparr>cf_Provider := ''anthropic''\<rparr>)"
  have l: "LoadConfig ?f ?e [] = Inr c"
    by (simp add: LoadConfig_def json_simps config_fields_def c_def zero_config_def)
  have n: "stt_name c = ''anthropic''" "llm_name c = ''anthropic''" "tts_name c = ''anthropic''"
    by (simp_all add: stt_name_def llm_name_def tts_name_def STTProvider_def LLMProvider_def TTSProvider_def
        or_else_def c_def ApplyEnvOverrides_def zero_config_def)
  have k: "provider_key c ?e ''anthropic'' = ''sk''"
    by (simp add: provider_key_def key_sources_def key_table_def resolve_key_def or_else_def c_def
        overridden_fields zero_config_def)
  have "sv_stt (snd (NewServicesFromConfig (\<lambda>_. True) ?e c)) = Some (Service ''stt.NewOpenAI'' [''sk''])"
    using foreign_key_sent [OF l, of "\<lambda>_. True"] by (simp add: n k SupportedSTTProviders_def)
  with l show ?thesis by blast
qed

end
