(* ===== verification/Uploader.thy ===== *)
theory Uploader
  imports Reconnect GoStrings "HOL-Library.Multiset"
begin

text \<open>
  \<^verbatim>\<open>pkg/recording/uploader.go\<close>: the upload of a recording with its retries, the object key, and the pool of
  workers behind a bounded channel with its shutdown. S3, the file system and the context are what an
  attempt is answered.
\<close>

section \<open>One upload\<close>

record recording_job =
  rj_LocalPath :: string
  rj_Bucket :: string
  rj_Key :: string

text \<open>What the attempts of an upload meet: whether the file opens, and for each attempt whether the context
  ends the wait before it, whether the file rewinds, and what \<^verbatim>\<open>PutObject\<close> answers.\<close>

record upload_env =
  ue_open :: "err option"
  ue_cancelled :: "nat \<Rightarrow> err option"
  ue_seek :: "nat \<Rightarrow> err option"
  ue_put :: "nat \<Rightarrow> err option"

datatype upload_op = WaitFor duration | PutObject nat | RemoveFile

text \<open>Before every attempt but the first: wait, double the time, rewind.\<close>

definition before_put :: "upload_env \<Rightarrow> nat \<Rightarrow> duration \<Rightarrow> upload_op list \<times> err option \<times> duration" where
  "before_put e n b =
     (if n = 0 then ([], None, b)
      else (case ue_cancelled e n of
          Some x \<Rightarrow> ([], Some x, b)
        | None \<Rightarrow> ([WaitFor b], ue_seek e n, 2 * b)))"

function put_loop :: "upload_env \<Rightarrow> nat \<Rightarrow> nat \<Rightarrow> duration \<Rightarrow> err option \<Rightarrow> err option \<times> upload_op list" where
  "put_loop e m n b lastErr =
     (if m < n then (lastErr, [])
      else (case before_put e n b of
          (os, Some x, b1) \<Rightarrow> (Some x, os)
        | (os, None, b1) \<Rightarrow>
            (case ue_put e n of
               None \<Rightarrow> (None, os @ [PutObject n, RemoveFile])
             | Some x \<Rightarrow> (let (r, os1) = put_loop e m (Suc n) b1 (Some x) in (r, os @ PutObject n # os1)))))"
  by pat_completeness auto
termination by (relation "measure (\<lambda>(e, m, n, b, l). Suc m - n)") auto

declare put_loop.simps [simp del]

definition uploadOnce :: "nat \<Rightarrow> upload_env \<Rightarrow> recording_job \<Rightarrow> err option \<times> upload_op list" where
  "uploadOnce maxRetries e job =
     (if rj_LocalPath job = [] \<or> rj_Bucket job = [] \<or> rj_Key job = [] then (Some ''invalid recording job'', [])
      else (case ue_open e of
          Some x \<Rightarrow> (Some x, [])
        | None \<Rightarrow> put_loop e maxRetries 0 100000000 None))"

definition puts :: "upload_op list \<Rightarrow> nat list" where
  "puts os = List.map_filter (\<lambda>x. case x of PutObject n \<Rightarrow> Some n | _ \<Rightarrow> None) os"

definition waits :: "upload_op list \<Rightarrow> duration list" where
  "waits os = List.map_filter (\<lambda>x. case x of WaitFor b \<Rightarrow> Some b | _ \<Rightarrow> None) os"

lemma puts_waits [simp]:
  "puts [] = []" "puts (PutObject n # os) = n # puts os" "puts (WaitFor b # os) = puts os"
  "puts (RemoveFile # os) = puts os"
  "waits [] = []" "waits (PutObject n # os) = waits os" "waits (WaitFor b # os) = b # waits os"
  "waits (RemoveFile # os) = waits os"
  by (simp_all add: puts_def waits_def List.map_filter_def)

text \<open>The attempts from the \<open>n\<close>-th on: numbered in order, at most up to the last allowed, the waits doubling,
  and the file removed exactly when one of them succeeds.\<close>

definition doubling :: "duration \<Rightarrow> duration list \<Rightarrow> bool" where
  "doubling b ws \<longleftrightarrow> ws = map (\<lambda>i. 2 ^ i * b) [0..<length ws]"

lemma doubling_Nil [simp]: "doubling b []"
  by (simp add: doubling_def)

lemma doubling_Cons: "doubling (2 * b) ws \<Longrightarrow> doubling b (b # ws)"
proof -
  assume "doubling (2 * b) ws"
  then have "ws = map (\<lambda>i. 2 ^ i * b) (map Suc [0..<length ws])" by (simp add: doubling_def o_def ac_simps)
  then show ?thesis unfolding doubling_def by (simp add: upt_conv_Cons map_Suc_upt del: upt_Suc)
qed

definition attempts_ok :: "upload_env \<Rightarrow> nat \<Rightarrow> nat \<Rightarrow> err option \<times> upload_op list \<Rightarrow> bool" where
  "attempts_ok e m n x \<longleftrightarrow> puts (snd x) = [n..<n + length (puts (snd x))] \<and> n + length (puts (snd x)) \<le> Suc m \<and>
     (RemoveFile \<in> set (snd x) \<longleftrightarrow> (\<exists>k \<in> set (puts (snd x)). ue_put e k = None)) \<and>
     (fst x = None \<longleftrightarrow> RemoveFile \<in> set (snd x))"

lemma put_loop_attempts:
  assumes "n \<le> Suc m" "n = Suc m \<Longrightarrow> l \<noteq> None"
  shows "attempts_ok e m n (put_loop e m n b l) \<and> doubling b (waits (snd (put_loop e m n b l)))"
  using assms
proof (induction e m n b l rule: put_loop.induct)
  case (1 e m n b l)
  show ?case
  proof (cases "m < n")
    case True
    then show ?thesis using 1(2,3) by (simp add: put_loop.simps [of e m n] attempts_ok_def)
  next
    case False
    obtain os x b1 where bp: "before_put e n b = (os, x, b1)" by (cases "before_put e n b") auto
    have os: "puts os = []" "RemoveFile \<notin> set os" "doubling b (waits os)"
      "\<And>ws. x = None \<Longrightarrow> doubling b1 ws \<Longrightarrow> doubling b (waits os @ ws)"
      "\<And>ys. puts (os @ ys) = puts ys" "\<And>ys. waits (os @ ys) = waits os @ waits ys"
      using bp doubling_Cons [of b] doubling_Cons [of b "[]"]
      by (auto simp: before_put_def split: if_splits option.splits)
    show ?thesis
    proof (cases x)
      case (Some y)
      then show ?thesis using False os(1-3) by (simp add: put_loop.simps [of e m n] bp attempts_ok_def)
    next
      case None
      note n = this
      show ?thesis
      proof (cases "ue_put e n")
        case p: None
        then show ?thesis using False n os by (auto simp: put_loop.simps [of e m n] bp attempts_ok_def)
      next
        case (Some y)
        obtain r os1 where rec: "put_loop e m (Suc n) b1 (Some y) = (r, os1)" by force
        from 1(1) [OF False bp [symmetric] _ n Some] False rec n
        have ih: "attempts_ok e m (Suc n) (r, os1)" "doubling b1 (waits os1)" by simp_all
        have "puts os1 = [Suc n..<Suc n + length (puts os1)]" using ih(1) by (simp add: attempts_ok_def)
        then have "n # puts os1 = n # [Suc n..<Suc n + length (puts os1)]" by (rule arg_cong)
        also have "\<dots> = [n..<Suc n + length (puts os1)]" by (rule upt_conv_Cons [symmetric]) simp
        finally have "[n..<Suc n + length (puts os1)] = n # puts os1" by (rule sym)
        with ih os Some n False show ?thesis
          by (simp add: put_loop.simps [of e m n] bp rec attempts_ok_def del: upt_Suc)
      qed
    qed
  qed
qed

text \<open>An upload tries at most once more than the configured retries, in order, waits a tenth of a second
  and then twice as long each time, and removes the local file exactly when one attempt succeeded, which is
  when it reports no error; every other recording stays on the disk and is not tried again.\<close>

theorem upload_attempts:
  "\<exists>k \<le> Suc m. puts (snd (uploadOnce m e job)) = [0..<k] \<and>
     waits (snd (uploadOnce m e job)) =
       map (\<lambda>i. 2 ^ i * 100000000) [0..<length (waits (snd (uploadOnce m e job)))] \<and>
     (RemoveFile \<in> set (snd (uploadOnce m e job)) \<longleftrightarrow> (\<exists>i < k. ue_put e i = None)) \<and>
     (fst (uploadOnce m e job) = None \<longleftrightarrow> RemoveFile \<in> set (snd (uploadOnce m e job)))"
proof -
  have "attempts_ok e m 0 (uploadOnce m e job) \<and> doubling 100000000 (waits (snd (uploadOnce m e job)))"
    using put_loop_attempts [of 0 m None e 100000000]
    by (simp add: uploadOnce_def split: option.split) (simp add: attempts_ok_def)
  then have a: "attempts_ok e m 0 (uploadOnce m e job)" "doubling 100000000 (waits (snd (uploadOnce m e job)))"
    by simp_all
  let ?k = "length (puts (snd (uploadOnce m e job)))"
  have p: "puts (snd (uploadOnce m e job)) = [0..<?k]" using a(1) by (simp add: attempts_ok_def)
  then have "set (puts (snd (uploadOnce m e job))) = set [0..<?k]" by (rule arg_cong)
  then have e: "(\<exists>i \<in> set (puts (snd (uploadOnce m e job))). ue_put e i = None) \<longleftrightarrow> (\<exists>i < ?k. ue_put e i = None)" by auto
  show ?thesis by (rule exI [of _ ?k], intro conjI p)
    (use a in \<open>simp_all only: attempts_ok_def doubling_def e, simp_all\<close>)
qed

section \<open>The object key\<close>

text \<open>A path as it is on Unix, where \<^verbatim>\<open>ToSlash\<close> is the identity; \<open>pad\<close> is a number with \<^verbatim>\<open>%0nd\<close>.\<close>

definition pad :: "nat \<Rightarrow> nat \<Rightarrow> string" where
  "pad n k = replicate (n - length (utoa k)) (CHR ''0'') @ utoa k"

definition trim_slash :: "string \<Rightarrow> string" where
  "trim_slash p = (if last p = CHR ''/'' then butlast p else p)"

definition BuildS3Key :: "string \<Rightarrow> string \<Rightarrow> string \<Rightarrow> nat \<times> nat \<times> nat \<Rightarrow> string" where
  "BuildS3Key basePath callID format t =
     (let f = (if format = [] then ''wav'' else format);
          b = trim_slash (if basePath = [] then ''recordings'' else basePath)
      in b @ ''/'' @ pad 4 (fst t) @ ''/'' @ pad 2 (fst (snd t)) @ ''/'' @ pad 2 (snd (snd t)) @ ''/'' @ callID @ ''.'' @ f)"

lemma keys_of_one_day_distinct:
  "BuildS3Key b i f t = BuildS3Key b i' f t \<longleftrightarrow> i = i'"
  by (simp add: BuildS3Key_def Let_def)

section \<open>The pool\<close>

datatype worker = Ready | Uploading recording_job | Left

text \<open>\<open>up_accepted\<close>, \<open>up_done\<close> and \<open>up_refused\<close> are history: the jobs that were queued, those finished with the
  error of the upload, and those refused.\<close>

record uploader =
  up_jobs :: "recording_job list"
  up_cap :: nat
  up_maxRetries :: nat
  up_closed :: bool
  up_workers :: "worker list"
  up_accepted :: "recording_job list"
  up_done :: "(recording_job \<times> err option) list"
  up_refused :: "recording_job list"
  up_panic :: bool

definition default_to :: "int \<Rightarrow> nat \<Rightarrow> nat" where
  "default_to n d = (if n \<le> 0 then d else nat n)"

definition NewUploader :: "err option \<Rightarrow> int \<Rightarrow> int \<Rightarrow> int \<Rightarrow> err + uploader" where
  "NewUploader aws workerCount queueSize maxRetries =
     (case aws of
        Some e \<Rightarrow> Inl (''load AWS config: '' @ e)
      | None \<Rightarrow> Inr \<lparr>up_jobs = [], up_cap = default_to queueSize 32, up_maxRetries = default_to maxRetries 3,
          up_closed = False, up_workers = replicate (default_to workerCount 2) Ready, up_accepted = [],
          up_done = [], up_refused = [], up_panic = False\<rparr>)"

text \<open>A send on a closed channel panics, also under \<^verbatim>\<open>select\<close> with a default.\<close>

definition Enqueue :: "uploader \<Rightarrow> recording_job \<Rightarrow> err option \<times> uploader" where
  "Enqueue u job =
     (if up_closed u then (None, u\<lparr>up_panic := True\<rparr>)
      else if length (up_jobs u) < up_cap u
      then (None, u\<lparr>up_jobs := up_jobs u @ [job], up_accepted := up_accepted u @ [job]\<rparr>)
      else (Some ''recording queue full'', u\<lparr>up_refused := up_refused u @ [job]\<rparr>))"

text \<open>The first half of \<^verbatim>\<open>Shutdown\<close>; the other waits for the workers or its context.\<close>

definition Shutdown :: "uploader \<Rightarrow> uploader" where
  "Shutdown u = (if up_closed u then u\<lparr>up_panic := True\<rparr> else u\<lparr>up_closed := True\<rparr>)"

text \<open>What \<open>worker\<close> \<open>i\<close> does: receive a job, upload it, leave when the channel is closed and empty.\<close>

inductive work :: "uploader \<Rightarrow> uploader \<Rightarrow> bool" where
  receive: "\<lbrakk>i < length (up_workers u); up_workers u ! i = Ready; up_jobs u = j # js\<rbrakk> \<Longrightarrow>
    work u (u\<lparr>up_jobs := js, up_workers := (up_workers u)[i := Uploading j]\<rparr>)"
| upload: "\<lbrakk>i < length (up_workers u); up_workers u ! i = Uploading j\<rbrakk> \<Longrightarrow>
    work u (u\<lparr>up_workers := (up_workers u)[i := Ready],
      up_done := up_done u @ [(j, fst (uploadOnce (up_maxRetries u) e j))]\<rparr>)"
| leave: "\<lbrakk>i < length (up_workers u); up_workers u ! i = Ready; up_jobs u = []; up_closed u\<rbrakk> \<Longrightarrow>
    work u (u\<lparr>up_workers := (up_workers u)[i := Left]\<rparr>)"

inductive ustep :: "uploader \<Rightarrow> uploader \<Rightarrow> bool" where
  enqueue: "ustep u (snd (Enqueue u j))"
| shutdown: "ustep u (Shutdown u)"
| working: "work u u' \<Longrightarrow> ustep u u'"

inductive_cases workE: "work u u'"

text \<open>The jobs workers hold, and a bound on the steps workers still have to do.\<close>

definition hand :: "worker \<Rightarrow> recording_job multiset" where
  "hand w = (case w of Uploading j \<Rightarrow> {#j#} | _ \<Rightarrow> {#})"

definition load :: "worker \<Rightarrow> nat" where
  "load w = (case w of Ready \<Rightarrow> 1 | Uploading j \<Rightarrow> 2 | Left \<Rightarrow> 0)"

definition in_hand :: "uploader \<Rightarrow> recording_job multiset" where
  "in_hand u = sum_list (map hand (up_workers u))"

definition work_left :: "uploader \<Rightarrow> nat" where
  "work_left u = 2 * length (up_jobs u) + sum_list (map load (up_workers u))"

lemma hand_load [simp]:
  "hand Ready = {#}" "hand (Uploading j) = {#j#}" "hand Left = {#}"
  "load Ready = 1" "load (Uploading j) = 2" "load Left = 0"
  by (simp_all add: hand_def load_def)

lemma sum_list_swap:
  fixes f :: "'b \<Rightarrow> 'a :: comm_monoid_add"
  shows "i < length ws \<Longrightarrow> sum_list (map f (ws[i := w])) + f (ws ! i) = sum_list (map f ws) + f w"
  by (induction ws arbitrary: i) (auto simp: ac_simps split: nat.split)

definition pool_ok :: "uploader \<Rightarrow> bool" where
  "pool_ok u \<longleftrightarrow> mset (up_accepted u) = mset (up_jobs u) + in_hand u + mset (map fst (up_done u)) \<and>
     length (up_jobs u) \<le> up_cap u \<and> (Left \<in> set (up_workers u) \<longrightarrow> up_closed u \<and> up_jobs u = []) \<and>
     (up_panic u \<longrightarrow> up_closed u) \<and> up_workers u \<noteq> []"

lemma sum_hand_Ready [simp]: "sum_list (replicate n (hand Ready)) = {#}"
  by (induction n) simp_all

lemma sum_load_le: "sum_list (map load ws) \<le> 2 * length ws"
proof (induction ws)
  case (Cons w ws)
  then show ?case by (cases w) simp_all
qed simp

lemma hands_left: "\<forall>w \<in> set ws. w = Left \<Longrightarrow> sum_list (map hand ws) = {#}"
  by (induction ws) simp_all

lemma pool_new: "NewUploader None wc qs mr = Inr u \<Longrightarrow> pool_ok u"
  by (auto simp: NewUploader_def pool_ok_def in_hand_def default_to_def simp del: replicate.simps hand_load split: if_splits)

lemma work_pool: "work u u' \<Longrightarrow> pool_ok u \<Longrightarrow>
    pool_ok u' \<and> up_accepted u' = up_accepted u \<and> up_closed u' = up_closed u \<and> work_left u' < work_left u"
proof (induction rule: work.induct)
  case (receive i u j js)
  then show ?case
    using sum_list_swap [of i "up_workers u" hand "Uploading j"] sum_list_swap [of i "up_workers u" load "Uploading j"]
    by (auto simp: pool_ok_def in_hand_def work_left_def ac_simps dest!: set_update_subset_insert [THEN subsetD])
next
  case (upload i u j e)
  then show ?case
    using sum_list_swap [of i "up_workers u" hand Ready] sum_list_swap [of i "up_workers u" load Ready]
    by (auto simp: pool_ok_def in_hand_def work_left_def ac_simps dest!: set_update_subset_insert [THEN subsetD])
next
  case (leave i u)
  then show ?case
    using sum_list_swap [of i "up_workers u" hand Left] sum_list_swap [of i "up_workers u" load Left]
    by (auto simp: pool_ok_def in_hand_def work_left_def ac_simps dest!: set_update_subset_insert [THEN subsetD])
qed

lemma ustep_pool [inv_intros]: "ustep u u' \<Longrightarrow> pool_ok u \<Longrightarrow> pool_ok u'"
  by (induction rule: ustep.induct) (auto simp: Enqueue_def Shutdown_def pool_ok_def in_hand_def dest: work_pool)

lemma usteps_pool: "ustep\<^sup>*\<^sup>* u u' \<Longrightarrow> pool_ok u \<Longrightarrow> pool_ok u'"
  by (induction rule: rtranclp_induct) (auto intro: inv_intros)

lemma works_pool: "(work ^^ n) u u' \<Longrightarrow> pool_ok u \<Longrightarrow>
    pool_ok u' \<and> up_accepted u' = up_accepted u \<and> up_closed u' = up_closed u \<and> n + work_left u' \<le> work_left u"
proof (induction n arbitrary: u')
  case (Suc n)
  from Suc.prems(1) obtain v where v: "(work ^^ n) u v" "work v u'" by auto
  from Suc.IH [OF v(1) Suc.prems(2)] work_pool [OF v(2)] show ?case by auto
qed auto

text \<open>When no worker of a closed pool can move, all have left.\<close>

lemma stuck_left:
  assumes "\<nexists>u'. work u u'" "up_closed u" "w \<in> set (up_workers u)"
  shows "w = Left"
proof -
  from assms(3) obtain i where i: "i < length (up_workers u)" "up_workers u ! i = w" by (auto simp: in_set_conv_nth)
  show ?thesis
  proof (cases w)
    case Ready
    with i assms(1,2) work.receive [of i u] work.leave [of i u] show ?thesis by (cases "up_jobs u") auto
  next
    case (Uploading j)
    with i assms(1) work.upload [of i u j] show ?thesis by auto
  qed
qed

text \<open>C38: After \<^verbatim>\<open>Shutdown\<close>, whatever was enqueued before and in whatever order the workers move, they are
  done within a number of steps fixed by the queue and the number of workers, and when they cannot move any
  more all have left and every job that was ever accepted has been uploaded or has failed exactly once.\<close>

theorem uploads_finish:
  assumes "NewUploader None workers queue retries = Inr u0" "ustep\<^sup>*\<^sup>* u0 u" "up_closed u" "(work ^^ n) u u'"
  shows "n \<le> 2 * length (up_jobs u) + 2 * length (up_workers u) \<and>
    ((\<nexists>v. work u' v) \<longrightarrow> set (up_workers u') = {Left} \<and> up_jobs u' = [] \<and>
       mset (map fst (up_done u')) = mset (up_accepted u))"
proof -
  have ok: "pool_ok u" using usteps_pool [OF assms(2)] pool_new [OF assms(1)] .
  note w = works_pool [OF assms(4) ok]
  have n: "n \<le> 2 * length (up_jobs u) + 2 * length (up_workers u)"
    using w sum_load_le [of "up_workers u"] by (simp add: work_left_def)
  {
    assume st: "\<nexists>v. work u' v"
    have l: "\<forall>x \<in> set (up_workers u'). x = Left" using stuck_left [OF st] w assms(3) by auto
    then have s: "set (up_workers u') = {Left}" using w by (cases "up_workers u'") (auto simp: pool_ok_def)
    have "in_hand u' = {#}" unfolding in_hand_def using l by (simp add: hands_left)
    with s w have "set (up_workers u') = {Left} \<and> up_jobs u' = [] \<and>
       mset (map fst (up_done u')) = mset (up_accepted u)"
      by (simp add: pool_ok_def) (metis add_0 image_mset_add_mset mset.simps(1))
  }
  with n show ?thesis by blast
qed

definition sample_job :: recording_job where
  "sample_job = \<lparr>rj_LocalPath = ''/tmp/a.wav'', rj_Bucket = ''b'', rj_Key = ''k''\<rparr>"

definition sample_pool :: "worker \<Rightarrow> recording_job list \<Rightarrow> (recording_job \<times> err option) list \<Rightarrow> uploader" where
  "sample_pool w js done = \<lparr>up_jobs = js, up_cap = 1, up_maxRetries = 1, up_closed = True, up_workers = [w],
     up_accepted = [sample_job], up_done = done, up_refused = [], up_panic = False\<rparr>"

lemma sample_pool_works:
  "(work ^^ 3) (sample_pool Ready [sample_job] [])
     (sample_pool Left [] [(sample_job, fst (uploadOnce 1 e sample_job))])"
proof -
  have "work (sample_pool Ready [sample_job] []) (sample_pool (Uploading sample_job) [] [])"
    using work.receive [of 0 "sample_pool Ready [sample_job] []"] by (simp add: sample_pool_def)
  moreover have "work (sample_pool (Uploading sample_job) [] [])
      (sample_pool Ready [] [(sample_job, fst (uploadOnce 1 e sample_job))])"
    using work.upload [of 0 "sample_pool (Uploading sample_job) [] []" sample_job e] by (simp add: sample_pool_def)
  moreover have "work (sample_pool Ready [] ds) (sample_pool Left [] ds)" for ds
    using work.leave [of 0 "sample_pool Ready [] ds"] by (simp add: sample_pool_def)
  ultimately show ?thesis by (auto simp: numeral_3_eq_3)
qed

lemma uploads_finish_witness:
  "\<exists>u0 u u'. NewUploader None 1 1 1 = Inr u0 \<and> ustep\<^sup>*\<^sup>* u0 u \<and> up_closed u \<and> (work ^^ 3) u u' \<and>
     up_accepted u = [sample_job] \<and>
     mset (map fst (up_done u')) = {#sample_job#}"
proof -
  define u0 where "u0 = \<lparr>up_jobs = [], up_cap = 1, up_maxRetries = 1, up_closed = False, up_workers = [Ready],
     up_accepted = [], up_done = [], up_refused = [], up_panic = False\<rparr>"
  let ?e = "\<lparr>ue_open = None, ue_cancelled = \<lambda>_. None, ue_seek = \<lambda>_. None, ue_put = \<lambda>_. None\<rparr>"
  let ?u = "sample_pool Ready [sample_job] []"
  let ?v = "sample_pool Left [] [(sample_job, fst (uploadOnce 1 ?e sample_job))]"
  have n: "NewUploader None 1 1 1 = Inr u0" by (simp add: NewUploader_def default_to_def u0_def)
  have "ustep u0 (snd (Enqueue u0 sample_job))" "ustep (snd (Enqueue u0 sample_job)) ?u"
    using ustep.shutdown [of "snd (Enqueue u0 sample_job)"]
    by (simp_all add: ustep.enqueue) (simp add: Enqueue_def Shutdown_def u0_def sample_pool_def)
  then have r: "ustep\<^sup>*\<^sup>* u0 ?u" by (meson converse_rtranclp_into_rtranclp r_into_rtranclp)
  have c: "up_closed ?u" "up_accepted ?u = [sample_job]" by (simp_all add: sample_pool_def)
  have st: "\<nexists>v. work ?v v" by (auto simp: sample_pool_def elim!: workE)
  from uploads_finish [OF n r c(1) sample_pool_works [of ?e]] st c(2)
  have m: "mset (map fst (up_done ?v)) = {#sample_job#}" by simp
  show ?thesis
    by (rule exI [of _ u0], rule exI [of _ ?u], rule exI [of _ ?v], intro conjI)
      (fact n, fact r, fact c, fact sample_pool_works [of ?e], fact c, fact m)
qed

end
