(* ===== verification/VoiceCall.thy ===== *)
theory VoiceCall
  imports ServiceFactory Tts AudioProc Wav Uploader
begin

text \<open>
  \<^verbatim>\<open>cmd/voxray/main.go\<close>: the settings of a process, the pipeline it builds for a connection as one machine
  from the frames that come in to the frames that go out, and the end of sessions and of the process. The
  observers that wrap each processor see frames and change none.
\<close>

section \<open>Settings\<close>

record run_flags =
  fl_transport :: string
  fl_port :: int
  fl_proxy :: string
  fl_dialin :: bool

definition apply_flags :: "run_flags \<Rightarrow> config \<Rightarrow> config" where
  "apply_flags fl c =
     (let c1 = (if fl_transport fl \<noteq> [] then c\<lparr>cf_RunnerTransport := fl_transport fl\<rparr> else c);
          c2 = (if fl_port fl > 0 then c1\<lparr>cf_Port := fl_port fl\<rparr> else c1);
          c3 = (if fl_proxy fl \<noteq> [] then c2\<lparr>cf_ProxyHost := fl_proxy fl\<rparr> else c2)
      in if fl_dialin fl then c3\<lparr>cf_Dialin := True\<rparr> else c3)"

definition load_settings :: "(string \<Rightarrow> err + any option) \<Rightarrow> env \<Rightarrow> string \<Rightarrow> run_flags \<Rightarrow> err + config" where
  "load_settings read_file e path fl =
     (case LoadConfig read_file e path of
        Inl x \<Rightarrow> Inl (''load config: '' @ x)
      | Inr c \<Rightarrow>
          (if Validate (Some c) \<noteq> []
           then Inl (''config validation failed: '' @ itoa (int (length (Validate (Some c)))) @ '' error(s)'')
           else Inr (apply_flags fl c)))"

section \<open>The detector and the analyzer\<close>

text \<open>The energy detector with its caps; \<open>silero\<close> is the constructor of the neural one, which fails in a build
  without it.\<close>

definition energy_params :: "config \<Rightarrow> vad_params" where
  "energy_params c =
     (let vp = VADParams c;
          conf = (if vs_Confidence vp > 1/2 then 1/2 else vs_Confidence vp);
          minVol = (if vs_MinVolume vp > 1/20 then 1/20 else vs_MinVolume vp);
          thresh = (if cf_VadThreshold c \<le> 0 then 1/50
                    else if cf_VadThreshold c > 1/100 then 1/100 else cf_VadThreshold c)
      in \<lparr>Confidence = of_rat conf, StartSecs = of_rat (vs_StartSecs vp), StopSecs = of_rat (vs_StopSecs vp),
          MinVolume = of_rat minVol, Threshold = of_rat thresh\<rparr>)"

definition silero_params :: "config \<Rightarrow> vad_params" where
  "silero_params c =
     (let vp = VADParams c
      in \<lparr>Confidence = of_rat (vs_Confidence vp), StartSecs = of_rat (vs_StartSecs vp),
          StopSecs = of_rat (vs_StopSecs vp), MinVolume = of_rat (vs_MinVolume vp), Threshold = 0\<rparr>)"

definition build_detector :: "(vad_params \<Rightarrow> analyzer option) \<Rightarrow> config \<Rightarrow> analyzer" where
  "build_detector silero c =
     VadSetSampleRate
       (case (if VADBackendOrDefault c = ''silero'' then silero (silero_params c) else None) of
          Some a \<Rightarrow> a
        | None \<Rightarrow> NewEnergyDetectorWithParams (energy_params c)) 16000"

definition build_turn_analyzer :: "config \<Rightarrow> silence_analyzer" where
  "build_turn_analyzer c =
     (let a = NewSilenceTurnAnalyzer
            \<lparr>tp_stop = if cf_TurnStopSecs c \<le> 0 then 3 else of_rat (cf_TurnStopSecs c),
             tp_pre = if cf_TurnPreSpeechMs c \<le> 0 then 500 else of_rat (cf_TurnPreSpeechMs c),
             tp_max = if cf_TurnMaxDurationSecs c \<le> 0 then 8 else of_rat (cf_TurnMaxDurationSecs c)\<rparr>
      in if cf_VADStartSecs c \<noteq> 0 then UpdateVADStartSecs a (of_rat (cf_VADStartSecs c)) else a)"

definition user_turn_stop_timeout :: "config \<Rightarrow> rat" where
  "user_turn_stop_timeout c =
     (if cf_UserTurnStopTimeoutSecs c \<le> 0
      then if cf_TurnStopSecs c > 0 then cf_TurnStopSecs c else 5
      else cf_UserTurnStopTimeoutSecs c)"

section \<open>The pipeline of a call\<close>

text \<open>The processors in order: turn detection and recording buffer, each optional, then the line of \<open>Tts\<close>.\<close>

record ('a, 'b, 'c) call =
  cl_det :: analyzer
  cl_turn :: "turn_proc option"
  cl_rec :: "audio_buffer option"
  cl_line :: "('a, 'b, 'c) voice_line"

definition recording_on :: "config \<Rightarrow> bool" where
  "recording_on c \<longleftrightarrow> rc_Enable (cf_Recording c) \<and> rc_Bucket (cf_Recording c) \<noteq> []"

definition system_prompt :: string where
  "system_prompt =
     ''You are a helpful voice assistant. Reply briefly and naturally in the same language as the user.''"

text \<open>\<open>rec_opens\<close>: \<^verbatim>\<open>NewFileRecorder\<close> succeeds. \<open>ids\<close> starts the ids of the frames of each processor.\<close>

definition buildPipeline ::
  "(vad_params \<Rightarrow> analyzer option) \<Rightarrow> config \<Rightarrow> bool \<Rightarrow> 'a \<Rightarrow> 'b \<Rightarrow> 'c \<Rightarrow> u64 \<Rightarrow> ('a, 'b, 'c) call" where
  "buildPipeline silero c rec_opens stt llm tts ids =
     \<lparr>cl_det = build_detector silero c,
      cl_turn = (if TurnEnabled c
        then Some (NewTurnProcessorWithUserTurn (build_turn_analyzer c) 16000 1 (cf_TurnAsync c)
          (of_rat (user_turn_stop_timeout c)) (of_rat (cf_UserIdleTimeoutSecs c)) ids)
        else None),
      cl_rec = (if recording_on c \<and> rec_opens
        then Some (StartRecording (NewAudioBufferProcessor 16000 1 3200 False)) else None),
      cl_line = \<lparr>vl_stt = NewSTTProcessor ''stt'' stt 16000 1 ids,
        vl_llm = NewLLMProcessorWithSystemPrompt llm system_prompt ids,
        vl_tts = NewTTSProcessor ''tts'' tts 24000 ids,
        vl_control = (if cf_AllowInterruptions c
          then map_option (\<lambda>s. NewInterruptionController (Some s) ids)
            (NewStrategy (cf_InterruptionStrategy c) (cf_MinWords c))
          else None)\<rparr>\<rparr>"

text \<open>Without a provider and a model the plugins are run, or an echo if one of them is unknown.\<close>

definition useVoice :: "config \<Rightarrow> bool" where
  "useVoice c \<longleftrightarrow> cf_Provider c \<noteq> [] \<and> cf_Model c \<noteq> []"

text \<open>What happens in a call: a frame from the transport, with the clock and the pending analysis, or the end
  of one of the two timers of the turn controller. The outputs are the frames that enter the line, what
  the recorder is given, and the frames that reach the transport.\<close>

datatype call_event =
    Incoming int "(end_of_turn \<times> err option) option option" frame
  | StopTimerFires
  | IdleTimerFires

datatype call_output = ToLine frame | Recorded recording | ToClient frame

definition hear :: "analyzer \<Rightarrow> frame \<Rightarrow> analyzer \<times> bool" where
  "hear det f =
     (case fbody f of AudioRawFrame a \<Rightarrow> if audio a = [] then (det, False) else IsSpeech det (audio a) | _ \<Rightarrow> (det, False))"

definition front_step ::
  "analyzer \<times> turn_proc option \<Rightarrow> call_event \<Rightarrow> (analyzer \<times> turn_proc option) \<times> frame list" where
  "front_step s e =
     (case s of
        (det, None) \<Rightarrow> (case e of Incoming now poll f \<Rightarrow> (s, [f]) | _ \<Rightarrow> (s, []))
      | (det, Some p) \<Rightarrow>
          (case e of
             Incoming now poll f \<Rightarrow>
               (let (det', speech) = hear det f;
                    (p', ps, _) = TurnProcessFrame quiet_replies p
                      (\<lparr>te_now = now, te_speech = Inr speech, te_poll = poll\<rparr>, f) Downstream
                in ((det', Some p'), map snd ps))
           | StopTimerFires \<Rightarrow>
               (let (ctl, fs) = stop_timer_fires (\<lambda>_. None) (tp_ctl p) in ((det, Some (p\<lparr>tp_ctl := ctl\<rparr>)), fs))
           | IdleTimerFires \<Rightarrow>
               (let (ctl, fs) = idle_timer_fires (\<lambda>_. None) (tp_ctl p) in ((det, Some (p\<lparr>tp_ctl := ctl\<rparr>)), fs))))"

definition record_step :: "audio_buffer option \<Rightarrow> frame \<Rightarrow> audio_buffer option \<times> recording list" where
  "record_step r f =
     (case r of
        None \<Rightarrow> (None, [])
      | Some p \<Rightarrow> (let (p', _, _, rs) = AudioBufferProcessFrame quiet_replies p f Downstream in (Some p', rs)))"

definition call_step ::
  "'a transcriber \<Rightarrow> 'b chatter \<Rightarrow> 'c speaker \<Rightarrow> ('a, 'b, 'c) call \<Rightarrow> call_event
     \<Rightarrow> ('a, 'b, 'c) call \<times> call_output list" where
  "call_step tr chat spk c e =
     (let ((det, turn), fs) = front_step (cl_det c, cl_turn c) e;
          (buf, recs) = run record_step (cl_rec c) fs;
          (line, out) = run (voice_step tr chat spk quiet_replies) (cl_line c) fs
      in (\<lparr>cl_det = det, cl_turn = turn, cl_rec = buf, cl_line = line\<rparr>,
          map ToLine fs @ map Recorded recs @ map ToClient out))"

section \<open>Windows\<close>

text \<open>The windows a detector looks at, of 10 ms each.\<close>

definition windows :: "nat \<Rightarrow> byte list \<Rightarrow> byte list list" where
  "windows n b = map (\<lambda>i. take n (drop (i * n) b)) [0..<length b div n]"

lemma windows_short [simp]: "length b < n \<Longrightarrow> windows n b = []"
  by (simp add: windows_def)

lemma windows_step: "0 < n \<Longrightarrow> n \<le> length b \<Longrightarrow> windows n b = take n b # windows n (drop n b)"
proof -
  assume n: "0 < n" "n \<le> length b"
  then have "length b div n = Suc ((length b - n) div n)" by (simp add: le_div_geq)
  then show ?thesis
    by (simp add: windows_def upt_conv_Cons map_Suc_upt [symmetric] o_def add.commute del: upt_Suc)
qed

lemma windows_prefix: "\<exists>ws. windows n (x @ y) = windows n x @ ws"
proof -
  have le: "length x div n \<le> length (x @ y) div n" by (simp add: div_le_mono)
  have "take n (drop (i * n) (x @ y)) = take n (drop (i * n) x)" if "i < length x div n" for i
  proof -
    have "Suc i * n \<le> length x div n * n" using that by (intro mult_le_mono1) simp
    also have "\<dots> \<le> length x" by simp
    finally show ?thesis by simp
  qed
  then have "windows n x = map (\<lambda>i. take n (drop (i * n) (x @ y))) [0..<length x div n]"
    by (simp add: windows_def)
  moreover from le obtain k where "length (x @ y) div n = length x div n + k" using le_Suc_ex by blast
  then have "[0..<length (x @ y) div n] = [0..<length x div n] @ [length x div n..<length (x @ y) div n]"
    using upt_add_eq_append [of 0 "length x div n" k] by simp
  ultimately show ?thesis unfolding windows_def by (metis map_append)
qed

definition judge :: "backend \<Rightarrow> analyzer \<Rightarrow> byte list list \<Rightarrow> analyzer" where
  "judge b a ws = foldl (\<lambda>a w. process_window b w a) a ws"

lemma judge_simps [simp]:
  "judge b a [] = a" "judge b a (w # ws) = judge b (process_window b w a) ws"
  "judge b a (us @ ws) = judge b (judge b a us) ws"
  by (simp_all add: judge_def)

lemma consume_judge: "0 < n \<Longrightarrow> \<exists>r. consume_windows b n buf a = (judge b a (windows n buf))\<lparr>vbuf := r\<rparr>"
proof (induction b n buf a rule: consume_windows.induct)
  case (1 b n buf a)
  show ?case
  proof (cases "length buf < n")
    case True
    then show ?thesis by (auto simp: consume_windows.simps [of b n buf])
  next
    case False
    with 1 show ?thesis by (simp add: consume_windows.simps [of b n buf] windows_step)
  qed
qed

lemma judge_config [simp]: "vad_config (judge b a ws) = vad_config a"
  by (induction ws arbitrary: a) simp_all

lemma config_fields:
  "vad_config a = vad_config a' \<Longrightarrow> params a = params a' \<and> startFrames a = startFrames a' \<and> rate a = rate a'"
  by (simp add: vad_config_def)

lemma measured [simp]:
  "vstate (measure_window b w a) = vstate a" "startingCount (measure_window b w a) = startingCount a"
  "params (measure_window b w a) = params a" "rate (measure_window b w a) = rate a"
  "startFrames (measure_window b w a) = startFrames a"
  by (simp_all add: measure_window_def Let_def)

lemma volume_kept [simp]: "prevVolume (vad_window s a) = prevVolume a"
  by (cases "vstate a") (simp_all add: vad_window_simps)

lemma smoothed: "prevVolume (process_window b w a) = 4 / 5 * prevVolume a + 1 / 5 * calculateVolume w"
  by (simp add: process_window_def Let_def measure_window_def expSmoothing_def field_simps)

section \<open>A quiet caller\<close>

lemma judge_quiet:
  assumes "list_all (\<lambda>w. calculateVolume w < m) ws" "m \<le> MinVolume (params a)" "prevVolume a < m"
    "vstate a = StateQuiet"
  shows "vstate (judge b a ws) = StateQuiet"
  using assms
proof (induction ws arbitrary: a)
  case (Cons w ws)
  let ?a = "process_window b w a"
  have v: "prevVolume ?a < m" using Cons.prems by (simp add: smoothed)
  have "\<not> loud (measure_window b w a)"
    using v Cons.prems(2) smoothed [of b w a]
    by (simp add: loud_def measure_window_def Let_def expSmoothing_def field_simps)
  then have "vstate ?a = StateQuiet"
    using Cons.prems(4) by (simp add: process_window_def Let_def vad_window_simps)
  moreover have "params ?a = params a" using config_fields [OF process_window_config [of b w a]] by simp
  ultimately show ?case using Cons v by simp
qed simp

text \<open>The loudness a caller has to reach: the setting up to a cap, or a fifth if it is left out.\<close>

definition least_volume :: "config \<Rightarrow> real" where
  "least_volume c =
     (if cf_VADMinVolume c \<le> 0 then 1/5 else if cf_VADMinVolume c > 1/20 then 1/20 else of_rat (cf_VADMinVolume c))"

definition energy_vad :: "(vad_params \<Rightarrow> analyzer option) \<Rightarrow> config \<Rightarrow> bool" where
  "energy_vad silero c \<longleftrightarrow> VADBackendOrDefault c \<noteq> ''silero'' \<or> silero (silero_params c) = None"

lemma detector:
  assumes "energy_vad silero c"
  shows "MinVolume (params (build_detector silero c)) = least_volume c"
    "rate (build_detector silero c) = 16000" "vadFramesNumByte (build_detector silero c) = 320"
    "vbackend (build_detector silero c) = Some (energy_backend (Threshold (params (build_detector silero c))))"
    "vstate (build_detector silero c) = StateQuiet" "vbuf (build_detector silero c) = []"
    "prevVolume (build_detector silero c) = 0" "startingCount (build_detector silero c) = 0"
    "startFrames (build_detector silero c) = math_round (StartSecs (params (build_detector silero c)) * 100)"
    "0 < Threshold (params (build_detector silero c))"
proof -
  have d: "build_detector silero c = VadSetSampleRate (NewEnergyDetectorWithParams (energy_params c)) 16000"
    using assms by (auto simp: build_detector_def energy_vad_def)
  note defs = d NewEnergyDetectorWithParams_def NewEnergyAnalyzer_def VadSetSampleRate_def recompute_def
    newBaseAnalyzer_def Let_def energy_backend_def energy_frames_def
  show "MinVolume (params (build_detector silero c)) = least_volume c"
    by (simp add: defs normalize_params_def energy_params_def VADParams_def least_volume_def of_rat_divide
        zero_less_of_rat_iff)
  show "rate (build_detector silero c) = 16000" "vadFramesNumByte (build_detector silero c) = 320"
    "vstate (build_detector silero c) = StateQuiet" "vbuf (build_detector silero c) = []"
    "prevVolume (build_detector silero c) = 0" "startingCount (build_detector silero c) = 0"
    "startFrames (build_detector silero c) = math_round (StartSecs (params (build_detector silero c)) * 100)"
    by (simp_all add: defs)
  have t: "0 < Threshold (normalize_params q)" for q by (simp add: normalize_params_def)
  have n: "normalize_params (normalize_params q) = normalize_params q" for q by (simp add: normalize_params_def)
  show "vbackend (build_detector silero c) = Some (energy_backend (Threshold (params (build_detector silero c))))"
    using t [of "energy_params c"] by (simp add: defs n)
  show "0 < Threshold (params (build_detector silero c))" using t by (simp add: defs)
qed

definition event_audio :: "call_event \<Rightarrow> byte list" where
  "event_audio e = (case e of Incoming now poll f \<Rightarrow> (case fbody f of AudioRawFrame a \<Rightarrow> audio a | _ \<Rightarrow> []) | _ \<Rightarrow> [])"

definition is_audio :: "frame \<Rightarrow> bool" where
  "is_audio f = (case fbody f of AudioRawFrame a \<Rightarrow> True | _ \<Rightarrow> False)"

definition at_rest :: "turn_proc \<Rightarrow> bool" where
  "at_rest p \<longleftrightarrow> \<not> speech_triggered (tp_analyzer p) \<and> \<not> tp_pending p \<and> \<not> user_speaking (tp_ctl p)"

lemma timers_rest:
  "user_speaking (fst (stop_timer_fires r c)) = user_speaking c"
  "user_speaking (fst (idle_timer_fires r c)) = user_speaking c"
  "list_all (\<lambda>g. \<not> is_audio g) (snd (stop_timer_fires r c))"
  "list_all (\<lambda>g. \<not> is_audio g) (snd (idle_timer_fires r c))"
  by (auto simp: turn_defs is_audio_def case_prod_beta Let_def)

lemma silent_chunk:
  assumes "at_rest p" "te_speech env = Inr False" "b \<noteq> []"
  shows "at_rest (fst (process_chunk rsp env p b)) \<and> fst (snd (process_chunk rsp env p b)) = []"
proof -
  have v: "ProcessVADUpdate r (tp_ctl p) False = (tp_ctl p, [], None)" for r
    using assms(1) by (simp add: at_rest_def ProcessVADUpdate_def)
  obtain an st where a: "AppendAudio (tp_analyzer p) (te_now env) b False = (an, st)" by fastforce
  have "st = Incomplete" "\<not> speech_triggered an"
    using a assms(1,3) by (auto simp: AppendAudio_def Let_def at_rest_def)
  then show ?thesis using assms v a by (auto simp: process_chunk_def at_rest_def Let_def)
qed

lemma rest_step:
  assumes "at_rest p" "te_speech env = Inr False"
  shows "at_rest (fst (TurnProcessFrame rsp p (env, f) Downstream)) \<and>
    list_all (\<lambda>g. \<not> is_audio (snd g)) (fst (snd (TurnProcessFrame rsp p (env, f) Downstream)))"
  using assms silent_chunk [OF assms, where rsp = rsp]
  by (cases "fbody f")
    (auto simp: TurnProcessFrame_def is_audio_def at_rest_def hand_def apply_vad_params_def UpdateParams_def
      UpdateVADStartSecs_def TurnClear_def clearLocked_def Let_def)

definition front_ok :: "analyzer \<Rightarrow> byte list \<Rightarrow> analyzer \<times> turn_proc option \<Rightarrow> bool" where
  "front_ok d h s \<longleftrightarrow> fst s = Analyze d h \<and> (\<exists>p. snd s = Some p \<and> at_rest p)"

lemma front_quiet:
  assumes "front_ok d h s" "vstate (Analyze d (h @ event_audio e)) \<noteq> StateSpeaking"
  shows "front_ok d (h @ event_audio e) (fst (front_step s e)) \<and> list_all (\<lambda>g. \<not> is_audio g) (snd (front_step s e))"
proof -
  obtain p where s: "s = (Analyze d h, Some p)" "at_rest p"
    using assms(1) by (cases s) (auto simp: front_ok_def)
  show ?thesis
  proof (cases e)
    case (Incoming now poll f)
    have hear: "hear (Analyze d h) f = (Analyze d (h @ event_audio e), False)"
      using assms(2) by (auto simp: hear_def event_audio_def Incoming IsSpeech_def analyze_chunking Let_def
          split: body.split)
    show ?thesis
      using rest_step [OF s(2), of "\<lparr>te_now = now, te_speech = Inr False, te_poll = poll\<rparr>" quiet_replies f]
      by (auto simp: front_step_def s(1) hear Incoming front_ok_def case_prod_beta Let_def list_all_iff)
  qed (use s timers_rest in \<open>auto simp: front_step_def front_ok_def event_audio_def at_rest_def
      case_prod_beta Let_def\<close>)
qed

lemma call_step_outputs:
  "snd (call_step tr chat spk c e) =
     map ToLine (snd (front_step (cl_det c, cl_turn c) e)) @
     map Recorded (snd (run record_step (cl_rec c) (snd (front_step (cl_det c, cl_turn c) e)))) @
     map ToClient (snd (run (voice_step tr chat spk quiet_replies) (cl_line c) (snd (front_step (cl_det c, cl_turn c) e))))"
  "(cl_det (fst (call_step tr chat spk c e)), cl_turn (fst (call_step tr chat spk c e))) =
     fst (front_step (cl_det c, cl_turn c) e)"
  "cl_rec (fst (call_step tr chat spk c e)) = fst (run record_step (cl_rec c) (snd (front_step (cl_det c, cl_turn c) e)))"
  by (simp_all add: call_step_def case_prod_beta Let_def)

definition no_audio :: "call_output \<Rightarrow> bool" where
  "no_audio out = (case out of ToLine f \<Rightarrow> \<not> is_audio f | _ \<Rightarrow> True)"

lemma no_audio_outputs [simp]:
  "list_all no_audio (map ToLine fs) = list_all (\<lambda>f. \<not> is_audio f) fs"
  "list_all no_audio (map Recorded rs)" "list_all no_audio (map ToClient fs)"
  by (simp_all add: list_all_iff no_audio_def)

lemma call_quiet:
  assumes "\<And>x y. h @ concat (map event_audio es) = x @ y \<Longrightarrow> vstate (Analyze d x) \<noteq> StateSpeaking"
    "front_ok d h (cl_det c, cl_turn c)"
  shows "list_all no_audio (snd (run (call_step tr chat spk) c es))"
  using assms
proof (induction es arbitrary: c h)
  case (Cons e es)
  let ?h = "h @ event_audio e" and ?c = "fst (call_step tr chat spk c e)"
  have "vstate (Analyze d ?h) \<noteq> StateSpeaking" using Cons.prems(1) [of ?h] by simp
  note f = front_quiet [OF Cons.prems(2) this]
  have "front_ok d ?h (cl_det ?c, cl_turn ?c)" using f by (simp only: call_step_outputs(2))
  then have "list_all no_audio (snd (run (call_step tr chat spk) ?c es))"
    using Cons.prems(1) by (intro Cons.IH [of ?h]) simp_all
  moreover have "list_all no_audio (snd (call_step tr chat spk c e))"
    using f by (simp add: call_step_outputs)
  ultimately show ?case by (simp del: run.simps(2))
qed simp

lemma Analyze_detector:
  assumes "energy_vad silero c"
  shows "\<exists>r. Analyze (build_detector silero c) x =
    (judge (energy_backend (Threshold (params (build_detector silero c)))) (build_detector silero c) (windows 320 x))\<lparr>vbuf := r\<rparr>"
  using consume_judge [of 320] by (simp add: Analyze_def detector [OF assms])

text \<open>C7: With silence turn detection switched on (the default is none) and the energy detector (the Silero
  detector has no such volume), a caller who never gets louder, in any window of ten milliseconds, than
  the least volume is not heard: whatever the lengths of the frames, the timers, the recorder and the
  services, no audio of the call ever reaches transcription. The least volume is the setting capped at
  0.05, as the comment in the code asks for typical microphones, but 0.2 when the setting is left out, for
  a zero is capped before it becomes the default. Without turn detection nothing is held back
  (\<open>unheld_without_turn\<close>).\<close>

theorem quiet_caller_unheard:
  assumes "TurnEnabled c" "energy_vad silero c"
    "list_all (\<lambda>w. calculateVolume w < least_volume c) (windows 320 (concat (map event_audio es)))"
  shows "list_all no_audio (snd (run (call_step tr chat spk) (buildPipeline silero c opens stt llm tts ids) es))"
proof -
  let ?d = "build_detector silero c" and ?c = "buildPipeline silero c opens stt llm tts ids"
  have q: "vstate (Analyze ?d x) = StateQuiet" if x: "concat (map event_audio es) = x @ y" for x y
  proof -
    obtain ws where "windows 320 (x @ y) = windows 320 x @ ws" using windows_prefix by blast
    then have l: "list_all (\<lambda>w. calculateVolume w < least_volume c) (windows 320 x)" using assms(3) x by simp
    have "0 < least_volume c" by (simp add: least_volume_def)
    with judge_quiet [OF l] Analyze_detector [OF assms(2), of x] show ?thesis
      by (auto simp: detector [OF assms(2)])
  qed
  obtain r where "Analyze ?d [] = ?d\<lparr>vbuf := r\<rparr>" "r = []"
    by (simp add: Analyze_def detector [OF assms(2)] consume_windows.simps)
  then have "Analyze ?d [] = ?d" using detector(6) [OF assms(2)] by simp
  then have "front_ok ?d [] (cl_det ?c, cl_turn ?c)"
    using assms(1) by (auto simp: front_ok_def buildPipeline_def at_rest_def NewTurnProcessorWithUserTurn_def
        build_turn_analyzer_def TurnSetSampleRate_def NewSilenceTurnAnalyzer_def UpdateVADStartSecs_def
        NewUserTurnController_def Let_def)
  then show ?thesis using q by (intro call_quiet [of "[]"]) auto
qed

text \<open>A tone: samples of one value, whose volume is its amplitude.\<close>

definition tone :: "nat \<Rightarrow> i16 \<Rightarrow> byte list" where
  "tone n s = bytes_of_samples (replicate n s)"

lemma tone_volume: "0 < n \<Longrightarrow> calculateVolume (tone n s) = \<bar>real_of_int (sint s)\<bar> / 32768"
proof -
  assume n: "0 < n"
  have "sum_squares (tone n s) = real n * (real_of_int (sint s) / 32768)\<^sup>2"
    by (simp add: sum_squares_def tone_def sum_list_replicate)
  then have r: "rms (tone n s) = \<bar>real_of_int (sint s)\<bar> / 32768"
    using n by (simp add: rms_def tone_def PCM16MonoNumFrames_def)
  have "calculateVolume (tone n s) = rms (tone n s)"
    using n rms_nonneg [of "tone n s"] rms_le_1 [of "tone n s"]
    by (simp add: calculateVolume_def tone_def PCM16MonoNumFrames_def)
  with r show ?thesis by simp
qed

lemma windows_tone: "windows 320 (tone 160 s) = [tone 160 s]"
  by (simp add: windows_def tone_def)

definition talk :: "byte list \<Rightarrow> call_event" where
  "talk b = Incoming 0 None (Frame (NewBaseWithID 1) (AudioRawFrame (audio_of b 16000 1 0)))"

lemma event_audio_talk [simp]: "event_audio (talk b) = b"
  by (simp add: talk_def event_audio_def audio_of_def)

definition turn_config :: config where
  "turn_config = zero_config\<lparr>cf_TurnDetection := ''silence''\<rparr>"

lemma turn_config_simps [simp]:
  "TurnEnabled turn_config" "energy_vad silero turn_config" "least_volume turn_config = 1/5"
  by (simp_all add: turn_config_def TurnEnabled_def energy_vad_def VADBackendOrDefault_def least_volume_def
      zero_config_def)

text \<open>A tone of 18 percent of the full amplitude is not heard.\<close>

lemma quiet_caller_unheard_witness:
  "list_all no_audio (snd (run (call_step (\<lambda>v _ _ _. (Inr [], v)) (\<lambda>v m. (([], None), v)) (\<lambda>v _ _. (Inr [], v)))
     (buildPipeline (\<lambda>_. None) turn_config False () () () 0) [talk (tone 160 6000)]))"
  by (rule quiet_caller_unheard) (simp_all add: windows_tone tone_volume)

section \<open>A steady voice\<close>

text \<open>How many loud windows are still needed.\<close>

definition need :: "analyzer \<Rightarrow> nat" where
  "need a =
     (case vstate a of
        StateSpeaking \<Rightarrow> 0
      | StateStarting \<Rightarrow> nat (max 1 (startFrames a - startingCount a))
      | StateStopping \<Rightarrow> 1
      | StateQuiet \<Rightarrow> nat (max 1 (startFrames a)))"

lemma need_loud: "0 < startFrames a \<Longrightarrow> need (vad_window True a) \<le> need a - 1"
  by (cases "vstate a") (auto simp: need_def vad_window_simps)

lemma need_zero: "need a = 0 \<longleftrightarrow> vstate a = StateSpeaking"
  by (auto simp: need_def split: vad_state.split)

lemma counting: "0 \<le> startingCount a \<Longrightarrow> 0 \<le> startingCount (vad_window s a)"
  by (cases "vstate a") (auto simp: vad_window_simps)

definition steady :: "real \<Rightarrow> vad_params \<Rightarrow> bool" where
  "steady v p \<longleftrightarrow> 2 * MinVolume p \<le> v \<and> Confidence p * Threshold p \<le> v \<and> Confidence p \<le> 1 \<and>
     0 < Threshold p \<and> 0 < v"

lemma steady_window:
  assumes "steady v (params a)" "v \<le> calculateVolume w" "3 / 8 * v \<le> prevVolume a"
  shows "loud (measure_window (energy_backend (Threshold (params a))) w a)"
proof -
  let ?t = "Threshold (params a)"
  have w: "\<not> length w < 2" "length (samples_of w) \<noteq> 0" "calculateVolume w = rms w"
    using assms(1,2) rms_nonneg [of w] rms_le_1 [of w]
    by (auto simp: calculateVolume_def steady_def split: if_splits)
  have "0 \<le> rms w / ?t" using assms(1) rms_nonneg [of w] by (simp add: steady_def)
  with w have e: "energy_confidence ?t w r = Inr (if rms w / ?t > 1 then 1 else rms w / ?t)" for r
    using assms(1) by (simp add: energy_confidence_def steady_def Let_def not_less)
  have "Confidence (params a) \<le> rms w / ?t" "Confidence (params a) \<le> 1"
    using assms(1,2) w(3) by (simp_all add: steady_def pos_le_divide_eq)
  then have "Confidence (params a) \<le> (if rms w / ?t > 1 then 1 else rms w / ?t)" by simp
  moreover have "MinVolume (params a) \<le> 4 / 5 * prevVolume a + 1 / 5 * calculateVolume w"
    using assms by (simp add: steady_def)
  ultimately show ?thesis
    by (simp add: loud_def measure_window_def Let_def expSmoothing_def energy_backend_def e field_simps)
qed

lemma steady_judged:
  assumes "steady v (params a)" "list_all (\<lambda>w. v \<le> calculateVolume w) ws" "3 / 8 * v \<le> prevVolume a"
    "0 < startFrames a" "need a \<le> length ws"
  shows "vstate (judge (energy_backend (Threshold (params a))) a ws) = StateSpeaking"
  using assms
proof (induction ws arbitrary: a)
  case Nil
  then show ?case by (simp add: need_zero)
next
  case (Cons w ws)
  let ?b = "energy_backend (Threshold (params a))"
  let ?m = "measure_window ?b w a"
  have p: "process_window ?b w a = vad_window True ?m"
    using steady_window [OF Cons.prems(1) _ Cons.prems(3), of w] Cons.prems(2)
    by (simp add: process_window_def Let_def)
  note c = config_fields [OF process_window_config [of ?b w a]]
  have "need ?m = need a" by (cases "vstate a") (simp_all add: need_def)
  then have "need (process_window ?b w a) \<le> length ws"
    using need_loud [of ?m] Cons.prems(4,5) unfolding p by simp
  moreover have "3 / 8 * v \<le> prevVolume (process_window ?b w a)"
    using Cons.prems(1-3) by (simp add: smoothed steady_def)
  ultimately have "vstate (judge (energy_backend (Threshold (params (process_window ?b w a)))) (process_window ?b w a) ws) =
      StateSpeaking"
    using Cons.prems c by (intro Cons.IH) simp_all
  then show ?case using c by simp
qed

lemma counting_judge: "0 \<le> startingCount a \<Longrightarrow> 0 \<le> startingCount (judge b a ws)"
proof (induction ws arbitrary: a)
  case (Cons w ws)
  then show ?case using counting [of "measure_window b w a"] by (simp add: process_window_def Let_def)
qed simp

lemma need_bound: "0 \<le> startingCount a \<Longrightarrow> 0 < startFrames a \<Longrightarrow> need a \<le> nat (startFrames a)"
  by (auto simp: need_def split: vad_state.split)

lemma steady_heard:
  assumes "steady v (params a)" "list_all (\<lambda>w. v \<le> calculateVolume w) ws" "prevVolume a = 0"
    "0 < startFrames a" "startingCount a = 0" "3 + nat (startFrames a) \<le> length ws"
  shows "vstate (judge (energy_backend (Threshold (params a))) a ws) = StateSpeaking"
proof -
  obtain x y z r where ws: "ws = x # y # z # r"
    using assms(6) by (cases ws; cases "tl ws"; cases "tl (tl ws)") auto
  let ?b = "energy_backend (Threshold (params a))"
  let ?a = "judge ?b a [x, y, z]"
  note c = config_fields [OF judge_config [of ?b a "[x, y, z]"]]
  have "3 / 8 * v \<le> prevVolume ?a"
  proof -
    have "v \<le> calculateVolume x" "v \<le> calculateVolume y" "v \<le> calculateVolume z" "0 < v"
      using assms(1,2) by (simp_all add: ws steady_def)
    then have "3 / 8 * v \<le> 16 / 125 * calculateVolume x + 4 / 25 * calculateVolume y + 1 / 5 * calculateVolume z"
      by linarith
    also have "\<dots> = prevVolume ?a" unfolding judge_simps smoothed assms(3) by (simp add: field_simps)
    finally show ?thesis .
  qed
  moreover have "need ?a \<le> length r"
    using need_bound [of ?a] counting_judge [of a ?b "[x, y, z]"] c assms(4-6) by (simp add: ws)
  ultimately have "vstate (judge (energy_backend (Threshold (params ?a))) ?a r) = StateSpeaking"
    using assms c by (intro steady_judged [of v]) (simp_all add: ws)
  then show ?thesis using c by (simp add: ws)
qed

text \<open>The controller's view of the user is the detector's verdict, and once the user is taken to speak this
  has been announced.\<close>

definition announced :: "frame list \<Rightarrow> bool" where
  "announced fs \<longleftrightarrow> (\<exists>f \<in> set fs. fbody f = UserStartedSpeakingFrame)"

definition live_ok :: "analyzer \<Rightarrow> byte list \<Rightarrow> analyzer \<times> turn_proc option \<Rightarrow> bool" where
  "live_ok d h s \<longleftrightarrow> fst s = Analyze d h \<and> (\<exists>p. snd s = Some p \<and> can_push (tp_ctl p) \<and>
     user_speaking (tp_ctl p) = (vstate (Analyze d h) = StateSpeaking))"

definition speaking_front :: "analyzer \<times> turn_proc option \<Rightarrow> bool" where
  "speaking_front s = (case snd s of None \<Rightarrow> False | Some p \<Rightarrow> user_speaking (tp_ctl p))"

lemma live_speaking: "live_ok d h s \<Longrightarrow> vstate (Analyze d h) = StateSpeaking \<Longrightarrow> speaking_front s"
  by (auto simp: live_ok_def speaking_front_def)

lemma vad_update_view:
  "can_push c \<Longrightarrow> ProcessVADUpdate (\<lambda>_. None) c sp = (c', fs, e) \<Longrightarrow>
     can_push c' \<and> user_speaking c' = sp \<and> (sp \<longrightarrow> user_speaking c \<or> announced fs)"
  by (auto simp: turn_defs announced_def case_prod_beta Let_def split: if_splits)

lemma chunk_view:
  assumes "can_push (tp_ctl p)" "te_speech env = Inr sp"
  shows "can_push (tp_ctl (fst (process_chunk quiet_replies env p b))) \<and>
    user_speaking (tp_ctl (fst (process_chunk quiet_replies env p b))) = sp \<and>
    (sp \<longrightarrow> user_speaking (tp_ctl p) \<or> announced (map snd (fst (snd (process_chunk quiet_replies env p b)))))"
proof -
  obtain c' fs e where v: "ProcessVADUpdate (\<lambda>_. None) (tp_ctl p) sp = (c', fs, e)" by (metis prod_cases3)
  obtain an st where a: "AppendAudio (tp_analyzer p) (te_now env) b sp = (an, st)" by fastforce
  let ?r = "process_chunk quiet_replies env p b"
  note defs = process_chunk_def assms(2) quiet_replies_def v a Let_def complete_turn_def case_prod_beta
  have "can_push (tp_ctl (fst ?r)) = can_push c'" "user_speaking (tp_ctl (fst ?r)) = user_speaking c'"
    by (simp_all add: defs)
  moreover have "announced fs \<Longrightarrow> announced (map snd (fst (snd ?r)))"
    by (simp add: defs announced_def image_image)
  ultimately show ?thesis using vad_update_view [OF assms(1) v] by blast
qed

lemma timers_view:
  "can_push (fst (stop_timer_fires r c)) = can_push c" "can_push (fst (idle_timer_fires r c)) = can_push c"
  by (simp_all add: turn_defs case_prod_beta Let_def)

lemma front_view:
  assumes "live_ok d h s"
  shows "live_ok d (h @ event_audio e) (fst (front_step s e)) \<and>
    (speaking_front (fst (front_step s e)) \<longrightarrow> speaking_front s \<or> announced (snd (front_step s e)))"
proof -
  obtain p where s: "s = (Analyze d h, Some p)" "can_push (tp_ctl p)"
      "user_speaking (tp_ctl p) = (vstate (Analyze d h) = StateSpeaking)"
    using assms by (cases s) (auto simp: live_ok_def)
  show ?thesis
  proof (cases e)
    case (Incoming now poll f)
    show ?thesis
    proof (cases "\<exists>a. fbody f = AudioRawFrame a \<and> audio a \<noteq> []")
      case True
      then obtain a where a: "fbody f = AudioRawFrame a" "audio a \<noteq> []" by blast
      define sp where "sp = (vstate (Analyze d (h @ audio a)) = StateSpeaking)"
      define env where "env = \<lparr>te_now = now, te_speech = Inr sp, te_poll = poll\<rparr>"
      obtain p' ps er where pc: "process_chunk quiet_replies env p (audio a) = (p', ps, er)" by (metis prod_cases3)
      have "hear (Analyze d h) f = (Analyze d (h @ audio a), sp)"
        using a by (simp add: hear_def IsSpeech_def analyze_chunking Let_def sp_def)
      then have f: "front_step s e = ((Analyze d (h @ audio a), Some p'), map snd ps)"
        using a pc by (simp add: front_step_def s(1) Incoming TurnProcessFrame_def env_def)
      have "can_push (tp_ctl p')" "user_speaking (tp_ctl p') = sp"
        "sp \<longrightarrow> user_speaking (tp_ctl p) \<or> announced (map snd ps)"
        using chunk_view [OF s(2), of env sp "audio a"] by (simp_all add: pc) (simp_all add: env_def)
      then show ?thesis unfolding f using a
        by (auto simp: live_ok_def speaking_front_def s(1) event_audio_def Incoming sp_def)
    next
      case False
      then have h: "hear (Analyze d h) f = (Analyze d h, False)" "event_audio e = []"
        by (auto simp: hear_def event_audio_def Incoming split: body.split)
      have "tp_ctl (fst (TurnProcessFrame quiet_replies p (env, f) Downstream)) = tp_ctl p" for env
        using False by (cases "fbody f") (simp_all add: TurnProcessFrame_def apply_vad_params_def Let_def)
      then show ?thesis using s h
        by (simp add: front_step_def Incoming live_ok_def speaking_front_def case_prod_beta Let_def)
    qed
  qed (use s timers_rest timers_view in \<open>auto simp: front_step_def live_ok_def speaking_front_def event_audio_def
      case_prod_beta Let_def\<close>)
qed

lemma call_view:
  assumes "live_ok d h (cl_det c, cl_turn c)"
  shows "let c' = fst (run (call_step tr chat spk) c es) in
    live_ok d (h @ concat (map event_audio es)) (cl_det c', cl_turn c') \<and>
    (speaking_front (cl_det c', cl_turn c') \<longrightarrow> speaking_front (cl_det c, cl_turn c) \<or>
       (\<exists>f. ToLine f \<in> set (snd (run (call_step tr chat spk) c es)) \<and> fbody f = UserStartedSpeakingFrame))"
  using assms
proof (induction es arbitrary: c h)
  case (Cons e es)
  let ?c = "fst (call_step tr chat spk c e)"
  note v = front_view [OF Cons.prems, of e, folded call_step_outputs(2) [of tr chat spk]]
  have "announced (snd (front_step (cl_det c, cl_turn c) e)) \<Longrightarrow>
      \<exists>f. ToLine f \<in> set (snd (call_step tr chat spk c e)) \<and> fbody f = UserStartedSpeakingFrame"
    by (auto simp: call_step_outputs announced_def)
  with Cons.IH [OF conjunct1 [OF v]] v show ?case by (auto simp: Let_def simp del: run.simps(2))
qed simp


lemma params_kept [simp]: "params (VadSetSampleRate a r) = params a"
  by (simp add: VadSetSampleRate_def recompute_def Let_def split: option.split)

lemma normalize_idem [simp]: "normalize_params (normalize_params q) = normalize_params q"
  by (simp add: normalize_params_def)

lemma detector_params:
  "energy_vad silero c \<Longrightarrow> params (build_detector silero c) = normalize_params (energy_params c)"
proof -
  assume "energy_vad silero c"
  then have "build_detector silero c = VadSetSampleRate (NewEnergyDetectorWithParams (energy_params c)) 16000"
    by (auto simp: build_detector_def energy_vad_def)
  then show ?thesis
    by (simp add: NewEnergyDetectorWithParams_def NewEnergyAnalyzer_def Let_def)
qed

lemma turn_config_params:
  "params (build_detector silero turn_config) =
     \<lparr>Confidence = 7/10, StartSecs = 1/5, StopSecs = 1/5, MinVolume = 1/5, Threshold = 1/50\<rparr>"
  unfolding detector_params [OF turn_config_simps(2)]
  by (simp add: normalize_params_def energy_params_def VADParams_def turn_config_def zero_config_def of_rat_divide)

lemma windows_tones: "windows 320 (concat (replicate k (tone 160 s))) = replicate k (tone 160 s)"
proof (induction k)
  case (Suc k)
  have l: "length (tone 160 s) = 320" by (simp add: tone_def)
  then show ?case using Suc by (simp add: windows_step)
qed simp


section \<open>What is recorded\<close>

text \<open>The frames that enter the line, and the mixed recordings, which are what the session saves; nobody
  listens to the two tracks on their own.\<close>

definition lined :: "call_output list \<Rightarrow> frame list" where
  "lined out = concat (map (\<lambda>x. case x of ToLine f \<Rightarrow> [f] | _ \<Rightarrow> []) out)"

definition mixes :: "recording list \<Rightarrow> byte list list" where
  "mixes rs = concat (map (\<lambda>r. case r of AudioData m _ _ \<Rightarrow> [m] | _ \<Rightarrow> []) rs)"

definition saved_mixes :: "call_output list \<Rightarrow> byte list list" where
  "saved_mixes out = mixes (concat (map (\<lambda>x. case x of Recorded r \<Rightarrow> [r] | _ \<Rightarrow> []) out))"

lemma outputs_split [simp]:
  "lined (xs @ ys) = lined xs @ lined ys" "saved_mixes (xs @ ys) = saved_mixes xs @ saved_mixes ys" "mixes (rs @ rs') = mixes rs @ mixes rs'"
  "lined (map ToLine fs) = fs" "saved_mixes (map ToLine fs) = []" "lined (map Recorded rs) = []"
  "saved_mixes (map Recorded rs) = mixes rs" "lined (map ToClient fs) = []" "saved_mixes (map ToClient fs) = []" "mixes [] = []"
  "lined [] = []" "saved_mixes [] = []"
  by (simp_all add: lined_def saved_mixes_def mixes_def o_def)

text \<open>Without turn detection every frame of the transport enters the line at once.\<close>

lemma unheld_without_turn:
  "\<not> TurnEnabled c \<Longrightarrow>
     lined (snd (run (call_step tr chat spk) (buildPipeline silero c opens stt llm tts ids) es)) =
       concat (map (\<lambda>e. case e of Incoming now poll f \<Rightarrow> [f] | _ \<Rightarrow> []) es)"
proof -
  have "cl_turn cl = None \<Longrightarrow> lined (snd (run (call_step tr chat spk) cl es)) =
      concat (map (\<lambda>e. case e of Incoming now poll f \<Rightarrow> [f] | _ \<Rightarrow> []) es)" for cl
  proof (induction es arbitrary: cl)
    case (Cons e es)
    let ?cl = "fst (call_step tr chat spk cl e)"
    have "front_step (cl_det cl, cl_turn cl) e =
        ((cl_det cl, None), case e of Incoming now poll f \<Rightarrow> [f] | _ \<Rightarrow> [])"
      using Cons.prems by (cases e) (simp_all add: front_step_def)
    then have "cl_turn ?cl = None" "lined (snd (call_step tr chat spk cl e)) = (case e of Incoming now poll f \<Rightarrow> [f] | _ \<Rightarrow> [])"
      using call_step_outputs(2) [of tr chat spk cl e] by (simp_all add: call_step_outputs(1))
    with Cons.IH [of ?cl] show ?case by (simp add: case_prod_beta Let_def)
  qed simp
  moreover assume "\<not> TurnEnabled c"
  ultimately show ?thesis by (simp add: buildPipeline_def)
qed

text \<open>What the user said, at the rate of the recording: the audio of the user's frames, resampled. The
  recording has its rate, 16000, from the start frame on; \<open>r\<close> is the rate it has before.\<close>

fun user_track :: "int \<Rightarrow> frame list \<Rightarrow> byte list" where
  "user_track r [] = []"
| "user_track r (f # fs) =
     (case fbody f of
        StartFrame _ _ _ _ _ \<Rightarrow> user_track 16000 fs
      | AudioRawFrame a \<Rightarrow>
          (if audio a = [] then []
           else Resample16MonoAlloc (audio a) (if sample_rate a \<le> 0 then 16000 else sample_rate a) r) @ user_track r fs
      | _ \<Rightarrow> user_track r fs)"

definition is_start :: "frame \<Rightarrow> bool" where
  "is_start f = (case fbody f of StartFrame _ _ _ _ _ \<Rightarrow> True | _ \<Rightarrow> False)"

definition track_rate :: "int \<Rightarrow> frame list \<Rightarrow> int" where
  "track_rate r fs = (if list_ex is_start fs then 16000 else r)"

lemma user_track_append: "user_track r (xs @ ys) = user_track r xs @ user_track (track_rate r xs) ys"
proof (induction xs arbitrary: r)
  case (Cons f xs)
  then show ?case by (cases "fbody f") (simp_all add: track_rate_def is_start_def)
qed (simp add: track_rate_def)

text \<open>The samples of \<open>m\<close> are those of \<open>u\<close>, divided by two.\<close>

definition halved :: "byte list \<Rightarrow> byte list \<Rightarrow> bool" where
  "halved u m \<longleftrightarrow> length m = length u \<and> (\<forall>i < length u div 2. sample_at m i = sample_at u i sdiv 2)"

lemma sample_at_silence [simp]: "sample_at (replicate n 0) i = 0"
proof (induction i arbitrary: n)
  case 0
  show ?case by (cases n; cases "n - 1") (auto simp: sample_at_def PCM16MonoNumFrames_def le16_def)
qed (simp add: sample_at_Suc)

lemma mixed_with_silence [simp]: "halved u (MixMono u (replicate (length u) 0))"
  using MixMono_sample_at [of _ u "replicate (length u) 0"] by (simp add: halved_def length_MixMono)

definition bot_audio :: "frame \<Rightarrow> bool" where
  "bot_audio f = (case fbody f of TTSAudioRawFrame a b \<Rightarrow> True | OutputAudioRawFrame a b \<Rightarrow> True | _ \<Rightarrow> False)"

definition mono_ok :: "audio_buffer \<Rightarrow> bool" where
  "mono_ok p \<longleftrightarrow> ab_channels p = 1 \<and> \<not> ab_turns p \<and> set (ab_bot p) \<subseteq> {0} \<and>
     length (ab_bot p) \<le> length (ab_user p)"

lemma zeros: "set b \<subseteq> {0} \<Longrightarrow> b = replicate (length b) 0"
  by (rule replicate_eqI) auto

lemma set_sync_to: "set (sync_to b n) \<subseteq> insert 0 (set b)"
  by (auto simp: sync_to_def)

lemma sync_long [simp]: "n \<le> length b \<Longrightarrow> sync_to b n = b"
  by (simp add: sync_to_def)

text \<open>Whenever the buffer is emptied, what was in the user's track goes out halved.\<close>

lemma handlers_mono:
  assumes "mono_ok p" "callAudioDataHandlers p = (p', rs)"
  shows "mono_ok p' \<and> ab_rate p' = ab_rate p \<and> ab_rate_cfg p' = ab_rate_cfg p \<and> ab_recording p' = ab_recording p \<and>
    (\<exists>us. list_all2 halved us (mixes rs) \<and> concat us @ ab_user p' = ab_user p)"
proof (cases "\<not> ab_recording p \<or> (ab_user p = [] \<and> ab_bot p = [])")
  case True
  then show ?thesis using assms by (auto simp: callAudioDataHandlers_def)
next
  case False
  let ?b = "sync_to (ab_bot p) (length (ab_user p))"
  have a: "alignTrackBuffers p = p\<lparr>ab_user := ab_user p, ab_bot := ?b\<rparr>"
    using assms(1) by (simp add: alignTrackBuffers_def mono_ok_def Let_def max_def)
  have "set ?b \<subseteq> {0}" using assms(1) set_sync_to [of "ab_bot p" "length (ab_user p)"] by (auto simp: mono_ok_def)
  moreover have "length ?b = length (ab_user p)" using assms(1) by (simp add: mono_ok_def max_def)
  ultimately have z: "?b = replicate (length (ab_user p)) 0" using zeros [of ?b] by simp
  have u: "ab_user p \<noteq> []" using False assms(1) by (auto simp: mono_ok_def)
  then have "length (MixMono (ab_user p) (replicate (length (ab_user p)) 0)) \<noteq> 0" by (simp add: length_MixMono)
  then have m: "MixMono (ab_user p) (replicate (length (ab_user p)) 0) \<noteq> []" by fastforce
  have "mixes rs = [MixMono (ab_user p) (replicate (length (ab_user p)) 0)]" "ab_user p' = []" "mono_ok p'"
    "ab_rate p' = ab_rate p" "ab_rate_cfg p' = ab_rate_cfg p" "ab_recording p' = ab_recording p"
    using assms m False unfolding callAudioDataHandlers_def if_not_P [OF False] a z Let_def
    by (auto simp: mono_ok_def mergeBuffers_def mixes_def)
  then show ?thesis by (intro conjI exI [of _ "[ab_user p]"]) simp_all
qed

text \<open>\<open>hs\<close> are the frames recorded so far, and \<open>us\<close> what went out of the user's track.\<close>

definition track_inv :: "frame list \<Rightarrow> byte list list \<Rightarrow> audio_buffer \<Rightarrow> bool" where
  "track_inv hs us p \<longleftrightarrow> mono_ok p \<and> ab_rate_cfg p = 16000 \<and> ab_rate p = track_rate 0 hs \<and>
     (if ab_recording p then concat us @ ab_user p = user_track 0 hs else prefix (concat us) (user_track 0 hs))"

lemma flush_rec:
  assumes "track_inv hs us p" "flush_if_full p = (p', rs)"
  shows "\<exists>us'. list_all2 halved us' (mixes rs) \<and> track_inv hs (us @ us') p'"
proof (cases "flush_if_full p = callAudioDataHandlers p")
  case True
  then obtain us' where "mono_ok p'" "ab_rate p' = ab_rate p" "ab_rate_cfg p' = ab_rate_cfg p" "ab_recording p' = ab_recording p"
    "list_all2 halved us' (mixes rs)" "concat us' @ ab_user p' = ab_user p"
    using handlers_mono [of p p' rs] assms by (auto simp: track_inv_def)
  moreover from this have "\<not> ab_recording p \<Longrightarrow> rs = []"
    using True assms(2) by (auto simp: callAudioDataHandlers_def)
  ultimately show ?thesis using assms(1)
    by (cases "ab_recording p") (auto simp: track_inv_def intro!: exI [of _ us'])
next
  case False
  then have "p' = p" "rs = []" using assms(2) by (auto simp: flush_if_full_def split: if_splits)
  with assms(1) show ?thesis by (intro exI [of _ "[]"]) simp
qed

lemma stop_rec:
  assumes "track_inv hs us p" "StopRecording p = (p', rs)"
  shows "\<exists>us'. list_all2 halved us' (mixes rs) \<and> track_inv hs (us @ us') p' \<and> \<not> ab_recording p'"
proof (cases "ab_recording p")
  case True
  obtain q where q: "callAudioDataHandlers p = (q, rs)" "p' = clear_buffers (q\<lparr>ab_recording := False\<rparr>)"
    using assms(2) True by (auto simp: StopRecording_def split: prod.splits)
  obtain us' where u: "mono_ok q" "ab_rate q = ab_rate p" "ab_rate_cfg q = ab_rate_cfg p"
    "list_all2 halved us' (mixes rs)" "concat us' @ ab_user q = ab_user p"
    using handlers_mono [OF _ q(1)] assms(1) by (auto simp: track_inv_def)
  have "concat us @ concat us' @ ab_user q = user_track 0 hs" using assms(1) True u(5) by (simp add: track_inv_def)
  then have "prefix (concat (us @ us')) (user_track 0 hs)" by (metis append.assoc concat_append prefixI)
  with u assms(1) show ?thesis
    by (intro exI [of _ us']) (simp add: q(2) track_inv_def clear_buffers_def mono_ok_def)
next
  case False
  then show ?thesis using assms by (intro exI [of _ "[]"]) (simp add: StopRecording_def)
qed

lemma prefix_track: "prefix x (user_track r hs) \<Longrightarrow> prefix x (user_track r (hs @ fs))"
  by (simp add: user_track_append prefix_prefix)

text \<open>What the first switch does.\<close>

lemma before_rec:
  assumes "track_inv hs us p" "before_forward p f = (p', rs)"
  shows "\<exists>us'. list_all2 halved us' (mixes rs) \<and> mono_ok p' \<and> ab_rate_cfg p' = 16000 \<and> ab_rate p' = track_rate 0 (hs @ [f]) \<and>
    (if ab_recording p' then concat (us @ us') @ ab_user p' = user_track 0 hs
     else prefix (concat (us @ us')) (user_track 0 hs)) \<and>
    (ab_recording p' \<longrightarrow> rs = [] \<and> us' = [])"
proof -
  have r: "track_rate 0 (hs @ [f]) = (if is_start f then 16000 else track_rate 0 hs)" by (auto simp: track_rate_def)
  have "ab_rate_cfg p = 16000" using assms(1) by (simp add: track_inv_def)
  then consider (stop) "StopRecording p = (p', rs)" "\<not> is_start f" | (same) "p' = p" "rs = []" "\<not> is_start f"
    | (start) "p' = p\<lparr>ab_rate := 16000, ab_1s := 32000\<rparr>" "rs = []" "is_start f"
    using assms(2) by (cases "fbody f") (simp_all add: before_forward_def is_start_def)
  then show ?thesis
  proof cases
    case stop
    then show ?thesis using stop_rec [OF assms(1) stop(1)] by (auto simp: track_inv_def r)
  next
    case same
    then show ?thesis using assms(1) by (intro exI [of _ "[]"]) (simp add: track_inv_def r)
  next
    case start
    then show ?thesis using assms(1) by (intro exI [of _ "[]"]) (simp add: track_inv_def r mono_ok_def)
  qed
qed

lemma user_rec:
  assumes "mono_ok p" "user_audio p a = Some q"
  shows "mono_ok q \<and> ab_rate q = ab_rate p \<and> ab_rate_cfg q = ab_rate_cfg p \<and> ab_recording q = ab_recording p \<and> audio a \<noteq> [] \<and>
    ab_user q = ab_user p @ Resample16MonoAlloc (audio a) (if sample_rate a \<le> 0 then 16000 else sample_rate a) (ab_rate p)"
  using assms set_sync_to [of "ab_bot p" "length (ab_user p)"]
  by (auto simp: user_audio_def mono_ok_def Let_def split: if_splits)

lemma record_rec:
  assumes "mono_ok p" "\<not> bot_audio f" "record_frame p f = Some (q, rs)"
  shows "mono_ok q \<and> ab_rate q = ab_rate p \<and> ab_rate_cfg q = ab_rate_cfg p \<and> ab_recording q = ab_recording p \<and> mixes rs = [] \<and>
    ab_user q = ab_user p @ user_track (ab_rate p) [f]"
proof (cases "\<exists>a. fbody f = AudioRawFrame a")
  case True
  then obtain a where a: "fbody f = AudioRawFrame a" by blast
  then have "user_audio p a = Some q" "rs = []" using assms(3) by (auto simp: record_frame_def)
  with user_rec [OF assms(1) this(1)] show ?thesis by (simp add: a)
next
  case False
  then show ?thesis using assms
    by (cases "fbody f") (auto simp: record_frame_def bot_audio_def mono_ok_def mixes_def)
qed

lemma unrecorded:
  "\<not> bot_audio f \<Longrightarrow> record_frame p f = None \<Longrightarrow> user_track (ab_rate p) [f] = []"
  by (cases "fbody f") (auto simp: record_frame_def user_audio_def Let_def split: if_splits)

definition rec_ok :: "frame list \<Rightarrow> byte list list \<Rightarrow> audio_buffer option \<Rightarrow> bool" where
  "rec_ok hs us r = (case r of None \<Rightarrow> us = [] | Some p \<Rightarrow> track_inv hs us p)"

lemma record_step_rec:
  assumes "rec_ok hs us r" "\<not> bot_audio f"
  shows "\<exists>us'. list_all2 halved us' (mixes (snd (record_step r f))) \<and> rec_ok (hs @ [f]) (us @ us') (fst (record_step r f))"
proof (cases r)
  case (Some p)
  obtain p1 r1 where b: "before_forward p f = (p1, r1)" by fastforce
  obtain us1 where u: "list_all2 halved us1 (mixes r1)" "mono_ok p1" "ab_rate_cfg p1 = 16000" "ab_rate p1 = track_rate 0 (hs @ [f])"
    "if ab_recording p1 then concat (us @ us1) @ ab_user p1 = user_track 0 hs else prefix (concat (us @ us1)) (user_track 0 hs)"
    "ab_recording p1 \<longrightarrow> r1 = [] \<and> us1 = []"
    using before_rec [OF _ b, of hs us] assms(1) Some by (auto simp: rec_ok_def)
  have t: "user_track 0 (hs @ [f]) = user_track 0 hs @ user_track (track_rate 0 (hs @ [f])) [f]"
    by (cases "fbody f") (simp_all add: user_track_append track_rate_def is_start_def)
  show ?thesis
  proof (cases "\<not> ab_recording p1 \<or> record_frame p1 f = None")
    case True
    then have "record_step r f = (Some p1, r1)"
      by (auto simp: record_step_def Some AudioBufferProcessFrame_def b quiet_replies_def)
    moreover have "track_inv (hs @ [f]) (us @ us1) p1"
      using u True unrecorded [OF assms(2), of p1] prefix_track [of _ 0 hs "[f]"] t
      by (auto simp: track_inv_def split: if_splits)
    ultimately show ?thesis using u(1) by (intro exI [of _ us1]) (simp add: rec_ok_def)
  next
    case False
    then obtain q rs where q: "record_frame p1 f = Some (q, rs)" by (cases "record_frame p1 f") auto
    obtain p3 r3 where f3: "flush_if_full q = (p3, r3)" by fastforce
    note m = record_rec [OF u(2) assms(2) q]
    have "track_inv (hs @ [f]) us q" using False m u(3,4,5,6) t by (auto simp: track_inv_def)
    from flush_rec [OF this f3] obtain us3 where
      "list_all2 halved us3 (mixes r3)" "track_inv (hs @ [f]) (us @ us3) p3" by blast
    moreover have "record_step r f = (Some p3, rs @ r3)"
      using False u(6) by (simp add: record_step_def Some AudioBufferProcessFrame_def b q f3 quiet_replies_def)
    ultimately show ?thesis using m by (intro exI [of _ us3]) (simp add: rec_ok_def)
  qed
qed (use assms in \<open>simp add: record_step_def rec_ok_def\<close>)

lemma record_run_rec:
  "rec_ok hs us r \<Longrightarrow> list_all (\<lambda>f. \<not> bot_audio f) fs \<Longrightarrow>
   \<exists>us'. list_all2 halved us' (mixes (snd (run record_step r fs))) \<and> rec_ok (hs @ fs) (us @ us') (fst (run record_step r fs))"
proof (induction fs arbitrary: hs us r)
  case (Cons f fs)
  then obtain u1 where 1: "list_all2 halved u1 (mixes (snd (record_step r f)))"
    "rec_ok (hs @ [f]) (us @ u1) (fst (record_step r f))"
    using record_step_rec by fastforce
  from Cons.IH [OF 1(2)] Cons.prems(2) obtain u2 where
    "list_all2 halved u2 (mixes (snd (run record_step (fst (record_step r f)) fs)))"
    "rec_ok (hs @ f # fs) (us @ u1 @ u2) (fst (run record_step (fst (record_step r f)) fs))" by auto
  with 1(1) show ?case
    by (intro exI [of _ "u1 @ u2"]) (simp add: case_prod_beta Let_def list_all2_appendI)
qed (auto intro!: exI [of _ "[]"])

text \<open>Turn detection makes no audio of the bot.\<close>

definition client_frame :: "call_event \<Rightarrow> bool" where
  "client_frame e = (case e of Incoming now poll f \<Rightarrow> \<not> bot_audio f | _ \<Rightarrow> True)"

lemma controller_frames:
  "list_all (\<lambda>f. \<not> bot_audio f) (fst (snd (ProcessVADUpdate r c sp)))"
  "list_all (\<lambda>f. \<not> bot_audio f) (snd (stop_timer_fires r c))"
  "list_all (\<lambda>f. \<not> bot_audio f) (snd (idle_timer_fires r c))"
  by (auto simp: turn_defs bot_audio_def case_prod_beta Let_def)

lemma chunk_frames: "list_all (\<lambda>g. \<not> bot_audio g) (map snd (fst (snd (process_chunk rsp env p b))))"
proof -
  have "list_all (\<lambda>g. \<not> bot_audio g) (fst (snd (ProcessVADUpdate (rsp Downstream) (tp_ctl p) sp)))" for sp
    by (rule controller_frames)
  then show ?thesis
    by (simp add: process_chunk_def Let_def case_prod_beta complete_turn_def bot_audio_def o_def)
qed

lemma front_frames: "client_frame e \<Longrightarrow> list_all (\<lambda>g. \<not> bot_audio g) (snd (front_step s e))"
proof (cases s)
  case (Pair det turn)
  assume c: "client_frame e"
  show ?thesis
  proof (cases turn)
    case (Some p)
    have "list_all (\<lambda>g. \<not> bot_audio g) (map snd (fst (snd (TurnProcessFrame quiet_replies p (env, f) Downstream))))"
      if "\<not> bot_audio f" for env f
      using that chunk_frames by (cases "fbody f") (simp_all add: TurnProcessFrame_def hand_def)
    then show ?thesis using c controller_frames
      by (cases e) (simp_all add: front_step_def Pair Some client_frame_def case_prod_beta Let_def)
  qed (use c Pair in \<open>cases e; simp add: front_step_def client_frame_def\<close>)
qed

text \<open>C26: The recording of a call never contains the bot: the recording buffer stands before the processor that
  speaks, whose audio only goes on to the client. Whatever the services answer and whichever frames but audio
  of the bot the client sends, no audio of the bot enters the line the buffer is on, and what is saved, one
  recording after the other, is the beginning of the user's own track, at half the amplitude.\<close>

theorem recording_misses_bot:
  assumes "list_all client_frame es"
    "out = snd (run (call_step tr chat spk) (buildPipeline silero c opens stt llm tts ids) es)"
  shows "list_all (\<lambda>f. \<not> bot_audio f) (lined out) \<and>
    (\<exists>us. list_all2 halved us (saved_mixes out) \<and> prefix (concat us) (user_track 0 (lined out)))"
proof -
  have step: "\<exists>us'. list_all2 halved us' (saved_mixes (snd (run (call_step tr chat spk) cl es))) \<and>
      rec_ok (hs @ lined (snd (run (call_step tr chat spk) cl es))) (us @ us') (cl_rec (fst (run (call_step tr chat spk) cl es))) \<and>
      list_all (\<lambda>f. \<not> bot_audio f) (lined (snd (run (call_step tr chat spk) cl es)))"
    if "rec_ok hs us (cl_rec cl)" for hs us cl
    using assms(1) that
  proof (induction es arbitrary: hs us cl)
    case (Cons e es)
    let ?fs = "snd (front_step (cl_det cl, cl_turn cl) e)"
    let ?cl = "fst (call_step tr chat spk cl e)"
    have f: "list_all (\<lambda>g. \<not> bot_audio g) ?fs" using front_frames Cons.prems(1) by simp
    obtain u1 where 1: "list_all2 halved u1 (saved_mixes (snd (call_step tr chat spk cl e)))" "rec_ok (hs @ ?fs) (us @ u1) (cl_rec ?cl)"
      using record_run_rec [OF Cons.prems(2) f] by (auto simp: call_step_outputs)
    have l: "lined (snd (call_step tr chat spk cl e)) = ?fs" by (simp add: call_step_outputs)
    from Cons.IH [OF _ 1(2)] Cons.prems(1) obtain u2 where
      "list_all2 halved u2 (saved_mixes (snd (run (call_step tr chat spk) ?cl es)))"
      "rec_ok (hs @ ?fs @ lined (snd (run (call_step tr chat spk) ?cl es))) (us @ u1 @ u2)
         (cl_rec (fst (run (call_step tr chat spk) ?cl es)))"
      "list_all (\<lambda>f. \<not> bot_audio f) (lined (snd (run (call_step tr chat spk) ?cl es)))" by auto
    with 1(1) f l show ?case
      by (intro exI [of _ "u1 @ u2"]) (simp add: case_prod_beta Let_def list_all2_appendI)
  qed (auto intro!: exI [of _ "[]"])
  have "rec_ok [] [] (cl_rec (buildPipeline silero c opens stt llm tts ids))"
    by (simp add: buildPipeline_def rec_ok_def track_inv_def mono_ok_def StartRecording_def clear_buffers_def
        NewAudioBufferProcessor_def track_rate_def)
  from step [OF this] obtain us where us: "list_all2 halved us (saved_mixes out)" "list_all (\<lambda>f. \<not> bot_audio f) (lined out)"
    "rec_ok (lined out) us (cl_rec (fst (run (call_step tr chat spk) (buildPipeline silero c opens stt llm tts ids) es)))"
    by (auto simp: assms(2))
  have "prefix (concat us) (user_track 0 (lined out))"
    using us(3) by (auto simp: rec_ok_def track_inv_def split: option.splits if_splits) (metis prefixI)
  with us(1,2) show ?thesis by blast
qed

definition recorded_config :: config where
  "recorded_config = zero_config\<lparr>cf_Recording := (cf_Recording zero_config)\<lparr>rc_Enable := True, rc_Bucket := ''b''\<rparr>\<rparr>"

definition conversation :: "frame list" where
  "conversation =
     [fst (NewStartFrame 1), Frame (NewBaseWithID 2) (AudioRawFrame (audio_of [0, 1] 16000 1 0)),
      fst (NewTTSSpeakFrame ''Hi'' 3), Frame (NewBaseWithID 4) EndFrame]"

lemma without_turn:
  assumes "cl_turn c = None"
  shows "Recorded ` set (snd (run record_step (cl_rec c) fs)) \<union>
      ToClient ` set (snd (run (voice_step tr chat spk quiet_replies) (cl_line c) fs)) \<subseteq>
    set (snd (run (call_step tr chat spk) c (map (Incoming 0 None) fs)))"
  using assms
proof (induction fs arbitrary: c)
  case (Cons f fs)
  let ?c = "fst (call_step tr chat spk c (Incoming 0 None f))"
  have f: "front_step (cl_det c, cl_turn c) (Incoming 0 None f) = ((cl_det c, None), [f])"
    using Cons.prems by (simp add: front_step_def)
  have n: "cl_turn ?c = None" "cl_rec ?c = fst (record_step (cl_rec c) f)"
    "cl_line ?c = fst (voice_step tr chat spk quiet_replies (cl_line c) f)"
    "set (snd (call_step tr chat spk c (Incoming 0 None f))) = {ToLine f} \<union>
       Recorded ` set (snd (record_step (cl_rec c) f)) \<union>
       ToClient ` set (snd (voice_step tr chat spk quiet_replies (cl_line c) f))"
    by (auto simp: call_step_def f case_prod_beta Let_def)
  from Cons.IH [OF n(1)] n show ?case by (auto simp del: run.simps(2))
qed simp

text \<open>The user's one sample is 256 and the bot speaks to the client; the sample 128 is saved.\<close>

lemma recording_misses_bot_witness:
  "let out = snd (run (call_step (\<lambda>v _ _ _. (Inr [], v)) (\<lambda>v m. (([], None), v)) beeper)
       (buildPipeline (\<lambda>_. None) recorded_config True () () () 0) (map (Incoming 0 None) conversation))
   in (\<exists>us. list_all2 halved us (saved_mixes out) \<and> prefix (concat us) (user_track 0 (lined out))) \<and>
     (\<exists>f. ToClient f \<in> set out \<and> bot_audio f) \<and> Recorded (AudioData [128, 0] 16000 1) \<in> set out"
proof -
  let ?c = "buildPipeline (\<lambda>_. None) recorded_config True () () () 0"
  let ?tr = "\<lambda>v _ _ _. (Inr [], v)" and ?chat = "\<lambda>v m. (([], None), v)"
  have "list_all client_frame (map (Incoming 0 None) conversation)"
    by (simp add: conversation_def client_frame_def NewStartFrame_def NewTTSSpeakFrame_def bot_audio_def)
  note m = recording_misses_bot [OF this, of _ ?tr ?chat beeper "\<lambda>_. None" recorded_config True "()" "()" "()" 0, OF HOL.refl]
  have c: "cl_turn ?c = None" "cl_rec ?c = Some (StartRecording (NewAudioBufferProcessor 16000 1 3200 False))"
    by (simp_all add: buildPipeline_def recorded_config_def TurnEnabled_def recording_on_def zero_config_def)
  have "list_ex bot_audio (snd (run (voice_step ?tr ?chat beeper quiet_replies) (cl_line ?c) conversation))"
    by (simp add: buildPipeline_def) code_simp
  moreover have "list_ex (\<lambda>r. r = AudioData [128, 0] 16000 1)
      (snd (run record_step (Some (StartRecording (NewAudioBufferProcessor 16000 1 3200 False))) conversation))"
    by code_simp
  ultimately show ?thesis using m without_turn [OF c(1), of conversation ?tr ?chat beeper]
    unfolding c(2) Let_def list_ex_iff by blast
qed

section \<open>The end of the process\<close>

text \<open>When a recorded session ends, its recording is closed and enqueued; \<open>saved\<close> is what closing answers.\<close>

definition recording_key :: "config \<Rightarrow> string \<Rightarrow> nat \<times> nat \<times> nat \<Rightarrow> string" where
  "recording_key c sid t = BuildS3Key (rc_BasePath (cf_Recording c)) sid (rc_Format (cf_Recording c)) t"

definition end_session ::
  "config \<Rightarrow> string \<Rightarrow> err + string \<times> (nat \<times> nat \<times> nat) \<Rightarrow> uploader \<Rightarrow> uploader" where
  "end_session c sid saved u =
     (case saved of
        Inl e \<Rightarrow> u
      | Inr (path, t) \<Rightarrow>
          snd (Enqueue u \<lparr>rj_LocalPath = path, rj_Bucket = rc_Bucket (cf_Recording c), rj_Key = recording_key c sid t\<rparr>))"

definition new_uploader :: "config \<Rightarrow> err option \<Rightarrow> err + uploader option" where
  "new_uploader c aws =
     (if recording_on c
      then (case NewUploader aws (rc_WorkerCount (cf_Recording c))
              (if rc_QueueCap (cf_Recording c) \<le> 0 then 32 else rc_QueueCap (cf_Recording c))
              (rc_MaxRetries (cf_Recording c)) of
          Inl e \<Rightarrow> Inl (''create recording uploader: '' @ e)
        | Inr u \<Rightarrow> Inr (Some u))
      else Inr None)"

text \<open>A process: the uploader, the sessions that are recorded, and whether \<^verbatim>\<open>StartServers\<close> still runs. When it
  returns, which it does as soon as its context is cancelled, the uploader is shut down.\<close>

record process =
  pr_uploader :: uploader
  pr_sessions :: "string list"
  pr_serving :: bool

definition server_returns :: "process \<Rightarrow> process" where
  "server_returns s = s\<lparr>pr_uploader := Shutdown (pr_uploader s), pr_serving := False\<rparr>"

inductive pstep :: "config \<Rightarrow> process \<Rightarrow> process \<Rightarrow> bool" for c where
  session_begins: "pr_serving s \<Longrightarrow> pstep c s (s\<lparr>pr_sessions := pr_sessions s @ [sid]\<rparr>)"
| session_ends: "sid \<in> set (pr_sessions s) \<Longrightarrow>
    pstep c s (s\<lparr>pr_sessions := remove1 sid (pr_sessions s), pr_uploader := end_session c sid saved (pr_uploader s)\<rparr>)"
| worker_moves: "work (pr_uploader s) u \<Longrightarrow> pstep c s (s\<lparr>pr_uploader := u\<rparr>)"
| server_stops: "pr_serving s \<Longrightarrow> pstep c s (server_returns s)"

definition process_start :: "uploader \<Rightarrow> process" where
  "process_start u = \<lparr>pr_uploader = u, pr_sessions = [], pr_serving = True\<rparr>"

lemma work_flags: "work u u' \<Longrightarrow> up_panic u' = up_panic u \<and> up_closed u' = up_closed u"
  by (induction rule: work.induct) simp_all

lemma end_session_open:
  "\<not> up_closed u \<Longrightarrow> up_panic (end_session c sid x u) = up_panic u \<and> \<not> up_closed (end_session c sid x u)"
  by (simp add: end_session_def Enqueue_def split: sum.split prod.split)

definition serving_ok :: "process \<Rightarrow> bool" where
  "serving_ok s \<longleftrightarrow> (pr_serving s \<longrightarrow> \<not> up_panic (pr_uploader s) \<and> \<not> up_closed (pr_uploader s)) \<and>
     (\<not> pr_serving s \<longrightarrow> up_closed (pr_uploader s))"

lemma end_session_closed: "up_closed u \<Longrightarrow> up_closed (end_session c sid x u)"
  by (simp add: end_session_def Enqueue_def split: sum.split prod.split)

lemma pstep_serving [inv_intros]: "pstep c s s' \<Longrightarrow> serving_ok s \<Longrightarrow> serving_ok s'"
  by (induction rule: pstep.induct)
    (auto simp: serving_ok_def server_returns_def Shutdown_def end_session_open end_session_closed dest: work_flags)

lemma psteps_serving: "(pstep c)\<^sup>*\<^sup>* s s' \<Longrightarrow> serving_ok s \<Longrightarrow> serving_ok s'"
  by (induction rule: rtranclp_induct) (auto intro: inv_intros)

lemma pstep_drained: "pstep c s s' \<Longrightarrow> \<not> pr_serving s \<and> pr_sessions s = [] \<and> \<not> up_panic (pr_uploader s) \<Longrightarrow>
    \<not> pr_serving s' \<and> pr_sessions s' = [] \<and> \<not> up_panic (pr_uploader s')"
  by (induction rule: pstep.induct) (auto dest: work_flags)

lemma psteps_drained: "(pstep c)\<^sup>*\<^sup>* s s' \<Longrightarrow>
    \<not> pr_serving s \<and> pr_sessions s = [] \<and> \<not> up_panic (pr_uploader s) \<Longrightarrow> \<not> up_panic (pr_uploader s')"
proof -
  assume "(pstep c)\<^sup>*\<^sup>* s s'" "\<not> pr_serving s \<and> pr_sessions s = [] \<and> \<not> up_panic (pr_uploader s)"
  then have "\<not> pr_serving s' \<and> pr_sessions s' = [] \<and> \<not> up_panic (pr_uploader s')"
    by (induction rule: rtranclp_induct) (blast dest: pstep_drained)+
  then show ?thesis by simp
qed

text \<open>The uploader survives the end of the process exactly if no recorded session is left when the server
  returns. Then nothing that follows panics; otherwise the end of any session that is left, which is what the
  cancelled context brings about, sends on the closed channel and panics, so that the process dies with
  its recordings. Nobody waits for the sessions.\<close>

theorem late_session_panics:
  assumes "new_uploader c None = Inr (Some u)" "(pstep c)\<^sup>*\<^sup>* (process_start u) s" "pr_serving s"
  shows "(pr_sessions s = [] \<longrightarrow> (\<forall>s'. (pstep c)\<^sup>*\<^sup>* (server_returns s) s' \<longrightarrow> \<not> up_panic (pr_uploader s'))) \<and>
    (\<forall>sid \<in> set (pr_sessions s). \<exists>s'. pstep c (server_returns s) s' \<and> up_panic (pr_uploader s'))"
proof -
  have "\<not> up_panic u" "\<not> up_closed u"
    using assms(1) by (auto simp: new_uploader_def NewUploader_def split: if_splits)
  then have "serving_ok (process_start u)" by (simp add: serving_ok_def process_start_def)
  from psteps_serving [OF assms(2) this] assms(3)
  have ok: "\<not> up_panic (pr_uploader s)" "\<not> up_closed (pr_uploader s)" by (simp_all add: serving_ok_def)
  have "\<exists>s'. pstep c (server_returns s) s' \<and> up_panic (pr_uploader s')" if "sid \<in> set (pr_sessions s)" for sid
    using pstep.session_ends [of sid "server_returns s" c "Inr ([], (0, 0, 0))"] that ok
    by (intro exI) (auto simp: server_returns_def Shutdown_def end_session_def Enqueue_def)
  moreover have "\<not> up_panic (pr_uploader s')"
    if "pr_sessions s = []" "(pstep c)\<^sup>*\<^sup>* (server_returns s) s'" for s'
    using psteps_drained [OF that(2)] that(1) ok by (simp add: server_returns_def Shutdown_def)
  ultimately show ?thesis by blast
qed

lemma late_session_panics_witness:
  "\<exists>u s s'. new_uploader recorded_config None = Inr (Some u) \<and>
     (pstep recorded_config)\<^sup>*\<^sup>* (process_start u) s \<and> pr_sessions s = [''s''] \<and>
     pstep recorded_config (server_returns s) s' \<and> up_panic (pr_uploader s')"
proof -
  obtain u where u: "new_uploader recorded_config None = Inr (Some u)"
    by (simp add: new_uploader_def recorded_config_def recording_on_def NewUploader_def)
  define s where "s = (process_start u)\<lparr>pr_sessions := [''s'']\<rparr>"
  have "pstep recorded_config (process_start u) s"
    using pstep.session_begins [of "process_start u" recorded_config "''s''"] by (simp add: s_def process_start_def)
  then have r: "(pstep recorded_config)\<^sup>*\<^sup>* (process_start u) s" by blast
  from late_session_panics [OF u r] obtain s' where
    "pstep recorded_config (server_returns s) s'" "up_panic (pr_uploader s')"
    by (auto simp: s_def process_start_def)
  with u r show ?thesis by (intro exI conjI) (auto simp: s_def)
qed

end
