(* ===== verification/Remote.thy ===== *)
theory Remote
  imports Wire GoJson
begin

text \<open>
  What the clients of remote services use of \<^verbatim>\<open>net/http\<close>: a request with what it carries and the reply to it.
  The remote side is a function from its state and a request to its answer. The body of a reply is its bytes,
  and \<open>parse\<close>, where a client has one, is the JSON value that bytes stand for.
\<close>

datatype form_part = FormField string string | FormFile string string "byte list"

datatype sent_body = SendNothing | SendJson any | SendForm "form_part list" | SendBytes "byte list"

record out_request =
  or_url :: string
  or_headers :: "(string \<times> string) list"
  or_body :: sent_body

text \<open>The status, its line and the body, whose reading can fail.\<close>

record in_reply =
  ir_status :: int
  ir_line :: string
  ir_body :: "err + byte list"

type_synonym 'w http_api = "'w \<Rightarrow> out_request \<Rightarrow> (err + in_reply) \<times> 'w"

type_synonym json_parser = "byte list \<Rightarrow> any option"

section \<open>Replies\<close>

text \<open>A body that is read up to a limit for a message, whatever happens.\<close>

definition body_text :: "nat \<Rightarrow> in_reply \<Rightarrow> string" where
  "body_text limit r = (case ir_body r of Inl e \<Rightarrow> [] | Inr bs \<Rightarrow> string_of (take limit bs))"

text \<open>A JSON body decoded into a struct.\<close>

definition decode_reply :: "json_parser \<Rightarrow> 's setter \<Rightarrow> 's \<Rightarrow> in_reply \<Rightarrow> err + 's" where
  "decode_reply parse upd s r =
     (case ir_body r of
        Inl e \<Rightarrow> Inl e
      | Inr bs \<Rightarrow> (case parse bs of
            None \<Rightarrow> Inl ''json''
          | Some v \<Rightarrow> (case upd v s of None \<Rightarrow> Inl ''json'' | Some s' \<Rightarrow> Inr s')))"

definition ok_status :: "in_reply \<Rightarrow> bool" where
  "ok_status r \<longleftrightarrow> 200 \<le> ir_status r \<and> ir_status r < 300"

end
