(* ===== verification/LlmClients.thy ===== *)
theory LlmClients
  imports ServiceFactory VoiceServices Remote
begin

text \<open>
  The clients of language models: \<^verbatim>\<open>openai\<close> with its tools, the providers that speak the same protocol, and
  \<^verbatim>\<open>anthropic\<close>, \<^verbatim>\<open>google\<close>, \<^verbatim>\<open>aws\<close> and \<^verbatim>\<open>mock\<close> under \<^verbatim>\<open>pkg/services\<close>. The remote API is a parameter: a
  function from its state and a request to an answer. A client has the type \<open>chatter\<close> of the processor that
  uses it; its state is that of the remote API with the counter of frame ids.
\<close>

section \<open>Messages and tokens\<close>

text \<open>A type assertion \<^verbatim>\<open>m[k].(string)\<close> with a default.\<close>

definition string_or :: "string \<Rightarrow> anymap \<Rightarrow> string \<Rightarrow> string" where
  "string_or d m k = (case key_value m k of Some (AStr s) \<Rightarrow> s | _ \<Rightarrow> d)"

definition llm_token :: "string \<Rightarrow> bool \<Rightarrow> u64 \<Rightarrow> token \<times> u64" where
  "llm_token s spaced ids =
     (let (b, ids') = NewBase ids
      in ((b, \<lparr>tdata = s, skip_tts = None, includes_space = spaced, append_to_context = True\<rparr>), ids'))"

fun llm_tokens :: "string list \<Rightarrow> u64 \<Rightarrow> token list \<times> u64" where
  "llm_tokens [] ids = ([], ids)"
| "llm_tokens (s # ss) ids =
     (let (t, ids1) = llm_token s True ids; (ts, ids2) = llm_tokens ss ids1 in (t # ts, ids2))"

lemma llm_tokens_text [simp]: "map (tdata \<circ> snd) (fst (llm_tokens ss ids)) = ss"
  by (induction ss arbitrary: ids) (simp_all add: llm_token_def Let_def case_prod_beta)

section \<open>Streams\<close>

text \<open>A part of a tool call, the first choice of a chunk, and what \<^verbatim>\<open>Recv\<close> gives until the end of the
  stream.\<close>

record call_delta =
  dc_index :: "nat option"
  dc_id :: string
  dc_name :: string
  dc_args :: string

record choice =
  ch_content :: string
  ch_calls :: "call_delta list"
  ch_tool_calls :: bool

datatype recv = Chunk "choice option" | RecvError err

record tool_call =
  tc_id :: string
  tc_name :: string
  tc_args :: string

record chat_message =
  cm_role :: string
  cm_content :: string
  cm_calls :: "tool_call list"
  cm_call_id :: string

record chat_request =
  cr_model :: string
  cr_messages :: "chat_message list"
  cr_tools :: "anymap list"

type_synonym 'w chat_api = "'w \<Rightarrow> chat_request \<Rightarrow> (err + recv list) \<times> 'w"

section \<open>The providers with the protocol of OpenAI\<close>

record openai_client =
  oc_base :: string
  oc_key :: string

record llm_service =
  ls_client :: openai_client
  ls_model :: string

text \<open>The remote APIs by their address, and the key a request carries.\<close>

type_synonym 'w chat_apis = "string \<Rightarrow> string \<Rightarrow> 'w chat_api"

text \<open>The texts a stream gives until its end or an error.\<close>

fun stream_texts :: "recv list \<Rightarrow> string list \<times> err option" where
  "stream_texts [] = ([], None)"
| "stream_texts (RecvError e # rs) = ([], Some e)"
| "stream_texts (Chunk None # rs) = stream_texts rs"
| "stream_texts (Chunk (Some c) # rs) =
     (let (ts, e) = stream_texts rs in ((if ch_content c = [] then [] else [ch_content c]) @ ts, e))"

definition compat_message :: "anymap \<Rightarrow> chat_message" where
  "compat_message m =
     \<lparr>cm_role = string_or ''user'' m ''role'', cm_content = string_or [] m ''content'', cm_calls = [], cm_call_id = []\<rparr>"

definition compat_Chat :: "'w chat_apis \<Rightarrow> llm_service \<Rightarrow> ('w \<times> u64) chatter" where
  "compat_Chat api s st msgs =
     (case api (oc_base (ls_client s)) (oc_key (ls_client s)) (fst st)
             \<lparr>cr_model = ls_model s, cr_messages = map compat_message msgs, cr_tools = []\<rparr> of
        (Inl e, w) \<Rightarrow> (([], Some e), (w, snd st))
      | (Inr rs, w) \<Rightarrow>
          (let (texts, e) = stream_texts rs; (toks, ids) = llm_tokens texts (snd st) in ((toks, e), (w, ids))))"

text \<open>The constructors, one package each. \<open>key_or\<close> reads an environment variable if no key is given.\<close>

definition key_or :: "env \<Rightarrow> string \<Rightarrow> string \<Rightarrow> string" where
  "key_or e var key = (if key = [] then GetEnv e var [] else key)"

definition groq_NewClient :: "env \<Rightarrow> string \<Rightarrow> openai_client" where
  "groq_NewClient e apiKey =
     \<lparr>oc_base = ''https://api.groq.com/openai/v1'', oc_key = key_or e ''GROQ_API_KEY'' apiKey\<rparr>"

definition groq_NewLLMService :: "env \<Rightarrow> string \<Rightarrow> string \<Rightarrow> llm_service" where
  "groq_NewLLMService e apiKey model =
     \<lparr>ls_client = groq_NewClient e (key_or e ''GROQ_API_KEY'' apiKey), ls_model = or_else ''llama-3.1-8b-instant'' model\<rparr>"

definition grok_NewClient :: "env \<Rightarrow> string \<Rightarrow> openai_client" where
  "grok_NewClient e apiKey =
     \<lparr>oc_base = ''https://api.x.ai/v1'', oc_key = key_or e ''XAI_API_KEY'' apiKey\<rparr>"

definition grok_NewLLMService :: "env \<Rightarrow> string \<Rightarrow> string \<Rightarrow> llm_service" where
  "grok_NewLLMService e apiKey model =
     \<lparr>ls_client = grok_NewClient e (key_or e ''XAI_API_KEY'' apiKey), ls_model = or_else ''grok-2'' model\<rparr>"

definition cerebras_NewClient :: "env \<Rightarrow> string \<Rightarrow> openai_client" where
  "cerebras_NewClient e apiKey =
     \<lparr>oc_base = ''https://api.cerebras.ai/v1'', oc_key = key_or e ''CEREBRAS_API_KEY'' apiKey\<rparr>"

definition cerebras_NewLLMService :: "env \<Rightarrow> string \<Rightarrow> string \<Rightarrow> llm_service" where
  "cerebras_NewLLMService e apiKey model =
     \<lparr>ls_client = cerebras_NewClient e (key_or e ''CEREBRAS_API_KEY'' apiKey), ls_model = or_else ''llama3.1-8b'' model\<rparr>"

definition mistral_NewClient :: "env \<Rightarrow> string \<Rightarrow> openai_client" where
  "mistral_NewClient e apiKey =
     \<lparr>oc_base = ''https://api.mistral.ai/v1'', oc_key = key_or e ''MISTRAL_API_KEY'' apiKey\<rparr>"

definition mistral_NewLLMService :: "env \<Rightarrow> string \<Rightarrow> string \<Rightarrow> llm_service" where
  "mistral_NewLLMService e apiKey model =
     \<lparr>ls_client = mistral_NewClient e (key_or e ''MISTRAL_API_KEY'' apiKey), ls_model = or_else ''mistral-small-latest'' model\<rparr>"

definition deepseek_NewClient :: "env \<Rightarrow> string \<Rightarrow> openai_client" where
  "deepseek_NewClient e apiKey =
     \<lparr>oc_base = ''https://api.deepseek.com/v1'', oc_key = key_or e ''DEEPSEEK_API_KEY'' apiKey\<rparr>"

definition deepseek_NewLLMService :: "env \<Rightarrow> string \<Rightarrow> string \<Rightarrow> llm_service" where
  "deepseek_NewLLMService e apiKey model =
     \<lparr>ls_client = deepseek_NewClient e (key_or e ''DEEPSEEK_API_KEY'' apiKey), ls_model = or_else ''deepseek-chat'' model\<rparr>"

definition openpipe_NewClient :: "env \<Rightarrow> string \<Rightarrow> openai_client" where
  "openpipe_NewClient e apiKey =
     \<lparr>oc_base = ''https://app.openpipe.ai/api/v1'', oc_key = key_or e ''OPENPIPE_API_KEY'' apiKey\<rparr>"

definition openpipe_NewLLMService :: "env \<Rightarrow> string \<Rightarrow> string \<Rightarrow> llm_service" where
  "openpipe_NewLLMService e apiKey model =
     \<lparr>ls_client = openpipe_NewClient e (key_or e ''OPENPIPE_API_KEY'' apiKey), ls_model = or_else ''gpt-4.1'' model\<rparr>"

definition inworld_NewClient :: "env \<Rightarrow> string \<Rightarrow> openai_client" where
  "inworld_NewClient e apiKey =
     \<lparr>oc_base = ''https://api.inworld.ai/v1'', oc_key = key_or e ''INWORLD_API_KEY'' apiKey\<rparr>"

definition inworld_NewLLMService :: "env \<Rightarrow> string \<Rightarrow> string \<Rightarrow> llm_service" where
  "inworld_NewLLMService e apiKey model =
     \<lparr>ls_client = inworld_NewClient e (key_or e ''INWORLD_API_KEY'' apiKey), ls_model = or_else ''gpt-4o-mini'' model\<rparr>"

definition asyncai_NewClient :: "env \<Rightarrow> string \<Rightarrow> openai_client" where
  "asyncai_NewClient e apiKey =
     \<lparr>oc_base = GetEnv e ''ASYNC_AI_BASE_URL'' ''https://api.async.ai/v1'', oc_key = key_or e ''ASYNC_AI_API_KEY'' apiKey\<rparr>"

definition asyncai_NewLLMService :: "env \<Rightarrow> string \<Rightarrow> string \<Rightarrow> llm_service" where
  "asyncai_NewLLMService e apiKey model =
     \<lparr>ls_client = asyncai_NewClient e (key_or e ''ASYNC_AI_API_KEY'' apiKey), ls_model = or_else ''gpt-4o'' model\<rparr>"

definition fish_NewClient :: "env \<Rightarrow> string \<Rightarrow> openai_client" where
  "fish_NewClient e apiKey =
     \<lparr>oc_base = GetEnv e ''FISH_BASE_URL'' ''https://api.fish.audio/v1'', oc_key = key_or e ''FISH_API_KEY'' apiKey\<rparr>"

definition fish_NewLLMService :: "env \<Rightarrow> string \<Rightarrow> string \<Rightarrow> llm_service" where
  "fish_NewLLMService e apiKey model =
     \<lparr>ls_client = fish_NewClient e (key_or e ''FISH_API_KEY'' apiKey), ls_model = or_else ''gpt-4o'' model\<rparr>"

definition minimax_NewClient :: "env \<Rightarrow> string \<Rightarrow> openai_client" where
  "minimax_NewClient e apiKey =
     \<lparr>oc_base = GetEnv e ''MINIMAX_BASE_URL'' ''https://api.minimax.io/v1'', oc_key = key_or e ''MINIMAX_API_KEY'' apiKey\<rparr>"

definition minimax_NewLLMService :: "env \<Rightarrow> string \<Rightarrow> string \<Rightarrow> llm_service" where
  "minimax_NewLLMService e apiKey model =
     \<lparr>ls_client = minimax_NewClient e (key_or e ''MINIMAX_API_KEY'' apiKey), ls_model = or_else ''abab6.5s-chat'' model\<rparr>"

definition moondream_NewClient :: "env \<Rightarrow> string \<Rightarrow> openai_client" where
  "moondream_NewClient e apiKey =
     \<lparr>oc_base = GetEnv e ''MOONDREAM_BASE_URL'' ''https://api.moondream.com/v1'', oc_key = key_or e ''MOONDREAM_API_KEY'' apiKey\<rparr>"

definition moondream_NewLLMService :: "env \<Rightarrow> string \<Rightarrow> string \<Rightarrow> llm_service" where
  "moondream_NewLLMService e apiKey model =
     \<lparr>ls_client = moondream_NewClient e (key_or e ''MOONDREAM_API_KEY'' apiKey), ls_model = or_else ''moondream-v1'' model\<rparr>"

definition qwen_key :: "env \<Rightarrow> string \<Rightarrow> string" where
  "qwen_key e apiKey = key_or e ''QWEN_API_KEY'' (key_or e ''DASHSCOPE_API_KEY'' apiKey)"

definition qwen_NewClient :: "env \<Rightarrow> string \<Rightarrow> openai_client" where
  "qwen_NewClient e apiKey =
     \<lparr>oc_base = GetEnv e ''DASHSCOPE_BASE_URL'' ''https://dashscope-intl.aliyuncs.com/compatible-mode/v1'',
      oc_key = qwen_key e apiKey\<rparr>"

definition qwen_NewLLMService :: "env \<Rightarrow> string \<Rightarrow> string \<Rightarrow> llm_service" where
  "qwen_NewLLMService e apiKey model =
     \<lparr>ls_client = qwen_NewClient e (qwen_key e apiKey), ls_model = or_else ''qwen-plus'' model\<rparr>"

definition ollama_key :: "env \<Rightarrow> string \<Rightarrow> string" where
  "ollama_key e apiKey = or_else ''ollama'' (if apiKey = [] then GetEnv e ''OLLAMA_API_KEY'' ''ollama'' else apiKey)"

definition ollama_NewClient :: "env \<Rightarrow> string \<Rightarrow> openai_client" where
  "ollama_NewClient e apiKey =
     \<lparr>oc_base = GetEnv e ''OLLAMA_BASE_URL'' ''http://localhost:11434/v1'', oc_key = ollama_key e apiKey\<rparr>"

definition ollama_NewLLMService :: "env \<Rightarrow> string \<Rightarrow> string \<Rightarrow> llm_service" where
  "ollama_NewLLMService e apiKey model =
     \<lparr>ls_client = ollama_NewClient e (ollama_key e apiKey), ls_model = or_else ''llama3.2'' model\<rparr>"

text \<open>Every package has its own copy of the same \<^verbatim>\<open>Chat\<close>.\<close>

definition groq_Chat :: "'w chat_apis \<Rightarrow> llm_service \<Rightarrow> ('w \<times> u64) chatter" where "groq_Chat = compat_Chat"
definition grok_Chat :: "'w chat_apis \<Rightarrow> llm_service \<Rightarrow> ('w \<times> u64) chatter" where "grok_Chat = compat_Chat"
definition cerebras_Chat :: "'w chat_apis \<Rightarrow> llm_service \<Rightarrow> ('w \<times> u64) chatter" where "cerebras_Chat = compat_Chat"
definition mistral_Chat :: "'w chat_apis \<Rightarrow> llm_service \<Rightarrow> ('w \<times> u64) chatter" where "mistral_Chat = compat_Chat"
definition deepseek_Chat :: "'w chat_apis \<Rightarrow> llm_service \<Rightarrow> ('w \<times> u64) chatter" where "deepseek_Chat = compat_Chat"
definition openpipe_Chat :: "'w chat_apis \<Rightarrow> llm_service \<Rightarrow> ('w \<times> u64) chatter" where "openpipe_Chat = compat_Chat"
definition inworld_Chat :: "'w chat_apis \<Rightarrow> llm_service \<Rightarrow> ('w \<times> u64) chatter" where "inworld_Chat = compat_Chat"
definition asyncai_Chat :: "'w chat_apis \<Rightarrow> llm_service \<Rightarrow> ('w \<times> u64) chatter" where "asyncai_Chat = compat_Chat"
definition fish_Chat :: "'w chat_apis \<Rightarrow> llm_service \<Rightarrow> ('w \<times> u64) chatter" where "fish_Chat = compat_Chat"
definition minimax_Chat :: "'w chat_apis \<Rightarrow> llm_service \<Rightarrow> ('w \<times> u64) chatter" where "minimax_Chat = compat_Chat"
definition moondream_Chat :: "'w chat_apis \<Rightarrow> llm_service \<Rightarrow> ('w \<times> u64) chatter" where "moondream_Chat = compat_Chat"
definition qwen_Chat :: "'w chat_apis \<Rightarrow> llm_service \<Rightarrow> ('w \<times> u64) chatter" where "qwen_Chat = compat_Chat"
definition ollama_Chat :: "'w chat_apis \<Rightarrow> llm_service \<Rightarrow> ('w \<times> u64) chatter" where "ollama_Chat = compat_Chat"

section \<open>The client a session gets\<close>

text \<open>The client a service of \<open>ServiceFactory\<close> stands for.\<close>

definition compat_clients :: "(string \<times> (env \<Rightarrow> string \<Rightarrow> string \<Rightarrow> llm_service)) list" where
  "compat_clients =
     [(''groq.NewLLMService'', groq_NewLLMService),
      (''grok.NewLLMService'', grok_NewLLMService),
      (''cerebras.NewLLMService'', cerebras_NewLLMService),
      (''mistral.NewLLMService'', mistral_NewLLMService),
      (''deepseek.NewLLMService'', deepseek_NewLLMService),
      (''openpipe.NewLLMService'', openpipe_NewLLMService),
      (''inworld.NewLLMService'', inworld_NewLLMService),
      (''asyncai.NewLLMService'', asyncai_NewLLMService),
      (''fish.NewLLMService'', fish_NewLLMService),
      (''minimax.NewLLMService'', minimax_NewLLMService),
      (''moondream.NewLLMService'', moondream_NewLLMService),
      (''qwen.NewLLMService'', qwen_NewLLMService),
      (''ollama.NewLLMService'', ollama_NewLLMService)]"

definition client_of :: "env \<Rightarrow> service option \<Rightarrow> llm_service option" where
  "client_of e sv =
     (case sv of
        Some (Service new [key, model]) \<Rightarrow> map_option (\<lambda>mk. mk e key model) (map_of compat_clients new)
      | _ \<Rightarrow> None)"

text \<open>The addresses of the providers, and which variable can change them.\<close>

definition compat_addresses :: "(string \<times> string \<times> string) list" where
  "compat_addresses =
     [(''groq'', '''', ''https://api.groq.com/openai/v1''),
      (''grok'', '''', ''https://api.x.ai/v1''),
      (''cerebras'', '''', ''https://api.cerebras.ai/v1''),
      (''mistral'', '''', ''https://api.mistral.ai/v1''),
      (''deepseek'', '''', ''https://api.deepseek.com/v1''),
      (''openpipe'', '''', ''https://app.openpipe.ai/api/v1''),
      (''inworld'', '''', ''https://api.inworld.ai/v1''),
      (''asyncai'', ''ASYNC_AI_BASE_URL'', ''https://api.async.ai/v1''),
      (''fish'', ''FISH_BASE_URL'', ''https://api.fish.audio/v1''),
      (''minimax'', ''MINIMAX_BASE_URL'', ''https://api.minimax.io/v1''),
      (''moondream'', ''MOONDREAM_BASE_URL'', ''https://api.moondream.com/v1''),
      (''qwen'', ''DASHSCOPE_BASE_URL'', ''https://dashscope-intl.aliyuncs.com/compatible-mode/v1''),
      (''ollama'', ''OLLAMA_BASE_URL'', ''http://localhost:11434/v1'')]"

definition address_of :: "env \<Rightarrow> string \<Rightarrow> string option" where
  "address_of e p =
     map_option (\<lambda>(var, url). if var = [] then url else GetEnv e var url) (map_of compat_addresses p)"

text \<open>A key that was looked up and is empty is not in the environment either.\<close>

lemma key_kept [simp]:
  "key_or e v (resolve_key c e s v) = resolve_key c e s v" "or_else [] k = k" "or_else k [] = k"
  by (auto simp: key_or_def GetEnv_def resolve_key_def or_else_def Let_def split: if_splits)

lemma qwen_key_kept [simp]:
  "qwen_key e (or_else (resolve_key c e s ''QWEN_API_KEY'') (resolve_key c e s ''DASHSCOPE_API_KEY'')) =
     or_else (resolve_key c e s ''QWEN_API_KEY'') (resolve_key c e s ''DASHSCOPE_API_KEY'')"
  by (auto simp: qwen_key_def key_or_def GetEnv_def resolve_key_def or_else_def Let_def split: if_splits)

lemma ollama_key_kept [simp]:
  "ollama_key e (ollama_key e (resolve_key c e s ''OLLAMA_API_KEY'')) =
     or_else ''ollama'' (resolve_key c e s ''OLLAMA_API_KEY'')"
  by (auto simp: ollama_key_def GetEnv_def resolve_key_def or_else_def Let_def split: if_splits)

lemmas compat_defs = compat_clients_def compat_addresses_def
  groq_NewClient_def groq_NewLLMService_def grok_NewClient_def grok_NewLLMService_def
  cerebras_NewClient_def cerebras_NewLLMService_def mistral_NewClient_def mistral_NewLLMService_def
  deepseek_NewClient_def deepseek_NewLLMService_def openpipe_NewClient_def openpipe_NewLLMService_def
  inworld_NewClient_def inworld_NewLLMService_def asyncai_NewClient_def asyncai_NewLLMService_def
  fish_NewClient_def fish_NewLLMService_def minimax_NewClient_def minimax_NewLLMService_def
  moondream_NewClient_def moondream_NewLLMService_def qwen_NewClient_def qwen_NewLLMService_def
  ollama_NewClient_def ollama_NewLLMService_def

definition compat_providers :: "string list" where
  "compat_providers = map fst compat_addresses"

lemma compat_service:
  assumes "key_cache_ok e c" "p \<in> set compat_providers"
  shows "snd (NewLLMFromConfig connects e c p m) = Some (Service (p @ ''.NewLLMService'') [provider_key c e p, m])"
proof -
  have "CHR 0x00 \<notin> set p" using assms(2) by (auto simp: compat_providers_def compat_addresses_def)
  note k = apiKeyForProvider_key(1) [OF assms(1) this]
  have "snd (NewLLMFromConfig connects e c p m) =
      Some (Service (p @ ''.NewLLMService'') [snd (apiKeyForProvider e c p), m])"
    using assms(2) unfolding compat_providers_def compat_addresses_def list.map fst_conv set_simps insert_iff empty_iff
    by (elim disjE) (simp_all add: NewLLMFromConfig_def built_def case_prod_beta)
  then show ?thesis by (simp only: k)
qed

text \<open>The key the client of a provider sends, if its configuration has this one.\<close>

definition sent_key :: "string \<Rightarrow> string \<Rightarrow> string" where
  "sent_key p key = (if p = ''ollama'' then or_else ''ollama'' key else key)"

lemma compat_client:
  assumes "p \<in> set compat_providers"
  shows "\<exists>s. client_of e (Some (Service (p @ ''.NewLLMService'') [provider_key c e p, m])) = Some s \<and>
    address_of e p = Some (oc_base (ls_client s)) \<and> oc_key (ls_client s) = sent_key p (provider_key c e p)"
  using assms unfolding compat_providers_def compat_addresses_def list.map fst_conv set_simps insert_iff empty_iff
  by (elim disjE FalseE) (hypsubst, simp add: client_of_def compat_defs address_of_def sent_key_def provider_key_def
      key_sources_def key_table_def)+

text \<open>A session whose language model is one of the thirteen with the protocol of OpenAI sends its requests
  to the address of that provider, which only the variable of that provider can change, and with the key that
  is configured for it: what the constructors read from the environment themselves never matters.\<close>

theorem own_address_own_key:
  assumes "key_cache_ok e c" "p \<in> set compat_providers"
  shows "\<exists>s. client_of e (snd (NewLLMFromConfig connects e c p m)) = Some s \<and>
    address_of e p = Some (oc_base (ls_client s)) \<and> oc_key (ls_client s) = sent_key p (provider_key c e p)"
  unfolding compat_service [OF assms] by (rule compat_client [OF assms(2)])

lemma own_address_own_key_witness:
  "\<exists>s. client_of (\<lambda>_. []) (snd (NewLLMFromConfig (\<lambda>_. True) (\<lambda>_. [])
      (zero_config\<lparr>cf_APIKeys := Some [''groq'' \<mapsto> ''gsk'']\<rparr>) ''groq'' [])) = Some s \<and>
    address_of (\<lambda>_. []) ''groq'' = Some (oc_base (ls_client s)) \<and>
    oc_key (ls_client s) = sent_key ''groq'' (provider_key (zero_config\<lparr>cf_APIKeys := Some [''groq'' \<mapsto> ''gsk'']\<rparr>) (\<lambda>_. []) ''groq'')"
  by (rule own_address_own_key)
    (simp_all add: key_cache_ok_def zero_config_def compat_providers_def compat_addresses_def)

text \<open>What a client gives its processor: one token for each text of the stream until it breaks, and the error.\<close>

lemma compat_Chat_tokens:
  assumes "api (oc_base (ls_client s)) (oc_key (ls_client s)) (fst st)
      \<lparr>cr_model = ls_model s, cr_messages = map compat_message msgs, cr_tools = []\<rparr> = (Inr rs, w)"
  shows "map (tdata \<circ> snd) (fst (fst (compat_Chat api s st msgs))) = fst (stream_texts rs)"
    and "snd (fst (compat_Chat api s st msgs)) = snd (stream_texts rs)"
  by (simp_all add: compat_Chat_def assms case_prod_beta Let_def)

section \<open>OpenAI and its tools\<close>

record fn_schema =
  fs_name :: string
  fs_description :: string
  fs_parameters :: "anymap option"

text \<open>A tool answers with a result or an error, and may change the world.\<close>

type_synonym 'w tool_handler = "'w \<Rightarrow> string \<Rightarrow> anymap \<Rightarrow> (string \<times> err option) \<times> 'w"

record 'w openai_service =
  os_client :: openai_client
  os_model :: string
  os_schema :: "fn_schema list"
  os_handlers :: "string \<rightharpoonup> 'w tool_handler"

definition openai_NewService :: "env \<Rightarrow> string \<Rightarrow> string \<Rightarrow> 'w openai_service" where
  "openai_NewService e apiKey model =
     \<lparr>os_client = \<lparr>oc_base = ''https://api.openai.com/v1'', oc_key = key_or e ''OPENAI_API_KEY'' apiKey\<rparr>,
      os_model = or_else ''gpt-3.5-turbo'' model, os_schema = [], os_handlers = Map.empty\<rparr>"

definition RegisterTool :: "fn_schema \<Rightarrow> 'w tool_handler \<Rightarrow> 'w openai_service \<Rightarrow> 'w openai_service" where
  "RegisterTool f h s =
     s\<lparr>os_schema := os_schema s @ [f], os_handlers := (os_handlers s)(fs_name f \<mapsto> h)\<rparr>"

definition openai_ToolsSchema :: "'w openai_service \<Rightarrow> fn_schema list" where
  "openai_ToolsSchema s = os_schema s"

definition openai_tool :: "fn_schema \<Rightarrow> anymap" where
  "openai_tool f =
     [(''type'', AStr ''function''),
      (''function'', AObj
        [(''name'', AStr (fs_name f)), (''description'', AStr (fs_description f)),
         (''parameters'', AObj (case fs_parameters f of
            None \<Rightarrow> [(''type'', AStr ''object''), (''properties'', AObj [])] | Some p \<Rightarrow> p))])]"

definition buildOpenAITools :: "'w openai_service \<Rightarrow> anymap list" where
  "buildOpenAITools s = map openai_tool (os_schema s)"

text \<open>A message of a dialogue. The entry \<^verbatim>\<open>tool_calls\<close> counts only if its Go type is a slice of maps, which it
  has if this client put it there; it stands apart from the others.\<close>

record dialogue_message =
  dm_fields :: anymap
  dm_calls :: "anymap list option"

definition plain_message :: "anymap \<Rightarrow> dialogue_message" where
  "plain_message m = \<lparr>dm_fields = m, dm_calls = None\<rparr>"

definition call_of :: "anymap \<Rightarrow> tool_call" where
  "call_of t =
     (let fn = (case key_object t ''function'' of Some f \<Rightarrow> f | None \<Rightarrow> [])
      in \<lparr>tc_id = key_string t ''id'', tc_name = key_string fn ''name'', tc_args = key_string fn ''arguments''\<rparr>)"

definition call_map :: "tool_call \<Rightarrow> anymap" where
  "call_map c =
     [(''id'', AStr (tc_id c)), (''type'', AStr ''function''),
      (''function'', AObj [(''name'', AStr (tc_name c)), (''arguments'', AStr (tc_args c))])]"

definition openai_message :: "dialogue_message \<Rightarrow> chat_message" where
  "openai_message m =
     (let role = string_or ''user'' (dm_fields m) ''role''
      in \<lparr>cm_role = role, cm_content = string_or [] (dm_fields m) ''content'',
          cm_calls = (if role = ''assistant''
             then (case dm_calls m of Some cs \<Rightarrow> map call_of cs | None \<Rightarrow> []) else []),
          cm_call_id = (if role = ''tool'' then string_or [] (dm_fields m) ''tool_call_id'' else [])\<rparr>)"

definition buildMessages :: "dialogue_message list \<Rightarrow> chat_message list" where
  "buildMessages ms = map openai_message ms"

text \<open>The calls collected so far, by index; the first entry of an index counts.\<close>

type_synonym call_accum = "(int \<times> tool_call) list"

definition part_index :: "call_delta \<Rightarrow> int" where
  "part_index d = (case dc_index d of Some i \<Rightarrow> i | None \<Rightarrow> 0)"

definition call_at :: "call_accum \<Rightarrow> int \<Rightarrow> tool_call" where
  "call_at a i = (case map_of a i of Some c \<Rightarrow> c | None \<Rightarrow> \<lparr>tc_id = [], tc_name = [], tc_args = []\<rparr>)"

definition merge_part :: "call_delta \<Rightarrow> call_accum \<Rightarrow> call_accum" where
  "merge_part d a =
     (part_index d,
      \<lparr>tc_id = dc_id d, tc_name = dc_name d, tc_args = tc_args (call_at a (part_index d)) @ dc_args d\<rparr>) # a"

definition max_index :: "call_accum \<Rightarrow> int" where
  "max_index a = foldr (max \<circ> fst) a (-1)"

datatype stream_end = StreamDone | StreamBroke err | CallTools string call_accum

fun read_stream :: "recv list \<Rightarrow> string \<Rightarrow> call_accum \<Rightarrow> string list \<times> stream_end" where
  "read_stream [] buf a = ([], StreamDone)"
| "read_stream (RecvError e # rs) buf a = ([], StreamBroke e)"
| "read_stream (Chunk None # rs) buf a = read_stream rs buf a"
| "read_stream (Chunk (Some c) # rs) buf a =
     (let text = (if ch_content c = [] then [] else [ch_content c]);
          buf1 = buf @ ch_content c;
          a1 = fold merge_part (ch_calls c) a
      in if ch_tool_calls c
         then (text, if max_index a1 < 0 then StreamDone else CallTools buf1 a1)
         else (let (ts, e) = read_stream rs buf1 a1 in (text @ ts, e)))"

definition tool_calls :: "call_accum \<Rightarrow> tool_call list" where
  "tool_calls a = filter (\<lambda>c. tc_name c \<noteq> []) (map (call_at a) [0..max_index a])"

text \<open>\<open>parse\<close> is the value a JSON text stands for, if it is one.\<close>

definition call_args :: "(string \<Rightarrow> any option) \<Rightarrow> string \<Rightarrow> anymap" where
  "call_args parse s = (if s = [] then [] else (case parse s of Some (AObj m) \<Rightarrow> m | _ \<Rightarrow> []))"

definition run_call ::
  "(string \<Rightarrow> any option) \<Rightarrow> (string \<rightharpoonup> 'w tool_handler) \<Rightarrow> 'w \<Rightarrow> tool_call \<Rightarrow> dialogue_message \<times> 'w" where
  "run_call parse hs w c =
     (let (result, w') =
        (case hs (tc_name c) of
           None \<Rightarrow> (''tool not found'', w)
         | Some h \<Rightarrow>
             (case h w (tc_name c) (call_args parse (tc_args c)) of
                ((r, Some e), w') \<Rightarrow> (''error: '' @ e, w')
              | ((r, None), w') \<Rightarrow> (r, w')))
      in (plain_message [(''role'', AStr ''tool''), (''tool_call_id'', AStr (tc_id c)), (''content'', AStr result)], w'))"

fun run_calls ::
  "(string \<Rightarrow> any option) \<Rightarrow> (string \<rightharpoonup> 'w tool_handler) \<Rightarrow> 'w \<Rightarrow> tool_call list \<Rightarrow> dialogue_message list \<times> 'w" where
  "run_calls parse hs w [] = ([], w)"
| "run_calls parse hs w (c # cs) =
     (let (m, w1) = run_call parse hs w c; (ms, w2) = run_calls parse hs w1 cs in (m # ms, w2))"

definition assistant_message :: "string \<Rightarrow> tool_call list \<Rightarrow> dialogue_message" where
  "assistant_message buf cs =
     \<lparr>dm_fields = [(''role'', AStr ''assistant''), (''content'', AStr buf)], dm_calls = Some (map call_map cs)\<rparr>"

definition openai_request :: "'w openai_service \<Rightarrow> dialogue_message list \<Rightarrow> chat_request" where
  "openai_request s msgs =
     \<lparr>cr_model = os_model s, cr_messages = buildMessages msgs, cr_tools = buildOpenAITools s\<rparr>"

text \<open>One request with its tools: what is streamed, how it ends, and the messages the dialogue goes on with.\<close>

definition chat_round ::
  "(string \<Rightarrow> any option) \<Rightarrow> 'w chat_apis \<Rightarrow> 'w openai_service \<Rightarrow> 'w \<times> u64 \<Rightarrow> dialogue_message list
     \<Rightarrow> token list \<times> (err option + dialogue_message list) \<times> 'w \<times> u64" where
  "chat_round parse api s st msgs =
     (case api (oc_base (os_client s)) (oc_key (os_client s)) (fst st) (openai_request s msgs) of
        (Inl e, w) \<Rightarrow> ([], Inl (Some e), w, snd st)
      | (Inr rs, w) \<Rightarrow>
          (let (texts, fin) = read_stream rs [] []; (toks, ids) = llm_tokens texts (snd st)
           in (case fin of
                 StreamDone \<Rightarrow> (toks, Inl None, w, ids)
               | StreamBroke e \<Rightarrow> (toks, Inl (Some e), w, ids)
               | CallTools buf a \<Rightarrow>
                   (let cs = tool_calls a; (results, w') = run_calls parse (os_handlers s) w cs
                    in (toks, Inr (msgs @ assistant_message buf cs # results), w', ids)))))"

text \<open>The call of itself with the results; it may go on for ever, which is the value \<open>None\<close>.\<close>

partial_function (option) openai_Chat ::
  "(string \<Rightarrow> any option) \<Rightarrow> 'w chat_apis \<Rightarrow> 'w openai_service \<Rightarrow> 'w \<times> u64 \<Rightarrow> dialogue_message list
     \<Rightarrow> ((token list \<times> err option) \<times> 'w \<times> u64) option" where
  "openai_Chat parse api s st msgs =
     (case chat_round parse api s st msgs of
        (toks, Inl e, st') \<Rightarrow> Some ((toks, e), st')
      | (toks, Inr msgs', st') \<Rightarrow>
          Option.bind (openai_Chat parse api s st' msgs') (\<lambda>((toks2, e), st2). Some ((toks @ toks2, e), st2)))"

text \<open>The parts of calls up to the chunk that ends the calls. In the streams the API documents the name of a
  call comes with its first part only, and the arguments follow in further parts.\<close>

fun call_parts :: "recv list \<Rightarrow> call_delta list" where
  "call_parts [] = []"
| "call_parts (RecvError e # rs) = []"
| "call_parts (Chunk None # rs) = call_parts rs"
| "call_parts (Chunk (Some c) # rs) = ch_calls c @ (if ch_tool_calls c then [] else call_parts rs)"

fun named_first :: "call_delta list \<Rightarrow> bool" where
  "named_first [] \<longleftrightarrow> True"
| "named_first (d # ds) \<longleftrightarrow>
     (dc_name d = [] \<or> list_ex (\<lambda>x. part_index x = part_index d \<and> dc_name x = []) ds) \<and> named_first ds"

text \<open>A call has the id and the name of its last part, and the arguments of all of them.\<close>

lemma merged_call:
  "map_of (fold merge_part ds []) i =
     (let ps = filter (\<lambda>d. part_index d = i) ds
      in if ps = [] then None
         else Some \<lparr>tc_id = dc_id (last ps), tc_name = dc_name (last ps), tc_args = concat (map dc_args ps)\<rparr>)"
  by (induction ds rule: rev_induct) (auto simp: merge_part_def call_at_def Let_def)

lemma read_stream_calls:
  "read_stream rs buf a = (ts, CallTools b a') \<Longrightarrow> a' = fold merge_part (call_parts rs) a"
proof (induction rs buf a arbitrary: ts rule: read_stream.induct)
  case (4 c rs buf a)
  then show ?case by (auto simp: Let_def case_prod_beta prod_eq_iff split: if_splits)
qed auto

lemma named_first_last:
  assumes "named_first ds" "filter (\<lambda>d. part_index d = i) ds \<noteq> []"
  shows "dc_name (last (filter (\<lambda>d. part_index d = i) ds)) = []"
  using assms
proof (induction ds)
  case (Cons d ds)
  show ?case
  proof (cases "filter (\<lambda>d. part_index d = i) ds = []")
    case True
    with Cons.prems show ?thesis by (auto simp: list_ex_iff filter_empty_conv split: if_splits)
  qed (use Cons in auto)
qed simp

lemma documented_calls_nameless:
  assumes "read_stream rs [] [] = (ts, CallTools b a)" "named_first (call_parts rs)"
  shows "tool_calls a = []"
proof -
  have "tc_name (call_at a i) = []" for i
    using named_first_last [OF assms(2), of i]
    by (simp add: read_stream_calls [OF assms(1)] call_at_def merged_call Let_def)
  then show ?thesis by (simp add: tool_calls_def)
qed

text \<open>The tools of a client make no difference to a round.\<close>

definition documented_api :: "'w chat_apis \<Rightarrow> bool" where
  "documented_api api \<longleftrightarrow>
     (\<forall>base key w req rs w'. api base key w req = (Inr rs, w') \<longrightarrow> named_first (call_parts rs))"

lemma request_without_handlers [simp]:
  "openai_request (s\<lparr>os_handlers := hs\<rparr>) msgs = openai_request s msgs"
  by (simp add: openai_request_def buildOpenAITools_def)

lemma documented_round:
  assumes "documented_api api"
  shows "chat_round parse api (s\<lparr>os_handlers := hs\<rparr>) st msgs = chat_round parse api s st msgs"
proof -
  have "named_first (call_parts rs)" if "api b k w r = (Inr rs, w')" for b k w r rs w'
    using assms that unfolding documented_api_def by blast
  then show ?thesis
    by (auto simp: chat_round_def Let_def documented_calls_nameless split: prod.splits sum.splits stream_end.splits)
qed

lemmas openai_Chat_induct = openai_Chat.raw_induct [rotated, consumes 1, case_names call]

lemma documented_chat_step:
  "openai_Chat parse api s st msgs = Some y \<Longrightarrow> documented_api api \<Longrightarrow>
     openai_Chat parse api (s\<lparr>os_handlers := hs\<rparr>) st msgs = Some y"
proof (induction arbitrary: hs rule: openai_Chat_induct)
  case (call chat parse api s st msgs y)
  show ?case
  proof (cases "chat_round parse api s st msgs")
    case (fields toks r w ids)
    show ?thesis
    proof (cases r)
      case (Inl e)
      then show ?thesis using call fields by (simp add: openai_Chat.simps documented_round)
    next
      case (Inr msgs')
      with call(2) fields obtain z where z: "chat parse api s (w, ids) msgs' = Some z"
        "y = ((toks @ fst (fst z), snd (fst z)), snd z)"
        by (auto simp: case_prod_beta split: Option.bind_splits)
      with call(1) [OF z(1) call(3)] Inr fields call(3) show ?thesis
        by (simp add: openai_Chat.simps [of _ _ _ _ msgs] documented_round case_prod_beta)
    qed
  qed
qed

text \<open>C10: No tool is ever called by a model whose streams are as the API documents them, with the name of a
  call in its first part only: every further part overwrites the name with nothing, and calls without a name
  are skipped. A client whose tools are taken away behaves in the same way, whether or not it returns.\<close>

theorem tools_never_run:
  assumes "documented_api api"
  shows "openai_Chat parse api s st msgs = openai_Chat parse api (s\<lparr>os_handlers := Map.empty\<rparr>) st msgs"
proof (cases "openai_Chat parse api s st msgs")
  case None
  have "s = (s\<lparr>os_handlers := Map.empty\<rparr>)\<lparr>os_handlers := os_handlers s\<rparr>" by simp
  then show ?thesis
    using documented_chat_step [OF _ assms, of parse "s\<lparr>os_handlers := Map.empty\<rparr>" st msgs _ "os_handlers s"] None
    by (metis not_None_eq)
next
  case (Some y)
  then show ?thesis by (simp add: documented_chat_step [OF Some assms])
qed

text \<open>A model that wants the result of a tool before it answers.\<close>

definition asks_for_tool :: "recv list \<Rightarrow> bool" where
  "asks_for_tool rs = (case snd (read_stream rs [] []) of CallTools b a \<Rightarrow> True | _ \<Rightarrow> False)"

definition wants_result :: "'w chat_apis \<Rightarrow> bool" where
  "wants_result api \<longleftrightarrow>
     (\<forall>base key w req. list_all (\<lambda>m. cm_role m \<noteq> ''tool'') (cr_messages req) \<longrightarrow>
        (\<exists>rs w'. api base key w req = (Inr rs, w') \<and> asks_for_tool rs))"

definition no_result :: "dialogue_message list \<Rightarrow> bool" where
  "no_result ms = list_all (\<lambda>m. string_or ''user'' (dm_fields m) ''role'' \<noteq> ''tool'') ms"

lemma no_result_request: "no_result ms \<Longrightarrow> list_all (\<lambda>m. cm_role m \<noteq> ''tool'') (cr_messages (openai_request s ms))"
  by (auto simp: no_result_def openai_request_def buildMessages_def openai_message_def Let_def list_all_iff)

lemma wanting_round:
  assumes "documented_api api" "wants_result api" "no_result msgs"
  obtains toks buf w ids where
    "chat_round parse api s st msgs = (toks, Inr (msgs @ [assistant_message buf []]), w, ids)"
proof -
  let ?b = "oc_base (os_client s)" let ?k = "oc_key (os_client s)"
  obtain rs w' where api: "api ?b ?k (fst st) (openai_request s msgs) = (Inr rs, w')" and asks: "asks_for_tool rs"
    using assms(2) no_result_request [OF assms(3), of s] unfolding wants_result_def by blast
  obtain ts b a where r: "read_stream rs [] [] = (ts, CallTools b a)"
    using asks by (cases "read_stream rs [] []") (auto simp: asks_for_tool_def split: stream_end.splits)
  have "tool_calls a = []"
    using documented_calls_nameless [OF r] assms(1) api unfolding documented_api_def by blast
  with api r that show ?thesis by (simp add: chat_round_def Let_def case_prod_beta)
qed

lemma no_result_assistant: "no_result msgs \<Longrightarrow> no_result (msgs @ [assistant_message buf []])"
  by (simp add: no_result_def assistant_message_def string_or_def key_value_def)

lemma wanting_chat_step:
  "openai_Chat parse api s st msgs = Some y \<Longrightarrow> documented_api api \<Longrightarrow> wants_result api \<Longrightarrow> no_result msgs \<Longrightarrow> False"
proof (induction rule: openai_Chat_induct)
  case (call chat parse api s st msgs y)
  obtain toks buf w ids where
    r: "chat_round parse api s st msgs = (toks, Inr (msgs @ [assistant_message buf []]), w, ids)"
    by (rule wanting_round [OF call(3-5)])
  with call(2) obtain z where "chat parse api s (w, ids) (msgs @ [assistant_message buf []]) = Some z"
    by (auto split: Option.bind_splits)
  from call(1) [OF this call(3,4) no_result_assistant [OF call(5)]] show False .
qed

text \<open>A request that such a model answers with the call of a tool never ends: the dialogue goes on without a
  result, is asked again and grows by an empty answer each time.\<close>

theorem tool_request_never_ends:
  assumes "documented_api api" "wants_result api" "no_result msgs"
  shows "openai_Chat parse api s st msgs = None"
proof (cases "openai_Chat parse api s st msgs")
  case (Some y)
  then show ?thesis using wanting_chat_step [OF Some assms] by simp
qed simp

text \<open>A model that asks for the time, in three parts.\<close>

definition ask_time :: "recv list" where
  "ask_time =
     [Chunk (Some \<lparr>ch_content = [], ch_calls =
        [\<lparr>dc_index = Some 0, dc_id = ''call_1'', dc_name = ''time'', dc_args = []\<rparr>], ch_tool_calls = False\<rparr>),
      Chunk (Some \<lparr>ch_content = [], ch_calls =
        [\<lparr>dc_index = Some 0, dc_id = [], dc_name = [], dc_args = ''{}''\<rparr>], ch_tool_calls = False\<rparr>),
      Chunk (Some \<lparr>ch_content = [], ch_calls = [], ch_tool_calls = True\<rparr>)]"

definition time_api :: "nat chat_apis" where
  "time_api base key n req =
     (if list_ex (\<lambda>m. cm_role m = ''tool'') (cr_messages req)
      then (Inr [Chunk (Some \<lparr>ch_content = ''noon'', ch_calls = [], ch_tool_calls = False\<rparr>)], Suc n)
      else (Inr ask_time, Suc n))"

lemma time_api_facts: "documented_api time_api" "wants_result time_api"
  by (simp_all add: documented_api_def wants_result_def time_api_def ask_time_def part_index_def asks_for_tool_def
      merge_part_def call_at_def max_index_def list_ex_iff list_all_iff)

definition time_service :: "nat openai_service" where
  "time_service =
     RegisterTool \<lparr>fs_name = ''time'', fs_description = [], fs_parameters = None\<rparr> (\<lambda>w n as. ((''12:00'', None), w))
       (openai_NewService (\<lambda>_. []) ''key'' [])"

lemma tools_never_run_witness:
  "openai_Chat (\<lambda>_. None) time_api time_service (0, 1) [] =
   openai_Chat (\<lambda>_. None) time_api (time_service\<lparr>os_handlers := Map.empty\<rparr>) (0, 1) []"
  by (rule tools_never_run [OF time_api_facts(1)])

lemma tool_request_never_ends_witness:
  "openai_Chat (\<lambda>_. None) time_api time_service (0, 1) [plain_message [(''role'', AStr ''user'')]] = None"
  by (rule tool_request_never_ends [OF time_api_facts])
    (simp add: no_result_def plain_message_def string_or_def key_value_def)

text \<open>If the whole call is in one part the tool runs.\<close>

lemma whole_call_runs:
  "chat_round (\<lambda>_. None) (\<lambda>base key w req. (Inr [Chunk (Some \<lparr>ch_content = [], ch_calls =
        [\<lparr>dc_index = None, dc_id = i, dc_name = ''time'', dc_args = []\<rparr>], ch_tool_calls = True\<rparr>)], w)) time_service st msgs =
   ([], Inr (msgs @ [assistant_message [] [\<lparr>tc_id = i, tc_name = ''time'', tc_args = []\<rparr>],
      plain_message [(''role'', AStr ''tool''), (''tool_call_id'', AStr i), (''content'', AStr ''12:00'')]]), st)"
  by (simp add: chat_round_def merge_part_def part_index_def call_at_def max_index_def tool_calls_def run_call_def
      time_service_def RegisterTool_def)

section \<open>Anthropic\<close>

record anthropic_service =
  an_key :: string
  an_model :: string

definition anthropic_NewLLMService :: "string \<Rightarrow> string \<Rightarrow> anthropic_service" where
  "anthropic_NewLLMService apiKey model = \<lparr>an_key = apiKey, an_model = or_else ''claude-3-sonnet-20240229'' model\<rparr>"

text \<open>The system text and the messages, by role and text.\<close>

definition join_line :: "string \<Rightarrow> string \<Rightarrow> string" where
  "join_line a b = (if a = [] then b else a @ CHR 0x0A # b)"

fun anthropic_messages :: "anymap list \<Rightarrow> string \<Rightarrow> string \<times> (string \<times> string) list" where
  "anthropic_messages [] sys = (sys, [])"
| "anthropic_messages (m # ms) sys =
     (let role = string_or [] m ''role''; content = string_or [] m ''content''
      in if role = ''system''
         then anthropic_messages ms (if content = [] then sys else join_line sys content)
         else (let (sys', rest) = anthropic_messages ms sys
               in (sys', if content = [] then rest
                         else (if role = ''assistant'' then ''assistant'' else ''user'', content) # rest)))"

definition anthropic_request :: "string \<Rightarrow> string \<Rightarrow> (string \<times> string) list \<Rightarrow> any" where
  "anthropic_request model sys ms =
     AObj ([(''model'', AStr model),
        (''messages'', AArr (map (\<lambda>(role, text). AObj
           [(''role'', AStr role), (''content'', AArr [AObj [(''type'', AStr ''text''), (''text'', AStr text)]])]) ms))] @
        (if sys = [] then [] else [(''system'', AStr sys)]) @
        [(''max_tokens'', ANum 1024), (''stream'', ABool False)])"

text \<open>The blocks of the answer, by type and text.\<close>

definition block_fields :: "(string \<times> (string \<times> string) setter) list" where
  "block_fields = [(''type'', set_string (\<lambda>x (a, b). (x, b))), (''text'', set_string (\<lambda>x (a, b). (a, x)))]"

fun read_blocks :: "any list \<Rightarrow> (string \<times> string) list option" where
  "read_blocks [] = Some []"
| "read_blocks (v # vs) =
     (case json_into block_fields v ([], []) of
        None \<Rightarrow> None
      | Some b \<Rightarrow> (case read_blocks vs of None \<Rightarrow> None | Some bs \<Rightarrow> Some (b # bs)))"

definition set_blocks :: "(string \<times> string) list setter" where
  "set_blocks v s = (case v of AArr vs \<Rightarrow> read_blocks vs | ANil \<Rightarrow> Some [] | _ \<Rightarrow> None)"

definition set_answer :: "(string \<times> string) list setter" where
  "set_answer = json_into [(''id'', set_string (\<lambda>x s. s)), (''content'', set_blocks)]"

definition combined :: "(string \<times> string) list \<Rightarrow> string" where
  "combined bs = concat (map snd (filter (\<lambda>(t, x). t = ''text'') bs))"

definition anthropic_Chat :: "json_parser \<Rightarrow> 'w http_api \<Rightarrow> anthropic_service \<Rightarrow> ('w \<times> u64) chatter" where
  "anthropic_Chat parse http s st msgs =
     (let (sys, ms) = anthropic_messages msgs []; fails = (\<lambda>e w. (([], Some e), (w, snd st)))
      in if an_key s = [] then fails ''anthropic: missing API key'' (fst st)
         else if ms = [] \<and> sys = [] then fails ''anthropic: no messages provided'' (fst st)
         else (case http (fst st)
                 \<lparr>or_url = ''https://api.anthropic.com/v1/messages'',
                  or_headers = [(''content-type'', ''application/json''), (''x-api-key'', an_key s),
                    (''anthropic-version'', ''2023-06-01'')],
                  or_body = SendJson (anthropic_request (an_model s) sys ms)\<rparr> of
             (Inl e, w) \<Rightarrow> fails (''anthropic: do request: '' @ e) w
           | (Inr r, w) \<Rightarrow>
               if \<not> ok_status r
               then fails (''anthropic: unexpected status '' @ itoa (ir_status r) @ '': '' @ body_text 4096 r) w
               else (case decode_reply parse set_answer [] r of
                   Inl e \<Rightarrow> fails (''anthropic: decode response: '' @ e) w
                 | Inr bs \<Rightarrow>
                     if combined bs = [] then (([], None), (w, snd st))
                     else (let (t, ids) = llm_token (combined bs) True (snd st) in (([t], None), (w, ids))))))"

section \<open>Google and AWS\<close>

text \<open>The system text is the last one that is not empty; a message is by role, \<^verbatim>\<open>model\<close> or \<^verbatim>\<open>user\<close>, and text.\<close>

fun messagesToContents :: "anymap list \<Rightarrow> string \<Rightarrow> (string \<times> string) list \<times> string" where
  "messagesToContents [] sys = ([], sys)"
| "messagesToContents (m # ms) sys =
     (let role = (let r = string_or ''user'' m ''role'' in if r = [] then ''user'' else r);
          content = string_or [] m ''content''
      in if role = ''system'' then messagesToContents ms (if content = [] then sys else content)
         else (let (cs, sys') = messagesToContents ms sys
               in ((if role \<in> {''assistant'', ''model''} then ''model'' else ''user'', content) # cs, sys')))"

text \<open>What is streamed until an error, an empty text for a result without one.\<close>

fun text_stream :: "(err + string) list \<Rightarrow> string list \<times> err option" where
  "text_stream [] = ([], None)"
| "text_stream (Inl e # rs) = ([], Some e)"
| "text_stream (Inr s # rs) = (let (ts, e) = text_stream rs in ((if s = [] then [] else [s]) @ ts, e))"

definition google_Chat ::
  "('w \<Rightarrow> string \<Rightarrow> (string \<times> string) list \<Rightarrow> string option \<Rightarrow> (err + string) list \<times> 'w) \<Rightarrow> string
     \<Rightarrow> ('w \<times> u64) chatter" where
  "google_Chat generate model st msgs =
     (let (contents, sys) = messagesToContents msgs [];
          (rs, w) = generate (fst st) model contents (if sys = [] then None else Some sys);
          (texts, e) = text_stream rs; (toks, ids) = llm_tokens texts (snd st)
      in ((toks, e), (w, ids)))"

definition google_NewLLMService :: "string \<Rightarrow> string" where
  "google_NewLLMService model = or_else ''gemini-2.5-flash'' model"

definition google_NewClient :: "env \<Rightarrow> string \<Rightarrow> string" where
  "google_NewClient e apiKey = key_or e ''GEMINI_API_KEY'' (key_or e ''GOOGLE_API_KEY'' apiKey)"

definition google_NewVertexClient :: "env \<Rightarrow> string \<Rightarrow> string \<Rightarrow> string \<times> string" where
  "google_NewVertexClient e project place =
     (key_or e ''GOOGLE_CLOUD_PROJECT'' project,
      if place = [] then GetEnv e ''GOOGLE_CLOUD_LOCATION'' ''us-central1'' else place)"

definition aws_message :: "anymap \<Rightarrow> string \<times> string" where
  "aws_message m =
     (if string_or [] m ''role'' = ''assistant'' then ''assistant'' else ''user'', string_or [] m ''content'')"

text \<open>An event of the stream is a text or of another kind; the context is done before some event, or never.\<close>

fun aws_events :: "nat option \<Rightarrow> string option list \<Rightarrow> string list \<times> err option" where
  "aws_events done [] = ([], None)"
| "aws_events done (ev # evs) =
     (if done = Some 0 then ([], Some ''context canceled'')
      else (let (ts, e) = aws_events (map_option (\<lambda>n. n - 1) done) evs
            in (case ev of Some s \<Rightarrow> (if s = [] then ts else s # ts, e) | None \<Rightarrow> (ts, e))))"

definition aws_Chat ::
  "('w \<Rightarrow> string \<Rightarrow> (string \<times> string) list \<Rightarrow> (err + nat option \<times> string option list) \<times> 'w) \<Rightarrow> string
     \<Rightarrow> ('w \<times> u64) chatter" where
  "aws_Chat ask model st msgs =
     (case ask (fst st) model (map aws_message msgs) of
        (Inl e, w) \<Rightarrow> (([], Some e), (w, snd st))
      | (Inr (done, evs), w) \<Rightarrow>
          (let (texts, e) = aws_events done evs; (toks, ids) = llm_tokens texts (snd st) in ((toks, e), (w, ids))))"

definition aws_NewLLM :: "string \<Rightarrow> string" where
  "aws_NewLLM modelID = or_else ''anthropic.claude-3-haiku-20240307-v1:0'' modelID"

section \<open>The model of the tests\<close>

text \<open>Every rune is a token of its own. The context may be done while it waits or before some rune.\<close>

definition mock_texts :: "string \<Rightarrow> string list" where
  "mock_texts resp = runes_of (or_else ''hi there'' resp)"

definition mock_Chat :: "string \<Rightarrow> bool \<Rightarrow> nat option \<Rightarrow> ('w \<times> u64) chatter" where
  "mock_Chat resp late done st msgs =
     (let texts = (if late then [] else (case done of None \<Rightarrow> mock_texts resp | Some n \<Rightarrow> take n (mock_texts resp)));
          broken = late \<or> (case done of None \<Rightarrow> False | Some n \<Rightarrow> n < length (mock_texts resp));
          (toks, ids) = fold (\<lambda>s (ts, i). let (t, i') = llm_token s False i in (ts @ [t], i')) texts ([], snd st)
      in ((toks, if broken then Some ''context canceled'' else None), (fst st, ids)))"

end
