(* ===== verification/Mcp.thy ===== *)
theory Mcp
  imports LlmClients
begin

text \<open>
  The client of the tool protocol, \<^verbatim>\<open>pkg/mcp\<close>, and how \<^verbatim>\<open>cmd/voxray/main.go\<close> uses it. The server is a child
  process started for every session; a record of functions says what it answers.
\<close>

section \<open>Sessions with a server\<close>

record mcp_tool =
  mt_name :: string
  mt_description :: string
  mt_schema :: "any option"

text \<open>Parts of a result: texts or something else.\<close>

type_synonym mcp_result = "string option list option"

record 'w mcp_server =
  ms_connect :: "'w \<Rightarrow> string list \<Rightarrow> err option \<times> 'w"
  ms_list :: "'w \<Rightarrow> (err + mcp_tool option list) \<times> 'w"
  ms_call :: "'w \<Rightarrow> string \<Rightarrow> anymap \<Rightarrow> (err + mcp_result) \<times> 'w"
  ms_close :: "'w \<Rightarrow> 'w"

record mcp_client =
  mc_command :: string
  mc_args :: "string list"
  mc_filter :: "string list option"
  mc_outputs :: "string \<rightharpoonup> (string \<Rightarrow> any)"

definition ExecCmd :: "mcp_client \<Rightarrow> string list" where
  "ExecCmd c = mc_command c # mc_args c"

text \<open>The schema of a tool: its properties and its required fields, nothing else of what the server says.\<close>

definition convertMCPToolToSchema :: "mcp_tool \<Rightarrow> fn_schema" where
  "convertMCPToolToSchema t =
     (let given = (case mt_schema t of Some (AObj m) \<Rightarrow> m | _ \<Rightarrow> []);
          field = (\<lambda>k. case key_value given k of Some v \<Rightarrow> [(k, v)] | None \<Rightarrow> []);
          params = [(''type'', AStr ''object'')] @ field ''properties'' @ field ''required''
      in \<lparr>fs_name = mt_name t, fs_description = mt_description t,
          fs_parameters = Some (if key_value params ''properties'' = None
            then params @ [(''properties'', AObj [])] else params)\<rparr>)"

definition tool_wanted :: "mcp_client \<Rightarrow> mcp_tool \<Rightarrow> bool" where
  "tool_wanted c t = (case mc_filter c of None \<Rightarrow> True | Some names \<Rightarrow> mt_name t \<in> set names)"

fun standard_tools :: "mcp_client \<Rightarrow> mcp_tool option list \<Rightarrow> fn_schema list" where
  "standard_tools c [] = []"
| "standard_tools c (None # ts) = standard_tools c ts"
| "standard_tools c (Some t # ts) =
     (if tool_wanted c t then [convertMCPToolToSchema t] else []) @ standard_tools c ts"

definition GetToolsSchema :: "'w mcp_server \<Rightarrow> mcp_client \<Rightarrow> 'w \<Rightarrow> (err + fn_schema list) \<times> 'w" where
  "GetToolsSchema srv c w =
     (case ms_connect srv w (ExecCmd c) of
        (Some e, w1) \<Rightarrow> (Inl e, w1)
      | (None, w1) \<Rightarrow>
          (case ms_list srv w1 of
             (Inl e, w2) \<Rightarrow> (Inl e, ms_close srv w2)
           | (Inr ts, w2) \<Rightarrow> (Inr (standard_tools c ts), ms_close srv w2)))"

definition extractTextFromResult :: "mcp_result \<Rightarrow> string" where
  "extractTextFromResult res = (case res of None \<Rightarrow> [] | Some cs \<Rightarrow> concat (map (\<lambda>c. case c of Some t \<Rightarrow> t | None \<Rightarrow> []) cs))"

text \<open>\<open>marshal\<close> is the JSON text of a value.\<close>

definition toString :: "(any \<Rightarrow> string) \<Rightarrow> any \<Rightarrow> string" where
  "toString marshal v = (case v of ANil \<Rightarrow> [] | AStr s \<Rightarrow> s | _ \<Rightarrow> marshal v)"

definition tool_answer :: "(any \<Rightarrow> string) \<Rightarrow> mcp_client \<Rightarrow> string \<Rightarrow> mcp_result \<Rightarrow> string" where
  "tool_answer marshal c name res =
     (let text = extractTextFromResult res;
          response = (case mc_outputs c name of Some f \<Rightarrow> toString marshal (f text) | None \<Rightarrow> text)
      in or_else ''Sorry, could not call the mcp tool'' response)"

definition toolWrapper :: "(any \<Rightarrow> string) \<Rightarrow> 'w mcp_server \<Rightarrow> mcp_client \<Rightarrow> 'w tool_handler" where
  "toolWrapper marshal srv c w name arguments =
     (case ms_connect srv w (ExecCmd c) of
        (Some e, w1) \<Rightarrow> ((''error: '' @ e, None), w1)
      | (None, w1) \<Rightarrow>
          (case ms_call srv w1 name arguments of
             (Inl e, w2) \<Rightarrow> ((''error: '' @ e, None), ms_close srv w2)
           | (Inr res, w2) \<Rightarrow> ((tool_answer marshal c name res, None), ms_close srv w2)))"

definition RegisterTools ::
  "(any \<Rightarrow> string) \<Rightarrow> 'w mcp_server \<Rightarrow> mcp_client \<Rightarrow> 'w openai_service \<Rightarrow> 'w
     \<Rightarrow> (err + fn_schema list) \<times> 'w openai_service \<times> 'w" where
  "RegisterTools marshal srv c s w =
     (case GetToolsSchema srv c w of
        (Inl e, w1) \<Rightarrow> (Inl e, s, w1)
      | (Inr fs, w1) \<Rightarrow> (Inr fs, fold (\<lambda>f. RegisterTool f (toolWrapper marshal srv c)) fs s, w1))"

text \<open>What \<^verbatim>\<open>main\<close> does for a session: the settings are the command, its arguments and the filter.\<close>

definition session_tools ::
  "(any \<Rightarrow> string) \<Rightarrow> 'w mcp_server \<Rightarrow> (string \<times> string list \<times> string list option) option
     \<Rightarrow> 'w openai_service \<Rightarrow> 'w \<Rightarrow> 'w openai_service \<times> 'w" where
  "session_tools marshal srv settings s w =
     (case settings of
        None \<Rightarrow> (s, w)
      | Some (command, args, names) \<Rightarrow>
          snd (RegisterTools marshal srv
            \<lparr>mc_command = command, mc_args = args, mc_filter = names, mc_outputs = Map.empty\<rparr> s w))"

section \<open>What the tools promise\<close>

lemma fold_RegisterTool:
  "os_schema (fold (\<lambda>f. RegisterTool f h) fs s) = os_schema s @ fs"
  "os_handlers (fold (\<lambda>f. RegisterTool f h) fs s) n = (if n \<in> fs_name ` set fs then Some h else os_handlers s n)"
  "os_client (fold (\<lambda>f. RegisterTool f h) fs s) = os_client s" "os_model (fold (\<lambda>f. RegisterTool f h) fs s) = os_model s"
  by (induction fs arbitrary: s) (auto simp: RegisterTool_def)

lemma standard_tools_names:
  "fs_name ` set (standard_tools c ts) = {mt_name t |t. Some t \<in> set ts \<and> tool_wanted c t}"
  by (induction c ts rule: standard_tools.induct) (auto simp: convertMCPToolToSchema_def Let_def)

text \<open>Every session with the server is closed, and every tool answers with a text that is not empty and without an
  error, whatever the server does: the model is told of a failure in words.\<close>

definition balanced :: "('w \<Rightarrow> int) \<Rightarrow> 'w mcp_server \<Rightarrow> bool" where
  "balanced n srv \<longleftrightarrow>
     (\<forall>w cmd. n (snd (ms_connect srv w cmd)) = n w + (if fst (ms_connect srv w cmd) = None then 1 else 0)) \<and>
     (\<forall>w. n (snd (ms_list srv w)) = n w) \<and> (\<forall>w m a. n (snd (ms_call srv w m a)) = n w) \<and>
     (\<forall>w. n (ms_close srv w) = n w - 1)"

lemma tool_calls_balanced:
  assumes "balanced n srv"
  shows "n (snd (toolWrapper marshal srv c w name args)) = n w" "n (snd (GetToolsSchema srv c w)) = n w"
proof -
  obtain r w1 where c: "ms_connect srv w (ExecCmd c) = (r, w1)" by fastforce
  have n1: "n w1 = n w + (if r = None then 1 else 0)" using assms c unfolding balanced_def by (metis fst_conv snd_conv)
  obtain r2 w2 where l: "ms_list srv w1 = (r2, w2)" by fastforce
  obtain r3 w3 where k: "ms_call srv w1 name args = (r3, w3)" by fastforce
  have n2: "n w2 = n w1" "n w3 = n w1" "n (ms_close srv w2) = n w2 - 1" "n (ms_close srv w3) = n w3 - 1"
    using assms l k unfolding balanced_def by (metis snd_conv)+
  show "n (snd (toolWrapper marshal srv c w name args)) = n w"
    using n1 n2 by (simp add: toolWrapper_def c k split: option.splits sum.splits)
  show "n (snd (GetToolsSchema srv c w)) = n w"
    using n1 n2 by (simp add: GetToolsSchema_def c l split: option.splits sum.splits)
qed

lemma tool_answers:
  "\<exists>r. fst (toolWrapper marshal srv c w name args) = (r, None) \<and> r \<noteq> []"
  by (auto simp: toolWrapper_def tool_answer_def or_else_def Let_def split: prod.splits option.splits sum.splits)

text \<open>The tools of a session are those the server has and the filter lets through, and no session with the
  server is left open by listing or calling them; an empty filter, unlike a missing one, lets none through.\<close>

theorem tools_registered:
  assumes "balanced n srv" "GetToolsSchema srv c w = (Inr fs, w1)" "ms_list srv (snd (ms_connect srv w (ExecCmd c))) = (Inr ts, w2)"
  shows "dom (os_handlers (fst (snd (RegisterTools marshal srv c s w)))) =
      dom (os_handlers s) \<union> {mt_name t |t. Some t \<in> set ts \<and> tool_wanted c t} \<and>
    n (snd (snd (RegisterTools marshal srv c s w))) = n w"
proof -
  have "fs = standard_tools c ts"
    using assms(2,3) by (auto simp: GetToolsSchema_def split: prod.splits option.splits)
  moreover have "n w1 = n w" using tool_calls_balanced(2) [OF assms(1), of c w] assms(2) by simp
  ultimately show ?thesis
    by (auto simp: RegisterTools_def assms(2) fold_RegisterTool standard_tools_names dom_def)
qed

definition clock_server :: "int mcp_server" where
  "clock_server =
     \<lparr>ms_connect = (\<lambda>n cmd. (None, n + 1)),
      ms_list = (\<lambda>n. (Inr [Some \<lparr>mt_name = ''time'', mt_description = [], mt_schema = None\<rparr>, None], n)),
      ms_call = (\<lambda>n m a. (Inr (Some [Some ''12:00'']), n)), ms_close = (\<lambda>n. n - 1)\<rparr>"

definition clock_client :: mcp_client where
  "clock_client = \<lparr>mc_command = ''clock'', mc_args = [], mc_filter = None, mc_outputs = Map.empty\<rparr>"

lemma tools_registered_witness:
  "dom (os_handlers (fst (snd (RegisterTools (\<lambda>_. []) clock_server clock_client
      (openai_NewService (\<lambda>_. []) [] []) 0)))) = {''time''}"
proof -
  let ?s = "openai_NewService (\<lambda>_. []) [] [] :: int openai_service"
  have "balanced id clock_server" by (simp add: balanced_def clock_server_def)
  note t = tools_registered [OF this, of clock_client 0 _ _ _ _ "\<lambda>_. []" ?s]
  have "dom (os_handlers (fst (snd (RegisterTools (\<lambda>_. []) clock_server clock_client ?s 0)))) =
      dom (os_handlers ?s) \<union> {mt_name t |t. Some t \<in> set [Some \<lparr>mt_name = ''time'', mt_description = [], mt_schema = None\<rparr>, None]
        \<and> tool_wanted clock_client t}"
    by (rule conjunct1 [OF t]) (simp_all add: GetToolsSchema_def clock_server_def)
  then show ?thesis by (simp add: openai_NewService_def tool_wanted_def clock_client_def)
qed

end
