(* ===== verification/SttClients.thy ===== *)
theory SttClients
  imports Remote ServiceFactory VoiceServices Wav LlmClients
begin

text \<open>
  The clients of transcription services under \<^verbatim>\<open>pkg/services\<close>: \<^verbatim>\<open>stt\<close> (OpenAI and Groq), \<^verbatim>\<open>whisper\<close>, \<^verbatim>\<open>camb\<close>,
  \<^verbatim>\<open>gradium\<close>, \<^verbatim>\<open>elevenlabs\<close>, \<^verbatim>\<open>soniox\<close>, \<^verbatim>\<open>sarvam\<close>, \<^verbatim>\<open>aws\<close>, \<^verbatim>\<open>google\<close> and \<^verbatim>\<open>mock\<close>. A client has the type \<open>transcriber\<close> of
  the processor that uses it, with the state of the remote side and the counter of frame ids as its state.
\<close>

section \<open>What a client promises\<close>

definition transcribed_as :: "string \<Rightarrow> string \<Rightarrow> string \<Rightarrow> u64 \<Rightarrow> transcription \<times> u64" where
  "transcribed_as text user lang ids =
     (let (b, ids') = NewBase ids in ((b, text_of text, user, [], lang, True), ids'))"

definition answers_text :: "string \<Rightarrow> string \<Rightarrow> 'w \<Rightarrow> u64 \<Rightarrow> (err + transcription list) \<times> 'w \<times> u64" where
  "answers_text text lang w ids =
     (let (t, ids') = transcribed_as text ''user'' lang ids in (Inr [t], (w, ids')))"

definition final_transcription :: "transcription \<Rightarrow> bool" where
  "final_transcription t = snd (snd (snd (snd (snd t))))"

text \<open>The interface: whatever the remote side does, what a client answers are final transcriptions.\<close>

locale transcription_client =
  fixes tr :: "'v transcriber"
  assumes finals: "fst (tr v a rate ch) = Inr ts \<Longrightarrow> list_all final_transcription ts"
begin

lemma frames_final:
  assumes "fst (tr v a rate ch) = Inr ts" "f \<in> set (transcript_frames ts)"
  shows "\<exists>b t user time lang. f = Frame b (TranscriptionFrame t user time lang True)"
  using finals [OF assms(1)] assms(2)
  by (auto simp: transcript_frames_def list_all_iff final_transcription_def Let_def split: if_splits)

text \<open>A transcription processor with such a client pushes nothing provisional.\<close>

lemma processor_final:
  assumes "STTProcessFrame tr rsp p f Downstream = (p', es, e)" "fbody f = AudioRawFrame a"
    "Push Downstream g \<in> set es" "\<And>x y z. fbody g \<noteq> ErrorFrame x y z"
  shows "\<exists>t user time lang. fbody g = TranscriptionFrame t user time lang True"
proof -
  obtain p1 s where b: "stt_buffer p (audio a) = (p1, s)" by fastforce
  show ?thesis
  proof (cases s)
    case None
    then show ?thesis using assms b by (auto simp: STTProcessFrame_def)
  next
    case (Some x)
    obtain ans v where t: "tr (stt_svc p1) x (stt_rate p1) (stt_channels p1) = (ans, v)" by fastforce
    show ?thesis
    proof (cases ans)
      case (Inl er)
      then have "\<exists>ef. es = [CallTranscribe x (stt_rate p1) (stt_channels p1), sends ef] \<and>
          ef = fst (NewErrorFrame er False (stt_name p1) (stt_ids p1))"
        using assms b t Some by (auto simp: STTProcessFrame_def case_prod_beta Let_def)
      then show ?thesis using assms(3,4) by (auto simp: sends_def NewErrorFrame_def)
    next
      case (Inr ts)
      then have "es = CallTranscribe x (stt_rate p1) (stt_channels p1) # map sends (transcript_frames ts)"
        using assms b t Some by (auto simp: STTProcessFrame_def)
      then have "g \<in> set (transcript_frames ts)" using assms(3) by (auto simp: sends_def)
      then show ?thesis using frames_final [of "stt_svc p1" x "stt_rate p1" "stt_channels p1" ts g] t Inr by auto
    qed
  qed
qed

end

lemma answers_text_simps [simp]:
  "fst (answers_text text lang w ids) = Inr ts \<Longrightarrow> list_all final_transcription ts"
  by (auto simp: answers_text_def transcribed_as_def final_transcription_def Let_def case_prod_beta)

section \<open>OpenAI, Groq and Whisper\<close>

text \<open>The audio is written to a temporary file, which may fail (\<open>temp\<close>), and sent under the name of the file. The
  API gets the address, the key, the model, the ending of the name and the bytes; it answers with a text and a
  language.\<close>

type_synonym 'w audio_apis = "string \<Rightarrow> string \<Rightarrow> 'w \<Rightarrow> string \<times> string \<times> byte list \<Rightarrow> (err + string \<times> string) \<times> 'w"

definition send_file ::
  "('w \<Rightarrow> err option) \<Rightarrow> 'w audio_apis \<Rightarrow> openai_client \<Rightarrow> string \<Rightarrow> string \<Rightarrow> ('w \<times> u64) transcriber" where
  "send_file temp api c model ending st a rate ch =
     (case temp (fst st) of
        Some e \<Rightarrow> (Inl e, st)
      | None \<Rightarrow>
          (case api (oc_base c) (oc_key c) (fst st) (model, ending, a) of
             (Inl e, w) \<Rightarrow> (Inl e, (w, snd st))
           | (Inr (text, lang), w) \<Rightarrow> answers_text text lang w (snd st)))"

definition stt_NewOpenAI :: "env \<Rightarrow> string \<Rightarrow> openai_client" where
  "stt_NewOpenAI e apiKey = \<lparr>oc_base = ''https://api.openai.com/v1'', oc_key = key_or e ''OPENAI_API_KEY'' apiKey\<rparr>"

definition stt_openai_Transcribe where
  "stt_openai_Transcribe temp api c = send_file temp api c ''whisper-1'' ''.mp3''"

definition stt_NewGroqWithModel :: "env \<Rightarrow> string \<Rightarrow> string \<Rightarrow> llm_service" where
  "stt_NewGroqWithModel e apiKey model =
     \<lparr>ls_client = groq_NewClient e (key_or e ''GROQ_API_KEY'' apiKey), ls_model = or_else ''whisper-large-v3'' model\<rparr>"

definition stt_groq_Transcribe where
  "stt_groq_Transcribe temp api s = send_file temp api (ls_client s) (ls_model s) ''.wav''"

definition whisper_NewService :: "env \<Rightarrow> string \<Rightarrow> string \<Rightarrow> openai_client" where
  "whisper_NewService e apiKey baseURL =
     (let url = key_or e ''WHISPER_BASE_URL'' baseURL
      in \<lparr>oc_base = or_else ''https://api.openai.com/v1'' url,
          oc_key = key_or e ''OPENAI_API_KEY'' (key_or e ''WHISPER_API_KEY'' apiKey)\<rparr>)"

definition whisper_Transcribe where
  "whisper_Transcribe temp api c = send_file temp api c ''whisper-1'' ''.mp3''"

text \<open>The streams of these clients: the chunks are collected until the channel is closed or the context is done,
  and then transcribed; an error is dropped.\<close>

definition TranscribeStream ::
  "'v transcriber \<Rightarrow> 'v \<Rightarrow> byte list list \<Rightarrow> int \<Rightarrow> int \<Rightarrow> transcription list \<times> 'v" where
  "TranscribeStream tr st chunks rate ch =
     (if concat chunks = [] then ([], st)
      else (case tr st (concat chunks) rate ch of (Inl e, st') \<Rightarrow> ([], st') | (Inr ts, st') \<Rightarrow> (ts, st')))"

definition stt_openai_TranscribeStream where
  "stt_openai_TranscribeStream temp api c = TranscribeStream (stt_openai_Transcribe temp api c)"

definition stt_groq_TranscribeStream where
  "stt_groq_TranscribeStream temp api s = TranscribeStream (stt_groq_Transcribe temp api s)"

definition whisper_TranscribeStream where
  "whisper_TranscribeStream temp api c = TranscribeStream (whisper_Transcribe temp api c)"

interpretation openai_stt: transcription_client "stt_openai_Transcribe temp api c"
  by unfold_locales (auto simp: stt_openai_Transcribe_def send_file_def split: option.splits prod.splits sum.splits)

interpretation groq_stt: transcription_client "stt_groq_Transcribe temp api s"
  by unfold_locales (auto simp: stt_groq_Transcribe_def send_file_def split: option.splits prod.splits sum.splits)

interpretation whisper_stt: transcription_client "whisper_Transcribe temp api c"
  by unfold_locales (auto simp: whisper_Transcribe_def send_file_def split: option.splits prod.splits sum.splits)

section \<open>Camb and Gradium\<close>

record upload_service =
  us_key :: string
  us_url :: string
  us_model :: string

definition camb_NewSTT :: "env \<Rightarrow> string \<Rightarrow> string \<Rightarrow> string \<Rightarrow> upload_service" where
  "camb_NewSTT e apiKey baseURL model =
     \<lparr>us_key = apiKey, us_url = (if baseURL = [] then GetEnv e ''CAMB_BASE_URL'' ''https://api.camb.ai'' else baseURL),
      us_model = model\<rparr>"

definition gradium_NewSTT :: "env \<Rightarrow> string \<Rightarrow> string \<Rightarrow> string \<Rightarrow> upload_service" where
  "gradium_NewSTT e apiKey baseURL model =
     \<lparr>us_key = apiKey,
      us_url = (if baseURL = [] then GetEnv e ''GRADIUM_BASE_URL'' ''https://api.gradium.ai'' else baseURL),
      us_model = model\<rparr>"

text \<open>The text of a reply, from what of it is JSON of the right types.\<close>

definition upload_text :: "any option \<Rightarrow> string" where
  "upload_text v =
     (let (text, transcript) =
        (case v of
           None \<Rightarrow> ([], [])
         | Some v \<Rightarrow> lenient_into [(''text'', set_string (\<lambda>x (a, b). (x, b))),
             (''transcript'', set_string (\<lambda>x (a, b). (a, x)))] v ([], []))
      in or_else transcript text)"

definition upload_request :: "upload_service \<Rightarrow> byte list \<Rightarrow> out_request" where
  "upload_request s a =
     \<lparr>or_url = us_url s @ ''/v1/transcribe'', or_headers = [(''Authorization'', ''Bearer '' @ us_key s)],
      or_body = SendForm (FormFile ''audio'' ''audio.wav'' a #
        (if us_model s = [] then [] else [FormField ''model'' (us_model s)]))\<rparr>"

definition upload_Transcribe ::
  "string \<Rightarrow> json_parser \<Rightarrow> 'w http_api \<Rightarrow> upload_service \<Rightarrow> ('w \<times> u64) transcriber" where
  "upload_Transcribe who parse http s st a rate ch =
     (if a = [] then (Inr [], st)
      else (case http (fst st) (upload_request s a) of
          (Inl e, w) \<Rightarrow> (Inl e, (w, snd st))
        | (Inr r, w) \<Rightarrow>
            (case ir_body r of
               Inl e \<Rightarrow> (Inl e, (w, snd st))
             | Inr body \<Rightarrow>
                 if ir_status r \<noteq> 200
                 then (Inl (who @ '' STT: '' @ ir_line r @ '': '' @ string_of body), (w, snd st))
                 else answers_text (upload_text (parse body)) [] w (snd st))))"

definition camb_Transcribe where "camb_Transcribe parse http s = upload_Transcribe ''camb'' parse http s"

definition gradium_Transcribe where "gradium_Transcribe parse http s = upload_Transcribe ''gradium'' parse http s"

interpretation camb_stt: transcription_client "camb_Transcribe parse http s"
  by unfold_locales (auto simp: camb_Transcribe_def upload_Transcribe_def split: if_splits prod.splits sum.splits)

interpretation gradium_stt: transcription_client "gradium_Transcribe parse http s"
  by unfold_locales (auto simp: gradium_Transcribe_def upload_Transcribe_def split: if_splits prod.splits sum.splits)

section \<open>ElevenLabs\<close>

definition pcmToWAV :: "byte list \<Rightarrow> int \<Rightarrow> int \<Rightarrow> byte list" where
  "pcmToWAV pcm sampleRate channels =
     (let numChannels = (if channels \<le> 0 then 1 else channels);
          total = 44 + length pcm
      in ascii ''RIFF'' @ put32 (word_of_nat (total - 8)) @ ascii ''WAVE'' @ ascii ''fmt '' @ put32 16 @ put16 1
           @ put16 (word_of_int numChannels) @ put32 (word_of_int sampleRate)
           @ put32 (word_of_int (sampleRate * numChannels * 2)) @ put16 (word_of_int (numChannels * 2)) @ put16 16
           @ ascii ''data'' @ put32 (word_of_nat (length pcm)) @ pcm)"

definition elevenlabs_NewSTT :: "env \<Rightarrow> string \<Rightarrow> string \<Rightarrow> upload_service" where
  "elevenlabs_NewSTT e apiKey modelID =
     \<lparr>us_key = key_or e ''ELEVENLABS_API_KEY'' apiKey, us_url = ''https://api.elevenlabs.io/v1'',
      us_model = or_else ''scribe_v1'' modelID\<rparr>"

definition elevenlabs_upload :: "upload_service \<Rightarrow> byte list \<Rightarrow> int \<Rightarrow> int \<Rightarrow> out_request" where
  "elevenlabs_upload s a rate ch =
     \<lparr>or_url = us_url s @ ''/speech-to-text'', or_headers = [(''xi-api-key'', us_key s)],
      or_body = SendForm [FormFile ''file'' ''audio.wav'' (pcmToWAV a (if rate \<le> 0 then 16000 else rate) ch),
        FormField ''model_id'' (us_model s)]\<rparr>"

definition elevenlabs_fields :: "(string \<times> (string \<times> string) setter) list" where
  "elevenlabs_fields =
     [(''text'', set_string (\<lambda>x (a, b). (x, b))), (''language_code'', set_string (\<lambda>x (a, b). (a, x))),
      (''language_probability'', set_number (\<lambda>x s. s)), (''transcription_id'', set_string (\<lambda>x s. s))]"

definition elevenlabs_Transcribe :: "json_parser \<Rightarrow> 'w http_api \<Rightarrow> upload_service \<Rightarrow> ('w \<times> u64) transcriber" where
  "elevenlabs_Transcribe parse http s st a rate ch =
     (case http (fst st) (elevenlabs_upload s a rate ch) of
        (Inl e, w) \<Rightarrow> (Inl (''elevenlabs stt: request: '' @ e), (w, snd st))
      | (Inr r, w) \<Rightarrow>
          (case ir_body r of
             Inl e \<Rightarrow> (Inl (''elevenlabs stt: read body: '' @ e), (w, snd st))
           | Inr body \<Rightarrow>
               if ir_status r \<noteq> 200
               then (Inl (''elevenlabs stt: '' @ ir_line r @ '': '' @ string_of body), (w, snd st))
               else (case decode_reply parse (json_into elevenlabs_fields) ([], []) r of
                   Inl e \<Rightarrow> (Inl (''elevenlabs stt: decode: '' @ e), (w, snd st))
                 | Inr (text, lang) \<Rightarrow> answers_text text lang w (snd st))))"

interpretation elevenlabs_stt: transcription_client "elevenlabs_Transcribe parse http s"
  by unfold_locales (auto simp: elevenlabs_Transcribe_def split: if_splits prod.splits sum.splits)

text \<open>The header is the one the decoder of this program reads: it is the header of a written file.\<close>

lemma pcmToWAV_image:
  assumes "ch \<le> 1"
  shows "pcmToWAV pcm rate ch = wav_image pcm rate"
proof -
  have "(word_of_nat (36 + length pcm) :: u32) = 36 + word_of_nat (length pcm)" by simp
  moreover have "(if ch \<le> 0 then 1 else ch) = 1" using assms by simp
  ultimately show ?thesis using byte_rate_word [of rate] by (simp add: pcmToWAV_def wav_image_def Let_def)
qed

text \<open>What is uploaded to ElevenLabs reads back as the audio: for one channel, a positive rate and audio that
  fits the header, decoding the file of the form gives the samples and their rate.\<close>

theorem elevenlabs_upload_decodes:
  assumes "ch \<le> 1" "0 < rate" "rate < 2 ^ 32" "pcm \<noteq> []" "length pcm < 2 ^ 32"
  shows "\<exists>file. or_body (elevenlabs_upload s pcm rate ch) =
      SendForm [FormFile ''file'' ''audio.wav'' file, FormField ''model_id'' (us_model s)] \<and>
    DecodeWAVToPCM file = Inr (pcm, nat rate)"
  using assms decode_wav_image [of pcm rate] by (simp add: elevenlabs_upload_def pcmToWAV_image)

lemma elevenlabs_upload_decodes_witness:
  "\<exists>file. or_body (elevenlabs_upload (elevenlabs_NewSTT (\<lambda>_. []) ''key'' []) [1, 0, 2, 0] 16000 1) =
      SendForm [FormFile ''file'' ''audio.wav'' file,
        FormField ''model_id'' (us_model (elevenlabs_NewSTT (\<lambda>_. []) ''key'' []))] \<and>
    DecodeWAVToPCM file = Inr ([1, 0, 2, 0], nat 16000)"
  by (rule elevenlabs_upload_decodes) simp_all

text \<open>The files sent to Camb and Gradium have the same name but are the bare samples, which is no such file unless
  the audio itself begins with a header; the temporary files of OpenAI, Groq and Whisper are bare samples too.\<close>

lemma bare_upload_no_file:
  assumes "take 4 pcm \<noteq> ascii ''RIFF''"
  shows "FormFile ''audio'' ''audio.wav'' pcm \<in> set (case or_body (upload_request s pcm) of SendForm f \<Rightarrow> f | _ \<Rightarrow> [])"
    and "\<exists>e. DecodeWAVToPCM pcm = Inl e"
  using assms by (simp_all add: upload_request_def DecodeWAVToPCM_def)

section \<open>Soniox\<close>

record soniox_service =
  sx_key :: string
  sx_url :: string
  sx_model :: string

definition soniox_NewSTT :: "env \<Rightarrow> string \<Rightarrow> string \<Rightarrow> string \<Rightarrow> soniox_service" where
  "soniox_NewSTT e apiKey url model =
     \<lparr>sx_key = apiKey,
      sx_url = (if url = [] then GetEnv e ''SONIOX_WS_URL'' ''wss://stt-rt.soniox.com/transcribe-websocket'' else url),
      sx_model = (if model = [] then GetEnv e ''SONIOX_MODEL'' ''stt-rt-v4'' else model)\<rparr>"

function chunks_of :: "nat \<Rightarrow> byte list \<Rightarrow> byte list list" where
  "chunks_of n a = (if a = [] \<or> n = 0 then [] else take n a # chunks_of n (drop n a))"
  by pat_completeness auto
termination by (relation "measure (length \<circ> snd)") auto

declare chunks_of.simps [simp del]

lemma concat_chunks_of: "0 < n \<Longrightarrow> concat (chunks_of n a) = a"
proof (induction n a rule: chunks_of.induct)
  case (1 n a)
  then show ?case by (subst chunks_of.simps) auto
qed

datatype ws_message = WsText any | WsBinary "byte list" | WsClose

definition soniox_config :: "soniox_service \<Rightarrow> int \<Rightarrow> int \<Rightarrow> any" where
  "soniox_config s rate ch =
     AObj [(''api_key'', AStr (sx_key s)), (''audio_format'', AStr ''pcm_s16le''),
       (''enable_endpoint_detection'', ABool False), (''model'', AStr (sx_model s)),
       (''num_channels'', ANum (of_int ch)), (''sample_rate'', ANum (of_int rate))]"

definition soniox_writes :: "soniox_service \<Rightarrow> byte list \<Rightarrow> int \<Rightarrow> int \<Rightarrow> ws_message list" where
  "soniox_writes s a rate ch =
     WsText (soniox_config s rate ch) # map WsBinary (chunks_of 4096 a) @
     [WsText (AObj [(''type'', AStr ''finalize'')])]"

text \<open>A message read: its tokens, by text and whether they are final, and whether it is the last; \<open>None\<close> is a message
  that does not decode.\<close>

record soniox_message =
  sm_tokens :: "(string \<times> bool) list"
  sm_finished :: bool

definition token_text :: "string \<times> bool \<Rightarrow> string" where
  "token_text t = (if fst t = '' '' then [] else fst t)"

fun soniox_read :: "soniox_message option list \<Rightarrow> string \<Rightarrow> string \<times> bool" where
  "soniox_read [] acc = (acc, False)"
| "soniox_read (None # ms) acc = soniox_read ms acc"
| "soniox_read (Some m # ms) acc =
     (let acc' = acc @ concat (map token_text (sm_tokens m))
      in if sm_finished m then (acc', True) else soniox_read ms acc')"

text \<open>How a session goes: the error of a write, if one fails, what is read, and the context if it is done first.\<close>

record soniox_session =
  ss_write_error :: "err option"
  ss_reads :: "soniox_message option list"
  ss_cancelled :: "err option"

definition soniox_Transcribe ::
  "('w \<Rightarrow> string \<Rightarrow> ws_message list \<Rightarrow> (err + soniox_session) \<times> 'w) \<Rightarrow> soniox_service \<Rightarrow> ('w \<times> u64) transcriber" where
  "soniox_Transcribe dial s st a rate ch =
     (if a = [] then (Inr [], st)
      else (case dial (fst st) (sx_url s) (soniox_writes s a rate ch) of
              (Inl e, w) \<Rightarrow> (Inl (''soniox dial: '' @ e), (w, snd st))
            | (Inr r, w) \<Rightarrow>
                (case ss_write_error r of
                   Some e \<Rightarrow> (Inl e, (w, snd st))
                 | None \<Rightarrow>
                     (case ss_cancelled r of
                        Some e \<Rightarrow> (Inl e, (w, snd st))
                      | None \<Rightarrow>
                          (let (text, finished) = soniox_read (ss_reads r) []
                           in if finished then answers_text text [] w (snd st)
                              else (Inl ''soniox: timeout waiting for transcript'', (w, snd st)))))))"

interpretation soniox_stt: transcription_client "soniox_Transcribe dial s"
  by unfold_locales (auto simp: soniox_Transcribe_def Let_def case_prod_beta split: if_splits prod.splits sum.splits option.splits)

text \<open>The messages that are read, up to the last one.\<close>

fun until_finished :: "soniox_message option list \<Rightarrow> soniox_message list" where
  "until_finished [] = []"
| "until_finished (None # ms) = until_finished ms"
| "until_finished (Some m # ms) = (if sm_finished m then [m] else m # until_finished ms)"

definition words_of :: "(string \<times> bool \<Rightarrow> bool) \<Rightarrow> soniox_message list \<Rightarrow> string" where
  "words_of P ms = concat (map token_text (filter P (concat (map sm_tokens ms))))"

lemma soniox_read_words: "fst (soniox_read ms acc) = acc @ words_of (\<lambda>_. True) (until_finished ms)"
  by (induction ms acc rule: soniox_read.induct) (simp_all add: words_of_def Let_def)

lemma words_split:
  "length (words_of (\<lambda>_. True) ms) = length (words_of snd ms) + length (words_of (\<lambda>t. \<not> snd t) ms)"
proof -
  have "length (concat (map token_text ts)) = length (concat (map token_text (filter snd ts))) +
      length (concat (map token_text (filter (\<lambda>t. \<not> snd t) ts)))" for ts
  proof (induction ts)
    case (Cons t ts)
    then show ?case by (cases "snd t") simp_all
  qed simp
  from this [of "concat (map sm_tokens ms)"] show ?thesis by (simp add: words_of_def)
qed

text \<open>A transcript of Soniox is the final text only if nothing provisional was ever said: a token that is not
  final is added to the text like a final one, although the API repeats it in a later message, so that words are
  doubled as soon as one of them was recognised provisionally.\<close>

theorem soniox_doubles_words:
  "fst (soniox_read ms []) = words_of snd (until_finished ms) \<longleftrightarrow> words_of (\<lambda>t. \<not> snd t) (until_finished ms) = []"
proof -
  let ?ms = "until_finished ms"
  have "concat (map token_text (filter (\<lambda>t. \<not> snd t) ts)) = [] \<Longrightarrow>
      concat (map token_text (filter snd ts)) = concat (map token_text ts)" for ts
  proof (induction ts)
    case (Cons t ts)
    then show ?case by (cases "snd t") simp_all
  qed simp
  from this [of "concat (map sm_tokens ?ms)"] have "words_of (\<lambda>t. \<not> snd t) ?ms = [] \<Longrightarrow> words_of snd ?ms = words_of (\<lambda>_. True) ?ms"
    by (simp add: words_of_def)
  then show ?thesis using words_split [of ?ms] by (auto simp: soniox_read_words)
qed

section \<open>Sarvam\<close>

definition is_wav :: "byte list \<Rightarrow> bool" where
  "is_wav a \<longleftrightarrow> 12 \<le> length a \<and> take 4 a = ascii ''RIFF'' \<and> take 4 (drop 8 a) = ascii ''WAVE''"

record sarvam_stt =
  sv_service :: upload_service
  sv_language :: string

definition sarvam_NewSTTWithLanguage :: "env \<Rightarrow> string \<Rightarrow> string \<Rightarrow> string \<Rightarrow> sarvam_stt" where
  "sarvam_NewSTTWithLanguage e apiKey model lang =
     \<lparr>sv_service = \<lparr>us_key = key_or e ''SARVAM_API_KEY'' apiKey, us_url = ''https://api.sarvam.ai'',
        us_model = or_else ''saarika:v2.5'' model\<rparr>, sv_language = lang\<rparr>"

text \<open>\<open>agent\<close> is the header that names the program.\<close>

definition sarvam_upload :: "string \<Rightarrow> sarvam_stt \<Rightarrow> byte list \<Rightarrow> out_request" where
  "sarvam_upload agent s a =
     \<lparr>or_url = us_url (sv_service s) @ ''/speech-to-text'',
      or_headers = [(''api-subscription-key'', us_key (sv_service s)), (''User-Agent'', agent)],
      or_body = SendForm ([FormFile ''file'' (if is_wav a then ''audio.wav'' else ''audio.pcm'') a,
        FormField ''model'' (us_model (sv_service s)),
        FormField ''input_audio_codec'' (if is_wav a then ''wav'' else ''pcm_s16le'')] @
        (if sv_language s = [] then [] else [FormField ''language_code'' (sv_language s)]))\<rparr>"

definition sarvam_fields :: "(string \<times> (string \<times> string) setter) list" where
  "sarvam_fields =
     [(''transcript'', set_string (\<lambda>x (a, b). (x, b))),
      (''language_code'', (\<lambda>v (a, b). if v = ANil then Some (a, []) else set_string (\<lambda>x (a, b). (a, x)) v (a, b))),
      (''request_id'', set_string (\<lambda>x s. s)),
      (''language_probability'', set_number (\<lambda>x s. s))]"

definition status_error :: "string \<Rightarrow> in_reply \<Rightarrow> byte list \<Rightarrow> err" where
  "status_error who r body = who @ '' error: status='' @ itoa (ir_status r) @ '' body='' @ string_of (take 512 body)"

definition sarvam_Transcribe :: "string \<Rightarrow> json_parser \<Rightarrow> 'w http_api \<Rightarrow> sarvam_stt \<Rightarrow> ('w \<times> u64) transcriber" where
  "sarvam_Transcribe agent parse http s st a rate ch =
     (if a = [] then (Inr [], st)
      else (case http (fst st) (sarvam_upload agent s a) of
          (Inl e, w) \<Rightarrow> (Inl e, (w, snd st))
        | (Inr r, w) \<Rightarrow>
            (case ir_body r of
               Inl e \<Rightarrow> (Inl e, (w, snd st))
             | Inr body \<Rightarrow>
                 if ir_status r \<noteq> 200 then (Inl (status_error ''sarvam STT'' r body), (w, snd st))
                 else (case decode_reply parse (json_into sarvam_fields) ([], []) r of
                     Inl e \<Rightarrow> (Inl e, (w, snd st))
                   | Inr (text, lang) \<Rightarrow> answers_text text lang w (snd st)))))"

interpretation sarvam_stt: transcription_client "sarvam_Transcribe agent parse http s"
  by unfold_locales (auto simp: sarvam_Transcribe_def split: if_splits prod.splits sum.splits)

text \<open>The streaming variant. All audio is collected first; then one message is sent, the closing message follows, and
  from then on the reader, which stands at a choice between handing a transcript on and ending, may end. A message
  that is read is its text, transcript and language, or does not decode; with each goes the choice made there.\<close>

fun sarvam_reader :: "((string \<times> string \<times> string) option \<times> bool) list \<Rightarrow> u64 \<Rightarrow> transcription list \<times> u64" where
  "sarvam_reader [] ids = ([], ids)"
| "sarvam_reader ((None, go) # ms) ids = sarvam_reader ms ids"
| "sarvam_reader ((Some (text, transcript, lang), go) # ms) ids =
     (let t = or_else transcript text
      in if t = [] then sarvam_reader ms ids
         else (let (x, ids1) = transcribed_as t ''user'' lang ids
               in if go then (let (xs, ids2) = sarvam_reader ms ids1 in (x # xs, ids2)) else ([], ids1)))"

definition sarvam_stream_codec :: "byte list list \<Rightarrow> string \<times> string" where
  "sarvam_stream_codec chunks =
     (case filter (\<lambda>c. c \<noteq> []) chunks of
        c # cs \<Rightarrow> if is_wav c then (''wav'', ''audio/wav'') else (''pcm_s16le'', ''audio/pcm'')
      | [] \<Rightarrow> (''pcm_s16le'', ''audio/pcm''))"

definition sarvam_stream_message :: "byte list list \<Rightarrow> int \<Rightarrow> any" where
  "sarvam_stream_message chunks rate =
     AObj [(''audio'', AStr (EncodeToString (concat chunks))), (''encoding'', AStr (snd (sarvam_stream_codec chunks))),
       (''sample_rate'', ANum (of_int rate))]"

text \<open>The parameters of the address, in the order of their names.\<close>

definition sarvam_stream_query :: "sarvam_stt \<Rightarrow> int \<Rightarrow> string \<Rightarrow> (string \<times> string) list" where
  "sarvam_stream_query s rate codec =
     [(''high_vad_sensitivity'', ''true''), (''input_audio_codec'', codec),
      (''language-code'', or_else ''en-IN'' (sv_language s)), (''mode'', ''transcribe''),
      (''model'', us_model (sv_service s)), (''sample_rate'', itoa rate)]"

datatype stream_out = OutTranscript transcription | OutError err

definition runSTTStreaming ::
  "('w \<Rightarrow> (string \<times> string) list \<Rightarrow> any \<Rightarrow> (err + ((string \<times> string \<times> string) option \<times> bool) list) \<times> 'w)
     \<Rightarrow> sarvam_stt \<Rightarrow> 'w \<times> u64 \<Rightarrow> byte list list \<Rightarrow> int \<Rightarrow> stream_out list \<times> 'w \<times> u64" where
  "runSTTStreaming dial s st chunks rate =
     (if concat chunks = [] then ([], st)
      else (case dial (fst st) (sarvam_stream_query s rate (fst (sarvam_stream_codec chunks)))
              (sarvam_stream_message chunks rate) of
          (Inl e, w) \<Rightarrow> ([OutError (''sarvam STT streaming: '' @ e)], (w, nextID (snd st)))
        | (Inr ms, w) \<Rightarrow>
            (let (ts, ids) = sarvam_reader ms (snd st) in (map OutTranscript ts, (w, ids)))))"

text \<open>The transcripts come after the closing message, so every choice may end the stream with the transcript lost.\<close>

lemma sarvam_stream_may_lose: "\<exists>go. fst (sarvam_reader [(Some (''hello'', [], []), go)] ids) = []"
  by (rule exI [of _ False]) (simp add: or_else_def case_prod_beta)

section \<open>AWS and Google\<close>

text \<open>The results of the events of AWS, by first alternative, if there is one with a text, and whether they are
  partial.\<close>

fun aws_final :: "(string option \<times> bool) list \<Rightarrow> string \<Rightarrow> string" where
  "aws_final [] t = t"
| "aws_final ((Some x, partial) # rs) t = aws_final rs (if partial then t else x)"
| "aws_final ((None, partial) # rs) t = aws_final rs t"

record aws_session =
  as_results :: "(string option \<times> bool) list"
  as_send_error :: "err option"
  as_stream_error :: "err option"

definition aws_rate :: "int \<Rightarrow> int" where
  "aws_rate rate = (if rate \<noteq> 8000 \<and> rate \<noteq> 16000 then 16000 else rate)"

definition aws_NewSTT :: "string \<Rightarrow> string" where
  "aws_NewSTT lang = or_else ''en-US'' lang"

definition aws_Transcribe ::
  "('w \<Rightarrow> string \<Rightarrow> int \<Rightarrow> byte list list \<Rightarrow> (err + aws_session) \<times> 'w) \<Rightarrow> string \<Rightarrow> ('w \<times> u64) transcriber" where
  "aws_Transcribe start lang st a rate ch =
     (case start (fst st) lang (aws_rate rate) (chunks_of 1024 a) of
        (Inl e, w) \<Rightarrow> (Inl (''aws transcribe: start stream: '' @ e), (w, snd st))
      | (Inr r, w) \<Rightarrow>
          (case as_send_error r of
             Some e \<Rightarrow> (Inl e, (w, snd st))
           | None \<Rightarrow>
               (case as_stream_error r of
                  Some e \<Rightarrow> (Inl e, (w, snd st))
                | None \<Rightarrow> answers_text (aws_final (as_results r) []) [] w (snd st))))"

interpretation aws_stt: transcription_client "aws_Transcribe start lang"
  by unfold_locales (auto simp: aws_Transcribe_def split: option.splits prod.splits sum.splits)

text \<open>Every final result replaces the one before: of several sentences the last is kept.\<close>

lemma aws_keeps_last: "aws_final (rs @ (Some x, False) # map (\<lambda>y. (Some y, True)) later) t = x"
proof -
  have "aws_final (map (\<lambda>y. (Some y, True)) later) x = x" by (induction later) simp_all
  moreover have "aws_final (rs @ rs') t = aws_final rs' (aws_final rs t)" for rs' t
    by (induction rs t rule: aws_final.induct) simp_all
  ultimately show ?thesis by simp
qed

record google_stt =
  gs_project :: string
  gs_place :: string
  gs_model :: string
  gs_language :: string

definition google_NewSTT :: "env \<Rightarrow> string \<Rightarrow> string \<Rightarrow> string \<Rightarrow> string \<Rightarrow> google_stt" where
  "google_NewSTT e project place model lang =
     \<lparr>gs_project = key_or e ''GOOGLE_CLOUD_PROJECT'' project,
      gs_place = (if place = [] then GetEnv e ''GOOGLE_CLOUD_LOCATION'' ''us-central1'' else place),
      gs_model = or_else ''latest_long'' model, gs_language = lang\<rparr>"

definition recognizerName :: "google_stt \<Rightarrow> string" where
  "recognizerName s = ''projects/'' @ gs_project s @ ''/locations/'' @ gs_place s @ ''/recognizers/_''"

text \<open>A result has alternatives and a language; the first alternative that is not empty counts.\<close>

fun google_results :: "(string list \<times> string) list \<Rightarrow> u64 \<Rightarrow> transcription list \<times> u64" where
  "google_results [] ids = ([], ids)"
| "google_results ((alts, lang) # rs) ids =
     (case filter (\<lambda>t. t \<noteq> []) alts of
        [] \<Rightarrow> google_results rs ids
      | t # others \<Rightarrow>
          (let (x, ids1) = transcribed_as t [] lang ids; (xs, ids2) = google_results rs ids1 in (x # xs, ids2)))"

definition google_Transcribe ::
  "('w \<Rightarrow> string \<Rightarrow> string \<Rightarrow> string \<Rightarrow> int \<times> int \<times> byte list \<Rightarrow> (err + (string list \<times> string) list) \<times> 'w) \<Rightarrow>
     google_stt \<Rightarrow> ('w \<times> u64) transcriber" where
  "google_Transcribe recognize s st a rate ch =
     (if a = [] then (Inr [], st)
      else if gs_project s = [] then (Inl ''google STT: project is required (set GOOGLE_CLOUD_PROJECT)'', st)
      else (case recognize (fst st) (recognizerName s) (gs_model s) (gs_language s) (rate, ch, a) of
          (Inl e, w) \<Rightarrow> (Inl (''google STT Recognize: '' @ e), (w, snd st))
        | (Inr rs, w) \<Rightarrow> (let (ts, ids) = google_results rs (snd st) in (Inr ts, (w, ids)))))"

lemma google_results_final: "list_all final_transcription (fst (google_results rs ids))"
  by (induction rs ids rule: google_results.induct)
    (auto simp: transcribed_as_def final_transcription_def Let_def case_prod_beta split: list.splits)

interpretation google_stt: transcription_client "google_Transcribe recognize s"
  using google_results_final
  by unfold_locales (auto simp: google_Transcribe_def case_prod_beta Let_def split: if_splits prod.splits sum.splits)

section \<open>The transcriber of the tests\<close>

text \<open>The transcripts go round; the state is their counter. The context may be done while the client waits.\<close>

definition mock_Transcribe :: "string \<Rightarrow> string list \<Rightarrow> bool \<Rightarrow> (nat \<times> u64) transcriber" where
  "mock_Transcribe transcript transcripts late st a rate ch =
     (if late then (Inl ''context canceled'', st)
      else (let (text, n) = (if transcripts = [] then (transcript, fst st)
                             else (transcripts ! (fst st mod length transcripts), Suc (fst st)));
                (x, ids) = transcribed_as (or_else ''hello'' text) [] [] (snd st)
            in (Inr [x], (n, ids))))"

interpretation mock_stt: transcription_client "mock_Transcribe transcript transcripts late"
  by unfold_locales
    (auto simp: mock_Transcribe_def transcribed_as_def final_transcription_def Let_def case_prod_beta split: if_splits)

end
