(* ===== verification/TtsClients.thy ===== *)
theory TtsClients
  imports SttClients Tts WebRtc
begin

text \<open>
  The clients of speech services under \<^verbatim>\<open>pkg/services\<close>: \<^verbatim>\<open>tts\<close> (OpenAI and Groq), \<^verbatim>\<open>elevenlabs\<close>, \<^verbatim>\<open>sarvam\<close>,
  \<^verbatim>\<open>aws\<close>, \<^verbatim>\<open>google\<close>, \<^verbatim>\<open>hume\<close>, \<^verbatim>\<open>inworld\<close>, \<^verbatim>\<open>minimax\<close>, \<^verbatim>\<open>neuphonic\<close>, \<^verbatim>\<open>xtts\<close> and \<^verbatim>\<open>mock\<close>. A client has the type
  \<open>speaker\<close> of the processor that uses it.
\<close>

section \<open>What a client promises\<close>

definition spoken_as :: "byte list \<Rightarrow> int \<Rightarrow> u64 \<Rightarrow> speech \<times> u64" where
  "spoken_as a rate ids =
     (let (b, ids') = NewBase ids in ((b, audio_of a rate 1 (int (length a div 2)), []), ids'))"

definition answers_speech :: "byte list \<Rightarrow> int \<Rightarrow> 'w \<Rightarrow> u64 \<Rightarrow> (err + speech list) \<times> 'w \<times> u64" where
  "answers_speech a rate w ids = (let (x, ids') = spoken_as a rate ids in (Inr [x], (w, ids')))"

definition proper_audio :: "audio_data \<Rightarrow> bool" where
  "proper_audio a \<longleftrightarrow>
     num_channels a = 1 \<and> 0 < sample_rate a \<and> num_frames a = int (length (audio a) div 2)"

definition proper_speech :: "speech \<Rightarrow> bool" where
  "proper_speech x = proper_audio (fst (snd x))"

definition proper_effect :: "effect \<Rightarrow> bool" where
  "proper_effect e = (case e of
     Push d f \<Rightarrow> (case fbody f of TTSAudioRawFrame a x \<Rightarrow> proper_audio a | _ \<Rightarrow> True) | _ \<Rightarrow> True)"

lemma proper_made: "0 < rate \<Longrightarrow> proper_audio (audio_of a rate 1 (int (length a div 2)))"
  by (auto simp: proper_audio_def audio_of_def)

lemma answers_speech_proper [simp]:
  "fst (answers_speech a rate w ids) = Inr as \<Longrightarrow> 0 < rate \<Longrightarrow> list_all proper_speech as"
  by (auto simp: answers_speech_def spoken_as_def Let_def case_prod_beta proper_speech_def proper_made)

text \<open>The interface: asked for a positive rate, a client answers with single-channel audio whose frames are counted
  and whose rate is positive.\<close>

locale speech_client =
  fixes spk :: "'v speaker"
  assumes proper: "fst (spk v text rate) = Inr as \<Longrightarrow> 0 < rate \<Longrightarrow> list_all proper_speech as"
begin

lemma push_audio_proper:
  "list_all proper_speech as \<Longrightarrow> list_all proper_effect (map sends (snd (push_audio p as)))"
  by (induction p as rule: push_audio.induct)
    (auto simp: proper_effect_def proper_speech_def speech_frame_def sends_def mk_frame_def Let_def case_prod_beta)

lemma push_audio_rate: "tts_rate (fst (push_audio p as)) = tts_rate p"
  by (induction p as rule: push_audio.induct) (simp_all add: case_prod_beta Let_def)

lemma speak_proper:
  assumes "0 < tts_rate p"
  shows "list_all proper_effect (snd (speak spk p t)) \<and> tts_rate (fst (speak spk p t)) = tts_rate p"
proof -
  obtain ans v where s: "spk (tts_svc p) t (tts_rate p) = (ans, v)" by fastforce
  show ?thesis
  proof (cases ans)
    case (Inl e)
    then show ?thesis using s
      by (simp add: speak_def case_prod_beta Let_def proper_effect_def sends_def NewErrorFrame_def)
  next
    case (Inr as)
    then have "list_all proper_speech as" using proper [of "tts_svc p" t "tts_rate p" as] s assms by simp
    note a = push_audio_proper [OF this, of "p\<lparr>tts_svc := v\<rparr>"]
    show ?thesis using a s Inr push_audio_rate [of "p\<lparr>tts_svc := v\<rparr>" as]
      by (simp add: speak_def case_prod_beta Let_def proper_effect_def)
  qed
qed

lemma flush_proper:
  assumes "0 < tts_rate p"
  shows "list_all proper_effect (snd (flush_speech spk p)) \<and> tts_rate (fst (flush_speech spk p)) = tts_rate p"
  using speak_proper [of "p\<lparr>tts_buf := []\<rparr>"] assms by (simp add: flush_speech_def Let_def)

lemma tryFlush_proper:
  assumes "0 < tts_rate p"
  shows "list_all proper_effect (snd (tryFlush spk p)) \<and> tts_rate (fst (tryFlush spk p)) = tts_rate p"
  using flush_proper [OF assms] by (simp add: tryFlush_def)

lemma pass_proper: "proper_effect (Push d f) \<Longrightarrow> list_all proper_effect (fst (snd (pass rsp p d f)))"
  by (simp add: pass_def)

lemma step_proper:
  assumes "0 < tts_rate p" "proper_effect (Push Downstream f)"
  shows "list_all proper_effect (snd (tts_step spk rsp p f)) \<and> tts_rate (fst (tts_step spk rsp p f)) = tts_rate p"
proof -
  note pass = pass_proper [OF assms(2)]
  note tf = tryFlush_proper [of "p\<lparr>tts_buf := tts_buf p @ t\<rparr>" for t]
  show ?thesis
    using assms(1) tf flush_proper [OF assms(1)] pass speak_proper [of "fst (flush_speech spk p)"]
    by (cases "fbody f") (simp_all add: TTSProcessFrame_def case_prod_beta Let_def pass_def)
qed

text \<open>So does the processor, whatever it is given.\<close>

lemma run_proper:
  assumes "0 < tts_rate p" "list_all (\<lambda>f. proper_effect (Push Downstream f)) fs"
  shows "list_all proper_effect (snd (run (tts_step spk rsp) p fs))"
  using assms
proof (induction fs arbitrary: p)
  case (Cons f fs)
  then show ?case using step_proper [of p f rsp] by (simp add: case_prod_beta Let_def del: stage_simps)
qed simp

end

section \<open>OpenAI and Groq\<close>

text \<open>The speech API gets the address, the key, the model, the text, the voice and the format if one is asked for; the
  bytes it answers with are read to the end.\<close>

type_synonym 'w speech_apis =
  "string \<Rightarrow> string \<Rightarrow> 'w \<Rightarrow> string \<times> string \<times> string \<times> string option \<Rightarrow> (err + byte list) \<times> 'w"

record voice_service =
  vs_client :: openai_client
  vs_model :: string
  vs_voice :: string

definition or_rate :: "int \<Rightarrow> int \<Rightarrow> int" where
  "or_rate d rate = (if rate \<le> 0 then d else rate)"

definition tts_NewOpenAI :: "env \<Rightarrow> string \<Rightarrow> string \<Rightarrow> voice_service" where
  "tts_NewOpenAI e apiKey model =
     \<lparr>vs_client = \<lparr>oc_base = ''https://api.openai.com/v1'', oc_key = key_or e ''OPENAI_API_KEY'' apiKey\<rparr>,
      vs_model = or_else ''tts-1'' model, vs_voice = ''alloy''\<rparr>"

definition tts_openai_Speak :: "'w speech_apis \<Rightarrow> voice_service \<Rightarrow> ('w \<times> u64) speaker" where
  "tts_openai_Speak api s st text rate =
     (case api (oc_base (vs_client s)) (oc_key (vs_client s)) (fst st) (vs_model s, text, vs_voice s, None) of
        (Inl e, w) \<Rightarrow> (Inl e, (w, snd st))
      | (Inr data, w) \<Rightarrow> answers_speech data (or_rate 24000 rate) w (snd st))"

definition tts_NewGroq :: "env \<Rightarrow> string \<Rightarrow> string \<Rightarrow> string \<Rightarrow> voice_service" where
  "tts_NewGroq e apiKey model voice =
     \<lparr>vs_client = groq_NewClient e (key_or e ''GROQ_API_KEY'' apiKey),
      vs_model = or_else ''canopylabs/orpheus-v1-english'' model, vs_voice = or_else ''alloy'' voice\<rparr>"

definition tts_groq_Speak :: "'w speech_apis \<Rightarrow> voice_service \<Rightarrow> ('w \<times> u64) speaker" where
  "tts_groq_Speak api s st text rate =
     (case api (oc_base (vs_client s)) (oc_key (vs_client s)) (fst st) (vs_model s, text, vs_voice s, Some ''wav'') of
        (Inl e, w) \<Rightarrow> (Inl e, (w, snd st))
      | (Inr data, w) \<Rightarrow>
          (case DecodeWAVToPCM data of
             Inl e \<Rightarrow> (Inl e, (w, snd st))
           | Inr (pcm, r) \<Rightarrow> answers_speech pcm (int r) w (snd st)))"

lemma decoded_rate: "DecodeWAVToPCM data = Inr (pcm, r) \<Longrightarrow> 0 < r"
  by (auto simp: DecodeWAVToPCM_def split: if_splits sum.splits prod.splits option.splits)

lemma or_rate_pos [simp]: "0 < rate \<Longrightarrow> or_rate d rate = rate"
  by (simp add: or_rate_def)

interpretation openai_tts: speech_client "tts_openai_Speak api s"
  by unfold_locales (auto simp: tts_openai_Speak_def split: prod.splits sum.splits)

interpretation groq_tts: speech_client "tts_groq_Speak api s"
  by unfold_locales (auto simp: tts_groq_Speak_def dest!: decoded_rate split: prod.splits sum.splits)

text \<open>The streams hand the frames of one answer on until the context is done.\<close>

definition SpeakStream :: "'v speaker \<Rightarrow> nat option \<Rightarrow> 'v \<Rightarrow> string \<Rightarrow> int \<Rightarrow> speech list \<times> 'v" where
  "SpeakStream spk done st text rate =
     (case spk st text rate of
        (Inl e, st') \<Rightarrow> ([], st')
      | (Inr as, st') \<Rightarrow> (case done of None \<Rightarrow> as | Some n \<Rightarrow> take n as, st'))"

definition tts_openai_SpeakStream where "tts_openai_SpeakStream api s = SpeakStream (tts_openai_Speak api s)"

definition tts_groq_SpeakStream where "tts_groq_SpeakStream api s = SpeakStream (tts_groq_Speak api s)"

section \<open>Clients over HTTP\<close>

record http_voice =
  hv_key :: string
  hv_url :: string
  hv_voice :: string
  hv_model :: string
  hv_format :: string

text \<open>A request whose reply is read to the end and must have status 200; \<open>who\<close> begins the message of an error.\<close>

definition fetch ::
  "string \<Rightarrow> 'w http_api \<Rightarrow> 'w \<Rightarrow> out_request \<Rightarrow> (err + byte list) \<times> 'w" where
  "fetch who http w q =
     (case http w q of
        (Inl e, w') \<Rightarrow> (Inl e, w')
      | (Inr r, w') \<Rightarrow>
          (case ir_body r of
             Inl e \<Rightarrow> (Inl e, w')
           | Inr body \<Rightarrow>
               (if ir_status r \<noteq> 200 then Inl (who @ '': '' @ ir_line r @ '': '' @ string_of body) else Inr body, w')))"

text \<open>A JSON body with the audio in base64 in one field, if it is one.\<close>

definition audio_field :: "string list \<Rightarrow> json_parser \<Rightarrow> byte list \<Rightarrow> string option" where
  "audio_field names parse body =
     (case parse body of
        None \<Rightarrow> None
      | Some v \<Rightarrow>
          (case json_into (map (\<lambda>k. (k, set_string (\<lambda>x m. m(k := x)))) names) v (\<lambda>_. []) of
             None \<Rightarrow> None
           | Some m \<Rightarrow> List.find (\<lambda>x. x \<noteq> []) (map m names)))"

definition bearer :: "string \<Rightarrow> (string \<times> string) list" where
  "bearer key = [(''Content-Type'', ''application/json''), (''Authorization'', ''Bearer '' @ key)]"

definition elevenlabs_NewTTS :: "env \<Rightarrow> string \<Rightarrow> string \<Rightarrow> string \<Rightarrow> string \<Rightarrow> http_voice" where
  "elevenlabs_NewTTS e apiKey voiceID modelID format =
     \<lparr>hv_key = key_or e ''ELEVENLABS_API_KEY'' apiKey, hv_url = ''https://api.elevenlabs.io/v1'', hv_voice = voiceID,
      hv_model = or_else ''eleven_multilingual_v2'' modelID, hv_format = or_else ''pcm_24000'' format\<rparr>"

definition elevenlabs_speech :: "http_voice \<Rightarrow> string \<Rightarrow> out_request" where
  "elevenlabs_speech s text =
     \<lparr>or_url = hv_url s @ ''/text-to-speech/'' @ hv_voice s @ ''/stream?output_format='' @ hv_format s,
      or_headers = [(''Content-Type'', ''application/json''), (''xi-api-key'', hv_key s),
        (''Accept'', ''application/octet-stream'')],
      or_body = SendJson (AObj [(''text'', AStr text), (''model_id'', AStr (hv_model s))])\<rparr>"

definition elevenlabs_Speak :: "'w http_api \<Rightarrow> http_voice \<Rightarrow> ('w \<times> u64) speaker" where
  "elevenlabs_Speak http s st text rate =
     (case http (fst st) (elevenlabs_speech s text) of
        (Inl e, w) \<Rightarrow> (Inl (''elevenlabs tts: request: '' @ e), (w, snd st))
      | (Inr r, w) \<Rightarrow>
          (case ir_body r of
             Inl e \<Rightarrow> (Inl (''elevenlabs tts: read body: '' @ e), (w, snd st))
           | Inr body \<Rightarrow>
               if ir_status r \<noteq> 200
               then (Inl (''elevenlabs tts: '' @ ir_line r @ '': '' @ string_of body), (w, snd st))
               else answers_speech body (or_rate 24000 rate) w (snd st)))"

definition elevenlabs_SpeakStream where "elevenlabs_SpeakStream http s = SpeakStream (elevenlabs_Speak http s)"

definition hume_NewTTS :: "env \<Rightarrow> string \<Rightarrow> string \<Rightarrow> http_voice" where
  "hume_NewTTS e apiKey voiceID =
     \<lparr>hv_key = key_or e ''HUME_API_KEY'' apiKey, hv_url = ''https://api.hume.ai/v0/evi/tts'', hv_voice = voiceID,
      hv_model = [], hv_format = []\<rparr>"

definition hume_Speak :: "json_parser \<Rightarrow> 'w http_api \<Rightarrow> http_voice \<Rightarrow> ('w \<times> u64) speaker" where
  "hume_Speak parse http s st text rate =
     (case fetch ''hume TTS'' http (fst st)
         \<lparr>or_url = hv_url s, or_headers = [(''Content-Type'', ''application/json''), (''X-Hume-API-Key'', hv_key s)],
          or_body = SendJson (AObj [(''text'', AStr text), (''voice'', AObj [(''id'', AStr (hv_voice s))])])\<rparr> of
        (Inl e, w) \<Rightarrow> (Inl e, (w, snd st))
      | (Inr body, w) \<Rightarrow>
          (case audio_field [''audio''] parse body of
             None \<Rightarrow> answers_speech body (or_rate 48000 rate) w (snd st)
           | Some x \<Rightarrow>
               (case DecodeString x of
                  None \<Rightarrow> (Inl ''base64'', (w, snd st))
                | Some pcm \<Rightarrow> answers_speech pcm (or_rate 48000 rate) w (snd st))))"

definition inworld_NewTTS :: "env \<Rightarrow> string \<Rightarrow> string \<Rightarrow> http_voice" where
  "inworld_NewTTS e apiKey voiceID =
     \<lparr>hv_key = key_or e ''INWORLD_API_KEY'' apiKey, hv_url = ''https://api.inworld.ai/v1'', hv_voice = voiceID,
      hv_model = [], hv_format = []\<rparr>"

definition inworld_Speak :: "json_parser \<Rightarrow> 'w http_api \<Rightarrow> http_voice \<Rightarrow> ('w \<times> u64) speaker" where
  "inworld_Speak parse http s st text rate =
     (case fetch ''inworld TTS'' http (fst st)
         \<lparr>or_url = hv_url s @ ''/tts'', or_headers = bearer (hv_key s),
          or_body = SendJson (AObj [(''text'', AStr text), (''voice_id'', AStr (hv_voice s))])\<rparr> of
        (Inl e, w) \<Rightarrow> (Inl e, (w, snd st))
      | (Inr body, w) \<Rightarrow>
          (case audio_field [''audio''] parse body of
             None \<Rightarrow> answers_speech body (or_rate 24000 rate) w (snd st)
           | Some x \<Rightarrow>
               (case DecodeString x of
                  None \<Rightarrow> (Inl ''base64'', (w, snd st))
                | Some pcm \<Rightarrow> answers_speech pcm (or_rate 24000 rate) w (snd st))))"

definition minimax_NewTTS :: "env \<Rightarrow> string \<Rightarrow> string \<Rightarrow> string \<Rightarrow> string \<Rightarrow> http_voice" where
  "minimax_NewTTS e apiKey baseURL model voiceID =
     \<lparr>hv_key = apiKey, hv_url = (if baseURL = [] then GetEnv e ''MINIMAX_BASE_URL'' ''https://api.minimax.io'' else baseURL),
      hv_voice = voiceID, hv_model = model, hv_format = []\<rparr>"

definition minimax_Speak :: "json_parser \<Rightarrow> 'w http_api \<Rightarrow> http_voice \<Rightarrow> ('w \<times> u64) speaker" where
  "minimax_Speak parse http s st text rate =
     (case fetch ''minimax TTS'' http (fst st)
         \<lparr>or_url = hv_url s @ ''/v1/text_to_speech'', or_headers = bearer (hv_key s),
          or_body = SendJson (AObj [(''model'', AStr (hv_model s)), (''text'', AStr text), (''voice_id'', AStr (hv_voice s))])\<rparr> of
        (Inl e, w) \<Rightarrow> (Inl e, (w, snd st))
      | (Inr body, w) \<Rightarrow>
          answers_speech
            (case audio_field [''audio'', ''data''] parse body of
               None \<Rightarrow> body | Some x \<Rightarrow> (case DecodeString x of None \<Rightarrow> body | Some pcm \<Rightarrow> pcm))
            (or_rate 24000 rate) w (snd st))"

interpretation elevenlabs_tts: speech_client "elevenlabs_Speak http s"
  by unfold_locales (auto simp: elevenlabs_Speak_def split: if_splits prod.splits sum.splits)

interpretation hume_tts: speech_client "hume_Speak parse http s"
  by unfold_locales (auto simp: hume_Speak_def split: option.splits prod.splits sum.splits)

interpretation inworld_tts: speech_client "inworld_Speak parse http s"
  by unfold_locales (auto simp: inworld_Speak_def split: option.splits prod.splits sum.splits)

interpretation minimax_tts: speech_client "minimax_Speak parse http s"
  by unfold_locales (auto simp: minimax_Speak_def split: prod.splits sum.splits)

section \<open>Sarvam\<close>

definition sarvam_NewTTS :: "env \<Rightarrow> string \<Rightarrow> string \<Rightarrow> string \<Rightarrow> http_voice" where
  "sarvam_NewTTS e apiKey model voice =
     \<lparr>hv_key = key_or e ''SARVAM_API_KEY'' apiKey, hv_url = ''https://api.sarvam.ai'',
      hv_voice = or_else ''anushka'' voice, hv_model = or_else ''bulbul:v2'' model, hv_format = []\<rparr>"

definition defaultSampleRateForModel :: "string \<Rightarrow> int" where
  "defaultSampleRateForModel model = (if model \<in> {''bulbul:v3'', ''bulbul:v3-beta''} then 24000 else 22050)"

definition sarvam_speech :: "string \<Rightarrow> http_voice \<Rightarrow> string \<Rightarrow> int \<Rightarrow> out_request" where
  "sarvam_speech agent s text rate =
     \<lparr>or_url = hv_url s @ ''/text-to-speech'',
      or_headers = [(''api-subscription-key'', hv_key s), (''User-Agent'', agent), (''Content-Type'', ''application/json'')],
      or_body = SendJson (AObj
        [(''enable_preprocessing'', ABool True), (''model'', AStr (hv_model s)), (''pace'', ANum 1),
         (''speaker'', AStr (hv_voice s)), (''speech_sample_rate'', ANum (of_int rate)),
         (''target_language_code'', AStr ''en-IN''), (''text'', AStr text)])\<rparr>"

text \<open>Audio with a WAV header is decoded, other audio is taken as it is, at the rate asked for.\<close>

definition pcm_of :: "byte list \<Rightarrow> int \<Rightarrow> err + byte list \<times> int" where
  "pcm_of data rate =
     (if 4 \<le> length data \<and> take 4 data = ascii ''RIFF''
      then (case DecodeWAVToPCM data of Inl e \<Rightarrow> Inl e | Inr (pcm, r) \<Rightarrow> Inr (pcm, int r))
      else Inr (data, rate))"

lemma pcm_of_rate: "pcm_of data rate = Inr (pcm, r) \<Longrightarrow> 0 < rate \<Longrightarrow> 0 < r"
  by (auto simp: pcm_of_def dest: decoded_rate split: if_splits sum.splits)

definition sarvam_audios :: "json_parser \<Rightarrow> in_reply \<Rightarrow> err + string list" where
  "sarvam_audios parse r = decode_reply parse (json_into [(''audios'', set_list (\<lambda>x _. x))]) [] r"

definition sarvam_Speak :: "string \<Rightarrow> json_parser \<Rightarrow> 'w http_api \<Rightarrow> http_voice \<Rightarrow> ('w \<times> u64) speaker" where
  "sarvam_Speak agent parse http s st text rate0 =
     (if text = [] then (Inr [], st)
      else (let rate = or_rate (defaultSampleRateForModel (hv_model s)) rate0
            in case http (fst st) (sarvam_speech agent s text rate) of
               (Inl e, w) \<Rightarrow> (Inl e, (w, snd st))
             | (Inr r, w) \<Rightarrow>
                 (case ir_body r of
                    Inl e \<Rightarrow> (Inl e, (w, snd st))
                  | Inr body \<Rightarrow>
                      if ir_status r \<noteq> 200 then (Inl (status_error ''sarvam TTS'' r body), (w, snd st))
                      else (case sarvam_audios parse r of
                          Inl e \<Rightarrow> (Inl e, (w, snd st))
                        | Inr [] \<Rightarrow> (Inl ''sarvam TTS: no audio returned'', (w, snd st))
                        | Inr (x # xs) \<Rightarrow>
                            (case DecodeString x of
                               None \<Rightarrow> (Inl ''base64'', (w, snd st))
                             | Some data \<Rightarrow>
                                 (case pcm_of data rate of
                                    Inl e \<Rightarrow> (Inl e, (w, snd st))
                                  | Inr (pcm, r) \<Rightarrow> answers_speech pcm r w (snd st)))))))"

interpretation sarvam_tts: speech_client "sarvam_Speak agent parse http s"
  by unfold_locales
    (auto simp: sarvam_Speak_def Let_def dest!: pcm_of_rate split: if_splits option.splits prod.splits sum.splits list.splits)

text \<open>The streaming variant: three messages are written, and messages are read until the last event, an error or the
  end of the connection. The data of a message may be missing, and a message may not decode.\<close>

datatype tts_message =
  TtsError "string option" | TtsAudio "string option" | TtsEvent "string option" | TtsOther | TtsUndecoded

fun tts_reader :: "int \<Rightarrow> tts_message list \<Rightarrow> u64 \<Rightarrow> (err + speech) list \<times> u64" where
  "tts_reader rate [] ids = ([], ids)"
| "tts_reader rate (TtsError m # ms) ids = (case m of None \<Rightarrow> ([], ids) | Some e \<Rightarrow> ([Inl e], nextID ids))"
| "tts_reader rate (TtsEvent ev # ms) ids = (if ev = Some ''final'' then ([], ids) else tts_reader rate ms ids)"
| "tts_reader rate (TtsAudio a # ms) ids =
     (case Option.bind a (\<lambda>x. if x = [] then None else DecodeString x) of
        None \<Rightarrow> tts_reader rate ms ids
      | Some data \<Rightarrow>
          (case pcm_of data rate of
             Inl e \<Rightarrow> tts_reader rate ms ids
           | Inr (pcm, r) \<Rightarrow>
               if pcm = [] then tts_reader rate ms ids
               else (let (x, ids1) = spoken_as pcm r ids; (xs, ids2) = tts_reader rate ms ids1 in (Inr x # xs, ids2))))"
| "tts_reader rate (TtsOther # ms) ids = tts_reader rate ms ids"
| "tts_reader rate (TtsUndecoded # ms) ids = tts_reader rate ms ids"

definition tts_messages :: "http_voice \<Rightarrow> string \<Rightarrow> int \<Rightarrow> any list" where
  "tts_messages s text rate =
     [AObj [(''type'', AStr ''config''), (''data'', AObj
        [(''speaker'', AStr (hv_voice s)), (''target_language_code'', AStr ''en-IN''), (''pace'', ANum 1),
         (''min_buffer_size'', ANum 50), (''output_audio_codec'', AStr ''wav''), (''speech_sample_rate'', AStr (itoa rate))])],
      AObj [(''type'', AStr ''text''), (''data'', AObj [(''text'', AStr text)])],
      AObj [(''type'', AStr ''flush'')]]"

text \<open>The connection fails, or the write of one of the messages, or there is something to read.\<close>

definition runTTSStreaming ::
  "('w \<Rightarrow> string \<Rightarrow> any list \<Rightarrow> (err + tts_message list option) \<times> 'w) \<Rightarrow> http_voice \<Rightarrow> 'w \<times> u64 \<Rightarrow> string \<Rightarrow> int
     \<Rightarrow> (err + speech) list \<times> 'w \<times> u64" where
  "runTTSStreaming dial s st text rate0 =
     (let rate = or_rate (defaultSampleRateForModel (hv_model s)) rate0
      in case dial (fst st) (''wss://api.sarvam.ai/text-to-speech/ws?model='' @ hv_model s) (tts_messages s text rate) of
         (Inl e, w) \<Rightarrow> ([Inl (''sarvam TTS streaming: '' @ e)], (w, nextID (snd st)))
       | (Inr None, w) \<Rightarrow> ([], (w, snd st))
       | (Inr (Some ms), w) \<Rightarrow> (let (xs, ids) = tts_reader rate ms (snd st) in (xs, (w, ids))))"

lemma tts_reader_proper:
  "0 < rate \<Longrightarrow> Inr x \<in> set (fst (tts_reader rate ms ids)) \<Longrightarrow> proper_speech x"
proof (induction rate ms ids rule: tts_reader.induct)
  case (4 rate a ms ids)
  show ?case
  proof (cases "Option.bind a (\<lambda>x. if x = [] then None else DecodeString x)")
    case (Some data)
    show ?thesis
    proof (cases "pcm_of data rate")
      case (Inr p)
      obtain pcm r where p: "p = (pcm, r)" by fastforce
      have r: "0 < r" using pcm_of_rate [of data rate pcm r] Inr p "4.prems"(1) by simp
      show ?thesis
      proof (cases "pcm = []")
        case False
        obtain y ids1 where y: "spoken_as pcm r ids = (y, ids1)" by fastforce
        have "proper_speech y" using y r by (auto simp: spoken_as_def proper_speech_def proper_made Let_def case_prod_beta)
        moreover have "x = y \<or> Inr x \<in> set (fst (tts_reader rate ms ids1))"
          using "4.prems"(2) Some Inr p False y by (auto simp: case_prod_beta)
        ultimately show ?thesis using "4.IH"(4) [OF Some Inr p [symmetric] False y [symmetric] refl] "4.prems"(1) by auto
      qed (use 4 Some Inr p in simp)
    qed (use 4 Some in simp)
  qed (use 4 in simp)
qed (auto split: if_splits option.splits)

section \<open>AWS and Google\<close>

definition aws_NewTTS :: "string \<Rightarrow> string \<Rightarrow> string \<times> string" where
  "aws_NewTTS voiceID engine = (or_else ''Joanna'' voiceID, or_else ''neural'' engine)"

text \<open>Polly gets the text, the voice, the engine and the rate it speaks at, and answers with samples at that rate.\<close>

definition aws_Speak ::
  "('w \<Rightarrow> string \<Rightarrow> string \<Rightarrow> string \<Rightarrow> int \<Rightarrow> (err + err + byte list) \<times> 'w) \<Rightarrow> string \<times> string \<Rightarrow> ('w \<times> u64) speaker" where
  "aws_Speak polly s st text rate =
     (case polly (fst st) text (fst s) (snd s) 16000 of
        (Inl e, w) \<Rightarrow> (Inl (''aws polly: '' @ e), (w, snd st))
      | (Inr (Inl e), w) \<Rightarrow> (Inl (''aws polly: read audio: '' @ e), (w, snd st))
      | (Inr (Inr data), w) \<Rightarrow> answers_speech data (or_rate 16000 rate) w (snd st))"

definition aws_SpeakStream where "aws_SpeakStream polly s = SpeakStream (aws_Speak polly s)"

definition google_NewTTS :: "env \<Rightarrow> string \<Rightarrow> string \<Rightarrow> string \<times> string" where
  "google_NewTTS e lang voice = (if lang = [] then GetEnv e ''GOOGLE_TTS_LANGUAGE'' ''en-US'' else lang, voice)"

definition google_Speak ::
  "('w \<Rightarrow> string \<Rightarrow> string \<times> string \<Rightarrow> int \<Rightarrow> (err + byte list) \<times> 'w) \<Rightarrow> string \<times> string \<Rightarrow> ('w \<times> u64) speaker" where
  "google_Speak synthesize s st text rate0 =
     (if text = [] then (Inr [], st)
      else (let rate = or_rate 24000 rate0
            in case synthesize (fst st) text s rate of
               (Inl e, w) \<Rightarrow> (Inl (''google TTS SynthesizeSpeech: '' @ e), (w, snd st))
             | (Inr content, w) \<Rightarrow>
                 if content = [] then (Inl ''google TTS: no audio returned'', (w, snd st))
                 else (case DecodeWAVToPCM content of
                     Inl e \<Rightarrow> answers_speech content rate w (snd st)
                   | Inr (pcm, r) \<Rightarrow> answers_speech pcm (int r) w (snd st))))"

interpretation aws_tts: speech_client "aws_Speak polly s"
  by unfold_locales (auto simp: aws_Speak_def split: prod.splits sum.splits)

interpretation google_tts: speech_client "google_Speak synthesize s"
  by unfold_locales
    (auto simp: google_Speak_def Let_def dest!: decoded_rate split: if_splits prod.splits sum.splits)

section \<open>Neuphonic\<close>

record neuphonic_service =
  np_key :: string
  np_url :: string
  np_voice :: string
  np_language :: string
  np_speed :: rat

definition TrimSlash :: "string \<Rightarrow> string" where
  "TrimSlash s = (if s \<noteq> [] \<and> last s = CHR ''/'' then butlast s else s)"

definition neuphonic_NewTTS :: "env \<Rightarrow> string \<Rightarrow> string \<Rightarrow> string \<Rightarrow> string \<Rightarrow> rat \<Rightarrow> neuphonic_service" where
  "neuphonic_NewTTS e apiKey baseURL voiceID language speed =
     \<lparr>np_key = apiKey,
      np_url = TrimSlash (if baseURL = [] then GetEnv e ''NEUPHONIC_BASE_URL'' ''https://api.neuphonic.com'' else baseURL),
      np_voice = voiceID, np_language = or_else ''en'' language, np_speed = (if speed \<le> 0 then 1 else speed)\<rparr>"

definition neuphonic_request :: "neuphonic_service \<Rightarrow> string \<Rightarrow> int \<Rightarrow> out_request" where
  "neuphonic_request s text rate =
     \<lparr>or_url = np_url s @ ''/sse/speak/'' @ np_language s,
      or_headers = [(''Content-Type'', ''application/json''), (''X-API-KEY'', np_key s)],
      or_body = SendJson (AObj ([(''encoding'', AStr ''pcm_linear''), (''lang_code'', AStr (np_language s)),
        (''sampling_rate'', ANum (of_int rate)), (''speed'', ANum (np_speed s)), (''text'', AStr text)] @
        (if np_voice s = [] then [] else [(''voice_id'', AStr (np_voice s))])))\<rparr>"

text \<open>The scanner: lines without their ends, a last line without an end counts if it is not empty, and a line that does
  not fit its buffer of 65536 bytes is an error.\<close>

function lines_of :: "byte list \<Rightarrow> byte list list" where
  "lines_of bs =
     (if bs = [] then []
      else takeWhile (\<lambda>b. b \<noteq> 10) bs # lines_of (drop (Suc (length (takeWhile (\<lambda>b. b \<noteq> 10) bs))) bs))"
  by pat_completeness auto
termination by (relation "measure length") auto

declare lines_of.simps [simp del]

definition drop_cr :: "byte list \<Rightarrow> byte list" where
  "drop_cr l = (if l \<noteq> [] \<and> last l = 13 then butlast l else l)"

definition scan_lines :: "byte list \<Rightarrow> err + byte list list" where
  "scan_lines bs =
     (if list_ex (\<lambda>l. 65536 \<le> length l) (lines_of bs) then Inl ''bufio.Scanner: token too long''
      else Inr (map drop_cr (lines_of bs)))"

text \<open>The audio of a line, if it is one with data.\<close>

definition set_audio :: "string setter" where
  "set_audio = json_into [(''data'', json_into [(''audio'', set_string (\<lambda>x _. x))])]"

definition sse_audio :: "json_parser \<Rightarrow> byte list \<Rightarrow> byte list list" where
  "sse_audio parse l =
     (if take 6 l \<noteq> ascii ''data: '' then []
      else (let data = drop 6 l
            in if data = [] \<or> data = ascii ''[DONE]'' then []
               else (case Option.bind (parse data) (\<lambda>v. set_audio v []) of
                   None \<Rightarrow> []
                 | Some x \<Rightarrow> if x = [] then [] else (case DecodeString x of None \<Rightarrow> [] | Some d \<Rightarrow> [d]))))"

definition neuphonic_Speak :: "json_parser \<Rightarrow> 'w http_api \<Rightarrow> neuphonic_service \<Rightarrow> ('w \<times> u64) speaker" where
  "neuphonic_Speak parse http s st text rate0 =
     (let rate = or_rate 22050 rate0
      in case http (fst st) (neuphonic_request s text rate) of
         (Inl e, w) \<Rightarrow> (Inl e, (w, snd st))
       | (Inr r, w) \<Rightarrow>
           if ir_status r \<noteq> 200
           then (Inl (''neuphonic TTS: '' @ ir_line r @ '': '' @ (case ir_body r of Inl e \<Rightarrow> [] | Inr b \<Rightarrow> string_of b)), (w, snd st))
           else (case ir_body r of
               Inl e \<Rightarrow> (Inl e, (w, snd st))
             | Inr body \<Rightarrow>
                 (case scan_lines body of
                    Inl e \<Rightarrow> (Inl e, (w, snd st))
                  | Inr ls \<Rightarrow>
                      (let chunks = concat (map (sse_audio parse) ls)
                       in if chunks = [] then (Inr [], (w, snd st))
                          else answers_speech (concat chunks) rate w (snd st)))))"

interpretation neuphonic_tts: speech_client "neuphonic_Speak parse http s"
  by unfold_locales (auto simp: neuphonic_Speak_def Let_def split: if_splits prod.splits sum.splits)

section \<open>XTTS\<close>

type_synonym speaker_voice = "rat list \<times> rat list"

record xtts_service =
  xt_url :: string
  xt_voice :: string
  xt_language :: string
  xt_speakers :: "(string \<times> speaker_voice) list option"

definition xtts_NewTTS :: "env \<Rightarrow> string \<Rightarrow> string \<Rightarrow> string \<Rightarrow> xtts_service" where
  "xtts_NewTTS e baseURL voice language =
     \<lparr>xt_url = (if baseURL = [] then GetEnv e ''XTTS_BASE_URL'' ''http://localhost:8000'' else baseURL),
      xt_voice = voice, xt_language = or_else ''en'' language, xt_speakers = None\<rparr>"

fun read_numbers :: "any list \<Rightarrow> rat list option" where
  "read_numbers [] = Some []"
| "read_numbers (v # vs) =
     (case (v, read_numbers vs) of
        (ANum q, Some qs) \<Rightarrow> Some (q # qs) | (ANil, Some qs) \<Rightarrow> Some (0 # qs) | _ \<Rightarrow> None)"

definition set_numbers :: "(rat list \<Rightarrow> 's \<Rightarrow> 's) \<Rightarrow> 's setter" where
  "set_numbers upd v s =
     (case v of AArr vs \<Rightarrow> map_option (\<lambda>qs. upd qs s) (read_numbers vs) | ANil \<Rightarrow> Some (upd [] s) | _ \<Rightarrow> None)"

definition set_speaker :: "speaker_voice setter" where
  "set_speaker =
     json_into [(''speaker_embedding'', set_numbers (\<lambda>x (a, b). (x, b))), (''gpt_cond_latent'', set_numbers (\<lambda>x (a, b). (a, x)))]"

fun read_speakers :: "anymap \<Rightarrow> (string \<times> speaker_voice) list option" where
  "read_speakers [] = Some []"
| "read_speakers ((k, v) # kvs) =
     (case (set_speaker v ([], []), read_speakers kvs) of (Some x, Some xs) \<Rightarrow> Some ((k, x) # xs) | _ \<Rightarrow> None)"

definition set_speakers :: "(string \<times> speaker_voice) list option setter" where
  "set_speakers v s = (case v of AObj kvs \<Rightarrow> map_option Some (read_speakers kvs) | ANil \<Rightarrow> Some None | _ \<Rightarrow> None)"

text \<open>The speakers are fetched once; a reply of null is not remembered.\<close>

definition getStudioSpeakers ::
  "json_parser \<Rightarrow> 'w http_api \<Rightarrow> xtts_service \<Rightarrow> 'w \<Rightarrow> (err + (string \<times> speaker_voice) list) \<times> xtts_service \<times> 'w" where
  "getStudioSpeakers parse http s w =
     (case xt_speakers s of
        Some sp \<Rightarrow> (Inr sp, s, w)
      | None \<Rightarrow>
          (case http w \<lparr>or_url = xt_url s @ ''/studio_speakers'', or_headers = [], or_body = SendNothing\<rparr> of
             (Inl e, w1) \<Rightarrow> (Inl e, s, w1)
           | (Inr r, w1) \<Rightarrow>
               if ir_status r \<noteq> 200
               then (Inl (''xtts studio_speakers: '' @ ir_line r @ '': '' @ (case ir_body r of Inl e \<Rightarrow> [] | Inr b \<Rightarrow> string_of b)), s, w1)
               else (case decode_reply parse set_speakers None r of
                   Inl e \<Rightarrow> (Inl e, s, w1)
                 | Inr sp \<Rightarrow> (Inr (case sp of None \<Rightarrow> [] | Some x \<Rightarrow> x), s\<lparr>xt_speakers := sp\<rparr>, w1))))"

definition cleanXTTSText :: "string \<Rightarrow> string" where
  "cleanXTTSText text = filter (\<lambda>c. c \<noteq> CHR ''.'' \<and> c \<noteq> CHR ''*'') text"

definition xtts_request :: "xtts_service \<Rightarrow> string \<Rightarrow> speaker_voice \<Rightarrow> out_request" where
  "xtts_request s text emb =
     \<lparr>or_url = xt_url s @ ''/tts_stream'', or_headers = [(''Content-Type'', ''application/json'')],
      or_body = SendJson (AObj
        [(''add_wav_header'', ABool False), (''gpt_cond_latent'', AArr (map ANum (snd emb))),
         (''language'', AStr (xt_language s)), (''speaker_embedding'', AArr (map ANum (fst emb))),
         (''stream_chunk_size'', ANum 20), (''text'', AStr (cleanXTTSText text))])\<rparr>"

text \<open>Without a voice any of the speakers is taken: \<open>pick\<close> chooses, as the order of a Go map does.\<close>

definition xtts_Speak ::
  "(string list \<Rightarrow> string) \<Rightarrow> json_parser \<Rightarrow> 'w http_api \<Rightarrow> (xtts_service \<times> 'w \<times> u64) speaker" where
  "xtts_Speak pick parse http st text rate0 =
     (let (s0, w0, ids) = st; rate = or_rate 24000 rate0; (ans, s, w) = getStudioSpeakers parse http s0 w0
      in case ans of
         Inl e \<Rightarrow> (Inl e, (s, w, ids))
       | Inr speakers \<Rightarrow>
           (let voice = (if xt_voice s = [] then (if speakers = [] then [] else pick (map fst speakers)) else xt_voice s)
            in if voice = [] then (Inl ''xtts: no studio speakers available'', (s, w, ids))
               else (case map_of (rev speakers) voice of
                   None \<Rightarrow> (Inl (''xtts: voice '' @ voice @ '' not in studio_speakers''), (s, w, ids))
                 | Some emb \<Rightarrow>
                     (case fetch ''xtts tts_stream'' http w (xtts_request s text emb) of
                        (Inl e, w1) \<Rightarrow> (Inl e, (s, w1, ids))
                      | (Inr data, w1) \<Rightarrow>
                          if data = [] then (Inr [], (s, w1, ids))
                          else (let (x, ids') = spoken_as data rate ids in (Inr [x], (s, w1, ids')))))))"

interpretation xtts_tts: speech_client "xtts_Speak pick parse http"
  by unfold_locales
    (auto simp: xtts_Speak_def Let_def case_prod_beta spoken_as_def proper_speech_def proper_made
      split: if_splits prod.splits sum.splits option.splits)

section \<open>The speaker of the tests\<close>

definition mock_Speak :: "int \<Rightarrow> int \<Rightarrow> bool \<Rightarrow> ('w \<times> u64) speaker" where
  "mock_Speak bytes sampleRate late st text rate =
     (if late then (Inl ''context canceled'', st)
      else (let n = (if bytes \<le> 0 then 2400 else nat bytes);
                sr = (if rate > 0 then rate else if sampleRate \<le> 0 then 24000 else sampleRate)
            in answers_speech (replicate n 0) sr (fst st) (snd st)))"

interpretation mock_tts: speech_client "mock_Speak bytes sampleRate late"
  by unfold_locales (auto simp: mock_Speak_def Let_def split: if_splits)

section \<open>Speech as it is heard\<close>

lemma pcm48_speech:
  assumes "0 < rate" "rate \<noteq> 48000"
  shows "length (pcm48 (speech_frame (fst (spoken_as data rate ids)))) =
    (if data = [] then 0 else 2 * nat (int (length data div 2) * 48000 div rate))"
  using assms
  by (simp add: pcm48_def speech_frame_def spoken_as_def case_prod_beta Let_def audio_of_def length_Resample16Mono)

text \<open>Speech of Polly is heard too fast. The processor of a call asks for 24000 samples a second, Polly is asked
  for 16000 and the frame says 24000; the WebRTC sender, which converts to 48000, so sends two samples for each
  one received instead of three, and what takes three seconds to say is played in two.\<close>

theorem polly_speech_too_fast:
  assumes "polly w text voice engine 16000 = (Inr (Inr data), w')" "even (length data)"
  shows "case fst (aws_Speak polly (voice, engine) (w, ids) text 24000) of
      Inr [x] \<Rightarrow> 3 * length (pcm48 (speech_frame x)) = 2 * length (Resample16Mono data 16000 48000 [])
    | _ \<Rightarrow> False"
proof -
  have s: "fst (aws_Speak polly (voice, engine) (w, ids) text 24000) = Inr [fst (spoken_as data 24000 ids)]"
    by (simp add: aws_Speak_def assms(1) or_rate_def answers_speech_def case_prod_beta Let_def)
  have "length (Resample16Mono data 16000 48000 []) = 2 * nat (int (length data div 2) * 48000 div 16000)"
    by (simp add: length_Resample16Mono)
  moreover have "int n * 48000 div 16000 = 3 * int n" "int n * 48000 div 24000 = 2 * int n" for n by simp_all
  ultimately show ?thesis unfolding s by (auto simp: pcm48_speech nat_mult_distrib)
qed

lemma polly_speech_too_fast_witness:
  "case fst (aws_Speak (\<lambda>w text voice engine rate. (Inr (Inr [1, 0, 2, 0]), w)) (''Joanna'', ''neural'') ((), 1) ''hi'' 24000) of
      Inr [x] \<Rightarrow> 3 * length (pcm48 (speech_frame x)) = 2 * length (Resample16Mono [1, 0, 2, 0] 16000 48000 [])
    | _ \<Rightarrow> False"
  by (rule polly_speech_too_fast) simp_all

text \<open>A line of neuphonic's stream with 65536 bytes or more, which is a chunk of little more than a second of speech,
  makes the whole answer an error: nothing is said, not even what came before it.\<close>

theorem neuphonic_long_line_fails:
  assumes "http w (neuphonic_request s text rate) = (Inr r, w')" "0 < rate" "ir_status r = 200" "ir_body r = Inr body"
    "l \<in> set (lines_of body)" "65536 \<le> length l"
  shows "neuphonic_Speak parse http s (w, ids) text rate = (Inl ''bufio.Scanner: token too long'', (w', ids))"
  using assms by (auto simp: neuphonic_Speak_def scan_lines_def list_ex_iff Let_def)

lemma lines_of_one:
  assumes "10 \<notin> set l" "l \<noteq> []"
  shows "lines_of l = [l]"
proof -
  have t: "takeWhile (\<lambda>b. b \<noteq> 10) l = l" using assms(1) unfolding takeWhile_eq_all_conv by metis
  have "lines_of l = l # lines_of (drop (Suc (length l)) l)"
    using assms(2) by (subst lines_of.simps [of l]) (simp only: t if_False)
  then show ?thesis by (simp add: lines_of.simps [of "[]"])
qed

definition long_line :: "byte list" where
  "long_line = replicate 65536 65"

lemma long_line_facts: "length long_line = 65536" "10 \<notin> set long_line" "long_line \<noteq> []"
  unfolding long_line_def by (simp_all only: length_replicate set_replicate_conv_if replicate_empty) simp_all

lemma neuphonic_long_line_fails_witness:
  "neuphonic_Speak (\<lambda>_. None) (\<lambda>w q. (Inr \<lparr>ir_status = 200, ir_line = [], ir_body = Inr long_line\<rparr>, w))
     (neuphonic_NewTTS (\<lambda>_. []) ''key'' [] [] [] 1) ((), 1) ''hello'' 24000 =
   (Inl ''bufio.Scanner: token too long'', ((), 1))"
  by (rule neuphonic_long_line_fails [where l = long_line and body = long_line and
        r = "\<lparr>ir_status = 200, ir_line = [], ir_body = Inr long_line\<rparr>"])
    (simp_all add: lines_of_one long_line_facts)

end
