(* ===== verification/Sessions.thy ===== *)
theory Sessions
  imports Config
begin

text \<open>
  What the server remembers: the session stores of \<^verbatim>\<open>pkg/runner\<close> (\<^verbatim>\<open>session.go\<close>, \<^verbatim>\<open>redis_session.go\<close>,
  \<^verbatim>\<open>session_factory.go\<close>) and the registries of \<^verbatim>\<open>pkg/server/server.go\<close>. The locale \<open>session_store\<close> is the Go
  interface \<^verbatim>\<open>SessionStore\<close>, with the time of each call and how long a session lives. The Redis server is a
  parameter: three operations on a state nobody looks into, each told the time on the server's clock.
  Times and durations are nanoseconds; a mutex section is one step.
\<close>

section \<open>Sessions\<close>

record session =
  se_Body :: "anymap option"
  se_EnableDefaultIceServers :: bool

text \<open>\<open>life\<close> is how long a session lives, \<open>None\<close> for ever. A call is given its time.\<close>

definition lives :: "int option \<Rightarrow> int \<Rightarrow> int \<Rightarrow> bool" where
  "lives life t t' \<longleftrightarrow> (case life of None \<Rightarrow> True | Some l \<Rightarrow> t' < t + l)"

locale session_store =
  fixes life :: "int option"
    and put :: "int \<Rightarrow> 's \<Rightarrow> string \<Rightarrow> session \<Rightarrow> err option \<times> 's"
    and get :: "int \<Rightarrow> 's \<Rightarrow> string \<Rightarrow> err + session option"
    and del :: "int \<Rightarrow> 's \<Rightarrow> string \<Rightarrow> err option \<times> 's"
  assumes get_put: "put t s i x = (None, s') \<Longrightarrow> t \<le> t' \<Longrightarrow>
      get t' s' i = Inr (if lives life t t' then Some x else None)"
    and get_put_other: "put t s i x = (r, s') \<Longrightarrow> j \<noteq> i \<Longrightarrow> get t' s' j = get t' s j"
    and get_del: "del t s i = (None, s') \<Longrightarrow> t \<le> t' \<Longrightarrow> get t' s' i = Inr None"
    and get_del_other: "del t s i = (r, s') \<Longrightarrow> j \<noteq> i \<Longrightarrow> get t' s' j = get t' s j"
begin

text \<open>Sessions put under other ids do not matter.\<close>

fun puts :: "'s \<Rightarrow> (int \<times> string \<times> session) list \<Rightarrow> 's" where
  "puts s [] = s"
| "puts s ((t, i, x) # r) = puts (snd (put t s i x)) r"

lemma get_puts_other: "\<forall>(t, j, x) \<in> set r. j \<noteq> i \<Longrightarrow> get t' (puts s r) i = get t' s i"
proof (induction r arbitrary: s)
  case (Cons p r)
  obtain t j x where p: "p = (t, j, x)" by (cases p)
  with Cons.prems have "j \<noteq> i" "\<forall>(t, j, x) \<in> set r. j \<noteq> i" by auto
  then show ?case using Cons.IH get_put_other [of t s j x "fst (put t s j x)" "snd (put t s j x)" i] p by simp
qed simp

lemma put_remembered:
  assumes "put t s i x = (None, s')" "\<forall>(t, j, x) \<in> set r. j \<noteq> i" "t \<le> t'"
  shows "get t' (puts s' r) i = Inr (if lives life t t' then Some x else None)"
  using get_puts_other [OF assms(2)] get_put [OF assms(1,3)] by simp

end

section \<open>In memory\<close>

type_synonym memory_store = "string \<rightharpoonup> session option"

definition NewMemorySessionStore :: memory_store where
  "NewMemorySessionStore = Map.empty"

text \<open>The argument is a pointer; an absent key reads as the nil pointer.\<close>

definition memory_Put :: "memory_store \<Rightarrow> string \<Rightarrow> session option \<Rightarrow> err option \<times> memory_store" where
  "memory_Put m i x = (None, m(i \<mapsto> x))"

definition memory_Get :: "memory_store \<Rightarrow> string \<Rightarrow> err + session option" where
  "memory_Get m i = Inr (case m i of None \<Rightarrow> None | Some x \<Rightarrow> x)"

definition memory_Delete :: "memory_store \<Rightarrow> string \<Rightarrow> err option \<times> memory_store" where
  "memory_Delete m i = (None, m(i := None))"

interpretation memory: session_store None "\<lambda>_ m i x. memory_Put m i (Some x)" "\<lambda>_. memory_Get" "\<lambda>_. memory_Delete"
  by unfold_locales (auto simp: memory_Put_def memory_Get_def memory_Delete_def lives_def)

section \<open>In Redis\<close>

datatype redis_reply = RedisNil | RedisErr err | RedisData any

record 'r redis =
  rd_set :: "int \<Rightarrow> 'r \<Rightarrow> string \<Rightarrow> any \<Rightarrow> int \<Rightarrow> err option \<times> 'r"
  rd_get :: "int \<Rightarrow> 'r \<Rightarrow> string \<Rightarrow> redis_reply"
  rd_del :: "int \<Rightarrow> 'r \<Rightarrow> string \<Rightarrow> err option \<times> 'r"

record redis_store =
  rs_prefix :: string
  rs_ttl :: int

definition NewRedisSessionStore :: "string \<Rightarrow> int \<Rightarrow> redis_store" where
  "NewRedisSessionStore pre ttl =
     \<lparr>rs_prefix = (if pre = [] then ''voxray:session:'' else pre),
      rs_ttl = (if ttl \<le> 0 then 3600 * 10 ^ 9 else ttl)\<rparr>"

definition redis_key :: "redis_store \<Rightarrow> string \<Rightarrow> string" where
  "redis_key s i = rs_prefix s @ i"

text \<open>The session as JSON: the struct has no tags, so its fields keep their names. A body is what the decoder
  of a request made, whose strings are valid UTF-8, so that writing and reading it changes nothing.\<close>

definition marshal_session :: "session \<Rightarrow> any" where
  "marshal_session x =
     AObj [(''Body'', case se_Body x of None \<Rightarrow> ANil | Some m \<Rightarrow> AObj m),
           (''EnableDefaultIceServers'', ABool (se_EnableDefaultIceServers x))]"

definition session_fields :: "(string \<times> session setter) list" where
  "session_fields =
     [(''Body'', set_object se_Body (\<lambda>b. se_Body_update (\<lambda>_. b))),
      (''EnableDefaultIceServers'', set_bool (\<lambda>b. se_EnableDefaultIceServers_update (\<lambda>_. b)))]"

definition unmarshal_session :: "any \<Rightarrow> session option" where
  "unmarshal_session v = json_into session_fields v \<lparr>se_Body = None, se_EnableDefaultIceServers = False\<rparr>"

definition redis_Put ::
  "'r redis \<Rightarrow> redis_store \<Rightarrow> int \<Rightarrow> 'r \<Rightarrow> string \<Rightarrow> session option \<Rightarrow> err option \<times> 'r" where
  "redis_Put c s now r i x =
     (case x of
        None \<Rightarrow> (Some ''session cannot be nil'', r)
      | Some x \<Rightarrow>
          (case rd_set c now r (redis_key s i) (marshal_session x) (rs_ttl s) of
             (Some e, r') \<Rightarrow> (Some (''redis set: '' @ e), r')
           | (None, r') \<Rightarrow> (None, r')))"

definition redis_Get :: "'r redis \<Rightarrow> redis_store \<Rightarrow> int \<Rightarrow> 'r \<Rightarrow> string \<Rightarrow> err + session option" where
  "redis_Get c s now r i =
     (case rd_get c now r (redis_key s i) of
        RedisNil \<Rightarrow> Inr None
      | RedisErr e \<Rightarrow> Inl (''redis get: '' @ e)
      | RedisData v \<Rightarrow>
          (case unmarshal_session v of None \<Rightarrow> Inl ''unmarshal session: json'' | Some x \<Rightarrow> Inr (Some x)))"

definition redis_Delete :: "'r redis \<Rightarrow> redis_store \<Rightarrow> int \<Rightarrow> 'r \<Rightarrow> string \<Rightarrow> err option \<times> 'r" where
  "redis_Delete c s now r i =
     (case rd_del c now r (redis_key s i) of
        (Some e, r') \<Rightarrow> (Some (''redis del: '' @ e), r')
      | (None, r') \<Rightarrow> (None, r'))"

text \<open>The client sends a time to live in whole milliseconds, at least one.\<close>

definition redis_life :: "int \<Rightarrow> int" where
  "redis_life ttl = max (10 ^ 6) (ttl div 10 ^ 6 * 10 ^ 6)"

text \<open>What Redis documents of SET, GET and DEL, when the server answers: the value set is read back until its
  time to live is over and is gone from then on, it is gone after a deletion, and other keys are not
  touched.\<close>

definition redis_laws :: "'r redis \<Rightarrow> bool" where
  "redis_laws c \<longleftrightarrow>
     (\<forall>t r k v ttl r' t'. 0 < ttl \<longrightarrow> rd_set c t r k v ttl = (None, r') \<longrightarrow> t \<le> t' \<longrightarrow>
        rd_get c t' r' k = (if t' < t + redis_life ttl then RedisData v else RedisNil)) \<and>
     (\<forall>t r k v ttl e r' k' t'. rd_set c t r k v ttl = (e, r') \<longrightarrow> k' \<noteq> k \<longrightarrow> rd_get c t' r' k' = rd_get c t' r k') \<and>
     (\<forall>t r k r' t'. rd_del c t r k = (None, r') \<longrightarrow> t \<le> t' \<longrightarrow> rd_get c t' r' k = RedisNil) \<and>
     (\<forall>t r k e r' k' t'. rd_del c t r k = (e, r') \<longrightarrow> k' \<noteq> k \<longrightarrow> rd_get c t' r' k' = rd_get c t' r k')"

lemma session_json [simp]: "unmarshal_session (marshal_session x) = Some x"
  by (cases x; cases "se_Body x")
    (simp_all add: unmarshal_session_def marshal_session_def session_fields_def json_simps)

lemma redis_key_inj [simp]: "redis_key s i = redis_key s j \<longleftrightarrow> i = j"
  by (simp add: redis_key_def)

lemma NewRedisSessionStore_ttl: "0 < rs_ttl (NewRedisSessionStore pre ttl)"
  by (simp add: NewRedisSessionStore_def)

text \<open>C16: Over a server that keeps what Redis documents, the Redis store fulfils the contract of the interface: a
  session that was put is read back equal, with its body, until its time to live is over and is gone
  from then on, a deleted one is gone, and other ids are not touched at any time; the time to live is
  always positive, so no session stays for ever.\<close>

theorem redis_store_refines:
  assumes "redis_laws c" "st = NewRedisSessionStore pre ttl"
  shows "session_store (Some (redis_life (rs_ttl st))) (\<lambda>t r i x. redis_Put c st t r i (Some x)) (redis_Get c st)
      (redis_Delete c st) \<and> 0 < rs_ttl st"
proof
  show ttl: "0 < rs_ttl st" by (simp add: assms(2) NewRedisSessionStore_ttl)
  note laws = assms(1) [unfolded redis_laws_def]
  have sets: "rd_set c u r k v t = (None, r') \<Longrightarrow> 0 < t \<Longrightarrow> u \<le> u' \<Longrightarrow>
      rd_get c u' r' k = (if u' < u + redis_life t then RedisData v else RedisNil)" for u u' r k v t r'
    using laws [THEN conjunct1] by blast
  have others: "rd_set c u r k v t = (e, r') \<Longrightarrow> k' \<noteq> k \<Longrightarrow> rd_get c u' r' k' = rd_get c u' r k'"
    for u u' r k v t e r' k'
    using laws [THEN conjunct2, THEN conjunct1] by blast
  have dels: "rd_del c u r k = (None, r') \<Longrightarrow> u \<le> u' \<Longrightarrow> rd_get c u' r' k = RedisNil" for u u' r k r'
    using laws [THEN conjunct2, THEN conjunct2, THEN conjunct1] by blast
  have del_others: "rd_del c u r k = (e, r') \<Longrightarrow> k' \<noteq> k \<Longrightarrow> rd_get c u' r' k' = rd_get c u' r k'"
    for u u' r k e r' k'
    using laws [THEN conjunct2, THEN conjunct2, THEN conjunct2] by blast
  show "session_store (Some (redis_life (rs_ttl st))) (\<lambda>t r i x. redis_Put c st t r i (Some x)) (redis_Get c st)
      (redis_Delete c st)"
  proof
    fix t r i x r' t'
    assume p: "redis_Put c st t r i (Some x) = (None, r')" and t: "t \<le> (t' :: int)"
    from p have "rd_set c t r (redis_key st i) (marshal_session x) (rs_ttl st) = (None, r')"
      by (auto simp: redis_Put_def split: prod.splits option.splits)
    from sets [OF this ttl t]
    show "redis_Get c st t' r' i = Inr (if lives (Some (redis_life (rs_ttl st))) t t' then Some x else None)"
      by (simp add: redis_Get_def lives_def)
  next
    fix t r i x e r' j t'
    assume "redis_Put c st t r i (Some x) = (e, r')" "j \<noteq> (i :: string)"
    then have "rd_get c t' r' (redis_key st j) = rd_get c t' r (redis_key st j)"
      using others by (auto simp: redis_Put_def split: prod.splits option.splits)
    then show "redis_Get c st t' r' j = redis_Get c st t' r j" by (simp add: redis_Get_def)
  next
    fix t r i r' t'
    assume "redis_Delete c st t r i = (None, r')" "t \<le> (t' :: int)"
    then show "redis_Get c st t' r' i = Inr None"
      using dels by (auto simp: redis_Delete_def redis_Get_def split: prod.splits option.splits)
  next
    fix t r i e r' j t'
    assume "redis_Delete c st t r i = (e, r')" "j \<noteq> (i :: string)"
    then have "rd_get c t' r' (redis_key st j) = rd_get c t' r (redis_key st j)"
      using del_others by (auto simp: redis_Delete_def split: prod.splits option.splits)
    then show "redis_Get c st t' r' j = redis_Get c st t' r j" by (simp add: redis_Get_def)
  qed
qed

text \<open>A server that keeps each value with the time at which it ends.\<close>

definition map_redis :: "(string \<rightharpoonup> any \<times> int) redis" where
  "map_redis = \<lparr>rd_set = (\<lambda>now r k v ttl. (None, r(k \<mapsto> (v, now + redis_life ttl)))),
     rd_get = (\<lambda>now r k. case r k of None \<Rightarrow> RedisNil | Some (v, ends) \<Rightarrow> if now < ends then RedisData v else RedisNil),
     rd_del = (\<lambda>now r k. (None, r(k := None)))\<rparr>"

lemma map_redis_laws: "redis_laws map_redis"
  by (simp add: redis_laws_def map_redis_def)

lemma redis_store_refines_witness:
  "session_store (Some (3600 * 10 ^ 9)) (\<lambda>t r i x. redis_Put map_redis (NewRedisSessionStore [] 0) t r i (Some x))
     (redis_Get map_redis (NewRedisSessionStore [] 0)) (redis_Delete map_redis (NewRedisSessionStore [] 0)) \<and>
   rs_ttl (NewRedisSessionStore [] 0) = 3600 * 10 ^ 9"
  using redis_store_refines [OF map_redis_laws HOL.refl, of "[]" 0]
  by (simp add: NewRedisSessionStore_def redis_life_def)

section \<open>Choosing a store\<close>

text \<open>\<^verbatim>\<open>time.Duration\<close> has 64 bits, so the seconds of the configuration can wrap.\<close>

definition duration :: "int \<Rightarrow> int" where
  "duration i = sint (word_of_int i :: 64 word)"

datatype store_kind = MemoryStore | RedisStore (rk_url: string) (rk_store: redis_store)

text \<open>\<open>parse_url\<close> is \<^verbatim>\<open>redis.ParseURL\<close>: \<open>None\<close> or its error.\<close>

definition NewSessionStoreFromConfig :: "(string \<Rightarrow> err option) \<Rightarrow> config option \<Rightarrow> err + store_kind" where
  "NewSessionStoreFromConfig parse_url cfg =
     (case cfg of
        None \<Rightarrow> Inr MemoryStore
      | Some c \<Rightarrow>
          (let storeType = (if cf_SessionStore c = [] then ''memory'' else cf_SessionStore c)
           in if storeType = ''memory'' then Inr MemoryStore
              else if storeType = ''redis''
              then (if cf_RedisURL c = [] then Inl ''session_store is redis but redis_url is empty''
                    else (case parse_url (cf_RedisURL c) of
                        Some e \<Rightarrow> Inl (''parse redis_url: '' @ e)
                      | None \<Rightarrow>
                          (let ttlSecs = (if cf_SessionTTLSecs c \<le> 0 then 3600 else cf_SessionTTLSecs c)
                           in Inr (RedisStore (cf_RedisURL c)
                                (NewRedisSessionStore [] (duration (ttlSecs * 10 ^ 9)))))))
              else Inl (''unknown session_store: '' @ storeType @ '' (use memory or redis)'')))"

section \<open>Registries of the server\<close>

record session_meta =
  sm_SessionID :: string
  sm_CreatedAt :: int

text \<open>\<open>'c\<close> is the cancel function.\<close>

type_synonym 'c session_registry = "string \<rightharpoonup> session_meta \<times> 'c"

definition Register :: "'c session_registry \<Rightarrow> string \<Rightarrow> session_meta \<Rightarrow> 'c \<Rightarrow> 'c session_registry" where
  "Register r i m c = r(i \<mapsto> (m, c))"

definition Unregister :: "'c session_registry \<Rightarrow> string \<Rightarrow> 'c session_registry" where
  "Unregister r i = r(i := None)"

type_synonym 'v pipeline_store = "string \<rightharpoonup> 'v"

definition pipeline_Put :: "'v pipeline_store \<Rightarrow> string \<Rightarrow> 'v \<Rightarrow> 'v pipeline_store" where
  "pipeline_Put m i v = m(i \<mapsto> v)"

definition pipeline_Get :: "'v pipeline_store \<Rightarrow> string \<Rightarrow> 'v option" where
  "pipeline_Get m i = m i"

definition pipeline_Delete :: "'v pipeline_store \<Rightarrow> string \<Rightarrow> 'v pipeline_store" where
  "pipeline_Delete m i = m(i := None)"

section \<open>Answers by idempotency key\<close>

record idempotency_store =
  id_m :: "string \<rightharpoonup> any \<times> int"
  id_ttl :: int

definition NewIdempotencyStore :: "int \<Rightarrow> idempotency_store" where
  "NewIdempotencyStore ttl = \<lparr>id_m = Map.empty, id_ttl = (if ttl \<le> 0 then 24 * 3600 * 10 ^ 9 else ttl)\<rparr>"

definition idempotency_get :: "idempotency_store \<Rightarrow> int \<Rightarrow> string \<Rightarrow> any option" where
  "idempotency_get s now key =
     (case id_m s key of None \<Rightarrow> None | Some (body, ex) \<Rightarrow> if ex < now then None else Some body)"

definition idempotency_set :: "idempotency_store \<Rightarrow> int \<Rightarrow> string \<Rightarrow> any \<Rightarrow> idempotency_store" where
  "idempotency_set s now key body = s\<lparr>id_m := (id_m s)(key \<mapsto> (body, now + id_ttl s))\<rparr>"

lemma idempotency_get_set [simp]:
  "idempotency_get (idempotency_set s now key body) t k =
     (if k = key then if now + id_ttl s < t then None else Some body else idempotency_get s t k)"
  by (simp add: idempotency_get_def idempotency_set_def)

lemma idempotency_ttl [simp]: "id_ttl (idempotency_set s now key body) = id_ttl s"
  by (simp add: idempotency_set_def)

section \<open>Time to live\<close>

lemma duration_small: "- (2 ^ 63) \<le> i \<Longrightarrow> i < 2 ^ 63 \<Longrightarrow> duration i = i"
  unfolding duration_def signed_of_int by (simp add: signed_take_bit_int_eq_self)

text \<open>A Redis store that is built never lets a session live for ever, and gives it the configured seconds up
  to 9223372036; from there on the duration wraps, and ten billion seconds become one hour.\<close>

theorem session_ttl_wraps:
  assumes "NewSessionStoreFromConfig parse_url (Some c) = Inr (RedisStore u st)"
  shows "0 < rs_ttl st \<and>
    (0 < cf_SessionTTLSecs c \<and> cf_SessionTTLSecs c \<le> 9223372036 \<longrightarrow> rs_ttl st = cf_SessionTTLSecs c * 10 ^ 9) \<and>
    (cf_SessionTTLSecs c = 10 ^ 10 \<longrightarrow> rs_ttl st = 3600 * 10 ^ 9)"
proof -
  let ?t = "if cf_SessionTTLSecs c \<le> 0 then 3600 else cf_SessionTTLSecs c"
  have st: "st = NewRedisSessionStore [] (duration (?t * 10 ^ 9))"
    using assms by (auto simp: NewSessionStoreFromConfig_def Let_def split: if_splits option.splits)
  have "rs_ttl st = cf_SessionTTLSecs c * 10 ^ 9"
    if "0 < cf_SessionTTLSecs c" "cf_SessionTTLSecs c \<le> 9223372036"
  proof -
    have "duration (cf_SessionTTLSecs c * 10 ^ 9) = cf_SessionTTLSecs c * 10 ^ 9"
      using that by (intro duration_small) simp_all
    with that show ?thesis by (simp add: st NewRedisSessionStore_def)
  qed
  moreover have "rs_ttl st = 3600 * 10 ^ 9" if "cf_SessionTTLSecs c = 10 ^ 10"
  proof -
    have "duration (10 ^ 10 * 10 ^ 9) = - 8446744073709551616" by (simp add: duration_def)
    then show ?thesis by (simp add: st that NewRedisSessionStore_def)
  qed
  ultimately show ?thesis using NewRedisSessionStore_ttl st by blast
qed

lemma session_ttl_wraps_witness:
  "NewSessionStoreFromConfig (\<lambda>_. None) (Some (zero_config\<lparr>cf_SessionStore := ''redis'', cf_RedisURL := ''redis://x'',
      cf_SessionTTLSecs := 10 ^ 10\<rparr>)) = Inr (RedisStore ''redis://x'' (NewRedisSessionStore [] (3600 * 10 ^ 9)))"
proof -
  let ?c = "zero_config\<lparr>cf_SessionStore := ''redis'', cf_RedisURL := ''redis://x'', cf_SessionTTLSecs := 10 ^ 10\<rparr>"
  obtain st where st: "NewSessionStoreFromConfig (\<lambda>_. None) (Some ?c) = Inr (RedisStore ''redis://x'' st)"
    "rs_prefix st = ''voxray:session:''"
    by (simp add: NewSessionStoreFromConfig_def NewRedisSessionStore_def)
  from session_ttl_wraps [OF st(1)] have "rs_ttl st = 3600 * 10 ^ 9" by simp
  with st show ?thesis by (cases st) (simp add: NewRedisSessionStore_def)
qed

end
