(* ===== verification/Http.thy ===== *)
theory Http
  imports Sessions
begin

text \<open>
  Requests and responses of the HTTP server: the envelopes of \<^verbatim>\<open>pkg/api\<close> and the functions of
  \<^verbatim>\<open>pkg/server/server.go\<close> that all its handlers share. Headers are looked up by their canonical name and are
  empty when absent. A body is the first JSON value in it, if there is one, with the offset at which that value ends,
  because the decoder reads no further. Random identifiers are the numbers drawn so far, read by \<open>uuid\<close>.
\<close>

section \<open>Requests\<close>

record request =
  re_method :: string
  re_path :: string
  re_header :: "string \<Rightarrow> string"
  re_query :: "string \<Rightarrow> string"
  re_host :: string
  re_tls :: bool
  re_json :: "any option"
  re_end :: int

section \<open>Responses\<close>

datatype resp_body = NoBody | JsonBody any | RawBody string

record response =
  rs_status :: int
  rs_headers :: "(string \<times> string) list"
  rs_body :: resp_body

record api_error =
  ae_StatusCode :: int
  ae_Code :: string
  ae_Message :: string
  ae_Details :: "(string \<times> string) list"

definition api_err :: "int \<Rightarrow> string \<Rightarrow> string \<Rightarrow> api_error" where
  "api_err code c msg = \<lparr>ae_StatusCode = code, ae_Code = c, ae_Message = msg, ae_Details = []\<rparr>"

definition RequestID :: "(nat \<Rightarrow> string) \<Rightarrow> nat \<Rightarrow> request \<Rightarrow> string \<times> nat" where
  "RequestID uuid n r =
     (let i = TrimSpace (re_header r ''X-Request-ID'') in if i \<noteq> [] then (i, n) else (uuid n, Suc n))"

text \<open>\<open>hs\<close> are the headers set before.\<close>

definition RespondJSON ::
  "(nat \<Rightarrow> string) \<Rightarrow> nat \<Rightarrow> (string \<times> string) list \<Rightarrow> request \<Rightarrow> int \<Rightarrow> any \<Rightarrow> response \<times> nat" where
  "RespondJSON uuid n hs r status v =
     (let (i, n') = RequestID uuid n r
      in (\<lparr>rs_status = status, rs_headers = hs @ [(''Content-Type'', ''application/json'')],
           rs_body = JsonBody (AObj [(''data'', v), (''meta'', AObj (if i = [] then [] else [(''requestId'', AStr i)]))])\<rparr>, n'))"

definition detail_json :: "string \<times> string \<Rightarrow> any" where
  "detail_json d = AObj [(''field'', AStr (fst d)), (''message'', AStr (snd d))]"

definition RespondError ::
  "(nat \<Rightarrow> string) \<Rightarrow> nat \<Rightarrow> (string \<times> string) list \<Rightarrow> request \<Rightarrow> api_error \<Rightarrow> response \<times> nat" where
  "RespondError uuid n hs r e =
     (let (i, n') = RequestID uuid n r
      in (\<lparr>rs_status = ae_StatusCode e, rs_headers = hs @ [(''Content-Type'', ''application/json'')],
           rs_body = JsonBody (AObj [(''error'', AObj
             ([(''code'', AStr (ae_Code e)), (''message'', AStr (ae_Message e))] @
              (if i = [] then [] else [(''requestId'', AStr i)]) @
              (if ae_Details e = [] then [] else [(''details'', AArr (map detail_json (ae_Details e)))])))])\<rparr>, n'))"

definition RespondNoContent :: "(string \<times> string) list \<Rightarrow> response" where
  "RespondNoContent hs = \<lparr>rs_status = 204, rs_headers = hs, rs_body = NoBody\<rparr>"

section \<open>Shared by the handlers\<close>

definition setCORS :: "request \<Rightarrow> string list option \<Rightarrow> string \<Rightarrow> (string \<times> string) list" where
  "setCORS r allowed methods =
     (case allowed of
        None \<Rightarrow> [(''Access-Control-Allow-Origin'', ''*'')]
      | Some os \<Rightarrow>
          (let origin = TrimSpace (re_header r ''Origin'')
           in if List.member os origin then [(''Access-Control-Allow-Origin'', origin)] else [])) @
     [(''Access-Control-Allow-Methods'', methods),
      (''Access-Control-Allow-Headers'', ''Content-Type, Authorization, X-API-Key'')]"

definition has_suffix :: "string \<Rightarrow> string \<Rightarrow> bool" where
  "has_suffix s suf \<longleftrightarrow> suffix suf s"

definition routeName :: "string \<Rightarrow> string \<Rightarrow> string" where
  "routeName path fallback =
     (if path = ''/health'' \<or> path = ''/api/v1/health'' then ''health''
      else if path = ''/config'' \<or> path = ''/api/v1/config'' then ''config''
      else if path = ''/ready'' \<or> path = ''/api/v1/ready'' then ''ready''
      else if path = ''/webrtc/offer'' \<or> path = ''/api/v1/webrtc/offer'' then ''webrtc_offer''
      else if path = ''/start'' \<or> path = ''/api/v1/start'' then ''start''
      else if prefix ''/sessions/'' path \<and> has_suffix path ''/api/offer'' then ''session_offer''
      else if prefix ''/api/v1/sessions/'' path \<and> contains_str path ''/offer'' then ''session_offer''
      else if path = ''/telephony/ws'' then ''telephony_ws''
      else if path = ''/daily-dialin-webhook'' then ''daily_dialin_webhook''
      else if path = ''/'' \<or> path = ''/api/v1'' then ''root''
      else if fallback \<noteq> [] then fallback else ''other'')"

text \<open>The labels of a status for the metrics.\<close>

definition status_class :: "int \<Rightarrow> string \<times> string" where
  "status_class n =
     (if 500 \<le> n then (''error'', ''5xx'') else if 400 \<le> n then (''error'', ''4xx'') else (''success'', []))"

definition defaultMaxRequestBodyBytes :: int where
  "defaultMaxRequestBodyBytes = 256 * 1024"

definition effectiveMaxBodyBytes :: "config option \<Rightarrow> int" where
  "effectiveMaxBodyBytes c =
     (case c of
        Some c \<Rightarrow> if 0 < cf_MaxRequestBodyBytes c then cf_MaxRequestBodyBytes c else defaultMaxRequestBodyBytes
      | None \<Rightarrow> defaultMaxRequestBodyBytes)"

text \<open>The value the decoder finds behind \<^verbatim>\<open>bodyReader\<close>, and its decoding into a struct.\<close>

definition bodyReader :: "request \<Rightarrow> int \<Rightarrow> any option" where
  "bodyReader r maxBytes = (if 0 < maxBytes \<and> maxBytes < re_end r then None else re_json r)"

definition decode_body :: "config \<Rightarrow> request \<Rightarrow> (string \<times> 's setter) list \<Rightarrow> 's \<Rightarrow> 's option" where
  "decode_body c r fs zero =
     (case bodyReader r (effectiveMaxBodyBytes (Some c)) of None \<Rightarrow> None | Some v \<Rightarrow> json_into fs v zero)"

datatype ws_format = JsonFormat | RtviFormat | ProtobufFormat

definition getWebSocketSerializer :: "request option \<Rightarrow> ws_format option" where
  "getWebSocketSerializer r =
     (case r of
        None \<Rightarrow> None
      | Some r \<Rightarrow>
          if re_query r ''rtvi'' \<noteq> [] then Some RtviFormat
          else if EqualFold (TrimSpace (re_query r ''format'')) ''protobuf'' then Some ProtobufFormat
          else None)"

text \<open>The key a request presents.\<close>

definition presented_key :: "request \<Rightarrow> string" where
  "presented_key r =
     (let key = re_header r ''X-API-Key'' in
      if key \<noteq> [] then key
      else (let auth = re_header r ''Authorization'' in
            if 7 < length auth \<and> EqualFold (take 7 auth) ''Bearer '' then TrimSpace (drop 7 auth) else []))"

definition authorized :: "config \<Rightarrow> request \<Rightarrow> bool" where
  "authorized c r \<longleftrightarrow> cf_ServerAPIKey c = [] \<or> presented_key r = cf_ServerAPIKey c"

definition unauthorized :: api_error where
  "unauthorized = api_err 401 ''UNAUTHORIZED'' ''Unauthorized''"

text \<open>\<open>None\<close>: the request may go on.\<close>

definition requireAPIKey ::
  "(nat \<Rightarrow> string) \<Rightarrow> config option \<Rightarrow> nat \<Rightarrow> (string \<times> string) list \<Rightarrow> request \<Rightarrow> (response \<times> nat) option" where
  "requireAPIKey uuid c n hs r =
     (case c of
        None \<Rightarrow> None
      | Some c \<Rightarrow> if authorized c r then None else Some (RespondError uuid n hs r unauthorized))"

definition method_not_allowed :: api_error where
  "method_not_allowed = api_err 405 ''BAD_REQUEST'' ''Method not allowed''"

definition not_found :: api_error where
  "not_found = api_err 404 ''NOT_FOUND'' ''Not found''"

definition internal_error :: api_error where
  "internal_error = api_err 500 ''INTERNAL_ERROR'' ''Internal server error''"

definition service_unavailable :: api_error where
  "service_unavailable = api_err 503 ''SERVICE_UNAVAILABLE'' ''Service unavailable''"

definition missing_field :: "string \<Rightarrow> string \<Rightarrow> api_error" where
  "missing_field msg f =
     \<lparr>ae_StatusCode = 422, ae_Code = ''VALIDATION_ERROR'', ae_Message = msg, ae_Details = [(f, ''required'')]\<rparr>"

lemma response_status [simp]:
  "rs_status (fst (RespondError uuid n hs r e)) = ae_StatusCode e"
  "rs_status (fst (RespondJSON uuid n hs r s v)) = s"
  "rs_status (RespondNoContent hs) = 204"
  by (simp_all add: RespondError_def RespondJSON_def RespondNoContent_def case_prod_beta Let_def)

lemma draws_more: "n \<le> snd (RequestID uuid n r)"
  by (simp add: RequestID_def Let_def)

lemma responding_draws [simp]:
  "n \<le> snd (RespondError uuid n hs r e)" "n \<le> snd (RespondJSON uuid n hs r s v)"
  using draws_more [of n uuid r]
  by (simp_all add: RespondError_def RespondJSON_def case_prod_beta Let_def)

text \<open>A body that is not larger than the limit of 256 KB of an unset configuration is decoded.\<close>

lemma decode_body_small:
  "re_end r \<le> defaultMaxRequestBodyBytes \<Longrightarrow> cf_MaxRequestBodyBytes c \<le> 0 \<Longrightarrow> re_json r = Some v \<Longrightarrow>
     decode_body c r fs zero = json_into fs v zero"
  by (simp add: decode_body_def bodyReader_def effectiveMaxBodyBytes_def)

end
