(* ===== verification/Daily.thy ===== *)
theory Daily
  imports Config
begin

text \<open>
  Rooms and meeting tokens of Daily.co, \<^verbatim>\<open>pkg/runner/daily/daily.go\<close>. The remote API is a function from the
  request to its reply; \<open>room_id\<close> is the random part of the room's name and \<open>now\<close> the time in nanoseconds.
\<close>

record daily_config =
  dl_RoomURL :: string
  dl_Token :: string
  dl_SIPEndpoint :: string

record daily_options =
  do_APIKey :: string
  do_APIURL :: string
  do_RoomExpDurationHrs :: rat
  do_TokenExpDurationHrs :: rat
  do_SIPCallerPhone :: string
  do_SIPEnableVideo :: bool
  do_SIPNumEndpoints :: int

datatype api_call = ApiCall (ac_url: string) (ac_key: string) (ac_body: any)

text \<open>A transport error, or the status code, the status line and the JSON of the reply.\<close>

type_synonym api_reply = "err + int \<times> string \<times> any option"

definition first_set :: "string \<Rightarrow> string \<Rightarrow> string" where
  "first_set a b = (if a = [] then b else a)"

definition hours_or :: "rat \<Rightarrow> rat \<Rightarrow> rat" where
  "hours_or d h = (if h \<le> 0 then d else h)"

definition expiry :: "int \<Rightarrow> rat \<Rightarrow> int" where
  "expiry now hrs = (now + \<lfloor>hrs * (3600 * 10 ^ 9)\<rfloor>) div 10 ^ 9"

definition room_props :: "daily_options \<Rightarrow> int \<Rightarrow> anymap" where
  "room_props opts ex =
     [(''eject_at_room_exp'', ABool True)] @
     (if do_SIPCallerPhone opts = [] then [] else [(''enable_dialout'', ABool True)]) @
     [(''exp'', ANum (of_int ex))] @
     (if do_SIPCallerPhone opts = [] then []
      else [(''sip'', AObj
              [(''display_name'', AStr (do_SIPCallerPhone opts)),
               (''num_endpoints'', ANum (of_int (do_SIPNumEndpoints opts))),
               (''sip_mode'', AStr ''dial-in''),
               (''video'', ABool (do_SIPEnableVideo opts))]),
            (''start_video_off'', ABool (\<not> do_SIPEnableVideo opts))])"

definition room_name :: "daily_options \<Rightarrow> string \<Rightarrow> string" where
  "room_name opts room_id =
     (if do_SIPCallerPhone opts = [] then ''voxray-'' else ''voxray-sip-'') @ take 8 room_id"

record room_resp =
  rr_url :: string
  rr_name :: string
  rr_sip :: string

definition room_fields :: "(string \<times> room_resp setter) list" where
  "room_fields =
     [(''url'', set_string (\<lambda>x. rr_url_update (\<lambda>_. x))), (''name'', set_string (\<lambda>x. rr_name_update (\<lambda>_. x))),
      (''config'', json_into [(''sip_endpoint'', set_string (\<lambda>x. rr_sip_update (\<lambda>_. x)))])]"

definition decode_room :: "any option \<Rightarrow> room_resp option" where
  "decode_room v = (case v of None \<Rightarrow> None | Some v \<Rightarrow> json_into room_fields v \<lparr>rr_url = [], rr_name = [], rr_sip = []\<rparr>)"

definition decode_token :: "any option \<Rightarrow> string option" where
  "decode_token v = (case v of None \<Rightarrow> None | Some v \<Rightarrow> json_into [(''token'', set_string (\<lambda>x _. x))] v [])"

definition status_ok :: "int \<Rightarrow> bool" where
  "status_ok n \<longleftrightarrow> n = 200 \<or> n = 201"

text \<open>The second request, once there is a room.\<close>

definition create_token :: "(api_call \<Rightarrow> api_reply) \<Rightarrow> string \<Rightarrow> string \<Rightarrow> string \<Rightarrow> int \<Rightarrow> err + string" where
  "create_token http apiURL apiKey name ex =
     (case http (ApiCall (apiURL @ ''/meeting-tokens'') apiKey
         (AObj [(''properties'', AObj [(''exp'', ANum (of_int ex)), (''is_owner'', ABool True),
            (''room_name'', AStr name), (''user_name'', AStr ''Voxray Bot'')])])) of
        Inl e \<Rightarrow> Inl e
      | Inr (code, status, v) \<Rightarrow>
          if \<not> status_ok code then Inl (''daily create token: '' @ status)
          else (case decode_token v of
              None \<Rightarrow> Inl ''json''
            | Some t \<Rightarrow> if t = [] then Inl ''daily create token: empty token in response'' else Inr t))"

definition Configure ::
  "(api_call \<Rightarrow> api_reply) \<Rightarrow> env \<Rightarrow> string \<Rightarrow> int \<Rightarrow> daily_options \<Rightarrow> err + daily_config" where
  "Configure http e room_id now opts =
     (let apiKey = first_set (do_APIKey opts) (e ''DAILY_API_KEY'');
          apiURL = first_set (first_set (do_APIURL opts) (e ''DAILY_API_URL'')) ''https://api.daily.co/v1'';
          ex = expiry now (hours_or 2 (do_RoomExpDurationHrs opts));
          tex = expiry now (hours_or 2 (do_TokenExpDurationHrs opts));
          name = room_name opts room_id
      in if apiKey = []
         then Inl ''DAILY_API_KEY is required (get one from https://dashboard.daily.co/developers)''
         else (case http (ApiCall (apiURL @ ''/rooms'') apiKey
               (AObj [(''name'', AStr name), (''properties'', AObj (room_props opts ex))])) of
             Inl e \<Rightarrow> Inl e
           | Inr (code, status, v) \<Rightarrow>
               if \<not> status_ok code then Inl (''daily create room: '' @ status)
               else (case decode_room v of
                   None \<Rightarrow> Inl ''json''
                 | Some room \<Rightarrow>
                     if rr_url room = [] then Inl ''daily create room: empty url in response''
                     else (case create_token http apiURL apiKey name tex of
                         Inl e \<Rightarrow> Inl e
                       | Inr t \<Rightarrow> Inr \<lparr>dl_RoomURL = rr_url room, dl_Token = t, dl_SIPEndpoint = rr_sip room\<rparr>))))"

text \<open>A result has a room and a token; without a key nothing is created.\<close>

lemma Configure_result:
  "Configure http e room_id now opts = Inr c \<Longrightarrow> dl_RoomURL c \<noteq> [] \<and> dl_Token c \<noteq> []"
  by (auto simp: Configure_def create_token_def Let_def
      split: if_splits sum.splits option.splits prod.splits)

lemma Configure_needs_key:
  "do_APIKey opts = [] \<Longrightarrow> e ''DAILY_API_KEY'' = [] \<Longrightarrow> \<exists>x. Configure http e room_id now opts = Inl x"
  by (simp add: Configure_def first_set_def Let_def)

end
