(* ===== verification/Server.thy ===== *)
theory Server
  imports Http Daily Telephony
begin

text \<open>
  The HTTP server, \<^verbatim>\<open>pkg/server/server.go\<close> and the main route of \<^verbatim>\<open>pkg/transport/websocket/websocket.go\<close>: every
  handler as a function from the time, the request and the world to the response and the new world, and the
  routing. \<open>deps\<close> is what lies outside: the environment, random identifiers and \<^verbatim>\<open>uuid.Parse\<close>, the API of
  Daily, the WebRTC library behind \<^verbatim>\<open>HandleOffer\<close>, the upgrade to a WebSocket with the first messages of a
  telephone line, the session store, and handlers of libraries. No response means that the connection has been
  taken over. Paths are clean, as \<^verbatim>\<open>ServeMux\<close> redirects the others.
\<close>

section \<open>The world\<close>

datatype started =
    WebRTCStarted (st_sdp: string)
  | WebSocketStarted ws_format
  | TelephonyStarted line_serializer

record 'w world =
  wd_cfg :: config
  wd_store :: 'w
  wd_idem :: idempotency_store
  wd_drawn :: nat
  wd_daily_key :: string
  wd_calls :: "daily_options list"
  wd_started :: "started list"

text \<open>The handlers of the routes.\<close>

datatype handler =
    MainWS | Health | ConfigInfo | Metrics | Ready | Swagger | Start | SessionOffer | WebRTCOffer
  | TelephonyRoot | TelephonyWS | DailyRoot | Dialin | WebFiles | Root

text \<open>\<open>dp_ping\<close> is \<open>None\<close> if the store is not the Redis store. \<open>dp_upgrade\<close> is given whether the connection can be
  taken over and gives the status of a failure.\<close>

record 'w deps =
  dp_env :: env
  dp_uuid :: "nat \<Rightarrow> string"
  dp_uuid_parses :: "string \<Rightarrow> bool"
  dp_daily :: "api_call \<Rightarrow> api_reply"
  dp_offer :: "string \<Rightarrow> err + string"
  dp_upgrade :: "bool \<Rightarrow> request \<Rightarrow> int option"
  dp_messages :: "request \<Rightarrow> any option \<times> any option option"
  dp_put :: "int \<Rightarrow> 'w \<Rightarrow> string \<Rightarrow> session \<Rightarrow> err option \<times> 'w"
  dp_get :: "int \<Rightarrow> 'w \<Rightarrow> string \<Rightarrow> err + session option"
  dp_ping :: "('w \<Rightarrow> err option) option"
  dp_library :: "handler \<Rightarrow> request \<Rightarrow> response"
  dp_web :: bool

type_synonym 'w outcome = "response option \<times> 'w world"

definition reply :: "'w world \<Rightarrow> response \<times> nat \<Rightarrow> 'w outcome" where
  "reply w x = (Some (fst x), w\<lparr>wd_drawn := snd x\<rparr>)"

definition fails :: "'w deps \<Rightarrow> (string \<times> string) list \<Rightarrow> request \<Rightarrow> 'w world \<Rightarrow> api_error \<Rightarrow> 'w outcome" where
  "fails d hs r w e = reply w (RespondError (dp_uuid d) (wd_drawn w) hs r e)"

definition succeeds ::
  "'w deps \<Rightarrow> (string \<times> string) list \<Rightarrow> request \<Rightarrow> 'w world \<Rightarrow> int \<Rightarrow> any \<Rightarrow> 'w outcome" where
  "succeeds d hs r w status v = reply w (RespondJSON (dp_uuid d) (wd_drawn w) hs r status v)"

section \<open>State of the server\<close>

definition status_json :: "string \<Rightarrow> any" where
  "status_json s = AObj [(''status'', AStr s)]"

definition handleHealth :: "'w deps \<Rightarrow> request \<Rightarrow> 'w world \<Rightarrow> 'w outcome" where
  "handleHealth d r w =
     (if re_method r \<noteq> ''GET'' then fails d [] r w method_not_allowed
      else succeeds d [] r w 200 (status_json ''ok''))"

definition nonempty :: "string \<Rightarrow> string \<Rightarrow> anymap" where
  "nonempty k v = (if v = [] then [] else [(k, AStr v)])"

definition info_json :: "pipeline_info \<Rightarrow> any" where
  "info_json i = AObj
     ([(''stt_provider'', AStr (pi_SttProvider i)), (''llm_provider'', AStr (pi_LlmProvider i)),
       (''tts_provider'', AStr (pi_TtsProvider i))] @
      nonempty ''stt_model'' (pi_SttModel i) @ nonempty ''stt_language'' (pi_SttLanguage i) @
      nonempty ''llm_model'' (pi_LlmModel i) @ nonempty ''tts_model'' (pi_TtsModel i) @
      nonempty ''tts_voice'' (pi_TtsVoice i) @
      [(''vad_type'', AStr (pi_VadType i)), (''transport'', AStr (pi_Transport i))])"

definition handleConfig :: "'w deps \<Rightarrow> request \<Rightarrow> 'w world \<Rightarrow> 'w outcome" where
  "handleConfig d r w =
     (if re_method r \<noteq> ''GET'' then fails d [] r w method_not_allowed
      else succeeds d [] r w 200 (info_json (PublicPipelineInfo (Some (wd_cfg w)))))"

definition handleMetrics :: "'w deps \<Rightarrow> request \<Rightarrow> 'w world \<Rightarrow> 'w outcome" where
  "handleMetrics d r w =
     (if MetricsEnabledOrDefault (Some (wd_cfg w)) then (Some (dp_library d Metrics r), w)
      else if re_method r \<noteq> ''GET'' then fails d [] r w method_not_allowed
      else (Some (RespondNoContent []), w))"

definition handleReady :: "'w deps \<Rightarrow> request \<Rightarrow> 'w world \<Rightarrow> 'w outcome" where
  "handleReady d r w =
     (if re_method r \<noteq> ''GET'' then fails d [] r w method_not_allowed
      else (case dp_ping d of
          Some ping \<Rightarrow>
            (case ping (wd_store w) of
               Some e \<Rightarrow> fails d [] r w service_unavailable
             | None \<Rightarrow> succeeds d [] r w 200 (status_json ''ok''))
        | None \<Rightarrow> succeeds d [] r w 200 (status_json ''ok'')))"

definition handleRoot :: "'w deps \<Rightarrow> request \<Rightarrow> 'w world \<Rightarrow> 'w outcome" where
  "handleRoot d r w =
     (if re_path r \<noteq> ''/'' then fails d [] r w not_found else succeeds d [] r w 200 (status_json ''ok''))"

section \<open>Sessions\<close>

record start_request =
  sr_CreateDailyRoom :: bool
  sr_EnableDefaultIceServers :: bool
  sr_Body :: "anymap option"

definition start_fields :: "(string \<times> start_request setter) list" where
  "start_fields =
     [(''createDailyRoom'', set_bool (\<lambda>b. sr_CreateDailyRoom_update (\<lambda>_. b))),
      (''enableDefaultIceServers'', set_bool (\<lambda>b. sr_EnableDefaultIceServers_update (\<lambda>_. b))),
      (''body'', set_object sr_Body (\<lambda>b. sr_Body_update (\<lambda>_. b)))]"

definition no_start :: start_request where
  "no_start = \<lparr>sr_CreateDailyRoom = False, sr_EnableDefaultIceServers = False, sr_Body = None\<rparr>"

definition daily_defaults :: "string \<Rightarrow> daily_options" where
  "daily_defaults key =
     \<lparr>do_APIKey = key, do_APIURL = [], do_RoomExpDurationHrs = 2, do_TokenExpDurationHrs = 2,
      do_SIPCallerPhone = [], do_SIPEnableVideo = False, do_SIPNumEndpoints = 0\<rparr>"

text \<open>A room is asked for; the call is kept, and one identifier is drawn for its name.\<close>

definition create_room ::
  "'w deps \<Rightarrow> int \<Rightarrow> daily_options \<Rightarrow> 'w world \<Rightarrow> (err + daily_config) \<times> 'w world" where
  "create_room d now opts w =
     (Configure (dp_daily d) (dp_env d) (dp_uuid d (wd_drawn w)) now opts,
      w\<lparr>wd_drawn := Suc (wd_drawn w), wd_calls := wd_calls w @ [opts]\<rparr>)"

definition room_json :: "daily_config \<Rightarrow> string \<Rightarrow> any" where
  "room_json c i =
     AObj [(''dailyRoom'', AStr (dl_RoomURL c)), (''dailyToken'', AStr (dl_Token c)), (''sessionId'', AStr i)]"

definition session_json :: "string \<Rightarrow> bool \<Rightarrow> any" where
  "session_json i ice =
     AObj ((if ice then [(''iceConfig'', AObj [(''iceServers'', AArr
              [AObj [(''urls'', AArr [AStr ''stun:stun.l.google.com:19302''])]])])] else []) @
           [(''sessionId'', AStr i)])"

definition start_headers :: "'w world \<Rightarrow> request \<Rightarrow> (string \<times> string) list" where
  "start_headers w r =
     setCORS r (cf_CORSAllowedOrigins (wd_cfg w)) ''POST, OPTIONS'' @ [(''Cache-Control'', ''no-store'')]"

definition created :: "(string \<times> string) list \<Rightarrow> any \<Rightarrow> response" where
  "created hs v = \<lparr>rs_status = 201, rs_headers = hs @ [(''Content-Type'', ''application/json'')], rs_body = JsonBody v\<rparr>"

definition idempotency_key :: "request \<Rightarrow> string" where
  "idempotency_key r = TrimSpace (re_header r ''Idempotency-Key'')"

text \<open>\<^verbatim>\<open>handleStart\<close> up to the look-up of the idempotency key; \<open>None\<close> goes on.\<close>

definition start_begin :: "'w deps \<Rightarrow> int \<Rightarrow> request \<Rightarrow> 'w world \<Rightarrow> 'w outcome option" where
  "start_begin d now r w =
     (let hs = start_headers w r
      in if re_method r = ''OPTIONS'' then Some (Some (RespondNoContent hs), w)
         else (case requireAPIKey (dp_uuid d) (Some (wd_cfg w)) (wd_drawn w) hs r of
             Some x \<Rightarrow> Some (reply w x)
           | None \<Rightarrow>
               if re_method r \<noteq> ''POST'' then Some (fails d hs r w method_not_allowed)
               else if idempotency_key r = [] then None
               else (case idempotency_get (wd_idem w) now (idempotency_key r) of
                   Some cached \<Rightarrow> Some (Some (created hs cached), w)
                 | None \<Rightarrow> None)))"

text \<open>The answer is remembered under the key.\<close>

definition start_answer :: "int \<Rightarrow> request \<Rightarrow> (string \<times> string) list \<Rightarrow> 'w world \<Rightarrow> any \<Rightarrow> 'w outcome" where
  "start_answer now r hs w data =
     (let v = AObj [(''data'', data)]
      in (Some (created hs v),
          if idempotency_key r = [] then w
          else w\<lparr>wd_idem := idempotency_set (wd_idem w) now (idempotency_key r) v\<rparr>))"

definition start_finish :: "'w deps \<Rightarrow> int \<Rightarrow> request \<Rightarrow> 'w world \<Rightarrow> 'w outcome" where
  "start_finish d now r w =
     (let hs = start_headers w r
      in case decode_body (wd_cfg w) r start_fields no_start of
           None \<Rightarrow> fails d hs r w (api_err 400 ''BAD_REQUEST'' ''Invalid JSON body'')
         | Some q \<Rightarrow>
             if sr_CreateDailyRoom q
             then (let (c1, key) = GetAPIKey (dp_env d) (wd_cfg w) ''daily_api_key'' ''DAILY_API_KEY'';
                       (res, w1) = create_room d now (daily_defaults key) (w\<lparr>wd_cfg := c1\<rparr>)
                   in case res of
                        Inl e \<Rightarrow> fails d hs r w1 internal_error
                      | Inr c \<Rightarrow>
                          start_answer now r hs (w1\<lparr>wd_drawn := Suc (wd_drawn w1)\<rparr>) (room_json c (dp_uuid d (wd_drawn w1))))
             else (let i = dp_uuid d (wd_drawn w);
                       x = \<lparr>se_Body = sr_Body q, se_EnableDefaultIceServers = sr_EnableDefaultIceServers q\<rparr>;
                       (e, st) = dp_put d now (wd_store w) i x;
                       w1 = w\<lparr>wd_drawn := Suc (wd_drawn w), wd_store := st\<rparr>
                   in case e of
                        Some e \<Rightarrow> fails d hs r w1 internal_error
                      | None \<Rightarrow> start_answer now r hs w1 (session_json i (sr_EnableDefaultIceServers q))))"

definition handleStart :: "'w deps \<Rightarrow> int \<Rightarrow> request \<Rightarrow> 'w world \<Rightarrow> 'w outcome" where
  "handleStart d now r w = (case start_begin d now r w of Some x \<Rightarrow> x | None \<Rightarrow> start_finish d now r w)"

section \<open>WebRTC\<close>

text \<open>\<^verbatim>\<open>Transport.Start\<close> of \<^verbatim>\<open>smallwebrtc\<close> fails without a peer connection; \<^verbatim>\<open>HandleOffer\<close> makes one.\<close>

definition webrtc_Start :: "bool \<Rightarrow> err option" where
  "webrtc_Start has_pc =
     (if has_pc then None else Some ''smallwebrtc: HandleOffer must be called before Start'')"

definition connect_webrtc ::
  "'w deps \<Rightarrow> (string \<times> string) list \<Rightarrow> request \<Rightarrow> 'w world \<Rightarrow> string \<Rightarrow> (string \<Rightarrow> any) \<Rightarrow> 'w outcome" where
  "connect_webrtc d hs r w sdp render =
     (case dp_offer d sdp of
        Inl e \<Rightarrow> fails d hs r w service_unavailable
      | Inr answer \<Rightarrow>
          (case webrtc_Start True of
             Some e \<Rightarrow> fails d hs r w internal_error
           | None \<Rightarrow>
               succeeds d hs r (w\<lparr>wd_started := wd_started w @ [WebRTCStarted sdp]\<rparr>) 200 (render answer)))"

definition handleWebRTCOffer :: "'w deps \<Rightarrow> request \<Rightarrow> 'w world \<Rightarrow> 'w outcome" where
  "handleWebRTCOffer d r w =
     (let hs = start_headers w r
      in if re_method r = ''OPTIONS'' then (Some (RespondNoContent hs), w)
         else (case requireAPIKey (dp_uuid d) (Some (wd_cfg w)) (wd_drawn w) hs r of
             Some x \<Rightarrow> reply w x
           | None \<Rightarrow>
               if re_method r \<noteq> ''POST'' then fails d hs r w method_not_allowed
               else (case decode_body (wd_cfg w) r [(''offer'', set_string (\<lambda>x _. x))] [] of
                   None \<Rightarrow> fails d hs r w (api_err 400 ''BAD_REQUEST'' ''Invalid JSON'')
                 | Some offer \<Rightarrow>
                     if TrimSpace offer = [] then fails d hs r w (missing_field ''Missing or empty offer'' ''offer'')
                     else connect_webrtc d hs r w offer (\<lambda>a. AObj [(''answer'', AStr a)]))))"

text \<open>The session id of a path, and whether the path is that of an offer.\<close>

definition split_session :: "string \<Rightarrow> string \<Rightarrow> string \<times> bool" where
  "split_session offer rest =
     (case index_of ''/'' rest of
        Some i \<Rightarrow> (take i rest, drop i rest = offer)
      | None \<Rightarrow> (rest, False))"

definition session_path :: "string \<Rightarrow> string \<times> bool" where
  "session_path path =
     (if prefix ''/api/v1/sessions/'' path then split_session ''/offer'' (drop 17 path)
      else if prefix ''/sessions/'' path then split_session ''/api/offer'' (drop 10 path)
      else ([], False))"

record offer_request =
  or_SDP :: string
  or_Type :: string
  or_PCID :: string
  or_RestartPC :: bool
  or_RequestData :: "anymap option"
  or_RequestDataAlt :: "anymap option"

definition offer_fields :: "(string \<times> offer_request setter) list" where
  "offer_fields =
     [(''sdp'', set_string (\<lambda>x. or_SDP_update (\<lambda>_. x))), (''type'', set_string (\<lambda>x. or_Type_update (\<lambda>_. x))),
      (''pc_id'', set_string (\<lambda>x. or_PCID_update (\<lambda>_. x))), (''restart_pc'', set_bool (\<lambda>x. or_RestartPC_update (\<lambda>_. x))),
      (''request_data'', set_object or_RequestData (\<lambda>x. or_RequestData_update (\<lambda>_. x))),
      (''requestData'', set_object or_RequestDataAlt (\<lambda>x. or_RequestDataAlt_update (\<lambda>_. x)))]"

definition no_offer :: offer_request where
  "no_offer = \<lparr>or_SDP = [], or_Type = [], or_PCID = [], or_RestartPC = False, or_RequestData = None, or_RequestDataAlt = None\<rparr>"

text \<open>The data of the request, which falls back to the other spelling and to the session, is not given to
  anybody.\<close>

definition handleSessionOffer :: "'w deps \<Rightarrow> int \<Rightarrow> request \<Rightarrow> 'w world \<Rightarrow> 'w outcome" where
  "handleSessionOffer d now r w =
     (case requireAPIKey (dp_uuid d) (Some (wd_cfg w)) (wd_drawn w) [] r of
        Some x \<Rightarrow> reply w x
      | None \<Rightarrow>
          (let hs = [(''Cache-Control'', ''no-store'')]; (i, isOffer) = session_path (re_path r)
           in if i = [] \<or> \<not> isOffer then fails d hs r w not_found
              else if \<not> dp_uuid_parses d i
              then fails d hs r w \<lparr>ae_StatusCode = 400, ae_Code = ''VALIDATION_ERROR'',
                     ae_Message = ''Invalid session ID format'', ae_Details = [(''sessionId'', ''must be a valid UUID'')]\<rparr>
              else (case dp_get d now (wd_store w) i of
                  Inl e \<Rightarrow> fails d hs r w internal_error
                | Inr None \<Rightarrow> fails d hs r w (api_err 404 ''NOT_FOUND'' ''Session not found'')
                | Inr (Some sess) \<Rightarrow>
                    (let hs1 = hs @ setCORS r (cf_CORSAllowedOrigins (wd_cfg w)) ''POST, PATCH, OPTIONS''
                     in if re_method r = ''OPTIONS'' \<or> re_method r = ''PATCH'' then (Some (RespondNoContent hs1), w)
                        else if re_method r \<noteq> ''POST'' then fails d hs1 r w method_not_allowed
                        else (case decode_body (wd_cfg w) r offer_fields no_offer of
                            None \<Rightarrow> fails d hs1 r w (api_err 400 ''BAD_REQUEST'' ''Invalid JSON body'')
                          | Some q \<Rightarrow>
                              if TrimSpace (or_SDP q) = []
                              then fails d hs1 r w (missing_field ''Missing or empty SDP'' ''sdp'')
                              else connect_webrtc d hs1 r w (or_SDP q)
                                (\<lambda>a. AObj [(''answer'', AStr a), (''type'', AStr ''answer'')]))))))"

section \<open>WebSockets\<close>

text \<open>What a handler can do with the writer it is given is the writer's set of methods. The recorder that the
  metrics put in between embeds the interface \<^verbatim>\<open>http.ResponseWriter\<close>, so the methods of that interface are
  promoted to it, and it declares \<^verbatim>\<open>WriteHeader\<close> itself; what else the writer inside it has is not seen
  any more. \<open>server_methods\<close> are those of the writer of the HTTP/1.1 server.\<close>

definition ResponseWriter_methods :: "string set" where
  "ResponseWriter_methods = {''Header'', ''Write'', ''WriteHeader''}"

definition statusRecorder_methods :: "string set" where
  "statusRecorder_methods = insert ''WriteHeader'' ResponseWriter_methods"

definition server_methods :: "string set" where
  "server_methods = ResponseWriter_methods \<union> {''Flush'', ''Hijack'', ''ReadFrom'', ''WriteString'', ''CloseNotify''}"

text \<open>The upgrader asks a \<^verbatim>\<open>ResponseController\<close>, which takes a writer that hijacks or one that unwraps.\<close>

definition is_Hijacker :: "string set \<Rightarrow> bool" where
  "is_Hijacker methods \<longleftrightarrow> ''Hijack'' \<in> methods \<or> ''Unwrap'' \<in> methods"

definition metricsMiddleware :: "string set \<Rightarrow> string set" where
  "metricsMiddleware methods = statusRecorder_methods"

definition wrapWithMetrics :: "config option \<Rightarrow> string set \<Rightarrow> string set" where
  "wrapWithMetrics c methods =
     (if MetricsEnabledOrDefault c then metricsMiddleware methods else methods)"

lemma wrapped_hijackable [simp]:
  "is_Hijacker server_methods"
  "is_Hijacker (wrapWithMetrics c server_methods) \<longleftrightarrow> \<not> MetricsEnabledOrDefault c"
  by (simp_all add: wrapWithMetrics_def metricsMiddleware_def is_Hijacker_def server_methods_def
      statusRecorder_methods_def ResponseWriter_methods_def)

definition refused :: "int \<Rightarrow> response" where
  "refused status = \<lparr>rs_status = status, rs_headers = [], rs_body = NoBody\<rparr>"

definition handleWS :: "'w deps \<Rightarrow> request \<Rightarrow> 'w world \<Rightarrow> 'w outcome" where
  "handleWS d r w =
     (case requireAPIKey (dp_uuid d) (Some (wd_cfg w)) (wd_drawn w) [] r of
        Some x \<Rightarrow> reply w x
      | None \<Rightarrow>
          (case dp_upgrade d (is_Hijacker server_methods) r of
             Some status \<Rightarrow> (Some (refused status), w)
           | None \<Rightarrow>
               (let ser = (case getWebSocketSerializer (Some r) of None \<Rightarrow> JsonFormat | Some f \<Rightarrow> f)
                in (None, w\<lparr>wd_started := wd_started w @ [WebSocketStarted ser]\<rparr>))))"

definition is_telephony :: "string \<Rightarrow> bool" where
  "is_telephony t \<longleftrightarrow> t = ''twilio'' \<or> t = ''telnyx'' \<or> t = ''plivo'' \<or> t = ''exotel''"

definition telephony_url :: "config \<Rightarrow> request \<Rightarrow> string" where
  "telephony_url c r =
     (let host = (if cf_ProxyHost c = [] then re_host r else cf_ProxyHost c);
          scheme = (if re_tls r then ''wss'' else ''ws'')
      in scheme @ ''://'' @ host @ ''/telephony/ws'')"

definition stream_xml :: "string \<Rightarrow> string" where
  "stream_xml u =
     ''<?xml version=\"1.0\" encoding=\"UTF-8\"?><Response><Connect><Stream url=\"'' @ u @ ''\"/></Connect></Response>''"

definition handleTelephonyRoot :: "'w deps \<Rightarrow> request \<Rightarrow> 'w world \<Rightarrow> 'w outcome" where
  "handleTelephonyRoot d r w =
     (let t = cf_RunnerTransport (wd_cfg w); u = telephony_url (wd_cfg w) r
      in if re_path r \<noteq> ''/'' then fails d [] r w not_found
         else if re_method r = ''POST''
         then (if t = ''exotel''
               then succeeds d [] r w 200 (AObj
                 [(''error'', AStr ''Exotel doesn't use POST webhooks''),
                  (''note'', AStr ''Configure the WebSocket URL above in your Exotel App Bazaar Voicebot Applet''),
                  (''websocketUrl'', AStr u)])
               else (Some \<lparr>rs_status = 200, rs_headers = [(''Content-Type'', ''application/xml'')],
                      rs_body = RawBody (stream_xml u)\<rparr>, w))
         else if re_method r = ''GET'' then succeeds d [] r w 200 (status_json (''Bot started with '' @ t))
         else fails d [] r w method_not_allowed)"

text \<open>The keys of the line are looked up for the serializer; that they are cached then is left out.\<close>

definition handleTelephonyWS :: "'w deps \<Rightarrow> request \<Rightarrow> 'w world \<Rightarrow> 'w outcome" where
  "handleTelephonyWS d r w =
     (if re_method r \<noteq> ''GET'' then fails d [] r w method_not_allowed
      else (case dp_upgrade d (is_Hijacker (wrapWithMetrics (Some (wd_cfg w)) server_methods)) r of
          Some status \<Rightarrow> (Some (refused status), w)
        | None \<Rightarrow>
            (case ParseTelephonyMessage (fst (dp_messages d r)) (snd (dp_messages d r)) of
               None \<Rightarrow> (None, w)
             | Some data \<Rightarrow>
                 if cd_Provider data = [] then (None, w)
                 else (case BuildTelephonySerializer data (\<lambda>s v. snd (GetAPIKey (dp_env d) (wd_cfg w) s v)) of
                     None \<Rightarrow> (None, w)
                   | Some ser \<Rightarrow> (None, w\<lparr>wd_started := wd_started w @ [TelephonyStarted ser]\<rparr>)))))"

section \<open>Daily\<close>

definition handleDailyRoot :: "'w deps \<Rightarrow> int \<Rightarrow> request \<Rightarrow> 'w world \<Rightarrow> 'w outcome" where
  "handleDailyRoot d now r w =
     (if re_path r \<noteq> ''/'' then fails d [] r w not_found
      else if re_method r = ''GET''
      then (let (res, w1) = create_room d now (daily_defaults (wd_daily_key w)) w
            in case res of
                 Inl e \<Rightarrow> fails d [] r w1 internal_error
               | Inr c \<Rightarrow> (Some \<lparr>rs_status = 302, rs_headers = [(''Location'', dl_RoomURL c)], rs_body = NoBody\<rparr>, w1))
      else fails d [] r w not_found)"

record dialin_payload =
  dn_Test :: bool
  dn_From :: string
  dn_To :: string
  dn_CallID :: string
  dn_CallDomain :: string

definition dialin_fields :: "(string \<times> dialin_payload setter) list" where
  "dialin_fields =
     [(''test'', set_bool (\<lambda>x. dn_Test_update (\<lambda>_. x))), (''From'', set_string (\<lambda>x. dn_From_update (\<lambda>_. x))),
      (''To'', set_string (\<lambda>x. dn_To_update (\<lambda>_. x))), (''callId'', set_string (\<lambda>x. dn_CallID_update (\<lambda>_. x))),
      (''callDomain'', set_string (\<lambda>x. dn_CallDomain_update (\<lambda>_. x)))]"

definition no_dialin :: dialin_payload where
  "no_dialin = \<lparr>dn_Test = False, dn_From = [], dn_To = [], dn_CallID = [], dn_CallDomain = []\<rparr>"

definition dialin_missing :: "dialin_payload \<Rightarrow> (string \<times> string) list" where
  "dialin_missing p =
     (if dn_From p = [] then [(''From'', ''required'')] else []) @
     (if dn_To p = [] then [(''To'', ''required'')] else []) @
     (if dn_CallID p = [] then [(''callId'', ''required'')] else []) @
     (if dn_CallDomain p = [] then [(''callDomain'', ''required'')] else [])"

definition handleDialin :: "'w deps \<Rightarrow> int \<Rightarrow> request \<Rightarrow> 'w world \<Rightarrow> 'w outcome" where
  "handleDialin d now r w =
     (let secret = cf_DailyDialinWebhookSecret (wd_cfg w)
      in if re_method r \<noteq> ''POST'' then fails d [] r w method_not_allowed
         else if secret \<noteq> [] \<and> re_header r ''X-Webhook-Secret'' \<noteq> secret then fails d [] r w unauthorized
         else (case decode_body (wd_cfg w) r dialin_fields no_dialin of
             None \<Rightarrow> fails d [] r w (api_err 400 ''BAD_REQUEST'' ''Invalid JSON payload'')
           | Some p \<Rightarrow>
               if dn_Test p then succeeds d [] r w 200 (status_json ''OK'')
               else if dialin_missing p \<noteq> []
               then fails d [] r w \<lparr>ae_StatusCode = 422, ae_Code = ''VALIDATION_ERROR'',
                      ae_Message = ''Missing required fields'', ae_Details = dialin_missing p\<rparr>
               else (let opts = (daily_defaults (wd_daily_key w))\<lparr>do_SIPCallerPhone := dn_From p\<rparr>;
                         (res, w1) = create_room d now opts w
                     in case res of
                          Inl e \<Rightarrow> fails d [] r w1 internal_error
                        | Inr c \<Rightarrow>
                            succeeds d [] r (w1\<lparr>wd_drawn := Suc (wd_drawn w1)\<rparr>) 201
                              (room_json c (dp_uuid d (wd_drawn w1))))))"

section \<open>Routes\<close>

definition server_mode :: "config \<Rightarrow> string" where
  "server_mode c = (if cf_Transport c = [] then ''websocket'' else cf_Transport c)"

definition enableWebRTC :: "config \<Rightarrow> bool" where
  "enableWebRTC c \<longleftrightarrow> server_mode c = ''smallwebrtc'' \<or> server_mode c = ''both''"

definition runnerMode :: "config \<Rightarrow> bool" where
  "runnerMode c \<longleftrightarrow> enableWebRTC c \<or> cf_RunnerTransport c = ''daily''"

definition registerRunnerWebRTCRoutes :: "(string \<times> handler) list" where
  "registerRunnerWebRTCRoutes =
     [(''/start'', Start), (''/api/v1/start'', Start), (''/sessions/'', SessionOffer),
      (''/api/v1/sessions/'', SessionOffer)]"

definition registerTelephonyRoutes :: "config \<Rightarrow> (string \<times> handler) list" where
  "registerTelephonyRoutes c =
     (if is_telephony (cf_RunnerTransport c) then [(''/'', TelephonyRoot), (''/telephony/ws'', TelephonyWS)] else [])"

definition registerDailyRoutes :: "config \<Rightarrow> (string \<times> handler) list" where
  "registerDailyRoutes c =
     (if cf_RunnerTransport c = ''daily''
      then (''/'', DailyRoot) # (if cf_Dialin c then [(''/daily-dialin-webhook'', Dialin)] else [])
      else [])"

definition registerHandlers :: "config \<Rightarrow> bool \<Rightarrow> (string \<times> handler) list" where
  "registerHandlers c web =
     [(''/health'', Health), (''/api/v1/health'', Health), (''/config'', ConfigInfo), (''/api/v1/config'', ConfigInfo),
      (''/metrics'', Metrics), (''/ready'', Ready), (''/api/v1/ready'', Ready), (''/swagger/'', Swagger)] @
     (if runnerMode c then registerRunnerWebRTCRoutes else []) @
     (if enableWebRTC c then [(''/webrtc/offer'', WebRTCOffer), (''/api/v1/webrtc/offer'', WebRTCOffer)] else []) @
     registerTelephonyRoutes c @ registerDailyRoutes c @
     (if \<not> is_telephony (cf_RunnerTransport c) \<and> cf_RunnerTransport c \<noteq> ''daily''
      then [(''/'', if web then WebFiles else Root)] else [])"

definition routes :: "config \<Rightarrow> bool \<Rightarrow> (string \<times> handler) list" where
  "routes c web = (''/ws'', MainWS) # registerHandlers c web"

text \<open>\<^verbatim>\<open>ServeMux\<close>: a pattern that is the path, or else the longest one that ends in a slash and starts the path.\<close>

definition longer :: "string \<Rightarrow> (string \<times> 'h) option \<Rightarrow> string \<times> 'h \<Rightarrow> (string \<times> 'h) option" where
  "longer path best ph =
     (if suffix ''/'' (fst ph) \<and> prefix (fst ph) path \<and>
         (case best of None \<Rightarrow> True | Some b \<Rightarrow> length (fst b) < length (fst ph))
      then Some ph else best)"

definition ServeMux :: "(string \<times> 'h) list \<Rightarrow> string \<Rightarrow> 'h option" where
  "ServeMux rs path =
     (case map_of rs path of Some h \<Rightarrow> Some h | None \<Rightarrow> map_option snd (foldl (longer path) None rs))"

definition handle :: "'w deps \<Rightarrow> int \<Rightarrow> request \<Rightarrow> 'w world \<Rightarrow> handler \<Rightarrow> 'w outcome" where
  "handle d now r w h =
     (case h of
        MainWS \<Rightarrow> handleWS d r w
      | Health \<Rightarrow> handleHealth d r w
      | ConfigInfo \<Rightarrow> handleConfig d r w
      | Metrics \<Rightarrow> handleMetrics d r w
      | Ready \<Rightarrow> handleReady d r w
      | Swagger \<Rightarrow> (Some (dp_library d Swagger r), w)
      | Start \<Rightarrow> handleStart d now r w
      | SessionOffer \<Rightarrow> handleSessionOffer d now r w
      | WebRTCOffer \<Rightarrow> handleWebRTCOffer d r w
      | TelephonyRoot \<Rightarrow> handleTelephonyRoot d r w
      | TelephonyWS \<Rightarrow> handleTelephonyWS d r w
      | DailyRoot \<Rightarrow> handleDailyRoot d now r w
      | Dialin \<Rightarrow> handleDialin d now r w
      | WebFiles \<Rightarrow> (Some (dp_library d WebFiles r), w)
      | Root \<Rightarrow> handleRoot d r w)"

definition route :: "'w deps \<Rightarrow> 'w world \<Rightarrow> request \<Rightarrow> handler option" where
  "route d w r = ServeMux (routes (wd_cfg w) (dp_web d)) (re_path r)"

definition serve :: "'w deps \<Rightarrow> 'w world \<Rightarrow> int \<times> request \<Rightarrow> 'w world \<times> response option list" where
  "serve d w e =
     (case route d w (snd e) of
        None \<Rightarrow> (w, [Some (refused 404)])
      | Some h \<Rightarrow> (let (resp, w') = handle d (fst e) (snd e) w h in (w', [resp])))"

text \<open>The world at the start; the key of Daily is looked up when its routes are registered.\<close>

definition StartServers :: "env \<Rightarrow> config \<Rightarrow> 'w \<Rightarrow> 'w world" where
  "StartServers e c st =
     (let (c1, key) = (if cf_RunnerTransport c = ''daily''
                       then GetAPIKey e c ''daily_api_key'' ''DAILY_API_KEY'' else (c, []))
      in \<lparr>wd_cfg = c1, wd_store = st, wd_idem = NewIdempotencyStore (24 * 3600 * 10 ^ 9), wd_drawn = 0,
          wd_daily_key = key, wd_calls = [], wd_started = []\<rparr>)"

section \<open>What a handler leaves alone\<close>

named_theorems handler_defs "the handlers and what they are made of"

lemmas [handler_defs] = handleHealth_def handleConfig_def handleMetrics_def handleReady_def handleRoot_def
  handleTelephonyRoot_def fails_def succeeds_def reply_def

text \<open>Nothing but identifiers was used up.\<close>

definition quiet :: "'w world \<Rightarrow> 'w world \<Rightarrow> bool" where
  "quiet w w' \<longleftrightarrow> wd_drawn w \<le> wd_drawn w' \<and> w' = w\<lparr>wd_drawn := wd_drawn w'\<rparr>"

lemma quiet_refl [simp]: "quiet w w"
  by (simp add: quiet_def)

lemma quiet_trans:
  assumes "quiet w w1" "quiet w1 w2"
  shows "quiet w w2"
proof -
  from assms have e: "w1 = w\<lparr>wd_drawn := wd_drawn w1\<rparr>" "w2 = w1\<lparr>wd_drawn := wd_drawn w2\<rparr>"
    and n: "wd_drawn w \<le> wd_drawn w2" by (auto simp: quiet_def)
  have "w2 = (w\<lparr>wd_drawn := wd_drawn w1\<rparr>)\<lparr>wd_drawn := wd_drawn w2\<rparr>" using e by metis
  with n show ?thesis by (simp add: quiet_def)
qed

lemma quiet_fields:
  assumes "quiet w w'"
  shows "wd_cfg w' = wd_cfg w" "wd_store w' = wd_store w" "wd_idem w' = wd_idem w" "wd_calls w' = wd_calls w"
    "wd_started w' = wd_started w" "wd_daily_key w' = wd_daily_key w" "wd_drawn w \<le> wd_drawn w'"
proof -
  from assms have e: "w' = w\<lparr>wd_drawn := wd_drawn w'\<rparr>" and n: "wd_drawn w \<le> wd_drawn w'"
    by (auto simp: quiet_def)
  show "wd_cfg w' = wd_cfg w" "wd_store w' = wd_store w" "wd_idem w' = wd_idem w" "wd_calls w' = wd_calls w"
    "wd_started w' = wd_started w" "wd_daily_key w' = wd_daily_key w" "wd_drawn w \<le> wd_drawn w'"
    using n by (subst e; simp)+
qed

lemma reply_quiet: "wd_drawn w \<le> snd x \<Longrightarrow> quiet w (snd (reply w x))"
  by (simp add: quiet_def reply_def)

lemma fails_quiet [simp]: "quiet w (snd (fails d hs r w e))"
  by (simp add: fails_def reply_quiet)

lemma succeeds_quiet [simp]: "quiet w (snd (succeeds d hs r w n v))"
  by (simp add: succeeds_def reply_quiet)

lemma fails_status [simp]: "\<exists>a. fst (fails d hs r w e) = Some a \<and> rs_status a = ae_StatusCode e"
  by (simp add: fails_def reply_def)

text \<open>Requests that change nothing.\<close>

definition harmless :: "handler \<Rightarrow> bool" where
  "harmless h \<longleftrightarrow> h \<in> {Health, ConfigInfo, Metrics, Ready, Swagger, WebFiles, Root, TelephonyRoot}"

lemma harmless_quiet: "harmless h \<Longrightarrow> quiet w (snd (handle d now r w h))"
  by (cases h) (simp_all add: harmless_def handle_def handleHealth_def handleConfig_def handleMetrics_def
      handleReady_def handleRoot_def handleTelephonyRoot_def Let_def split: option.splits)

section \<open>Access\<close>

text \<open>The routes that the documentation of the key names.\<close>

definition guarded :: "handler \<Rightarrow> bool" where
  "guarded h \<longleftrightarrow> h \<in> {MainWS, Start, SessionOffer, WebRTCOffer}"

lemma requireAPIKey_denies:
  "\<not> authorized c r \<Longrightarrow> requireAPIKey uuid (Some c) n hs r = Some (RespondError uuid n hs r unauthorized)"
  by (simp add: requireAPIKey_def)

lemma unauthorized_status [simp]: "ae_StatusCode unauthorized = 401"
  by (simp add: unauthorized_def api_err_def)

text \<open>What a client without the key gets: an error, or the answer to a preflight request.\<close>

definition denied :: "response option \<Rightarrow> bool" where
  "denied resp \<longleftrightarrow> (\<exists>a. resp = Some a \<and> (rs_status a = 401 \<or> rs_status a = 204 \<and> rs_body a = NoBody))"

lemma denied_reply: "denied (fst (reply w (RespondError uuid n hs r unauthorized)))"
  by (simp add: denied_def reply_def)

lemma guarded_denies:
  assumes "guarded h" "\<not> authorized (wd_cfg w) r"
  shows "denied (fst (handle d now r w h)) \<and> quiet w (snd (handle d now r w h))"
proof -
  have nc: "denied (Some (RespondNoContent hs))" for hs
    by (simp add: denied_def RespondNoContent_def)
  from assms(1) consider "h = MainWS" | "h = Start" | "h = SessionOffer" | "h = WebRTCOffer"
    by (auto simp: guarded_def)
  then show ?thesis
    by cases (simp_all add: handle_def handleWS_def handleStart_def start_begin_def handleSessionOffer_def
        handleWebRTCOffer_def requireAPIKey_denies [OF assms(2)] denied_reply reply_quiet nc Let_def)
qed

lemma ServeMux_in: "ServeMux rs path = Some h \<Longrightarrow> h \<in> snd ` set rs"
proof -
  have "foldl (longer path) b rs = Some (p, h) \<Longrightarrow> b = Some (p, h) \<or> (p, h) \<in> set rs" for b p h
    by (induction rs arbitrary: b) (auto simp: longer_def split: if_splits)
  from this [of None] show "ServeMux rs path = Some h \<Longrightarrow> h \<in> snd ` set rs"
    by (auto simp: ServeMux_def split: option.splits dest!: map_of_SomeD) force+
qed

lemma route_handlers:
  assumes "route d w r = Some h" "\<not> is_telephony (cf_RunnerTransport (wd_cfg w))" "cf_RunnerTransport (wd_cfg w) \<noteq> ''daily''"
  shows "guarded h \<or> harmless h"
proof -
  from assms(1) have "h \<in> snd ` set (routes (wd_cfg w) (dp_web d))" by (simp add: route_def ServeMux_in)
  with assms(2,3) show ?thesis
    by (auto simp: routes_def registerHandlers_def registerRunnerWebRTCRoutes_def registerTelephonyRoutes_def
        registerDailyRoutes_def guarded_def harmless_def split: if_splits)
qed

text \<open>C4: With a server key set, and unless the server is a telephone or Daily runner, a client that never presents
  the key changes nothing, however many requests it makes and whichever routes it tries: no session is stored
  or joined, no room created, no connection started, no remembered answer made or given away. Every
  request to the WebSocket, start, offer and session routes is answered with 401, or with the bare
  answer to a preflight request.\<close>

theorem api_key_required:
  assumes "cf_ServerAPIKey (wd_cfg w) \<noteq> []" "\<not> is_telephony (cf_RunnerTransport (wd_cfg w))"
    "cf_RunnerTransport (wd_cfg w) \<noteq> ''daily''"
    "list_all (\<lambda>e. presented_key (snd e) \<noteq> cf_ServerAPIKey (wd_cfg w)) es"
  shows "quiet w (fst (run (serve d) w es)) \<and>
    list_all2 (\<lambda>e resp. case route d w (snd e) of Some h \<Rightarrow> guarded h \<longrightarrow> denied resp | None \<Rightarrow> True)
      es (snd (run (serve d) w es))"
  using assms
proof (induction es arbitrary: w)
  case (Cons e es)
  let ?w1 = "fst (serve d w e)"
  have na: "\<not> authorized (wd_cfg w) (snd e)" using Cons.prems by (simp add: authorized_def)
  have step: "quiet w ?w1 \<and> (\<exists>resp. snd (serve d w e) = [resp] \<and>
      (case route d w (snd e) of Some h \<Rightarrow> guarded h \<longrightarrow> denied resp | None \<Rightarrow> True))"
  proof (cases "route d w (snd e)")
    case (Some h)
    from route_handlers [OF Some Cons.prems(2,3)] guarded_denies [OF _ na, of h d "fst e"] harmless_quiet [of h w d "fst e" "snd e"]
    show ?thesis by (auto simp: serve_def Some case_prod_beta Let_def guarded_def harmless_def)
  qed (simp add: serve_def)
  note f = quiet_fields(1) [of w ?w1]
  have r: "route d ?w1 = route d w" using step f by (auto simp: route_def fun_eq_iff)
  from step f have "quiet ?w1 (fst (run (serve d) ?w1 es)) \<and>
      list_all2 (\<lambda>e resp. case route d ?w1 (snd e) of Some h \<Rightarrow> guarded h \<longrightarrow> denied resp | None \<Rightarrow> True)
        es (snd (run (serve d) ?w1 es))"
    using Cons.prems by (intro Cons.IH) simp_all
  with step r quiet_trans [of w ?w1] show ?case by (auto simp del: run.simps(2))
qed simp

definition sample_deps :: "memory_store deps" where
  "sample_deps =
     \<lparr>dp_env = (\<lambda>_. []), dp_uuid = (\<lambda>n. replicate (Suc n) CHR ''u''), dp_uuid_parses = (\<lambda>_. True), dp_daily = (\<lambda>_. Inl ''down''),
      dp_offer = (\<lambda>sdp. if sdp = ''v=0'' then Inr ''answer'' else Inl ''sdp''),
      dp_upgrade = (\<lambda>hijackable r. if hijackable then None else Some 500),
      dp_messages = (\<lambda>_. (Some (twilio_start ''s1'' ''c1''), None)),
      dp_put = (\<lambda>_ m i x. memory_Put m i (Some x)), dp_get = (\<lambda>_. memory_Get), dp_ping = None,
      dp_library = (\<lambda>_ _. refused 200), dp_web = False\<rparr>"

definition sample_request :: "string \<Rightarrow> string \<Rightarrow> string \<Rightarrow> any \<Rightarrow> request" where
  "sample_request mth path key v =
     \<lparr>re_method = mth, re_path = path, re_header = (\<lambda>h. if h = ''X-API-Key'' then key else []),
      re_query = (\<lambda>_. []), re_host = ''localhost'', re_tls = False, re_json = Some v, re_end = 100\<rparr>"

definition sample_world :: "config \<Rightarrow> memory_store world" where
  "sample_world c = StartServers (\<lambda>_. []) c NewMemorySessionStore"

definition sample_config :: config where
  "sample_config = zero_config\<lparr>cf_Transport := ''both'', cf_ServerAPIKey := ''k''\<rparr>"

lemma sample_config_simps [simp]:
  "cf_ServerAPIKey sample_config = ''k''" "cf_RunnerTransport sample_config = []"
  "cf_Transport sample_config = ''both''" "cf_CORSAllowedOrigins sample_config = None"
  "cf_MaxRequestBodyBytes sample_config = 0" "cf_MetricsEnabled sample_config = None"
  by (simp_all add: sample_config_def zero_config_def)

lemma sample_world_simps:
  "cf_RunnerTransport c = [] \<Longrightarrow> wd_cfg (sample_world c) = c"
  "wd_store (sample_world c) = Map.empty" "wd_drawn (sample_world c) = 0" "wd_started (sample_world c) = []"
  by (simp_all add: sample_world_def StartServers_def NewMemorySessionStore_def case_prod_beta Let_def)

lemma api_key_required_witness:
  "wd_store (fst (run (serve sample_deps) (sample_world sample_config)
     [(0, sample_request ''POST'' ''/start'' ''wrong'' (AObj []))])) = Map.empty"
proof -
  have c: "wd_cfg (sample_world sample_config) = sample_config"
    by (simp add: sample_world_simps)
  have "quiet (sample_world sample_config) (fst (run (serve sample_deps) (sample_world sample_config)
      [(0, sample_request ''POST'' ''/start'' ''wrong'' (AObj []))]))"
    using api_key_required [of "sample_world sample_config"
        "[(0, sample_request ''POST'' ''/start'' ''wrong'' (AObj []))]" sample_deps]
    by (simp add: c is_telephony_def presented_key_def sample_request_def
        del: run.simps)
  then show ?thesis by (simp only: quiet_fields(2) sample_world_simps)
qed

section \<open>What every request keeps\<close>

text \<open>A configuration without its cache.\<close>

definition forget :: "config \<Rightarrow> config" where
  "forget c = c\<lparr>cf_apiKeyCache := Map.empty\<rparr>"

lemma forget_GetAPIKey [simp]: "forget (fst (GetAPIKey e c s v)) = forget c"
  by (simp add: forget_def GetAPIKey_def Let_def split: option.splits)

lemma forget_routes: "forget c = forget c' \<Longrightarrow> routes c web = routes c' web"
proof -
  have "routes (forget c) web = routes c web" for c
    by (simp add: routes_def registerHandlers_def registerTelephonyRoutes_def registerDailyRoutes_def runnerMode_def
        enableWebRTC_def server_mode_def forget_def)
  then show "forget c = forget c' \<Longrightarrow> routes c web = routes c' web" by metis
qed

lemma forget_settings:
  assumes "forget c = forget c'"
  shows "authorized c = authorized c'" "decode_body c r fs z = decode_body c' r fs z"
    "cf_ServerAPIKey c = cf_ServerAPIKey c'" "cf_MetricsEnabled c = cf_MetricsEnabled c'"
proof -
  have "authorized (forget c) = authorized c" "decode_body (forget c) r fs z = decode_body c r fs z"
    "cf_ServerAPIKey (forget c) = cf_ServerAPIKey c" "cf_MetricsEnabled (forget c) = cf_MetricsEnabled c" for c
    by (simp_all add: authorized_def decode_body_def effectiveMaxBodyBytes_def forget_def fun_eq_iff)
  with assms show "authorized c = authorized c'" "decode_body c r fs z = decode_body c' r fs z"
    "cf_ServerAPIKey c = cf_ServerAPIKey c'" "cf_MetricsEnabled c = cf_MetricsEnabled c'" by metis+
qed

text \<open>Settings stay, identifiers are used up, sessions that have an identifier drawn before are kept, connections
  are only added, and telephone lines only if a connection can be taken over.\<close>

definition stable :: "'w deps \<Rightarrow> 'w world \<Rightarrow> 'w world \<Rightarrow> bool" where
  "stable d w w' \<longleftrightarrow>
     forget (wd_cfg w') = forget (wd_cfg w) \<and> wd_drawn w \<le> wd_drawn w' \<and>
     (\<forall>k < wd_drawn w. \<forall>t. dp_get d t (wd_store w') (dp_uuid d k) = dp_get d t (wd_store w) (dp_uuid d k)) \<and>
     (\<exists>xs. wd_started w' = wd_started w @ xs)"

lemma stable_refl [simp]: "stable d w w"
  by (simp add: stable_def)

lemma stable_trans: "stable d w w1 \<Longrightarrow> stable d w1 w2 \<Longrightarrow> stable d w w2"
  by (auto simp: stable_def)

lemma quiet_stable: "quiet w w' \<Longrightarrow> stable d w w'"
  by (simp add: stable_def quiet_fields)

lemma started_stable: "stable d w (w\<lparr>wd_started := wd_started w @ xs\<rparr>)"
  by (simp add: stable_def)

lemma fails_stable: "stable d w w1 \<Longrightarrow> stable d w (snd (fails d hs r w1 e))"
  using stable_trans quiet_stable fails_quiet by blast

lemma succeeds_stable: "stable d w w1 \<Longrightarrow> stable d w (snd (succeeds d hs r w1 n v))"
  using stable_trans quiet_stable succeeds_quiet by blast

lemma drawn_stable: "stable d w (w\<lparr>wd_drawn := Suc (wd_drawn w)\<rparr>)"
  by (simp add: stable_def)

lemma answer_stable: "stable d w w1 \<Longrightarrow> stable d w (snd (start_answer now r hs w1 v))"
  by (simp add: stable_def start_answer_def Let_def)

lemma room_stable: "stable d w (snd (create_room d now opts w))"
  by (simp add: stable_def create_room_def)

lemma connect_stable: "stable d w (snd (connect_webrtc d hs r w sdp f))"
  by (simp add: connect_webrtc_def fails_stable succeeds_stable started_stable webrtc_Start_def split: sum.split)

lemma key_stable: "stable d w (w\<lparr>wd_cfg := fst (GetAPIKey e (wd_cfg w) s v)\<rparr>)"
  by (simp add: stable_def)

lemma put_stable:
  assumes "session_store life (dp_put d) (dp_get d) del" "inj (dp_uuid d)"
    "dp_put d t (wd_store w) (dp_uuid d (wd_drawn w)) x = (e, st)"
  shows "stable d w (w\<lparr>wd_drawn := Suc (wd_drawn w), wd_store := st\<rparr>)"
proof -
  have "dp_get d t' st (dp_uuid d k) = dp_get d t' (wd_store w) (dp_uuid d k)" if "k < wd_drawn w" for k t'
    using session_store.get_put_other [OF assms(1,3)] that assms(2) by (metis injD less_irrefl)
  then show ?thesis by (simp add: stable_def)
qed

lemma start_finish_stable:
  assumes "session_store life (dp_put d) (dp_get d) del" "inj (dp_uuid d)"
  shows "stable d w (snd (start_finish d now r w))"
proof (cases "decode_body (wd_cfg w) r start_fields no_start")
  case None
  then show ?thesis by (simp add: start_finish_def fails_stable)
next
  case (Some q)
  let ?g = "GetAPIKey (dp_env d) (wd_cfg w) ''daily_api_key'' ''DAILY_API_KEY''"
  let ?w0 = "w\<lparr>wd_cfg := fst ?g\<rparr>"
  let ?w1 = "snd (create_room d now (daily_defaults (snd ?g)) ?w0)"
  have w1: "stable d w ?w1" by (rule stable_trans [OF key_stable room_stable])
  let ?p = "dp_put d now (wd_store w) (dp_uuid d (wd_drawn w)) \<lparr>se_Body = sr_Body q, se_EnableDefaultIceServers = sr_EnableDefaultIceServers q\<rparr>"
  have w2: "stable d w (w\<lparr>wd_drawn := Suc (wd_drawn w), wd_store := snd ?p\<rparr>)"
    using put_stable [OF assms, of now w _ "fst ?p" "snd ?p"] by simp
  show ?thesis
    using w1 w2 Some
    by (simp add: start_finish_def Let_def case_prod_beta fails_stable answer_stable stable_trans [OF w1 drawn_stable]
        split: sum.split option.split)
qed

lemma requireAPIKey_draws: "requireAPIKey u c n hs r = Some x \<Longrightarrow> n \<le> snd x"
  by (auto simp: requireAPIKey_def split: option.splits if_splits)

lemma start_begin_quiet:
  assumes "start_begin d now r w = Some x"
  shows "quiet w (snd x)"
proof (cases "requireAPIKey (dp_uuid d) (Some (wd_cfg w)) (wd_drawn w) (start_headers w r) r")
  case None
  with assms show ?thesis
    by (auto simp: start_begin_def Let_def simp del: split_paired_All split: if_splits option.splits)
next
  case (Some y)
  from requireAPIKey_draws [OF Some] have "quiet w (snd (reply w y))" by (rule reply_quiet)
  with Some assms show ?thesis by (auto simp: start_begin_def Let_def split: if_splits)
qed

lemma handle_stable:
  assumes "session_store life (dp_put d) (dp_get d) del" "inj (dp_uuid d)"
  shows "stable d w (snd (handle d now r w h))"
proof (cases "harmless h")
  case True
  then show ?thesis by (intro quiet_stable harmless_quiet)
next
  case False
  have rq: "requireAPIKey u c (wd_drawn w) hs r = Some x \<Longrightarrow> stable d w (snd (reply w x))" for u c hs x
    by (intro quiet_stable reply_quiet requireAPIKey_draws)
  have MainWS: "stable d w (snd (handleWS d r w))"
    by (simp add: handleWS_def started_stable Let_def rq split: option.split)
  have Start: "stable d w (snd (handleStart d now r w))"
    using start_begin_quiet [THEN quiet_stable] start_finish_stable [OF assms]
    by (cases "start_begin d now r w") (simp_all add: handleStart_def)
  have Offer: "stable d w (snd (handleWebRTCOffer d r w))"
    by (simp add: handleWebRTCOffer_def Let_def fails_stable connect_stable rq split: option.split)
  have Session: "stable d w (snd (handleSessionOffer d now r w))"
    by (simp add: handleSessionOffer_def Let_def case_prod_beta fails_stable connect_stable rq
        split: option.split sum.split)
  have TelephonyWS: "stable d w (snd (handleTelephonyWS d r w))"
    by (auto simp: handleTelephonyWS_def fails_stable started_stable split: option.splits)
  have DailyRoot: "stable d w (snd (handleDailyRoot d now r w))"
    by (auto simp: handleDailyRoot_def Let_def case_prod_beta fails_stable room_stable split: sum.splits)
  have Dialin: "stable d w (snd (handleDialin d now r w))"
    by (auto simp: handleDialin_def Let_def case_prod_beta fails_stable succeeds_stable room_stable
        stable_trans [OF room_stable drawn_stable] split: option.splits sum.splits)
  show ?thesis using False MainWS Start Offer Session TelephonyWS DailyRoot Dialin
    by (cases h) (simp_all add: handle_def harmless_def)
qed

lemma serve_stable:
  assumes "session_store life (dp_put d) (dp_get d) del" "inj (dp_uuid d)"
  shows "stable d w (fst (serve d w e))"
  using handle_stable [OF assms] by (auto simp: serve_def case_prod_beta Let_def split: option.split)

lemma run_stable:
  assumes "session_store life (dp_put d) (dp_get d) del" "inj (dp_uuid d)"
  shows "stable d w (fst (run (serve d) w es))"
proof (induction es arbitrary: w)
  case (Cons e es)
  from stable_trans [OF serve_stable [OF assms] Cons.IH] show ?case by (simp del: run.simps(2))
qed simp

section \<open>A session is joined\<close>

lemma index_of_end: "c \<notin> set i \<Longrightarrow> index_of [c] (i @ c # r) = Some (length i)"
  by (induction i) auto

lemma session_path_of:
  "CHR ''/'' \<notin> set i \<Longrightarrow> session_path (''/sessions/'' @ i @ ''/api/offer'') = (i, True)"
  using index_of_end [of "CHR ''/''" i "''api/offer''"]
  by (simp add: session_path_def split_session_def)

lemma route_start: "enableWebRTC (wd_cfg w) \<Longrightarrow> re_path r = ''/start'' \<Longrightarrow> route d w r = Some Start"
  by (simp add: route_def routes_def registerHandlers_def registerRunnerWebRTCRoutes_def runnerMode_def ServeMux_def)

lemma route_session:
  assumes "enableWebRTC (wd_cfg w)" "re_path r = ''/sessions/'' @ i @ ''/api/offer''" "i \<noteq> []"
  shows "route d w r = Some SessionOffer"
proof -
  have suf: "suffix ''/'' ''/sessions/''" "suffix ''/'' ''/swagger/''" "suffix ''/'' ''/api/v1/sessions/''" "suffix ''/'' ''/''"
    "\<not> suffix ''/'' ''/ws''"
    by (simp_all add: suffix_def)
  show ?thesis using assms
    by (simp add: route_def routes_def registerHandlers_def registerRunnerWebRTCRoutes_def registerTelephonyRoutes_def
        registerDailyRoutes_def runnerMode_def ServeMux_def longer_def suf)
qed

definition session_of :: "start_request \<Rightarrow> session" where
  "session_of q = \<lparr>se_Body = sr_Body q, se_EnableDefaultIceServers = sr_EnableDefaultIceServers q\<rparr>"

text \<open>What is documented of UUIDs: they differ, they parse, and they have no slash.\<close>

definition uuid_laws :: "'w deps \<Rightarrow> bool" where
  "uuid_laws d \<longleftrightarrow>
     inj (dp_uuid d) \<and> (\<forall>k. dp_uuid_parses d (dp_uuid d k) \<and> dp_uuid d k \<noteq> [] \<and> CHR ''/'' \<notin> set (dp_uuid d k))"

lemma start_session:
  assumes "re_method r = ''POST''" "authorized (wd_cfg w) r" "idempotency_key r = []"
    "decode_body (wd_cfg w) r start_fields no_start = Some q" "\<not> sr_CreateDailyRoom q"
    "dp_put d now (wd_store w) (dp_uuid d (wd_drawn w)) (session_of q) = (None, st)"
  shows "handleStart d now r w =
    (Some (created (start_headers w r)
       (AObj [(''data'', session_json (dp_uuid d (wd_drawn w)) (sr_EnableDefaultIceServers q))])),
     w\<lparr>wd_drawn := Suc (wd_drawn w), wd_store := st\<rparr>)"
  using assms
  by (simp add: handleStart_def start_begin_def start_finish_def requireAPIKey_def start_answer_def session_of_def Let_def)

lemma succeeds_fields [simp]:
  "rs_status (the (fst (succeeds d hs r w n v))) = n" "fst (succeeds d hs r w n v) \<noteq> None"
  "wd_started (snd (succeeds d hs r w n v)) = wd_started w"
  by (simp_all add: succeeds_def reply_def)

lemma fails_fields [simp]:
  "rs_status (the (fst (fails d hs r w e))) = ae_StatusCode e" "fst (fails d hs r w e) \<noteq> None"
  "wd_started (snd (fails d hs r w e)) = wd_started w"
  by (simp_all add: fails_def reply_def RespondError_def case_prod_beta Let_def)

lemma join_session:
  assumes "re_method r = ''POST''" "authorized (wd_cfg w) r" "session_path (re_path r) = (i, True)" "i \<noteq> []"
    "dp_uuid_parses d i" "dp_get d now (wd_store w) i = Inr (if alive then Some x else None)"
    "decode_body (wd_cfg w) r offer_fields no_offer = Some q" "TrimSpace (or_SDP q) \<noteq> []"
    "dp_offer d (or_SDP q) = Inr answer"
  shows "fst (handleSessionOffer d now r w) \<noteq> None"
    "rs_status (the (fst (handleSessionOffer d now r w))) = (if alive then 200 else 404)"
    "wd_started (snd (handleSessionOffer d now r w)) =
       wd_started w @ (if alive then [WebRTCStarted (or_SDP q)] else [])"
  using assms
  by (simp_all add: handleSessionOffer_def requireAPIKey_def connect_webrtc_def webrtc_Start_def api_err_def Let_def
      succeeds_def [THEN arg_cong [where f = fst]] fails_def [THEN arg_cong [where f = fst]] reply_def)

text \<open>C5: Whatever store fulfils the contract of sessions, with a life time or without: a client that starts a
  session with the key gets a new id, and whatever requests the server has handled in between, an offer
  for this id with the key, as long as the session lives, starts a connection and is answered with
  200, as often as it is tried. Once the life of the session is over, which is after \<open>session_ttl_secs\<close>
  in Redis and never in memory, the offer starts nothing and is answered with 404.\<close>

theorem session_joined:
  assumes store: "session_store life (dp_put d) (dp_get d) del" "uuid_laws d" "enableWebRTC (wd_cfg w)"
    and start: "re_method r1 = ''POST''" "re_path r1 = ''/start''" "authorized (wd_cfg w) r1" "idempotency_key r1 = []"
      "decode_body (wd_cfg w) r1 start_fields no_start = Some q" "\<not> sr_CreateDailyRoom q"
      "dp_put d t1 (wd_store w) (dp_uuid d (wd_drawn w)) (session_of q) = (None, st)"
    and offer: "re_method r2 = ''POST''" "re_path r2 = ''/sessions/'' @ dp_uuid d (wd_drawn w) @ ''/api/offer''"
      "authorized (wd_cfg w) r2" "decode_body (wd_cfg w) r2 offer_fields no_offer = Some p"
      "TrimSpace (or_SDP p) \<noteq> []" "dp_offer d (or_SDP p) = Inr answer"
    and runs: "w1 = fst (serve d w (t1, r1))" "w2 = fst (run (serve d) w1 es)" "t1 \<le> t2"
  shows "(\<exists>a. snd (serve d w (t1, r1)) = [Some a] \<and> rs_status a = 201 \<and>
      rs_body a = JsonBody (AObj [(''data'', session_json (dp_uuid d (wd_drawn w)) (sr_EnableDefaultIceServers q))])) \<and>
    (\<exists>a. snd (serve d w2 (t2, r2)) = [Some a] \<and> rs_status a = (if lives life t1 t2 then 200 else 404)) \<and>
    wd_started (fst (serve d w2 (t2, r2))) =
      wd_started w2 @ (if lives life t1 t2 then [WebRTCStarted (or_SDP p)] else [])"
proof -
  let ?i = "dp_uuid d (wd_drawn w)"
  have u: "inj (dp_uuid d)" "dp_uuid_parses d ?i" "?i \<noteq> []" "CHR ''/'' \<notin> set ?i"
    using store(2) by (auto simp: uuid_laws_def)
  have e1: "serve d w (t1, r1) = (w\<lparr>wd_drawn := Suc (wd_drawn w), wd_store := st\<rparr>,
      [Some (created (start_headers w r1)
        (AObj [(''data'', session_json ?i (sr_EnableDefaultIceServers q))]))])"
    using start_session [OF start(1,3-7)] route_start [OF store(3) start(2)] by (simp add: serve_def handle_def)
  then have w1: "w1 = w\<lparr>wd_drawn := Suc (wd_drawn w), wd_store := st\<rparr>" by (simp add: runs(1))
  have st: "stable d w1 w2" unfolding runs(2) by (rule run_stable [OF store(1) u(1)])
  have f: "forget (wd_cfg w2) = forget (wd_cfg w)" using st by (simp add: stable_def w1)
  have "dp_get d t2 (wd_store w2) ?i = dp_get d t2 st ?i" using st by (simp add: stable_def w1)
  then have g: "dp_get d t2 (wd_store w2) ?i = Inr (if lives life t1 t2 then Some (session_of q) else None)"
    using session_store.get_put [OF store(1) start(7) runs(3)] by simp
  have "route d w2 r2 = route d w r2" using forget_routes [OF f] by (simp add: route_def)
  then have r: "route d w2 r2 = Some SessionOffer" using route_session [OF store(3) offer(2) u(3)] by simp
  have path: "session_path (re_path r2) = (?i, True)" using offer(2) u(4) by (simp add: session_path_of del: append.simps)
  have au: "authorized (wd_cfg w2) r2" using offer(3) by (simp only: forget_settings(1) [OF f])
  have de: "decode_body (wd_cfg w2) r2 offer_fields no_offer = Some p"
    using offer(4) by (simp only: forget_settings(2) [OF f])
  note j = join_session [OF offer(1) au path u(3,2) g de offer(5,6)]
  have h2: "serve d w2 (t2, r2) = (snd (handleSessionOffer d t2 r2 w2), [fst (handleSessionOffer d t2 r2 w2)])"
    using r by (simp add: serve_def handle_def case_prod_beta Let_def)
  show ?thesis unfolding e1 h2 using j by (auto simp: created_def)
qed

lemma sample_store: "session_store None (dp_put sample_deps) (dp_get sample_deps) (\<lambda>_. memory_Delete)"
  using memory.session_store_axioms by (simp add: sample_deps_def)

lemma sample_uuids: "uuid_laws sample_deps"
  by (auto simp: uuid_laws_def sample_deps_def inj_def dest: arg_cong [where f = length])

definition sample_offer :: "string \<Rightarrow> request" where
  "sample_offer i = sample_request ''POST'' (''/sessions/'' @ i @ ''/api/offer'') ''k'' (AObj [(''sdp'', AStr ''v=0'')])"

lemma session_joined_witness:
  "wd_started (fst (serve sample_deps (fst (serve sample_deps (sample_world sample_config)
     (0, sample_request ''POST'' ''/start'' ''k'' (AObj [])))) (1, sample_offer ''u''))) =
   wd_started (fst (serve sample_deps (sample_world sample_config)
     (0, sample_request ''POST'' ''/start'' ''k'' (AObj [])))) @ [WebRTCStarted ''v=0'']"
proof -
  let ?w = "sample_world sample_config"
  have w: "wd_cfg ?w = sample_config" "wd_drawn ?w = 0" "wd_store ?w = Map.empty" by (simp_all add: sample_world_simps)
  have d: "decode_body sample_config (sample_request ''POST'' ''/start'' ''k'' (AObj [])) start_fields no_start = Some no_start"
    "decode_body sample_config (sample_offer ''u'') offer_fields no_offer = Some (no_offer\<lparr>or_SDP := ''v=0''\<rparr>)"
    by (simp_all add: decode_body_small [where v = "AObj []"] decode_body_small [where v = "AObj [(''sdp'', AStr ''v=0'')]"]
        sample_offer_def sample_request_def defaultMaxRequestBodyBytes_def json_simps offer_fields_def)
  have t: "TrimSpace ''v=0'' = ''v=0''"
    using TrimSpace_solid(1) [of "CHR ''v''" "CHR ''0''" "''=''"] by (simp add: white_runes_def)
  have r: "re_method (sample_request m p k v) = m" "re_path (sample_request m p k v) = p"
    "presented_key (sample_request m p ''k'' v) = ''k''" "idempotency_key (sample_request m p k v) = []" for m p k v
    by (simp_all add: sample_request_def presented_key_def idempotency_key_def)
  have p: "dp_put sample_deps t Map.empty i x = (None, [i \<mapsto> Some x])" "dp_uuid sample_deps 0 = ''u''"
    "dp_offer sample_deps ''v=0'' = Inr ''answer''" for t i x
    by (simp_all add: sample_deps_def memory_Put_def)
  show ?thesis
    using session_joined [OF sample_store sample_uuids, where w = ?w and ?t1.0 = 0 and ?t2.0 = 1 and es = "[]"
        and ?r1.0 = "sample_request ''POST'' ''/start'' ''k'' (AObj [])" and q = no_start
        and st = "[''u'' \<mapsto> Some (session_of no_start)]" and ?r2.0 = "sample_offer ''u''"
        and p = "no_offer\<lparr>or_SDP := ''v=0''\<rparr>" and answer = "''answer''"]
    by (simp add: w d t r p lives_def enableWebRTC_def server_mode_def authorized_def sample_offer_def [symmetric]
        del: fun_upd_apply)
      (simp add: sample_offer_def r no_start_def)
qed

section \<open>Telephone lines\<close>

fun is_line :: "started \<Rightarrow> bool" where
  "is_line (TelephonyStarted s) = True"
| "is_line _ = False"

lemma reply_started [simp]: "wd_started (snd (reply w x)) = wd_started w"
  by (simp add: reply_def)

lemma create_room_started [simp]: "wd_started (snd (create_room d now opts w)) = wd_started w"
  by (simp add: create_room_def)

lemma start_answer_started [simp]: "wd_started (snd (start_answer now r hs w v)) = wd_started w"
  by (simp add: start_answer_def Let_def)

lemma handleStart_started: "wd_started (snd (handleStart d now r w)) = wd_started w"
proof (cases "start_begin d now r w")
  case None
  then show ?thesis
    by (simp add: handleStart_def start_finish_def Let_def case_prod_beta split: option.split sum.split)
next
  case (Some x)
  with start_begin_quiet [OF Some] show ?thesis by (simp add: handleStart_def quiet_fields)
qed

definition same_lines :: "'w world \<Rightarrow> 'w world \<Rightarrow> bool" where
  "same_lines w w' \<longleftrightarrow> filter is_line (wd_started w') = filter is_line (wd_started w)"

lemma same_linesI:
  "wd_started w' = wd_started w \<Longrightarrow> same_lines w w'"
  "\<not> is_line x \<Longrightarrow> same_lines w (w\<lparr>wd_started := wd_started w @ [x]\<rparr>)"
  by (simp_all add: same_lines_def)

lemma same_lines_replies [simp]:
  "same_lines w w" "same_lines w (snd (fails d hs r w e))" "same_lines w (snd (succeeds d hs r w n v))"
  "same_lines w (snd (reply w x))"
  by (simp_all add: same_linesI(1))

lemma connect_lines: "same_lines w (snd (connect_webrtc d hs r w sdp f))"
  by (simp add: connect_webrtc_def webrtc_Start_def same_lines_def split: sum.split)

lemma handle_lines:
  assumes "\<forall>r. dp_upgrade d False r \<noteq> None" "MetricsEnabledOrDefault (Some (wd_cfg w))"
  shows "same_lines w (snd (handle d now r w h))"
proof (cases "harmless h")
  case True
  then show ?thesis by (intro same_linesI(1) quiet_fields(5) harmless_quiet)
next
  case False
  obtain status where up: "dp_upgrade d False r = Some status" using assms(1) by blast
  have "same_lines w (snd (handleTelephonyWS d r w))"
    by (simp add: handleTelephonyWS_def assms(2) up)
  moreover have "same_lines w (snd (handleStart d now r w))"
    by (simp add: same_linesI(1) handleStart_started)
  moreover have "same_lines w (snd (handleWS d r w))"
    by (simp add: handleWS_def Let_def same_linesI(2) split: option.split)
  moreover have "same_lines w (snd (handleWebRTCOffer d r w))"
    by (simp add: handleWebRTCOffer_def Let_def connect_lines split: option.split)
  moreover have "same_lines w (snd (handleSessionOffer d now r w))"
    by (simp add: handleSessionOffer_def Let_def connect_lines case_prod_beta split: option.split sum.split)
  moreover have "same_lines w (snd (fails d hs r (snd (create_room d now opts w)) e))" for hs e opts
    by (simp add: same_linesI(1))
  then have "same_lines w (snd (handleDailyRoot d now r w))" "same_lines w (snd (handleDialin d now r w))"
    by (simp_all add: handleDailyRoot_def handleDialin_def Let_def case_prod_beta same_linesI(1)
        split: option.split sum.split)
  ultimately show ?thesis using False by (cases h) (simp_all add: handle_def harmless_def)
qed

text \<open>C37: As long as metrics are on, which is the default, no telephone call is ever connected: the wrapper for the
  metrics hides that the connection can be taken over, and without that an upgrade fails. This holds for
  every sequence of requests and every provider.\<close>

theorem telephony_never_connects:
  assumes "\<forall>r. dp_upgrade d False r \<noteq> None" "MetricsEnabledOrDefault (Some (wd_cfg w))"
    "session_store life (dp_put d) (dp_get d) del" "inj (dp_uuid d)"
  shows "filter is_line (wd_started (fst (run (serve d) w es))) = filter is_line (wd_started w)"
  using assms(2)
proof (induction es arbitrary: w)
  case (Cons e es)
  let ?w1 = "fst (serve d w e)"
  have "forget (wd_cfg ?w1) = forget (wd_cfg w)" using serve_stable [OF assms(3,4)] by (simp add: stable_def)
  from forget_settings(4) [OF this] have "MetricsEnabledOrDefault (Some (wd_cfg ?w1))"
    using Cons.prems by (simp add: MetricsEnabledOrDefault_def)
  note Cons.IH [OF this]
  moreover have "filter is_line (wd_started ?w1) = filter is_line (wd_started w)"
    using handle_lines [OF assms(1) Cons.prems]
    by (simp add: serve_def case_prod_beta Let_def same_lines_def split: option.split)
  ultimately show ?case by (simp del: run.simps(2))
qed simp

definition twilio_config :: config where
  "twilio_config = zero_config\<lparr>cf_RunnerTransport := ''twilio''\<rparr>"

lemma telephony_never_connects_witness:
  "filter is_line (wd_started (fst (run (serve sample_deps) (sample_world twilio_config)
     [(0, sample_request ''GET'' ''/telephony/ws'' [] ANil)]))) = []"
proof -
  have "wd_cfg (sample_world twilio_config) = twilio_config"
    by (simp add: sample_world_def StartServers_def twilio_config_def)
  then have m: "MetricsEnabledOrDefault (Some (wd_cfg (sample_world twilio_config)))"
    by (simp add: MetricsEnabledOrDefault_def twilio_config_def zero_config_def)
  have u: "\<forall>r. dp_upgrade sample_deps False r \<noteq> None" by (simp add: sample_deps_def)
  have i: "inj (dp_uuid sample_deps)" using sample_uuids by (simp add: uuid_laws_def)
  show ?thesis
    using telephony_never_connects [OF u m sample_store i, of "[(0, sample_request ''GET'' ''/telephony/ws'' [] ANil)]"]
    by (simp add: sample_world_simps del: run.simps)
qed

text \<open>With metrics switched off the same request is a call of Twilio.\<close>

definition unmetered :: config where
  "unmetered = twilio_config\<lparr>cf_MetricsEnabled := Some False\<rparr>"

lemma unmetered_simps:
  "cf_RunnerTransport unmetered = ''twilio''" "cf_MetricsEnabled unmetered = Some False" "cf_Transport unmetered = []"
  "wd_cfg (sample_world unmetered) = unmetered"
  by (simp_all add: unmetered_def twilio_config_def zero_config_def sample_world_def StartServers_def)

lemma telephony_connects_without_metrics:
  "\<exists>s. wd_started (fst (serve sample_deps (sample_world unmetered)
     (0, sample_request ''GET'' ''/telephony/ws'' [] ANil))) = [TelephonyStarted (TwilioLine s)]"
proof -
  let ?r = "sample_request ''GET'' ''/telephony/ws'' [] ANil"
  have r: "route sample_deps (sample_world unmetered) ?r = Some TelephonyWS"
    by (simp add: route_def routes_def registerHandlers_def registerTelephonyRoutes_def runnerMode_def enableWebRTC_def
        server_mode_def is_telephony_def ServeMux_def unmetered_simps sample_request_def)
  obtain data s where l: "ParseTelephonyMessage (Some (twilio_start ''s1'' ''c1'')) None = Some data" "cd_Provider data = ''twilio''"
    "BuildTelephonySerializer data (\<lambda>s v. snd (GetAPIKey (\<lambda>_. []) unmetered s v)) = Some (TwilioLine s)"
    by (simp add: ParseTelephonyMessage_def try_message_def as_twilio_def twilio_start_def key_object_def key_value_def
        key_string_def no_call_def BuildTelephonySerializer_def)
  show ?thesis
    by (simp add: serve_def r handle_def handleTelephonyWS_def MetricsEnabledOrDefault_def
        unmetered_simps l sample_world_simps)
      (simp add: sample_deps_def sample_request_def l unmetered_simps sample_world_simps)
qed

section \<open>The public configuration\<close>

text \<open>Its answer is the same whatever the secrets are.\<close>

lemma config_hides_secrets:
  "fst (handleConfig d r (w\<lparr>wd_cfg := c\<lparr>cf_APIKeys := m, cf_ServerAPIKey := k, cf_RedisURL := u,
      cf_DailyDialinWebhookSecret := s, cf_TLSKeyFile := f, cf_Transcripts := t, cf_MCP := p, cf_apiKeyCache := h\<rparr>\<rparr>)) =
   fst (handleConfig d r (w\<lparr>wd_cfg := c\<rparr>))"
  by (simp add: handleConfig_def fails_def succeeds_def reply_def PublicPipelineInfo_def STTProvider_def LLMProvider_def
      TTSProvider_def VADBackendOrDefault_def)

section \<open>Repeated starts\<close>

definition keeps_answer :: "string \<Rightarrow> 'w world \<Rightarrow> 'w world \<Rightarrow> bool" where
  "keeps_answer k w w' \<longleftrightarrow> id_m (wd_idem w') k = id_m (wd_idem w) k"

lemma keeps_answerI: "wd_idem w' = wd_idem w \<Longrightarrow> keeps_answer k w w'"
  by (simp add: keeps_answer_def)

lemma reply_idem [simp]:
  "wd_idem (snd (reply w x)) = wd_idem w" "wd_idem (snd (fails d hs r w e)) = wd_idem w"
  "wd_idem (snd (succeeds d hs r w n v)) = wd_idem w" "wd_idem (snd (create_room d now opts w)) = wd_idem w"
  by (simp_all add: reply_def fails_def succeeds_def create_room_def)

lemma connect_idem [simp]: "wd_idem (snd (connect_webrtc d hs r w sdp f)) = wd_idem w"
  by (simp add: connect_webrtc_def webrtc_Start_def split: sum.split)

lemma start_finish_idem: "idempotency_key r \<noteq> k \<Longrightarrow> keeps_answer k w (snd (start_finish d now r w))"
  by (simp add: start_finish_def start_answer_def idempotency_set_def keeps_answer_def Let_def case_prod_beta
      split: option.split sum.split)

lemma handleStart_idem:
  assumes "k \<noteq> []" "id_m (wd_idem w) k = Some (v, ex)" "now \<le> ex"
  shows "keeps_answer k w (snd (handleStart d now r w))"
proof (cases "start_begin d now r w")
  case None
  have "idempotency_get (wd_idem w) now k = Some v" using assms(2,3) by (simp add: idempotency_get_def)
  with None assms(1) have "idempotency_key r \<noteq> k"
    by (auto simp: start_begin_def Let_def split: if_splits option.splits)
  then show ?thesis using None by (simp add: handleStart_def start_finish_idem)
next
  case (Some x)
  with start_begin_quiet [OF Some] show ?thesis by (simp add: handleStart_def quiet_fields keeps_answerI)
qed

lemma handle_idem:
  assumes "k \<noteq> []" "id_m (wd_idem w) k = Some (v, ex)" "now \<le> ex"
  shows "keeps_answer k w (snd (handle d now r w h))"
proof (cases "harmless h")
  case True
  then show ?thesis by (intro keeps_answerI quiet_fields(3) harmless_quiet)
next
  case False
  have k [simp]: "keeps_answer k w (snd (reply w x))" "keeps_answer k w (snd (fails d hs r w e))" "keeps_answer k w w"
    "keeps_answer k w (snd (connect_webrtc d hs r w sdp f))" for x hs e sdp f
    by (simp_all add: keeps_answerI)
  have "keeps_answer k w (snd (handleStart d now r w))" by (rule handleStart_idem [OF assms])
  moreover have "keeps_answer k w (snd (handleWS d r w))"
    by (simp add: handleWS_def Let_def keeps_answer_def split: option.split)
  moreover have "keeps_answer k w (snd (handleTelephonyWS d r w))"
    by (simp add: handleTelephonyWS_def keeps_answer_def split: option.split)
  moreover have "keeps_answer k w (snd (handleWebRTCOffer d r w))"
    by (simp add: handleWebRTCOffer_def Let_def split: option.split)
  moreover have "keeps_answer k w (snd (handleSessionOffer d now r w))"
    by (simp add: handleSessionOffer_def Let_def case_prod_beta split: option.split sum.split)
  moreover have "keeps_answer k w (snd (handleDailyRoot d now r w))" "keeps_answer k w (snd (handleDialin d now r w))"
    by (simp_all add: handleDailyRoot_def handleDialin_def Let_def case_prod_beta keeps_answer_def
        split: option.split sum.split)
  ultimately show ?thesis using False by (cases h) (simp_all add: handle_def harmless_def)
qed

lemma run_idem:
  assumes "k \<noteq> []" "list_all (\<lambda>e. fst e \<le> ex) es"
  shows "id_m (wd_idem w) k = Some (v, ex) \<Longrightarrow> id_m (wd_idem (fst (run (serve d) w es))) k = Some (v, ex)"
  using assms(2)
proof (induction es arbitrary: w)
  case (Cons e es)
  have "id_m (wd_idem (fst (serve d w e))) k = Some (v, ex)"
    using handle_idem [OF assms(1) Cons.prems(1), of "fst e" d "snd e"] Cons.prems
    by (simp add: serve_def case_prod_beta Let_def keeps_answer_def split: option.split)
  with Cons show ?case by (simp del: run.simps(2))
qed simp

text \<open>What a new start with a key remembers is what it answers.\<close>

lemma start_remembers:
  assumes "handleStart d now r w = (Some a, w1)" "rs_status a = 201" "idempotency_key r = k" "k \<noteq> []"
    "idempotency_get (wd_idem w) now k = None"
  obtains v where "rs_body a = JsonBody v" "id_m (wd_idem w1) k = Some (v, now + id_ttl (wd_idem w))"
proof -
  have ne: "fails d hs r w' e \<noteq> (Some a, w1)" if "ae_StatusCode e \<noteq> 201" for hs w' e
    using assms(2) that by (auto simp: fails_def reply_def)
  have b: "start_begin d now r w = None"
  proof (rule ccontr)
    assume "start_begin d now r w \<noteq> None"
    then obtain x where x: "start_begin d now r w = Some x" by blast
    then have "x = (Some a, w1)" using assms(1) by (simp add: handleStart_def)
    with x assms(2-5) ne show False
      by (auto simp: start_begin_def Let_def RespondNoContent_def requireAPIKey_def reply_def method_not_allowed_def
          api_err_def split: if_splits option.splits)
  qed
  then have fin: "start_finish d now r w = (Some a, w1)" using assms(1) by (simp add: handleStart_def)
  have m: "start_answer now r hs w' data = (Some a, w1) \<Longrightarrow> wd_idem w' = wd_idem w \<Longrightarrow>
      \<exists>v. rs_body a = JsonBody v \<and> id_m (wd_idem w1) k = Some (v, now + id_ttl (wd_idem w))" for hs w' data
    using assms(3,4) by (auto simp: start_answer_def created_def idempotency_set_def Let_def)
  have "\<exists>v. rs_body a = JsonBody v \<and> id_m (wd_idem w1) k = Some (v, now + id_ttl (wd_idem w))"
  proof (cases "decode_body (wd_cfg w) r start_fields no_start")
    case None
    with fin ne show ?thesis by (auto simp: start_finish_def Let_def api_err_def)
  next
    case (Some q)
    show ?thesis
    proof (rule ccontr)
      assume no: "\<not> ?thesis"
      have nm: "start_answer now r hs w' data \<noteq> (Some a, w1)" if "wd_idem w' = wd_idem w" for hs w' data
        using m [of hs w' data] that no by blast
      from fin Some show False
        by (auto simp: start_finish_def Let_def case_prod_beta ne nm internal_error_def api_err_def
            split: if_splits option.splits sum.splits)
    qed
  qed
  with that show thesis by blast
qed

text \<open>After a start with an idempotency key, and whatever requests come within the time to live (a day), a start
  with this key and the server key is answered with the same body and changes nothing, whatever its own
  body asks for.\<close>

theorem start_idempotent:
  assumes first: "handleStart d t1 r1 w = (Some a, w1)" "rs_status a = 201" "idempotency_key r1 = k" "k \<noteq> []"
      "idempotency_get (wd_idem w) t1 k = None"
    and between: "list_all (\<lambda>e. fst e \<le> t1 + id_ttl (wd_idem w)) es" "w2 = fst (run (serve d) w1 es)"
    and again: "re_method r2 = ''POST''" "authorized (wd_cfg w2) r2" "idempotency_key r2 = k"
      "t2 \<le> t1 + id_ttl (wd_idem w)"
  shows "snd (handleStart d t2 r2 w2) = w2 \<and>
    (\<exists>b. fst (handleStart d t2 r2 w2) = Some b \<and> rs_status b = 201 \<and> rs_body b = rs_body a)"
proof -
  obtain v where v: "rs_body a = JsonBody v" "id_m (wd_idem w1) k = Some (v, t1 + id_ttl (wd_idem w))"
    by (rule start_remembers [OF first])
  from run_idem [OF first(4) between(1) v(2), of d] between(2)
  have "idempotency_get (wd_idem w2) t2 k = Some v" using again(4) by (simp add: idempotency_get_def)
  with again first(4) v(1) show ?thesis
    by (simp add: handleStart_def start_begin_def requireAPIKey_def created_def Let_def)
qed

lemma start_finish_session:
  assumes "decode_body (wd_cfg w) r start_fields no_start = Some q" "\<not> sr_CreateDailyRoom q"
    "fst (dp_put d now (wd_store w) (dp_uuid d (wd_drawn w)) (session_of q)) = None"
  shows "start_finish d now r w =
    start_answer now r (start_headers w r)
      (w\<lparr>wd_drawn := Suc (wd_drawn w),
         wd_store := snd (dp_put d now (wd_store w) (dp_uuid d (wd_drawn w)) (session_of q))\<rparr>)
      (session_json (dp_uuid d (wd_drawn w)) (sr_EnableDefaultIceServers q))"
  using assms by (simp add: start_finish_def session_of_def Let_def case_prod_beta)

lemma start_answer_results:
  "fst (start_answer now r hs w v) = Some (created hs (AObj [(''data'', v)]))"
  "wd_cfg (snd (start_answer now r hs w v)) = wd_cfg w" "wd_drawn (snd (start_answer now r hs w v)) = wd_drawn w"
  "id_ttl (wd_idem (snd (start_answer now r hs w v))) = id_ttl (wd_idem w)"
  "idempotency_key r \<noteq> [] \<Longrightarrow> 0 \<le> id_ttl (wd_idem w) \<Longrightarrow>
     idempotency_get (wd_idem (snd (start_answer now r hs w v))) now (idempotency_key r) = Some (AObj [(''data'', v)])"
  by (simp_all add: start_answer_def Let_def)

text \<open>The look-up and the remembering are two steps. Two starts with the same key whose look-ups both come first
  both get a session: the answers differ, and the one that is remembered is that of the second.\<close>

theorem start_idempotency_race:
  assumes "start_begin d t1 r1 w = None" "start_begin d t2 r2 w = None"
    "idempotency_key r1 = k" "idempotency_key r2 = k" "k \<noteq> []" "0 \<le> id_ttl (wd_idem w)"
    "decode_body (wd_cfg w) r1 start_fields no_start = Some q1" "\<not> sr_CreateDailyRoom q1"
    "decode_body (wd_cfg w) r2 start_fields no_start = Some q2" "\<not> sr_CreateDailyRoom q2"
    "\<forall>t st i x. fst (dp_put d t st i x) = None" "inj (dp_uuid d)"
    and finish: "w1 = snd (start_finish d t1 r1 w)" "w2 = snd (start_finish d t2 r2 w1)"
  shows "\<exists>a1 a2 v. fst (start_finish d t1 r1 w) = Some a1 \<and> fst (start_finish d t2 r2 w1) = Some a2 \<and>
    rs_body a1 \<noteq> rs_body a2 \<and> idempotency_get (wd_idem w2) t2 k = Some v \<and> rs_body a2 = JsonBody v"
proof -
  have f1: "start_finish d t1 r1 w = start_answer t1 r1 (start_headers w r1)
      (w\<lparr>wd_drawn := Suc (wd_drawn w),
         wd_store := snd (dp_put d t1 (wd_store w) (dp_uuid d (wd_drawn w)) (session_of q1))\<rparr>)
      (session_json (dp_uuid d (wd_drawn w)) (sr_EnableDefaultIceServers q1))"
    by (rule start_finish_session [OF assms(7,8)]) (simp add: assms(11))
  have w1: "wd_cfg w1 = wd_cfg w" "wd_drawn w1 = Suc (wd_drawn w)" "id_ttl (wd_idem w1) = id_ttl (wd_idem w)"
    by (simp_all add: finish(1) f1 start_answer_results)
  have "decode_body (wd_cfg w1) r2 start_fields no_start = Some q2" using assms(9) w1 by simp
  then have f2: "start_finish d t2 r2 w1 = start_answer t2 r2 (start_headers w1 r2)
      (w1\<lparr>wd_drawn := Suc (wd_drawn w1),
         wd_store := snd (dp_put d t2 (wd_store w1) (dp_uuid d (wd_drawn w1)) (session_of q2))\<rparr>)
      (session_json (dp_uuid d (wd_drawn w1)) (sr_EnableDefaultIceServers q2))"
    by (rule start_finish_session [OF _ assms(10)]) (simp add: assms(11))
  have "dp_uuid d (wd_drawn w) \<noteq> dp_uuid d (Suc (wd_drawn w))" using assms(12) by (metis injD n_not_Suc_n)
  then have "session_json (dp_uuid d (wd_drawn w)) b \<noteq> session_json (dp_uuid d (Suc (wd_drawn w))) b'" for b b'
    by (simp add: session_json_def)
  moreover have "idempotency_get (wd_idem w2) t2 k =
      Some (AObj [(''data'', session_json (dp_uuid d (wd_drawn w1)) (sr_EnableDefaultIceServers q2))])"
    unfolding finish(2) f2 assms(4) [symmetric]
    by (rule start_answer_results(5)) (simp_all add: assms(4-6) w1)
  ultimately show ?thesis by (simp add: f1 f2 start_answer_results created_def w1)
qed

definition keyed_start :: request where
  "keyed_start = (sample_request ''POST'' ''/start'' ''k'' (AObj []))
     \<lparr>re_header := (\<lambda>h. if h = ''X-API-Key'' \<or> h = ''Idempotency-Key'' then ''k'' else [])\<rparr>"

lemma TrimSpace_k: "TrimSpace ''k'' = ''k''"
  using TrimSpace_solid(2) [of "CHR ''k''" "CHR ''k''"] by (simp add: white_runes_def)

lemma no_start_simps [simp]: "\<not> sr_CreateDailyRoom no_start"
  by (simp add: no_start_def)

lemma keyed_start_simps:
  "re_method keyed_start = ''POST''" "idempotency_key keyed_start = ''k''" "authorized sample_config keyed_start"
  "decode_body sample_config keyed_start start_fields no_start = Some no_start"
  by (simp_all add: keyed_start_def sample_request_def idempotency_key_def authorized_def presented_key_def TrimSpace_k
      decode_body_small [where v = "AObj []"] defaultMaxRequestBodyBytes_def json_simps)

lemma sample_idem:
  "wd_idem (sample_world c) = \<lparr>id_m = Map.empty, id_ttl = 24 * 3600 * 10 ^ 9\<rparr>"
  by (simp add: sample_world_def StartServers_def NewIdempotencyStore_def case_prod_beta Let_def)

lemma sample_put: "fst (dp_put sample_deps t st i x) = None"
  by (simp add: sample_deps_def memory_Put_def)

lemma keyed_begins: "start_begin sample_deps t keyed_start (sample_world sample_config) = None"
  by (simp add: start_begin_def requireAPIKey_def keyed_start_simps sample_world_simps sample_idem idempotency_get_def Let_def)

lemma start_idempotent_witness:
  "\<exists>w1 b. snd (handleStart sample_deps 0 keyed_start (sample_world sample_config)) = w1 \<and>
     fst (handleStart sample_deps 5 keyed_start w1) = Some b \<and> rs_status b = 201 \<and>
     snd (handleStart sample_deps 5 keyed_start w1) = w1"
proof -
  let ?w = "sample_world sample_config"
  have f: "handleStart sample_deps 0 keyed_start ?w = start_answer 0 keyed_start (start_headers ?w keyed_start)
      (?w\<lparr>wd_drawn := Suc (wd_drawn ?w),
         wd_store := snd (dp_put sample_deps 0 (wd_store ?w) (dp_uuid sample_deps (wd_drawn ?w)) (session_of no_start))\<rparr>)
      (session_json (dp_uuid sample_deps (wd_drawn ?w)) (sr_EnableDefaultIceServers no_start))"
    unfolding handleStart_def keyed_begins option.case
    by (rule start_finish_session) (simp_all add: sample_world_simps keyed_start_simps sample_put)
  let ?w1 = "snd (handleStart sample_deps 0 keyed_start ?w)"
  obtain a where a: "handleStart sample_deps 0 keyed_start ?w = (Some a, ?w1)" "rs_status a = 201"
    by (metis (no_types, lifting) f start_answer_results(1) created_def prod.collapse response.select_convs(1))
  have "wd_cfg ?w1 = sample_config" by (simp add: f start_answer_results sample_world_simps)
  with start_idempotent [OF a keyed_start_simps(2), of "[]" ?w1 keyed_start 5] show ?thesis
    by (auto simp: keyed_start_simps sample_idem idempotency_get_def)
qed

lemma start_idempotency_race_witness:
  "\<exists>a1 a2. fst (start_finish sample_deps 0 keyed_start (sample_world sample_config)) = Some a1 \<and>
     fst (start_finish sample_deps 1 keyed_start
       (snd (start_finish sample_deps 0 keyed_start (sample_world sample_config)))) = Some a2 \<and>
     rs_body a1 \<noteq> rs_body a2"
proof -
  have i: "inj (dp_uuid sample_deps)" using sample_uuids by (simp add: uuid_laws_def)
  show ?thesis
    using start_idempotency_race [where d = sample_deps and w = "sample_world sample_config" and ?t1.0 = 0 and ?t2.0 = 1
        and ?r1.0 = keyed_start and ?r2.0 = keyed_start and k = "''k''" and ?q1.0 = no_start and ?q2.0 = no_start,
        OF _ _ _ _ _ _ _ _ _ _ _ _ HOL.refl HOL.refl] i
    by (auto simp: keyed_begins keyed_start_simps sample_world_simps sample_idem sample_put)
qed

end
