(* ===== verification/ExternalChain.thy ===== *)
theory ExternalChain
  imports Handler Remote
begin

text \<open>
  The processor that asks an external chain over HTTP, \<^verbatim>\<open>pkg/processors/frameworks/external_chain.go\<close>: the
  last message of the user goes out, and the answer comes back whole or as a stream of events. The service is a
  parameter, and so is \<open>parse\<close>, which gives the value of a JSON text. The echo and logger processors, which hand
  on what they get, are here too.
\<close>

section \<open>Options\<close>

record chain_options =
  co_url :: string
  co_method :: string
  co_headers :: "(string \<times> string) list"
  co_timeout :: int
  co_stream :: bool
  co_key :: string

record external_chain =
  ec_name :: string
  ec_timeout :: "64 word"
  ec_url :: string
  ec_method :: string
  ec_headers :: "(string \<times> string) list"
  ec_stream :: bool
  ec_key :: string

definition string_entry :: "string \<times> any \<Rightarrow> string \<times> string" where
  "string_entry kv = (fst kv, case snd kv of AStr s \<Rightarrow> s | _ \<Rightarrow> [])"

definition set_headers :: "chain_options setter" where
  "set_headers v o' =
     (case v of
        AObj m \<Rightarrow> Some (o'\<lparr>co_headers := co_headers o' @ map string_entry m\<rparr>)
      | ANil \<Rightarrow> Some (o'\<lparr>co_headers := []\<rparr>)
      | _ \<Rightarrow> None)"

definition chain_option_fields :: "(string \<times> chain_options setter) list" where
  "chain_option_fields =
     [(''url'', set_string (\<lambda>x. co_url_update (\<lambda>_. x))),
      (''method'', set_string (\<lambda>x. co_method_update (\<lambda>_. x))),
      (''headers'', set_headers),
      (''timeout_sec'', set_int (\<lambda>x. co_timeout_update (\<lambda>_. x))),
      (''stream'', set_bool (\<lambda>x. co_stream_update (\<lambda>_. x))),
      (''transcript_key'', set_string (\<lambda>x. co_key_update (\<lambda>_. x)))]"

definition NewExternalChainProcessor :: "string \<Rightarrow> string \<Rightarrow> chain_options \<Rightarrow> external_chain" where
  "NewExternalChainProcessor name url o' =
     \<lparr>ec_name = (if name = [] then ''ExternalChain'' else name),
      ec_timeout = (if co_timeout o' > 0 then of_int (co_timeout o') else 30) * 1000000000,
      ec_url = url,
      ec_method = (if co_method o' = [] then ''POST'' else co_method o'),
      ec_headers = co_headers o',
      ec_stream = co_stream o',
      ec_key = (if co_key o' = [] then ''input'' else co_key o')\<rparr>"

text \<open>No options, or options that are no JSON, leave the zero value.\<close>

definition NewExternalChainProcessorFromOptions :: "string \<Rightarrow> any option \<Rightarrow> external_chain" where
  "NewExternalChainProcessorFromOptions name opts =
     (let zero = \<lparr>co_url = [], co_method = [], co_headers = [], co_timeout = 0, co_stream = False, co_key = []\<rparr>;
          o' = (case opts of None \<Rightarrow> zero | Some v \<Rightarrow> lenient_into chain_option_fields v zero)
      in NewExternalChainProcessor name (co_url o') o')"

section \<open>The last message of the user\<close>

definition block_text :: "any \<Rightarrow> string" where
  "block_text b = (case b of AObj m \<Rightarrow> if key_string m ''type'' = ''text'' then key_string m ''text'' else [] | _ \<Rightarrow> [])"

definition content_text :: "anymap \<Rightarrow> string" where
  "content_text m =
     (case key_value m ''content'' of
        Some (AStr s) \<Rightarrow> s
      | Some (AArr bs) \<Rightarrow> concat (map block_text bs)
      | _ \<Rightarrow> [])"

definition lastUserMessageText :: "llm_context option \<Rightarrow> string" where
  "lastUserMessageText c =
     (case c of
        None \<Rightarrow> []
      | Some x \<Rightarrow> (case List.find (\<lambda>m. key_string m ''role'' = ''user'') (rev (messages x)) of
            None \<Rightarrow> [] | Some m \<Rightarrow> content_text m))"

section \<open>The answer\<close>

text \<open>A body read to its end, or to the error that ends it.\<close>

record chain_reply =
  cy_status :: int
  cy_body :: string
  cy_error :: "err option"

type_synonym 'w chain_api = "'w \<Rightarrow> 64 word \<Rightarrow> string \<Rightarrow> out_request \<Rightarrow> (err + chain_reply) \<times> 'w"

type_synonym text_parser = "string \<Rightarrow> any option"

text \<open>\<^verbatim>\<open>bufio.Scanner\<close> over lines: the lines without their ends, and whether one did not fit.\<close>

definition dropCR :: "string \<Rightarrow> string" where
  "dropCR s = (if s \<noteq> [] \<and> last s = CHR 0x0D then butlast s else s)"

function stream_lines :: "nat \<Rightarrow> string \<Rightarrow> string list \<times> bool" where
  "stream_lines m s =
     (if s = [] then ([], False)
      else let line = takeWhile (\<lambda>c. c \<noteq> CHR 0x0A) s
           in if m \<le> length line then ([], True)
              else (let (ls, e) = stream_lines m (drop (Suc (length line)) s) in (dropCR line # ls, e)))"
  by pat_completeness auto
termination
  by (relation "measure (\<lambda>(m, s). length s)") auto

declare stream_lines.simps [simp del]

definition answer_fields :: "(string \<times> (string \<times> string) setter) list" where
  "answer_fields = [(''text'', set_string (\<lambda>x (t, c). (x, c))), (''content'', set_string (\<lambda>x (t, c). (t, x)))]"

definition text_or_content :: "string \<times> string \<Rightarrow> string" where
  "text_or_content tc = (if fst tc = [] then snd tc else fst tc)"

text \<open>The payload of an event; what is neither an object with these fields nor a JSON string counts as
  plain text.\<close>

definition quoted :: "string \<Rightarrow> bool" where
  "quoted d \<longleftrightarrow> 2 < length d \<and> hd d = CHR 0x22 \<and> last d = CHR 0x22"

definition payload_text :: "text_parser \<Rightarrow> string \<Rightarrow> string" where
  "payload_text parse d =
     (case parse d of
        None \<Rightarrow> if quoted d then [] else d
      | Some v \<Rightarrow> (case json_into answer_fields v ([], []) of
            Some tc \<Rightarrow> text_or_content tc
          | None \<Rightarrow> if quoted d then (case v of AStr s \<Rightarrow> s | _ \<Rightarrow> []) else d))"

definition line_text :: "text_parser \<Rightarrow> string \<Rightarrow> string" where
  "line_text parse l =
     (let line = TrimSpace l
      in if line = [] \<or> \<not> prefix ''data:'' line then []
         else let d = TrimSpace (drop 5 line)
              in if d = ''[DONE]'' \<or> d = ''null'' then [] else payload_text parse d)"

definition streamResponse :: "text_parser \<Rightarrow> chain_reply \<Rightarrow> string list \<times> err option" where
  "streamResponse parse r =
     (let (ls, long) = stream_lines 65536 (cy_body r)
      in (filter (\<lambda>t. t \<noteq> []) (map (line_text parse) ls),
          if long then Some ''bufio.Scanner: token too long'' else cy_error r))"

definition readFullResponse :: "text_parser \<Rightarrow> chain_reply \<Rightarrow> string list \<times> err option" where
  "readFullResponse parse r =
     (case cy_error r of
        Some e \<Rightarrow> ([], Some e)
      | None \<Rightarrow>
          (case (case parse (cy_body r) of None \<Rightarrow> None | Some v \<Rightarrow> json_into answer_fields v ([], [])) of
             None \<Rightarrow> ([cy_body r], None)
           | Some tc \<Rightarrow> (filter (\<lambda>t. t \<noteq> []) [text_or_content tc], None)))"

section \<open>The processor\<close>

definition chain_request :: "external_chain \<Rightarrow> string \<Rightarrow> out_request" where
  "chain_request p s =
     \<lparr>or_url = ec_url p, or_headers = (''Content-Type'', ''application/json'') # ec_headers p,
      or_body = SendJson (AObj [(ec_key p, AStr (TrimSpace s))])\<rparr>"

definition chain_answer ::
  "'w chain_api \<Rightarrow> text_parser \<Rightarrow> external_chain \<Rightarrow> string \<Rightarrow> 'w \<Rightarrow> (string list \<times> err option) \<times> 'w" where
  "chain_answer api parse p s w =
     (case api w (ec_timeout p) (ec_method p) (chain_request p s) of
        (Inl e, w') \<Rightarrow> (([], Some e), w')
      | (Inr r, w') \<Rightarrow>
          (if cy_status r \<noteq> 200 then ([], Some (''external_chain: HTTP '' @ itoa (cy_status r)))
           else if ec_stream p then streamResponse parse r
           else readFullResponse parse r, w'))"

fun new_frames :: "body list \<Rightarrow> u64 \<Rightarrow> push list \<times> u64" where
  "new_frames [] ids = ([], ids)"
| "new_frames (b # bs) ids =
     (let (f, ids1) = mk_frame b ids; (ps, ids2) = new_frames bs ids1 in ((Downstream, f) # ps, ids2))"

text \<open>The frames of the answer in their order; what the next processor replies is ignored.\<close>

definition ProcessFrame ::
  "'w chain_api \<Rightarrow> text_parser \<Rightarrow> replies \<Rightarrow> external_chain \<Rightarrow> 'w \<times> u64 \<Rightarrow> direction \<Rightarrow> frame
     \<Rightarrow> ('w \<times> u64) \<times> push list \<times> err option" where
  "ProcessFrame api parse rsp p st d f =
     (if d \<noteq> Downstream then hand rsp st d f
      else if ec_url p = [] then hand rsp st Downstream f
      else case fbody f of
        LLMContextFrame c \<Rightarrow>
          (let s = lastUserMessageText c
           in if s = [] then hand rsp st Downstream f
              else let ((texts, e), w') = chain_answer api parse p s (fst st);
                       (ps, ids') = new_frames
                         (LLMFullResponseStartFrame # map (\<lambda>t. LLMTextFrame (text_of t)) texts
                            @ (case e of None \<Rightarrow> [] | Some m \<Rightarrow> [ErrorFrame m False (ec_name p)])
                            @ [LLMFullResponseEndFrame]) (snd st)
                   in ((w', ids'), ps, None))
      | _ \<Rightarrow> hand rsp st Downstream f)"

section \<open>Echo and logger\<close>

definition echo_New :: "string \<Rightarrow> string" where
  "echo_New name = (if name = [] then ''Echo'' else name)"

definition echo_ProcessFrame :: "replies \<Rightarrow> 's \<Rightarrow> direction \<Rightarrow> frame \<Rightarrow> 's \<times> push list \<times> err option" where
  "echo_ProcessFrame rsp s d f = hand rsp s d f"

definition logger_New :: "string \<Rightarrow> string" where
  "logger_New name = (if name = [] then ''Logger'' else name)"

text \<open>The line of the log, and the frame handed on.\<close>

definition logger_ProcessFrame ::
  "replies \<Rightarrow> string list \<Rightarrow> direction \<Rightarrow> frame \<Rightarrow> string list \<times> push list \<times> err option" where
  "logger_ProcessFrame rsp lines d f =
     hand rsp
       (lines @ [''frame '' @ frame_type f @ '' id='' @ utoa (unat (frame_id f)) @ '' dir='' @
          (if d = Downstream then ''1'' else ''2'')]) d f"

section \<open>Lemmas\<close>

lemma new_frames_bodies [simp]:
  "map (fbody \<circ> snd) (fst (new_frames bs ids)) = bs"
  "map fst (fst (new_frames bs ids)) = map (\<lambda>_. Downstream) (fst (new_frames bs ids))"
  by (induction bs arbitrary: ids) (simp_all add: Let_def case_prod_beta)

text \<open>A line that ends is read and the rest is read after it.\<close>

lemma scan_line:
  assumes "CHR 0x0A \<notin> set l" "length l < m"
  shows "stream_lines m (l @ CHR 0x0A # r) = (dropCR l # fst (stream_lines m r), snd (stream_lines m r))"
proof -
  have t: "takeWhile (\<lambda>c. c \<noteq> CHR 0x0A) (l @ CHR 0x0A # r) = l"
    using assms(1) by (subst takeWhile_append2) auto
  show ?thesis
    using assms(2) by (subst stream_lines.simps) (simp add: t Let_def case_prod_beta)
qed

lemma scan_end [simp]: "stream_lines m [] = ([], False)"
  by (simp add: stream_lines.simps)

lemma drop_lead_space: "drop_lead white_runes (CHR 0x20 # s) = drop_lead white_runes s"
proof -
  have "lead_of white_runes (CHR 0x20 # s) = 1" by (simp add: lead_of_def white_runes_def)
  then show ?thesis by (subst drop_lead.simps) simp
qed

text \<open>An event as servers write it: an object on one line after \<^verbatim>\<open>data:\<close>, and an empty line.\<close>

definition sse_event :: "string \<Rightarrow> string" where
  "sse_event d = ''data: '' @ d @ [CHR 0x0A, CHR 0x0A]"

definition object_text :: "string \<Rightarrow> bool" where
  "object_text d \<longleftrightarrow> (\<exists>x. d = CHR 0x7B # x @ [CHR 0x7D]) \<and> CHR 0x0A \<notin> set d \<and> length d < 65530"

lemma brace_solid:
  "CHR 0x7B \<notin> hd ` set white_runes" "CHR 0x7D \<notin> last ` set white_runes" "CHR 0x64 \<notin> hd ` set white_runes"
  by (simp_all add: white_runes_def)

lemma event_line:
  assumes "object_text d"
  shows "line_text parse (''data: '' @ d) = payload_text parse d" "dropCR (''data: '' @ d) = ''data: '' @ d"
proof -
  obtain x where d: "d = CHR 0x7B # x @ [CHR 0x7D]" using assms by (auto simp: object_text_def)
  have "TrimSpace (''data: '' @ d) = ''data: '' @ d"
    using TrimSpace_solid(1) [OF brace_solid(3,2), of "''ata: '' @ CHR 0x7B # x"] by (simp add: d)
  moreover have "TrimSpace (CHR 0x20 # d) = d"
    using TrimSpace_solid(1) [OF brace_solid(1,2), of x]
    by (simp add: TrimSpace_def TrimLeftSpace_def drop_lead_space d)
  ultimately show "line_text parse (''data: '' @ d) = payload_text parse d"
    by (simp add: line_text_def Let_def d)
  show "dropCR (''data: '' @ d) = ''data: '' @ d" by (simp add: dropCR_def d)
qed

lemma scan_events:
  assumes "list_all object_text ds"
  shows "stream_lines 65536 (concat (map sse_event ds)) = (concat (map (\<lambda>d. [''data: '' @ d, []]) ds), False)"
  using assms
proof (induction ds)
  case (Cons d ds)
  then have n: "CHR 0x0A \<notin> set (''data: '' @ d)" "length (''data: '' @ d) < 65536"
    by (simp_all add: object_text_def)
  let ?r = "concat (map sse_event ds)"
  have r: "stream_lines 65536 ([] @ CHR 0x0A # ?r) = ([] # fst (stream_lines 65536 ?r), snd (stream_lines 65536 ?r))"
    by (subst scan_line) (simp_all add: dropCR_def)
  have "stream_lines 65536 (concat (map sse_event (d # ds))) =
      stream_lines 65536 ((''data: '' @ d) @ CHR 0x0A # [] @ CHR 0x0A # ?r)"
    by (simp add: sse_event_def)
  also have "\<dots> = ((''data: '' @ d) # [] # fst (stream_lines 65536 ?r), snd (stream_lines 65536 ?r))"
    using Cons.prems event_line(2) [of d] unfolding scan_line [OF n] r by (simp only: fst_conv snd_conv list.pred_inject)
  also have "\<dots> = (concat (map (\<lambda>d. [''data: '' @ d, []]) (d # ds)), False)"
    using Cons by simp
  finally show ?case .
qed simp

lemma no_line [simp]: "line_text parse [] = []"
  by (simp add: line_text_def)

lemma stream_events:
  assumes "list_all object_text ds"
  shows "streamResponse parse \<lparr>cy_status = 200, cy_body = concat (map sse_event ds), cy_error = None\<rparr> =
    (filter (\<lambda>t. t \<noteq> []) (map (payload_text parse) ds), None)"
proof -
  have "filter (\<lambda>t. t \<noteq> []) (map (line_text parse) (concat (map (\<lambda>d. [''data: '' @ d, []]) ds))) =
      filter (\<lambda>t. t \<noteq> []) (map (payload_text parse) ds)"
    using assms by (induction ds) (simp_all add: event_line(1) [simplified])
  then show ?thesis by (simp add: streamResponse_def scan_events [OF assms])
qed

section \<open>Properties\<close>

text \<open>a question the chain is asked is answered between the two frames that bracket a response, whatever
  the service does: between them are the texts it gave, then at most one error, nothing goes upstream, the
  context frame itself goes no further, and no error is returned.\<close>

theorem chain_answer_bracketed:
  assumes "ec_url p \<noteq> []" "fbody f = LLMContextFrame c" "lastUserMessageText c \<noteq> []"
  shows "\<exists>texts errs st' ps. ProcessFrame api parse rsp p st Downstream f = (st', ps, None) \<and>
    map fst ps = map (\<lambda>_. Downstream) ps \<and> length errs \<le> 1 \<and>
    map (fbody \<circ> snd) ps =
      LLMFullResponseStartFrame # map (\<lambda>t. LLMTextFrame (text_of t)) texts
        @ map (\<lambda>e. ErrorFrame e False (ec_name p)) errs @ [LLMFullResponseEndFrame]"
proof -
  obtain texts e w' where a: "chain_answer api parse p (lastUserMessageText c) (fst st) = ((texts, e), w')"
    by (metis surj_pair)
  define errs where "errs = (case e of None \<Rightarrow> [] | Some m \<Rightarrow> [m])"
  let ?bs = "LLMFullResponseStartFrame # map (\<lambda>t. LLMTextFrame (text_of t)) texts
    @ map (\<lambda>e. ErrorFrame e False (ec_name p)) errs @ [LLMFullResponseEndFrame]"
  have errs: "length errs \<le> 1"
    "(case e of None \<Rightarrow> [] | Some m \<Rightarrow> [ErrorFrame m False (ec_name p)]) = map (\<lambda>e. ErrorFrame e False (ec_name p)) errs"
    by (simp_all add: errs_def split: option.split)
  have "ProcessFrame api parse rsp p st Downstream f =
      ((w', snd (new_frames ?bs (snd st))), fst (new_frames ?bs (snd st)), None)"
    using assms by (simp add: ProcessFrame_def a errs(2) Let_def case_prod_beta del: new_frames.simps)
  then show ?thesis
    by (intro exI [of _ texts] exI [of _ errs] exI conjI)
      (assumption, rule new_frames_bodies(2), rule errs(1), rule new_frames_bodies(1))
qed

text \<open>C23: an answer streamed as events is heard complete and in order: if the service answers with one
  object per event, each with its text on a line of less than 64 KiB, then the texts pushed are exactly those texts,
  the empty ones left out, between the brackets and without an error.\<close>

theorem chain_stream_complete:
  assumes "ec_url p \<noteq> []" "ec_stream p" "fbody f = LLMContextFrame c" "lastUserMessageText c \<noteq> []"
    and "list_all object_text ds" "map parse ds = map (\<lambda>t. Some (AObj [(''text'', AStr t)])) ts"
    and "api w (ec_timeout p) (ec_method p) (chain_request p (lastUserMessageText c)) =
      (Inr \<lparr>cy_status = 200, cy_body = concat (map sse_event ds), cy_error = None\<rparr>, w')"
  shows "map (fbody \<circ> snd) (fst (snd (ProcessFrame api parse rsp p (w, ids) Downstream f))) =
    LLMFullResponseStartFrame # map (\<lambda>t. LLMTextFrame (text_of t)) (filter (\<lambda>t. t \<noteq> []) ts) @ [LLMFullResponseEndFrame]"
proof -
  have "map (payload_text parse) ds = ts"
    using assms(6)
    by (induction ds arbitrary: ts)
      (auto simp: payload_text_def answer_fields_def json_simps text_or_content_def Cons_eq_map_conv)
  then have "chain_answer api parse p (lastUserMessageText c) w = ((filter (\<lambda>t. t \<noteq> []) ts, None), w')"
    using stream_events [OF assms(5), of parse] by (simp add: chain_answer_def assms(2,7))
  then show ?thesis
    using assms(1,3,4) by (simp add: ProcessFrame_def Let_def case_prod_beta del: new_frames.simps)
qed

definition asked :: frame where
  "asked = Frame (NewBaseWithID 1) (LLMContextFrame (Some
     \<lparr>messages = [[(''role'', AStr ''user''), (''content'', AStr ''hi'')]], tools = [], tool_choice = []\<rparr>))"

definition a_chain :: external_chain where
  "a_chain = NewExternalChainProcessor [] ''http://chain'' \<lparr>co_url = [], co_method = [], co_headers = [], co_timeout = 0,
     co_stream = True, co_key = []\<rparr>"

lemma asked_text:
  "fbody asked = LLMContextFrame (Some
     \<lparr>messages = [[(''role'', AStr ''user''), (''content'', AStr ''hi'')]], tools = [], tool_choice = []\<rparr>)"
  "lastUserMessageText (Some
     \<lparr>messages = [[(''role'', AStr ''user''), (''content'', AStr ''hi'')]], tools = [], tool_choice = []\<rparr>) = ''hi''"
  "ec_url a_chain = ''http://chain''" "ec_stream a_chain" "ec_name a_chain = ''ExternalChain''"
  by (simp_all add: asked_def lastUserMessageText_def key_string_def key_value_def content_text_def a_chain_def
      NewExternalChainProcessor_def)

theorem chain_answer_bracketed_witness:
  "\<exists>texts errs st' ps. ProcessFrame (\<lambda>w _ _ _. (Inl ''refused'', w)) (\<lambda>_. None) quiet_replies a_chain ((), 8) Downstream asked =
     (st', ps, None) \<and>
    map fst ps = map (\<lambda>_. Downstream) ps \<and> length errs \<le> 1 \<and>
    map (fbody \<circ> snd) ps =
      LLMFullResponseStartFrame # map (\<lambda>t. LLMTextFrame (text_of t)) texts
        @ map (\<lambda>e. ErrorFrame e False (ec_name a_chain)) errs @ [LLMFullResponseEndFrame]"
  by (rule chain_answer_bracketed [OF _ asked_text(1)]) (simp_all add: asked_text)

theorem chain_stream_complete_witness:
  "map (fbody \<circ> snd) (fst (snd (ProcessFrame
       (\<lambda>w _ _ _. (Inr \<lparr>cy_status = 200, cy_body = concat (map sse_event [''{hi}'', ''{}'']), cy_error = None\<rparr>, w))
       (\<lambda>d. Some (AObj [(''text'', AStr (if d = ''{hi}'' then ''hi'' else []))]))
       quiet_replies a_chain ((), 8) Downstream asked))) =
    LLMFullResponseStartFrame # map (\<lambda>t. LLMTextFrame (text_of t)) (filter (\<lambda>t. t \<noteq> []) [''hi'', []])
      @ [LLMFullResponseEndFrame]"
proof (rule chain_stream_complete [OF _ _ asked_text(1)])
  show "list_all object_text [''{hi}'', ''{}'']" by (simp add: object_text_def)
qed (simp_all add: asked_text)

end
