(* ===== verification/Rtvi.thy ===== *)
theory Rtvi
  imports Handler JsonFrames
begin

text \<open>
  The RTVI protocol, \<^verbatim>\<open>pkg/processors/frameworks/rtvi\<close> with \<^verbatim>\<open>pkg/frames/rtvi.go\<close>: its messages, the processor that
  answers the client's messages, and the serializer of a connection that speaks it.
\<close>

section \<open>Messages\<close>

definition ProtocolVersion :: string where "ProtocolVersion = ''1.2.0''"
definition MessageLabel :: string where "MessageLabel = ''rtvi-ai''"

record rtvi_message =
  rm_label :: string
  rm_type :: string
  rm_id :: string
  rm_data :: anymap

definition message_json :: "rtvi_message \<Rightarrow> any" where
  "message_json m =
     AObj ([(''label'', AStr (rm_label m)), (''type'', AStr (rm_type m)), (''id'', AStr (rm_id m))]
       @ (if rm_data m = [] then [] else [(''data'', AObj (rm_data m))]))"

definition NewRTVIClientMessageFrame :: "string \<Rightarrow> string \<Rightarrow> anymap \<Rightarrow> u64 \<Rightarrow> frame \<times> u64" where
  "NewRTVIClientMessageFrame msgID typ data = mk_frame (RTVIClientMessageFrame msgID typ data)"

definition NewRTVIServerMessageFrame :: "string \<Rightarrow> string \<Rightarrow> anymap \<Rightarrow> u64 \<Rightarrow> frame \<times> u64" where
  "NewRTVIServerMessageFrame typ msgID data = mk_frame (RTVIServerMessageFrame typ msgID data)"

definition server_message :: "string \<Rightarrow> anymap \<Rightarrow> rtvi_message" where
  "server_message typ data = \<lparr>rm_label = MessageLabel, rm_type = typ, rm_id = [], rm_data = data\<rparr>"

section \<open>The processor\<close>

text \<open>\<open>rt_sender\<close> says whether there is a sender and \<open>rt_log\<close> what it was given.\<close>

record rtvi =
  rt_name :: string
  rt_sender :: bool
  rt_version :: string
  rt_client_ready :: bool
  rt_log :: "rtvi_message list"

definition NewRTVIProcessor :: "string \<Rightarrow> bool \<Rightarrow> string \<Rightarrow> rtvi" where
  "NewRTVIProcessor name sender version =
     \<lparr>rt_name = (if name = [] then ''RTVI'' else name), rt_sender = sender,
      rt_version = (if version = [] then ProtocolVersion else version), rt_client_ready = False, rt_log = []\<rparr>"

definition NewRTVIProcessorFromOptions :: "string \<Rightarrow> any option \<Rightarrow> rtvi" where
  "NewRTVIProcessorFromOptions name opts =
     (let version = (case opts of
            None \<Rightarrow> []
          | Some v \<Rightarrow> lenient_into [(''protocol_version'', set_string (\<lambda>x _. x))] v [])
      in NewRTVIProcessor name False (if version = [] then ProtocolVersion else version))"

definition SetSender :: "bool \<Rightarrow> rtvi \<Rightarrow> rtvi" where
  "SetSender s p = p\<lparr>rt_sender := s\<rparr>"

definition bot_ready_data :: "string \<Rightarrow> anymap" where
  "bot_ready_data version =
     [(''version'', AStr version), (''about'', AObj [(''library'', AStr ''github.com/Voxray-AI/Voxray'')])]"

definition error_data :: "string \<Rightarrow> bool \<Rightarrow> anymap" where
  "error_data e fatal = [(''error'', AStr e), (''fatal'', ABool fatal)]"

definition handleClientMessage ::
  "replies \<Rightarrow> rtvi \<times> u64 \<Rightarrow> frame \<Rightarrow> string \<Rightarrow> anymap \<Rightarrow> (rtvi \<times> u64) \<times> push list \<times> err option" where
  "handleClientMessage rsp st f typ data =
     (if typ = ''client-ready'' then (((fst st)\<lparr>rt_client_ready := True\<rparr>, snd st), [], None)
      else if typ = ''send-text'' then
        (let content = key_string data ''content''
         in if content = [] then (st, [], None)
            else let (tf, ids) = NewTranscriptionFrame content [] [] True (snd st)
                 in hand rsp (fst st, ids) Downstream tf)
      else hand rsp st Downstream f)"

definition RTVIProcessFrame ::
  "replies \<Rightarrow> rtvi \<times> u64 \<Rightarrow> direction \<times> frame \<Rightarrow> (rtvi \<times> u64) \<times> push list \<times> err option" where
  "RTVIProcessFrame rsp st df =
     (let (d, f) = df; (p, ids) = st
      in if d \<noteq> Downstream then hand rsp st d f
         else case fbody f of
           StartFrame _ _ _ _ _ \<Rightarrow>
             (let (botReady, ids') = NewRTVIServerMessageFrame ''bot-ready'' [] (bot_ready_data (rt_version p)) ids
              in if rt_sender p
                 then hand rsp (p\<lparr>rt_log := rt_log p @ [server_message ''bot-ready'' (bot_ready_data (rt_version p))]\<rparr>, ids')
                        Downstream f
                 else ((p, ids'), [(Downstream, botReady), (Downstream, f)], rsp Downstream f))
         | RTVIClientMessageFrame _ typ data \<Rightarrow> handleClientMessage rsp st f typ data
         | ErrorFrame e fatal _ \<Rightarrow>
             (if rt_sender p
              then hand rsp (p\<lparr>rt_log := rt_log p @ [server_message ''error'' (error_data e fatal)]\<rparr>, ids) Downstream f
              else let (m, ids') = NewRTVIServerMessageFrame ''error'' [] (error_data e fatal) ids
                   in ((p, ids'), [(Downstream, m), (Downstream, f)], rsp Downstream f))
         | _ \<Rightarrow> hand rsp st Downstream f)"

section \<open>The serializer\<close>

definition frameToRTVIMessage :: "frame \<Rightarrow> rtvi_message option" where
  "frameToRTVIMessage f =
     (case fbody f of
        RTVIServerMessageFrame typ i data \<Rightarrow>
          Some \<lparr>rm_label = MessageLabel, rm_type = typ, rm_id = i, rm_data = data\<rparr>
      | LLMTextFrame t \<Rightarrow> Some (server_message ''bot-output'' [(''text'', AStr (tdata t)), (''spoken'', ABool False)])
      | TranscriptionFrame t _ _ _ final \<Rightarrow>
          Some (server_message ''user-transcription'' [(''text'', AStr (tdata t)), (''final'', ABool final)])
      | ErrorFrame e fatal _ \<Rightarrow> Some (server_message ''error'' (error_data e fatal))
      | BotStartedSpeakingFrame \<Rightarrow> Some (server_message ''bot-started-speaking'' [])
      | BotStoppedSpeakingFrame \<Rightarrow> Some (server_message ''bot-stopped-speaking'' [])
      | _ \<Rightarrow> None)"

text \<open>The value \<^verbatim>\<open>json.Marshal\<close> writes; \<open>None\<close> is no message.\<close>

definition Serialize :: "frame \<Rightarrow> any option" where
  "Serialize f = map_option message_json (frameToRTVIMessage f)"

definition raw_fields :: "(string \<times> (string \<times> string \<times> string \<times> anymap option) setter) list" where
  "raw_fields =
     [(''label'', set_string (\<lambda>x (l, t, i, d). (x, t, i, d))), (''type'', set_string (\<lambda>x (l, t, i, d). (l, x, i, d))),
      (''id'', set_string (\<lambda>x (l, t, i, d). (l, t, x, d))),
      (''data'', set_object (\<lambda>(l, t, i, d). d) (\<lambda>x (l, t, i, d). (l, t, i, x)))]"

definition Deserialize :: "any option \<Rightarrow> u64 \<Rightarrow> (err + frame option) \<times> u64" where
  "Deserialize v ids =
     (case v of
        None \<Rightarrow> (Inl ''json'', ids)
      | Some v \<Rightarrow>
          (case json_into raw_fields v ([], [], [], None) of
             None \<Rightarrow> (Inl ''json'', ids)
           | Some (l, t, i, d) \<Rightarrow>
               if l \<noteq> MessageLabel \<and> l \<noteq> [] then (Inr None, ids)
               else let (f, ids') = NewRTVIClientMessageFrame i t (case d of None \<Rightarrow> [] | Some m \<Rightarrow> m) ids
                    in (Inr (Some f), ids')))"

section \<open>Lemmas\<close>

lemma Deserialize_message:
  "Deserialize (Some (message_json \<lparr>rm_label = MessageLabel, rm_type = t, rm_id = i, rm_data = d\<rparr>)) ids =
     (Inr (Some (Frame (NewBaseWithID (ids + 1)) (RTVIClientMessageFrame i t d))), ids + 1)"
  by (simp add: Deserialize_def message_json_def raw_fields_def json_read set_object_def NewRTVIClientMessageFrame_def
      mk_frame_def NewBase_def nextID_def)

lemma Deserialize_client:
  "fst (Deserialize v ids) = Inr (Some f) \<Longrightarrow> \<exists>i t d. fbody f = RTVIClientMessageFrame i t d"
  by (auto simp: Deserialize_def NewRTVIClientMessageFrame_def Let_def case_prod_beta split: option.splits if_splits)

text \<open>What the client is told if the connection writes what the processor hands on.\<close>

definition told :: "push list \<Rightarrow> any list" where
  "told ps = List.map_filter (\<lambda>(d, f). if d = Downstream then Serialize f else None) ps"

lemma told_simps [simp]:
  "told [] = []" "told (p # q # ps) = told [p] @ told (q # ps)" "told (ps @ qs) = told ps @ told qs"
  by (simp_all add: told_def map_filter_def)

lemma told_one: "told [(Downstream, f)] = (case Serialize f of None \<Rightarrow> [] | Some v \<Rightarrow> [v])"
  by (simp add: told_def map_filter_def split: option.split)

text \<open>What every frame makes the client hear of errors.\<close>

definition error_messages :: "any list \<Rightarrow> any list" where
  "error_messages vs = filter (\<lambda>v. case v of AObj m \<Rightarrow> key_string m ''type'' = ''error'' | _ \<Rightarrow> False) vs"

definition error_text :: "frame \<Rightarrow> any list" where
  "error_text f = (case fbody f of ErrorFrame e fatal _ \<Rightarrow> [message_json (server_message ''error'' (error_data e fatal))] | _ \<Rightarrow> [])"

lemma error_messages_simps [simp]:
  "error_messages [] = []" "error_messages (xs @ ys) = error_messages xs @ error_messages ys"
  by (simp_all add: error_messages_def)

definition server_message_frame :: "frame \<Rightarrow> bool" where
  "server_message_frame f \<longleftrightarrow> (case fbody f of RTVIServerMessageFrame _ _ _ \<Rightarrow> True | _ \<Rightarrow> False)"

lemma error_of_message:
  "error_messages (message_json (server_message t d) # vs) =
     (if t = ''error'' then [message_json (server_message t d)] else []) @ error_messages vs"
  by (simp add: error_messages_def message_json_def server_message_def key_string_def key_value_def)

lemma told_errors:
  assumes "\<not> server_message_frame f"
  shows "error_messages (told [(Downstream, f)]) = error_text f"
  using assms
  by (cases "fbody f")
    (simp_all add: told_one Serialize_def frameToRTVIMessage_def error_of_message error_text_def server_message_frame_def)

text \<open>Frames built here.\<close>

lemma new_message [simp]:
  "fbody (fst (NewRTVIServerMessageFrame t i d ids)) = RTVIServerMessageFrame t i d"
  "fbody (fst (NewTranscriptionFrame s u w b ids)) = TranscriptionFrame (text_of s) u w [] b"
  by (simp_all add: NewRTVIServerMessageFrame_def NewTranscriptionFrame_def)

lemma told_server:
  "fbody g = RTVIServerMessageFrame t [] d \<Longrightarrow> told [(Downstream, g)] = [message_json (server_message t d)]"
  by (simp add: told_one Serialize_def frameToRTVIMessage_def server_message_def)

lemma told_transcript:
  "fbody g = TranscriptionFrame t u w l b \<Longrightarrow> error_messages (told [(Downstream, g)]) = []"
  using told_errors [of g] by (simp add: server_message_frame_def error_text_def)

lemma step_errors:
  assumes "\<not> rt_sender (fst st)" "\<not> server_message_frame f"
  shows "\<not> rt_sender (fst (fst (RTVIProcessFrame rsp st (Downstream, f)))) \<and>
    error_messages (told (fst (snd (RTVIProcessFrame rsp st (Downstream, f))))) = error_text f @ error_text f"
proof -
  obtain p ids where st [simp]: "st = (p, ids)" by (cases st)
  note told = told_errors [OF assms(2)]
  show ?thesis
  proof (cases "fbody f")
    case (RTVIClientMessageFrame i t d)
    then show ?thesis using assms told
      by (simp add: RTVIProcessFrame_def handleClientMessage_def Let_def case_prod_beta error_text_def told_transcript)
  qed (use assms told in \<open>simp_all add: RTVIProcessFrame_def Let_def case_prod_beta error_text_def told_server error_of_message
      server_message_frame_def\<close>)
qed

lemma run_errors:
  assumes "\<not> rt_sender (fst st)" "list_all (\<lambda>f. \<not> server_message_frame f) fs"
  shows "error_messages (told (snd (run_handler (RTVIProcessFrame rsp) st (map (Pair Downstream) fs)))) =
    concat (map (\<lambda>f. error_text f @ error_text f) fs)"
  using assms
proof (induction fs arbitrary: st)
  case (Cons f fs)
  then show ?case
    using step_errors [of st f rsp] by (simp add: Let_def case_prod_beta)
qed simp

section \<open>Properties\<close>

text \<open>on a connection that speaks RTVI the processor from the plugin list tells the client every error twice: it
  turns the error frame into a message and hands the frame on, and the serializer makes the same message of
  the frame. Whatever frames pass, the error messages the client gets are those of the error frames, each
  repeated.\<close>

theorem rtvi_errors_told_twice:
  assumes "list_all (\<lambda>f. \<not> server_message_frame f) fs"
  shows "error_messages (told (snd (run_handler (RTVIProcessFrame rsp) (NewRTVIProcessorFromOptions name opts, ids)
      (map (Pair Downstream) fs)))) = concat (map (\<lambda>f. error_text f @ error_text f) fs)"
  by (rule run_errors [OF _ assms]) (simp add: NewRTVIProcessorFromOptions_def NewRTVIProcessor_def Let_def)

theorem rtvi_errors_told_twice_witness:
  "error_messages (told (snd (run_handler (RTVIProcessFrame quiet_replies) (NewRTVIProcessorFromOptions ''rtvi'' None, 3)
      (map (Pair Downstream) [fst (NewStartFrame 1), fst (NewErrorFrame ''no key'' False ''stt'' 2)])))) =
     concat (map (\<lambda>f. error_text f @ error_text f) [fst (NewStartFrame 1), fst (NewErrorFrame ''no key'' False ''stt'' 2)])"
  by (rule rtvi_errors_told_twice) (simp add: server_message_frame_def NewStartFrame_def NewErrorFrame_def)

text \<open>Neither way does such a connection carry sound: what a client sends becomes a client message or nothing, and a
  frame with audio becomes no message.\<close>

lemma rtvi_carries_no_audio:
  "fst (Deserialize v ids) \<noteq> Inr (Some (Frame ba (AudioRawFrame a)))"
  "Serialize (Frame ba (TTSAudioRawFrame a d)) = None" "Serialize (Frame ba (OutputAudioRawFrame a d)) = None"
  using Deserialize_client [of v ids "Frame ba (AudioRawFrame a)"]
  by (auto simp: Serialize_def frameToRTVIMessage_def)

text \<open>Bot-ready is told at every start frame, as nothing records that it was.\<close>

lemma rtvi_ready_each_start:
  "\<not> rt_sender p \<Longrightarrow> told (fst (snd (RTVIProcessFrame rsp (p, ids) (Downstream, Frame ba (StartFrame i u a m g))))) =
     [message_json (server_message ''bot-ready'' (bot_ready_data (rt_version p)))]"
  by (simp add: RTVIProcessFrame_def Let_def case_prod_beta told_server)
    (simp add: told_one Serialize_def frameToRTVIMessage_def)

end
