(* ===== verification/Envelopes.thy ===== *)
theory Envelopes
  imports Wire JsonFrames
begin

text \<open>
  Envelopes on a stream, \<^verbatim>\<open>pkg/frames/serialize/protobuf.go\<close>: the wire envelope of \<open>Wire\<close> around the JSON body of
  \<open>JsonFrames\<close>, and the reader of envelopes that follow their length. \<open>print\<close> and \<open>parse\<close> are
  \<^verbatim>\<open>encoding/json\<close>: the text of a value and the value of a text.
\<close>

definition ProtoEncoder :: "(any \<Rightarrow> err + byte list) \<Rightarrow> frame \<Rightarrow> err + byte list" where
  "ProtoEncoder print f =
     (case print (AObj (enc_body (fbody f))) of
        Inl e \<Rightarrow> Inl e
      | Inr payload \<Rightarrow> Inr (appendEnvelope [] (frame_type f) payload))"

text \<open>\<open>None\<close> is the panic of the envelope reader.\<close>

definition ProtoDecoder :: "(byte list \<Rightarrow> any option) \<Rightarrow> byte list \<Rightarrow> u64 \<Rightarrow> ((err + frame) \<times> u64) option" where
  "ProtoDecoder parse data ids =
     map_option (\<lambda>(typ, payload). DecodeByType typ (parse payload) ids) (parseEnvelope data [] [])"

definition readLengthPrefixed :: "byte list \<Rightarrow> (rerr + byte list) \<times> byte list" where
  "readLengthPrefixed r =
     (case readVarint r of
        (Inl e, r') \<Rightarrow> (Inl e, r')
      | (Inr n, r') \<Rightarrow> if 1000000000 < n then (Inl (RMsg ''short buffer''), r') else ReadFull (unat n) r')"

definition rerr_text :: "rerr \<Rightarrow> err" where
  "rerr_text e = (case e of REOF \<Rightarrow> ''EOF'' | RUnexpectedEOF \<Rightarrow> ''unexpected EOF'' | RMsg m \<Rightarrow> m)"

definition ReadProtoEnvelope ::
  "(byte list \<Rightarrow> any option) \<Rightarrow> byte list \<Rightarrow> u64 \<Rightarrow> (((err + frame) \<times> u64) option) \<times> byte list" where
  "ReadProtoEnvelope parse r ids =
     (case readLengthPrefixed r of
        (Inl e, r') \<Rightarrow> (Some (Inl (rerr_text e), ids), r')
      | (Inr data, r') \<Rightarrow> (ProtoDecoder parse data ids, r'))"

section \<open>Properties\<close>

lemma readLengthPrefixed_append:
  assumes "length d \<le> 1000000000"
  shows "readLengthPrefixed (appendVarint [] (of_nat (length d)) @ d @ r) = (Inr d, r)"
proof -
  have u: "unat (of_nat (length d) :: u64) = length d"
    using assms by (simp add: unsigned_of_nat take_bit_nat_eq_self)
  have "\<not> (1000000000 :: u64) < of_nat (length d)"
    using assms by (simp add: word_less_nat_alt u)
  then show ?thesis by (simp add: readLengthPrefixed_def u ReadFull_def)
qed

lemma type_names_short: "length (frame_type f) < 2 ^ 32"
  by (cases "fbody f") simp_all

lemma proto_back:
  assumes "decodable (fbody f)" "print (AObj (enc_body (fbody f))) = Inr p" "length p < 2 ^ 32"
    and "parse p = Some (AObj (enc_body (fbody f)))"
  shows "\<exists>e. ProtoEncoder print f = Inr e \<and>
    ProtoDecoder parse e ids = Some (Inr (Frame (NewBaseWithID (ids + 1)) (fbody f)), ids + 1)"
proof -
  obtain dec where "map_of decoders (frame_type f) = Some dec" "dec (AObj (enc_body (fbody f))) = Some (fbody f)"
    by (rule decoder_reads [OF assms(1)])
  then show ?thesis
    using envelope_roundtrip [OF type_names_short assms(3)] assms
    by (simp add: ProtoEncoder_def ProtoDecoder_def DecodeByType_def NewBase_def nextID_def)
qed

text \<open>a stream of enveloped frames, each after its length, is read back frame by frame: the reader
  returns the frame that was written, with a new id, and stops exactly at the next length, provided JSON gives back
  the value it was given and the envelope is below the reader's limit.\<close>

theorem enveloped_frames_read_back:
  assumes "decodable (fbody f)" "print (AObj (enc_body (fbody f))) = Inr p" "length p < 2 ^ 32"
    and "parse p = Some (AObj (enc_body (fbody f)))"
    and "ProtoEncoder print f = Inr e" "length e \<le> 1000000000"
  shows "ReadProtoEnvelope parse (appendVarint [] (of_nat (length e)) @ e @ r) ids =
    (Some (Inr (Frame (NewBaseWithID (ids + 1)) (fbody f)), ids + 1), r)"
  using proto_back [where print = print and parse = parse and ids = ids, OF assms(1-4)] assms(5) readLengthPrefixed_append [OF assms(6), of r]
  by (auto simp: ReadProtoEnvelope_def)

theorem enveloped_frames_read_back_witness:
  "ReadProtoEnvelope (\<lambda>p. Some (AObj [])) (appendVarint [] 23 @ appendEnvelope [] ''InterruptionFrame'' [123, 125] @ [7]) 4 =
     (Some (Inr (Frame (NewBaseWithID 5) InterruptionFrame), 5), [7])"
proof -
  have n: "appendVarint [10] 17 = [10, 17]" "appendVarint (xs @ [18]) 2 = xs @ [18, 2]" for xs
    by (simp_all add: appendVarint.simps)
  then have "length (appendEnvelope [] ''InterruptionFrame'' [123, 125]) = 23"
    by (simp add: appendEnvelope_def Let_def)
  then show ?thesis
    using enveloped_frames_read_back
      [where f = "Frame (NewBaseWithID 1) InterruptionFrame" and print = "\<lambda>_. Inr [123, 125]" and p = "[123, 125]"
        and parse = "\<lambda>p. Some (AObj [])" and e = "appendEnvelope [] ''InterruptionFrame'' [123, 125]" and r = "[7]" and ids = 4]
    by (simp add: decodable_def decoders_def ProtoEncoder_def)
qed

end
