(* ===== verification/Realtime.thy ===== *)
theory Realtime
  imports SttClients TtsClients
begin

text \<open>
  Realtime sessions, \<^verbatim>\<open>pkg/realtime\<close>: the session that is built from a language model and a transcription
  service (\<^verbatim>\<open>openai.go\<close>), and the session over the WebSocket of OpenAI's realtime API
  (\<^verbatim>\<open>openairealtime.go\<close>), with its reader, its channel of events and closing as interleaved steps.
\<close>

section \<open>A session from a language model and a transcription service\<close>

text \<open>An event is a text, a piece of speech, or another frame.\<close>

datatype rt_event = TextEvent token | FrameEvent body

record 'w realtime_shim =
  rh_llm :: "'w openai_service"
  rh_stt :: openai_client

definition NewOpenAIRealtime :: "env \<Rightarrow> string \<Rightarrow> string \<Rightarrow> 'w realtime_shim" where
  "NewOpenAIRealtime e apiKey model = \<lparr>rh_llm = openai_NewService e apiKey model, rh_stt = stt_NewOpenAI e apiKey\<rparr>"

text \<open>Of the configuration only the model counts.\<close>

definition shim_NewSession :: "env \<Rightarrow> 'w realtime_shim \<Rightarrow> string \<Rightarrow> 'w realtime_shim" where
  "shim_NewSession e r model =
     (if model \<noteq> [] then r\<lparr>rh_llm := openai_NewService e [] model\<rparr> else r)"

text \<open>The events that are offered to the channel in their order, and the error. A text of the model may never end.\<close>

definition shim_SendText ::
  "(string \<Rightarrow> any option) \<Rightarrow> 'w chat_apis \<Rightarrow> 'w realtime_shim \<Rightarrow> 'w \<times> u64 \<Rightarrow> string
     \<Rightarrow> ((rt_event list \<times> err option) \<times> 'w \<times> u64) option" where
  "shim_SendText parse api s st txt =
     map_option (\<lambda>((toks, e), st'). ((map TextEvent toks, map_option (\<lambda>m. ''realtime send text: '' @ m) e), st'))
       (openai_Chat parse api (rh_llm s) st [plain_message [(''role'', AStr ''user''), (''content'', AStr txt)]])"

text \<open>\<open>ctxErr\<close> is the error of the context, asked after each event.\<close>

definition shim_SendAudio ::
  "('w \<Rightarrow> err option) \<Rightarrow> 'w audio_apis \<Rightarrow> err option \<Rightarrow> 'w realtime_shim \<Rightarrow> 'w \<times> u64 \<Rightarrow> byte list \<Rightarrow> int \<Rightarrow> int
     \<Rightarrow> (rt_event list \<times> err option) \<times> 'w \<times> u64" where
  "shim_SendAudio temp api ctxErr s st a rate ch =
     (case stt_openai_Transcribe temp api (rh_stt s) st a rate ch of
        (Inl m, st') \<Rightarrow> (([], Some (''realtime send audio: '' @ m)), st')
      | (Inr ts, st') \<Rightarrow>
          (let evs = map (\<lambda>t. FrameEvent (fbody t)) (transcript_frames ts)
           in (case ctxErr of
                 None \<Rightarrow> ((evs, None), st')
               | Some c \<Rightarrow> ((take 1 evs, if evs = [] then None else Some c), st'))))"

text \<open>Closing such a session leaves the channel of events open.\<close>

section \<open>The service of a configuration\<close>

definition realtimeModel :: string where
  "realtimeModel = ''gpt-4o-realtime-preview-2024-12-17''"

record realtime_api =
  ra_key :: string
  ra_model :: string

datatype realtime_service = OpenAIRealtimeAPI realtime_api | UnimplementedRealtime string

definition NewOpenAIRealtimeAPI :: "env \<Rightarrow> string \<Rightarrow> string \<Rightarrow> realtime_api" where
  "NewOpenAIRealtimeAPI e apiKey model =
     \<lparr>ra_key = key_or e ''OPENAI_API_KEY'' apiKey, ra_model = or_else realtimeModel model\<rparr>"

definition realtime_NewFromConfig :: "env \<Rightarrow> config \<Rightarrow> string \<Rightarrow> config \<times> (err + realtime_service)" where
  "realtime_NewFromConfig e c provider =
     (let (c1, apiKey) = GetAPIKey e c ''openai'' ''OPENAI_API_KEY'';
          model = (if cf_Model c1 = [] then realtimeModel else cf_Model c1)
      in (c1, if provider = ''openai'' then Inr (OpenAIRealtimeAPI (NewOpenAIRealtimeAPI e apiKey model))
              else if provider = ''hume'' \<or> provider = ''inworld'' then Inr (UnimplementedRealtime provider)
              else Inl (''realtime not supported for provider '' @ provider)))"

text \<open>The address dialled and the header with the key; \<open>dial\<close> is the library.\<close>

definition realtime_NewSession ::
  "(string \<Rightarrow> string \<times> string \<Rightarrow> err option) \<Rightarrow> realtime_service \<Rightarrow> string \<Rightarrow> err + string \<times> string \<times> string" where
  "realtime_NewSession dial sv model =
     (case sv of
        UnimplementedRealtime p \<Rightarrow> Inl (''realtime session for provider '' @ p @ '' is not yet implemented'')
      | OpenAIRealtimeAPI r \<Rightarrow>
          (let url = ''wss://api.openai.com/v1/realtime?model='' @ (if model \<noteq> [] then model else ra_model r);
               header = (''Authorization'', ''Bearer '' @ ra_key r)
           in (case dial url header of Some m \<Rightarrow> Inl (''realtime api: dial: '' @ m) | None \<Rightarrow> Inr (url, header))))"

section \<open>Messages\<close>

text \<open>What is written; the error of the write is dropped, so sending answers nil.\<close>

definition realtime_text :: "string \<Rightarrow> any" where
  "realtime_text s = AObj
     [(''type'', AStr ''conversation.item.create''),
      (''item'', AObj [(''type'', AStr ''message''), (''role'', AStr ''user''),
         (''content'', AArr [AObj [(''type'', AStr ''input_text''), (''text'', AStr s)]])])]"

definition realtime_audio :: "byte list \<Rightarrow> any" where
  "realtime_audio a = AObj
     [(''type'', AStr ''input_audio_buffer.append''), (''audio'', AStr (EncodeToString a))]"

definition realtime_send :: "('w \<Rightarrow> any \<Rightarrow> err option \<times> 'w) \<Rightarrow> 'w \<Rightarrow> any \<Rightarrow> err option \<times> 'w" where
  "realtime_send write w payload = (None, snd (write w payload))"

definition realtime_SendText :: "('w \<Rightarrow> any \<Rightarrow> err option \<times> 'w) \<Rightarrow> 'w \<Rightarrow> string \<Rightarrow> err option \<times> 'w" where
  "realtime_SendText write w s = realtime_send write w (realtime_text s)"

definition realtime_SendAudio ::
  "('w \<Rightarrow> any \<Rightarrow> err option \<times> 'w) \<Rightarrow> 'w \<Rightarrow> byte list \<Rightarrow> int \<Rightarrow> int \<Rightarrow> err option \<times> 'w" where
  "realtime_SendAudio write w a rate ch = realtime_send write w (realtime_audio a)"

text \<open>An incoming event; the other fields count for their types only.\<close>

record api_event =
  ae_type :: string
  ae_transcript :: "string option"
  ae_delta :: "string option"

definition api_event_fields :: "(string \<times> api_event setter) list" where
  "api_event_fields =
     [(''type'', set_string (\<lambda>x. ae_type_update (\<lambda>_. x))), (''event_id'', typed_string),
      (''session'', json_into [(''model'', typed_string)]),
      (''transcript'', set_string_ptr (\<lambda>x. ae_transcript_update (\<lambda>_. x))),
      (''delta'', set_string_ptr (\<lambda>x. ae_delta_update (\<lambda>_. x))),
      (''item'', json_into [(''content'', typed_list (json_into
         [(''type'', typed_string), (''text'', typed_string), (''audio'', typed_string)]))])]"

text \<open>The frame an incoming message is an event for; \<open>None\<close> in the argument is a text that is no JSON.\<close>

definition event_frame :: "any option \<Rightarrow> body option" where
  "event_frame m =
     (case (case m of None \<Rightarrow> None
            | Some v \<Rightarrow> json_into api_event_fields v \<lparr>ae_type = [], ae_transcript = None, ae_delta = None\<rparr>) of
        None \<Rightarrow> None
      | Some ev \<Rightarrow>
          if ae_type ev = ''response.audio_transcript.done''
          then (case ae_transcript ev of
                  Some t \<Rightarrow> if t \<noteq> [] then Some (LLMTextFrame (text_of t)) else None
                | None \<Rightarrow> None)
          else if ae_type ev = ''response.audio.delta''
          then (case ae_delta ev of
                  Some d \<Rightarrow> (case DecodeString d of
                      Some a \<Rightarrow> if a \<noteq> [] then Some (fbody (fst (NewTTSAudioRawFrame a 24000 0))) else None
                    | None \<Rightarrow> None)
                | None \<Rightarrow> None)
          else None)"

text \<open>The bytes the API sends as a delta are the bytes of the frame.\<close>

definition speech_delta :: "byte list \<Rightarrow> any" where
  "speech_delta a = AObj [(''type'', AStr ''response.audio.delta''), (''delta'', AStr (EncodeToString a))]"

lemma speech_delta_frame:
  "a \<noteq> [] \<Longrightarrow> event_frame (Some (speech_delta a)) = Some (TTSAudioRawFrame (audio_of a 24000 1 (int (length a div 2))) [])"
  by (simp add: event_frame_def speech_delta_def api_event_fields_def json_simps set_string_ptr_def NewTTSAudioRawFrame_def)

section \<open>The session\<close>

datatype rt_reader = RtReading | RtOffering body | RtGone

text \<open>\<^verbatim>\<open>Close\<close> signals, closes the socket and then the channel of events.\<close>

datatype rt_phase = RtOpen | RtSignalled | RtSocketClosed | RtShut

record rt_session =
  rn_net :: "any option list"
  rn_read :: "any option list"
  rn_reader :: rt_reader
  rn_events :: "body list"
  rn_taken :: "body list"
  rn_phase :: rt_phase
  rn_panic :: bool

definition begin_shut :: "rt_phase \<Rightarrow> rt_phase" where
  "begin_shut p = (if p = RtOpen then RtSignalled else p)"

definition new_rt_session :: "any option list \<Rightarrow> rt_session" where
  "new_rt_session net = \<lparr>rn_net = net, rn_read = [], rn_reader = RtReading, rn_events = [], rn_taken = [],
     rn_phase = RtOpen, rn_panic = False\<rparr>"

inductive rt_step :: "rt_session \<Rightarrow> rt_session \<Rightarrow> bool" where
  rt_skip: "\<lbrakk>rn_reader s = RtReading; rn_net s = m # r; rn_phase s = RtOpen \<or> rn_phase s = RtSignalled;
      event_frame m = None\<rbrakk> \<Longrightarrow>
    rt_step s (s\<lparr>rn_net := r, rn_read := rn_read s @ [m]\<rparr>)"
| rt_read: "\<lbrakk>rn_reader s = RtReading; rn_net s = m # r; rn_phase s = RtOpen \<or> rn_phase s = RtSignalled;
      event_frame m = Some b\<rbrakk> \<Longrightarrow>
    rt_step s (s\<lparr>rn_net := r, rn_read := rn_read s @ [m], rn_reader := RtOffering b\<rparr>)"
| rt_read_fails: "rn_reader s = RtReading \<Longrightarrow>
    rt_step s (s\<lparr>rn_reader := RtGone, rn_phase := begin_shut (rn_phase s)\<rparr>)"
| rt_emit: "\<lbrakk>rn_reader s = RtOffering b; rn_phase s \<noteq> RtShut; length (rn_events s) < 128\<rbrakk> \<Longrightarrow>
    rt_step s (s\<lparr>rn_events := rn_events s @ [b], rn_reader := RtReading\<rparr>)"
| rt_drop: "\<lbrakk>rn_reader s = RtOffering b; rn_phase s \<noteq> RtOpen\<rbrakk> \<Longrightarrow> rt_step s (s\<lparr>rn_reader := RtReading\<rparr>)"
| rt_emit_panics: "\<lbrakk>rn_reader s = RtOffering b; rn_phase s = RtShut\<rbrakk> \<Longrightarrow> rt_step s (s\<lparr>rn_panic := True\<rparr>)"
| rt_close: "rt_step s (s\<lparr>rn_phase := begin_shut (rn_phase s)\<rparr>)"
| rt_close_socket: "rn_phase s = RtSignalled \<Longrightarrow> rt_step s (s\<lparr>rn_phase := RtSocketClosed\<rparr>)"
| rt_close_events: "rn_phase s = RtSocketClosed \<Longrightarrow> rt_step s (s\<lparr>rn_phase := RtShut\<rparr>)"
| rt_take: "rn_events s = b # r \<Longrightarrow> rt_step s (s\<lparr>rn_events := r, rn_taken := rn_taken s @ [b]\<rparr>)"

abbreviation rt_runs :: "rt_session \<Rightarrow> rt_session \<Rightarrow> bool" where
  "rt_runs \<equiv> rt_step\<^sup>*\<^sup>*"

definition event_frames :: "any option list \<Rightarrow> body list" where
  "event_frames ms = List.map_filter event_frame ms"

definition held :: "rt_reader \<Rightarrow> body list" where
  "held r = (case r of RtOffering b \<Rightarrow> [b] | _ \<Rightarrow> [])"

lemma event_frames_simps [simp]:
  "event_frames [] = []" "event_frames (xs @ ys) = event_frames xs @ event_frames ys"
  "event_frames (m # ms) = (case event_frame m of None \<Rightarrow> [] | Some b \<Rightarrow> [b]) @ event_frames ms"
  "held RtReading = []" "held (RtOffering b) = [b]" "held RtGone = []"
  by (simp_all add: event_frames_def map_filter_def held_def split: option.splits)

definition rt_ok :: "any option list \<Rightarrow> rt_session \<Rightarrow> bool" where
  "rt_ok net s \<longleftrightarrow> rn_read s @ rn_net s = net \<and> length (rn_events s) \<le> 128 \<and>
     subseq (rn_taken s @ rn_events s @ held (rn_reader s)) (event_frames (rn_read s)) \<and>
     (rn_phase s = RtOpen \<longrightarrow>
        rn_taken s @ rn_events s @ held (rn_reader s) = event_frames (rn_read s) \<and> rn_reader s \<noteq> RtGone) \<and>
     (rn_panic s \<longrightarrow> rn_phase s = RtShut)"

lemma begin_shut_simps [simp]:
  "begin_shut p \<noteq> RtOpen" "begin_shut RtShut = RtShut"
  by (simp_all add: begin_shut_def)

lemma subseq_drop_last: "subseq (xs @ [x]) ys \<Longrightarrow> subseq xs ys"
  by (meson subseq_order.trans list_emb_append2 subseq_order.refl subseq_rev_drop_many prefixI prefix_imp_subseq)

lemma rt_step_ok: "rt_step s s' \<Longrightarrow> rt_ok net s \<Longrightarrow> rt_ok net s'"
proof (induction rule: rt_step.induct)
  case (rt_read s m r b)
  then show ?case
    using list_emb_append_mono [of "(=)" "rn_taken s @ rn_events s" "event_frames (rn_read s)" "[b]" "[b]"]
    by (auto simp: rt_ok_def)
next
  case (rt_drop s b)
  then show ?case
    using subseq_drop_last [of "rn_taken s @ rn_events s" b] by (auto simp: rt_ok_def)
qed (auto simp: rt_ok_def begin_shut_def split: if_splits)

lemma rt_runs_ok: "rt_runs s s' \<Longrightarrow> rt_ok net s \<Longrightarrow> rt_ok net s'"
  by (induction rule: rtranclp_induct) (auto dest: rt_step_ok)

section \<open>Properties\<close>

text \<open>C25: a realtime session hands on what the API says in its order, and all of it while it is open: under any
  interleaving of the API, the reader, the listener and closing, the events taken, waiting and offered are those of
  the messages read, in order, with nothing lost until the session is closed and nothing ever repeated; at
  most 128 wait.\<close>

theorem realtime_events_in_order:
  assumes "rt_runs (new_rt_session net) s"
  shows "subseq (rn_taken s @ rn_events s) (event_frames net) \<and> length (rn_events s) \<le> 128 \<and>
    (rn_phase s = RtOpen \<longrightarrow> rn_taken s @ rn_events s @ held (rn_reader s) = event_frames (rn_read s))"
proof -
  have "rt_ok net (new_rt_session net)" by (simp add: rt_ok_def new_rt_session_def)
  from rt_runs_ok [OF assms this] have ok: "rt_ok net s" .
  then have "subseq (rn_taken s @ rn_events s) (event_frames (rn_read s))"
    by (cases "rn_reader s") (auto simp: rt_ok_def dest: subseq_drop_last [where xs = "rn_taken s @ rn_events s", simplified])
  moreover have "subseq (event_frames (rn_read s)) (event_frames net)"
    using ok by (metis rt_ok_def event_frames_simps(2) prefixI prefix_imp_subseq)
  ultimately show ?thesis using ok by (auto simp: rt_ok_def intro: subseq_order.trans)
qed

text \<open>One delta that is read and emitted.\<close>

definition one_delta :: rt_session where
  "one_delta = (new_rt_session [Some (speech_delta [1, 2])])\<lparr>rn_net := [], rn_read := [Some (speech_delta [1, 2])],
     rn_reader := RtOffering (TTSAudioRawFrame (audio_of [1, 2] 24000 1 1) [])\<rparr>"

lemma one_delta_read: "rt_runs (new_rt_session [Some (speech_delta [1, 2])]) one_delta"
  using rt_read [of "new_rt_session [Some (speech_delta [1, 2])]" "Some (speech_delta [1, 2])" "[]"]
  by (simp add: one_delta_def new_rt_session_def speech_delta_frame r_into_rtranclp)

theorem realtime_events_in_order_witness:
  "subseq [TTSAudioRawFrame (audio_of [1, 2] 24000 1 1) []] (event_frames [Some (speech_delta [1, 2])])"
proof -
  let ?b = "TTSAudioRawFrame (audio_of [1, 2] 24000 1 1) []"
  have "rt_step one_delta (one_delta\<lparr>rn_events := [?b], rn_reader := RtReading\<rparr>)"
    using rt_emit [of one_delta ?b] by (simp add: one_delta_def new_rt_session_def)
  with one_delta_read have "rt_runs (new_rt_session [Some (speech_delta [1, 2])]) (one_delta\<lparr>rn_events := [?b], rn_reader := RtReading\<rparr>)"
    by (rule rtranclp.rtrancl_into_rtrancl)
  from realtime_events_in_order [OF this] show ?thesis by (simp add: one_delta_def new_rt_session_def)
qed

text \<open>a session of the realtime service built from the chat services that is opened with a model loses the
  key the service was given: its requests carry the key of the environment, whatever the key was.\<close>

theorem realtime_model_loses_key:
  "os_client (rh_llm (shim_NewSession e (NewOpenAIRealtime e apiKey model) m)) =
     \<lparr>oc_base = ''https://api.openai.com/v1'', oc_key = (if m = [] then key_or e ''OPENAI_API_KEY'' apiKey else e ''OPENAI_API_KEY'')\<rparr>"
  by (simp add: shim_NewSession_def NewOpenAIRealtime_def openai_NewService_def key_or_def GetEnv_def)

text \<open>Closing races with the reader: the channel it offers to is closed while it holds an event.\<close>

lemma realtime_close_panics: "\<exists>s. rt_runs (new_rt_session [Some (speech_delta [1, 2])]) s \<and> rn_panic s"
proof -
  let ?s1 = one_delta
  let ?b = "TTSAudioRawFrame (audio_of [1, 2] 24000 1 1) []"
  have "rt_runs (new_rt_session [Some (speech_delta [1, 2])]) ?s1" by (rule one_delta_read)
  moreover have "rt_step ?s1 (?s1\<lparr>rn_phase := RtSignalled\<rparr>)"
    using rt_close [of ?s1] by (simp add: begin_shut_def one_delta_def new_rt_session_def)
  moreover have "rt_step (?s1\<lparr>rn_phase := RtSignalled\<rparr>) (?s1\<lparr>rn_phase := RtSocketClosed\<rparr>)"
    using rt_close_socket [of "?s1\<lparr>rn_phase := RtSignalled\<rparr>"] by simp
  moreover have "rt_step (?s1\<lparr>rn_phase := RtSocketClosed\<rparr>) (?s1\<lparr>rn_phase := RtShut\<rparr>)"
    using rt_close_events [of "?s1\<lparr>rn_phase := RtSocketClosed\<rparr>"] by simp
  moreover have "rt_step (?s1\<lparr>rn_phase := RtShut\<rparr>) (?s1\<lparr>rn_phase := RtShut, rn_panic := True\<rparr>)"
    using rt_emit_panics [of "?s1\<lparr>rn_phase := RtShut\<rparr>" ?b] by (simp add: one_delta_def)
  ultimately have "rt_runs (new_rt_session [Some (speech_delta [1, 2])]) (?s1\<lparr>rn_phase := RtShut, rn_panic := True\<rparr>)"
    by (meson rtranclp.rtrancl_into_rtrancl)
  then show ?thesis by (intro exI [of _ "?s1\<lparr>rn_phase := RtShut, rn_panic := True\<rparr>"]) simp
qed

end
