(* ===== verification/WhatsApp.thy ===== *)
theory WhatsApp
  imports Http Remote Handler
begin

text \<open>
  The WhatsApp transport, \<^verbatim>\<open>pkg/transport/whatsapp\<close>: the client that sends messages, the webhook that receives
  them, and the transport between them as interleaved steps of webhook handlers, pipeline, output loop and closing.
  HMAC-SHA256 in hexadecimal is the parameter \<open>mac\<close>, and \<open>parse\<close> gives the first JSON value of a text.
\<close>

section \<open>The client\<close>

record wa_client =
  wc_token :: string
  wc_phone :: string

definition wa_text_request :: "wa_client \<Rightarrow> string \<Rightarrow> string \<Rightarrow> out_request" where
  "wa_text_request c to s =
     \<lparr>or_url = ''https://graph.facebook.com/v18.0/'' @ wc_phone c @ ''/messages'',
      or_headers = [(''Authorization'', ''Bearer '' @ wc_token c), (''Content-Type'', ''application/json'')],
      or_body = SendJson (AObj
        [(''messaging_product'', AStr ''whatsapp''), (''recipient_type'', AStr ''individual''), (''to'', AStr to),
         (''type'', AStr ''text''), (''text'', AObj [(''body'', AStr s)])])\<rparr>"

definition wa_SendText :: "'w http_api \<Rightarrow> wa_client \<Rightarrow> 'w \<Rightarrow> string \<Rightarrow> string \<Rightarrow> err option \<times> 'w" where
  "wa_SendText http c w to s =
     (case http w (wa_text_request c to s) of
        (Inl e, w') \<Rightarrow> (Some e, w')
      | (Inr r, w') \<Rightarrow> (if ir_status r \<noteq> 200 then Some (''whatsapp api: '' @ ir_line r) else None, w'))"

section \<open>The webhook\<close>

record wa_message =
  wm_from :: string
  wm_time :: string
  wm_text :: "string option"

definition no_message :: wa_message where
  "no_message = \<lparr>wm_from = [], wm_time = [], wm_text = None\<rparr>"

text \<open>The pointer to a struct with a body.\<close>

definition set_body :: "wa_message setter" where
  "set_body v m =
     (case v of
        ANil \<Rightarrow> Some (m\<lparr>wm_text := None\<rparr>)
      | _ \<Rightarrow> map_option (\<lambda>b. m\<lparr>wm_text := Some b\<rparr>)
          (json_into [(''body'', set_string (\<lambda>x _. x))] v (case wm_text m of None \<Rightarrow> [] | Some b \<Rightarrow> b)))"

definition message_fields :: "(string \<times> wa_message setter) list" where
  "message_fields =
     [(''from'', set_string (\<lambda>x. wm_from_update (\<lambda>_. x))), (''id'', typed_string),
      (''timestamp'', set_string (\<lambda>x. wm_time_update (\<lambda>_. x))), (''type'', typed_string),
      (''text'', set_body), (''audio'', json_into [(''id'', typed_string)])]"

text \<open>A change is its messages, an entry its changes, a payload its object and its entries.\<close>

definition change_fields :: "(string \<times> wa_message list setter) list" where
  "change_fields =
     [(''value'', json_into [(''messages'', set_structs no_message (json_into message_fields) (\<lambda>x _. x))])]"

definition entry_fields :: "(string \<times> wa_message list list setter) list" where
  "entry_fields =
     [(''id'', typed_string), (''changes'', set_structs [] (json_into change_fields) (\<lambda>x _. x))]"

definition payload_fields :: "(string \<times> (string \<times> wa_message list list list) setter) list" where
  "payload_fields =
     [(''object'', set_string (\<lambda>x (ob, e). (x, e))),
      (''entry'', set_structs [] (json_into entry_fields) (\<lambda>x (ob, e). (ob, x)))]"

definition MaxWebhookBodyBytes :: nat where
  "MaxWebhookBodyBytes = 256 * 1024"

definition forbidden :: api_error where
  "forbidden = api_err 403 ''FORBIDDEN'' ''Forbidden''"

definition bad_request :: "string \<Rightarrow> api_error" where
  "bad_request msg = api_err 400 ''BAD_REQUEST'' msg"

definition signature_error :: "(byte list \<Rightarrow> string) \<Rightarrow> string \<Rightarrow> byte list \<Rightarrow> string option" where
  "signature_error mac sig body =
     (if \<not> prefix ''sha256='' sig then Some ''Missing or invalid signature''
      else if TrimSpace (drop 7 sig) \<noteq> mac body then Some ''Invalid signature''
      else None)"

text \<open>An answer without messages to handle, or the messages in their order; after them the answer is 200.\<close>

datatype webhook_result = Answered "response \<times> nat" | Messages "wa_message list"

definition HandleWebhook ::
  "(nat \<Rightarrow> string) \<Rightarrow> nat \<Rightarrow> (string \<Rightarrow> byte list \<Rightarrow> string) \<Rightarrow> json_parser \<Rightarrow> string \<Rightarrow> string \<Rightarrow> request \<Rightarrow> err + byte list
     \<Rightarrow> webhook_result" where
  "HandleWebhook uuid n mac parse verifyToken appSecret r content =
     (let fail = (\<lambda>e. Answered (RespondError uuid n [] r e)) in
      if re_method r = ''GET''
      then (if re_query r ''hub.mode'' = ''subscribe'' \<and> re_query r ''hub.verify_token'' = verifyToken
            then Answered (\<lparr>rs_status = 200, rs_headers = [], rs_body = RawBody (re_query r ''hub.challenge'')\<rparr>, n)
            else fail forbidden)
      else if re_method r \<noteq> ''POST'' then fail method_not_allowed
      else case content of
        Inl e \<Rightarrow> fail (bad_request ''Failed to read body'')
      | Inr bs \<Rightarrow>
          (let body = take MaxWebhookBodyBytes bs;
               sig = (if appSecret \<noteq> []
                      then signature_error (mac appSecret) (re_header r ''X-Hub-Signature-256'') body else None)
           in case sig of
                Some msg \<Rightarrow> fail (api_err 401 ''UNAUTHORIZED'' msg)
              | None \<Rightarrow>
                  (case (case parse body of None \<Rightarrow> None | Some v \<Rightarrow> json_into payload_fields v ([], [])) of
                     None \<Rightarrow> fail (bad_request ''Invalid JSON payload'')
                   | Some (ob, es) \<Rightarrow>
                       if ob \<noteq> ''whatsapp_business_account''
                       then Answered (\<lparr>rs_status = 200, rs_headers = [], rs_body = NoBody\<rparr>, n)
                       else Messages (concat (concat es)))))"

lemma signed_messages:
  assumes "HandleWebhook uuid n mac parse verify secret r content = Messages ms" "secret \<noteq> []"
  shows "\<exists>bs sig. content = Inr bs \<and> re_header r ''X-Hub-Signature-256'' = ''sha256='' @ sig \<and>
    TrimSpace sig = mac secret (take MaxWebhookBodyBytes bs)"
  using assms
  by (auto simp: HandleWebhook_def Let_def signature_error_def prefix_def split: if_splits sum.splits option.splits)

section \<open>The transport\<close>

text \<open>A webhook handler: the messages it has before it, and the frame it offers to the input channel.\<close>

record wa_handler =
  wh_todo :: "wa_message list"
  wh_offer :: "body option"

datatype wa_phase = WaOpen | WaSignalled | WaInClosed | WaOutClosed

text \<open>\<open>wa_senders\<close> are the senders of the messages handled, \<open>wa_heard\<close> what the pipeline took, \<open>wa_sent\<close> the
  messages the output loop sent: a recipient and a text.\<close>

record wa_transport =
  wa_to :: string
  wa_handlers :: "wa_handler list"
  wa_in :: "body list"
  wa_heard :: "body list"
  wa_out :: "body list"
  wa_senders :: "string list"
  wa_sent :: "(string \<times> string) list"
  wa_phase :: wa_phase
  wa_loop :: bool
  wa_panic :: bool

definition wa_NewTransport :: wa_transport where
  "wa_NewTransport = \<lparr>wa_to = [], wa_handlers = [], wa_in = [], wa_heard = [], wa_out = [], wa_senders = [],
     wa_sent = [], wa_phase = WaOpen, wa_loop = True, wa_panic = False\<rparr>"

text \<open>What the output loop sends for a frame.\<close>

definition reply_text :: "body \<Rightarrow> string option" where
  "reply_text b = (case b of TextFrame t \<Rightarrow> Some (tdata t) | LLMTextFrame t \<Rightarrow> Some (tdata t) | _ \<Rightarrow> None)"

definition wa_frame :: "wa_message \<Rightarrow> body option" where
  "wa_frame m =
     map_option (\<lambda>s. fbody (fst (NewTranscriptionFrame s (wm_from m) (wm_time m) True 0))) (wm_text m)"

inductive wa_step :: "wa_transport \<Rightarrow> wa_transport \<Rightarrow> bool" where
  webhook: "wa_step t (t\<lparr>wa_handlers := wa_handlers t @ [\<lparr>wh_todo = ms, wh_offer = None\<rparr>]\<rparr>)"
| handle: "\<lbrakk>i < length (wa_handlers t); wa_handlers t ! i = \<lparr>wh_todo = m # ms, wh_offer = None\<rparr>\<rbrakk> \<Longrightarrow>
    wa_step t (t\<lparr>wa_to := (if wa_to t = [] then wm_from m else wa_to t),
      wa_senders := wa_senders t @ [wm_from m],
      wa_handlers := (wa_handlers t)[i := \<lparr>wh_todo = ms, wh_offer = wa_frame m\<rparr>]\<rparr>)"
| offer: "\<lbrakk>i < length (wa_handlers t); wa_handlers t ! i = \<lparr>wh_todo = ms, wh_offer = Some b\<rparr>;
      wa_phase t = WaOpen \<or> wa_phase t = WaSignalled; length (wa_in t) < 64\<rbrakk> \<Longrightarrow>
    wa_step t (t\<lparr>wa_in := wa_in t @ [b], wa_handlers := (wa_handlers t)[i := \<lparr>wh_todo = ms, wh_offer = None\<rparr>]\<rparr>)"
| offer_quits: "\<lbrakk>i < length (wa_handlers t); wa_handlers t ! i = \<lparr>wh_todo = ms, wh_offer = Some b\<rparr>; wa_phase t \<noteq> WaOpen\<rbrakk> \<Longrightarrow>
    wa_step t (t\<lparr>wa_handlers := (wa_handlers t)[i := \<lparr>wh_todo = [], wh_offer = None\<rparr>]\<rparr>)"
| offer_panics: "\<lbrakk>i < length (wa_handlers t); wa_handlers t ! i = \<lparr>wh_todo = ms, wh_offer = Some b\<rparr>;
      wa_phase t = WaInClosed \<or> wa_phase t = WaOutClosed\<rbrakk> \<Longrightarrow>
    wa_step t (t\<lparr>wa_panic := True\<rparr>)"
| hear: "wa_in t = b # r \<Longrightarrow> wa_step t (t\<lparr>wa_in := r, wa_heard := wa_heard t @ [b]\<rparr>)"
| put: "\<lbrakk>wa_phase t \<noteq> WaOutClosed; length (wa_out t) < 64\<rbrakk> \<Longrightarrow> wa_step t (t\<lparr>wa_out := wa_out t @ [b]\<rparr>)"
| put_panics: "wa_phase t = WaOutClosed \<Longrightarrow> wa_step t (t\<lparr>wa_panic := True\<rparr>)"
| send: "\<lbrakk>wa_loop t; wa_out t = b # r\<rbrakk> \<Longrightarrow>
    wa_step t (t\<lparr>wa_out := r, wa_sent := wa_sent t @
      (if wa_to t = [] then [] else case reply_text b of None \<Rightarrow> [] | Some s \<Rightarrow> [(wa_to t, s)])\<rparr>)"
| loop_quits: "wa_step t (t\<lparr>wa_loop := False\<rparr>)"
| close_signal: "wa_phase t = WaOpen \<Longrightarrow> wa_step t (t\<lparr>wa_phase := WaSignalled\<rparr>)"
| close_in: "wa_phase t = WaSignalled \<Longrightarrow> wa_step t (t\<lparr>wa_phase := WaInClosed\<rparr>)"
| close_out: "wa_phase t = WaInClosed \<Longrightarrow> wa_step t (t\<lparr>wa_phase := WaOutClosed\<rparr>)"

abbreviation wa_runs :: "wa_transport \<Rightarrow> wa_transport \<Rightarrow> bool" where
  "wa_runs \<equiv> wa_step\<^sup>*\<^sup>*"

text \<open>The first sender who gave a number.\<close>

definition first_sender :: "string list \<Rightarrow> string" where
  "first_sender fs = (case filter (\<lambda>x. x \<noteq> []) fs of [] \<Rightarrow> [] | x # _ \<Rightarrow> x)"

lemma first_sender_Nil [simp]: "first_sender [] = []"
  by (simp add: first_sender_def)

lemma first_sender_snoc [simp]:
  "first_sender (fs @ [x]) = (if first_sender fs = [] then x else first_sender fs)"
proof (cases "filter (\<lambda>x. x \<noteq> []) fs")
  case (Cons y ys)
  have "y \<in> set (filter (\<lambda>x. x \<noteq> []) fs)" unfolding Cons by simp
  then have "y \<noteq> []" unfolding set_filter by blast
  then show ?thesis using Cons by (simp add: first_sender_def)
qed (simp add: first_sender_def)

definition wa_ok :: "wa_transport \<Rightarrow> bool" where
  "wa_ok t \<longleftrightarrow> wa_to t = first_sender (wa_senders t) \<and>
     (\<forall>p \<in> set (wa_sent t). fst p = wa_to t \<and> wa_to t \<noteq> []) \<and>
     (wa_panic t \<longrightarrow> wa_phase t = WaInClosed \<or> wa_phase t = WaOutClosed)"

lemma wa_step_ok: "wa_step t t' \<Longrightarrow> wa_ok t \<Longrightarrow> wa_ok t'"
  by (induction rule: wa_step.induct) (auto simp: wa_ok_def split: option.splits)

lemma wa_runs_ok: "wa_runs t t' \<Longrightarrow> wa_ok t \<Longrightarrow> wa_ok t'"
  by (induction rule: rtranclp_induct) (auto dest: wa_step_ok)

section \<open>Properties\<close>

text \<open>whoever writes, the replies go to the first sender: under any interleaving of webhooks, the pipeline and
  the output loop, every message the transport sends has the same recipient, the first who wrote to it, although
  the texts of all senders reach the same pipeline.\<close>

theorem whatsapp_replies_to_first_sender:
  assumes "wa_runs wa_NewTransport t"
  shows "\<forall>p \<in> set (wa_sent t). fst p = first_sender (wa_senders t)"
  using wa_runs_ok [OF assms] by (auto simp: wa_ok_def wa_NewTransport_def)

lemma wa_two_senders:
  "wa_runs wa_NewTransport
     (wa_NewTransport\<lparr>wa_to := ''alice'', wa_handlers := [\<lparr>wh_todo = [], wh_offer = None\<rparr>],
        wa_senders := [''alice'', ''bob''], wa_sent := [(''alice'', ''hi bob'')]\<rparr>)"
proof -
  let ?m = "\<lambda>x. \<lparr>wm_from = x, wm_time = [], wm_text = None\<rparr>"
  let ?b = "TextFrame (text_of ''hi bob'')"
  let ?h = "\<lambda>ms. [\<lparr>wh_todo = ms, wh_offer = None\<rparr>]"
  let ?t1 = "wa_NewTransport\<lparr>wa_handlers := ?h [?m ''alice'', ?m ''bob'']\<rparr>"
  let ?t2 = "?t1\<lparr>wa_to := ''alice'', wa_senders := [''alice''], wa_handlers := ?h [?m ''bob'']\<rparr>"
  let ?t3 = "?t2\<lparr>wa_senders := [''alice'', ''bob''], wa_handlers := ?h []\<rparr>"
  let ?t4 = "?t3\<lparr>wa_out := [?b]\<rparr>"
  have "wa_step wa_NewTransport ?t1"
    using webhook [of wa_NewTransport "[?m ''alice'', ?m ''bob'']"] by (simp add: wa_NewTransport_def)
  moreover have "wa_step ?t1 ?t2"
    using handle [of 0 ?t1 "?m ''alice''" "[?m ''bob'']"] by (simp add: wa_NewTransport_def wa_frame_def)
  moreover have "wa_step ?t2 ?t3"
    using handle [of 0 ?t2 "?m ''bob''" "[]"] by (simp add: wa_NewTransport_def wa_frame_def)
  moreover have "wa_step ?t3 ?t4" using put [of ?t3 ?b] by (simp add: wa_NewTransport_def)
  moreover have "wa_step ?t4 (?t4\<lparr>wa_out := [], wa_sent := [(''alice'', ''hi bob'')]\<rparr>)"
    using send [of ?t4 ?b "[]"] by (simp add: wa_NewTransport_def reply_text_def text_of_def)
  ultimately have "wa_runs wa_NewTransport (?t4\<lparr>wa_out := [], wa_sent := [(''alice'', ''hi bob'')]\<rparr>)"
    by (meson rtranclp.rtrancl_into_rtrancl rtranclp.rtrancl_refl)
  then show ?thesis by (simp add: wa_NewTransport_def)
qed

theorem whatsapp_replies_to_first_sender_witness:
  "\<forall>p \<in> set [(''alice'', ''hi bob'')]. fst p = first_sender [''alice'', ''bob'']"
  using whatsapp_replies_to_first_sender [OF wa_two_senders] by simp

end
