(* ===== verification/Mixers.thy ===== *)
theory Mixers
  imports VoxPrelude "HOL-Library.Sublist"
begin

text \<open>
  The routing mixer, \<^verbatim>\<open>pkg/audio/mixers/mixers.go\<close>: streams over bounded channels that drop what does not fit, and
  the mixer with one forwarding goroutine per input, as interleaved steps. A frame is of any type. A stream is
  referred to by its number, as the same stream may be added under several names.
\<close>

section \<open>Streams\<close>

text \<open>\<open>sm_got\<close> is history: what the stream accepted.\<close>

record 'f simple_stream =
  sm_buf :: "'f list"
  sm_cap :: nat
  sm_closed :: bool
  sm_got :: "'f list"

definition newSimpleStream :: "int \<Rightarrow> 'f simple_stream" where
  "newSimpleStream buffer =
     \<lparr>sm_buf = [], sm_cap = (if buffer \<le> 0 then 64 else nat buffer), sm_closed = False, sm_got = []\<rparr>"

text \<open>\<open>None\<close>: it blocks. A closed stream gives what it holds and then the end of file.\<close>

definition Read :: "'f simple_stream \<Rightarrow> ('f option \<times> 'f simple_stream) option" where
  "Read s =
     (case sm_buf s of
        f # r \<Rightarrow> Some (Some f, s\<lparr>sm_buf := r\<rparr>)
      | [] \<Rightarrow> if sm_closed s then Some (None, s) else None)"

text \<open>\<open>None\<close>: it panics, as a select with a default still sends to a closed channel.\<close>

definition Write :: "'f \<Rightarrow> 'f simple_stream \<Rightarrow> 'f simple_stream option" where
  "Write f s =
     (if sm_closed s then None
      else if length (sm_buf s) < sm_cap s then Some (s\<lparr>sm_buf := sm_buf s @ [f], sm_got := sm_got s @ [f]\<rparr>)
      else Some s)"

definition CloseStream :: "'f simple_stream \<Rightarrow> 'f simple_stream" where
  "CloseStream s = s\<lparr>sm_closed := True\<rparr>"

section \<open>The mixer\<close>

text \<open>A forwarder looks at the close signal, reads, and writes.\<close>

datatype 'f fwd = Looking | InRead | InWrite 'f | Stopped

text \<open>The frames of the output carry the number of the forwarder they came through, which the code does not
  keep. \<open>mx_fwds\<close> holds each forwarder with the number of its stream.\<close>

record 'f mixer =
  mx_inputs :: "string \<rightharpoonup> nat"
  mx_streams :: "'f simple_stream list"
  mx_fwds :: "(nat \<times> 'f fwd) list"
  mx_output :: "(nat \<times> 'f) simple_stream"
  mx_closed :: bool
  mx_heard :: "(nat \<times> 'f) list"
  mx_panic :: bool

definition NewSimpleMixer :: "'f simple_stream list \<Rightarrow> 'f mixer" where
  "NewSimpleMixer streams =
     \<lparr>mx_inputs = Map.empty, mx_streams = streams, mx_fwds = [], mx_output = newSimpleStream 128, mx_closed = False,
      mx_heard = [], mx_panic = False\<rparr>"

definition AddInput :: "string \<Rightarrow> nat \<Rightarrow> 'f mixer \<Rightarrow> 'f mixer" where
  "AddInput i s m =
     (if mx_closed m \<or> mx_inputs m i \<noteq> None then m
      else m\<lparr>mx_inputs := (mx_inputs m)(i \<mapsto> s), mx_fwds := mx_fwds m @ [(s, Looking)]\<rparr>)"

definition close_streams :: "nat set \<Rightarrow> 'f simple_stream list \<Rightarrow> 'f simple_stream list" where
  "close_streams ns ss = map (\<lambda>k. if k \<in> ns then CloseStream (ss ! k) else ss ! k) [0..<length ss]"

definition RemoveInput :: "string \<Rightarrow> 'f mixer \<Rightarrow> 'f mixer" where
  "RemoveInput i m =
     (case mx_inputs m i of
        None \<Rightarrow> m
      | Some s \<Rightarrow> m\<lparr>mx_inputs := (mx_inputs m)(i := None), mx_streams := close_streams {s} (mx_streams m)\<rparr>)"

text \<open>What \<^verbatim>\<open>Close\<close> does under the lock; the output is closed after it.\<close>

definition close_inputs :: "'f mixer \<Rightarrow> 'f mixer" where
  "close_inputs m =
     (if mx_closed m then m
      else m\<lparr>mx_closed := True, mx_streams := close_streams (ran (mx_inputs m)) (mx_streams m), mx_inputs := Map.empty\<rparr>)"

definition close_output :: "'f mixer \<Rightarrow> 'f mixer" where
  "close_output m = m\<lparr>mx_output := CloseStream (mx_output m)\<rparr>"

inductive mx_step :: "'f mixer \<Rightarrow> 'f mixer \<Rightarrow> bool" where
  mx_add: "s < length (mx_streams m) \<Longrightarrow> mx_step m (AddInput i s m)"
| mx_remove: "mx_step m (RemoveInput i m)"
| mx_close: "mx_step m (close_inputs m)"
| mx_close_output: "mx_closed m \<Longrightarrow> mx_step m (close_output m)"
| mx_feed: "\<lbrakk>s < length (mx_streams m); Write f (mx_streams m ! s) = Some st\<rbrakk> \<Longrightarrow>
    mx_step m (m\<lparr>mx_streams := (mx_streams m)[s := st]\<rparr>)"
| mx_feed_panics: "\<lbrakk>s < length (mx_streams m); Write f (mx_streams m ! s) = None\<rbrakk> \<Longrightarrow> mx_step m (m\<lparr>mx_panic := True\<rparr>)"
| mx_look: "\<lbrakk>k < length (mx_fwds m); mx_fwds m ! k = (s, Looking); \<not> mx_closed m\<rbrakk> \<Longrightarrow>
    mx_step m (m\<lparr>mx_fwds := (mx_fwds m)[k := (s, InRead)]\<rparr>)"
| mx_look_closed: "\<lbrakk>k < length (mx_fwds m); mx_fwds m ! k = (s, Looking); mx_closed m\<rbrakk> \<Longrightarrow>
    mx_step m (m\<lparr>mx_fwds := (mx_fwds m)[k := (s, Stopped)]\<rparr>)"
| mx_read: "\<lbrakk>k < length (mx_fwds m); mx_fwds m ! k = (s, InRead); Read (mx_streams m ! s) = Some (Some f, st)\<rbrakk> \<Longrightarrow>
    mx_step m (m\<lparr>mx_fwds := (mx_fwds m)[k := (s, InWrite f)], mx_streams := (mx_streams m)[s := st]\<rparr>)"
| mx_read_end: "\<lbrakk>k < length (mx_fwds m); mx_fwds m ! k = (s, InRead); Read (mx_streams m ! s) = Some (None, st)\<rbrakk> \<Longrightarrow>
    mx_step m (m\<lparr>mx_fwds := (mx_fwds m)[k := (s, Stopped)]\<rparr>)"
| mx_write: "\<lbrakk>k < length (mx_fwds m); mx_fwds m ! k = (s, InWrite f); Write (k, f) (mx_output m) = Some out\<rbrakk> \<Longrightarrow>
    mx_step m (m\<lparr>mx_fwds := (mx_fwds m)[k := (s, Looking)], mx_output := out\<rparr>)"
| mx_write_panics: "\<lbrakk>k < length (mx_fwds m); mx_fwds m ! k = (s, InWrite f); Write (k, f) (mx_output m) = None\<rbrakk> \<Longrightarrow>
    mx_step m (m\<lparr>mx_panic := True\<rparr>)"
| mx_hear: "Read (mx_output m) = Some (Some kf, out) \<Longrightarrow>
    mx_step m (m\<lparr>mx_output := out, mx_heard := mx_heard m @ [kf]\<rparr>)"

abbreviation mx_runs :: "'f mixer \<Rightarrow> 'f mixer \<Rightarrow> bool" where
  "mx_runs \<equiv> mx_step\<^sup>*\<^sup>*"

section \<open>Order\<close>

text \<open>What came through a forwarder, what it holds, and what its stream has given out.\<close>

definition through :: "nat \<Rightarrow> (nat \<times> 'f) list \<Rightarrow> 'f list" where
  "through k kfs = map snd (filter (\<lambda>kf. fst kf = k) kfs)"

definition in_hand :: "'f fwd \<Rightarrow> 'f list" where
  "in_hand w = (case w of InWrite f \<Rightarrow> [f] | _ \<Rightarrow> [])"

definition given_out :: "'f simple_stream \<Rightarrow> 'f list" where
  "given_out s = take (length (sm_got s) - length (sm_buf s)) (sm_got s)"

definition stream_ok :: "'f simple_stream \<Rightarrow> bool" where
  "stream_ok s \<longleftrightarrow> (\<exists>xs. sm_got s = xs @ sm_buf s) \<and> length (sm_buf s) \<le> sm_cap s"

definition fwd_ok :: "'f mixer \<Rightarrow> nat \<Rightarrow> bool" where
  "fwd_ok m k \<longleftrightarrow> fst (mx_fwds m ! k) < length (mx_streams m) \<and>
     subseq (through k (sm_got (mx_output m)) @ in_hand (snd (mx_fwds m ! k)))
       (given_out (mx_streams m ! fst (mx_fwds m ! k)))"

definition mx_ok :: "'f mixer \<Rightarrow> bool" where
  "mx_ok m \<longleftrightarrow> stream_ok (mx_output m) \<and> sm_cap (mx_output m) = 128 \<and>
     list_all stream_ok (mx_streams m) \<and>
     mx_heard m @ sm_buf (mx_output m) = sm_got (mx_output m) \<and>
     (\<forall>k < length (mx_fwds m). fwd_ok m k) \<and>
     list_all (\<lambda>kf. fst kf < length (mx_fwds m)) (sm_got (mx_output m))"

lemma through_simps [simp]:
  "through k [] = []" "through k (xs @ ys) = through k xs @ through k ys"
  "through k [(j, f)] = (if j = k then [f] else [])"
  by (simp_all add: through_def)

lemma in_hand_simps [simp]:
  "in_hand Looking = []" "in_hand InRead = []" "in_hand (InWrite f) = [f]" "in_hand Stopped = []"
  by (simp_all add: in_hand_def)

lemma given_out_split: "stream_ok s \<Longrightarrow> sm_got s = given_out s @ sm_buf s"
  by (auto simp: stream_ok_def given_out_def)

lemma Read_stream:
  assumes "Read s = Some (Some f, s')" "stream_ok s"
  shows "stream_ok s'" "given_out s' = given_out s @ [f]" "sm_got s' = sm_got s" "sm_cap s' = sm_cap s"
    "sm_buf s = f # sm_buf s'"
  using assms by (auto simp: Read_def stream_ok_def given_out_def split: list.splits if_splits)

lemma Write_stream:
  assumes "Write f s = Some s'" "stream_ok s"
  shows "stream_ok s'" "given_out s' = given_out s" "sm_cap s' = sm_cap s"
    "(sm_got s' = sm_got s @ [f] \<and> sm_buf s' = sm_buf s @ [f]) \<or> s' = s"
  using assms by (auto simp: Write_def stream_ok_def given_out_def split: if_splits)

lemma CloseStream_simps [simp]:
  "stream_ok (CloseStream s) = stream_ok s" "given_out (CloseStream s) = given_out s"
  "sm_got (CloseStream s) = sm_got s" "sm_buf (CloseStream s) = sm_buf s" "sm_cap (CloseStream s) = sm_cap s"
  by (simp_all add: CloseStream_def stream_ok_def given_out_def)

lemma close_streams_simps [simp]:
  "length (close_streams ns ss) = length ss"
  "k < length ss \<Longrightarrow> given_out (close_streams ns ss ! k) = given_out (ss ! k)"
  "list_all stream_ok (close_streams ns ss) = list_all stream_ok ss"
  by (simp_all add: close_streams_def list_all_length)

text \<open>A forwarder keeps its order if its stream gives out no less and the output gets nothing from it, if it has
  just read, and if it has just written.\<close>

lemma fwd_kept:
  assumes "fwd_ok m k" "fst (mx_fwds m' ! k) = fst (mx_fwds m ! k)" "in_hand (snd (mx_fwds m' ! k)) = in_hand (snd (mx_fwds m ! k))"
    "through k (sm_got (mx_output m')) = through k (sm_got (mx_output m))" "length (mx_streams m') = length (mx_streams m)"
    "prefix (given_out (mx_streams m ! fst (mx_fwds m ! k))) (given_out (mx_streams m' ! fst (mx_fwds m ! k)))"
  shows "fwd_ok m' k"
  using assms(1) subseq_order.trans [OF _ prefix_imp_subseq [OF assms(6)]]
  by (simp add: fwd_ok_def assms(2-5))

lemma streams_ok: "list_all stream_ok ss \<Longrightarrow> s < length ss \<Longrightarrow> stream_ok (ss ! s)"
  by (simp add: list_all_length)

lemma streams_update: "list_all stream_ok ss \<Longrightarrow> stream_ok st \<Longrightarrow> list_all stream_ok (ss[s := st])"
  by (auto simp: list_all_iff dest!: set_update_subset_insert [THEN subsetD])

lemma subseq_read: "subseq xs ys \<Longrightarrow> subseq (xs @ [f]) (ys @ [f])"
  by (rule list_emb_append_mono) auto

lemma subseq_init: "subseq (xs @ zs) ys \<Longrightarrow> subseq xs ys"
  by (meson prefixI prefix_imp_subseq subseq_order.trans)

lemma step_output:
  assumes "mx_step m m'" "mx_ok m"
  shows "stream_ok (mx_output m') \<and> sm_cap (mx_output m') = 128 \<and> list_all stream_ok (mx_streams m') \<and>
    mx_heard m' @ sm_buf (mx_output m') = sm_got (mx_output m') \<and>
    list_all (\<lambda>kf. fst kf < length (mx_fwds m')) (sm_got (mx_output m'))"
  using assms
proof (induction rule: mx_step.induct)
  case (mx_add s m i)
  then show ?case by (auto simp: AddInput_def mx_ok_def list_all_iff less_Suc_eq)
next
  case (mx_remove m i)
  then show ?case by (simp add: RemoveInput_def mx_ok_def split: option.split)
next
  case (mx_close m)
  then show ?case by (simp add: close_inputs_def mx_ok_def)
next
  case (mx_close_output m)
  then show ?case by (simp add: close_output_def mx_ok_def)
next
  case (mx_feed s m f st)
  then have "stream_ok st" by (auto simp: mx_ok_def intro: Write_stream(1) streams_ok)
  with mx_feed show ?case by (simp add: mx_ok_def streams_update)
next
  case (mx_read k m s f st)
  then have "s < length (mx_streams m)" by (auto simp: mx_ok_def fwd_ok_def)
  with mx_read have "stream_ok st" by (auto simp: mx_ok_def intro: Read_stream(1) streams_ok)
  with mx_read show ?case by (simp add: mx_ok_def streams_update)
next
  case (mx_write k m s f out)
  then show ?case using Write_stream [OF mx_write(3)] by (auto simp: mx_ok_def)
next
  case (mx_hear m kf out)
  then show ?case using Read_stream [OF mx_hear(1)] by (simp add: mx_ok_def)
qed (simp_all add: mx_ok_def)

lemma step_fwds:
  assumes "mx_step m m'" "mx_ok m" "j < length (mx_fwds m')"
  shows "fwd_ok m' j"
  using assms
proof (induction rule: mx_step.induct)
  case (mx_add s m i)
  show ?case
  proof (cases "mx_closed m \<or> mx_inputs m i \<noteq> None \<or> j < length (mx_fwds m)")
    case True
    then show ?thesis using mx_add by (auto simp: AddInput_def mx_ok_def fwd_ok_def nth_append)
  next
    case False
    then have j: "j = length (mx_fwds m)" using mx_add by (simp add: AddInput_def)
    have "through j (sm_got (mx_output m)) = []"
      using mx_add(2) unfolding j by (auto simp: mx_ok_def through_def list_all_iff filter_empty_conv)
    then show ?thesis using False mx_add by (simp add: AddInput_def fwd_ok_def j)
  qed
next
  case (mx_remove m i)
  then show ?case by (auto simp: RemoveInput_def mx_ok_def fwd_ok_def split: option.splits)
next
  case (mx_close m)
  then show ?case by (auto simp: close_inputs_def mx_ok_def fwd_ok_def)
next
  case (mx_close_output m)
  then show ?case by (simp add: close_output_def mx_ok_def fwd_ok_def)
next
  case (mx_feed s m f st)
  then have "given_out st = given_out (mx_streams m ! s)"
    by (auto simp: mx_ok_def intro: Write_stream(2) streams_ok)
  with mx_feed show ?case by (auto simp: mx_ok_def fwd_ok_def nth_list_update)
next
  case (mx_read k m s f st)
  then have s: "s < length (mx_streams m)" by (auto simp: mx_ok_def fwd_ok_def)
  with mx_read have g: "given_out st = given_out (mx_streams m ! s) @ [f]"
    by (auto simp: mx_ok_def intro: Read_stream(2) streams_ok)
  have ok: "fwd_ok m j" using mx_read by (simp add: mx_ok_def)
  show ?case
  proof (cases "j = k")
    case True
    then show ?thesis using mx_read(1,2) s ok g by (simp add: fwd_ok_def subseq_read)
  next
    case False
    then show ?thesis using ok s g by (intro fwd_kept [OF ok]) (auto simp: nth_list_update)
  qed
next
  case (mx_write k m s f out)
  have ok: "fwd_ok m j" using mx_write by (simp add: mx_ok_def)
  have o: "sm_got out = sm_got (mx_output m) @ [(k, f)] \<or> out = mx_output m"
    using Write_stream(4) [OF mx_write(3)] mx_write by (auto simp: mx_ok_def)
  show ?case
  proof (cases "j = k")
    case True
    then show ?thesis using mx_write(1,2) ok o by (auto simp: fwd_ok_def dest: subseq_init)
  next
    case False
    then show ?thesis using o by (intro fwd_kept [OF ok]) auto
  qed
next
  case (mx_hear m kf out)
  have ok: "fwd_ok m j" using mx_hear by (simp add: mx_ok_def)
  show ?case using Read_stream(3) [OF mx_hear(1)] mx_hear by (intro fwd_kept [OF ok]) (auto simp: mx_ok_def)
qed (auto simp: mx_ok_def fwd_ok_def nth_list_update)

lemma mx_step_ok: "mx_step m m' \<Longrightarrow> mx_ok m \<Longrightarrow> mx_ok m'"
  using step_output [of m m'] step_fwds [of m m'] by (auto simp: mx_ok_def)

lemma mx_runs_ok: "mx_runs m m' \<Longrightarrow> mx_ok m \<Longrightarrow> mx_ok m'"
  by (induction rule: rtranclp_induct) (auto dest: mx_step_ok)

lemma new_mixer_ok: "list_all stream_ok ss \<Longrightarrow> mx_ok (NewSimpleMixer ss)"
  by (simp add: mx_ok_def NewSimpleMixer_def newSimpleStream_def stream_ok_def)

section \<open>Properties\<close>

text \<open>C24: the mixer routes each input in order: under any interleaving of adding, removing, feeding and reading
  streams, of the forwarders and of closing, what the output has given and holds from one forwarder is a subsequence
  of what its input stream accepted, nothing twice, and the output holds at most 128 frames.\<close>

theorem mixer_keeps_each_input_in_order:
  assumes "mx_runs (NewSimpleMixer (map newSimpleStream caps)) m" "k < length (mx_fwds m)"
  shows "subseq (through k (mx_heard m @ sm_buf (mx_output m))) (sm_got (mx_streams m ! fst (mx_fwds m ! k))) \<and>
    length (sm_buf (mx_output m)) \<le> 128"
proof -
  have "list_all stream_ok (map newSimpleStream caps)"
    by (simp add: list_all_iff stream_ok_def newSimpleStream_def)
  from mx_runs_ok [OF assms(1) new_mixer_ok [OF this]] have ok: "mx_ok m" .
  then have f: "fwd_ok m k" "mx_heard m @ sm_buf (mx_output m) = sm_got (mx_output m)"
    "stream_ok (mx_output m)" "sm_cap (mx_output m) = 128"
    using assms(2) by (simp_all add: mx_ok_def)
  then have "subseq (through k (mx_heard m @ sm_buf (mx_output m))) (given_out (mx_streams m ! fst (mx_fwds m ! k)))"
    unfolding f(2) by (auto simp: fwd_ok_def dest: subseq_init)
  moreover have "subseq (given_out st) (sm_got st)" for st :: "'a simple_stream"
    by (simp add: given_out_def prefix_imp_subseq take_is_prefix)
  ultimately show ?thesis
    using f(3,4) by (auto simp: stream_ok_def intro: subseq_order.trans)
qed

text \<open>A mixer with one input whose forwarder holds a frame.\<close>

definition one_frame :: "nat mixer" where
  "one_frame =
     \<lparr>mx_inputs = [''a'' \<mapsto> 0], mx_streams = [(newSimpleStream 0)\<lparr>sm_got := [7]\<rparr>], mx_fwds = [(0, InWrite 7)],
      mx_output = newSimpleStream 128, mx_closed = False, mx_heard = [], mx_panic = False\<rparr>"

lemma one_frame_run: "mx_runs (NewSimpleMixer (map newSimpleStream [0])) one_frame"
proof -
  let ?st = "newSimpleStream 0 :: nat simple_stream"
  let ?m1 = "AddInput ''a'' 0 (NewSimpleMixer (map newSimpleStream [0]))"
  let ?m2 = "?m1\<lparr>mx_streams := [?st\<lparr>sm_buf := [7], sm_got := [7]\<rparr>]\<rparr>"
  let ?m3 = "?m2\<lparr>mx_fwds := [(0, InRead)]\<rparr>"
  note d = NewSimpleMixer_def AddInput_def newSimpleStream_def one_frame_def
  have "mx_step (NewSimpleMixer (map newSimpleStream [0])) ?m1" by (rule mx_add) (simp add: d)
  moreover have "mx_step ?m1 ?m2"
    using mx_feed [of 0 ?m1 7 "?st\<lparr>sm_buf := [7], sm_got := [7]\<rparr>"] by (simp add: d Write_def)
  moreover have "mx_step ?m2 ?m3" using mx_look [of 0 ?m2 0] by (simp add: d)
  moreover have "mx_step ?m3 one_frame"
    using mx_read [of 0 ?m3 0 7 "?st\<lparr>sm_got := [7]\<rparr>"] by (simp add: d Read_def)
  ultimately show ?thesis by (meson rtranclp.rtrancl_into_rtrancl rtranclp.rtrancl_refl)
qed

theorem mixer_keeps_each_input_in_order_witness:
  "subseq (through 0 [(0, 7 :: nat)]) [7] \<and> length [(0 :: nat, 7 :: nat)] \<le> 128"
proof -
  let ?out = "(newSimpleStream 128)\<lparr>sm_buf := [(0, 7)], sm_got := [(0, 7)]\<rparr>"
  have "mx_step one_frame (one_frame\<lparr>mx_fwds := [(0, Looking)], mx_output := ?out\<rparr>)"
    using mx_write [of 0 one_frame 0 7 ?out] by (simp add: one_frame_def newSimpleStream_def Write_def)
  with one_frame_run have "mx_runs (NewSimpleMixer (map newSimpleStream [0])) (one_frame\<lparr>mx_fwds := [(0, Looking)], mx_output := ?out\<rparr>)"
    by (rule rtranclp.rtrancl_into_rtrancl)
  from mixer_keeps_each_input_in_order [OF this, of 0] show ?thesis
    by (simp add: one_frame_def)
qed

text \<open>Closing can crash: a forwarder that holds a frame when the output is closed writes to a closed channel.\<close>

lemma mixer_close_panics: "\<exists>m. mx_runs (NewSimpleMixer (map newSimpleStream [0])) m \<and> mx_panic (m :: nat mixer)"
proof -
  let ?m5 = "close_output (close_inputs one_frame)"
  note d = newSimpleStream_def close_inputs_def close_output_def CloseStream_def one_frame_def
  have "mx_step one_frame (close_inputs one_frame)" by (rule mx_close)
  moreover have "mx_step (close_inputs one_frame) ?m5" by (rule mx_close_output) (simp add: d)
  moreover have "mx_step ?m5 (?m5\<lparr>mx_panic := True\<rparr>)"
    using mx_write_panics [of 0 ?m5 0 7] by (simp add: d Write_def)
  ultimately have "mx_runs (NewSimpleMixer (map newSimpleStream [0])) (?m5\<lparr>mx_panic := True\<rparr>)"
    using one_frame_run by (meson rtranclp.rtrancl_into_rtrancl)
  then show ?thesis by (intro exI [of _ "?m5\<lparr>mx_panic := True\<rparr>"]) simp
qed

end
