(* ===== verification/Metrics.thy ===== *)
theory Metrics
  imports Http
begin

text \<open>
  The collectors of \<^verbatim>\<open>pkg/metrics/prom.go\<close> and the updates the rest of the code makes to them. Prometheus gives
  a collector one value per list of label values and panics if the number of values is not that of its
  labels. SHA-256 and the random draw are parameters.
\<close>

section \<open>Collectors\<close>

datatype metric_kind = Counter | Gauge | Histogram

record collector =
  mc_name :: string
  mc_kind :: metric_kind
  mc_labels :: "string list"

definition metric :: "metric_kind \<Rightarrow> string \<Rightarrow> string list \<Rightarrow> collector" where
  "metric k n ls = \<lparr>mc_name = n, mc_kind = k, mc_labels = ls\<rparr>"

definition LabelSessionID :: string where "LabelSessionID = ''session_id''"
definition LabelStage :: string where "LabelStage = ''stage''"
definition LabelDirection :: string where "LabelDirection = ''direction''"
definition LabelStatus :: string where "LabelStatus = ''status''"
definition LabelModel :: string where "LabelModel = ''model''"

definition http_metrics :: "collector list" where
  "http_metrics =
     (let ls = [''method'', ''route'', ''status_code'', LabelSessionID, LabelStage, LabelDirection, LabelStatus, LabelModel]
      in [metric Counter ''http_requests_total'' ls, metric Histogram ''http_request_duration_seconds'' ls,
          metric Gauge ''http_active_connections'' [''route'', LabelStage, LabelDirection, LabelSessionID, LabelModel],
          metric Counter ''http_errors_total'' [''method'', ''route'', ''error_type''],
          metric Counter ''http_timeout_total'' [''method'', ''route'']])"

definition webrtc_metrics :: "collector list" where
  "webrtc_metrics =
     [metric Counter ''webrtc_peer_connections_total'' [''state'', LabelSessionID, LabelStage],
      metric Gauge ''webrtc_peer_connections_active'' [LabelStage, LabelSessionID],
      metric Counter ''webrtc_bytes_sent_total'' [LabelDirection, LabelSessionID, LabelModel],
      metric Counter ''webrtc_bytes_received_total'' [LabelDirection, LabelSessionID, LabelModel],
      metric Counter ''webrtc_connection_failures_total'' [''reason'', LabelStage],
      metric Counter ''webrtc_reconnection_attempts_total'' [LabelSessionID, LabelStage]]"

definition stt_metrics :: "collector list" where
  "stt_metrics =
     [metric Counter ''stt_errors_total'' [''error_type'', LabelSessionID, LabelStage, LabelModel],
      metric Counter ''stt_fallback_total'' [LabelSessionID, LabelStage, LabelModel],
      metric Histogram ''stt_time_to_first_token_seconds'' [LabelSessionID, LabelStage, LabelStatus, LabelModel],
      metric Histogram ''stt_transcription_latency_seconds'' [LabelSessionID, LabelStage, LabelStatus, LabelModel],
      metric Histogram ''stt_streaming_lag_seconds'' [LabelDirection, LabelSessionID, LabelModel]]"

definition llm_metrics :: "collector list" where
  "llm_metrics =
     [metric Counter ''llm_errors_total'' [''error_type'', LabelSessionID, LabelStage, LabelModel],
      metric Counter ''llm_retries_total'' [LabelSessionID, LabelStage, LabelModel],
      metric Counter ''llm_fallback_total'' [LabelSessionID, LabelStage, LabelModel],
      metric Histogram ''llm_time_to_first_token_seconds'' [LabelSessionID, LabelStage, LabelStatus, LabelModel],
      metric Histogram ''llm_generation_latency_seconds'' [LabelSessionID, LabelStage, LabelStatus, LabelModel],
      metric Histogram ''llm_inter_token_latency_seconds'' [LabelSessionID, LabelStage, LabelModel]]"

definition tts_metrics :: "collector list" where
  "tts_metrics =
     [metric Counter ''tts_errors_total'' [''error_type'', LabelSessionID, LabelStage, LabelModel],
      metric Counter ''tts_fallback_total'' [LabelSessionID, LabelStage, LabelModel],
      metric Histogram ''tts_time_to_first_audio_chunk_seconds'' [LabelSessionID, LabelStage, LabelStatus, LabelModel],
      metric Histogram ''tts_synthesis_latency_seconds'' [LabelSessionID, LabelStage, LabelStatus, LabelModel],
      metric Histogram ''tts_streaming_lag_seconds'' [LabelDirection, LabelSessionID, LabelModel]]"

definition recording_metrics :: "collector list" where
  "recording_metrics =
     [metric Counter ''recording_jobs_enqueued_total'' [], metric Counter ''recording_jobs_success_total'' [],
      metric Counter ''recording_jobs_failed_total'' [], metric Gauge ''recording_queue_depth'' []]"

text \<open>The registry after \<^verbatim>\<open>init\<close>: a collector with the name of another is refused, and the error dropped.\<close>

definition register_metric :: "collector list \<Rightarrow> collector \<Rightarrow> collector list" where
  "register_metric reg c = (if List.member (map mc_name reg) (mc_name c) then reg else reg @ [c])"

definition metrics_init :: "collector list" where
  "metrics_init =
     foldl register_metric [] (http_metrics @ webrtc_metrics @ stt_metrics @ llm_metrics @ tts_metrics @ recording_metrics)"

section \<open>Updates\<close>

datatype metric_op = Inc | Dec | Observe rat | Add int | SetTo int

record metric_update =
  mu_name :: string
  mu_values :: "string list"
  mu_op :: metric_op

definition upd :: "string \<Rightarrow> string list \<Rightarrow> metric_op \<Rightarrow> metric_update" where
  "upd n vs o' = \<lparr>mu_name = n, mu_values = vs, mu_op = o'\<rparr>"

text \<open>What a kind of collector offers.\<close>

definition offers :: "metric_kind \<Rightarrow> metric_op \<Rightarrow> bool" where
  "offers k o' =
     (case k of
        Counter \<Rightarrow> o' = Inc \<or> (case o' of Add n \<Rightarrow> 0 \<le> n | _ \<Rightarrow> False)
      | Gauge \<Rightarrow> (case o' of Observe _ \<Rightarrow> False | _ \<Rightarrow> True)
      | Histogram \<Rightarrow> (case o' of Observe _ \<Rightarrow> True | _ \<Rightarrow> False))"

text \<open>The values of counters and gauges and the number of observations; \<open>None\<close> is a panic.\<close>

type_synonym metric_values = "string \<times> string list \<Rightarrow> int"

definition apply_update :: "collector list \<Rightarrow> metric_values \<Rightarrow> metric_update \<Rightarrow> metric_values option" where
  "apply_update reg m u =
     (case List.find (\<lambda>c. mc_name c = mu_name u) reg of
        None \<Rightarrow> None
      | Some c \<Rightarrow>
          if length (mu_values u) \<noteq> length (mc_labels c) \<or> \<not> offers (mc_kind c) (mu_op u) then None
          else (let k = (mu_name u, mu_values u) in
                Some (m(k := (case mu_op u of
                  Inc \<Rightarrow> m k + 1 | Dec \<Rightarrow> m k - 1 | Observe _ \<Rightarrow> m k + 1 | Add n \<Rightarrow> m k + n | SetTo n \<Rightarrow> n)))))"

fun apply_updates :: "collector list \<Rightarrow> metric_values \<Rightarrow> metric_update list \<Rightarrow> metric_values option" where
  "apply_updates reg m [] = Some m"
| "apply_updates reg m (u # us) =
     (case apply_update reg m u of None \<Rightarrow> None | Some m' \<Rightarrow> apply_updates reg m' us)"

text \<open>Around a request; \<open>text\<close> is \<^verbatim>\<open>http.StatusText\<close>.\<close>

definition request_begins :: "string \<Rightarrow> metric_update list" where
  "request_begins route = [upd ''http_active_connections'' [route, ''http'', ''ingress'', [], []] Inc]"

definition request_ends :: "(int \<Rightarrow> string) \<Rightarrow> string \<Rightarrow> string \<Rightarrow> int \<Rightarrow> rat \<Rightarrow> metric_update list" where
  "request_ends status_text method route status took =
     (let (statusClass, errorType) = status_class status;
          codeStr = (if status_text status = [] then ''unknown'' else status_text status);
          ls = [method, route, codeStr, [], ''http'', ''ingress'', statusClass, []]
      in [upd ''http_requests_total'' ls Inc, upd ''http_request_duration_seconds'' ls (Observe took)]
         @ (if errorType \<noteq> [] then [upd ''http_errors_total'' [method, route, errorType] Inc] else [])
         @ [upd ''http_active_connections'' [route, ''http'', ''ingress'', [], []] Dec])"

text \<open>Of a transcription and of speech, which did not fail or did.\<close>

definition stt_updates :: "bool \<Rightarrow> rat \<Rightarrow> metric_update list" where
  "stt_updates ok took =
     (let ls = [[], ''stt'', if ok then ''success'' else ''error'', []]
      in (if ok then [] else [upd ''stt_errors_total'' [''provider_error'', [], ''stt'', []] Inc])
         @ [upd ''stt_time_to_first_token_seconds'' ls (Observe took),
            upd ''stt_transcription_latency_seconds'' ls (Observe took)])"

definition tts_updates :: "bool \<Rightarrow> rat \<Rightarrow> metric_update list" where
  "tts_updates ok took =
     (let ls = [[], ''tts'', if ok then ''success'' else ''error'', []]
      in (if ok then [] else [upd ''tts_errors_total'' [''provider_error'', [], ''tts'', []] Inc])
         @ [upd ''tts_time_to_first_audio_chunk_seconds'' ls (Observe took),
            upd ''tts_synthesis_latency_seconds'' ls (Observe took)])"

text \<open>Of a chat: the gaps before its tokens, and its end.\<close>

definition llm_token_updates :: "rat list \<Rightarrow> metric_update list" where
  "llm_token_updates gaps =
     (case gaps of
        [] \<Rightarrow> []
      | g # gs \<Rightarrow> upd ''llm_time_to_first_token_seconds'' [[], ''llm'', ''success'', []] (Observe g)
          # map (\<lambda>x. upd ''llm_inter_token_latency_seconds'' [[], ''llm'', []] (Observe x)) gs)"

definition llm_updates :: "bool \<Rightarrow> rat list \<Rightarrow> rat \<Rightarrow> metric_update list" where
  "llm_updates ok gaps took =
     llm_token_updates gaps @
     (if ok then [upd ''llm_generation_latency_seconds'' [[], ''llm'', ''success'', []] (Observe took)]
      else [upd ''llm_errors_total'' [''provider_error'', [], ''llm'', []] Inc,
            upd ''llm_time_to_first_token_seconds'' [[], ''llm'', ''error'', []] (Observe took),
            upd ''llm_generation_latency_seconds'' [[], ''llm'', ''error'', []] (Observe took)])"

text \<open>Of a WebRTC connection: its creation, its packets, and its changes of state with the flag
  \<^verbatim>\<open>activeCounted\<close> and whether the transport is closed.\<close>

definition peer_created :: "metric_update list" where
  "peer_created = [upd ''webrtc_peer_connections_total'' [''new'', [], ''webrtc''] Inc]"

definition packet_received :: "byte list \<Rightarrow> metric_update list" where
  "packet_received payload = [upd ''webrtc_bytes_received_total'' [''ingress'', [], []] (Add (int (length payload)))]"

definition packet_sent :: "byte list \<Rightarrow> metric_update list" where
  "packet_sent encoded = [upd ''webrtc_bytes_sent_total'' [''egress'', [], []] (Add (int (length encoded)))]"

definition uncount_active :: "bool \<Rightarrow> metric_update list" where
  "uncount_active counted =
     (if counted then [upd ''webrtc_peer_connections_active'' [''webrtc'', []] Dec] else [])"

definition peer_state :: "bool \<Rightarrow> string \<Rightarrow> bool \<times> metric_update list \<times> bool" where
  "peer_state counted state =
     (if state = ''connecting'' then (counted, [upd ''webrtc_peer_connections_total'' [''connecting'', [], ''webrtc''] Inc], False)
      else if state = ''connected''
      then (True, upd ''webrtc_peer_connections_total'' [''connected'', [], ''webrtc''] Inc #
              (if counted then [] else [upd ''webrtc_peer_connections_active'' [''webrtc'', []] Inc]), False)
      else if state = ''failed''
      then (False, [upd ''webrtc_peer_connections_total'' [''failed'', [], ''webrtc''] Inc,
              upd ''webrtc_connection_failures_total'' [''unknown'', ''webrtc''] Inc] @ uncount_active counted, True)
      else if state = ''disconnected'' \<or> state = ''closed''
      then (False, upd ''webrtc_peer_connections_total'' [''closed'', [], ''webrtc''] Inc # uncount_active counted, True)
      else (counted, [upd ''webrtc_peer_connections_total'' [state, [], ''webrtc''] Inc], False))"

text \<open>Of the recording queue: a job accepted or refused, and one uploaded or failed, with the jobs left.\<close>

definition job_enqueued :: "bool \<Rightarrow> nat \<Rightarrow> metric_update list" where
  "job_enqueued accepted depth =
     (if accepted then [upd ''recording_jobs_enqueued_total'' [] Inc, upd ''recording_queue_depth'' [] (SetTo (int depth))]
      else [upd ''recording_jobs_failed_total'' [] Inc])"

definition job_done :: "bool \<Rightarrow> nat \<Rightarrow> metric_update list" where
  "job_done ok depth =
     [upd (if ok then ''recording_jobs_success_total'' else ''recording_jobs_failed_total'') [] Inc,
      upd ''recording_queue_depth'' [] (SetTo (int depth))]"

section \<open>The label of a session\<close>

definition hex_digits :: string where
  "hex_digits = ''0123456789abcdef''"

definition hex_of :: "byte list \<Rightarrow> string" where
  "hex_of bs = concat (map (\<lambda>b. [hex_digits ! (unat b div 16), hex_digits ! (unat b mod 16)]) bs)"

definition hashSessionID :: "(string \<Rightarrow> byte list) \<Rightarrow> string \<Rightarrow> string" where
  "hashSessionID sha256 raw = hex_of (take 8 (sha256 raw))"

text \<open>\<open>draw\<close> is \<^verbatim>\<open>rand.Intn\<close> of the rate.\<close>

definition SampledSessionID :: "(string \<Rightarrow> byte list) \<Rightarrow> nat \<Rightarrow> string \<Rightarrow> int \<Rightarrow> string" where
  "SampledSessionID sha256 draw raw sampleRate =
     (if raw = [] then []
      else if sampleRate \<le> 1 then hashSessionID sha256 raw
      else if draw \<noteq> 0 then ''sampled_out''
      else hashSessionID sha256 raw)"

lemma hex_of_length [simp]: "length (hex_of bs) = 2 * length bs"
  by (induction bs) (simp_all add: hex_of_def)

section \<open>Properties\<close>

lemmas metric_lists = http_metrics_def webrtc_metrics_def stt_metrics_def llm_metrics_def tts_metrics_def recording_metrics_def

lemma metrics_init_all:
  "metrics_init = http_metrics @ webrtc_metrics @ stt_metrics @ llm_metrics @ tts_metrics @ recording_metrics"
  by (simp add: metrics_init_def metric_lists Let_def metric_def register_metric_def)

definition accepted :: "metric_update \<Rightarrow> bool" where
  "accepted u \<longleftrightarrow>
     (case List.find (\<lambda>c. mc_name c = mu_name u) metrics_init of
        None \<Rightarrow> False
      | Some c \<Rightarrow> length (mu_values u) = length (mc_labels c) \<and> offers (mc_kind c) (mu_op u))"

lemma accepted_applies: "list_all accepted us \<Longrightarrow> apply_updates metrics_init m us \<noteq> None"
  by (induction us arbitrary: m) (auto simp: accepted_def apply_update_def Let_def split: option.splits)

lemma accepted_upd:
  "accepted (upd n vs o') =
     (case List.find (\<lambda>c. mc_name c = n) metrics_init of
        None \<Rightarrow> False | Some c \<Rightarrow> length vs = length (mc_labels c) \<and> offers (mc_kind c) o')"
  by (simp add: accepted_def upd_def split: option.split)

lemmas find_metric = accepted_upd metrics_init_all metric_lists Let_def metric_def offers_def

lemma request_accepted: "list_all accepted (request_begins r @ request_ends t me r s q)"
  by (simp add: request_begins_def request_ends_def status_class_def find_metric)

lemma services_accepted: "list_all accepted (stt_updates ok q @ tts_updates ok q @ llm_updates ok gaps q)"
proof -
  have "list_all accepted (llm_token_updates gaps)"
    by (cases gaps) (simp_all add: llm_token_updates_def list_all_iff find_metric)
  then show ?thesis
    by (simp add: stt_updates_def tts_updates_def llm_updates_def find_metric)
qed

lemma peer_accepted:
  "list_all accepted (peer_created @ packet_received p @ packet_sent p @ fst (snd (peer_state counted state)))"
  by (simp add: peer_created_def packet_received_def packet_sent_def peer_state_def uncount_active_def find_metric)

lemma jobs_accepted: "list_all accepted (job_enqueued ok d @ job_done ok d)"
  by (simp add: job_enqueued_def job_done_def find_metric)

text \<open>C20: no update of a metric panics: every update the server, the transport, the processors and the recorder
  make is for a collector that is registered, passes exactly as many values as it has labels and is one its
  kind offers, so any sequence of them is carried out.\<close>

theorem metric_updates_never_panic:
  "apply_updates metrics_init m
     (concat (map (\<lambda>(t, me, r, s, q). request_begins r @ request_ends t me r s q) requests) @
      concat (map (\<lambda>(ok, gaps, q). stt_updates ok q @ tts_updates ok q @ llm_updates ok gaps q) turns) @
      concat (map (\<lambda>(counted, state, p). peer_created @ packet_received p @ packet_sent p @ fst (snd (peer_state counted state))) peers) @
      concat (map (\<lambda>(ok, d). job_enqueued ok d @ job_done ok d) jobs)) \<noteq> None"
proof (rule accepted_applies)
  have c: "list_all accepted (concat (map g xs))" if "\<And>x. list_all accepted (g x)" for g :: "'b \<Rightarrow> _" and xs
    using that by (induction xs) simp_all
  show "list_all accepted
     (concat (map (\<lambda>(t, me, r, s, q). request_begins r @ request_ends t me r s q) requests) @
      concat (map (\<lambda>(ok, gaps, q). stt_updates ok q @ tts_updates ok q @ llm_updates ok gaps q) turns) @
      concat (map (\<lambda>(counted, state, p). peer_created @ packet_received p @ packet_sent p @ fst (snd (peer_state counted state))) peers) @
      concat (map (\<lambda>(ok, d). job_enqueued ok d @ job_done ok d) jobs))"
    unfolding list_all_append
    using request_accepted services_accepted peer_accepted jobs_accepted
    by (intro conjI c) (auto split: prod.split)
qed

text \<open>The gauge of active connections: over the states of one connection it changes by one if the connection ends up
  counted.\<close>

fun peer_run :: "bool \<Rightarrow> string list \<Rightarrow> bool \<times> metric_update list" where
  "peer_run counted [] = (counted, [])"
| "peer_run counted (s # ss) =
     (let (c1, us, _) = peer_state counted s; (c2, us2) = peer_run c1 ss in (c2, us @ us2))"

definition active_change :: "metric_update list \<Rightarrow> int" where
  "active_change us =
     sum_list (map (\<lambda>u. if mu_name u = ''webrtc_peer_connections_active''
                        then (case mu_op u of Inc \<Rightarrow> 1 | Dec \<Rightarrow> - 1 | _ \<Rightarrow> 0) else 0) us)"

lemma active_change_append [simp]: "active_change (us @ vs) = active_change us + active_change vs"
  by (simp add: active_change_def)

lemma peer_state_active:
  "active_change (fst (snd (peer_state counted s))) = of_bool (fst (peer_state counted s)) - of_bool counted"
  by (simp add: peer_state_def uncount_active_def active_change_def upd_def)

lemma active_gauge_counts:
  "active_change (snd (peer_run counted ss)) = of_bool (fst (peer_run counted ss)) - of_bool counted"
  by (induction ss arbitrary: counted) (simp_all add: case_prod_beta Let_def peer_state_active active_change_def [of "[]"])

end
