(* ===== verification/Transcripts.thy ===== *)
theory Transcripts
  imports GoStrings "HOL-Library.Multiset"
begin

text \<open>
  The transcript store, \<^verbatim>\<open>pkg/transcripts/sqlstore.go\<close>: opening it, saving a message and reading the messages of a
  session. The database and its drivers are parameters; a pointer to a store is an option. What is assumed
  of a database is stated for the forms of statements SQL documents, over any table and columns.
\<close>

record transcript_message =
  tm_session :: string
  tm_role :: string
  tm_text :: string
  tm_at :: int
  tm_seq :: int

datatype sql_value = SqlText (sv_text: string) | SqlInt (sv_int: int) | SqlTime (sv_time: int) | SqlNull

text \<open>\<open>ss_db\<close>: the handle is not nil.\<close>

record sql_store =
  ss_db :: bool
  ss_driver :: string
  ss_table :: string

definition table_char :: "char \<Rightarrow> bool" where
  "table_char c =
     (let n = of_char c :: nat in (97 \<le> n \<and> n \<le> 122) \<or> (65 \<le> n \<and> n \<le> 90) \<or> (48 \<le> n \<and> n \<le> 57) \<or> n = 95)"

definition NewSQLStore ::
  "(string \<Rightarrow> string \<Rightarrow> err option) \<Rightarrow> (string \<Rightarrow> string \<Rightarrow> err option) \<Rightarrow> string \<Rightarrow> string \<Rightarrow> string \<Rightarrow> err + sql_store" where
  "NewSQLStore sqlopen ping driver dsn table0 =
     (if driver = [] then Inl ''transcripts: driver is required''
      else if dsn = [] then Inl ''transcripts: dsn is required''
      else let table = (if table0 = [] then ''call_transcripts'' else table0) in
        if \<not> list_all table_char table then Inl (''transcripts: invalid table name '' @ table)
        else case sqlopen driver dsn of
          Some e \<Rightarrow> Inl (''transcripts: open db: '' @ e)
        | None \<Rightarrow>
            (case ping driver dsn of
               Some e \<Rightarrow> Inl (''transcripts: ping db: '' @ e)
             | None \<Rightarrow> Inr \<lparr>ss_db = True, ss_driver = driver, ss_table = table\<rparr>))"

definition CloseStore :: "err option \<Rightarrow> sql_store option \<Rightarrow> err option" where
  "CloseStore dbclose s = (case s of None \<Rightarrow> None | Some s \<Rightarrow> if ss_db s then dbclose else None)"

definition insert_statement :: "sql_store \<Rightarrow> string" where
  "insert_statement s =
     ''INSERT INTO '' @ ss_table s @ '' (session_id, role, text, seq, created_at) VALUES '' @
       (if ss_driver s = ''postgres'' then ''($1, $2, $3, $4, $5)'' else ''(?, ?, ?, ?, ?)'')"

definition select_statement :: "sql_store \<Rightarrow> string" where
  "select_statement s =
     ''SELECT session_id, role, text, created_at, seq FROM '' @ ss_table s @ '' WHERE session_id = '' @
       (if ss_driver s = ''postgres'' then ''$1'' else ''?'') @ '' ORDER BY seq''"

type_synonym 'd sql_exec = "'d \<Rightarrow> string \<Rightarrow> sql_value list \<Rightarrow> err option \<times> 'd"

text \<open>A query gives rows, which are lists of values, until its end or an error.\<close>

type_synonym 'd sql_query = "'d \<Rightarrow> string \<Rightarrow> sql_value list \<Rightarrow> err + sql_value list list \<times> err option"

definition SaveMessage :: "'d sql_exec \<Rightarrow> sql_store option \<Rightarrow> 'd \<Rightarrow> transcript_message \<Rightarrow> err option \<times> 'd" where
  "SaveMessage exec s d m =
     (case s of
        None \<Rightarrow> (Some ''transcripts: SaveMessage called on nil *SQLStore'', d)
      | Some s \<Rightarrow>
          if \<not> ss_db s then (Some ''transcripts: SaveMessage called with uninitialized *sql.DB'', d)
          else if tm_session m = [] \<or> tm_role m = [] \<or> tm_text m = [] then (None, d)
          else (case exec d (insert_statement s)
                  [SqlText (tm_session m), SqlText (tm_role m), SqlText (tm_text m), SqlInt (tm_seq m), SqlTime (tm_at m)] of
                  (Some e, d') \<Rightarrow> (Some (''transcripts: insert message: '' @ e), d')
                | (None, d') \<Rightarrow> (None, d')))"

text \<open>\<^verbatim>\<open>Rows.Scan\<close> assigns the columns by position, converting where the types differ: how a time is
  written, how a text is read as a number and the texts of errors (by column) are \<open>cv\<close>.\<close>

record conversions =
  cv_format :: "int \<Rightarrow> string"
  cv_parse :: "string \<Rightarrow> int option"
  cv_error :: "nat \<Rightarrow> sql_value \<Rightarrow> err"

definition scan_string :: "conversions \<Rightarrow> nat \<Rightarrow> sql_value \<Rightarrow> err + string" where
  "scan_string cv k v =
     (case v of SqlText s \<Rightarrow> Inr s | SqlInt n \<Rightarrow> Inr (itoa n) | SqlTime t \<Rightarrow> Inr (cv_format cv t) | SqlNull \<Rightarrow> Inl (cv_error cv k v))"

definition scan_time :: "conversions \<Rightarrow> nat \<Rightarrow> sql_value \<Rightarrow> err + int" where
  "scan_time cv k v = (case v of SqlTime t \<Rightarrow> Inr t | _ \<Rightarrow> Inl (cv_error cv k v))"

definition scan_int :: "conversions \<Rightarrow> nat \<Rightarrow> sql_value \<Rightarrow> err + int" where
  "scan_int cv k v =
     (case v of
        SqlInt n \<Rightarrow> Inr n
      | SqlText s \<Rightarrow> (case cv_parse cv s of None \<Rightarrow> Inl (cv_error cv k v) | Some n \<Rightarrow> Inr n)
      | _ \<Rightarrow> Inl (cv_error cv k v))"

definition scan_message :: "conversions \<Rightarrow> sql_value list \<Rightarrow> err + transcript_message" where
  "scan_message cv row =
     (case row of
        [a, b, c, d, e] \<Rightarrow>
          (case (scan_string cv 0 a, scan_string cv 1 b, scan_string cv 2 c, scan_time cv 3 d, scan_int cv 4 e) of
             (Inr i, Inr r, Inr x, Inr t, Inr n) \<Rightarrow>
               Inr \<lparr>tm_session = i, tm_role = r, tm_text = x, tm_at = t, tm_seq = n\<rparr>
           | (Inl x, _) \<Rightarrow> Inl x | (_, Inl x, _) \<Rightarrow> Inl x | (_, _, Inl x, _) \<Rightarrow> Inl x
           | (_, _, _, Inl x, _) \<Rightarrow> Inl x | (_, _, _, _, Inl x) \<Rightarrow> Inl x)
      | _ \<Rightarrow> Inl (cv_error cv (length row) SqlNull))"

fun scan_rows :: "conversions \<Rightarrow> sql_value list list \<Rightarrow> err + transcript_message list" where
  "scan_rows cv [] = Inr []"
| "scan_rows cv (r # rs) =
     (case scan_message cv r of
        Inl e \<Rightarrow> Inl (''transcripts: scan message: '' @ e)
      | Inr m \<Rightarrow> (case scan_rows cv rs of Inl e \<Rightarrow> Inl e | Inr ms \<Rightarrow> Inr (m # ms)))"

definition GetMessages ::
  "'d sql_query \<Rightarrow> conversions \<Rightarrow> sql_store option \<Rightarrow> 'd \<Rightarrow> string \<Rightarrow> err + transcript_message list" where
  "GetMessages query cv s d session =
     (case s of
        None \<Rightarrow> Inl ''transcripts: GetMessages called on nil or uninitialized *SQLStore''
      | Some s \<Rightarrow>
          if \<not> ss_db s then Inl ''transcripts: GetMessages called on nil or uninitialized *SQLStore''
          else (case query d (select_statement s) [SqlText session] of
              Inl e \<Rightarrow> Inl (''transcripts: query messages: '' @ e)
            | Inr (rows, e) \<Rightarrow>
                (case scan_rows cv rows of
                   Inl x \<Rightarrow> Inl x
                 | Inr ms \<Rightarrow> (case e of Some x \<Rightarrow> Inl (''transcripts: iterate messages: '' @ x) | None \<Rightarrow> Inr ms))))"

section \<open>Statements of SQL\<close>

text \<open>An insertion names its columns and has one placeholder for each; a selection names the columns it
  wants, compares one column with its placeholder and may name a column to sort by. Column names are
  unquoted, in small letters.\<close>

definition column_name :: "string \<Rightarrow> bool" where
  "column_name c \<longleftrightarrow> c \<noteq> [] \<and>
     list_all (\<lambda>x. let n = of_char x :: nat in (97 \<le> n \<and> n \<le> 122) \<or> (48 \<le> n \<and> n \<le> 57) \<or> n = 95) c"

definition table_name :: "string \<Rightarrow> bool" where
  "table_name t \<longleftrightarrow> t \<noteq> [] \<and> list_all table_char t"

fun listed :: "string list \<Rightarrow> string" where
  "listed [] = []"
| "listed [c] = c"
| "listed (c # cs) = c @ '', '' @ listed cs"

definition placeholder :: "bool \<Rightarrow> nat \<Rightarrow> string" where
  "placeholder pg k = (if pg then CHR ''$'' # utoa k else ''?'')"

definition insert_text :: "bool \<Rightarrow> string \<Rightarrow> string list \<Rightarrow> string" where
  "insert_text pg tbl cols =
     ''INSERT INTO '' @ tbl @ '' ('' @ listed cols @ '') VALUES ('' @
       listed (map (placeholder pg) [1..<Suc (length cols)]) @ '')''"

definition select_text :: "bool \<Rightarrow> string \<Rightarrow> string list \<Rightarrow> string \<Rightarrow> string option \<Rightarrow> string" where
  "select_text pg tbl cols col ord =
     ''SELECT '' @ listed cols @ '' FROM '' @ tbl @ '' WHERE '' @ col @ '' = '' @ placeholder pg 1 @
       (case ord of None \<Rightarrow> [] | Some c \<Rightarrow> '' ORDER BY '' @ c)"

text \<open>A row gives the value of each column; a table is a multiset of rows.\<close>

type_synonym sql_row = "string \<Rightarrow> sql_value"

definition value_le :: "sql_value \<Rightarrow> sql_value \<Rightarrow> bool" where
  "value_le u v = (case (u, v) of (SqlInt a, SqlInt b) \<Rightarrow> a \<le> b | _ \<Rightarrow> True)"

text \<open>What is documented of these forms, \<open>pg\<close> saying which placeholders the driver has. An insertion may fail;
  one that succeeds adds one row, in which each listed column has its value as the column keeps it
  (\<open>kept\<close>). A selection may fail; one that succeeds gives, of the rows whose column equals the argument
  in the column's comparison (\<open>same\<close>, its collation), the listed columns, sorted by the column named.
  How values other than integers are sorted is left open.\<close>

definition sql_inserts ::
  "bool \<Rightarrow> 'd sql_exec \<Rightarrow> ('d \<Rightarrow> string \<Rightarrow> sql_row multiset) \<Rightarrow> (string \<Rightarrow> string \<Rightarrow> sql_value \<Rightarrow> sql_value) \<Rightarrow> bool" where
  "sql_inserts pg exec stored kept \<longleftrightarrow>
     (\<forall>d tbl cols vals d'. table_name tbl \<and> list_all column_name cols \<and> cols \<noteq> [] \<and> distinct cols \<and>
        length vals = length cols \<and> exec d (insert_text pg tbl cols) vals = (None, d') \<longrightarrow>
        (\<exists>row. stored d' tbl = add_mset row (stored d tbl) \<and> map row cols = map2 (kept tbl) cols vals))"

definition sql_selects ::
  "bool \<Rightarrow> 'd sql_query \<Rightarrow> ('d \<Rightarrow> string \<Rightarrow> sql_row multiset) \<Rightarrow> (sql_value \<Rightarrow> sql_value \<Rightarrow> bool) \<Rightarrow> bool" where
  "sql_selects pg query stored same \<longleftrightarrow>
     (\<forall>d tbl cols col ord v rs. table_name tbl \<and> list_all column_name cols \<and> cols \<noteq> [] \<and> column_name col \<and>
        list_all column_name (case ord of None \<Rightarrow> [] | Some c \<Rightarrow> [c]) \<and>
        query d (select_text pg tbl cols col ord) [v] = Inr (rs, None) \<longrightarrow>
        (\<exists>rows. mset rows = filter_mset (\<lambda>r. same (r col) v) (stored d tbl) \<and> rs = map (\<lambda>r. map r cols) rows \<and>
           (case ord of None \<Rightarrow> True | Some c \<Rightarrow> sorted_wrt (\<lambda>a b. value_le (a c) (b c)) rows)))"

section \<open>Properties\<close>

definition transcript_columns :: "string list" where
  "transcript_columns = [''session_id'', ''role'', ''text'', ''seq'', ''created_at'']"

text \<open>The statements of the store are of these forms.\<close>

lemma table_name_NewSQLStore:
  "NewSQLStore sqlopen ping driver dsn table = Inr s \<Longrightarrow> table_name (ss_table s) \<and> ss_db s"
  by (auto simp: NewSQLStore_def table_name_def table_char_def Let_def split: if_splits option.splits)

lemma utoa_small:
  "utoa (Suc 0) = ''1''" "utoa (Suc (Suc 0)) = ''2''" "utoa (Suc (Suc (Suc 0))) = ''3''"
  "utoa (Suc (Suc (Suc (Suc 0)))) = ''4''" "utoa (Suc (Suc (Suc (Suc (Suc 0))))) = ''5''"
  by code_simp+

lemma insert_form: "insert_statement s = insert_text (ss_driver s = ''postgres'') (ss_table s) transcript_columns"
  by (simp add: insert_statement_def insert_text_def transcript_columns_def placeholder_def upt_rec utoa_small)

lemma select_form:
  "select_statement s = select_text (ss_driver s = ''postgres'') (ss_table s)
     [''session_id'', ''role'', ''text'', ''created_at'', ''seq''] ''session_id'' (Some ''seq'')"
  by (simp add: select_statement_def select_text_def placeholder_def utoa_small)

lemma column_names: "list_all column_name transcript_columns"
  by (simp add: transcript_columns_def column_name_def)

text \<open>What the store needs of its table: texts and numbers are kept as they are, and of a time what \<open>stamp\<close>
  says, its precision.\<close>

definition keeps_messages :: "(string \<Rightarrow> sql_value \<Rightarrow> sql_value) \<Rightarrow> (int \<Rightarrow> int) \<Rightarrow> bool" where
  "keeps_messages kept stamp \<longleftrightarrow>
     (\<forall>c \<in> {''session_id'', ''role'', ''text''}. \<forall>x. kept c (SqlText x) = SqlText x) \<and>
     (\<forall>n. kept ''seq'' (SqlInt n) = SqlInt n) \<and> (\<forall>t. kept ''created_at'' (SqlTime t) = SqlTime (stamp t))"

definition row_of :: "transcript_message \<Rightarrow> sql_value list" where
  "row_of m = [SqlText (tm_session m), SqlText (tm_role m), SqlText (tm_text m), SqlInt (tm_seq m), SqlTime (tm_at m)]"

text \<open>The table holds just these messages.\<close>

definition holds :: "sql_row multiset \<Rightarrow> transcript_message list \<Rightarrow> bool" where
  "holds t ms \<longleftrightarrow> image_mset (\<lambda>r. map r transcript_columns) t = mset (map row_of ms)"

definition worth_saving :: "transcript_message \<Rightarrow> bool" where
  "worth_saving m \<longleftrightarrow> tm_session m \<noteq> [] \<and> tm_role m \<noteq> [] \<and> tm_text m \<noteq> []"

definition stamped :: "(int \<Rightarrow> int) \<Rightarrow> transcript_message \<Rightarrow> transcript_message" where
  "stamped stamp m = m\<lparr>tm_at := stamp (tm_at m)\<rparr>"

fun save_all :: "'d sql_exec \<Rightarrow> sql_store option \<Rightarrow> 'd \<Rightarrow> transcript_message list \<Rightarrow> err option list \<times> 'd" where
  "save_all exec s d [] = ([], d)"
| "save_all exec s d (m # ms) =
     (let (e, d1) = SaveMessage exec s d m; (es, d2) = save_all exec s d1 ms in (e # es, d2))"

lemma save_holds:
  assumes "sql_inserts (ss_driver s = ''postgres'') exec stored kept" "keeps_messages (kept (ss_table s)) stamp"
    "table_name (ss_table s)" "holds (stored d (ss_table s)) old" "SaveMessage exec (Some s) d m = (None, d')"
  shows "holds (stored d' (ss_table s)) (old @ (if worth_saving m then [stamped stamp m] else []))"
proof (cases "worth_saving m")
  case True
  let ?args = "[SqlText (tm_session m), SqlText (tm_role m), SqlText (tm_text m), SqlInt (tm_seq m), SqlTime (tm_at m)]"
  have "exec d (insert_text (ss_driver s = ''postgres'') (ss_table s) transcript_columns) ?args = (None, d')"
    using assms(5) True
    by (auto simp: SaveMessage_def worth_saving_def insert_form split: if_splits prod.splits option.splits)
  moreover have "length ?args = length transcript_columns" "transcript_columns \<noteq> []" "distinct transcript_columns"
    by (simp_all add: transcript_columns_def)
  ultimately obtain row where row: "stored d' (ss_table s) = add_mset row (stored d (ss_table s))"
    "map row transcript_columns = map2 (kept (ss_table s)) transcript_columns ?args"
    using assms(1,3) column_names unfolding sql_inserts_def by blast
  have "map row transcript_columns = row_of (stamped stamp m)"
    unfolding row(2) using assms(2)
    by (simp add: keeps_messages_def transcript_columns_def row_of_def stamped_def)
  with row(1) assms(4) True show ?thesis by (simp add: holds_def)
next
  case False
  then have "d' = d" using assms(5)
    by (auto simp: SaveMessage_def worth_saving_def split: if_splits)
  with False assms(4) show ?thesis by simp
qed

lemma save_all_holds:
  assumes "sql_inserts (ss_driver s = ''postgres'') exec stored kept" "keeps_messages (kept (ss_table s)) stamp"
    "table_name (ss_table s)" "holds (stored d (ss_table s)) old"
    "save_all exec (Some s) d ms = (map (\<lambda>_. None) ms, d')"
  shows "holds (stored d' (ss_table s)) (old @ map (stamped stamp) (filter worth_saving ms))"
  using assms(4,5)
proof (induction ms arbitrary: d old)
  case (Cons m ms)
  obtain d1 where d1: "SaveMessage exec (Some s) d m = (None, d1)"
    "save_all exec (Some s) d1 ms = (map (\<lambda>_. None) ms, d')"
    using Cons.prems(2) by (auto simp: Let_def split: prod.splits)
  from Cons.IH [OF save_holds [OF assms(1-3) Cons.prems(1) d1(1)] d1(2)] show ?case by (cases "worth_saving m") simp_all
qed simp

text \<open>The message in a row of the store.\<close>

definition row_message :: "sql_row \<Rightarrow> transcript_message" where
  "row_message r =
     \<lparr>tm_session = sv_text (r ''session_id''), tm_role = sv_text (r ''role''), tm_text = sv_text (r ''text''),
      tm_at = sv_time (r ''created_at''), tm_seq = sv_int (r ''seq'')\<rparr>"

definition typed_row :: "sql_row \<Rightarrow> bool" where
  "typed_row r \<longleftrightarrow> map r transcript_columns = row_of (row_message r)"

lemma message_row: "map r transcript_columns = row_of m \<Longrightarrow> row_message r = m \<and> typed_row r"
  by (cases m) (simp add: row_message_def typed_row_def transcript_columns_def row_of_def)

lemma holds_messages:
  assumes "holds t ms"
  shows "\<forall>r \<in># t. typed_row r" "image_mset row_message t = mset ms"
proof -
  have m: "image_mset (\<lambda>r. map r transcript_columns) t = mset (map row_of ms)" using assms by (simp add: holds_def)
  show "\<forall>r \<in># t. typed_row r"
  proof
    fix r assume "r \<in># t"
    then have "map r transcript_columns \<in># image_mset (\<lambda>r. map r transcript_columns) t"
      unfolding set_image_mset by (rule imageI)
    then obtain m where "map r transcript_columns = row_of m" unfolding m by auto
    then show "typed_row r" by (simp add: message_row)
  qed
  have g: "row_message (\<lambda>c. the (map_of (zip transcript_columns (row_of m)) c)) = m" for m
    by (cases m) (simp add: row_message_def transcript_columns_def row_of_def)
  have "row_message (\<lambda>c. the (map_of (zip transcript_columns (map r transcript_columns)) c)) = row_message r" for r
    by (simp add: row_message_def transcript_columns_def)
  with arg_cong [OF m, of "image_mset (\<lambda>vs. row_message (\<lambda>c. the (map_of (zip transcript_columns vs) c)))"] g
  show "image_mset row_message t = mset ms" by (simp add: image_mset.compositionality o_def)
qed

lemma typed_cells:
  assumes "typed_row r"
  shows "r ''session_id'' = SqlText (tm_session (row_message r))" "r ''role'' = SqlText (tm_role (row_message r))"
    "r ''text'' = SqlText (tm_text (row_message r))" "r ''seq'' = SqlInt (tm_seq (row_message r))"
    "r ''created_at'' = SqlTime (tm_at (row_message r))"
  using assms unfolding typed_row_def transcript_columns_def row_of_def by simp_all

lemma scan_typed:
  "list_all typed_row rows \<Longrightarrow>
     scan_rows cv (map (\<lambda>r. map r [''session_id'', ''role'', ''text'', ''created_at'', ''seq'']) rows) = Inr (map row_message rows)"
proof (induction rows)
  case (Cons r rows)
  then have "scan_message cv (map r [''session_id'', ''role'', ''text'', ''created_at'', ''seq'']) = Inr (row_message r)"
    using typed_cells [of r] by (simp add: scan_message_def scan_string_def scan_time_def scan_int_def)
  with Cons show ?case by simp
qed simp

lemma sorted_messages:
  "list_all typed_row rows \<Longrightarrow> sorted_wrt (\<lambda>a b. value_le (a ''seq'') (b ''seq'')) rows \<Longrightarrow>
     sorted (map tm_seq (map row_message rows))"
proof (induction rows)
  case (Cons r rows)
  have "tm_seq (row_message r) \<le> tm_seq (row_message q)" if "q \<in> set rows" for q
  proof -
    have "r ''seq'' = SqlInt (tm_seq (row_message r))" "q ''seq'' = SqlInt (tm_seq (row_message q))"
      using Cons.prems(1) that typed_cells(4) by (simp_all add: list_all_iff)
    moreover have "value_le (r ''seq'') (q ''seq'')" using Cons.prems(2) that by simp
    ultimately show ?thesis by (simp add: value_le_def)
  qed
  with Cons show ?case by simp
qed simp

text \<open>C40: A conversation is read back as it was saved, over any database that does what SQL documents of
  insertions and of selections with a condition and an order, into a table that keeps texts and numbers: if
  the savings have reported no error and the query gives its rows, then reading a session scans them without
  error and gives the messages that were in the table and those saved that have a session, a role and a
  text, of the sessions the database's comparison takes for this one, each as often as it was saved, with
  the time in the precision of the table, in the order of their numbers.\<close>

theorem transcript_read_back:
  assumes "NewSQLStore sqlopen ping driver dsn table = Inr s"
    "sql_inserts (ss_driver s = ''postgres'') exec stored kept" "sql_selects (ss_driver s = ''postgres'') query stored same"
    "keeps_messages (kept (ss_table s)) stamp" "holds (stored d (ss_table s)) old"
    "save_all exec (Some s) d ms = (map (\<lambda>_. None) ms, d')"
    "query d' (select_statement s) [SqlText i] = Inr (rs, None)"
  shows "\<exists>out. GetMessages query cv (Some s) d' i = Inr out \<and>
    mset out = mset (filter (\<lambda>m. same (SqlText (tm_session m)) (SqlText i))
      (old @ map (stamped stamp) (filter worth_saving ms))) \<and>
    sorted (map tm_seq out)"
proof -
  let ?cols = "[''session_id'', ''role'', ''text'', ''created_at'', ''seq'']"
  let ?t = "stored d' (ss_table s)" and ?same = "\<lambda>m. same (SqlText (tm_session m)) (SqlText i)"
  note s = table_name_NewSQLStore [OF assms(1)]
  note h = holds_messages [OF save_all_holds [OF assms(2,4) s [THEN conjunct1] assms(5,6)]]
  have "list_all column_name ?cols" "column_name ''session_id''" "?cols \<noteq> []"
    "list_all column_name (case Some ''seq'' of None \<Rightarrow> [] | Some c \<Rightarrow> [c])"
    by (simp_all add: column_name_def)
  with s assms(7) [unfolded select_form]
  have "\<exists>rows. mset rows = filter_mset (\<lambda>r. same (r ''session_id'') (SqlText i)) ?t \<and> rs = map (\<lambda>r. map r ?cols) rows \<and>
      (case Some ''seq'' of None \<Rightarrow> True | Some c \<Rightarrow> sorted_wrt (\<lambda>a b. value_le (a c) (b c)) rows)"
    by (intro assms(3) [unfolded sql_selects_def, rule_format]) blast
  then obtain rows where rows: "mset rows = filter_mset (\<lambda>r. same (r ''session_id'') (SqlText i)) ?t"
    "rs = map (\<lambda>r. map r ?cols) rows" "sorted_wrt (\<lambda>a b. value_le (a ''seq'') (b ''seq'')) rows" by auto
  have "set rows \<subseteq> set_mset ?t" using arg_cong [OF rows(1), of set_mset] by auto
  then have typed: "list_all typed_row rows" using h(1) by (auto simp: list_all_iff)
  have "r ''session_id'' = SqlText (tm_session (row_message r))" if "r \<in># ?t" for r
    using h(1) that typed_cells(1) by blast
  then have "mset rows = filter_mset (\<lambda>r. ?same (row_message r)) ?t"
    unfolding rows(1) by (intro filter_mset_cong) auto
  then have "mset (map row_message rows) = filter_mset ?same (image_mset row_message ?t)"
    by (simp add: filter_mset_image_mset o_def)
  then have "mset (map row_message rows) = mset (filter ?same (old @ map (stamped stamp) (filter worth_saving ms)))"
    unfolding h(2) by (simp add: mset_filter)
  moreover have "GetMessages query cv (Some s) d' i = Inr (map row_message rows)"
    using s assms(7) scan_typed [OF typed, of cv] by (simp add: GetMessages_def rows(2))
  ultimately show ?thesis using sorted_messages [OF typed rows(3)] by blast
qed

section \<open>A database in memory\<close>

text \<open>A database that reads the text of the statement: its words, without spaces, commas and brackets.\<close>

definition separates :: "char \<Rightarrow> bool" where
  "separates c \<longleftrightarrow> c = CHR '' '' \<or> c = CHR '','' \<or> c = CHR ''('' \<or> c = CHR '')''"

fun sql_words :: "string \<Rightarrow> string \<Rightarrow> string list" where
  "sql_words w [] = (if w = [] then [] else [w])"
| "sql_words w (c # r) =
     (if separates c then if w = [] then sql_words [] r else w # sql_words [] r else sql_words (w @ [c]) r)"

definition sql_word :: "string \<Rightarrow> bool" where
  "sql_word w \<longleftrightarrow> w \<noteq> [] \<and> list_all (\<lambda>c. \<not> separates c) w"

lemma words_more: "list_all (\<lambda>c. \<not> separates c) w \<Longrightarrow> sql_words u (w @ r) = sql_words (u @ w) r"
  by (induction w arbitrary: u) simp_all

lemma words_word:
  "sql_word w \<Longrightarrow> sql_words [] (w @ CHR '' '' # r) = w # sql_words [] r"
  "sql_word w \<Longrightarrow> sql_words [] (w @ CHR '','' # r) = w # sql_words [] r"
  "sql_word w \<Longrightarrow> sql_words [] (w @ CHR '')'' # r) = w # sql_words [] r"
  "sql_word w \<Longrightarrow> sql_words [] w = [w]"
  using words_more [of w "[]" "[]"] by (simp_all add: sql_word_def words_more) (simp_all add: separates_def)

lemma words_listed:
  assumes "list_all sql_word ws" "ws \<noteq> []"
  shows "sql_words [] (listed ws @ CHR '' '' # r) = ws @ sql_words [] r"
    "sql_words [] (listed ws @ CHR '')'' # r) = ws @ sql_words [] r"
  using assms
  by (induction ws rule: listed.induct) (simp_all add: words_word, simp_all add: separates_def)

lemma is_sql_word:
  "column_name c \<Longrightarrow> sql_word c" "table_name t \<Longrightarrow> sql_word t"
  by (auto simp: column_name_def table_name_def table_char_def sql_word_def separates_def list_all_iff Let_def)

lemma words_select:
  assumes "table_name tbl" "list_all column_name cols" "cols \<noteq> []" "column_name col"
    "list_all column_name (case ord of None \<Rightarrow> [] | Some c \<Rightarrow> [c])"
  shows "sql_words [] (select_text False tbl cols col ord) =
    ''SELECT'' # cols @ [''FROM'', tbl, ''WHERE'', col, ''='', ''?''] @ (case ord of None \<Rightarrow> [] | Some c \<Rightarrow> [''ORDER'', ''BY'', c])"
proof -
  have w: "list_all sql_word cols" "sql_word tbl" "sql_word col"
    using assms is_sql_word by (auto simp: list_all_iff)
  show ?thesis
  proof (cases ord)
    case None
    then show ?thesis
      by (simp add: select_text_def placeholder_def words_listed(1) [OF w(1) assms(3)] words_word(1) [OF w(2)]
          words_word(1) [OF w(3)] separates_def)
  next
    case (Some c)
    then have "sql_word c" using assms(5) is_sql_word by simp
    with Some show ?thesis
      by (simp add: select_text_def placeholder_def words_listed(1) [OF w(1) assms(3)] words_word(1) [OF w(2)]
          words_word(1) [OF w(3)] words_word(4) separates_def)
  qed
qed

lemma words_insert:
  assumes "table_name tbl" "list_all column_name cols" "cols \<noteq> []"
  shows "\<exists>r. sql_words [] (insert_text False tbl cols) = [''INSERT'', ''INTO'', tbl] @ cols @ ''VALUES'' # r"
proof -
  have w: "list_all sql_word cols" "sql_word tbl"
    using assms is_sql_word by (auto simp: list_all_iff)
  show ?thesis
    by (simp add: insert_text_def words_listed(2) [OF w(1) assms(3)] words_word(1) [OF w(2)] separates_def)
qed

type_synonym tables = "string \<Rightarrow> sql_row list"

definition table_exec :: "tables sql_exec" where
  "table_exec d q vals =
     (case sql_words [] q of
        ins # into # tbl # r \<Rightarrow>
          if ins = ''INSERT'' \<and> into = ''INTO''
          then (None, d(tbl := d tbl @
                 [\<lambda>c. case map_of (zip (takeWhile (\<lambda>w. w \<noteq> ''VALUES'') r) vals) c of None \<Rightarrow> SqlNull | Some v \<Rightarrow> v]))
          else (Some ''syntax'', d)
      | _ \<Rightarrow> (Some ''syntax'', d))"

definition int_of :: "sql_value \<Rightarrow> int" where
  "int_of v = (case v of SqlInt n \<Rightarrow> n | _ \<Rightarrow> 0)"

definition table_query :: "tables sql_query" where
  "table_query d q vals =
     (case (sql_words [] q, vals) of
        (sel # r, [v]) \<Rightarrow>
          (let cols = takeWhile (\<lambda>w. w \<noteq> ''FROM'') r
           in case drop (length cols) r of
                f # tbl # wh # col # eq # mark # ord \<Rightarrow>
                  (let rows = filter (\<lambda>r. r col = v) (d tbl);
                       rows' = (case ord of [_, _, c] \<Rightarrow> sort_key (\<lambda>r. int_of (r c)) rows | _ \<Rightarrow> rows)
                   in Inr (map (\<lambda>r. map r cols) rows', None))
              | _ \<Rightarrow> Inl ''syntax'')
      | _ \<Rightarrow> Inl ''syntax'')"

lemma column_no_keyword: "list_all column_name cols \<Longrightarrow> list_all (\<lambda>w. w \<noteq> ''VALUES'' \<and> w \<noteq> ''FROM'') cols"
  by (auto simp: list_all_iff column_name_def)

lemma takeWhile_stop: "list_all P xs \<Longrightarrow> \<not> P x \<Longrightarrow> takeWhile P (xs @ x # r) = xs"
  by (induction xs) simp_all

lemma table_inserts: "sql_inserts False table_exec (\<lambda>d t. mset (d t)) (\<lambda>_ _ v. v)"
  unfolding sql_inserts_def
proof (intro allI impI, elim conjE)
  fix d :: tables and tbl cols vals d'
  assume a: "table_name tbl" "list_all column_name cols" "cols \<noteq> []" "distinct cols"
    "length (vals :: sql_value list) = length cols" "table_exec d (insert_text False tbl cols) vals = (None, d')"
  obtain r where r: "sql_words [] (insert_text False tbl cols) = [''INSERT'', ''INTO'', tbl] @ cols @ ''VALUES'' # r"
    using words_insert [OF a(1-3)] by blast
  have t: "takeWhile (\<lambda>w. w \<noteq> ''VALUES'') (cols @ ''VALUES'' # r) = cols"
    using column_no_keyword [OF a(2)] by (intro takeWhile_stop) (auto simp: list_all_iff)
  let ?row = "\<lambda>c. case map_of (zip cols vals) c of None \<Rightarrow> SqlNull | Some v \<Rightarrow> v"
  have "d' = d(tbl := d tbl @ [?row])" using a(6) by (auto simp: table_exec_def r t)
  moreover have "map ?row cols = vals"
    using a(4,5) by (intro nth_equalityI) (simp_all add: map_of_zip_nth)
  moreover have "map2 (\<lambda>_ v. v) cols vals = vals" using a(5) by (intro nth_equalityI) simp_all
  ultimately show "\<exists>row. mset (d' tbl) = add_mset row (mset (d tbl)) \<and> map row cols = map2 (\<lambda>_ v. v) cols vals"
    by (intro exI [of _ ?row]) simp
qed

lemma sorted_value_le:
  "sorted (map (\<lambda>r. int_of (r c)) rows) \<Longrightarrow> sorted_wrt (\<lambda>a b. value_le (a c) (b c)) rows"
  by (induction rows) (auto simp: value_le_def int_of_def split: sql_value.splits)

lemma table_selects: "sql_selects False table_query (\<lambda>d t. mset (d t)) (=)"
  unfolding sql_selects_def
proof (intro allI impI, elim conjE)
  fix d :: tables and tbl cols col ord v rs
  assume a: "table_name tbl" "list_all column_name cols" "cols \<noteq> []" "column_name col"
    "list_all column_name (case ord of None \<Rightarrow> [] | Some c \<Rightarrow> [c])"
    "table_query d (select_text False tbl cols col ord) [v] = Inr (rs, None)"
  have t: "takeWhile (\<lambda>w. w \<noteq> ''FROM'') (cols @ ''FROM'' # r) = cols" for r
    using column_no_keyword [OF a(2)] by (intro takeWhile_stop) (auto simp: list_all_iff)
  let ?rows = "filter (\<lambda>r. r col = v) (d tbl)"
  let ?out = "case ord of None \<Rightarrow> ?rows | Some c \<Rightarrow> sort_key (\<lambda>r. int_of (r c)) ?rows"
  have "rs = map (\<lambda>r. map r cols) ?out"
    using a(6) words_select [OF a(1-5)] by (cases ord) (auto simp: table_query_def t Let_def)
  moreover have "mset ?out = filter_mset (\<lambda>r. r col = v) (mset (d tbl))"
    by (simp add: mset_filter split: option.split)
  moreover have "case ord of None \<Rightarrow> True | Some c \<Rightarrow> sorted_wrt (\<lambda>a b. value_le (a c) (b c)) ?out"
    by (simp add: sorted_value_le split: option.split)
  ultimately show "\<exists>rows. mset rows = filter_mset (\<lambda>r. r col = v) (mset (d tbl)) \<and> rs = map (\<lambda>r. map r cols) rows \<and>
      (case ord of None \<Rightarrow> True | Some c \<Rightarrow> sorted_wrt (\<lambda>a b. value_le (a c) (b c)) rows)"
    by blast
qed

definition no_conversions :: conversions where
  "no_conversions = \<lparr>cv_format = \<lambda>_. [], cv_parse = \<lambda>_. None, cv_error = \<lambda>_ _. ''scan''\<rparr>"

definition hello_messages :: "transcript_message list" where
  "hello_messages =
     [\<lparr>tm_session = ''s1'', tm_role = ''assistant'', tm_text = ''Hi'', tm_at = 5, tm_seq = 2\<rparr>,
      \<lparr>tm_session = ''s1'', tm_role = ''user'', tm_text = ''hello'', tm_at = 3, tm_seq = 1\<rparr>,
      \<lparr>tm_session = ''s1'', tm_role = ''user'', tm_text = [], tm_at = 3, tm_seq = 3\<rparr>]"

definition hello_store :: sql_store where
  "hello_store = \<lparr>ss_db = True, ss_driver = ''mysql'', ss_table = ''call_transcripts''\<rparr>"

text \<open>Two messages saved out of order, and one without text.\<close>

theorem transcript_read_back_witness:
  "\<exists>out. GetMessages table_query no_conversions (Some hello_store)
      (snd (save_all table_exec (Some hello_store) (\<lambda>_. []) hello_messages)) ''s1'' = Inr out \<and>
    mset out = mset (take 2 hello_messages) \<and> sorted (map tm_seq out)"
proof -
  let ?d = "snd (save_all table_exec (Some hello_store) (\<lambda>_. []) hello_messages)"
  have "fst (save_all table_exec (Some hello_store) (\<lambda>_. []) hello_messages) = map (\<lambda>_. None) hello_messages"
    by code_simp
  then have saved: "save_all table_exec (Some hello_store) (\<lambda>_. []) hello_messages = (map (\<lambda>_. None) hello_messages, ?d)"
    by (metis prod.collapse)
  obtain rs where "table_query ?d (select_statement hello_store) [SqlText ''s1''] = Inr (rs, None)"
  proof -
    have "map_sum id snd (table_query ?d (select_statement hello_store) [SqlText ''s1'']) = Inr None" by code_simp
    then show thesis using that by (cases "table_query ?d (select_statement hello_store) [SqlText ''s1'']") auto
  qed
  from transcript_read_back [where sqlopen = "\<lambda>_ _. None" and ping = "\<lambda>_ _. None" and driver = "''mysql''" and dsn = "''db''"
      and table = "[]" and s = hello_store and stored = "\<lambda>d t. mset (d t)" and kept = "\<lambda>_ _ v. v" and same = "(=)"
      and stamp = "\<lambda>t. t" and old = "[]" and cv = no_conversions
      and exec = table_exec and query = table_query and d = "\<lambda>_. []" and ms = hello_messages and d' = ?d and i = "''s1''"
      and rs = rs, OF _ _ _ _ _ saved this]
  show ?thesis using table_inserts table_selects
    by (simp add: NewSQLStore_def table_char_def hello_store_def keeps_messages_def holds_def)
      (simp add: hello_messages_def worth_saving_def stamped_def)
qed

end
