(* ===== verification/Evals.thy ===== *)
theory Evals
  imports ServiceFactory VoiceServices "HOL-Library.Multiset"
begin

text \<open>
  The evaluation runner, \<^verbatim>\<open>pkg/evals\<close> and \<^verbatim>\<open>cmd/evals\<close>: a scenario is one prompt given to a pipeline of the language
  model processor and a sink, and a test of the answer. The sink sends every frame from a goroutine of its own, so
  the order in which frames arrive is the argument \<open>arrive\<close>. Regular expressions are a parameter: \<open>None\<close> if
  the pattern does not compile.
\<close>

section \<open>Scenarios\<close>

record eval_scenario =
  es_name :: string
  es_prompt :: string
  es_pattern :: string
  es_contains :: string
  es_timeout :: rat
  es_system :: string

record eval_result =
  er_name :: string
  er_pass :: bool
  er_duration :: rat
  er_output :: string
  er_error :: string

definition no_scenario :: eval_scenario where
  "no_scenario = \<lparr>es_name = [], es_prompt = [], es_pattern = [], es_contains = [], es_timeout = 0, es_system = []\<rparr>"

definition scenario_fields :: "(string \<times> eval_scenario setter) list" where
  "scenario_fields =
     [(''name'', set_string (\<lambda>x. es_name_update (\<lambda>_. x))), (''prompt'', set_string (\<lambda>x. es_prompt_update (\<lambda>_. x))),
      (''expected_pattern'', set_string (\<lambda>x. es_pattern_update (\<lambda>_. x))),
      (''expected_contains'', set_string (\<lambda>x. es_contains_update (\<lambda>_. x))),
      (''timeout_secs'', set_number (\<lambda>x. es_timeout_update (\<lambda>_. x))),
      (''system_prompt'', set_string (\<lambda>x. es_system_update (\<lambda>_. x)))]"

definition LoadEvalConfig :: "(string \<Rightarrow> err + any option) \<Rightarrow> string \<Rightarrow> err + eval_scenario list" where
  "LoadEvalConfig read_file path =
     (case read_file path of
        Inl x \<Rightarrow> Inl x
      | Inr None \<Rightarrow> Inl ''json''
      | Inr (Some v) \<Rightarrow>
          (case json_into [(''scenarios'', set_structs no_scenario (json_into scenario_fields) (\<lambda>x _. x))] v [] of
             None \<Rightarrow> Inl ''json'' | Some ss \<Rightarrow> Inr ss))"

definition assertOutput :: "(string \<Rightarrow> string \<Rightarrow> bool option) \<Rightarrow> string \<Rightarrow> eval_scenario \<Rightarrow> bool" where
  "assertOutput matches output s =
     (let out = TrimSpace (ToLower output)
      in if es_contains s \<noteq> [] then contains_str out (ToLower (es_contains s))
         else if es_pattern s \<noteq> []
         then (case matches (''(?i)'' @ es_pattern s) out of None \<Rightarrow> False | Some b \<Rightarrow> b)
         else False)"

section \<open>A run\<close>

text \<open>Keys of the environment stand in for keys the configuration does not have.\<close>

definition prefer_env :: "env \<Rightarrow> config \<Rightarrow> config" where
  "prefer_env e c =
     (let m0 = (case cf_APIKeys c of None \<Rightarrow> Map.empty | Some m \<Rightarrow> m);
          fill = (\<lambda>(k, var) m. if (m k = None \<or> m k = Some []) \<and> e var \<noteq> [] then m(k \<mapsto> e var) else m)
      in c\<lparr>cf_APIKeys := Some (fold fill [(''openai'', ''OPENAI_API_KEY''), (''groq'', ''GROQ_API_KEY'')] m0)\<rparr>)"

definition eval_service :: "(service \<Rightarrow> bool) \<Rightarrow> env \<Rightarrow> config \<Rightarrow> service option" where
  "eval_service connects e c =
     (let provider = (if LLMProvider c = [] then ''openai'' else LLMProvider c);
          model = (if cf_Model c = [] then ''gpt-4o-mini'' else cf_Model c)
      in snd (NewLLMFromConfig connects e (prefer_env e c) provider model))"

text \<open>The loop over the frames that arrive until the time is up: verdict, output and error.\<close>

primrec collect :: "(string \<Rightarrow> bool) \<Rightarrow> frame list \<Rightarrow> string \<Rightarrow> bool \<times> string \<times> string" where
  "collect ok [] out = (False, out, ''timeout waiting for LLM response'')"
| "collect ok (f # fs) out =
     (case fbody f of
        LLMTextFrame t \<Rightarrow> collect ok fs (out @ tdata t)
      | EndFrame \<Rightarrow> (ok out, out, [])
      | TTSSpeakFrame _ \<Rightarrow> (ok out, out, [])
      | ErrorFrame e _ _ \<Rightarrow> (False, out, e)
      | CancelFrame _ \<Rightarrow> (False, out, ''cancelled'')
      | _ \<Rightarrow> collect ok fs out)"

text \<open>\<open>chat\<close> is the client of a service, \<open>v\<close> its state and \<open>took\<close> the clock; \<open>None\<close> is the panic of a call on
  a service that is nil.\<close>

definition RunScenario ::
  "(string \<Rightarrow> err + any option) \<Rightarrow> env \<Rightarrow> (service \<Rightarrow> bool) \<Rightarrow> (service \<Rightarrow> 'v chatter) \<Rightarrow> 'v \<Rightarrow> (string \<Rightarrow> string \<Rightarrow> bool option)
     \<Rightarrow> (frame list \<Rightarrow> frame list) \<Rightarrow> rat \<Rightarrow> u64 \<Rightarrow> string \<Rightarrow> eval_scenario \<Rightarrow> eval_result option" where
  "RunScenario read_file e connects chat v matches arrive took ids path s =
     (let result = (\<lambda>(p, out, x). Some \<lparr>er_name = es_name s, er_pass = p, er_duration = took, er_output = out, er_error = x\<rparr>)
      in case LoadConfig read_file e path of
        Inl x \<Rightarrow> result (False, [], x)
      | Inr c \<Rightarrow>
          (case eval_service connects e c of
             None \<Rightarrow> None
           | Some sv \<Rightarrow>
               (let prompt = or_else ''You are a helpful assistant. Reply briefly and directly.'' (es_system s);
                    p = NewLLMProcessorWithSystemPrompt v prompt ids;
                    (start, ids1) = NewStartFrame ids;
                    (tf, ids2) = NewTranscriptionFrame (es_prompt s) [] [] True ids1;
                    (p1, es1, x1) = LLMProcessFrame (chat sv) quiet_replies p start Downstream;
                    (p2, es2, x2) = LLMProcessFrame (chat sv) quiet_replies p1 tf Downstream
                in case x2 of
                     Some x \<Rightarrow> result (False, [], x)
                   | None \<Rightarrow> result (collect (\<lambda>out. assertOutput matches out s) (arrive (down_of es1 @ down_of es2)) []))))"

section \<open>The report and the command\<close>

definition result_json :: "eval_result \<Rightarrow> any" where
  "result_json r = AObj
     ([(''name'', AStr (er_name r)), (''pass'', ABool (er_pass r)), (''duration_secs'', ANum (er_duration r))]
      @ (if er_output r = [] then [] else [(''output'', AStr (er_output r))])
      @ (if er_error r = [] then [] else [(''error'', AStr (er_error r))]))"

text \<open>The file, or the numbers of the summary with the lines below it.\<close>

record eval_report =
  ep_json :: any
  ep_pass :: nat
  ep_fail :: nat
  ep_time :: rat
  ep_lines :: "(bool \<times> string \<times> rat \<times> string) list"

definition WriteReport :: "(string \<Rightarrow> err option) \<Rightarrow> (string \<Rightarrow> err option) \<Rightarrow> eval_result list \<Rightarrow> string \<Rightarrow> err + eval_report" where
  "WriteReport mkdir create rs dir =
     (case mkdir dir of
        Some x \<Rightarrow> Inl x
      | None \<Rightarrow>
          (case create (dir @ ''/results.json'') of
             Some x \<Rightarrow> Inl x
           | None \<Rightarrow> Inr
               \<lparr>ep_json = AArr (map result_json rs), ep_pass = length (filter er_pass rs),
                ep_fail = length (filter (\<lambda>r. \<not> er_pass r) rs), ep_time = sum_list (map er_duration rs),
                ep_lines = map (\<lambda>r. (er_pass r, er_name r, er_duration r, er_error r)) rs\<rparr>))"

text \<open>The scenarios a run is for: all, or the first of a name.\<close>

definition select_scenarios :: "string \<Rightarrow> eval_scenario list \<Rightarrow> err + eval_scenario list" where
  "select_scenarios name ss =
     (if name = [] then Inr ss
      else case List.find (\<lambda>s. es_name s = name) ss of
        None \<Rightarrow> Inl (''scenario not found in config: '' @ name)
      | Some s \<Rightarrow> Inr [s])"

text \<open>The status the command ends with; \<open>run\<close> is the run of a scenario.\<close>

definition evals_main ::
  "(string \<Rightarrow> err + any option) \<Rightarrow> (string \<Rightarrow> err option) \<Rightarrow> (string \<Rightarrow> err option) \<Rightarrow> (eval_scenario \<Rightarrow> eval_result)
     \<Rightarrow> string \<Rightarrow> string \<Rightarrow> string \<Rightarrow> nat" where
  "evals_main read_file mkdir create runs path name dir =
     (case LoadEvalConfig read_file path of
        Inl x \<Rightarrow> 1
      | Inr ss \<Rightarrow>
          (case select_scenarios name ss of
             Inl x \<Rightarrow> 1
           | Inr chosen \<Rightarrow>
               (case WriteReport mkdir create (map runs chosen) dir of
                  Inl x \<Rightarrow> 1
                | Inr rep \<Rightarrow> if 0 < ep_fail rep then 1 else 0)))"

lemma evals_main_ok:
  "evals_main rf mkdir create runs path name dir = 0 \<longleftrightarrow>
     (\<exists>ss chosen rep. LoadEvalConfig rf path = Inr ss \<and> select_scenarios name ss = Inr chosen \<and>
        WriteReport mkdir create (map runs chosen) dir = Inr rep \<and> (\<forall>s \<in> set chosen. er_pass (runs s)))"
  by (auto simp: evals_main_def WriteReport_def filter_empty_conv split: sum.splits option.splits if_splits)

section \<open>What a run measures\<close>

lemma collect_tokens:
  "collect ok (map token_frame toks @ fs) out = collect ok fs (out @ concat (map (tdata \<circ> snd) toks))"
  by (induction toks arbitrary: out) (simp_all add: token_frame_def)

text \<open>The frames a run sends to its channel: the start frame, the tokens and the signal.\<close>

lemma eval_frames:
  assumes "chat v [role_msg ''system'' prompt, role_msg ''user'' (es_prompt s)] = ((toks, None), v')"
    and "concat (map (tdata \<circ> snd) toks) \<noteq> []" "prompt \<noteq> []"
  shows "\<exists>p1 es1 p2 es2 start speak.
    LLMProcessFrame chat quiet_replies (NewLLMProcessorWithSystemPrompt v prompt ids) (fst (NewStartFrame ids)) Downstream =
      (p1, es1, None) \<and>
    LLMProcessFrame chat quiet_replies p1 (fst (NewTranscriptionFrame (es_prompt s) [] [] True (snd (NewStartFrame ids)))) Downstream =
      (p2, es2, None) \<and>
    down_of es1 @ down_of es2 = start # map token_frame toks @ [speak] \<and>
    fbody start = StartFrame 16000 24000 False False False \<and> fbody speak = TTSSpeakFrame []"
proof -
  let ?p = "NewLLMProcessorWithSystemPrompt v prompt ids"
  have "LLMProcessFrame chat quiet_replies ?p (fst (NewStartFrame ids)) Downstream =
      (?p, [Push Downstream (fst (NewStartFrame ids))], None)"
    by (simp add: LLMProcessFrame_def NewStartFrame_def pass_def quiet_replies_def)
  moreover have "\<exists>p2 es2. LLMProcessFrame chat quiet_replies ?p
      (fst (NewTranscriptionFrame (es_prompt s) [] [] True (snd (NewStartFrame ids)))) Downstream = (p2, es2, None) \<and>
      down_of es2 = map token_frame toks @ [fst (NewTTSSpeakFrame [] ids)]"
    using assms
    by (simp add: LLMProcessFrame_def NewTranscriptionFrame_def runLLMWithMessages_def NewLLMProcessorWithSystemPrompt_def
        text_of_def Let_def case_prod_beta)
  moreover have "fbody (fst (NewStartFrame ids)) = StartFrame 16000 24000 False False False"
    "fbody (fst (NewTTSSpeakFrame [] ids)) = TTSSpeakFrame []"
    by (simp_all add: NewStartFrame_def NewTTSSpeakFrame_def)
  ultimately show ?thesis by (fastforce simp: append_assoc)
qed

lemma eval_run:
  assumes "LoadConfig rf e path = Inr c" "eval_service connects e c = Some sv"
    and "chat sv v [role_msg ''system'' (or_else ''You are a helpful assistant. Reply briefly and directly.'' (es_system s)),
      role_msg ''user'' (es_prompt s)] = ((toks, None), v')"
    and "concat (map (tdata \<circ> snd) toks) \<noteq> []"
  obtains start speak where
    "fbody start = StartFrame 16000 24000 False False False" "fbody speak = TTSSpeakFrame []"
    "\<And>arrive. RunScenario rf e connects chat v matches arrive took ids path s =
       (case collect (\<lambda>out. assertOutput matches out s) (arrive (start # map token_frame toks @ [speak])) [] of
          (p, out, x) \<Rightarrow> Some \<lparr>er_name = es_name s, er_pass = p, er_duration = took, er_output = out, er_error = x\<rparr>)"
proof -
  have "or_else ''You are a helpful assistant. Reply briefly and directly.'' (es_system s) \<noteq> []"
    by (simp add: or_else_def)
  from eval_frames [where chat = "chat sv" and ids = ids, OF assms(3,4) this] show thesis
    using that assms(1,2) by (fastforce simp: RunScenario_def Let_def case_prod_beta)
qed

lemma eval_in_order:
  assumes "LoadConfig rf e path = Inr c" "eval_service connects e c = Some sv"
    and "chat sv v [role_msg ''system'' (or_else ''You are a helpful assistant. Reply briefly and directly.'' (es_system s)),
      role_msg ''user'' (es_prompt s)] = ((toks, None), v')"
    and "concat (map (tdata \<circ> snd) toks) \<noteq> []"
  shows "RunScenario rf e connects chat v matches (\<lambda>fs. fs) took ids path s =
    Some \<lparr>er_name = es_name s, er_pass = assertOutput matches (concat (map (tdata \<circ> snd) toks)) s, er_duration = took,
      er_output = concat (map (tdata \<circ> snd) toks), er_error = []\<rparr>"
  by (rule eval_run [where chat = chat and v = v and matches = matches and took = took and ids = ids, OF assms]) (simp add: collect_tokens)

section \<open>Properties\<close>

text \<open>the verdict of an evaluation depends on the scheduler: the frames of an answer reach the runner in any order,
  and the one that says the answer is complete may be early, so for every selection of the tokens of the answer in
  any order there is a schedule in which exactly that selection is the output that is recorded and judged.\<close>

theorem eval_judges_any_selection:
  assumes "LoadConfig rf e path = Inr c" "eval_service connects e c = Some sv"
    and "chat sv v [role_msg ''system'' (or_else ''You are a helpful assistant. Reply briefly and directly.'' (es_system s)),
      role_msg ''user'' (es_prompt s)] = ((toks, None), v')"
    and "concat (map (tdata \<circ> snd) toks) \<noteq> []" "mset sel \<subseteq># mset toks"
  shows "\<exists>arrive. (\<forall>fs. mset (arrive fs) = mset fs) \<and>
    RunScenario rf e connects chat v matches arrive took ids path s =
      Some \<lparr>er_name = es_name s, er_pass = assertOutput matches (concat (map (tdata \<circ> snd) sel)) s, er_duration = took,
        er_output = concat (map (tdata \<circ> snd) sel), er_error = []\<rparr>"
proof (rule eval_run [where chat = chat and v = v and matches = matches and took = took and ids = ids, OF assms(1-4)])
  fix start speak
  assume f: "fbody start = StartFrame 16000 24000 False False False" "fbody speak = TTSSpeakFrame []" and run:
    "\<And>arrive. RunScenario rf e connects chat v matches arrive took ids path s =
       (case collect (\<lambda>out. assertOutput matches out s) (arrive (start # map token_frame toks @ [speak])) [] of
          (p, out, x) \<Rightarrow> Some \<lparr>er_name = es_name s, er_pass = p, er_duration = took, er_output = out, er_error = x\<rparr>)"
  obtain rest where "mset rest = mset toks - mset sel" using ex_mset by blast
  then have toks: "mset toks = mset sel + mset rest" using assms(5) by simp
  let ?F = "start # map token_frame toks @ [speak]"
  let ?X = "map token_frame sel @ speak # start # map token_frame rest"
  have "mset ?X = mset ?F" by (simp add: toks)
  then have "\<forall>fs. mset (if fs = ?F then ?X else fs) = mset fs" by simp
  moreover have "collect ok ?X [] = (ok (concat (map (tdata \<circ> snd) sel)), concat (map (tdata \<circ> snd) sel), [])" for ok
    using f by (simp add: collect_tokens)
  ultimately show ?thesis
    by (intro exI [of _ "\<lambda>fs. if fs = ?F then ?X else fs"]) (simp add: run)
qed

text \<open>A scenario that expects the whole answer, and a configuration file that says nothing.\<close>

definition greeting :: eval_scenario where
  "greeting = no_scenario\<lparr>es_name := ''greet'', es_prompt := ''hello'', es_contains := ''hi you''\<rparr>"

lemma empty_config: "LoadConfig (\<lambda>_. Inr (Some (AObj []))) (\<lambda>_. []) p = Inr (ApplyEnvOverrides (\<lambda>_. []) zero_config)"
  by (simp add: LoadConfig_def json_into_def)

lemma eval_service_connected: "\<exists>sv. eval_service (\<lambda>_. True) e c = Some sv"
  by (simp add: eval_service_def NewLLMFromConfig_def built_def dialled_def case_prod_beta Let_def)

theorem eval_judges_any_selection_witness:
  "\<exists>arrive. (\<forall>fs. mset (arrive fs) = mset fs) \<and>
    RunScenario (\<lambda>_. Inr (Some (AObj []))) (\<lambda>_. []) (\<lambda>_. True) (\<lambda>_. parrot) () (\<lambda>_ _. None) arrive 1 7 ''config.json'' greeting =
      Some \<lparr>er_name = es_name greeting, er_pass = assertOutput (\<lambda>_ _. None) (concat (map (tdata \<circ> snd) [(NewBaseWithID 6, text_of ''you'')])) greeting,
        er_duration = 1, er_output = concat (map (tdata \<circ> snd) [(NewBaseWithID 6, text_of ''you'')]), er_error = []\<rparr>"
proof -
  obtain sv where sv: "eval_service (\<lambda>_. True) (\<lambda>_. []) (ApplyEnvOverrides (\<lambda>_. []) zero_config) = Some sv"
    using eval_service_connected by blast
  show ?thesis
    by (rule eval_judges_any_selection [OF empty_config sv, where chat = "\<lambda>_. parrot" and v = "()" and toks = "[(NewBaseWithID 5, text_of ''Hi ''), (NewBaseWithID 6, text_of ''you'')]"])
      (simp_all add: parrot_def text_of_def)
qed

end
