(* ===== verification/Support.thy ===== *)
theory Support
  imports Config
begin

text \<open>
  Small parts around the server: the logger (\<^verbatim>\<open>pkg/logger\<close>), the registry of plugins (\<^verbatim>\<open>pkg/plugin\<close>) and the LiveKit
  settings of the runner (\<^verbatim>\<open>pkg/runner/livekit\<close>). The making of a token is a parameter.
\<close>

section \<open>The logger\<close>

record logger =
  lg_level :: string
  lg_debug :: bool
  lg_json :: bool
  lg_lines :: "string list"

definition default_logger :: logger where
  "default_logger = \<lparr>lg_level = ''info'', lg_debug = False, lg_json = False, lg_lines = []\<rparr>"

definition log_Configure :: "string \<Rightarrow> bool \<Rightarrow> logger \<Rightarrow> logger" where
  "log_Configure level0 json l =
     (let level = ToLower (TrimSpace level0);
          lvl = (if level = ''debug'' \<or> level = ''info'' \<or> level = ''error'' then level
                 else if level \<noteq> [] then ''info'' else lg_level l)
      in l\<lparr>lg_level := lvl, lg_debug := (lvl = ''debug''), lg_json := json\<rparr>)"

definition ConfigureFromConfig :: "string \<Rightarrow> bool \<Rightarrow> logger \<Rightarrow> logger" where
  "ConfigureFromConfig level useJSON l = log_Configure level useJSON l"

text \<open>\<open>marshal\<close> gives the JSON object of a level and a message.\<close>

definition write_log :: "(string \<Rightarrow> string \<Rightarrow> string) \<Rightarrow> string \<Rightarrow> string \<Rightarrow> logger \<Rightarrow> logger" where
  "write_log marshal level msg l =
     l\<lparr>lg_lines := lg_lines l @
        [if lg_json l then marshal level msg @ [CHR 0x0A] else ''['' @ ToUpper level @ ''] '' @ msg @ [CHR 0x0A]]\<rparr>"

definition Info :: "(string \<Rightarrow> string \<Rightarrow> string) \<Rightarrow> string \<Rightarrow> logger \<Rightarrow> logger" where
  "Info marshal msg l = (if lg_level l = ''error'' then l else write_log marshal ''info'' msg l)"

definition Debug :: "(string \<Rightarrow> string \<Rightarrow> string) \<Rightarrow> string \<Rightarrow> logger \<Rightarrow> logger" where
  "Debug marshal msg l = (if \<not> lg_debug l then l else write_log marshal ''debug'' msg l)"

definition Error :: "(string \<Rightarrow> string \<Rightarrow> string) \<Rightarrow> string \<Rightarrow> logger \<Rightarrow> logger" where
  "Error marshal msg l = write_log marshal ''error'' msg l"

text \<open>The level of a logger and its debug flag agree once it has been configured, and an error is never left out.\<close>

lemma configured_level:
  "lg_level l \<in> {''debug'', ''info'', ''error''} \<Longrightarrow>
   lg_level (log_Configure s j l) \<in> {''debug'', ''info'', ''error''} \<and>
   lg_debug (log_Configure s j l) = (lg_level (log_Configure s j l) = ''debug'')"
  by (auto simp: log_Configure_def Let_def)

lemma errors_logged: "length (lg_lines (Error m s l)) = Suc (length (lg_lines l))"
  by (simp add: Error_def write_log_def)

section \<open>Plugins\<close>

text \<open>A plugin is its name and its processing; a second one of a name replaces the first.\<close>

record 'w plugin =
  pg_name :: string
  pg_process :: "'w \<Rightarrow> string \<Rightarrow> (string \<times> err option) \<times> 'w"

definition RegisterPlugin :: "'w plugin \<Rightarrow> (string \<rightharpoonup> 'w plugin) \<Rightarrow> (string \<rightharpoonup> 'w plugin) \<times> string" where
  "RegisterPlugin p reg = (reg(pg_name p \<mapsto> p), ''Registered plugin: '' @ pg_name p @ [CHR 0x0A])"

section \<open>LiveKit\<close>

record livekit_config =
  lk_URL :: string
  lk_Token :: string
  lk_RoomName :: string

text \<open>What a token is made of: key, secret, the room to join as an agent, identity, name and seconds of validity.\<close>

record token_claims =
  tk_key :: string
  tk_secret :: string
  tk_room :: string
  tk_agent :: bool
  tk_identity :: string
  tk_name :: string
  tk_valid :: int

definition generateAgentToken :: "(token_claims \<Rightarrow> err + string) \<Rightarrow> string \<Rightarrow> string \<Rightarrow> string \<Rightarrow> string \<Rightarrow> err + string" where
  "generateAgentToken toJWT roomName participantName apiKey apiSecret =
     toJWT \<lparr>tk_key = apiKey, tk_secret = apiSecret, tk_room = roomName, tk_agent = True, tk_identity = participantName,
       tk_name = participantName, tk_valid = 24 * 3600\<rparr>"

definition livekit_Configure :: "(token_claims \<Rightarrow> err + string) \<Rightarrow> env \<Rightarrow> err + livekit_config" where
  "livekit_Configure toJWT e =
     (let url = e ''LIVEKIT_URL''; apiKey = e ''LIVEKIT_API_KEY''; apiSecret = e ''LIVEKIT_API_SECRET'';
          roomName = e ''LIVEKIT_ROOM_NAME''
      in if roomName = [] then Inl ''LIVEKIT_ROOM_NAME is required (use -r/--room or set env)''
         else if url = [] then Inl ''LIVEKIT_URL is required (use -u/--url or set env)''
         else if apiKey = [] \<or> apiSecret = [] then Inl ''LIVEKIT_API_KEY and LIVEKIT_API_SECRET are required''
         else case generateAgentToken toJWT roomName ''Voxray Agent'' apiKey apiSecret of
             Inl x \<Rightarrow> Inl x
           | Inr token \<Rightarrow> Inr \<lparr>lk_URL = url, lk_Token = token, lk_RoomName = roomName\<rparr>)"

text \<open>A configuration that is returned is for the room, the address and the key of the environment.\<close>

lemma livekit_configured:
  "livekit_Configure toJWT e = Inr c \<Longrightarrow>
     lk_RoomName c = e ''LIVEKIT_ROOM_NAME'' \<and> lk_RoomName c \<noteq> [] \<and> lk_URL c = e ''LIVEKIT_URL'' \<and> lk_URL c \<noteq> [] \<and>
     (\<exists>cl. toJWT cl = Inr (lk_Token c) \<and> tk_key cl = e ''LIVEKIT_API_KEY'' \<and> tk_room cl = lk_RoomName c \<and> tk_agent cl)"
  by (force simp: livekit_Configure_def generateAgentToken_def Let_def split: if_splits sum.splits)

end
