(* ===== verification/Listening.thy ===== *)
theory Listening
  imports Http WebSocket
begin

text \<open>
  How the server listens: \<^verbatim>\<open>StartServers\<close> and \<^verbatim>\<open>StartServersWithListener\<close> of \<^verbatim>\<open>pkg/server\<close>, and the HTTP server with
  its limits, its address and its recovery from panics in \<^verbatim>\<open>pkg/transport/websocket\<close>. Durations are nanoseconds;
  the mux with its handlers is in \<open>Server\<close>, a connection in \<open>WebSocket\<close>.
\<close>

record ws_server =
  sv_Host :: string
  sv_Port :: int
  sv_SessionTimeout :: int
  sv_ReadHeaderTimeout :: int
  sv_ReadTimeout :: int
  sv_WriteTimeout :: int
  sv_IdleTimeout :: int
  sv_MaxHeaderBytes :: int
  sv_ShutdownTimeout :: int
  sv_TLSCertFile :: string
  sv_TLSKeyFile :: string
  sv_CheckAuth :: bool
  sv_WriteCoalesceMs :: int
  sv_WriteCoalesceMaxFrames :: int
  sv_MaxDuration :: int

definition seconds :: "int \<Rightarrow> int" where
  "seconds n = n * 1000000000"

definition rtcMaxDuration :: "config \<Rightarrow> int" where
  "rtcMaxDuration c = (if 0 < cf_RTCMaxDurationSecs c then \<lfloor>cf_RTCMaxDurationSecs c * 1000000000\<rfloor> else 0)"

text \<open>What both functions set; the limits of the HTTP server are left at zero.\<close>

definition server_with_port :: "config \<Rightarrow> int \<Rightarrow> ws_server" where
  "server_with_port c port =
     \<lparr>sv_Host = cf_Host c, sv_Port = port, sv_SessionTimeout = seconds (5 * 60),
      sv_ReadHeaderTimeout = 0, sv_ReadTimeout = 0, sv_WriteTimeout = 0, sv_IdleTimeout = 0, sv_MaxHeaderBytes = 0,
      sv_ShutdownTimeout = 0, sv_TLSCertFile = [], sv_TLSKeyFile = [], sv_CheckAuth = (cf_ServerAPIKey c \<noteq> []),
      sv_WriteCoalesceMs = cf_WSWriteCoalesceMs c, sv_WriteCoalesceMaxFrames = cf_WSWriteCoalesceMaxFrames c,
      sv_MaxDuration = rtcMaxDuration c\<rparr>"

definition configured_server :: "config \<Rightarrow> ws_server" where
  "configured_server c =
     (let s = server_with_port c (if cf_Port c = 0 then 8080 else cf_Port c)
      in if cf_TLSEnable c \<and> cf_TLSCertFile c \<noteq> [] \<and> cf_TLSKeyFile c \<noteq> []
         then s\<lparr>sv_TLSCertFile := cf_TLSCertFile c, sv_TLSKeyFile := cf_TLSKeyFile c\<rparr> else s)"

definition listener_server :: "config \<Rightarrow> ws_server" where
  "listener_server c = server_with_port c 0"

section \<open>The HTTP server\<close>

record http_server =
  hs_Addr :: string
  hs_ReadHeaderTimeout :: int
  hs_ReadTimeout :: int
  hs_WriteTimeout :: int
  hs_IdleTimeout :: int
  hs_MaxHeaderBytes :: int
  hs_shutdown :: int
  hs_tls :: "(string \<times> string) option"

definition listen_addr :: "ws_server \<Rightarrow> string" where
  "listen_addr s =
     (let port = (if sv_Port s = 0 then 8080 else sv_Port s);
          host = (if sv_Host s = ''localhost'' then ''127.0.0.1'' else sv_Host s)
      in host @ '':'' @ itoa port)"

definition if_set :: "int \<Rightarrow> int \<Rightarrow> int" where
  "if_set v d = (if 0 < v then v else d)"

text \<open>The limits both ways of serving share; the address and TLS are those of \<^verbatim>\<open>ListenAndServe\<close> only.\<close>

definition http_limits :: "ws_server \<Rightarrow> http_server" where
  "http_limits s =
     \<lparr>hs_Addr = [], hs_ReadHeaderTimeout = if_set (sv_ReadHeaderTimeout s) (seconds 10),
      hs_ReadTimeout = if_set (sv_ReadTimeout s) (seconds 30), hs_WriteTimeout = if_set (sv_WriteTimeout s) (seconds 30),
      hs_IdleTimeout = if_set (sv_IdleTimeout s) (seconds 60), hs_MaxHeaderBytes = if_set (sv_MaxHeaderBytes s) (2 ^ 20),
      hs_shutdown = if_set (sv_ShutdownTimeout s) (seconds 30), hs_tls = None\<rparr>"

definition ListenAndServe :: "ws_server \<Rightarrow> http_server" where
  "ListenAndServe s =
     (http_limits s)\<lparr>hs_Addr := listen_addr s,
       hs_tls := (if sv_TLSCertFile s \<noteq> [] \<and> sv_TLSKeyFile s \<noteq> [] then Some (sv_TLSCertFile s, sv_TLSKeyFile s) else None)\<rparr>"

definition ServeWithListener :: "ws_server \<Rightarrow> http_server" where
  "ServeWithListener s = http_limits s"

text \<open>The options of a connection: nil unless one of the two is set, and whether its idleness is watched.\<close>

definition connection_options :: "ws_server \<Rightarrow> ws_options" where
  "connection_options s =
     ConnTransport_options 64 64
       (if 0 < sv_WriteCoalesceMs s \<or> 0 < sv_MaxDuration s
        then Some (sv_WriteCoalesceMs s, sv_WriteCoalesceMaxFrames s, 0 < sv_MaxDuration s) else None)"

definition watches_idle :: "ws_server \<Rightarrow> bool" where
  "watches_idle s \<longleftrightarrow> 0 < sv_SessionTimeout s"

text \<open>A handler that panics (\<open>Inl\<close>) is answered for.\<close>

definition recoveryMiddleware :: "(nat \<Rightarrow> string) \<Rightarrow> nat \<Rightarrow> request \<Rightarrow> err + response \<times> nat \<Rightarrow> response \<times> nat" where
  "recoveryMiddleware uuid n r served =
     (case served of Inl e \<Rightarrow> RespondError uuid n [] r internal_error | Inr x \<Rightarrow> x)"

section \<open>Properties\<close>

lemma panic_answered: "rs_status (fst (recoveryMiddleware uuid n r (Inl e))) = 500"
  by (simp add: recoveryMiddleware_def internal_error_def api_err_def)

text \<open>however it is configured and started, the server never waits for a slow client without end and never keeps a
  connection's frames without bound: all its limits are positive, every connection is watched for idleness and
  has channels of 64 frames, frames are collected for writing exactly if a time for it is configured, and the
  longest duration is kept exactly if it is configured.\<close>

theorem server_limits_always_set:
  "list_all (\<lambda>s. (let h = ServeWithListener s; l = ListenAndServe s; o' = connection_options s in
      list_all (\<lambda>x. 0 < x) [hs_ReadHeaderTimeout h, hs_ReadTimeout h, hs_WriteTimeout h, hs_IdleTimeout h, hs_MaxHeaderBytes h,
        hs_shutdown h, hs_ReadHeaderTimeout l, hs_ReadTimeout l, hs_WriteTimeout l, hs_IdleTimeout l, hs_MaxHeaderBytes l,
        hs_shutdown l] \<and>
      watches_idle s \<and> wo_in o' = 64 \<and> wo_out o' = 64 \<and> wo_coalesce o' = (0 < cf_WSWriteCoalesceMs c) \<and>
      0 < wo_batch o' \<and> wo_limit o' = (0 < rtcMaxDuration c)))
    [configured_server c, listener_server c]"
  by (simp add: Let_def configured_server_def listener_server_def server_with_port_def ServeWithListener_def
      ListenAndServe_def http_limits_def if_set_def seconds_def connection_options_def ConnTransport_options_def
      or_default_def watches_idle_def)

text \<open>TLS is used if it is enabled with both files; enabled with one of them missing, the server listens in the
  clear without an error.\<close>

lemma tls_needs_both_files:
  "hs_tls (ListenAndServe (configured_server c)) =
     (if cf_TLSEnable c \<and> cf_TLSCertFile c \<noteq> [] \<and> cf_TLSKeyFile c \<noteq> []
      then Some (cf_TLSCertFile c, cf_TLSKeyFile c) else None)"
  by (simp add: ListenAndServe_def configured_server_def server_with_port_def Let_def)

end
