(* ===== verification/Plugins.thy ===== *)
theory Plugins
  imports FilterProcs Aggregators ExternalChain Rtvi AudioProc Voice Config
begin

text \<open>
  The pipeline without a voice line: the processors a configuration names under \<^verbatim>\<open>plugins\<close>, built from the
  registry that \<^verbatim>\<open>main.go\<close> and the \<^verbatim>\<open>init\<close> functions of the processor packages fill, in front of a sink. No
  processor of the registry pushes a frame upstream when it gets one from above, so a frame only moves down; the
  lemmas below prove this, and that no processor fails when the ones behind it do not.
\<close>

section \<open>The registry\<close>

datatype plug =
    PEcho
  | PLogger "string list"
  | PAggregator text_agg
  | PDTMF dtmf_proc
  | PGated gated
  | PFullResponse full_response
  | PLLMText "sentence_agg llm_text"
  | PUserResponse user_response
  | PGatedContext gated_context
  | PSummarizer summarizer
  | PInterruption interruption_controller
  | PVAD vad_proc
  | PAudioBuffer audio_buffer
  | PAudioFilter "audio_filter option list option"
  | PFrameFilter "string set"
  | PFunctionFilter function_filter
  | PIdentity
  | PNull
  | PSTTMute stt_mute
  | PWakeCheck wake_check
  | PWakeNotifier wake_notifier
  | PExternalChain external_chain
  | PRTVI rtvi

text \<open>What the processors use of the world: the chain's HTTP service, the values of JSON texts, the rounding of
  the stop time, and \<open>pg_find\<close>, which compiles wake phrases and gives the end of the first match in a text.\<close>

record 'w plug_env =
  pg_api :: "'w chain_api"
  pg_parse :: text_parser
  pg_secs :: "real \<Rightarrow> rat"
  pg_find :: "string list \<Rightarrow> string \<Rightarrow> nat option"

type_synonym constructor = "string \<Rightarrow> any option \<Rightarrow> plug"

text \<open>Options are decoded with the error dropped; no options leave the zero value. An element of a list of
  strings that is none is the empty string.\<close>

definition options_into :: "(string \<times> 's setter) list \<Rightarrow> any option \<Rightarrow> 's \<Rightarrow> 's" where
  "options_into flds opts s = (case opts of None \<Rightarrow> s | Some v \<Rightarrow> lenient_into flds v s)"

definition set_names :: "(string list \<Rightarrow> 's \<Rightarrow> 's) \<Rightarrow> 's setter" where
  "set_names upd v s =
     (case v of
        AArr vs \<Rightarrow> Some (upd (map (\<lambda>x. case x of AStr t \<Rightarrow> t | _ \<Rightarrow> []) vs) s)
      | ANil \<Rightarrow> Some (upd [] s)
      | _ \<Rightarrow> None)"

definition main_plugins :: "(string \<times> constructor) list" where
  "main_plugins =
     [(''echo'', \<lambda>name _. PEcho),
      (''logger'', \<lambda>name _. PLogger []),
      (''aggregator'', \<lambda>name _. PAggregator (NewAggregator [] 0 0)),
      (''dtmf_aggregator'', \<lambda>name _. PDTMF (NewDTMF 0 [] [] 0)),
      (''gated'', \<lambda>name _. PGated (NewGated None None True (Some Downstream))),
      (''llmfullresponse'', \<lambda>name _. PFullResponse (NewFullResponse False)),
      (''llmtext'', \<lambda>name _. PLLMText \<lparr>lt_agg = NewSentenceAggregator [] 0, lt_ids = 0\<rparr>),
      (''userresponse'', \<lambda>name _. PUserResponse (NewUserResponse 0)),
      (''gated_llm_context'', \<lambda>name _. PGatedContext (NewGatedContext False)),
      (''llmcontextsummarizer'', \<lambda>name _. PSummarizer (NewSummarizer None DefaultConfig 0))]"

section \<open>Audio\<close>

record filter_option =
  fo_type :: string
  fo_gain :: rat

definition filter_option_of :: "any \<Rightarrow> filter_option" where
  "filter_option_of v =
     lenient_into [(''type'', set_string (\<lambda>x. fo_type_update (\<lambda>_. x))),
       (''gain'', set_number (\<lambda>x. fo_gain_update (\<lambda>_. x)))] v \<lparr>fo_type = [], fo_gain = 0\<rparr>"

definition set_filters :: "filter_option list setter" where
  "set_filters v s =
     (case v of AArr vs \<Rightarrow> Some (map filter_option_of vs) | ANil \<Rightarrow> Some [] | _ \<Rightarrow> None)"

definition option_filter :: "filter_option \<Rightarrow> audio_filter option list" where
  "option_filter o' =
     (if fo_type o' = ''gain'' then [Some (GainApply (Some (NewGainFilter (of_rat (fo_gain o')))))] else [])"

definition NewAudioFilterProcessorFromOptions :: "string \<Rightarrow> any option \<Rightarrow> plug" where
  "NewAudioFilterProcessorFromOptions name opts =
     (let fs = concat (map option_filter (options_into [(''filters'', set_filters)] opts []))
      in PAudioFilter (if fs = [] then None else Some fs))"

definition audio_plugins :: "(string \<times> constructor) list" where
  "audio_plugins =
     [(''vad'', \<lambda>name _. PVAD (NewVADProcessor (NewEnergyAnalyzer zero_params) 200000000 0)),
      (''audio_buffer'', \<lambda>name _. PAudioBuffer (NewAudioBufferProcessor 0 1 0 False)),
      (''audio_filter'', NewAudioFilterProcessorFromOptions)]"

section \<open>Filters, interruptions and frameworks\<close>

definition NewFrameFilterFromOptions :: "any option \<Rightarrow> plug" where
  "NewFrameFilterFromOptions opts =
     PFrameFilter (set (options_into [(''allowed_types'', set_names (\<lambda>x _. x))] opts []))"

definition FunctionFilterOptions :: "any option \<Rightarrow> string \<times> bool" where
  "FunctionFilterOptions opts =
     options_into [(''direction'', set_string (\<lambda>x o'. (x, snd o'))),
       (''filter_system_frames'', set_bool (\<lambda>x o'. (fst o', x)))] opts ([], False)"

definition strategy_of :: "string \<Rightarrow> mute_strategy" where
  "strategy_of s =
     (if s = ''first_speech'' then FirstSpeech
      else if s = ''mute_until_first_bot_complete'' then UntilFirstBotComplete
      else if s = ''always'' then AlwaysMute
      else if s = ''custom'' then CustomMute else OtherStrategy)"

definition NewSTTMuteFilterFromOptions :: "any option \<Rightarrow> plug" where
  "NewSTTMuteFilterFromOptions opts =
     PSTTMute (NewSTTMuteFilter
       (map strategy_of (options_into [(''strategies'', set_names (\<lambda>x _. x))] opts [])) None)"

definition NewWakeCheckFilterFromOptions :: "(string list \<Rightarrow> string \<Rightarrow> nat option) \<Rightarrow> any option \<Rightarrow> plug" where
  "NewWakeCheckFilterFromOptions fnd opts =
     (let (phrases, keep) = options_into [(''wake_phrases'', set_names (\<lambda>x o'. (x, snd o'))),
            (''keepalive_secs'', set_number (\<lambda>x o'. (fst o', x)))] opts ([], 0);
          keep' = (if keep \<le> 0 then 3 else keep)
      in PWakeCheck (NewWakeCheckFilter (fnd phrases) \<lfloor>keep' * 1000000000\<rfloor>))"

definition NewWakeNotifierFilterFromOptions :: "any option \<Rightarrow> plug" where
  "NewWakeNotifierFilterFromOptions opts =
     PWakeNotifier \<lparr>wn_notifier = False,
       wn_types = set (options_into [(''types'', set_names (\<lambda>x _. x))] opts []), wn_pred = None\<rparr>"

definition filter_plugins :: "(string list \<Rightarrow> string \<Rightarrow> nat option) \<Rightarrow> (string \<times> constructor) list" where
  "filter_plugins fnd =
     [(''frame_filter'', \<lambda>name opts. NewFrameFilterFromOptions opts),
      (''function_filter'', \<lambda>name opts. PFunctionFilter (NewFunctionFilterFromOptions
         (fst (FunctionFilterOptions opts)) (snd (FunctionFilterOptions opts)))),
      (''identity_filter'', \<lambda>name _. PIdentity),
      (''null_filter'', \<lambda>name _. PNull),
      (''stt_mute_filter'', \<lambda>name opts. NewSTTMuteFilterFromOptions opts),
      (''wake_check_filter'', \<lambda>name opts. NewWakeCheckFilterFromOptions fnd opts),
      (''wake_notifier_filter'', \<lambda>name opts. NewWakeNotifierFilterFromOptions opts)]"

definition NewInterruptionControllerFromOptions :: "any option \<Rightarrow> plug" where
  "NewInterruptionControllerFromOptions opts =
     (let (kind, words) = options_into [(''strategy'', set_string (\<lambda>x o'. (x, snd o'))),
            (''min_words'', set_int (\<lambda>x o'. (fst o', x)))] opts ([], 0)
      in PInterruption (NewInterruptionController (NewStrategy kind words) 0))"

definition voice_plugins :: "(string \<times> constructor) list" where
  "voice_plugins = [(''interruption_controller'', \<lambda>name opts. NewInterruptionControllerFromOptions opts)]"

definition framework_plugins :: "(string \<times> constructor) list" where
  "framework_plugins =
     [(''external_chain'', \<lambda>name opts. PExternalChain (NewExternalChainProcessorFromOptions name opts)),
      (''rtvi'', \<lambda>name opts. PRTVI (NewRTVIProcessorFromOptions name opts))]"

definition registry :: "(string list \<Rightarrow> string \<Rightarrow> nat option) \<Rightarrow> string \<rightharpoonup> constructor" where
  "registry fnd = map_of (main_plugins @ audio_plugins @ filter_plugins fnd @ voice_plugins @ framework_plugins)"

section \<open>The pipeline\<close>

fun plugins_of ::
  "(string \<rightharpoonup> constructor) \<Rightarrow> (string \<rightharpoonup> any) option \<Rightarrow> string list \<Rightarrow> err + plug list" where
  "plugins_of reg opts [] = Inr []"
| "plugins_of reg opts (name # names) =
     (case reg name of
        None \<Rightarrow> Inl (''unknown processor/plugin: '' @ name)
      | Some ctor \<Rightarrow>
          (case plugins_of reg opts names of
             Inl e \<Rightarrow> Inl e
           | Inr ps \<Rightarrow> Inr (ctor name (case opts of None \<Rightarrow> None | Some m \<Rightarrow> m name) # ps)))"

text \<open>What stands in front of the sink. Nothing is added before an unknown name is found, so the echo is alone.\<close>

definition plugin_pipeline :: "(string \<rightharpoonup> constructor) \<Rightarrow> config \<Rightarrow> plug list" where
  "plugin_pipeline reg c =
     (case plugins_of reg (cf_PluginOptions c) (cf_Plugins c) of Inl e \<Rightarrow> [PEcho] | Inr ps \<Rightarrow> ps)"

text \<open>The clock, the time stamp and the fresh identifier at a moment. The world and the counter of frames are
  handed from processor to processor; a processor draws all the numbers it needs before the next one does.\<close>

record moment =
  mo_now :: int
  mo_stamp :: string
  mo_uuid :: string

type_synonym 'w world_ids = "'w \<times> u64"

primrec plugin_step ::
  "'w plug_env \<Rightarrow> moment \<Rightarrow> plug \<Rightarrow> 'w world_ids \<Rightarrow> frame
     \<Rightarrow> (plug \<times> 'w world_ids) \<times> push list \<times> err option" where
  "plugin_step E m PEcho st f =
     (let (_, ps, e) = echo_ProcessFrame quiet_replies () Downstream f in ((PEcho, st), ps, e))"
| "plugin_step E m (PLogger p) st f =
     (let (p', ps, e) = logger_ProcessFrame quiet_replies p Downstream f in ((PLogger p', st), ps, e))"
| "plugin_step E m (PAggregator p) st f =
     (let (p', ps, e) = AggregatorProcessFrame quiet_replies (p\<lparr>ta_ids := snd st\<rparr>) f Downstream
      in ((PAggregator p', fst st, ta_ids p'), ps, e))"
| "plugin_step E m (PDTMF p) st f =
     (let (p', ps, e) = DTMFProcessFrame quiet_replies (p\<lparr>dt_ids := snd st\<rparr>) (mo_stamp m, f) Downstream
      in ((PDTMF p', fst st, dt_ids p'), ps, e))"
| "plugin_step E m (PGated p) st f =
     (let (p', ps, e) = GatedProcessFrame quiet_replies p f Downstream in ((PGated p', st), ps, e))"
| "plugin_step E m (PFullResponse p) st f =
     (let (p', ps, e, _) = FullResponseProcessFrame quiet_replies p f Downstream in ((PFullResponse p', st), ps, e))"
| "plugin_step E m (PLLMText p) st f =
     (let (p', ps, e) = LLMTextProcessFrame sentence_ops quiet_replies (p\<lparr>lt_ids := snd st\<rparr>) f Downstream
      in ((PLLMText p', fst st, lt_ids p'), ps, e))"
| "plugin_step E m (PUserResponse p) st f =
     (let (p', ps, e) = UserResponseProcessFrame quiet_replies (p\<lparr>ur_ids := snd st\<rparr>) (mo_stamp m, f) Downstream
      in ((PUserResponse p', fst st, ur_ids p'), ps, e))"
| "plugin_step E m (PGatedContext p) st f =
     (let (p', ps, e) = GatedContextProcessFrame quiet_replies p f Downstream in ((PGatedContext p', st), ps, e))"
| "plugin_step E m (PSummarizer p) st f =
     (let (p', ps, e) = SummarizerProcessFrame quiet_replies (p\<lparr>sz_ids := snd st\<rparr>) (mo_uuid m, f) Downstream
      in ((PSummarizer p', fst st, sz_ids p'), ps, e))"
| "plugin_step E m (PInterruption p) st f =
     (let (p', ps, e) = InterruptionProcessFrame quiet_replies (p\<lparr>ic_ids := snd st\<rparr>) f Downstream
      in ((PInterruption p', fst st, ic_ids p'), ps, e))"
| "plugin_step E m (PVAD p) st f =
     (let (p', ps, e) = VADProcessFrame (pg_secs E) quiet_replies (p\<lparr>vp_ids := snd st\<rparr>) (mo_now m, f) Downstream
      in ((PVAD p', fst st, vp_ids p'), ps, e))"
| "plugin_step E m (PAudioBuffer p) st f =
     (let (p', ps, e, _) = AudioBufferProcessFrame quiet_replies p f Downstream
      in ((PAudioBuffer p', st), map (\<lambda>(d, f, _). (d, f)) ps, e))"
| "plugin_step E m (PAudioFilter p) st f =
     (let (p', ps, e) = AudioFilterProcessFrame quiet_replies p f Downstream in ((PAudioFilter p', st), ps, e))"
| "plugin_step E m (PFrameFilter p) st f =
     (let (p', ps, e) = FrameFilterProcessFrame quiet_replies p f Downstream in ((PFrameFilter p', st), ps, e))"
| "plugin_step E m (PFunctionFilter p) st f =
     (let (p', ps, e) = FunctionFilterProcessFrame quiet_replies p f Downstream in ((PFunctionFilter p', st), ps, e))"
| "plugin_step E m PIdentity st f =
     (let (_, ps, e) = IdentityFilterProcessFrame quiet_replies () f Downstream in ((PIdentity, st), ps, e))"
| "plugin_step E m PNull st f =
     (let (_, ps, e) = NullFilterProcessFrame quiet_replies () f Downstream in ((PNull, st), ps, e))"
| "plugin_step E m (PSTTMute p) st f =
     (let (p', ps, e) = STTMuteProcessFrame quiet_replies p f Downstream in ((PSTTMute p', st), ps, e))"
| "plugin_step E m (PWakeCheck p) st f =
     (let (p', ps, e) = WakeCheckProcessFrame quiet_replies p (mo_now m, f) Downstream in ((PWakeCheck p', st), ps, e))"
| "plugin_step E m (PWakeNotifier p) st f =
     (let (p', ps, e, _) = WakeNotifierProcessFrame quiet_replies p f Downstream in ((PWakeNotifier p', st), ps, e))"
| "plugin_step E m (PExternalChain p) st f =
     (let (st', ps, e) = ExternalChain.ProcessFrame (pg_api E) (pg_parse E) quiet_replies p st Downstream f
      in ((PExternalChain p, st'), ps, e))"
| "plugin_step E m (PRTVI p) st f =
     (let (p', ps, e) = RTVIProcessFrame quiet_replies (p, snd st) (Downstream, f)
      in ((PRTVI (fst p'), fst st, snd p'), ps, e))"

text \<open>A frame goes depth first: what a processor pushes goes through the processors behind it, one frame after
  the other. \<open>n\<close> is how many processors are left.\<close>

primrec through ::
  "'w plug_env \<Rightarrow> moment \<Rightarrow> nat \<Rightarrow> plug list \<times> 'w world_ids \<Rightarrow> frame
     \<Rightarrow> (plug list \<times> 'w world_ids) \<times> frame list" where
  "through E m 0 s f = (s, [f])"
| "through E m (Suc n) s f =
     (case fst s of
        [] \<Rightarrow> (s, [f])
      | p # ps \<Rightarrow>
          (let ((p', st1), gs, _) = plugin_step E m p (snd s) f;
               ((ps', st2), out) = run (through E m n) (ps, st1) (map snd gs)
           in ((p' # ps', st2), out)))"

text \<open>A frame comes from the transport, or the timer of the keypad aggregator at a place expires.\<close>

datatype line_event = LFrame moment frame | LExpire moment nat

definition line_step ::
  "'w plug_env \<Rightarrow> plug list \<times> 'w world_ids \<Rightarrow> line_event \<Rightarrow> (plug list \<times> 'w world_ids) \<times> frame list" where
  "line_step E s ev =
     (case ev of
        LFrame m f \<Rightarrow> through E m (length (fst s)) s f
      | LExpire m k \<Rightarrow>
          (case drop k (fst s) of
             PDTMF p # ps \<Rightarrow>
               (let (p', gs) = flushAndForward (p\<lparr>dt_ids := snd (snd s)\<rparr>) (mo_stamp m) None;
                    ((ps', st2), out) = run (through E m (length ps)) (ps, fst (snd s), dt_ids p') (map snd gs)
                in ((take k (fst s) @ PDTMF p' # ps', st2), out))
           | _ \<Rightarrow> (s, [])))"

definition frames_in :: "line_event list \<Rightarrow> frame list" where
  "frames_in evs = concat (map (\<lambda>ev. case ev of LFrame m f \<Rightarrow> [f] | LExpire m k \<Rightarrow> []) evs)"

section \<open>Control frames\<close>

definition control_body :: "body \<Rightarrow> bool" where
  "control_body b =
     (case b of StartFrame _ _ _ _ _ \<Rightarrow> True | EndFrame \<Rightarrow> True | CancelFrame _ \<Rightarrow> True
      | StopFrame \<Rightarrow> True | _ \<Rightarrow> False)"

definition is_control :: "frame \<Rightarrow> bool" where
  "is_control f = control_body (fbody f)"

abbreviation controls :: "frame list \<Rightarrow> frame list" where
  "controls \<equiv> filter is_control"

lemmas new_frames_defs = NewTextFrame_def NewAggregatedTextFrame_def NewTranscriptionFrame_def
  NewInterruptionFrame_def NewRTVIServerMessageFrame_def

lemma control_fresh [simp]: "is_control (fst (mk_frame b ids)) = control_body b"
  by (simp add: is_control_def)

lemma control_frame [simp]: "is_control (Frame ba b) = control_body b"
  by (simp add: is_control_def)

text \<open>What is asked of a step: the control frames it pushes are the one it got, everything goes down, no error.\<close>

definition step_ok :: "frame \<Rightarrow> push list \<times> err option \<Rightarrow> bool" where
  "step_ok f r \<longleftrightarrow> controls (map snd (fst r)) = controls [f] \<and> list_all (\<lambda>x. fst x = Downstream) (fst r) \<and> snd r = None"

lemma hand_ok [simp]: "step_ok f (snd (hand quiet_replies s Downstream f))"
  by (simp add: step_ok_def hand_def quiet_replies_def)

lemma quiet [simp]: "quiet_replies d f = None"
  by (simp add: quiet_replies_def)

lemma agg_ok: "step_ok f (snd (AggregatorProcessFrame quiet_replies p f Downstream))"
  by (cases "fbody f")
    (simp_all add: AggregatorProcessFrame_def agg_tryFlush_def agg_flush_def step_ok_def
      is_control_def control_body_def NewTextFrame_def Let_def case_prod_beta)

lemma dtmf_ok: "step_ok f (snd (DTMFProcessFrame quiet_replies p (ts, f) Downstream))"
  by (cases "fbody f")
    (simp_all add: DTMFProcessFrame_def flushAndForward_def handleDTMF_def step_ok_def
      is_control_def control_body_def new_frames_defs Let_def case_prod_beta hand_def)

lemma control_is_system: "is_control f \<Longrightarrow> gated_isSystemFrame f"
  by (cases "fbody f") (simp_all add: is_control_def control_body_def gated_isSystemFrame_def)

lemma gated_ok:
  assumes "controls (ga_acc p) = []"
  shows "step_ok f (snd (GatedProcessFrame quiet_replies p f Downstream)) \<and>
    controls (ga_acc (fst (GatedProcessFrame quiet_replies p f Downstream))) = []"
proof (cases "gated_isSystemFrame f")
  case True
  then show ?thesis using assms by (simp add: GatedProcessFrame_def)
next
  case False
  then have "\<not> is_control f" using control_is_system by blast
  with False assms show ?thesis
    by (simp add: GatedProcessFrame_def step_ok_def hand_all_ok comp_def list_all_iff Let_def hand_def)
qed

lemma full_response_ok:
  "step_ok f (let (p', ps, e, _) = FullResponseProcessFrame quiet_replies p f Downstream in (ps, e))"
  by (simp add: FullResponseProcessFrame_def step_ok_def Let_def case_prod_beta)

lemma segments_ok:
  "controls (map snd (fst (snd (push_segments quiet_replies skip ids segs)))) = [] \<and>
   list_all (\<lambda>x. fst x = Downstream) (fst (snd (push_segments quiet_replies skip ids segs))) \<and>
   snd (snd (push_segments quiet_replies skip ids segs)) = None"
proof (induction segs arbitrary: ids)
  case (Cons seg segs)
  then show ?case
    by (cases seg) (simp add: NewAggregatedTextFrame_def control_body_def Let_def case_prod_beta split: option.split)
qed simp

lemma llm_text_ok: "step_ok f (snd (LLMTextProcessFrame ops quiet_replies p f Downstream))"
  by (cases "fbody f")
    (use segments_ok in \<open>auto simp: LLMTextProcessFrame_def lt_flush_def step_ok_def
      is_control_def control_body_def Let_def case_prod_beta hand_def\<close>)

lemma user_response_ok: "step_ok f (snd (UserResponseProcessFrame quiet_replies p (ts, f) Downstream))"
  by (cases "fbody f")
    (simp_all add: UserResponseProcessFrame_def flushThenForward_def step_ok_def
      is_control_def control_body_def new_frames_defs Let_def case_prod_beta hand_def)

lemma gated_context_ok: "step_ok f (snd (GatedContextProcessFrame quiet_replies p f Downstream))"
  by (cases "fbody f") (simp_all add: GatedContextProcessFrame_def step_ok_def is_control_def control_body_def hand_def)

lemma summarizer_ok: "step_ok f (snd (SummarizerProcessFrame quiet_replies p (u, f) Downstream))"
  by (cases "fbody f")
    (simp_all add: SummarizerProcessFrame_def requestSummarization_def step_ok_def
      is_control_def control_body_def Let_def case_prod_beta hand_def)

lemma interruption_ok: "step_ok f (snd (InterruptionProcessFrame quiet_replies p f Downstream))"
  by (cases "fbody f")
    (simp_all add: InterruptionProcessFrame_def step_ok_def is_control_def control_body_def Let_def case_prod_beta hand_def)

lemma vad_ok: "step_ok f (snd (VADProcessFrame secs quiet_replies p (now, f) Downstream))"
  by (cases "fbody f")
    (simp_all add: VADProcessFrame_def vad_transition_def step_ok_def is_control_def control_body_def
      Let_def case_prod_beta hand_def)

lemma audio_buffer_ok:
  "step_ok f (let (p', ps, e, _) = AudioBufferProcessFrame quiet_replies p f Downstream
     in (map (\<lambda>(d, f, _). (d, f)) ps, e))"
  by (auto simp: AudioBufferProcessFrame_def step_ok_def Let_def case_prod_beta split: option.split)

lemma audio_filter_ok: "step_ok f (snd (AudioFilterProcessFrame quiet_replies p f Downstream))"
  by (cases f; cases "fbody f") (simp_all add: AudioFilterProcessFrame_def step_ok_def control_body_def hand_def)

lemma filters_ok:
  "step_ok f (snd (FrameFilterProcessFrame quiet_replies al f Downstream))"
  "step_ok f (snd (FunctionFilterProcessFrame quiet_replies ff f Downstream))"
  "step_ok f (snd (IdentityFilterProcessFrame quiet_replies u f Downstream))"
  "step_ok f (snd (NullFilterProcessFrame quiet_replies u f Downstream))"
  "step_ok f (snd (STTMuteProcessFrame quiet_replies sm f Downstream))"
  by (cases "fbody f"; simp add: FrameFilterProcessFrame_def FunctionFilterProcessFrame_def
      IdentityFilterProcessFrame_def NullFilterProcessFrame_def STTMuteProcessFrame_def isLifecycleFrame_def
      isSTTOrVADFrame_def forward_def drop_frame_def step_ok_def is_control_def control_body_def Let_def hand_def)+

lemma wake_check_ok: "step_ok f (snd (WakeCheckProcessFrame quiet_replies p (now, f) Downstream))"
  by (cases "fbody f")
    (simp_all add: WakeCheckProcessFrame_def forward_def drop_frame_def step_ok_def is_control_def control_body_def
      Let_def hand_def split: option.split)

lemma new_frames_ok:
  "(\<And>b. b \<in> set bs \<Longrightarrow> \<not> control_body b) \<Longrightarrow> controls (map snd (fst (new_frames bs ids))) = []"
  "list_all (\<lambda>x. fst x = Downstream) (fst (new_frames bs ids))"
  by (induction bs arbitrary: ids) (simp_all add: Let_def case_prod_beta)

lemma chain_ok: "step_ok f (snd (ExternalChain.ProcessFrame api parse quiet_replies p st Downstream f))"
proof (cases "\<exists>c. fbody f = LLMContextFrame c \<and> ec_url p \<noteq> [] \<and> lastUserMessageText c \<noteq> []")
  case True
  then obtain c where c: "fbody f = LLMContextFrame c" "ec_url p \<noteq> []" "lastUserMessageText c \<noteq> []" by blast
  let ?a = "fst (chain_answer api parse p (lastUserMessageText c) (fst st))"
  let ?bs = "LLMFullResponseStartFrame # map (\<lambda>t. LLMTextFrame (text_of t)) (fst ?a) @
    (case snd ?a of None \<Rightarrow> [] | Some m \<Rightarrow> [ErrorFrame m False (ec_name p)]) @ [LLMFullResponseEndFrame]"
  have "snd (ExternalChain.ProcessFrame api parse quiet_replies p st Downstream f) =
      (fst (new_frames ?bs (snd st)), None)"
    using c by (simp add: ExternalChain.ProcessFrame_def Let_def case_prod_beta del: new_frames.simps)
  moreover have "\<not> control_body b" if "b \<in> set ?bs" for b
    using that by (auto simp: control_body_def split: option.splits)
  then have "controls (map snd (fst (new_frames ?bs (snd st)))) = []" by (rule new_frames_ok(1))
  moreover have "controls [f] = []" using c by (simp add: is_control_def control_body_def)
  ultimately show ?thesis using new_frames_ok(2) [of ?bs "snd st"] by (simp add: step_ok_def del: new_frames.simps)
next
  case False
  then show ?thesis
    by (cases "fbody f") (auto simp: ExternalChain.ProcessFrame_def step_ok_def hand_def)
qed

lemma rtvi_ok: "step_ok f (snd (RTVIProcessFrame quiet_replies p (Downstream, f)))"
  by (cases "fbody f")
    (simp_all add: RTVIProcessFrame_def handleClientMessage_def step_ok_def is_control_def control_body_def
      new_frames_defs Let_def case_prod_beta hand_def)


text \<open>A gate that holds a control frame would release it later; the one of the registry holds nothing.\<close>

definition plugin_inv :: "plug \<Rightarrow> bool" where
  "plugin_inv p = (case p of PGated g \<Rightarrow> controls (ga_acc g) = [] | _ \<Rightarrow> True)"

lemmas handlers_ok = agg_ok dtmf_ok gated_ok full_response_ok llm_text_ok user_response_ok gated_context_ok
  summarizer_ok interruption_ok vad_ok audio_buffer_ok audio_filter_ok filters_ok wake_check_ok chain_ok rtvi_ok

lemma plugin_step_ok:
  assumes "plugin_inv p"
  shows "step_ok f (snd (plugin_step E m p st f)) \<and> plugin_inv (fst (fst (plugin_step E m p st f)))"
proof (cases p)
  case (PFullResponse q)
  then show ?thesis using full_response_ok [of f q] by (simp add: plugin_inv_def Let_def case_prod_beta)
next
  case (PAudioBuffer q)
  then show ?thesis using audio_buffer_ok [of f q] by (simp add: plugin_inv_def Let_def case_prod_beta)
next
  case (PGated q)
  then show ?thesis using gated_ok [of q f] assms by (simp add: plugin_inv_def Let_def case_prod_beta)
next
  case PEcho
  then show ?thesis by (simp add: plugin_inv_def Let_def case_prod_beta echo_ProcessFrame_def)
next
  case (PLogger q)
  then show ?thesis by (simp add: plugin_inv_def Let_def case_prod_beta logger_ProcessFrame_def)
next
  case (PWakeNotifier q)
  then show ?thesis
    by (simp add: plugin_inv_def Let_def case_prod_beta WakeNotifierProcessFrame_def step_ok_def)
qed (simp_all add: plugin_inv_def Let_def case_prod_beta handlers_ok)

text \<open>The law of a step and its run, over what a line keeps of a frame.\<close>

lemma run_keeps:
  assumes "\<And>s e. I s \<Longrightarrow> keep (snd (stp s e)) = keep1 e \<and> I (fst (stp s e))"
    and "keep [] = []" "\<And>xs ys. keep (xs @ ys) = keep xs @ keep ys" "I s"
  shows "keep (snd (run stp s es)) = concat (map keep1 es) \<and> I (fst (run stp s es))"
  using assms(4) by (induction es arbitrary: s) (use assms(1-3) in \<open>auto simp: case_prod_beta Let_def\<close>)

lemma concat_controls: "concat (map (\<lambda>f. controls [f]) fs) = controls fs"
  by (induction fs) auto

lemma through_ok:
  assumes "list_all plugin_inv (fst s)"
  shows "controls (snd (through E m n s f)) = controls [f] \<and> list_all plugin_inv (fst (fst (through E m n s f))) \<and>
    length (fst (fst (through E m n s f))) = length (fst s)"
  using assms
proof (induction n arbitrary: s f)
  case (Suc n)
  show ?case
  proof (cases "fst s")
    case (Cons p ps)
    let ?r = "plugin_step E m p (snd s) f"
    have p: "plugin_inv p" and ps: "list_all plugin_inv ps" using Suc.prems Cons by auto
    from plugin_step_ok [OF p, of f E m "snd s"]
    have st: "controls (map snd (fst (snd ?r))) = controls [f]" "plugin_inv (fst (fst ?r))"
      by (auto simp: step_ok_def)
    let ?inv = "\<lambda>t. list_all plugin_inv (fst t) \<and> length (fst t) = length ps"
    have "controls (snd (run (through E m n) (ps, snd (fst ?r)) (map snd (fst (snd ?r))))) =
        concat (map (\<lambda>f. controls [f]) (map snd (fst (snd ?r)))) \<and>
      ?inv (fst (run (through E m n) (ps, snd (fst ?r)) (map snd (fst (snd ?r)))))"
      by (rule run_keeps [where I = ?inv]) (use Suc.IH ps in auto)
    then have "controls (snd (run (through E m n) (ps, snd (fst ?r)) (map snd (fst (snd ?r))))) = controls [f] \<and>
      ?inv (fst (run (through E m n) (ps, snd (fst ?r)) (map snd (fst (snd ?r)))))"
      by (simp only: concat_controls st)
    with st Cons show ?thesis by (simp add: case_prod_beta Let_def del: filter.simps)
  qed (use Suc.prems in simp)
qed simp


lemma through_run_ok:
  assumes "list_all plugin_inv (fst s)"
  shows "controls (snd (run (through E m n) s fs)) = controls fs \<and>
    list_all plugin_inv (fst (fst (run (through E m n) s fs)))"
proof -
  have "controls (snd (run (through E m n) s fs)) = concat (map (\<lambda>f. controls [f]) fs) \<and>
    list_all plugin_inv (fst (fst (run (through E m n) s fs)))"
  proof (rule run_keeps [where I = "\<lambda>t. list_all plugin_inv (fst t)"])
    fix t :: "plug list \<times> 'a world_ids" and f
    assume "list_all plugin_inv (fst t)"
    then show "controls (snd (through E m n t f)) = controls [f] \<and> list_all plugin_inv (fst (fst (through E m n t f)))"
      using through_ok by blast
  qed (use assms in simp_all)
  then show ?thesis by (simp only: concat_controls)
qed

lemma expire_ok:
  "controls (map snd (snd (flushAndForward p ts None))) = []"
  by (simp add: flushAndForward_def new_frames_defs control_body_def case_prod_beta Let_def)

lemma line_step_ok:
  assumes "list_all plugin_inv (fst s)"
  shows "controls (snd (line_step E s ev)) = controls (frames_in [ev]) \<and> list_all plugin_inv (fst (fst (line_step E s ev)))"
proof (cases ev)
  case (LFrame m f)
  then show ?thesis using through_ok [OF assms, of E m "length (fst s)" f] by (simp add: line_step_def frames_in_def)
next
  case (LExpire m k)
  show ?thesis
  proof (cases "\<exists>p ps. drop k (fst s) = PDTMF p # ps")
    case True
    then obtain p ps where d: "drop k (fst s) = PDTMF p # ps" by blast
    let ?r = "flushAndForward (p\<lparr>dt_ids := snd (snd s)\<rparr>) (mo_stamp m) None"
    have parts: "list_all plugin_inv (take k (fst s))" "list_all plugin_inv (drop k (fst s))"
      using assms by (metis append_take_drop_id list_all_append)+
    have "list_all plugin_inv ps" using parts(2) d by simp
    then have "controls (snd (run (through E m (length ps)) (ps, fst (snd s), dt_ids (fst ?r)) (map snd (snd ?r)))) = [] \<and>
      list_all plugin_inv (fst (fst (run (through E m (length ps)) (ps, fst (snd s), dt_ids (fst ?r)) (map snd (snd ?r)))))"
      using through_run_ok [of "(ps, fst (snd s), dt_ids (fst ?r))" E m "length ps" "map snd (snd ?r)"]
      by (simp only: expire_ok fst_conv)
    with LExpire d parts show ?thesis
      by (simp add: line_step_def frames_in_def case_prod_beta Let_def plugin_inv_def)
  next
    case False
    then have "line_step E s ev = (s, [])"
      using LExpire by (auto simp: line_step_def split: list.split plug.split)
    with assms LExpire show ?thesis by (simp add: frames_in_def)
  qed
qed

section \<open>Configured lines\<close>

lemmas registered = registry_def main_plugins_def audio_plugins_def filter_plugins_def voice_plugins_def
  framework_plugins_def

lemma registered_inv: "registry fnd name = Some ctor \<Longrightarrow> plugin_inv (ctor nm opts)"
  by (drule map_of_SomeD [where xs = "main_plugins @ audio_plugins @ filter_plugins fnd @ voice_plugins @ framework_plugins",
        folded registry_def])
    (auto simp: registered plugin_inv_def NewGated_def NewAudioFilterProcessorFromOptions_def
      NewFrameFilterFromOptions_def NewSTTMuteFilterFromOptions_def NewWakeCheckFilterFromOptions_def
      NewWakeNotifierFilterFromOptions_def NewInterruptionControllerFromOptions_def Let_def case_prod_beta)

lemma plugins_of_all:
  assumes "\<And>name ctor opts. name \<in> set names \<Longrightarrow> reg name = Some ctor \<Longrightarrow> P (ctor name opts)"
    and "plugins_of reg opts names = Inr ps"
  shows "list_all P ps"
  using assms by (induction names arbitrary: ps) (auto split: option.splits sum.splits)

lemma pipeline_all:
  assumes "\<And>name ctor opts. name \<in> set (cf_Plugins c) \<Longrightarrow> reg name = Some ctor \<Longrightarrow> P (ctor name opts)" "P PEcho"
  shows "list_all P (plugin_pipeline reg c)"
  using plugins_of_all [of "cf_Plugins c" reg P] assms
  by (auto simp: plugin_pipeline_def split: sum.split)

lemma frames_in_simps [simp]:
  "frames_in [] = []" "frames_in (LFrame m f # evs) = f # frames_in evs"
  "frames_in (LExpire m k # evs) = frames_in evs"
  by (simp_all add: frames_in_def)

lemma frames_in_Cons: "frames_in (ev # evs) = frames_in [ev] @ frames_in evs"
  by (simp add: frames_in_def)

text \<open>C12: Whatever plugins a configuration names, in whatever order and with whatever options, the frames that
  start, end, cancel and stop a session reach the sink exactly as they came in: each once, unchanged, in order;
  none is held back by a gate or a filter and none is made up.\<close>

theorem control_frames_pass_plugins:
  "controls (snd (run (line_step E) (plugin_pipeline (registry fnd) c, st) evs)) = controls (frames_in evs)"
proof -
  have start: "list_all plugin_inv (plugin_pipeline (registry fnd) c)"
    by (rule pipeline_all) (erule registered_inv, simp add: plugin_inv_def)
  have "concat (map (\<lambda>ev. controls (frames_in [ev])) evs) = controls (frames_in evs)"
    by (induction evs) (simp, subst (2) frames_in_Cons, simp)
  moreover have "controls (snd (run (line_step E) (plugin_pipeline (registry fnd) c, st) evs)) =
      concat (map (\<lambda>ev. controls (frames_in [ev])) evs) \<and>
    list_all plugin_inv (fst (fst (run (line_step E) (plugin_pipeline (registry fnd) c, st) evs)))"
  proof (rule run_keeps [where I = "\<lambda>t. list_all plugin_inv (fst t)"])
    fix t :: "plug list \<times> 'a world_ids" and ev
    assume "list_all plugin_inv (fst t)"
    then show "controls (snd (line_step E t ev)) = controls (frames_in [ev]) \<and>
        list_all plugin_inv (fst (fst (line_step E t ev)))"
      by (rule line_step_ok)
  qed (use start in simp_all)
  ultimately show ?thesis by simp
qed

section \<open>Plugins that do nothing\<close>

text \<open>Built from a configuration, these have no predicate, callback, notifier or context to work with.\<close>

definition inert_names :: "string list" where
  "inert_names =
     [''echo'', ''logger'', ''gated'', ''llmfullresponse'', ''llmcontextsummarizer'', ''audio_buffer'',
      ''function_filter'', ''identity_filter'', ''wake_notifier_filter'']"

definition idle :: "plug \<Rightarrow> bool" where
  "idle p =
     (case p of
        PEcho \<Rightarrow> True | PLogger q \<Rightarrow> True | PFullResponse q \<Rightarrow> True | PIdentity \<Rightarrow> True | PWakeNotifier q \<Rightarrow> True
      | PAudioBuffer q \<Rightarrow> True
      | PGated g \<Rightarrow> ga_open g \<and> ga_close_fn g = (\<lambda>_. False) \<and> ga_dir g = Downstream
      | PSummarizer z \<Rightarrow> messages (sz_context z) = [] \<and> sz_config z = DefaultConfig
      | PFunctionFilter q \<Rightarrow> ff_filter q = (\<lambda>_. True)
      | _ \<Rightarrow> False)"

lemma summary_of_nothing: "messages c = [] \<Longrightarrow> applySummary c s i k = c"
  by (simp add: applySummary_def Let_def)

lemma summarizer_idle:
  assumes "messages (sz_context z) = []" "sz_config z = DefaultConfig"
  shows "map snd (fst (snd (SummarizerProcessFrame quiet_replies z (u, f) Downstream))) = [f] \<and>
    messages (sz_context (fst (SummarizerProcessFrame quiet_replies z (u, f) Downstream))) = [] \<and>
    sz_config (fst (SummarizerProcessFrame quiet_replies z (u, f) Downstream)) = DefaultConfig"
proof -
  have "\<not> shouldSummarize z"
    using assms by (simp add: shouldSummarize_def estimateContextTokens_def DefaultConfig_def Let_def)
  then show ?thesis
    using assms by (cases "fbody f")
      (simp_all add: SummarizerProcessFrame_def handleSummaryResult_def summary_of_nothing hand_def Let_def)
qed

lemma idle_step:
  assumes "idle p"
  shows "map snd (fst (snd (plugin_step E m p st f))) = [f] \<and> idle (fst (fst (plugin_step E m p st f)))"
proof (cases p)
  case (PSummarizer z)
  then show ?thesis
    using assms summarizer_idle [of "z\<lparr>sz_ids := snd st\<rparr>" "mo_uuid m" f]
    by (simp add: idle_def Let_def case_prod_beta)
next
  case (PAudioBuffer q)
  then show ?thesis
    by (simp add: idle_def AudioBufferProcessFrame_def Let_def case_prod_beta split: option.split)
qed (use assms in \<open>simp_all add: idle_def echo_ProcessFrame_def logger_ProcessFrame_def GatedProcessFrame_def
    FullResponseProcessFrame_def FunctionFilterProcessFrame_def IdentityFilterProcessFrame_def
    WakeNotifierProcessFrame_def forward_def hand_def Let_def case_prod_beta\<close>)


lemma registered_idle: "name \<in> set inert_names \<Longrightarrow> registry fnd name = Some ctor \<Longrightarrow> idle (ctor nm opts)"
  by (auto simp: inert_names_def registered idle_def NewGated_def NewSummarizer_def DefaultConfig_def
      NewFunctionFilterFromOptions_def NewFunctionFilter_def NewWakeNotifierFilterFromOptions_def)

lemma through_idle:
  assumes "list_all idle (fst s)"
  shows "snd (through E m n s f) = [f] \<and> list_all idle (fst (fst (through E m n s f)))"
  using assms
proof (induction n arbitrary: s f)
  case (Suc n)
  show ?case
  proof (cases "fst s")
    case (Cons p ps)
    let ?r = "plugin_step E m p (snd s) f"
    have st: "map snd (fst (snd ?r)) = [f]" "idle (fst (fst ?r))" and ps: "list_all idle ps"
      using idle_step [of p E m "snd s" f] Suc.prems Cons by auto
    show ?thesis
      using Suc.IH [of "(ps, snd (fst ?r))" f] st ps Cons by (simp add: case_prod_beta Let_def)
  qed (use Suc.prems in simp)
qed simp

lemma line_step_idle:
  assumes "list_all idle (fst s)"
  shows "snd (line_step E s ev) = frames_in [ev] \<and> list_all idle (fst (fst (line_step E s ev)))"
proof (cases ev)
  case (LFrame m f)
  then show ?thesis using through_idle [OF assms] by (simp add: line_step_def)
next
  case (LExpire m k)
  have "list_all idle (drop k (fst s))" using assms by (metis append_take_drop_id list_all_append)
  then have "line_step E s ev = (s, [])"
    using LExpire by (auto simp: line_step_def idle_def split: list.split plug.split)
  with assms LExpire show ?thesis by simp
qed

text \<open>C18: Nine of the registered processors do nothing when a configuration builds them: the gate never closes, the
  response and the recording have no callback, the filter no predicate, the notifier nobody to notify, and the
  summarizer a context that stays empty. A line of them, with any options, is an echo: everything that comes in
  reaches the sink unchanged.\<close>

theorem inert_plugins_echo:
  assumes "set (cf_Plugins c) \<subseteq> set inert_names"
  shows "snd (run (line_step E) (plugin_pipeline (registry fnd) c, st) evs) = frames_in evs"
proof -
  have start: "list_all idle (plugin_pipeline (registry fnd) c)"
  proof (rule pipeline_all)
    fix name ctor opts
    assume "name \<in> set (cf_Plugins c)" "registry fnd name = Some ctor"
    then show "idle (ctor name opts)" using assms registered_idle by blast
  qed (simp add: idle_def)
  have "snd (run (line_step E) (plugin_pipeline (registry fnd) c, st) evs) = concat (map (\<lambda>ev. frames_in [ev]) evs) \<and>
    list_all idle (fst (fst (run (line_step E) (plugin_pipeline (registry fnd) c, st) evs)))"
  proof (rule run_keeps [where keep = "\<lambda>x. x" and I = "\<lambda>t. list_all idle (fst t)"])
    fix t :: "plug list \<times> 'a world_ids" and ev
    assume "list_all idle (fst t)"
    then show "snd (line_step E t ev) = frames_in [ev] \<and> list_all idle (fst (fst (line_step E t ev)))"
      by (rule line_step_idle)
  qed (use start in simp_all)
  moreover have "concat (map (\<lambda>ev. frames_in [ev]) evs) = frames_in evs"
    by (induction evs) (simp, subst (2) frames_in_Cons, simp)
  ultimately show ?thesis by simp
qed

definition gate_config :: config where
  "gate_config = zero_config\<lparr>cf_Plugins := [''gated'', ''audio_buffer'', ''llmcontextsummarizer'']\<rparr>"

definition still_moment :: moment where
  "still_moment = \<lparr>mo_now = 0, mo_stamp = [], mo_uuid = ''u''\<rparr>"

text \<open>A world in which every service is down, nothing is JSON and no phrase is found.\<close>

definition still_env :: "unit plug_env" where
  "still_env =
     \<lparr>pg_api = (\<lambda>w _ _ _. (Inl ''down'', w)), pg_parse = (\<lambda>_. None), pg_secs = (\<lambda>_. 0), pg_find = (\<lambda>_ _. None)\<rparr>"

theorem inert_plugins_echo_witness:
  "snd (run (line_step still_env) (plugin_pipeline (registry (pg_find still_env)) gate_config, (), 1)
     [LFrame still_moment (Frame (NewBaseWithID 1) LLMFullResponseStartFrame), LExpire still_moment 0]) =
   [Frame (NewBaseWithID 1) LLMFullResponseStartFrame]"
  using inert_plugins_echo [of gate_config still_env "pg_find still_env" "((), 1)"
      "[LFrame still_moment (Frame (NewBaseWithID 1) LLMFullResponseStartFrame), LExpire still_moment 0]"]
  by (simp add: gate_config_def inert_names_def del: run.simps)

text \<open>An unknown name leaves an echo and nothing else, also when other names are known.\<close>

lemma unknown_plugin: "list_ex (\<lambda>n. reg n = None) names \<Longrightarrow> \<exists>e. plugins_of reg opts names = Inl e"
  by (induction names) (auto split: option.splits sum.splits)

lemma unknown_plugin_echoes:
  "list_ex (\<lambda>n. reg n = None) (cf_Plugins c) \<Longrightarrow> plugin_pipeline reg c = [PEcho]"
  using unknown_plugin [of reg "cf_Plugins c" "cf_PluginOptions c"] by (auto simp: plugin_pipeline_def)

end
