(* ===== verification/Startup.thy ===== *)
theory Startup
  imports VoiceCall
begin

text \<open>
  The command: \<^verbatim>\<open>main\<close> of \<^verbatim>\<open>cmd/voxray/main.go\<close> with the flags parsed, and the scaffolding of a
  configuration, \<^verbatim>\<open>cmd/voxray/init.go\<close>. The file system and the server run are parameters; a JSON text is its
  value, and the keys of a map are written in order.
\<close>

section \<open>Scaffolding\<close>

definition default_config :: any where
  "default_config = AObj
     [(''allow_interruptions'', ABool True), (''host'', AStr ''localhost''),
      (''interruption_strategy'', AStr ''keyword''), (''min_words'', ANum 3), (''model'', AStr ''gpt-3.5-turbo''),
      (''plugins'', AArr [AStr ''echo'']), (''port'', ANum 8080), (''provider'', AStr ''openai''),
      (''transport'', AStr ''websocket''), (''turn_detection'', AStr ''silence''),
      (''turn_max_duration_secs'', ANum 8), (''turn_pre_speech_ms'', ANum 500), (''turn_stop_secs'', ANum 3),
      (''vad_confidence'', ANum (7/10)), (''vad_min_volume'', ANum (6/10)), (''vad_start_secs'', ANum 0),
      (''vad_start_secs_vad'', ANum (2/10)), (''vad_stop_secs'', ANum (5/10)), (''vad_threshold'', ANum (2/100)),
      (''vad_type'', AStr ''energy''), (''webrtc_ice_servers'', AArr [])]"

datatype file_op = WriteFile string any | MkdirAll string

text \<open>\<open>fs\<close> is what the file system answers; the operations done are the second component.\<close>

fun make_dirs :: "(file_op \<Rightarrow> err option) \<Rightarrow> string list \<Rightarrow> err option \<times> file_op list" where
  "make_dirs fs [] = (None, [])"
| "make_dirs fs (dir # dirs) =
     (case fs (MkdirAll dir) of
        Some e \<Rightarrow> (Some (''mkdir '' @ dir @ '': '' @ e), [MkdirAll dir])
      | None \<Rightarrow> (let (e, ops) = make_dirs fs dirs in (e, MkdirAll dir # ops)))"

definition runInit :: "(file_op \<Rightarrow> err option) \<Rightarrow> string \<Rightarrow> bool \<Rightarrow> err option \<times> file_op list" where
  "runInit fs path create_dirs =
     (let p = (if path = [] then ''config.json'' else path) in
      case fs (WriteFile p default_config) of
        Some e \<Rightarrow> (Some (''write '' @ p @ '': '' @ e), [WriteFile p default_config])
      | None \<Rightarrow>
          (let (e, ops) = (if create_dirs then make_dirs fs [''plugins'', ''logs''] else (None, []))
           in (e, WriteFile p default_config # ops)))"

section \<open>The command\<close>

record command_line =
  ln_config :: "string option"
  ln_init :: bool
  ln_flags :: run_flags
  ln_args :: "string list"

text \<open>The exit status, with the file operations of the scaffolding. \<open>serve\<close> is \<^verbatim>\<open>run\<close>: whether the shutdown
  was forced, and the error.\<close>

definition main_program ::
  "env \<Rightarrow> (file_op \<Rightarrow> err option) \<Rightarrow> (string \<Rightarrow> run_flags \<Rightarrow> bool \<times> err option) \<Rightarrow> command_line
     \<Rightarrow> nat \<times> file_op list" where
  "main_program env fs serve cmd =
     (let defaultConfig = (if env ''VOXRAY_CONFIG'' \<noteq> [] then env ''VOXRAY_CONFIG'' else ''config.json'');
          configPath = (case ln_config cmd of None \<Rightarrow> defaultConfig | Some p \<Rightarrow> p)
      in if ln_args cmd \<noteq> [] \<and> hd (ln_args cmd) = ''init''
         then (let (e, ops) = runInit fs (if length (ln_args cmd) \<ge> 2 then ln_args cmd ! 1 else configPath) True
               in (if e \<noteq> None then 1 else 0, ops))
         else if ln_init cmd
         then (let (e, ops) = runInit fs configPath True in (if e \<noteq> None then 1 else 0, ops))
         else (let (forced, e) = serve configPath (ln_flags cmd)
               in (if e \<noteq> None then 1 else if forced then 1 else 0, [])))"

text \<open>The transcript store the process opens: driver, data source and table.\<close>

definition transcript_store :: "config \<Rightarrow> (string \<times> string \<times> string) option" where
  "transcript_store c =
     (let t = cf_Transcripts c
      in if tc_Enable t \<and> tc_Driver t \<noteq> [] \<and> tc_DSN t \<noteq> [] then Some (tc_Driver t, tc_DSN t, tc_TableName t) else None)"

text \<open>The frame that starts a session, and the bound of its input queue if it is set.\<close>

definition session_start :: "config \<Rightarrow> u64 \<Rightarrow> frame \<times> u64" where
  "session_start c ids =
     (let (f, ids') = NewStartFrame ids
      in (case fbody f of
            StartFrame r o' allow m s \<Rightarrow> (Frame (fbase f) (StartFrame r o' (cf_AllowInterruptions c) m s), ids')
          | _ \<Rightarrow> (f, ids')))"

definition session_queue_cap :: "config \<Rightarrow> int \<Rightarrow> int" where
  "session_queue_cap c dflt = (if cf_PipelineInputQueueCap c > 0 then cf_PipelineInputQueueCap c else dflt)"

section \<open>What is scaffolded can be served\<close>

lemma init_writes_config:
  "fs (WriteFile (if path = [] then ''config.json'' else path) default_config) = None \<Longrightarrow>
   WriteFile (if path = [] then ''config.json'' else path) default_config \<in> set (snd (runInit fs path create_dirs))"
  by (simp add: runInit_def Let_def case_prod_beta)

lemma init_status:
  "(\<And>op. fs op = None) \<Longrightarrow> runInit fs path True =
     (None, [WriteFile (if path = [] then ''config.json'' else path) default_config, MkdirAll ''plugins'', MkdirAll ''logs''])"
  by (simp add: runInit_def)

lemma scaffold_loads:
  assumes "rf path = Inr (Some default_config)"
  shows "\<exists>c. load_settings rf (\<lambda>_. []) path fl = Inr (apply_flags fl c) \<and> useVoice c \<and> TurnEnabled c \<and>
    cf_Port c = 8080 \<and> cf_Plugins c = [''echo''] \<and> cf_VADMinVolume c = 6/10"
proof -
  obtain c where c: "json_into config_fields default_config zero_config = Some c"
    "cf_Provider c = ''openai''" "cf_Model c = ''gpt-3.5-turbo''" "cf_TurnDetection c = ''silence''"
    "cf_Port c = 8080" "cf_Plugins c = [''echo'']" "cf_VADMinVolume c = 6/10"
    "tc_Enable (cf_Transcripts c) = False" "cf_SessionStore c = []"
    by (simp add: default_config_def json_simps config_fields_def ToLower_def lower_char_def zero_config_def
        set_list_def set_strings_def)
  have "ApplyEnvOverrides (\<lambda>_. []) c = c"
    by (cases c) (simp add: ApplyEnvOverrides_def override_def override2_def recording_overrides_def transcript_overrides_def)
  with assms c have "load_settings rf (\<lambda>_. []) path fl = Inr (apply_flags fl c)"
    by (simp add: load_settings_def LoadConfig_def Validate_def)
  with c show ?thesis by (intro exI [of _ c]) (simp add: useVoice_def TurnEnabled_def)
qed

end
