(* ===== verification/Spec2Isabelle.thy ===== *)
theory Spec2Isabelle
  imports AudioLaw Wav Wire RunnerTask Parallel Voice AudioProc FilterProcs Aggregators Ivr Voicemail
    Observers Telephony JsonFrames WebSocket Reconnect WebRtc VoiceCall Mcp TtsClients Server
    ExternalChain Rtvi Envelopes Realtime WhatsApp Mixers Metrics Transcripts Evals Support Listening Plugins Startup
begin

text \<open>
  A verification development for Voxray, a server for real-time voice agents written in Go. A
  client's audio comes in over a transport; a pipeline of processors detects speech and turns,
  transcribes, asks a language model and speaks the answer; frames carry all of it, downstream
  from the transport to its output and upstream for errors and interruptions.

  \<^bold>\<open>How the program works and where it is modelled.\<close>

  \<^item> \<open>VoxPrelude\<close>: bytes and little-endian integers of \<^verbatim>\<open>encoding/binary\<close>, Go error values, the
    locales \<open>machine\<close> and \<open>machine_out\<close> (a step function with an invariant, and one whose outputs
    satisfy a predicate), and lists shared by all. \<open>GoStrings\<close>: the parts of \<^verbatim>\<open>strings\<close> and
    \<^verbatim>\<open>strconv\<close> the code uses; a Go string is its bytes.

  \<^item> \<open>AudioPcm\<close>, \<open>AudioLaw\<close>, \<open>Wav\<close> (\<^verbatim>\<open>pkg/audio\<close>, \<^verbatim>\<open>pkg/recording\<close>): PCM helpers, mu-law and
    A-law tables and encoders at machine width, WAV files and the recorder. Shown: the tables are
    those of G.711, buffers keep their length and samples their sign, the encoders do not invert
    the tables, written files are read back, a closed recorder file is the one-shot image.

  \<^item> \<open>Frames\<close> (\<^verbatim>\<open>pkg/frames\<close>): a frame is a \<open>base\<close> record and a \<open>body\<close> with one constructor per Go
    frame type. The package-level id counter is threaded through the constructor functions.

  \<^item> \<open>Wire\<close> (\<^verbatim>\<open>pkg/frames/serialize/wire.go\<close>, \<^verbatim>\<open>pkg/frames/proto/wire/envelope.go\<close>): varints,
    fields and messages at byte level with 64-bit wrap-around. Shown: round trips of frames and
    envelopes and a length check that wraps. \<open>serializer\<close> is the interface, interpreted on
    the protobuf codec.

  \<^item> \<open>FrameQueue\<close> (\<^verbatim>\<open>pkg/processors/queue.go\<close>): the priority queue behind the locale \<open>urgent_queue\<close>,
    its blocking \<^verbatim>\<open>Get\<close> as the step relation \<open>qstep\<close> over any number of consumers. Shown: order
    of delivery, no lost wake-up with one consumer, a lost one with two.

  \<^item> \<open>Chain\<close> (\<^verbatim>\<open>pkg/processors/processor.go\<close>, \<^verbatim>\<open>filter.go\<close>, and \<^verbatim>\<open>pipeline.go\<close>,
    \<^verbatim>\<open>source_sink.go\<close>, \<^verbatim>\<open>pipeline_processor.go\<close>, \<^verbatim>\<open>registry.go\<close> of \<^verbatim>\<open>pkg/pipeline\<close>): processors
    as objects of a store with next and previous links. Shown: \<^verbatim>\<open>Link\<close> builds a doubly linked
    chain; a nested pipeline carries a frame to the processor after it.

  \<^item> \<open>RunnerTask\<close> (\<^verbatim>\<open>runner.go\<close>, \<^verbatim>\<open>task.go\<close>, \<^verbatim>\<open>task_observer.go\<close>): start-up and deferred clean-up
    as the list of their calls; reader, worker, drain and observer goroutines as the step
    relations \<open>rstep\<close>, \<open>tstep\<close> and \<open>ostep\<close>, one channel operation per step. Shown by rule
    induction: input is delivered in order within the bound of the channel, nothing follows a
    terminal frame, and a send can hit the closed queue.

  \<^item> \<open>Parallel\<close> (\<^verbatim>\<open>parallel.go\<close>, \<^verbatim>\<open>sync_parallel.go\<close>, \<^verbatim>\<open>service_switcher.go\<close>): fan-out to
    branches. Shown: data frames are deduplicated, a lifecycle frame is released when the last
    branch passes it, before all that was held back, rounds of the synchronous variant, and which service is active. The locale
    \<open>switch_strategy\<close> is the strategy interface of the switcher.

  \<^item> \<open>Vad\<close> (\<^verbatim>\<open>pkg/audio/vad\<close>), \<open>Turn\<close> (\<^verbatim>\<open>pkg/audio/turn\<close>): the voice-activity state machine over
    windows with the energy backend (\<open>voice_backend\<close>), the silence analyzer, the turn strategies
    (\<open>trigger\<close>) and the user turn controller with the callbacks of its timers as events, late ones
    included. Shown: chunking does not matter, utterances are debounced while the report inside one
    follows every window, a turn completes on enough silence, started and stopped frames alternate, and
    a late idle callback reports the user idle inside a turn.

  \<^item> \<open>Handler\<close>, \<open>Voice\<close>, \<open>AudioProc\<close>, \<open>FilterProcs\<close> (\<^verbatim>\<open>pkg/processors/voice\<close>, \<^verbatim>\<open>audio\<close>,
    \<^verbatim>\<open>filters\<close>, \<^verbatim>\<open>pkg/audio/interruptions\<close>, \<^verbatim>\<open>pkg/audio/filters\<close>): handlers as functions from
    state, frame and direction to the new state, the frames pushed and the error. Locales:
    \<open>handler\<close> (runs with an invariant), \<open>interruption_strategy\<close>, \<open>sample_filter\<close>, \<open>frame_filter\<close>.
    Shown: interruptions at most once per bot speech, audio is conserved by the turn processor,
    bounded recording tracks, and where the VAD processor and the mute filter differ from their
    documentation.

  \<^item> \<open>TextAgg\<close> (\<^verbatim>\<open>pkg/utils\<close>): sentence and delimiter aggregation of streamed text. Shown: no text
    is lost, and what stays in the buffers is incomplete.

  \<^item> \<open>VoiceServices\<close>, \<open>Tts\<close> (\<^verbatim>\<open>stt.go\<close>, \<^verbatim>\<open>llm.go\<close>, \<^verbatim>\<open>tts.go\<close> of \<^verbatim>\<open>pkg/processors/voice\<close>): the
    processors around the three services, whose answers are arguments, and the voice line they form.
    Shown: audio reaches the transcription, requests carry the whole history, answers are spoken, and
    the controller behind the model never sees a transcript.

  \<^item> \<open>Aggregators\<close>, \<open>Ivr\<close>, \<open>Voicemail\<close> (\<^verbatim>\<open>aggregators\<close>, \<^verbatim>\<open>extensions\<close>): gated contexts, DTMF keys,
    dialogue context and its summary, navigation of telephone menus, voicemail detection with its gate.
    Shown: keys are reported in order, bare digits are ignored, and the detector never decides.

  \<^item> \<open>Observers\<close> (\<^verbatim>\<open>pkg/observers\<close>): turn tracking, latency and transcript; reports from goroutines and
    the expiry of timers are events.

  \<^item> \<open>GoJson\<close>, \<open>JsonFrames\<close>, \<open>Telephony\<close> (\<^verbatim>\<open>pkg/frames/serialize\<close>, \<^verbatim>\<open>pkg/runner\<close>): JSON values and
    the decoding of Go structs from them, the JSON envelope of frames, and the serializers of Twilio,
    Telnyx, Plivo, Exotel, Vonage, Genesys with their hang-up requests. Strings are bytes; the encoder
    replaces what is no UTF-8. Shown: frames with valid texts are read back, a call is hung up once, and a
    call id that does not fit into an address makes the hang-up panic.

  \<^item> \<open>WebSocket\<close>, \<open>Reconnect\<close> (\<^verbatim>\<open>pkg/transport/websocket\<close>, \<^verbatim>\<open>pkg/services\<close>): a connection with its
    reader, writer, watchdog and closing as steps; the waiting times and the loop of reconnection.
    Shown: order and bounds of delivery, idle connections are closed, waiting times overflow.

  \<^item> \<open>WebRtc\<close> (\<^verbatim>\<open>pkg/transport/smallwebrtc\<close>): signalling, connection states, packets in and speech out, with
    the codec a parameter. Shown: decoded audio is conserved, a barge-in spares the speech queued before it.

  \<^item> \<open>Config\<close>, \<open>ServiceFactory\<close> (\<^verbatim>\<open>pkg/config\<close>, \<^verbatim>\<open>pkg/services/factory.go\<close>): the configuration from file
    and environment with its defaults, validation and cache of keys, and which client a provider name
    gets with which key.

  \<^item> \<open>Sessions\<close> (\<^verbatim>\<open>pkg/runner\<close>): the interface \<open>session_store\<close> with the time of each call and the life of a
    session, its memory implementation, where sessions live for ever, its Redis implementation over
    \<open>redis_laws\<close>, where they end with their time to live, the registries, and the idempotency store.

  \<^item> \<open>Daily\<close>, \<open>Http\<close>, \<open>Server\<close> (\<^verbatim>\<open>pkg/runner/daily\<close>, \<^verbatim>\<open>pkg/api\<close>, \<^verbatim>\<open>pkg/server\<close>): rooms and tokens, the
    JSON envelopes and CORS, and every HTTP handler as a function from request and \<open>world\<close> to response
    and \<open>world\<close>; \<open>serve\<close> routes a request as \<^verbatim>\<open>ServeMux\<close> does and \<open>run\<close> serves any sequence of them.
    Shown: without the key nothing changes, a started session can be joined as long as it lives, starts
    are idempotent, and with metrics on no telephone line can be taken over.

  \<^item> \<open>Uploader\<close> (\<^verbatim>\<open>pkg/recording/uploader.go\<close>): an upload with its retries, and the pool of workers as steps.
    Shown: retries are bounded, and after a shutdown every accepted job is handled exactly once.

  \<^item> \<open>VoiceCall\<close> (\<^verbatim>\<open>cmd/voxray/main.go\<close>): settings and flags, the pipeline of a call as one machine
    from the transport's frames to the transport, and the end of sessions and of the process. Shown: a
    steady voice is announced in bounded time, a caller below the least volume is never heard (both with
    turn detection on and the energy detector), what is saved is the user's own track at half the
    amplitude, and when the uploader survives the end of the process.

  \<^item> \<open>Remote\<close>, \<open>LlmClients\<close>, \<open>Mcp\<close>, \<open>SttClients\<close>, \<open>TtsClients\<close> (\<^verbatim>\<open>pkg/services\<close>, \<^verbatim>\<open>pkg/mcp\<close>): what the
    clients of remote services send and what they make of each answer, with the network, the SDKs and the
    JSON parser as parameters. The interfaces are locales (\<open>transcription_client\<close>, \<open>speech_client\<close> and
    that of the language models), interpreted on every client. Shown: with streams as the API documents
    them no tool is ever run, each provider is asked at its own address with its own key, uploads decode.

  \<^item> \<open>ExternalChain\<close>, \<open>Rtvi\<close> (\<^verbatim>\<open>pkg/processors/frameworks\<close>), \<open>Envelopes\<close>
    (\<^verbatim>\<open>pkg/frames/serialize/protobuf.go\<close>): a chain asked over HTTP and its answer as a stream of events,
    the RTVI messages, frames in length-prefixed envelopes. Shown: a streamed answer is heard complete and in
    order, an answer is bracketed whatever the service does, enveloped frames are read back.

  \<^item> \<open>Realtime\<close>, \<open>WhatsApp\<close>, \<open>Mixers\<close> (\<^verbatim>\<open>pkg/realtime\<close>, \<^verbatim>\<open>pkg/transport/whatsapp\<close>,
    \<^verbatim>\<open>pkg/audio/mixers\<close>): sessions with their goroutines as the step relations \<open>rt_step\<close> and \<open>mx_step\<close>, and
    the webhook. Shown: events and the chunks of each input keep their order, closing can panic, and every
    reply goes to the first sender.

  \<^item> \<open>Metrics\<close>, \<open>Transcripts\<close>, \<open>Evals\<close>, \<open>Support\<close> (\<^verbatim>\<open>pkg/metrics\<close>, \<^verbatim>\<open>pkg/transcripts\<close>, \<^verbatim>\<open>pkg/evals\<close>,
    \<^verbatim>\<open>pkg/logger\<close>, \<^verbatim>\<open>pkg/plugin\<close>, \<^verbatim>\<open>pkg/runner/livekit\<close>): collectors with their labels and each update, the
    SQL store over a database that is a parameter with the laws of the forms of statements
    (\<open>sql_inserts\<close>, \<open>sql_selects\<close>), evaluation runs, log lines, LiveKit settings. Shown: no update of a
    metric panics, a saved conversation is read back, a verdict may depend on the order of goroutines.

  \<^item> \<open>Listening\<close>, \<open>Plugins\<close>, \<open>Startup\<close> (\<^verbatim>\<open>pkg/server\<close>, \<^verbatim>\<open>pkg/transport/websocket\<close>, \<^verbatim>\<open>pkg/pipeline\<close>,
    \<^verbatim>\<open>cmd/voxray\<close>): the limits of the HTTP server and its TLS files, the registry of processors with their
    options and the line a configuration builds of them (\<open>plugin_step\<close>, \<open>line_step\<close>), the command and the
    configuration it scaffolds. Shown: the limits are always set, control frames pass any line of plugins, a
    line of the plugins that lack their callbacks is an echo, the scaffolded configuration loads.

  \<^bold>\<open>Conventions.\<close> A pointer to a struct that is updated is a record returned updated; \<^verbatim>\<open>nil\<close> is
  \<open>None\<close>; a Go error is \<open>Some\<close> message or \<open>None\<close>. Bytes, samples, ids and varints are words; Go's
  \<^verbatim>\<open>int\<close> is \<open>int\<close> or \<open>nat\<close> where it cannot overflow in practice, and \<^verbatim>\<open>float64\<close> is the reals or
  rationals, so rounding is not modelled. A mutex section is one step. Neighbours of a processor,
  services, the network, files, the clock and \<^verbatim>\<open>regexp\<close> are parameters. A JSON text is its value
  (\<open>GoJson\<close>), so \<^verbatim>\<open>encoding/json\<close> is the identity on it, except that \<open>JsonFrames\<close> replaces invalid UTF-8. Random ids are numbers drawn in turn and
  named by a parameter. What a clock, a timer or another goroutine does is an event of the sequence a
  theorem quantifies over. Log lines are left out except in \<open>Support\<close>, updates of metrics except in \<open>Metrics\<close>.

  \<^bold>\<open>Fuel.\<close> \<open>process_frame\<close> of \<open>Chain\<close> takes the depth of the Go call stack; a chain of \<open>n\<close> processors
  needs no more than its length, and the theorems give the amount. \<open>feed_loop\<close> of \<open>TextAgg\<close> takes a
  bound on the number of matches; the length of the buffer plus one is enough unless both
  delimiters are empty (\<open>feed_terminates\<close>), where the code does not return. Everything else
  terminates by structure or by a measure.

  \<^bold>\<open>Not modelled.\<close> The Silero detector is a cgo library; the generated API documentation, the SDK stub,
  the example programs and the two demonstration commands are glue; schema types have no operations.
  The insides of the libraries (HTTP, WebSocket, WebRTC and its codecs, SQL, Redis, S3, Prometheus, the SDKs of
  the providers, hashes and signatures, regular expressions) are parameters with documented laws. Type
  switches that only log are left out.
\<close>

end
